(* ===== verification/Prelude.thy ===== *)
theory Prelude
  imports Main
begin

text \<open>
  The vocabulary every component shares.

  The source is TypeScript on Node.js: an \<open>async\<close> method reads and writes an outside
  world (Postgres, Redis, the clock, the injected services) and either resolves with a value
  or rejects with an error.  Here such a method is a state-passing function: a type
  \<open>'w\<close> stands for the world, and \<open>('w, 'a) act\<close> is a call that returns either
  \<open>Inl e\<close>, the error it rejects with, or \<open>Inr v\<close>, the value it resolves with,
  and the world it leaves behind; \<open>('w, 'e, 'a) eact\<close> is the same with errors of another type.  A call that cannot reject is an \<open>('w, 'a) io\<close>.
  \<open>act_bind\<close> is \<open>await\<close> (a rejection skips the rest), \<open>act_catch\<close> is
  \<open>try ... catch\<close> and \<open>act_finally\<close> is \<open>try ... finally\<close>.

  Times are milliseconds since the epoch.  A time text is modelled by what
  \<open>Date.parse\<close> makes of it: \<open>Some t\<close>, or \<open>None\<close> for a text it rejects
  with \<open>NaN\<close>; every comparison with \<open>NaN\<close> is false.  Strings are lists of
  bytes; white space for \<open>trim\<close> is the ASCII white space.
\<close>

section \<open>Automation\<close>

named_theorems keeps_intro \<open>rules that show a call leaves a view of the world unchanged\<close>
named_theorems total_intro \<open>rules that show a call never rejects\<close>
named_theorems act_simps \<open>how the combinators of effectful calls compute\<close>

section \<open>Effectful calls\<close>

type_synonym exn = string
type_synonym ('w, 'a) io = "'w \<Rightarrow> 'a \<times> 'w"
type_synonym ('w, 'e, 'a) eact = "'w \<Rightarrow> ('e + 'a) \<times> 'w"
type_synonym ('w, 'a) act = "('w, exn, 'a) eact"
type_synonym time_text = "int option"

definition act_ret :: "'a \<Rightarrow> ('w, 'e, 'a) eact" where
  "act_ret v = (\<lambda>w. (Inr v, w))"

definition act_throw :: "'e \<Rightarrow> ('w, 'e, 'a) eact" where
  "act_throw e = (\<lambda>w. (Inl e, w))"

definition act_bind :: "('w, 'e, 'a) eact \<Rightarrow> ('a \<Rightarrow> ('w, 'e, 'b) eact) \<Rightarrow> ('w, 'e, 'b) eact" where
  "act_bind m k = (\<lambda>w. case m w of (Inl e, w') \<Rightarrow> (Inl e, w') | (Inr v, w') \<Rightarrow> k v w')"

definition act_catch :: "('w, 'e, 'a) eact \<Rightarrow> ('e \<Rightarrow> ('w, 'e, 'a) eact) \<Rightarrow> ('w, 'e, 'a) eact" where
  "act_catch m h = (\<lambda>w. case m w of (Inl e, w') \<Rightarrow> h e w' | (Inr v, w') \<Rightarrow> (Inr v, w'))"

definition act_finally :: "('w, 'e, 'a) eact \<Rightarrow> ('w, 'e, unit) eact \<Rightarrow> ('w, 'e, 'a) eact" where
  "act_finally m f = (\<lambda>w. case m w of (r, w') \<Rightarrow>
     (case f w' of (Inl e, w'') \<Rightarrow> (Inl e, w'') | (Inr _, w'') \<Rightarrow> (r, w'')))"

definition act_of_io :: "('w, 'a) io \<Rightarrow> ('w, 'e, 'a) eact" where
  "act_of_io m = (\<lambda>w. case m w of (v, w') \<Rightarrow> (Inr v, w'))"

fun act_for :: "'a list \<Rightarrow> ('a \<Rightarrow> ('w, 'e, unit) eact) \<Rightarrow> ('w, 'e, unit) eact" where
  "act_for [] f = act_ret ()"
| "act_for (x # xs) f = act_bind (f x) (\<lambda>_. act_for xs f)"

lemma act_ret_run [act_simps, simp]: "act_ret v w = (Inr v, w)"
  by (simp add: act_ret_def)

lemma act_throw_run [act_simps, simp]: "act_throw e w = (Inl e, w)"
  by (simp add: act_throw_def)

lemma act_bind_Inr [act_simps]: "m w = (Inr v, w') \<Longrightarrow> act_bind m k w = k v w'"
  by (simp add: act_bind_def)

lemma act_bind_Inl [act_simps]: "m w = (Inl e, w') \<Longrightarrow> act_bind m k w = (Inl e, w')"
  by (simp add: act_bind_def)

lemma act_bind_ret [simp]: "act_bind (act_ret v) k = k v"
  by (rule ext) (simp add: act_bind_def)

lemma act_bind_throw [simp]: "act_bind (act_throw e) k = act_throw e"
  by (rule ext) (simp add: act_bind_def)

lemma act_bind_assoc: "act_bind (act_bind m f) g = act_bind m (\<lambda>x. act_bind (f x) g)"
  by (rule ext) (simp add: act_bind_def split: prod.splits sum.splits)

lemma act_catch_Inr [act_simps]: "m w = (Inr v, w') \<Longrightarrow> act_catch m h w = (Inr v, w')"
  by (simp add: act_catch_def)

lemma act_catch_Inl [act_simps]: "m w = (Inl e, w') \<Longrightarrow> act_catch m h w = h e w'"
  by (simp add: act_catch_def)

text \<open>Where a resolved value came from.\<close>

lemma act_bind_InrE:
  assumes "act_bind m k w = (Inr v, w')"
  obtains x w1 where "m w = (Inr x, w1)" and "k x w1 = (Inr v, w')"
  using assms by (auto simp: act_bind_def split: prod.splits sum.splits)

lemma act_catch_InrE:
  assumes "act_catch m h w = (Inr v, w')"
  obtains "m w = (Inr v, w')" | e w1 where "m w = (Inl e, w1)" and "h e w1 = (Inr v, w')"
  using assms by (auto simp: act_catch_def split: prod.splits sum.splits)

lemma act_finally_InrE:
  assumes "act_finally m f w = (Inr v, w')"
  obtains w1 where "m w = (Inr v, w1)"
  using assms by (auto simp: act_finally_def split: prod.splits sum.splits)

section \<open>Calls that keep a view of the world\<close>

text \<open>
  \<open>keeps f m\<close>: whatever the call \<open>m\<close> returns, the view \<open>f\<close> of the world
  is what it was.  The view is usually the log of the external effects that have happened.
\<close>

definition keeps :: "('w \<Rightarrow> 'v) \<Rightarrow> ('w \<Rightarrow> 'a \<times> 'w) \<Rightarrow> bool" where
  "keeps f m \<longleftrightarrow> (\<forall>w. f (snd (m w)) = f w)"

lemma keepsI: "(\<And>w. f (snd (m w)) = f w) \<Longrightarrow> keeps f m"
  by (simp add: keeps_def)

lemma keepsD: "keeps f m \<Longrightarrow> m w = (r, w') \<Longrightarrow> f w' = f w"
  unfolding keeps_def by (metis snd_conv)

lemma keeps_ret [keeps_intro]: "keeps f (act_ret v)"
  by (simp add: keeps_def)

lemma keeps_throw [keeps_intro]: "keeps f (act_throw e)"
  by (simp add: keeps_def)

lemma keeps_bind [keeps_intro]:
  "keeps f m \<Longrightarrow> (\<And>v. keeps f (k v)) \<Longrightarrow> keeps f (act_bind m k)"
  unfolding keeps_def act_bind_def by (auto split: prod.splits sum.splits) (metis snd_conv)+

lemma keeps_catch [keeps_intro]:
  "keeps f m \<Longrightarrow> (\<And>e. keeps f (h e)) \<Longrightarrow> keeps f (act_catch m h)"
  unfolding keeps_def act_catch_def by (auto split: prod.splits sum.splits) (metis snd_conv)+

lemma keeps_finally [keeps_intro]:
  "keeps f m \<Longrightarrow> keeps f g \<Longrightarrow> keeps f (act_finally m g)"
  unfolding keeps_def act_finally_def by (auto split: prod.splits sum.splits) (metis snd_conv)+

lemma keeps_of_io [keeps_intro]: "keeps f m \<Longrightarrow> keeps f (act_of_io m)"
  unfolding keeps_def act_of_io_def by (auto split: prod.splits) (metis snd_conv)+

lemma keeps_if [keeps_intro]: "keeps f m \<Longrightarrow> keeps f n \<Longrightarrow> keeps f (if b then m else n)"
  by simp

lemma keeps_case_option [keeps_intro]:
  "keeps f m \<Longrightarrow> (\<And>x. keeps f (n x)) \<Longrightarrow> keeps f (case z of None \<Rightarrow> m | Some x \<Rightarrow> n x)"
  by (cases z) simp_all

lemma keeps_case_sum [keeps_intro]:
  "(\<And>e. keeps f (m e)) \<Longrightarrow> (\<And>x. keeps f (n x)) \<Longrightarrow> keeps f (case z of Inl e \<Rightarrow> m e | Inr x \<Rightarrow> n x)"
  by (cases z) simp_all

lemma keeps_case_bool [keeps_intro]:
  "keeps f m \<Longrightarrow> keeps f n \<Longrightarrow> keeps f (case b of True \<Rightarrow> m | False \<Rightarrow> n)"
  by (cases b) simp_all

lemma keeps_case_prod [keeps_intro]:
  "(\<And>a b. keeps f (m a b)) \<Longrightarrow> keeps f (case z of (a, b) \<Rightarrow> m a b)"
  by (cases z) simp

lemma keeps_for [keeps_intro]: "(\<And>x. keeps f (g x)) \<Longrightarrow> keeps f (act_for xs g)"
  by (induction xs) (auto intro: keeps_intro)

section \<open>Calls that never reject\<close>

definition never_rejects :: "('w, 'e, 'a) eact \<Rightarrow> bool" where
  "never_rejects m \<longleftrightarrow> (\<forall>w. \<exists>v w'. m w = (Inr v, w'))"

lemma never_rejectsE:
  assumes "never_rejects m" obtains v w' where "m w = (Inr v, w')"
  using assms unfolding never_rejects_def by blast

lemma total_ret [total_intro]: "never_rejects (act_ret v)"
  by (simp add: never_rejects_def)

lemma total_bind [total_intro]:
  "never_rejects m \<Longrightarrow> (\<And>v. never_rejects (k v)) \<Longrightarrow> never_rejects (act_bind m k)"
  unfolding never_rejects_def act_bind_def
  by (clarsimp split: prod.splits sum.splits) (metis Inr_inject Inl_Inr_False prod.inject sum.distinct(1))

lemma total_catch [total_intro]: "(\<And>e. never_rejects (h e)) \<Longrightarrow> never_rejects (act_catch m h)"
  unfolding never_rejects_def act_catch_def by (simp split: prod.splits sum.splits)

lemma total_of_io [total_intro]: "never_rejects (act_of_io m)"
  by (auto simp: never_rejects_def act_of_io_def split: prod.splits)

lemma total_pure [total_intro]: "never_rejects (\<lambda>w. (Inr (f w), g w))"
  by (simp add: never_rejects_def)

lemma total_if [total_intro]:
  "(b \<Longrightarrow> never_rejects m) \<Longrightarrow> (\<not> b \<Longrightarrow> never_rejects n) \<Longrightarrow> never_rejects (if b then m else n)"
  by simp

lemma total_case_option [total_intro]:
  "never_rejects m \<Longrightarrow> (\<And>x. never_rejects (n x)) \<Longrightarrow> never_rejects (case z of None \<Rightarrow> m | Some x \<Rightarrow> n x)"
  by (cases z) simp_all

lemma total_case_sum [total_intro]:
  "(\<And>e. never_rejects (m e)) \<Longrightarrow> (\<And>x. never_rejects (n x)) \<Longrightarrow> never_rejects (case z of Inl e \<Rightarrow> m e | Inr x \<Rightarrow> n x)"
  by (cases z) simp_all

lemma total_case_bool [total_intro]:
  "never_rejects m \<Longrightarrow> never_rejects n \<Longrightarrow> never_rejects (case b of True \<Rightarrow> m | False \<Rightarrow> n)"
  by (cases b) simp_all

lemma total_case_prod [total_intro]:
  "(\<And>a b. never_rejects (m a b)) \<Longrightarrow> never_rejects (case z of (a, b) \<Rightarrow> m a b)"
  by (cases z) simp

section \<open>Times and numbers of the source\<close>

text \<open>\<open>a < b\<close>, \<open>a > b\<close> where the left side may be \<open>NaN\<close>.\<close>

definition before :: "time_text \<Rightarrow> int \<Rightarrow> bool" where
  "before t b = (case t of None \<Rightarrow> False | Some a \<Rightarrow> a < b)"

definition after :: "time_text \<Rightarrow> int \<Rightarrow> bool" where
  "after t b = (case t of None \<Rightarrow> False | Some a \<Rightarrow> b < a)"

lemma before_simps [simp]: "before None b = False" "before (Some a) b = (a < b)"
  by (simp_all add: before_def)

lemma after_simps [simp]: "after None b = False" "after (Some a) b = (b < a)"
  by (simp_all add: after_def)

section \<open>Text\<close>

definition is_space :: "char \<Rightarrow> bool" where
  "is_space c \<longleftrightarrow> of_char c \<in> {9, 10, 11, 12, 13, 32 :: nat}"

definition trim :: "string \<Rightarrow> string" where
  "trim s = rev (dropWhile is_space (rev (dropWhile is_space s)))"

definition blank :: "string \<Rightarrow> bool" where
  "blank s \<longleftrightarrow> trim s = []"

text \<open>A text in a backquote template of the source that prints a natural number.\<close>

fun show_nat :: "nat \<Rightarrow> string" where
  "show_nat n = (if n < 10 then [char_of (48 + n)] else show_nat (n div 10) @ [char_of (48 + n mod 10)])"

declare show_nat.simps [simp del]

definition show_int :: "int \<Rightarrow> string" where
  "show_int i = (if i < 0 then CHR ''-'' # show_nat (nat (- i)) else show_nat (nat i))"

lemma blank_iff: "blank s \<longleftrightarrow> (\<forall>c\<in>set s. is_space c)"
proof -
  have "blank s \<longleftrightarrow> (\<forall>c\<in>set (dropWhile is_space s). is_space c)"
    by (simp add: blank_def trim_def)
  also have "\<dots> \<longleftrightarrow> (\<forall>c\<in>set s. is_space c)"
    by (induction s) auto
  finally show ?thesis .
qed

end
