(* ===== verification/ActionContract.thy ===== *)
theory ActionContract
  imports Prelude
begin

text \<open>
  The data of external actions, as \<open>src/types/action-execution.contract.ts\<close> and
  \<open>src/biz/action-execution/action-execution.types.ts\<close> declare it: the modes, the
  journal states, the evidence an attempt leaves and the record the journal keeps.
  A JSON value (\<open>unknown\<close>, \<open>Record<string, unknown>\<close>, a result) is a \<open>jval\<close>.
\<close>

section \<open>JSON values\<close>

text \<open>
  \<open>JNum\<close> carries the text \<open>JSON.stringify\<close> prints for the number, \<open>None\<close> for
  the values that are not finite.  \<open>JUndef\<close> is \<open>undefined\<close> and \<open>JOther\<close> stands for
  what JSON does not know (functions, symbols, big integers).
\<close>

datatype jval =
    JNull
  | JBool bool
  | JNum "string option"
  | JStr string
  | JArr "jval list"
  | JObj "(string \<times> jval) list"
  | JUndef
  | JOther

section \<open>Stable wire values\<close>

datatype action_mode = OFF | OBSERVE | EXECUTE

fun mode_text :: "action_mode \<Rightarrow> string" where
  "mode_text OFF = ''off''"
| "mode_text OBSERVE = ''observe''"
| "mode_text EXECUTE = ''execute''"

text \<open>\<open>isActionMode\<close>: the values accepted are those of the constant object.\<close>

definition isActionMode :: "string \<Rightarrow> bool" where
  "isActionMode value \<longleftrightarrow> value \<in> set (map mode_text [OFF, OBSERVE, EXECUTE])"

definition mode_of_text :: "string \<Rightarrow> action_mode option" where
  "mode_of_text t = List.find (\<lambda>m. mode_text m = t) [OFF, OBSERVE, EXECUTE]"

datatype action_state = REGISTERED | EXECUTING | SUCCEEDED | FAILED | UNKNOWN | CANCELLED

datatype exec_status = Journal action_state | BLOCKED

datatype local_sync_state = PENDING | COMPLETE

datatype evidence_kind =
  COMPLETED | ACCEPTED | ALREADY_SATISFIED | DEFINITIVE_NO_EFFECT | INDETERMINATE

fun state_text :: "action_state \<Rightarrow> string" where
  "state_text REGISTERED = ''registered''"
| "state_text EXECUTING = ''executing''"
| "state_text SUCCEEDED = ''succeeded''"
| "state_text FAILED = ''failed''"
| "state_text UNKNOWN = ''unknown''"
| "state_text CANCELLED = ''cancelled''"

fun exec_status_text :: "exec_status \<Rightarrow> string" where
  "exec_status_text (Journal s) = state_text s"
| "exec_status_text BLOCKED = ''blocked''"

fun evidence_text :: "evidence_kind \<Rightarrow> string" where
  "evidence_text COMPLETED = ''completed''"
| "evidence_text ACCEPTED = ''accepted''"
| "evidence_text ALREADY_SATISFIED = ''already_satisfied''"
| "evidence_text DEFINITIVE_NO_EFFECT = ''definitive_no_effect''"
| "evidence_text INDETERMINATE = ''indeterminate''"

section \<open>Intents, evidence, records\<close>

record action_intent =
  corpId :: string
  accountId :: string
  chatId :: string
  logicalTurnId :: string
  intentId :: string
  kind :: string
  target :: string
  parameters :: jval
  occurredAt :: time_text
  recoveryWindowStartedAt :: "time_text option"
  identityReliable :: bool
  recovery :: "jval option"

record action_evidence =
  ev_kind :: evidence_kind
  externalId :: "string option"
  goalSatisfied :: "bool option"
  requestTerminated :: bool
  detail :: "string option"

text \<open>
  A completion carries one of the states \<open>SUCCEEDED\<close>, \<open>FAILED\<close>, \<open>UNKNOWN\<close>,
  \<open>EXECUTING\<close>; \<open>retryable\<close> is declared for failures only, \<open>None\<close> is an absent field.
\<close>

record action_completion =
  c_status :: action_state
  c_result :: "jval option"
  c_evidence :: action_evidence
  c_retryable :: "bool option"

record action_record =
  actionId :: string
  previousActionId :: "string option"
  requestId :: string
  intent :: action_intent
  payloadHash :: string
  mode :: action_mode
  status :: action_state
  localSync :: local_sync_state
  owner :: "string option"
  dispatchAttemptId :: "string option"
  fence :: nat
  attempts :: nat
  result :: "jval option"
  evidence :: "action_evidence option"
  retryable :: bool
  nextCheckAt :: "int option"
  recoveryDeadline :: int
  reviewRequired :: bool

record action_execution =
  x_actionId :: string
  x_requestId :: string
  x_status :: exec_status
  x_result :: "jval option"
  x_evidence :: "action_evidence option"
  x_localSync :: local_sync_state
  x_dispatched :: bool
  x_reason :: "string option"

section \<open>Which completions are conclusive\<close>

text \<open>
  The rule that both \<open>ActionExecutorService.dispatch\<close> and the SQL function
  \<open>transition_agent_action\<close> apply: a success whose request is not known to have
  ended, or a failure that does not prove that nothing happened, is recorded as unknown.
  It is the abstract specification the two are proved against.
\<close>

definition proves_no_effect :: "action_evidence \<Rightarrow> bool" where
  "proves_no_effect e \<longleftrightarrow> ev_kind e = DEFINITIVE_NO_EFFECT \<and> requestTerminated e"

definition conclusive_state :: "action_completion \<Rightarrow> action_state" where
  "conclusive_state c =
     (if c_status c = SUCCEEDED \<and> \<not> requestTerminated (c_evidence c) then UNKNOWN
      else if c_status c = FAILED \<and> \<not> proves_no_effect (c_evidence c) then UNKNOWN
      else c_status c)"

lemma mode_of_text_text [simp]: "mode_of_text (mode_text m) = Some m"
  by (cases m) (simp_all add: mode_of_text_def)

lemma mode_of_text_iff: "isActionMode t \<longleftrightarrow> mode_of_text t \<noteq> None"
  by (auto simp: isActionMode_def mode_of_text_def split: if_splits)

lemma state_text_inj [simp]: "state_text a = state_text b \<longleftrightarrow> a = b"
  by (cases a; cases b) simp_all

lemma evidence_text_inj [simp]: "evidence_text a = evidence_text b \<longleftrightarrow> a = b"
  by (cases a; cases b) simp_all

lemma conclusive_state_idem:
  "conclusive_state (c\<lparr>c_status := conclusive_state c\<rparr>) = conclusive_state c"
  by (simp add: conclusive_state_def)

lemma conclusive_SUCCEEDED:
  "conclusive_state c = SUCCEEDED \<longleftrightarrow> c_status c = SUCCEEDED \<and> requestTerminated (c_evidence c)"
  by (auto simp: conclusive_state_def)

lemma conclusive_FAILED:
  "conclusive_state c = FAILED \<longleftrightarrow> c_status c = FAILED \<and> proves_no_effect (c_evidence c)"
  by (auto simp: conclusive_state_def)

lemma conclusive_FAILED_D: "conclusive_state c = FAILED \<Longrightarrow> proves_no_effect (c_evidence c)"
  by (simp add: conclusive_FAILED)

lemma conclusive_SUCCEEDED_D: "conclusive_state c = SUCCEEDED \<Longrightarrow> requestTerminated (c_evidence c)"
  by (simp add: conclusive_SUCCEEDED)

end
