(* ===== verification/JsTime.thy ===== *)
theory JsTime
  imports Prelude
begin

text \<open>
  \<open>Date.prototype.toISOString\<close> and the calendar it rests on: the proleptic Gregorian date of
  a day number, and the text \<open>YYYY-MM-DDTHH:mm:ss.sssZ\<close> of a time in milliseconds.  Years
  outside 0 to 9999 are written with a sign and six digits, as ECMAScript has it.
\<close>

definition day_ms :: int where
  "day_ms = 86400000"

text \<open>Year, month and day of the day \<open>z\<close> days after 1970-01-01.\<close>

definition civil_of_day :: "int \<Rightarrow> int \<times> int \<times> int" where
  "civil_of_day z0 =
     (let z = z0 + 719468; era = z div 146097; doe = z mod 146097;
          yoe = (doe - doe div 1460 + doe div 36524 - doe div 146096) div 365;
          doy = doe - (365 * yoe + yoe div 4 - yoe div 100);
          mp = (5 * doy + 2) div 153;
          m = (if mp < 10 then mp + 3 else mp - 9)
      in (yoe + era * 400 + (if m \<le> 2 then 1 else 0), m, doy - (153 * mp + 2) div 5 + 1))"

definition pad :: "nat \<Rightarrow> string \<Rightarrow> string" where
  "pad n s = replicate (n - length s) (CHR ''0'') @ s"

definition iso_year :: "int \<Rightarrow> string" where
  "iso_year y = (if 0 \<le> y \<and> y \<le> 9999 then pad 4 (show_nat (nat y))
     else (if y < 0 then CHR ''-'' else CHR ''+'') # pad 6 (show_nat (nat \<bar>y\<bar>)))"

definition iso_text :: "int \<Rightarrow> string" where
  "iso_text t =
     (let (y, m, d) = civil_of_day (t div day_ms); s = t mod day_ms;
          two = (\<lambda>n. pad 2 (show_nat (nat n)))
      in iso_year y @ ''-'' @ two m @ ''-'' @ two d @ ''T'' @ two (s div 3600000) @ '':''
         @ two (s div 60000 mod 60) @ '':'' @ two (s div 1000 mod 60) @ ''.''
         @ pad 3 (show_nat (nat (s mod 1000))) @ ''Z'')"

lemma iso_text_epoch: "iso_text 0 = ''1970-01-01T00:00:00.000Z''"
  by code_simp

lemma iso_text_leap: "iso_text 951782400123 = ''2000-02-29T00:00:00.123Z''"
  by code_simp

end
