(* ===== verification/ActionIdentity.thy ===== *)
theory ActionIdentity
  imports ActionContract JsTime "HOL-Library.Multiset" "HOL-Library.Char_ord" "HOL-Library.List_Lexorder"
begin

text \<open>
  \<open>src/biz/action-execution/action-identity.ts\<close>: the canonical text of a JSON value, the
  digest of that text, and the identity of an intent.  Two engine functions are parameters:
  \<open>sha\<close>, the hexadecimal SHA-256 of a text, and \<open>le\<close>, where \<open>le a b\<close> stands for
  \<open>a.localeCompare(b) <= 0\<close>.
\<close>

section \<open>JSON.stringify on strings\<close>

definition hex_digit :: "nat \<Rightarrow> char" where
  "hex_digit n = ''0123456789abcdef'' ! n"

definition esc_char :: "char \<Rightarrow> string" where
  "esc_char c =
     (if c = CHR 0x22 then [CHR 0x5C, CHR 0x22]
      else if c = CHR 0x5C then [CHR 0x5C, CHR 0x5C]
      else if of_char c = (8 :: nat) then [CHR 0x5C, CHR ''b'']
      else if of_char c = (9 :: nat) then [CHR 0x5C, CHR ''t'']
      else if of_char c = (10 :: nat) then [CHR 0x5C, CHR ''n'']
      else if of_char c = (12 :: nat) then [CHR 0x5C, CHR ''f'']
      else if of_char c = (13 :: nat) then [CHR 0x5C, CHR ''r'']
      else if of_char c < (32 :: nat)
        then CHR 0x5C # ''u00'' @ [hex_digit (of_char c div 16), hex_digit (of_char c mod 16)]
      else [c])"

definition json_string :: "string \<Rightarrow> string" where
  "json_string s = CHR 0x22 # concat (map esc_char s) @ [CHR 0x22]"

section \<open>The canonical text\<close>

fun res_map :: "('a \<Rightarrow> exn + 'b) \<Rightarrow> 'a list \<Rightarrow> exn + 'b list" where
  "res_map f [] = Inr []"
| "res_map f (x # xs) = (case f x of Inl e \<Rightarrow> Inl e | Inr y \<Rightarrow>
     (case res_map f xs of Inl e \<Rightarrow> Inl e | Inr ys \<Rightarrow> Inr (y # ys)))"

fun insert_entry :: "(string \<Rightarrow> string \<Rightarrow> bool) \<Rightarrow> string \<times> 'a \<Rightarrow> (string \<times> 'a) list \<Rightarrow> (string \<times> 'a) list" where
  "insert_entry le e [] = [e]"
| "insert_entry le e (x # xs) = (if le (fst e) (fst x) then e # x # xs else x # insert_entry le e xs)"

definition sort_entries :: "(string \<Rightarrow> string \<Rightarrow> bool) \<Rightarrow> (string \<times> 'a) list \<Rightarrow> (string \<times> 'a) list" where
  "sort_entries le es = foldr (insert_entry le) es []"

definition to_lower :: "char \<Rightarrow> char" where
  "to_lower c = (if (65 :: nat) \<le> of_char c \<and> of_char c \<le> (90 :: nat) then char_of (of_char c + 32 :: nat) else c)"

definition credential_key :: "string \<Rightarrow> bool" where
  "credential_key k \<longleftrightarrow> map to_lower k \<in>
     set [''token'', ''accesstoken'', ''authorization'', ''password'', ''secret'', ''apikey'']"

fun join :: "string \<Rightarrow> string list \<Rightarrow> string" where
  "join s [] = []"
| "join s [x] = x"
| "join s (x # y # r) = x @ s @ join s (y # r)"

lemma res_map_cong [fundef_cong]:
  "xs = ys \<Longrightarrow> (\<And>x. x \<in> set ys \<Longrightarrow> f x = g x) \<Longrightarrow> res_map f xs = res_map g ys"
  by (induction ys arbitrary: xs) (auto split: sum.splits)

lemma set_insert_entry [simp]: "set (insert_entry le e xs) = insert e (set xs)"
  by (induction xs) auto

lemma set_sort_entries [simp]: "set (sort_entries le es) = set es"
  by (induction es) (auto simp: sort_entries_def)

definition not_undefined :: "string \<times> jval \<Rightarrow> bool" where
  "not_undefined e \<longleftrightarrow> snd e \<noteq> JUndef"

lemma entry_size: "(k, v) \<in> set es \<Longrightarrow> size v < Suc (size_list (size_prod (\<lambda>_. 0) size) es)"
  by (induction es) auto

function canonical :: "(string \<Rightarrow> string \<Rightarrow> bool) \<Rightarrow> jval \<Rightarrow> exn + string" where
  "canonical le JNull = Inr ''null''"
| "canonical le (JBool b) = Inr (if b then ''true'' else ''false'')"
| "canonical le (JStr s) = Inr (json_string s)"
| "canonical le (JNum (Some t)) = Inr t"
| "canonical le (JNum None) = Inl ''Action data must be JSON serializable''"
| "canonical le (JArr vs) = (case res_map (canonical le) vs of
     Inl e \<Rightarrow> Inl e | Inr ts \<Rightarrow> Inr (''['' @ join '','' ts @ '']''))"
| "canonical le (JObj es) =
     (case res_map (\<lambda>e. if credential_key (fst e) then Inl ''Credentials must not enter action records''
                       else (case canonical le (snd e) of Inl x \<Rightarrow> Inl x
                             | Inr t \<Rightarrow> Inr (json_string (fst e) @ '':'' @ t)))
             (sort_entries le (filter not_undefined es)) of
        Inl e \<Rightarrow> Inl e | Inr ts \<Rightarrow> Inr (CHR 0x7B # join '','' ts @ [CHR 0x7D]))"
| "canonical le JUndef = Inl ''Action data must be JSON serializable''"
| "canonical le JOther = Inl ''Action data must be JSON serializable''"
  by pat_completeness auto
termination
proof (relation "measure (size \<circ> snd)", goal_cases)
  case (2 le vs x)
  then show ?case by (induction vs) auto
next
  case (3 le es e)
  then show ?case using entry_size [of "fst e" "snd e" es] by simp
qed simp

definition actionDigest :: "(string \<Rightarrow> string) \<Rightarrow> (string \<Rightarrow> string \<Rightarrow> bool) \<Rightarrow> jval \<Rightarrow> exn + string" where
  "actionDigest sha le v = (case canonical le v of Inl e \<Rightarrow> Inl e | Inr t \<Rightarrow> Inr (sha t))"

section \<open>The identity of an intent\<close>

record action_identity =
  id_actionId :: string
  id_requestId :: string
  id_payloadHash :: string

definition payload_value :: "action_intent \<Rightarrow> jval" where
  "payload_value i = (case recoveryWindowStartedAt i of
     None \<Rightarrow> parameters i
   | Some t \<Rightarrow> JObj [(''parameters'', parameters i),
                    (''recoveryWindowStartedAt'', JStr (case t of None \<Rightarrow> [] | Some x \<Rightarrow> iso_text x))])"

definition identifyAction :: "(string \<Rightarrow> string) \<Rightarrow> (string \<Rightarrow> string \<Rightarrow> bool) \<Rightarrow> action_intent
    \<Rightarrow> exn + action_identity" where
  "identifyAction sha le i =
     (if list_ex blank [corpId i, accountId i, chatId i, logicalTurnId i, intentId i, kind i, target i]
      then Inl ''Action identity is incomplete''
      else case occurredAt i of None \<Rightarrow> Inl ''Action input time is required''
      | Some occurred \<Rightarrow>
        (if (case recoveryWindowStartedAt i of None \<Rightarrow> False | Some None \<Rightarrow> True
             | Some (Some start) \<Rightarrow> start < occurred)
         then Inl ''Action recovery window must not precede the original input''
         else case actionDigest sha le (JArr (map JStr [corpId i, accountId i, intentId i, kind i, target i])) of
           Inl e \<Rightarrow> Inl e
         | Inr aid \<Rightarrow>
           (case canonical le (case recovery i of None \<Rightarrow> JObj [] | Some r \<Rightarrow> r) of
              Inl e \<Rightarrow> Inl e
            | Inr _ \<Rightarrow>
              (case actionDigest sha le (payload_value i) of
                 Inl e \<Rightarrow> Inl e
               | Inr ph \<Rightarrow> Inr \<lparr>id_actionId = aid, id_requestId = ''cake_'' @ take 48 aid,
                               id_payloadHash = ph\<rparr>))))"

section \<open>Strings are printed without ambiguity\<close>

lemma char_eq_of_char: "(c :: char) = d \<longleftrightarrow> (of_char c :: nat) = of_char d"
  by (rule of_char_eq_iff [symmetric])

lemma hex_digit_inj: "i < 16 \<Longrightarrow> j < 16 \<Longrightarrow> hex_digit i = hex_digit j \<Longrightarrow> i = j"
proof -
  have "\<forall>i\<in>set [0..<16]. \<forall>j\<in>set [0..<16]. hex_digit i = hex_digit j \<longrightarrow> i = j" by code_simp
  then show "i < 16 \<Longrightarrow> j < 16 \<Longrightarrow> hex_digit i = hex_digit j \<Longrightarrow> i = j" by simp
qed

lemma hex_pair_inj:
  assumes "(of_char c :: nat) < 32" and "(of_char d :: nat) < 32"
    and "hex_digit (of_char c div 16) = hex_digit (of_char d div 16)"
    and "hex_digit (of_char c mod 16) = hex_digit (of_char d mod 16)"
  shows "c = d"
proof -
  have "(of_char c :: nat) div 16 = of_char d div 16" "(of_char c :: nat) mod 16 = of_char d mod 16"
    using assms by (auto intro!: hex_digit_inj)
  then have "(of_char c :: nat) = of_char d" by (metis div_mult_mod_eq)
  then show ?thesis by simp
qed

text \<open>The escape of a character: a backslash and a code, or the character itself.\<close>

definition esc_code :: "char \<Rightarrow> string" where
  "esc_code c =
     (if c = CHR 0x22 then [CHR 0x22] else if c = CHR 0x5C then [CHR 0x5C]
      else if of_char c = (8 :: nat) then ''b'' else if of_char c = (9 :: nat) then ''t''
      else if of_char c = (10 :: nat) then ''n'' else if of_char c = (12 :: nat) then ''f''
      else if of_char c = (13 :: nat) then ''r''
      else ''u00'' @ [hex_digit (of_char c div 16), hex_digit (of_char c mod 16)])"

definition escaped :: "char \<Rightarrow> bool" where
  "escaped c \<longleftrightarrow> c = CHR 0x22 \<or> c = CHR 0x5C \<or> of_char c < (32 :: nat)"

lemma esc_char_cases: "esc_char c = (if escaped c then CHR 0x5C # esc_code c else [c])"
  by (auto simp: esc_char_def esc_code_def escaped_def)

lemma esc_code_prefix:
  assumes "escaped c" and "escaped d" and "esc_code c @ u = esc_code d @ v"
  shows "c = d \<and> u = v"
proof -
  have c: "(of_char c :: nat) = n \<longleftrightarrow> c = char_of n" if "n < 256" for n :: nat and c
    using that by (metis of_char_of char_of_char mod_less)
  show ?thesis
    using assms hex_pair_inj [of c d]
    by (auto simp: esc_code_def escaped_def c split: if_splits)
qed

lemma esc_char_prefix:
  assumes "esc_char c @ u = esc_char d @ v"
  shows "c = d \<and> u = v"
proof (cases "escaped c"; cases "escaped d")
  assume "escaped c" "escaped d"
  then show ?thesis using assms esc_code_prefix [of c d u v] by (simp add: esc_char_cases)
qed (use assms in \<open>auto simp: esc_char_cases escaped_def\<close>)

lemma esc_char_no_quote: "hd (esc_char c) \<noteq> CHR 0x22" "esc_char c \<noteq> []"
  by (auto simp: esc_char_cases escaped_def)

lemma esc_text_prefix:
  "concat (map esc_char s) @ CHR 0x22 # t = concat (map esc_char s') @ CHR 0x22 # t' \<Longrightarrow> s = s' \<and> t = t'"
proof (induction s arbitrary: s')
  case Nil
  show ?case
  proof (cases s')
    case (Cons c r)
    then have "hd (esc_char c) = CHR 0x22"
      using Nil esc_char_no_quote(2) [of c] by (cases "esc_char c") auto
    then show ?thesis using esc_char_no_quote(1) by simp
  qed (use Nil in simp)
next
  case (Cons c r)
  show ?case
  proof (cases s')
    case Nil
    then have "hd (esc_char c) = CHR 0x22"
      using Cons.prems esc_char_no_quote(2) [of c] by (cases "esc_char c") auto
    then show ?thesis using esc_char_no_quote(1) by simp
  next
    case (Cons d r')
    then have "esc_char c @ concat (map esc_char r) @ CHR 0x22 # t = esc_char d @ concat (map esc_char r') @ CHR 0x22 # t'"
      using Cons.prems by simp
    from esc_char_prefix [OF this] Cons.IH [of r'] Cons show ?thesis by simp
  qed
qed

lemma json_string_prefix: "json_string s @ t = json_string s' @ t' \<Longrightarrow> s = s' \<and> t = t'"
  using esc_text_prefix [of s t s' t'] by (simp add: json_string_def)

section \<open>Delimited texts\<close>

text \<open>What may follow a value: nothing, a comma or a closing bracket.\<close>

definition delimited :: "string \<Rightarrow> bool" where
  "delimited t \<longleftrightarrow> t = [] \<or> hd t \<in> set '',]'' \<or> hd t = CHR 0x7D"

text \<open>
  The texts \<open>g a\<close> of a list of items joined with commas and closed determine the items up to
  \<open>K\<close> when each of them does so before any delimited rest.
\<close>

lemma join_prefix:
  assumes item: "\<And>a b t t'. a \<in> set as \<Longrightarrow> b \<in> set bs \<Longrightarrow> delimited t \<Longrightarrow> delimited t' \<Longrightarrow>
      g a @ t = g b @ t' \<Longrightarrow> K a = K b \<and> t = t'"
    and start: "\<And>a. a \<in> set as \<union> set bs \<Longrightarrow> g a \<noteq> [] \<and> hd (g a) \<noteq> cl"
    and cl: "cl = CHR '']'' \<or> cl = CHR 0x7D"
    and eq: "join '','' (map g as) @ cl # t = join '','' (map g bs) @ cl # t'"
  shows "map K as = map K bs \<and> t = t'"
  using assms(1,2) eq
proof (induction as arbitrary: bs)
  case Nil
  show ?case
  proof (cases bs)
    case (Cons b r)
    obtain x where "join '','' (map g bs) = g b @ x" using Cons by (cases r) auto
    moreover have "g b \<noteq> []" "hd (g b) \<noteq> cl" using Nil.prems(2) [of b] Cons by auto
    ultimately show ?thesis using Nil.prems(3) by (cases "g b") auto
  qed (use Nil in simp)
next
  case (Cons a as)
  have d: "delimited (cl # x)" "delimited (CHR '','' # x)" for x using cl by (auto simp: delimited_def)
  obtain x where x: "join '','' (map g (a # as)) @ cl # t = g a @ x" "delimited x"
    "x = (if as = [] then cl # t else CHR '','' # join '','' (map g as) @ cl # t)"
    using d by (cases as) auto
  show ?case
  proof (cases bs)
    case Nil
    moreover have "g a \<noteq> []" "hd (g a) \<noteq> cl" using Cons.prems(2) [of a] by auto
    ultimately show ?thesis using Cons.prems(3) x(1) by (cases "g a") auto
  next
    case (Cons b bs')
    obtain y where y: "join '','' (map g bs) @ cl # t' = g b @ y" "delimited y"
      "y = (if bs' = [] then cl # t' else CHR '','' # join '','' (map g bs') @ cl # t')"
      using d Cons by (cases bs') auto
    have "K a = K b \<and> x = y"
      using Cons.prems(1) [of a b x y] Cons.prems(3) Cons x(1,2) y(1,2) by simp
    moreover have "cl \<noteq> CHR '',''" using cl by auto
    ultimately show ?thesis
      using Cons.IH [of bs'] Cons.prems(1,2) Cons x(3) y(3) by (auto split: if_splits)
  qed
qed

section \<open>The canonical text determines the value\<close>

text \<open>The text \<open>JSON.stringify\<close> prints for a finite number: digits, a sign, a point, an exponent.\<close>

definition number_char :: "char \<Rightarrow> bool" where
  "number_char c \<longleftrightarrow> c \<in> set ''-+.eE0123456789''"

definition number_start :: "char \<Rightarrow> bool" where
  "number_start c \<longleftrightarrow> c \<in> set ''-0123456789''"

definition number_text :: "string \<Rightarrow> bool" where
  "number_text t \<longleftrightarrow> t \<noteq> [] \<and> number_start (hd t) \<and> list_all number_char t"

lemma not_number_char: "\<not> number_char CHR '',''" "\<not> number_char CHR '']''" "\<not> number_char CHR 0x7D"
  by (simp_all add: number_char_def)

lemma not_number_start: "number_start c \<Longrightarrow> c \<noteq> CHR '','' \<and> c \<noteq> CHR '']'' \<and> c \<noteq> CHR 0x7D \<and> c \<noteq> CHR ''n''
  \<and> c \<noteq> CHR ''t'' \<and> c \<noteq> CHR ''f'' \<and> c \<noteq> CHR 0x22 \<and> c \<noteq> CHR ''['' \<and> c \<noteq> CHR 0x7B"
  by (auto simp: number_start_def)

function json_ok :: "jval \<Rightarrow> bool" where
  "json_ok (JNum (Some t)) = number_text t"
| "json_ok (JArr vs) = (\<forall>v\<in>set vs. json_ok v)"
| "json_ok (JObj es) = (\<forall>e\<in>set es. json_ok (snd e))"
| "json_ok JNull = True" | "json_ok (JBool b) = True" | "json_ok (JStr s) = True"
| "json_ok (JNum None) = True" | "json_ok JUndef = True" | "json_ok JOther = True"
  by pat_completeness auto
termination
proof (relation "measure size", goal_cases)
  case (2 vs v)
  then show ?case by (induction vs) auto
next
  case (3 es e)
  then show ?case using entry_size [of "fst e" "snd e" es] by simp
qed simp

text \<open>The value as the canonical text sees it: entries in key order, undefined ones dropped.\<close>

function normal :: "(string \<Rightarrow> string \<Rightarrow> bool) \<Rightarrow> jval \<Rightarrow> jval" where
  "normal le (JArr vs) = JArr (map (normal le) vs)"
| "normal le (JObj es) = JObj (map (\<lambda>e. (fst e, normal le (snd e))) (sort_entries le (filter not_undefined es)))"
| "normal le JNull = JNull" | "normal le (JBool b) = JBool b" | "normal le (JStr s) = JStr s"
| "normal le (JNum t) = JNum t" | "normal le JUndef = JUndef" | "normal le JOther = JOther"
  by pat_completeness auto
termination
proof (relation "measure (size \<circ> snd)", goal_cases)
  case (2 le vs v)
  then show ?case by (induction vs) auto
next
  case (3 le es e)
  then show ?case using entry_size [of "fst e" "snd e" es] by simp
qed simp

lemma res_map_Inr: "res_map f xs = Inr ts \<Longrightarrow> (\<forall>x\<in>set xs. f x = Inr (projr (f x))) \<and> ts = map (projr \<circ> f) xs"
  by (induction xs arbitrary: ts) (auto split: sum.splits)

definition text_of :: "(string \<Rightarrow> string \<Rightarrow> bool) \<Rightarrow> jval \<Rightarrow> string" where
  "text_of le v = projr (canonical le v)"

definition entry_text :: "(string \<Rightarrow> string \<Rightarrow> bool) \<Rightarrow> string \<times> jval \<Rightarrow> string" where
  "entry_text le e = json_string (fst e) @ '':'' @ text_of le (snd e)"

lemma canonical_JArr:
  assumes "canonical le (JArr vs) = Inr s"
  shows "s = ''['' @ join '','' (map (text_of le) vs) @ '']''" and "\<And>v. v \<in> set vs \<Longrightarrow> canonical le v = Inr (text_of le v)"
proof -
  obtain ts where ts: "res_map (canonical le) vs = Inr ts" "s = ''['' @ join '','' ts @ '']''"
    using assms by (auto split: sum.splits)
  have t: "projr \<circ> canonical le = text_of le" by (simp add: fun_eq_iff text_of_def)
  from res_map_Inr [OF ts(1)] ts(2) show "s = ''['' @ join '','' (map (text_of le) vs) @ '']''"
    "\<And>v. v \<in> set vs \<Longrightarrow> canonical le v = Inr (text_of le v)"
    unfolding t by (simp_all add: text_of_def)
qed

lemma canonical_JObj:
  assumes "canonical le (JObj es) = Inr s"
  shows "s = CHR 0x7B # join '','' (map (entry_text le) (sort_entries le (filter not_undefined es))) @ [CHR 0x7D]"
    and "\<And>e. e \<in> set es \<Longrightarrow> not_undefined e \<Longrightarrow> canonical le (snd e) = Inr (text_of le (snd e)) \<and> \<not> credential_key (fst e)"
proof -
  let ?f = "\<lambda>e. if credential_key (fst e) then Inl ''Credentials must not enter action records''
     else (case canonical le (snd e) of Inl x \<Rightarrow> Inl x | Inr t \<Rightarrow> Inr (json_string (fst e) @ '':'' @ t))"
  let ?es = "sort_entries le (filter not_undefined es)"
  obtain ts where ts: "res_map ?f ?es = Inr ts" "s = CHR 0x7B # join '','' ts @ [CHR 0x7D]"
    using assms by (auto split: sum.splits)
  note r = res_map_Inr [OF ts(1)]
  have f: "canonical le (snd e) = Inr (text_of le (snd e)) \<and> \<not> credential_key (fst e) \<and> projr (?f e) = entry_text le e"
    if "e \<in> set ?es" for e
  proof -
    have "?f e = Inr (projr (?f e))" using r that by blast
    then show ?thesis
      by (cases "credential_key (fst e)"; cases "canonical le (snd e)") (simp_all add: text_of_def entry_text_def)
  qed
  have "map (projr \<circ> ?f) ?es = map (entry_text le) ?es"
  proof (rule map_cong [OF refl])
    fix e assume "e \<in> set ?es"
    then show "(projr \<circ> ?f) e = entry_text le e" unfolding comp_apply using f by blast
  qed
  with r ts(2) show "s = CHR 0x7B # join '','' (map (entry_text le) ?es) @ [CHR 0x7D]" by simp
  show "\<And>e. e \<in> set es \<Longrightarrow> not_undefined e \<Longrightarrow> canonical le (snd e) = Inr (text_of le (snd e)) \<and> \<not> credential_key (fst e)"
    using f by simp
qed

lemma text_start:
  assumes "canonical le v = Inr s" and "json_ok v"
  shows "s \<noteq> [] \<and> hd s \<notin> set '',]'' \<and> hd s \<noteq> CHR 0x7D"
proof (cases v)
  case (JNum t)
  then show ?thesis using assms not_number_start by (cases t) (auto simp: number_text_def)
next
  case (JArr vs)
  then show ?thesis using canonical_JArr(1) [of le vs s] assms(1) by simp
next
  case (JObj es)
  then show ?thesis using canonical_JObj(1) [of le es s] assms(1) by simp
qed (use assms in \<open>auto simp: json_string_def split: if_splits\<close>)

lemma number_prefix:
  assumes "number_text a" and "number_text b" and "delimited t" and "delimited t'" and "a @ t = b @ t'"
  shows "a = b \<and> t = t'"
proof -
  have *: "takeWhile number_char (a @ t) = a" if "number_text a" "delimited t" for a t
  proof -
    have "takeWhile number_char t = []"
      using that(2) not_number_char by (cases t) (auto simp: delimited_def)
    moreover have "\<forall>c\<in>set a. number_char c" using that(1) by (simp add: number_text_def list_all_iff)
    ultimately show ?thesis by (simp add: takeWhile_append)
  qed
  have "a = b" using * [OF assms(1,3)] * [OF assms(2,4)] assms(5) by simp
  with assms(5) show ?thesis by simp
qed

text \<open>The first character of a text tells which kind of value it is.\<close>

fun kind_of :: "jval \<Rightarrow> nat" where
  "kind_of JNull = 0" | "kind_of (JBool b) = (if b then 1 else 2)" | "kind_of (JStr s) = 3"
| "kind_of (JNum t) = 4" | "kind_of (JArr vs) = 5" | "kind_of (JObj es) = 6"
| "kind_of JUndef = 7" | "kind_of JOther = 8"

definition head_kind :: "char \<Rightarrow> nat" where
  "head_kind c = (if c = CHR ''n'' then 0 else if c = CHR ''t'' then 1 else if c = CHR ''f'' then 2
     else if c = CHR 0x22 then 3 else if c = CHR ''['' then 5 else if c = CHR 0x7B then 6 else 4)"

lemma head_kind_number: "number_text t \<Longrightarrow> head_kind (hd t) = 4"
  using not_number_start [of "hd t"] by (simp add: number_text_def head_kind_def)

lemma head_kind_text: "canonical le v = Inr s \<Longrightarrow> json_ok v \<Longrightarrow> head_kind (hd s) = kind_of v"
proof (cases v)
  case (JNum t)
  then show "canonical le v = Inr s \<Longrightarrow> json_ok v \<Longrightarrow> ?thesis" by (cases t) (auto simp: head_kind_number)
next
  case (JArr vs)
  then show "canonical le v = Inr s \<Longrightarrow> json_ok v \<Longrightarrow> ?thesis"
    using canonical_JArr(1) [of le vs s] by (simp add: head_kind_def)
next
  case (JObj es)
  then show "canonical le v = Inr s \<Longrightarrow> json_ok v \<Longrightarrow> ?thesis"
    using canonical_JObj(1) [of le es s] by (simp add: head_kind_def)
qed (auto simp: head_kind_def json_string_def split: if_splits)

lemma same_kind:
  assumes "canonical le v = Inr s" and "json_ok v" and "canonical le v' = Inr s'" and "json_ok v'"
    and "s @ t = s' @ t'"
  shows "kind_of v = kind_of v'"
proof -
  have "hd s = hd s'"
    using text_start [OF assms(1,2)] text_start [OF assms(3,4)] assms(5) by (cases s; cases s') auto
  then show ?thesis using head_kind_text [OF assms(1,2)] head_kind_text [OF assms(3,4)] by simp
qed

lemma entry_start: "entry_text le e \<noteq> [] \<and> hd (entry_text le e) = CHR 0x22"
  by (simp add: entry_text_def json_string_def)

lemma size_item: "v \<in> set vs \<Longrightarrow> size v < size (JArr vs)"
  by (induction vs) auto

lemma size_entry: "e \<in> set es \<Longrightarrow> size (snd e) < size (JObj es)"
  using entry_size [of "fst e" "snd e" es] by simp

lemma canonical_prefix:
  "canonical le v = Inr s \<Longrightarrow> canonical le v' = Inr s' \<Longrightarrow> json_ok v \<Longrightarrow> json_ok v' \<Longrightarrow>
   delimited t \<Longrightarrow> delimited t' \<Longrightarrow> s @ t = s' @ t' \<Longrightarrow> normal le v = normal le v' \<and> t = t'"
proof (induction v arbitrary: v' s s' t t' rule: measure_induct_rule [of size])
  case (less v)
  note k = same_kind [OF less.prems(1,3,2,4,7)]
  show ?case
  proof (cases v)
    case (JArr vs)
    then obtain vs' where v': "v' = JArr vs'" using k by (cases v') (auto split: if_splits)
    note c = canonical_JArr [OF less.prems(1) [unfolded JArr]]
    note c' = canonical_JArr [OF less.prems(2) [unfolded v']]
    have "map (normal le) vs = map (normal le) vs' \<and> t = t'"
    proof (rule join_prefix [where g = "text_of le" and cl = "CHR '']''"])
      fix a b u u'
      assume "a \<in> set vs" "b \<in> set vs'" "delimited u" "delimited u'" "text_of le a @ u = text_of le b @ u'"
      then show "normal le a = normal le b \<and> u = u'"
        using less.IH [of a "text_of le a" b "text_of le b" u u'] c(2) c'(2) less.prems(3,4) JArr v' size_item
        by auto
    next
      fix a assume "a \<in> set vs \<union> set vs'"
      then show "text_of le a \<noteq> [] \<and> hd (text_of le a) \<noteq> CHR '']''"
        using text_start [of le a "text_of le a"] c(2) c'(2) less.prems(3,4) JArr v' by auto
    qed (use less.prems(7) c(1) c'(1) in simp_all)
    then show ?thesis using JArr v' by simp
  next
    case (JObj es)
    then obtain es' where v': "v' = JObj es'" using k by (cases v') (auto split: if_splits)
    note c = canonical_JObj [OF less.prems(1) [unfolded JObj]]
    note c' = canonical_JObj [OF less.prems(2) [unfolded v']]
    let ?K = "\<lambda>e. (fst e, normal le (snd e))"
    let ?s = "\<lambda>es. sort_entries le (filter not_undefined es)"
    have "map ?K (?s es) = map ?K (?s es') \<and> t = t'"
    proof (rule join_prefix [where g = "entry_text le" and cl = "CHR 0x7D"])
      fix a b u u'
      assume a: "a \<in> set (?s es)" and b: "b \<in> set (?s es')" and d: "delimited u" "delimited u'"
        and "entry_text le a @ u = entry_text le b @ u'"
      then have f: "fst a = fst b" "text_of le (snd a) @ u = text_of le (snd b) @ u'"
        using json_string_prefix [of "fst a" "'':'' @ text_of le (snd a) @ u" "fst b"]
        by (simp_all add: entry_text_def)
      have "normal le (snd a) = normal le (snd b) \<and> u = u'"
        using less.IH [OF _ _ _ _ _ d f(2)] c(2) [of a] c'(2) [of b] a b size_entry [of a es]
          less.prems(3,4) JObj v' by auto
      with f(1) show "?K a = ?K b \<and> u = u'" by simp
    next
      fix a :: "string \<times> jval"
      show "entry_text le a \<noteq> [] \<and> hd (entry_text le a) \<noteq> CHR 0x7D" using entry_start [of le a] by simp
    qed (use less.prems(7) c(1) c'(1) in simp_all)
    then show ?thesis using JObj v' by simp
  next
    case (JStr x)
    then obtain x' where "v' = JStr x'" using k by (cases v') (auto split: if_splits)
    then show ?thesis using less.prems JStr json_string_prefix [of x t x' t'] by simp
  next
    case (JNum a)
    then obtain a' where v': "v' = JNum a'" using k by (cases v') (auto split: if_splits)
    then obtain x y where "a = Some x" "a' = Some y" using less.prems(1,2) JNum by (cases a; cases a') auto
    then show ?thesis using less.prems JNum v' number_prefix [of x y t t'] by simp
  next
    case (JBool b)
    then have "v' = JBool b" using k by (cases v') (auto split: if_splits)
    then show ?thesis using less.prems JBool by simp
  next
    case JNull
    then have "v' = JNull" using k by (cases v') (auto split: if_splits)
    then show ?thesis using less.prems JNull by simp
  qed (use less.prems(1) in simp_all)
qed

section \<open>Order of keys\<close>

definition linear_order_on_keys :: "(string \<Rightarrow> string \<Rightarrow> bool) \<Rightarrow> bool" where
  "linear_order_on_keys le \<longleftrightarrow> (\<forall>a b. le a b \<or> le b a) \<and> (\<forall>a b. le a b \<and> le b a \<longrightarrow> a = b)
     \<and> (\<forall>a b c. le a b \<and> le b c \<longrightarrow> le a c)"

lemma mset_insert_entry [simp]: "mset (insert_entry le e xs) = add_mset e (mset xs)"
  by (induction xs) auto

lemma mset_sort_entries [simp]: "mset (sort_entries le es) = mset es"
  by (induction es) (auto simp: sort_entries_def)

lemma insert_entry_sorted:
  assumes le: "linear_order_on_keys le"
  shows "sorted_wrt (\<lambda>a b. le (fst a) (fst b)) xs \<Longrightarrow> sorted_wrt (\<lambda>a b. le (fst a) (fst b)) (insert_entry le e xs)"
proof (induction xs)
  case (Cons x xs)
  have tr: "le a b \<Longrightarrow> le b c \<Longrightarrow> le a c" and tot: "\<not> le a b \<Longrightarrow> le b a" for a b c
    using le unfolding linear_order_on_keys_def by blast+
  show ?case using Cons by (auto intro: tr tot)
qed simp

lemma sort_entries_sorted:
  "linear_order_on_keys le \<Longrightarrow> sorted_wrt (\<lambda>a b. le (fst a) (fst b)) (sort_entries le es)"
  by (induction es) (auto simp: sort_entries_def insert_entry_sorted)

lemma sorted_entries_unique:
  assumes le: "linear_order_on_keys le"
  shows "sorted_wrt (\<lambda>a b. le (fst a) (fst b)) xs \<Longrightarrow> sorted_wrt (\<lambda>a b. le (fst a) (fst b)) ys \<Longrightarrow>
    mset xs = mset ys \<Longrightarrow> distinct (map fst xs) \<Longrightarrow> xs = ys"
proof (induction xs arbitrary: ys)
  case (Cons x xs)
  have anti: "le a b \<Longrightarrow> le b a \<Longrightarrow> a = b" and refl: "le a a" for a b
    using le unfolding linear_order_on_keys_def by blast+
  obtain y ys' where ys: "ys = y # ys'" using Cons.prems(3) by (cases ys) auto
  have "set (x # xs) = set ys" by (rule mset_eq_setD [OF Cons.prems(3)])
  then have xy: "x \<in> set ys" "y \<in> set (x # xs)" using ys by auto
  then have "le (fst y) (fst x)" "le (fst x) (fst y)"
    using Cons.prems(1,2) ys refl by auto
  then have "fst x = fst y" using anti by blast
  then have "x = y" using xy(2) Cons.prems(4) by auto
  then show ?case using Cons ys by auto
qed simp

section \<open>Properties\<close>

text \<open>The canonical text is unambiguous: two values with the same text are the same value up to
  the order of keys and entries that are undefined.\<close>

theorem canonical_unambiguous:
  assumes "canonical le v = Inr s" and "canonical le v' = Inr s" and "json_ok v" and "json_ok v'"
  shows "normal le v = normal le v'"
  using canonical_prefix [OF assms, of "[]" "[]"] by (simp add: delimited_def)

text \<open>The order in which an object's keys were written does not matter to its digest, when
  \<open>localeCompare\<close> is a linear order of the keys.\<close>

theorem canonical_ignores_key_order:
  assumes "linear_order_on_keys le" and "mset es = mset es'" and "distinct (map fst es)"
  shows "actionDigest sha le (JObj es) = actionDigest sha le (JObj es')"
proof -
  have m: "mset (filter not_undefined es) = mset (filter not_undefined es')"
    using assms(2) by (simp add: mset_filter)
  have "distinct (map fst (filter not_undefined es))"
    using assms(3) by (simp add: distinct_map_filter)
  then have "distinct (map fst (sort_entries le (filter not_undefined es)))"
    by (metis mset_sort_entries mset_map mset_eq_imp_distinct_iff)
  then have "sort_entries le (filter not_undefined es) = sort_entries le (filter not_undefined es')"
    using m by (intro sorted_entries_unique [OF assms(1)] sort_entries_sorted [OF assms(1)]) simp_all
  then show ?thesis by (simp add: actionDigest_def)
qed

lemma identifyAction_parts:
  assumes "identifyAction sha le i = Inr d"
  obtains s p where "canonical le (JArr (map JStr [corpId i, accountId i, intentId i, kind i, target i])) = Inr s"
    and "id_actionId d = sha s" and "id_requestId d = ''cake_'' @ take 48 (sha s)"
    and "canonical le (payload_value i) = Inr p" and "id_payloadHash d = sha p"
    and "\<not> list_ex blank [corpId i, accountId i, chatId i, logicalTurnId i, intentId i, kind i, target i]"
    and "occurredAt i \<noteq> None"
  using assms
  by (auto simp: identifyAction_def actionDigest_def split: if_splits option.splits sum.splits)

text \<open>The keys of the objects inside a value, those of undefined entries apart.\<close>

function inner_keys :: "jval \<Rightarrow> string set" where
  "inner_keys (JArr vs) = (\<Union>v\<in>set vs. inner_keys v)"
| "inner_keys (JObj es) = (\<Union>e\<in>set es. if not_undefined e then insert (fst e) (inner_keys (snd e)) else {})"
| "inner_keys JNull = {}" | "inner_keys (JBool b) = {}" | "inner_keys (JStr s) = {}"
| "inner_keys (JNum t) = {}" | "inner_keys JUndef = {}" | "inner_keys JOther = {}"
  by pat_completeness auto
termination
  by (relation "measure size") (use size_item size_entry in auto)

text \<open>C34: a value that has a digest carries no credential, at any depth: no key reads token,
  accessToken, authorization, password, secret or apiKey in any case of letters.\<close>

theorem no_credential_is_digested:
  assumes "actionDigest sha le v = Inr h"
  shows "\<not> (\<exists>k. k \<in> inner_keys v \<and> credential_key k)"
proof -
  have "canonical le v = Inr s \<Longrightarrow> k \<in> inner_keys v \<Longrightarrow> \<not> credential_key k" for s k v
  proof (induction v arbitrary: s rule: measure_induct_rule [of size])
    case (less v)
    show ?case
    proof (cases v)
      case (JArr vs)
      then obtain x where x: "x \<in> set vs" "k \<in> inner_keys x" using less.prems(2) by auto
      show ?thesis
        using less.IH [OF _ canonical_JArr(2) [OF less.prems(1) [unfolded JArr] x(1)] x(2)] size_item [OF x(1)] JArr
        by simp
    next
      case (JObj es)
      then obtain e where e: "e \<in> set es" "not_undefined e" "k = fst e \<or> k \<in> inner_keys (snd e)"
        using less.prems(2) by (auto split: if_splits)
      note c = canonical_JObj(2) [OF less.prems(1) [unfolded JObj] e(1,2)]
      show ?thesis
        using e(3) c less.IH [of "snd e" "text_of le (snd e)"] size_entry [OF e(1)] JObj by auto
    qed (use less.prems(2) in simp_all)
  qed
  moreover obtain s where "canonical le v = Inr s"
    using assms by (auto simp: actionDigest_def split: sum.splits)
  ultimately show ?thesis by blast
qed

text \<open>An action's identity names its corporation, account, intent, kind and target: two intents
  that are identified with the same action id agree on all five, when the hash does not collide.\<close>

theorem action_id_determines_intent:
  assumes "identifyAction sha le i = Inr d" and "identifyAction sha le i' = Inr d'"
    and "id_actionId d = id_actionId d'" and "inj sha"
  shows "corpId i = corpId i' \<and> accountId i = accountId i' \<and> intentId i = intentId i' \<and> kind i = kind i'
    \<and> target i = target i'"
proof -
  let ?v = "\<lambda>i. JArr (map JStr [corpId i, accountId i, intentId i, kind i, target i])"
  obtain s where s: "canonical le (?v i) = Inr s" "id_actionId d = sha s" using identifyAction_parts [OF assms(1)] .
  obtain s' where s': "canonical le (?v i') = Inr s'" "id_actionId d' = sha s'" using identifyAction_parts [OF assms(2)] .
  have "s = s'" using assms(3,4) s(2) s'(2) by (auto dest: injD)
  then have "normal le (?v i) = normal le (?v i')"
    using s(1) s'(1) by (intro canonical_unambiguous) simp_all
  then show ?thesis by simp
qed

text \<open>A reused action id with another payload is noticed: the payload hashes of two intents agree
  only if their parameters agree up to key order (and undefined entries), and so do their recovery windows.\<close>

theorem payload_hash_determines_payload:
  assumes "identifyAction sha le i = Inr d" and "identifyAction sha le i' = Inr d'"
    and "id_payloadHash d = id_payloadHash d'" and "inj sha"
    and "json_ok (parameters i)" and "json_ok (parameters i')"
  shows "normal le (payload_value i) = normal le (payload_value i')"
proof -
  obtain p where p: "canonical le (payload_value i) = Inr p" "id_payloadHash d = sha p"
    using identifyAction_parts [OF assms(1)] .
  obtain p' where p': "canonical le (payload_value i') = Inr p'" "id_payloadHash d' = sha p'"
    using identifyAction_parts [OF assms(2)] .
  have "p = p'" using assms(3,4) p(2) p'(2) by (auto dest: injD)
  moreover have "json_ok (payload_value i)" "json_ok (payload_value i')"
    using assms(5,6) by (auto simp: payload_value_def split: option.split)
  ultimately show ?thesis using p(1) p'(1) by (intro canonical_unambiguous) simp_all
qed

section \<open>Witnesses\<close>

definition text_le :: "string \<Rightarrow> string \<Rightarrow> bool" where
  "text_le a b \<longleftrightarrow> a \<le> b"

lemma text_le_linear: "linear_order_on_keys text_le"
  by (auto simp: linear_order_on_keys_def text_le_def)

definition demo_object :: jval where
  "demo_object = JObj [(''b'', JArr [JNum (Some ''1''), JNull]), (''a'', JStr ''x''), (''c'', JUndef)]"

definition demo_reordered :: jval where
  "demo_reordered = JObj [(''a'', JStr ''x''), (''b'', JArr [JNum (Some ''1''), JNull])]"

theorem canonical_unambiguous_witness: "normal text_le demo_object = normal text_le demo_reordered"
proof -
  have c: "\<not> isl (canonical text_le demo_object)" "canonical text_le demo_reordered = canonical text_le demo_object"
    by code_simp+
  then have "canonical text_le demo_object = Inr (projr (canonical text_le demo_object))" by simp
  moreover have "json_ok demo_object" "json_ok demo_reordered"
    by (simp_all add: demo_object_def demo_reordered_def number_text_def number_start_def number_char_def)
  ultimately show ?thesis using c(2) by (intro canonical_unambiguous) simp_all
qed

theorem canonical_ignores_key_order_witness:
  "actionDigest (\<lambda>s. s) text_le (JObj [(''b'', JNull), (''a'', JBool True)]) =
   actionDigest (\<lambda>s. s) text_le (JObj [(''a'', JBool True), (''b'', JNull)])"
  by (rule canonical_ignores_key_order [OF text_le_linear]) simp_all

theorem no_credential_is_digested_witness:
  "\<not> (\<exists>k. k \<in> inner_keys demo_object \<and> credential_key k)"
proof -
  have "\<not> isl (actionDigest (\<lambda>s. s) text_le demo_object)" by code_simp
  then have "actionDigest (\<lambda>s. s) text_le demo_object = Inr (projr (actionDigest (\<lambda>s. s) text_le demo_object))"
    by simp
  then show ?thesis by (rule no_credential_is_digested)
qed

definition sample_intent :: "string \<Rightarrow> action_intent" where
  "sample_intent turn = \<lparr>corpId = ''corp'', accountId = ''acc'', chatId = ''chat'', logicalTurnId = turn,
     intentId = ''intent'', kind = ''cancel'', target = ''work-order:1'', parameters = demo_object, occurredAt = Some 0,
     recoveryWindowStartedAt = None, identityReliable = True, recovery = None\<rparr>"

lemma sample_identified:
  obtains d d' where "identifyAction (\<lambda>s. s) text_le (sample_intent ''t'') = Inr d"
    and "identifyAction (\<lambda>s. s) text_le (sample_intent ''u'') = Inr d'"
    and "id_actionId d = id_actionId d'" and "id_payloadHash d = id_payloadHash d'"
proof -
  let ?f = "\<lambda>t. identifyAction (\<lambda>s. s) text_le (sample_intent t)"
  have "\<not> isl (?f ''t'')" "\<not> isl (?f ''u'')" "id_actionId (projr (?f ''t'')) = id_actionId (projr (?f ''u''))"
    "id_payloadHash (projr (?f ''t'')) = id_payloadHash (projr (?f ''u''))" by code_simp+
  then show ?thesis using that [of "projr (?f ''t'')" "projr (?f ''u'')"] by simp
qed

theorem action_id_determines_intent_witness:
  "corpId (sample_intent ''t'') = corpId (sample_intent ''u'') \<and> accountId (sample_intent ''t'') = accountId (sample_intent ''u'')
   \<and> intentId (sample_intent ''t'') = intentId (sample_intent ''u'') \<and> kind (sample_intent ''t'') = kind (sample_intent ''u'')
   \<and> target (sample_intent ''t'') = target (sample_intent ''u'')"
  by (rule sample_identified, rule action_id_determines_intent, assumption+) simp

theorem payload_hash_determines_payload_witness:
  "normal text_le (payload_value (sample_intent ''t'')) = normal text_le (payload_value (sample_intent ''u''))"
proof -
  have j: "json_ok (parameters (sample_intent t))" for t
    by (simp add: sample_intent_def demo_object_def number_text_def number_start_def number_char_def)
  show ?thesis
    by (rule sample_identified) (rule payload_hash_determines_payload [OF _ _ _ _ j j], assumption+, simp)
qed

end
