(* ===== verification/ActionJournal.thy ===== *)
theory ActionJournal
  imports ActionContract "HOL-Library.Char_ord" "HOL-Library.List_Lexorder"
begin

text \<open>
  The action journal: the tables \<open>agent_action_records\<close> and \<open>agent_action_evidence\<close> and
  the two SQL functions that are the only writers of them while an action is live,
  \<open>transition_agent_action\<close> and \<open>review_agent_action\<close>
  (\<open>supabase/migrations/20261021090000_agent_action_records.sql\<close>).  Each call runs in one
  transaction under an advisory lock of the resource, so it is one atomic function of the
  journal and the time \<open>now()\<close>.  A raised exception leaves the journal as it was.

  The three intervals of the SQL (10 minutes, 30 seconds, 24 hours) are in milliseconds.  The table
  \<open>agent_action_reviews\<close>, an audit log that no operation reads, is not modelled.
\<close>

section \<open>Tables\<close>

text \<open>
  A row has the columns the TypeScript record reads (\<open>fromDb\<close> is \<open>action_record.truncate\<close>)
  and those only SQL uses.  The journal lists the rows in the order of their insertion.
\<close>

record journal_row = action_record +
  r_corp :: string
  r_account :: string
  r_chat :: string
  r_turn :: string
  r_kind :: string
  r_resource :: string
  r_input_at :: int
  r_created :: int
  r_updated :: int
  r_redacted :: bool

record evidence_row =
  e_corp :: string
  e_action :: string
  e_attempt :: string
  e_hash :: string
  e_completion :: action_completion
  e_created :: int

record journal =
  rows :: "journal_row list"
  evid :: "evidence_row list"

definition empty_journal :: journal where
  "empty_journal = \<lparr>rows = [], evid = []\<rparr>"

section \<open>Inputs\<close>

record prepare_input =
  pi_intent :: action_intent
  pi_mode :: action_mode
  pi_requestId :: string
  pi_payloadHash :: string
  pi_resourceHash :: string
  pi_recoveryDeadline :: int

record ownership =
  o_owner :: "string option"
  o_fence :: nat
  o_attempt :: "string option"

datatype journal_op =
    Prepare prepare_input
  | Claim string
  | ReconcileClaim string
  | Settle ownership action_completion string
  | ValidateClaim ownership
  | Synced ownership
  | Cancel ownership
  | Schedule ownership "int option"
  | Manual ownership

section \<open>Queries\<close>

definition is_key :: "string \<Rightarrow> string \<Rightarrow> journal_row \<Rightarrow> bool" where
  "is_key c a r \<longleftrightarrow> r_corp r = c \<and> actionId r = a"

definition find_row :: "string \<Rightarrow> string \<Rightarrow> journal \<Rightarrow> journal_row option" where
  "find_row c a j = List.find (is_key c a) (rows j)"

definition in_flight :: "journal_row \<Rightarrow> bool" where
  "in_flight r \<longleftrightarrow> status r \<in> {EXECUTING, UNKNOWN}"

text \<open>\<open>mode='execute' and status in ('executing','unknown')\<close>: an obligation not yet settled.\<close>

definition open_obligation :: "journal_row \<Rightarrow> bool" where
  "open_obligation r \<longleftrightarrow> mode r = EXECUTE \<and> in_flight r"

text \<open>The states a completion may settle to; anything else raises \<open>invalid completion\<close>.\<close>

definition settles_to :: "action_state \<Rightarrow> bool" where
  "settles_to v \<longleftrightarrow> v \<in> {SUCCEEDED, FAILED, UNKNOWN, EXECUTING}"

definition dispatchable :: "journal_row \<Rightarrow> bool" where
  "dispatchable r \<longleftrightarrow> status r = REGISTERED \<or> (status r = FAILED \<and> retryable r)"

definition conflict_of :: "string \<Rightarrow> string \<Rightarrow> string \<Rightarrow> journal \<Rightarrow> string option" where
  "conflict_of c res a j = map_option actionId
     (List.find (\<lambda>r. r_corp r = c \<and> r_resource r = res \<and> actionId r \<noteq> a \<and> open_obligation r) (rows j))"

definition newer_row :: "journal_row \<Rightarrow> journal_row \<Rightarrow> bool" where
  "newer_row a b \<longleftrightarrow> r_created b < r_created a \<or> (r_created b = r_created a \<and> actionId b < actionId a)"

definition latest_row :: "string \<Rightarrow> string \<Rightarrow> journal \<Rightarrow> journal_row option" where
  "latest_row c res j = fold (\<lambda>r best. case best of None \<Rightarrow> Some r
       | Some b \<Rightarrow> if newer_row r b then Some r else Some b)
     (filter (\<lambda>r. r_corp r = c \<and> r_resource r = res) (rows j)) None"

definition update_row :: "string \<Rightarrow> string \<Rightarrow> (journal_row \<Rightarrow> journal_row) \<Rightarrow> journal \<Rightarrow> journal" where
  "update_row c a f j = j\<lparr>rows := map (\<lambda>r. if is_key c a r then f r else r) (rows j)\<rparr>"

section \<open>Row updates\<close>

definition new_row :: "int \<Rightarrow> string \<Rightarrow> string \<Rightarrow> prepare_input \<Rightarrow> string option \<Rightarrow> int \<Rightarrow> journal_row" where
  "new_row now c a p previous occurred =
     \<lparr>actionId = a, previousActionId = previous, requestId = pi_requestId p, intent = pi_intent p,
      payloadHash = pi_payloadHash p, mode = pi_mode p, status = REGISTERED, localSync = COMPLETE,
      owner = None, dispatchAttemptId = None, fence = 0, attempts = 0, result = None, evidence = None,
      retryable = False, nextCheckAt = None, recoveryDeadline = pi_recoveryDeadline p,
      reviewRequired = False, r_corp = c, r_account = accountId (pi_intent p),
      r_chat = chatId (pi_intent p), r_turn = logicalTurnId (pi_intent p), r_kind = kind (pi_intent p),
      r_resource = pi_resourceHash p, r_input_at = occurred, r_created = now, r_updated = now, r_redacted = False\<rparr>"

definition identity_mismatch :: "prepare_input \<Rightarrow> journal_row \<Rightarrow> bool" where
  "identity_mismatch p r \<longleftrightarrow> payloadHash r \<noteq> pi_payloadHash p \<or> r_account r \<noteq> accountId (pi_intent p)
     \<or> r_resource r \<noteq> pi_resourceHash p \<or> r_chat r \<noteq> chatId (pi_intent p)
     \<or> r_turn r \<noteq> logicalTurnId (pi_intent p) \<or> r_kind r \<noteq> kind (pi_intent p)
     \<or> requestId r \<noteq> pi_requestId p"

definition claim_row :: "int \<Rightarrow> string \<Rightarrow> journal_row \<Rightarrow> journal_row" where
  "claim_row now who r =
     (if dispatchable r \<and> now < recoveryDeadline r
      then r\<lparr>status := EXECUTING, owner := Some who, dispatchAttemptId := Some who,
             fence := fence r + 1, attempts := attempts r + 1,
             nextCheckAt := Some (now + 600000), r_updated := now\<rparr>
      else r)"

definition cancel_row :: "int \<Rightarrow> journal_row \<Rightarrow> journal_row" where
  "cancel_row now r =
     (if status r = REGISTERED
      then r\<lparr>status := CANCELLED, nextCheckAt := None, r_updated := now\<rparr> else r)"

text \<open>\<open>next_check_at<=now()\<close> is not true of a null.\<close>

definition due_at :: "int \<Rightarrow> int option \<Rightarrow> bool" where
  "due_at now t = (case t of None \<Rightarrow> False | Some n \<Rightarrow> n \<le> now)"

definition reconcile_row :: "int \<Rightarrow> string \<Rightarrow> journal_row \<Rightarrow> journal_row" where
  "reconcile_row now who r =
     (if due_at now (nextCheckAt r) \<and>
         (status r \<in> {EXECUTING, UNKNOWN} \<or> (status r = SUCCEEDED \<and> localSync r = PENDING))
      then r\<lparr>status := (if status r = EXECUTING then UNKNOWN else status r), owner := Some who,
             fence := fence r + 1, attempts := attempts r + 1,
             nextCheckAt := Some (now + 600000), r_updated := now\<rparr>
      else r)"

text \<open>\<open>r.owner = p_owner and r.fence = p_fence\<close>: a null owner on either side is no match.\<close>

definition owned_by :: "ownership \<Rightarrow> journal_row \<Rightarrow> bool" where
  "owned_by o' r \<longleftrightarrow> owner r \<noteq> None \<and> owner r = o_owner o' \<and> fence r = o_fence o'"

definition claim_invalid :: "int \<Rightarrow> ownership \<Rightarrow> journal_row \<Rightarrow> bool" where
  "claim_invalid now o' r \<longleftrightarrow> owner r \<noteq> o_owner o' \<or> fence r \<noteq> o_fence o' \<or> status r \<noteq> EXECUTING
     \<or> due_at now (nextCheckAt r) \<or> recoveryDeadline r \<le> now"

definition settle_row :: "int \<Rightarrow> action_completion \<Rightarrow> journal_row \<Rightarrow> journal_row" where
  "settle_row now c r =
     (let v = conclusive_state c in
      r\<lparr>status := v, reviewRequired := False, result := c_result c, evidence := Some (c_evidence c),
        localSync := (if v = SUCCEEDED then PENDING else COMPLETE),
        retryable := (v = FAILED \<and> c_retryable c = Some True),
        nextCheckAt := (if v = FAILED then None else Some (now + 30000)), r_updated := now\<rparr>)"

definition synced_row :: "int \<Rightarrow> ownership \<Rightarrow> journal_row \<Rightarrow> journal_row" where
  "synced_row now o' r =
     (if owned_by o' r \<and> status r = SUCCEEDED
      then r\<lparr>localSync := COMPLETE, nextCheckAt := None, r_updated := now\<rparr> else r)"

definition manual_row :: "int \<Rightarrow> ownership \<Rightarrow> journal_row \<Rightarrow> journal_row" where
  "manual_row now o' r =
     (if owned_by o' r then r\<lparr>reviewRequired := True, nextCheckAt := None, r_updated := now\<rparr> else r)"

definition schedule_row :: "int \<Rightarrow> ownership \<Rightarrow> int option \<Rightarrow> journal_row \<Rightarrow> journal_row" where
  "schedule_row now o' t r = (if owned_by o' r then r\<lparr>nextCheckAt := t, r_updated := now\<rparr> else r)"

section \<open>The transition function\<close>

type_synonym transition_result = "exn + journal_row option \<times> string option"

definition prepare_op :: "int \<Rightarrow> string \<Rightarrow> string \<Rightarrow> prepare_input \<Rightarrow> journal
    \<Rightarrow> transition_result \<times> journal" where
  "prepare_op now c a p j =
     (let r0 = find_row c a j;
          res = (case r0 of None \<Rightarrow> pi_resourceHash p | Some r \<Rightarrow> r_resource r);
          conflict = (if (case r0 of None \<Rightarrow> True | Some r \<Rightarrow> dispatchable r)
                      then conflict_of c res a j else None)
      in case r0 of
           None \<Rightarrow>
             (if pi_mode p = OFF then (Inr (None, conflict), j)
              else (case occurredAt (pi_intent p) of
                      None \<Rightarrow> (Inl ''invalid input syntax for type timestamp'', j)
                    | Some t \<Rightarrow>
                        (let r = new_row now c a p (map_option actionId (latest_row c res j)) t
                         in (Inr (Some r, conflict), j\<lparr>rows := rows j @ [r]\<rparr>))))
         | Some r \<Rightarrow>
             (if identity_mismatch p r
              then (Inr (Some r, Some ''identity_payload_mismatch''), j)
              else (Inr (Some r, conflict), j)))"

definition settle_op :: "int \<Rightarrow> string \<Rightarrow> string \<Rightarrow> ownership \<Rightarrow> action_completion \<Rightarrow> string
    \<Rightarrow> journal_row \<Rightarrow> journal \<Rightarrow> transition_result \<times> journal" where
  "settle_op now c a o' cpl hash r j =
     (case (case o_attempt o' of Some x \<Rightarrow> Some x | None \<Rightarrow>
              (case dispatchAttemptId r of Some x \<Rightarrow> Some x | None \<Rightarrow> o_owner o')) of
        None \<Rightarrow> (Inl ''null value in column attempt_id'', j)
      | Some attempt \<Rightarrow>
          (let key = (\<lambda>e. e_corp e = c \<and> e_action e = a \<and> e_attempt e = attempt \<and> e_hash e = hash);
               j1 = (if list_ex key (evid j) then j
                     else j\<lparr>evid := evid j @ [\<lparr>e_corp = c, e_action = a, e_attempt = attempt,
                            e_hash = hash, e_completion = cpl, e_created = now\<rparr>]\<rparr>)
           in if owned_by o' r \<and> in_flight r
              then (if \<not> settles_to (conclusive_state cpl)
                    then (Inl ''invalid completion'', j)
                    else (Inr (Some (settle_row now cpl r), None), update_row c a (settle_row now cpl) j1))
              else (Inr (Some r, None), j1)))"

definition transition :: "int \<Rightarrow> journal_op \<Rightarrow> string \<Rightarrow> string \<Rightarrow> journal
    \<Rightarrow> transition_result \<times> journal" where
  "transition now op c a j =
     (if c = [] \<or> a = [] then (Inl ''incomplete action identity'', j)
      else case op of
        Prepare p \<Rightarrow> prepare_op now c a p j
      | _ \<Rightarrow>
          (case find_row c a j of
             None \<Rightarrow> (Inr (None, None), j)
           | Some r \<Rightarrow>
               (case op of
                  Prepare p \<Rightarrow> prepare_op now c a p j
                | Claim who \<Rightarrow>
                    (case conflict_of c (r_resource r) a j of
                       Some x \<Rightarrow> (Inr (Some r, Some x), j)
                     | None \<Rightarrow> (Inr (Some (claim_row now who r), None), update_row c a (claim_row now who) j))
                | ReconcileClaim who \<Rightarrow>
                    (Inr (Some (reconcile_row now who r), None), update_row c a (reconcile_row now who) j)
                | ValidateClaim o' \<Rightarrow>
                    (if claim_invalid now o' r then (Inr (None, None), j) else (Inr (Some r, None), j))
                | Cancel o' \<Rightarrow>
                    (Inr (Some (cancel_row now r), None), update_row c a (cancel_row now) j)
                | Settle o' cpl hash \<Rightarrow> settle_op now c a o' cpl hash r j
                | Synced o' \<Rightarrow>
                    (Inr (Some (synced_row now o' r), None), update_row c a (synced_row now o') j)
                | Manual o' \<Rightarrow>
                    (Inr (Some (manual_row now o' r), None), update_row c a (manual_row now o') j)
                | Schedule o' t \<Rightarrow>
                    (Inr (Some (schedule_row now o' t r), None), update_row c a (schedule_row now o' t) j))))"

section \<open>Operator review\<close>

datatype review_conclusion = RSucceeded | RFailed | RLeaveUnknown | RRetryLocalSync

record review_input =
  ri_operator :: string
  ri_basis :: string
  ri_account :: string
  ri_payloadHash :: string
  ri_attempt :: "string option"
  ri_conclusion :: review_conclusion
  ri_completion :: "action_completion option"

definition conclusion_state :: "review_conclusion \<Rightarrow> action_state" where
  "conclusion_state v = (case v of RSucceeded \<Rightarrow> SUCCEEDED | RFailed \<Rightarrow> FAILED | _ \<Rightarrow> UNKNOWN)"

text \<open>The completion an operator presents must prove the conclusion.\<close>

definition authoritative :: "review_conclusion \<Rightarrow> action_completion option \<Rightarrow> bool" where
  "authoritative v oc = (case oc of None \<Rightarrow> False | Some c \<Rightarrow>
     c_status c = conclusion_state v \<and> requestTerminated (c_evidence c)
     \<and> (v = RFailed \<longrightarrow> ev_kind (c_evidence c) = DEFINITIVE_NO_EFFECT)
     \<and> (v = RSucceeded \<longrightarrow> c_result c \<noteq> None))"

definition review_row :: "int \<Rightarrow> review_conclusion \<Rightarrow> action_completion \<Rightarrow> journal_row \<Rightarrow> journal_row" where
  "review_row now v c r =
     r\<lparr>status := conclusion_state v, result := c_result c, evidence := Some (c_evidence c),
       localSync := (if v = RSucceeded then PENDING else COMPLETE), retryable := False,
       owner := None, fence := fence r + 1, reviewRequired := False, attempts := 0,
       nextCheckAt := (if v = RSucceeded then Some now else None),
       recoveryDeadline := (if v = RSucceeded then now + 86400000 else recoveryDeadline r),
       r_updated := now\<rparr>"

definition leave_unknown_row :: "int \<Rightarrow> journal_row \<Rightarrow> journal_row" where
  "leave_unknown_row now r =
     r\<lparr>status := UNKNOWN, reviewRequired := True, nextCheckAt := None, owner := None,
       fence := fence r + 1, r_updated := now\<rparr>"

definition retry_sync_row :: "int \<Rightarrow> journal_row \<Rightarrow> journal_row" where
  "retry_sync_row now r =
     r\<lparr>reviewRequired := False, attempts := 0, nextCheckAt := Some now,
       recoveryDeadline := now + 86400000, r_updated := now\<rparr>"

text \<open>
  The evidence row that a review writes is keyed by the MD5 of the completion; the digest is
  a parameter.
\<close>

definition review_action :: "(action_completion \<Rightarrow> string) \<Rightarrow> int \<Rightarrow> review_input \<Rightarrow> string \<Rightarrow> string
    \<Rightarrow> journal \<Rightarrow> (exn + journal_row) \<times> journal" where
  "review_action md5 now i c a j =
     (if blank (ri_operator i) \<or> blank (ri_basis i) then (Inl ''operator and evidence basis required'', j)
      else case find_row c a j of
        None \<Rightarrow> (Inl ''action not found'', j)
      | Some r \<Rightarrow>
          (if mode r \<noteq> EXECUTE \<or> r_account r \<noteq> ri_account i \<or> payloadHash r \<noteq> ri_payloadHash i
              \<or> dispatchAttemptId r \<noteq> ri_attempt i
           then (Inl ''review action identity mismatch'', j)
           else if ri_conclusion i = RRetryLocalSync then
             (if status r \<noteq> SUCCEEDED \<or> localSync r \<noteq> PENDING then (Inl ''no pending local sync'', j)
              else (Inr (retry_sync_row now r), update_row c a (retry_sync_row now) j))
           else if \<not> in_flight r then (Inl ''terminal action cannot be overwritten'', j)
           else if ri_conclusion i = RLeaveUnknown then
             (Inr (leave_unknown_row now r), update_row c a (leave_unknown_row now) j)
           else if \<not> authoritative (ri_conclusion i) (ri_completion i) then
             (Inl ''authoritative terminal evidence required'', j)
           else (case dispatchAttemptId r of None \<Rightarrow> (Inl ''null value in column attempt_id'', j)
             | Some attempt \<Rightarrow>
               (let cpl = the (ri_completion i); h = md5 cpl;
                    key = (\<lambda>e. e_corp e = c \<and> e_action e = a \<and> e_attempt e = attempt \<and> e_hash e = h);
                    j1 = (if list_ex key (evid j) then j
                          else j\<lparr>evid := evid j @ [\<lparr>e_corp = c, e_action = a, e_attempt = attempt,
                                 e_hash = h, e_completion = cpl, e_created = now\<rparr>]\<rparr>)
                in (Inr (review_row now (ri_conclusion i) cpl r),
                    update_row c a (review_row now (ri_conclusion i) cpl) j1)))))"

section \<open>Retention\<close>

text \<open>
  \<open>redact_completed_agent_actions\<close>, in its last version
  (\<open>20261023060000_runtime_retention_batches.sql\<close>): the oldest rows older than 90 days that carry no
  obligation, because they only observed or are finished, lose their payload and their evidence.  \<open>locked\<close> are the rows another transaction holds
  (\<open>for update skip locked\<close>).  Of the intent the keys \<open>parameters\<close>, \<open>recovery\<close> and
  \<open>target\<close> are dropped; an absent target is the empty text.
\<close>

definition redactable :: "int \<Rightarrow> journal_row \<Rightarrow> bool" where
  "redactable now r \<longleftrightarrow> r_updated r < now - 90 * 86400000 \<and> \<not> r_redacted r \<and>
     (mode r \<in> {OFF, OBSERVE} \<or> (status r \<in> {SUCCEEDED, FAILED, CANCELLED} \<and> localSync r = COMPLETE))"

definition redact_row :: "journal_row \<Rightarrow> journal_row" where
  "redact_row r = r\<lparr>intent := (intent r)\<lparr>parameters := JUndef, recovery := None, target := []\<rparr>,
     result := None, evidence := None, r_redacted := True\<rparr>"

definition redact_batch :: "int \<Rightarrow> int \<Rightarrow> (journal_row \<Rightarrow> bool) \<Rightarrow> journal \<Rightarrow> journal_row list" where
  "redact_batch now limit locked j =
     take (nat (min (max limit 1) 100))
       (sort_key r_updated (filter (\<lambda>r. redactable now r \<and> \<not> locked r) (rows j)))"

definition redact_completed :: "int \<Rightarrow> int \<Rightarrow> (journal_row \<Rightarrow> bool) \<Rightarrow> journal \<Rightarrow> nat \<times> journal" where
  "redact_completed now limit locked j =
     (let keys = map (\<lambda>r. (r_corp r, actionId r)) (redact_batch now limit locked j);
          hit = (\<lambda>c a. List.member keys (c, a))
      in (length keys,
          j\<lparr>rows := map (\<lambda>r. if hit (r_corp r) (actionId r) then redact_row r else r) (rows j),
            evid := filter (\<lambda>e. \<not> hit (e_corp e) (e_action e)) (evid j)\<rparr>))"

end
