(* ===== verification/ActionJournalInv.thy ===== *)
theory ActionJournalInv
  imports ActionJournal
begin

text \<open>
  What the journal guarantees: the primary key is unique, every row is well formed, at most one
  execute obligation per resource is open, finished rows stay finished and the fence only grows.
  Each is proved for one row update first, then for the SQL functions, then for every
  journal reachable by any interleaving of transitions, reviews and retention runs.
\<close>

section \<open>Row updates\<close>

text \<open>\<open>row_step now r r'\<close>: \<open>r'\<close> is \<open>r\<close> after one of the updates the SQL functions make.\<close>

inductive row_step :: "int \<Rightarrow> journal_row \<Rightarrow> journal_row \<Rightarrow> bool" for now where
  rs_claim: "row_step now r (claim_row now who r)"
| rs_cancel: "row_step now r (cancel_row now r)"
| rs_reconcile: "row_step now r (reconcile_row now who r)"
| rs_settle: "in_flight r \<Longrightarrow> owner r \<noteq> None \<Longrightarrow> settles_to (conclusive_state cpl) \<Longrightarrow> row_step now r (settle_row now cpl r)"
| rs_synced: "row_step now r (synced_row now o' r)"
| rs_manual: "row_step now r (manual_row now o' r)"
| rs_schedule: "row_step now r (schedule_row now o' t r)"
| rs_review: "in_flight r \<Longrightarrow> v \<in> {RSucceeded, RFailed} \<Longrightarrow>
     authoritative v (Some cpl) \<Longrightarrow> dispatchAttemptId r \<noteq> None \<Longrightarrow> row_step now r (review_row now v cpl r)"
| rs_leave: "in_flight r \<Longrightarrow> row_step now r (leave_unknown_row now r)"
| rs_retry: "status r = SUCCEEDED \<Longrightarrow> localSync r = PENDING \<Longrightarrow> row_step now r (retry_sync_row now r)"
| rs_redact: "redactable now r \<Longrightarrow> row_step now r (redact_row r)"

lemmas row_updates =
  claim_row_def cancel_row_def reconcile_row_def settle_row_def synced_row_def manual_row_def
  schedule_row_def review_row_def leave_unknown_row_def retry_sync_row_def redact_row_def

definition row_key :: "journal_row \<Rightarrow> string \<times> string" where
  "row_key r = (r_corp r, actionId r)"

definition frozen :: "journal_row \<Rightarrow> string \<times> string \<times> string \<times> string \<times> string \<times> action_mode \<times> string option" where
  "frozen r = (r_corp r, actionId r, r_resource r, payloadHash r, requestId r, mode r, previousActionId r)"

lemma row_step_frozen: "row_step now r r' \<Longrightarrow> frozen r' = frozen r"
  by (induction rule: row_step.induct) (simp_all add: row_updates frozen_def Let_def)

lemma row_step_key: "row_step now r r' \<Longrightarrow> row_key r' = row_key r"
  using row_step_frozen by (fastforce simp: frozen_def row_key_def)

lemma row_step_fence: "row_step now r r' \<Longrightarrow> fence r \<le> fence r'"
  by (induction rule: row_step.induct) (simp_all add: row_updates Let_def)

text \<open>A row that was dispatched and is not settled, a success, a cancellation and a final
  failure are never dispatchable again.\<close>

definition final_state :: "journal_row \<Rightarrow> bool" where
  "final_state r \<longleftrightarrow> status r \<in> {SUCCEEDED, CANCELLED} \<or> (status r = FAILED \<and> \<not> retryable r)"

lemma row_step_final: "row_step now r r' \<Longrightarrow> final_state r \<Longrightarrow> final_state r' \<and> status r' = status r"
  by (induction rule: row_step.induct)
     (auto simp: row_updates Let_def final_state_def dispatchable_def in_flight_def)

text \<open>The only way back to a dispatchable state is an attempt proved to have had no effect.\<close>

lemma settle_row_simps [simp]:
  "status (settle_row now cpl r) = conclusive_state cpl"
  "fence (settle_row now cpl r) = fence r"
  "attempts (settle_row now cpl r) = attempts r"
  "owner (settle_row now cpl r) = owner r"
  "mode (settle_row now cpl r) = mode r"
  "dispatchAttemptId (settle_row now cpl r) = dispatchAttemptId r"
  "evidence (settle_row now cpl r) = Some (c_evidence cpl)"
  "localSync (settle_row now cpl r) = (if conclusive_state cpl = SUCCEEDED then PENDING else COMPLETE)"
  "retryable (settle_row now cpl r) = (conclusive_state cpl = FAILED \<and> c_retryable cpl = Some True)"
  "r_redacted (settle_row now cpl r) = r_redacted r"
  by (simp_all add: settle_row_def Let_def)

lemma row_step_redispatch:
  assumes "row_step now r r'" and "in_flight r" and "dispatchable r'"
  shows "\<exists>cpl. r' = settle_row now cpl r \<and> c_status cpl = FAILED \<and>
     proves_no_effect (c_evidence cpl) \<and> c_retryable cpl = Some True"
  using assms(1)
proof (cases rule: row_step.cases)
  case (rs_settle cpl)
  then have "conclusive_state cpl = FAILED" "c_retryable cpl = Some True"
    using assms(3) by (auto simp: dispatchable_def settles_to_def)
  then show ?thesis using rs_settle(1) by (auto simp: conclusive_FAILED)
qed (use assms(2,3) in \<open>auto simp: row_updates dispatchable_def in_flight_def redactable_def conclusion_state_def
       split: if_splits\<close>)

lemma row_step_open:
  "row_step now r r' \<Longrightarrow> open_obligation r' \<Longrightarrow> open_obligation r \<or> dispatchable r"
  by (induction rule: row_step.induct)
     (auto simp: row_updates Let_def open_obligation_def in_flight_def redactable_def split: if_splits)

definition row_ok :: "journal_row \<Rightarrow> bool" where
  "row_ok r \<longleftrightarrow>
     (status r = REGISTERED \<longrightarrow> fence r = 0 \<and> attempts r = 0 \<and> owner r = None \<and> dispatchAttemptId r = None)
   \<and> (status r \<in> {EXECUTING, UNKNOWN, SUCCEEDED, FAILED} \<longrightarrow> dispatchAttemptId r \<noteq> None \<and> 0 < fence r)
   \<and> (status r = EXECUTING \<longrightarrow> owner r \<noteq> None)
   \<and> (localSync r = PENDING \<longrightarrow> status r = SUCCEEDED)
   \<and> (status r = FAILED \<and> \<not> r_redacted r \<longrightarrow> (\<exists>e. evidence r = Some e \<and> proves_no_effect e))
   \<and> (status r = SUCCEEDED \<and> \<not> r_redacted r \<longrightarrow> (\<exists>e. evidence r = Some e \<and> requestTerminated e))
   \<and> (r_redacted r \<and> mode r = EXECUTE \<longrightarrow> status r \<noteq> REGISTERED)"

lemma settle_row_ok:
  assumes "row_ok r" and "in_flight r" and "owner r \<noteq> None" and "settles_to (conclusive_state cpl)"
  shows "row_ok (settle_row now cpl r)"
proof -
  have "dispatchAttemptId r \<noteq> None" "0 < fence r"
    using assms(1,2) by (auto simp: row_ok_def in_flight_def)
  then show ?thesis
    using assms(3,4) conclusive_FAILED_D [of cpl] conclusive_SUCCEEDED_D [of cpl]
    by (cases "conclusive_state cpl") (simp_all add: row_ok_def settles_to_def)
qed

lemma row_step_ok: "row_step now r r' \<Longrightarrow> row_ok r \<Longrightarrow> row_ok r'"
proof (induction rule: row_step.induct)
  case (rs_settle r cpl)
  then show ?case by (simp add: settle_row_ok)
next
  case (rs_review r v cpl)
  then have "proves_no_effect (c_evidence cpl)" if "v = RFailed"
    using that by (simp add: authoritative_def proves_no_effect_def)
  with rs_review show ?case
    by (cases v) (simp_all add: row_ok_def review_row_def conclusion_state_def authoritative_def in_flight_def)
next
  case (rs_redact r)
  then show ?case by (cases "status r"; cases "mode r") (simp_all add: row_ok_def redact_row_def redactable_def)
next
  case (rs_claim r who)
  then show ?case by (cases "status r") (simp_all add: row_ok_def claim_row_def dispatchable_def)
next
  case (rs_leave r)
  then show ?case by (cases "status r") (simp_all add: row_ok_def leave_unknown_row_def in_flight_def)
next
  case (rs_reconcile r who)
  then show ?case by (cases "status r") (simp_all add: row_ok_def reconcile_row_def)
next
  case (rs_cancel r)
  then show ?case by (cases "status r") (simp_all add: row_ok_def cancel_row_def)
next
  case (rs_retry r)
  then show ?case by (simp add: row_ok_def retry_sync_row_def)
next
  case (rs_synced r o')
  then show ?case by (cases "status r") (simp_all add: row_ok_def synced_row_def)
qed (simp_all add: manual_row_def schedule_row_def row_ok_def)

lemma new_row_ok: "row_ok (new_row now c a p prev t)"
  by (simp add: row_ok_def new_row_def)

section \<open>What a transition does to the table\<close>

lemma find_row_Some: "find_row c a j = Some r \<Longrightarrow> r \<in> set (rows j) \<and> is_key c a r"
  unfolding find_row_def by (metis find_Some_iff nth_mem)

lemma find_row_None: "find_row c a j = None \<longleftrightarrow> (\<forall>r\<in>set (rows j). \<not> is_key c a r)"
  unfolding find_row_def by (auto simp: find_None_iff)

lemma rows_update_row [simp]:
  "rows (update_row c a f j) = map (\<lambda>r. if is_key c a r then f r else r) (rows j)"
  by (simp add: update_row_def)

text \<open>
  \<open>table_step now j j'\<close> is the effect of one call: nothing, one new registered row of a fresh
  key, one row rewritten by a claim while no other obligation of its resource is open, one row
  rewritten by another update, or several rows redacted.
\<close>

definition resource_free :: "journal_row \<Rightarrow> journal \<Rightarrow> bool" where
  "resource_free r j \<longleftrightarrow> (\<forall>q\<in>set (rows j). r_corp q = r_corp r \<and> r_resource q = r_resource r \<and>
     actionId q \<noteq> actionId r \<longrightarrow> \<not> open_obligation q)"

inductive table_step :: "int \<Rightarrow> journal \<Rightarrow> journal \<Rightarrow> bool" for now where
  ts_same: "rows j' = rows j \<Longrightarrow> table_step now j j'"
| ts_new: "find_row c a j = None \<Longrightarrow> rows j' = rows j @ [new_row now c a p prev t] \<Longrightarrow> table_step now j j'"
| ts_update: "rows j' = map (\<lambda>r. if is_key c a r then f r else r) (rows j) \<Longrightarrow>
     (\<And>r. r \<in> set (rows j) \<Longrightarrow> is_key c a r \<Longrightarrow> row_step now r (f r)) \<Longrightarrow>
     (\<And>r. r \<in> set (rows j) \<Longrightarrow> is_key c a r \<Longrightarrow> dispatchable r \<Longrightarrow> open_obligation (f r) \<Longrightarrow> resource_free r j) \<Longrightarrow>
     table_step now j j'"
| ts_redact: "rows j' = map (\<lambda>r. if hit r then redact_row r else r) (rows j) \<Longrightarrow>
     (\<And>r. r \<in> set (rows j) \<Longrightarrow> hit r \<Longrightarrow> redactable now r) \<Longrightarrow> table_step now j j'"

definition distinct_keys :: "journal \<Rightarrow> bool" where
  "distinct_keys j \<longleftrightarrow> distinct (map row_key (rows j))"

lemma is_key_row_key: "is_key c a r \<longleftrightarrow> row_key r = (c, a)"
  by (auto simp: is_key_def row_key_def)

lemma find_row_unique:
  assumes "distinct_keys j" and "r \<in> set (rows j)" and "is_key c a r"
  shows "find_row c a j = Some r"
proof (cases "find_row c a j")
  case None
  with assms(2,3) show ?thesis by (auto simp: find_row_None)
next
  case (Some q)
  with find_row_Some have "q \<in> set (rows j)" "row_key q = row_key r"
    using assms(3) by (auto simp: is_key_row_key dest: find_row_Some)
  with assms(1,2) have "q = r"
    by (auto simp: distinct_keys_def distinct_map dest: inj_onD)
  with Some show ?thesis by simp
qed

lemma conflict_of_None:
  "conflict_of (r_corp r) (r_resource r) (actionId r) j = None \<Longrightarrow> resource_free r j"
  by (auto simp: conflict_of_def resource_free_def find_None_iff)

lemma claim_row_dispatchable_open: "\<not> dispatchable r \<Longrightarrow> claim_row now who r = r"
  by (simp add: claim_row_def)

text \<open>An update that opens a dispatchable row is a claim.\<close>

lemma update_closed:
  "dispatchable r \<Longrightarrow> \<not> open_obligation (cancel_row now r)"
  "dispatchable r \<Longrightarrow> \<not> open_obligation (reconcile_row now who r)"
  "dispatchable r \<Longrightarrow> \<not> open_obligation (synced_row now o' r)"
  "dispatchable r \<Longrightarrow> \<not> open_obligation (manual_row now o' r)"
  "dispatchable r \<Longrightarrow> \<not> open_obligation (schedule_row now o' t r)"
  by (auto simp: row_updates dispatchable_def open_obligation_def in_flight_def)

lemma ts_update1:
  assumes d: "distinct_keys j" and r: "find_row c a j = Some r"
    and "rows j' = map (\<lambda>r. if is_key c a r then f r else r) (rows j)"
    and "row_step now r (f r)"
    and "dispatchable r \<Longrightarrow> open_obligation (f r) \<Longrightarrow> resource_free r j"
  shows "table_step now j j'"
proof (rule ts_update [of j' c a f])
  show "rows j' = map (\<lambda>r. if is_key c a r then f r else r) (rows j)" by fact
next
  fix q assume "q \<in> set (rows j)" "is_key c a q"
  with find_row_unique [OF d this] r have "q = r" by simp
  then show "row_step now q (f q)" and "dispatchable q \<Longrightarrow> open_obligation (f q) \<Longrightarrow> resource_free q j"
    using assms(4,5) by simp_all
qed

lemma find_row_key: "find_row c a j = Some r \<Longrightarrow> r_corp r = c \<and> actionId r = a"
  by (auto dest!: find_row_Some simp: is_key_def)

lemma rows_evid_update [simp]: "rows (j\<lparr>evid := x\<rparr>) = rows j"
  by simp

lemma settle_op_step:
  assumes "distinct_keys j" and "find_row c a j = Some r"
  shows "table_step now j (snd (settle_op now c a o' cpl h r j))"
proof (cases "owned_by o' r \<and> in_flight r \<and> settles_to (conclusive_state cpl)")
  case False
  then have "rows (snd (settle_op now c a o' cpl h r j)) = rows j"
    by (auto simp: settle_op_def Let_def split: option.split)
  then show ?thesis by (rule ts_same)
next
  case True
  then have "row_step now r (settle_row now cpl r)" and "\<not> dispatchable r"
    by (auto intro: rs_settle simp: owned_by_def dispatchable_def in_flight_def)
  then have *: "table_step now j (update_row c a (settle_row now cpl) j2)" if "rows j2 = rows j" for j2
    using assms that by (intro ts_update1 [where f = "settle_row now cpl"]) auto
  show ?thesis
    using True by (auto simp: settle_op_def Let_def owned_by_def intro!: * split: option.split)
qed

lemma transition_step:
  assumes d: "distinct_keys j"
  shows "table_step now j (snd (transition now op c a j))"
proof (cases "c = [] \<or> a = []")
  case True
  then show ?thesis by (auto simp: transition_def intro: ts_same)
next
  case ca: False
  show ?thesis
  proof (cases "\<exists>p. op = Prepare p")
    case True
    then obtain p where p: "op = Prepare p" by blast
    show ?thesis
      using ca by (auto simp: p transition_def prepare_op_def Let_def intro: ts_same ts_new
          split: option.split)
  next
    case np: False
    show ?thesis
    proof (cases "find_row c a j")
      case None
      then show ?thesis using ca np by (cases op) (auto simp: transition_def intro: ts_same)
    next
      case (Some r)
      note k = find_row_key [OF this]
      note up = ts_update1 [OF d Some]
      show ?thesis
      proof (cases op)
        case (Claim who)
        then show ?thesis
          using ca Some k
          by (cases "conflict_of c (r_resource r) a j = None")
             (auto simp: transition_def intro: ts_same, auto intro!: up rs_claim conflict_of_None)
      next
        case (Settle o' cpl h)
        then show ?thesis using ca Some settle_op_step [OF d Some] by (simp add: transition_def)
      next
        case (ValidateClaim o')
        then show ?thesis using ca Some by (auto simp: transition_def intro: ts_same)
      qed (use ca np Some in \<open>auto simp: transition_def update_closed intro!: up row_step.intros\<close>)
    qed
  qed
qed

lemma review_step:
  assumes d: "distinct_keys j"
  shows "table_step now j (snd (review_action md5 now i c a j))"
proof (cases "blank (ri_operator i) \<or> blank (ri_basis i)")
  case True
  then show ?thesis by (auto simp: review_action_def intro: ts_same)
next
  case nb: False
  show ?thesis
  proof (cases "find_row c a j")
    case None
    then show ?thesis by (simp add: review_action_def ts_same)
  next
    case (Some r)
    note up = ts_update1 [OF d Some]
    have up2: "table_step now j (update_row c a f j2)"
      if "rows j2 = rows j" "row_step now r (f r)" "\<not> dispatchable r" for f j2
      using that by (intro up [where f = f]) auto
    have nd: "in_flight r \<Longrightarrow> \<not> dispatchable r"
      by (auto simp: in_flight_def dispatchable_def)
    have R: "table_step now j (update_row c a (review_row now (ri_conclusion i) cpl) j2)"
      if "rows j2 = rows j" "in_flight r" "authoritative (ri_conclusion i) (Some cpl)"
        "dispatchAttemptId r \<noteq> None" "ri_conclusion i \<noteq> RRetryLocalSync"
        "ri_conclusion i \<noteq> RLeaveUnknown" for cpl j2
    proof -
      have "row_step now r (review_row now (ri_conclusion i) cpl r)"
        using that by (cases "ri_conclusion i") (simp_all add: rs_review)
      then show ?thesis using up2 [OF that(1)] nd that(2) by blast
    qed
    have L: "in_flight r \<Longrightarrow> table_step now j (update_row c a (leave_unknown_row now) j)"
      by (rule up2) (auto intro: rs_leave dest: nd)
    have T: "status r = SUCCEEDED \<Longrightarrow> localSync r = PENDING \<Longrightarrow>
        table_step now j (update_row c a (retry_sync_row now) j)"
      by (rule up2) (auto intro: rs_retry simp: dispatchable_def)
    have cpl: "\<exists>cpl. ri_completion i = Some cpl" if "authoritative (ri_conclusion i) (ri_completion i)"
      using that by (cases "ri_completion i") (simp_all add: authoritative_def)
    have same: "table_step now j j" by (simp add: ts_same)
    show ?thesis
      using nb Some cpl
      by (auto simp: review_action_def Let_def same split: option.split intro!: R L T)
  qed
qed

lemma redact_step:
  assumes d: "distinct_keys j"
  shows "table_step now j (snd (redact_completed now limit locked j))"
proof -
  let ?b = "redact_batch now limit locked j"
  let ?hit = "\<lambda>r. List.member (map (\<lambda>r. (r_corp r, actionId r)) ?b) (r_corp r, actionId r)"
  have sub: "set ?b \<subseteq> {r \<in> set (rows j). redactable now r}"
    using set_take_subset unfolding redact_batch_def by fastforce
  have "redactable now r" if "r \<in> set (rows j)" "?hit r" for r
  proof -
    from that(2) obtain q where "q \<in> set ?b" "row_key q = row_key r"
      by (auto simp: row_key_def)
    moreover with sub have "q \<in> set (rows j)" "redactable now q" by auto
    ultimately show ?thesis
      using d that(1) by (auto simp: distinct_keys_def distinct_map dest: inj_onD)
  qed
  then show ?thesis
    by (intro ts_redact [where hit = ?hit]) (simp_all add: redact_completed_def Let_def)
qed

section \<open>Reachable journals\<close>

text \<open>Any number of workers, recovery scans, operators and retention runs, in any order.\<close>

inductive journal_step :: "journal \<Rightarrow> journal \<Rightarrow> bool" where
  js_transition: "journal_step j (snd (transition now op c a j))"
| js_review: "journal_step j (snd (review_action md5 now i c a j))"
| js_redact: "journal_step j (snd (redact_completed now limit locked j))"

inductive reachable_journal :: "journal \<Rightarrow> bool" where
  rj_start: "reachable_journal empty_journal"
| rj_step: "reachable_journal j \<Longrightarrow> journal_step j j' \<Longrightarrow> reachable_journal j'"

lemma journal_step_table: "journal_step j j' \<Longrightarrow> distinct_keys j \<Longrightarrow> \<exists>now. table_step now j j'"
  by (induction rule: journal_step.induct) (blast intro: transition_step review_step redact_step)+

text \<open>The invariant: unique keys, well-formed rows, one open obligation per resource.\<close>

definition one_obligation :: "journal \<Rightarrow> bool" where
  "one_obligation j \<longleftrightarrow> (\<forall>q\<in>set (rows j). \<forall>r\<in>set (rows j).
     open_obligation q \<and> open_obligation r \<and> r_corp q = r_corp r \<and> r_resource q = r_resource r
     \<longrightarrow> actionId q = actionId r)"

definition journal_ok :: "journal \<Rightarrow> bool" where
  "journal_ok j \<longleftrightarrow> distinct_keys j \<and> one_obligation j \<and> (\<forall>r\<in>set (rows j). row_ok r)"

lemma redact_row_simps [simp]:
  "row_key (redact_row r) = row_key r" "status (redact_row r) = status r"
  "r_corp (redact_row r) = r_corp r" "r_resource (redact_row r) = r_resource r"
  "actionId (redact_row r) = actionId r" "mode (redact_row r) = mode r" "retryable (redact_row r) = retryable r" "fence (redact_row r) = fence r"
  by (simp_all add: redact_row_def row_key_def)

lemma table_step_distinct:
  assumes "table_step now j j'" and d: "distinct_keys j"
  shows "distinct_keys j'"
  using assms(1)
proof (cases rule: table_step.cases)
  case (ts_new c a prev t)
  then show ?thesis
    using d by (auto simp: distinct_keys_def find_row_None is_key_row_key row_key_def new_row_def image_iff)
next
  case (ts_update c a f)
  have "map row_key (rows j') = map row_key (rows j)"
    using ts_update(1,2) by (auto dest: row_step_key)
  with d show ?thesis by (simp add: distinct_keys_def)
next
  case (ts_redact hit)
  then have "map row_key (rows j') = map row_key (rows j)" by simp
  with d show ?thesis by (simp add: distinct_keys_def)
qed (use d in \<open>simp add: distinct_keys_def\<close>)

lemma table_step_rows:
  assumes "table_step now j j'" and "r' \<in> set (rows j')"
  shows "(\<exists>c a p prev t. r' = new_row now c a p prev t) \<or> (\<exists>r\<in>set (rows j). r' = r \<or> row_step now r r')"
  using assms(1)
proof (cases rule: table_step.cases)
  case (ts_new c a prev t)
  then show ?thesis using assms(2) by auto blast
next
  case (ts_update c a f)
  with assms(2) obtain r where r: "r \<in> set (rows j)" "r' = (if is_key c a r then f r else r)"
    by auto
  with ts_update(2) have "r' = r \<or> row_step now r r'" by (cases "is_key c a r") simp_all
  with r(1) show ?thesis by blast
next
  case (ts_redact hit)
  with assms(2) obtain r where r: "r \<in> set (rows j)" "r' = (if hit r then redact_row r else r)"
    by auto
  with ts_redact(2) rs_redact have "r' = r \<or> row_step now r r'" by (cases "hit r") simp_all
  with r(1) show ?thesis by blast
qed (use assms(2) in auto)

lemma table_step_ok:
  "table_step now j j' \<Longrightarrow> \<forall>r\<in>set (rows j). row_ok r \<Longrightarrow> \<forall>r\<in>set (rows j'). row_ok r"
  by (blast dest: table_step_rows intro: row_step_ok new_row_ok)

lemma resource_free_D:
  "resource_free r j \<Longrightarrow> q \<in> set (rows j) \<Longrightarrow> r_corp q = r_corp r \<Longrightarrow> r_resource q = r_resource r \<Longrightarrow>
   actionId q \<noteq> actionId r \<Longrightarrow> \<not> open_obligation q"
  by (simp add: resource_free_def)

lemma row_step_scope:
  "row_step now r r' \<Longrightarrow> r_corp r' = r_corp r \<and> r_resource r' = r_resource r \<and> actionId r' = actionId r"
  by (drule row_step_frozen) (simp add: frozen_def)

lemma redact_row_open: "redactable now r \<Longrightarrow> \<not> open_obligation (redact_row r)"
  by (auto simp: redactable_def open_obligation_def in_flight_def)

lemma new_row_closed: "\<not> open_obligation (new_row now c a p prev t)"
  by (simp add: open_obligation_def in_flight_def new_row_def)

lemma table_step_one_update:
  assumes d: "one_obligation j"
    and rows: "rows j' = map (\<lambda>r. if is_key c a r then f r else r) (rows j)"
    and st: "\<And>r. r \<in> set (rows j) \<Longrightarrow> is_key c a r \<Longrightarrow> row_step now r (f r)"
    and fr: "\<And>r. r \<in> set (rows j) \<Longrightarrow> is_key c a r \<Longrightarrow> dispatchable r \<Longrightarrow> open_obligation (f r) \<Longrightarrow> resource_free r j"
  shows "one_obligation j'"
proof -
  let ?g = "\<lambda>r. if is_key c a r then f r else r"
  have sc: "r_corp (?g r) = r_corp r \<and> r_resource (?g r) = r_resource r \<and> actionId (?g r) = actionId r"
    if "r \<in> set (rows j)" for r
    using st [OF that] row_step_scope by auto
  have op: "open_obligation r \<or> resource_free r j" if "r \<in> set (rows j)" "open_obligation (?g r)" for r
    using that st [OF that(1)] fr [OF that(1)] row_step_open by (auto split: if_splits)
  have "actionId q = actionId r"
    if "q \<in> set (rows j)" "r \<in> set (rows j)" "open_obligation (?g q)" "open_obligation (?g r)"
      "r_corp q = r_corp r" "r_resource q = r_resource r" for q r
  proof (rule ccontr)
    assume ne: "actionId q \<noteq> actionId r"
    then have "\<not> (is_key c a q \<and> is_key c a r)" by (auto simp: is_key_def)
    moreover have "\<not> (open_obligation q \<and> open_obligation r)"
      using d ne that by (auto simp: one_obligation_def)
    moreover have "\<not> (resource_free q j \<and> open_obligation r)" "\<not> (resource_free r j \<and> open_obligation q)"
      using resource_free_D [of q j r] resource_free_D [of r j q] that ne by auto
    ultimately show False using op [OF that(1,3)] op [OF that(2,4)] that(3,4) by auto
  qed
  note pair = this
  show ?thesis
    unfolding one_obligation_def
  proof (intro ballI impI)
    fix q' r' assume "q' \<in> set (rows j')" "r' \<in> set (rows j')"
    then obtain q r where qr: "q \<in> set (rows j)" "r \<in> set (rows j)" "q' = ?g q" "r' = ?g r"
      by (auto simp: rows)
    assume "open_obligation q' \<and> open_obligation r' \<and> r_corp q' = r_corp r' \<and> r_resource q' = r_resource r'"
    with pair [OF qr(1,2)] sc [OF qr(1)] sc [OF qr(2)] show "actionId q' = actionId r'"
      unfolding qr(3,4) by argo
  qed
qed

lemma one_obligation_map:
  assumes d: "one_obligation j" and rows: "rows j' = map g (rows j)"
    and g: "\<And>r. r \<in> set (rows j) \<Longrightarrow> r_corp (g r) = r_corp r \<and> r_resource (g r) = r_resource r \<and>
      actionId (g r) = actionId r \<and> (open_obligation (g r) \<longrightarrow> open_obligation r)"
  shows "one_obligation j'"
  unfolding one_obligation_def
proof (intro ballI impI)
  fix q' r' assume "q' \<in> set (rows j')" "r' \<in> set (rows j')"
  then obtain q r where qr: "q \<in> set (rows j)" "r \<in> set (rows j)" "q' = g q" "r' = g r"
    by (auto simp: rows)
  assume "open_obligation q' \<and> open_obligation r' \<and> r_corp q' = r_corp r' \<and> r_resource q' = r_resource r'"
  with g [OF qr(1)] g [OF qr(2)] d qr(1,2) show "actionId q' = actionId r'"
    unfolding qr(3,4) one_obligation_def by metis
qed

lemma table_step_one:
  assumes "table_step now j j'" and d: "one_obligation j"
  shows "one_obligation j'"
  using assms(1)
proof (cases rule: table_step.cases)
  case (ts_new c a p prev t)
  have "q \<in> set (rows j)" if "q \<in> set (rows j')" "open_obligation q" for q
    using that ts_new(2) new_row_closed by auto
  then show ?thesis using d unfolding one_obligation_def by meson
next
  case (ts_update c a f)
  then show ?thesis using table_step_one_update [OF d] by blast
next
  case (ts_redact hit)
  show ?thesis
  proof (rule one_obligation_map [OF d ts_redact(1)])
    fix r assume "r \<in> set (rows j)"
    then have "hit r \<Longrightarrow> \<not> open_obligation (redact_row r)"
      using ts_redact(2) redact_row_open by blast
    then show "r_corp (if hit r then redact_row r else r) = r_corp r \<and>
      r_resource (if hit r then redact_row r else r) = r_resource r \<and>
      actionId (if hit r then redact_row r else r) = actionId r \<and>
      (open_obligation (if hit r then redact_row r else r) \<longrightarrow> open_obligation r)"
      by (cases "hit r") simp_all
  qed
next
  case ts_same
  show ?thesis using d unfolding one_obligation_def ts_same .
qed

lemma journal_step_ok: "journal_step j j' \<Longrightarrow> journal_ok j \<Longrightarrow> journal_ok j'"
  using journal_step_table table_step_distinct table_step_one table_step_ok
  unfolding journal_ok_def by meson

lemma reachable_journal_ok: "reachable_journal j \<Longrightarrow> journal_ok j"
proof (induction rule: reachable_journal.induct)
  case rj_start
  show ?case by (simp add: journal_ok_def distinct_keys_def one_obligation_def empty_journal_def)
next
  case (rj_step j j')
  then show ?case by (blast intro: journal_step_ok)
qed

section \<open>Along a run\<close>

lemma journal_step_ok_star: "journal_step\<^sup>*\<^sup>* j j' \<Longrightarrow> journal_ok j \<Longrightarrow> journal_ok j'"
  by (induction rule: rtranclp_induct) (auto intro: journal_step_ok)

text \<open>A row stays in the table; each of its versions follows from the one before.\<close>

lemma table_step_keeps_row:
  assumes "table_step now j j'" and "r \<in> set (rows j)"
  shows "\<exists>r'\<in>set (rows j'). r' = r \<or> row_step now r r'"
  using assms(1)
proof (cases rule: table_step.cases)
  case (ts_update c a f)
  then have "(if is_key c a r then f r else r) \<in> set (rows j')" using assms(2) by auto
  with ts_update(2) [OF assms(2)] show ?thesis by (cases "is_key c a r") auto
next
  case (ts_redact hit)
  then have "(if hit r then redact_row r else r) \<in> set (rows j')" using assms(2) by auto
  with ts_redact(2) [OF assms(2)] rs_redact show ?thesis by (cases "hit r") auto
qed (use assms(2) in auto)

lemma run_keeps_row:
  assumes "journal_step\<^sup>*\<^sup>* j j'" and "journal_ok j" and "r \<in> set (rows j)"
    and refl: "R r" and step: "\<And>now p q. R p \<Longrightarrow> row_step now p q \<Longrightarrow> R q"
  shows "\<exists>r'\<in>set (rows j'). R r'"
  using assms(1)
proof (induction rule: rtranclp_induct)
  case base
  then show ?case using assms(3) refl by blast
next
  case (step j1 j2)
  then obtain p where p: "p \<in> set (rows j1)" "R p" by blast
  have "distinct_keys j1" using journal_step_ok_star [OF step(1) assms(2)] by (simp add: journal_ok_def)
  then obtain now where "table_step now j1 j2" using journal_step_table [OF step(2)] by blast
  from table_step_keeps_row [OF this p(1)] p(2) assms(5) show ?case by blast
qed

section \<open>Properties\<close>

text \<open>C2: in every journal that any interleaving of workers, recovery scans, operator reviews and
  retention runs can produce, at most one execute action of a corporation's resource is executing
  or unknown.\<close>

theorem at_most_one_open_obligation:
  assumes "reachable_journal j" and "q \<in> set (rows j)" and "r \<in> set (rows j)"
    and "open_obligation q" and "open_obligation r"
    and "r_corp q = r_corp r" and "r_resource q = r_resource r"
  shows "q = r"
proof -
  have ok: "journal_ok j" using assms(1) by (rule reachable_journal_ok)
  then have "actionId q = actionId r"
    using assms(2-7) unfolding journal_ok_def one_obligation_def by blast
  then have "row_key q = row_key r" using assms(6) by (simp add: row_key_def)
  then show ?thesis
    using ok assms(2,3) unfolding journal_ok_def distinct_keys_def distinct_map by (metis inj_onD)
qed

text \<open>C11: a row that may be dispatched was either never claimed, or its last attempt left evidence
  that it had no external effect and had ended; a row whose evidence retention removed is the only
  exception.\<close>

theorem dispatchable_has_no_pending_effect:
  assumes "reachable_journal j" and "r \<in> set (rows j)" and "dispatchable r" and "\<not> r_redacted r"
  shows "(status r = REGISTERED \<and> attempts r = 0 \<and> fence r = 0) \<or>
         (\<exists>e. evidence r = Some e \<and> proves_no_effect e)"
proof -
  have "row_ok r" using reachable_journal_ok [OF assms(1)] assms(2) by (simp add: journal_ok_def)
  with assms(3,4) show ?thesis by (auto simp: row_ok_def dispatchable_def)
qed

text \<open>A success, a cancellation and a final failure are permanent: along any run of the journal
  the row is still there with the same status, the same identity and a fence no smaller.\<close>

theorem finished_rows_stay_finished:
  assumes "reachable_journal j" and "journal_step\<^sup>*\<^sup>* j j'" and "r \<in> set (rows j)" and "final_state r"
  shows "\<exists>r'\<in>set (rows j'). frozen r' = frozen r \<and> status r' = status r \<and> final_state r' \<and> fence r \<le> fence r'"
proof -
  have "\<exists>r'\<in>set (rows j'). (final_state r' \<and> status r' = status r) \<and> frozen r' = frozen r \<and> fence r \<le> fence r'"
    using assms(2) reachable_journal_ok [OF assms(1)] assms(3)
  proof (rule run_keeps_row)
    fix now p q assume "(final_state p \<and> status p = status r) \<and> frozen p = frozen r \<and> fence r \<le> fence p"
      and "row_step now p q"
    then show "(final_state q \<and> status q = status r) \<and> frozen q = frozen r \<and> fence r \<le> fence q"
      using row_step_final row_step_frozen row_step_fence le_trans by metis
  qed (use assms(4) in simp)
  then show ?thesis by blast
qed

section \<open>Witnesses\<close>

text \<open>Two actions on one work order: the first is claimed, so the second cannot be.\<close>

definition demo_intent :: action_intent where
  "demo_intent = \<lparr>corpId = ''corp'', accountId = ''acc'', chatId = ''chat'', logicalTurnId = ''turn'',
     intentId = ''intent'', kind = ''cancel'', target = ''work-order:1'', parameters = JObj [], occurredAt = Some 0,
     recoveryWindowStartedAt = None, identityReliable = True, recovery = None\<rparr>"

definition demo_input :: prepare_input where
  "demo_input = \<lparr>pi_intent = demo_intent, pi_mode = EXECUTE, pi_requestId = ''req'', pi_payloadHash = ''hash'',
     pi_resourceHash = ''res'', pi_recoveryDeadline = 86400000\<rparr>"

definition demo_step :: "int \<Rightarrow> journal_op \<Rightarrow> string \<Rightarrow> journal \<Rightarrow> journal" where
  "demo_step now op a j = snd (transition now op ''corp'' a j)"

definition demo_claimed :: journal where
  "demo_claimed = demo_step 3 (Claim ''w2'') ''b'' (demo_step 2 (Claim ''w1'') ''a''
     (demo_step 1 (Prepare demo_input) ''b'' (demo_step 0 (Prepare demo_input) ''a'' empty_journal)))"

definition demo_owner :: ownership where
  "demo_owner = \<lparr>o_owner = Some ''w1'', o_fence = 1, o_attempt = Some ''w1''\<rparr>"

definition demo_completion :: "action_state \<Rightarrow> evidence_kind \<Rightarrow> action_completion" where
  "demo_completion s k = \<lparr>c_status = s, c_result = Some (JObj []), c_evidence = \<lparr>ev_kind = k, externalId = None,
     goalSatisfied = None, requestTerminated = True, detail = None\<rparr>, c_retryable = Some True\<rparr>"

definition demo_failed :: journal where
  "demo_failed = demo_step 4 (Settle demo_owner (demo_completion FAILED DEFINITIVE_NO_EFFECT) ''h'') ''a'' demo_claimed"

definition demo_done :: journal where
  "demo_done = demo_step 4 (Settle demo_owner (demo_completion SUCCEEDED COMPLETED) ''h'') ''a'' demo_claimed"

definition demo_after :: journal where
  "demo_after = demo_step 6 (Claim ''w4'') ''a'' (demo_step 5 (Claim ''w3'') ''b'' demo_done)"

lemma demo_step_run: "journal_step j (demo_step now op a j)"
  by (simp add: demo_step_def js_transition)

lemma demo_reachable:
  "reachable_journal demo_claimed" "reachable_journal demo_failed" "reachable_journal demo_done"
  unfolding demo_claimed_def demo_failed_def demo_done_def by (intro rj_step [OF _ demo_step_run] rj_start)+

theorem at_most_one_open_obligation_witness:
  "open_obligation (rows demo_claimed ! 0) \<and> length (rows demo_claimed) = 2 \<and>
   the (List.find open_obligation (rows demo_claimed)) = rows demo_claimed ! 0"
proof -
  have f: "open_obligation (rows demo_claimed ! 0)" "length (rows demo_claimed) = 2" by code_simp+
  then have m: "rows demo_claimed ! 0 \<in> set (rows demo_claimed)" by simp
  obtain q where q: "List.find open_obligation (rows demo_claimed) = Some q"
    using f m by (cases "List.find open_obligation (rows demo_claimed)") (auto simp: find_None_iff)
  then have "q \<in> set (rows demo_claimed)" "open_obligation q"
    by (auto simp: find_Some_iff)
  moreover have "r_corp (the (List.find open_obligation (rows demo_claimed))) = r_corp (rows demo_claimed ! 0)"
    "r_resource (the (List.find open_obligation (rows demo_claimed))) = r_resource (rows demo_claimed ! 0)"
    by code_simp+
  ultimately show ?thesis
    using f q at_most_one_open_obligation [OF demo_reachable(1) _ m _ f(1), of q] by simp
qed

theorem dispatchable_has_no_pending_effect_witness:
  "dispatchable (rows demo_failed ! 0) \<and>
   (\<exists>e. evidence (rows demo_failed ! 0) = Some e \<and> proves_no_effect e)"
proof -
  have f: "dispatchable (rows demo_failed ! 0)" "\<not> r_redacted (rows demo_failed ! 0)"
    "length (rows demo_failed) = 2" "status (rows demo_failed ! 0) \<noteq> REGISTERED" by code_simp+
  then have "rows demo_failed ! 0 \<in> set (rows demo_failed)" by simp
  from dispatchable_has_no_pending_effect [OF demo_reachable(2) this f(1,2)] f show ?thesis by simp
qed

theorem finished_rows_stay_finished_witness:
  "\<exists>r'\<in>set (rows demo_after). status r' = SUCCEEDED \<and> final_state r'"
proof -
  have f: "final_state (rows demo_done ! 0)" "length (rows demo_done) = 2" "status (rows demo_done ! 0) = SUCCEEDED"
    by code_simp+
  then have m: "rows demo_done ! 0 \<in> set (rows demo_done)" by simp
  have "journal_step\<^sup>*\<^sup>* demo_done demo_after"
    unfolding demo_after_def by (meson demo_step_run converse_rtranclp_into_rtranclp rtranclp.rtrancl_refl)
  from finished_rows_stay_finished [OF demo_reachable(3) this m f(1)] f(3) show ?thesis by auto
qed

end
