(* ===== verification/SupabaseCircuit.thy ===== *)
theory SupabaseCircuit
  imports Prelude
begin

text \<open>
  \<open>src/infra/supabase/supabase-circuit-breaker.ts\<close>: the circuit breaker every Supabase
  call asks before it touches the database.  The breaker of the process is a map from the
  operation to its circuit; \<open>getCircuit\<close> creates a circuit on first use.  The three
  constructor arguments are a \<open>breaker_config\<close>; \<open>Date.now()\<close> is an argument.
\<close>

datatype circuit_state = Closed | Open | Half_open

record circuit =
  cb_state :: circuit_state
  consecutiveFailures :: nat
  openedAt :: int
  halfOpenProbeInFlight :: bool
  lastRejectionLogAt :: int

record breaker_config =
  failureThreshold :: nat
  openDurationMs :: int
  rejectionLogIntervalMs :: int

text \<open>The process-wide singleton: \<open>new SupabaseCircuitBreaker()\<close>.\<close>

definition supabaseCircuitBreaker :: breaker_config where
  "supabaseCircuitBreaker =
     \<lparr>failureThreshold = 5, openDurationMs = 10000, rejectionLogIntervalMs = 2000\<rparr>"

definition fresh_circuit :: circuit where
  "fresh_circuit = \<lparr>cb_state = Closed, consecutiveFailures = 0, openedAt = 0,
     halfOpenProbeInFlight = False, lastRejectionLogAt = 0\<rparr>"

type_synonym circuits = "string \<Rightarrow> circuit option"

definition getCircuit :: "string \<Rightarrow> circuits \<Rightarrow> circuit" where
  "getCircuit op cs = (case cs op of Some c \<Rightarrow> c | None \<Rightarrow> fresh_circuit)"

definition trip :: "int \<Rightarrow> circuit \<Rightarrow> circuit" where
  "trip now c = c\<lparr>cb_state := Open, openedAt := now, halfOpenProbeInFlight := False\<rparr>"

section \<open>One circuit\<close>

definition admit :: "breaker_config \<Rightarrow> int \<Rightarrow> circuit \<Rightarrow> bool \<times> circuit" where
  "admit cfg now c =
     (if cb_state c = Closed then (True, c)
      else if cb_state c = Open then
        (if openDurationMs cfg \<le> now - openedAt c
         then (True, c\<lparr>cb_state := Half_open, halfOpenProbeInFlight := True\<rparr>)
         else (False, c))
      else if halfOpenProbeInFlight c then (False, c)
      else (True, c\<lparr>halfOpenProbeInFlight := True\<rparr>))"

definition succeed :: "circuit \<Rightarrow> circuit" where
  "succeed c = c\<lparr>cb_state := Closed, consecutiveFailures := 0, halfOpenProbeInFlight := False\<rparr>"

definition fail :: "breaker_config \<Rightarrow> int \<Rightarrow> circuit \<Rightarrow> circuit" where
  "fail cfg now c =
     (let c = c\<lparr>consecutiveFailures := consecutiveFailures c + 1\<rparr> in
      if cb_state c = Half_open then trip now c
      else if cb_state c = Closed \<and> failureThreshold cfg \<le> consecutiveFailures c then trip now c
      else c)"

section \<open>The breaker\<close>

definition canRequest :: "breaker_config \<Rightarrow> int \<Rightarrow> string \<Rightarrow> circuits \<Rightarrow> bool \<times> circuits" where
  "canRequest cfg now op cs =
     (case admit cfg now (getCircuit op cs) of (ok, c) \<Rightarrow> (ok, cs(op \<mapsto> c)))"

definition recordSuccess :: "string \<Rightarrow> circuits \<Rightarrow> circuits" where
  "recordSuccess op cs = cs(op \<mapsto> succeed (getCircuit op cs))"

definition recordFailure :: "breaker_config \<Rightarrow> int \<Rightarrow> string \<Rightarrow> circuits \<Rightarrow> circuits" where
  "recordFailure cfg now op cs = cs(op \<mapsto> fail cfg now (getCircuit op cs))"

definition isOpen :: "string \<Rightarrow> circuits \<Rightarrow> bool" where
  "isOpen op cs \<longleftrightarrow> cb_state (getCircuit op cs) = Open"

definition shouldLogRejection :: "breaker_config \<Rightarrow> int \<Rightarrow> string \<Rightarrow> circuits \<Rightarrow> bool \<times> circuits" where
  "shouldLogRejection cfg now op cs =
     (let c = getCircuit op cs in
      if rejectionLogIntervalMs cfg \<le> now - lastRejectionLogAt c
      then (True, cs(op \<mapsto> c\<lparr>lastRejectionLogAt := now\<rparr>)) else (False, cs(op \<mapsto> c)))"

section \<open>Invariant\<close>

text \<open>
  A closed circuit has not yet seen the threshold of failures; a probe is in flight exactly
  while the circuit is half open, so the last branch of \<open>canRequest\<close>, which would let a
  second probe of a half-open circuit through, is never taken.
\<close>

definition circuit_ok :: "breaker_config \<Rightarrow> circuit \<Rightarrow> bool" where
  "circuit_ok cfg c \<longleftrightarrow>
     (cb_state c = Closed \<longrightarrow> consecutiveFailures c < failureThreshold cfg)
   \<and> (halfOpenProbeInFlight c \<longleftrightarrow> cb_state c = Half_open)"

definition breaker_ok :: "breaker_config \<Rightarrow> circuits \<Rightarrow> bool" where
  "breaker_ok cfg cs \<longleftrightarrow> (\<forall>op. circuit_ok cfg (getCircuit op cs))"

text \<open>What happens at a circuit: a call asks, or the outcome of an admitted call is reported.\<close>

datatype circuit_event = Ask int | Good | Bad int

fun circuit_step :: "breaker_config \<Rightarrow> circuit_event \<Rightarrow> circuit \<Rightarrow> circuit" where
  "circuit_step cfg (Ask now) c = snd (admit cfg now c)"
| "circuit_step cfg Good c = succeed c"
| "circuit_step cfg (Bad now) c = fail cfg now c"

lemma fresh_ok: "0 < failureThreshold cfg \<Longrightarrow> circuit_ok cfg fresh_circuit"
  by (simp add: circuit_ok_def fresh_circuit_def)

lemma admit_ok: "circuit_ok cfg c \<Longrightarrow> circuit_ok cfg (snd (admit cfg now c))"
  by (cases "cb_state c") (simp_all add: circuit_ok_def admit_def)

lemma succeed_ok: "0 < failureThreshold cfg \<Longrightarrow> circuit_ok cfg (succeed c)"
  by (simp add: circuit_ok_def succeed_def)

lemma fail_ok: "circuit_ok cfg c \<Longrightarrow> circuit_ok cfg (fail cfg now c)"
  by (cases "cb_state c") (simp_all add: circuit_ok_def fail_def trip_def Let_def)

lemma circuit_step_ok:
  "0 < failureThreshold cfg \<Longrightarrow> circuit_ok cfg c \<Longrightarrow> circuit_ok cfg (circuit_step cfg e c)"
  by (cases e) (simp_all add: admit_ok succeed_ok fail_ok)

lemma circuit_run_ok:
  "0 < failureThreshold cfg \<Longrightarrow> circuit_ok cfg c \<Longrightarrow> circuit_ok cfg (fold (circuit_step cfg) es c)"
  by (induction es arbitrary: c) (simp_all add: circuit_step_ok)

section \<open>Admissions while no outcome is reported\<close>

fun admissions :: "breaker_config \<Rightarrow> int list \<Rightarrow> circuit \<Rightarrow> nat" where
  "admissions cfg [] c = 0"
| "admissions cfg (t # ts) c =
     (case admit cfg t c of (ok, c') \<Rightarrow> (if ok then 1 else 0) + admissions cfg ts c')"

lemma admissions_probing:
  "cb_state c = Half_open \<Longrightarrow> halfOpenProbeInFlight c \<Longrightarrow> admissions cfg ts c = 0"
  by (induction ts arbitrary: c) (simp_all add: admit_def)

lemma admissions_open:
  "cb_state c = Open \<Longrightarrow>
     admissions cfg ts c = (if \<exists>t\<in>set ts. openedAt c + openDurationMs cfg \<le> t then 1 else 0)"
proof (induction ts)
  case (Cons t ts)
  show ?case
  proof (cases "openDurationMs cfg \<le> t - openedAt c")
    case True
    then have "admit cfg t c = (True, c\<lparr>cb_state := Half_open, halfOpenProbeInFlight := True\<rparr>)"
      using Cons.prems by (simp add: admit_def)
    moreover have "openedAt c + openDurationMs cfg \<le> t" using True by simp
    ultimately show ?thesis by (simp add: admissions_probing)
  next
    case False
    then have "admit cfg t c = (False, c)" using Cons.prems by (simp add: admit_def)
    moreover have "\<not> openedAt c + openDurationMs cfg \<le> t" using False by simp
    ultimately show ?thesis using Cons by simp
  qed
qed simp

section \<open>The breaker of several operations\<close>

lemma getCircuit_upd [simp]:
  "getCircuit op (cs(op' \<mapsto> c)) = (if op = op' then c else getCircuit op cs)"
  by (simp add: getCircuit_def)

lemma canRequest_circuit:
  "getCircuit op (snd (canRequest cfg now op' cs)) =
     (if op = op' then snd (admit cfg now (getCircuit op cs)) else getCircuit op cs)"
  by (simp add: canRequest_def split: prod.split)

lemma recordSuccess_circuit:
  "getCircuit op (recordSuccess op' cs) = (if op = op' then succeed (getCircuit op cs) else getCircuit op cs)"
  by (simp add: recordSuccess_def)

lemma recordFailure_circuit:
  "getCircuit op (recordFailure cfg now op' cs) =
     (if op = op' then fail cfg now (getCircuit op cs) else getCircuit op cs)"
  by (simp add: recordFailure_def)

lemma shouldLog_circuit:
  "cb_state (getCircuit op (snd (shouldLogRejection cfg now op' cs))) = cb_state (getCircuit op cs)"
  "halfOpenProbeInFlight (getCircuit op (snd (shouldLogRejection cfg now op' cs))) =
     halfOpenProbeInFlight (getCircuit op cs)"
  "consecutiveFailures (getCircuit op (snd (shouldLogRejection cfg now op' cs))) =
     consecutiveFailures (getCircuit op cs)"
  by (simp_all add: shouldLogRejection_def Let_def)

lemmas breaker_circuits = canRequest_circuit recordSuccess_circuit recordFailure_circuit

lemma breaker_ok_empty: "0 < failureThreshold cfg \<Longrightarrow> breaker_ok cfg Map.empty"
  by (simp add: breaker_ok_def getCircuit_def fresh_ok)

lemma breaker_ok_steps:
  assumes "0 < failureThreshold cfg" and "breaker_ok cfg cs"
  shows "breaker_ok cfg (snd (canRequest cfg now op cs))"
    and "breaker_ok cfg (recordSuccess op cs)"
    and "breaker_ok cfg (recordFailure cfg now op cs)"
    and "breaker_ok cfg (snd (shouldLogRejection cfg now op cs))"
  using assms
  by (simp_all add: breaker_ok_def breaker_circuits admit_ok succeed_ok fail_ok)
     (simp add: circuit_ok_def shouldLog_circuit)

section \<open>Properties\<close>

text \<open>Whatever calls ask and whatever outcomes are reported, in any order, a circuit of
  the process-wide breaker is well formed: closed means fewer than five failures in a row, and a
  probe is in flight exactly while the circuit is half open.\<close>

theorem breaker_history_ok:
  "circuit_ok supabaseCircuitBreaker (fold (circuit_step supabaseCircuitBreaker) es fresh_circuit)"
  by (rule circuit_run_ok) (simp_all add: fresh_ok supabaseCircuitBreaker_def)

text \<open>After a circuit trips at \<open>t0\<close> no call is admitted for ten seconds, and until an
  outcome is reported exactly one is admitted afterwards, however many ask.\<close>

theorem tripped_circuit_admits_one_probe:
  "admissions supabaseCircuitBreaker ts (trip t0 c) = (if \<exists>t\<in>set ts. t0 + 10000 \<le> t then 1 else 0)"
  by (subst admissions_open) (simp_all add: trip_def supabaseCircuitBreaker_def)

end
