(* ===== verification/SupabaseRepository.thy ===== *)
theory SupabaseRepository
  imports SupabaseCircuit
begin

text \<open>
  \<open>src/infra/supabase/base.repository.ts\<close>: the base class of every repository.  Each
  operation asks the breaker, sends one request (a read or an RPC: at most two, the second
  after a transient gateway error and a pause) and reports the outcome to the breaker.

  The Supabase client is not part of the repository: a request is a function of the world that
  answers with data, with an error reply, or by throwing.  The world is a record
  \<open>db_world\<close> with what the base class reads and writes; it is extensible, so a request can
  change what else it likes (the clock moves, tables change).  The jitter of the pause is a
  parameter.  Log output is not modelled.
\<close>

record db_error =
  err_code :: "string option"
  err_message :: string

datatype 'a reply = Data 'a | Error_reply db_error | Throws db_error

record db_world =
  circuits :: circuits
  clock :: int
  client_ready :: bool

type_synonym ('x, 'a) request = "'x db_world_scheme \<Rightarrow> 'a reply \<times> 'x db_world_scheme"
type_synonym ('x, 'a) call = "'x db_world_scheme \<Rightarrow> 'a \<times> 'x db_world_scheme"

section \<open>Classification of errors\<close>

fun contains_text :: "string \<Rightarrow> string \<Rightarrow> bool" where
  "contains_text [] p \<longleftrightarrow> p = []"
| "contains_text (c # s) p \<longleftrightarrow> take (length p) (c # s) = p \<or> contains_text s p"

definition lower_char :: "char \<Rightarrow> char" where
  "lower_char c = (if (65 :: nat) \<le> of_char c \<and> of_char c \<le> (90 :: nat) then char_of (of_char c + 32 :: nat) else c)"

definition isTransientReadError :: "db_error \<Rightarrow> bool" where
  "isTransientReadError e \<longleftrightarrow> list_ex (contains_text (map lower_char (err_message e)))
     [''502 bad gateway'', ''503 service unavailable'', ''504 gateway timeout'', ''cloudflare'',
      ''fetch failed'', ''network error'', ''etimedout'', ''econnreset'', ''socket hang up'']"

definition isConflictError :: "db_error \<Rightarrow> bool" where
  "isConflictError e \<longleftrightarrow> err_code e = Some ''23505''"

definition isNotFoundError :: "db_error \<Rightarrow> bool" where
  "isNotFoundError e \<longleftrightarrow> err_code e = Some ''PGRST116'' \<or> err_code e = Some ''42883''"

definition maxReadAttempts :: nat where
  "maxReadAttempts = 2"

definition shouldRetryReadError :: "db_error \<Rightarrow> nat \<Rightarrow> bool" where
  "shouldRetryReadError e attempt \<longleftrightarrow> \<not> (maxReadAttempts \<le> attempt \<or> \<not> isTransientReadError e)"

section \<open>Pauses\<close>

text \<open>\<open>exponentialBackoffMs\<close> of \<open>src/infra/utils/async.util.ts\<close>.\<close>

definition exponentialBackoffMs :: "nat \<Rightarrow> int \<Rightarrow> int \<Rightarrow> int" where
  "exponentialBackoffMs attempt base mx = min (base * 2 ^ (attempt - 1)) mx"

definition getBackoffMs :: "int \<Rightarrow> nat \<Rightarrow> int" where
  "getBackoffMs jitter attempt = min (exponentialBackoffMs attempt 150 1000 + jitter) 1000"

definition sleep :: "int \<Rightarrow> 'x db_world_scheme \<Rightarrow> 'x db_world_scheme" where
  "sleep ms w = w\<lparr>clock := clock w + ms\<rparr>"

section \<open>The breaker as the base class uses it\<close>

definition getCircuitOperation :: "string \<Rightarrow> string \<Rightarrow> string" where
  "getCircuitOperation table op = (if CHR '':'' \<in> set op then op else op @ '':'' @ table)"

definition circuitBlocked :: "string \<Rightarrow> string \<Rightarrow> ('x, bool) call" where
  "circuitBlocked table op w =
     (let k = getCircuitOperation table op in
      case canRequest supabaseCircuitBreaker (clock w) k (circuits w) of
        (True, cs) \<Rightarrow> (False, w\<lparr>circuits := cs\<rparr>)
      | (False, cs) \<Rightarrow>
          (True, w\<lparr>circuits := snd (shouldLogRejection supabaseCircuitBreaker (clock w) k cs)\<rparr>))"

definition noteOutcome :: "string \<Rightarrow> string \<Rightarrow> db_error \<Rightarrow> 'x db_world_scheme \<Rightarrow> 'x db_world_scheme" where
  "noteOutcome table op e w =
     (let k = getCircuitOperation table op in
      if isTransientReadError e
      then w\<lparr>circuits := recordFailure supabaseCircuitBreaker (clock w) k (circuits w)\<rparr>
      else w\<lparr>circuits := recordSuccess k (circuits w)\<rparr>)"

definition recordCircuitSuccess :: "string \<Rightarrow> string \<Rightarrow> 'x db_world_scheme \<Rightarrow> 'x db_world_scheme" where
  "recordCircuitSuccess table op w =
     w\<lparr>circuits := recordSuccess (getCircuitOperation table op) (circuits w)\<rparr>"

section \<open>Reads\<close>

text \<open>
  \<open>getClient\<close> throws when the client is not initialised; the throw is caught in the same
  \<open>try\<close> as one of the request.
\<close>

definition no_client :: db_error where
  "no_client = \<lparr>err_code = None, err_message = ''Supabase client not initialised''\<rparr>"

definition with_client :: "('x, 'a) request \<Rightarrow> ('x, 'a) request" where
  "with_client q w = (if client_ready w then q w else (Throws no_client, w))"

text \<open>
  The loop \<open>for (attempt = 1; attempt <= maxReadAttempts; ...)\<close> of \<open>selectFromOrNull\<close> and
  \<open>count\<close>; \<open>fuel\<close> is the number of attempts left and the value is \<open>None\<close> when every path
  of the source returns its empty value.
\<close>

fun read_loop :: "string \<Rightarrow> string \<Rightarrow> (nat \<Rightarrow> int) \<Rightarrow> ('x, 'a) request \<Rightarrow> nat \<Rightarrow> nat \<Rightarrow> ('x, 'a option) call" where
  "read_loop table op jit q 0 attempt w = (None, w)"
| "read_loop table op jit q (Suc fuel) attempt w =
     (let failed = (\<lambda>e w'. if shouldRetryReadError e attempt
          then read_loop table op jit q fuel (Suc attempt) (sleep (getBackoffMs (jit attempt) attempt) w')
          else (None, noteOutcome table op e w'))
      in case with_client q w of
           (Data d, w') \<Rightarrow> (Some d, recordCircuitSuccess table op w')
         | (Error_reply e, w') \<Rightarrow> failed e w'
         | (Throws e, w') \<Rightarrow> failed e w')"

definition selectFromOrNull :: "string \<Rightarrow> (nat \<Rightarrow> int) \<Rightarrow> string \<Rightarrow> ('x, 'a list) request \<Rightarrow> ('x, 'a list option) call" where
  "selectFromOrNull own jit table q w =
     (let op = ''SELECT:'' @ table in
      if \<not> client_ready w then (None, w)
      else case circuitBlocked own op w of
        (True, w') \<Rightarrow> (None, w')
      | (False, w') \<Rightarrow> read_loop own op jit q maxReadAttempts 1 w')"

definition selectFrom :: "string \<Rightarrow> (nat \<Rightarrow> int) \<Rightarrow> string \<Rightarrow> ('x, 'a list) request \<Rightarrow> ('x, 'a list) call" where
  "selectFrom own jit table q w =
     (case selectFromOrNull own jit table q w of (r, w') \<Rightarrow> (case r of None \<Rightarrow> [] | Some d \<Rightarrow> d, w'))"

text \<open>\<open>select\<close> and \<open>selectOne\<close>; the limit of one row is the request's.\<close>

definition select_own :: "string \<Rightarrow> (nat \<Rightarrow> int) \<Rightarrow> ('x, 'a list) request \<Rightarrow> ('x, 'a list) call" where
  "select_own own jit q = selectFrom own jit own q"

definition selectOne :: "string \<Rightarrow> (nat \<Rightarrow> int) \<Rightarrow> ('x, 'a list) request \<Rightarrow> ('x, 'a option) call" where
  "selectOne own jit q w =
     (case select_own own jit q w of (rs, w') \<Rightarrow> (case rs of [] \<Rightarrow> None | r # _ \<Rightarrow> Some r, w'))"

text \<open>\<open>count\<close>: an absent count is zero.\<close>

definition count_rows :: "string \<Rightarrow> (nat \<Rightarrow> int) \<Rightarrow> ('x, nat option) request \<Rightarrow> ('x, nat) call" where
  "count_rows own jit q w =
     (if \<not> client_ready w then (0, w)
      else case circuitBlocked own ''COUNT'' w of
        (True, w') \<Rightarrow> (0, w')
      | (False, w') \<Rightarrow> (case read_loop own ''COUNT'' jit q maxReadAttempts 1 w' of
           (Some (Some n), w'') \<Rightarrow> (n, w'') | (_, w'') \<Rightarrow> (0, w'')))"

section \<open>Paged reads\<close>

text \<open>
  \<open>q from to\<close> is the request for the rows \<open>from..to\<close>.  The loop of the source ends at the
  first page that is not full; the fuel bounds the number of pages and running out of it is
  \<open>None\<close>.
\<close>

fun selectAllPaged :: "nat \<Rightarrow> string \<Rightarrow> (nat \<Rightarrow> int) \<Rightarrow> string \<Rightarrow> (nat \<Rightarrow> nat \<Rightarrow> ('x, 'a list) request)
    \<Rightarrow> nat \<Rightarrow> nat \<Rightarrow> 'a list \<Rightarrow> ('x, 'a list option) call" where
  "selectAllPaged 0 own jit table q size' from' acc w = (None, w)"
| "selectAllPaged (Suc fuel) own jit table q size' from' acc w =
     (case selectFrom own jit table (q from' (from' + size' - 1)) w of (page, w') \<Rightarrow>
        if length page < size' then (Some (acc @ page), w')
        else selectAllPaged fuel own jit table q size' (from' + size') (acc @ page) w')"

fun rpc_pages :: "nat \<Rightarrow> string \<Rightarrow> string \<Rightarrow> (nat \<Rightarrow> nat \<Rightarrow> ('x, 'a list) request)
    \<Rightarrow> nat \<Rightarrow> nat \<Rightarrow> 'a list \<Rightarrow> ('x, 'a list option) call" where
  "rpc_pages 0 own op q size' from' acc w = (None, w)"
| "rpc_pages (Suc fuel) own op q size' from' acc w =
     (case with_client (q from' (from' + size' - 1)) w of
        (Data page, w') \<Rightarrow>
          (let w'' = recordCircuitSuccess own op w' in
           if length page < size' then (Some (acc @ page), w'')
           else rpc_pages fuel own op q size' (from' + size') (acc @ page) w'')
      | (Error_reply e, w') \<Rightarrow> (Some acc, noteOutcome own op e w')
      | (Throws e, w') \<Rightarrow> (Some acc, noteOutcome own op e w'))"

definition rpcAllPaged :: "nat \<Rightarrow> string \<Rightarrow> string \<Rightarrow> (nat \<Rightarrow> nat \<Rightarrow> ('x, 'a list) request) \<Rightarrow> nat
    \<Rightarrow> ('x, 'a list option) call" where
  "rpcAllPaged fuel own f q size' w =
     (let op = ''RPC:'' @ f in
      if \<not> client_ready w then (Some [], w)
      else case circuitBlocked own op w of
        (True, w') \<Rightarrow> (Some [], w')
      | (False, w') \<Rightarrow> rpc_pages fuel own op q size' 0 [] w')"

section \<open>Writes\<close>

text \<open>
  One request, never repeated.  \<open>write_once\<close> is the \<open>try\<close> block the writes share:
  \<open>conflict\<close> says what an error that means \<open>the row exists\<close> yields, where the operation
  looks for it (\<open>in_reply\<close>, \<open>in_throw\<close>).
\<close>

definition write_once :: "string \<Rightarrow> string \<Rightarrow> 'b \<Rightarrow> ('a \<Rightarrow> 'b) \<Rightarrow> 'b option \<Rightarrow> bool \<Rightarrow> ('x, 'a) request \<Rightarrow> ('x, 'b) call" where
  "write_once own op zero' ok conflict in_throw q w =
     (case circuitBlocked own op w of
        (True, w') \<Rightarrow> (zero', w')
      | (False, w') \<Rightarrow>
          (case with_client q w' of
             (Data d, w'') \<Rightarrow> (ok d, recordCircuitSuccess own op w'')
           | (Error_reply e, w'') \<Rightarrow>
               (case conflict of
                  Some b \<Rightarrow> if isConflictError e then (b, recordCircuitSuccess own op w'')
                            else (zero', noteOutcome own op e w'')
                | None \<Rightarrow> (zero', noteOutcome own op e w''))
           | (Throws e, w'') \<Rightarrow>
               (case conflict of
                  Some b \<Rightarrow> if in_throw \<and> isConflictError e then (b, recordCircuitSuccess own op w'')
                            else (zero', noteOutcome own op e w'')
                | None \<Rightarrow> (zero', noteOutcome own op e w''))))"

definition first_row :: "bool \<Rightarrow> 'a list option \<Rightarrow> 'a option" where
  "first_row returnData d =
     (if returnData then (case d of Some (r # _) \<Rightarrow> Some r | _ \<Rightarrow> None) else None)"

definition insert_op :: "string \<Rightarrow> bool \<Rightarrow> ('x, 'a list option) request \<Rightarrow> ('x, 'a option) call" where
  "insert_op own returnData q w =
     (if \<not> client_ready w then (None, w)
      else write_once own ''INSERT'' None (first_row returnData) (Some None) True q w)"

definition insertBatch :: "string \<Rightarrow> 'r list \<Rightarrow> ('x, unit) request \<Rightarrow> ('x, nat) call" where
  "insertBatch own data q w =
     (if \<not> client_ready w \<or> data = [] then (0, w)
      else write_once own ''INSERT_BATCH'' 0 (\<lambda>_. length data) (Some (length data)) False q w)"

definition update_op :: "string \<Rightarrow> ('x, 'a list option) request \<Rightarrow> ('x, 'a list) call" where
  "update_op own q w =
     (if \<not> client_ready w then ([], w)
      else write_once own ''UPDATE'' [] (\<lambda>d. case d of None \<Rightarrow> [] | Some rs \<Rightarrow> rs) None False q w)"

definition upsert_op :: "string \<Rightarrow> bool \<Rightarrow> ('x, 'a list option) request \<Rightarrow> ('x, 'a option) call" where
  "upsert_op own returnData q w =
     (if \<not> client_ready w then (None, w)
      else write_once own ''UPSERT'' None (first_row returnData) None False q w)"

definition upsertBatch :: "string \<Rightarrow> 'r list \<Rightarrow> ('x, unit) request \<Rightarrow> ('x, nat) call" where
  "upsertBatch own data q w =
     (if \<not> client_ready w \<or> data = [] then (0, w)
      else write_once own ''UPSERT_BATCH'' 0 (\<lambda>_. length data) None False q w)"

definition delete_op :: "string \<Rightarrow> bool \<Rightarrow> ('x, 'a list option) request \<Rightarrow> ('x, 'a list) call" where
  "delete_op own returnDeleted q w =
     (if \<not> client_ready w then ([], w)
      else write_once own ''DELETE'' [] (\<lambda>d. if returnDeleted then (case d of None \<Rightarrow> [] | Some rs \<Rightarrow> rs) else [])
             None False q w)"

section \<open>Remote procedures\<close>

fun rpc_loop :: "string \<Rightarrow> string \<Rightarrow> (nat \<Rightarrow> int) \<Rightarrow> ('x, 'a) request \<Rightarrow> nat \<Rightarrow> nat \<Rightarrow> ('x, 'a option) call" where
  "rpc_loop own op jit q 0 attempt w = (None, w)"
| "rpc_loop own op jit q (Suc fuel) attempt w =
     (let failed = (\<lambda>e w'. if shouldRetryReadError e attempt
          then rpc_loop own op jit q fuel (Suc attempt) (sleep (getBackoffMs (jit attempt) attempt) w')
          else (None, noteOutcome own op e w'))
      in case with_client q w of
           (Data d, w') \<Rightarrow> (Some d, recordCircuitSuccess own op w')
         | (Error_reply e, w') \<Rightarrow>
             if isNotFoundError e then (None, recordCircuitSuccess own op w') else failed e w'
         | (Throws e, w') \<Rightarrow> failed e w')"

definition rpc_op :: "string \<Rightarrow> (nat \<Rightarrow> int) \<Rightarrow> string \<Rightarrow> ('x, 'a) request \<Rightarrow> ('x, 'a option) call" where
  "rpc_op own jit f q w =
     (let op = ''RPC:'' @ f in
      if \<not> client_ready w then (None, w)
      else case circuitBlocked own op w of
        (True, w') \<Rightarrow> (None, w')
      | (False, w') \<Rightarrow> rpc_loop own op jit q maxReadAttempts 1 w')"

section \<open>A request leaves no probe behind\<close>

text \<open>
  \<open>probing k w\<close>: the circuit \<open>k\<close> has a probe in flight.  Every operation of the
  base class reports the outcome of the call it was admitted for, on each of its paths, so the
  probe of a half-open circuit is always released.
\<close>

definition probing :: "string \<Rightarrow> 'x db_world_scheme \<Rightarrow> bool" where
  "probing k w \<longleftrightarrow> halfOpenProbeInFlight (getCircuit k (circuits w))"

lemma probing_success [simp]:
  "probing k (recordCircuitSuccess own op w) \<longleftrightarrow> k \<noteq> getCircuitOperation own op \<and> probing k w"
  by (simp add: probing_def recordCircuitSuccess_def recordSuccess_circuit succeed_def)

lemma probing_sleep [simp]: "probing k (sleep ms w) = probing k w"
  by (simp add: probing_def sleep_def)

definition db_ok :: "'x db_world_scheme \<Rightarrow> bool" where
  "db_ok w \<longleftrightarrow> breaker_ok supabaseCircuitBreaker (circuits w)"

lemma threshold_pos [simp]: "0 < failureThreshold supabaseCircuitBreaker"
  by (simp add: supabaseCircuitBreaker_def)

lemma db_ok_success [simp]: "db_ok w \<Longrightarrow> db_ok (recordCircuitSuccess own op w)"
  by (simp add: db_ok_def recordCircuitSuccess_def breaker_ok_steps)

lemma db_ok_note [simp]: "db_ok w \<Longrightarrow> db_ok (noteOutcome own op e w)"
  by (simp add: db_ok_def noteOutcome_def Let_def breaker_ok_steps)

lemma db_ok_blocked: "db_ok w \<Longrightarrow> circuitBlocked own op w = (b, w') \<Longrightarrow> db_ok w'"
  by (auto simp: db_ok_def circuitBlocked_def Let_def split: prod.splits bool.splits)
     (metis breaker_ok_steps threshold_pos snd_conv)+

lemma db_ok_sleep [simp]: "db_ok (sleep ms w) = db_ok w"
  by (simp add: db_ok_def sleep_def)

lemma fail_not_probing: "circuit_ok cfg c \<Longrightarrow> \<not> halfOpenProbeInFlight (fail cfg now c)"
  by (cases "cb_state c") (auto simp: circuit_ok_def fail_def trip_def Let_def)

lemma probing_note [simp]:
  "db_ok w \<Longrightarrow> probing k (noteOutcome own op e w) \<longleftrightarrow> k \<noteq> getCircuitOperation own op \<and> probing k w"
  by (auto simp: probing_def noteOutcome_def Let_def recordSuccess_circuit recordFailure_circuit succeed_def
      fail_not_probing db_ok_def breaker_ok_def)

lemma blocked_probing:
  assumes "circuitBlocked own op w = (b, w')" and "k = getCircuitOperation own op"
  shows "b \<Longrightarrow> probing k w' = probing k w"
    and "k' \<noteq> k \<Longrightarrow> probing k' w' = probing k' w"
  using assms
  by (auto simp: circuitBlocked_def Let_def probing_def canRequest_def admit_def shouldLogRejection_def
      split: prod.splits bool.splits if_splits)

definition keeps_circuits :: "('x, 'a) request \<Rightarrow> bool" where
  "keeps_circuits q \<longleftrightarrow> (\<forall>w. circuits (snd (q w)) = circuits w)"

lemma keeps_circuits_D:
  assumes "keeps_circuits q" and "with_client q w = (r, w')"
  shows "probing k w' = probing k w" and "db_ok w' = db_ok w"
  using assms by (auto simp: keeps_circuits_def with_client_def probing_def db_ok_def split: if_splits)
    (metis snd_conv)+

lemma read_loop_released:
  assumes "keeps_circuits q"
  shows "db_ok w \<Longrightarrow> 0 < fuel \<Longrightarrow> maxReadAttempts \<le> attempt + fuel - 1 \<Longrightarrow>
    db_ok (snd (read_loop own op jit q fuel attempt w)) \<and>
    (probing k (snd (read_loop own op jit q fuel attempt w)) \<longleftrightarrow> k \<noteq> getCircuitOperation own op \<and> probing k w)"
proof (induction fuel arbitrary: attempt w)
  case (Suc fuel)
  obtain r w' where q: "with_client q w = (r, w')" by fastforce
  note k = keeps_circuits_D [OF assms q]
  have ok: "db_ok w'" using k(2) Suc.prems(1) by simp
  show ?case
  proof (cases r)
    case (Data d)
    then show ?thesis using q ok k(1) by simp
  next
    case (Error_reply e)
    have "0 < fuel \<and> maxReadAttempts \<le> Suc attempt + fuel - 1" if "shouldRetryReadError e attempt"
      using that Suc.prems(3) by (auto simp: shouldRetryReadError_def)
    then show ?thesis using q ok k(1) Error_reply Suc.IH [of "sleep m w'" "Suc attempt" for m]
      by (simp add: Let_def)
  next
    case (Throws e)
    have "0 < fuel \<and> maxReadAttempts \<le> Suc attempt + fuel - 1" if "shouldRetryReadError e attempt"
      using that Suc.prems(3) by (auto simp: shouldRetryReadError_def)
    then show ?thesis using q ok k(1) Throws Suc.IH [of "sleep m w'" "Suc attempt" for m]
      by (simp add: Let_def)
  qed
qed simp

lemma rpc_loop_released:
  assumes "keeps_circuits q"
  shows "db_ok w \<Longrightarrow> 0 < fuel \<Longrightarrow> maxReadAttempts \<le> attempt + fuel - 1 \<Longrightarrow>
    db_ok (snd (rpc_loop own op jit q fuel attempt w)) \<and>
    (probing k (snd (rpc_loop own op jit q fuel attempt w)) \<longleftrightarrow> k \<noteq> getCircuitOperation own op \<and> probing k w)"
proof (induction fuel arbitrary: attempt w)
  case (Suc fuel)
  obtain r w' where q: "with_client q w = (r, w')" by fastforce
  note k = keeps_circuits_D [OF assms q]
  have ok: "db_ok w'" using k(2) Suc.prems(1) by simp
  have "0 < fuel \<and> maxReadAttempts \<le> Suc attempt + fuel - 1" if "shouldRetryReadError e attempt" for e
    using that Suc.prems(3) by (auto simp: shouldRetryReadError_def)
  then show ?case
    using q ok k(1) Suc.IH [of "sleep m w'" "Suc attempt" for m] by (cases r) (simp_all add: Let_def)
qed simp

lemma write_once_released:
  assumes "keeps_circuits q" and "db_ok w"
  shows "db_ok (snd (write_once own op z ok conflict thr q w)) \<and>
    (probing k (snd (write_once own op z ok conflict thr q w)) \<longrightarrow> probing k w)"
proof -
  obtain b w1 where b: "circuitBlocked own op w = (b, w1)" by fastforce
  obtain r w2 where q: "with_client q w1 = (r, w2)" by fastforce
  note ok1 = db_ok_blocked [OF assms(2) b]
  note k = keeps_circuits_D [OF assms(1) q]
  have ok2: "db_ok w2" using k(2) ok1 by simp
  have other: "k \<noteq> getCircuitOperation own op \<Longrightarrow> probing k w2 = probing k w"
    using blocked_probing(2) [OF b refl, of k] k(1) by simp
  show ?thesis
  proof (cases b)
    case True
    then show ?thesis using b ok1 blocked_probing [OF b refl] by (cases "k = getCircuitOperation own op")
        (simp_all add: write_once_def)
  next
    case False
    then show ?thesis using b q ok2 other
      by (cases "k = getCircuitOperation own op"; cases r; cases conflict) (simp_all add: write_once_def)
  qed
qed

lemma rpc_pages_released:
  assumes "\<And>a b. keeps_circuits (q a b)"
  shows "db_ok w \<Longrightarrow> db_ok (snd (rpc_pages fuel own op q n from' acc w)) \<and>
    (probing k (snd (rpc_pages fuel own op q n from' acc w)) \<longleftrightarrow>
       (0 < fuel \<longrightarrow> k \<noteq> getCircuitOperation own op) \<and> probing k w)"
proof (induction fuel arbitrary: from' acc w)
  case (Suc fuel)
  obtain r w' where q: "with_client (q from' (from' + n - 1)) w = (r, w')" by fastforce
  note k = keeps_circuits_D [OF assms q]
  have ok: "db_ok w'" using k(2) Suc.prems(1) by simp
  show ?case
  proof (cases r)
    case (Data page)
    let ?w = "recordCircuitSuccess own op w'"
    have "db_ok ?w" using ok by simp
    note ih = Suc.IH [OF this, of "from' + n" "acc @ page"]
    show ?thesis
    proof (cases "length page < n")
      case True
      then show ?thesis using q k(1) Data ok by (simp add: Let_def)
    next
      case False
      then show ?thesis using ih q k(1) Data by (auto simp: Let_def)
    qed
  qed (use q ok k(1) in simp_all)
qed simp

text \<open>A call that keeps the breaker well formed and leaves no probe it started.\<close>

definition releases :: "('x, 'a) call \<Rightarrow> bool" where
  "releases f \<longleftrightarrow> (\<forall>w k. db_ok w \<longrightarrow> db_ok (snd (f w)) \<and> (probing k (snd (f w)) \<longrightarrow> probing k w))"

lemma releasesI:
  "(\<And>w k. db_ok w \<Longrightarrow> db_ok (snd (f w)) \<and> (probing k (snd (f w)) \<longrightarrow> probing k w)) \<Longrightarrow> releases f"
  by (simp add: releases_def)

text \<open>The shape of a guarded call: nothing without a client, the breaker, then a body that
  releases the circuit it was admitted to.\<close>

lemma releases_guarded:
  assumes body: "\<And>w k. db_ok w \<Longrightarrow> db_ok (snd (body w)) \<and>
      (probing k (snd (body w)) \<longrightarrow> k \<noteq> getCircuitOperation own op \<and> probing k w)"
    and f: "\<And>w. snd (f w) = (if \<not> client_ready w then w else
        (case circuitBlocked own op w of (True, w') \<Rightarrow> w' | (False, w') \<Rightarrow> snd (body w')))"
  shows "releases f"
proof (rule releasesI)
  fix w :: "'a db_world_scheme" and k
  assume ok: "db_ok w"
  obtain b w1 where b: "circuitBlocked own op w = (b, w1)" by fastforce
  note ok1 = db_ok_blocked [OF ok b]
  note bp = blocked_probing [OF b refl]
  show "db_ok (snd (f w)) \<and> (probing k (snd (f w)) \<longrightarrow> probing k w)"
  proof (cases "client_ready w")
    case True
    show ?thesis
      using b ok ok1 bp body [OF ok1, of k] True
      by (cases b; cases "k = getCircuitOperation own op") (auto simp: f)
  qed (simp add: f ok)
qed

lemma selectFromOrNull_releases: "keeps_circuits q \<Longrightarrow> releases (selectFromOrNull own jit table q)"
  by (rule releases_guarded [where body = "read_loop own (''SELECT:'' @ table) jit q maxReadAttempts 1"
        and own = own and op = "''SELECT:'' @ table"])
     (auto simp: read_loop_released maxReadAttempts_def selectFromOrNull_def Let_def split: prod.split bool.split)

lemma rpc_op_releases: "keeps_circuits q \<Longrightarrow> releases (rpc_op own jit g q)"
  by (rule releases_guarded [where body = "rpc_loop own (''RPC:'' @ g) jit q maxReadAttempts 1"
        and own = own and op = "''RPC:'' @ g"])
     (auto simp: rpc_loop_released maxReadAttempts_def rpc_op_def Let_def split: prod.split bool.split)

lemma count_rows_releases: "keeps_circuits q \<Longrightarrow> releases (count_rows own jit q)"
  by (rule releases_guarded [where body = "read_loop own ''COUNT'' jit q maxReadAttempts 1"
        and own = own and op = "''COUNT''"])
     (auto simp: read_loop_released maxReadAttempts_def count_rows_def split: prod.split bool.split option.split)

lemma rpcAllPaged_releases:
  "(\<And>a b. keeps_circuits (q a b)) \<Longrightarrow> 0 < fuel \<Longrightarrow> releases (rpcAllPaged fuel own g q n)"
  by (rule releases_guarded [where body = "rpc_pages fuel own (''RPC:'' @ g) q n 0 []"
        and own = own and op = "''RPC:'' @ g"])
     (auto simp: rpc_pages_released rpcAllPaged_def Let_def split: prod.split bool.split)

lemma releases_write:
  assumes "keeps_circuits q" and "\<And>w. f w = (if c w then (d, w) else write_once own op z ok conflict thr q w)"
  shows "releases f"
proof (rule releasesI)
  fix w :: "'a db_world_scheme" and k
  assume "db_ok w"
  from write_once_released [OF assms(1) this]
  show "db_ok (snd (f w)) \<and> (probing k (snd (f w)) \<longrightarrow> probing k w)"
    using \<open>db_ok w\<close> by (cases "c w") (simp_all add: assms(2))
qed

lemma writes_release:
  assumes "keeps_circuits q"
  shows "releases (insert_op own rd q)" "releases (update_op own q)" "releases (upsert_op own rd q)"
    "releases (delete_op own rd q)"
  by (rule releases_write [OF assms], simp only: insert_op_def update_op_def upsert_op_def delete_op_def)+

lemma batches_release:
  assumes "keeps_circuits q"
  shows "releases (insertBatch own data q)" "releases (upsertBatch own data q)"
  by (rule releases_write [OF assms], simp only: insertBatch_def upsertBatch_def)+

section \<open>Paged reads are complete\<close>

text \<open>\<open>serves q rows\<close>: the request for \<open>a..b\<close> answers with that slice of the table.\<close>

definition serves :: "(nat \<Rightarrow> nat \<Rightarrow> ('x, 'a list) request) \<Rightarrow> 'a list \<Rightarrow> bool" where
  "serves q rs \<longleftrightarrow> (\<forall>a b w. \<exists>w'. q a b w = (Data (take (b + 1 - a) (drop a rs)), w')
     \<and> client_ready w' = client_ready w \<and> circuits w' = circuits w)"

definition closed_for :: "string \<Rightarrow> string \<Rightarrow> 'x db_world_scheme \<Rightarrow> bool" where
  "closed_for own op w \<longleftrightarrow> client_ready w \<and> cb_state (getCircuit (getCircuitOperation own op) (circuits w)) = Closed"

lemma closed_admits:
  assumes "closed_for own op w"
  obtains w' where "circuitBlocked own op w = (False, w')" and "closed_for own op w'"
  using assms
  by (auto simp: circuitBlocked_def Let_def closed_for_def canRequest_def admit_def split: prod.splits)

lemma selectFrom_serves:
  assumes "serves q rs" and "closed_for own (''SELECT:'' @ table) w"
  obtains w' where "selectFrom own jit table (q a b) w = (take (b + 1 - a) (drop a rs), w')"
    and "closed_for own (''SELECT:'' @ table) w'"
proof -
  obtain w1 where w1: "circuitBlocked own (''SELECT:'' @ table) w = (False, w1)"
    "closed_for own (''SELECT:'' @ table) w1" using closed_admits [OF assms(2)] .
  obtain w2 where w2: "q a b w1 = (Data (take (b + 1 - a) (drop a rs)), w2)"
    "client_ready w2 = client_ready w1" using assms(1) unfolding serves_def by blast
  have "closed_for own (''SELECT:'' @ table) (recordCircuitSuccess own (''SELECT:'' @ table) w2)"
    using w1(2) w2(2) by (simp add: closed_for_def recordCircuitSuccess_def recordSuccess_circuit succeed_def)
  moreover have "selectFrom own jit table (q a b) w =
      (take (b + 1 - a) (drop a rs), recordCircuitSuccess own (''SELECT:'' @ table) w2)"
    using assms(2) w1 w2 by (simp add: selectFrom_def selectFromOrNull_def Let_def closed_for_def
        maxReadAttempts_def numeral_2_eq_2 with_client_def del: append.simps)
  ultimately show ?thesis using that by blast
qed

lemma selectAllPaged_from:
  assumes "serves q rs" and "0 < n"
  shows "closed_for own (''SELECT:'' @ table) w \<Longrightarrow> length rs < k + fuel * n \<Longrightarrow> k \<le> length rs \<Longrightarrow>
    fst (selectAllPaged fuel own jit table q n k (take k rs) w) = Some rs"
proof (induction fuel arbitrary: k w)
  case (Suc fuel)
  obtain w' where w': "selectFrom own jit table (q k (k + n - 1)) w = (take (k + n - 1 + 1 - k) (drop k rs), w')"
    "closed_for own (''SELECT:'' @ table) w'" using selectFrom_serves [OF assms(1) Suc.prems(1)] .
  have page: "take (k + n - 1 + 1 - k) (drop k rs) = take n (drop k rs)" using assms(2) by simp
  have acc: "take k rs @ take n (drop k rs) = take (k + n) rs" by (simp add: take_add)
  show ?case
  proof (cases "length rs < k + n")
    case True
    then show ?thesis using w'(1) acc Suc.prems(3) unfolding page by (simp add: less_diff_conv2)
  next
    case False
    then have "fst (selectAllPaged fuel own jit table q n (k + n) (take (k + n) rs) w') = Some rs"
      using Suc.prems(2) w'(2) by (intro Suc.IH) (simp_all add: algebra_simps)
    then show ?thesis using False w'(1) unfolding page by (simp add: less_diff_conv2 acc)
  qed
qed simp

section \<open>Properties\<close>

text \<open>No operation of the base repository leaves a probe of a half-open circuit in flight:
  on every path, errors and exceptions included, the outcome of an admitted call is reported.  The
  request itself may not touch the breaker.\<close>

theorem base_operations_release_probe:
  assumes "keeps_circuits rd" and "keeps_circuits wr" and "keeps_circuits ct" and "keeps_circuits un"
    and "\<And>a b. keeps_circuits (pg a b)" and "0 < fuel"
  shows "releases (selectFromOrNull own jit t rd) \<and> releases (rpc_op own jit f rd) \<and>
    releases (rpcAllPaged fuel own f pg n) \<and> releases (count_rows own jit ct) \<and>
    releases (insert_op own b wr) \<and> releases (update_op own wr) \<and> releases (upsert_op own b wr) \<and>
    releases (delete_op own b wr) \<and> releases (insertBatch own ds un) \<and> releases (upsertBatch own ds un)"
  by (intro conjI)
    (rule selectFromOrNull_releases rpc_op_releases rpcAllPaged_releases count_rows_releases writes_release
       batches_release, use assms in simp_all)+

text \<open>When the breaker is closed and every page is served, the paged read returns all rows of
  the table, in order, and needs no more than one page beyond the full ones.\<close>

theorem selectAllPaged_complete:
  assumes "serves q rs" and "0 < n" and "closed_for own (''SELECT:'' @ table) w"
    and "length rs div n < fuel"
  shows "fst (selectAllPaged fuel own jit table q n 0 [] w) = Some rs"
proof -
  have "length rs < fuel * n"
    using assms(2,4) by (metis less_mult_imp_div_less div_less_iff_less_mult)
  then show ?thesis
    using selectAllPaged_from [OF assms(1,2,3), of 0] by simp
qed

section \<open>Witnesses\<close>

definition demo_down :: "(unit, 'a) request" where
  "demo_down = (\<lambda>w. (Throws \<lparr>err_code = None, err_message = ''fetch failed''\<rparr>, w))"

definition demo_table :: "nat \<Rightarrow> nat \<Rightarrow> (unit, nat list) request" where
  "demo_table = (\<lambda>a b w. (Data (take (b + 1 - a) (drop a [7, 8, 9])), w))"

definition demo_db :: "unit db_world_scheme" where
  "demo_db = \<lparr>circuits = Map.empty, clock = 0, client_ready = True\<rparr>"

lemma demo_down_keeps: "keeps_circuits demo_down"
  by (simp add: keeps_circuits_def demo_down_def)

theorem base_operations_release_probe_witness:
  "releases (selectFromOrNull ''t'' (\<lambda>_. 0) ''t'' (demo_down :: (unit, nat list) request)) \<and>
   releases (count_rows ''t'' (\<lambda>_. 0) demo_down)"
  using base_operations_release_probe [OF demo_down_keeps demo_down_keeps demo_down_keeps demo_down_keeps
      demo_down_keeps zero_less_one] by blast

theorem selectAllPaged_complete_witness:
  "fst (selectAllPaged 2 ''t'' (\<lambda>_. 0) ''t'' demo_table 2 0 [] demo_db) = Some [7, 8, 9]"
  by (rule selectAllPaged_complete)
    (simp_all add: serves_def demo_table_def closed_for_def demo_db_def getCircuit_def fresh_circuit_def)

end
