(* ===== verification/ActionStore.thy ===== *)
theory ActionStore
  imports ActionIdentity ActionJournalInv SupabaseRepository
begin

text \<open>
  \<open>src/biz/action-execution/action-records.repository.ts\<close>: the calls the services make to the
  journal.  The world adds to the base repository's what lies beyond the network: the journal,
  and an environment that says what happens around each request.  An \<open>env_event\<close> is how
  long the request takes, which transitions other processes commit before it is served, and
  whether the request or its answer is lost; with no event left requests are served at once.

  \<open>crypto\<close> bundles the two engine functions the digests need.
\<close>

section \<open>The world\<close>

datatype fault = Answered | Lost_request db_error | Lost_answer db_error

record env_event =
  ev_delay :: nat
  ev_foreign :: "(journal_op \<times> string \<times> string) list"
  ev_fault :: fault

definition calm :: env_event where
  "calm = \<lparr>ev_delay = 0, ev_foreign = [], ev_fault = Answered\<rparr>"

record store_world = db_world +
  journal_of :: journal
  env :: "env_event list"

record crypto =
  sha256 :: "string \<Rightarrow> string"
  locale_le :: "string \<Rightarrow> string \<Rightarrow> bool"

definition foreign_step :: "int \<Rightarrow> journal_op \<times> string \<times> string \<Rightarrow> journal \<Rightarrow> journal" where
  "foreign_step now e j = (case e of (op, c, a) \<Rightarrow> snd (transition now op c a j))"

text \<open>The next event arrives: time passes and the other processes' transitions commit.\<close>

definition arrive :: "'x store_world_scheme \<Rightarrow> fault \<times> 'x store_world_scheme" where
  "arrive w =
     (let e = (case env w of [] \<Rightarrow> calm | e # _ \<Rightarrow> e); now = clock w + int (ev_delay e)
      in (ev_fault e, w\<lparr>clock := now, env := tl (env w),
                       journal_of := fold (foreign_step now) (ev_foreign e) (journal_of w)\<rparr>))"

text \<open>A remote call: the database function runs unless the request is lost.\<close>

definition remote :: "(int \<Rightarrow> journal \<Rightarrow> (exn + 'a) \<times> journal) \<Rightarrow> ('x store_world_ext, 'a) request" where
  "remote f w =
     (case arrive w of
        (Lost_request e, w1) \<Rightarrow> (Error_reply e, w1)
      | (Lost_answer e, w1) \<Rightarrow> (Error_reply e, w1\<lparr>journal_of := snd (f (clock w1) (journal_of w1))\<rparr>)
      | (Answered, w1) \<Rightarrow>
          (case f (clock w1) (journal_of w1) of
             (Inl m, j) \<Rightarrow> (Error_reply \<lparr>err_code = None, err_message = m\<rparr>, w1\<lparr>journal_of := j\<rparr>)
           | (Inr v, j) \<Rightarrow> (Data v, w1\<lparr>journal_of := j\<rparr>)))"

section \<open>Calls through the breaker\<close>

abbreviation own_table :: string where
  "own_table \<equiv> ''agent_action_records''"

text \<open>
  \<open>transition\<close>, \<open>due\<close> and \<open>redactCompleted\<close> share this shape.  The client is looked up
  after the breaker was asked and outside any \<open>try\<close>; an error reply is reported and thrown.
\<close>

definition guarded :: "string \<Rightarrow> exn \<Rightarrow> ('x, 'a) request \<Rightarrow> ('x db_world_scheme, 'a) act" where
  "guarded op unavailable q w =
     (case circuitBlocked own_table op w of
        (True, w1) \<Rightarrow> (Inl unavailable, w1)
      | (False, w1) \<Rightarrow>
          (case with_client q w1 of
             (Data d, w2) \<Rightarrow> (Inr d, recordCircuitSuccess own_table op w2)
           | (Error_reply e, w2) \<Rightarrow> (Inl (err_message e), noteOutcome own_table op e w2)
           | (Throws e, w2) \<Rightarrow> (Inl (err_message e), w2)))"

text \<open>The other reads do not ask the breaker.\<close>

definition unguarded :: "('x, 'a) request \<Rightarrow> ('x db_world_scheme, 'a) act" where
  "unguarded q w =
     (case with_client q w of
        (Data d, w2) \<Rightarrow> (Inr d, w2)
      | (Error_reply e, w2) \<Rightarrow> (Inl (err_message e), w2)
      | (Throws e, w2) \<Rightarrow> (Inl (err_message e), w2))"

definition read_journal :: "(journal \<Rightarrow> 'a) \<Rightarrow> int \<Rightarrow> journal \<Rightarrow> (exn + 'a) \<times> journal" where
  "read_journal f now j = (Inr (f j), j)"

definition fromDb :: "journal_row \<Rightarrow> action_record" where
  "fromDb r = action_record.truncate r"

definition transition_call :: "journal_op \<Rightarrow> string \<Rightarrow> string
    \<Rightarrow> ('x store_world_scheme, action_record option \<times> string option) act" where
  "transition_call op c a =
     act_bind (guarded ''action_transition'' ''Action store unavailable'' (remote (\<lambda>now. transition now op c a)))
       (\<lambda>(r, conflict). act_ret (map_option fromDb r, conflict))"

section \<open>The operations\<close>

definition lift_sum :: "exn + 'a \<Rightarrow> ('w, 'a) act" where
  "lift_sum r = (case r of Inl e \<Rightarrow> act_throw e | Inr v \<Rightarrow> act_ret v)"

definition str_digest :: "crypto \<Rightarrow> string list \<Rightarrow> exn + string" where
  "str_digest k ss = actionDigest (sha256 k) (locale_le k) (JArr (map JStr ss))"

definition prepare :: "crypto \<Rightarrow> action_intent \<Rightarrow> action_mode
    \<Rightarrow> ('x store_world_scheme, action_record option \<times> string option) act" where
  "prepare k i m =
     act_bind (lift_sum (identifyAction (sha256 k) (locale_le k) i)) (\<lambda>identity.
     act_bind (lift_sum (str_digest k [corpId i, target i])) (\<lambda>resource.
     case (case recoveryWindowStartedAt i of Some t \<Rightarrow> t | None \<Rightarrow> occurredAt i) of
       None \<Rightarrow> act_throw ''Invalid time value''
     | Some start \<Rightarrow>
         transition_call (Prepare \<lparr>pi_intent = i, pi_mode = m, pi_requestId = id_requestId identity,
             pi_payloadHash = id_payloadHash identity, pi_resourceHash = resource,
             pi_recoveryDeadline = start + 24 * 60 * 60 * 1000\<rparr>)
           (corpId i) (id_actionId identity)))"

definition claim :: "action_record \<Rightarrow> string \<Rightarrow> bool \<Rightarrow> ('x store_world_scheme, action_record option) act" where
  "claim r who recover =
     act_bind (transition_call (if recover then ReconcileClaim who else Claim who) (corpId (intent r)) (actionId r))
       (\<lambda>(row, conflict). act_ret (
          if (conflict \<noteq> None \<and> conflict \<noteq> Some []) \<or> (case row of None \<Rightarrow> True | Some x \<Rightarrow> owner x \<noteq> Some who)
          then None else row))"

definition ownership_of :: "action_record \<Rightarrow> ownership" where
  "ownership_of r = \<lparr>o_owner = owner r, o_fence = fence r,
     o_attempt = (case dispatchAttemptId r of Some x \<Rightarrow> Some x | None \<Rightarrow> owner r)\<rparr>"

definition opt_json :: "('a \<Rightarrow> jval) \<Rightarrow> 'a option \<Rightarrow> jval" where
  "opt_json f x = (case x of None \<Rightarrow> JUndef | Some v \<Rightarrow> f v)"

definition evidence_json :: "action_evidence \<Rightarrow> jval" where
  "evidence_json e = JObj
     [(''kind'', JStr (evidence_text (ev_kind e))), (''externalId'', opt_json JStr (externalId e)),
      (''goalSatisfied'', opt_json JBool (goalSatisfied e)),
      (''requestTerminated'', JBool (requestTerminated e)), (''detail'', opt_json JStr (detail e))]"

definition completion_json :: "action_completion \<Rightarrow> jval" where
  "completion_json c = JObj
     [(''status'', JStr (state_text (c_status c))), (''result'', opt_json id (c_result c)),
      (''evidence'', evidence_json (c_evidence c)), (''retryable'', opt_json JBool (c_retryable c))]"

definition settle :: "crypto \<Rightarrow> action_record \<Rightarrow> action_completion \<Rightarrow> ('x store_world_scheme, action_record) act" where
  "settle k r cpl =
     act_bind (lift_sum (actionDigest (sha256 k) (locale_le k) (completion_json cpl))) (\<lambda>h.
     act_bind (transition_call (Settle (ownership_of r) cpl h) (corpId (intent r)) (actionId r)) (\<lambda>(row, _).
       case row of None \<Rightarrow> act_throw ''Action disappeared during settlement'' | Some x \<Rightarrow> act_ret x))"

definition validateClaim :: "action_record \<Rightarrow> ('x store_world_scheme, bool) act" where
  "validateClaim r =
     act_bind (transition_call (ValidateClaim (ownership_of r)) (corpId (intent r)) (actionId r))
       (\<lambda>(row, _) w. (Inr (case row of None \<Rightarrow> False
          | Some x \<Rightarrow> owner x = owner r \<and> fence x = fence r \<and> status x = EXECUTING \<and>
              (case nextCheckAt x of None \<Rightarrow> False | Some t \<Rightarrow> clock w < t)), w))"

definition markSynced :: "action_record \<Rightarrow> ('x store_world_scheme, unit) act" where
  "markSynced r =
     act_bind (transition_call (Synced (ownership_of r)) (corpId (intent r)) (actionId r)) (\<lambda>(row, _).
       if (case row of None \<Rightarrow> True | Some x \<Rightarrow> localSync x \<noteq> COMPLETE)
       then act_throw ''Local sync ownership changed'' else act_ret ())"

definition cancel :: "action_record \<Rightarrow> ('x store_world_scheme, bool) act" where
  "cancel r =
     act_bind (transition_call (Cancel (ownership_of r)) (corpId (intent r)) (actionId r)) (\<lambda>(row, _).
       act_ret (case row of None \<Rightarrow> False | Some x \<Rightarrow> status x = CANCELLED))"

definition defer_op :: "action_record \<Rightarrow> int option \<Rightarrow> ('x store_world_scheme, unit) act" where
  "defer_op r t =
     act_bind (transition_call (case t of Some _ \<Rightarrow> Schedule (ownership_of r) t | None \<Rightarrow> Manual (ownership_of r))
        (corpId (intent r)) (actionId r)) (\<lambda>_. act_ret ())"

section \<open>Queries\<close>

definition due_row :: "int \<Rightarrow> journal_row \<Rightarrow> bool" where
  "due_row now r \<longleftrightarrow> mode r = EXECUTE \<and> due_at now (nextCheckAt r) \<and>
     (in_flight r \<or> (status r = SUCCEEDED \<and> localSync r = PENDING))"

definition due_rows :: "nat \<Rightarrow> int \<Rightarrow> journal \<Rightarrow> action_record list" where
  "due_rows limit now j = map fromDb (take (min limit 25)
     (sort_key (\<lambda>r. case nextCheckAt r of None \<Rightarrow> 0 | Some t \<Rightarrow> t)
       (sort_key r_corp (sort_key actionId (filter (due_row now) (rows j))))))"

definition due :: "nat \<Rightarrow> ('x store_world_scheme, action_record list) act" where
  "due limit w = guarded ''action_due'' ''Action recovery store unavailable''
     (remote (read_journal (due_rows limit (clock w)))) w"

definition hasNewerCompletion :: "crypto \<Rightarrow> action_record \<Rightarrow> ('x store_world_scheme, bool) act" where
  "hasNewerCompletion k r =
     act_bind (lift_sum (str_digest k [corpId (intent r), target (intent r)])) (\<lambda>resource.
       unguarded (remote (read_journal (\<lambda>j. list_ex (\<lambda>q. r_corp q = corpId (intent r) \<and> r_resource q = resource
         \<and> status q = SUCCEEDED \<and> actionId q \<noteq> actionId r
         \<and> (case occurredAt (intent r) of None \<Rightarrow> False | Some t \<Rightarrow> t < r_input_at q)) (rows j)))))"

definition terminal_completion :: "action_completion \<Rightarrow> bool" where
  "terminal_completion c \<longleftrightarrow> requestTerminated (c_evidence c) \<and>
     (c_status c = SUCCEEDED \<or> (c_status c = FAILED \<and> ev_kind (c_evidence c) = DEFINITIVE_NO_EFFECT))"

record terminal_evidence =
  te_completion :: "action_completion option"
  te_conflicting :: bool

definition select_evidence :: "action_completion list \<Rightarrow> terminal_evidence" where
  "select_evidence cs =
     (let completions = filter terminal_completion cs;
          successes = filter (\<lambda>c. c_status c = SUCCEEDED) completions
      in \<lparr>te_completion = (case successes of c # _ \<Rightarrow> Some c
             | [] \<Rightarrow> (case completions of c # _ \<Rightarrow> Some c | [] \<Rightarrow> None)),
          te_conflicting = (successes \<noteq> [] \<and> list_ex (\<lambda>c. c_status c = FAILED) completions)\<rparr>)"

definition evidence_of :: "action_record \<Rightarrow> journal \<Rightarrow> action_completion list" where
  "evidence_of r j =
     (let attempt = (case dispatchAttemptId r of Some x \<Rightarrow> x | None \<Rightarrow>
                       (case owner r of Some x \<Rightarrow> x | None \<Rightarrow> []))
      in map e_completion (take 20 (sort_key (\<lambda>e. - e_created e)
           (filter (\<lambda>e. e_corp e = corpId (intent r) \<and> e_action e = actionId r \<and> e_attempt e = attempt) (evid j)))))"

definition terminalEvidence :: "action_record \<Rightarrow> ('x store_world_scheme, terminal_evidence) act" where
  "terminalEvidence r =
     act_bind (unguarded (remote (read_journal (evidence_of r)))) (\<lambda>cs. act_ret (select_evidence cs))"

definition redactCompleted :: "int \<Rightarrow> ('x store_world_scheme, nat) act" where
  "redactCompleted limit =
     act_bind (guarded ''action_retention'' ''Action retention store unavailable''
        (remote (\<lambda>now j. case redact_completed now limit (\<lambda>_. False) j of (n, j') \<Rightarrow> (Inr n, j'))))
       (\<lambda>n. if limit < int n then act_throw ''Invalid action retention count'' else act_ret n)"

end
