(* ===== verification/ActionExecutor.thy ===== *)
theory ActionExecutor
  imports ActionStore
begin

text \<open>
  \<open>src/biz/action-execution/action-executor.service.ts\<close>: one external action, from the
  intent to the outcome the caller sees.  The service is written over an \<open>action_ports\<close>
  record, the operations of the injected services it calls, and the caller's
  \<open>action_callbacks\<close>; both are polymorphic in the world.  Log lines are not modelled.
\<close>

section \<open>Ports and callbacks\<close>

record 'w action_ports =
  p_now :: "'w \<Rightarrow> int"
  p_identify :: "action_intent \<Rightarrow> exn + action_identity"
  p_prepare :: "action_intent \<Rightarrow> action_mode \<Rightarrow> ('w, action_record option \<times> string option) act"
  p_claim :: "action_record \<Rightarrow> string \<Rightarrow> bool \<Rightarrow> ('w, action_record option) act"
  p_settle :: "action_record \<Rightarrow> action_completion \<Rightarrow> ('w, action_record) act"
  p_validate :: "action_record \<Rightarrow> ('w, bool) act"
  p_synced :: "action_record \<Rightarrow> ('w, unit) act"
  p_cancel :: "action_record \<Rightarrow> ('w, bool) act"
  p_repair :: "(action_record \<Rightarrow> action_completion \<Rightarrow> ('w, unit) act) option"
  p_notify :: "string \<Rightarrow> 'w \<Rightarrow> 'w"
  p_uuid :: "('w, string) io"
  p_describe :: "exn \<Rightarrow> string"

record 'w action_callbacks =
  cb_dispatch :: "string \<Rightarrow> action_mode \<Rightarrow> ('w, action_completion) act"
  cb_sync :: "(jval option \<Rightarrow> ('w, unit) act) option"
  cb_authorize :: "('w, bool) act option"

section \<open>Configuration\<close>

record executor_config =
  ec_mode :: action_mode
  ec_cutoverAt :: "int option"

definition RETENTION_MS :: int where
  "RETENTION_MS = 90 * 24 * 60 * 60 * 1000"

text \<open>
  The constructor.  The boundary is absent, or a text with what \<open>Date.parse\<close> makes of it; an
  empty text counts as absent.
\<close>

definition executor_create :: "string option \<Rightarrow> (string \<times> time_text) option \<Rightarrow> exn + executor_config" where
  "executor_create mode_cfg boundary =
     (let m = (case mode_cfg of None \<Rightarrow> mode_text OBSERVE | Some t \<Rightarrow> t) in
      case mode_of_text m of
        None \<Rightarrow> Inl ''Invalid ACTION_EXECUTION_MODE''
      | Some md \<Rightarrow>
          (let cutover = (case boundary of None \<Rightarrow> None | Some (t, parsed) \<Rightarrow> if t = [] then None else Some parsed) in
           if cutover = Some None \<or> (md = EXECUTE \<and> cutover = None)
           then Inl ''Execute mode requires ACTION_EXECUTION_CUTOVER_AT; preserve it during rollback''
           else Inr \<lparr>ec_mode = md, ec_cutoverAt = (case cutover of None \<Rightarrow> None | Some t \<Rightarrow> t)\<rparr>))"

section \<open>Outcomes\<close>

definition blocked :: "action_identity \<Rightarrow> string \<Rightarrow> action_execution" where
  "blocked d reason = \<lparr>x_actionId = id_actionId d, x_requestId = id_requestId d, x_status = BLOCKED,
     x_result = None, x_evidence = None, x_localSync = COMPLETE, x_dispatched = False, x_reason = Some reason\<rparr>"

definition existing :: "action_record \<Rightarrow> bool \<Rightarrow> action_execution" where
  "existing r dispatched = \<lparr>x_actionId = actionId r, x_requestId = requestId r, x_status = Journal (status r),
     x_result = result r, x_evidence = evidence r, x_localSync = localSync r, x_dispatched = dispatched,
     x_reason = None\<rparr>"

section \<open>Steps\<close>

definition authorized :: "'w action_callbacks \<Rightarrow> ('w, bool) act" where
  "authorized cb = act_catch (case cb_authorize cb of Some f \<Rightarrow> f | None \<Rightarrow> act_ret True) (\<lambda>_. act_ret False)"

definition conclude :: "action_completion \<Rightarrow> action_completion" where
  "conclude c =
     (if c_status c = SUCCEEDED \<and> \<not> requestTerminated (c_evidence c) then c\<lparr>c_status := UNKNOWN\<rparr>
      else if c_status c = FAILED \<and>
        (ev_kind (c_evidence c) \<noteq> DEFINITIVE_NO_EFFECT \<or> \<not> requestTerminated (c_evidence c))
      then c\<lparr>c_status := UNKNOWN\<rparr> else c)"

definition unconfirmed :: "string \<Rightarrow> action_completion" where
  "unconfirmed d = \<lparr>c_status = UNKNOWN, c_result = None,
     c_evidence = \<lparr>ev_kind = INDETERMINATE, externalId = None, goalSatisfied = None,
                   requestTerminated = False, detail = Some d\<rparr>,
     c_retryable = None\<rparr>"

definition dispatch :: "'w action_ports \<Rightarrow> string \<Rightarrow> 'w action_callbacks \<Rightarrow> action_mode \<Rightarrow> ('w, action_completion) act" where
  "dispatch P rid cb m =
     act_catch (act_bind (cb_dispatch cb rid m) (\<lambda>c. act_ret (conclude c)))
       (\<lambda>e. act_ret (unconfirmed (p_describe P e)))"

text \<open>\<open>for (attempt = 0; attempt < 2; ...)\<close> with the first success returned.\<close>

fun settle_tries :: "'w action_ports \<Rightarrow> nat \<Rightarrow> action_record \<Rightarrow> action_completion \<Rightarrow> ('w, action_record option) act" where
  "settle_tries P 0 r c = act_ret None"
| "settle_tries P (Suc n) r c =
     act_catch (act_bind (p_settle P r c) (\<lambda>x. act_ret (Some x))) (\<lambda>_. settle_tries P n r c)"

definition save :: "'w action_ports \<Rightarrow> action_record \<Rightarrow> action_completion \<Rightarrow> ('w, action_record option) act" where
  "save P r c =
     act_bind (settle_tries P 2 r c) (\<lambda>saved.
       case saved of
         Some x \<Rightarrow> act_ret (Some x)
       | None \<Rightarrow>
           if mode r \<noteq> EXECUTE then act_ret None
           else act_bind (act_catch (case p_repair P of Some enq \<Rightarrow> enq r c | None \<Rightarrow> act_ret ()) (\<lambda>_. act_ret ()))
                  (\<lambda>_ w. (Inr None, p_notify P (''action.settlement_pending:'' @ actionId r) w)))"

definition synchronize :: "'w action_ports \<Rightarrow> action_record \<Rightarrow> 'w action_callbacks \<Rightarrow> bool \<Rightarrow> ('w, action_execution) act" where
  "synchronize P r cb dispatched =
     (if localSync r = COMPLETE then act_ret (existing r dispatched)
      else act_catch
        (act_bind (case cb_sync cb of Some f \<Rightarrow> f (result r) | None \<Rightarrow> act_ret ()) (\<lambda>_.
         act_bind (p_synced P r) (\<lambda>_. act_ret (existing (r\<lparr>localSync := COMPLETE\<rparr>) dispatched))))
        (\<lambda>_. act_ret (existing r dispatched)))"

definition untracked :: "'w action_ports \<Rightarrow> executor_config \<Rightarrow> action_intent \<Rightarrow> 'w action_callbacks
    \<Rightarrow> ('w, action_execution) act" where
  "untracked P cfg i cb =
     act_bind (lift_sum (p_identify P i)) (\<lambda>d.
     act_bind (authorized cb) (\<lambda>ok.
       if \<not> ok then act_ret (blocked d ''permission_or_freshness_changed'')
       else act_bind (dispatch P (id_requestId d) cb (ec_mode cfg)) (\<lambda>c.
         act_bind
           (case cb_sync cb of
              Some f \<Rightarrow> if c_status c = SUCCEEDED
                then act_catch (act_bind (f (c_result c)) (\<lambda>_. act_ret COMPLETE)) (\<lambda>_. act_ret PENDING)
                else act_ret COMPLETE
            | None \<Rightarrow> act_ret COMPLETE)
           (\<lambda>ls. act_ret \<lparr>x_actionId = id_actionId d, x_requestId = id_requestId d, x_status = Journal (c_status c),
              x_result = c_result c, x_evidence = Some (c_evidence c), x_localSync = ls, x_dispatched = True,
              x_reason = None\<rparr>))))"

section \<open>execute\<close>

definition no_effect :: "string \<Rightarrow> action_evidence" where
  "no_effect d = \<lparr>ev_kind = DEFINITIVE_NO_EFFECT, externalId = None, goalSatisfied = None,
     requestTerminated = True, detail = Some d\<rparr>"

text \<open>The claimed record is authorised again, validated, dispatched and settled.\<close>

definition run_claimed :: "'w action_ports \<Rightarrow> executor_config \<Rightarrow> action_identity \<Rightarrow> bool \<Rightarrow> action_intent
    \<Rightarrow> 'w action_callbacks \<Rightarrow> action_record \<Rightarrow> ('w, action_execution) act" where
  "run_claimed P cfg d enforce i cb claimed =
     act_bind (authorized cb) (\<lambda>ok.
     if \<not> ok then
       act_bind (save P claimed \<lparr>c_status = FAILED, c_result = None,
          c_evidence = no_effect ''permission_changed_before_dispatch'', c_retryable = Some False\<rparr>)
         (\<lambda>_. act_ret (blocked d ''permission_or_freshness_changed''))
     else
     act_bind (act_catch (act_bind (p_validate P claimed) (\<lambda>v. act_ret (Inr v))) (\<lambda>e. act_ret (Inl e))) (\<lambda>v.
     case v of
       Inl _ \<Rightarrow> if enforce then act_ret (blocked d ''dispatch_ownership_unconfirmed'') else untracked P cfg i cb
     | Inr False \<Rightarrow> if enforce then act_ret (blocked d ''dispatch_lease_expired'') else untracked P cfg i cb
     | Inr True \<Rightarrow>
         act_bind (dispatch P (requestId claimed) cb (mode claimed)) (\<lambda>c.
         act_bind (save P claimed c) (\<lambda>saved.
         if c_status c = SUCCEEDED then
           (let known = claimed\<lparr>status := SUCCEEDED, result := c_result c, evidence := Some (c_evidence c),
                               localSync := PENDING\<rparr>
            in case saved of
                 Some s \<Rightarrow> if status s = SUCCEEDED then synchronize P s cb True
                           else if enforce then act_ret (existing known True) else synchronize P known cb True
               | None \<Rightarrow> if enforce then act_ret (existing known True) else synchronize P known cb True)
         else act_ret (existing
           (case saved of Some s \<Rightarrow> s
            | None \<Rightarrow> claimed\<lparr>status := c_status c, result := c_result c, evidence := Some (c_evidence c)\<rparr>) True)))))"

definition claim_and_run :: "'w action_ports \<Rightarrow> executor_config \<Rightarrow> action_identity \<Rightarrow> bool \<Rightarrow> action_intent
    \<Rightarrow> 'w action_callbacks \<Rightarrow> action_record \<Rightarrow> ('w, action_execution) act" where
  "claim_and_run P cfg d enforce i cb r =
     act_bind (authorized cb) (\<lambda>ok.
     if \<not> ok then
       act_bind (act_catch (p_cancel P r) (\<lambda>_. act_ret False)) (\<lambda>cancelled.
         act_ret ((blocked d ''permission_or_freshness_changed'')
           \<lparr>x_evidence := if cancelled then Some (no_effect ''registered_action_cancelled'') else None\<rparr>))
     else
     act_bind (act_of_io (p_uuid P)) (\<lambda>u.
     act_bind (act_catch (act_bind (p_claim P r u False) (\<lambda>x. act_ret (Inr x))) (\<lambda>e. act_ret (Inl e))) (\<lambda>v.
     case v of
       Inl _ \<Rightarrow> if enforce then act_ret (blocked d ''claim_not_confirmed'') else untracked P cfg i cb
     | Inr None \<Rightarrow> if enforce then act_ret (blocked d ''dispatch_owned_elsewhere'') else untracked P cfg i cb
     | Inr (Some claimed) \<Rightarrow> run_claimed P cfg d enforce i cb claimed)))"

definition with_record :: "'w action_ports \<Rightarrow> executor_config \<Rightarrow> action_identity \<Rightarrow> action_mode \<Rightarrow> action_intent
    \<Rightarrow> 'w action_callbacks \<Rightarrow> action_record option \<Rightarrow> ('w, action_execution) act" where
  "with_record P cfg d m i cb rec =
     (let enforce = ((case rec of Some r \<Rightarrow> mode r = EXECUTE | None \<Rightarrow> False) \<or> m = EXECUTE) in
      if enforce \<and> (case rec of Some r \<Rightarrow> mode r \<noteq> EXECUTE | None \<Rightarrow> True)
      then act_ret (blocked d ''observation_record_requires_cutover_review'')
      else case rec of
        None \<Rightarrow> untracked P cfg i cb
      | Some r \<Rightarrow>
          if enforce \<and> \<not> identityReliable i then act_ret (blocked d ''identity_not_persisted'')
          else if status r = SUCCEEDED then
            (if \<not> enforce then untracked P cfg i cb else synchronize P r cb False)
          else if status r = EXECUTING \<or> status r = UNKNOWN \<or> status r = CANCELLED \<or>
              (status r = FAILED \<and> \<not> retryable r) then
            (if \<not> enforce then untracked P cfg i cb else act_ret (existing r False))
          else claim_and_run P cfg d enforce i cb r)"

definition invalid_identity :: action_execution where
  "invalid_identity = \<lparr>x_actionId = [], x_requestId = [], x_status = BLOCKED, x_result = None, x_evidence = None,
     x_localSync = COMPLETE, x_dispatched = False, x_reason = Some ''invalid_action_identity''\<rparr>"

text \<open>The checks before the journal is asked; the first that applies gives the reason.\<close>

definition refusal :: "executor_config \<Rightarrow> action_mode \<Rightarrow> int \<Rightarrow> action_intent \<Rightarrow> string option" where
  "refusal cfg m now i =
     (if before (occurredAt i) (now - RETENTION_MS) \<or> after (occurredAt i) (now + 60000)
      then Some ''expired_or_invalid_input''
      else if (case recoveryWindowStartedAt i of None \<Rightarrow> False | Some t \<Rightarrow> after t (now + 60000))
      then Some ''invalid_recovery_window''
      else if m = EXECUTE \<and> ec_cutoverAt cfg = None then Some ''persisted_execution_requires_cutover''
      else if m = EXECUTE \<and> (\<not> identityReliable i \<or> before (occurredAt i) (the (ec_cutoverAt cfg)))
      then Some ''input_before_cutover_or_identity_not_persisted''
      else None)"

definition execute :: "'w action_ports \<Rightarrow> executor_config \<Rightarrow> bool \<Rightarrow> action_intent \<Rightarrow> 'w action_callbacks
    \<Rightarrow> ('w, action_execution) act" where
  "execute P cfg persisted i cb w =
     (let m = (if persisted then EXECUTE else ec_mode cfg) in
      case p_identify P i of
        Inl _ \<Rightarrow> (Inr invalid_identity, w)
      | Inr d \<Rightarrow>
        (case refusal cfg m (p_now P w) i of
           Some reason \<Rightarrow> (Inr (blocked d reason), w)
         | None \<Rightarrow>
           (case p_prepare P i m w of
              (Inl _, w1) \<Rightarrow>
                (if ec_cutoverAt cfg \<noteq> None \<or> m = EXECUTE
                 then (Inr (blocked d ''action_store_unavailable''), w1)
                 else untracked P cfg i cb w1)
            | (Inr (rec, conflict), w1) \<Rightarrow>
                (case conflict of
                   Some x \<Rightarrow>
                     if x = [] then with_record P cfg d m i cb rec w1
                     else if x = ''identity_payload_mismatch'' \<and> m = OBSERVE \<and>
                       (case rec of Some r \<Rightarrow> mode r \<noteq> EXECUTE | None \<Rightarrow> True) \<and> ec_cutoverAt cfg = None
                     then untracked P cfg i cb w1
                     else (Inr (blocked d (if x = ''identity_payload_mismatch'' then x
                                           else ''unresolved_resource_action'')), w1)
                 | None \<Rightarrow> with_record P cfg d m i cb rec w1))))"

section \<open>execute never rejects\<close>

lemma total_authorized [total_intro]: "never_rejects (authorized cb)"
  unfolding authorized_def by (intro total_intro)

lemma total_dispatch [total_intro]: "never_rejects (dispatch P q cb m)"
  unfolding dispatch_def by (intro total_intro)

lemma total_settle_tries [total_intro]: "never_rejects (settle_tries P n r c)"
  by (induction n) (simp_all add: total_intro)

lemma total_save [total_intro]: "never_rejects (save P r c)"
  unfolding save_def by (intro total_intro)

lemma total_synchronize [total_intro]: "never_rejects (synchronize P r cb b)"
  unfolding synchronize_def by (intro total_intro)

lemma total_untracked [total_intro]: "p_identify P i = Inr d \<Longrightarrow> never_rejects (untracked P cfg i cb)"
  unfolding untracked_def lift_sum_def by (simp, intro total_intro)

lemma total_run_claimed [total_intro]:
  "p_identify P i = Inr d \<Longrightarrow> never_rejects (run_claimed P cfg e enforce i cb r)"
  unfolding run_claimed_def Let_def
  by (intro total_intro; assumption)

lemma total_claim_and_run [total_intro]:
  "p_identify P i = Inr d \<Longrightarrow> never_rejects (claim_and_run P cfg e enforce i cb r)"
  unfolding claim_and_run_def by (intro total_intro; assumption)

lemma total_with_record [total_intro]:
  "p_identify P i = Inr d \<Longrightarrow> never_rejects (with_record P cfg e m i cb rec)"
  unfolding with_record_def Let_def by (intro total_intro; assumption)

lemma execute_total: "never_rejects (execute P cfg persisted i cb)"
proof (cases "p_identify P i")
  case (Inl e)
  then show ?thesis by (simp add: never_rejects_def execute_def)
next
  case (Inr d)
  let ?m = "if persisted then EXECUTE else ec_mode cfg"
  have u: "\<exists>v w'. untracked P cfg i cb w = (Inr v, w')" for w
    using total_untracked [OF Inr] by (rule never_rejectsE) blast
  have r: "\<exists>v w'. with_record P cfg d m i cb rec w = (Inr v, w')" for m rec w
    using total_with_record [OF Inr] by (rule never_rejectsE) blast
  have "\<exists>v w'. execute P cfg persisted i cb w = (Inr v, w')" for w
  proof (cases "refusal cfg ?m (p_now P w) i")
    case (Some x)
    then show ?thesis using Inr by (simp add: execute_def Let_def)
  next
    case None
    obtain x w1 where p: "p_prepare P i ?m w = (x, w1)" by fastforce
    show ?thesis
    proof (cases x)
      case (Inl e)
      then show ?thesis using Inr None p u by (auto simp: execute_def Let_def)
    next
      case (Inr y)
      obtain rec conflict where y: "y = (rec, conflict)" by fastforce
      show ?thesis
        using \<open>p_identify P i = Inr d\<close> None p Inr y u r by (cases conflict) (simp_all add: execute_def Let_def)
    qed
  qed
  then show ?thesis by (simp add: never_rejects_def)
qed

section \<open>The dispatched flag tells the truth\<close>

text \<open>
  \<open>f\<close> counts how often the caller's \<open>dispatch\<close> has run.  \<open>tells k f m\<close>: when \<open>k\<close>
  runs of this call are already counted, \<open>m\<close> ends with the count that its outcome's
  \<open>dispatched\<close> flag claims.
\<close>

definition tells :: "nat \<Rightarrow> ('w \<Rightarrow> nat) \<Rightarrow> ('w, action_execution) act \<Rightarrow> bool" where
  "tells k f m \<longleftrightarrow> (\<forall>w x w'. m w = (Inr x, w') \<longrightarrow> f w' + k = f w + (if x_dispatched x then 1 else 0))"

lemma tells_ret: "(x_dispatched x \<longleftrightarrow> k = 1) \<Longrightarrow> k \<le> 1 \<Longrightarrow> tells k f (act_ret x)"
  by (auto simp: tells_def)

lemma tells_bind: "keeps f m \<Longrightarrow> (\<And>v. tells k f (n v)) \<Longrightarrow> tells k f (act_bind m n)"
  unfolding tells_def act_bind_def
  by (auto split: prod.splits sum.splits) (metis keepsD)+

lemma tells_bind_run:
  assumes "\<And>w. f (snd (m w)) = f w + 1" and "\<And>v. tells 1 f (n v)"
  shows "tells 0 f (act_bind m n)"
  unfolding tells_def
proof (intro allI impI)
  fix w x w' assume run: "act_bind m n w = (Inr x, w')"
  then obtain v w1 where m: "m w = (Inr v, w1)" and n: "n v w1 = (Inr x, w')"
    by (auto simp: act_bind_def split: prod.splits sum.splits)
  have "f w' + 1 = f w1 + (if x_dispatched x then 1 else 0)"
    using assms(2) [of v] n unfolding tells_def by blast
  moreover have "f w1 = f w + 1" using assms(1) [of w] m by simp
  ultimately show "f w' + 0 = f w + (if x_dispatched x then 1 else 0)" by simp
qed

lemma tells_if: "(b \<Longrightarrow> tells k f m) \<Longrightarrow> (\<not> b \<Longrightarrow> tells k f n) \<Longrightarrow> tells k f (if b then m else n)"
  by simp

lemma tells_case_sum:
  "(\<And>e. tells k f (m e)) \<Longrightarrow> (\<And>x. tells k f (n x)) \<Longrightarrow> tells k f (case z of Inl e \<Rightarrow> m e | Inr x \<Rightarrow> n x)"
  by (cases z) simp_all

lemma tells_case_bool:
  "tells k f m \<Longrightarrow> tells k f n \<Longrightarrow> tells k f (case b of True \<Rightarrow> m | False \<Rightarrow> n)"
  by (cases b) simp_all

lemma tells_case_option:
  "tells k f m \<Longrightarrow> (\<And>x. tells k f (n x)) \<Longrightarrow> tells k f (case z of None \<Rightarrow> m | Some x \<Rightarrow> n x)"
  by (cases z) simp_all

lemma tells_keeps: "keeps f m \<Longrightarrow> (\<And>w x w'. m w = (Inr x, w') \<Longrightarrow> x_dispatched x \<longleftrightarrow> k = 1) \<Longrightarrow> k \<le> 1 \<Longrightarrow> tells k f m"
  unfolding tells_def
proof (intro allI impI)
  fix w x w' assume "keeps f m" and flag: "\<And>w x w'. m w = (Inr x, w') \<Longrightarrow> x_dispatched x \<longleftrightarrow> k = 1"
    and k: "k \<le> 1" and run: "m w = (Inr x, w')"
  then have "f w' = f w" by (blast dest: keepsD)
  moreover have "k = (if x_dispatched x then 1 else 0)" using flag [OF run] k by simp
  ultimately show "f w' + k = f w + (if x_dispatched x then 1 else 0)" by simp
qed

lemmas tells_rules = tells_bind tells_if tells_case_sum tells_case_bool tells_case_option

lemma existing_flag [simp]: "x_dispatched (existing r b) = b"
  by (simp add: existing_def)

lemma blocked_flag [simp]: "x_dispatched (blocked d s) = False" "x_dispatched invalid_identity = False"
  by (simp_all add: blocked_def invalid_identity_def)

text \<open>
  What the services promise: none of them runs the caller's \<open>dispatch\<close>, and neither do the
  caller's other two callbacks; \<open>dispatch\<close> itself counts once, whatever it returns.
\<close>

locale quiet_services =
  fixes P :: "'w action_ports" and cb :: "'w action_callbacks" and f :: "'w \<Rightarrow> nat"
  assumes prepare: "keeps f (p_prepare P i m)"
    and claim: "keeps f (p_claim P r u recover)"
    and settle: "keeps f (p_settle P r c)"
    and validate: "keeps f (p_validate P r)"
    and synced: "keeps f (p_synced P r)"
    and cancelled: "keeps f (p_cancel P r)"
    and repair: "p_repair P = Some e \<Longrightarrow> keeps f (e r c)"
    and notify: "f (p_notify P s w) = f w"
    and uuid: "keeps f (p_uuid P)"
    and sync: "cb_sync cb = Some g \<Longrightarrow> keeps f (g v)"
    and authorize: "cb_authorize cb = Some h \<Longrightarrow> keeps f h"
    and counted: "f (snd (cb_dispatch cb q m w)) = f w + 1"
begin

lemma quiet_authorized [keeps_intro]: "keeps f (authorized cb)"
  unfolding authorized_def by (cases "cb_authorize cb") (auto intro!: keeps_intro dest: authorize)

lemma counted_dispatch: "f (snd (dispatch P q cb m w)) = f w + 1"
  using counted [of q m w]
  by (auto simp: dispatch_def act_catch_def act_bind_def split: prod.splits sum.splits)

lemma quiet_settle_tries [keeps_intro]: "keeps f (settle_tries P n r c)"
  by (induction n) (simp_all only: settle_tries.simps, intro keeps_intro, intro keeps_intro settle)

lemma quiet_repair [keeps_intro]:
  "keeps f (act_catch (case p_repair P of Some e \<Rightarrow> e r c | None \<Rightarrow> act_ret ()) (\<lambda>_. act_ret ()))"
  by (cases "p_repair P") (auto intro!: keeps_intro dest: repair)

lemma quiet_notify [keeps_intro]: "keeps f (\<lambda>w. (x, p_notify P s w))"
  by (simp add: keeps_def notify)

lemma quiet_save [keeps_intro]: "keeps f (save P r c)"
  unfolding save_def
  by (intro keeps_bind keeps_case_option keeps_if keeps_ret quiet_settle_tries quiet_repair quiet_notify)

lemma quiet_cb_sync [keeps_intro]:
  "keeps f (case cb_sync cb of Some g \<Rightarrow> g v | None \<Rightarrow> act_ret ())"
  by (cases "cb_sync cb") (auto intro!: keeps_intro dest: sync)

lemma quiet_synchronize [keeps_intro]: "keeps f (synchronize P r cb b)"
  unfolding synchronize_def by (intro keeps_intro synced)

lemma tells_synchronize: "tells (if b then 1 else 0) f (synchronize P r cb b)"
proof (rule tells_keeps [OF quiet_synchronize])
  fix w x w' assume "synchronize P r cb b w = (Inr x, w')"
  then have "x_dispatched x = b"
    by (auto simp: synchronize_def act_catch_def act_bind_def split: if_splits prod.splits sum.splits)
  then show "x_dispatched x \<longleftrightarrow> (if b then 1 else 0 :: nat) = 1" by simp
qed simp

lemma tells_untracked: "tells 0 f (untracked P cfg i cb)"
proof -
  have k: "keeps f (case cb_sync cb of
      Some g \<Rightarrow> if b then act_catch (act_bind (g v) (\<lambda>_. act_ret COMPLETE)) (\<lambda>_. act_ret PENDING) else act_ret COMPLETE
    | None \<Rightarrow> act_ret COMPLETE)" for b v
    by (cases "cb_sync cb") (auto intro!: keeps_intro dest: sync)
  have l: "keeps f (lift_sum (p_identify P i))"
    by (cases "p_identify P i") (auto simp: lift_sum_def intro: keeps_intro)
  show ?thesis
    unfolding untracked_def
    by (intro tells_rules tells_bind_run counted_dispatch quiet_authorized k l)
       (auto intro!: tells_ret)
qed

lemma quiet_try: "keeps f m \<Longrightarrow> keeps f (act_catch (act_bind m (\<lambda>x. act_ret (g x))) (\<lambda>e. act_ret (h e)))"
  by (intro keeps_intro)

lemma tells_run_claimed: "tells 0 f (run_claimed P cfg d enforce i cb r)"
proof -
  have 1: "tells (Suc 0) f (synchronize P s cb True)" for s
    using tells_synchronize [of True] by simp
  show ?thesis
    unfolding run_claimed_def Let_def
    by (intro tells_rules tells_bind_run counted_dispatch quiet_authorized quiet_save quiet_try validate
        tells_untracked 1 tells_ret) (auto intro!: tells_rules tells_ret 1 quiet_save)
qed

lemma tells_claim_and_run: "tells 0 f (claim_and_run P cfg d enforce i cb r)"
proof -
  have c: "keeps f (act_catch (p_cancel P r) (\<lambda>_. act_ret False))"
    by (intro keeps_intro cancelled)
  show ?thesis
    unfolding claim_and_run_def
    by (intro tells_rules quiet_authorized quiet_try claim keeps_of_io uuid c
        tells_untracked tells_run_claimed tells_ret) auto
qed

lemma tells_with_record: "tells 0 f (with_record P cfg d m i cb rec)"
proof -
  have 0: "tells 0 f (synchronize P r cb False)" for r
    using tells_synchronize [of False] by simp
  show ?thesis
    unfolding with_record_def Let_def
    by (intro tells_rules tells_untracked tells_claim_and_run 0 tells_ret) auto
qed

lemma tells_execute: "tells 0 f (execute P cfg persisted i cb)"
  unfolding tells_def
proof (intro allI impI)
  fix w x w' assume run: "execute P cfg persisted i cb w = (Inr x, w')"
  let ?m = "if persisted then EXECUTE else ec_mode cfg"
  obtain y w1 where p: "p_prepare P i ?m w = (y, w1)" by fastforce
  have f1: "f w1 = f w" using keepsD [OF prepare p] .
  consider "w' = w" "\<not> x_dispatched x" | "w' = w1" "\<not> x_dispatched x"
    | "untracked P cfg i cb w1 = (Inr x, w')"
    | d rec where "with_record P cfg d ?m i cb rec w1 = (Inr x, w')"
    using run p by (auto simp: execute_def Let_def split: sum.splits option.splits if_splits prod.splits)
  then show "f w' + 0 = f w + (if x_dispatched x then 1 else 0)"
  proof cases
    case 3
    then show ?thesis using tells_untracked f1 unfolding tells_def by metis
  next
    case 4
    then show ?thesis using tells_with_record f1 unfolding tells_def by metis
  qed (simp_all add: f1)
qed

end

section \<open>Dispatch only under a held claim\<close>

text \<open>
  In execute mode the caller's \<open>dispatch\<close> is reached through a claim, a second authorisation
  and a validation only.  \<open>I\<close> is an invariant of the services and \<open>G\<close> what a confirmed
  validation establishes; then what \<open>dispatch\<close> would do in a world without \<open>G\<close> does not
  matter to \<open>execute\<close>.
\<close>

locale leased_services =
  fixes P :: "'w action_ports" and cb :: "'w action_callbacks" and I :: "'w \<Rightarrow> bool"
    and G :: "string \<Rightarrow> action_mode \<Rightarrow> 'w \<Rightarrow> bool"
  assumes prepare_inv: "I w \<Longrightarrow> p_prepare P i m w = (Inr (rec, x), w') \<Longrightarrow> I w'"
    and authorize_inv: "I w \<Longrightarrow> cb_authorize cb = Some h \<Longrightarrow> I (snd (h w))"
    and uuid_inv: "I w \<Longrightarrow> I (snd (p_uuid P w))"
    and held: "I w \<Longrightarrow> p_claim P r u False w = (Inr (Some c), w1) \<Longrightarrow> mode r = EXECUTE \<Longrightarrow>
      authorized cb w1 = (Inr True, w2) \<Longrightarrow> p_validate P c w2 = (Inr True, w3) \<Longrightarrow> G (requestId c) (mode c) w3"
begin

definition agree :: "'w action_callbacks \<Rightarrow> bool" where
  "agree cb' \<longleftrightarrow> cb_sync cb' = cb_sync cb \<and> cb_authorize cb' = cb_authorize cb \<and>
     (\<forall>q m w. G q m w \<longrightarrow> cb_dispatch cb' q m w = cb_dispatch cb q m w)"

lemma authorized_inv: "I w \<Longrightarrow> authorized cb w = (x, w') \<Longrightarrow> I w'"
  using authorize_inv
  by (cases "cb_authorize cb")
     (fastforce simp: authorized_def act_catch_def split: prod.splits sum.splits)+

lemma agree_authorized: "agree cb' \<Longrightarrow> authorized cb' = authorized cb"
  by (simp add: agree_def authorized_def)

lemma agree_synchronize: "agree cb' \<Longrightarrow> synchronize P r cb' b = synchronize P r cb b"
  by (simp add: agree_def synchronize_def)

lemma agree_dispatch: "agree cb' \<Longrightarrow> G q m w \<Longrightarrow> dispatch P q cb' m w = dispatch P q cb m w"
  by (simp add: agree_def dispatch_def act_catch_def act_bind_def)

lemma agree_run_claimed:
  assumes a: "agree cb'" and "I w" and "p_claim P r u False w = (Inr (Some c), w1)" and "mode r = EXECUTE"
  shows "run_claimed P cfg d True i cb' c w1 = run_claimed P cfg d True i cb c w1"
proof -
  obtain b w2 where ok: "authorized cb w1 = (b, w2)" by fastforce
  obtain v w3 where v: "p_validate P c w2 = (v, w3)" by fastforce
  show ?thesis
  proof (cases "b = Inr True \<and> v = Inr True")
    case True
    then have "G (requestId c) (mode c) w3" using held assms(2-4) ok v by blast
    then show ?thesis using ok v True
      unfolding run_claimed_def agree_authorized [OF a] agree_synchronize [OF a]
      by (simp add: act_bind_def act_catch_def agree_dispatch [OF a])
  next
    case False
    then show ?thesis using ok v
      by (cases b; cases v)
         (auto simp: run_claimed_def act_bind_def act_catch_def agree_authorized [OF a] split: bool.splits)
  qed
qed

lemma agree_claim_and_run:
  assumes a: "agree cb'" and "I w" and "mode r = EXECUTE"
  shows "claim_and_run P cfg d True i cb' r w = claim_and_run P cfg d True i cb r w"
proof -
  obtain b w1 where ok: "authorized cb w = (b, w1)" by fastforce
  obtain u w2 where u: "p_uuid P w1 = (u, w2)" by fastforce
  have "I w2" using authorized_inv [OF assms(2) ok] uuid_inv [of w1] u by simp
  obtain v w3 where v: "p_claim P r u False w2 = (v, w3)" by fastforce
  have "run_claimed P cfg d True i cb' c w3 = run_claimed P cfg d True i cb c w3" if "v = Inr (Some c)" for c
    using agree_run_claimed [OF a \<open>I w2\<close> _ assms(3)] v that by blast
  then show ?thesis using ok u v
    by (cases b; cases v)
       (auto simp: claim_and_run_def act_bind_def act_catch_def act_of_io_def agree_authorized [OF a]
          split: option.splits)
qed

lemma agree_with_record:
  assumes a: "agree cb'" and "I w"
  shows "with_record P cfg d EXECUTE i cb' rec w = with_record P cfg d EXECUTE i cb rec w"
  using agree_claim_and_run [OF assms]
  by (cases rec) (simp_all add: with_record_def Let_def agree_synchronize [OF a])

lemma agree_execute:
  assumes a: "agree cb'" and "I w" and "persisted \<or> ec_mode cfg = EXECUTE"
  shows "execute P cfg persisted i cb' w = execute P cfg persisted i cb w"
proof -
  have m: "(if persisted then EXECUTE else ec_mode cfg) = EXECUTE" using assms(3) by auto
  obtain y w1 where p: "p_prepare P i EXECUTE w = (y, w1)" by fastforce
  have "with_record P cfg d EXECUTE i cb' rec w1 = with_record P cfg d EXECUTE i cb rec w1"
    if "y = Inr (rec, x)" for d rec x
    using agree_with_record [OF a prepare_inv [OF assms(2)]] p that by blast
  then show ?thesis
    using p by (simp add: execute_def Let_def m split: sum.split option.split prod.split)
qed

end

end
