(* ===== verification/ExecutorWorld.thy ===== *)
theory ExecutorWorld
  imports ActionExecutor
begin

text \<open>
  The executor on the journal: the ports of \<open>ActionExecutor\<close> filled with the operations of
  \<open>ActionStore\<close>, and what \<open>execute\<close> guarantees there, whatever the environment does around
  each request (other processes' transitions, delays, lost requests and answers).

  \<open>randomUUID\<close> is the next of a stream of names of this process.  The repair queue is a list; its
  enqueue may fail (\<open>queue_up\<close>).  The rest of the caller's world is \<open>outside\<close>, which
  only its callbacks change.
\<close>

section \<open>The world of the executor\<close>

record 'e app_world = store_world +
  serial :: nat
  queue_up :: bool
  repairs :: "(action_record \<times> action_completion) list"
  alerts :: "string list"
  dispatches :: "(string \<times> action_mode) list"
  outside :: 'e

definition fresh_uuid :: "string \<Rightarrow> ('e app_world, string) io" where
  "fresh_uuid process w = (process @ ''-'' @ show_nat (serial w), w\<lparr>serial := serial w + 1\<rparr>)"

definition enqueue_repair :: "action_record \<Rightarrow> action_completion \<Rightarrow> ('e app_world, unit) act" where
  "enqueue_repair r c w =
     (if queue_up w then (Inr (), w\<lparr>repairs := repairs w @ [(r, c)]\<rparr>)
      else (Inl ''Local repair enqueue unconfirmed'', w))"

definition notify_alert :: "string \<Rightarrow> 'e app_world \<Rightarrow> 'e app_world" where
  "notify_alert k w = w\<lparr>alerts := alerts w @ [k]\<rparr>"

text \<open>The injected services; \<open>process\<close> names the process, \<open>describe\<close> is \<open>describeHttpFailure\<close>.\<close>

definition store_ports :: "crypto \<Rightarrow> string \<Rightarrow> (exn \<Rightarrow> string) \<Rightarrow> 'e app_world action_ports" where
  "store_ports k process describe = \<lparr>p_now = clock, p_identify = identifyAction (sha256 k) (locale_le k),
     p_prepare = prepare k, p_claim = claim, p_settle = settle k, p_validate = validateClaim,
     p_synced = markSynced, p_cancel = cancel, p_repair = Some enqueue_repair, p_notify = notify_alert,
     p_uuid = fresh_uuid process, p_describe = describe\<rparr>"

text \<open>A caller's callbacks work on its own part of the world; each run of \<open>dispatch\<close> is logged.\<close>

definition outside_act :: "('e, 'a) act \<Rightarrow> ('e app_world, 'a) act" where
  "outside_act m w = (case m (outside w) of (v, e) \<Rightarrow> (v, w\<lparr>outside := e\<rparr>))"

record 'e caller =
  on_dispatch :: "string \<Rightarrow> action_mode \<Rightarrow> ('e, action_completion) act"
  on_sync :: "(jval option \<Rightarrow> ('e, unit) act) option"
  on_authorize :: "('e, bool) act option"

definition callbacks :: "'e caller \<Rightarrow> 'e app_world action_callbacks" where
  "callbacks c = \<lparr>cb_dispatch = (\<lambda>q m w. outside_act (on_dispatch c q m) (w\<lparr>dispatches := dispatches w @ [(q, m)]\<rparr>)),
     cb_sync = map_option (\<lambda>f v. outside_act (f v)) (on_sync c),
     cb_authorize = map_option outside_act (on_authorize c)\<rparr>"

definition runs :: "'e app_world \<Rightarrow> nat" where
  "runs w = length (dispatches w)"

section \<open>The store does not run callbacks\<close>

text \<open>A view of the world that the breaker, the clock and the journal do not show.\<close>

definition app_view :: "('e app_world \<Rightarrow> 'v) \<Rightarrow> bool" where
  "app_view f \<longleftrightarrow> (\<forall>w c t j e. f (w\<lparr>circuits := c\<rparr>) = f w \<and> f (w\<lparr>clock := t\<rparr>) = f w
     \<and> f (w\<lparr>journal_of := j\<rparr>) = f w \<and> f (w\<lparr>env := e\<rparr>) = f w)"

lemma app_view_runs: "app_view runs"
  by (simp add: app_view_def runs_def)

lemma app_view_D:
  assumes "app_view f"
  shows "f (w\<lparr>circuits := c\<rparr>) = f w" "f (w\<lparr>clock := t\<rparr>) = f w"
    "f (w\<lparr>journal_of := j\<rparr>) = f w" "f (w\<lparr>env := e\<rparr>) = f w"
  using assms by (simp_all add: app_view_def)

lemma keeps_remote: "app_view f \<Longrightarrow> keeps f (remote g)"
  unfolding keeps_def remote_def arrive_def Let_def
  by (auto simp: app_view_D split: prod.splits fault.splits sum.splits)

lemma view_recordCircuitSuccess: "app_view f \<Longrightarrow> f (recordCircuitSuccess own op w) = f w"
  by (simp add: recordCircuitSuccess_def app_view_D)

lemma view_noteOutcome: "app_view f \<Longrightarrow> f (noteOutcome own op e w) = f w"
  by (simp add: noteOutcome_def Let_def app_view_D)

lemma view_circuitBlocked: "app_view f \<Longrightarrow> circuitBlocked own op w = (b, w') \<Longrightarrow> f w' = f w"
  by (auto simp: circuitBlocked_def Let_def app_view_D split: prod.splits bool.splits)

lemma keeps_guarded: "app_view f \<Longrightarrow> keeps f (guarded op u (remote g))"
proof (rule keepsI)
  fix w :: "'a app_world"
  assume av: "app_view f"
  obtain b w1 where b: "circuitBlocked own_table op w = (b, w1)" by fastforce
  obtain r w2 where r: "with_client (remote g) w1 = (r, w2)" by fastforce
  have "f w2 = f w1"
    using r keepsD [OF keeps_remote [OF av]] by (auto simp: with_client_def split: if_splits)
  with view_circuitBlocked [OF av b] show "f (snd (guarded op u (remote g) w)) = f w"
    using b r by (cases b; cases r) (simp_all add: guarded_def view_recordCircuitSuccess [OF av] view_noteOutcome [OF av])
qed

lemma keeps_transition_call: "app_view f \<Longrightarrow> keeps f (transition_call op c a)"
  unfolding transition_call_def by (intro keeps_intro keeps_guarded)

lemma keeps_lift_sum [keeps_intro]: "keeps f (lift_sum r)"
  by (cases r) (simp_all add: lift_sum_def keeps_intro)

lemma keeps_observe [keeps_intro]: "keeps f (\<lambda>w. (g w, w))"
  by (simp add: keeps_def)

lemma store_quiet:
  assumes "app_view f"
  shows "keeps f (prepare k i m)" "keeps f (claim r u b)" "keeps f (settle k r c)" "keeps f (validateClaim r)"
    "keeps f (markSynced r)" "keeps f (cancel r)" "keeps f (defer_op r t)"
  unfolding prepare_def claim_def settle_def validateClaim_def markSynced_def cancel_def defer_op_def
  by (intro keeps_intro keeps_transition_call assms)+

lemma keeps_runs:
  "keeps runs (outside_act m)" "keeps runs (fresh_uuid process)" "keeps runs (enqueue_repair r d)"
  "runs (notify_alert x w) = runs w"
  by (simp_all add: keeps_def outside_act_def runs_def fresh_uuid_def enqueue_repair_def notify_alert_def
      split: prod.split)

lemma counted_run: "runs (snd (cb_dispatch (callbacks c) q m w)) = runs w + 1"
  using keeps_runs(1) [unfolded keeps_def, rule_format, of "on_dispatch c q m" "w\<lparr>dispatches := dispatches w @ [(q, m)]\<rparr>"]
  by (simp add: callbacks_def) (simp add: runs_def)

interpretation counted: quiet_services "store_ports k process describe" "callbacks c" runs
  for k :: crypto and process :: string and describe :: "exn \<Rightarrow> string" and c :: "'e caller"
  by unfold_locales
     (auto simp: store_ports_def store_quiet [OF app_view_runs] keeps_runs counted_run, auto simp: callbacks_def keeps_runs)

section \<open>Invariants of the store\<close>

text \<open>
  What holds of the store between any two calls: the journal invariant, every row is filed
  under the corporation of its intent, and so it will be by what other processes still commit.
\<close>

definition genuine :: "journal_op \<times> string \<times> string \<Rightarrow> bool" where
  "genuine x = (case x of (Prepare p, c, a) \<Rightarrow> corpId (pi_intent p) = c | _ \<Rightarrow> True)"

definition filed :: "journal \<Rightarrow> bool" where
  "filed j \<longleftrightarrow> (\<forall>r\<in>set (rows j). r_corp r = corpId (intent r))"

lemma row_updates_corp:
  "corpId (intent (claim_row now u r)) = corpId (intent r)" "r_corp (claim_row now u r) = r_corp r"
  "corpId (intent (cancel_row now r)) = corpId (intent r)" "r_corp (cancel_row now r) = r_corp r"
  "corpId (intent (reconcile_row now u r)) = corpId (intent r)" "r_corp (reconcile_row now u r) = r_corp r"
  "corpId (intent (settle_row now cpl r)) = corpId (intent r)" "r_corp (settle_row now cpl r) = r_corp r"
  "corpId (intent (synced_row now o' r)) = corpId (intent r)" "r_corp (synced_row now o' r) = r_corp r"
  "corpId (intent (manual_row now o' r)) = corpId (intent r)" "r_corp (manual_row now o' r) = r_corp r"
  "corpId (intent (schedule_row now o' t r)) = corpId (intent r)" "r_corp (schedule_row now o' t r) = r_corp r"
  by (simp_all add: row_updates Let_def)

lemma filed_update:
  "filed j \<Longrightarrow> (\<And>r. r_corp (f r) = r_corp r) \<Longrightarrow> (\<And>r. corpId (intent (f r)) = corpId (intent r)) \<Longrightarrow>
   filed (update_row c a f j)"
  by (auto simp: filed_def)

lemma filed_evid: "filed (j\<lparr>evid := e\<rparr>) = filed j"
  by (simp add: filed_def)

lemma filed_settle: "filed j \<Longrightarrow> filed (snd (settle_op now c a o' cpl h r j))"
  by (auto simp: settle_op_def Let_def filed_evid intro!: filed_update row_updates_corp split: option.split)

lemma filed_prepare: "filed j \<Longrightarrow> corpId (pi_intent p) = c \<Longrightarrow> filed (snd (prepare_op now c a p j))"
  by (auto simp: prepare_op_def Let_def filed_def new_row_def split: option.split)

lemma filed_transition:
  assumes "filed j" and "genuine (op, c, a)"
  shows "filed (snd (transition now op c a j))"
proof (cases op)
  case (Prepare p)
  then show ?thesis using assms filed_prepare [OF assms(1)] by (simp add: transition_def genuine_def)
next
  case (Settle o' cpl h)
  then show ?thesis using assms(1) filed_settle [OF assms(1)] by (simp add: transition_def split: option.split)
qed (use assms(1) in \<open>simp_all add: transition_def filed_update row_updates_corp split: option.split\<close>)

definition sound_journal :: "journal \<Rightarrow> bool" where
  "sound_journal j \<longleftrightarrow> journal_ok j \<and> filed j"

lemma sound_transition: "sound_journal j \<Longrightarrow> genuine (op, c, a) \<Longrightarrow> sound_journal (snd (transition now op c a j))"
  using journal_step_ok [OF js_transition] filed_transition by (simp add: sound_journal_def)

lemma sound_foreign:
  "sound_journal j \<Longrightarrow> \<forall>x\<in>set xs. genuine x \<Longrightarrow> sound_journal (fold (foreign_step now) xs j)"
  by (induction xs arbitrary: j) (auto simp: foreign_step_def sound_transition split: prod.splits)

section \<open>The store keeps them\<close>

definition store_ok :: "'x store_world_scheme \<Rightarrow> bool" where
  "store_ok w \<longleftrightarrow> sound_journal (journal_of w) \<and> (\<forall>e\<in>set (env w). \<forall>x\<in>set (ev_foreign e). genuine x)"

lemma arrive_ok: "store_ok w \<Longrightarrow> store_ok (snd (arrive w))"
proof -
  assume ok: "store_ok w"
  have "\<forall>x\<in>set (ev_foreign (case env w of [] \<Rightarrow> calm | e # _ \<Rightarrow> e)). genuine x"
    using ok by (cases "env w") (simp_all add: store_ok_def calm_def)
  moreover have "set (tl (env w)) \<subseteq> set (env w)" by (cases "env w") auto
  ultimately show ?thesis using ok sound_foreign by (auto simp: arrive_def Let_def store_ok_def)
qed

text \<open>\<open>sound_call g\<close>: the database function \<open>g\<close> keeps a sound journal sound.\<close>

definition sound_call :: "(int \<Rightarrow> journal \<Rightarrow> 'a \<times> journal) \<Rightarrow> bool" where
  "sound_call g \<longleftrightarrow> (\<forall>now j. sound_journal j \<longrightarrow> sound_journal (snd (g now j)))"

lemma remote_ok:
  assumes g: "sound_call g" and ok: "store_ok w"
  shows "store_ok (snd (remote g w))"
proof -
  obtain ft w1 where a: "arrive w = (ft, w1)" by fastforce
  have ok1: "store_ok w1" using arrive_ok [OF ok] a by simp
  then have "sound_journal (snd (g (clock w1) (journal_of w1)))"
    using g by (simp add: sound_call_def store_ok_def)
  then show ?thesis
    using a ok1 by (cases ft; cases "g (clock w1) (journal_of w1)"; cases "fst (g (clock w1) (journal_of w1))")
      (auto simp: remote_def store_ok_def)
qed

lemma store_ok_circuits [simp]:
  "store_ok (recordCircuitSuccess own op w) = store_ok w" "store_ok (noteOutcome own op e w) = store_ok w"
  by (simp_all add: store_ok_def recordCircuitSuccess_def noteOutcome_def Let_def)

lemma blocked_ok: "circuitBlocked own op w = (b, w') \<Longrightarrow> store_ok w' = store_ok w"
  by (auto simp: store_ok_def circuitBlocked_def Let_def split: prod.splits bool.splits)

lemma guarded_ok:
  assumes g: "sound_call g" and ok: "store_ok w"
  shows "store_ok (snd (guarded op u (remote g) w))"
proof -
  obtain b w1 where b: "circuitBlocked own_table op w = (b, w1)" by fastforce
  have ok1: "store_ok w1" using blocked_ok [OF b] ok by simp
  obtain r w2 where r: "with_client (remote g) w1 = (r, w2)" by fastforce
  have "store_ok w2" using r remote_ok [OF g ok1] ok1 by (auto simp: with_client_def split: if_splits)
  then show ?thesis using b r ok1 by (cases b; cases r) (simp_all add: guarded_def)
qed

lemma transition_call_ok:
  "genuine (op, c, a) \<Longrightarrow> store_ok w \<Longrightarrow> store_ok (snd (transition_call op c a w))"
  unfolding transition_call_def act_bind_def
  using guarded_ok [of "\<lambda>now. transition now op c a" w "''action_transition''" "''Action store unavailable''"]
  by (auto simp: sound_call_def sound_transition split: prod.splits sum.splits)

section \<open>What the journal remembers\<close>

text \<open>\<open>follows j j'\<close>: every row of \<open>j\<close> is still in \<open>j'\<close> with its identifying columns.\<close>

definition follows :: "journal \<Rightarrow> journal \<Rightarrow> bool" where
  "follows j j' \<longleftrightarrow> frozen ` set (rows j) \<subseteq> frozen ` set (rows j')"

lemma follows_refl [simp]: "follows j j"
  by (simp add: follows_def)

lemma follows_trans: "follows j1 j2 \<Longrightarrow> follows j2 j3 \<Longrightarrow> follows j1 j3"
  by (auto simp: follows_def)

lemma follows_map:
  "rows j' = map g (rows j) \<Longrightarrow> (\<And>r. r \<in> set (rows j) \<Longrightarrow> frozen (g r) = frozen r) \<Longrightarrow> follows j j'"
  unfolding follows_def by (auto simp: image_iff)

lemma frozen_redact: "frozen (redact_row r) = frozen r"
  by (simp add: frozen_def redact_row_def)

lemma table_step_follows:
  assumes "table_step now j j'" shows "follows j j'"
  using assms
proof (cases rule: table_step.cases)
  case (ts_update c a f)
  then show ?thesis by (intro follows_map [OF ts_update(1)]) (auto dest: row_step_frozen)
next
  case (ts_redact hit)
  then show ?thesis by (intro follows_map [OF ts_redact(1)]) (simp add: frozen_redact)
qed (auto simp: follows_def)

lemma transition_follows: "sound_journal j \<Longrightarrow> follows j (snd (transition now op c a j))"
  by (rule table_step_follows, rule transition_step) (simp add: sound_journal_def journal_ok_def)

lemma foreign_follows:
  "sound_journal j \<Longrightarrow> \<forall>x\<in>set xs. genuine x \<Longrightarrow> follows j (fold (foreign_step now) xs j)"
proof (induction xs arbitrary: j)
  case (Cons x xs)
  obtain op c a where x: "x = (op, c, a)" by (cases x)
  let ?j = "snd (transition now op c a j)"
  have "sound_journal ?j" using Cons.prems x sound_transition by simp
  then have "follows ?j (fold (foreign_step now) xs ?j)" using Cons by simp
  moreover have "foreign_step now x j = ?j" by (simp add: foreign_step_def x)
  ultimately show ?case using follows_trans [OF transition_follows [OF Cons.prems(1)]] by simp
qed simp

lemma arrive_follows: "store_ok w \<Longrightarrow> arrive w = (ft, w') \<Longrightarrow> follows (journal_of w) (journal_of w')"
proof -
  assume ok: "store_ok w" and a: "arrive w = (ft, w')"
  have "\<forall>x\<in>set (ev_foreign (case env w of [] \<Rightarrow> calm | e # _ \<Rightarrow> e)). genuine x"
    using ok by (cases "env w") (simp_all add: store_ok_def calm_def)
  then show ?thesis using ok a foreign_follows by (auto simp: arrive_def Let_def store_ok_def)
qed

text \<open>An answered transition: the function ran on a journal that followed, at the time of the answer.\<close>

lemma guarded_Inr:
  assumes "store_ok w" and "guarded op u (remote g) w = (Inr v, w')"
  obtains j where "follows (journal_of w) j" and "sound_journal j" and "g (clock w') j = (Inr v, journal_of w')"
proof -
  obtain b w1 where b: "circuitBlocked own_table op w = (b, w1)" by fastforce
  have ok1: "store_ok w1" using blocked_ok [OF b] assms(1) by simp
  have j1: "journal_of w1 = journal_of w"
    using b by (auto simp: circuitBlocked_def Let_def split: prod.splits bool.splits)
  obtain w2 where w2: "remote g w1 = (Data v, w2)" "w' = recordCircuitSuccess own_table op w2"
    using assms(2) b by (auto simp: guarded_def with_client_def split: bool.splits prod.splits reply.splits if_splits)
  obtain ft w0 where a: "arrive w1 = (ft, w0)" by fastforce
  have "g (clock w0) (journal_of w0) = (Inr v, journal_of w2)" "clock w2 = clock w0"
    using w2(1) a by (auto simp: remote_def split: fault.splits prod.splits sum.splits)
  moreover have "journal_of w' = journal_of w2" "clock w' = clock w2"
    by (simp_all add: w2(2) recordCircuitSuccess_def)
  moreover have "sound_journal (journal_of w0)" using arrive_ok [OF ok1] a by (simp add: store_ok_def)
  moreover have "follows (journal_of w) (journal_of w0)" using arrive_follows [OF ok1 a] j1 by simp
  ultimately show ?thesis using that by simp
qed

lemma transition_call_Inr:
  assumes "store_ok w" and "transition_call op c a w = (Inr (rec, x), w')"
  obtains j row where "follows (journal_of w) j" and "sound_journal j"
    and "transition (clock w') op c a j = (Inr (row, x), journal_of w')" and "rec = map_option fromDb row"
proof -
  obtain row where "guarded ''action_transition'' ''Action store unavailable'' (remote (\<lambda>now. transition now op c a)) w
      = (Inr (row, x), w')" and r: "rec = map_option fromDb row"
    using assms(2) by (auto simp: transition_call_def act_bind_def split: prod.splits sum.splits)
  from guarded_Inr [OF assms(1) this(1)] r that show ?thesis by metis
qed

text \<open>The row a transition returns is in the journal it leaves, under the key asked for.\<close>

lemma update_row_mem:
  "find_row c a j = Some r \<Longrightarrow> f r \<in> set (rows (update_row c a f j))"
  by (auto dest!: find_row_Some simp: image_iff)

lemma claim_result:
  assumes "transition now (Claim u) c a j = (Inr (Some row, x), j')"
  shows "row \<in> set (rows j')" and "r_corp row = c" and "actionId row = a"
proof -
  obtain r where r: "find_row c a j = Some r"
    using assms by (auto simp: transition_def split: if_splits option.splits)
  then consider "row = r" "j' = j" | "row = claim_row now u r" "j' = update_row c a (claim_row now u) j"
    using assms by (auto simp: transition_def split: if_splits option.splits)
  then have "row \<in> set (rows j') \<and> r_corp row = c \<and> actionId row = a"
  proof cases
    case 1
    then show ?thesis using find_row_Some [OF r] find_row_key [OF r] by simp
  next
    case 2
    then show ?thesis using update_row_mem [OF r, of "claim_row now u"] find_row_key [OF r]
      by (simp add: row_updates_corp) (simp add: claim_row_def)
  qed
  then show "row \<in> set (rows j')" "r_corp row = c" "actionId row = a" by simp_all
qed

lemma validate_result:
  assumes "transition now (ValidateClaim o') c a j = (Inr (Some row, x), j')"
  shows "row \<in> set (rows j')" and "r_corp row = c" and "actionId row = a" and "status row = EXECUTING"
    and "now < recoveryDeadline row" and "j' = j"
proof -
  obtain r where r: "find_row c a j = Some r"
    using assms by (auto simp: transition_def split: if_splits option.splits)
  then have "\<not> claim_invalid now o' r" "row = r" "j' = j"
    using assms by (auto simp: transition_def split: if_splits)
  then show "row \<in> set (rows j')" "r_corp row = c" "actionId row = a" "status row = EXECUTING"
    "now < recoveryDeadline row" "j' = j"
    using find_row_Some [OF r] find_row_key [OF r] by (simp_all add: claim_invalid_def not_le)
qed

section \<open>The claim is held at dispatch\<close>

text \<open>
  The journal shows the row of the request \<open>q\<close> as executing under an owner, before its
  deadline, and, for an execute row, no other action of the resource is unsettled.
\<close>

definition dispatch_allowed :: "string \<Rightarrow> action_mode \<Rightarrow> 'x store_world_scheme \<Rightarrow> bool" where
  "dispatch_allowed q m w \<longleftrightarrow> (\<exists>r\<in>set (rows (journal_of w)). requestId r = q \<and> mode r = m \<and>
     status r = EXECUTING \<and> owner r \<noteq> None \<and> clock w < recoveryDeadline r \<and>
     (m = EXECUTE \<longrightarrow> resource_free r (journal_of w)))"

lemma fromDb_simps [simp]:
  "actionId (fromDb r) = actionId r" "intent (fromDb r) = intent r" "requestId (fromDb r) = requestId r"
  "mode (fromDb r) = mode r" "status (fromDb r) = status r" "owner (fromDb r) = owner r"
  "fence (fromDb r) = fence r" "localSync (fromDb r) = localSync r" "result (fromDb r) = result r"
  "evidence (fromDb r) = evidence r" "nextCheckAt (fromDb r) = nextCheckAt r" "retryable (fromDb r) = retryable r"
  "dispatchAttemptId (fromDb r) = dispatchAttemptId r" "attempts (fromDb r) = attempts r"
  "recoveryDeadline (fromDb r) = recoveryDeadline r"
  by (simp_all add: fromDb_def action_record.truncate_def)

lemma distinct_keys_D:
  "distinct_keys j \<Longrightarrow> r \<in> set (rows j) \<Longrightarrow> q \<in> set (rows j) \<Longrightarrow> r_corp r = r_corp q \<Longrightarrow>
   actionId r = actionId q \<Longrightarrow> r = q"
  unfolding distinct_keys_def distinct_map by (metis inj_onD row_key_def)

lemma sound_keys: "sound_journal j \<Longrightarrow> distinct_keys j"
  by (simp add: sound_journal_def journal_ok_def)

lemma row_identified:
  assumes "follows j j'" and "sound_journal j'" and "q \<in> set (rows j)" and "r \<in> set (rows j')"
    and "r_corp q = r_corp r" and "actionId q = actionId r"
  shows "requestId r = requestId q" and "mode r = mode q"
proof -
  have "frozen q \<in> frozen ` set (rows j')" using assms(1,3) unfolding follows_def by blast
  then obtain r' where r': "r' \<in> set (rows j')" "frozen r' = frozen q" by (metis imageE)
  then have "r' = r"
    using assms by (intro distinct_keys_D [OF sound_keys [OF assms(2)]]) (auto simp: frozen_def)
  then show "requestId r = requestId q" "mode r = mode q" using r'(2) by (simp_all add: frozen_def)
qed

lemma executing_free:
  assumes "sound_journal j" and "r \<in> set (rows j)" and "status r = EXECUTING" and "mode r = EXECUTE"
  shows "resource_free r j"
proof -
  have one: "one_obligation j" using assms(1) by (simp add: sound_journal_def journal_ok_def)
  have "open_obligation r" using assms(3,4) by (simp add: open_obligation_def in_flight_def)
  then show ?thesis
    unfolding resource_free_def using one assms(2) unfolding one_obligation_def by blast
qed

lemma transition_call_store_ok:
  "genuine (op, c, a) \<Longrightarrow> store_ok w \<Longrightarrow> transition_call op c a w = (v, w') \<Longrightarrow> store_ok w'"
  using transition_call_ok [of op c a w] by simp

lemma claim_Some:
  assumes "store_ok w" and "claim r u False w = (Inr (Some c), w')"
  obtains row where "c = fromDb row" and "row \<in> set (rows (journal_of w'))" and "store_ok w'"
    and "r_corp row = corpId (intent c)"
proof -
  obtain x where t: "transition_call (Claim u) (corpId (intent r)) (actionId r) w = (Inr (Some c, x), w')"
    using assms(2) by (auto simp: claim_def act_bind_def split: prod.splits sum.splits if_splits)
  have ok: "store_ok w'" using transition_call_store_ok [OF _ assms(1) t] by (simp add: genuine_def)
  obtain j row where j: "transition (clock w') (Claim u) (corpId (intent r)) (actionId r) j
      = (Inr (row, x), journal_of w')" "Some c = map_option fromDb row"
    using transition_call_Inr [OF assms(1) t] by metis
  then obtain row' where row': "row = Some row'" "c = fromDb row'" by (cases row) simp_all
  note cr = claim_result [OF j(1) [unfolded row'(1)]]
  have "r_corp row' = corpId (intent c)"
    using ok cr(1) by (simp add: store_ok_def sound_journal_def filed_def row'(2))
  with that row'(2) cr(1) ok show ?thesis by blast
qed

lemma validate_True:
  assumes "store_ok w" and "validateClaim c w = (Inr True, w')"
  obtains row where "follows (journal_of w) (journal_of w')" and "store_ok w'"
    and "row \<in> set (rows (journal_of w'))" and "r_corp row = corpId (intent c)" and "actionId row = actionId c"
    and "status row = EXECUTING" and "clock w' < recoveryDeadline row"
proof -
  obtain rec x where t: "transition_call (ValidateClaim (ownership_of c)) (corpId (intent c)) (actionId c) w
      = (Inr (Some rec, x), w')"
    using assms(2) by (auto simp: validateClaim_def act_bind_def split: prod.splits sum.splits option.splits)
  have ok: "store_ok w'" using transition_call_store_ok [OF _ assms(1) t] by (simp add: genuine_def)
  obtain j row where j: "follows (journal_of w) j"
    "transition (clock w') (ValidateClaim (ownership_of c)) (corpId (intent c)) (actionId c) j
      = (Inr (row, x), journal_of w')" "Some rec = map_option fromDb row"
    using transition_call_Inr [OF assms(1) t] by metis
  then obtain row' where "row = Some row'" by (cases row) simp_all
  from validate_result [OF j(2) [unfolded this]] j(1) ok that show ?thesis by metis
qed

text \<open>Between claim and validation only the caller's own state changes.\<close>

lemma outside_act_store:
  "journal_of (snd (outside_act m w)) = journal_of w" "env (snd (outside_act m w)) = env w"
  by (simp_all add: outside_act_def split: prod.split)

lemma callbacks_authorized:
  "authorized (callbacks c) w = (v, w') \<Longrightarrow> journal_of w' = journal_of w \<and> env w' = env w"
proof (cases "on_authorize c")
  case (Some h)
  moreover obtain x w1 where "outside_act h w = (x, w1)" by fastforce
  ultimately show "authorized (callbacks c) w = (v, w') \<Longrightarrow> ?thesis"
    using outside_act_store [of h w]
    by (cases x) (auto simp: authorized_def callbacks_def act_catch_def)
qed (simp add: authorized_def callbacks_def act_catch_def)

lemma claim_held:
  assumes "store_ok w" and "claim r u False w = (Inr (Some c), w1)"
    and "authorized (callbacks k) w1 = (Inr True, w2)" and "validateClaim c w2 = (Inr True, w3)"
  shows "dispatch_allowed (requestId c) (mode c) w3"
proof -
  from claim_Some [OF assms(1,2)] obtain q where q: "c = fromDb q" "q \<in> set (rows (journal_of w1))"
    "store_ok w1" "r_corp q = corpId (intent c)" .
  have w2: "journal_of w2 = journal_of w1" "store_ok w2"
    using callbacks_authorized [OF assms(3)] q(3) by (simp_all add: store_ok_def)
  from validate_True [OF w2(2) assms(4)] obtain r where r: "follows (journal_of w2) (journal_of w3)" "store_ok w3"
    "r \<in> set (rows (journal_of w3))" "r_corp r = corpId (intent c)" "actionId r = actionId c"
    "status r = EXECUTING" "clock w3 < recoveryDeadline r" .
  have s3: "sound_journal (journal_of w3)" using r(2) by (simp add: store_ok_def)
  have "requestId r = requestId q" "mode r = mode q"
    using row_identified [OF r(1) s3 _ r(3)] q w2(1) r(4,5) by simp_all
  moreover have "owner r \<noteq> None"
    using s3 r(3,6) by (auto simp: sound_journal_def journal_ok_def row_ok_def)
  ultimately show ?thesis
    unfolding dispatch_allowed_def using r(3,6,7) q(1) executing_free [OF s3 r(3,6)] by auto
qed

lemma prepare_store_ok: "store_ok w \<Longrightarrow> store_ok (snd (prepare k i m w))"
proof -
  assume ok: "store_ok w"
  have "store_ok (snd (transition_call (Prepare p) (corpId i) a w))" if "pi_intent p = i" for p a
    using transition_call_ok [OF _ ok] that by (simp add: genuine_def)
  then show ?thesis
    using ok by (auto simp: prepare_def act_bind_def lift_sum_def split: sum.split option.split)
qed

interpretation leased: leased_services "store_ports k process describe" "callbacks c" store_ok dispatch_allowed
  for k :: crypto and process :: string and describe :: "exn \<Rightarrow> string" and c :: "'e caller"
proof unfold_locales
  fix w w' :: "'e app_world" and i m rec x
  assume "store_ok w" "p_prepare (store_ports k process describe) i m w = (Inr (rec, x), w')"
  then show "store_ok w'" using prepare_store_ok [of w k i m] by (simp add: store_ports_def)
next
  fix w :: "'e app_world" and h
  assume "store_ok w" "cb_authorize (callbacks c) = Some h"
  then show "store_ok (snd (h w))" by (auto simp: callbacks_def store_ok_def outside_act_store)
next
  fix w :: "'e app_world" assume "store_ok w"
  then show "store_ok (snd (p_uuid (store_ports k process describe) w))"
    by (simp add: store_ports_def fresh_uuid_def store_ok_def)
qed (simp add: store_ports_def claim_held)

section \<open>Properties\<close>

text \<open>C1: in execute mode the external call is made only while the journal shows its row executing,
  owned, before its deadline and alone unsettled on its resource.  Replace what the caller's
  \<open>dispatch\<close> does in every other situation by anything at all: no run of \<open>execute\<close> changes,
  whatever other processes commit around each request and whichever requests or answers are lost.\<close>

theorem execute_dispatches_only_when_allowed:
  assumes "store_ok w" and "persisted \<or> ec_mode cfg = EXECUTE"
    and "cb_sync cb' = cb_sync (callbacks c)" and "cb_authorize cb' = cb_authorize (callbacks c)"
    and "\<And>q m v. dispatch_allowed q m v \<Longrightarrow> cb_dispatch cb' q m v = cb_dispatch (callbacks c) q m v"
  shows "execute (store_ports k process describe) cfg persisted i cb' w =
         execute (store_ports k process describe) cfg persisted i (callbacks c) w"
  by (rule leased.agree_execute) (use assms in \<open>auto simp: leased.agree_def\<close>)

text \<open>The \<open>dispatched\<close> flag of the outcome is the truth: \<open>execute\<close> calls the caller's
  \<open>dispatch\<close> once if the flag is set and never otherwise, in every mode and on every path.\<close>

theorem execute_dispatched_flag:
  assumes "execute (store_ports k process describe) cfg persisted i (callbacks c) w = (Inr x, w')"
  shows "length (dispatches w') = length (dispatches w) + (if x_dispatched x then 1 else 0)"
  using counted.tells_execute [unfolded tells_def, rule_format, OF assms] by (simp add: runs_def)

text \<open>C12: \<open>execute\<close> never rejects: every failure of the store, the queue, the authorisation or the
  external call is turned into an outcome.\<close>

theorem execute_never_rejects:
  "never_rejects (execute (store_ports k process describe) cfg persisted i cb)"
  by (rule execute_total)

text \<open>C13: asked again for an action whose journal row is executing, unknown, cancelled or finally
  failed, or that succeeded and is synchronised, execute mode answers with what the journal holds,
  without calling anything.\<close>

theorem execute_replays_recorded_outcome:
  assumes "persisted \<or> ec_mode cfg = EXECUTE" and "p_identify P i = Inr d"
    and "refusal cfg EXECUTE (p_now P w) i = None" and "identityReliable i"
    and "p_prepare P i EXECUTE w = (Inr (Some r, None), w')" and "mode r = EXECUTE"
    and "\<not> (status r = REGISTERED \<or> (status r = FAILED \<and> retryable r))"
    and "status r = SUCCEEDED \<Longrightarrow> localSync r = COMPLETE"
  shows "execute P cfg persisted i cb w = (Inr (existing r False), w')"
proof -
  have m: "(if persisted then EXECUTE else ec_mode cfg) = EXECUTE" using assms(1) by auto
  have "with_record P cfg d EXECUTE i cb (Some r) w' = (Inr (existing r False), w')"
    using assms(4,6-8) by (cases "status r") (simp_all add: with_record_def Let_def synchronize_def)
  then show ?thesis using assms(2,3,5) by (simp add: execute_def Let_def m)
qed

text \<open>The executor and the journal apply one rule to a completion: what the executor passes on has
  the conclusive status, and settling it stores exactly that status.\<close>

theorem executor_and_journal_agree:
  "c_status (conclude c) = conclusive_state c \<and> status (settle_row now (conclude c) r) = conclusive_state c"
proof -
  have "conclude c = c\<lparr>c_status := conclusive_state c\<rparr>"
    by (auto simp: conclude_def conclusive_state_def proves_no_effect_def)
  then show ?thesis by (simp add: conclusive_state_idem)
qed

section \<open>Witnesses\<close>

definition demo_world :: "unit app_world" where
  "demo_world = \<lparr>circuits = Map.empty, clock = 1000, client_ready = True, journal_of = empty_journal, env = [],
     serial = 0, queue_up = True, repairs = [], alerts = [], dispatches = [], outside = ()\<rparr>"

definition demo_crypto :: crypto where
  "demo_crypto = \<lparr>sha256 = (\<lambda>s. s), locale_le = (\<lambda>_ _. True)\<rparr>"

definition demo_caller :: "unit caller" where
  "demo_caller = \<lparr>on_dispatch = (\<lambda>_ _. act_ret (demo_completion SUCCEEDED COMPLETED)), on_sync = None,
     on_authorize = Some (act_ret True)\<rparr>"

definition demo_ports :: "unit app_world action_ports" where
  "demo_ports = store_ports demo_crypto ''p'' (\<lambda>e. e)"

definition demo_config :: executor_config where
  "demo_config = \<lparr>ec_mode = EXECUTE, ec_cutoverAt = Some 0\<rparr>"

lemma demo_world_ok: "store_ok demo_world"
  by (simp add: store_ok_def demo_world_def sound_journal_def filed_def empty_journal_def journal_ok_def
      distinct_keys_def one_obligation_def)

definition demo_run :: "(exn + action_execution) \<times> unit app_world" where
  "demo_run = execute demo_ports demo_config False demo_intent (callbacks demo_caller) demo_world"

lemma demo_run_dispatches:
  "map (\<lambda>x. snd x) (dispatches (snd demo_run)) = [EXECUTE]"
  by code_simp

theorem execute_dispatches_only_when_allowed_witness:
  "execute demo_ports demo_config False demo_intent
     ((callbacks demo_caller)\<lparr>cb_dispatch := \<lambda>q m v. if dispatch_allowed q m v
        then cb_dispatch (callbacks demo_caller) q m v else (Inl ''not allowed'', v)\<rparr>) demo_world = demo_run"
  unfolding demo_run_def demo_ports_def
  by (rule execute_dispatches_only_when_allowed [OF demo_world_ok]) (simp_all add: demo_config_def)

theorem execute_dispatched_flag_witness: "x_dispatched (projr (fst demo_run))"
proof -
  obtain x w' where e: "execute (store_ports demo_crypto ''p'' (\<lambda>e. e)) demo_config False demo_intent
      (callbacks demo_caller) demo_world = (Inr x, w')"
    using execute_total by (rule never_rejectsE)
  have run: "demo_run = (Inr x, w')" unfolding demo_run_def demo_ports_def by (rule e)
  have "length (dispatches (snd demo_run)) = 1"
    by (rule trans [OF length_map [symmetric] trans [OF arg_cong [OF demo_run_dispatches, of length]]]) simp
  then have "length (dispatches w') = 1" unfolding run snd_conv .
  moreover have "length (dispatches demo_world) = 0" unfolding demo_world_def by simp
  moreover note execute_dispatched_flag [OF e]
  ultimately have "x_dispatched x" by presburger
  then show ?thesis unfolding run fst_conv sum.sel .
qed

definition demo_record :: action_record where
  "demo_record = fromDb ((new_row 0 ''corp'' ''a'' demo_input None 0)\<lparr>status := UNKNOWN\<rparr>)"

theorem execute_replays_recorded_outcome_witness:
  "execute (demo_ports\<lparr>p_prepare := \<lambda>_ _. act_ret (Some demo_record, None)\<rparr>) demo_config False demo_intent
     (callbacks demo_caller) demo_world = (Inr (existing demo_record False), demo_world)"
proof -
  have "\<not> isl (identifyAction (\<lambda>s. s) (\<lambda>_ _. True) demo_intent)" by code_simp
  then obtain d where i: "p_identify demo_ports demo_intent = Inr d"
    by (auto simp: demo_ports_def store_ports_def demo_crypto_def isl_def) (metis obj_sumE)
  have r: "mode demo_record = EXECUTE" "status demo_record = UNKNOWN"
    by (simp_all add: demo_record_def new_row_def demo_input_def)
  show ?thesis
    using i r
    by (intro execute_replays_recorded_outcome [where d = d])
       (auto simp: demo_config_def demo_intent_def refusal_def demo_ports_def store_ports_def demo_world_def
          RETENTION_MS_def)
qed

end
