(* ===== verification/RedisLease.thy ===== *)
theory RedisLease
  imports Prelude
begin

text \<open>
  \<open>src/infra/redis/redis.service.ts\<close> (the commands the leases use) and
  \<open>src/infra/queue/redis-lease.service.ts\<close>: leases in Redis.

  The Redis server is not part of the repository.  Its commands are a record of functions of
  the server's state, and what their documentation promises is the locale
  \<open>redis_documented\<close>; a map from keys to values is the instance it is interpreted on.
  Before each command the environment acts: time passes, other clients and expiry change the
  state by any function, and the command or its answer may be lost.
\<close>

section \<open>The server and the connection\<close>

record 's redis_commands =
  cmd_get :: "string \<Rightarrow> 's \<Rightarrow> string option"
  cmd_set_nx_ex :: "string \<Rightarrow> string \<Rightarrow> int \<Rightarrow> 's \<Rightarrow> bool \<times> 's"
  cmd_set_ex :: "string \<Rightarrow> string \<Rightarrow> int \<Rightarrow> 's \<Rightarrow> 's"
  cmd_del :: "string \<Rightarrow> 's \<Rightarrow> nat \<times> 's"
  cmd_expire :: "string \<Rightarrow> int \<Rightarrow> 's \<Rightarrow> nat \<times> 's"

datatype net_fault = Delivered | Request_lost | Answer_lost

record 's net_event =
  ne_delay :: nat
  ne_others :: "'s \<Rightarrow> 's"
  ne_fault :: net_fault

record 's redis_world =
  server :: 's
  time_ms :: int
  network :: "'s net_event list"
  reports :: "(string \<times> string) list"
  next_uuid :: nat

definition net_calm :: "'s net_event" where
  "net_calm = \<lparr>ne_delay = 0, ne_others = id, ne_fault = Delivered\<rparr>"

definition net_arrive :: "('s, 'x) redis_world_scheme \<Rightarrow> net_fault \<times> ('s, 'x) redis_world_scheme" where
  "net_arrive w = (let e = (case network w of [] \<Rightarrow> net_calm | e # _ \<Rightarrow> e) in
     (ne_fault e, w\<lparr>time_ms := time_ms w + int (ne_delay e), network := tl (network w),
                    server := ne_others e (server w)\<rparr>))"

definition redis_call :: "('s \<Rightarrow> 'a \<times> 's) \<Rightarrow> (('s, 'x) redis_world_scheme, 'a) act" where
  "redis_call f w =
     (case net_arrive w of (ft, w1) \<Rightarrow>
        (case f (server w1) of (v, s) \<Rightarrow>
           (case ft of
              Delivered \<Rightarrow> (Inr v, w1\<lparr>server := s\<rparr>)
            | Request_lost \<Rightarrow> (Inl ''redis request failed'', w1)
            | Answer_lost \<Rightarrow> (Inl ''redis request failed'', w1\<lparr>server := s\<rparr>))))"

section \<open>RedisService\<close>

text \<open>Every key is prefixed with the runtime environment.\<close>

definition key_prefix :: "string option \<Rightarrow> string option \<Rightarrow> string" where
  "key_prefix runtime_env node_env =
     (let pick = (\<lambda>e d. case e of Some v \<Rightarrow> if v = [] then d else v | None \<Rightarrow> d)
      in trim (pick runtime_env (pick node_env ''development'')) @ '':'')"

record 's redis_service =
  rs_cmds :: "'s redis_commands"
  rs_prefix :: string

definition withPrefix :: "('s, 'y) redis_service_scheme \<Rightarrow> string \<Rightarrow> string" where
  "withPrefix R key = rs_prefix R @ key"

definition redis_get :: "('s, 'y) redis_service_scheme \<Rightarrow> string \<Rightarrow> (('s, 'x) redis_world_scheme, string option) act" where
  "redis_get R key = redis_call (\<lambda>s. (cmd_get (rs_cmds R) (withPrefix R key) s, s))"

definition redis_setex :: "('s, 'y) redis_service_scheme \<Rightarrow> string \<Rightarrow> int \<Rightarrow> string
    \<Rightarrow> (('s, 'x) redis_world_scheme, unit) act" where
  "redis_setex R key seconds v = redis_call (\<lambda>s. ((), cmd_set_ex (rs_cmds R) (withPrefix R key) v seconds s))"

definition redis_setNx :: "('s, 'y) redis_service_scheme \<Rightarrow> string \<Rightarrow> string \<Rightarrow> int
    \<Rightarrow> (('s, 'x) redis_world_scheme, bool) act" where
  "redis_setNx R key v ttl = redis_call (cmd_set_nx_ex (rs_cmds R) (withPrefix R key) v ttl)"

text \<open>\<open>eval\<close> runs a script on the server in one step; a script is a function of the first key.\<close>

definition redis_eval :: "('s, 'y) redis_service_scheme \<Rightarrow> ('s redis_commands \<Rightarrow> string \<Rightarrow> 's \<Rightarrow> nat \<times> 's)
    \<Rightarrow> string \<Rightarrow> (('s, 'x) redis_world_scheme, nat) act" where
  "redis_eval R script key = redis_call (script (rs_cmds R) (withPrefix R key))"

section \<open>RedisLeaseService\<close>

record redis_lease =
  lease_key :: string
  lease_owner :: string
  ttlSeconds :: int

text \<open>The two Lua scripts.\<close>

definition RELEASE :: "string \<Rightarrow> 's redis_commands \<Rightarrow> string \<Rightarrow> 's \<Rightarrow> nat \<times> 's" where
  "RELEASE who C key s = (if cmd_get C key s = Some who then cmd_del C key s else (0, s))"

definition RENEW :: "string \<Rightarrow> int \<Rightarrow> 's redis_commands \<Rightarrow> string \<Rightarrow> 's \<Rightarrow> nat \<times> 's" where
  "RENEW who ttl C key s = (if cmd_get C key s = Some who then cmd_expire C key ttl s else (0, s))"

definition report_failure :: "string \<Rightarrow> string \<Rightarrow> ('s, 'x) redis_world_scheme \<Rightarrow> ('s, 'x) redis_world_scheme" where
  "report_failure code res w = w\<lparr>reports := reports w @ [(code, res)]\<rparr>"

definition lease_sleep :: "int \<Rightarrow> ('s, 'x) redis_world_scheme \<Rightarrow> ('s, 'x) redis_world_scheme" where
  "lease_sleep ms w = w\<lparr>time_ms := time_ms w + ms\<rparr>"

text \<open>The \<open>do ... while (Date.now() < deadline)\<close> loop; \<open>fuel\<close> bounds its rounds.\<close>

fun acquire_loop :: "nat \<Rightarrow> ('s, 'y) redis_service_scheme \<Rightarrow> redis_lease \<Rightarrow> int \<Rightarrow> int
    \<Rightarrow> ('s, 'x) redis_world_scheme \<Rightarrow> ((exn + redis_lease option) \<times> ('s, 'x) redis_world_scheme) option" where
  "acquire_loop 0 R l poll deadline w = None"
| "acquire_loop (Suc fuel) R l poll deadline w =
     (case redis_setNx R (lease_key l) (lease_owner l) (ttlSeconds l) w of
        (Inl e, w1) \<Rightarrow> Some (Inl e, w1)
      | (Inr True, w1) \<Rightarrow> Some (Inr (Some l), w1)
      | (Inr False, w1) \<Rightarrow>
          (let remaining = deadline - time_ms w1 in
           if remaining \<le> 0 then Some (Inr None, w1)
           else (let w2 = lease_sleep (min (max poll 10) remaining) w1 in
                 if time_ms w2 < deadline then acquire_loop fuel R l poll deadline w2
                 else Some (Inr None, w2))))"

record acquire_options =
  ao_owner :: "string option"
  ao_waitMs :: "int option"
  ao_pollMs :: "int option"

definition no_options :: acquire_options where
  "no_options = \<lparr>ao_owner = None, ao_waitMs = None, ao_pollMs = None\<rparr>"

text \<open>Enough rounds: each pause is at least 10 ms unless it ends the wait.\<close>

definition acquire_fuel :: "int \<Rightarrow> nat" where
  "acquire_fuel wait = nat (wait div 10) + 2"

definition lease_acquire :: "('s, 'y) redis_service_scheme \<Rightarrow> string \<Rightarrow> int \<Rightarrow> acquire_options
    \<Rightarrow> (('s, 'x) redis_world_scheme, redis_lease option) act" where
  "lease_acquire R key ttl opts w =
     (let wait = (case ao_waitMs opts of Some x \<Rightarrow> x | None \<Rightarrow> 0) in
      if ttl \<le> 0 then (Inl ''Invalid lease TTL'', w)
      else if wait < 0 \<or> 60000 < wait then (Inl ''Lease wait must be bounded to 0-60000 ms'', w)
      else
        (let (who, w0) = (case ao_owner opts of Some x \<Rightarrow> (x, w)
             | None \<Rightarrow> (''uuid-'' @ show_nat (next_uuid w), w\<lparr>next_uuid := next_uuid w + 1\<rparr>));
             l = \<lparr>lease_key = key, lease_owner = who, ttlSeconds = ttl\<rparr>
         in case acquire_loop (acquire_fuel wait) R l (case ao_pollMs opts of Some p \<Rightarrow> p | None \<Rightarrow> 1000)
                   (time_ms w0 + wait) w0 of
              None \<Rightarrow> (Inr None, w0)
            | Some (Inr r, w1) \<Rightarrow> (Inr r, w1)
            | Some (Inl e, w1) \<Rightarrow> (Inr None, report_failure ''queue.lease_unavailable'' key w1)))"

definition lease_renew :: "('s, 'y) redis_service_scheme \<Rightarrow> redis_lease \<Rightarrow> (('s, 'x) redis_world_scheme, bool) act" where
  "lease_renew R l w =
     (case redis_eval R (RENEW (lease_owner l) (ttlSeconds l)) (lease_key l) w of
        (Inl e, w1) \<Rightarrow> (Inr False, report_failure ''queue.lease_unavailable'' (lease_key l) w1)
      | (Inr n, w1) \<Rightarrow> if n = 1 then (Inr True, w1)
                      else (Inr False, report_failure ''queue.lease_lost'' (lease_key l) w1))"

definition lease_release :: "('s, 'y) redis_service_scheme \<Rightarrow> redis_lease \<Rightarrow> (('s, 'x) redis_world_scheme, bool) act" where
  "lease_release R l w =
     (case redis_eval R (RELEASE (lease_owner l)) (lease_key l) w of
        (Inl e, w1) \<Rightarrow> (Inr False, report_failure ''queue.lease_release_failed'' (lease_key l) w1)
      | (Inr n, w1) \<Rightarrow> (Inr (n = 1), w1))"

definition conversationProcessingLeaseKey :: "string \<Rightarrow> string" where
  "conversationProcessingLeaseKey chat = ''wecom:message:lock:'' @ chat"

section \<open>The wait is bounded\<close>

lemma net_arrive_time: "net_arrive w = (ft, w1) \<Longrightarrow> time_ms w \<le> time_ms w1"
  by (auto simp: net_arrive_def Let_def)

lemma redis_call_time: "redis_call f w = (r, w1) \<Longrightarrow> time_ms w \<le> time_ms w1"
  by (auto simp: redis_call_def split: prod.splits net_fault.splits dest: net_arrive_time)

lemma acquire_loop_ends:
  "0 < fuel \<Longrightarrow> (time_ms w < deadline \<Longrightarrow> (deadline - time_ms w) < 10 * int fuel) \<Longrightarrow>
   \<exists>r. acquire_loop fuel R l poll deadline w = Some r"
proof (induction fuel arbitrary: w)
  case (Suc fuel)
  obtain r w1 where call: "redis_setNx R (lease_key l) (lease_owner l) (ttlSeconds l) w = (r, w1)" by fastforce
  have t: "time_ms w \<le> time_ms w1" using call by (simp add: redis_setNx_def redis_call_time)
  let ?w2 = "lease_sleep (min (max poll 10) (deadline - time_ms w1)) w1"
  have t2: "time_ms ?w2 = time_ms w1 + min (max poll 10) (deadline - time_ms w1)" by (simp add: lease_sleep_def)
  show ?case
  proof (cases "r = Inr False \<and> 0 < deadline - time_ms w1 \<and> time_ms ?w2 < deadline")
    case True
    then have "time_ms ?w2 = time_ms w1 + max poll 10" using t2 by linarith
    then have d: "deadline - time_ms ?w2 < 10 * int fuel" using Suc.prems(2) t True by simp
    with True have "0 < fuel" by (cases fuel) simp_all
    with Suc.IH [of ?w2] d True call show ?thesis by (simp add: Let_def)
  next
    case False
    then show ?thesis
      using call by (cases r) (auto simp: Let_def split: bool.splits)
  qed
qed simp

lemma acquire_fuel_enough:
  assumes "0 \<le> wait" and "time_ms w0 = t"
  shows "\<exists>r. acquire_loop (acquire_fuel wait) R l poll (t + wait) w0 = Some r"
  by (rule acquire_loop_ends) (use assms in \<open>simp_all add: acquire_fuel_def\<close>, presburger)

section \<open>What Redis documents\<close>

locale redis_documented =
  fixes C :: "'s redis_commands"
  assumes set_nx: "cmd_set_nx_ex C k v t s = (ok, s') \<Longrightarrow> ok \<longleftrightarrow> cmd_get C k s = None"
    and set_nx_get: "cmd_set_nx_ex C k v t s = (ok, s') \<Longrightarrow> 0 < t \<Longrightarrow>
      cmd_get C k' s' = (if ok \<and> k' = k then Some v else cmd_get C k' s)"
    and del: "cmd_del C k s = (n, s') \<Longrightarrow> n = (if cmd_get C k s = None then 0 else 1)"
    and del_get: "cmd_del C k s = (n, s') \<Longrightarrow> cmd_get C k' s' = (if k' = k then None else cmd_get C k' s)"
    and expire: "cmd_expire C k t s = (n, s') \<Longrightarrow> n = (if cmd_get C k s = None then 0 else 1)"
    and expire_get: "cmd_expire C k t s = (n, s') \<Longrightarrow> 0 < t \<Longrightarrow> cmd_get C k' s' = cmd_get C k' s"
begin

lemma nx_taken: "cmd_get C k s = Some v \<Longrightarrow> 0 < t \<Longrightarrow> cmd_set_nx_ex C k u t s = (ok, s') \<Longrightarrow>
    \<not> ok \<and> (\<forall>k'. cmd_get C k' s' = cmd_get C k' s)"
  using set_nx set_nx_get by (metis option.distinct(1))

lemma release_get: "RELEASE who C k s = (n, s') \<Longrightarrow>
    (n = 1 \<longleftrightarrow> cmd_get C k s = Some who) \<and>
    cmd_get C k' s' = (if k' = k \<and> cmd_get C k s = Some who then None else cmd_get C k' s)"
  using del [of k s n s'] del_get [of k s n s' k'] by (auto simp: RELEASE_def split: if_splits)

lemma renew_get: "RENEW who t C k s = (n, s') \<Longrightarrow> 0 < t \<Longrightarrow>
    (n = 1 \<longleftrightarrow> cmd_get C k s = Some who) \<and> cmd_get C k' s' = cmd_get C k' s"
  using expire [of k t s n s'] expire_get [of k t s n s' k'] by (auto simp: RENEW_def split: if_splits)

end

text \<open>The instance: a map from keys to values; what has expired has left the map.\<close>

definition map_commands :: "(string \<Rightarrow> string option) redis_commands" where
  "map_commands = \<lparr>cmd_get = (\<lambda>k m. m k),
     cmd_set_nx_ex = (\<lambda>k v t m. if m k = None then (True, m(k \<mapsto> v)) else (False, m)),
     cmd_set_ex = (\<lambda>k v t m. m(k \<mapsto> v)),
     cmd_del = (\<lambda>k m. (if m k = None then 0 else 1, m(k := None))),
     cmd_expire = (\<lambda>k t m. (if m k = None then 0 else 1, if t \<le> 0 then m(k := None) else m))\<rparr>"

interpretation map_redis: redis_documented map_commands
  by unfold_locales (auto simp: map_commands_def split: if_splits)

section \<open>Holding a lease\<close>

definition holds :: "('s, 'y) redis_service_scheme \<Rightarrow> redis_lease \<Rightarrow> ('s, 'x) redis_world_scheme \<Rightarrow> bool" where
  "holds R l w \<longleftrightarrow> cmd_get (rs_cmds R) (withPrefix R (lease_key l)) (server w) = Some (lease_owner l)"

lemma redis_call_Inr:
  assumes "redis_call f w = (Inr v, w')"
  obtains s where "f s = (v, server w')"
  using assms by (auto simp: redis_call_def split: prod.splits net_fault.splits)

lemma redis_call_calm: "network w = [] \<Longrightarrow> redis_call f w = (case f (server w) of (v, s) \<Rightarrow> (Inr v, w\<lparr>server := s\<rparr>))"
  by (cases "f (server w)") (simp add: redis_call_def net_arrive_def net_calm_def)

text \<open>The lease service needs the server's promises; they are an argument here and supplied by
  the interpretation of the locale.\<close>

lemma acquire_loop_holds:
  assumes C: "redis_documented (rs_cmds R)" and "0 < ttlSeconds l"
  shows "acquire_loop fuel R l poll deadline w = Some (Inr (Some l'), w') \<Longrightarrow> l' = l \<and> holds R l w'"
proof (induction fuel arbitrary: w)
  case (Suc fuel)
  obtain r w1 where call: "redis_setNx R (lease_key l) (lease_owner l) (ttlSeconds l) w = (r, w1)" by fastforce
  show ?case
  proof (cases r)
    case (Inr ok)
    show ?thesis
    proof (cases ok)
      case True
      then obtain s where "cmd_set_nx_ex (rs_cmds R) (withPrefix R (lease_key l)) (lease_owner l) (ttlSeconds l) s
          = (True, server w1)"
        using call Inr by (auto simp: redis_setNx_def elim: redis_call_Inr)
      from redis_documented.set_nx_get [OF C this assms(2)] have "holds R l w1" by (simp add: holds_def)
      then show ?thesis using Suc.prems call Inr True by simp
    next
      case False
      then show ?thesis using Suc call Inr by (auto simp: Let_def split: if_splits)
    qed
  qed (use Suc.prems call in simp)
qed simp

lemma acquire_loop_taken:
  assumes C: "redis_documented (rs_cmds R)" and "0 < ttlSeconds l'" and "lease_key l' = lease_key l"
  shows "holds R l w \<Longrightarrow> network w = [] \<Longrightarrow> acquire_loop fuel R l' poll deadline w = Some (r, w') \<Longrightarrow>
    r = Inr None \<and> holds R l w'"
proof (induction fuel arbitrary: w)
  case (Suc fuel)
  obtain ok s where nx: "cmd_set_nx_ex (rs_cmds R) (withPrefix R (lease_key l')) (lease_owner l') (ttlSeconds l') (server w)
      = (ok, s)" by fastforce
  note t = redis_documented.nx_taken [OF C Suc.prems(1) [unfolded holds_def] assms(2), of "lease_owner l'"]
  have ok: "\<not> ok" "cmd_get (rs_cmds R) (withPrefix R (lease_key l)) s = Some (lease_owner l)"
    using t nx Suc.prems(1) assms(3) by (auto simp: holds_def)
  let ?w1 = "w\<lparr>server := s\<rparr>"
  have call: "redis_setNx R (lease_key l') (lease_owner l') (ttlSeconds l') w = (Inr False, ?w1)"
    using Suc.prems(2) nx ok by (simp add: redis_setNx_def redis_call_calm)
  have h: "holds R l ?w1" using ok by (simp add: holds_def)
  have h2: "holds R l (lease_sleep ms ?w1)" "network (lease_sleep ms ?w1) = []" for ms
    using h Suc.prems(2) by (simp_all add: holds_def lease_sleep_def)
  show ?case
    using Suc.prems(3) call h h2 Suc.IH by (auto simp: Let_def split: if_splits)
qed simp

lemma lease_acquire_loop:
  assumes "lease_acquire R key ttl opts w = (Inr (Some l), w')"
  obtains fuel poll deadline who w0 where "0 < ttl"
    and "acquire_loop fuel R \<lparr>lease_key = key, lease_owner = who, ttlSeconds = ttl\<rparr> poll deadline w0 = Some (Inr (Some l), w')"
  using assms
  by (auto simp: lease_acquire_def Let_def split: if_splits option.splits prod.splits sum.splits)

lemma renew_True_holds:
  assumes C: "redis_documented (rs_cmds R)" and "0 < ttlSeconds l" and "lease_renew R l w = (Inr True, w')"
  shows "holds R l w'"
proof -
  have "redis_eval R (RENEW (lease_owner l) (ttlSeconds l)) (lease_key l) w = (Inr 1, w')"
    using assms(3) by (auto simp: lease_renew_def split: prod.splits sum.splits if_splits)
  then obtain s where "RENEW (lease_owner l) (ttlSeconds l) (rs_cmds R) (withPrefix R (lease_key l)) s = (1, server w')"
    by (auto simp: redis_eval_def elim: redis_call_Inr)
  from redis_documented.renew_get [OF C this assms(2)] show ?thesis by (simp add: holds_def)
qed

section \<open>Properties\<close>

text \<open>When a lease is granted, or a renewal succeeds, the key holds its owner at that moment, with
  whatever delays, expiry, other clients and lost messages around the call.\<close>

theorem granted_lease_is_held:
  assumes "redis_documented (rs_cmds R)"
  shows "(lease_acquire R key ttl opts w = (Inr (Some l), w') \<longrightarrow> lease_key l = key \<and> holds R l w') \<and>
    (0 < ttlSeconds l \<and> lease_renew R l w = (Inr True, w') \<longrightarrow> holds R l w')"
proof (intro conjI impI)
  assume "lease_acquire R key ttl opts w = (Inr (Some l), w')"
  then obtain fuel poll deadline who w0 where "0 < ttl"
    "acquire_loop fuel R \<lparr>lease_key = key, lease_owner = who, ttlSeconds = ttl\<rparr> poll deadline w0 = Some (Inr (Some l), w')"
    by (rule lease_acquire_loop)
  from acquire_loop_holds [OF assms _ this(2)] this(1) show "lease_key l = key" "holds R l w'" by simp_all
qed (use renew_True_holds [OF assms] in blast)

text \<open>C14: a lease is exclusive: while it is held and nothing but the call itself happens, another owner
  is not granted it, and neither releasing nor renewing under another owner's name disturbs it.\<close>

theorem lease_is_exclusive:
  assumes "redis_documented (rs_cmds R)" and "holds R l w" and "network w = []"
    and "lease_key l' = lease_key l" and "lease_owner l' \<noteq> lease_owner l" and "0 < ttlSeconds l'"
  shows "holds R l (snd (lease_release R l' w)) \<and> holds R l (snd (lease_renew R l' w)) \<and>
    fst (lease_acquire R (lease_key l) (ttlSeconds l') no_options w) = Inr None \<and>
    holds R l (snd (lease_acquire R (lease_key l) (ttlSeconds l') no_options w))"
proof (intro conjI)
  let ?C = "rs_cmds R" and ?k = "withPrefix R (lease_key l)"
  have g: "cmd_get ?C ?k (server w) = Some (lease_owner l)" using assms(2) by (simp add: holds_def)
  obtain n s where rl: "RELEASE (lease_owner l') ?C ?k (server w) = (n, s)" by fastforce
  have "cmd_get ?C ?k s = Some (lease_owner l)"
    using redis_documented.release_get [OF assms(1) rl, of ?k] g assms(5) by auto
  then show "holds R l (snd (lease_release R l' w))"
    using rl assms(3,4) by (simp add: lease_release_def redis_eval_def redis_call_calm holds_def)
  obtain m s2 where rn: "RENEW (lease_owner l') (ttlSeconds l') ?C ?k (server w) = (m, s2)" by fastforce
  have "cmd_get ?C ?k s2 = Some (lease_owner l)"
    using redis_documented.renew_get [OF assms(1) rn assms(6), of ?k] g by auto
  then show "holds R l (snd (lease_renew R l' w))"
    using rn assms(3,4) by (simp add: lease_renew_def redis_eval_def redis_call_calm holds_def report_failure_def)
  let ?w0 = "w\<lparr>next_uuid := next_uuid w + 1\<rparr>"
  let ?l = "\<lparr>lease_key = lease_key l, lease_owner = ''uuid-'' @ show_nat (next_uuid w), ttlSeconds = ttlSeconds l'\<rparr>"
  have w0: "holds R l ?w0" "network ?w0 = []" using assms(2,3) by (simp_all add: holds_def)
  obtain r w1 where a: "acquire_loop (acquire_fuel 0) R ?l 1000 (time_ms ?w0) ?w0 = Some (r, w1)"
    using acquire_fuel_enough [of 0 ?w0 "time_ms ?w0" R ?l 1000] by (cases "acquire_loop (acquire_fuel 0) R ?l 1000 (time_ms ?w0) ?w0") auto
  have "r = Inr None \<and> holds R l w1"
    by (rule acquire_loop_taken [OF assms(1) _ _ w0 a]) (use assms(6) in simp_all)
  then show "fst (lease_acquire R (lease_key l) (ttlSeconds l') no_options w) = Inr None"
    "holds R l (snd (lease_acquire R (lease_key l) (ttlSeconds l') no_options w))"
    using a assms(6) by (simp_all add: lease_acquire_def no_options_def)
qed

section \<open>Witnesses\<close>

definition demo_redis :: "(string \<Rightarrow> string option) redis_service" where
  "demo_redis = \<lparr>rs_cmds = map_commands, rs_prefix = ''test:''\<rparr>"

definition demo_redis_world :: "(string \<Rightarrow> string option) redis_world" where
  "demo_redis_world = \<lparr>server = Map.empty, time_ms = 0, network = [], reports = [], next_uuid = 0\<rparr>"

definition demo_lease :: redis_lease where
  "demo_lease = \<lparr>lease_key = ''k'', lease_owner = ''a'', ttlSeconds = 90\<rparr>"

lemma demo_redis_documented: "redis_documented (rs_cmds demo_redis)"
  by (simp add: demo_redis_def map_redis.redis_documented_axioms)

lemma demo_acquire:
  "lease_acquire demo_redis ''k'' 90 (no_options\<lparr>ao_owner := Some ''a''\<rparr>) demo_redis_world =
     (Inr (Some demo_lease), demo_redis_world\<lparr>server := [''test:k'' \<mapsto> ''a'']\<rparr>)"
  by (simp add: lease_acquire_def no_options_def acquire_fuel_def numeral_2_eq_2 redis_setNx_def redis_call_calm
      demo_redis_def demo_redis_world_def map_commands_def withPrefix_def demo_lease_def)

theorem granted_lease_is_held_witness:
  "holds demo_redis demo_lease (demo_redis_world\<lparr>server := [''test:k'' \<mapsto> ''a'']\<rparr>)"
  using granted_lease_is_held [OF demo_redis_documented] demo_acquire by blast

theorem lease_is_exclusive_witness:
  "fst (lease_acquire demo_redis ''k'' 90 no_options (demo_redis_world\<lparr>server := [''test:k'' \<mapsto> ''a'']\<rparr>)) = Inr None"
  using lease_is_exclusive [OF demo_redis_documented, of demo_lease "demo_redis_world\<lparr>server := [''test:k'' \<mapsto> ''a'']\<rparr>"
      "demo_lease\<lparr>lease_owner := ''b''\<rparr>"]
  by (simp add: demo_lease_def demo_redis_world_def holds_def demo_redis_def map_commands_def withPrefix_def)

end
