(* ===== verification/ActionRecovery.thy ===== *)
theory ActionRecovery
  imports ActionStore RedisLease
begin

text \<open>
  What happens to an action after its attempt:
  \<open>src/biz/action-execution/action-recovery.service.ts\<close> (the scanner),
  \<open>action-local-sync.service.ts\<close> (projection under the conversation's lease),
  \<open>action-recovery.registry.ts\<close> (handlers) and \<open>action-repair.queue.ts\<close> (retried settlement).
  The journal operations are ports with the types of \<open>ActionStore\<close>; the leases are those of
  \<open>RedisLease\<close>, so the world extends Redis's with the scanner's \<open>running\<close> flag.
\<close>

section \<open>Ports and handlers\<close>

record 's recovery_world = "'s redis_world" +
  running :: bool

record 'w recovery_handler =
  h_reconcile :: "action_record \<Rightarrow> ('w, action_completion) act"
  h_sync :: "(action_record \<Rightarrow> ('w, unit) act \<Rightarrow> ('w, unit) act) option"

record 'w recovery_ports =
  rp_due :: "nat \<Rightarrow> ('w, action_record list) act"
  rp_claim :: "action_record \<Rightarrow> string \<Rightarrow> ('w, action_record option) act"
  rp_terminal :: "action_record \<Rightarrow> ('w, terminal_evidence) act"
  rp_settle :: "action_record \<Rightarrow> action_completion \<Rightarrow> ('w, action_record) act"
  rp_synced :: "action_record \<Rightarrow> ('w, unit) act"
  rp_defer :: "action_record \<Rightarrow> int option \<Rightarrow> ('w, unit) act"
  rp_notify :: "action_record \<Rightarrow> ('w, bool) act"
  rp_uuid :: "('w, string) io"
  rp_now :: "'w \<Rightarrow> int"

type_synonym 'w handlers = "string \<Rightarrow> 'w recovery_handler option"

definition register :: "string \<Rightarrow> 'w recovery_handler \<Rightarrow> 'w handlers \<Rightarrow> exn + 'w handlers" where
  "register k h hs = (if hs k \<noteq> None then Inl (''Duplicate action recovery handler: '' @ k) else Inr (hs(k \<mapsto> h)))"

section \<open>Local projection\<close>

definition assertOwned :: "('s, 'y) redis_service_scheme \<Rightarrow> redis_lease \<Rightarrow> int
    \<Rightarrow> (('s, 'x) redis_world_scheme, unit) act" where
  "assertOwned R l deadline w =
     (if deadline \<le> time_ms w then (Inl ''action_local_sync_lease_lost'', w)
      else (case lease_renew R l w of
              (Inl e, w1) \<Rightarrow> (Inl e, w1)
            | (Inr ok, w1) \<Rightarrow> if ok then (Inr (), w1) else (Inl ''action_local_sync_lease_lost'', w1)))"

definition local_sync_run :: "('s, 'y) redis_service_scheme \<Rightarrow> action_record
    \<Rightarrow> ('s, 'x) redis_world_scheme recovery_handler \<Rightarrow> (('s, 'x) redis_world_scheme, unit) act" where
  "local_sync_run R r h =
     (case h_sync h of
        None \<Rightarrow> act_ret ()
      | Some sync \<Rightarrow>
          act_bind (lease_acquire R (conversationProcessingLeaseKey (chatId (intent r))) 90 no_options) (\<lambda>lease.
          case lease of
            None \<Rightarrow> act_throw ''action_local_sync_conversation_busy''
          | Some l \<Rightarrow> (\<lambda>w.
              let owned = assertOwned R l (time_ms w + 30000) in
              act_finally (act_bind owned (\<lambda>_. act_bind (sync r owned) (\<lambda>_. owned)))
                (act_bind (lease_release R l) (\<lambda>_. act_ret ())) w)))"

section \<open>The scanner\<close>

text \<open>
  \<open>queryWithinBudget\<close>: a query that takes five seconds or more counts as rejected; what it
  has done by then is done.
\<close>

definition queryWithinBudget :: "('w \<Rightarrow> int) \<Rightarrow> ('w, 'a) act \<Rightarrow> ('w, 'a) act" where
  "queryWithinBudget now q w =
     (case q w of (r, w1) \<Rightarrow>
        (if now w1 - now w < 5000 then (r, w1) else (Inl ''action_reconciliation_query_timeout'', w1)))"

definition nextCheck :: "int \<Rightarrow> action_record \<Rightarrow> bool \<Rightarrow> int" where
  "nextCheck now r limited =
     (let t = now + min (30 * 60000) (30000 * 2 ^ attempts r)
      in if limited then min t (recoveryDeadline r) else t)"

definition defer_next :: "'w recovery_ports \<Rightarrow> action_record \<Rightarrow> bool \<Rightarrow> ('w, unit) act" where
  "defer_next P r limited w = rp_defer P r (Some (nextCheck (rp_now P w) r limited)) w"

definition requestReview :: "'w recovery_ports \<Rightarrow> action_record \<Rightarrow> ('w, unit) act" where
  "requestReview P r =
     act_bind (act_catch (queryWithinBudget (rp_now P) (rp_notify P r)) (\<lambda>_. act_ret False)) (\<lambda>delivered.
       if delivered then rp_defer P r None else defer_next P r False)"

definition exhausted :: "'w recovery_ports \<Rightarrow> 'w handlers \<Rightarrow> action_record \<Rightarrow> 'w \<Rightarrow> bool" where
  "exhausted P hs r w \<longleftrightarrow> hs (kind (intent r)) = None \<or> 6 < attempts r \<or> recoveryDeadline r \<le> rp_now P w"

text \<open>
  The body of the \<open>try\<close> in \<open>recover\<close>; \<open>sync_run\<close> is \<open>this.localSync.run\<close>.
\<close>

definition sync_and_mark :: "'w recovery_ports \<Rightarrow> (action_record \<Rightarrow> 'w recovery_handler \<Rightarrow> ('w, unit) act)
    \<Rightarrow> action_record \<Rightarrow> 'w recovery_handler \<Rightarrow> ('w, unit) act" where
  "sync_and_mark P sync_run r h = act_bind (sync_run r h) (\<lambda>_. rp_synced P r)"

definition after_settle :: "'w recovery_ports \<Rightarrow> 'w handlers
    \<Rightarrow> (action_record \<Rightarrow> 'w recovery_handler \<Rightarrow> ('w, unit) act) \<Rightarrow> action_record \<Rightarrow> action_record \<Rightarrow> ('w, unit) act" where
  "after_settle P hs sync_run r settled =
     (if status settled = SUCCEEDED then
        (case hs (kind (intent r)) of None \<Rightarrow> requestReview P settled | Some h \<Rightarrow> sync_and_mark P sync_run settled h)
      else if status settled = UNKNOWN \<or> status settled = EXECUTING then defer_next P settled True
      else act_ret ())"

definition recover_unsettled :: "'w recovery_ports \<Rightarrow> 'w handlers
    \<Rightarrow> (action_record \<Rightarrow> 'w recovery_handler \<Rightarrow> ('w, unit) act) \<Rightarrow> action_record \<Rightarrow> ('w, unit) act" where
  "recover_unsettled P hs sync_run r =
     act_bind (rp_terminal P r) (\<lambda>late w.
       if te_conflicting late then requestReview P r w
       else (case te_completion late of
          Some c \<Rightarrow> act_bind (rp_settle P r c) (after_settle P hs sync_run r) w
        | None \<Rightarrow>
            if exhausted P hs r w then requestReview P r w
            else (case hs (kind (intent r)) of
               None \<Rightarrow> requestReview P r w
             | Some h \<Rightarrow> act_bind (queryWithinBudget (rp_now P) (h_reconcile h r))
                 (\<lambda>c. act_bind (rp_settle P r c) (after_settle P hs sync_run r)) w)))"

definition recover :: "'w recovery_ports \<Rightarrow> 'w handlers
    \<Rightarrow> (action_record \<Rightarrow> 'w recovery_handler \<Rightarrow> ('w, unit) act) \<Rightarrow> action_record \<Rightarrow> ('w, unit) act" where
  "recover P hs sync_run r =
     act_catch
       (if status r = SUCCEEDED then
          (\<lambda>w. if exhausted P hs r w then requestReview P r w
               else sync_and_mark P sync_run r (the (hs (kind (intent r)))) w)
        else recover_unsettled P hs sync_run r)
       (\<lambda>_. defer_next P r True)"

fun recover_list :: "'w recovery_ports \<Rightarrow> 'w handlers
    \<Rightarrow> (action_record \<Rightarrow> 'w recovery_handler \<Rightarrow> ('w, unit) act) \<Rightarrow> int \<Rightarrow> action_record list \<Rightarrow> ('w, unit) act" where
  "recover_list P hs sync_run deadline [] w = (Inr (), w)"
| "recover_list P hs sync_run deadline (d # ds) w =
     (if deadline \<le> rp_now P w then (Inr (), w)
      else act_bind
        (act_catch
           (act_bind (act_of_io (rp_uuid P)) (\<lambda>u. act_bind (rp_claim P d u) (\<lambda>rec.
              case rec of None \<Rightarrow> act_ret () | Some r \<Rightarrow> recover P hs sync_run r)))
           (\<lambda>_. act_ret ()))
        (\<lambda>_. recover_list P hs sync_run deadline ds) w)"

definition recoverDue :: "('s, 'x) recovery_world_scheme recovery_ports \<Rightarrow> ('s, 'x) recovery_world_scheme handlers
    \<Rightarrow> (action_record \<Rightarrow> ('s, 'x) recovery_world_scheme recovery_handler \<Rightarrow> (('s, 'x) recovery_world_scheme, unit) act)
    \<Rightarrow> (('s, 'x) recovery_world_scheme, unit) act" where
  "recoverDue P hs sync_run w =
     (if running w then (Inr (), w)
      else (let deadline = rp_now P w + 30000 in
        act_finally
          (act_catch (act_bind (rp_due P 25) (recover_list P hs sync_run deadline)) (\<lambda>_. act_ret ()))
          (\<lambda>w'. (Inr (), w'\<lparr>running := False\<rparr>)) (w\<lparr>running := True\<rparr>)))"

section \<open>The repair queue\<close>

text \<open>
  \<open>enqueue\<close>: \<open>add\<close> is the queue's, given the job id and the job; an answer that takes two
  seconds is a failure.
\<close>

definition repair_enqueue :: "crypto \<Rightarrow> ('w \<Rightarrow> int) \<Rightarrow> (string \<Rightarrow> action_record \<times> action_completion \<Rightarrow> ('w, unit) act)
    \<Rightarrow> action_record \<Rightarrow> action_completion \<Rightarrow> ('w, unit) act" where
  "repair_enqueue k now add r c w =
     (case actionDigest (sha256 k) (locale_le k)
         (JArr [JStr (actionId r), (case owner r of None \<Rightarrow> JNull | Some x \<Rightarrow> JStr x), completion_json c]) of
        Inl e \<Rightarrow> (Inl e, w)
      | Inr jobId \<Rightarrow> (case add jobId (r, c) w of (res, w1) \<Rightarrow>
          (if now w1 - now w < 2000 then (res, w1) else (Inl ''Local repair enqueue unconfirmed'', w1))))"

definition repair_settle :: "'w recovery_ports \<Rightarrow> 'w handlers
    \<Rightarrow> (action_record \<Rightarrow> 'w recovery_handler \<Rightarrow> ('w, unit) act) \<Rightarrow> action_record \<times> action_completion \<Rightarrow> ('w, unit) act" where
  "repair_settle P hs sync_run job =
     act_bind (rp_settle P (fst job) (snd job)) (\<lambda>r.
       if status r \<noteq> SUCCEEDED \<or> localSync r = COMPLETE then act_ret ()
       else (case hs (kind (intent r)) of
          None \<Rightarrow> act_ret ()
        | Some h \<Rightarrow> if mode r \<noteq> EXECUTE then act_ret () else sync_and_mark P sync_run r h))"

definition repair_failed_notifies :: "nat \<Rightarrow> nat option \<Rightarrow> bool" where
  "repair_failed_notifies attemptsMade opts_attempts \<longleftrightarrow>
     \<not> attemptsMade < (case opts_attempts of Some n \<Rightarrow> n | None \<Rightarrow> 1)"

section \<open>Lemmas\<close>

lemma assertOwned_holds:
  assumes "redis_documented (rs_cmds R)" and "0 < ttlSeconds l" and "assertOwned R l dl w = (Inr u, w')"
  shows "holds R l w'"
proof -
  have "lease_renew R l w = (Inr True, w')"
    using assms(3) by (auto simp: assertOwned_def split: if_splits prod.splits sum.splits)
  then show ?thesis by (rule renew_True_holds [OF assms(1,2)])
qed

lemma nextCheck_step: "30000 \<le> min (30 * 60000) (30000 * 2 ^ n :: int)" "min (30 * 60000) (30000 * 2 ^ n :: int) \<le> 1800000"
proof -
  have "(1 :: int) \<le> 2 ^ n" by simp
  then show "30000 \<le> min (30 * 60000) (30000 * 2 ^ n :: int)" by simp
qed simp

lemma recoverDue_run:
  obtains w1 where "recoverDue P hs sync_run w = (Inr (), if running w then w else w1\<lparr>running := False\<rparr>)"
proof -
  let ?m = "act_catch (act_bind (rp_due P 25) (recover_list P hs sync_run (rp_now P w + 30000))) (\<lambda>_. act_ret ())"
  have "never_rejects ?m" by (intro total_catch total_ret)
  then obtain u w1 where "?m (w\<lparr>running := True\<rparr>) = (Inr u, w1)" by (rule never_rejectsE)
  then show ?thesis using that [of w1] by (simp add: recoverDue_def act_finally_def)
qed

section \<open>Properties\<close>

text \<open>A background projection touches local state only while this process holds the lease of the
  conversation it writes to: what the handler's \<open>sync\<close> would do at any other moment does not matter.\<close>

theorem projection_runs_under_conversation_lease:
  assumes R: "redis_documented (rs_cmds R)"
    and same: "\<And>owned w l. lease_key l = conversationProcessingLeaseKey (chatId (intent r)) \<Longrightarrow> holds R l w \<Longrightarrow>
      sync r owned w = sync' r owned w"
  shows "local_sync_run R r (h\<lparr>h_sync := Some sync\<rparr>) w = local_sync_run R r (h\<lparr>h_sync := Some sync'\<rparr>) w"
proof -
  let ?key = "conversationProcessingLeaseKey (chatId (intent r))"
  obtain a w1 where a: "lease_acquire R ?key 90 no_options w = (a, w1)" by fastforce
  show ?thesis
  proof (cases "\<exists>l. a = Inr (Some l)")
    case True
    then obtain l where l: "a = Inr (Some l)" by blast
    obtain fuel poll deadline who w0 where "acquire_loop fuel R
        \<lparr>lease_key = ?key, lease_owner = who, ttlSeconds = 90\<rparr> poll deadline w0 = Some (Inr (Some l), w1)"
      using lease_acquire_loop [OF a [unfolded l]] by metis
    from acquire_loop_holds [OF R _ this] have lk: "lease_key l = ?key" "0 < ttlSeconds l" by simp_all
    let ?o = "assertOwned R l (time_ms w1 + 30000)"
    obtain b w2 where b: "?o w1 = (b, w2)" by fastforce
    have "sync r ?o w2 = sync' r ?o w2" if "b = Inr u" for u
      using same [OF lk(1)] assertOwned_holds [OF R lk(2) b [unfolded that]] by blast
    then have "act_bind ?o (\<lambda>_. act_bind (sync r ?o) (\<lambda>_. ?o)) w1 = act_bind ?o (\<lambda>_. act_bind (sync' r ?o) (\<lambda>_. ?o)) w1"
      using b by (cases b) (simp_all add: act_bind_def)
    then show ?thesis 
      using a l by (simp add: local_sync_run_def act_bind_def [of "lease_acquire R ?key 90 no_options"] Let_def act_finally_def)
  next
    case False
    then show ?thesis using a by (auto simp: local_sync_run_def act_bind_def split: sum.split option.split)
  qed
qed

text \<open>The next check of an unsettled action is between 30 seconds and 30 minutes ahead and, unless a
  person is already asked, never after the recovery deadline.\<close>

theorem nextCheck_bounds:
  "nextCheck now r False \<in> {now + 30000 .. now + 1800000} \<and>
   nextCheck now r True = min (nextCheck now r False) (recoveryDeadline r)"
  using nextCheck_step [of "attempts r"] by (simp add: nextCheck_def Let_def)

text \<open>Evidence that arrives late settles the action for good: the completion the scanner picks is one
  of the evidence rows, the journal stores its status as it is, a success is preferred, and conflicting
  evidence always contains a success.\<close>

theorem late_evidence_is_conclusive:
  assumes "te_completion (select_evidence cs) = Some c"
  shows "c \<in> set cs \<and> status (settle_row now c r) = c_status c \<and> c_status c \<in> {SUCCEEDED, FAILED} \<and>
    (c_status c = FAILED \<longrightarrow> (\<forall>x\<in>set cs. terminal_completion x \<longrightarrow> c_status x = FAILED) \<and>
       \<not> te_conflicting (select_evidence cs))"
proof -
  let ?t = "filter terminal_completion cs"
  let ?s = "filter (\<lambda>c. c_status c = SUCCEEDED) ?t"
  have sel: "(case ?s of x # _ \<Rightarrow> Some x | [] \<Rightarrow> (case ?t of x # _ \<Rightarrow> Some x | [] \<Rightarrow> None)) = Some c"
    using assms by (simp add: select_evidence_def Let_def)
  have mem: "c \<in> set ?t" and succ: "?s \<noteq> [] \<Longrightarrow> c_status c = SUCCEEDED"
  proof -
    have "c \<in> set ?t \<and> (?s \<noteq> [] \<longrightarrow> c_status c = SUCCEEDED)"
    proof (cases ?s)
      case Nil
      then show ?thesis using sel by (cases ?t) auto
    next
      case (Cons x xs)
      then have "c \<in> set ?s" using sel by simp
      then show ?thesis by simp
    qed
    then show "c \<in> set ?t" "?s \<noteq> [] \<Longrightarrow> c_status c = SUCCEEDED" by simp_all
  qed
  have t: "terminal_completion c" "c \<in> set cs" using mem by simp_all
  then have "conclusive_state c = c_status c" "c_status c \<in> {SUCCEEDED, FAILED}"
    by (auto simp: terminal_completion_def conclusive_state_def proves_no_effect_def)
  moreover have "(\<forall>x\<in>set cs. terminal_completion x \<longrightarrow> c_status x = FAILED) \<and> \<not> te_conflicting (select_evidence cs)"
    if "c_status c = FAILED"
  proof -
    have s: "?s = []" using succ that by auto
    then have "c_status x = FAILED" if "x \<in> set cs" "terminal_completion x" for x
      using that by (auto simp: filter_empty_conv terminal_completion_def)
    then show ?thesis using s by (simp add: select_evidence_def Let_def)
  qed
  ultimately show ?thesis using t(2) by simp
qed

text \<open>C36: the recovery scan never rejects and leaves its \<open>running\<close> flag as it found it, so one
  failing scan cannot stop the ones after it.\<close>

theorem recovery_scan_always_ends:
  "never_rejects (recoverDue P hs sync_run) \<and> running (snd (recoverDue P hs sync_run w)) = running w"
proof
  show "never_rejects (recoverDue P hs sync_run)"
    unfolding never_rejects_def using recoverDue_run by metis
  obtain w1 where "recoverDue P hs sync_run w = (Inr (), if running w then w else w1\<lparr>running := False\<rparr>)"
    by (rule recoverDue_run)
  then show "running (snd (recoverDue P hs sync_run w)) = running w" by simp
qed

section \<open>Witnesses\<close>

definition demo_recovered :: action_record where
  "demo_recovered = fromDb (new_row 0 ''corp'' ''a'' demo_input None 0)"

definition demo_handler :: "(string \<Rightarrow> string option) redis_world recovery_handler" where
  "demo_handler = \<lparr>h_reconcile = (\<lambda>_. act_throw ''unknown''), h_sync = None\<rparr>"

definition demo_key_held :: "(string \<Rightarrow> string option) redis_world \<Rightarrow> bool" where
  "demo_key_held w \<longleftrightarrow> (\<exists>l. lease_key l = conversationProcessingLeaseKey (chatId (intent demo_recovered)) \<and> holds demo_redis l w)"

theorem projection_runs_under_conversation_lease_witness:
  "local_sync_run demo_redis demo_recovered
     (demo_handler\<lparr>h_sync := Some (\<lambda>_ _ w. if demo_key_held w then (Inr (), w) else (Inl ''never'', w))\<rparr>) demo_redis_world =
   local_sync_run demo_redis demo_recovered (demo_handler\<lparr>h_sync := Some (\<lambda>_ _. act_ret ())\<rparr>) demo_redis_world"
  by (rule projection_runs_under_conversation_lease [OF demo_redis_documented]) (auto simp: demo_key_held_def)

theorem late_evidence_is_conclusive_witness:
  "status (settle_row 0 (demo_completion FAILED DEFINITIVE_NO_EFFECT) (new_row 0 ''c'' ''a'' demo_input None 0)) = FAILED"
proof -
  have "te_completion (select_evidence [demo_completion FAILED DEFINITIVE_NO_EFFECT])
      = Some (demo_completion FAILED DEFINITIVE_NO_EFFECT)" by code_simp
  from late_evidence_is_conclusive [OF this, of 0 "new_row 0 ''c'' ''a'' demo_input None 0"]
  show ?thesis by (simp add: demo_completion_def)
qed

end
