(* ===== verification/ActionPermit.thy ===== *)
theory ActionPermit
  imports Prelude
begin

text \<open>
  \<open>src/biz/action-permit/services/action-permit.service.ts\<close> with
  \<open>src/types/action-permit.types.ts\<close>: may the agent act in a chat now.  The services asked are
  ports; the roster of hosted bots is cached for five seconds in the service's own state, and a
  caller that finds the request of another call on its way waits for that one.

  The model is one call of \<open>evaluate\<close>; the other calls of the process act on the same world while
  its ports wait for their answers.  \<open>roster_request\<close> is the field \<open>rosterRequest\<close>: when the
  request will settle and with which answer.  \<open>roster_answers\<close> is a history for the theorems, which
  no code reads: every list the provider answered, with the time of the answer.
\<close>

datatype permitted_action = REPLY | PROACTIVE | TOOL

datatype denial_reason =
  GLOBAL_DISABLED | HOSTING_PAUSED | CANDIDATE_BLACKLISTED | GROUP_BLACKLISTED | RECEIVING_BOT_NOT_HOSTED | PERMIT_UNAVAILABLE

fun denial_text :: "denial_reason \<Rightarrow> string" where
  "denial_text GLOBAL_DISABLED = ''global_disabled''"
| "denial_text HOSTING_PAUSED = ''hosting_paused''"
| "denial_text CANDIDATE_BLACKLISTED = ''candidate_blacklisted''"
| "denial_text GROUP_BLACKLISTED = ''group_blacklisted''"
| "denial_text RECEIVING_BOT_NOT_HOSTED = ''receiving_bot_not_hosted''"
| "denial_text PERMIT_UNAVAILABLE = ''permit_unavailable''"

record permit_input =
  in_chatId :: string
  in_action :: permitted_action
  in_botImId :: "string option"
  in_groupId :: "string option"
  in_candidateIds :: "string option list"

text \<open>\<open>pauseExpiresAt\<close> is absent, null or a time.\<close>

datatype permit = Allowed | Denied denial_reason "int option option"

record bot_account =
  bot_wxid :: "string option"
  bot_id :: "string option"
  bot_weixin :: "string option"
  bot_wecomUserId :: "string option"
  bot_groupId :: "string option"

record permit_world =
  permit_clock :: int
  roster :: "(int \<times> bot_account list) option"
  roster_request :: "(int \<times> (exn + bot_account list)) option"
  roster_answers :: "(int \<times> bot_account list) list"

record 'w permit_ports =
  pp_getChatPause :: "string \<Rightarrow> ('w, bool \<times> int option) act"
  pp_matchBlacklisted :: "string option list \<Rightarrow> ('w, bool) act"
  pp_reengagementEnabled :: "('w, bool) act"
  pp_aiReplyEnabled :: "('w, bool) act"
  pp_isGroupBlacklisted :: "string \<Rightarrow> ('w, bool) act"
  pp_configuredBots :: "('w, bot_account list) act"

text \<open>The \<open>then\<close> of the request: the answer is kept for five seconds.\<close>

definition store_roster :: "bot_account list \<Rightarrow> 'x permit_world_scheme \<Rightarrow> 'x permit_world_scheme" where
  "store_roster bots w = w\<lparr>roster := Some (permit_clock w + 5000, bots),
     roster_answers := roster_answers w @ [(permit_clock w, bots)]\<rparr>"

definition roster_settled :: "(exn + bot_account list) \<Rightarrow> 'x permit_world_scheme
    \<Rightarrow> (exn + bot_account list) \<times> 'x permit_world_scheme" where
  "roster_settled r w = (r, (case r of Inl _ \<Rightarrow> w | Inr bots \<Rightarrow> store_roster bots w)\<lparr>roster_request := None\<rparr>)"

definition getRoster :: "'x permit_world_scheme permit_ports \<Rightarrow> ('x permit_world_scheme, bot_account list) act" where
  "getRoster P w =
     (let request = (case roster_request w of
          Some (settles, r) \<Rightarrow> roster_settled r (w\<lparr>permit_clock := max (permit_clock w) settles\<rparr>)
        | None \<Rightarrow> (case pp_configuredBots P w of (r, w') \<Rightarrow> roster_settled r w'))
      in case roster w of
           Some (expiresAt, bots) \<Rightarrow> if permit_clock w < expiresAt then (Inr bots, w) else request
         | None \<Rightarrow> request)"

definition bot_matches :: "string \<Rightarrow> bot_account \<Rightarrow> bool" where
  "bot_matches botId b \<longleftrightarrow> list_ex (\<lambda>x. case x of None \<Rightarrow> False | Some v \<Rightarrow> trim v = botId)
     [bot_wxid b, bot_id b, bot_weixin b, bot_wecomUserId b]"

definition effective_group :: "permit_input \<Rightarrow> bot_account \<Rightarrow> string option" where
  "effective_group i b = (case in_groupId i of Some g \<Rightarrow> Some g | None \<Rightarrow> bot_groupId b)"

definition evaluate_body :: "'x permit_world_scheme permit_ports \<Rightarrow> permit_input \<Rightarrow> ('x permit_world_scheme, permit) act" where
  "evaluate_body P i =
     act_bind (pp_getChatPause P (in_chatId i)) (\<lambda>(paused, expires).
     if paused then act_ret (Denied HOSTING_PAUSED (Some expires))
     else act_bind (pp_matchBlacklisted P (Some (in_chatId i) # in_candidateIds i)) (\<lambda>hit.
     if hit then act_ret (Denied CANDIDATE_BLACKLISTED None)
     else act_bind (if in_action i = PROACTIVE then pp_reengagementEnabled P else pp_aiReplyEnabled P) (\<lambda>enabled.
     if \<not> enabled then act_ret (Denied GLOBAL_DISABLED None)
     else case in_botImId i of
       None \<Rightarrow> act_ret (Denied RECEIVING_BOT_NOT_HOSTED None)
     | Some raw \<Rightarrow>
        if trim raw = [] then act_ret (Denied RECEIVING_BOT_NOT_HOSTED None)
        else act_bind (getRoster P) (\<lambda>bots.
          case List.find (bot_matches (trim raw)) bots of
            None \<Rightarrow> act_ret (Denied RECEIVING_BOT_NOT_HOSTED None)
          | Some acct \<Rightarrow>
             (case effective_group i acct of
                None \<Rightarrow> act_ret Allowed
              | Some g \<Rightarrow>
                  if in_action i \<noteq> PROACTIVE \<and> g \<noteq> []
                  then act_bind (pp_isGroupBlacklisted P g)
                         (\<lambda>bad. if bad then act_ret (Denied GROUP_BLACKLISTED None) else act_ret Allowed)
                  else act_ret Allowed)))))"

definition evaluate :: "'x permit_world_scheme permit_ports \<Rightarrow> permit_input \<Rightarrow> ('x permit_world_scheme, permit) act" where
  "evaluate P i = act_catch (evaluate_body P i) (\<lambda>_. act_ret (Denied PERMIT_UNAVAILABLE None))"

section \<open>Lemmas\<close>

text \<open>
  \<open>roster_ok\<close>: the cached list is an answer of the provider, kept until five seconds after it came.
  \<open>roster_kept\<close> is what is relied on of everything that happens while a port waits, other calls of
  \<open>evaluate\<close> in particular; that a call itself keeps it is part of the theorem.
\<close>

definition roster_ok :: "'x permit_world_scheme \<Rightarrow> bool" where
  "roster_ok w \<longleftrightarrow> (case roster w of None \<Rightarrow> True | Some (e, bots) \<Rightarrow> (e - 5000, bots) \<in> set (roster_answers w))"

definition keeps_ok :: "('x permit_world_scheme, 'a) act \<Rightarrow> bool" where
  "keeps_ok m \<longleftrightarrow> (\<forall>w. roster_ok w \<longrightarrow> roster_ok (snd (m w)))"

definition roster_kept :: "'x permit_world_scheme permit_ports \<Rightarrow> bool" where
  "roster_kept P \<longleftrightarrow> (\<forall>c. keeps_ok (pp_getChatPause P c)) \<and> (\<forall>c. keeps_ok (pp_matchBlacklisted P c)) \<and>
     keeps_ok (pp_reengagementEnabled P) \<and> keeps_ok (pp_aiReplyEnabled P) \<and>
     (\<forall>g. keeps_ok (pp_isGroupBlacklisted P g)) \<and> keeps_ok (pp_configuredBots P)"

lemma keeps_okD: "keeps_ok m \<Longrightarrow> m w = (r, w') \<Longrightarrow> roster_ok w \<Longrightarrow> roster_ok w'"
  by (auto simp: keeps_ok_def dest: spec [of _ w])

lemma keeps_ok_ret: "keeps_ok (act_ret v)"
  by (simp add: keeps_ok_def act_ret_def)

lemma keeps_ok_bind: "keeps_ok m \<Longrightarrow> (\<And>v. keeps_ok (n v)) \<Longrightarrow> keeps_ok (act_bind m n)"
  by (fastforce simp: keeps_ok_def act_bind_def split: prod.split sum.split)

lemma keeps_ok_catch: "keeps_ok m \<Longrightarrow> (\<And>e. keeps_ok (h e)) \<Longrightarrow> keeps_ok (act_catch m h)"
  by (fastforce simp: keeps_ok_def act_catch_def split: prod.split sum.split)

lemmas keeps_ok_intro = keeps_ok_ret keeps_ok_bind keeps_ok_catch

lemma roster_settled_ok: "roster_settled r w = (q, w') \<Longrightarrow> roster_ok w \<Longrightarrow> q = r \<and> roster_ok w' \<and>
    (\<forall>bots. r = Inr bots \<longrightarrow> (permit_clock w', bots) \<in> set (roster_answers w'))"
  by (cases r) (auto simp: roster_settled_def store_roster_def roster_ok_def split: option.splits)

lemma roster_ok_clock [simp]: "roster_ok (w\<lparr>permit_clock := t\<rparr>) = roster_ok w"
  by (simp add: roster_ok_def split: option.split)

text \<open>A list that \<open>getRoster\<close> answers with came from the provider less than five seconds ago.\<close>

lemma getRoster_fresh:
  assumes g: "getRoster P w = (q, w')" and ok: "roster_ok w" and kept: "keeps_ok (pp_configuredBots P)"
  shows "roster_ok w' \<and> (\<forall>bots. q = Inr bots \<longrightarrow>
    (\<exists>t. (t, bots) \<in> set (roster_answers w') \<and> permit_clock w' < t + 5000))"
proof (cases "\<exists>e bots. roster w = Some (e, bots) \<and> permit_clock w < e")
  case True
  then obtain e bots where e: "roster w = Some (e, bots)" "permit_clock w < e" by blast
  then have "(e - 5000, bots) \<in> set (roster_answers w)" using ok by (simp add: roster_ok_def)
  moreover have "permit_clock w < (e - 5000) + 5000" using e by simp
  ultimately show ?thesis using g e ok by (auto simp: getRoster_def Let_def simp del: diff_add_cancel)
next
  case False
  obtain r w1 where s: "roster_settled r w1 = (q, w')" "roster_ok w1"
  proof (cases "roster_request w")
    case None
    obtain r w1 where c: "pp_configuredBots P w = (r, w1)" by fastforce
    have "roster_ok w1" using kept ok c by (auto simp: keeps_ok_def)
    moreover have "roster_settled r w1 = (q, w')" using g False None c
      by (auto simp: getRoster_def Let_def split: option.splits)
    ultimately show ?thesis by (rule that [rotated])
  next
    case (Some p)
    obtain settles r where p: "p = (settles, r)" by fastforce
    have "roster_settled r (w\<lparr>permit_clock := max (permit_clock w) settles\<rparr>) = (q, w')" using g False Some p
      by (auto simp: getRoster_def Let_def split: option.splits)
    then show ?thesis by (rule that) (simp add: ok)
  qed
  from roster_settled_ok [OF this] show ?thesis by (auto intro!: exI [of _ "permit_clock w'"])
qed

lemma evaluate_keeps_ok:
  assumes "roster_kept P"
  shows "keeps_ok (evaluate P i)"
proof -
  have rost: "keeps_ok (getRoster P)"
    unfolding keeps_ok_def using getRoster_fresh assms by (metis roster_kept_def prod.collapse)
  show ?thesis
    unfolding evaluate_def evaluate_body_def
    by (intro keeps_ok_intro rost) (use assms in \<open>auto simp: roster_kept_def intro!: keeps_ok_intro rost split: option.splits\<close>)
qed

section \<open>Properties\<close>

text \<open>The permit fails closed: whichever service fails, the answer is a denial, never an exception.\<close>

lemma permit_fails_closed:
  "never_rejects (evaluate P i) \<and>
   (\<forall>e w'. evaluate_body P i w = (Inl e, w') \<longrightarrow> evaluate P i w = (Inr (Denied PERMIT_UNAVAILABLE None), w'))"
  by (simp add: evaluate_def act_catch_def never_rejects_def split: prod.split sum.split)

text \<open>C37: an allowed action had every consent, in this order: the chat is not paused, nobody in it is
  blacklisted, the switch of the kind of action is on, the receiving bot is in the roster, and for a
  reply or a tool its group is not blacklisted.  The list of bots came from the provider less than five
  seconds before it was used, whatever other calls did with the cache meanwhile; and the call leaves
  the cache fit for the next call, whatever it answers.  (\<open>roster_kept\<close>: what happens while a port
  waits keeps the cache so, as every call of \<open>evaluate\<close> does.)\<close>

theorem allowed_has_every_consent:
  assumes kept: "roster_kept P" and ok: "roster_ok w"
  shows "roster_ok (snd (evaluate P i w)) \<and> (\<forall>w'. evaluate P i w = (Inr Allowed, w') \<longrightarrow> (\<exists>ex w1 w2 w3 w4 bots acct raw.
    pp_getChatPause P (in_chatId i) w = (Inr (False, ex), w1) \<and>
    pp_matchBlacklisted P (Some (in_chatId i) # in_candidateIds i) w1 = (Inr False, w2) \<and>
    (if in_action i = PROACTIVE then pp_reengagementEnabled P else pp_aiReplyEnabled P) w2 = (Inr True, w3) \<and>
    in_botImId i = Some raw \<and> getRoster P w3 = (Inr bots, w4) \<and>
    (\<exists>t. (t, bots) \<in> set (roster_answers w4) \<and> permit_clock w4 < t + 5000) \<and> acct \<in> set bots \<and> bot_matches (trim raw) acct \<and>
    (in_action i \<noteq> PROACTIVE \<longrightarrow> (\<forall>g. effective_group i acct = Some g \<and> g \<noteq> [] \<longrightarrow>
       pp_isGroupBlacklisted P g w4 = (Inr False, w')))))"
proof (intro conjI allI impI)
  show "roster_ok (snd (evaluate P i w))" using evaluate_keeps_ok [OF kept] ok by (simp add: keeps_ok_def)
next
  fix w' assume allowed: "evaluate P i w = (Inr Allowed, w')"
  have "evaluate_body P i w = (Inr Allowed, w')"
    using allowed by (auto simp: evaluate_def elim: act_catch_InrE)
  then obtain ex w1 w2 w3 where
    1: "pp_getChatPause P (in_chatId i) w = (Inr (False, ex), w1)"
    and 2: "pp_matchBlacklisted P (Some (in_chatId i) # in_candidateIds i) w1 = (Inr False, w2)"
    and 3: "(if in_action i = PROACTIVE then pp_reengagementEnabled P else pp_aiReplyEnabled P) w2 = (Inr True, w3)"
    and rest: "(case in_botImId i of
       None \<Rightarrow> act_ret (Denied RECEIVING_BOT_NOT_HOSTED None)
     | Some raw \<Rightarrow>
        if trim raw = [] then act_ret (Denied RECEIVING_BOT_NOT_HOSTED None)
        else act_bind (getRoster P) (\<lambda>bots.
          case List.find (bot_matches (trim raw)) bots of
            None \<Rightarrow> act_ret (Denied RECEIVING_BOT_NOT_HOSTED None)
          | Some acct \<Rightarrow>
             (case effective_group i acct of
                None \<Rightarrow> act_ret Allowed
              | Some g \<Rightarrow>
                  if in_action i \<noteq> PROACTIVE \<and> g \<noteq> []
                  then act_bind (pp_isGroupBlacklisted P g)
                         (\<lambda>bad. if bad then act_ret (Denied GROUP_BLACKLISTED None) else act_ret Allowed)
                  else act_ret Allowed))) w3 = (Inr Allowed, w')"
    unfolding evaluate_body_def
    by (elim act_bind_InrE) (auto split: if_splits elim!: act_bind_InrE)
  then obtain raw where raw: "in_botImId i = Some raw" "trim raw \<noteq> []"
    by (auto split: option.splits if_splits)
  with rest obtain bots w4 where 4: "getRoster P w3 = (Inr bots, w4)"
    and found: "(case List.find (bot_matches (trim raw)) bots of
            None \<Rightarrow> act_ret (Denied RECEIVING_BOT_NOT_HOSTED None)
          | Some acct \<Rightarrow>
             (case effective_group i acct of
                None \<Rightarrow> act_ret Allowed
              | Some g \<Rightarrow>
                  if in_action i \<noteq> PROACTIVE \<and> g \<noteq> []
                  then act_bind (pp_isGroupBlacklisted P g)
                         (\<lambda>bad. if bad then act_ret (Denied GROUP_BLACKLISTED None) else act_ret Allowed)
                  else act_ret Allowed)) w4 = (Inr Allowed, w')"
    by (auto elim: act_bind_InrE)
  then obtain acct where acct: "List.find (bot_matches (trim raw)) bots = Some acct"
    by (auto split: option.splits)
  then have "acct \<in> set bots" "bot_matches (trim raw) acct"
    by (auto simp: find_Some_iff)
  moreover have "pp_isGroupBlacklisted P g w4 = (Inr False, w')"
    if "in_action i \<noteq> PROACTIVE" "effective_group i acct = Some g" "g \<noteq> []" for g
    using found acct that by (auto elim!: act_bind_InrE split: if_splits)
  moreover have "roster_ok w3"
  proof -
    have k: "keeps_ok (pp_getChatPause P (in_chatId i))" "keeps_ok (pp_matchBlacklisted P (Some (in_chatId i) # in_candidateIds i))"
      "keeps_ok (if in_action i = PROACTIVE then pp_reengagementEnabled P else pp_aiReplyEnabled P)"
      using kept by (simp_all add: roster_kept_def)
    show ?thesis using keeps_okD [OF k(3) 3 keeps_okD [OF k(2) 2 keeps_okD [OF k(1) 1 ok]]] .
  qed
  then have "\<exists>t. (t, bots) \<in> set (roster_answers w4) \<and> permit_clock w4 < t + 5000"
    using getRoster_fresh [OF 4] kept by (simp add: roster_kept_def)
  ultimately show "\<exists>ex w1 w2 w3 w4 bots acct raw.
    pp_getChatPause P (in_chatId i) w = (Inr (False, ex), w1) \<and>
    pp_matchBlacklisted P (Some (in_chatId i) # in_candidateIds i) w1 = (Inr False, w2) \<and>
    (if in_action i = PROACTIVE then pp_reengagementEnabled P else pp_aiReplyEnabled P) w2 = (Inr True, w3) \<and>
    in_botImId i = Some raw \<and> getRoster P w3 = (Inr bots, w4) \<and>
    (\<exists>t. (t, bots) \<in> set (roster_answers w4) \<and> permit_clock w4 < t + 5000) \<and> acct \<in> set bots \<and> bot_matches (trim raw) acct \<and>
    (in_action i \<noteq> PROACTIVE \<longrightarrow> (\<forall>g. effective_group i acct = Some g \<and> g \<noteq> [] \<longrightarrow>
       pp_isGroupBlacklisted P g w4 = (Inr False, w')))"
    using 1 2 3 raw(1) 4 by blast
qed

section \<open>Witnesses\<close>

definition demo_bot :: bot_account where
  "demo_bot = \<lparr>bot_wxid = Some ''wx'', bot_id = None, bot_weixin = None, bot_wecomUserId = None, bot_groupId = Some ''g''\<rparr>"

definition demo_permit_ports :: "permit_world permit_ports" where
  "demo_permit_ports = \<lparr>pp_getChatPause = (\<lambda>_. act_ret (False, None)), pp_matchBlacklisted = (\<lambda>_. act_ret False),
     pp_reengagementEnabled = act_ret True, pp_aiReplyEnabled = act_ret True,
     pp_isGroupBlacklisted = (\<lambda>_. act_ret False), pp_configuredBots = act_ret [demo_bot]\<rparr>"

definition demo_permit_input :: permit_input where
  "demo_permit_input = \<lparr>in_chatId = ''chat'', in_action = REPLY, in_botImId = Some '' wx '', in_groupId = None, in_candidateIds = []\<rparr>"

text \<open>The list in the cache came at 1000; the call at 5999 still uses it.\<close>

definition demo_permit_world :: permit_world where
  "demo_permit_world = \<lparr>permit_clock = 5999, roster = Some (6000, [demo_bot]), roster_request = None,
     roster_answers = [(1000, [demo_bot])]\<rparr>"

theorem allowed_has_every_consent_witness:
  "fst (evaluate demo_permit_ports demo_permit_input demo_permit_world) = Inr Allowed \<and>
   roster_ok (snd (evaluate demo_permit_ports demo_permit_input demo_permit_world)) \<and>
   (\<exists>bots acct w4. acct \<in> set bots \<and> bot_matches ''wx'' acct \<and>
     getRoster demo_permit_ports demo_permit_world = (Inr bots, w4) \<and>
     (\<exists>t. (t, bots) \<in> set (roster_answers w4) \<and> permit_clock w4 < t + 5000))"
proof -
  have f: "fst (evaluate demo_permit_ports demo_permit_input demo_permit_world) = Inr Allowed" by code_simp
  then have e: "evaluate demo_permit_ports demo_permit_input demo_permit_world =
      (Inr Allowed, snd (evaluate demo_permit_ports demo_permit_input demo_permit_world))"
    by (metis prod.collapse)
  have kept: "roster_kept demo_permit_ports"
    by (simp add: roster_kept_def demo_permit_ports_def keeps_ok_ret)
  have ok: "roster_ok demo_permit_world" by (simp add: roster_ok_def demo_permit_world_def)
  have t: "trim '' wx '' = ''wx''" by code_simp
  have ports: "pp_getChatPause demo_permit_ports c w = (Inr (False, None), w)"
    "pp_matchBlacklisted demo_permit_ports ids w = (Inr False, w)" "pp_aiReplyEnabled demo_permit_ports w = (Inr True, w)"
    for c ids w
    by (simp_all add: demo_permit_ports_def act_ret_def)
  have input: "in_action demo_permit_input = REPLY" "in_botImId demo_permit_input = Some '' wx ''"
    by (simp_all add: demo_permit_input_def)
  note result = allowed_has_every_consent [OF kept ok, of demo_permit_input]
  from conjunct2 [OF result, THEN spec, THEN mp, OF e] obtain bots acct w4 where
    "acct \<in> set bots" "bot_matches ''wx'' acct" "getRoster demo_permit_ports demo_permit_world = (Inr bots, w4)"
    "\<exists>t. (t, bots) \<in> set (roster_answers w4) \<and> permit_clock w4 < t + 5000"
    by (auto simp: ports input t)
  with f conjunct1 [OF result] show ?thesis by blast
qed

end
