(* ===== verification/CronRunner.thy ===== *)
theory CronRunner
  imports RedisLease
begin

text \<open>
  \<open>src/infra/queue/cron-runner.service.ts\<close>: managed cron jobs.  \<open>run\<close> executes a task
  under a distributed lease with a row and time budget, \<open>runBatches\<close> drains bounded batches
  through it, and the bootstrap check reports missed rounds.  The row counter that the budget
  closures share is a field of the world.
\<close>

record 's cron_world = "'s redis_world" +
  rows_done :: int

record 's cron_service = "'s redis_service" +
  read_only :: bool
  production :: bool

section \<open>Managed jobs\<close>

record cron_definition =
  cd_id :: string
  intervalMs :: int
  offsetMs :: int
  weekdays :: "int list option"
  productionOnly :: bool

definition DAY :: int where
  "DAY = 86400000"

definition cron_definition_of :: "string \<Rightarrow> int \<Rightarrow> int \<Rightarrow> int list option \<Rightarrow> bool \<Rightarrow> cron_definition" where
  "cron_definition_of i every off days live =
     \<lparr>cd_id = i, intervalMs = every, offsetMs = off, weekdays = days, productionOnly = live\<rparr>"

definition MANAGED_CRONS :: "cron_definition list" where
  "MANAGED_CRONS =
     [cron_definition_of ''ops-daily-report'' DAY (13 * 3600000) None False,
      cron_definition_of ''sponge-status-poll'' (15 * 60000) 0 None False,
      cron_definition_of ''chat-record-sync'' DAY (16 * 3600000) None False,
      cron_definition_of ''group-order-morning'' DAY (2 * 3600000) None True,
      cron_definition_of ''group-order-afternoon'' DAY (5 * 3600000) None True,
      cron_definition_of ''group-order-evening'' DAY 34200000 None True,
      cron_definition_of ''group-part-time'' DAY 19800000 (Some [1, 2, 3, 4, 5]) True,
      cron_definition_of ''group-store-manager'' DAY 9000000 (Some [1, 2, 3, 4, 5]) True,
      cron_definition_of ''group-work-tips'' DAY (7 * 3600000) (Some [6]) True]"

text \<open>\<open>new Date(ms + 8h).getUTCDay()\<close>: Sunday is 0 and 1970-01-01 was a Thursday.\<close>

definition china_weekday :: "int \<Rightarrow> int" where
  "china_weekday t = ((t + 8 * 3600000) div DAY + 4) mod 7"

text \<open>The \<open>while\<close> that steps back to an allowed weekday; a week of steps meets every weekday.\<close>

fun back_to_weekday :: "nat \<Rightarrow> int list \<Rightarrow> int \<Rightarrow> int option" where
  "back_to_weekday 0 days t = None"
| "back_to_weekday (Suc fuel) days t =
     (if china_weekday t \<in> set days then Some t else back_to_weekday fuel days (t - DAY))"

definition latest_round :: "cron_definition \<Rightarrow> int \<Rightarrow> int option" where
  "latest_round d now =
     (let t = (now - offsetMs d) div intervalMs d * intervalMs d + offsetMs d
      in case weekdays d of None \<Rightarrow> Some t | Some days \<Rightarrow> back_to_weekday 7 days t)"

text \<open>The stored baseline is a number of milliseconds, printed in decimal.\<close>

definition read_number :: "string \<Rightarrow> int option" where
  "read_number s = (if s \<noteq> [] \<and> list_all (\<lambda>c. of_char c \<in> {48 .. 57 :: nat}) s
     then Some (fold (\<lambda>c n. n * 10 + int (of_char c - 48)) s 0) else None)"

definition check_definition :: "('s, 'y) cron_service_scheme \<Rightarrow> cron_definition
    \<Rightarrow> (('s, 'x) cron_world_scheme, unit) act" where
  "check_definition R d w =
     (let now = time_ms w; key = ''cron:last-observed:'' @ cd_id d in
      act_catch
        (act_bind (redis_get R key) (\<lambda>previous.
         act_bind (\<lambda>w'. (Inr (), case (previous, latest_round d now) of
             (Some p, Some latest) \<Rightarrow>
               (case read_number p of
                  Some base \<Rightarrow> if base < latest then report_failure ''cron.missed_schedule'' (cd_id d) w' else w'
                | None \<Rightarrow> w')
           | _ \<Rightarrow> w')) (\<lambda>_.
         redis_setex R key (90 * 86400) (show_int now))))
        (\<lambda>e w'. (Inr (), report_failure ''cron.schedule_check_failed'' (cd_id d) w')) w)"

definition onApplicationBootstrap :: "('s, 'y) cron_service_scheme \<Rightarrow> (('s, 'x) cron_world_scheme, unit) act" where
  "onApplicationBootstrap R =
     (if read_only R then act_ret ()
      else act_for (filter (\<lambda>d. \<not> (productionOnly d \<and> \<not> production R)) MANAGED_CRONS) (check_definition R))"

section \<open>run\<close>

definition quoted :: "string \<Rightarrow> string" where
  "quoted t = CHR 0x22 # t @ [CHR 0x22]"

definition event_json :: "string \<Rightarrow> string \<Rightarrow> int \<Rightarrow> int \<Rightarrow> int \<Rightarrow> string" where
  "event_json i st startedAt now n =
     CHR 0x7B # quoted ''id'' @ '':'' @ quoted i @ '','' @ quoted ''status'' @ '':'' @ quoted st @ '','' @
     quoted ''startedAt'' @ '':'' @ show_int startedAt @ '','' @ quoted ''updatedAt'' @ '':'' @ show_int now @ '','' @
     quoted ''rows'' @ '':'' @ show_int n @ [CHR 0x7D]"

definition cron_event :: "('s, 'y) cron_service_scheme \<Rightarrow> string \<Rightarrow> string \<Rightarrow> int \<Rightarrow> (('s, 'x) cron_world_scheme, unit) act" where
  "cron_event R i st startedAt w =
     redis_setex R (''cron:lifecycle:'' @ i) (90 * 86400) (event_json i st startedAt (time_ms w) (rows_done w)) w"

definition recordProcessed :: "int \<Rightarrow> int \<Rightarrow> (('s, 'x) cron_world_scheme, unit) act" where
  "recordProcessed maxRows count w =
     (if count < 0 \<or> maxRows < rows_done w + count then (Inl ''Invalid processed row count'', w)
      else (Inr (), w\<lparr>rows_done := rows_done w + count\<rparr>))"

definition checkpoint :: "('s, 'y) cron_service_scheme \<Rightarrow> redis_lease \<Rightarrow> int \<Rightarrow> int \<Rightarrow> int \<Rightarrow> int
    \<Rightarrow> (('s, 'x) cron_world_scheme, unit) act" where
  "checkpoint R l startedAt timeMs maxRows count w =
     (let w1 = w\<lparr>rows_done := rows_done w + count\<rparr> in
      if timeMs \<le> time_ms w1 - startedAt \<or> maxRows < rows_done w1 then (Inl ''Cron budget exhausted'', w1)
      else (case lease_renew R l w1 of
              (Inl e, w2) \<Rightarrow> (Inl e, w2)
            | (Inr ok, w2) \<Rightarrow> if ok then (Inr (), w2) else (Inl ''Cron lease lost'', w2)))"

text \<open>The budget a task receives: \<open>checkpoint\<close> and \<open>recordProcessed\<close>.\<close>

record 'w cron_budget =
  bg_checkpoint :: "int \<Rightarrow> ('w, unit) act"
  bg_recordProcessed :: "int \<Rightarrow> ('w, unit) act"

definition ceil_div :: "int \<Rightarrow> int \<Rightarrow> int" where
  "ceil_div a b = - ((- a) div b)"

definition cron_body :: "('s, 'y) cron_service_scheme \<Rightarrow> string \<Rightarrow> redis_lease \<Rightarrow> int \<Rightarrow> int \<Rightarrow> int
    \<Rightarrow> (('s, 'x) cron_world_scheme cron_budget \<Rightarrow> (('s, 'x) cron_world_scheme, 'a) act)
    \<Rightarrow> (('s, 'x) cron_world_scheme, 'a option) act" where
  "cron_body R i l startedAt timeMs maxRows task =
     act_bind (redis_setex R (''cron:last-observed:'' @ i) (90 * 86400) (show_int startedAt)) (\<lambda>_.
     act_bind (cron_event R i ''started'' startedAt) (\<lambda>_.
     act_bind (task \<lparr>bg_checkpoint = checkpoint R l startedAt timeMs maxRows,
                     bg_recordProcessed = recordProcessed maxRows\<rparr>) (\<lambda>r.
     act_bind (cron_event R i ''completed'' startedAt) (\<lambda>_. act_ret (Some r)))))"

definition cron_run :: "('s, 'y) cron_service_scheme \<Rightarrow> string \<Rightarrow> int \<Rightarrow> int
    \<Rightarrow> (('s, 'x) cron_world_scheme cron_budget \<Rightarrow> (('s, 'x) cron_world_scheme, 'a) act)
    \<Rightarrow> (('s, 'x) cron_world_scheme, 'a option) act" where
  "cron_run R i timeMs maxRows task w =
     (if read_only R then (Inr None, w)
      else if timeMs \<le> 0 \<or> maxRows \<le> 0 then (Inl ''Cron budgets must be finite and positive'', w)
      else (case lease_acquire R (''cron:lock:'' @ i) (ceil_div timeMs 1000 + 60) no_options w of
              (Inl e, w1) \<Rightarrow> (Inl e, w1)
            | (Inr None, w1) \<Rightarrow> (Inr None, w1)
            | (Inr (Some l), w1) \<Rightarrow>
                (let startedAt = time_ms w1 in
                 act_finally
                   (act_catch (cron_body R i l startedAt timeMs maxRows task)
                      (\<lambda>e w2. act_bind
                         (act_catch (cron_event R i ''failed'' startedAt) (\<lambda>_. act_ret ()))
                         (\<lambda>_. act_ret None) (report_failure ''cron.job_failed'' i w2)))
                   (act_bind (lease_release R l) (\<lambda>_. act_ret ()))
                   (w1\<lparr>rows_done := 0\<rparr>))))"

section \<open>runBatches\<close>

fun batch_loop :: "nat \<Rightarrow> int \<Rightarrow> int \<Rightarrow> int \<Rightarrow> (int \<Rightarrow> (('s, 'x) cron_world_scheme, int) act)
    \<Rightarrow> ('s, 'x) cron_world_scheme cron_budget \<Rightarrow> int \<Rightarrow> (('s, 'x) cron_world_scheme, int) act" where
  "batch_loop 0 maxRows batchSize deadline batch b processed w = (Inl ''out of fuel'', w)"
| "batch_loop (Suc fuel) maxRows batchSize deadline batch b processed w =
     (if \<not> (processed < maxRows \<and> time_ms w < deadline) then (Inr processed, w)
      else (let size = min batchSize (maxRows - processed) in
        act_bind (bg_checkpoint b 0) (\<lambda>_.
        act_bind (batch size) (\<lambda>count.
        if count < 0 \<or> size < count then act_throw ''Invalid processed batch count''
        else act_bind (bg_recordProcessed b count) (\<lambda>_.
          if count < size then act_ret (processed + count)
          else batch_loop fuel maxRows batchSize deadline batch b (processed + count)))) w))"

definition batch_fuel :: "int \<Rightarrow> nat" where
  "batch_fuel maxRows = nat maxRows + 1"

definition runBatches :: "('s, 'y) cron_service_scheme \<Rightarrow> string \<Rightarrow> int \<Rightarrow> int \<Rightarrow> int
    \<Rightarrow> (int \<Rightarrow> (('s, 'x) cron_world_scheme, int) act) \<Rightarrow> (('s, 'x) cron_world_scheme, int option) act" where
  "runBatches R i timeMs maxRows batchSize batch =
     (if batchSize \<le> 0 then act_throw ''Batch size must be a positive integer''
      else cron_run R i timeMs maxRows
        (\<lambda>b w. batch_loop (batch_fuel maxRows) maxRows batchSize (time_ms w + timeMs) batch b 0 w))"

section \<open>Where a batch may run\<close>

text \<open>
  \<open>batch_allowed\<close>: at the moment the batch starts, the lease key holds the owner of \<open>l\<close>, and the
  size is between one and the batch size and fits into what is left of the row budget.  The rows
  done so far are counted outside the code, by \<open>cnt\<close> in the part of the world that neither the
  runner nor Redis touches.
\<close>

definition batch_allowed :: "('s, 'y) cron_service_scheme \<Rightarrow> redis_lease \<Rightarrow> int \<Rightarrow> int \<Rightarrow> ('x \<Rightarrow> int) \<Rightarrow> int
    \<Rightarrow> ('s, 'x) cron_world_scheme \<Rightarrow> bool" where
  "batch_allowed R l maxRows batchSize cnt sz w \<longleftrightarrow>
     holds R l w \<and> 0 < sz \<and> sz \<le> batchSize \<and> sz \<le> maxRows - cnt (cron_world.more w)"

lemma more_frame [simp]:
  fixes w :: "('s, 'x) cron_world_scheme"
  shows "cron_world.more (w\<lparr>server := s\<rparr>) = cron_world.more w"
    "cron_world.more (w\<lparr>time_ms := t\<rparr>) = cron_world.more w"
    "cron_world.more (w\<lparr>network := n\<rparr>) = cron_world.more w"
    "cron_world.more (w\<lparr>reports := r\<rparr>) = cron_world.more w"
    "cron_world.more (w\<lparr>next_uuid := u\<rparr>) = cron_world.more w"
    "cron_world.more (w\<lparr>rows_done := d\<rparr>) = cron_world.more w"
  by (cases w, simp)+

lemma redis_call_more:
  fixes w :: "('s, 'x) cron_world_scheme"
  shows "redis_call f w = (r, w') \<Longrightarrow> cron_world.more w' = cron_world.more w"
  by (auto simp: redis_call_def net_arrive_def Let_def split: prod.splits net_fault.splits)

lemma redis_setex_more:
  fixes w :: "('s, 'x) cron_world_scheme"
  shows "redis_setex R k t v w = (r, w') \<Longrightarrow> cron_world.more w' = cron_world.more w"
  unfolding redis_setex_def by (rule redis_call_more)

lemma cron_event_more: "cron_event R i st at w = (r, w') \<Longrightarrow> cron_world.more w' = cron_world.more w"
  unfolding cron_event_def by (rule redis_setex_more)

lemma checkpoint_more: "checkpoint R l st tm mx c w = (r, w') \<Longrightarrow> cron_world.more w' = cron_world.more w"
  by (auto simp: checkpoint_def lease_renew_def redis_eval_def report_failure_def Let_def
      dest!: redis_call_more split: if_splits prod.splits sum.splits)

lemma recordProcessed_more: "recordProcessed mx c w = (r, w') \<Longrightarrow> cron_world.more w' = cron_world.more w"
  by (auto simp: recordProcessed_def split: if_splits)

lemma acquire_loop_more:
  fixes w :: "('s, 'x) cron_world_scheme"
  shows "acquire_loop fuel R l poll deadline w = Some (r, w') \<Longrightarrow> cron_world.more w' = cron_world.more w"
proof (induction fuel arbitrary: w)
  case (Suc fuel)
  obtain q w1 where c: "redis_setNx R (lease_key l) (lease_owner l) (ttlSeconds l) w = (q, w1)" by fastforce
  have "cron_world.more w1 = cron_world.more w" using c unfolding redis_setNx_def by (rule redis_call_more)
  then show ?case using Suc c
    by (auto simp: Let_def lease_sleep_def split: sum.splits bool.splits if_splits)
qed simp

lemma lease_acquire_more:
  fixes w :: "('s, 'x) cron_world_scheme"
  shows "lease_acquire R k t opts w = (r, w') \<Longrightarrow> cron_world.more w' = cron_world.more w"
  by (auto simp: lease_acquire_def report_failure_def Let_def dest!: acquire_loop_more
      split: if_splits option.splits prod.splits sum.splits)

lemma checkpoint_holds:
  assumes "redis_documented (rs_cmds R)" and "0 < ttlSeconds l" and "checkpoint R l st tm mx c w = (Inr u, w')"
  shows "holds R l w'"
proof -
  have "lease_renew R l (w\<lparr>rows_done := rows_done w + c\<rparr>) = (Inr True, w')"
    using assms(3) by (auto simp: checkpoint_def Let_def split: if_splits prod.splits sum.splits)
  then show ?thesis by (rule renew_True_holds [OF assms(1,2)])
qed

lemma batch_loop_agree:
  assumes R: "redis_documented (rs_cmds R)" and l: "0 < ttlSeconds l"
    and pos: "0 < batchSize"
    and counts: "\<And>sz v n v'. batch sz v = (Inr n, v') \<Longrightarrow> cnt (cron_world.more v') = cnt (cron_world.more v) + n"
    and same: "\<And>sz v. batch_allowed R l maxRows batchSize cnt sz v \<Longrightarrow> batch sz v = batch' sz v"
  shows "cnt (cron_world.more w) = processed \<Longrightarrow>
    batch_loop fuel maxRows batchSize deadline batch
      \<lparr>bg_checkpoint = checkpoint R l st tm mx, bg_recordProcessed = recordProcessed mx\<rparr> processed w =
    batch_loop fuel maxRows batchSize deadline batch'
      \<lparr>bg_checkpoint = checkpoint R l st tm mx, bg_recordProcessed = recordProcessed mx\<rparr> processed w"
proof (induction fuel arbitrary: processed w)
  case (Suc fuel)
  obtain r w1 where cp: "checkpoint R l st tm mx 0 w = (r, w1)" by fastforce
  let ?sz = "min batchSize (maxRows - processed)"
  show ?case
  proof (cases "processed < maxRows \<and> time_ms w < deadline \<and> isl r = False")
    case True
    then obtain u where u: "r = Inr u" by (cases r) auto
    have "holds R l w1" by (rule checkpoint_holds [OF R l cp [unfolded u]])
    moreover have m1: "cnt (cron_world.more w1) = processed" using checkpoint_more [OF cp] Suc.prems by simp
    ultimately have "batch_allowed R l maxRows batchSize cnt ?sz w1"
      using True pos by (auto simp: batch_allowed_def)
    then have b: "batch ?sz w1 = batch' ?sz w1" by (rule same)
    obtain q w2 where q: "batch' ?sz w1 = (q, w2)" by fastforce
    show ?thesis
    proof (cases q)
      case (Inl e)
      then show ?thesis using cp u True b q by (simp add: act_bind_def Let_def)
    next
      case (Inr n)
      obtain q3 w3 where q3: "recordProcessed mx n w2 = (q3, w3)" by fastforce
      have "cnt (cron_world.more w3) = processed + n"
        using counts [of ?sz w1 n w2] b q Inr m1 recordProcessed_more [OF q3] by simp
      from Suc.IH [OF this] show ?thesis using cp u True b q q3 Inr
        by (cases q3) (simp_all add: act_bind_def Let_def)
    qed
  next
    case False
    then show ?thesis using cp by (cases r) (auto simp: act_bind_def Let_def)
  qed
qed simp

section \<open>Bounds\<close>

lemma batch_loop_bound:
  assumes "0 \<le> batchSize"
  shows "0 \<le> processed \<Longrightarrow> processed \<le> maxRows \<Longrightarrow>
    batch_loop fuel maxRows batchSize deadline batch b processed w = (Inr n, w') \<Longrightarrow> processed \<le> n \<and> n \<le> maxRows"
proof (induction fuel arbitrary: processed w)
  case (Suc fuel)
  show ?case
  proof (cases "processed < maxRows \<and> time_ms w < deadline")
    case True
    let ?sz = "min batchSize (maxRows - processed)"
    obtain u w1 where cp: "bg_checkpoint b 0 w = (Inr u, w1)"
      using Suc.prems(3) True by (auto simp: act_bind_def Let_def split: prod.splits sum.splits)
    obtain count w2 where bt: "batch ?sz w1 = (Inr count, w2)"
      using Suc.prems(3) True cp by (auto simp: act_bind_def Let_def split: prod.splits sum.splits)
    have c: "0 \<le> count" "count \<le> ?sz"
      using Suc.prems(3) True cp bt by (auto simp: act_bind_def Let_def split: if_splits)
    obtain u' w3 where rp: "bg_recordProcessed b count w2 = (Inr u', w3)"
      using Suc.prems(3) True cp bt c by (auto simp: act_bind_def Let_def split: prod.splits sum.splits)
    have "n = processed + count \<or> batch_loop fuel maxRows batchSize deadline batch b (processed + count) w3 = (Inr n, w')"
      using Suc.prems(3) True cp bt c rp by (auto simp: act_bind_def Let_def split: if_splits)
    then show ?thesis using Suc.IH [of "processed + count" w3] Suc.prems(1,2) c by auto
  qed (use Suc.prems in simp)
qed simp

text \<open>Every round but the last processes a full batch, so \<open>maxRows + 1\<close> rounds are enough.\<close>

lemma batch_loop_fuel:
  assumes "0 < batchSize" and noerr: "\<And>sz w. fst (batch sz w) \<noteq> Inl ''out of fuel''"
    and cp: "\<And>w. fst (bg_checkpoint b 0 w) \<noteq> Inl ''out of fuel''"
    and rp: "\<And>c w. fst (bg_recordProcessed b c w) \<noteq> Inl ''out of fuel''"
  shows "maxRows - processed < int fuel \<Longrightarrow> 0 < fuel \<Longrightarrow>
    fst (batch_loop fuel maxRows batchSize deadline batch b processed w) \<noteq> Inl ''out of fuel''"
proof (induction fuel arbitrary: processed w)
  case (Suc fuel)
  show ?case
  proof (cases "processed < maxRows \<and> time_ms w < deadline")
    case True
    let ?sz = "min batchSize (maxRows - processed)"
    have sz: "0 < ?sz" using True assms(1) by simp
    obtain r1 w1 where c: "bg_checkpoint b 0 w = (r1, w1)" by fastforce
    obtain r2 w2 where bt: "batch ?sz w1 = (r2, w2)" by fastforce
    have ne: "r1 \<noteq> Inl ''out of fuel''" "r2 \<noteq> Inl ''out of fuel''"
      using cp [of w] noerr [of ?sz w1] c bt by auto
    have ih: "fst (batch_loop fuel maxRows batchSize deadline batch b (processed + ?sz) w3) \<noteq> Inl ''out of fuel''" for w3
    proof (rule Suc.IH)
      show "maxRows - (processed + ?sz) < int fuel" using Suc.prems(1) sz by linarith
      show "0 < fuel" using Suc.prems(1) True by (cases fuel) simp_all
    qed
    show ?thesis
    proof (cases r1)
      case (Inl e)
      then show ?thesis using True c ne by (simp add: act_bind_def Let_def)
    next
      case (Inr u)
      show ?thesis
      proof (cases r2)
        case (Inl e)
        then show ?thesis using True c ne bt \<open>r1 = Inr u\<close> by (simp add: act_bind_def Let_def)
      next
        case (Inr count)
        obtain r3 w3 where rpc: "bg_recordProcessed b count w2 = (r3, w3)" by fastforce
        have ne3: "r3 \<noteq> Inl ''out of fuel''" using rp [of count w2] rpc by auto
        show ?thesis
        proof -
          consider "count < 0 \<or> ?sz < count" | "count = ?sz" | "0 \<le> count" "count < ?sz" by linarith
          then show ?thesis
          proof cases
            case 1
            then show ?thesis using True c bt \<open>r1 = Inr u\<close> Inr by (simp only: batch_loop.simps) (simp add: act_bind_def Let_def)
          next
            case 2
            then show ?thesis
              using True sz c bt \<open>r1 = Inr u\<close> Inr rpc ne3 ih [of w3] by (cases r3) (simp_all add: act_bind_def Let_def)
          next
            case 3
            then show ?thesis
              using True c bt \<open>r1 = Inr u\<close> Inr rpc ne3 by (cases r3) (simp_all add: act_bind_def Let_def)
          qed
        qed
      qed
    qed
  qed simp
qed simp

section \<open>run\<close>

lemma cron_body_cong:
  assumes "\<And>v. cron_world.more v = cron_world.more w \<Longrightarrow>
         task \<lparr>bg_checkpoint = checkpoint R l st tm mx, bg_recordProcessed = recordProcessed mx\<rparr> v =
         task' \<lparr>bg_checkpoint = checkpoint R l st tm mx, bg_recordProcessed = recordProcessed mx\<rparr> v"
  shows "cron_body R i l st tm mx task w = cron_body R i l st tm mx task' w"
proof -
  obtain r1 w1 where 1: "redis_setex R (''cron:last-observed:'' @ i) (90 * 86400) (show_int st) w = (r1, w1)" by fastforce
  obtain r2 w2 where 2: "cron_event R i ''started'' st w1 = (r2, w2)" by fastforce
  have "cron_world.more w2 = cron_world.more w" using redis_setex_more [OF 1] cron_event_more [OF 2] by simp
  from assms [OF this] show ?thesis
    using 1 2 by (cases r1; cases r2) (simp_all add: cron_body_def act_bind_def)
qed

lemma cron_run_cong:
  assumes same: "\<And>l st v w1. lease_acquire R (''cron:lock:'' @ i) (ceil_div tm 1000 + 60) no_options w = (Inr (Some l), w1) \<Longrightarrow>
      lease_key l = ''cron:lock:'' @ i \<Longrightarrow> 0 < ttlSeconds l \<Longrightarrow> cron_world.more v = cron_world.more w \<Longrightarrow>
      task \<lparr>bg_checkpoint = checkpoint R l st tm mx, bg_recordProcessed = recordProcessed mx\<rparr> v =
      task' \<lparr>bg_checkpoint = checkpoint R l st tm mx, bg_recordProcessed = recordProcessed mx\<rparr> v"
    and R: "redis_documented (rs_cmds R)"
  shows "cron_run R i tm mx task w = cron_run R i tm mx task' w"
proof (cases "read_only R \<or> tm \<le> 0 \<or> mx \<le> 0")
  case False
  have "(- tm) div 1000 \<le> 0" using False by (simp add: div_nonpos_pos_le0)
  then have ttl: "0 < ceil_div tm 1000 + 60" unfolding ceil_div_def by linarith
  obtain r w1 where a: "lease_acquire R (''cron:lock:'' @ i) (ceil_div tm 1000 + 60) no_options w = (r, w1)"
    by fastforce
  show ?thesis
  proof (cases "\<exists>l. r = Inr (Some l)")
    case True
    then obtain l where l: "r = Inr (Some l)" by blast
    obtain fuel poll deadline who w0 where "acquire_loop fuel R
        \<lparr>lease_key = ''cron:lock:'' @ i, lease_owner = who, ttlSeconds = ceil_div tm 1000 + 60\<rparr> poll deadline w0 = Some (Inr (Some l), w1)"
      using lease_acquire_loop [OF a [unfolded l]] by metis
    from acquire_loop_holds [OF R _ this] ttl
    have k: "lease_key l = ''cron:lock:'' @ i" "0 < ttlSeconds l" by simp_all
    have "cron_body R i l (time_ms w1) tm mx task (w1\<lparr>rows_done := 0\<rparr>) =
        cron_body R i l (time_ms w1) tm mx task' (w1\<lparr>rows_done := 0\<rparr>)"
      by (rule cron_body_cong, rule same [OF a [unfolded l] k]) (simp add: lease_acquire_more [OF a])
    then show ?thesis using False a l
      by (simp add: cron_run_def act_finally_def act_catch_def)
  next
    case False
    then show ?thesis using a by (auto simp: cron_run_def split: sum.split option.split)
  qed
qed (auto simp: cron_run_def)

section \<open>Properties\<close>

text \<open>C35: a batch runs only while the lease key still holds the very owner under which this run took the
  lease, and only with a size between one and the batch size that fits into what is left of the row
  budget after the rows of the earlier batches: what the batch function would do in any other situation
  does not matter to \<open>runBatches\<close>.  The hypothesis \<open>counts\<close> only says that \<open>cnt\<close> adds up the counts the
  batches answered.\<close>

theorem batches_run_under_lease_and_limits:
  fixes cnt :: "'x \<Rightarrow> int" and w :: "('s, 'x) cron_world_scheme"
  assumes documented: "redis_documented (rs_cmds R)"
    and counts: "\<And>sz v n v'. batch sz v = (Inr n, v') \<Longrightarrow> cnt (cron_world.more v') = cnt (cron_world.more v) + n"
    and start: "cnt (cron_world.more w) = 0"
    and same: "\<And>l w1 sz v. lease_acquire R (''cron:lock:'' @ i) (ceil_div timeMs 1000 + 60) no_options w = (Inr (Some l), w1) \<Longrightarrow>
      batch_allowed R l maxRows batchSize cnt sz v \<Longrightarrow> batch sz v = batch' sz v"
  shows "runBatches R i timeMs maxRows batchSize batch w = runBatches R i timeMs maxRows batchSize batch' w"
proof (cases "batchSize \<le> 0")
  case False
  show ?thesis unfolding runBatches_def using False
    by (simp, intro cron_run_cong [OF _ documented] batch_loop_agree [where cnt = cnt, OF documented _ _ counts same])
      (use start in auto)
qed (simp add: runBatches_def)

text \<open>The number of rows \<open>runBatches\<close> reports never exceeds its row budget.\<close>

theorem runBatches_within_budget:
  assumes "runBatches R i timeMs maxRows batchSize batch w = (Inr (Some n), w')"
  shows "0 \<le> n \<and> n \<le> maxRows"
proof -
  have pos: "0 < batchSize" "0 < maxRows"
    using assms by (auto simp: runBatches_def cron_run_def split: if_splits)
  have run: "cron_run R i timeMs maxRows
      (\<lambda>b w. batch_loop (batch_fuel maxRows) maxRows batchSize (time_ms w + timeMs) batch b 0 w) w = (Inr (Some n), w')"
    using assms pos by (simp add: runBatches_def)
  then obtain l w1 where "act_finally
      (act_catch (cron_body R i l (time_ms w1) timeMs maxRows
          (\<lambda>b w. batch_loop (batch_fuel maxRows) maxRows batchSize (time_ms w + timeMs) batch b 0 w))
         (\<lambda>e w2. act_bind (act_catch (cron_event R i ''failed'' (time_ms w1)) (\<lambda>_. act_ret ()))
             (\<lambda>_. act_ret None) (report_failure ''cron.job_failed'' i w2)))
      (act_bind (lease_release R l) (\<lambda>_. act_ret ())) (w1\<lparr>rows_done := 0\<rparr>) = (Inr (Some n), w')"
    unfolding cron_run_def Let_def by (auto split: if_splits prod.splits sum.splits option.splits)
  then obtain w2 where "cron_body R i l (time_ms w1) timeMs maxRows
      (\<lambda>b w. batch_loop (batch_fuel maxRows) maxRows batchSize (time_ms w + timeMs) batch b 0 w) (w1\<lparr>rows_done := 0\<rparr>)
      = (Inr (Some n), w2)"
    by (elim act_finally_InrE act_catch_InrE act_bind_InrE) simp_all
  then obtain b w3 w4 where "batch_loop (batch_fuel maxRows) maxRows batchSize (time_ms w3 + timeMs) batch b 0 w3 = (Inr n, w4)"
    unfolding cron_body_def by (elim act_bind_InrE) simp
  from batch_loop_bound [OF _ _ _ this] pos show ?thesis by simp
qed

section \<open>The latest round\<close>

definition occurrence :: "cron_definition \<Rightarrow> int \<Rightarrow> bool" where
  "occurrence d t \<longleftrightarrow> (t - offsetMs d) mod intervalMs d = 0 \<and>
     (case weekdays d of None \<Rightarrow> True | Some days \<Rightarrow> china_weekday t \<in> set days)"

lemma china_weekday_back: "china_weekday (t - j * DAY) = (china_weekday t - j) mod 7"
proof -
  have "t - j * DAY + 8 * 3600000 = (t + 8 * 3600000) + (- j) * DAY" by (simp add: algebra_simps)
  then have "(t - j * DAY + 8 * 3600000) div DAY = - j + (t + 8 * 3600000) div DAY"
    using div_mult_self1 [of DAY "t + 8 * 3600000" "- j"] by (simp add: DAY_def)
  then show ?thesis by (simp add: china_weekday_def mod_diff_left_eq) (simp add: algebra_simps)
qed

lemma back_to_weekday_Some:
  "back_to_weekday fuel days t = Some u \<Longrightarrow> \<exists>k<fuel. u = t - int k * DAY \<and> china_weekday u \<in> set days \<and>
     (\<forall>j<k. china_weekday (t - int j * DAY) \<notin> set days)"
proof (induction fuel arbitrary: t)
  case (Suc fuel)
  show ?case
  proof (cases "china_weekday t \<in> set days")
    case True
    then show ?thesis using Suc.prems by auto
  next
    case False
    then obtain k where k: "k < fuel" "u = t - DAY - int k * DAY" "china_weekday u \<in> set days"
      "\<forall>j<k. china_weekday (t - DAY - int j * DAY) \<notin> set days"
      using Suc.IH [of "t - DAY"] Suc.prems by auto
    have "china_weekday (t - int j * DAY) \<notin> set days" if "j < Suc k" for j
      using that False k(4) by (cases j) (auto simp: algebra_simps)
    then show ?thesis using k by (intro exI [of _ "Suc k"]) (auto simp: algebra_simps)
  qed
qed simp

lemma back_to_weekday_None:
  "back_to_weekday fuel days t = None \<Longrightarrow> j < fuel \<Longrightarrow> china_weekday (t - int j * DAY) \<notin> set days"
proof (induction fuel arbitrary: t j)
  case (Suc fuel)
  then have t: "china_weekday t \<notin> set days" "back_to_weekday fuel days (t - DAY) = None"
    by (auto split: if_splits)
  show ?case
  proof (cases j)
    case (Suc i)
    then show ?thesis using Suc.IH [OF t(2), of i] Suc.prems(2) by (simp add: algebra_simps)
  qed (use t in simp)
qed simp

lemma weekday_reached: "x \<in> {0..6} \<Longrightarrow> \<exists>j<7. (china_weekday t - int j) mod 7 = x"
proof -
  assume x: "x \<in> {0..6}"
  let ?j = "nat ((china_weekday t - x) mod 7)"
  have "(china_weekday t - (china_weekday t - x) mod 7) mod 7 = x"
    using x by (simp add: mod_diff_right_eq)
  moreover have "?j < 7" by simp
  ultimately show ?thesis by (intro exI [of _ ?j]) simp
qed

lemma last_multiple:
  assumes "0 < (b :: int)" and "(t' - off) mod b = 0" and "t' \<le> now"
  shows "t' \<le> (now - off) div b * b + off"
proof -
  have "t' - off = (t' - off) div b * b" using div_mult_mod_eq [of "t' - off" b] assms(2) by simp
  moreover have "(t' - off) div b \<le> (now - off) div b" using assms by (intro zdiv_mono1) simp_all
  ultimately show ?thesis using assms(1) by (smt (verit) mult_right_mono)
qed

lemma latest_round_spec:
  assumes "0 < intervalMs d" and "\<And>days. weekdays d = Some days \<Longrightarrow> intervalMs d = DAY \<and> (\<exists>x\<in>set days. x \<in> {0..6})"
  shows "\<exists>t. latest_round d now = Some t \<and> t \<le> now \<and> occurrence d t \<and> (\<forall>t'. occurrence d t' \<and> t' \<le> now \<longrightarrow> t' \<le> t)"
proof -
  let ?t = "(now - offsetMs d) div intervalMs d * intervalMs d + offsetMs d"
  have le: "?t \<le> now" 
    using div_mult_mod_eq [of "now - offsetMs d" "intervalMs d"] pos_mod_sign [OF assms(1), of "now - offsetMs d"] by linarith
  have mod: "(?t - offsetMs d) mod intervalMs d = 0" by simp
  show ?thesis
  proof (cases "weekdays d")
    case None
    then show ?thesis using le last_multiple [OF assms(1)] by (auto simp: latest_round_def occurrence_def)
  next
    case (Some days)
    then obtain x where x: "x \<in> set days" "x \<in> {0..6}" and day: "intervalMs d = DAY" using assms(2) by blast
    have "back_to_weekday 7 days ?t \<noteq> None"
      using weekday_reached [OF x(2), of ?t] back_to_weekday_None [of 7 days ?t] x(1) by (metis china_weekday_back)
    then obtain u where u: "back_to_weekday 7 days ?t = Some u" by auto
    from back_to_weekday_Some [OF this] obtain k where k: "u = ?t - int k * DAY" "china_weekday u \<in> set days"
      "\<forall>j<k. china_weekday (?t - int j * DAY) \<notin> set days" by blast
    have "0 < DAY" by (simp add: DAY_def)
    have "u \<le> ?t" using k(1) by (simp add: DAY_def)
    moreover have "occurrence d u"
    proof -
      have "u - offsetMs d = ((now - offsetMs d) div DAY - int k) * DAY" using k(1) day by (simp add: algebra_simps)
      then have "(u - offsetMs d) mod DAY = 0" by simp
      then show ?thesis using k(2) Some day by (simp add: occurrence_def)
    qed
    moreover have "t' \<le> u" if "occurrence d t'" "t' \<le> now" for t'
    proof (rule ccontr)
      assume nle: "\<not> t' \<le> u"
      have m: "(t' - offsetMs d) mod DAY = 0" "china_weekday t' \<in> set days"
        using that(1) Some day by (simp_all add: occurrence_def)
      have tt: "t' \<le> ?t" using last_multiple [OF assms(1) _ that(2)] m(1) day by simp
      obtain a where a: "t' - offsetMs d = a * DAY" using m(1) by (metis mod_0_imp_dvd dvdE mult.commute)
      obtain b where b: "?t - offsetMs d = b * DAY" by (rule that [of "(now - offsetMs d) div DAY"]) (simp add: day)
      define j where "j = nat (b - a)"
      have ab: "a \<le> b" using tt a b \<open>0 < DAY\<close> by (smt (verit) mult_le_cancel_right)
      then have t': "t' = ?t - int j * DAY" using a b by (simp add: j_def algebra_simps)
      with nle k(1) have "int j * DAY < int k * DAY" by simp
      then have "j < k" using \<open>0 < DAY\<close> by (simp add: mult_less_cancel_right)
      with k(3) m(2) t' show False by simp
    qed
    ultimately show ?thesis using u Some le by (auto simp: latest_round_def)
  qed
qed

text \<open>For every managed job the round that the bootstrap check compares with is the last scheduled
  occurrence up to now, in Chinese local weekdays.\<close>

theorem latest_round_of_managed_job:
  assumes "d \<in> set MANAGED_CRONS"
  shows "\<exists>t. latest_round d now = Some t \<and> t \<le> now \<and> occurrence d t \<and> (\<forall>t'. occurrence d t' \<and> t' \<le> now \<longrightarrow> t' \<le> t)"
proof (rule latest_round_spec)
  show "0 < intervalMs d"
    using assms by (auto simp: MANAGED_CRONS_def cron_definition_of_def DAY_def)
  show "intervalMs d = DAY \<and> (\<exists>x\<in>set days. x \<in> {0..6})" if "weekdays d = Some days" for days
    using assms that by (auto simp: MANAGED_CRONS_def cron_definition_of_def)
qed

section \<open>Witnesses\<close>

definition demo_cron :: "(string \<Rightarrow> string option) cron_service" where
  "demo_cron = \<lparr>rs_cmds = map_commands, rs_prefix = ''test:'', read_only = False, production = False\<rparr>"

definition demo_cron_world :: "(string \<Rightarrow> string option) cron_world" where
  "demo_cron_world = \<lparr>server = Map.empty, time_ms = 0, network = [], reports = [], next_uuid = 0, rows_done = 0\<rparr>"

lemma demo_cron_documented: "redis_documented (rs_cmds demo_cron)"
  by (simp add: demo_cron_def map_redis.redis_documented_axioms)

text \<open>A batch that is refused anywhere else: by another owner's lease, or when it asks for too much.\<close>

record counted_world = "(string \<Rightarrow> string option) cron_world" +
  handled :: int

definition count_batch :: "int \<Rightarrow> (counted_world, int) act" where
  "count_batch sz w = (Inr sz, w\<lparr>handled := handled w + sz\<rparr>)"

definition demo_counted :: counted_world where
  "demo_counted = \<lparr>server = Map.empty, time_ms = 0, network = [], reports = [], next_uuid = 0, rows_done = 0, handled = 0\<rparr>"

definition demo_cron_lease :: redis_lease where
  "demo_cron_lease = \<lparr>lease_key = ''cron:lock:job'', lease_owner = ''uuid-0'', ttlSeconds = 90\<rparr>"

lemma demo_acquired: "fst (lease_acquire demo_cron (''cron:lock:'' @ ''job'') (ceil_div 30000 1000 + 60) no_options demo_counted) =
    Inr (Some demo_cron_lease)"
  by code_simp

definition handled_of :: "unit counted_world_ext \<Rightarrow> int" where
  "handled_of x = handled (cron_world.extend demo_cron_world x)"

theorem batches_run_under_lease_and_limits_witness:
  "runBatches demo_cron ''job'' 30000 10 4 count_batch demo_counted =
   runBatches demo_cron ''job'' 30000 10 4 (\<lambda>sz w. if cmd_get map_commands ''test:cron:lock:job'' (server w) = Some ''uuid-0''
       \<and> 0 < sz \<and> sz \<le> 4 \<and> sz \<le> 10 - handled w then count_batch sz w else act_throw ''never'' w) demo_counted"
proof (rule batches_run_under_lease_and_limits [OF demo_cron_documented, where cnt = handled_of])
  have h: "handled_of (cron_world.more v) = handled v" for v :: counted_world
    by (cases v) (simp add: handled_of_def cron_world.defs demo_cron_world_def)
  show "count_batch sz v = (Inr n, v') \<Longrightarrow> handled_of (cron_world.more v') = handled_of (cron_world.more v) + n" for sz v n v'
    by (auto simp: h count_batch_def)
  show "handled_of (cron_world.more demo_counted) = 0" unfolding h by (simp add: demo_counted_def)
  show "count_batch sz v = (if cmd_get map_commands ''test:cron:lock:job'' (server v) = Some ''uuid-0''
       \<and> 0 < sz \<and> sz \<le> 4 \<and> sz \<le> 10 - handled v then count_batch sz v else act_throw ''never'' v)"
    if "lease_acquire demo_cron (''cron:lock:'' @ ''job'') (ceil_div 30000 1000 + 60) no_options demo_counted = (Inr (Some l), w1)"
      and "batch_allowed demo_cron l 10 4 handled_of sz v" for l w1 sz v
  proof -
    have l: "l = demo_cron_lease" using demo_acquired that(1) by simp
    show ?thesis using that(2) h [of v]
      by (simp add: l batch_allowed_def holds_def demo_cron_lease_def demo_cron_def withPrefix_def)
  qed
qed

theorem runBatches_within_budget_witness:
  "fst (runBatches demo_cron ''job'' 30000 10 4 act_ret demo_cron_world) = Inr (Some 10) \<and> (0 :: int) \<le> 10"
proof -
  have f: "fst (runBatches demo_cron ''job'' 30000 10 4 act_ret demo_cron_world) = Inr (Some 10)" by code_simp
  then have "runBatches demo_cron ''job'' 30000 10 4 act_ret demo_cron_world =
      (Inr (Some 10), snd (runBatches demo_cron ''job'' 30000 10 4 act_ret demo_cron_world))"
    by (metis prod.collapse)
  from f runBatches_within_budget [OF this] show ?thesis by simp
qed

theorem latest_round_of_managed_job_witness:
  "\<exists>t. latest_round (cron_definition_of ''group-work-tips'' DAY (7 * 3600000) (Some [6]) True) 0 = Some t \<and> t \<le> 0"
proof -
  have "cron_definition_of ''group-work-tips'' DAY (7 * 3600000) (Some [6]) True \<in> set MANAGED_CRONS"
    by (simp add: MANAGED_CRONS_def)
  from latest_round_of_managed_job [OF this, of 0] show ?thesis by blast
qed

end
