(* ===== verification/MessageMerge.thy ===== *)
theory MessageMerge
  imports Prelude "HOL-Library.Sublist"
begin

text \<open>
  \<open>src/channels/wecom/message/runtime/simple-merge.service.ts\<close> and the job handler of
  \<open>message.processor.ts\<close> beside it: incoming messages of a chat wait in a Redis list until the chat has
  been quiet for a while; every message creates a delayed check job, and a job that finds
  messages it may not take yet creates another.

  The state is what the service keeps for one chat: its Redis keys (the pending list, the time of
  the last message, the processing lock) and its jobs in the Bull queue (waiting or delayed,
  active, failed and retained).  Bull does not add a job whose id it still knows and does not
  start a delayed job before its time.  Whether the next \<open>queue.add\<close> succeeds is an input
  (\<open>adds\<close>; with none left it succeeds).  Adding a message takes several requests, between which other events
  can come and the process can stop: \<open>adding\<close> holds the calls of \<open>addMessage\<close> that are on their way.
  A job id of the code is \<open>chatId:...\<close>; its second part
  is a constructor here.  The list holds what \<open>addMessage\<close> wrote, with \<open>JSON.stringify\<close>, so every
  element parses.
\<close>

section \<open>Constants\<close>

definition LOCK_RETRY_DELAY_MS :: int where "LOCK_RETRY_DELAY_MS = 30000"
definition QUIET_WINDOW_FOLLOWUP_DELAY_MS :: int where "QUIET_WINDOW_FOLLOWUP_DELAY_MS = 200"
definition QUEUE_ADD_MAX_ATTEMPTS :: nat where "QUEUE_ADD_MAX_ATTEMPTS = 3"
definition QUEUE_ADD_RETRY_DELAY_MS :: int where "QUEUE_ADD_RETRY_DELAY_MS = 200"
definition crashJobAttempts :: nat where "crashJobAttempts = 3"

section \<open>State\<close>

datatype job_id = Message_job string | Quiet_retry int | Lock_retry int | Follow_up int

record merge_job =
  job_id :: job_id
  job_due :: int
  job_tries :: nat

text \<open>A call of \<open>addMessage\<close> after its \<open>rpush\<close>.  Whether the queue has its job (\<open>ad_queued\<close>) is not seen by the code.\<close>

record adding_message =
  ad_mid :: string
  ad_at :: int
  ad_delay :: int
  ad_written :: bool
  ad_attempt :: nat
  ad_ready :: int
  ad_queued :: bool

record 'm chat_state =
  pending :: "(string \<times> 'm) list"
  last_message_at :: "int option"
  lock :: "string option"
  waiting :: "merge_job list"
  active :: "merge_job list"
  retained :: "job_id list"
  now_ms :: int
  merge_delay :: int
  adds :: "bool list"
  adding :: "adding_message list"
  troubles :: nat
  orphaned :: nat

definition known_ids :: "'m chat_state \<Rightarrow> job_id set" where
  "known_ids s = job_id ` set (waiting s) \<union> job_id ` set (active s) \<union> set (retained s)"

section \<open>Creating jobs\<close>

text \<open>\<open>messageQueue.add\<close>: rejects, or adds the job unless its id is known.\<close>

definition queue_add :: "job_id \<Rightarrow> int \<Rightarrow> 'm chat_state \<Rightarrow> bool \<times> 'm chat_state" where
  "queue_add i delay s =
     (let ok = (case adds s of [] \<Rightarrow> True | b # _ \<Rightarrow> b); s1 = s\<lparr>adds := tl (adds s)\<rparr> in
      if \<not> ok then (False, s1)
      else if i \<in> known_ids s1 then (True, s1)
      else (True, s1\<lparr>waiting := waiting s1 @ [\<lparr>job_id = i, job_due = now_ms s1 + delay, job_tries = 0\<rparr>]\<rparr>))"

definition merge_sleep :: "int \<Rightarrow> 'm chat_state \<Rightarrow> 'm chat_state" where
  "merge_sleep ms s = s\<lparr>now_ms := now_ms s + ms\<rparr>"

text \<open>The loop \<open>for (attempt = 1; attempt <= QUEUE_ADD_MAX_ATTEMPTS; ...)\<close> of a handler; \<open>False\<close> is the throw
  at its end.\<close>

fun add_with_retries :: "nat \<Rightarrow> nat \<Rightarrow> job_id \<Rightarrow> int \<Rightarrow> 'm chat_state \<Rightarrow> bool \<times> 'm chat_state" where
  "add_with_retries 0 attempt i delay s = (False, s)"
| "add_with_retries (Suc fuel) attempt i delay s =
     (case queue_add i delay s of
        (True, s1) \<Rightarrow> (True, s1)
      | (False, s1) \<Rightarrow> add_with_retries fuel (attempt + 1) i delay
          (if attempt < QUEUE_ADD_MAX_ATTEMPTS then merge_sleep (QUEUE_ADD_RETRY_DELAY_MS * int attempt) s1 else s1))"

definition addRetryCheckJob :: "job_id \<Rightarrow> int \<Rightarrow> 'm chat_state \<Rightarrow> bool \<times> 'm chat_state" where
  "addRetryCheckJob i delay = add_with_retries QUEUE_ADD_MAX_ATTEMPTS 1 i delay"

section \<open>The service\<close>

text \<open>
  \<open>addMessage\<close>: the message is pushed (\<open>since\<close> is the time the call has taken before); the time of the last message is
  written; then the job is added, which is tried three times.  An attempt counts as failed too when the job was added and only its
  answer, or that of \<open>markQueueAdd\<close>, is a rejection (\<open>heard\<close> is false).  A rejection of the call is recorded by the
  intake as a failure, and counted in \<open>troubles\<close>.
\<close>

definition remove_adding :: "adding_message \<Rightarrow> 'm chat_state \<Rightarrow> 'm chat_state" where
  "remove_adding a s = s\<lparr>adding := filter (\<lambda>x. ad_mid x \<noteq> ad_mid a) (adding s)\<rparr>"

definition replace_adding :: "adding_message \<Rightarrow> 'm chat_state \<Rightarrow> 'm chat_state" where
  "replace_adding a s = s\<lparr>adding := map (\<lambda>x. if ad_mid x = ad_mid a then a else x) (adding s)\<rparr>"

definition addMessage_push :: "string \<Rightarrow> 'm \<Rightarrow> int \<Rightarrow> 'm chat_state \<Rightarrow> 'm chat_state" where
  "addMessage_push mid m since s = s\<lparr>pending := pending s @ [(mid, m)], adding := adding s @
     [\<lparr>ad_mid = mid, ad_at = since, ad_delay = merge_delay s, ad_written = False, ad_attempt = 1, ad_ready = since, ad_queued = False\<rparr>]\<rparr>"

definition addMessage_time :: "adding_message \<Rightarrow> 'm chat_state \<Rightarrow> 'm chat_state" where
  "addMessage_time a s = replace_adding (a\<lparr>ad_written := True\<rparr>) (s\<lparr>last_message_at := Some (ad_at a)\<rparr>)"

definition addMessage_fail :: "adding_message \<Rightarrow> 'm chat_state \<Rightarrow> 'm chat_state" where
  "addMessage_fail a s = (remove_adding a s)\<lparr>troubles := troubles s + 1\<rparr>"

definition addMessage_queue :: "bool \<Rightarrow> adding_message \<Rightarrow> 'm chat_state \<Rightarrow> 'm chat_state" where
  "addMessage_queue heard a s = (case queue_add (Message_job (ad_mid a)) (ad_delay a) s of (ok, s1) \<Rightarrow>
     if ok \<and> heard then remove_adding a s1
     else if ad_attempt a < QUEUE_ADD_MAX_ATTEMPTS
       then replace_adding (a\<lparr>ad_attempt := ad_attempt a + 1, ad_queued := ad_queued a \<or> ok,
              ad_ready := now_ms s1 + QUEUE_ADD_RETRY_DELAY_MS * int (ad_attempt a)\<rparr>) s1
       else addMessage_fail a s1)"

text \<open>The snapshot from an index on and its size; the batch id is \<open>batch_chatId_time\<close> for index 0.\<close>

definition claimPendingSnapshot :: "nat \<Rightarrow> 'm chat_state \<Rightarrow> 'm list \<times> nat \<times> int option" where
  "claimPendingSnapshot from' s =
     (let raw = drop from' (pending s) in
      if raw = [] then ([], 0, None)
      else (map snd raw, length raw, if from' = 0 then Some (now_ms s) else None))"

definition ackPendingMessages :: "int \<Rightarrow> 'm chat_state \<Rightarrow> 'm chat_state" where
  "ackPendingMessages count s = (if count \<le> 0 then s else s\<lparr>pending := drop (nat count) (pending s)\<rparr>)"

definition ackPendingMessageIds :: "string list \<Rightarrow> 'm chat_state \<Rightarrow> 'm chat_state" where
  "ackPendingMessageIds ids s =
     (if ids = [] then s else s\<lparr>pending := filter (\<lambda>p. fst p \<notin> set ids) (pending s)\<rparr>)"

definition acquireProcessingLock :: "string \<Rightarrow> 'm chat_state \<Rightarrow> bool \<times> 'm chat_state" where
  "acquireProcessingLock who s =
     (if lock s = None then (True, s\<lparr>lock := Some who\<rparr>) else (False, s))"

definition releaseProcessingLock :: "string \<Rightarrow> 'm chat_state \<Rightarrow> 'm chat_state" where
  "releaseProcessingLock who s = (if lock s = Some who then s\<lparr>lock := None\<rparr> else s)"

definition getRemainingQuietWindowMs :: "'m chat_state \<Rightarrow> int" where
  "getRemainingQuietWindowMs s =
     (case last_message_at s of
        None \<Rightarrow> 0
      | Some t \<Rightarrow> if t \<le> 0 then 0 else max (merge_delay s - (now_ms s - t)) 0)"

definition isQuietWindowElapsed :: "'m chat_state \<Rightarrow> bool" where
  "isQuietWindowElapsed s \<longleftrightarrow> getRemainingQuietWindowMs s \<le> 0"

text \<open>
  The three ways a check continues.  The first component is \<open>False\<close> when the source throws;
  \<open>refreshPendingLease\<close> only prolongs the keys' life.
\<close>

definition scheduleQuietWindowRetryCheck :: "'m chat_state \<Rightarrow> bool \<times> 'm chat_state" where
  "scheduleQuietWindowRetryCheck s =
     (if pending s = [] then (True, s)
      else addRetryCheckJob (Quiet_retry (now_ms s))
             (max (getRemainingQuietWindowMs s) QUIET_WINDOW_FOLLOWUP_DELAY_MS) s)"

definition scheduleLockRetryCheck :: "'m chat_state \<Rightarrow> bool \<times> 'm chat_state" where
  "scheduleLockRetryCheck s =
     (if pending s = [] then (True, s)
      else addRetryCheckJob (Lock_retry (now_ms s div LOCK_RETRY_DELAY_MS)) LOCK_RETRY_DELAY_MS s)"

text \<open>A failed \<open>add\<close> is logged and answered with \<open>False\<close>; the log line is counted in \<open>troubles\<close>.\<close>

definition checkAndProcessNewMessages :: "'m chat_state \<Rightarrow> bool \<times> 'm chat_state" where
  "checkAndProcessNewMessages s =
     (if pending s = [] then (False, s)
      else (let remaining = getRemainingQuietWindowMs s;
                delay = (if 0 < remaining then remaining else QUIET_WINDOW_FOLLOWUP_DELAY_MS)
            in case queue_add (Follow_up (now_ms s)) delay s of
                 (True, s1) \<Rightarrow> (True, s1)
               | (False, s1) \<Rightarrow> (False, s1\<lparr>troubles := troubles s1 + 1\<rparr>)))"

section \<open>The job handler\<close>

text \<open>
  \<open>handleProcessJob\<close> in the parts that other events can come between: taking the lock, the check
  of the window with the snapshot, and the end after the pipeline.  \<open>job_finish\<close> is Bull's
  \<open>completed\<close>; \<open>job_fail\<close> its retry after a back-off (\<open>backoff\<close>, which Bull computes), or the
  retained failure with its alert once the attempts are used up.
\<close>

definition remove_job :: "merge_job \<Rightarrow> merge_job list \<Rightarrow> merge_job list" where
  "remove_job j js = filter (\<lambda>x. job_id x \<noteq> job_id j) js"

definition job_finish :: "merge_job \<Rightarrow> 'm chat_state \<Rightarrow> 'm chat_state" where
  "job_finish j s = s\<lparr>active := remove_job j (active s)\<rparr>"

definition job_fail :: "nat \<Rightarrow> merge_job \<Rightarrow> 'm chat_state \<Rightarrow> 'm chat_state" where
  "job_fail backoff j s =
     (let s1 = s\<lparr>active := remove_job j (active s)\<rparr>; n = job_tries j + 1 in
      if n < crashJobAttempts
      then s1\<lparr>waiting := waiting s1 @ [j\<lparr>job_due := now_ms s + int backoff, job_tries := n\<rparr>]\<rparr>
      else s1\<lparr>retained := retained s1 @ [job_id j], troubles := troubles s1 + 1\<rparr>)"

definition finish_or_fail :: "nat \<Rightarrow> merge_job \<Rightarrow> bool \<times> 'm chat_state \<Rightarrow> 'm chat_state" where
  "finish_or_fail backoff j r = (if fst r then job_finish j (snd r) else job_fail backoff j (snd r))"

text \<open>A job starts: it takes the lock, or leaves a retry check and ends.\<close>

definition start_job :: "nat \<Rightarrow> merge_job \<Rightarrow> string \<Rightarrow> 'm chat_state \<Rightarrow> bool \<times> 'm chat_state" where
  "start_job backoff j who s =
     (let s1 = s\<lparr>waiting := remove_job j (waiting s), active := active s @ [j]\<rparr> in
      case acquireProcessingLock who s1 of
        (True, s2) \<Rightarrow> (True, s2)
      | (False, s2) \<Rightarrow> (False, finish_or_fail backoff j (scheduleLockRetryCheck s2)))"

text \<open>
  With the lock: the window not over ends the job with a retry check, an empty snapshot ends it,
  otherwise the snapshot goes to the pipeline.
\<close>

definition check_job ::
    "nat \<Rightarrow> merge_job \<Rightarrow> string \<Rightarrow> 'm chat_state \<Rightarrow> ('m list \<times> nat) option \<times> 'm chat_state" where
  "check_job backoff j who s =
     (if \<not> isQuietWindowElapsed s
      then (None, releaseProcessingLock who (finish_or_fail backoff j (scheduleQuietWindowRetryCheck s)))
      else (case claimPendingSnapshot 0 s of
              (ms, n, _) \<Rightarrow> if ms = [] then (None, releaseProcessingLock who (job_finish j s)) else (Some (ms, n), s)))"

text \<open>The end of a job whose messages were dropped (hosting paused): the snapshot is acknowledged.\<close>

definition drop_job :: "merge_job \<Rightarrow> string \<Rightarrow> nat \<Rightarrow> 'm chat_state \<Rightarrow> 'm chat_state" where
  "drop_job j who n s = releaseProcessingLock who (job_finish j (ackPendingMessages (int n) s))"

text \<open>The end of a job after the pipeline, which acknowledged what it consumed.\<close>

definition end_job :: "merge_job \<Rightarrow> string \<Rightarrow> 'm chat_state \<Rightarrow> 'm chat_state" where
  "end_job j who s = releaseProcessingLock who (job_finish j (snd (checkAndProcessNewMessages s)))"

definition throw_job :: "nat \<Rightarrow> merge_job \<Rightarrow> string \<Rightarrow> 'm chat_state \<Rightarrow> 'm chat_state" where
  "throw_job backoff j who s = releaseProcessingLock who (job_fail backoff j s)"

section \<open>A chat over time\<close>

text \<open>
  What may happen to a chat, one event at a time.  Beside the state, \<open>taken\<close> is the snapshot that each
  running handler holds, \<open>None\<close> before its check.  A message arrives with an id of
  its own (the intake drops repeated ids).  A crash of the process leaves the lock, and Bull starts the stalled job
  again or fails it; but a call of \<open>addMessage\<close> that was on its way is gone with the process, without any report
  (\<open>orphaned\<close> counts these).  The lock may expire at any moment, under a running handler too.
\<close>

type_synonym 'm chat = "'m chat_state \<times> (job_id \<Rightarrow> (string \<times> 'm) list option)"

inductive chat_step :: "'m chat \<Rightarrow> 'm chat \<Rightarrow> bool" where
  arrive: "since \<le> now_ms s \<Longrightarrow> Message_job mid \<notin> known_ids s \<Longrightarrow> mid \<notin> ad_mid ` set (adding s) \<Longrightarrow>
    chat_step (s, t) (addMessage_push mid m since s, t)"
| refuse: "chat_step (s, t) (s\<lparr>troubles := troubles s + 1\<rparr>, t)"
| write_time: "a \<in> set (adding s) \<Longrightarrow> \<not> ad_written a \<Longrightarrow> chat_step (s, t) (addMessage_time a s, t)"
| try_queue: "a \<in> set (adding s) \<Longrightarrow> ad_written a \<Longrightarrow> ad_ready a \<le> now_ms s \<Longrightarrow>
    chat_step (s, t) (addMessage_queue heard a s, t)"
| reject_add: "a \<in> set (adding s) \<Longrightarrow> chat_step (s, t) (addMessage_fail a s, t)"
| crash_add: "a \<in> set (adding s) \<Longrightarrow> chat_step (s, t) ((remove_adding a s)\<lparr>orphaned := orphaned s + 1\<rparr>, t)"
| elapse: "chat_step (s, t) (merge_sleep (int d) s, t)"
| outage: "chat_step (s, t) (s\<lparr>adds := bs\<rparr>, t)"
| expire: "chat_step (s, t) (s\<lparr>lock := None\<rparr>, t)"
| start: "j \<in> set (waiting s) \<Longrightarrow> job_due j \<le> now_ms s \<Longrightarrow>
    chat_step (s, t) (snd (start_job b j who s), t(job_id j := None))"
| check: "j \<in> set (active s) \<Longrightarrow> t (job_id j) = None \<Longrightarrow> check_job b j who s = (r, s') \<Longrightarrow>
    chat_step (s, t) (s', t(job_id j := map_option (\<lambda>(ms, n). take n (pending s)) r))"
| consume: "j \<in> set (active s) \<Longrightarrow> t (job_id j) = Some snap \<Longrightarrow> chat_step (s, t) (ackPendingMessageIds ids s, t)"
| drop_all: "j \<in> set (active s) \<Longrightarrow> t (job_id j) = Some snap \<Longrightarrow> chat_step (s, t) (drop_job j who (length snap) s, t)"
| finish: "j \<in> set (active s) \<Longrightarrow> t (job_id j) = Some snap \<Longrightarrow> chat_step (s, t) (end_job j who s, t)"
| throw: "j \<in> set (active s) \<Longrightarrow> chat_step (s, t) (throw_job b j who s, t)"
| stall: "j \<in> set (active s) \<Longrightarrow>
    chat_step (s, t) (s\<lparr>active := remove_job j (active s), waiting := waiting s @ [j\<lparr>job_due := now_ms s\<rparr>]\<rparr>, t)"
| stall_out: "j \<in> set (active s) \<Longrightarrow> chat_step (s, t) (s\<lparr>active := remove_job j (active s),
    retained := retained s @ [job_id j], troubles := troubles s + 1\<rparr>, t)"

definition chat_start :: "int \<Rightarrow> int \<Rightarrow> 'm chat" where
  "chat_start now delay = (\<lparr>pending = [], last_message_at = None, lock = None, waiting = [], active = [],
     retained = [], now_ms = now, merge_delay = delay, adds = [], adding = [], troubles = 0, orphaned = 0\<rparr>, \<lambda>_. None)"

section \<open>Every pending message has a check to come\<close>

text \<open>The id of a check tells when it was made; it is neither due nor running before a later time.\<close>

fun made_before :: "job_id \<Rightarrow> int \<Rightarrow> bool" where
  "made_before (Message_job _) t = True"
| "made_before (Quiet_retry u) t = (u < t)"
| "made_before (Follow_up u) t = (u < t)"
| "made_before (Lock_retry b) t = (b < t div LOCK_RETRY_DELAY_MS)"

text \<open>Some check is queued, or a handler is running that has not looked yet or has seen everything, or a call of
  \<open>addMessage\<close> has yet to add its check.\<close>

definition covered :: "'m chat \<Rightarrow> bool" where
  "covered c \<longleftrightarrow> (case c of (s, t) \<Rightarrow> pending s = [] \<or> waiting s \<noteq> [] \<or>
     (\<exists>j\<in>set (active s). case t (job_id j) of None \<Rightarrow> True | Some snap \<Rightarrow> subseq (pending s) snap) \<or>
     (\<exists>a\<in>set (adding s). \<not> ad_queued a))"

definition jobs_inv :: "'m chat \<Rightarrow> bool" where
  "jobs_inv c \<longleftrightarrow> troubles (fst c) = 0 \<longrightarrow>
     retained (fst c) = [] \<and>
     (\<forall>j\<in>set (waiting (fst c)). made_before (job_id j) (job_due j)) \<and>
     (\<forall>j\<in>set (active (fst c)). made_before (job_id j) (now_ms (fst c))) \<and>
     covered c"

lemma made_before_mono: "made_before i t \<Longrightarrow> t \<le> u \<Longrightarrow> made_before i u"
  by (cases i) (auto simp: LOCK_RETRY_DELAY_MS_def dest: zdiv_mono1 [of t u 30000])

text \<open>What an attempt to add a job changes: nothing but the queue, the clock and the inputs.\<close>

definition same_but_queue :: "'m chat_state \<Rightarrow> 'm chat_state \<Rightarrow> bool" where
  "same_but_queue s s' \<longleftrightarrow> pending s' = pending s \<and> active s' = active s \<and> retained s' = retained s \<and>
     adding s' = adding s \<and> orphaned s' = orphaned s \<and> troubles s' = troubles s \<and> now_ms s \<le> now_ms s'"

definition tried_add :: "job_id \<Rightarrow> int \<Rightarrow> 'm chat_state \<Rightarrow> bool \<times> 'm chat_state \<Rightarrow> bool" where
  "tried_add i delay s r \<longleftrightarrow> same_but_queue s (snd r) \<and>
     (if fst r
      then (i \<in> known_ids s \<and> waiting (snd r) = waiting s) \<or>
        (\<exists>u\<ge>now_ms s. waiting (snd r) = waiting s @ [\<lparr>job_id = i, job_due = u + delay, job_tries = 0\<rparr>])
      else waiting (snd r) = waiting s)"

lemma queue_add_tried: "tried_add i delay s (queue_add i delay s)"
  by (auto simp: queue_add_def tried_add_def same_but_queue_def known_ids_def Let_def)

lemma add_with_retries_tried: "tried_add i delay s (add_with_retries fuel k i delay s)"
proof (induction fuel arbitrary: k s)
  case 0
  show ?case by (simp add: tried_add_def same_but_queue_def)
next
  case (Suc fuel)
  obtain ok s1 where q: "queue_add i delay s = (ok, s1)" by fastforce
  have t: "tried_add i delay s (ok, s1)" using queue_add_tried [of i delay s] q by simp
  show ?case
  proof (cases ok)
    case True
    then show ?thesis using q t by simp
  next
    case False
    let ?s2 = "if k < QUEUE_ADD_MAX_ATTEMPTS then merge_sleep (QUEUE_ADD_RETRY_DELAY_MS * int k) s1 else s1"
    have same: "same_but_queue s ?s2" and w: "waiting ?s2 = waiting s"
      using t False by (auto simp: tried_add_def same_but_queue_def merge_sleep_def QUEUE_ADD_RETRY_DELAY_MS_def)
    then have k: "known_ids ?s2 = known_ids s" by (simp add: known_ids_def same_but_queue_def)
    have le: "now_ms s \<le> now_ms ?s2" using same by (simp only: same_but_queue_def)
    have "tried_add i delay ?s2 (add_with_retries fuel (k + 1) i delay ?s2)" by (rule Suc.IH)
    moreover have "same_but_queue ?s2 x \<Longrightarrow> same_but_queue s x" for x
      using same by (auto simp only: same_but_queue_def)
    ultimately have "tried_add i delay s (add_with_retries fuel (k + 1) i delay ?s2)"
      unfolding tried_add_def w k using le by (meson order_trans)
    then show ?thesis using q False by simp
  qed
qed

lemma sourceless_remove [simp]: "set (remove_job j js) \<subseteq> set js"
  by (auto simp: remove_job_def)

lemma release_fields [simp]:
  "pending (releaseProcessingLock who s) = pending s" "waiting (releaseProcessingLock who s) = waiting s"
  "active (releaseProcessingLock who s) = active s" "retained (releaseProcessingLock who s) = retained s"
  "troubles (releaseProcessingLock who s) = troubles s" "now_ms (releaseProcessingLock who s) = now_ms s"
  "adding (releaseProcessingLock who s) = adding s" "orphaned (releaseProcessingLock who s) = orphaned s"
  by (simp_all add: releaseProcessingLock_def)

text \<open>The part of the invariant that is about the ids.\<close>

definition dated :: "'m chat_state \<Rightarrow> bool" where
  "dated s \<longleftrightarrow> retained s = [] \<and> (\<forall>j\<in>set (waiting s). made_before (job_id j) (job_due j)) \<and>
     (\<forall>j\<in>set (active s). made_before (job_id j) (now_ms s))"

lemma jobs_inv_iff: "jobs_inv (s, t) \<longleftrightarrow> (troubles s = 0 \<longrightarrow> dated s \<and> covered (s, t))"
  by (auto simp: jobs_inv_def dated_def)

lemma dated_time: "dated s \<Longrightarrow> 0 \<le> d \<Longrightarrow> dated (merge_sleep d s)"
  unfolding dated_def merge_sleep_def by (auto intro: made_before_mono)

lemma fresh_id_unknown:
  "dated s \<Longrightarrow> \<not> made_before i (now_ms s) \<Longrightarrow> i \<in> known_ids s \<Longrightarrow> waiting s \<noteq> []"
  by (auto simp: dated_def known_ids_def)

text \<open>An added check leaves the queue non-empty and every id dated.\<close>

lemma tried_add_queues:
  assumes t: "tried_add i delay s (True, s')" and d: "dated s" and f: "\<not> made_before i (now_ms s)"
  shows "waiting s' \<noteq> []"
  using t fresh_id_unknown [OF d f] by (auto simp: tried_add_def)

lemma tried_add_dated:
  assumes t: "tried_add i delay s (ok, s')" and d: "dated s" and m: "made_before i (now_ms s + delay)"
  shows "dated s'"
proof -
  have same: "same_but_queue s s'" using t by (simp add: tried_add_def)
  have mono: "made_before i (u + delay)" if "now_ms s \<le> u" for u
    using made_before_mono [OF m] that by simp
  have w: "\<forall>j\<in>set (waiting s'). made_before (job_id j) (job_due j)"
    using t d mono by (auto simp: tried_add_def dated_def split: if_splits)
  show ?thesis using same d w unfolding dated_def same_but_queue_def
    by (auto intro: made_before_mono)
qed

lemma job_finish_dated: "dated s \<Longrightarrow> dated (job_finish j s)"
  by (auto simp: dated_def job_finish_def remove_job_def)

lemma job_fail_dated:
  assumes "dated s" "made_before (job_id j) (now_ms s)" "troubles (job_fail b j s) = 0"
  shows "dated (job_fail b j s)" "waiting (job_fail b j s) \<noteq> []"
  using assms made_before_mono [OF assms(2), of "now_ms s + int b"]
  by (auto simp: dated_def job_fail_def remove_job_def Let_def split: if_splits)

lemma job_fields [simp]:
  "pending (job_finish j s) = pending s" "waiting (job_finish j s) = waiting s"
  "troubles (job_finish j s) = troubles s" "pending (job_fail b j s) = pending s"
  by (simp_all add: job_finish_def job_fail_def Let_def)

lemma job_fail_troubles: "troubles s \<le> troubles (job_fail b j s)"
  by (simp add: job_fail_def Let_def)

text \<open>A handler that ended on an attempt to queue a check: the chat is dated, and covered by the queue.\<close>

lemma finish_or_fail_ok:
  assumes d: "dated s" and t: "tried_add i delay s r" and f: "\<not> made_before i (now_ms s)"
    and m: "made_before i (now_ms s + delay)" and j: "made_before (job_id j) (now_ms s)"
    and z: "troubles (finish_or_fail b j r) = 0"
  shows "dated (finish_or_fail b j r) \<and> waiting (finish_or_fail b j r) \<noteq> []"
proof (cases r)
  case (Pair ok s')
  have dd: "dated s'" using tried_add_dated t d m unfolding Pair by blast
  have le: "now_ms s \<le> now_ms s'" using t by (simp add: tried_add_def same_but_queue_def Pair)
  show ?thesis
  proof (cases ok)
    case True
    then show ?thesis using job_finish_dated [OF dd] tried_add_queues [of i delay s s'] t d f
      by (simp add: finish_or_fail_def Pair)
  next
    case False
    then show ?thesis using job_fail_dated [OF dd made_before_mono [OF j le]] z
      by (simp add: finish_or_fail_def Pair)
  qed
qed

lemma lock_retry_made:
  "\<not> made_before (Lock_retry (t div LOCK_RETRY_DELAY_MS)) t"
  "made_before (Lock_retry (t div LOCK_RETRY_DELAY_MS)) (t + LOCK_RETRY_DELAY_MS)"
  by (simp_all add: LOCK_RETRY_DELAY_MS_def)

lemma covered_queue: "waiting s \<noteq> [] \<Longrightarrow> covered (s, t)"
  by (simp add: covered_def)

lemma covered_empty: "pending s = [] \<Longrightarrow> covered (s, t)"
  by (simp add: covered_def)

lemma troubles_le: "tried_add i delay s r \<Longrightarrow> troubles (snd r) = troubles s"
  by (simp add: tried_add_def same_but_queue_def)

lemma dated_release [simp]: "dated (releaseProcessingLock who s) = dated s"
  by (simp add: dated_def)

lemma start_step:
  assumes j: "j \<in> set (waiting s)" "job_due j \<le> now_ms s" and inv: "jobs_inv (s, t)"
  shows "jobs_inv (snd (start_job b j who s), t(job_id j := None))"
proof -
  define s1 where "s1 = s\<lparr>waiting := remove_job j (waiting s), active := active s @ [j]\<rparr>"
  have d1: "dated s1" and made: "made_before (job_id j) (now_ms s1)" if "troubles s = 0"
    using inv that j made_before_mono [OF _ j(2)]
    by (auto simp: jobs_inv_iff dated_def s1_def remove_job_def)
  show ?thesis
  proof (cases "lock s = None")
    case True
    then have "snd (start_job b j who s) = s1\<lparr>lock := Some who\<rparr>"
      by (simp add: start_job_def s1_def acquireProcessingLock_def)
    moreover have "covered (s1\<lparr>lock := Some who\<rparr>, t(job_id j := None))"
      by (simp add: covered_def s1_def)
    moreover have "dated (s1\<lparr>lock := Some who\<rparr>)" if "troubles s = 0" using d1 that by (simp add: dated_def)
    moreover have "troubles s1 = troubles s" by (simp add: s1_def)
    ultimately show ?thesis by (simp add: jobs_inv_iff)
  next
    case False
    then have eq: "snd (start_job b j who s) = finish_or_fail b j (scheduleLockRetryCheck s1)"
      by (auto simp: start_job_def s1_def acquireProcessingLock_def)
    let ?r = "finish_or_fail b j (scheduleLockRetryCheck s1)"
    show ?thesis
    proof (cases "pending s1 = []")
      case True
      then have "?r = job_finish j s1" by (simp add: scheduleLockRetryCheck_def finish_or_fail_def)
      moreover have "troubles s1 = troubles s" by (simp add: s1_def)
      moreover have "covered (job_finish j s1, t(job_id j := None))"
        by (rule covered_empty) (simp add: True)
      ultimately show ?thesis unfolding eq using d1 by (simp add: jobs_inv_iff job_finish_dated)
    next
      case False
      define i where "i = Lock_retry (now_ms s1 div LOCK_RETRY_DELAY_MS)"
      have t: "tried_add i LOCK_RETRY_DELAY_MS s1 (scheduleLockRetryCheck s1)"
        using False add_with_retries_tried by (simp add: scheduleLockRetryCheck_def addRetryCheckJob_def i_def)
      have z: "troubles s = 0" if "troubles ?r = 0"
        using that troubles_le [OF t] job_fail_troubles [of "snd (scheduleLockRetryCheck s1)" b j]
        by (simp add: finish_or_fail_def s1_def split: if_splits)
      have "dated ?r \<and> waiting ?r \<noteq> []" if "troubles ?r = 0"
        using finish_or_fail_ok [OF d1 [OF z [OF that]] t _ _ made [OF z [OF that]] that] lock_retry_made
        by (simp add: i_def)
      then show ?thesis unfolding eq jobs_inv_iff using covered_queue by blast
    qed
  qed
qed

lemma check_step:
  assumes j: "j \<in> set (active s)" and r: "check_job b j who s = (r, s')" and inv: "jobs_inv (s, t)"
  shows "jobs_inv (s', t(job_id j := map_option (\<lambda>(ms, n). take n (pending s)) r))"
proof (cases "isQuietWindowElapsed s")
  case True
  show ?thesis
  proof (cases "pending s = []")
    case True
    then have "s' = releaseProcessingLock who (job_finish j s)"
      using r \<open>isQuietWindowElapsed s\<close> by (simp add: check_job_def claimPendingSnapshot_def)
    then show ?thesis using inv True job_finish_dated by (auto simp: jobs_inv_iff intro: covered_empty)
  next
    case False
    then have "s' = s" "map_option (\<lambda>(ms, n). take n (pending s)) r = Some (pending s)"
      using r True by (auto simp: check_job_def claimPendingSnapshot_def Let_def)
    then have "covered (s', t(job_id j := map_option (\<lambda>(ms, n). take n (pending s)) r))"
      using j by (auto simp: covered_def intro: bexI [of _ j])
    then show ?thesis using inv \<open>s' = s\<close> by (simp add: jobs_inv_iff)
  qed
next
  case False
  define x where "x = scheduleQuietWindowRetryCheck s"
  have s': "s' = releaseProcessingLock who (finish_or_fail b j x)"
    using r False by (simp add: check_job_def x_def)
  show ?thesis
  proof (cases "pending s = []")
    case True
    then have "finish_or_fail b j x = job_finish j s"
      by (simp add: x_def scheduleQuietWindowRetryCheck_def finish_or_fail_def)
    then show ?thesis using inv True s' job_finish_dated by (auto simp: jobs_inv_iff intro: covered_empty)
  next
    case False
    define i where "i = Quiet_retry (now_ms s)"
    define delay where "delay = max (getRemainingQuietWindowMs s) QUIET_WINDOW_FOLLOWUP_DELAY_MS"
    have pos: "0 < delay" by (simp add: delay_def QUIET_WINDOW_FOLLOWUP_DELAY_MS_def)
    have t: "tried_add i delay s x"
      using False add_with_retries_tried
      by (simp add: x_def scheduleQuietWindowRetryCheck_def addRetryCheckJob_def i_def delay_def)
    let ?r = "finish_or_fail b j x"
    have z: "troubles s = 0" if "troubles ?r = 0"
      using that troubles_le [OF t] job_fail_troubles [of "snd x" b j]
      by (simp add: finish_or_fail_def split: if_splits)
    have "dated ?r \<and> waiting ?r \<noteq> []" if "troubles ?r = 0"
      using finish_or_fail_ok [OF _ t _ _ _ that] inv z [OF that] pos j
      by (auto simp: i_def jobs_inv_iff dated_def)
    then show ?thesis unfolding s' jobs_inv_iff by (auto intro: covered_queue)
  qed
qed

lemma covered_cases:
  assumes "covered (s, t)"
  obtains "pending s = []" | "waiting s \<noteq> []" | a where "a \<in> set (adding s)" "\<not> ad_queued a"
    | x where "x \<in> set (active s)" "case t (job_id x) of None \<Rightarrow> True | Some snap \<Rightarrow> subseq (pending s) snap"
  using assms by (auto simp: covered_def)

lemma subseq_drop: "subseq (drop n xs) xs"
  by (metis append_take_drop_id subseq_drop_many subseq_order.refl)

lemma covered_after_finish:
  assumes c: "covered (s, t)" and n: "t (job_id j) = Some snap" and p: "pending s' = drop (length snap) (pending s)"
    and w: "waiting s' = waiting s" and a: "active s' = remove_job j (active s)" and d: "adding s' = adding s"
  shows "covered (s', t)"
  using c
proof (cases rule: covered_cases)
  case (4 x)
  show ?thesis
  proof (cases "job_id x = job_id j")
    case True
    then have "length (pending s) \<le> length snap" using 4 n by (simp add: list_emb_length)
    then show ?thesis using p by (simp add: covered_def)
  next
    case False
    have "case t (job_id x) of None \<Rightarrow> True | Some snap' \<Rightarrow> subseq (pending s') snap'"
      using 4(2) p subseq_drop by (auto split: option.splits intro: subseq_order.trans)
    moreover have "x \<in> set (active s')" using 4 a False by (simp add: remove_job_def)
    ultimately show ?thesis by (auto simp: covered_def)
  qed
qed (use p w d in \<open>auto simp: covered_def\<close>)

lemma drop_step:
  assumes n: "t (job_id j) = Some snap" and inv: "jobs_inv (s, t)"
  shows "jobs_inv (drop_job j who (length snap) s, t)"
proof -
  let ?s' = "drop_job j who (length snap) s"
  have f: "pending ?s' = drop (length snap) (pending s)" "waiting ?s' = waiting s" "active ?s' = remove_job j (active s)"
    "troubles ?s' = troubles s" "retained ?s' = retained s" "now_ms ?s' = now_ms s" "adding ?s' = adding s"
    by (simp_all add: drop_job_def job_finish_def ackPendingMessages_def)
  have "dated ?s'" if "dated s"
    using that f by (auto simp: dated_def remove_job_def)
  moreover have "covered (?s', t)" if "covered (s, t)"
    using covered_after_finish [OF that n f(1,2,3,7)] .
  ultimately show ?thesis using inv f(4) by (simp add: jobs_inv_iff)
qed

lemma finish_step:
  assumes inv: "jobs_inv (s, t)"
  shows "jobs_inv (end_job j who s, t)"
proof (cases "pending s = []")
  case True
  then have e: "end_job j who s = releaseProcessingLock who (job_finish j s)"
    by (simp add: end_job_def checkAndProcessNewMessages_def)
  have "covered (end_job j who s, t)" by (rule covered_empty) (simp add: e True)
  then show ?thesis using inv job_finish_dated by (auto simp: jobs_inv_iff e)
next
  case False
  define i where "i = Follow_up (now_ms s)"
  define delay where "delay = (if 0 < getRemainingQuietWindowMs s then getRemainingQuietWindowMs s
    else QUIET_WINDOW_FOLLOWUP_DELAY_MS)"
  have pos: "0 < delay" by (simp add: delay_def QUIET_WINDOW_FOLLOWUP_DELAY_MS_def)
  obtain ok s1 where q: "queue_add i delay s = (ok, s1)" by fastforce
  have t: "tried_add i delay s (ok, s1)" using queue_add_tried [of i delay s] q by simp
  have e: "end_job j who s = releaseProcessingLock who (job_finish j
      (if ok then s1 else s1\<lparr>troubles := troubles s1 + 1\<rparr>))"
    using False q by (simp add: end_job_def checkAndProcessNewMessages_def i_def delay_def Let_def split: bool.split)
  have eq: "troubles s1 = troubles s" using troubles_le [OF t] by simp
  show ?thesis
  proof (cases "ok \<and> troubles s = 0")
    case True
    then have d: "dated s" using inv by (simp add: jobs_inv_iff)
    have "dated s1" using tried_add_dated [OF t d] pos by (simp add: i_def)
    moreover have "waiting s1 \<noteq> []" using tried_add_queues [OF _ d] t True by (auto simp: i_def)
    ultimately show ?thesis using e True by (auto simp: jobs_inv_iff job_finish_dated intro: covered_queue)
  next
    case False
    then show ?thesis using eq e by (auto simp: jobs_inv_iff)
  qed
qed

lemma throw_step:
  assumes j: "j \<in> set (active s)" and inv: "jobs_inv (s, t)"
  shows "jobs_inv (throw_job b j who s, t)"
proof -
  have "dated (job_fail b j s)" "waiting (job_fail b j s) \<noteq> []" if "troubles (job_fail b j s) = 0"
    using job_fail_dated [of s j b] inv j that job_fail_troubles [of s b j]
    by (auto simp: jobs_inv_iff dated_def)
  then show ?thesis by (auto simp: throw_job_def jobs_inv_iff intro: covered_queue)
qed

text \<open>Events that touch neither the list, the queue nor the handlers.\<close>

lemma other_step:
  assumes "pending s' = pending s" "waiting s' = waiting s" "active s' = active s" "retained s' = retained s"
    "troubles s' = troubles s" "now_ms s \<le> now_ms s'" "adding s' = adding s" and inv: "jobs_inv (s, t)"
  shows "jobs_inv (s', t)"
proof -
  have "dated s'" if "dated s" using that assms(1-6) by (auto simp: dated_def intro: made_before_mono)
  moreover have "covered (s', t) = covered (s, t)" using assms(1-3,7)
    by (simp add: covered_def cong: option.case_cong)
  ultimately show ?thesis using inv assms(5) by (simp add: jobs_inv_iff)
qed

lemma consume_step:
  assumes inv: "jobs_inv (s, t)"
  shows "jobs_inv (ackPendingMessageIds ids s, t)"
proof -
  let ?s' = "ackPendingMessageIds ids s"
  have f: "waiting ?s' = waiting s" "active ?s' = active s" "retained ?s' = retained s"
    "troubles ?s' = troubles s" "now_ms ?s' = now_ms s" "adding ?s' = adding s"
    by (simp_all add: ackPendingMessageIds_def)
  have sub: "subseq (pending ?s') (pending s)" by (simp add: ackPendingMessageIds_def)
  have "covered (?s', t)" if "covered (s, t)"
    using that
  proof (cases rule: covered_cases)
    case (4 x)
    have "case t (job_id x) of None \<Rightarrow> True | Some snap \<Rightarrow> subseq (pending ?s') snap"
      using 4(2) sub by (auto split: option.splits intro: subseq_order.trans)
    then show ?thesis using 4(1) f by (auto simp: covered_def)
  qed (use sub f in \<open>auto simp: covered_def\<close>)
  moreover have "dated ?s'" if "dated s" using that f by (simp add: dated_def)
  ultimately show ?thesis using inv f by (simp add: jobs_inv_iff)
qed

lemma stall_step:
  assumes j: "j \<in> set (active s)" and inv: "jobs_inv (s, t)"
  shows "jobs_inv (s\<lparr>active := remove_job j (active s), waiting := waiting s @ [j\<lparr>job_due := now_ms s\<rparr>]\<rparr>, t)"
  using assms by (auto simp: jobs_inv_iff dated_def remove_job_def intro: covered_queue)


section \<open>Calls of addMessage on their way\<close>

text \<open>No two of them have the same message, and one whose job is not in the queue yet has a job id that the queue does not know.\<close>

definition adding_ok :: "'m chat_state \<Rightarrow> bool" where
  "adding_ok s \<longleftrightarrow> distinct (map ad_mid (adding s)) \<and>
     (\<forall>a \<in> set (adding s). \<not> ad_queued a \<longrightarrow> Message_job (ad_mid a) \<notin> known_ids s)"

text \<open>What an operation of the handlers leaves alone.\<close>

definition keeps_adding :: "'m chat_state \<Rightarrow> 'm chat_state \<Rightarrow> bool" where
  "keeps_adding s s' \<longleftrightarrow> adding s' = adding s \<and> orphaned s' = orphaned s \<and>
     (\<forall>mid. Message_job mid \<in> known_ids s' \<longrightarrow> Message_job mid \<in> known_ids s)"

lemma keeps_adding_ok: "keeps_adding s s' \<Longrightarrow> adding_ok s \<Longrightarrow> adding_ok s'"
  by (auto simp: keeps_adding_def adding_ok_def)

lemma keeps_refl: "keeps_adding s s"
  by (simp add: keeps_adding_def)

lemma keeps_trans: "keeps_adding s s1 \<Longrightarrow> keeps_adding s1 s2 \<Longrightarrow> keeps_adding s s2"
  by (simp add: keeps_adding_def)

lemma tried_known: "tried_add i delay s r \<Longrightarrow> known_ids (snd r) \<subseteq> insert i (known_ids s)"
  by (auto simp: tried_add_def same_but_queue_def known_ids_def split: if_splits)

lemma tried_keeps: "tried_add i delay s r \<Longrightarrow> (\<And>mid. i \<noteq> Message_job mid) \<Longrightarrow> keeps_adding s (snd r)"
  using tried_known [of i delay s r] by (auto simp: tried_add_def same_but_queue_def keeps_adding_def)

lemma retry_keeps: "(\<And>mid. i \<noteq> Message_job mid) \<Longrightarrow> keeps_adding s (snd (addRetryCheckJob i delay s))"
  unfolding addRetryCheckJob_def by (rule tried_keeps [OF add_with_retries_tried])

lemma schedule_keeps:
  "keeps_adding s (snd (scheduleLockRetryCheck s))" "keeps_adding s (snd (scheduleQuietWindowRetryCheck s))"
  by (auto simp: scheduleLockRetryCheck_def scheduleQuietWindowRetryCheck_def keeps_refl intro: retry_keeps)

lemma follow_up_keeps: "keeps_adding s (snd (checkAndProcessNewMessages s))"
proof (cases "pending s = []")
    case False
    define d where "d = (if 0 < getRemainingQuietWindowMs s then getRemainingQuietWindowMs s else QUIET_WINDOW_FOLLOWUP_DELAY_MS)"
    obtain ok s1 where q: "queue_add (Follow_up (now_ms s)) d s = (ok, s1)" by fastforce
    have "keeps_adding s s1" using tried_keeps [OF queue_add_tried [of "Follow_up (now_ms s)" d s]] q by simp
    then show ?thesis using False q
      by (auto simp: checkAndProcessNewMessages_def Let_def d_def keeps_adding_def known_ids_def split: bool.split)
qed (simp add: checkAndProcessNewMessages_def keeps_refl)

lemma job_keeps:
  "keeps_adding s (job_finish j s)" "j \<in> set (active s) \<Longrightarrow> keeps_adding s (job_fail b j s)"
  "keeps_adding s (releaseProcessingLock who s)"
  by (auto simp: keeps_adding_def known_ids_def job_finish_def job_fail_def remove_job_def releaseProcessingLock_def Let_def)

lemma retry_active: "active (snd (addRetryCheckJob i delay s)) = active s"
  using add_with_retries_tried [of i delay s QUEUE_ADD_MAX_ATTEMPTS 1]
  by (simp add: addRetryCheckJob_def tried_add_def same_but_queue_def)

lemma schedule_active:
  "j \<in> set (active s) \<Longrightarrow> j \<in> set (active (snd (scheduleLockRetryCheck s)))"
  "j \<in> set (active s) \<Longrightarrow> j \<in> set (active (snd (scheduleQuietWindowRetryCheck s)))"
  by (auto simp: scheduleLockRetryCheck_def scheduleQuietWindowRetryCheck_def retry_active)

lemma finish_or_fail_keeps:
  "keeps_adding s (snd r) \<Longrightarrow> j \<in> set (active (snd r)) \<Longrightarrow> keeps_adding s (finish_or_fail b j r)"
  unfolding finish_or_fail_def using job_keeps keeps_trans by (metis (full_types))

lemma start_keeps: "j \<in> set (waiting s) \<Longrightarrow> keeps_adding s (snd (start_job b j who s))"
proof -
  assume j: "j \<in> set (waiting s)"
  define s1 where "s1 = s\<lparr>waiting := remove_job j (waiting s), active := active s @ [j]\<rparr>"
  have k: "keeps_adding s s1" using j by (auto simp: s1_def keeps_adding_def known_ids_def remove_job_def)
  show ?thesis
  proof (cases "lock s1 = None")
    case True
    then have "snd (start_job b j who s) = s1\<lparr>lock := Some who\<rparr>" by (simp add: start_job_def s1_def acquireProcessingLock_def)
    then show ?thesis using k by (simp add: keeps_adding_def known_ids_def)
  next
    case False
    then have "snd (start_job b j who s) = finish_or_fail b j (scheduleLockRetryCheck s1)"
      by (auto simp: start_job_def s1_def acquireProcessingLock_def)
    moreover have "j \<in> set (active s1)" by (simp add: s1_def)
    ultimately show ?thesis using finish_or_fail_keeps [OF keeps_trans [OF k schedule_keeps(1)]] schedule_active(1) by metis
  qed
qed

lemma check_keeps:
  assumes "j \<in> set (active s)" "check_job b j who s = (r, s')"
  shows "keeps_adding s s'"
proof (cases "isQuietWindowElapsed s")
  case True
  then have "s' = s \<or> s' = releaseProcessingLock who (job_finish j s)"
    using assms(2) by (auto simp: check_job_def claimPendingSnapshot_def Let_def split: if_splits)
  then show ?thesis using job_keeps keeps_trans keeps_refl by metis
next
  case False
  then have "s' = releaseProcessingLock who (finish_or_fail b j (scheduleQuietWindowRetryCheck s))"
    using assms(2) by (simp add: check_job_def)
  then show ?thesis
    using finish_or_fail_keeps [OF schedule_keeps(2) schedule_active(2) [OF assms(1)]] job_keeps(3) keeps_trans by metis
qed

lemma end_keeps:
  "keeps_adding s (ackPendingMessages n s)" "keeps_adding s (ackPendingMessageIds ids s)"
  "keeps_adding s (drop_job j who k s)" "keeps_adding s (end_job j who s)"
  "j \<in> set (active s) \<Longrightarrow> keeps_adding s (throw_job b j who s)"
proof -
  show a: "keeps_adding s (ackPendingMessages n s)" for n
    by (simp add: ackPendingMessages_def keeps_adding_def known_ids_def)
  show "keeps_adding s (ackPendingMessageIds ids s)"
    by (simp add: ackPendingMessageIds_def keeps_adding_def known_ids_def)
  show "keeps_adding s (drop_job j who k s)"
    unfolding drop_job_def using a job_keeps keeps_trans by metis
  show "keeps_adding s (end_job j who s)"
    unfolding end_job_def using follow_up_keeps job_keeps keeps_trans by metis
  show "j \<in> set (active s) \<Longrightarrow> keeps_adding s (throw_job b j who s)"
    unfolding throw_job_def using job_keeps keeps_trans by metis
qed

text \<open>As long as no call of \<open>addMessage\<close> has died on its way.\<close>

definition chat_inv :: "'m chat \<Rightarrow> bool" where
  "chat_inv c \<longleftrightarrow> adding_ok (fst c) \<and> (orphaned (fst c) = 0 \<longrightarrow> jobs_inv c)"

lemma chat_inv_keeps:
  "chat_inv (s, t) \<Longrightarrow> keeps_adding s s' \<Longrightarrow> (jobs_inv (s, t) \<Longrightarrow> jobs_inv (s', t')) \<Longrightarrow> chat_inv (s', t')"
  using keeps_adding_ok [of s s'] by (auto simp: chat_inv_def keeps_adding_def)

lemma replace_set:
  "a \<in> set (adding s) \<Longrightarrow> distinct (map ad_mid (adding s)) \<Longrightarrow> ad_mid a' = ad_mid a \<Longrightarrow>
     set (adding (replace_adding a' s)) = insert a' (set (adding s) - {a})"
  by (auto simp: replace_adding_def inj_on_def distinct_map)

lemma remove_set:
  "a \<in> set (adding s) \<Longrightarrow> distinct (map ad_mid (adding s)) \<Longrightarrow> set (adding (remove_adding a s)) = set (adding s) - {a}"
  by (auto simp: remove_adding_def inj_on_def distinct_map)

lemma adding_distinct:
  "distinct (map ad_mid (adding s)) \<Longrightarrow> distinct (map ad_mid (adding (remove_adding a s)))"
  "distinct (map ad_mid (adding s)) \<Longrightarrow> ad_mid a' = ad_mid a \<Longrightarrow> distinct (map ad_mid (adding (replace_adding a' s)))"
proof -
  have "map ad_mid (map (\<lambda>x. if ad_mid x = ad_mid a' then a' else x) xs) = map ad_mid xs" for xs
    by (induction xs) auto
  then show "distinct (map ad_mid (adding s)) \<Longrightarrow> distinct (map ad_mid (adding (replace_adding a' s)))"
    by (simp add: replace_adding_def del: map_map)
qed (simp add: remove_adding_def distinct_map_filter)

lemma adding_fields [simp]:
  "pending (replace_adding a s) = pending s" "waiting (replace_adding a s) = waiting s" "active (replace_adding a s) = active s"
  "retained (replace_adding a s) = retained s" "troubles (replace_adding a s) = troubles s"
  "now_ms (replace_adding a s) = now_ms s" "orphaned (replace_adding a s) = orphaned s"
  "known_ids (replace_adding a s) = known_ids s"
  "pending (remove_adding a s) = pending s" "waiting (remove_adding a s) = waiting s" "active (remove_adding a s) = active s"
  "retained (remove_adding a s) = retained s" "troubles (remove_adding a s) = troubles s"
  "now_ms (remove_adding a s) = now_ms s" "orphaned (remove_adding a s) = orphaned s"
  "known_ids (remove_adding a s) = known_ids s"
  by (simp_all add: replace_adding_def remove_adding_def known_ids_def)

lemma adding_ok_remove:
  assumes "adding_ok s" "a \<in> set (adding s)" "adding s1 = adding s" "known_ids s1 \<subseteq> insert (Message_job (ad_mid a)) (known_ids s)"
  shows "adding_ok (remove_adding a s1)"
proof -
  have "ad_mid x \<noteq> ad_mid a" if "x \<in> set (adding s)" "x \<noteq> a" for x
    using assms(1,2) that by (auto simp: adding_ok_def distinct_map inj_on_def)
  then show ?thesis
    using assms remove_set [of a s1] adding_distinct(1) [of s1 a] by (auto simp: adding_ok_def)
qed

lemma adding_ok_replace:
  assumes "adding_ok s" "a \<in> set (adding s)" "adding s1 = adding s" "known_ids s1 \<subseteq> insert (Message_job (ad_mid a)) (known_ids s)"
    "ad_mid a' = ad_mid a" "\<not> ad_queued a' \<Longrightarrow> \<not> ad_queued a \<and> known_ids s1 = known_ids s"
  shows "adding_ok (replace_adding a' s1)"
proof -
  have other: "ad_mid x \<noteq> ad_mid a" if "x \<in> set (adding s)" "x \<noteq> a" for x
    using assms(1,2) that by (auto simp: adding_ok_def distinct_map inj_on_def)
  have d: "distinct (map ad_mid (adding s1))" using assms(1,3) by (simp add: adding_ok_def)
  have "Message_job (ad_mid x) \<notin> known_ids s1" if x: "x \<in> set (adding (replace_adding a' s1))" "\<not> ad_queued x" for x
  proof (cases "x = a'")
    case True
    then have "\<not> ad_queued a" "known_ids s1 = known_ids s" using assms(6) x(2) by blast+
    then show ?thesis using True assms(1,2,5) by (simp add: adding_ok_def)
  next
    case False
    then have m: "x \<in> set (adding s)" "x \<noteq> a" using x(1) replace_set [OF _ d assms(5)] assms(2,3) by auto
    then have "Message_job (ad_mid x) \<notin> known_ids s" using assms(1) x(2) by (simp add: adding_ok_def)
    then show ?thesis using assms(4) other [OF m] by blast
  qed
  then show ?thesis using adding_distinct(2) [OF d assms(5)] by (simp add: adding_ok_def)
qed

lemma covered_grow:
  assumes "covered (s, t)" "pending s' = pending s" "active s' = active s" "waiting s \<noteq> [] \<Longrightarrow> waiting s' \<noteq> []"
    "\<And>a. a \<in> set (adding s) \<Longrightarrow> \<not> ad_queued a \<Longrightarrow> waiting s' \<noteq> [] \<or> (\<exists>x \<in> set (adding s'). \<not> ad_queued x)"
  shows "covered (s', t)"
  using assms(1)
proof (cases rule: covered_cases)
  case (4 x)
  have "case t (job_id x) of None \<Rightarrow> True | Some snap \<Rightarrow> subseq (pending s') snap" using 4(2) by (simp only: assms(2))
  then show ?thesis using 4(1) assms(3) by (auto simp: covered_def)
next
  case (3 a)
  then show ?thesis using assms(5) by (auto simp: covered_def)
qed (use assms(2,4) in \<open>simp_all add: covered_def\<close>)

lemma arrive_step:
  assumes "Message_job mid \<notin> known_ids s" "mid \<notin> ad_mid ` set (adding s)" and inv: "chat_inv (s, t)"
  shows "chat_inv (addMessage_push mid m since s, t)"
  using assms by (auto simp: chat_inv_def jobs_inv_iff dated_def covered_def adding_ok_def addMessage_push_def known_ids_def)

lemma write_time_step:
  assumes a: "a \<in> set (adding s)" and inv: "chat_inv (s, t)"
  shows "chat_inv (addMessage_time a s, t)"
proof -
  define s1 where "s1 = s\<lparr>last_message_at := Some (ad_at a)\<rparr>"
  let ?a = "a\<lparr>ad_written := True\<rparr>" and ?s = "addMessage_time a s"
  have s: "?s = replace_adding ?a s1" by (simp add: addMessage_time_def s1_def)
  have s1: "adding s1 = adding s" "known_ids s1 = known_ids s" "a \<in> set (adding s1)" using a by (simp_all add: s1_def known_ids_def)
  have ok: "adding_ok s" using inv by (simp add: chat_inv_def)
  have set: "set (adding ?s) = insert ?a (set (adding s) - {a})"
    using replace_set [OF s1(3), of ?a] ok s1 by (simp add: s adding_ok_def)
  have "adding_ok ?s" unfolding s by (rule adding_ok_replace [OF ok a s1(1)]) (use s1 in auto)
  moreover have "covered (?s, t)" if "covered (s, t)"
    by (rule covered_grow [OF that]) (use set in \<open>auto simp: s s1_def\<close>)
  moreover have "dated ?s = dated s" by (simp add: dated_def s s1_def)
  ultimately show ?thesis using inv by (simp add: chat_inv_def jobs_inv_iff) (simp add: s s1_def)
qed

lemma fail_step:
  assumes "adding_ok (remove_adding a s)"
  shows "chat_inv (addMessage_fail a s, t)"
  using assms by (simp add: addMessage_fail_def chat_inv_def jobs_inv_iff adding_ok_def known_ids_def)

lemma queue_step:
  assumes a: "a \<in> set (adding s)" and inv: "chat_inv (s, t)"
  shows "chat_inv (addMessage_queue heard a s, t)"
proof -
  obtain ok s1 where q: "queue_add (Message_job (ad_mid a)) (ad_delay a) s = (ok, s1)" by fastforce
  have tr: "tried_add (Message_job (ad_mid a)) (ad_delay a) s (ok, s1)"
    using queue_add_tried [of "Message_job (ad_mid a)" "ad_delay a" s] q by simp
  have s1: "adding s1 = adding s" "pending s1 = pending s" "active s1 = active s" "orphaned s1 = orphaned s" "troubles s1 = troubles s"
    using tr by (simp_all add: tried_add_def same_but_queue_def)
  have known: "known_ids s1 \<subseteq> insert (Message_job (ad_mid a)) (known_ids s)" using tried_known [OF tr] by simp
  have same: "\<not> ok \<Longrightarrow> known_ids s1 = known_ids s"
    using tr by (simp add: tried_add_def same_but_queue_def known_ids_def)
  have ok: "adding_ok s" using inv by (simp add: chat_inv_def)
  have w: "waiting s \<noteq> [] \<Longrightarrow> waiting s1 \<noteq> []" using tr by (auto simp: tried_add_def split: if_splits)
  have new: "ok \<Longrightarrow> \<not> ad_queued a \<Longrightarrow> waiting s1 \<noteq> []" using tr ok a by (auto simp: tried_add_def adding_ok_def)
  have d: "dated s \<Longrightarrow> dated s1" using tried_add_dated [OF tr] by simp
  have a1: "a \<in> set (adding s1)" "distinct (map ad_mid (adding s1))" using a ok s1 by (simp_all add: adding_ok_def)
  show ?thesis
  proof (cases "ok \<and> heard")
    case True
    let ?s = "remove_adding a s1"
    have "covered (?s, t)" if "covered (s, t)"
      by (rule covered_grow [OF that]) (use True w new s1 remove_set [OF a1] in auto)
    moreover have "dated ?s = dated s1" by (simp add: dated_def)
    ultimately show ?thesis
      using True q inv d s1 adding_ok_remove [OF ok a s1(1) known]
      by (simp add: addMessage_queue_def chat_inv_def jobs_inv_iff)
  next
    case False
    show ?thesis
    proof (cases "ad_attempt a < QUEUE_ADD_MAX_ATTEMPTS")
      case True
      define a' where "a' = a\<lparr>ad_attempt := ad_attempt a + 1, ad_queued := ad_queued a \<or> ok,
        ad_ready := now_ms s1 + QUEUE_ADD_RETRY_DELAY_MS * int (ad_attempt a)\<rparr>"
      have a': "ad_mid a' = ad_mid a" "ad_queued a' = (ad_queued a \<or> ok)" by (simp_all add: a'_def)
      let ?s = "replace_adding a' s1"
      have s: "addMessage_queue heard a s = ?s" using False True q by (auto simp: addMessage_queue_def a'_def)
      have "covered (?s, t)" if "covered (s, t)"
        by (rule covered_grow [OF that]) (use w new s1 replace_set [OF a1 a'(1)] a'(2) in auto)
      moreover have "dated ?s = dated s1" by (simp add: dated_def)
      moreover have "adding_ok ?s" by (rule adding_ok_replace [OF ok a s1(1) known a'(1)]) (use a'(2) same in auto)
      ultimately show ?thesis unfolding s using inv d s1 by (simp add: chat_inv_def jobs_inv_iff)
    next
      case out: False
      then have "addMessage_queue heard a s = addMessage_fail a s1" using False q by (auto simp: addMessage_queue_def)
      then show ?thesis using fail_step [OF adding_ok_remove [OF ok a s1(1) known]] by simp
    qed
  qed
qed

lemma chat_step_inv: "chat_step c c' \<Longrightarrow> chat_inv c \<Longrightarrow> chat_inv c'"
proof (induction rule: chat_step.induct)
  case (arrive since s mid t m)
  then show ?case by (intro arrive_step)
next
  case (refuse s t)
  then show ?case by (simp add: chat_inv_def jobs_inv_iff adding_ok_def known_ids_def)
next
  case (write_time a s t)
  then show ?case using write_time_step by blast
next
  case (try_queue a s t heard)
  then show ?case using queue_step by blast
next
  case (reject_add a s t)
  then show ?case by (intro fail_step adding_ok_remove [of s]) (auto simp: chat_inv_def)
next
  case (crash_add a s t)
  then have "adding_ok (remove_adding a s)" by (intro adding_ok_remove [of s]) (auto simp: chat_inv_def)
  then show ?case by (simp add: chat_inv_def adding_ok_def known_ids_def)
next
  case (elapse s t d)
  then show ?case by (rule chat_inv_keeps) (auto simp: merge_sleep_def keeps_adding_def known_ids_def intro: other_step [rotated 7])
next
  case (outage s t bs)
  then show ?case by (rule chat_inv_keeps) (auto simp: keeps_adding_def known_ids_def intro: other_step [rotated 7])
next
  case (expire s t)
  then show ?case by (rule chat_inv_keeps) (auto simp: keeps_adding_def known_ids_def intro: other_step [rotated 7])
next
  case (start j s t b who)
  then show ?case using start_keeps start_step by (metis chat_inv_keeps)
next
  case (check j s t b who r s')
  then show ?case using check_keeps check_step by (metis chat_inv_keeps)
next
  case (consume j s t snap ids)
  then show ?case using end_keeps(2) consume_step by (metis chat_inv_keeps)
next
  case (drop_all j s t snap who)
  then show ?case using end_keeps(3) drop_step by (metis chat_inv_keeps)
next
  case (finish j s t snap who)
  then show ?case using end_keeps(4) finish_step by (metis chat_inv_keeps)
next
  case (throw j s t b who)
  then show ?case using end_keeps(5) throw_step by (metis chat_inv_keeps)
next
  case (stall j s t)
  then have "keeps_adding s (s\<lparr>active := remove_job j (active s), waiting := waiting s @ [j\<lparr>job_due := now_ms s\<rparr>]\<rparr>)"
    by (auto simp: keeps_adding_def known_ids_def remove_job_def)
  then show ?case using stall stall_step by (metis chat_inv_keeps)
next
  case (stall_out j s t)
  then show ?case by (intro chat_inv_keeps [OF stall_out(2)]) (auto simp: keeps_adding_def known_ids_def remove_job_def jobs_inv_iff)
qed

lemma chat_start_inv: "chat_inv (chat_start now delay)"
  by (simp add: chat_inv_def jobs_inv_def chat_start_def covered_def adding_ok_def)

text \<open>C4: a message of a chat is never left in the pending list with nobody to look at it, as long as no failure was reported
  and no call of \<open>addMessage\<close> died between its \<open>rpush\<close> and its job: after any sequence of arrivals, rejected and unheard
  requests, outages of the queue, expiring locks, crashes of handlers, retries and handlers that take, drop, answer or fail a
  batch, if messages are pending then a check is queued, or a handler is running that has yet to look or holds a snapshot in
  which every one of them is, or a call of \<open>addMessage\<close> is on its way to queue a check.  A process that dies between the
  two requests of \<open>addMessage\<close> breaks it (\<open>crash_leaves_message_behind\<close>).\<close>

theorem pending_messages_have_a_check:
  assumes "chat_step\<^sup>*\<^sup>* (chat_start now delay) (s, taken)" and "pending s \<noteq> []" and "troubles s = 0" and "orphaned s = 0"
  shows "waiting s \<noteq> [] \<or> (\<exists>j\<in>set (active s). case taken (job_id j) of None \<Rightarrow> True | Some snap \<Rightarrow> subseq (pending s) snap)
    \<or> (\<exists>a\<in>set (adding s). \<not> ad_queued a)"
proof -
  have "chat_inv c" if "chat_step\<^sup>*\<^sup>* (chat_start now delay) c" for c
    using that by (induction rule: rtranclp_induct) (auto intro: chat_step_inv chat_start_inv)
  from this [OF assms(1)] show ?thesis using assms(2-4) by (simp add: chat_inv_def jobs_inv_iff covered_def)
qed

text \<open>A message arrives, its check starts and takes the batch; then a second message arrives, and its call is on its way.\<close>

definition demo_job :: merge_job where
  "demo_job = \<lparr>job_id = Message_job ''m1'', job_due = 4000, job_tries = 0\<rparr>"

definition demo_pushed :: "nat chat_state" where
  "demo_pushed = addMessage_push ''m1'' 1 1000 (fst (chat_start 1000 3000))"

definition demo_call :: "string \<Rightarrow> int \<Rightarrow> adding_message" where
  "demo_call mid since = \<lparr>ad_mid = mid, ad_at = since, ad_delay = 3000, ad_written = False, ad_attempt = 1, ad_ready = since, ad_queued = False\<rparr>"

definition demo_timed :: "nat chat_state" where
  "demo_timed = addMessage_time (demo_call ''m1'' 1000) demo_pushed"

definition demo_arrived :: "nat chat_state" where
  "demo_arrived = addMessage_queue True ((demo_call ''m1'' 1000)\<lparr>ad_written := True\<rparr>) demo_timed"

definition demo_started :: "nat chat_state" where
  "demo_started = snd (start_job 0 demo_job ''w'' (merge_sleep 3000 demo_arrived))"

definition demo_more :: "nat chat_state" where
  "demo_more = addMessage_push ''m2'' 2 4000 demo_started"

lemmas demo_chat_defs = demo_job_def demo_pushed_def demo_call_def demo_timed_def demo_arrived_def demo_started_def demo_more_def
  chat_start_def addMessage_push_def addMessage_time_def addMessage_queue_def replace_adding_def remove_adding_def
  queue_add_def known_ids_def merge_sleep_def start_job_def acquireProcessingLock_def remove_job_def check_job_def
  isQuietWindowElapsed_def getRemainingQuietWindowMs_def claimPendingSnapshot_def

definition demo_taken :: "job_id \<Rightarrow> (string \<times> nat) list option" where
  "demo_taken = (\<lambda>_. None)(Message_job ''m1'' := Some [(''m1'', 1)])"

lemma demo_push_step: "chat_step (chat_start 1000 3000) (demo_pushed, \<lambda>_. None)"
  unfolding demo_pushed_def chat_start_def fst_conv by (rule arrive) (simp_all add: known_ids_def)

lemma demo_steps: "chat_step\<^sup>*\<^sup>* (chat_start 1000 3000) (demo_more, demo_taken)"
proof -
  note demo_push_step
  moreover have "chat_step (demo_pushed, \<lambda>_. None) (demo_timed, \<lambda>_. None)"
    unfolding demo_timed_def by (rule write_time) (simp_all add: demo_chat_defs)
  moreover have "chat_step (demo_timed, \<lambda>_. None) (demo_arrived, \<lambda>_. None)"
    unfolding demo_arrived_def by (rule try_queue) (simp_all add: demo_chat_defs)
  moreover have "chat_step (demo_arrived, \<lambda>_. None) (merge_sleep 3000 demo_arrived, \<lambda>_. None)"
    using elapse [of demo_arrived _ 3000] by simp
  moreover have "chat_step (merge_sleep 3000 demo_arrived, \<lambda>_. None)
      (demo_started, (\<lambda>_. None)(job_id demo_job := None))"
    unfolding demo_started_def by (rule start) (simp_all add: demo_chat_defs)
  moreover have "check_job 0 demo_job ''w'' demo_started = (Some ([1], 1), demo_started)"
    by (simp add: demo_chat_defs)
  then have "chat_step (demo_started, (\<lambda>_. None)(job_id demo_job := None)) (demo_started, demo_taken)"
    using check [of demo_job demo_started "(\<lambda>_. None)(job_id demo_job := None)" 0 "''w''" "Some ([1], 1)" demo_started]
    by (simp add: demo_chat_defs demo_taken_def)
  moreover have "chat_step (demo_started, demo_taken) (demo_more, demo_taken)"
    unfolding demo_more_def by (rule arrive) (simp_all add: demo_chat_defs)
  ultimately show ?thesis by (meson converse_rtranclp_into_rtranclp rtranclp.rtrancl_refl)
qed

theorem pending_messages_have_a_check_witness:
  "map fst (pending demo_more) = [''m1'', ''m2''] \<and> (0 < length (waiting demo_more) \<or> (\<exists>j\<in>set (active demo_more).
    case demo_taken (job_id j) of None \<Rightarrow> True | Some snap \<Rightarrow> subseq (pending demo_more) snap)
    \<or> (\<exists>a\<in>set (adding demo_more). \<not> ad_queued a))"
proof -
  have p: "map fst (pending demo_more) = [''m1'', ''m2'']" and t: "troubles demo_more = 0" "orphaned demo_more = 0"
    by (simp_all add: demo_chat_defs)
  then have "pending demo_more \<noteq> []" by auto
  then show ?thesis using p pending_messages_have_a_check [OF demo_steps _ t] by (metis length_greater_0_conv)
qed

text \<open>The process dies after the \<open>rpush\<close>: the message waits, nobody will look at it, and no failure was reported.\<close>

definition demo_left :: "nat chat_state" where
  "demo_left = (remove_adding (demo_call ''m1'' 1000) demo_pushed)\<lparr>orphaned := 1\<rparr>"

lemma crash_leaves_message_behind:
  "chat_step\<^sup>*\<^sup>* (chat_start 1000 3000) (demo_left, \<lambda>_. None)" "pending demo_left = [(''m1'', 1)]" "troubles demo_left = 0"
  "waiting demo_left = []" "active demo_left = []" "adding demo_left = []"
proof -
  have "chat_step (demo_pushed, \<lambda>_. None) (demo_left, \<lambda>_. None)"
    using crash_add [of "demo_call ''m1'' 1000" demo_pushed] by (simp add: demo_left_def demo_chat_defs)
  then show "chat_step\<^sup>*\<^sup>* (chat_start 1000 3000) (demo_left, \<lambda>_. None)"
    using demo_push_step by (meson converse_rtranclp_into_rtranclp rtranclp.rtrancl_refl)
qed (simp_all add: demo_left_def demo_chat_defs)

end
