(* ===== verification/WorkerManager.thy ===== *)
theory WorkerManager
  imports Prelude
begin

text \<open>
  \<open>src/channels/wecom/message/runtime/message-worker-manager.service.ts\<close>: the execution slots
  of the message worker, an adjustable counting semaphore.  A waiting job is the name of the job
  whose resolver sits in \<open>pendingExecutionResolvers\<close>; the operations return the jobs whose
  resolvers they call.  JavaScript runs each operation without interruption up to its
  \<open>await\<close>, so a run of the service is a sequence of these steps.
\<close>

section \<open>State and operations\<close>

definition minConcurrency :: int where "minConcurrency = 1"
definition maxConcurrency :: int where "maxConcurrency = 20"

record 'j worker_manager =
  currentConcurrency :: int
  activeJobs :: int
  pendingExecutionResolvers :: "'j list"

definition fresh_manager :: "'j worker_manager" where
  "fresh_manager = \<lparr>currentConcurrency = 4, activeJobs = 0, pendingExecutionResolvers = []\<rparr>"

definition getRegistrationConcurrency :: int where
  "getRegistrationConcurrency = maxConcurrency"

definition normalizeConcurrency :: "int \<Rightarrow> int" where
  "normalizeConcurrency v = max minConcurrency (min maxConcurrency v)"

text \<open>The system configuration answers with a value, without one, or fails.\<close>

definition manager_initialize :: "exn + int option \<Rightarrow> 'j worker_manager \<Rightarrow> 'j worker_manager" where
  "manager_initialize config m =
     (case config of
        Inr (Some v) \<Rightarrow> if v \<noteq> 0 then m\<lparr>currentConcurrency := normalizeConcurrency v\<rparr> else m
      | _ \<Rightarrow> m)"

definition acquireExecutionSlot :: "'j \<Rightarrow> 'j worker_manager \<Rightarrow> 'j list \<times> 'j worker_manager" where
  "acquireExecutionSlot j m =
     (if activeJobs m < currentConcurrency m then ([j], m\<lparr>activeJobs := activeJobs m + 1\<rparr>)
      else ([], m\<lparr>pendingExecutionResolvers := pendingExecutionResolvers m @ [j]\<rparr>))"

fun drain_list :: "'j list \<Rightarrow> int \<Rightarrow> int \<Rightarrow> 'j list \<times> int \<times> 'j list" where
  "drain_list [] active current = ([], active, [])"
| "drain_list (j # js) active current =
     (if active < current
      then (case drain_list js (active + 1) current of (gs, a, r) \<Rightarrow> (j # gs, a, r))
      else ([], active, j # js))"

definition drainExecutionResolvers :: "'j worker_manager \<Rightarrow> 'j list \<times> 'j worker_manager" where
  "drainExecutionResolvers m =
     (case drain_list (pendingExecutionResolvers m) (activeJobs m) (currentConcurrency m) of
        (gs, a, r) \<Rightarrow> (gs, m\<lparr>activeJobs := a, pendingExecutionResolvers := r\<rparr>))"

definition releaseExecutionSlot :: "'j worker_manager \<Rightarrow> 'j list \<times> 'j worker_manager" where
  "releaseExecutionSlot m = drainExecutionResolvers (m\<lparr>activeJobs := max (activeJobs m - 1) 0\<rparr>)"

record concurrency_result =
  cr_success :: bool
  cr_previous :: int
  cr_current :: int

text \<open>
  \<open>setConcurrency\<close> up to its \<open>await\<close>: \<open>Inl\<close> is the answer given at once, \<open>Inr\<close> the value
  read before waiting for the stored configuration.
\<close>

definition setConcurrency_start :: "int \<Rightarrow> 'j worker_manager \<Rightarrow> concurrency_result + int" where
  "setConcurrency_start n m =
     (let previous = currentConcurrency m in
      if n < minConcurrency \<or> maxConcurrency < n
      then Inl \<lparr>cr_success = False, cr_previous = previous, cr_current = currentConcurrency m\<rparr>
      else if n = currentConcurrency m
      then Inl \<lparr>cr_success = True, cr_previous = previous, cr_current = currentConcurrency m\<rparr>
      else Inr previous)"

definition setConcurrency_finish :: "int \<Rightarrow> int \<Rightarrow> bool \<Rightarrow> 'j worker_manager
    \<Rightarrow> concurrency_result \<times> 'j list \<times> 'j worker_manager" where
  "setConcurrency_finish n previous stored m =
     (if stored
      then (case drainExecutionResolvers (m\<lparr>currentConcurrency := n\<rparr>) of
              (gs, m') \<Rightarrow> (\<lparr>cr_success = True, cr_previous = previous, cr_current = n\<rparr>, gs, m'))
      else (\<lparr>cr_success = False, cr_previous = previous, cr_current = currentConcurrency m\<rparr>, [], m))"

record worker_status =
  ws_concurrency :: int
  ws_activeJobs :: int
  ws_min :: int
  ws_max :: int
  ws_merge :: bool

definition getStatus :: "bool \<Rightarrow> 'j worker_manager \<Rightarrow> worker_status" where
  "getStatus merge m = \<lparr>ws_concurrency = currentConcurrency m, ws_activeJobs = activeJobs m,
     ws_min = minConcurrency, ws_max = maxConcurrency, ws_merge = merge\<rparr>"

section \<open>Runs\<close>

text \<open>
  A run of the worker: the manager, the jobs in the order they asked, those in the order they
  were let in, how many have left, and the calls of \<open>setConcurrency\<close> that wait for the stored
  configuration (the asked limit and the limit read before).  A job leaves once after it was let
  in.  \<open>setConcurrency\<close> is two steps, so jobs come and go, and other changes of the limit are
  asked for, between its checks and its end.
\<close>

record 'j worker_run =
  manager :: "'j worker_manager"
  asked :: "'j list"
  let_in :: "'j list"
  left_count :: nat
  changes :: "(int \<times> int) list"

definition grant :: "'j list \<times> 'j worker_manager \<Rightarrow> 'j worker_run \<Rightarrow> 'j worker_run" where
  "grant r w = w\<lparr>manager := snd r, let_in := let_in w @ fst r\<rparr>"

inductive worker_step :: "'j worker_run \<Rightarrow> 'j worker_run \<Rightarrow> bool" where
  ws_ask: "worker_step w (grant (acquireExecutionSlot j (manager w)) (w\<lparr>asked := asked w @ [j]\<rparr>))"
| ws_leave: "left_count w < length (let_in w) \<Longrightarrow>
     worker_step w (grant (releaseExecutionSlot (manager w)) (w\<lparr>left_count := left_count w + 1\<rparr>))"
| ws_set: "setConcurrency_start n (manager w) = Inr previous \<Longrightarrow>
     worker_step w (w\<lparr>changes := (n, previous) # changes w\<rparr>)"
| ws_stored: "(n, previous) \<in> set (changes w) \<Longrightarrow>
     worker_step w (grant (snd (setConcurrency_finish n previous stored (manager w)))
       (w\<lparr>changes := remove1 (n, previous) (changes w)\<rparr>))"

inductive reachable_worker :: "'j worker_run \<Rightarrow> bool" where
  rw_start: "reachable_worker \<lparr>manager = manager_initialize config fresh_manager, asked = [], let_in = [], left_count = 0,
     changes = []\<rparr>"
| rw_step: "reachable_worker w \<Longrightarrow> worker_step w w' \<Longrightarrow> reachable_worker w'"

section \<open>Invariant\<close>

definition worker_ok :: "'j worker_run \<Rightarrow> bool" where
  "worker_ok w \<longleftrightarrow>
     minConcurrency \<le> currentConcurrency (manager w) \<and> currentConcurrency (manager w) \<le> maxConcurrency
   \<and> activeJobs (manager w) \<le> maxConcurrency
   \<and> left_count w \<le> length (let_in w)
   \<and> activeJobs (manager w) = int (length (let_in w)) - int (left_count w)
   \<and> (\<forall>c\<in>set (changes w). minConcurrency \<le> fst c \<and> fst c \<le> maxConcurrency)
   \<and> asked w = let_in w @ pendingExecutionResolvers (manager w)
   \<and> (pendingExecutionResolvers (manager w) \<noteq> [] \<longrightarrow> currentConcurrency (manager w) \<le> activeJobs (manager w))"

lemma drain_list_spec:
  "drain_list js active current = (gs, a, r) \<Longrightarrow>
     js = gs @ r \<and> a = active + int (length gs) \<and> (r \<noteq> [] \<longrightarrow> current \<le> a) \<and> (gs \<noteq> [] \<longrightarrow> a \<le> current)"
proof (induction js arbitrary: active gs a r)
  case (Cons j js)
  show ?case
  proof (cases "active < current")
    case True
    then obtain gs' where "drain_list js (active + 1) current = (gs', a, r)" "gs = j # gs'"
      using Cons.prems by (auto split: prod.splits)
    with Cons.IH [OF this(1)] True show ?thesis by (cases gs') auto
  qed (use Cons.prems in auto)
qed simp

lemma drain_spec:
  assumes "drainExecutionResolvers m = (gs, m')"
  shows "pendingExecutionResolvers m = gs @ pendingExecutionResolvers m'
     \<and> activeJobs m' = activeJobs m + int (length gs) \<and> currentConcurrency m' = currentConcurrency m
     \<and> (pendingExecutionResolvers m' \<noteq> [] \<longrightarrow> currentConcurrency m \<le> activeJobs m')
     \<and> (gs \<noteq> [] \<longrightarrow> activeJobs m' \<le> currentConcurrency m)"
  using assms drain_list_spec
  by (fastforce simp: drainExecutionResolvers_def split: prod.splits)

text \<open>The range check: a change that goes on to the stored configuration lies in the bounds.\<close>

lemma setConcurrency_start_in_range:
  "setConcurrency_start n m = Inr previous \<Longrightarrow> minConcurrency \<le> n \<and> n \<le> maxConcurrency"
  by (auto simp: setConcurrency_start_def Let_def split: if_splits)

lemma worker_step_ok: "worker_step w w' \<Longrightarrow> worker_ok w \<Longrightarrow> worker_ok w'"
proof (induction rule: worker_step.induct)
  case (ws_ask w j)
  then show ?case
    by (cases "activeJobs (manager w) < currentConcurrency (manager w)")
       (auto simp: worker_ok_def grant_def acquireExecutionSlot_def)
next
  case (ws_leave w)
  obtain gs m' where d: "releaseExecutionSlot (manager w) = (gs, m')" by fastforce
  have "0 < activeJobs (manager w)" using ws_leave by (simp add: worker_ok_def)
  then show ?case
    using ws_leave d drain_spec [OF d [unfolded releaseExecutionSlot_def]]
    by (cases "gs = []") (auto simp: worker_ok_def grant_def)
next
  case (ws_set n w previous)
  then show ?case using setConcurrency_start_in_range [OF ws_set(1)] by (auto simp: worker_ok_def)
next
  case (ws_stored n previous w stored)
  have all: "\<forall>c\<in>set (changes w). minConcurrency \<le> fst c \<and> fst c \<le> maxConcurrency"
    using ws_stored(2) by (simp add: worker_ok_def)
  have range: "minConcurrency \<le> n" "n \<le> maxConcurrency" using all ws_stored(1) by force+
  have rest: "\<forall>c\<in>set (remove1 (n, previous) (changes w)). minConcurrency \<le> fst c \<and> fst c \<le> maxConcurrency"
    using all set_remove1_subset by fast
  obtain gs m' where d: "drainExecutionResolvers ((manager w)\<lparr>currentConcurrency := n\<rparr>) = (gs, m')" by fastforce
  show ?case
    using ws_stored(2) range rest d drain_spec [OF d]
    by (cases "gs = []") (auto simp: worker_ok_def grant_def setConcurrency_finish_def)
qed

lemma reachable_worker_ok: "reachable_worker w \<Longrightarrow> worker_ok w"
proof (induction rule: reachable_worker.induct)
  case (rw_start config)
  have "minConcurrency \<le> normalizeConcurrency v \<and> normalizeConcurrency v \<le> maxConcurrency" for v
    by (simp add: normalizeConcurrency_def minConcurrency_def maxConcurrency_def)
  then show ?case
    by (cases config) (auto simp: worker_ok_def manager_initialize_def fresh_manager_def minConcurrency_def
        maxConcurrency_def split: option.splits)
qed (blast intro: worker_step_ok)

section \<open>Properties\<close>

text \<open>C33: however jobs arrive and leave and whatever limits are asked for, one call of
  \<open>setConcurrency\<close> overlapping another or not, at most twenty jobs execute at once, the counter is
  the number of jobs inside, and no job waits while a slot is free.\<close>

theorem worker_slots_bounded:
  assumes "reachable_worker w"
  shows "activeJobs (manager w) = int (length (let_in w)) - int (left_count w) \<and>
    activeJobs (manager w) \<le> maxConcurrency \<and>
    (pendingExecutionResolvers (manager w) \<noteq> [] \<longrightarrow> currentConcurrency (manager w) \<le> activeJobs (manager w))"
  using reachable_worker_ok [OF assms] unfolding worker_ok_def by blast

text \<open>Jobs are let in exactly in the order in which they asked: no job overtakes another.\<close>

theorem worker_slots_fifo:
  assumes "reachable_worker w"
  shows "let_in w = take (length (let_in w)) (asked w) \<and>
    pendingExecutionResolvers (manager w) = drop (length (let_in w)) (asked w)"
  using reachable_worker_ok [OF assms] by (simp add: worker_ok_def)

section \<open>Witnesses\<close>

definition demo_worker :: "nat worker_run" where
  "demo_worker = grant (acquireExecutionSlot 7 (manager_initialize (Inr (Some 1)) fresh_manager))
     \<lparr>manager = manager_initialize (Inr (Some 1)) fresh_manager, asked = [7], let_in = [], left_count = 0, changes = []\<rparr>"

lemma demo_worker_reachable: "reachable_worker demo_worker"
  using rw_step [OF rw_start ws_ask, of 7 "Inr (Some 1)"] by (simp add: demo_worker_def)

theorem worker_slots_bounded_witness: "activeJobs (manager demo_worker) \<le> maxConcurrency"
  using worker_slots_bounded [OF demo_worker_reachable] by simp

theorem worker_slots_fifo_witness: "let_in demo_worker = [7]"
proof -
  have "asked demo_worker = [7]" "length (let_in demo_worker) = 1" by code_simp+
  with worker_slots_fifo [OF demo_worker_reachable] show ?thesis by simp
qed

end
