(* ===== verification/ReplyTurns.thy ===== *)
theory ReplyTurns
  imports ActionJournal
begin

text \<open>
  The reply turns of a chat: \<open>src/biz/reply-execution/reply-execution.types.ts\<close> and
  \<open>reply-execution.constants.ts\<close>, and the SQL function \<open>transition_agent_reply_turn\<close> in its last
  version (\<open>supabase/migrations/20261106160000_ordinary_reply_single_pass.sql\<close>), the only writer of
  the tables \<open>agent_reply_turns\<close> and \<open>agent_reply_inputs\<close> while a turn is live.  A turn owns the
  messages that one reply answers.  Each call runs in one transaction under an advisory lock of the
  chat, so it is one atomic function of the two tables and the time \<open>now()\<close>; what it raises or
  answers as a conflict leaves the tables as they were.

  JSON values are compared as PostgreSQL compares \<open>jsonb\<close>, in normal form.  The table of the
  actions, which \<open>settle\<close> of a frozen turn reads, is the journal of \<open>ActionJournal\<close>.
\<close>

section \<open>Values\<close>

datatype turn_status = Preparing | Planned | Settled | Acked
datatype projection_status = No_projection | Projection_pending | Projection_complete
datatype delivery_policy = Frozen | Single_pass
datatype delivery_outcome = Whole | Incomplete | Unknown_outcome | Skipped | Interrupted

record delivery_summary =
  ds_outcome :: delivery_outcome
  ds_accepted :: "int option"
  ds_total :: "int option"

record reply_segment =
  sg_index :: nat
  sg_text :: string
  sg_actionId :: string
  sg_requestId :: string

record reply_plan =
  pl_text :: string
  pl_segments :: "reply_segment list"
  pl_resume :: "jval option"

record turn_scope =
  t_corp :: string
  t_account :: string
  t_chat :: string

record reply_turn = turn_scope +
  t_turn :: string
  t_inputIds :: "string list"
  t_inputAt :: int
  t_mode :: action_mode
  t_status :: turn_status
  t_owner :: "string option"
  t_fence :: nat
  t_plan :: "reply_plan option"
  t_policy :: delivery_policy
  t_result :: "delivery_summary option"
  t_recovery :: "(string \<times> jval) list"
  t_projection :: projection_status

section \<open>Tables\<close>

text \<open>A row adds the columns only SQL uses.  Rows are listed in the order of their insertion.\<close>

record turn_row = reply_turn +
  generation_until :: int
  t_nextCheck :: "int option"
  t_review :: bool
  t_created :: int
  t_updated :: int
  projection_next :: "int option"

record input_row =
  in_corp :: string
  in_account :: string
  in_chat :: string
  in_message :: string
  in_turn :: string

record turn_store =
  turn_rows :: "turn_row list"
  input_rows :: "input_row list"

section \<open>Inputs and answers\<close>

record open_input =
  oi_ids :: "string list"
  oi_at :: time_text
  oi_recovery :: "(string \<times> jval) list"
  oi_policy :: delivery_policy
  oi_turn :: string
  oi_owner :: string
  oi_mode :: action_mode

record fence_claim =
  fc_owner :: "string option"
  fc_fence :: nat

datatype turn_action =
    Plan reply_plan
  | Start_delivery
  | Save_effects jval
  | Check_delivery
  | Check_input
  | Interrupt
  | Settle_turn "delivery_summary option"
  | Ack
  | Defer_turn
  | Project
  | Defer_projection

datatype turn_op = Open open_input | On_turn string fence_claim turn_action

datatype 'a answer = Raise exn | Conflict string | Done 'a

section \<open>A turn and its fence\<close>

definition fence_lost :: "int \<Rightarrow> fence_claim \<Rightarrow> turn_row \<Rightarrow> bool" where
  "fence_lost now o' r \<longleftrightarrow> t_owner r \<noteq> fc_owner o' \<or> t_fence r \<noteq> fc_fence o' \<or> generation_until r \<le> now"

definition live :: "turn_row \<Rightarrow> bool" where
  "live r \<longleftrightarrow> t_status r = Preparing \<or> t_status r = Planned"

definition minutes :: "int \<Rightarrow> int" where
  "minutes n = n * 60000"

definition put_key :: "string \<Rightarrow> jval \<Rightarrow> (string \<times> jval) list \<Rightarrow> (string \<times> jval) list" where
  "put_key k v es = filter (\<lambda>e. fst e \<noteq> k) es @ [(k, v)]"

definition interrupted_row :: "int \<Rightarrow> turn_row \<Rightarrow> turn_row" where
  "interrupted_row now r = r\<lparr>t_status := Settled,
     t_result := Some \<lparr>ds_outcome = Interrupted, ds_accepted = None, ds_total = None\<rparr>,
     t_review := True, t_nextCheck := Some now, t_updated := now\<rparr>"

text \<open>The constraint \<open>agent_reply_turns_delivery_result_check\<close>.\<close>

definition summary_ok :: "delivery_summary \<Rightarrow> bool" where
  "summary_ok d \<longleftrightarrow> ds_outcome d = Interrupted \<or>
     (case (ds_accepted d, ds_total d) of (Some a, Some n) \<Rightarrow> 0 \<le> a \<and> a \<le> n | _ \<Rightarrow> False)"

text \<open>A segment of a frozen plan is resolved by an action that succeeded, was cancelled, or lost its
  permission before it was sent.\<close>

definition permission_lost :: "journal_row \<Rightarrow> bool" where
  "permission_lost a \<longleftrightarrow> status a = FAILED \<and> \<not> retryable a \<and>
     (case evidence a of None \<Rightarrow> False | Some e \<Rightarrow> ev_kind e = DEFINITIVE_NO_EFFECT \<and> requestTerminated e \<and>
        detail e = Some ''permission_changed_before_dispatch'')"

definition segment_resolved :: "journal \<Rightarrow> turn_row \<Rightarrow> reply_segment \<Rightarrow> bool" where
  "segment_resolved j r s \<longleftrightarrow>
     list_ex (\<lambda>a. r_corp a = t_corp r \<and> actionId a = sg_actionId s) (rows j) \<and>
     list_all (\<lambda>a. r_corp a = t_corp r \<and> actionId a = sg_actionId s \<longrightarrow>
        r_account a = t_account r \<and> r_chat a = t_chat r \<and> r_turn a = t_turn r \<and>
        (status a = SUCCEEDED \<or> status a = CANCELLED \<or> permission_lost a)) (rows j)"

definition plan_resolved :: "journal \<Rightarrow> turn_row \<Rightarrow> bool" where
  "plan_resolved j r = (case t_plan r of None \<Rightarrow> True | Some p \<Rightarrow> list_all (segment_resolved j r) (pl_segments p))"

text \<open>\<open>input_occurred_at < now() - interval '1 day'\<close>\<close>

definition day_old :: "int \<Rightarrow> turn_row \<Rightarrow> bool" where
  "day_old now r \<longleftrightarrow> t_inputAt r < now - 86400000"

section \<open>An operation on a known turn\<close>

fun turn_step :: "journal \<Rightarrow> int \<Rightarrow> fence_claim \<Rightarrow> turn_action \<Rightarrow> turn_row \<Rightarrow> turn_row answer" where
  "turn_step j now o' (Save_effects v) r =
     (if t_policy r \<noteq> Single_pass \<or> t_status r \<noteq> Preparing \<or> fence_lost now o' r
      then Conflict ''ordinary_reply_fence_lost''
      else if (case map_of (t_recovery r) ''effects'' of None \<Rightarrow> False | Some e \<Rightarrow> e \<noteq> v)
      then Conflict ''immutable_business_effects''
      else Done (r\<lparr>t_recovery := put_key ''effects'' v (t_recovery r), t_projection := Projection_pending,
                   t_updated := now\<rparr>))"
| "turn_step j now o' Check_input r =
     (if t_policy r \<noteq> Single_pass \<or> \<not> live r \<or> t_owner r = None \<or> fence_lost now o' r
      then Conflict ''ordinary_reply_fence_lost'' else Done r)"
| "turn_step j now o' Start_delivery r =
     (if t_policy r \<noteq> Single_pass \<or> fence_lost now o' r \<or> t_status r \<noteq> Preparing
      then Conflict ''ordinary_reply_fence_lost''
      else Done (r\<lparr>t_status := Planned, generation_until := now + minutes 10,
                   t_nextCheck := Some (now + minutes 10), t_updated := now\<rparr>))"
| "turn_step j now o' Check_delivery r =
     (if t_policy r \<noteq> Single_pass \<or> fence_lost now o' r \<or> t_status r \<noteq> Planned
      then Conflict ''ordinary_reply_fence_lost'' else Done r)"
| "turn_step j now o' Interrupt r =
     (if t_policy r \<noteq> Single_pass then Conflict ''frozen_obligation_requires_recovery''
      else if \<not> live r then Done r
      else if now < generation_until r then Conflict ''ordinary_reply_still_owned''
      else Done (interrupted_row now r))"
| "turn_step j now o' (Plan p) r =
     (if t_policy r = Single_pass then Conflict ''ordinary_reply_plan_forbidden''
      else if t_plan r \<noteq> None \<and> t_plan r \<noteq> Some p then Conflict ''immutable_reply_plan''
      else if t_status r \<noteq> Preparing then Done r
      else if fence_lost now o' r then Conflict ''generation_fence_lost''
      else Done (r\<lparr>t_plan := Some p, t_status := Planned, t_nextCheck := Some (now + minutes 1), t_updated := now\<rparr>))"
| "turn_step j now o' (Settle_turn d) r =
     (if t_policy r = Single_pass \<and> live r then
        (if fence_lost now o' r then Conflict ''ordinary_reply_fence_lost''
         else let s = (case d of Some x \<Rightarrow> x
                  | None \<Rightarrow> \<lparr>ds_outcome = Skipped, ds_accepted = Some 0, ds_total = Some 0\<rparr>) in
           if summary_ok s
           then Done (r\<lparr>t_status := Settled, t_result := Some s, t_nextCheck := Some now, t_updated := now\<rparr>)
           else Raise ''agent_reply_turns_delivery_result_check'')
      else if t_status r = Planned then
        (if \<not> plan_resolved j r then Conflict ''unresolved_reply_segments''
         else Done (r\<lparr>t_status := Settled, t_nextCheck := Some now, t_updated := now\<rparr>))
      else Done r)"
| "turn_step j now o' Ack r =
     (if t_policy r = Single_pass \<and> t_projection r = Projection_pending then Conflict ''business_effects_pending''
      else if live r then Conflict ''reply_not_settled''
      else if t_status r = Settled then Done (r\<lparr>t_status := Acked, t_nextCheck := None, t_updated := now\<rparr>)
      else Done r)"
| "turn_step j now o' Project r =
     (if t_policy r = Single_pass \<and> live r \<and> fence_lost now o' r then Conflict ''ordinary_reply_fence_lost''
      else if \<not> (t_policy r = Single_pass) \<and> live r then Conflict ''reply_not_settled''
      else if t_projection r = Projection_pending
      then Done (r\<lparr>t_projection := Projection_complete, projection_next := None, t_updated := now\<rparr>)
      else Done r)"
| "turn_step j now o' Defer_projection r =
     (if t_projection r = Projection_pending
      then Done (r\<lparr>projection_next := Some (now + (if day_old now r then minutes 60 else minutes 1))\<rparr>)
      else Done r)"
| "turn_step j now o' Defer_turn r =
     (if t_status r = Acked then Done r
      else if t_policy r = Single_pass
      then Done (r\<lparr>t_nextCheck := Some (if t_status r = Settled then now + minutes 1
                                        else max (generation_until r) (now + minutes 1))\<rparr>)
      else let stop = t_status r = Preparing \<or> (t_status r = Planned \<and> day_old now r) in
        Done (r\<lparr>t_review := stop, t_nextCheck := (if stop then None else Some (now + minutes 1))\<rparr>))"

section \<open>Opening a turn\<close>

definition in_scope :: "turn_scope \<Rightarrow> turn_row \<Rightarrow> bool" where
  "in_scope c r \<longleftrightarrow> t_corp r = t_corp c \<and> t_account r = t_account c \<and> t_chat r = t_chat c"

definition owns_input :: "turn_scope \<Rightarrow> string list \<Rightarrow> turn_store \<Rightarrow> turn_row \<Rightarrow> bool" where
  "owns_input c ids s r \<longleftrightarrow> list_ex (\<lambda>i. in_corp i = t_corp c \<and> in_account i = t_account c \<and> in_chat i = t_chat c \<and>
     in_message i \<in> set ids \<and> t_corp r = in_corp i \<and> t_turn r = in_turn i) (input_rows s)"

definition oldest :: "turn_row list \<Rightarrow> turn_row option" where
  "oldest rs = (case sort_key t_created rs of [] \<Rightarrow> None | r # _ \<Rightarrow> Some r)"

definition pending_turn :: "turn_scope \<Rightarrow> turn_row \<Rightarrow> bool" where
  "pending_turn c r \<longleftrightarrow> in_scope c r \<and> t_mode r = EXECUTE \<and> t_status r \<noteq> Acked"

definition is_task :: "(string \<times> jval) list \<Rightarrow> bool" where
  "is_task rec \<longleftrightarrow> (case map_of rec ''task'' of
     Some (JObj es) \<Rightarrow> map_of es ''kind'' = Some (JStr ''reengagement'') | _ \<Rightarrow> False)"

definition new_turn :: "int \<Rightarrow> turn_scope \<Rightarrow> open_input \<Rightarrow> int \<Rightarrow> turn_row" where
  "new_turn now c i at =
     \<lparr>t_corp = t_corp c, t_account = t_account c, t_chat = t_chat c, t_turn = oi_turn i, t_inputIds = oi_ids i,
      t_inputAt = at, t_mode = oi_mode i, t_status = Preparing, t_owner = Some (oi_owner i), t_fence = 1, t_plan = None,
      t_policy = oi_policy i, t_result = None, t_recovery = oi_recovery i,
      t_projection = (if is_task (oi_recovery i) then Projection_pending else No_projection),
      generation_until = now + minutes 10, t_nextCheck = Some (now + minutes 10), t_review = False, t_created = now,
      t_updated = now, projection_next = (if is_task (oi_recovery i) then Some (now + minutes 10) else None)\<rparr>"

definition new_inputs :: "turn_scope \<Rightarrow> open_input \<Rightarrow> input_row list" where
  "new_inputs c i = map (\<lambda>m. \<lparr>in_corp = t_corp c, in_account = t_account c, in_chat = t_chat c,
     in_message = m, in_turn = oi_turn i\<rparr>) (oi_ids i)"

definition turn_key :: "turn_row \<Rightarrow> string \<times> string" where
  "turn_key r = (t_corp r, t_turn r)"

definition input_key :: "input_row \<Rightarrow> string \<times> string \<times> string \<times> string" where
  "input_key i = (in_corp i, in_account i, in_chat i, in_message i)"

definition put_turn :: "turn_row \<Rightarrow> turn_store \<Rightarrow> turn_store" where
  "put_turn r' s = s\<lparr>turn_rows := map (\<lambda>r. if turn_key r = turn_key r' then r' else r) (turn_rows s)\<rparr>"

text \<open>The update of a turn that \<open>open\<close> found.\<close>

definition reopen :: "int \<Rightarrow> open_input \<Rightarrow> turn_row \<Rightarrow> turn_row answer" where
  "reopen now i r =
     (if t_policy r = Single_pass \<and> live r then
        (if now < generation_until r then Conflict ''ordinary_reply_owned_elsewhere''
         else Done (interrupted_row now r))
      else if t_mode r = EXECUTE \<and> t_status r = Preparing then
        (if now < generation_until r then Conflict ''generation_owned_elsewhere''
         else if \<not> set (t_inputIds r) \<subseteq> set (oi_ids i) then Conflict ''incomplete_original_input''
         else Done (r\<lparr>t_owner := Some (oi_owner i), t_fence := t_fence r + 1, generation_until := now + minutes 10,
                      t_nextCheck := Some (now + minutes 10), t_updated := now\<rparr>))
      else Done r)"

definition insert_turn :: "int \<Rightarrow> turn_scope \<Rightarrow> open_input \<Rightarrow> turn_store \<Rightarrow> turn_row option answer \<times> turn_store" where
  "insert_turn now c i s =
     (case oi_at i of
        None \<Rightarrow> (Raise ''invalid input syntax for type timestamp'', s)
      | Some at \<Rightarrow>
          (let r = new_turn now c i at; ins = new_inputs c i in
           if turn_key r \<in> turn_key ` set (turn_rows s) then (Raise ''agent_reply_turns_pkey'', s)
           else if \<not> distinct (oi_ids i) \<or> (\<exists>x\<in>set ins. input_key x \<in> input_key ` set (input_rows s))
           then (Raise ''agent_reply_inputs_pkey'', s)
           else (Done (Some r), s\<lparr>turn_rows := turn_rows s @ [r], input_rows := input_rows s @ ins\<rparr>)))"

text \<open>The turn that owns one of the messages, whatever its status, before the unfinished one.\<close>

definition owning_turn :: "turn_scope \<Rightarrow> string list \<Rightarrow> turn_store \<Rightarrow> turn_row option" where
  "owning_turn c ids s = oldest (filter (owns_input c ids s) (turn_rows s))"

definition selected_turn :: "turn_scope \<Rightarrow> string list \<Rightarrow> turn_store \<Rightarrow> turn_row option" where
  "selected_turn c ids s =
     (case owning_turn c ids s of Some r \<Rightarrow> Some r | None \<Rightarrow> oldest (filter (pending_turn c) (turn_rows s)))"

definition other_intent :: "turn_scope \<Rightarrow> string list \<Rightarrow> turn_store \<Rightarrow> bool" where
  "other_intent c ids s \<longleftrightarrow> owning_turn c ids s = None \<and>
     (case selected_turn c ids s of None \<Rightarrow> False | Some r \<Rightarrow> set (t_inputIds r) \<inter> set ids = {})"

definition open_turn :: "int \<Rightarrow> turn_scope \<Rightarrow> open_input \<Rightarrow> turn_store \<Rightarrow> turn_row option answer \<times> turn_store" where
  "open_turn now c i s =
     (if oi_ids i = [] \<or> 1000 < length (oi_ids i) then (Raise ''invalid input membership'', s)
      else if other_intent c (oi_ids i) s then (Conflict ''different_reply_intent_pending'', s)
      else (case selected_turn c (oi_ids i) s of
          None \<Rightarrow> if oi_mode i = EXECUTE then insert_turn now c i s else (Done None, s)
        | Some r \<Rightarrow>
            (case reopen now i r of
               Raise e \<Rightarrow> (Raise e, s) | Conflict x \<Rightarrow> (Conflict x, s)
             | Done r' \<Rightarrow> (Done (Some r'), put_turn r' s))))"

section \<open>The transition function\<close>

definition find_turn :: "turn_scope \<Rightarrow> string \<Rightarrow> turn_store \<Rightarrow> turn_row option" where
  "find_turn c k s = List.find (\<lambda>r. t_corp r = t_corp c \<and> t_turn r = k \<and> in_scope c r) (turn_rows s)"

definition turn_transition :: "journal \<Rightarrow> int \<Rightarrow> turn_scope \<Rightarrow> turn_op \<Rightarrow> turn_store
    \<Rightarrow> turn_row option answer \<times> turn_store" where
  "turn_transition j now c op s =
     (if t_corp c = [] \<or> t_account c = [] \<or> t_chat c = [] then (Raise ''missing reply scope'', s)
      else case op of
        Open i \<Rightarrow> open_turn now c i s
      | On_turn k o' act \<Rightarrow>
          (case find_turn c k s of
             None \<Rightarrow> (Raise ''reply turn missing'', s)
           | Some r \<Rightarrow>
               (case turn_step j now o' act r of
                  Raise e \<Rightarrow> (Raise e, s) | Conflict x \<Rightarrow> (Conflict x, s)
                | Done r' \<Rightarrow> (Done (Some r'), put_turn r' s))))"

section \<open>Retention\<close>

text \<open>
  \<open>redact_completed_agent_reply_turns\<close> of \<open>20261021100000_reply_turns.sql\<close>: acknowledged turns with
  a plan, untouched for 90 days, lose the plan and the recovery data.  \<open>locked\<close> are the rows
  another transaction holds.
\<close>

definition turn_redactable :: "int \<Rightarrow> turn_row \<Rightarrow> bool" where
  "turn_redactable now r \<longleftrightarrow> t_status r = Acked \<and> t_projection r \<noteq> Projection_pending \<and> t_plan r \<noteq> None \<and>
     t_updated r < now - 90 * 86400000"

definition redact_turn :: "turn_row \<Rightarrow> turn_row" where
  "redact_turn r = r\<lparr>t_plan := None, t_recovery := []\<rparr>"

definition redact_turns :: "int \<Rightarrow> int \<Rightarrow> (turn_row \<Rightarrow> bool) \<Rightarrow> turn_store \<Rightarrow> nat \<times> turn_store" where
  "redact_turns now limit locked s =
     (let keys = map turn_key (take (nat (min limit 100))
            (sort_key t_updated (filter (\<lambda>r. turn_redactable now r \<and> \<not> locked r) (turn_rows s))))
      in (length keys,
          s\<lparr>turn_rows := map (\<lambda>r. if turn_key r \<in> set keys then redact_turn r else r) (turn_rows s)\<rparr>))"

end
