(* ===== verification/ReplyTurnsInv.thy ===== *)
theory ReplyTurnsInv
  imports ReplyTurns
begin

text \<open>
  What the table of reply turns guarantees: the keys are unique, every message belongs to one turn,
  a chat has at most one unfinished turn, the status of a turn only moves forward and its inputs
  never change.  Each is proved for one row, then for one call, then for every store reachable by
  any interleaving of calls and retention runs; on them rest the properties about the right to
  send and about a live worker.
\<close>

section \<open>A row moves forward\<close>

fun rank :: "turn_status \<Rightarrow> nat" where
  "rank Preparing = 0" | "rank Planned = 1" | "rank Settled = 2" | "rank Acked = 3"

lemma rank_simps [simp]: "rank s = 0 \<longleftrightarrow> s = Preparing" "rank s = 3 \<longleftrightarrow> s = Acked" "rank s \<le> 3" "3 \<le> rank s \<longleftrightarrow> s = Acked"
  by (cases s; simp)+

lemma live_rank: "live r \<longleftrightarrow> rank (t_status r) \<le> 1"
  by (cases "t_status r") (simp_all add: live_def)

definition fixed_part :: "turn_row \<Rightarrow> string \<times> string \<times> string \<times> string \<times> string list \<times> int \<times> action_mode \<times> delivery_policy" where
  "fixed_part r = (t_corp r, t_account r, t_chat r, t_turn r, t_inputIds r, t_inputAt r, t_mode r, t_policy r)"

definition evolves :: "turn_row \<Rightarrow> turn_row \<Rightarrow> bool" where
  "evolves r r' \<longleftrightarrow> fixed_part r' = fixed_part r \<and> rank (t_status r) \<le> rank (t_status r') \<and> t_fence r \<le> t_fence r'"

lemma evolves_refl [simp]: "evolves r r"
  by (simp add: evolves_def)

lemma evolves_trans: "evolves a b \<Longrightarrow> evolves b c \<Longrightarrow> evolves a c"
  by (auto simp: evolves_def)

lemma evolves_fields:
  assumes "evolves r r'"
  shows "t_corp r' = t_corp r" "t_account r' = t_account r" "t_chat r' = t_chat r" "t_turn r' = t_turn r"
    "t_inputIds r' = t_inputIds r" "t_mode r' = t_mode r" "t_policy r' = t_policy r" "turn_key r' = turn_key r"
  using assms by (simp_all add: evolves_def fixed_part_def turn_key_def)

definition turn_ok :: "turn_row \<Rightarrow> bool" where
  "turn_ok r \<longleftrightarrow> t_mode r = EXECUTE \<and> t_inputIds r \<noteq> [] \<and> distinct (t_inputIds r) \<and>
     (t_policy r = Single_pass \<longrightarrow> t_plan r = None) \<and>
     (t_policy r = Frozen \<and> t_status r = Planned \<longrightarrow> t_plan r \<noteq> None) \<and>
     (t_policy r = Single_pass \<and> \<not> live r \<longrightarrow> t_result r \<noteq> None) \<and>
     (t_policy r = Single_pass \<and> t_status r = Acked \<longrightarrow> t_projection r \<noteq> Projection_pending)"

text \<open>One lemma per operation: what an answered call makes of the row.\<close>

lemma turn_step_evolves: "turn_step j now o' act r = Done r' \<Longrightarrow> evolves r r'"
  by (cases act; cases "t_status r")
    (auto simp: evolves_def fixed_part_def interrupted_row_def live_def Let_def split: if_splits)

lemma turn_step_ok:
  assumes "turn_step j now o' act r = Done r'" and ok: "turn_ok r"
  shows "turn_ok r'"
  using assms
  by (cases act; cases "t_status r"; cases "t_policy r")
    (simp_all add: turn_ok_def interrupted_row_def live_def Let_def split: if_splits option.splits,
     auto simp: live_def)

lemma reopen_evolves: "reopen now i r = Done r' \<Longrightarrow> evolves r r'"
  by (cases "t_status r")
    (auto simp: reopen_def evolves_def fixed_part_def interrupted_row_def live_def split: if_splits)

lemma reopen_ok: "reopen now i r = Done r' \<Longrightarrow> turn_ok r \<Longrightarrow> turn_ok r'"
  by (cases "t_status r"; cases "t_policy r")
    (auto simp: reopen_def turn_ok_def interrupted_row_def live_def split: if_splits)

lemma redact_evolves: "evolves r (redact_turn r)"
  by (simp add: evolves_def fixed_part_def redact_turn_def)

lemma redact_ok: "turn_redactable now r \<Longrightarrow> turn_ok r \<Longrightarrow> turn_ok (redact_turn r)"
  by (auto simp: turn_ok_def redact_turn_def turn_redactable_def live_def)

section \<open>What one call does to the tables\<close>

text \<open>A row is updated, some rows are redacted, or a turn with its inputs is added.\<close>

definition scope_of :: "turn_row \<Rightarrow> turn_scope" where
  "scope_of r = \<lparr>t_corp = t_corp r, t_account = t_account r, t_chat = t_chat r\<rparr>"

inductive turn_change :: "turn_store \<Rightarrow> turn_store \<Rightarrow> bool" where
  tc_same: "turn_change s s"
| tc_update: "r \<in> set (turn_rows s) \<Longrightarrow> evolves r r' \<Longrightarrow> (turn_ok r \<Longrightarrow> turn_ok r') \<Longrightarrow> turn_change s (put_turn r' s)"
| tc_redact: "(\<And>r. r \<in> set (turn_rows s) \<Longrightarrow> turn_key r \<in> K \<Longrightarrow> distinct (map turn_key (turn_rows s)) \<Longrightarrow> turn_ok r \<Longrightarrow>
      turn_ok (redact_turn r)) \<Longrightarrow>
    turn_change s (s\<lparr>turn_rows := map (\<lambda>r. if turn_key r \<in> K then redact_turn r else r) (turn_rows s)\<rparr>)"
| tc_insert: "turn_key r \<notin> turn_key ` set (turn_rows s) \<Longrightarrow> turn_ok r \<Longrightarrow>
    \<forall>x\<in>set ins. input_key x \<notin> input_key ` set (input_rows s) \<Longrightarrow> ins = new_inputs (scope_of r) i \<Longrightarrow>
    oi_turn i = t_turn r \<Longrightarrow> oi_ids i = t_inputIds r \<Longrightarrow> filter (pending_turn (scope_of r)) (turn_rows s) = [] \<Longrightarrow>
    turn_change s (s\<lparr>turn_rows := turn_rows s @ [r], input_rows := input_rows s @ ins\<rparr>)"

lemma oldest_mem: "oldest rs = Some r \<Longrightarrow> r \<in> set rs"
  unfolding oldest_def by (metis list.set_intros(1) option.distinct(1) option.inject set_sort list.case_eq_if list.collapse)

lemma oldest_None: "oldest rs = None \<longleftrightarrow> rs = []"
  unfolding oldest_def
  by (cases "sort_key t_created rs") (auto, metis set_empty set_sort)

lemma selected_mem: "selected_turn c ids s = Some r \<Longrightarrow> r \<in> set (turn_rows s)"
  by (fastforce simp: selected_turn_def owning_turn_def split: option.splits dest: oldest_mem)

lemma selected_None: "selected_turn c ids s = None \<Longrightarrow> filter (pending_turn c) (turn_rows s) = []"
  by (simp add: selected_turn_def oldest_None split: option.splits)

lemma insert_change:
  assumes run: "insert_turn now c i s = (a, s')" and free: "filter (pending_turn c) (turn_rows s) = []"
    and i: "oi_mode i = EXECUTE" "oi_ids i \<noteq> []"
  shows "turn_change s s'"
proof (cases "oi_at i")
  case (Some at)
  let ?r = "new_turn now c i at"
  have scope: "t_corp (scope_of ?r) = t_corp c" "t_account (scope_of ?r) = t_account c" "t_chat (scope_of ?r) = t_chat c"
    by (simp_all add: scope_of_def new_turn_def)
  have pend: "pending_turn (scope_of ?r) = pending_turn c"
    by (rule ext) (simp add: pending_turn_def in_scope_def scope)
  have new: "new_inputs (scope_of ?r) i = new_inputs c i"
    by (simp add: new_inputs_def scope)
  have ids: "oi_turn i = t_turn ?r" "oi_ids i = t_inputIds ?r" by (simp_all add: new_turn_def)
  show ?thesis
  proof (cases "turn_key ?r \<in> turn_key ` set (turn_rows s) \<or> \<not> distinct (oi_ids i) \<or>
      (\<exists>x\<in>set (new_inputs c i). input_key x \<in> input_key ` set (input_rows s))")
    case True
    then show ?thesis using run Some by (auto simp: insert_turn_def Let_def split: if_splits intro: tc_same)
  next
    case False
    then have s': "s' = s\<lparr>turn_rows := turn_rows s @ [?r], input_rows := input_rows s @ new_inputs c i\<rparr>"
      using run Some by (simp add: insert_turn_def Let_def)
    have "turn_ok ?r" using i False by (simp add: turn_ok_def new_turn_def live_def)
    then show ?thesis unfolding s'
      using False free by (intro tc_insert [where i = i]) (simp_all add: pend new ids)
  qed
qed (use run in \<open>auto simp: insert_turn_def intro: tc_same\<close>)

text \<open>The three things \<open>open\<close> can do.\<close>

lemma open_cases:
  assumes run: "open_turn now c i s = (a, s')"
  obtains "s' = s"
    | "selected_turn c (oi_ids i) s = None" "oi_mode i = EXECUTE" "oi_ids i \<noteq> []" "insert_turn now c i s = (a, s')"
    | x x' where "selected_turn c (oi_ids i) s = Some x" "reopen now i x = Done x'" "s' = put_turn x' s"
proof (cases "oi_ids i = [] \<or> 1000 < length (oi_ids i) \<or> other_intent c (oi_ids i) s")
  case True
  then have "s' = s" using run by (auto simp: open_turn_def split: if_splits)
  then show ?thesis by (rule that(1))
next
  case False
  show ?thesis
  proof (cases "selected_turn c (oi_ids i) s")
    case (Some x)
    have body: "(case reopen now i x of Raise e \<Rightarrow> (Raise e, s) | Conflict y \<Rightarrow> (Conflict y, s)
        | Done x' \<Rightarrow> (Done (Some x'), put_turn x' s)) = (a, s')"
      using run False Some by (simp add: open_turn_def)
    show ?thesis
    proof (cases "reopen now i x")
      case (Done x')
      then show ?thesis using that(3) [OF Some Done] body by simp
    qed (use body that(1) in simp_all)
  next
    case None
    have body: "(if oi_mode i = EXECUTE then insert_turn now c i s else (Done None, s)) = (a, s')"
      using run False None by (simp add: open_turn_def)
    show ?thesis
    proof (cases "oi_mode i = EXECUTE")
      case True
      then show ?thesis using that(2) [OF None True] body False by simp
    qed (use body that(1) in simp)
  qed
qed

lemma open_change: "open_turn now c i s = (a, s') \<Longrightarrow> turn_change s s'"
proof (erule open_cases)
  fix x x' assume x: "selected_turn c (oi_ids i) s = Some x" "reopen now i x = Done x'" "s' = put_turn x' s"
  then show ?thesis
    using tc_update [OF selected_mem [OF x(1)] reopen_evolves [OF x(2)] reopen_ok [OF x(2)]] by simp
next
  assume "selected_turn c (oi_ids i) s = None" "oi_mode i = EXECUTE" "oi_ids i \<noteq> []" "insert_turn now c i s = (a, s')"
  then show ?thesis using insert_change [OF _ selected_None] by blast
qed (simp add: tc_same)

lemma find_turn_mem: "find_turn c k s = Some r \<Longrightarrow> r \<in> set (turn_rows s)"
  unfolding find_turn_def by (metis find_Some_iff nth_mem)

lemma transition_change: "turn_transition j now c op s = (a, s') \<Longrightarrow> turn_change s s'"
proof (cases op)
  case (Open i)
  assume run: "turn_transition j now c op s = (a, s')"
  show "turn_change s s'"
  proof (cases "t_corp c = [] \<or> t_account c = [] \<or> t_chat c = []")
    case False
    then show ?thesis using run unfolding turn_transition_def Open by (simp only: if_False turn_op.case open_change)
  qed (use run in \<open>simp add: turn_transition_def tc_same\<close>)
next
  case (On_turn k o' act)
  assume run: "turn_transition j now c op s = (a, s')"
  show "turn_change s s'"
  proof (cases "find_turn c k s")
    case (Some r)
    have "turn_change s (put_turn r' s)" if "turn_step j now o' act r = Done r'" for r'
      using tc_update [OF find_turn_mem [OF Some] turn_step_evolves [OF that] turn_step_ok [OF that]] .
    then show ?thesis using run On_turn Some
      by (cases "turn_step j now o' act r") (auto simp: turn_transition_def split: if_splits intro: tc_same)
  qed (use run On_turn in \<open>auto simp: turn_transition_def split: if_splits intro: tc_same\<close>)
qed

lemma redact_change: "turn_change s (snd (redact_turns now limit locked s))"
proof -
  define hits where "hits = take (nat (min limit 100))
    (sort_key t_updated (filter (\<lambda>r. turn_redactable now r \<and> \<not> locked r) (turn_rows s)))"
  have "turn_ok (redact_turn r)" if "r \<in> set (turn_rows s)" "turn_key r \<in> set (map turn_key hits)"
    "distinct (map turn_key (turn_rows s))" "turn_ok r" for r
  proof -
    obtain x where x: "x \<in> set hits" "turn_key r = turn_key x" using \<open>turn_key r \<in> _\<close> by auto
    then have "x \<in> set (turn_rows s)" "turn_redactable now x"
      using set_take_subset unfolding hits_def by fastforce+
    then have "r = x" using that(1,3) x(2) by (auto simp: distinct_map inj_on_def)
    then show ?thesis using redact_ok [OF \<open>turn_redactable now x\<close>] that(4) by simp
  qed
  then show ?thesis
    using tc_redact [of s "set (map turn_key hits)"] by (simp add: redact_turns_def Let_def hits_def)
qed

section \<open>The invariant\<close>

definition same_scope :: "turn_row \<Rightarrow> turn_row \<Rightarrow> bool" where
  "same_scope a b \<longleftrightarrow> t_corp a = t_corp b \<and> t_account a = t_account b \<and> t_chat a = t_chat b"

text \<open>\<open>has_input s r m\<close>: the input table records that message \<open>m\<close> of the chat belongs to turn \<open>r\<close>.\<close>

definition input_of :: "turn_row \<Rightarrow> string \<Rightarrow> input_row" where
  "input_of r m = \<lparr>in_corp = t_corp r, in_account = t_account r, in_chat = t_chat r, in_message = m, in_turn = t_turn r\<rparr>"

definition turns_ok :: "turn_store \<Rightarrow> bool" where
  "turns_ok s \<longleftrightarrow> distinct (map turn_key (turn_rows s)) \<and> (\<forall>r\<in>set (turn_rows s). turn_ok r) \<and>
     distinct (map input_key (input_rows s)) \<and>
     (\<forall>r\<in>set (turn_rows s). \<forall>m\<in>set (t_inputIds r). input_of r m \<in> set (input_rows s)) \<and>
     (\<forall>a\<in>set (turn_rows s). \<forall>b\<in>set (turn_rows s).
        same_scope a b \<and> t_status a \<noteq> Acked \<and> t_status b \<noteq> Acked \<longrightarrow> turn_key a = turn_key b)"

lemma put_turn_rows:
  "turn_rows (put_turn r' s) = map (\<lambda>r. if turn_key r = turn_key r' then r' else r) (turn_rows s)"
  "input_rows (put_turn r' s) = input_rows s"
  by (simp_all add: put_turn_def)

text \<open>Rows replaced one by one by rows they evolve to keep the invariant.\<close>

lemma turns_ok_map:
  assumes ok: "turns_ok s" and f: "\<And>r. r \<in> set (turn_rows s) \<Longrightarrow> evolves r (f r) \<and> turn_ok (f r)"
    and rows: "turn_rows s' = map f (turn_rows s)" and ins: "input_rows s' = input_rows s"
  shows "turns_ok s'"
proof -
  note fields = evolves_fields [OF conjunct1 [OF f]]
  have "map turn_key (turn_rows s') = map turn_key (turn_rows s)"
    unfolding rows map_map using fields(8) by (auto simp: map_eq_conv)
  then have "distinct (map turn_key (turn_rows s'))" using ok by (simp add: turns_ok_def)
  moreover have "\<forall>r\<in>set (turn_rows s'). turn_ok r" using f by (auto simp: rows)
  moreover have "input_of (f r) m \<in> set (input_rows s)"
    if "r \<in> set (turn_rows s)" "m \<in> set (t_inputIds (f r))" for r m
  proof -
    have "input_of (f r) m = input_of r m" using fields [OF that(1)] by (simp add: input_of_def)
    then show ?thesis using ok that fields(5) [OF that(1)] by (auto simp: turns_ok_def)
  qed
  moreover have "turn_key (f a) = turn_key (f b)"
    if ab: "a \<in> set (turn_rows s)" "b \<in> set (turn_rows s)"
      and live: "same_scope (f a) (f b)" "t_status (f a) \<noteq> Acked" "t_status (f b) \<noteq> Acked" for a b
  proof -
    have "t_status r \<noteq> Acked" if "r \<in> set (turn_rows s)" "t_status (f r) \<noteq> Acked" for r
    proof
      assume "t_status r = Acked"
      then have "3 \<le> rank (t_status (f r))" using conjunct1 [OF f [OF that(1)]] by (simp add: evolves_def)
      then show False using that(2) by simp
    qed
    moreover have "same_scope a b" using live(1) fields [OF ab(1)] fields [OF ab(2)] by (simp add: same_scope_def)
    ultimately have "turn_key a = turn_key b" using ok ab live by (auto simp: turns_ok_def)
    then show ?thesis using fields(8) [OF ab(1)] fields(8) [OF ab(2)] by simp
  qed
  moreover have "distinct (map input_key (input_rows s'))" using ok by (simp add: turns_ok_def ins)
  ultimately show ?thesis unfolding turns_ok_def ins by (auto simp: rows)
qed

lemma pending_free:
  assumes "filter (pending_turn (scope_of r)) (turn_rows s) = []" and "x \<in> set (turn_rows s)"
    and "turn_ok x" and "same_scope r x"
  shows "t_status x = Acked"
  using assms by (auto simp: filter_empty_conv pending_turn_def in_scope_def scope_of_def same_scope_def turn_ok_def)

lemma new_inputs_are: "oi_turn i = t_turn r \<Longrightarrow> oi_ids i = t_inputIds r \<Longrightarrow>
  new_inputs (scope_of r) i = map (input_of r) (t_inputIds r)"
  by (simp add: new_inputs_def scope_of_def input_of_def)

lemma turns_ok_insert:
  assumes ok: "turns_ok s" and new: "turn_key r \<notin> turn_key ` set (turn_rows s)" "turn_ok r"
    and ins: "ins = map (input_of r) (t_inputIds r)"
    and fresh: "\<forall>x\<in>set ins. input_key x \<notin> input_key ` set (input_rows s)"
    and free: "filter (pending_turn (scope_of r)) (turn_rows s) = []"
  shows "turns_ok (s\<lparr>turn_rows := turn_rows s @ [r], input_rows := input_rows s @ ins\<rparr>)"
proof -
  have d: "distinct (map input_key ins)"
    using new(2) unfolding ins turn_ok_def map_map
    by (auto simp: distinct_map input_key_def input_of_def inj_on_def)
  have free': "t_status x = Acked" if "x \<in> set (turn_rows s)" "same_scope r x \<or> same_scope x r" for x
    using pending_free [OF free that(1)] ok that by (auto simp: turns_ok_def same_scope_def)
  show ?thesis
    using ok new d fresh free' unfolding turns_ok_def ins by auto
qed

lemma turn_change_ok: "turn_change s s' \<Longrightarrow> turns_ok s \<Longrightarrow> turns_ok s'"
proof (induction rule: turn_change.induct)
  case (tc_update r s r')
  have "evolves x (if turn_key x = turn_key r' then r' else x) \<and> turn_ok (if turn_key x = turn_key r' then r' else x)"
    if x: "x \<in> set (turn_rows s)" for x
  proof (cases "turn_key x = turn_key r'")
    case True
    then have "turn_key x = turn_key r" using evolves_fields(8) [OF tc_update(2)] by simp
    then have "x = r" using tc_update(1,4) x by (auto simp: turns_ok_def distinct_map inj_on_def)
    then show ?thesis using tc_update by (auto simp: turns_ok_def)
  qed (use tc_update x in \<open>auto simp: turns_ok_def\<close>)
  then show ?case by (rule turns_ok_map [OF tc_update(4) _ put_turn_rows])
next
  case (tc_redact s K)
  show ?case
    by (rule turns_ok_map [OF tc_redact(2), where f = "\<lambda>r. if turn_key r \<in> K then redact_turn r else r"])
      (use tc_redact redact_evolves in \<open>auto simp: turns_ok_def\<close>)
next
  case (tc_insert r s ins i)
  then show ?case using turns_ok_insert new_inputs_are by metis
qed simp

section \<open>Histories\<close>

text \<open>What may happen to the tables: a call of any process with any input, or a retention run.\<close>

inductive turn_event :: "turn_store \<Rightarrow> turn_store \<Rightarrow> bool" where
  te_call: "turn_event s (snd (turn_transition j now c op s))"
| te_retention: "turn_event s (snd (redact_turns now limit locked s))"

definition empty_turns :: turn_store where
  "empty_turns = \<lparr>turn_rows = [], input_rows = []\<rparr>"

abbreviation reachable_turns :: "turn_store \<Rightarrow> bool" where
  "reachable_turns s \<equiv> turn_event\<^sup>*\<^sup>* empty_turns s"

lemma turn_event_change: "turn_event s s' \<Longrightarrow> turn_change s s'"
proof (induction rule: turn_event.induct)
  case (te_call s j now c op)
  then show ?case using transition_change by (metis prod.collapse)
next
  case (te_retention s now limit locked)
  then show ?case by (rule redact_change)
qed

lemma turn_history_ok: "turn_event\<^sup>*\<^sup>* s s' \<Longrightarrow> turns_ok s \<Longrightarrow> turns_ok s'"
  by (induction rule: rtranclp_induct) (blast intro: turn_change_ok turn_event_change)+

lemma reachable_turns_ok: "reachable_turns s \<Longrightarrow> turns_ok s"
  by (erule turn_history_ok) (simp add: turns_ok_def empty_turns_def)

lemma same_key_same_row:
  "turns_ok s \<Longrightarrow> a \<in> set (turn_rows s) \<Longrightarrow> b \<in> set (turn_rows s) \<Longrightarrow> turn_key a = turn_key b \<Longrightarrow> a = b"
  by (auto simp: turns_ok_def distinct_map inj_on_def)

text \<open>A row survives every call, as a row it evolves to.\<close>

lemma change_keeps_row:
  assumes "turn_change s s'" and ok: "turns_ok s" and r: "r \<in> set (turn_rows s)"
  shows "\<exists>r'\<in>set (turn_rows s'). evolves r r'"
  using assms(1)
proof cases
  case (tc_update x x')
  have key: "turn_key x' = turn_key x" using evolves_fields(8) [OF tc_update(3)] .
  show ?thesis
  proof (cases "turn_key r = turn_key x")
    case True
    then have "r = x" using same_key_same_row [OF ok r tc_update(2)] by simp
    then show ?thesis using tc_update r key by (auto simp: put_turn_rows)
  next
    case False
    then show ?thesis using tc_update r key by (auto simp: put_turn_rows intro!: bexI [of _ r])
  qed
next
  case (tc_redact K)
  have "evolves r (if turn_key r \<in> K then redact_turn r else r)" by (simp add: redact_evolves)
  moreover have "(if turn_key r \<in> K then redact_turn r else r) \<in> set (turn_rows s')"
    unfolding tc_redact(1) using r by simp
  ultimately show ?thesis by blast
next
  case tc_same
  then show ?thesis using r evolves_refl by blast
next
  case (tc_insert x ins i)
  then have "r \<in> set (turn_rows s')" using r by simp
  then show ?thesis using evolves_refl by blast
qed

lemma history_keeps_row:
  "turn_event\<^sup>*\<^sup>* s s' \<Longrightarrow> turns_ok s \<Longrightarrow> r \<in> set (turn_rows s) \<Longrightarrow> \<exists>r'\<in>set (turn_rows s'). evolves r r'"
proof (induction rule: rtranclp_induct)
  case (step s1 s2)
  then obtain r1 where "r1 \<in> set (turn_rows s1)" "evolves r r1" by blast
  then show ?case
    using change_keeps_row [OF turn_event_change [OF step(2)] turn_history_ok [OF step(1,4)]] evolves_trans by blast
next
  case base
  then show ?case using evolves_refl by blast
qed

lemma find_turn_key: "find_turn c k s = Some r \<Longrightarrow> t_corp r = t_corp c \<and> t_turn r = k \<and> in_scope c r"
  unfolding find_turn_def by (auto simp: find_Some_iff)

text \<open>A granted operation on a turn found its row and left what \<open>turn_step\<close> made of it.\<close>

lemma on_turn_Done:
  assumes "turn_transition j now c (On_turn k o' act) s = (Done x, s')"
  obtains r r' where "find_turn c k s = Some r" and "turn_step j now o' act r = Done r'"
    and "s' = put_turn r' s" and "x = Some r'"
  using assms by (auto simp: turn_transition_def split: if_splits option.splits answer.splits)

section \<open>Properties\<close>

text \<open>C10: whatever calls are made in whatever order, a chat never has two unfinished reply turns, so
  two replies to a candidate are never under way at once.\<close>

theorem one_unfinished_turn_per_chat:
  assumes "reachable_turns s" and "a \<in> set (turn_rows s)" and "b \<in> set (turn_rows s)" and "same_scope a b"
    and "t_status a \<noteq> Acked" and "t_status b \<noteq> Acked"
  shows "a = b"
proof -
  note ok = reachable_turns_ok [OF assms(1)]
  have "turn_key a = turn_key b" using ok assms(2-6) by (auto simp: turns_ok_def)
  then show ?thesis by (rule same_key_same_row [OF ok assms(2,3)])
qed

text \<open>Every incoming message belongs to one turn for ever: two turns of a chat never share one.\<close>

theorem message_belongs_to_one_turn:
  assumes "reachable_turns s" and "a \<in> set (turn_rows s)" and "b \<in> set (turn_rows s)" and "same_scope a b"
    and "m \<in> set (t_inputIds a)" and "m \<in> set (t_inputIds b)"
  shows "a = b"
proof -
  note ok = reachable_turns_ok [OF assms(1)]
  have "input_of a m \<in> set (input_rows s)" "input_of b m \<in> set (input_rows s)"
    using ok assms by (auto simp: turns_ok_def)
  moreover have "input_key (input_of a m) = input_key (input_of b m)"
    using assms(4) by (simp add: input_key_def input_of_def same_scope_def)
  ultimately have "input_of a m = input_of b m" using ok by (auto simp: turns_ok_def distinct_map inj_on_def)
  then have "turn_key a = turn_key b" by (simp add: input_of_def turn_key_def)
  then show ?thesis by (rule same_key_same_row [OF ok assms(2,3)])
qed

text \<open>The right to send an ordinary reply is granted at most once.  After one \<open>start_delivery\<close> of a
  turn was answered with the turn, every later one is refused, whoever asks and whatever happened in
  between.\<close>

lemma delivery_granted_once:
  assumes "reachable_turns s" and "turn_transition j now c (On_turn k o1 Start_delivery) s = (Done x, s1)"
    and "turn_event\<^sup>*\<^sup>* s1 s2"
  shows "turn_transition j2 now2 c (On_turn k o2 Start_delivery) s2 = (Conflict ''ordinary_reply_fence_lost'', s2)"
proof -
  note ok = reachable_turns_ok [OF assms(1)]
  obtain r r' where r: "find_turn c k s = Some r" "turn_step j now o1 Start_delivery r = Done r'" "s1 = put_turn r' s"
    using on_turn_Done [OF assms(2)] by metis
  note ev = turn_step_evolves [OF r(2)]
  have "r' \<in> set (turn_rows s1)" using find_turn_mem [OF r(1)] evolves_fields(8) [OF ev]
    by (auto simp: r(3) put_turn_rows)
  moreover have ok1: "turns_ok s1"
    using turn_change_ok [OF transition_change [OF assms(2)] ok] .
  ultimately obtain r2 where r2: "r2 \<in> set (turn_rows s2)" "evolves r' r2"
    using history_keeps_row [OF assms(3)] by blast
  have "t_status r' = Planned" using r(2) by (auto split: if_splits)
  then have "t_status r2 \<noteq> Preparing" using r2(2) by (auto simp: evolves_def)
  moreover have "find_turn c k s2 = Some r2"
  proof -
    note f = evolves_fields [OF ev] evolves_fields [OF r2(2)]
    have "t_corp r2 = t_corp c \<and> t_turn r2 = k \<and> in_scope c r2"
      using find_turn_key [OF r(1)] f by (simp add: in_scope_def)
    then obtain y where y: "find_turn c k s2 = Some y"
      using r2(1) by (cases "find_turn c k s2") (auto simp: find_turn_def find_None_iff)
    then have "turn_key y = turn_key r2"
      using find_turn_key [OF y] \<open>t_corp r2 = t_corp c \<and> _\<close> by (simp add: turn_key_def)
    then show ?thesis
      using same_key_same_row [OF turn_history_ok [OF assms(3) ok1] find_turn_mem [OF y] r2(1)] y by simp
  qed
  moreover have "\<not> (t_corp c = [] \<or> t_account c = [] \<or> t_chat c = [])"
    using assms(2) by (auto simp: turn_transition_def)
  ultimately show ?thesis by (simp add: turn_transition_def)
qed

text \<open>Everything of a row but the times of the next checks.\<close>

definition same_turn :: "turn_row \<Rightarrow> turn_row \<Rightarrow> bool" where
  "same_turn r r' \<longleftrightarrow> r' = r\<lparr>t_nextCheck := t_nextCheck r', projection_next := projection_next r'\<rparr>"

lemma same_turn_updates: "same_turn r r" "same_turn r (r\<lparr>t_nextCheck := x\<rparr>)" "same_turn r (r\<lparr>projection_next := y\<rparr>)"
  by (simp_all add: same_turn_def)

lemma held_turn_step:
  assumes "turn_step j now o' act r = Done r'" and "t_policy r = Single_pass" and "live r"
    and "now < generation_until r" and "t_owner r \<noteq> fc_owner o' \<or> t_fence r \<noteq> fc_fence o'"
  shows "same_turn r r'"
proof (cases act)
  case Defer_turn
  then obtain x where "r' = r\<lparr>t_nextCheck := x\<rparr>" using assms(1,2,3) by (auto simp: live_def split: if_splits)
  then show ?thesis by (simp only: same_turn_updates)
next
  case Defer_projection
  then obtain x where "r' = r \<or> r' = r\<lparr>projection_next := x\<rparr>" using assms(1) by (auto split: if_splits)
  then show ?thesis using same_turn_updates by blast
next
  case Project
  then show ?thesis using assms by (simp add: fence_lost_def split: if_splits)
next
  case Ack
  then show ?thesis using assms by (simp split: if_splits)
next
  case Interrupt
  then show ?thesis using assms by (simp split: if_splits)
qed (use assms in \<open>simp_all add: fence_lost_def\<close>)

lemma put_other_row:
  "r \<in> set (turn_rows s) \<Longrightarrow> turn_key x \<noteq> turn_key r \<Longrightarrow> r \<in> set (turn_rows (put_turn x s))"
  by (auto simp: put_turn_rows intro!: image_eqI [of _ _ r])

text \<open>A live worker keeps its turn: while an ordinary turn is being generated or sent and its time is
  not over, no call that does not carry the turn's own owner and fence changes anything of it but
  when it is looked at next, whichever operation it is and whichever process makes it.\<close>

theorem live_worker_keeps_its_turn:
  assumes "reachable_turns s" and "r \<in> set (turn_rows s)" and "t_policy r = Single_pass" and "live r"
    and "now < generation_until r"
    and "\<And>k o' act. op = On_turn k o' act \<Longrightarrow> t_owner r \<noteq> fc_owner o' \<or> t_fence r \<noteq> fc_fence o'"
    and "turn_transition j now c op s = (a, s')"
  shows "\<exists>r'\<in>set (turn_rows s'). same_turn r r'"
proof -
  note ok = reachable_turns_ok [OF assms(1)]
  have put: "\<exists>r'\<in>set (turn_rows (put_turn x' s)). same_turn r r'"
    if "x \<in> set (turn_rows s)" "turn_key x' = turn_key x" "x = r \<Longrightarrow> same_turn r x'" for x x'
  proof (cases "x = r")
    case True
    then have "x' \<in> set (turn_rows (put_turn x' s))" using that(1,2) by (auto simp: put_turn_rows)
    then show ?thesis using that(3) [OF True] by blast
  next
    case False
    then have "turn_key x' \<noteq> turn_key r" using same_key_same_row [OF ok that(1) assms(2)] that(2) by auto
    then show ?thesis using put_other_row [OF assms(2)] same_turn_updates(1) by blast
  qed
  have same: "\<exists>r'\<in>set (turn_rows s). same_turn r r'" using assms(2) same_turn_updates(1) by blast
  show ?thesis
  proof (cases op)
    case (On_turn k o' act)
    show ?thesis
    proof (cases "find_turn c k s")
      case (Some x)
      show ?thesis
      proof (cases "turn_step j now o' act x")
        case (Done x')
        have "turn_key x' = turn_key x" using evolves_fields(8) [OF turn_step_evolves [OF Done]] .
        moreover have "same_turn r x'" if "x = r"
          using held_turn_step [OF Done [unfolded that] assms(3,4,5)] assms(6) [OF On_turn] by blast
        ultimately show ?thesis using put [OF find_turn_mem [OF Some]] same assms(7) On_turn Some Done
          by (auto simp: turn_transition_def split: if_splits)
      qed (use same assms(7) On_turn Some in \<open>auto simp: turn_transition_def split: if_splits\<close>)
    qed (use same assms(7) On_turn in \<open>auto simp: turn_transition_def split: if_splits\<close>)
  next
    case (Open i)
    have "open_turn now c i s = (a, s') \<or> s' = s"
      using assms(7) Open by (auto simp: turn_transition_def split: if_splits)
    then show ?thesis
    proof (elim disjE)
      assume "open_turn now c i s = (a, s')"
      then show ?thesis
      proof (cases rule: open_cases)
        case 2
        then have "r \<in> set (turn_rows s')" using assms(2)
          by (auto simp: insert_turn_def Let_def split: option.splits if_splits)
        then show ?thesis using same_turn_updates(1) by blast
      next
        case (3 x x')
        have "x \<noteq> r" using 3(2) assms(3-5) by (auto simp: reopen_def)
        then show ?thesis
          using put [OF selected_mem [OF 3(1)] evolves_fields(8) [OF reopen_evolves [OF 3(2)]]] 3(3) by blast
      qed (use same in simp)
    qed (use same in simp)
  qed
qed

text \<open>An ordinary turn is acknowledged, so its messages are dropped, only once the results of the
  business actions it caused are projected: in every reachable store an acknowledged ordinary turn
  has an outcome and nothing left to project.\<close>

theorem acknowledged_turn_is_projected:
  assumes "reachable_turns s" and "r \<in> set (turn_rows s)" and "t_policy r = Single_pass" and "t_status r = Acked"
  shows "t_projection r \<noteq> Projection_pending \<and> t_result r \<noteq> None"
  using reachable_turns_ok [OF assms(1)] assms(2-4) by (auto simp: turns_ok_def turn_ok_def live_def)

text \<open>Retention never reaches an ordinary turn: its plan is always empty.\<close>

lemma ordinary_turn_never_redacted:
  assumes "reachable_turns s" and "r \<in> set (turn_rows s)" and "t_policy r = Single_pass"
  shows "\<not> turn_redactable now r"
  using reachable_turns_ok [OF assms(1)] assms(2,3) by (auto simp: turns_ok_def turn_ok_def turn_redactable_def)

section \<open>A run of one turn\<close>

text \<open>One message of a chat is answered by an ordinary turn: opened, sent, settled and acknowledged.\<close>

definition demo_scope :: turn_scope where
  "demo_scope = \<lparr>t_corp = ''corp'', t_account = ''bot'', t_chat = ''chat''\<rparr>"

definition demo_open :: open_input where
  "demo_open = \<lparr>oi_ids = [''m1''], oi_at = Some 0, oi_recovery = [], oi_policy = Single_pass, oi_turn = ''t1'',
     oi_owner = ''w1'', oi_mode = EXECUTE\<rparr>"

definition demo_summary :: delivery_summary where
  "demo_summary = \<lparr>ds_outcome = Whole, ds_accepted = Some 1, ds_total = Some 1\<rparr>"

definition demo_call :: "int \<Rightarrow> turn_op \<Rightarrow> turn_store \<Rightarrow> turn_row option answer \<times> turn_store" where
  "demo_call now op s = turn_transition empty_journal now demo_scope op s"

definition demo_on :: "turn_action \<Rightarrow> turn_op" where
  "demo_on act = On_turn ''t1'' \<lparr>fc_owner = Some ''w1'', fc_fence = 1\<rparr> act"

definition demo_opened :: turn_store where "demo_opened = snd (demo_call 0 (Open demo_open) empty_turns)"
definition demo_sending :: turn_store where "demo_sending = snd (demo_call 1 (demo_on Start_delivery) demo_opened)"
definition demo_settled :: turn_store where
  "demo_settled = snd (demo_call 2 (demo_on (Settle_turn (Some demo_summary))) demo_sending)"
definition demo_acked :: turn_store where "demo_acked = snd (demo_call 3 (demo_on Ack) demo_settled)"

lemma demo_turns_reachable:
  "reachable_turns demo_opened" "reachable_turns demo_sending" "reachable_turns demo_settled" "reachable_turns demo_acked"
proof -
  have step: "reachable_turns (snd (demo_call now op s))" if "reachable_turns s" for now op s
    unfolding demo_call_def using that by (rule rtranclp.rtrancl_into_rtrancl) (rule te_call)
  show a: "reachable_turns demo_opened" unfolding demo_opened_def by (rule step) simp
  show b: "reachable_turns demo_sending" unfolding demo_sending_def by (rule step [OF a])
  show c: "reachable_turns demo_settled" unfolding demo_settled_def by (rule step [OF b])
  show "reachable_turns demo_acked" unfolding demo_acked_def by (rule step [OF c])
qed

definition demo_row :: turn_row where
  "demo_row = new_turn 0 demo_scope demo_open 0"

lemma demo_row_simps [simp]:
  "t_corp demo_row = ''corp''" "t_account demo_row = ''bot''" "t_chat demo_row = ''chat''" "t_turn demo_row = ''t1''"
  "t_status demo_row = Preparing" "t_policy demo_row = Single_pass" "t_owner demo_row = Some ''w1''"
  "t_fence demo_row = 1" "generation_until demo_row = 600000" "t_inputIds demo_row = [''m1'']"
  "t_projection demo_row = No_projection"
  by (simp_all add: demo_row_def new_turn_def demo_scope_def demo_open_def minutes_def is_task_def)

lemma demo_opened_rows: "turn_rows demo_opened = [demo_row]"
  by (simp add: demo_opened_def demo_call_def turn_transition_def open_turn_def insert_turn_def demo_row_def
      demo_open_def demo_scope_def empty_turns_def other_intent_def selected_turn_def owning_turn_def oldest_def
      Let_def)

text \<open>A call on the only row of the table.\<close>

lemma demo_on_row:
  assumes "turn_rows s = [r]" and "turn_key r = (''corp'', ''t1'')" and "in_scope demo_scope r"
    and "turn_step empty_journal now \<lparr>fc_owner = Some ''w1'', fc_fence = 1\<rparr> act r = Done r'"
    and "turn_key r' = turn_key r"
  shows "demo_call now (demo_on act) s = (Done (Some r'), snd (demo_call now (demo_on act) s))"
    and "turn_rows (snd (demo_call now (demo_on act) s)) = [r']"
proof -
  have "find_turn demo_scope ''t1'' s = Some r"
    using assms(1-3) by (simp add: find_turn_def turn_key_def demo_scope_def)
  then have "demo_call now (demo_on act) s = (Done (Some r'), put_turn r' s)"
    using assms(4) by (simp add: demo_call_def demo_on_def turn_transition_def) (simp add: demo_scope_def)
  then show "demo_call now (demo_on act) s = (Done (Some r'), snd (demo_call now (demo_on act) s))"
    and "turn_rows (snd (demo_call now (demo_on act) s)) = [r']"
    using assms(1,5) by (simp_all add: put_turn_def)
qed

definition demo_planned :: turn_row where
  "demo_planned = demo_row\<lparr>t_status := Planned, generation_until := 1 + minutes 10,
     t_nextCheck := Some (1 + minutes 10), t_updated := 1\<rparr>"

definition demo_end :: turn_row where
  "demo_end = demo_planned\<lparr>t_status := Acked, t_result := Some demo_summary, t_nextCheck := None, t_updated := 3\<rparr>"

lemma demo_start:
  "demo_call 1 (demo_on Start_delivery) demo_opened = (Done (Some demo_planned), demo_sending)"
  "turn_rows demo_sending = [demo_planned]"
  unfolding demo_sending_def
  by (rule demo_on_row [OF demo_opened_rows];
      simp add: turn_key_def in_scope_def demo_scope_def fence_lost_def demo_planned_def)+

lemma demo_settled_rows:
  "turn_rows demo_settled = [demo_planned\<lparr>t_status := Settled, t_result := Some demo_summary, t_nextCheck := Some 2, t_updated := 2\<rparr>]"
  unfolding demo_settled_def
  by (rule demo_on_row(2) [OF demo_start(2)])
    (simp_all add: turn_key_def in_scope_def demo_scope_def fence_lost_def demo_planned_def live_def summary_ok_def
      demo_summary_def minutes_def)

lemma demo_acked_rows: "turn_rows demo_acked = [demo_end]"
  unfolding demo_acked_def
  by (rule demo_on_row(2) [OF demo_settled_rows])
    (simp_all add: turn_key_def in_scope_def demo_scope_def demo_planned_def live_def demo_end_def)

theorem one_unfinished_turn_per_chat_witness:
  "demo_row \<in> set (turn_rows demo_opened) \<and> t_status demo_row \<noteq> Acked \<and> demo_row = demo_row"
  using one_unfinished_turn_per_chat [of demo_opened demo_row demo_row] demo_turns_reachable(1)
  by (simp add: demo_opened_rows same_scope_def)

theorem message_belongs_to_one_turn_witness:
  "demo_row \<in> set (turn_rows demo_opened) \<and> ''m1'' \<in> set (t_inputIds demo_row) \<and> demo_row = demo_row"
  using message_belongs_to_one_turn [of demo_opened demo_row demo_row "''m1''"] demo_turns_reachable(1)
  by (simp add: demo_opened_rows same_scope_def)

theorem live_worker_keeps_its_turn_witness:
  "\<exists>r\<in>set (turn_rows (snd (turn_transition empty_journal 5 demo_scope
      (On_turn ''t1'' \<lparr>fc_owner = Some ''w2'', fc_fence = 1\<rparr> Interrupt) demo_opened))). same_turn demo_row r"
  by (rule live_worker_keeps_its_turn [OF demo_turns_reachable(1) _ _ _ _ _ prod.collapse [symmetric], of demo_row])
    (auto simp: demo_opened_rows live_def)

theorem acknowledged_turn_is_projected_witness:
  "demo_end \<in> set (turn_rows demo_acked) \<and> t_projection demo_end \<noteq> Projection_pending \<and> t_result demo_end \<noteq> None"
  using acknowledged_turn_is_projected [of demo_acked demo_end] demo_turns_reachable(4)
  by (simp add: demo_acked_rows) (simp add: demo_end_def demo_planned_def)

end
