(* ===== verification/ReplyService.thy ===== *)
theory ReplyService
  imports ReplyTurns ActionStore RedisLease
begin

text \<open>
  The service over the reply turns: \<open>src/biz/reply-execution/reply-turns.repository.ts\<close>,
  \<open>reply-turns.service.ts\<close> and \<open>reply-recovery-lease.service.ts\<close>.

  The world of the repository adds to the base repository's the tables of \<open>ReplyTurns\<close>, the
  journal of the actions that SQL consults, and an environment that says what happens around each
  request: how long it takes, which calls other processes commit before it is served, what becomes
  of the actions, and whether the request or its answer is lost.  With no event left requests are
  served at once.

  A \<open>ReplyDeferredError\<close> is the error text its constructor makes.  \<open>randomUUID\<close> is the next
  name of this process.
\<close>

section \<open>The world\<close>

record turn_arrival =
  ta_delay :: nat
  ta_foreign :: "(turn_scope \<times> turn_op) list"
  ta_actions :: "journal \<Rightarrow> journal"
  ta_fault :: fault

definition turn_calm :: turn_arrival where
  "turn_calm = \<lparr>ta_delay = 0, ta_foreign = [], ta_actions = id, ta_fault = Answered\<rparr>"

record turn_world = db_world +
  turns_of :: turn_store
  actions_of :: journal
  turn_env :: "turn_arrival list"
  turn_process :: string
  turn_serial :: nat

definition foreign_turn :: "journal \<Rightarrow> int \<Rightarrow> turn_scope \<times> turn_op \<Rightarrow> turn_store \<Rightarrow> turn_store" where
  "foreign_turn j now e s = (case e of (c, op) \<Rightarrow> snd (turn_transition j now c op s))"

definition turn_arrive :: "'x turn_world_scheme \<Rightarrow> fault \<times> 'x turn_world_scheme" where
  "turn_arrive w =
     (let e = (case turn_env w of [] \<Rightarrow> turn_calm | e # _ \<Rightarrow> e); now = clock w + int (ta_delay e);
          j = ta_actions e (actions_of w)
      in (ta_fault e, w\<lparr>clock := now, turn_env := tl (turn_env w), actions_of := j,
                       turns_of := fold (foreign_turn j now) (ta_foreign e) (turns_of w)\<rparr>))"

text \<open>A remote call of a database function, which may raise.\<close>

definition turn_remote :: "(journal \<Rightarrow> int \<Rightarrow> turn_store \<Rightarrow> (exn + 'a) \<times> turn_store) \<Rightarrow> ('x turn_world_ext, 'a) request" where
  "turn_remote f w =
     (case turn_arrive w of
        (Lost_request e, w1) \<Rightarrow> (Error_reply e, w1)
      | (Lost_answer e, w1) \<Rightarrow> (Error_reply e, w1\<lparr>turns_of := snd (f (actions_of w1) (clock w1) (turns_of w1))\<rparr>)
      | (Answered, w1) \<Rightarrow>
          (case f (actions_of w1) (clock w1) (turns_of w1) of
             (Inl m, s) \<Rightarrow> (Error_reply \<lparr>err_code = None, err_message = m\<rparr>, w1\<lparr>turns_of := s\<rparr>)
           | (Inr v, s) \<Rightarrow> (Data v, w1\<lparr>turns_of := s\<rparr>)))"

definition turn_uuid :: "('x turn_world_scheme, string) io" where
  "turn_uuid w = (turn_process w @ CHR ''-'' # show_nat (turn_serial w), w\<lparr>turn_serial := turn_serial w + 1\<rparr>)"

section \<open>ReplyTurnsRepository\<close>

abbreviation reply_table :: string where
  "reply_table \<equiv> ''agent_reply_turns''"

definition turn_of_row :: "turn_row \<Rightarrow> reply_turn" where
  "turn_of_row r = reply_turn.truncate r"

text \<open>What the function returns: the turn, or a conflict; \<open>Inl\<close> is an exception it raised.\<close>

definition turn_answer :: "turn_scope \<Rightarrow> turn_op \<Rightarrow> journal \<Rightarrow> int \<Rightarrow> turn_store
    \<Rightarrow> (exn + (string + turn_row option)) \<times> turn_store" where
  "turn_answer c op j now s =
     (case turn_transition j now c op s of
        (Raise e, s') \<Rightarrow> (Inl e, s')
      | (Conflict x, s') \<Rightarrow> (Inr (Inl x), s')
      | (Done r, s') \<Rightarrow> (Inr (Inr r), s'))"

definition repo_transition :: "turn_scope \<Rightarrow> turn_op \<Rightarrow> ('x turn_world_scheme, reply_turn option) act" where
  "repo_transition c op w =
     (case circuitBlocked reply_table ''reply_turn'' w of
        (True, w1) \<Rightarrow> (Inl ''reply_store_unavailable'', w1)
      | (False, w1) \<Rightarrow>
          (case with_client (turn_remote (turn_answer c op)) w1 of
             (Data d, w2) \<Rightarrow>
               (let w3 = recordCircuitSuccess reply_table ''reply_turn'' w2 in
                case d of
                  Inl x \<Rightarrow> (Inl x, w3)
                | Inr r \<Rightarrow> (Inr (map_option turn_of_row r), w3))
           | (Error_reply e, w2) \<Rightarrow> (Inl (err_message e), noteOutcome reply_table ''reply_turn'' e w2)
           | (Throws e, w2) \<Rightarrow> (Inl (err_message e), w2)))"

definition due_turn :: "int \<Rightarrow> turn_row \<Rightarrow> bool" where
  "due_turn now r \<longleftrightarrow> t_mode r = EXECUTE \<and> map_of (t_recovery r) ''primary'' \<noteq> None \<and>
     (live r \<or> t_status r = Settled) \<and> (case t_nextCheck r of None \<Rightarrow> False | Some t \<Rightarrow> t \<le> now)"

definition due_turns :: "int \<Rightarrow> turn_store \<Rightarrow> reply_turn list" where
  "due_turns now s = map turn_of_row (take 25
     (sort_key (\<lambda>r. case t_nextCheck r of None \<Rightarrow> 0 | Some t \<Rightarrow> t) (filter (due_turn now) (turn_rows s))))"

definition repo_due :: "('x turn_world_scheme, reply_turn list) act" where
  "repo_due w = unguarded (turn_remote (\<lambda>_ _ s. (Inr (due_turns (clock w) s), s))) w"

definition repo_redact :: "int \<Rightarrow> ('x turn_world_scheme, nat) act" where
  "repo_redact limit =
     act_bind (unguarded (turn_remote (\<lambda>_ now s. case redact_turns now limit (\<lambda>_. False) s of (n, s') \<Rightarrow> (Inr n, s'))))
       (\<lambda>n. if limit < int n then act_throw ''Invalid reply retention count'' else act_ret n)"

section \<open>ReplyTurnsService\<close>

record turns_config =
  tc_mode :: action_mode
  tc_cutover :: "int option"

definition turns_create :: "string option \<Rightarrow> (string \<times> time_text) option \<Rightarrow> exn + turns_config" where
  "turns_create mode_cfg boundary =
     (let refuse = Inl ''Reply execution requires a valid mode and durable cutover boundary'';
          cutover = (case boundary of None \<Rightarrow> None | Some (t, parsed) \<Rightarrow> if t = [] then None else Some parsed)
      in case mode_of_text (case mode_cfg of None \<Rightarrow> mode_text OBSERVE | Some t \<Rightarrow> t) of
           None \<Rightarrow> refuse
         | Some md \<Rightarrow>
             if cutover = Some None \<or> (md = EXECUTE \<and> cutover = None) then refuse
             else Inr \<lparr>tc_mode = md, tc_cutover = (case cutover of None \<Rightarrow> None | Some t \<Rightarrow> t)\<rparr>)"

definition REPLY_RETENTION_MS :: int where
  "REPLY_RETENTION_MS = 90 * 86400000"

definition deferred :: "string \<Rightarrow> exn" where
  "deferred reason = ''reply_deferred:'' @ reason"

definition truthy :: "jval option \<Rightarrow> bool" where
  "truthy v = (case v of None \<Rightarrow> False | Some JNull \<Rightarrow> False | Some JUndef \<Rightarrow> False | Some (JBool b) \<Rightarrow> b
     | Some (JStr s) \<Rightarrow> s \<noteq> [] | Some (JNum n) \<Rightarrow> n \<noteq> None \<and> n \<noteq> Some ''0'' | Some _ \<Rightarrow> True)"

text \<open>Only the route of the primary message is kept.\<close>

definition route_keys :: "string list" where
  "route_keys = [''orgId'', ''imBotId'', ''chatId'', ''imContactId'', ''imRoomId'', ''groupId'', ''_apiType'']"

definition inputContext :: "(string \<times> jval) list \<Rightarrow> (string \<times> jval) list" where
  "inputContext rcv =
     (let primary = (case map_of rcv ''primary'' of Some (JObj es) \<Rightarrow> es | _ \<Rightarrow> []);
          kept = filter (\<lambda>k. map_of primary k \<noteq> None \<and> map_of primary k \<noteq> Some JUndef) route_keys
      in [(''primary'', JObj (map (\<lambda>k. (k, the (map_of primary k))) kept))])"

text \<open>\<open>[...new Set(ids)]\<close> keeps the first of equal ids.\<close>

definition unique_ids :: "string list \<Rightarrow> string list" where
  "unique_ids ids = rev (remdups (rev ids))"

definition outside_boundary :: "turns_config \<Rightarrow> int \<Rightarrow> time_text \<Rightarrow> bool" where
  "outside_boundary cfg now at \<longleftrightarrow> tc_mode cfg = EXECUTE \<and>
     (at = None \<or> before at (the (tc_cutover cfg)) \<or> before at (now - REPLY_RETENTION_MS) \<or> after at (now + 60000))"

definition attempt :: "('w, 'a) act \<Rightarrow> ('w, exn + 'a) act" where
  "attempt m = act_catch (act_bind m (\<lambda>v. act_ret (Inr v))) (\<lambda>e. act_ret (Inl e))"

definition open_request :: "turns_config \<Rightarrow> string list \<Rightarrow> time_text \<Rightarrow> (string \<times> jval) list \<Rightarrow> string \<Rightarrow> string
    \<Rightarrow> open_input" where
  "open_request cfg ids at rcv turn who =
     (let primary = truthy (map_of rcv ''primary'') in
      \<lparr>oi_ids = unique_ids ids, oi_at = at, oi_recovery = (if primary then inputContext rcv else rcv),
       oi_policy = (if primary then Single_pass else Frozen), oi_turn = turn, oi_owner = who, oi_mode = tc_mode cfg\<rparr>)"

text \<open>What \<open>open\<close> makes of the repository's answer.\<close>

definition opened :: "turns_config \<Rightarrow> reply_turn option \<Rightarrow> ('x turn_world_scheme, reply_turn option) act" where
  "opened cfg t w =
     (case t of
        None \<Rightarrow> (Inr None, w)
      | Some turn \<Rightarrow>
          if t_mode turn \<noteq> EXECUTE then
            (if tc_mode cfg = EXECUTE then (Inl (deferred ''observation_turn_requires_cutover_review''), w)
             else (Inr None, w))
          else if t_inputAt turn < clock w - REPLY_RETENTION_MS then (Inl (deferred ''recovery_expired''), w)
          else (Inr (Some turn), w))"

definition turns_open :: "turns_config \<Rightarrow> turn_scope \<Rightarrow> string list \<Rightarrow> time_text \<Rightarrow> (string \<times> jval) list
    \<Rightarrow> ('x turn_world_scheme, reply_turn option) act" where
  "turns_open cfg c ids at rcv w =
     (if tc_mode cfg \<noteq> EXECUTE \<and> tc_cutover cfg = None then (Inr None, w)
      else if outside_boundary cfg (clock w) at then (Inl (deferred ''input_outside_recovery_boundary''), w)
      else if ids = [] \<or> list_ex blank ids then (Inl (deferred ''missing_input_membership''), w)
      else
        act_bind (act_of_io turn_uuid) (\<lambda>turn.
        act_bind (act_of_io turn_uuid) (\<lambda>who.
        act_bind (attempt (repo_transition c (turn_op.Open (open_request cfg ids at rcv turn who)))) (\<lambda>r.
          case r of
            Inr t \<Rightarrow> opened cfg t
          | Inl _ \<Rightarrow> if tc_mode cfg = EXECUTE \<or> tc_cutover cfg \<noteq> None then act_throw (deferred ''membership_unconfirmed'')
                     else act_ret None))) w)"

definition action_text :: "turn_action \<Rightarrow> string" where
  "action_text act = (case act of Plan _ \<Rightarrow> ''plan'' | Start_delivery \<Rightarrow> ''start_delivery''
     | Save_effects _ \<Rightarrow> ''save_effects'' | Check_delivery \<Rightarrow> ''check_delivery'' | Check_input \<Rightarrow> ''check_input''
     | Interrupt \<Rightarrow> ''interrupt'' | Settle_turn _ \<Rightarrow> ''settle'' | Ack \<Rightarrow> ''ack'' | Defer_turn \<Rightarrow> ''defer''
     | Project \<Rightarrow> ''project'' | Defer_projection \<Rightarrow> ''defer_projection'')"

definition scope_of_turn :: "('y reply_turn_scheme) \<Rightarrow> turn_scope" where
  "scope_of_turn t = \<lparr>t_corp = t_corp t, t_account = t_account t, t_chat = t_chat t\<rparr>"

definition turn_call :: "reply_turn \<Rightarrow> turn_action \<Rightarrow> turn_op" where
  "turn_call t act = On_turn (t_turn t) \<lparr>fc_owner = t_owner t, fc_fence = t_fence t\<rparr> act"

definition turns_update :: "reply_turn \<Rightarrow> turn_action \<Rightarrow> ('x turn_world_scheme, reply_turn) act" where
  "turns_update t act =
     act_catch
       (act_bind (repo_transition (scope_of_turn t) (turn_call t act)) (\<lambda>r.
          case r of None \<Rightarrow> act_throw ''turn_missing'' | Some next \<Rightarrow> act_ret next))
       (\<lambda>_. act_throw (deferred (action_text act @ ''_not_confirmed'')))"

definition segment_json :: "reply_segment \<Rightarrow> jval" where
  "segment_json s = JObj [(''index'', JNum (Some (show_nat (sg_index s)))), (''text'', JStr (sg_text s)),
     (''actionId'', JStr (sg_actionId s)), (''requestId'', JStr (sg_requestId s))]"

definition plan_json :: "reply_plan \<Rightarrow> jval" where
  "plan_json p = JObj [(''version'', JNum (Some ''1'')), (''text'', JStr (pl_text p)),
     (''resume'', opt_json id (pl_resume p)), (''segments'', JArr (map segment_json (pl_segments p)))]"

definition savePlan :: "crypto \<Rightarrow> reply_turn \<Rightarrow> reply_plan \<Rightarrow> ('x turn_world_scheme, reply_turn) act" where
  "savePlan k t p =
     (case actionDigest (sha256 k) (locale_le k) (plan_json p) of
        Inl _ \<Rightarrow> act_throw (deferred ''invalid_reply_plan'')
      | Inr _ \<Rightarrow> turns_update t (Plan p))"

definition saveEffects :: "reply_turn \<Rightarrow> jval \<Rightarrow> ('x turn_world_scheme, reply_turn) act" where
  "saveEffects t v = turns_update t (Save_effects v)"

definition startDelivery :: "reply_turn \<Rightarrow> ('x turn_world_scheme, reply_turn) act" where
  "startDelivery t = turns_update t Start_delivery"

definition assertInputActive :: "reply_turn \<Rightarrow> ('x turn_world_scheme, unit) act" where
  "assertInputActive t = act_bind (turns_update t Check_input) (\<lambda>_. act_ret ())"

definition assertDeliveryActive :: "reply_turn \<Rightarrow> ('x turn_world_scheme, unit) act" where
  "assertDeliveryActive t = act_bind (turns_update t Check_delivery) (\<lambda>_. act_ret ())"

definition interrupt_turn :: "reply_turn \<Rightarrow> ('x turn_world_scheme, reply_turn) act" where
  "interrupt_turn t = turns_update t Interrupt"

definition settle_turn :: "reply_turn \<Rightarrow> delivery_summary option \<Rightarrow> ('x turn_world_scheme, reply_turn) act" where
  "settle_turn t d = turns_update t (Settle_turn d)"

definition acked :: "reply_turn \<Rightarrow> ('x turn_world_scheme, reply_turn) act" where
  "acked t = turns_update t Ack"

definition defer_turn :: "reply_turn \<Rightarrow> ('x turn_world_scheme, unit) act" where
  "defer_turn t = act_bind (turns_update t Defer_turn) (\<lambda>_. act_ret ())"

definition completeProjection :: "reply_turn \<Rightarrow> ('x turn_world_scheme, unit) act" where
  "completeProjection t = act_bind (turns_update t Project) (\<lambda>_. act_ret ())"

section \<open>ReplyRecoveryLeaseService\<close>

definition assert_recovery_lease :: "('s, 'y) redis_service_scheme \<Rightarrow> redis_lease \<Rightarrow> int
    \<Rightarrow> (('s, 'x) redis_world_scheme, unit) act" where
  "assert_recovery_lease R l deadline w =
     (if deadline \<le> time_ms w then (Inl (deferred ''reply_recovery_lease_or_budget_lost''), w)
      else act_bind (lease_renew R l) (\<lambda>ok.
             if ok then act_ret () else act_throw (deferred ''reply_recovery_lease_or_budget_lost'')) w)"

definition recovery_lease_run :: "('s, 'y) redis_service_scheme \<Rightarrow> string
    \<Rightarrow> ((('s, 'x) redis_world_scheme, unit) act \<Rightarrow> (('s, 'x) redis_world_scheme, 'a) act)
    \<Rightarrow> (('s, 'x) redis_world_scheme, 'a option) act" where
  "recovery_lease_run R chat task =
     act_bind (lease_acquire R (conversationProcessingLeaseKey chat) 90 no_options) (\<lambda>lease.
     case lease of
       None \<Rightarrow> act_ret None
     | Some l \<Rightarrow> (\<lambda>w. let assertOwned = assert_recovery_lease R l (time_ms w + 30000) in
         act_finally
           (act_bind assertOwned (\<lambda>_. act_bind (task assertOwned) (\<lambda>v. act_ret (Some v))))
           (act_bind (lease_release R l) (\<lambda>_. act_ret ())) w))"

end
