(* ===== verification/ReplyServiceInv.thy ===== *)
theory ReplyServiceInv
  imports ReplyService ReplyTurnsInv
begin

text \<open>
  What the service over the reply turns guarantees, whatever other processes commit around its
  requests and whichever requests and answers are lost: the tables it reaches are reachable ones,
  a confirmed operation happened, an opened turn belongs to the caller's messages and, while it can
  still be worked on, to the caller alone.
\<close>

section \<open>Calls are events of the tables\<close>

lemma turn_remote_events:
  assumes "\<And>j now s. turn_event\<^sup>*\<^sup>* s (snd (f j now s))" and "turn_remote f w = (r, w')"
  shows "turn_event\<^sup>*\<^sup>* (turns_of w) (turns_of w')"
proof -
  have foreign: "turn_event\<^sup>*\<^sup>* s (fold (foreign_turn j now) xs s)" for j now xs s
  proof (induction xs arbitrary: s)
    case (Cons x xs)
    have "turn_event s (foreign_turn j now x s)" by (cases x) (simp add: foreign_turn_def te_call)
    then show ?case using Cons by (simp add: converse_rtranclp_into_rtranclp)
  qed simp
  obtain ft w1 where a: "turn_arrive w = (ft, w1)" by fastforce
  have "turn_event\<^sup>*\<^sup>* (turns_of w) (turns_of w1)" using a foreign by (auto simp: turn_arrive_def Let_def)
  moreover have "turn_event\<^sup>*\<^sup>* (turns_of w1) (turns_of w')"
    using assms a by (auto simp: turn_remote_def split: prod.splits fault.splits sum.splits) (metis snd_conv)+
  ultimately show ?thesis by (rule rtranclp_trans)
qed

lemma turns_note [simp]:
  "turns_of (recordCircuitSuccess own op w) = turns_of w"
  "clock (recordCircuitSuccess own op w) = clock w"
  "turns_of (noteOutcome own op e w) = turns_of w"
  by (simp_all add: recordCircuitSuccess_def noteOutcome_def Let_def)

lemma turns_blocked: "circuitBlocked own op w = (b, w') \<Longrightarrow> turns_of w' = turns_of w"
  by (auto simp: circuitBlocked_def Let_def split: prod.splits bool.splits)

lemma repo_transition_events:
  assumes "repo_transition c op w = (r, w')"
  shows "turn_event\<^sup>*\<^sup>* (turns_of w) (turns_of w')"
proof -
  obtain b w1 where b: "circuitBlocked reply_table ''reply_turn'' w = (b, w1)" by fastforce
  obtain x w2 where x: "with_client (turn_remote (turn_answer c op)) w1 = (x, w2)" by fastforce
  have "turn_event\<^sup>*\<^sup>* s (snd (turn_answer c op j now s))" for j now s
    using r_into_rtranclp [of turn_event, OF te_call [of s j now c op]] by (auto simp: turn_answer_def split: prod.splits answer.splits)
  then have "turn_event\<^sup>*\<^sup>* (turns_of w1) (turns_of w2)"
    using x turn_remote_events by (fastforce simp: with_client_def split: if_splits)
  then show ?thesis
    using assms b x turns_blocked [OF b]
    by (cases b; cases x) (auto simp: repo_transition_def Let_def split: sum.splits)
qed

text \<open>A resolved call was answered by the database function, on tables that other calls made.\<close>

lemma repo_transition_Inr:
  assumes "repo_transition c op w = (Inr x, w')"
  obtains j s r where "turn_event\<^sup>*\<^sup>* (turns_of w) s" and "turn_transition j (clock w') c op s = (Done r, turns_of w')"
    and "x = map_option turn_of_row r"
proof -
  obtain w1 where b: "circuitBlocked reply_table ''reply_turn'' w = (False, w1)"
    using assms by (auto simp: repo_transition_def split: prod.splits bool.splits)
  obtain r w2 where x: "with_client (turn_remote (turn_answer c op)) w1 = (Data (Inr r), w2)"
    and r: "x = map_option turn_of_row r" "w' = recordCircuitSuccess reply_table ''reply_turn'' w2"
    using assms b by (auto simp: repo_transition_def Let_def split: prod.splits reply.splits sum.splits)
  then have rem: "turn_remote (turn_answer c op) w1 = (Data (Inr r), w2)"
    by (simp add: with_client_def split: if_splits)
  obtain ft w3 where a: "turn_arrive w1 = (ft, w3)" by fastforce
  have pre: "turn_event\<^sup>*\<^sup>* (turns_of w1) (turns_of w3)"
  proof -
    have "turn_remote (\<lambda>_ _ s. (Inl [] :: exn + unit, s)) w1 = (fst (turn_remote (\<lambda>_ _ s. (Inl [] :: exn + unit, s)) w1), w3)"
      using a by (auto simp: turn_remote_def split: fault.splits)
    from turn_remote_events [OF _ this] show ?thesis by simp
  qed
  have "turn_answer c op (actions_of w3) (clock w3) (turns_of w3) = (Inr (Inr r), turns_of w2) \<and> clock w2 = clock w3"
    using rem a by (auto simp: turn_remote_def split: fault.splits prod.splits sum.splits)
  then have "turn_transition (actions_of w3) (clock w') c op (turns_of w3) = (Done r, turns_of w')"
    using r(2) by (auto simp: turn_answer_def split: prod.splits answer.splits)
  then show ?thesis using that pre turns_blocked [OF b] r(1) by metis
qed

lemma turns_update_Inr:
  assumes "turns_update t act w = (Inr t', w')"
  obtains j s r where "turn_event\<^sup>*\<^sup>* (turns_of w) s"
    and "turn_transition j (clock w') (scope_of_turn t) (turn_call t act) s = (Done (Some r), turns_of w')"
    and "t' = turn_of_row r"
proof -
  let ?q = "repo_transition (scope_of_turn t) (turn_call t act)"
  obtain y w1 where y: "?q w = (y, w1)" by fastforce
  have x: "?q w = (Inr (Some t'), w')"
  proof (cases y)
    case (Inr x)
    then show ?thesis using assms y
      by (cases x) (simp_all add: turns_update_def act_catch_def act_bind_def)
  qed (use assms y in \<open>simp add: turns_update_def act_catch_def act_bind_def\<close>)
  show ?thesis 
  proof (rule repo_transition_Inr [OF x])
    fix j s r assume h: "turn_event\<^sup>*\<^sup>* (turns_of w) s"
      "turn_transition j (clock w') (scope_of_turn t) (turn_call t act) s = (Done r, turns_of w')"
      "Some t' = map_option turn_of_row r"
    from h(3) obtain r' where "r = Some r'" "t' = turn_of_row r'" by (cases r) simp_all
    then show thesis using that [OF h(1)] h(2) by simp
  qed
qed

lemma turns_update_Inl: "turns_update t act w = (Inl e, w') \<Longrightarrow> e = deferred (action_text act @ ''_not_confirmed'')"
  by (auto simp: turns_update_def act_catch_def split: prod.splits sum.splits)

lemma turns_update_events: "turns_update t act w = (r, w') \<Longrightarrow> turn_event\<^sup>*\<^sup>* (turns_of w) (turns_of w')"
proof -
  assume run: "turns_update t act w = (r, w')"
  obtain x w1 where x: "repo_transition (scope_of_turn t) (turn_call t act) w = (x, w1)" by fastforce
  then have "w' = w1" using run
    by (cases x) (auto simp: turns_update_def act_catch_def act_bind_def split: option.splits)
  with repo_transition_events [OF x] show ?thesis by simp
qed

section \<open>Inputs belong to turns of their chat\<close>

definition inputs_filed :: "turn_store \<Rightarrow> bool" where
  "inputs_filed s \<longleftrightarrow> (\<forall>i\<in>set (input_rows s). \<exists>r\<in>set (turn_rows s). i = input_of r (in_message i) \<and>
     in_message i \<in> set (t_inputIds r))"

lemma inputs_filed_change: "turn_change s s' \<Longrightarrow> turns_ok s \<Longrightarrow> inputs_filed s \<Longrightarrow> inputs_filed s'"
proof -
  assume ch: "turn_change s s'" and ok: "turns_ok s" and filed: "inputs_filed s"
  have old: "\<exists>r\<in>set (turn_rows s'). i = input_of r (in_message i) \<and> in_message i \<in> set (t_inputIds r)"
    if i: "i \<in> set (input_rows s)" for i
  proof -
    obtain r where r: "r \<in> set (turn_rows s)" "i = input_of r (in_message i)" "in_message i \<in> set (t_inputIds r)"
      using filed i by (auto simp: inputs_filed_def)
    obtain r' where r': "r' \<in> set (turn_rows s')" "evolves r r'" using change_keeps_row [OF ch ok r(1)] by blast
    have "input_of r' (in_message i) = input_of r (in_message i)"
      using evolves_fields [OF r'(2)] by (simp add: input_of_def)
    then show ?thesis using r r' evolves_fields(5) [OF r'(2)] by (intro bexI [of _ r']) simp_all
  qed
  show ?thesis
    using ch
  proof cases
    case (tc_insert r ins i)
    have "\<exists>r\<in>set (turn_rows s'). x = input_of r (in_message x) \<and> in_message x \<in> set (t_inputIds r)" if "x \<in> set ins" for x
      using that tc_insert new_inputs_are [OF tc_insert(6,7)]
      by (intro bexI [of _ r]) (auto simp: input_of_def)
    then show ?thesis using old tc_insert(1) unfolding inputs_filed_def by auto
  qed (use old in \<open>auto simp: inputs_filed_def put_turn_rows\<close>)
qed

lemma reachable_filed: "reachable_turns s \<Longrightarrow> inputs_filed s"
proof (induction rule: rtranclp_induct)
  case base
  show ?case by (simp add: inputs_filed_def empty_turns_def)
next
  case (step s s')
  then show ?case using inputs_filed_change turn_event_change reachable_turns_ok by blast
qed

section \<open>What \<open>open\<close> answers with\<close>

definition answers_open :: "turn_scope \<Rightarrow> open_input \<Rightarrow> turn_row \<Rightarrow> bool" where
  "answers_open c i r \<longleftrightarrow> in_scope c r \<and> t_mode r = EXECUTE \<and> set (t_inputIds r) \<inter> set (oi_ids i) \<noteq> {} \<and>
     (t_status r = Preparing \<longrightarrow> t_owner r = Some (oi_owner i)) \<and>
     (t_policy r = Single_pass \<and> live r \<longrightarrow> t_turn r = oi_turn i)"

lemma selected_answers:
  assumes ok: "turns_ok s" "inputs_filed s" and sel: "selected_turn c ids s = Some x" "\<not> other_intent c ids s"
  shows "in_scope c x \<and> t_mode x = EXECUTE \<and> set (t_inputIds x) \<inter> set ids \<noteq> {}"
proof (cases "owning_turn c ids s")
  case None
  then have "oldest (filter (pending_turn c) (turn_rows s)) = Some x" using sel(1) by (simp add: selected_turn_def)
  then have "pending_turn c x" using oldest_mem by fastforce
  then show ?thesis using sel None by (simp add: pending_turn_def other_intent_def)
next
  case (Some y)
  then have "x = y" using sel(1) by (simp add: selected_turn_def)
  with Some have x: "x \<in> set (turn_rows s)" "owns_input c ids s x" using oldest_mem by (fastforce simp: owning_turn_def)+
  then obtain i where i: "i \<in> set (input_rows s)" "in_corp i = t_corp c" "in_account i = t_account c" "in_chat i = t_chat c"
    "in_message i \<in> set ids" "t_corp x = in_corp i" "t_turn x = in_turn i"
    by (auto simp: owns_input_def list_ex_iff)
  obtain r where r: "r \<in> set (turn_rows s)" "i = input_of r (in_message i)" "in_message i \<in> set (t_inputIds r)"
    using ok(2) i(1) by (auto simp: inputs_filed_def)
  have f: "in_corp i = t_corp r" "in_account i = t_account r" "in_chat i = t_chat r" "in_turn i = t_turn r"
    by (subst r(2), simp add: input_of_def)+
  then have "x = r" using same_key_same_row [OF ok(1) x(1) r(1)] i(6,7) by (simp add: turn_key_def)
  moreover have "t_mode r = EXECUTE" using ok(1) r(1) by (auto simp: turns_ok_def turn_ok_def)
  ultimately show ?thesis using i r(3) f by (auto simp: in_scope_def)
qed

lemma reopen_answers:
  assumes "reopen now i x = Done r" and "t_mode x = EXECUTE"
  shows "(t_status r = Preparing \<longrightarrow> t_owner r = Some (oi_owner i)) \<and> \<not> (t_policy r = Single_pass \<and> live r)"
  using assms by (auto simp: reopen_def interrupted_row_def live_def split: if_splits)

lemma open_answers:
  assumes ok: "turns_ok s" "inputs_filed s" and run: "open_turn now c i s = (Done (Some r), s')"
  shows "answers_open c i r"
proof -
  have ids: "oi_ids i \<noteq> []" "\<not> other_intent c (oi_ids i) s" using run by (auto simp: open_turn_def split: if_splits)
  have body: "(case selected_turn c (oi_ids i) s of
          None \<Rightarrow> if oi_mode i = EXECUTE then insert_turn now c i s else (Done None, s)
        | Some r \<Rightarrow> (case reopen now i r of Raise e \<Rightarrow> (Raise e, s) | Conflict x \<Rightarrow> (Conflict x, s)
             | Done r' \<Rightarrow> (Done (Some r'), put_turn r' s))) = (Done (Some r), s')"
    using run ids by (simp add: open_turn_def split: if_splits)
  show ?thesis
  proof (cases "selected_turn c (oi_ids i) s")
    case None
    then have "oi_mode i = EXECUTE" "insert_turn now c i s = (Done (Some r), s')"
      using body by (auto split: if_splits)
    then obtain at where "r = new_turn now c i at" by (auto simp: insert_turn_def Let_def split: option.splits if_splits)
    then show ?thesis using ids(1) \<open>oi_mode i = EXECUTE\<close>
      by (cases "oi_ids i") (simp_all add: answers_open_def new_turn_def in_scope_def)
  next
    case (Some x)
    then have re: "reopen now i x = Done r" using body by (auto split: answer.splits)
    have x: "in_scope c x" "t_mode x = EXECUTE" "set (t_inputIds x) \<inter> set (oi_ids i) \<noteq> {}"
      using selected_answers [OF ok Some ids(2)] by simp_all
    show ?thesis
      using x evolves_fields [OF reopen_evolves [OF re]] reopen_answers [OF re x(2)]
      by (auto simp: answers_open_def in_scope_def)
  qed
qed

lemma open_executes:
  assumes "open_turn now c i s = (Done r, s')" and "oi_mode i = EXECUTE"
  shows "r \<noteq> None"
  using assms by (auto simp: open_turn_def insert_turn_def Let_def split: if_splits option.splits answer.splits)

section \<open>Running \<open>open\<close> of the service\<close>

definition open_uuid :: "'x turn_world_scheme \<Rightarrow> string" where
  "open_uuid w = fst (turn_uuid w)"

definition open_owner :: "'x turn_world_scheme \<Rightarrow> string" where
  "open_owner w = fst (turn_uuid (snd (turn_uuid w)))"

abbreviation asked :: "turns_config \<Rightarrow> string list \<Rightarrow> time_text \<Rightarrow> (string \<times> jval) list \<Rightarrow> 'x turn_world_scheme \<Rightarrow> open_input" where
  "asked cfg ids at rcv w \<equiv> open_request cfg ids at rcv (open_uuid w) (open_owner w)"

lemma act_bind_io: "act_bind (act_of_io m) k w = k (fst (m w)) (snd (m w))"
  by (simp add: act_bind_def act_of_io_def split: prod.splits)

lemma turns_open_body:
  assumes "\<not> (tc_mode cfg \<noteq> EXECUTE \<and> tc_cutover cfg = None)" and "\<not> outside_boundary cfg (clock w) at"
    and "\<not> (ids = [] \<or> list_ex blank ids)"
    and "repo_transition c (turn_op.Open (asked cfg ids at rcv w)) (w\<lparr>turn_serial := turn_serial w + 2\<rparr>) = (r, w1)"
  shows "turns_open cfg c ids at rcv w = (case r of Inr t \<Rightarrow> opened cfg t w1
      | Inl _ \<Rightarrow> (Inl (deferred ''membership_unconfirmed''), w1))"
proof -
  define K :: "exn + reply_turn option \<Rightarrow> ('a turn_world_scheme, reply_turn option) act" where "K = (\<lambda>r. case r of Inr t \<Rightarrow> opened cfg t
    | Inl _ \<Rightarrow> if tc_mode cfg = EXECUTE \<or> tc_cutover cfg \<noteq> None then act_throw (deferred ''membership_unconfirmed'')
              else act_ret None)"
  have "turns_open cfg c ids at rcv w = act_bind (act_of_io turn_uuid) (\<lambda>turn. act_bind (act_of_io turn_uuid) (\<lambda>who.
      act_bind (attempt (repo_transition c (turn_op.Open (open_request cfg ids at rcv turn who)))) K)) w"
    unfolding turns_open_def K_def by (simp only: assms(1-3) if_False)
  also have "\<dots> = act_bind (attempt (repo_transition c (turn_op.Open (asked cfg ids at rcv w)))) K (w\<lparr>turn_serial := turn_serial w + 2\<rparr>)"
    by (simp add: act_bind_io turn_uuid_def open_uuid_def open_owner_def)
  also have "\<dots> = K r w1"
    using assms(4) by (cases r) (simp_all add: attempt_def act_bind_def act_catch_def)
  finally show ?thesis using assms(1) by (auto simp: K_def split: sum.split)
qed

lemma turns_open_repo:
  assumes "turns_open cfg c ids at rcv w = (Inr (Some t), w')"
  shows "repo_transition c (turn_op.Open (asked cfg ids at rcv w)) (w\<lparr>turn_serial := turn_serial w + 2\<rparr>) = (Inr (Some t), w')"
    and "clock w' - REPLY_RETENTION_MS \<le> t_inputAt t"
proof -
  obtain r w1 where r: "repo_transition c (turn_op.Open (asked cfg ids at rcv w)) (w\<lparr>turn_serial := turn_serial w + 2\<rparr>) = (r, w1)"
    by fastforce
  have "\<not> (tc_mode cfg \<noteq> EXECUTE \<and> tc_cutover cfg = None)" "\<not> outside_boundary cfg (clock w) at" "\<not> (ids = [] \<or> list_ex blank ids)"
    using assms by (auto simp: turns_open_def split: if_splits)
  from turns_open_body [OF this r] assms
  show "repo_transition c (turn_op.Open (asked cfg ids at rcv w)) (w\<lparr>turn_serial := turn_serial w + 2\<rparr>) = (Inr (Some t), w')"
    and "clock w' - REPLY_RETENTION_MS \<le> t_inputAt t"
    using r by (auto simp: opened_def split: sum.splits option.splits if_splits)
qed

section \<open>Properties\<close>

text \<open>C3: a worker whose \<open>startDelivery\<close> resolved is the only one: whatever other processes did before, and
  whatever happens to the tables afterwards, every later \<open>startDelivery\<close> of that turn, by any process,
  whatever is lost on the network, rejects with a \<open>ReplyDeferredError\<close>.\<close>

theorem confirmed_delivery_is_exclusive:
  assumes "reachable_turns (turns_of w)" and "startDelivery t w = (Inr t1, w1)"
    and "turn_event\<^sup>*\<^sup>* (turns_of w1) (turns_of w2)"
    and "scope_of_turn u = scope_of_turn t" and "t_turn u = t_turn t"
  shows "fst (startDelivery u w2) = Inl (deferred ''start_delivery_not_confirmed'')"
proof -
  obtain j s r where s: "turn_event\<^sup>*\<^sup>* (turns_of w) s"
    "turn_transition j (clock w1) (scope_of_turn t) (turn_call t Start_delivery) s = (Done (Some r), turns_of w1)"
    using turns_update_Inr [OF assms(2) [unfolded startDelivery_def]] by metis
  have rs: "reachable_turns s" using assms(1) s(1) by (rule rtranclp_trans)
  obtain a w3 where a: "startDelivery u w2 = (a, w3)" by fastforce
  show ?thesis
  proof (cases a)
    case (Inl e)
    then show ?thesis using a turns_update_Inl [of u Start_delivery w2 e w3]
      by (simp add: startDelivery_def action_text_def)
  next
    case (Inr x)
    obtain j2 s2 r2 where s2: "turn_event\<^sup>*\<^sup>* (turns_of w2) s2"
      "turn_transition j2 (clock w3) (scope_of_turn u) (turn_call u Start_delivery) s2 = (Done (Some r2), turns_of w3)"
      using turns_update_Inr [OF a [unfolded Inr startDelivery_def]] by metis
    have "turn_event\<^sup>*\<^sup>* (turns_of w1) s2" using assms(3) s2(1) by (rule rtranclp_trans)
    from delivery_granted_once [OF rs s(2) [unfolded turn_call_def] this]
    show ?thesis using s2(2) assms(4,5) by (simp add: turn_call_def)
  qed
qed

text \<open>A turn that \<open>open\<close> resolves with is an execute turn of this chat that answers one of the messages, is
  not older than the retention time, and can be worked on by this call alone: while it is being prepared
  its owner is the name this call made, and an unfinished ordinary turn is one this call created.\<close>

theorem opened_turn_is_the_callers:
  assumes "reachable_turns (turns_of w)" and "turns_open cfg c ids at rcv w = (Inr (Some t), w')"
  shows "scope_of_turn t = c \<and> t_mode t = EXECUTE \<and> set (t_inputIds t) \<inter> set ids \<noteq> {} \<and>
    clock w' - REPLY_RETENTION_MS \<le> t_inputAt t \<and>
    (t_status t = Preparing \<longrightarrow> t_owner t = Some (open_owner w)) \<and>
    (t_policy t = Single_pass \<and> t_status t \<in> {Preparing, Planned} \<longrightarrow> t_turn t = open_uuid w)"
proof -
  note repo = turns_open_repo [OF assms(2)]
  obtain j s r where s': "turn_event\<^sup>*\<^sup>* (turns_of (w\<lparr>turn_serial := turn_serial w + 2\<rparr>)) s"
    "turn_transition j (clock w') c (turn_op.Open (asked cfg ids at rcv w)) s = (Done r, turns_of w')"
    "Some t = map_option turn_of_row r"
    by (rule repo_transition_Inr [OF repo(1)])
  have "turn_event\<^sup>*\<^sup>* (turns_of w) s" using s'(1) by simp
  note s = this s'(2,3)
  obtain x where x: "r = Some x" "t = turn_of_row x" using s(3) by (cases r) simp_all
  have rs: "reachable_turns s" using assms(1) s(1) by (rule rtranclp_trans)
  have "open_turn (clock w') c (asked cfg ids at rcv w) s = (Done (Some x), turns_of w')"
    using s(2) x by (simp add: turn_transition_def split: if_splits)
  note ans = open_answers [OF reachable_turns_ok [OF rs] reachable_filed [OF rs] this]
  have f: "t_corp t = t_corp x" "t_account t = t_account x" "t_chat t = t_chat x" "t_mode t = t_mode x"
    "t_inputIds t = t_inputIds x" "t_status t = t_status x" "t_owner t = t_owner x" "t_policy t = t_policy x"
    "t_turn t = t_turn x"
    by (simp_all add: x(2) turn_of_row_def reply_turn.truncate_def)
  have o: "oi_ids (asked cfg ids at rcv w) = unique_ids ids" "oi_owner (asked cfg ids at rcv w) = open_owner w"
    "oi_turn (asked cfg ids at rcv w) = open_uuid w"
    by (simp_all add: open_request_def Let_def)
  have "set (unique_ids ids) = set ids" by (simp add: unique_ids_def)
  then show ?thesis using ans repo(2) by (simp add: answers_open_def f o in_scope_def scope_of_turn_def live_def)
qed

text \<open>C15: in execute mode a message is never dropped: \<open>open\<close> resolves with a turn or rejects with a
  \<open>ReplyDeferredError\<close>, so that the caller keeps the message.\<close>

theorem open_never_drops_input:
  assumes "reachable_turns (turns_of w)" and "tc_mode cfg = EXECUTE"
  shows "(\<exists>t. fst (turns_open cfg c ids at rcv w) = Inr (Some t)) \<or> (\<exists>why. fst (turns_open cfg c ids at rcv w) = Inl (deferred why))"
proof (cases "outside_boundary cfg (clock w) at \<or> ids = [] \<or> list_ex blank ids")
  case True
  then show ?thesis using assms(2) by (auto simp: turns_open_def)
next
  case False
  obtain r w1 where r: "repo_transition c (turn_op.Open (asked cfg ids at rcv w)) (w\<lparr>turn_serial := turn_serial w + 2\<rparr>) = (r, w1)"
    by fastforce
  have run: "turns_open cfg c ids at rcv w = (case r of Inr t \<Rightarrow> opened cfg t w1
      | Inl _ \<Rightarrow> (Inl (deferred ''membership_unconfirmed''), w1))"
    by (rule turns_open_body [OF _ _ _ r]) (use False assms(2) in auto)
  show ?thesis
  proof (cases r)
    case (Inr y)
    obtain j s x where s: "turn_event\<^sup>*\<^sup>* (turns_of (w\<lparr>turn_serial := turn_serial w + 2\<rparr>)) s"
      "turn_transition j (clock w1) c (turn_op.Open (asked cfg ids at rcv w)) s = (Done x, turns_of w1)"
      "y = map_option turn_of_row x"
      by (rule repo_transition_Inr [OF r [unfolded Inr]])
    then have o: "open_turn (clock w1) c (asked cfg ids at rcv w) s = (Done x, turns_of w1)"
      by (simp add: turn_transition_def split: if_splits)
    have "x \<noteq> None" using open_executes [OF o] assms(2) by (simp add: open_request_def Let_def)
    then obtain t where "y = Some t" using s(3) by auto
    then show ?thesis using run Inr assms(2) by (auto simp: opened_def)
  qed (use run in auto)
qed

section \<open>A run of the service\<close>

definition demo_turns_config :: turns_config where
  "demo_turns_config = \<lparr>tc_mode = EXECUTE, tc_cutover = Some 0\<rparr>"

definition demo_service :: turn_world where
  "demo_service = \<lparr>circuits = Map.empty, clock = 1000, client_ready = True, turns_of = empty_turns,
     actions_of = empty_journal, turn_env = [], turn_process = ''p'', turn_serial = 0\<rparr>"

definition demo_asked :: "(exn + reply_turn option) \<times> turn_world" where
  "demo_asked = turns_open demo_turns_config demo_scope [''m1'', ''m1''] (Some 500) [(''primary'', JObj [])] demo_service"

definition demo_turn :: reply_turn where
  "demo_turn = the (projr (fst demo_asked))"

definition demo_started_delivery :: "(exn + reply_turn) \<times> turn_world" where
  "demo_started_delivery = startDelivery demo_turn (snd demo_asked)"

lemma demo_asked_opens:
  "case fst demo_asked of Inr (Some t) \<Rightarrow> t_status t = Preparing \<and> t_inputIds t = [''m1''] \<and> t_owner t = Some ''p-1'' | _ \<Rightarrow> False"
  by code_simp

lemma demo_delivery_starts:
  "case fst demo_started_delivery of Inr t \<Rightarrow> t_status t = Planned | Inl _ \<Rightarrow> False"
  by code_simp

lemma demo_asked_run: "turns_open demo_turns_config demo_scope [''m1'', ''m1''] (Some 500) [(''primary'', JObj [])] demo_service
    = (Inr (Some demo_turn), snd demo_asked)" "t_owner demo_turn = Some ''p-1''" "t_status demo_turn = Preparing"
  using demo_asked_opens unfolding demo_turn_def demo_asked_def
  by (auto simp: prod_eq_iff split: sum.splits option.splits)

lemma demo_delivery_run: "\<exists>t. startDelivery demo_turn (snd demo_asked) = (Inr t, snd demo_started_delivery)"
  using demo_delivery_starts unfolding demo_started_delivery_def
  by (auto simp: prod_eq_iff split: sum.splits)

lemma demo_service_reachable: "reachable_turns (turns_of demo_service)"
  by (simp add: demo_service_def)

theorem confirmed_delivery_is_exclusive_witness:
  "fst (startDelivery (demo_turn\<lparr>t_owner := Some ''other''\<rparr>) (snd demo_started_delivery))
     = Inl (deferred ''start_delivery_not_confirmed'')"
proof -
  obtain t where t: "startDelivery demo_turn (snd demo_asked) = (Inr t, snd demo_started_delivery)"
    using demo_delivery_run by blast
  note repo = turns_open_repo(1) [OF demo_asked_run(1)]
  have "turn_event\<^sup>*\<^sup>* (turns_of demo_service) (turns_of (snd demo_asked))"
    using repo_transition_events [OF repo] by simp
  then have r: "reachable_turns (turns_of (snd demo_asked))"
    using demo_service_reachable by (metis rtranclp_trans)
  show ?thesis
    by (rule confirmed_delivery_is_exclusive [OF r t rtranclp.rtrancl_refl]) (simp_all add: scope_of_turn_def)
qed

theorem opened_turn_is_the_callers_witness:
  "scope_of_turn demo_turn = demo_scope \<and> t_owner demo_turn = Some (open_owner demo_service) \<and>
     set (t_inputIds demo_turn) \<inter> {''m1''} \<noteq> {}"
  using opened_turn_is_the_callers [OF demo_service_reachable demo_asked_run(1)] demo_asked_run(3) by simp

theorem open_never_drops_input_witness:
  "(\<exists>t. fst (turns_open demo_turns_config demo_scope [] None [] demo_service) = Inr (Some t)) \<or>
   (\<exists>why. fst (turns_open demo_turns_config demo_scope [] None [] demo_service) = Inl (deferred why))"
  by (rule open_never_drops_input [OF demo_service_reachable]) (simp add: demo_turns_config_def)

end
