(* ===== verification/ReplyErrors.thy ===== *)
theory ReplyErrors
  imports Prelude
begin

text \<open>
  What a failed call to the messaging platform proves: \<open>src/infra/client-http/http-request-error.ts\<close>
  and \<open>src/channels/wecom/message/delivery/reply-send-error.ts\<close>.

  A thrown value is one of four kinds.  \<open>Http_error\<close> stands for an \<open>HttpRequestError\<close> and for an
  error of the HTTP client, of which the code reads the same two fields.
\<close>

record reply_send_error =
  unknownResult :: bool
  rse_retryable :: bool
  rse_message :: string

datatype send_failure =
    Provider_error int
  | Http_error "int option" "string option"
  | Send_error reply_send_error
  | Other_error

record http_codes =
  providerCode :: "int option"
  httpStatus :: "int option"
  transportCode :: "string option"

definition is_upper :: "char \<Rightarrow> bool" where
  "is_upper c \<longleftrightarrow> 65 \<le> (of_char c :: nat) \<and> (of_char c :: nat) \<le> 90"

definition is_digit :: "char \<Rightarrow> bool" where
  "is_digit c \<longleftrightarrow> 48 \<le> (of_char c :: nat) \<and> (of_char c :: nat) \<le> 57"

text \<open>\<open>/^[A-Z][A-Z0-9_]{0,47}$/\<close>\<close>

definition TRANSPORT_CODE :: "string \<Rightarrow> bool" where
  "TRANSPORT_CODE s = (case s of [] \<Rightarrow> False
     | c # cs \<Rightarrow> is_upper c \<and> length cs \<le> 47 \<and> list_all (\<lambda>d. is_upper d \<or> is_digit d \<or> d = CHR ''_'') cs)"

definition keep_if :: "('a \<Rightarrow> bool) \<Rightarrow> 'a option \<Rightarrow> 'a option" where
  "keep_if p x = (case x of None \<Rightarrow> None | Some v \<Rightarrow> if p v then Some v else None)"

definition safe_integer :: "int \<Rightarrow> bool" where
  "safe_integer n \<longleftrightarrow> \<bar>n\<bar> \<le> 9007199254740991"

definition readHttpFailureCodes :: "send_failure \<Rightarrow> http_codes" where
  "readHttpFailureCodes e =
     (case e of
        Provider_error n \<Rightarrow> \<lparr>providerCode = keep_if safe_integer (Some n), httpStatus = None, transportCode = None\<rparr>
      | Http_error st code \<Rightarrow> \<lparr>providerCode = None, httpStatus = keep_if (\<lambda>n. 100 \<le> n \<and> n \<le> 599) st,
                             transportCode = keep_if TRANSPORT_CODE code\<rparr>
      | _ \<Rightarrow> \<lparr>providerCode = None, httpStatus = None, transportCode = None\<rparr>)"

definition no_evidence :: string where
  "no_evidence = ''external_call_did_not_return_terminal_evidence''"

definition describeHttpFailure :: "send_failure \<Rightarrow> string" where
  "describeHttpFailure e =
     (let codes = readHttpFailureCodes e in
      case providerCode codes of
        Some n \<Rightarrow> ''provider_business_error:'' @ show_int n
      | None \<Rightarrow>
        (case httpStatus codes of
           Some n \<Rightarrow> ''http_error:'' @ show_int n @ (case transportCode codes of None \<Rightarrow> [] | Some c \<Rightarrow> CHR '':'' # c)
         | None \<Rightarrow>
           (case transportCode codes of
              Some c \<Rightarrow> ''transport_error:'' @ c
            | None \<Rightarrow> no_evidence)))"

definition BEFORE_CONNECTION_CODES :: "string list" where
  "BEFORE_CONNECTION_CODES = [''ENOTFOUND'', ''EAI_AGAIN'', ''ECONNREFUSED'']"

definition before_connection :: "send_failure \<Rightarrow> bool" where
  "before_connection e \<longleftrightarrow> (let codes = readHttpFailureCodes e in httpStatus codes = None \<and>
     (case transportCode codes of None \<Rightarrow> [] | Some c \<Rightarrow> c) \<in> set BEFORE_CONNECTION_CODES)"

definition classifyReplySendError :: "send_failure \<Rightarrow> reply_send_error" where
  "classifyReplySendError e =
     (case e of
        Send_error r \<Rightarrow> r
      | _ \<Rightarrow> \<lparr>unknownResult = (\<not> before_connection e), rse_retryable = before_connection e,
             rse_message = describeHttpFailure e\<rparr>)"

definition transport_prefix :: string where
  "transport_prefix = ''transport_error:''"

definition starts_with :: "string \<Rightarrow> string \<Rightarrow> bool" where
  "starts_with p s \<longleftrightarrow> take (length p) s = p"

definition isRetryableReplyEvidence :: "string option \<Rightarrow> bool" where
  "isRetryableReplyEvidence d = (case d of None \<Rightarrow> False
     | Some s \<Rightarrow> starts_with transport_prefix s \<and> drop (length transport_prefix) s \<in> set BEFORE_CONNECTION_CODES)"

section \<open>What the classification means\<close>

lemma starts_with_iff: "starts_with p s \<longleftrightarrow> (\<exists>t. s = p @ t)"
  by (auto simp: starts_with_def) (metis append_take_drop_id)

lemma retryable_evidence_iff:
  "isRetryableReplyEvidence (Some s) \<longleftrightarrow> (\<exists>c\<in>set BEFORE_CONNECTION_CODES. s = transport_prefix @ c)"
  by (auto simp: isRetryableReplyEvidence_def starts_with_iff)

lemma before_connection_describe:
  assumes "before_connection e"
  shows "\<exists>c\<in>set BEFORE_CONNECTION_CODES. describeHttpFailure e = transport_prefix @ c"
  using assms
  by (cases e) (auto simp: before_connection_def readHttpFailureCodes_def describeHttpFailure_def Let_def
      BEFORE_CONNECTION_CODES_def transport_prefix_def split: option.splits)

lemma unfold_provider: "providerCode (readHttpFailureCodes e) \<noteq> None \<Longrightarrow> \<exists>n. e = Provider_error n"
  by (cases e) (simp_all add: readHttpFailureCodes_def)

text \<open>The text of a failure is retryable evidence only if no connection was made.\<close>

lemma describe_retryable:
  assumes "isRetryableReplyEvidence (Some (describeHttpFailure e))"
  shows "before_connection e"
proof -
  let ?c = "readHttpFailureCodes e"
  have "providerCode ?c = None" "httpStatus ?c = None" "transportCode ?c \<noteq> None"
    using assms
    by (auto simp: isRetryableReplyEvidence_def describeHttpFailure_def starts_with_def transport_prefix_def Let_def
        no_evidence_def split: option.splits)
  then show ?thesis
    using assms by (auto simp: isRetryableReplyEvidence_def describeHttpFailure_def before_connection_def
        transport_prefix_def Let_def)
qed

section \<open>Property\<close>

text \<open>A send is classified as retryable exactly when the platform was not reached: then, and only then,
  the result is known not to be a message, and the text kept as evidence says so and is recognised
  again when it is read back from the journal.\<close>

theorem retry_needs_proof_of_no_connection:
  assumes "\<And>r. e \<noteq> Send_error r"
  shows "rse_retryable (classifyReplySendError e) = (\<not> unknownResult (classifyReplySendError e)) \<and>
    rse_retryable (classifyReplySendError e) = before_connection e \<and>
    isRetryableReplyEvidence (Some (rse_message (classifyReplySendError e))) = before_connection e"
proof -
  have c: "classifyReplySendError e = \<lparr>unknownResult = (\<not> before_connection e), rse_retryable = before_connection e,
      rse_message = describeHttpFailure e\<rparr>"
    using assms by (cases e) (simp_all add: classifyReplySendError_def, blast)
  have "isRetryableReplyEvidence (Some (describeHttpFailure e)) = before_connection e"
    using before_connection_describe describe_retryable retryable_evidence_iff by blast
  then show ?thesis by (simp add: c)
qed

theorem retry_needs_proof_of_no_connection_witness:
  "rse_retryable (classifyReplySendError (Http_error None (Some ''ECONNREFUSED''))) \<and>
   unknownResult (classifyReplySendError (Http_error None (Some ''ETIMEDOUT''))) \<and>
   before_connection (Http_error None (Some ''ECONNREFUSED''))"
proof -
  have b: "before_connection (Http_error None (Some ''ECONNREFUSED''))" "\<not> before_connection (Http_error None (Some ''ETIMEDOUT''))"
    by code_simp+
  show ?thesis
    using retry_needs_proof_of_no_connection [of "Http_error None (Some ''ECONNREFUSED'')"]
      retry_needs_proof_of_no_connection [of "Http_error None (Some ''ETIMEDOUT'')"] b by blast
qed

end
