(* ===== verification/ReplyDelivery.thy ===== *)
theory ReplyDelivery
  imports ReplyService ReplyErrors ExecutorWorld ActionPermit
begin

text \<open>
  \<open>src/channels/wecom/message/delivery/durable-reply-delivery.service.ts\<close>: every segment of a reply is
  one action of the executor, in the executor's own world (\<open>ExecutorWorld\<close>); the turns, the permit
  and the sender are ports on the rest of the world.  \<open>sendMessage\<close> answers with the platform's
  \<open>errcode\<close>, absent when there was no answer, or fails.

  The executor sees of a thrown value only what \<open>describeHttpFailure\<close> makes of it, so a failed send is
  thrown as that text and \<open>described\<close> reads it; every other thrown text is described as no evidence.
\<close>

section \<open>Ports and errors\<close>

record send_request =
  sq_token :: string
  sq_imBotId :: string
  sq_imContactId :: string
  sq_imRoomId :: string
  sq_chatId :: string
  sq_text :: string
  sq_requestId :: "string option"
  sq_apiType :: "string option"

record 'e delivery_context =
  dc_corpId :: "string option"
  dc_logicalTurnId :: "string option"
  dc_occurredAt :: "time_text option"
  dc_replyTurn :: "reply_turn option"
  dc_assertOwned :: "('e, unit) act option"
  dc_action :: "permitted_action option"
  dc_groupId :: "string option"
  dc_token :: string
  dc_imBotId :: string
  dc_imContactId :: string
  dc_imRoomId :: string
  dc_messageId :: string
  dc_chatId :: string
  dc_requestId :: "string option"
  dc_apiType :: "string option"

record 'e delivery_ports =
  dp_active :: "reply_turn \<Rightarrow> ('e, unit) act"
  dp_permit :: "permit_input \<Rightarrow> ('e, bool) act"
  dp_send :: "send_request \<Rightarrow> 'e \<Rightarrow> (send_failure + int option) \<times> 'e"

datatype delivery_error = Deferred_error string | Send_failed reply_send_error | Rejected exn | Legacy_failed send_failure

definition described :: "exn \<Rightarrow> string" where
  "described e = (if starts_with ''provider_business_error:'' e \<or> starts_with ''http_error:'' e \<or> starts_with transport_prefix e
     then e else no_evidence)"

definition executor_ports :: "crypto \<Rightarrow> string \<Rightarrow> 'e app_world action_ports" where
  "executor_ports k process = store_ports k process described"

section \<open>Parts shared by the three ways to send\<close>

definition deliverySegmentRetries :: nat where
  "deliverySegmentRetries = 1"

definition WECOM_REPLY_SEGMENT :: string where
  "WECOM_REPLY_SEGMENT = ''wecom.reply_segment''"

definition reply_intent :: "reply_turn \<Rightarrow> string \<Rightarrow> nat \<Rightarrow> action_intent" where
  "reply_intent t text index = \<lparr>corpId = t_corp t, accountId = t_account t, chatId = t_chat t, logicalTurnId = t_turn t,
     intentId = t_turn t @ '':reply:v1:'' @ show_nat index, kind = WECOM_REPLY_SEGMENT,
     target = ''chat:'' @ t_chat t @ '':reply:'' @ t_turn t @ '':segment:'' @ show_nat index,
     parameters = JObj [(''text'', JStr text), (''index'', JNum (Some (show_nat index))), (''version'', JNum (Some ''1''))],
     occurredAt = Some (t_inputAt t), recoveryWindowStartedAt = None, identityReliable = True,
     recovery = Some (JObj [(''logicalTurnId'', JStr (t_turn t)), (''index'', JNum (Some (show_nat index)))])\<rparr>"

definition owned :: "'e delivery_context \<Rightarrow> ('e, unit) act" where
  "owned c = (case dc_assertOwned c of None \<Rightarrow> act_ret () | Some f \<Rightarrow> f)"

definition permit_question :: "reply_turn \<Rightarrow> 'e delivery_context \<Rightarrow> permit_input" where
  "permit_question t c = \<lparr>in_chatId = t_chat t,
     in_action = (case dc_action c of None \<Rightarrow> REPLY | Some a \<Rightarrow> a), in_botImId = Some (t_account t),
     in_groupId = dc_groupId c, in_candidateIds = [Some (dc_imContactId c)]\<rparr>"

definition segment_request :: "reply_turn \<Rightarrow> 'e delivery_context \<Rightarrow> string \<Rightarrow> string option \<Rightarrow> send_request" where
  "segment_request t c text rid = \<lparr>sq_token = dc_token c, sq_imBotId = t_account t, sq_imContactId = dc_imContactId c,
     sq_imRoomId = dc_imRoomId c, sq_chatId = t_chat t, sq_text = text, sq_requestId = rid, sq_apiType = dc_apiType c\<rparr>"

definition accepted_completion :: "string option \<Rightarrow> action_completion" where
  "accepted_completion d = \<lparr>c_status = SUCCEEDED, c_result = Some (JObj [(''stage'', JStr (evidence_text ACCEPTED))]),
     c_evidence = \<lparr>ev_kind = ACCEPTED, externalId = None, goalSatisfied = None, requestTerminated = True, detail = d\<rparr>,
     c_retryable = None\<rparr>"

definition api_accepted :: "string option" where
  "api_accepted = Some ''send_api_accepted; not_delivery_or_read_receipt''"

definition failed_completion :: "bool \<Rightarrow> reply_send_error \<Rightarrow> action_completion" where
  "failed_completion again r = \<lparr>c_status = (if unknownResult r then UNKNOWN else FAILED), c_result = None,
     c_evidence = \<lparr>ev_kind = (if unknownResult r then INDETERMINATE else DEFINITIVE_NO_EFFECT), externalId = None,
        goalSatisfied = None, requestTerminated = (\<not> unknownResult r), detail = Some (rse_message r)\<rparr>,
     c_retryable = Some again\<rparr>"

definition send_unconfirmed :: reply_send_error where
  "send_unconfirmed = \<lparr>unknownResult = True, rse_retryable = False, rse_message = ''reply_send_result_unconfirmed''\<rparr>"

text \<open>\<open>onModuleInit\<close>: what recovery learns about a segment.\<close>

definition reply_reconcile :: action_completion where
  "reply_reconcile = \<lparr>c_status = UNKNOWN, c_result = None,
     c_evidence = \<lparr>ev_kind = INDETERMINATE, externalId = None, goalSatisfied = None, requestTerminated = False,
        detail = Some ''No verified request lookup/idempotency contract; await exact callback or manual review''\<rparr>,
     c_retryable = None\<rparr>"

section \<open>Plans\<close>

definition resolveTurn :: "turns_config \<Rightarrow> 'e delivery_context \<Rightarrow> exn + reply_turn option" where
  "resolveTurn cfg c =
     (case dc_replyTurn c of
        Some t \<Rightarrow> Inr (Some t)
      | None \<Rightarrow> if tc_mode cfg = EXECUTE then Inl (deferred ''delivery_identity_not_persisted'') else Inr None)"

text \<open>The segments of a plan; the stored object also holds the payload hash, which nothing reads.\<close>

fun plan_segments :: "crypto \<Rightarrow> reply_turn \<Rightarrow> nat \<Rightarrow> string list \<Rightarrow> exn + reply_segment list" where
  "plan_segments k t n [] = Inr []"
| "plan_segments k t n (s # ss) =
     (case identifyAction (sha256 k) (locale_le k) (reply_intent t s n) of
        Inl e \<Rightarrow> Inl e
      | Inr d \<Rightarrow> (case plan_segments k t (n + 1) ss of
           Inl e \<Rightarrow> Inl e
         | Inr rest \<Rightarrow> Inr (\<lparr>sg_index = n, sg_text = s, sg_actionId = id_actionId d, sg_requestId = id_requestId d\<rparr> # rest)))"

definition prepare_reply :: "crypto \<Rightarrow> reply_turn \<Rightarrow> string \<Rightarrow> string list \<Rightarrow> jval option
    \<Rightarrow> ('x turn_world_scheme, reply_turn) act" where
  "prepare_reply k t text segments resume =
     (case t_plan t of
        Some _ \<Rightarrow> act_ret t
      | None \<Rightarrow> act_bind (lift_sum (plan_segments k t 0 segments)) (\<lambda>ss.
          savePlan k t \<lparr>pl_text = text, pl_segments = ss, pl_resume = resume\<rparr>))"

section \<open>A frozen plan\<close>

definition segment_caller :: "'e delivery_ports \<Rightarrow> reply_turn \<Rightarrow> 'e delivery_context \<Rightarrow> bool \<Rightarrow> reply_segment \<Rightarrow> 'e caller" where
  "segment_caller D t c cancelled s = \<lparr>
     on_dispatch = (\<lambda>rid m. act_bind (owned c) (\<lambda>_ e.
       case dp_send D (segment_request t c (sg_text s) (if m = EXECUTE then Some rid else dc_requestId c)) e of
         (Inl f, e') \<Rightarrow> (Inl (describeHttpFailure f), e')
       | (Inr code, e') \<Rightarrow> if code = Some 0 then (Inr (accepted_completion api_accepted), e')
                          else (Inl ''reply_send_result_unconfirmed'', e'))),
     on_sync = None,
     on_authorize = Some (act_bind (owned c) (\<lambda>_.
       if cancelled then act_ret False else dp_permit D (permit_question t c)))\<rparr>"

definition cancelled_execution :: "action_execution \<Rightarrow> bool" where
  "cancelled_execution x \<longleftrightarrow> x_status x = Journal CANCELLED \<or> x_reason x = Some ''permission_or_freshness_changed'' \<or>
     (x_status x = Journal FAILED \<and> (case x_evidence x of None \<Rightarrow> False
        | Some e \<Rightarrow> ev_kind e = DEFINITIVE_NO_EFFECT \<and> requestTerminated e \<and> detail e = Some ''permission_changed_before_dispatch''))"

text \<open>The loop over the segments; \<open>run\<close> executes one, given whether the turn was cancelled.\<close>

fun deliver_loop :: "(bool \<Rightarrow> reply_segment \<Rightarrow> ('w, action_execution) act) \<Rightarrow> nat \<Rightarrow> bool \<Rightarrow> reply_segment list
    \<Rightarrow> 'w \<Rightarrow> (delivery_error + nat \<times> bool) \<times> 'w" where
  "deliver_loop run completed cancelled [] w = (Inr (completed, cancelled), w)"
| "deliver_loop run completed cancelled (s # ss) w =
     (case run cancelled s w of
        (Inl e, w1) \<Rightarrow> (Inl (Rejected e), w1)
      | (Inr x, w1) \<Rightarrow>
          if x_status x = Journal SUCCEEDED then deliver_loop run (completed + 1) cancelled ss w1
          else if cancelled_execution x then deliver_loop run completed True ss w1
          else (Inl (Deferred_error (''segment_'' @ show_nat (sg_index s) @ CHR ''_'' # exec_status_text (x_status x))), w1))"

record delivery_result =
  dr_success :: bool
  dr_count :: nat
  dr_delivered :: nat
  dr_failed :: nat
  dr_skipped :: bool

definition run_segment :: "crypto \<Rightarrow> string \<Rightarrow> executor_config \<Rightarrow> 'e delivery_ports \<Rightarrow> reply_turn \<Rightarrow> 'e delivery_context
    \<Rightarrow> bool \<Rightarrow> reply_segment \<Rightarrow> ('e app_world, action_execution) act" where
  "run_segment k process cfg D t c cancelled s = execute (executor_ports k process) cfg True
     (reply_intent t (sg_text s) (sg_index s)) (callbacks (segment_caller D t c cancelled s))"

definition deliver :: "crypto \<Rightarrow> string \<Rightarrow> executor_config \<Rightarrow> 'e delivery_ports \<Rightarrow> reply_turn \<Rightarrow> 'e delivery_context
    \<Rightarrow> 'e app_world \<Rightarrow> (delivery_error + delivery_result) \<times> 'e app_world" where
  "deliver k process cfg D t c w =
     (if t_mode t \<noteq> EXECUTE then (Inl (Deferred_error ''reply_plan_not_executable''), w)
      else if \<not> truthy (map_of (t_recovery t) ''primary'') then (Inl (Deferred_error ''non_inbound_reply_runtime_retired''), w)
      else case t_plan t of
        None \<Rightarrow> (Inl (Deferred_error ''missing_reply_plan''), w)
      | Some p \<Rightarrow>
          (case deliver_loop (run_segment k process cfg D t c) 0 False (pl_segments p) w of
             (Inl e, w1) \<Rightarrow> (Inl e, w1)
           | (Inr (n, cancelled), w1) \<Rightarrow>
               (Inr \<lparr>dr_success = True, dr_count = length (pl_segments p), dr_delivered = n, dr_failed = 0,
                     dr_skipped = cancelled\<rparr>, w1)))"

section \<open>A segment of an ordinary reply\<close>

definition ordinary_caller :: "'e delivery_ports \<Rightarrow> reply_turn \<Rightarrow> 'e delivery_context \<Rightarrow> string \<Rightarrow> 'e caller" where
  "ordinary_caller D t c text = \<lparr>
     on_dispatch = (\<lambda>rid m. act_bind (owned c) (\<lambda>_. act_bind (dp_active D t) (\<lambda>_ e.
       case dp_send D (segment_request t c text (Some rid)) e of
         (Inl f, e') \<Rightarrow> (Inr (failed_completion (rse_retryable (classifyReplySendError f)) (classifyReplySendError f)), e')
       | (Inr code, e') \<Rightarrow> (Inr (if code = Some 0 then accepted_completion api_accepted
                                else failed_completion False send_unconfirmed), e')))),
     on_sync = None,
     on_authorize = Some (act_bind (owned c) (\<lambda>_. act_bind (dp_active D t) (\<lambda>_. dp_permit D (permit_question t c))))\<rparr>"

definition proven_unsent :: "action_execution \<Rightarrow> bool" where
  "proven_unsent x \<longleftrightarrow> x_status x = Journal FAILED \<and> (case x_evidence x of None \<Rightarrow> False
     | Some e \<Rightarrow> ev_kind e = DEFINITIVE_NO_EFFECT \<and> requestTerminated e \<and> isRetryableReplyEvidence (detail e))"

definition ordinary_failure :: "action_execution \<Rightarrow> reply_send_error" where
  "ordinary_failure x = \<lparr>unknownResult = (x_status x = Journal UNKNOWN \<or> x_status x = Journal EXECUTING), rse_retryable = False,
     rse_message = (case x_reason x of Some r \<Rightarrow> r | None \<Rightarrow>
        (case x_evidence x of None \<Rightarrow> exec_status_text (x_status x)
         | Some e \<Rightarrow> (case detail e of Some d \<Rightarrow> d | None \<Rightarrow> exec_status_text (x_status x))))\<rparr>"

definition send_pause :: "int \<Rightarrow> 'e app_world \<Rightarrow> 'e app_world" where
  "send_pause ms w = w\<lparr>clock := clock w + ms\<rparr>"

text \<open>\<open>for (attempt = 0; attempt <= deliverySegmentRetries; attempt++)\<close>; the first argument counts the
  rounds left.\<close>

fun send_attempts :: "nat \<Rightarrow> nat \<Rightarrow> ('e app_world, action_execution) act \<Rightarrow> 'e app_world
    \<Rightarrow> (delivery_error + unit) \<times> 'e app_world" where
  "send_attempts 0 n run w = (Inr (), w)"
| "send_attempts (Suc left) n run w =
     (case run w of
        (Inl e, w1) \<Rightarrow> (Inl (Rejected e), w1)
      | (Inr x, w1) \<Rightarrow>
          if x_status x = Journal SUCCEEDED then (Inr (), w1)
          else if proven_unsent x \<and> n < deliverySegmentRetries
          then send_attempts left (n + 1) run (send_pause (800 * 2 ^ n) w1)
          else (Inl (Send_failed (ordinary_failure x)), w1))"

definition run_ordinary :: "crypto \<Rightarrow> string \<Rightarrow> executor_config \<Rightarrow> 'e delivery_ports \<Rightarrow> reply_turn \<Rightarrow> 'e delivery_context
    \<Rightarrow> string \<Rightarrow> nat \<Rightarrow> ('e app_world, action_execution) act" where
  "run_ordinary k process cfg D t c text index = execute (executor_ports k process) cfg True
     (reply_intent t text index) (callbacks (ordinary_caller D t c text))"

definition sendOrdinarySegment :: "crypto \<Rightarrow> string \<Rightarrow> executor_config \<Rightarrow> 'e delivery_ports \<Rightarrow> reply_turn
    \<Rightarrow> 'e delivery_context \<Rightarrow> string \<Rightarrow> nat \<Rightarrow> 'e app_world \<Rightarrow> (delivery_error + unit) \<times> 'e app_world" where
  "sendOrdinarySegment k process cfg D t c text index w =
     (if t_mode t \<noteq> EXECUTE then (Inl (Deferred_error ''ordinary_reply_not_executable''), w)
      else send_attempts (deliverySegmentRetries + 1) 0 (run_ordinary k process cfg D t c text index) w)"

section \<open>The legacy way, observed\<close>

text \<open>The error the caller's \<open>dispatch\<close> left is kept beside the rest of the world, as the local
  variable \<open>externalError\<close> is.\<close>

definition legacy_caller :: "('e \<Rightarrow> (send_failure + unit) \<times> 'e) \<Rightarrow> ('e \<times> send_failure option) caller" where
  "legacy_caller send = \<lparr>
     on_dispatch = (\<lambda>rid m (e, err).
       if m = EXECUTE then (Inl (deferred ''legacy_delivery_identity''), (e, err))
       else case send e of
         (Inl f, e') \<Rightarrow> (Inr (failed_completion False (classifyReplySendError f)), (e', Some f))
       | (Inr _, e') \<Rightarrow> (Inr (accepted_completion None), (e', err))),
     on_sync = None, on_authorize = None\<rparr>"

definition legacy_intent :: "'e delivery_context \<Rightarrow> int \<Rightarrow> string \<Rightarrow> nat \<Rightarrow> action_intent" where
  "legacy_intent c now text index =
     (let turn = (case dc_logicalTurnId c of Some t \<Rightarrow> t | None \<Rightarrow> dc_messageId c) in
      \<lparr>corpId = (case dc_corpId c of Some x \<Rightarrow> x | None \<Rightarrow> ''default''), accountId = dc_imBotId c, chatId = dc_chatId c,
       logicalTurnId = turn, intentId = turn @ '':observed-reply:'' @ show_nat index, kind = WECOM_REPLY_SEGMENT,
       target = ''chat:'' @ dc_chatId c @ '':observed-reply:'' @ dc_messageId c @ CHR '':'' # show_nat index,
       parameters = JObj [(''text'', JStr text), (''index'', JNum (Some (show_nat index)))],
       occurredAt = (case dc_occurredAt c of Some t \<Rightarrow> t | None \<Rightarrow> Some now), recoveryWindowStartedAt = None,
       identityReliable = False, recovery = None\<rparr>)"

definition observeLegacy :: "crypto \<Rightarrow> string \<Rightarrow> executor_config \<Rightarrow> 'e delivery_context \<Rightarrow> string \<Rightarrow> nat
    \<Rightarrow> ('e \<Rightarrow> (send_failure + unit) \<times> 'e) \<Rightarrow> ('e \<times> send_failure option) app_world
    \<Rightarrow> (delivery_error + unit) \<times> ('e \<times> send_failure option) app_world" where
  "observeLegacy k process cfg c text index send w =
     (case execute (executor_ports k process) cfg False (legacy_intent c (clock w) text index)
         (callbacks (legacy_caller send)) (w\<lparr>outside := (fst (outside w), None)\<rparr>) of
        (Inl e, w1) \<Rightarrow> (Inl (Rejected e), w1)
      | (Inr x, w1) \<Rightarrow>
          (case snd (outside w1) of
             Some f \<Rightarrow> (Inl (Legacy_failed f), w1)
           | None \<Rightarrow>
               if x_dispatched x then (Inr (), w1)
               else (Inl (Deferred_error (case x_reason x of Some r \<Rightarrow> r | None \<Rightarrow> exec_status_text (x_status x))), w1)))"

end
