(* ===== verification/ReplyDeliveryInv.thy ===== *)
theory ReplyDeliveryInv
  imports ReplyDelivery
begin

text \<open>
  What the durable delivery guarantees on the executor: how often a segment can be sent and why it is
  sent again, that a refused caller sends nothing, and what the result of a delivered plan means.
\<close>

section \<open>A caller that is refused dispatches nothing\<close>

locale refused_caller = quiet_services P cb f
  for P :: "'w action_ports" and cb :: "'w action_callbacks" and f :: "'w \<Rightarrow> nat" +
  fixes h :: "('w, bool) act"
  assumes asks: "cb_authorize cb = Some h"
    and refuses: "fst (h w) \<noteq> Inr True"
begin

lemma refused: "\<exists>w'. authorized cb w = (Inr False, w')"
  using refuses [of w] by (auto simp: authorized_def asks act_catch_def split: prod.splits sum.splits)

lemma refused_bind: "keeps f (k False) \<Longrightarrow> keeps f (act_bind (authorized cb) k)"
proof (rule keepsI)
  fix w assume "keeps f (k False)"
  obtain w' where a: "authorized cb w = (Inr False, w')" using refused by blast
  have "f w' = f w" using keepsD [OF quiet_authorized a] .
  then show "f (snd (act_bind (authorized cb) k w)) = f w"
    using a \<open>keeps f (k False)\<close> by (simp add: act_bind_def keeps_def)
qed

lemma refused_untracked [keeps_intro]: "keeps f (untracked P cfg i cb)"
proof -
  have "keeps f (lift_sum (p_identify P i))"
    by (cases "p_identify P i") (simp_all add: lift_sum_def keeps_intro)
  then show ?thesis unfolding untracked_def
    by (rule keeps_bind) (rule refused_bind, simp add: keeps_intro)
qed

lemma refused_claim: "keeps f (claim_and_run P cfg d enforce i cb r)"
  unfolding claim_and_run_def
  by (rule refused_bind) (simp, intro keeps_intro cancelled)

lemma refused_with_record: "keeps f (with_record P cfg d m i cb rec)"
  unfolding with_record_def Let_def by (intro keeps_intro refused_claim)

lemma refused_execute: "keeps f (execute P cfg persisted i cb)"
proof (rule keepsI)
  fix w
  obtain x w1 where run: "execute P cfg persisted i cb w = (x, w1)" by fastforce
  let ?m = "if persisted then EXECUTE else ec_mode cfg"
  obtain y w2 where p: "p_prepare P i ?m w = (y, w2)" by fastforce
  have f1: "f w2 = f w" using keepsD [OF prepare p] .
  have u: "f w' = f w2" if "untracked P cfg i cb w2 = (x, w')" for w'
    using keepsD [OF refused_untracked that] .
  have r: "f w' = f w2" if "with_record P cfg d ?m i cb rec w2 = (x, w')" for d rec w'
    using keepsD [OF refused_with_record that] .
  consider "w1 = w" | "w1 = w2" | "untracked P cfg i cb w2 = (x, w1)" | d rec where "with_record P cfg d ?m i cb rec w2 = (x, w1)"
    using run p by (auto simp: execute_def Let_def split: sum.splits option.splits if_splits prod.splits)
  then have "f w1 = f w" using u r f1 by cases simp_all
  then show "f (snd (execute P cfg persisted i cb w)) = f w" using run by simp
qed

end

interpretation refused_segment: refused_caller "store_ports k process describe" "callbacks (segment_caller D t c True s)" runs
    "outside_act (act_bind (owned c) (\<lambda>_. act_ret False))"
  for k :: crypto and process :: string and describe :: "exn \<Rightarrow> string" and D :: "'e delivery_ports" and t c s
proof unfold_locales
  show "cb_authorize (callbacks (segment_caller D t c True s)) = Some (outside_act (act_bind (owned c) (\<lambda>_. act_ret False)))"
    by (simp add: callbacks_def segment_caller_def)
  show "fst (outside_act (act_bind (owned c) (\<lambda>_. act_ret False)) w) \<noteq> Inr True" for w :: "'e app_world"
    by (auto simp: outside_act_def act_bind_def split: prod.splits sum.splits)
qed

section \<open>One execution dispatches at most once\<close>

lemma execute_runs:
  assumes "execute (store_ports k process describe) cfg persisted i (callbacks c) w = (Inr x, w')"
  shows "runs w' = runs w + (if x_dispatched x then 1 else 0)"
  using counted.tells_execute [unfolded tells_def, rule_format, OF assms] by simp

lemma run_ordinary_runs:
  "run_ordinary k process cfg D t c text index w = (Inr x, w') \<Longrightarrow> runs w' = runs w + (if x_dispatched x then 1 else 0)"
  unfolding run_ordinary_def executor_ports_def by (rule execute_runs)

lemma run_segment_runs:
  "run_segment k process cfg D t c b s w = (Inr x, w') \<Longrightarrow> runs w' = runs w + (if x_dispatched x then 1 else 0)"
  unfolding run_segment_def executor_ports_def by (rule execute_runs)

lemma run_segment_Inr: "\<exists>x w'. run_segment k process cfg D t c b s w = (Inr x, w')"
  unfolding run_segment_def executor_ports_def using execute_total by (rule never_rejectsE) blast

lemma run_ordinary_Inr: "\<exists>x w'. run_ordinary k process cfg D t c text index w = (Inr x, w')"
  unfolding run_ordinary_def executor_ports_def using execute_total by (rule never_rejectsE) blast

lemma send_pause_runs [simp]: "runs (send_pause ms w) = runs w"
  by (simp add: send_pause_def runs_def)

section \<open>The loop over the segments\<close>

lemma deliver_loop_append:
  "deliver_loop run n b (xs @ ys) w = (case deliver_loop run n b xs w of
     (Inl e, w1) \<Rightarrow> (Inl e, w1) | (Inr (m, b'), w1) \<Rightarrow> deliver_loop run m b' ys w1)"
proof (induction xs arbitrary: n b w)
  case (Cons x xs)
  obtain y w1 where "run b x w = (y, w1)" by fastforce
  then show ?case using Cons.IH by (cases y) simp_all
qed simp

text \<open>With the flag set, every further segment is refused its permission.\<close>

lemma refused_rest:
  "deliver_loop (run_segment k process cfg D t c) n True ss w = (q, w') \<Longrightarrow>
   runs w' = runs w \<and> (\<forall>m b. q = Inr (m, b) \<longrightarrow> b)"
proof (induction ss arbitrary: n w)
  case (Cons s ss)
  obtain x w1 where x: "run_segment k process cfg D t c True s w = (Inr x, w1)" using run_segment_Inr by blast
  have "runs w1 = runs w"
    using keepsD [OF refused_segment.refused_execute x [unfolded run_segment_def executor_ports_def]] .
  then show ?case using x Cons.IH [of "n + 1" w1] Cons.IH [of n w1] Cons.prems
    by (auto simp: runs_def split: if_splits)
qed auto

section \<open>Properties\<close>

text \<open>C5: an ordinary segment reaches the platform at most twice, and twice only if the journal's answer to the
  first execution was a final failure whose evidence proves that no connection was made; otherwise
  nothing more is done after the first.\<close>

theorem ordinary_segment_resend_is_proven_safe:
  assumes "sendOrdinarySegment k process cfg D t c text index w = (r, w')"
  shows "length (dispatches w') \<le> length (dispatches w) + 2 \<and>
    (length (dispatches w') = length (dispatches w) + 2 \<longrightarrow>
      (\<exists>x w1 e code. run_ordinary k process cfg D t c text index w = (Inr x, w1) \<and> x_dispatched x \<and>
         x_status x = Journal FAILED \<and> x_evidence x = Some e \<and> ev_kind e = DEFINITIVE_NO_EFFECT \<and> requestTerminated e \<and>
         code \<in> set BEFORE_CONNECTION_CODES \<and> detail e = Some (transport_prefix @ code)))"
proof -
  let ?run = "run_ordinary k process cfg D t c text index"
  obtain x w1 where x: "?run w = (Inr x, w1)" using run_ordinary_Inr by blast
  let ?w2 = "send_pause 800 w1"
  obtain y w3 where y: "?run ?w2 = (Inr y, w3)" using run_ordinary_Inr by blast
  have n: "runs w1 \<le> runs w + 1" "runs w3 \<le> runs w1 + 1" "x_dispatched x \<or> runs w1 = runs w"
    using run_ordinary_runs [OF x] run_ordinary_runs [OF y] by auto
  consider "w' = w" | "w' = w1" | "w' = w3" "proven_unsent x"
    using assms x y
    by (auto simp: sendOrdinarySegment_def deliverySegmentRetries_def split: if_splits)
  then show ?thesis
  proof cases
    case 3
    then obtain e where e: "x_status x = Journal FAILED" "x_evidence x = Some e" "ev_kind e = DEFINITIVE_NO_EFFECT"
      "requestTerminated e" "isRetryableReplyEvidence (detail e)"
      by (auto simp: proven_unsent_def split: option.splits)
    then obtain d where "detail e = Some d" by (cases "detail e") (simp_all add: isRetryableReplyEvidence_def)
    then obtain code where "code \<in> set BEFORE_CONNECTION_CODES" "detail e = Some (transport_prefix @ code)"
      using e(5) retryable_evidence_iff by auto
    moreover have "length (dispatches w3) = length (dispatches w) + 2 \<Longrightarrow> x_dispatched x"
      using n by (auto simp: runs_def)
    ultimately show ?thesis using 3 e x n by (auto simp: runs_def)
  qed (use n in \<open>auto simp: runs_def\<close>)
qed

text \<open>C16: when a segment of a frozen plan comes back cancelled or refused, whatever the segments before it
  did, no later segment of the plan is dispatched, and a delivery that returns says that it skipped.
  (\<open>earlier\<close> are the segments before it, run from the start of the delivery.)\<close>

theorem nothing_is_sent_after_a_cancellation:
  assumes runs: "t_mode t = EXECUTE" "truthy (map_of (t_recovery t) ''primary'')" "t_plan t = Some p"
    and plan: "pl_segments p = earlier @ s # later"
    and prefix: "deliver_loop (run_segment k process cfg D t c) 0 False earlier w = (Inr (n, b), w1)"
    and segment: "run_segment k process cfg D t c b s w1 = (Inr x, w2)"
    and cancelled: "x_status x \<noteq> Journal SUCCEEDED" "cancelled_execution x"
  shows "length (dispatches (snd (deliver k process cfg D t c w))) = length (dispatches w2) \<and>
    (case fst (deliver k process cfg D t c w) of Inl _ \<Rightarrow> True | Inr d \<Rightarrow> dr_skipped d)"
proof -
  obtain q w3 where rest: "deliver_loop (run_segment k process cfg D t c) n True later w2 = (q, w3)" by fastforce
  have loop: "deliver_loop (run_segment k process cfg D t c) 0 False (pl_segments p) w = (q, w3)"
    using prefix segment cancelled rest by (simp add: plan deliver_loop_append)
  show ?thesis
  proof (cases q)
    case (Inl e)
    then have "deliver k process cfg D t c w = (Inl e, w3)" using loop by (simp add: deliver_def runs)
    then show ?thesis using refused_rest [OF rest] by (simp add: runs_def)
  next
    case (Inr y)
    obtain m c' where y: "y = (m, c')" by fastforce
    have "deliver k process cfg D t c w = (Inr \<lparr>dr_success = True, dr_count = length (pl_segments p),
        dr_delivered = m, dr_failed = 0, dr_skipped = c'\<rparr>, w3)"
      using loop Inr y by (simp add: deliver_def runs)
    then show ?thesis using refused_rest [OF rest] Inr y by (simp add: runs_def)
  qed
qed

text \<open>What \<open>deliver\<close> reports is what happened: it counts at most one send for each segment, never reports more
  segments delivered than the plan has, and reports a complete delivery only if every segment is
  recorded as sent.\<close>

theorem delivered_plan_is_accounted_for:
  assumes "deliver k process cfg D t c w = (Inr x, w')"
  shows "\<exists>p. t_plan t = Some p \<and> dr_count x = length (pl_segments p) \<and> dr_delivered x \<le> dr_count x \<and>
    (dr_skipped x \<or> dr_delivered x = dr_count x) \<and>
    length (dispatches w') \<le> length (dispatches w) + length (pl_segments p)"
proof -
  have loop: "n \<le> m \<and> m \<le> n + length ss \<and> (b' \<or> (m = n + length ss)) \<and> (b \<longrightarrow> b') \<and> runs v' \<le> runs v + length ss"
    if "deliver_loop (run_segment k process cfg D t c) n b ss v = (Inr (m, b'), v')" for n b ss v m b' v'
    using that
  proof (induction ss arbitrary: n b v)
    case (Cons s ss)
    obtain x v1 where x: "run_segment k process cfg D t c b s v = (Inr x, v1)" using run_segment_Inr by blast
    have "runs v1 \<le> runs v + 1" using run_segment_runs [OF x] by simp
    then show ?case
      using Cons.prems x Cons.IH [of "n + 1" b v1] Cons.IH [of n True v1] by (auto split: if_splits)
  qed auto
  obtain p where p: "t_plan t = Some p" using assms by (auto simp: deliver_def split: if_splits option.splits)
  obtain m b where run: "deliver_loop (run_segment k process cfg D t c) 0 False (pl_segments p) w = (Inr (m, b), w')"
    and res: "x = \<lparr>dr_success = True, dr_count = length (pl_segments p), dr_delivered = m, dr_failed = 0, dr_skipped = b\<rparr>"
    using assms p by (auto simp: deliver_def split: if_splits sum.splits prod.splits)
  show ?thesis using loop [OF run] p res by (auto simp: runs_def)
qed

section \<open>Runs\<close>

text \<open>The platform refuses the first connection and accepts the second message.\<close>

definition demo_delivery_ports :: "nat delivery_ports" where
  "demo_delivery_ports = \<lparr>dp_active = (\<lambda>_. act_ret ()), dp_permit = (\<lambda>_. act_ret True),
     dp_send = (\<lambda>q n. (if n = 0 then Inl (Http_error None (Some ''ECONNREFUSED'')) else Inr (Some 0), n + 1))\<rparr>"

definition demo_segment :: reply_segment where
  "demo_segment = \<lparr>sg_index = 0, sg_text = ''hi'', sg_actionId = ''a'', sg_requestId = ''r''\<rparr>"

definition demo_reply_turn :: reply_turn where
  "demo_reply_turn = \<lparr>t_corp = ''corp'', t_account = ''bot'', t_chat = ''chat'', t_turn = ''t1'', t_inputIds = [''m1''],
     t_inputAt = 1000, t_mode = EXECUTE, t_status = Planned, t_owner = Some ''w1'', t_fence = 1,
     t_plan = Some \<lparr>pl_text = ''hi'', pl_segments = [demo_segment], pl_resume = None\<rparr>, t_policy = Frozen, t_result = None,
     t_recovery = [(''primary'', JObj [])], t_projection = No_projection\<rparr>"

definition demo_context :: "nat delivery_context" where
  "demo_context = \<lparr>dc_corpId = None, dc_logicalTurnId = None, dc_occurredAt = None, dc_replyTurn = None, dc_assertOwned = None,
     dc_action = None, dc_groupId = None, dc_token = ''token'', dc_imBotId = ''bot'', dc_imContactId = ''c'', dc_imRoomId = [],
     dc_messageId = ''m1'', dc_chatId = ''chat'', dc_requestId = None, dc_apiType = None\<rparr>"

definition demo_delivery_world :: "nat \<Rightarrow> nat app_world" where
  "demo_delivery_world n = \<lparr>circuits = Map.empty, clock = 1000, client_ready = True, journal_of = empty_journal, env = [],
     serial = 0, queue_up = True, repairs = [], alerts = [], dispatches = [], outside = n\<rparr>"

definition demo_delivery_crypto :: crypto where
  "demo_delivery_crypto = \<lparr>sha256 = (\<lambda>s. ''h''), locale_le = (\<lambda>_ _. True)\<rparr>"

definition demo_sent :: "(delivery_error + unit) \<times> nat app_world" where
  "demo_sent = sendOrdinarySegment demo_delivery_crypto ''p'' demo_config demo_delivery_ports demo_reply_turn demo_context ''hi'' 0
     (demo_delivery_world 0)"

definition demo_delivered :: "(delivery_error + delivery_result) \<times> nat app_world" where
  "demo_delivered = deliver demo_delivery_crypto ''p'' demo_config demo_delivery_ports demo_reply_turn demo_context
     (demo_delivery_world 1)"

lemma demo_delivered_one: "case fst demo_delivered of Inr x \<Rightarrow> dr_delivered x = 1 | Inl _ \<Rightarrow> False"
  by code_simp

theorem ordinary_segment_resend_is_proven_safe_witness: "length (dispatches (snd demo_sent)) \<le> 2"
proof -
  have "sendOrdinarySegment demo_delivery_crypto ''p'' demo_config demo_delivery_ports demo_reply_turn demo_context ''hi'' 0
     (demo_delivery_world 0) = (fst demo_sent, snd demo_sent)"
    by (simp add: demo_sent_def)
  from ordinary_segment_resend_is_proven_safe [OF this] show ?thesis by (simp add: demo_delivery_world_def)
qed

text \<open>Three segments: the first is sent, the permission is gone before the second.\<close>

definition demo_plan_segment :: "nat \<Rightarrow> reply_segment" where
  "demo_plan_segment n = \<lparr>sg_index = n, sg_text = ''hi'', sg_actionId = ''a'', sg_requestId = ''r''\<rparr>"

definition demo_three_turn :: reply_turn where
  "demo_three_turn = demo_reply_turn\<lparr>t_plan := Some \<lparr>pl_text = ''hi'',
     pl_segments = [demo_plan_segment 0] @ demo_plan_segment 1 # [demo_plan_segment 2], pl_resume = None\<rparr>\<rparr>"

definition demo_short_permit :: "nat delivery_ports" where
  "demo_short_permit = demo_delivery_ports\<lparr>dp_permit := (\<lambda>_ e. (Inr (e < 2), e))\<rparr>"

definition demo_plain_crypto :: crypto where
  "demo_plain_crypto = \<lparr>sha256 = (\<lambda>s. filter (\<lambda>x. x = CHR ''1'') s), locale_le = (\<lambda>_ _. True)\<rparr>"

definition demo_first :: "(delivery_error + nat \<times> bool) \<times> nat app_world" where
  "demo_first = deliver_loop (run_segment demo_plain_crypto ''p'' demo_config demo_short_permit demo_three_turn demo_context)
     0 False [demo_plan_segment 0] (demo_delivery_world 1)"

lemma demo_refusal: "case demo_first of (q, v) \<Rightarrow> q = Inr (1, False) \<and>
    (case run_segment demo_plain_crypto ''p'' demo_config demo_short_permit demo_three_turn demo_context False (demo_plan_segment 1) v of
       (Inr x, u) \<Rightarrow> x_status x \<noteq> Journal SUCCEEDED \<and> cancelled_execution x \<and> length (dispatches u) = 1
     | (Inl e, u) \<Rightarrow> False)"
  by code_simp

theorem nothing_is_sent_after_a_cancellation_witness:
  "length (dispatches (snd (deliver demo_plain_crypto ''p'' demo_config demo_short_permit demo_three_turn demo_context
     (demo_delivery_world 1)))) = 1"
proof -
  obtain v x u where 1: "deliver_loop (run_segment demo_plain_crypto ''p'' demo_config demo_short_permit demo_three_turn demo_context)
     0 False [demo_plan_segment 0] (demo_delivery_world 1) = (Inr (1, False), v)"
    and 2: "run_segment demo_plain_crypto ''p'' demo_config demo_short_permit demo_three_turn demo_context
     False (demo_plan_segment 1) v = (Inr x, u)"
    and x: "x_status x \<noteq> Journal SUCCEEDED" "cancelled_execution x" "length (dispatches u) = 1"
    using demo_refusal by (auto simp: demo_first_def split: prod.splits sum.splits)
  have t: "t_mode demo_three_turn = EXECUTE" "truthy (map_of (t_recovery demo_three_turn) ''primary'')"
    by code_simp+
  show ?thesis
    using nothing_is_sent_after_a_cancellation [OF t _ _ 1 2 x(1,2)] x(3) by (simp add: demo_three_turn_def)
qed

theorem delivered_plan_is_accounted_for_witness:
  "\<exists>x. fst demo_delivered = Inr x \<and> dr_count x = 1 \<and> dr_delivered x = 1 \<and> length (dispatches (snd demo_delivered)) \<le> 1"
proof -
  obtain x where x: "fst demo_delivered = Inr x" "dr_delivered x = 1"
    using demo_delivered_one by (cases "fst demo_delivered") simp_all
  have "deliver demo_delivery_crypto ''p'' demo_config demo_delivery_ports demo_reply_turn demo_context
     (demo_delivery_world 1) = (Inr x, snd demo_delivered)"
    using x(1) by (simp add: demo_delivered_def prod_eq_iff)
  from delivered_plan_is_accounted_for [OF this] x show ?thesis
    by (simp add: demo_reply_turn_def demo_delivery_world_def)
qed

end
