(* ===== verification/MessageDelivery.thy ===== *)
theory MessageDelivery
  imports ReplyDelivery
begin

text \<open>
  \<open>src/channels/wecom/message/delivery/delivery.service.ts\<close>: one reply from the generated text to the
  result the workflow sees.  The durable delivery, the permit, the sender, the typing policy, the text
  splitter and the telemetry are ports on a world of any type.

  A thrown value is a \<open>DeliveryFailureError\<close> with the result it carries, a \<open>ReplySendError\<close>, or any
  other error with its message.  In a result an absent count is 0 and an absent flag is false.
\<close>

section \<open>Results, errors and ports\<close>

record delivery_report =
  rp_success :: bool
  rp_count :: nat
  rp_failed :: nat
  rp_delivered :: nat
  rp_acceptedText :: "string option"
  rp_unknown :: nat
  rp_totalTime :: int
  rp_error :: "string option"
  rp_skipped :: bool
  rp_skipReason :: "denial_reason option"

datatype delivery_exn = Failure string delivery_report | Send_exn reply_send_error | Plain string

fun error_message :: "delivery_exn \<Rightarrow> string" where
  "error_message (Failure m r) = m"
| "error_message (Send_exn e) = rse_message e"
| "error_message (Plain m) = m"

type_synonym ('w, 'a) dact = "('w, delivery_exn, 'a) eact"

definition thrown :: "send_failure \<Rightarrow> delivery_exn" where
  "thrown f = (case f of Send_error e \<Rightarrow> Send_exn e | _ \<Rightarrow> Plain (describeHttpFailure f))"

record ('e, 'w) message_ports =
  mp_now :: "'w \<Rightarrow> int"
  mp_sleep :: "int \<Rightarrow> 'w \<Rightarrow> 'w"
  mp_delay :: "string \<Rightarrow> bool \<Rightarrow> 'w \<Rightarrow> int \<times> 'w"
  mp_shouldSplit :: "string \<Rightarrow> 'w \<Rightarrow> bool"
  mp_split :: "string \<Rightarrow> string list"
  mp_strip :: "string \<Rightarrow> string"
  mp_permit :: "permit_input \<Rightarrow> ('w, permit) dact"
  mp_send :: "send_request \<Rightarrow> 'w \<Rightarrow> (send_failure + int option) \<times> 'w"
  mp_durable :: bool
  mp_resolve :: "'e delivery_context \<Rightarrow> ('w, reply_turn option) dact"
  mp_start :: "reply_turn \<Rightarrow> ('w, reply_turn) dact"
  mp_prepare :: "reply_turn \<Rightarrow> string \<Rightarrow> string list \<Rightarrow> jval option \<Rightarrow> ('w, reply_turn) dact"
  mp_deliver :: "reply_turn \<Rightarrow> 'e delivery_context \<Rightarrow> ('w, delivery_report) dact"
  mp_ordinary :: "reply_turn \<Rightarrow> 'e delivery_context \<Rightarrow> string \<Rightarrow> nat \<Rightarrow> ('w, unit) dact"
  mp_observe :: "'e delivery_context \<Rightarrow> string \<Rightarrow> nat \<Rightarrow> ('w, unit) dact \<Rightarrow> ('w, unit) dact"
  mp_settle :: "reply_turn \<Rightarrow> delivery_summary \<Rightarrow> ('w, reply_turn) dact"
  mp_markStart :: "('w, unit) dact"
  mp_markFirst :: "('w, unit) dact"
  mp_markEnd :: "delivery_report \<Rightarrow> ('w, unit) dact"
  mp_recordSkipped :: "denial_reason \<Rightarrow> 'w \<Rightarrow> 'w"

text \<open>\<open>Promise.resolve(...).catch(() => undefined)\<close>\<close>

definition swallow :: "('w, unit) dact \<Rightarrow> 'w \<Rightarrow> 'w" where
  "swallow m w = snd (m w)"

definition when_d :: "bool \<Rightarrow> ('w, unit) dact \<Rightarrow> ('w, unit) dact" where
  "when_d b m = (if b then m else act_ret ())"

section \<open>One segment\<close>

definition deniedActionReason :: "('e, 'w) message_ports \<Rightarrow> 'e delivery_context \<Rightarrow> ('w, denial_reason option) dact" where
  "deniedActionReason M c = act_bind (mp_permit M \<lparr>in_chatId = dc_chatId c,
       in_action = (case dc_action c of None \<Rightarrow> REPLY | Some a \<Rightarrow> a), in_botImId = Some (dc_imBotId c),
       in_groupId = dc_groupId c, in_candidateIds = [Some (dc_imContactId c)]\<rparr>)
     (\<lambda>p. act_ret (case p of Allowed \<Rightarrow> None | Denied why _ \<Rightarrow> Some why))"

definition segmentExternalRequestId :: "'e delivery_context \<Rightarrow> nat \<Rightarrow> nat \<Rightarrow> string option" where
  "segmentExternalRequestId c i n =
     (case dc_requestId c of
        None \<Rightarrow> None
      | Some r \<Rightarrow> (let base = trim r in
          if base = [] then None
          else Some (if n = 1 then base else base @ '':segment:'' @ show_nat (i + 1))))"

definition SEGMENT_SEND_RETRIES :: nat where
  "SEGMENT_SEND_RETRIES = deliverySegmentRetries"

definition SEGMENT_SEND_RETRY_DELAY_MS :: int where
  "SEGMENT_SEND_RETRY_DELAY_MS = 800"

definition legacy_request :: "'e delivery_context \<Rightarrow> string \<Rightarrow> string option \<Rightarrow> send_request" where
  "legacy_request c text rid = \<lparr>sq_token = dc_token c, sq_imBotId = dc_imBotId c, sq_imContactId = dc_imContactId c,
     sq_imRoomId = dc_imRoomId c, sq_chatId = dc_chatId c, sq_text = text, sq_requestId = rid, sq_apiType = dc_apiType c\<rparr>"

text \<open>What one try makes of the platform's answer: nothing, or the classified failure.\<close>

definition try_send :: "('e, 'w) message_ports \<Rightarrow> send_request \<Rightarrow> 'w \<Rightarrow> reply_send_error option \<times> 'w" where
  "try_send M q w =
     (case mp_send M q w of
        (Inl f, w1) \<Rightarrow> (Some (classifyReplySendError f), w1)
      | (Inr code, w1) \<Rightarrow> (if code = Some 0 then None else Some send_unconfirmed, w1))"

text \<open>The loop of \<open>sendLegacySegment\<close>; the first argument counts the rounds left after this one.\<close>

fun legacy_tries :: "nat \<Rightarrow> nat \<Rightarrow> ('e, 'w) message_ports \<Rightarrow> send_request \<Rightarrow> ('w, unit) dact" where
  "legacy_tries left n M q w =
     (case try_send M q w of
        (None, w1) \<Rightarrow> (Inr (), w1)
      | (Some e, w1) \<Rightarrow>
          if \<not> rse_retryable e then (Inl (Send_exn e), w1)
          else (case left of
              0 \<Rightarrow> (Inl (Send_exn e), w1)
            | Suc left' \<Rightarrow> legacy_tries left' (n + 1) M q (mp_sleep M (SEGMENT_SEND_RETRY_DELAY_MS * 2 ^ n) w1)))"

declare legacy_tries.simps [simp del]

definition sendLegacySegment :: "('e, 'w) message_ports \<Rightarrow> 'e delivery_context \<Rightarrow> string \<Rightarrow> string option \<Rightarrow> ('w, unit) dact" where
  "sendLegacySegment M c text rid = legacy_tries SEGMENT_SEND_RETRIES 0 M (legacy_request c text rid)"

definition ordinary_turn :: "reply_turn option \<Rightarrow> bool" where
  "ordinary_turn t = (case t of None \<Rightarrow> False | Some x \<Rightarrow> t_policy x = Single_pass)"

definition sendTextSegment :: "('e, 'w) message_ports \<Rightarrow> 'e delivery_context \<Rightarrow> string \<Rightarrow> string option \<Rightarrow> nat
    \<Rightarrow> ('w, unit) dact" where
  "sendTextSegment M c text rid index =
     (if dc_action c = Some PROACTIVE then sendLegacySegment M c text rid
      else if ordinary_turn (dc_replyTurn c) \<and> mp_durable M then mp_ordinary M (the (dc_replyTurn c)) c text index
      else if mp_durable M then mp_observe M c text index (sendLegacySegment M c text rid)
      else sendLegacySegment M c text rid)"

definition unknown_result :: "delivery_exn \<Rightarrow> nat" where
  "unknown_result e = (case e of Send_exn r \<Rightarrow> if unknownResult r then 1 else 0 | _ \<Rightarrow> 0)"

section \<open>A reply in one piece\<close>

definition deliverSingle :: "('e, 'w) message_ports \<Rightarrow> string \<Rightarrow> 'e delivery_context \<Rightarrow> ('w, delivery_report) dact" where
  "deliverSingle M content c w =
     (let out = (if mp_strip M content = [] then trim content else mp_strip M content) in
      case sendTextSegment M c out (segmentExternalRequestId c 0 1) 0 w of
        (Inr _, w1) \<Rightarrow>
          (Inr \<lparr>rp_success = True, rp_count = 1, rp_failed = 0, rp_delivered = 1, rp_acceptedText = Some out, rp_unknown = 0,
                rp_totalTime = 0, rp_error = None, rp_skipped = False, rp_skipReason = None\<rparr>, swallow (mp_markFirst M) w1)
      | (Inl e, w1) \<Rightarrow>
          (Inl (Failure (error_message e) \<lparr>rp_success = False, rp_count = 1, rp_failed = 1, rp_delivered = 0,
             rp_acceptedText = Some [], rp_unknown = unknown_result e, rp_totalTime = 0, rp_error = None, rp_skipped = False,
             rp_skipReason = None\<rparr>), w1))"

section \<open>A reply in segments\<close>

record segment_state =
  ss_accepted :: "string list"
  ss_unknown :: nat
  ss_failed :: nat
  ss_interrupted :: "denial_reason option"

text \<open>The loop over the segments, from number \<open>i\<close> of \<open>n\<close>; \<open>successCount\<close> is the number accepted.\<close>

fun segment_loop :: "('e, 'w) message_ports \<Rightarrow> 'e delivery_context \<Rightarrow> nat \<Rightarrow> nat \<Rightarrow> string list \<Rightarrow> segment_state
    \<Rightarrow> ('w, segment_state) dact" where
  "segment_loop M c n i [] st w = (Inr st, w)"
| "segment_loop M c n i (s # ss) st w =
     (case mp_delay M s (i = 0) w of
        (ms, w1) \<Rightarrow>
          (case deniedActionReason M c (mp_sleep M ms w1) of
             (Inl e, w2) \<Rightarrow> (Inl e, w2)
           | (Inr (Some why), w2) \<Rightarrow> (Inr (st\<lparr>ss_interrupted := Some why\<rparr>), w2)
           | (Inr None, w2) \<Rightarrow>
               (case sendTextSegment M c s (segmentExternalRequestId c i n) i w2 of
                  (Inr _, w3) \<Rightarrow>
                    segment_loop M c n (i + 1) ss (st\<lparr>ss_accepted := ss_accepted st @ [s]\<rparr>)
                      (if ss_accepted st = [] then swallow (mp_markFirst M) w3 else w3)
                | (Inl e, w3) \<Rightarrow>
                    (Inr (st\<lparr>ss_failed := ss_failed st + 1, ss_unknown := ss_unknown st + unknown_result e\<rparr>), w3))))"

fun join_blank :: "string list \<Rightarrow> string" where
  "join_blank [] = []"
| "join_blank [s] = s"
| "join_blank (s # ss) = s @ [CHR 0x0A, CHR 0x0A] @ join_blank ss"

text \<open>The words of the message, as bytes.\<close>

definition failed_words :: string where
  "failed_words = map char_of ([32, 228, 184, 170, 230, 182, 136, 230, 129, 175, 231, 137, 135, 230, 174, 181, 229, 143, 145, 233, 128, 129, 229, 164, 177, 232, 180, 165] :: nat list)"

definition segments_failed :: "nat \<Rightarrow> nat \<Rightarrow> string" where
  "segments_failed failed n = show_nat failed @ CHR ''/'' # show_nat n @ failed_words"

definition segment_report :: "nat \<Rightarrow> segment_state \<Rightarrow> delivery_report" where
  "segment_report n st = \<lparr>rp_success = (ss_failed st = 0), rp_count = n, rp_failed = ss_failed st,
     rp_delivered = length (ss_accepted st), rp_acceptedText = Some (join_blank (ss_accepted st)), rp_unknown = ss_unknown st,
     rp_totalTime = 0, rp_error = (if 0 < ss_failed st then Some (segments_failed (ss_failed st) n) else None),
     rp_skipped = (ss_interrupted st \<noteq> None), rp_skipReason = ss_interrupted st\<rparr>"

definition deliverSegments :: "('e, 'w) message_ports \<Rightarrow> string \<Rightarrow> 'e delivery_context \<Rightarrow> ('w, delivery_report) dact" where
  "deliverSegments M content c w =
     (let segments = mp_split M content; n = length segments in
      case segment_loop M c n 0 segments \<lparr>ss_accepted = [], ss_unknown = 0, ss_failed = 0, ss_interrupted = None\<rparr> w of
        (Inl e, w1) \<Rightarrow> (Inl e, w1)
      | (Inr st, w1) \<Rightarrow>
          (let w2 = (case ss_interrupted st of None \<Rightarrow> w1 | Some why \<Rightarrow> mp_recordSkipped M why w1); r = segment_report n st in
           if 0 < ss_failed st then (Inl (Failure (segments_failed (ss_failed st) n) r), w2) else (Inr r, w2)))"

section \<open>The turn around the delivery\<close>

definition prepareReplyPlan :: "('e, 'w) message_ports \<Rightarrow> string \<Rightarrow> 'e delivery_context \<Rightarrow> jval option
    \<Rightarrow> ('w, reply_turn option) dact" where
  "prepareReplyPlan M content c resume w =
     (if \<not> mp_durable M then (Inr None, w)
      else act_bind (mp_resolve M c) (\<lambda>t. case t of
          None \<Rightarrow> act_ret None
        | Some turn \<Rightarrow>
            if t_policy turn = Single_pass then
              (if t_status turn = Preparing then act_bind (mp_start M turn) (\<lambda>x. act_ret (Some x)) else act_ret (Some turn))
            else (\<lambda>w1.
              let segments = (if trim content = [] then []
                  else if mp_shouldSplit M content w1 then mp_split M content
                  else [if mp_strip M content = [] then trim content else mp_strip M content])
              in act_bind (mp_prepare M turn content segments resume) (\<lambda>x. act_ret (Some x)) w1)) w)"

definition summary_of :: "delivery_report \<Rightarrow> delivery_summary" where
  "summary_of r = \<lparr>ds_outcome = (if rp_unknown r \<noteq> 0 then Unknown_outcome else if \<not> rp_success r then Incomplete
       else if rp_skipped r then Skipped else Whole),
     ds_accepted = Some (int (rp_delivered r)), ds_total = Some (int (rp_count r))\<rparr>"

definition finishOrdinary :: "('e, 'w) message_ports \<Rightarrow> reply_turn option \<Rightarrow> delivery_report \<Rightarrow> ('w, unit) dact" where
  "finishOrdinary M t r =
     (if ordinary_turn t \<and> mp_durable M then act_bind (mp_settle M (the t) (summary_of r)) (\<lambda>_. act_ret ()) else act_ret ())"

definition skipped_report :: "denial_reason \<Rightarrow> int \<Rightarrow> delivery_report" where
  "skipped_report why elapsed = \<lparr>rp_success = True, rp_count = 0, rp_failed = 0, rp_delivered = 0, rp_acceptedText = None,
     rp_unknown = 0, rp_totalTime = elapsed, rp_error = None, rp_skipped = True, rp_skipReason = Some why\<rparr>"

text \<open>The \<open>try\<close> block: an error comes with the result that was already known when it was thrown.\<close>

definition deliver_body :: "('e, 'w) message_ports \<Rightarrow> bool \<Rightarrow> string \<Rightarrow> 'e delivery_context \<Rightarrow> reply_turn option \<Rightarrow> int
    \<Rightarrow> 'w \<Rightarrow> ((delivery_exn \<times> delivery_report option) + delivery_report) \<times> 'w" where
  "deliver_body M rec content c turn start w =
     (case when_d rec (mp_markStart M) w of
        (Inl e, w1) \<Rightarrow> (Inl (e, None), w1)
      | (Inr _, w1) \<Rightarrow>
       (case deniedActionReason M c w1 of
          (Inl e, w2) \<Rightarrow> (Inl (e, None), w2)
        | (Inr (Some why), w2) \<Rightarrow>
            (let r = skipped_report why (mp_now M w2 - start);
                 w3 = (if rec then mp_recordSkipped M why w2 else w2) in
             case act_bind (when_d rec (mp_markEnd M r)) (\<lambda>_. finishOrdinary M turn r) w3 of
               (Inl e, w4) \<Rightarrow> (Inl (e, None), w4)
             | (Inr _, w4) \<Rightarrow> (Inr r, w4))
        | (Inr None, w2) \<Rightarrow>
            (case (if mp_shouldSplit M content w2 then deliverSegments M content c w2 else deliverSingle M content c w2) of
               (Inl e, w3) \<Rightarrow> (Inl (e, None), w3)
             | (Inr r, w3) \<Rightarrow>
                 (let elapsed = mp_now M w3 - start in
                  case act_bind (when_d rec (mp_markEnd M (r\<lparr>rp_totalTime := elapsed\<rparr>))) (\<lambda>_. finishOrdinary M turn r) w3 of
                    (Inl e, w4) \<Rightarrow> (Inl (e, Some r), w4)
                  | (Inr _, w4) \<Rightarrow> (Inr (r\<lparr>rp_totalTime := elapsed\<rparr>), w4)))))"

definition failure_report :: "delivery_exn \<Rightarrow> delivery_report option \<Rightarrow> int \<Rightarrow> delivery_report" where
  "failure_report e known elapsed =
     (case e of
        Failure _ r \<Rightarrow> r\<lparr>rp_totalTime := elapsed\<rparr>
      | _ \<Rightarrow> (case known of
          Some r \<Rightarrow> r\<lparr>rp_totalTime := elapsed, rp_error := Some (error_message e)\<rparr>
        | None \<Rightarrow> \<lparr>rp_success = False, rp_count = 0, rp_failed = 1, rp_delivered = 0, rp_acceptedText = None,
            rp_unknown = unknown_result e, rp_totalTime = elapsed, rp_error = Some (error_message e), rp_skipped = False,
            rp_skipReason = None\<rparr>))"

definition deliver_attempt :: "('e, 'w) message_ports \<Rightarrow> bool \<Rightarrow> string \<Rightarrow> 'e delivery_context \<Rightarrow> reply_turn option
    \<Rightarrow> ('w, delivery_report) dact" where
  "deliver_attempt M rec content c turn w =
     (let start = mp_now M w in
      case deliver_body M rec content c turn start w of
        (Inr r, w1) \<Rightarrow> (Inr r, w1)
      | (Inl (e, known), w1) \<Rightarrow>
          (let r = failure_report e known (mp_now M w1 - start);
               w2 = (if rec then swallow (mp_markEnd M r) w1 else w1) in
           case finishOrdinary M turn r w2 of
             (Inl e', w3) \<Rightarrow> (Inl (Failure (error_message e') r), w3)
           | (Inr _, w3) \<Rightarrow> (Inl (Failure (error_message e) r), w3)))"

definition deliverReply :: "('e, 'w) message_ports \<Rightarrow> bool \<Rightarrow> string \<Rightarrow> 'e delivery_context \<Rightarrow> ('w, delivery_report) dact" where
  "deliverReply M rec content c =
     act_bind (if dc_action c = Some PROACTIVE then act_ret None else prepareReplyPlan M content c None) (\<lambda>turn.
     if turn \<noteq> None \<and> mp_durable M \<and> \<not> ordinary_turn turn then
       act_bind (when_d rec (mp_markStart M)) (\<lambda>_.
       act_bind (mp_deliver M (the turn) c) (\<lambda>r.
       act_bind (when_d rec (mp_markEnd M r)) (\<lambda>_. act_ret r)))
     else deliver_attempt M rec content
       (c\<lparr>dc_replyTurn := (case turn of Some t \<Rightarrow> Some t | None \<Rightarrow> dc_replyTurn c)\<rparr>) turn)"


section \<open>Lemmas\<close>

lemma segment_loop_spec:
  assumes "segment_loop M c n i ss st w = (Inr st', w')" and "ss_failed st = 0" and "ss_unknown st = 0"
    and "ss_interrupted st = None"
  shows "\<exists>k \<le> length ss. ss_accepted st' = ss_accepted st @ take k ss \<and>
    (k = length ss \<or> ss_interrupted st' \<noteq> None \<or> ss_failed st' = 1) \<and>
    (ss_interrupted st' \<noteq> None \<longrightarrow> ss_failed st' = 0) \<and> ss_failed st' \<le> 1 \<and> ss_unknown st' \<le> ss_failed st' \<and>
    (ss_failed st' = 1 \<longrightarrow> k < length ss)"
  using assms
proof (induction M c n i ss st w rule: segment_loop.induct)
  case (2 M c n i s ss st w)
  obtain ms w1 where d: "mp_delay M s (i = 0) w = (ms, w1)" by fastforce
  obtain p w2 where p: "deniedActionReason M c (mp_sleep M ms w1) = (p, w2)" by fastforce
  obtain x w3 where x: "sendTextSegment M c s (segmentExternalRequestId c i n) i w2 = (x, w3)" by fastforce
  consider why where "p = Inr (Some why)" | e where "p = Inr None" "x = Inl e" | u where "p = Inr None" "x = Inr u"
    using 2(2) d p by (cases p; cases x) (auto split: option.splits)
  then show ?case
  proof cases
    case 1
    then have "st' = st\<lparr>ss_interrupted := Some why\<rparr>" using 2(2) d p by simp
    then show ?thesis using 2(3-5) by (intro exI [of _ 0]) simp
  next
    case 2
    then have "st' = st\<lparr>ss_failed := ss_failed st + 1, ss_unknown := ss_unknown st + unknown_result e\<rparr>"
      using \<open>segment_loop M c n i (s # ss) st w = (Inr st', w')\<close> d p x by simp
    moreover have "unknown_result e \<le> 1" by (simp add: unknown_result_def split: delivery_exn.split)
    ultimately show ?thesis using 2 \<open>ss_failed st = 0\<close> \<open>ss_unknown st = 0\<close> \<open>ss_interrupted st = None\<close>
      by (intro exI [of _ 0]) simp
  next
    case 3
    obtain k where "k \<le> length ss" "ss_accepted st' = (ss_accepted st @ [s]) @ take k ss"
      "(k = length ss \<or> ss_interrupted st' \<noteq> None \<or> ss_failed st' = 1)"
      "(ss_interrupted st' \<noteq> None \<longrightarrow> ss_failed st' = 0)" "ss_failed st' \<le> 1" "ss_unknown st' \<le> ss_failed st'"
      "(ss_failed st' = 1 \<longrightarrow> k < length ss)"
      using 2(1) [OF d [symmetric] p [symmetric] 3(1) refl x [symmetric] 3(2)] 2(2-5) d p x 3 by auto
    then show ?thesis by (intro exI [of _ "Suc k"]) simp
  qed
qed simp

lemma summary_of_updates [simp]:
  "summary_of (r\<lparr>rp_totalTime := t\<rparr>) = summary_of r" "summary_of (r\<lparr>rp_error := x\<rparr>) = summary_of r"
  by (simp_all add: summary_of_def)

lemma finishOrdinary_run:
  "t_policy t = Single_pass \<Longrightarrow> mp_durable M \<Longrightarrow> finishOrdinary M (Some t) r w =
    (case mp_settle M t (summary_of r) w of (Inl e, w') \<Rightarrow> (Inl e, w') | (Inr _, w') \<Rightarrow> (Inr (), w'))"
  by (simp add: finishOrdinary_def ordinary_turn_def act_bind_def act_ret_def)

section \<open>Properties\<close>

text \<open>\<open>accounts n segs r\<close>: the report \<open>r\<close> names the first of the segments as those accepted.\<close>

definition accounts :: "string list \<Rightarrow> delivery_report \<Rightarrow> bool" where
  "accounts segs r \<longleftrightarrow> rp_count r = length segs \<and> rp_delivered r \<le> length segs \<and>
     rp_acceptedText r = Some (join_blank (take (rp_delivered r) segs)) \<and> rp_unknown r \<le> rp_failed r"

lemma deniedActionReason_Inr:
  assumes "\<And>q v. \<exists>p v'. mp_permit M q v = (Inr p, v')"
  shows "\<exists>p v'. deniedActionReason M c v = (Inr p, v')"
  unfolding deniedActionReason_def act_bind_def act_ret_def using assms by (metis (no_types, lifting) old.sum.simps(6) split_conv)

lemma segment_loop_Inr:
  assumes "\<And>q v. \<exists>p v'. mp_permit M q v = (Inr p, v')"
  shows "\<exists>st' w'. segment_loop M c n i ss st w = (Inr st', w')"
  using assms
proof (induction ss arbitrary: i st w)
  case (Cons s ss)
  obtain ms w1 where d: "mp_delay M s (i = 0) w = (ms, w1)" by fastforce
  obtain p w2 where p: "deniedActionReason M c (mp_sleep M ms w1) = (Inr p, w2)"
    using deniedActionReason_Inr [OF Cons.prems] by blast
  obtain x w3 where x: "sendTextSegment M c s (segmentExternalRequestId c i n) i w2 = (x, w3)" by fastforce
  show ?case using d p x Cons.IH [OF Cons.prems] by (cases p; cases x) simp_all
qed simp

text \<open>
  \<open>confirms acc M\<close>: \<open>acc\<close> is a view of the world that lists the texts whose sending was confirmed to
  this process.  The sender confirms a text when the platform answers code 0; the durable delivery
  confirms it when it resolves, and its observation of a plain send resolves only if the send did.
  Nothing else the delivery asks adds to the list.
\<close>

definition confirms :: "('w \<Rightarrow> string list) \<Rightarrow> ('e, 'w) message_ports \<Rightarrow> bool" where
  "confirms acc M \<longleftrightarrow>
     (\<forall>q w. acc (snd (mp_send M q w)) = acc w @ (if fst (mp_send M q w) = Inr (Some 0) then [sq_text q] else [])) \<and>
     (\<forall>t c text i w. acc (snd (mp_ordinary M t c text i w)) =
        acc w @ (if isl (fst (mp_ordinary M t c text i w)) then [] else [text])) \<and>
     (\<forall>c text i m w r w'. mp_observe M c text i m w = (r, w') \<longrightarrow>
        (isl r \<and> acc w' = acc w) \<or> (\<exists>v x v'. acc v = acc w \<and> m v = (x, v') \<and> acc w' = acc v' \<and> isl x = isl r)) \<and>
     (\<forall>ms w. acc (mp_sleep M ms w) = acc w) \<and> (\<forall>s b w. acc (snd (mp_delay M s b w)) = acc w) \<and>
     (\<forall>q w. acc (snd (mp_permit M q w)) = acc w) \<and> (\<forall>w. acc (snd (mp_markFirst M w)) = acc w) \<and>
     (\<forall>why w. acc (mp_recordSkipped M why w) = acc w)"

lemma legacy_tries_confirms:
  assumes c: "confirms acc M"
  shows "legacy_tries left n M q w = (r, w') \<Longrightarrow> acc w' = acc w @ (if isl r then [] else [sq_text q])"
proof (induction left arbitrary: n w)
  case 0
  obtain y w1 where y: "mp_send M q w = (y, w1)" by fastforce
  have "acc w1 = acc w @ (if y = Inr (Some 0) then [sq_text q] else [])"
    using c y unfolding confirms_def by (metis fst_conv snd_conv)
  then show ?case using 0 y by (cases y) (auto simp: legacy_tries.simps [of 0] try_send_def split: if_splits)
next
  case (Suc left)
  obtain y w1 where y: "mp_send M q w = (y, w1)" by fastforce
  have a: "acc w1 = acc w @ (if y = Inr (Some 0) then [sq_text q] else [])"
    using c y unfolding confirms_def by (metis fst_conv snd_conv)
  obtain e w2 where t: "try_send M q w = (e, w2)" by fastforce
  have w2: "w2 = w1" and e: "e = None \<longleftrightarrow> y = Inr (Some 0)"
    using t y by (auto simp: try_send_def split: sum.splits if_splits)
  have sl: "acc (mp_sleep M ms v) = acc v" for ms v using c by (simp add: confirms_def)
  show ?case
  proof (cases e)
    case None
    then show ?thesis using Suc.prems t w2 e a by (auto simp: legacy_tries.simps [of "Suc left"])
  next
    case (Some x)
    then show ?thesis using Suc.prems Suc.IH t w2 e a sl
      by (auto simp: legacy_tries.simps [of "Suc left"] split: if_splits)
  qed
qed

lemma sendTextSegment_confirms:
  assumes c: "confirms acc M" and r: "sendTextSegment M d text rid i w = (r, w')"
  shows "acc w' = acc w @ (if isl r then [] else [text])"
proof -
  have legacy: "acc v' = acc v @ (if isl x then [] else [text])" if "sendLegacySegment M d text rid v = (x, v')" for v x v'
    using legacy_tries_confirms [OF c that [unfolded sendLegacySegment_def]] by (simp add: legacy_request_def)
  have ordinary: "acc (snd (mp_ordinary M t d text i w)) = acc w @ (if isl (fst (mp_ordinary M t d text i w)) then [] else [text])" for t
    using c by (simp add: confirms_def)
  have observed: "acc w' = acc w @ (if isl r then [] else [text])"
    if "mp_observe M d text i (sendLegacySegment M d text rid) w = (r, w')"
  proof -
    have "(isl r \<and> acc w' = acc w) \<or> (\<exists>v x v'. acc v = acc w \<and> sendLegacySegment M d text rid v = (x, v') \<and>
        acc w' = acc v' \<and> isl x = isl r)"
      using c that unfolding confirms_def by blast
    then show ?thesis using legacy by auto
  qed
  show ?thesis using r legacy observed ordinary [of "the (dc_replyTurn d)"]
    by (auto simp: sendTextSegment_def split: if_splits)
qed

lemma segment_loop_confirms:
  assumes c: "confirms acc M"
  shows "segment_loop M d n i ss st w = (Inr st', w') \<Longrightarrow> acc w = log @ ss_accepted st \<Longrightarrow> acc w' = log @ ss_accepted st'"
proof (induction ss arbitrary: i st w)
  case (Cons s ss)
  have k: "acc (mp_sleep M ms v) = acc v" "acc (snd (mp_delay M s b v)) = acc v" "acc (snd (mp_permit M q v)) = acc v"
    "acc (snd (mp_markFirst M v)) = acc v" for ms v b q
    using c by (simp_all add: confirms_def)
  obtain ms w1 where 1: "mp_delay M s (i = 0) w = (ms, w1)" by fastforce
  obtain p w2 where 2: "deniedActionReason M d (mp_sleep M ms w1) = (p, w2)" by fastforce
  have a1: "acc w1 = acc w" using 1 k(2) [of "i = 0" w] by simp
  have "acc w2 = acc (mp_sleep M ms w1)"
    using 2 k(3) by (auto simp: deniedActionReason_def act_bind_def act_ret_def split: prod.splits sum.splits)
      (metis snd_conv)+
  then have a2: "acc w2 = acc w" using a1 k(1) by simp
  obtain r w3 where 3: "sendTextSegment M d s (segmentExternalRequestId d i n) i w2 = (r, w3)" by fastforce
  have a3: "acc w3 = acc w @ (if isl r then [] else [s])" using sendTextSegment_confirms [OF c 3] a2 by simp
  consider e where "p = Inl e" | why where "p = Inr (Some why)" | e where "p = Inr None" "r = Inl e" | u where "p = Inr None" "r = Inr u"
    by (metis old.sum.exhaust option.exhaust)
  then show ?case
  proof cases
    case 4
    let ?st = "st\<lparr>ss_accepted := ss_accepted st @ [s]\<rparr>"
    let ?w = "if ss_accepted st = [] then swallow (mp_markFirst M) w3 else w3"
    have "segment_loop M d n (i + 1) ss ?st ?w = (Inr st', w')" using Cons.prems(1) 1 2 3 4 by simp
    moreover have "acc ?w = log @ ss_accepted ?st" using a3 4 Cons.prems(2) k(4) by (simp add: swallow_def)
    ultimately show ?thesis by (rule Cons.IH)
  qed (use Cons.prems 1 2 3 a2 a3 in auto)
qed simp

text \<open>C17: the report of a delivery in segments tells what was sent: the texts whose sending was confirmed
  meanwhile are exactly the first segments of the split reply, in order and each once, as many as the
  report counts, and the accepted text is those joined; a resolved delivery had all of them confirmed or
  names why it stopped, and a rejected one stopped at the one segment that failed.\<close>

theorem segments_are_accounted_for:
  assumes permit: "\<And>q v. \<exists>p v'. mp_permit M q v = (Inr p, v')" and view: "confirms acc M"
    and run: "deliverSegments M content c w = (x, w')"
  shows "case x of
      Inr r \<Rightarrow> acc w' = acc w @ take (rp_delivered r) (mp_split M content) \<and> accounts (mp_split M content) r \<and>
        rp_failed r = 0 \<and> (rp_delivered r = rp_count r \<or> rp_skipReason r \<noteq> None)
    | Inl e \<Rightarrow> \<exists>m r. e = Failure m r \<and> acc w' = acc w @ take (rp_delivered r) (mp_split M content) \<and>
        accounts (mp_split M content) r \<and> rp_failed r = 1 \<and> rp_delivered r < rp_count r"
proof -
  let ?segs = "mp_split M content" and ?st = "\<lparr>ss_accepted = [], ss_unknown = 0, ss_failed = 0, ss_interrupted = None\<rparr>"
  obtain st w1 where loop: "segment_loop M c (length ?segs) 0 ?segs ?st w = (Inr st, w1)"
    using segment_loop_Inr [OF permit] by blast
  obtain k where k: "k \<le> length ?segs" "ss_accepted st = take k ?segs"
      "k = length ?segs \<or> ss_interrupted st \<noteq> None \<or> ss_failed st = 1" "ss_interrupted st \<noteq> None \<longrightarrow> ss_failed st = 0"
      "ss_failed st \<le> 1" "ss_unknown st \<le> ss_failed st" "ss_failed st = 1 \<longrightarrow> k < length ?segs"
    using segment_loop_spec [OF loop] by auto
  have acc: "accounts ?segs (segment_report (length ?segs) st)"
    using k by (simp add: accounts_def segment_report_def min_def)
  have "acc w1 = acc w @ take k ?segs" using segment_loop_confirms [OF view loop] k(2) by simp
  moreover have "acc (mp_recordSkipped M why v) = acc v" for why v using view by (simp add: confirms_def)
  moreover have "w' = (case ss_interrupted st of None \<Rightarrow> w1 | Some why \<Rightarrow> mp_recordSkipped M why w1)"
    using run loop by (auto simp: deliverSegments_def Let_def split: if_splits)
  ultimately have sent: "acc w' = acc w @ take (rp_delivered (segment_report (length ?segs) st)) ?segs"
    using k(1,2) by (simp add: segment_report_def min_def split: option.split)
  show ?thesis
  proof (cases "ss_failed st = 0")
    case True
    then have "x = Inr (segment_report (length ?segs) st)"
      using run loop by (simp add: deliverSegments_def Let_def)
    then show ?thesis using acc sent True k by (auto simp: segment_report_def)
  next
    case False
    then have "x = Inl (Failure (segments_failed (ss_failed st) (length ?segs)) (segment_report (length ?segs) st))"
      using run loop by (simp add: deliverSegments_def Let_def)
    then show ?thesis using acc sent False k by (auto simp: segment_report_def)
  qed
qed

text \<open>C6: an ordinary turn never ends without its summary: whatever fails on the way, the last thing a delivery does is to
  settle the turn with the outcome it reports; it resolves only if the settlement was confirmed, and
  rejects only with a \<open>DeliveryFailureError\<close> that carries the report.\<close>

theorem ordinary_turn_is_settled_with_its_report:
  assumes "deliver_attempt M rec content c (Some t) w = (x, w')" and "t_policy t = Single_pass" and "mp_durable M"
  shows "case x of
      Inr r \<Rightarrow> \<exists>v t'. mp_settle M t (summary_of r) v = (Inr t', w')
    | Inl e \<Rightarrow> \<exists>m r v y. e = Failure m r \<and> mp_settle M t (summary_of r) v = (y, w')"
proof -
  note fin = finishOrdinary_run [OF assms(2,3)]
  have ended: "\<exists>v t'. mp_settle M t (summary_of r) v = (Inr t', w1)"
    if "act_bind m (\<lambda>_. finishOrdinary M (Some t) r) v = (Inr u, w1)" for m :: "('a, unit) dact" and r v u w1
    using that by (elim act_bind_InrE) (auto simp: fin split: prod.splits sum.splits)
  let ?start = "mp_now M w"
  obtain b w1 where b: "deliver_body M rec content c (Some t) ?start w = (b, w1)" by fastforce
  show ?thesis
  proof (cases b)
    case (Inr r)
    then have "x = Inr r" "w' = w1" using assms(1) b by (simp_all add: deliver_attempt_def Let_def)
    moreover have "\<exists>v t'. mp_settle M t (summary_of r) v = (Inr t', w1)"
      using b [unfolded Inr] ended
      by (auto simp: deliver_body_def Let_def split: prod.splits sum.splits option.splits if_splits)
    ultimately show ?thesis by simp
  next
    case (Inl y)
    obtain e known where y: "y = (e, known)" by fastforce
    show ?thesis
      using assms(1) b Inl y
      by (auto simp: deliver_attempt_def Let_def fin split: prod.splits sum.splits if_splits)
  qed
qed

section \<open>Witnesses\<close>

text \<open>A reply of two segments, the second of which the platform does not confirm.\<close>

definition demo_message_ports :: "(unit, nat) message_ports" where
  "demo_message_ports = \<lparr>mp_now = int, mp_sleep = (\<lambda>_ n. n), mp_delay = (\<lambda>_ _ n. (0, n)), mp_shouldSplit = (\<lambda>_ _. True),
     mp_split = (\<lambda>_. [''a'', ''b'']), mp_strip = id, mp_permit = (\<lambda>_ n. (Inr Allowed, n)), mp_send = (\<lambda>_ n. (Inr (Some 0), n)),
     mp_durable = True, mp_resolve = (\<lambda>c n. (Inr (dc_replyTurn c), n)), mp_start = (\<lambda>t n. (Inr t, n)),
     mp_prepare = (\<lambda>t _ _ _ n. (Inr t, n)), mp_deliver = (\<lambda>_ _ n. (Inl (Plain []), n)),
     mp_ordinary = (\<lambda>_ _ _ i n. (if i = 0 then Inr () else Inl (Send_exn send_unconfirmed), n + 1)),
     mp_observe = (\<lambda>_ _ _ m. m), mp_settle = (\<lambda>t d n. (Inr (t\<lparr>t_result := Some d\<rparr>), n + 10)), mp_markStart = act_ret (),
     mp_markFirst = act_ret (), mp_markEnd = (\<lambda>_. act_ret ()), mp_recordSkipped = (\<lambda>_ n. n)\<rparr>"

definition demo_ordinary_turn :: reply_turn where
  "demo_ordinary_turn = \<lparr>t_corp = ''corp'', t_account = ''bot'', t_chat = ''chat'', t_turn = ''t1'', t_inputIds = [''m1''],
     t_inputAt = 1000, t_mode = EXECUTE, t_status = Planned, t_owner = Some ''w1'', t_fence = 1, t_plan = None,
     t_policy = Single_pass, t_result = None, t_recovery = [], t_projection = No_projection\<rparr>"

definition demo_message_context :: "unit delivery_context" where
  "demo_message_context = \<lparr>dc_corpId = None, dc_logicalTurnId = None, dc_occurredAt = None,
     dc_replyTurn = Some demo_ordinary_turn, dc_assertOwned = None, dc_action = None, dc_groupId = None, dc_token = ''token'',
     dc_imBotId = ''bot'', dc_imContactId = ''c'', dc_imRoomId = [], dc_messageId = ''m1'', dc_chatId = ''chat'',
     dc_requestId = None, dc_apiType = None\<rparr>"

lemmas demo_message_defs = demo_message_ports_def demo_message_context_def demo_ordinary_turn_def deniedActionReason_def
  act_bind_def act_ret_def sendTextSegment_def ordinary_turn_def swallow_def unknown_result_def send_unconfirmed_def

lemma demo_segments_fail:
  "\<exists>m r. deliverSegments demo_message_ports ''ab'' demo_message_context 0 = (Inl (Failure m r), 2) \<and> rp_delivered r = 1 \<and>
     rp_unknown r = 1 \<and> rp_acceptedText r = Some ''a''"
  by (simp add: deliverSegments_def demo_message_defs segment_report_def)

text \<open>The same with a world that lists the confirmed texts.\<close>

definition demo_log_ports :: "(unit, string list) message_ports" where
  "demo_log_ports = \<lparr>mp_now = (\<lambda>_. 0), mp_sleep = (\<lambda>_ l. l), mp_delay = (\<lambda>_ _ l. (0, l)), mp_shouldSplit = (\<lambda>_ _. True),
     mp_split = (\<lambda>_. [''a'', ''b'']), mp_strip = id, mp_permit = (\<lambda>_ l. (Inr Allowed, l)),
     mp_send = (\<lambda>q l. (Inr (Some 0), l @ [sq_text q])),
     mp_durable = True, mp_resolve = (\<lambda>c l. (Inr (dc_replyTurn c), l)), mp_start = (\<lambda>t l. (Inr t, l)),
     mp_prepare = (\<lambda>t _ _ _ l. (Inr t, l)), mp_deliver = (\<lambda>_ _ l. (Inl (Plain []), l)),
     mp_ordinary = (\<lambda>_ _ text i l. if i = 0 then (Inr (), l @ [text]) else (Inl (Send_exn send_unconfirmed), l)),
     mp_observe = (\<lambda>_ _ _ m. m), mp_settle = (\<lambda>t d l. (Inr t, l)), mp_markStart = act_ret (),
     mp_markFirst = act_ret (), mp_markEnd = (\<lambda>_. act_ret ()), mp_recordSkipped = (\<lambda>_ l. l)\<rparr>"

lemma demo_log_fails:
  "\<exists>m r. deliverSegments demo_log_ports ''ab'' demo_message_context [''old''] = (Inl (Failure m r), [''old'', ''a''])"
  by (simp add: deliverSegments_def demo_message_defs demo_log_ports_def segment_report_def)

theorem segments_are_accounted_for_witness:
  "\<exists>m r. deliverSegments demo_log_ports ''ab'' demo_message_context [''old''] = (Inl (Failure m r), [''old'', ''a'']) \<and>
     rp_failed r = 1 \<and> [''old'', ''a''] = [''old''] @ take (rp_delivered r) [''a'', ''b''] \<and> rp_delivered r < rp_count r"
proof -
  obtain m r where r: "deliverSegments demo_log_ports ''ab'' demo_message_context [''old''] = (Inl (Failure m r), [''old'', ''a''])"
    using demo_log_fails by blast
  have p: "\<exists>p v'. mp_permit demo_log_ports q v = (Inr p, v')" for q v by (simp add: demo_log_ports_def)
  have v: "confirms id demo_log_ports"
    unfolding confirms_def demo_log_ports_def by (auto simp: act_ret_def)
  have "mp_split demo_log_ports ''ab'' = [''a'', ''b'']" by (simp add: demo_log_ports_def)
  with segments_are_accounted_for [OF p v r] r show ?thesis by auto
qed

definition demo_attempt :: "(delivery_exn + delivery_report) \<times> nat" where
  "demo_attempt = deliver_attempt demo_message_ports True ''ab'' demo_message_context (Some demo_ordinary_turn) 0"

theorem ordinary_turn_is_settled_with_its_report_witness:
  "\<exists>m r v y. fst demo_attempt = Inl (Failure m r) \<and>
     mp_settle demo_message_ports demo_ordinary_turn (summary_of r) v = (y, snd demo_attempt)"
proof -
  have "\<exists>e. fst demo_attempt = Inl e"
    using demo_segments_fail
    by (auto simp: demo_attempt_def deliver_attempt_def deliver_body_def Let_def when_d_def)
      (auto simp: demo_message_defs finishOrdinary_def)
  then obtain e where e: "deliver_attempt demo_message_ports True ''ab'' demo_message_context (Some demo_ordinary_turn) 0
      = (Inl e, snd demo_attempt)" "fst demo_attempt = Inl e"
    by (auto simp: demo_attempt_def prod_eq_iff)
  have "t_policy demo_ordinary_turn = Single_pass" "mp_durable demo_message_ports"
    by (simp_all add: demo_ordinary_turn_def demo_message_ports_def)
  from ordinary_turn_is_settled_with_its_report [OF e(1) this] e(2) show ?thesis by auto
qed

end
