(* ===== verification/TouchLedger.thy ===== *)
theory TouchLedger
  imports RedisLease "HOL-Library.Sublist"
begin

text \<open>
  \<open>src/agent/reengagement/touch-ledger.service.ts\<close> with \<open>touch-ledger.types.ts\<close>: the ledger in Redis of what was
  sent to a candidate on the agent's own initiative.  A slot for each touch keeps a touch from being sent
  twice; a list of times for each session limits how often a candidate is touched, and the time of the
  last touch keeps touches apart.

  The Redis server is a parameter as in \<open>RedisLease\<close>; here the keys expire, so each command is given the
  server's time, and \<open>look\<close> shows the value of a key with the instant at which it expires.  A value is
  what the client reads back, a text or a number.
\<close>

section \<open>The server\<close>

datatype touch_value = TText string | TNum int
datatype redis_value = Single touch_value | Many "touch_value list"

record 's touch_commands =
  tc_get :: "string \<Rightarrow> 's \<Rightarrow> touch_value option"
  tc_lrange :: "string \<Rightarrow> 's \<Rightarrow> touch_value list"
  tc_setnx :: "int \<Rightarrow> string \<Rightarrow> touch_value \<Rightarrow> int \<Rightarrow> 's \<Rightarrow> bool \<times> 's"
  tc_setex :: "int \<Rightarrow> string \<Rightarrow> touch_value \<Rightarrow> int \<Rightarrow> 's \<Rightarrow> 's"
  tc_rpush :: "string \<Rightarrow> touch_value \<Rightarrow> 's \<Rightarrow> 's"
  tc_expire :: "int \<Rightarrow> string \<Rightarrow> int \<Rightarrow> 's \<Rightarrow> 's"
  tc_tick :: "int \<Rightarrow> 's \<Rightarrow> 's"

record 's touch_service =
  ts_cmds :: "'s touch_commands"
  ts_prefix :: string

text \<open>One command or script; what has expired by then is gone.\<close>

definition touch_call :: "'s touch_service \<Rightarrow> (int \<Rightarrow> 's \<Rightarrow> 'a \<times> 's) \<Rightarrow> (('s, 'x) redis_world_scheme, 'a) act" where
  "touch_call R f w =
     (case net_arrive w of (ft, w1) \<Rightarrow>
        (let s0 = tc_tick (ts_cmds R) (time_ms w1) (server w1) in
         case f (time_ms w1) s0 of (v, s) \<Rightarrow>
           (case ft of
              Delivered \<Rightarrow> (Inr v, w1\<lparr>server := s\<rparr>)
            | Request_lost \<Rightarrow> (Inl ''redis request failed'', w1\<lparr>server := s0\<rparr>)
            | Answer_lost \<Rightarrow> (Inl ''redis request failed'', w1\<lparr>server := s\<rparr>))))"

definition touch_key :: "'s touch_service \<Rightarrow> string \<Rightarrow> string" where
  "touch_key R key = ts_prefix R @ key"

section \<open>TouchLedgerService\<close>

datatype slot_state = Slot_reserved | Slot_attempted | Slot_sent | Slot_failed | Slot_unknown

fun slot_text :: "slot_state \<Rightarrow> string" where
  "slot_text Slot_reserved = ''reserved''"
| "slot_text Slot_attempted = ''delivery_attempted''"
| "slot_text Slot_sent = ''sent''"
| "slot_text Slot_failed = ''failed''"
| "slot_text Slot_unknown = ''unknown''"

datatype reserve_result = Reserved | Duplicate_sent | Duplicate_inflight

definition SLOT_TTL_S :: int where "SLOT_TTL_S = 3 * 24 * 60 * 60"
definition FREQ_WINDOW_MS :: int where "FREQ_WINDOW_MS = 24 * 60 * 60 * 1000"
definition SESSION_TOUCH_COOLDOWN_MS :: int where "SESSION_TOUCH_COOLDOWN_MS = 2 * 60 * 60 * 1000"
definition MAX_TOUCHES_PER_24H :: nat where "MAX_TOUCHES_PER_24H = 2"

definition slotKey :: "string \<Rightarrow> string" where "slotKey key = ''reengagement:touch:'' @ key"
definition sentListKey :: "string \<Rightarrow> string" where "sentListKey sess = ''reengagement:sent:'' @ sess"
definition lastTouchKey :: "string \<Rightarrow> string" where "lastTouchKey sess = ''reengagement:lastTouch:'' @ sess"
definition countedKey :: "string \<Rightarrow> string" where "countedKey key = slotKey key @ '':counted''"

definition acquireOnce :: "'s touch_service \<Rightarrow> string \<Rightarrow> int \<Rightarrow> (('s, 'x) redis_world_scheme, bool) act" where
  "acquireOnce R key ttl =
     act_catch (touch_call R (\<lambda>now. tc_setnx (ts_cmds R) now (touch_key R (''reengagement:once:'' @ key)) (TText ''1'') ttl))
       (\<lambda>_. act_ret False)"

definition getState :: "'s touch_service \<Rightarrow> string \<Rightarrow> (('s, 'x) redis_world_scheme, touch_value option) act" where
  "getState R key = touch_call R (\<lambda>now s. (tc_get (ts_cmds R) (touch_key R (slotKey key)) s, s))"

definition reserve :: "'s touch_service \<Rightarrow> string \<Rightarrow> (('s, 'x) redis_world_scheme, reserve_result) act" where
  "reserve R key =
     act_bind (touch_call R (\<lambda>now. tc_setnx (ts_cmds R) now (touch_key R (slotKey key)) (TText (slot_text Slot_reserved)) SLOT_TTL_S))
       (\<lambda>ok. if ok then act_ret Reserved
             else act_bind (getState R key) (\<lambda>v.
               act_ret (if v = Some (TText (slot_text Slot_sent)) then Duplicate_sent else Duplicate_inflight)))"

definition set_slot :: "'s touch_service \<Rightarrow> string \<Rightarrow> slot_state \<Rightarrow> int \<Rightarrow> 's \<Rightarrow> 's" where
  "set_slot R key st now s = tc_setex (ts_cmds R) now (touch_key R (slotKey key)) (TText (slot_text st)) SLOT_TTL_S s"

definition markDeliveryAttempted :: "'s touch_service \<Rightarrow> string \<Rightarrow> (('s, 'x) redis_world_scheme, unit) act" where
  "markDeliveryAttempted R key = touch_call R (\<lambda>now s. ((), set_slot R key Slot_attempted now s))"

text \<open>The Lua script of \<open>markSent\<close>.  The key of the last touch only ever holds a number, so \<open>tonumber\<close> succeeds.\<close>

definition sent_script :: "'s touch_service \<Rightarrow> string \<Rightarrow> string \<Rightarrow> int \<Rightarrow> int \<Rightarrow> 's \<Rightarrow> 's" where
  "sent_script R key sess at now s =
     (let C = ts_cmds R; s1 = set_slot R key Slot_sent now s in
      case tc_setnx C now (touch_key R (countedKey key)) (TText ''1'') SLOT_TTL_S s1 of (fresh, s2) \<Rightarrow>
        (let s3 = (if fresh then tc_rpush C (touch_key R (sentListKey sess)) (TNum at) s2 else s2);
             s4 = tc_expire C now (touch_key R (sentListKey sess)) (FREQ_WINDOW_MS div 1000 * 2) s3;
             previous = (case tc_get C (touch_key R (lastTouchKey sess)) s4 of Some (TNum n) \<Rightarrow> n | _ \<Rightarrow> 0)
         in if previous < at
            then tc_setex C now (touch_key R (lastTouchKey sess)) (TNum at) (SESSION_TOUCH_COOLDOWN_MS div 1000 * 2) s4
            else s4))"

definition markSent :: "'s touch_service \<Rightarrow> string \<Rightarrow> string \<Rightarrow> int \<Rightarrow> (('s, 'x) redis_world_scheme, unit) act" where
  "markSent R key sess at = touch_call R (\<lambda>now s. ((), sent_script R key sess at now s))"

definition markFailedOrUnknown :: "'s touch_service \<Rightarrow> string \<Rightarrow> bool \<Rightarrow> (('s, 'x) redis_world_scheme, unit) act" where
  "markFailedOrUnknown R key failed =
     touch_call R (\<lambda>now s. ((), set_slot R key (if failed then Slot_failed else Slot_unknown) now s))"

text \<open>\<open>Number(v)\<close>; a text is no number, which \<open>Number.isFinite\<close> drops.\<close>

fun to_number :: "touch_value \<Rightarrow> int option" where
  "to_number (TNum n) = Some n"
| "to_number (TText s) = None"

definition in_window :: "int \<Rightarrow> touch_value list \<Rightarrow> nat" where
  "in_window now vs = length (filter (\<lambda>v. case to_number v of None \<Rightarrow> False | Some n \<Rightarrow> now - FREQ_WINDOW_MS \<le> n) vs)"

definition countSentIn24h :: "'s touch_service \<Rightarrow> string \<Rightarrow> int \<Rightarrow> (('s, 'x) redis_world_scheme, nat) act" where
  "countSentIn24h R sess now =
     act_bind (touch_call R (\<lambda>_ s. (tc_lrange (ts_cmds R) (touch_key R (sentListKey sess)) s, s)))
       (\<lambda>raw. act_ret (in_window now raw))"

definition isOverFrequencyLimit :: "'s touch_service \<Rightarrow> string \<Rightarrow> int \<Rightarrow> (('s, 'x) redis_world_scheme, bool) act" where
  "isOverFrequencyLimit R sess now = act_bind (countSentIn24h R sess now) (\<lambda>n. act_ret (MAX_TOUCHES_PER_24H \<le> n))"

text \<open>\<open>Number(null)\<close> is 0, so a session without a touch has the last touch 0.\<close>

definition last_touch_of :: "touch_value option \<Rightarrow> int option" where
  "last_touch_of raw = (case raw of None \<Rightarrow> Some 0 | Some v \<Rightarrow> to_number v)"

definition getLastTouchAt :: "'s touch_service \<Rightarrow> string \<Rightarrow> (('s, 'x) redis_world_scheme, int option) act" where
  "getLastTouchAt R sess =
     act_bind (touch_call R (\<lambda>_ s. (tc_get (ts_cmds R) (touch_key R (lastTouchKey sess)) s, s))) (\<lambda>raw. act_ret (last_touch_of raw))"

definition markLastTouch :: "'s touch_service \<Rightarrow> string \<Rightarrow> int \<Rightarrow> (('s, 'x) redis_world_scheme, unit) act" where
  "markLastTouch R sess at = touch_call R (\<lambda>now s. ((), tc_setex (ts_cmds R) now (touch_key R (lastTouchKey sess)) (TNum at)
     (SESSION_TOUCH_COOLDOWN_MS div 1000 * 2) s))"

definition cooling :: "int \<Rightarrow> int option \<Rightarrow> int option \<Rightarrow> bool" where
  "cooling now prev replied =
     (case prev of None \<Rightarrow> False
      | Some l \<Rightarrow> \<not> (SESSION_TOUCH_COOLDOWN_MS \<le> now - l) \<and> (case replied of None \<Rightarrow> True | Some r \<Rightarrow> \<not> (l < r)))"

definition isInSessionTouchCooldown :: "'s touch_service \<Rightarrow> string \<Rightarrow> int \<Rightarrow> int option
    \<Rightarrow> (('s, 'x) redis_world_scheme, bool) act" where
  "isInSessionTouchCooldown R sess now replied =
     act_bind (getLastTouchAt R sess) (\<lambda>prev. act_ret (cooling now prev replied))"

section \<open>What Redis documents\<close>

locale touch_redis =
  fixes C :: "'s touch_commands" and look :: "'s \<Rightarrow> string \<Rightarrow> (redis_value \<times> int option) option"
  assumes get: "tc_get C k s = (case look s k of Some (Single v, _) \<Rightarrow> Some v | _ \<Rightarrow> None)"
    and lrange: "tc_lrange C k s = (case look s k of Some (Many vs, _) \<Rightarrow> vs | _ \<Rightarrow> [])"
    and setex: "look (tc_setex C now k v sec s) k' =
      (if k' = k then Some (Single v, Some (now + sec * 1000)) else look s k')"
    and setnx: "tc_setnx C now k v sec s = (ok, s') \<Longrightarrow> ok = (look s k = None)"
    and setnx_look: "tc_setnx C now k v sec s = (ok, s') \<Longrightarrow> look s' k' =
      (if ok \<and> k' = k then Some (Single v, Some (now + sec * 1000)) else look s k')"
    and rpush: "\<forall>x e. look s k \<noteq> Some (Single x, e) \<Longrightarrow> look (tc_rpush C k v s) k' =
      (if k' = k then (case look s k of Some (Many vs, e) \<Rightarrow> Some (Many (vs @ [v]), e) | _ \<Rightarrow> Some (Many [v], None))
       else look s k')"
    and expire: "look (tc_expire C now k sec s) k' =
      (if k' = k then map_option (\<lambda>(v, _). (v, Some (now + sec * 1000))) (look s k) else look s k')"
    and tick: "look (tc_tick C now s) k =
      (case look s k of Some (v, Some e) \<Rightarrow> if e \<le> now then None else Some (v, Some e) | x \<Rightarrow> x)"
begin

lemmas look_simps = setex expire tick

lemma setnx_eq: "tc_setnx C now k v sec s = (look s k = None, snd (tc_setnx C now k v sec s))"
  by (cases "tc_setnx C now k v sec s") (simp add: setnx)

lemma look_setnx: "look (snd (tc_setnx C now k v sec s)) k' =
    (if look s k = None \<and> k' = k then Some (Single v, Some (now + sec * 1000)) else look s k')"
  using setnx_look [OF setnx_eq] by simp

end

text \<open>The instance: a map from keys to values with their expiry.\<close>

definition timed_commands :: "(string \<Rightarrow> (redis_value \<times> int option) option) touch_commands" where
  "timed_commands = \<lparr>
     tc_get = (\<lambda>k m. case m k of Some (Single v, _) \<Rightarrow> Some v | _ \<Rightarrow> None),
     tc_lrange = (\<lambda>k m. case m k of Some (Many vs, _) \<Rightarrow> vs | _ \<Rightarrow> []),
     tc_setnx = (\<lambda>now k v sec m. if m k = None then (True, m(k \<mapsto> (Single v, Some (now + sec * 1000)))) else (False, m)),
     tc_setex = (\<lambda>now k v sec m. m(k \<mapsto> (Single v, Some (now + sec * 1000)))),
     tc_rpush = (\<lambda>k v m. m(k := (case m k of Some (Many vs, e) \<Rightarrow> Some (Many (vs @ [v]), e)
        | Some (Single x, e) \<Rightarrow> Some (Single x, e) | None \<Rightarrow> Some (Many [v], None)))),
     tc_expire = (\<lambda>now k sec m. m(k := map_option (\<lambda>(v, _). (v, Some (now + sec * 1000))) (m k))),
     tc_tick = (\<lambda>now m k. case m k of Some (v, Some e) \<Rightarrow> if e \<le> now then None else Some (v, Some e) | x \<Rightarrow> x)\<rparr>"

interpretation timed_redis: touch_redis timed_commands "\<lambda>m. m"
  by unfold_locales (auto simp: timed_commands_def split: if_splits option.splits redis_value.splits)

section \<open>The ledger after a history of calls\<close>

text \<open>The calls that reached the server, the newest first, each with the server's time.\<close>

datatype touch_op =
    Op_reserve string
  | Op_slot string slot_state
  | Op_sent string string int

fun touch_apply :: "'s touch_service \<Rightarrow> int \<Rightarrow> touch_op \<Rightarrow> 's \<Rightarrow> 's" where
  "touch_apply R now (Op_reserve key) s =
     snd (tc_setnx (ts_cmds R) now (touch_key R (slotKey key)) (TText (slot_text Slot_reserved)) SLOT_TTL_S s)"
| "touch_apply R now (Op_slot key st) s = set_slot R key st now s"
| "touch_apply R now (Op_sent key sess t) s = sent_script R key sess t now s"

fun ledger_after :: "'s touch_service \<Rightarrow> 's \<Rightarrow> (int \<times> touch_op) list \<Rightarrow> 's" where
  "ledger_after R s0 [] = s0"
| "ledger_after R s0 ((at, op) # h) = touch_apply R at op (tc_tick (ts_cmds R) at (ledger_after R s0 h))"

text \<open>Times do not decrease, a touch is sent no later than it is recorded, and no key is the key of
  another's marker.\<close>

definition plain_touch :: "string \<Rightarrow> bool" where
  "plain_touch key \<longleftrightarrow> \<not> suffix '':counted'' key"

fun op_ok :: "int \<Rightarrow> touch_op \<Rightarrow> bool" where
  "op_ok now (Op_reserve key) = plain_touch key"
| "op_ok now (Op_slot key st) = plain_touch key"
| "op_ok now (Op_sent key sess t) = (plain_touch key \<and> 0 < t \<and> t \<le> now)"

fun orderly :: "int \<Rightarrow> (int \<times> touch_op) list \<Rightarrow> bool" where
  "orderly now [] = True"
| "orderly now ((at, op) # h) = (at \<le> now \<and> op_ok at op \<and> orderly at h)"

text \<open>What the history says, without a server: the confirmations that count (one of a key within three
  days), the times of a session, and the state of a slot with the time it was set.\<close>

definition SLOT_MS :: int where "SLOT_MS = 3 * 24 * 60 * 60 * 1000"

definition still_counted :: "int \<Rightarrow> string \<Rightarrow> (int \<times> string \<times> string \<times> int) list \<Rightarrow> bool" where
  "still_counted at key cs \<longleftrightarrow> (\<exists>(a, k, _) \<in> set cs. k = key \<and> at < a + SLOT_MS)"

fun counted :: "(int \<times> touch_op) list \<Rightarrow> (int \<times> string \<times> string \<times> int) list" where
  "counted [] = []"
| "counted ((at, Op_sent key sess t) # h) =
     (if still_counted at key (counted h) then counted h else (at, key, sess, t) # counted h)"
| "counted (_ # h) = counted h"

definition touched_at :: "string \<Rightarrow> (int \<times> touch_op) list \<Rightarrow> int set" where
  "touched_at sess h = {t. \<exists>at key. (at, Op_sent key sess t) \<in> set h}"

fun slot_of :: "string \<Rightarrow> (int \<times> touch_op) list \<Rightarrow> (int \<times> slot_state) option" where
  "slot_of key [] = None"
| "slot_of key ((at, Op_reserve k) # h) =
     (if k \<noteq> key then slot_of key h
      else case slot_of key h of
          Some (a, st) \<Rightarrow> if at < a + SLOT_MS then Some (a, st) else Some (at, Slot_reserved)
        | None \<Rightarrow> Some (at, Slot_reserved))"
| "slot_of key ((at, Op_slot k st) # h) = (if k = key then Some (at, st) else slot_of key h)"
| "slot_of key ((at, Op_sent k _ _) # h) = (if k = key then Some (at, Slot_sent) else slot_of key h)"

section \<open>The server agrees with the history\<close>

lemma touch_keys [simp]:
  "touch_key R (slotKey k) = touch_key R (slotKey k') \<longleftrightarrow> k = k'"
  "touch_key R (countedKey k) = touch_key R (countedKey k') \<longleftrightarrow> k = k'"
  "touch_key R (sentListKey k) = touch_key R (sentListKey k') \<longleftrightarrow> k = k'"
  "touch_key R (lastTouchKey k) = touch_key R (lastTouchKey k') \<longleftrightarrow> k = k'"
  "touch_key R (slotKey k) \<noteq> touch_key R (sentListKey k')" "touch_key R (sentListKey k') \<noteq> touch_key R (slotKey k)"
  "touch_key R (slotKey k) \<noteq> touch_key R (lastTouchKey k')" "touch_key R (lastTouchKey k') \<noteq> touch_key R (slotKey k)"
  "touch_key R (countedKey k) \<noteq> touch_key R (sentListKey k')" "touch_key R (sentListKey k') \<noteq> touch_key R (countedKey k)"
  "touch_key R (countedKey k) \<noteq> touch_key R (lastTouchKey k')" "touch_key R (lastTouchKey k') \<noteq> touch_key R (countedKey k)"
  "touch_key R (sentListKey k) \<noteq> touch_key R (lastTouchKey k')" "touch_key R (lastTouchKey k') \<noteq> touch_key R (sentListKey k)"
  by (auto simp: touch_key_def slotKey_def countedKey_def sentListKey_def lastTouchKey_def)

lemma plain_touch_key [simp]:
  "plain_touch k \<Longrightarrow> touch_key R (slotKey k) \<noteq> touch_key R (countedKey k')"
  "plain_touch k \<Longrightarrow> touch_key R (countedKey k') \<noteq> touch_key R (slotKey k)"
  by (auto simp: touch_key_def slotKey_def countedKey_def plain_touch_def suffix_def)

definition session_times :: "string \<Rightarrow> (int \<times> touch_op) list \<Rightarrow> int list" where
  "session_times sess h = map (\<lambda>(_, _, _, t). t) (rev (filter (\<lambda>(_, _, x, _). x = sess) (counted h)))"

definition list_tells :: "(redis_value \<times> int option) option \<Rightarrow> int \<Rightarrow> int list \<Rightarrow> bool" where
  "list_tells v now ts = (case v of None \<Rightarrow> \<forall>t \<in> set ts. t + 2 * FREQ_WINDOW_MS \<le> now
     | Some (Many vs, Some e) \<Rightarrow> \<exists>old l. ts = old @ l \<and> vs = List.map TNum l \<and>
         (\<forall>t \<in> set old. t + 2 * FREQ_WINDOW_MS \<le> now) \<and> (\<forall>t \<in> set l. t + 2 * FREQ_WINDOW_MS \<le> e)
     | _ \<Rightarrow> False)"

definition marker_tells :: "(redis_value \<times> int option) option \<Rightarrow> int \<Rightarrow> int set \<Rightarrow> bool" where
  "marker_tells v now ats = (case v of None \<Rightarrow> \<forall>a \<in> ats. a + SLOT_MS \<le> now
     | Some (_, Some e) \<Rightarrow> e - SLOT_MS \<in> ats \<and> (\<forall>a \<in> ats. a + SLOT_MS \<le> e) | Some (_, None) \<Rightarrow> False)"

definition last_tells :: "(redis_value \<times> int option) option \<Rightarrow> int \<Rightarrow> int set \<Rightarrow> bool" where
  "last_tells v now ts = (case v of None \<Rightarrow> \<forall>t \<in> ts. t + 2 * SESSION_TOUCH_COOLDOWN_MS \<le> now
     | Some (Single (TNum n), Some e) \<Rightarrow> n \<in> ts \<and> n + 2 * SESSION_TOUCH_COOLDOWN_MS \<le> e \<and>
         (\<forall>t \<in> ts. t \<le> n \<or> t + 2 * SESSION_TOUCH_COOLDOWN_MS \<le> now)
     | _ \<Rightarrow> False)"

definition slot_tells :: "(redis_value \<times> int option) option \<Rightarrow> int \<Rightarrow> (int \<times> slot_state) option \<Rightarrow> bool" where
  "slot_tells v now x = (case v of None \<Rightarrow> (case x of None \<Rightarrow> True | Some (a, _) \<Rightarrow> a + SLOT_MS \<le> now)
     | Some (y, e) \<Rightarrow> \<exists>a st. x = Some (a, st) \<and> y = Single (TText (slot_text st)) \<and> e = Some (a + SLOT_MS))"

definition ticked :: "int \<Rightarrow> (redis_value \<times> int option) option \<Rightarrow> (redis_value \<times> int option) option" where
  "ticked now v = (case v of Some (x, Some e) \<Rightarrow> if e \<le> now then None else Some (x, Some e) | x \<Rightarrow> x)"

lemma tells_ticked:
  assumes "now \<le> now'"
  shows "list_tells v now ts \<Longrightarrow> list_tells (ticked now' v) now' ts"
    "marker_tells v now as \<Longrightarrow> marker_tells (ticked now' v) now' as"
    "last_tells v now ts' \<Longrightarrow> last_tells (ticked now' v) now' ts'"
    "slot_tells v now x \<Longrightarrow> slot_tells (ticked now' v) now' x"
proof -
  show "list_tells v now ts \<Longrightarrow> list_tells (ticked now' v) now' ts"
    using assms by (fastforce simp: list_tells_def ticked_def split: option.splits redis_value.splits prod.splits)
  show "marker_tells v now as \<Longrightarrow> marker_tells (ticked now' v) now' as"
    using assms by (fastforce simp: marker_tells_def ticked_def split: option.splits prod.splits)
  show "last_tells v now ts' \<Longrightarrow> last_tells (ticked now' v) now' ts'"
    using assms by (fastforce simp: last_tells_def ticked_def split: option.splits redis_value.splits touch_value.splits prod.splits)
  show "slot_tells v now x \<Longrightarrow> slot_tells (ticked now' v) now' x"
    using assms by (fastforce simp: slot_tells_def ticked_def split: option.splits prod.splits)
qed

definition counted_at :: "string \<Rightarrow> (int \<times> touch_op) list \<Rightarrow> int set" where
  "counted_at key h = {a. \<exists>sess t. (a, key, sess, t) \<in> set (counted h)}"

definition ledger_tells :: "'s touch_service \<Rightarrow> ('s \<Rightarrow> string \<Rightarrow> (redis_value \<times> int option) option) \<Rightarrow> 's \<Rightarrow> int
    \<Rightarrow> (int \<times> touch_op) list \<Rightarrow> bool" where
  "ledger_tells R look s now h \<longleftrightarrow>
     (\<forall>sess. list_tells (look s (touch_key R (sentListKey sess))) now (session_times sess h)) \<and>
     (\<forall>key. plain_touch key \<longrightarrow> marker_tells (look s (touch_key R (countedKey key))) now (counted_at key h)) \<and>
     (\<forall>sess. last_tells (look s (touch_key R (lastTouchKey sess))) now (touched_at sess h)) \<and>
     (\<forall>key. plain_touch key \<longrightarrow> slot_tells (look s (touch_key R (slotKey key))) now (slot_of key h))"

definition listed :: "touch_value list \<Rightarrow> (redis_value \<times> int option) option \<Rightarrow> touch_value list" where
  "listed new v = (case v of Some (Many vs, _) \<Rightarrow> vs @ new | _ \<Rightarrow> new)"

lemma list_tells_more:
  "list_tells v now ts \<Longrightarrow> \<forall>t \<in> set ts. t \<le> now \<Longrightarrow> t \<le> now \<Longrightarrow>
     list_tells (Some (Many (listed [TNum t] v), Some (now + 2 * FREQ_WINDOW_MS))) now (ts @ [t])"
proof -
  assume v: "list_tells v now ts" and le: "\<forall>t \<in> set ts. t \<le> now" "t \<le> now"
  obtain old l where ol: "ts = old @ l" "listed [TNum t] v = List.map TNum (l @ [t])" "\<forall>t \<in> set old. t + 2 * FREQ_WINDOW_MS \<le> now"
  proof (cases v)
    case None
    with v show ?thesis by (intro that [of ts "[]"]) (auto simp: list_tells_def listed_def)
  next
    case (Some x)
    then obtain vs e where x: "v = Some (Many vs, Some e)"
      using v by (cases x) (auto simp: list_tells_def split: redis_value.splits option.splits)
    with v that show ?thesis by (auto simp: list_tells_def listed_def)
  qed
  have "\<forall>u \<in> set (l @ [t]). u + 2 * FREQ_WINDOW_MS \<le> now + 2 * FREQ_WINDOW_MS" using le ol(1) by auto
  with ol show ?thesis by (simp add: list_tells_def) (rule exI [of _ old], rule exI [of _ "l @ [t]"], simp)
qed

lemma list_tells_renewed:
  "list_tells v now ts \<Longrightarrow> \<forall>t \<in> set ts. t \<le> now \<Longrightarrow>
     list_tells (map_option (\<lambda>(v, _). (v, Some (now + 2 * FREQ_WINDOW_MS))) v) now ts"
  by (fastforce simp: list_tells_def split: option.splits redis_value.splits prod.splits)

lemma marker_tells_free:
  "marker_tells (ticked now v) now as \<Longrightarrow> ticked now v = None \<longleftrightarrow> \<not> (\<exists>a \<in> as. now < a + SLOT_MS)"
  by (fastforce simp: marker_tells_def ticked_def split: option.splits prod.splits if_splits)

lemma marker_tells_set:
  "marker_tells None now as \<Longrightarrow> marker_tells (Some (x, Some (now + SLOT_MS))) now (insert now as)"
  by (fastforce simp: marker_tells_def SLOT_MS_def)

lemma last_tells_set:
  assumes "last_tells v now ts" and "0 < t" and "t \<le> now"
  shows "last_tells (if (case v of Some (Single (TNum n), _) \<Rightarrow> n | _ \<Rightarrow> 0) < t
      then Some (Single (TNum t), Some (now + 2 * SESSION_TOUCH_COOLDOWN_MS)) else v) now (insert t ts)"
  using assms by (fastforce simp: last_tells_def split: option.splits redis_value.splits touch_value.splits prod.splits)

lemma slot_tells_ticked:
  "slot_tells (ticked now v) now x \<Longrightarrow> ticked now v = None \<longleftrightarrow> (case x of None \<Rightarrow> True | Some (a, _) \<Rightarrow> a + SLOT_MS \<le> now)"
  by (auto simp: slot_tells_def ticked_def split: option.splits prod.splits if_splits)

lemma session_times_other [simp]:
  "session_times sess ((at, Op_reserve k) # h) = session_times sess h"
  "session_times sess ((at, Op_slot k st) # h) = session_times sess h"
  "counted_at key ((at, Op_reserve k) # h) = counted_at key h"
  "counted_at key ((at, Op_slot k st) # h) = counted_at key h"
  "touched_at sess ((at, Op_reserve k) # h) = touched_at sess h"
  "touched_at sess ((at, Op_slot k st) # h) = touched_at sess h"
  "touched_at sess ((at, Op_sent k x t) # h) = (if x = sess then insert t (touched_at sess h) else touched_at sess h)"
  by (auto simp: session_times_def counted_at_def touched_at_def)

lemma counted_sent:
  "\<exists>a \<in> counted_at k h. at < a + SLOT_MS \<Longrightarrow> counted ((at, Op_sent k x t) # h) = counted h"
  "\<not> (\<exists>a \<in> counted_at k h. at < a + SLOT_MS) \<Longrightarrow> counted ((at, Op_sent k x t) # h) = (at, k, x, t) # counted h"
  by (force simp: counted_at_def still_counted_def)+

lemma orderly_counted: "orderly now h \<Longrightarrow> (a, k, x, t) \<in> set (counted h) \<Longrightarrow> t \<le> a \<and> a \<le> now \<and> 0 < t \<and> plain_touch k"
proof (induction h arbitrary: now)
  case (Cons c h)
  obtain at op where c: "c = (at, op)" by (cases c)
  with Cons show ?case by (cases op) (force split: if_splits)+
qed simp

lemma orderly_session_times: "orderly now h \<Longrightarrow> t \<in> set (session_times sess h) \<Longrightarrow> t \<le> now"
  by (force simp: session_times_def dest: orderly_counted)

lemma orderly_later: "orderly now h \<Longrightarrow> now \<le> now' \<Longrightarrow> orderly now' h"
  by (cases h) auto

context touch_redis begin

lemma look_tick: "look (tc_tick C now s) k = ticked now (look s k)"
  by (simp add: tick ticked_def)

lemma ledger_tells_tick:
  assumes "ts_cmds R = C" and "now \<le> now'" and "ledger_tells R look s now h"
  shows "ledger_tells R look (tc_tick C now' s) now' h"
  using assms(3) unfolding ledger_tells_def look_tick by (blast intro: tells_ticked [OF assms(2)])

lemma look_set_slot: "ts_cmds R = C \<Longrightarrow> look (set_slot R key st now s) k =
    (if k = touch_key R (slotKey key) then Some (Single (TText (slot_text st)), Some (now + SLOT_MS)) else look s k)"
  by (simp add: set_slot_def setex SLOT_TTL_S_def SLOT_MS_def)

text \<open>What the script of \<open>markSent\<close> leaves under the four kinds of keys.\<close>

lemma look_sent:
  fixes now t :: int
  assumes C: "ts_cmds R = C" and "plain_touch key" and single: "\<forall>x e. look s (touch_key R (sentListKey sess)) \<noteq> Some (Single x, e)"
  defines "s' \<equiv> sent_script R key sess t now s" and "free \<equiv> look s (touch_key R (countedKey key)) = None"
  shows "plain_touch k \<Longrightarrow> look s' (touch_key R (slotKey k)) =
      (if k = key then Some (Single (TText ''sent''), Some (now + SLOT_MS)) else look s (touch_key R (slotKey k)))"
    and "look s' (touch_key R (countedKey k)) =
      (if k = key \<and> free then Some (Single (TText ''1''), Some (now + SLOT_MS)) else look s (touch_key R (countedKey k)))"
    and "look s' (touch_key R (sentListKey x)) =
      (if x \<noteq> sess then look s (touch_key R (sentListKey x))
       else if free then Some (Many (listed [TNum t] (look s (touch_key R (sentListKey sess)))), Some (now + 2 * FREQ_WINDOW_MS))
       else map_option (\<lambda>(v, _). (v, Some (now + 2 * FREQ_WINDOW_MS))) (look s (touch_key R (sentListKey sess))))"
    and "look s' (touch_key R (lastTouchKey x)) =
      (if x = sess \<and> (case look s (touch_key R (lastTouchKey sess)) of Some (Single (TNum n), _) \<Rightarrow> n | _ \<Rightarrow> 0) < t
       then Some (Single (TNum t), Some (now + 2 * SESSION_TOUCH_COOLDOWN_MS)) else look s (touch_key R (lastTouchKey x)))"
proof -
  let ?L = "touch_key R (sentListKey sess)" and ?M = "touch_key R (countedKey key)" and ?T = "touch_key R (lastTouchKey sess)"
  define s1 where "s1 = set_slot R key Slot_sent now s"
  define s2 where "s2 = snd (tc_setnx C now ?M (TText ''1'') SLOT_TTL_S s1)"
  define s3 where "s3 = (if free then tc_rpush C ?L (TNum t) s2 else s2)"
  define s4 where "s4 = tc_expire C now ?L (FREQ_WINDOW_MS div 1000 * 2) s3"
  have l1: "look s1 k = (if k = touch_key R (slotKey key) then Some (Single (TText ''sent''), Some (now + SLOT_MS)) else look s k)" for k
    using C by (simp add: s1_def look_set_slot)
  have m1: "look s1 ?M = look s ?M" using assms(2) by (simp add: l1)
  have l2: "look s2 k = (if free \<and> k = ?M then Some (Single (TText ''1''), Some (now + SLOT_MS)) else look s1 k)" for k
    using m1 by (simp add: s2_def look_setnx free_def SLOT_TTL_S_def SLOT_MS_def)
  have n2: "look s2 ?L = look s ?L" by (simp add: l2 l1)
  have l3: "look s3 k = (if free \<and> k = ?L then
      (case look s ?L of Some (Many vs, e) \<Rightarrow> Some (Many (vs @ [TNum t]), e) | _ \<Rightarrow> Some (Many [TNum t], None)) else look s2 k)" for k
    using single n2 by (simp add: s3_def rpush)
  have n3: "look s3 ?L = (if free then (case look s ?L of Some (Many vs, e) \<Rightarrow> Some (Many (vs @ [TNum t]), e) | _ \<Rightarrow> Some (Many [TNum t], None)) else look s ?L)"
    by (simp add: l3 n2)
  have w: "now + FREQ_WINDOW_MS div 1000 * 2 * 1000 = now + 2 * FREQ_WINDOW_MS"
    "now + SESSION_TOUCH_COOLDOWN_MS div 1000 * 2 * 1000 = now + 2 * SESSION_TOUCH_COOLDOWN_MS"
    by (simp_all add: FREQ_WINDOW_MS_def SESSION_TOUCH_COOLDOWN_MS_def)
  have l4: "look s4 k = (if k = ?L then map_option (\<lambda>(v, _). (v, Some (now + 2 * FREQ_WINDOW_MS))) (look s3 ?L) else look s3 k)" for k
    unfolding s4_def expire w(1) ..
  have T4: "look s4 ?T = look s ?T" by (simp add: l4 l3 l2 l1)
  define prev where "prev = (case look s ?T of Some (Single (TNum n), _) \<Rightarrow> n | _ \<Rightarrow> 0)"
  have prev: "(case tc_get C ?T s4 of Some (TNum n) \<Rightarrow> n | _ \<Rightarrow> 0) = prev"
    by (simp add: get T4 prev_def split: option.splits redis_value.splits touch_value.splits prod.splits)
  have nx: "tc_setnx C now ?M (TText ''1'') SLOT_TTL_S s1 = (free, s2)"
    using setnx_eq [of now ?M "TText ''1''" SLOT_TTL_S s1] m1 by (simp add: free_def s2_def)
  have s': "s' = (if prev < t then tc_setex C now ?T (TNum t) (SESSION_TOUCH_COOLDOWN_MS div 1000 * 2) s4 else s4)"
    using nx prev by (simp only: s'_def sent_script_def Let_def C s1_def [symmetric] prod.case s3_def [symmetric] s4_def [symmetric])
  have l5: "look s' k = (if prev < t \<and> k = ?T then Some (Single (TNum t), Some (now + 2 * SESSION_TOUCH_COOLDOWN_MS)) else look s4 k)" for k
    unfolding s' by (simp only: setex w(2) if_distrib [of look] if_distribR split: if_split) simp
  show "plain_touch k \<Longrightarrow> look s' (touch_key R (slotKey k)) =
      (if k = key then Some (Single (TText ''sent''), Some (now + SLOT_MS)) else look s (touch_key R (slotKey k)))"
    by (simp add: l5 l4 l3 l2 l1)
  show "look s' (touch_key R (countedKey k)) =
      (if k = key \<and> free then Some (Single (TText ''1''), Some (now + SLOT_MS)) else look s (touch_key R (countedKey k)))"
    using assms(2) by (simp add: l5 l4 l3 l2 l1)
  show "look s' (touch_key R (sentListKey x)) =
      (if x \<noteq> sess then look s (touch_key R (sentListKey x))
       else if free then Some (Many (listed [TNum t] (look s ?L)), Some (now + 2 * FREQ_WINDOW_MS))
       else map_option (\<lambda>(v, _). (v, Some (now + 2 * FREQ_WINDOW_MS))) (look s ?L))"
    using n3 by (auto simp: l5 l4 l3 l2 l1 listed_def split: option.splits redis_value.splits)
  show "look s' (touch_key R (lastTouchKey x)) =
      (if x = sess \<and> (case look s ?T of Some (Single (TNum n), _) \<Rightarrow> n | _ \<Rightarrow> 0) < t
       then Some (Single (TNum t), Some (now + 2 * SESSION_TOUCH_COOLDOWN_MS)) else look s (touch_key R (lastTouchKey x)))"
    by (simp add: l5 l4 l3 l2 l1 prev_def)
qed

lemma ledger_tells_apply:
  assumes C: "ts_cmds R = C" and op: "op_ok now op" and h: "orderly now h"
    and inv: "ledger_tells R look (tc_tick C now s) now h"
  shows "ledger_tells R look (touch_apply R now op (tc_tick C now s)) now ((now, op) # h)"
proof (cases op)
  case (Op_slot key st)
  with op inv show ?thesis by (auto simp: ledger_tells_def look_set_slot [OF C] slot_tells_def)
next
  case (Op_reserve key)
  have "slot_tells (ticked now (look s (touch_key R (slotKey key)))) now (slot_of key h)"
    using inv op Op_reserve by (simp add: ledger_tells_def look_tick)
  from slot_tells_ticked [OF this] this
  show ?thesis
    using inv op Op_reserve C
    by (auto simp: ledger_tells_def look_setnx look_tick SLOT_TTL_S_def SLOT_MS_def slot_tells_def split: option.splits)
next
  case (Op_sent key sess t)
  let ?s = "tc_tick C now s"
  let ?s' = "sent_script R key sess t now ?s"
  have ok: "plain_touch key" "0 < t" "t \<le> now" using op Op_sent by simp_all
  have single: "\<forall>x e. look ?s (touch_key R (sentListKey sess)) \<noteq> Some (Single x, e)"
  proof (intro allI notI)
    fix x e assume e: "look ?s (touch_key R (sentListKey sess)) = Some (Single x, e)"
    have "list_tells (look ?s (touch_key R (sentListKey sess))) now (session_times sess h)"
      using inv by (simp add: ledger_tells_def)
    with e show False by (simp add: list_tells_def)
  qed
  note L = look_sent [OF C ok(1) single]
  have le: "\<forall>t \<in> set (session_times sess h). t \<le> now" using h orderly_session_times by blast
  have marker: "marker_tells (look ?s (touch_key R (countedKey key))) now (counted_at key h)"
    using inv ok(1) by (simp add: ledger_tells_def)
  let ?free = "look ?s (touch_key R (countedKey key)) = None"
  have free: "?free \<longleftrightarrow> \<not> (\<exists>a \<in> counted_at key h. now < a + SLOT_MS)"
    using marker_tells_free marker unfolding look_tick by blast
  let ?h = "(now, Op_sent key sess t) # h"
  have cnt: "counted ?h = (if ?free then (now, key, sess, t) # counted h else counted h)"
    using free counted_sent [of key h now sess t] by (auto simp del: counted.simps)
  have times: "session_times x ?h = (if x = sess \<and> ?free then session_times x h @ [t] else session_times x h)" for x
    unfolding session_times_def cnt by simp
  have at: "counted_at k ?h = (if k = key \<and> ?free then insert now (counted_at k h) else counted_at k h)" for k
    unfolding counted_at_def cnt by auto
  show ?thesis
    unfolding Op_sent touch_apply.simps ledger_tells_def
  proof (intro conjI allI impI)
    fix x
    have v: "list_tells (look ?s (touch_key R (sentListKey x))) now (session_times x h)"
      using inv by (simp add: ledger_tells_def)
    show "list_tells (look ?s' (touch_key R (sentListKey x))) now (session_times x ?h)"
      using v list_tells_more [OF _ le ok(3)] list_tells_renewed [OF _ le] unfolding L(3) times by auto
  next
    fix k assume "plain_touch k"
    then have v: "marker_tells (look ?s (touch_key R (countedKey k))) now (counted_at k h)"
      using inv by (simp add: ledger_tells_def)
    show "marker_tells (look ?s' (touch_key R (countedKey k))) now (counted_at k ?h)"
      using v marker marker_tells_set unfolding L(2) at by auto
  next
    fix x
    have v: "last_tells (look ?s (touch_key R (lastTouchKey x))) now (touched_at x h)"
      using inv by (simp add: ledger_tells_def)
    show "last_tells (look ?s' (touch_key R (lastTouchKey x))) now (touched_at x ?h)"
      using v last_tells_set [OF v ok(2,3)] unfolding L(4) by simp
  next
    fix k assume k: "plain_touch k"
    then have "slot_tells (look ?s (touch_key R (slotKey k))) now (slot_of k h)"
      using inv by (simp add: ledger_tells_def)
    then show "slot_tells (look ?s' (touch_key R (slotKey k))) now (slot_of k ?h)"
      unfolding L(1) [OF k] by (simp add: slot_tells_def)
  qed
qed

theorem ledger_tells_history:
  assumes C: "ts_cmds R = C" and empty: "\<forall>k. look s0 k = None" and "orderly now h"
  shows "ledger_tells R look (tc_tick C now (ledger_after R s0 h)) now h"
  using assms(3)
proof (induction h arbitrary: now)
  case Nil
  then show ?case
    using empty by (simp add: ledger_tells_def look_tick ticked_def list_tells_def marker_tells_def last_tells_def slot_tells_def
        session_times_def counted_at_def touched_at_def)
next
  case (Cons c h)
  obtain at op where c: "c = (at, op)" by (cases c)
  have "ledger_tells R look (tc_tick C at (ledger_after R s0 h)) at h" using Cons c by simp
  from ledger_tells_apply [OF C _ _ this] Cons.prems c
  have "ledger_tells R look (ledger_after R s0 (c # h)) at (c # h)" by (simp add: C)
  with Cons.prems c show ?case by (intro ledger_tells_tick [OF C]) simp_all
qed

end

section \<open>Properties\<close>

lemma touch_call_calm: "network w = [] \<Longrightarrow> touch_call R f w =
    (case f (time_ms w) (tc_tick (ts_cmds R) (time_ms w) (server w)) of (v, s) \<Rightarrow> (Inr v, w\<lparr>server := s\<rparr>))"
  by (simp add: touch_call_def net_arrive_def net_calm_def Let_def split: prod.splits)

lemma ledger_calm:
  assumes "touch_redis (ts_cmds R) look" and "\<forall>k. look s0 k = None"
    and "orderly (time_ms w) h" and "server w = ledger_after R s0 h"
  shows "ledger_tells R look (tc_tick (ts_cmds R) (time_ms w) (server w)) (time_ms w) h"
  using touch_redis.ledger_tells_history [OF assms(1) refl assms(2,3)] assms(4) by simp

text \<open>Within the window no key is counted twice: a marker outlives the window.\<close>

lemma counted_distinct:
  assumes "now < c + SLOT_MS"
  shows "orderly now h \<Longrightarrow> distinct (List.map (\<lambda>(_, k, _). k) (filter (\<lambda>(_, _, x, t). x = sess \<and> c \<le> t) (counted h)))"
proof (induction h)
  case (Cons p h)
  obtain at op where p: "p = (at, op)" by (cases p)
  have IH: "distinct (List.map (\<lambda>(_, k, _). k) (filter (\<lambda>(_, _, x, t). x = sess \<and> c \<le> t) (counted h)))"
    using Cons p orderly_later by auto
  show ?case
  proof (cases op)
    case (Op_sent key x t)
    have "(a, key, x', t') \<notin> set (counted h) \<or> t' < c" if "\<not> still_counted at key (counted h)" for a x' t'
    proof (rule ccontr)
      assume no: "\<not> ?thesis"
      then have "a + SLOT_MS \<le> at" using that by (force simp: still_counted_def)
      moreover have "t' \<le> a" using no orderly_counted [of at h a key x' t'] Cons.prems p by simp
      ultimately show False using no assms Cons.prems p by simp
    qed
    then have "key \<notin> (\<lambda>(_, k, _). k) ` {p \<in> set (counted h). case p of (_, _, x, t) \<Rightarrow> x = sess \<and> c \<le> t}"
      if "\<not> still_counted at key (counted h)" using that by fastforce
    with IH show ?thesis by (simp add: p Op_sent)
  qed (use IH p in simp_all)
qed simp

lemma in_window_times:
  "in_window now (List.map TNum l) = length (filter (\<lambda>t. now - FREQ_WINDOW_MS \<le> t) l)"
  by (simp add: in_window_def filter_map o_def)

lemma in_window_session:
  assumes "list_tells v now (session_times sess h)"
  shows "in_window now (case v of Some (Many vs, _) \<Rightarrow> vs | _ \<Rightarrow> []) =
    length (filter (\<lambda>(_, _, x, t). x = sess \<and> now - FREQ_WINDOW_MS \<le> t) (counted h))"
proof -
  have none: "filter (\<lambda>t. now - FREQ_WINDOW_MS \<le> t) ts = []" if "\<forall>t \<in> set ts. t + 2 * FREQ_WINDOW_MS \<le> now" for ts
    using that by (fastforce simp: filter_empty_conv FREQ_WINDOW_MS_def)
  have "in_window now (case v of Some (Many vs, _) \<Rightarrow> vs | _ \<Rightarrow> []) =
      length (filter (\<lambda>t. now - FREQ_WINDOW_MS \<le> t) (session_times sess h))"
  proof (cases v)
    case None
    with assms none show ?thesis by (simp add: list_tells_def in_window_def)
  next
    case (Some x)
    then obtain vs e where "v = Some (Many vs, Some e)"
      using assms by (cases x) (auto simp: list_tells_def split: redis_value.splits option.splits)
    with assms none show ?thesis by (auto simp: list_tells_def in_window_times)
  qed
  also have "\<dots> = length (filter (\<lambda>(_, _, x, t). x = sess \<and> now - FREQ_WINDOW_MS \<le> t) (counted h))"
    by (simp add: session_times_def filter_map rev_filter [symmetric] o_def split_beta' conj_commute)
  finally show ?thesis .
qed

text \<open>C21: A session is over its limit exactly when two different touches were confirmed to it within the last
  24 hours, whatever else the ledger recorded before; a touch confirmed twice counts once.\<close>

theorem frequency_limit_is_exact:
  assumes "touch_redis (ts_cmds R) look" and "\<forall>k. look s0 k = None" and "network w = []"
    and "orderly (time_ms w) h" and "server w = ledger_after R s0 h"
  shows "fst (isOverFrequencyLimit R sess (time_ms w) w) =
    Inr (2 \<le> card {key. \<exists>a t. (a, key, sess, t) \<in> set (counted h) \<and> time_ms w - FREQ_WINDOW_MS \<le> t})"
proof -
  let ?s = "tc_tick (ts_cmds R) (time_ms w) (server w)"
  let ?cs = "filter (\<lambda>(_, _, x, t). x = sess \<and> time_ms w - FREQ_WINDOW_MS \<le> t) (counted h)"
  have "list_tells (look ?s (touch_key R (sentListKey sess))) (time_ms w) (session_times sess h)"
    using ledger_calm [OF assms(1,2,4,5)] by (simp add: ledger_tells_def)
  from in_window_session [OF this]
  have "fst (countSentIn24h R sess (time_ms w) w) = Inr (length ?cs)"
    by (simp add: countSentIn24h_def act_bind_def act_ret_def touch_call_calm [OF assms(3)] touch_redis.lrange [OF assms(1)])
  moreover have "length ?cs = card ((\<lambda>(_, k, _). k) ` set ?cs)"
    using counted_distinct [OF _ assms(4), of "time_ms w - FREQ_WINDOW_MS" sess] distinct_card
    by (fastforce simp: SLOT_MS_def FREQ_WINDOW_MS_def)
  moreover have "(\<lambda>(_, k, _). k) ` set ?cs =
      {key. \<exists>a t. (a, key, sess, t) \<in> set (counted h) \<and> time_ms w - FREQ_WINDOW_MS \<le> t}"
    by force
  ultimately show ?thesis
    by (auto simp: isOverFrequencyLimit_def act_bind_def act_ret_def MAX_TOUCHES_PER_24H_def split: prod.splits sum.splits)
qed

text \<open>A session cools down exactly when a touch confirmed to it is less than two hours old and the candidate
  has not answered after it.\<close>

theorem cooldown_is_exact:
  assumes "touch_redis (ts_cmds R) look" and "\<forall>k. look s0 k = None" and "network w = []"
    and "orderly (time_ms w) h" and "server w = ledger_after R s0 h" and "SESSION_TOUCH_COOLDOWN_MS \<le> time_ms w"
  shows "fst (isInSessionTouchCooldown R sess (time_ms w) replied w) =
    Inr (\<exists>t \<in> touched_at sess h. time_ms w - t < SESSION_TOUCH_COOLDOWN_MS \<and> (case replied of None \<Rightarrow> True | Some r \<Rightarrow> r \<le> t))"
proof -
  let ?s = "tc_tick (ts_cmds R) (time_ms w) (server w)"
  let ?v = "look ?s (touch_key R (lastTouchKey sess))"
  have v: "last_tells ?v (time_ms w) (touched_at sess h)"
    using ledger_calm [OF assms(1,2,4,5)] by (simp add: ledger_tells_def)
  have "fst (isInSessionTouchCooldown R sess (time_ms w) replied w) =
      Inr (cooling (time_ms w) (last_touch_of (case ?v of Some (Single v, _) \<Rightarrow> Some v | _ \<Rightarrow> None)) replied)"
    by (simp add: isInSessionTouchCooldown_def getLastTouchAt_def act_bind_def act_ret_def touch_call_calm [OF assms(3)]
        touch_redis.get [OF assms(1)])
  also have "cooling (time_ms w) (last_touch_of (case ?v of Some (Single v, _) \<Rightarrow> Some v | _ \<Rightarrow> None)) replied \<longleftrightarrow>
      (\<exists>t \<in> touched_at sess h. time_ms w - t < SESSION_TOUCH_COOLDOWN_MS \<and> (case replied of None \<Rightarrow> True | Some r \<Rightarrow> r \<le> t))"
  proof (cases ?v)
    case None
    with v have "\<forall>t \<in> touched_at sess h. t + 2 * SESSION_TOUCH_COOLDOWN_MS \<le> time_ms w" by (simp add: last_tells_def)
    with None assms(6) show ?thesis by (force simp: last_touch_of_def cooling_def SESSION_TOUCH_COOLDOWN_MS_def)
  next
    case (Some x)
    then obtain n e where n: "?v = Some (Single (TNum n), Some e)" "n \<in> touched_at sess h"
        "\<forall>t \<in> touched_at sess h. t \<le> n \<or> t + 2 * SESSION_TOUCH_COOLDOWN_MS \<le> time_ms w"
      using v by (cases x) (auto simp: last_tells_def split: redis_value.splits touch_value.splits option.splits)
    let ?late = "\<lambda>t. case replied of None \<Rightarrow> True | Some r \<Rightarrow> r \<le> t"
    have "cooling (time_ms w) (Some n) replied \<longleftrightarrow> time_ms w - n < SESSION_TOUCH_COOLDOWN_MS \<and> ?late n"
      by (auto simp: cooling_def split: option.splits)
    moreover have "time_ms w - n < SESSION_TOUCH_COOLDOWN_MS \<and> ?late n"
      if "t \<in> touched_at sess h" "time_ms w - t < SESSION_TOUCH_COOLDOWN_MS" "?late t" for t
      using that n(3) by (fastforce simp: SESSION_TOUCH_COOLDOWN_MS_def split: option.splits)
    ultimately show ?thesis using n(1,2) by (auto simp: last_touch_of_def)
  qed
  finally show ?thesis .
qed

text \<open>Reserving a touch tells exactly what the slot went through: it is granted when the slot was never used
  or its last state is three days old, and otherwise the answer says whether it was sent.\<close>

theorem reserve_is_exact:
  assumes "touch_redis (ts_cmds R) look" and "\<forall>k. look s0 k = None" and "network w = []"
    and "orderly (time_ms w) h" and "server w = ledger_after R s0 h" and "plain_touch key"
  shows "fst (reserve R key w) = Inr (case slot_of key h of None \<Rightarrow> Reserved
    | Some (a, st) \<Rightarrow> if a + SLOT_MS \<le> time_ms w then Reserved
        else if st = Slot_sent then Duplicate_sent else Duplicate_inflight)"
proof -
  let ?C = "ts_cmds R" and ?k = "touch_key R (slotKey key)"
  let ?s = "tc_tick ?C (time_ms w) (server w)"
  let ?r = "TText (slot_text Slot_reserved)"
  have v: "slot_tells (look ?s ?k) (time_ms w) (slot_of key h)"
    using ledger_calm [OF assms(1,2,4,5)] assms(6) by (simp add: ledger_tells_def)
  have tick: "look ?s ?k = ticked (time_ms w) (look (server w) ?k)" by (rule touch_redis.look_tick [OF assms(1)])
  have free: "look ?s ?k = None \<longleftrightarrow> (case slot_of key h of None \<Rightarrow> True | Some (a, _) \<Rightarrow> a + SLOT_MS \<le> time_ms w)"
    using slot_tells_ticked v unfolding tick by blast
  obtain s2 where nx: "tc_setnx ?C (time_ms w) ?k ?r SLOT_TTL_S ?s = (look ?s ?k = None, s2)"
    using touch_redis.setnx_eq [OF assms(1)] by blast
  show ?thesis
  proof (cases "look ?s ?k = None")
    case True
    then have "fst (reserve R key w) = Inr Reserved"
      using nx by (simp add: reserve_def act_bind_def act_ret_def touch_call_calm [OF assms(3)])
    with True free show ?thesis by (auto split: option.splits)
  next
    case False
    then obtain a st where st: "slot_of key h = Some (a, st)" "look ?s ?k = Some (Single (TText (slot_text st)), Some (a + SLOT_MS))"
      using v by (auto simp: slot_tells_def)
    have late: "\<not> a + SLOT_MS \<le> time_ms w" using False free st(1) by simp
    have "look s2 ?k = look ?s ?k" using False touch_redis.setnx_look [OF assms(1) nx] by simp
    then have "look (tc_tick ?C (time_ms w) s2) ?k = Some (Single (TText (slot_text st)), Some (a + SLOT_MS))"
      using st(2) late by (simp add: touch_redis.look_tick [OF assms(1)] ticked_def)
    then have "tc_get ?C ?k (tc_tick ?C (time_ms w) s2) = Some (TText (slot_text st))"
      by (simp add: touch_redis.get [OF assms(1)])
    then have "fst (reserve R key w) = Inr (if slot_text st = ''sent'' then Duplicate_sent else Duplicate_inflight)"
      using nx False assms(3) by (simp add: reserve_def getState_def act_bind_def act_ret_def touch_call_calm)
    moreover have "slot_text st = ''sent'' \<longleftrightarrow> st = Slot_sent" by (cases st) simp_all
    ultimately show ?thesis using st(1) late by simp
  qed
qed

text \<open>The slot of a touch outlives the window of the frequency limit three times.\<close>

lemma slot_outlives_window: "SLOT_TTL_S * 1000 = 3 * FREQ_WINDOW_MS"
  by (simp add: SLOT_TTL_S_def FREQ_WINDOW_MS_def)

section \<open>Witnesses\<close>

definition demo_touch :: "(string \<Rightarrow> (redis_value \<times> int option) option) touch_service" where
  "demo_touch = \<lparr>ts_cmds = timed_commands, ts_prefix = ''test:''\<rparr>"

definition demo_history :: "(int \<times> touch_op) list" where
  "demo_history = [(9000000, Op_sent ''b'' ''s'' 9000000), (8000500, Op_sent ''a'' ''s'' 8000500),
     (8000000, Op_sent ''a'' ''s'' 8000000), (7999000, Op_slot ''a'' Slot_attempted), (7998000, Op_reserve ''a'')]"

definition demo_touched :: "(string \<Rightarrow> (redis_value \<times> int option) option) redis_world" where
  "demo_touched = \<lparr>server = ledger_after demo_touch Map.empty demo_history, time_ms = 10000000, network = [],
     reports = [], next_uuid = 0\<rparr>"

lemma demo_touch_redis: "touch_redis (ts_cmds demo_touch) (\<lambda>m. m)"
  by (simp add: demo_touch_def timed_redis.touch_redis_axioms)

lemma demo_touched:
  "network demo_touched = []" "orderly (time_ms demo_touched) demo_history"
  "server demo_touched = ledger_after demo_touch Map.empty demo_history" "time_ms demo_touched = 10000000"
  by (simp_all add: demo_touched_def demo_history_def plain_touch_def suffix_def)

lemma demo_counted: "counted demo_history = [(9000000, ''b'', ''s'', 9000000), (8000000, ''a'', ''s'', 8000000)]"
  by (simp add: demo_history_def still_counted_def SLOT_MS_def)

theorem frequency_limit_is_exact_witness:
  "fst (isOverFrequencyLimit demo_touch ''s'' (time_ms demo_touched) demo_touched) = Inr True"
proof -
  have "{key. \<exists>a t. (a, key, ''s'', t) \<in> set (counted demo_history) \<and> time_ms demo_touched - FREQ_WINDOW_MS \<le> t} = {''a'', ''b''}"
    by (auto simp: demo_counted demo_touched(4) FREQ_WINDOW_MS_def)
  with frequency_limit_is_exact [OF demo_touch_redis _ demo_touched(1-3), of "''s''"] show ?thesis by simp
qed

theorem cooldown_is_exact_witness:
  "fst (isInSessionTouchCooldown demo_touch ''s'' (time_ms demo_touched) (Some 8500000) demo_touched) = Inr True"
proof -
  have "(9000000 :: int) \<in> touched_at ''s'' demo_history" by (auto simp: touched_at_def demo_history_def)
  then have "\<exists>t \<in> touched_at ''s'' demo_history. time_ms demo_touched - t < SESSION_TOUCH_COOLDOWN_MS \<and>
      (case Some 8500000 of None \<Rightarrow> True | Some r \<Rightarrow> r \<le> t)"
    by (intro bexI [of _ 9000000]) (simp_all add: demo_touched(4) SESSION_TOUCH_COOLDOWN_MS_def)
  moreover have "SESSION_TOUCH_COOLDOWN_MS \<le> time_ms demo_touched"
    by (simp add: demo_touched(4) SESSION_TOUCH_COOLDOWN_MS_def)
  ultimately show ?thesis
    using cooldown_is_exact [OF demo_touch_redis _ demo_touched(1-3), of "''s''" "Some 8500000"] by simp
qed

theorem reserve_is_exact_witness: "fst (reserve demo_touch ''a'' demo_touched) = Inr Duplicate_sent"
proof -
  have "slot_of ''a'' demo_history = Some (8000500, Slot_sent)" by (simp add: demo_history_def)
  then show ?thesis
    using reserve_is_exact [OF demo_touch_redis _ demo_touched(1-3), of "''a''"]
    by (simp add: demo_touched(4) SLOT_MS_def plain_touch_def suffix_def)
qed

end
