(* ===== verification/OrdinaryEffects.thy ===== *)
theory OrdinaryEffects
  imports ActionStore
begin

text \<open>
  \<open>src/channels/wecom/message/application/ordinary-reply-effects.ts\<close>: the least that has to be kept of a run of
  the model so that its business follow-ups survive when the text of the reply is abandoned.  What is kept
  is checked by a schema when it is written and again when it is read.

  The schema's test of a date text is a function of the schema library and so a parameter; an integer is
  a number that prints as digits.  The channel identity, which is copied without a check of its
  own, is a value of its own field.
\<close>

record tool_call =
  tl_name :: string
  tl_args :: jval
  tl_result :: jval

record anchor_context =
  ax_traceId :: string
  ax_turn :: "string option"
  ax_inputAt :: "string option"
  ax_chatId :: string
  ax_userId :: string
  ax_corpId :: string
  ax_isGroupChat :: bool
  ax_identity :: "(string \<times> string) list option"

definition TOOL_EFFECT_NAMES :: "string list" where
  "TOOL_EFFECT_NAMES = [''duliday_interview_booking'', ''duliday_cancel_work_order'', ''duliday_modify_interview_time'',
     ''invite_to_group'']"

definition identity_keys :: "string list" where
  "identity_keys = [''candidateName'', ''managerName'', ''botImId'', ''imContactId'', ''externalUserId'']"

section \<open>The schema\<close>

definition fields :: "jval \<Rightarrow> (string \<times> jval) list" where
  "fields v = (case v of JObj es \<Rightarrow> es | _ \<Rightarrow> [])"

text \<open>A property of an object; \<open>JUndef\<close> when it is absent.\<close>

definition member :: "jval \<Rightarrow> string \<Rightarrow> jval" where
  "member v k = (case map_of (fields v) k of None \<Rightarrow> JUndef | Some x \<Rightarrow> x)"

definition digits :: "string \<Rightarrow> bool" where
  "digits t \<longleftrightarrow> t \<noteq> [] \<and> (\<forall>c \<in> set t. c \<in> set ''0123456789'')"

definition positive_number :: "jval \<Rightarrow> bool" where
  "positive_number v = (case v of JNum (Some t) \<Rightarrow> t \<noteq> [] \<and> hd t \<noteq> CHR ''-'' \<and> t \<noteq> ''0'' | _ \<Rightarrow> False)"

definition positive_int :: "jval \<Rightarrow> bool" where
  "positive_int v = (case v of JNum (Some t) \<Rightarrow> digits t \<and> t \<noteq> ''0'' | _ \<Rightarrow> False)"

definition filled_text :: "jval \<Rightarrow> string option" where
  "filled_text v = (case v of JStr s \<Rightarrow> if s = [] then None else Some s | _ \<Rightarrow> None)"

definition order_entry :: "jval \<Rightarrow> (string \<times> jval) list option" where
  "order_entry v = (let x = member v ''workOrderId'' in
     if x = JUndef then Some [] else if positive_int x then Some [(''workOrderId'', x)] else None)"

definition is_object :: "jval \<Rightarrow> bool" where
  "is_object v = (case v of JObj _ \<Rightarrow> True | _ \<Rightarrow> False)"

definition parse_call :: "jval \<Rightarrow> tool_call option" where
  "parse_call v =
     (if \<not> (is_object v \<and> is_object (member v ''args'') \<and> is_object (member v ''result'')) then None
      else case (member v ''toolName'', member (member v ''result'') ''success'', order_entry (member v ''args''), order_entry (member v ''result'')) of
        (JStr n, JBool ok, Some a, Some r) \<Rightarrow>
          if n \<in> set TOOL_EFFECT_NAMES
          then Some \<lparr>tl_name = n, tl_args = JObj a, tl_result = JObj ((''success'', JBool ok) # r)\<rparr> else None
      | _ \<Rightarrow> None)"

fun all_some :: "'a option list \<Rightarrow> 'a list option" where
  "all_some [] = Some []"
| "all_some (None # xs) = None"
| "all_some (Some x # xs) = map_option (Cons x) (all_some xs)"

definition parse_calls :: "jval \<Rightarrow> tool_call list option" where
  "parse_calls v = (case v of JArr xs \<Rightarrow> if 32 < length xs then None else all_some (map parse_call xs) | _ \<Rightarrow> None)"

definition identity_entry :: "jval \<Rightarrow> string \<Rightarrow> (string \<times> string) list option" where
  "identity_entry v k = (case member v k of JUndef \<Rightarrow> Some [] | JStr s \<Rightarrow> Some [(k, s)] | _ \<Rightarrow> None)"

definition parse_identity :: "jval \<Rightarrow> (string \<times> string) list option option" where
  "parse_identity v =
     (if v = JUndef then Some None
      else if \<not> is_object v then None
      else map_option (\<lambda>es. Some (concat es)) (all_some (map (identity_entry v) identity_keys)))"

definition parse_context :: "(string \<Rightarrow> bool) \<Rightarrow> jval \<Rightarrow> anchor_context option" where
  "parse_context is_datetime v =
     (case (map (\<lambda>k. filled_text (member v k)) [''traceId'', ''logicalTurnId'', ''chatId'', ''userId'', ''corpId''],
            member v ''inputOccurredAt'', member v ''isGroupChat'', parse_identity (member v ''channelIdentity'')) of
        ([Some tr, Some turn, Some chat, Some user, Some corp], JStr at, JBool grp, Some who) \<Rightarrow>
          if is_datetime at then Some \<lparr>ax_traceId = tr, ax_turn = Some turn, ax_inputAt = Some at, ax_chatId = chat,
             ax_userId = user, ax_corpId = corp, ax_isGroupChat = grp, ax_identity = who\<rparr> else None
      | _ \<Rightarrow> None)"

text \<open>\<open>effectsSchema.parse\<close> and with it \<open>readOrdinaryReplyEffects\<close>; \<open>None\<close> is a \<open>ZodError\<close>.\<close>

definition readOrdinaryReplyEffects :: "(string \<Rightarrow> bool) \<Rightarrow> jval \<Rightarrow> (tool_call list \<times> anchor_context) option" where
  "readOrdinaryReplyEffects is_datetime v =
     (case (parse_calls (member v ''toolCalls''), parse_context is_datetime (member v ''context'')) of
        (Some cs, Some c) \<Rightarrow> Some (cs, c) | _ \<Rightarrow> None)"

section \<open>What is written\<close>

definition call_json :: "tool_call \<Rightarrow> jval" where
  "call_json c = JObj [(''toolName'', JStr (tl_name c)), (''args'', tl_args c), (''result'', tl_result c)]"

definition context_json :: "anchor_context \<Rightarrow> jval" where
  "context_json c = JObj [(''traceId'', JStr (ax_traceId c)), (''logicalTurnId'', opt_json JStr (ax_turn c)),
     (''inputOccurredAt'', opt_json JStr (ax_inputAt c)), (''chatId'', JStr (ax_chatId c)), (''userId'', JStr (ax_userId c)),
     (''corpId'', JStr (ax_corpId c)), (''isGroupChat'', JBool (ax_isGroupChat c)),
     (''channelIdentity'', opt_json (\<lambda>es. JObj (map (\<lambda>(k, s). (k, JStr s)) es)) (ax_identity c))]"

definition effects_json :: "tool_call list \<times> anchor_context \<Rightarrow> jval" where
  "effects_json e = JObj [(''toolCalls'', JArr (map call_json (fst e))), (''context'', context_json (snd e))]"

definition nullish :: "jval \<Rightarrow> jval \<Rightarrow> jval" where
  "nullish a b = (if a = JUndef \<or> a = JNull then b else a)"

definition is_number :: "jval \<Rightarrow> bool" where
  "is_number v = (case v of JNum _ \<Rightarrow> True | _ \<Rightarrow> False)"

text \<open>What is kept of one call: whether it succeeded, and its work order.\<close>

definition effect_call :: "tool_call \<Rightarrow> tool_call" where
  "effect_call c =
     (let order = nullish (member (tl_result c) ''workOrderId'') (member (tl_args c) ''workOrderId'');
          ok = (member (tl_result c) ''success'' = JBool True \<or>
            tl_name c = ''duliday_interview_booking'' \<and> is_number (member (tl_result c) ''workOrderId''))
      in \<lparr>tl_name = tl_name c, tl_args = JObj [],
          tl_result = JObj ((''success'', JBool ok) # (if positive_number order then [(''workOrderId'', order)] else []))\<rparr>)"

definition effect_calls :: "tool_call list \<Rightarrow> bool \<Rightarrow> tool_call list" where
  "effect_calls calls grp = (if grp then [] else map effect_call (filter (\<lambda>c. tl_name c \<in> set TOOL_EFFECT_NAMES) calls))"

definition ordinaryReplyEffects :: "(string \<Rightarrow> bool) \<Rightarrow> tool_call list \<Rightarrow> anchor_context \<Rightarrow> jval option" where
  "ordinaryReplyEffects is_datetime calls c =
     map_option effects_json
       (readOrdinaryReplyEffects is_datetime (effects_json (effect_calls calls (ax_isGroupChat c), c)))"

section \<open>Lemmas\<close>

lemma all_some_Some: "all_some xs = Some ys \<longleftrightarrow> xs = map Some ys"
proof (induction xs arbitrary: ys)
  case (Cons x xs)
  then show ?case by (cases x; cases ys) auto
qed auto

lemma member_JObj [simp]: "member (JObj ((k, v) # es)) k' = (if k' = k then v else member (JObj es) k')" "member (JObj []) k' = JUndef"
  by (simp_all add: member_def fields_def)

lemma is_object_JObj [simp]: "is_object (JObj es)"
  by (simp add: is_object_def)

lemma order_entry_fields:
  "order_entry v = Some es \<Longrightarrow> es = [] \<or> (\<exists>x. es = [(''workOrderId'', x)] \<and> positive_int x)"
  by (auto simp: order_entry_def Let_def split: if_splits)

lemma order_entry_again: "order_entry v = Some es \<Longrightarrow> order_entry (JObj es) = Some es"
  by (drule order_entry_fields) (auto simp: order_entry_def positive_int_def)

lemma order_entry_result: "order_entry v = Some es \<Longrightarrow> order_entry (JObj ((''success'', b) # es)) = Some es"
  by (drule order_entry_fields) (auto simp: order_entry_def positive_int_def)

lemma parse_call_again: "parse_call v = Some c \<Longrightarrow> parse_call (call_json c) = Some c"
  by (auto simp: parse_call_def call_json_def order_entry_again order_entry_result
      split: if_splits jval.splits option.splits)

lemma parse_calls_again:
  assumes "parse_calls v = Some cs"
  shows "parse_calls (JArr (map call_json cs)) = Some cs"
proof -
  obtain xs where xs: "length xs \<le> 32" "map parse_call xs = map Some cs"
    using assms not_less by (fastforce simp: parse_calls_def all_some_Some split: jval.splits if_splits)
  have "parse_call (call_json c) = Some c" if "c \<in> set cs" for c
  proof -
    have "Some c \<in> set (map parse_call xs)" using xs(2) that by simp
    then show ?thesis by (auto intro: parse_call_again)
  qed
  moreover have "length cs \<le> 32" using xs map_eq_imp_length_eq by metis
  ultimately show ?thesis by (simp add: parse_calls_def all_some_Some)
qed

lemma identity_entry_cases: "identity_entry v k = Some es \<Longrightarrow> es = [] \<or> (\<exists>s. es = [(k, s)])"
  by (auto simp: identity_entry_def split: jval.splits)

lemma parse_identity_again:
  assumes "parse_identity v = Some who"
  shows "parse_identity (opt_json (\<lambda>es. JObj (map (\<lambda>(k, s). (k, JStr s)) es)) who) = Some who"
proof (cases who)
  case None
  then show ?thesis by (simp add: opt_json_def parse_identity_def)
next
  case (Some es)
  let ?e = "identity_entry v"
  obtain z where "map ?e identity_keys = map Some z" "es = concat z"
    using assms Some by (auto simp: parse_identity_def all_some_Some split: if_splits)
  then obtain a b c d e where parts: "?e ''candidateName'' = Some a" "?e ''managerName'' = Some b" "?e ''botImId'' = Some c"
    "?e ''imContactId'' = Some d" "?e ''externalUserId'' = Some e" and es: "es = a @ b @ c @ d @ e"
    by (auto simp: identity_keys_def Cons_eq_map_conv)
  from parts [THEN identity_entry_cases] show ?thesis
    unfolding Some es opt_json_def
    by (elim disjE exE) (simp_all add: parse_identity_def identity_keys_def identity_entry_def)
qed

lemma filled_text_Some: "filled_text v = Some s \<longleftrightarrow> v = JStr s \<and> s \<noteq> []"
  by (auto simp: filled_text_def split: jval.splits)

lemma parse_context_fields:
  assumes "parse_context dt v = Some c"
  obtains tr turn at chat user corp grp who where
    "c = \<lparr>ax_traceId = tr, ax_turn = Some turn, ax_inputAt = Some at, ax_chatId = chat, ax_userId = user, ax_corpId = corp,
       ax_isGroupChat = grp, ax_identity = who\<rparr>"
    "tr \<noteq> []" "turn \<noteq> []" "chat \<noteq> []" "user \<noteq> []" "corp \<noteq> []" "dt at"
    "member v ''traceId'' = JStr tr" "member v ''logicalTurnId'' = JStr turn" "member v ''inputOccurredAt'' = JStr at"
    "member v ''chatId'' = JStr chat" "member v ''userId'' = JStr user" "member v ''corpId'' = JStr corp"
    "member v ''isGroupChat'' = JBool grp" "parse_identity (member v ''channelIdentity'') = Some who"
  using assms
  by (auto simp: parse_context_def filled_text_Some split: list.splits option.splits jval.splits if_splits)

lemma parse_context_again:
  assumes "parse_context dt v = Some c"
  shows "parse_context dt (context_json c) = Some c"
  using assms by (rule parse_context_fields)
    (simp add: context_json_def parse_context_def opt_json_def filled_text_def parse_identity_again [unfolded opt_json_def])

lemma parse_context_written:
  assumes "parse_context dt (context_json c) = Some c'"
  shows "c' = c\<lparr>ax_identity := ax_identity c'\<rparr>"
  using assms by (rule parse_context_fields) (auto simp: context_json_def opt_json_def split: option.splits)

lemma effect_call_written: "parse_call (call_json (effect_call c)) = Some d \<Longrightarrow> d = effect_call c"
  by (auto simp: parse_call_def call_json_def effect_call_def Let_def order_entry_def positive_number_def split: if_splits jval.splits)

lemma parse_calls_written:
  assumes "parse_calls (JArr (map call_json (effect_calls calls g))) = Some cs"
  shows "cs = effect_calls calls g"
proof -
  have m: "map (\<lambda>c. parse_call (call_json c)) (effect_calls calls g) = map Some cs"
    using assms by (auto simp: parse_calls_def all_some_Some o_def split: if_splits)
  have "d = c" if "c \<in> set (effect_calls calls g)" "parse_call (call_json c) = Some d" for c d
    using that by (auto simp: effect_calls_def dest: effect_call_written split: if_splits)
  with m show ?thesis
    by (metis (no_types, lifting) length_map nth_equalityI nth_map nth_mem)
qed

section \<open>Properties\<close>

text \<open>
  \<open>records c d\<close>: the entry \<open>d\<close> says of the tool call \<open>c\<close> what its answer and its arguments say.  It
  succeeded if the answer says so, or if it is a booking whose answer names a work order by number; its
  work order is the positive number in the answer, or, where the answer has none, in the arguments.
\<close>

definition records :: "tool_call \<Rightarrow> tool_call \<Rightarrow> bool" where
  "records c d \<longleftrightarrow> tl_name d = tl_name c \<and>
     member (tl_result d) ''success'' \<in> {JBool True, JBool False} \<and>
     (member (tl_result d) ''success'' = JBool True \<longleftrightarrow> member (tl_result c) ''success'' = JBool True \<or>
        (tl_name c = ''duliday_interview_booking'' \<and> (\<exists>n. member (tl_result c) ''workOrderId'' = JNum n))) \<and>
     member (tl_result d) ''workOrderId'' =
       (let answered = member (tl_result c) ''workOrderId''; given = member (tl_args c) ''workOrderId'' in
        if positive_int answered then answered
        else if answered \<in> {JUndef, JNull} \<and> positive_int given then given else JUndef)"

text \<open>The same identity: for each of the five names the text it had.\<close>

definition same_identity :: "(string \<times> string) list option \<Rightarrow> (string \<times> string) list option \<Rightarrow> bool" where
  "same_identity a b = (case (a, b) of
     (None, None) \<Rightarrow> True
   | (Some es, Some fs) \<Rightarrow> (\<forall>k. map_of fs k = (if k \<in> set identity_keys then map_of es k else None))
   | _ \<Rightarrow> False)"

lemma positive_int_number: "positive_int v \<Longrightarrow> positive_number v"
proof -
  have "hd t \<noteq> CHR ''-''" if "digits t" for t
  proof -
    have "hd t \<in> set ''0123456789''" using that by (simp add: digits_def)
    then show ?thesis by auto
  qed
  then show "positive_int v \<Longrightarrow> positive_number v"
    by (auto simp: positive_int_def positive_number_def split: jval.splits option.splits) (simp add: digits_def)
qed

lemma effect_call_records:
  assumes "parse_call (call_json (effect_call c)) \<noteq> None"
  shows "records c (effect_call c)"
proof -
  let ?o = "nullish (member (tl_result c) ''workOrderId'') (member (tl_args c) ''workOrderId'')"
  have o: "positive_number ?o \<Longrightarrow> positive_int ?o"
    using assms by (auto simp: parse_call_def call_json_def effect_call_def Let_def order_entry_def
        positive_number_def split: if_splits jval.splits option.splits)
  then have "positive_number ?o \<longleftrightarrow> positive_int ?o" using positive_int_number by blast
  then have w: "member (tl_result (effect_call c)) ''workOrderId'' = (if positive_int ?o then ?o else JUndef)"
    by (simp add: effect_call_def Let_def)
  have n: "\<not> positive_int JUndef" "\<not> positive_int JNull" by (simp_all add: positive_int_def)
  have num: "is_number v \<longleftrightarrow> (\<exists>n. v = JNum n)" for v by (simp add: is_number_def split: jval.split)
  show ?thesis unfolding records_def w
    by (auto simp: effect_call_def Let_def nullish_def n num)
qed

lemma identity_written:
  assumes "parse_identity (opt_json (\<lambda>es. JObj (map (\<lambda>(k, s). (k, JStr s)) es)) a) = Some b"
  shows "same_identity a b"
proof (cases a)
  case None
  then show ?thesis using assms by (simp add: opt_json_def parse_identity_def same_identity_def split: option.split)
next
  case (Some es)
  let ?v = "JObj (map (\<lambda>(k, s). (k, JStr s)) es)"
  let ?e = "identity_entry ?v"
  have m: "map_of (map (\<lambda>(k, s). (k, JStr s)) es) k = map_option JStr (map_of es k)" for k
    by (induction es) auto
  have e: "?e k = Some (case map_of es k of None \<Rightarrow> [] | Some s \<Rightarrow> [(k, s)])" for k
    by (simp add: identity_entry_def member_def fields_def m split: option.split)
  have "b = Some (concat (map (\<lambda>k. case map_of es k of None \<Rightarrow> [] | Some s \<Rightarrow> [(k, s)]) identity_keys))"
    using assms Some by (simp add: opt_json_def parse_identity_def e identity_keys_def split: if_splits)
  moreover have "map_of (concat (map (\<lambda>k. case map_of es k of None \<Rightarrow> [] | Some s \<Rightarrow> [(k, s)]) ks)) k =
      (if k \<in> set ks then map_of es k else None)" for k ks
    by (induction ks) (auto split: option.split)
  ultimately show ?thesis using Some by (simp add: same_identity_def)
qed

lemma parse_context_identity: "parse_context dt (context_json c) = Some c' \<Longrightarrow> same_identity (ax_identity c) (ax_identity c')"
  by (rule parse_context_fields, assumption) (simp add: context_json_def identity_written)

lemma parse_calls_record:
  assumes "parse_calls (JArr (map call_json (effect_calls calls g))) = Some cs"
  shows "list_all2 records (if g then [] else filter (\<lambda>c. tl_name c \<in> set TOOL_EFFECT_NAMES) calls) (effect_calls calls g)"
proof -
  have "parse_call (call_json d) \<noteq> None" if "d \<in> set (effect_calls calls g)" for d
  proof -
    have m: "map (\<lambda>d. parse_call (call_json d)) (effect_calls calls g) = map Some cs"
      using assms by (auto simp: parse_calls_def all_some_Some o_def split: if_splits)
    have "parse_call (call_json d) \<in> set (map (\<lambda>d. parse_call (call_json d)) (effect_calls calls g))"
      using that by simp
    then show ?thesis unfolding m by auto
  qed
  then have "\<forall>x\<in>set (filter (\<lambda>c. tl_name c \<in> set TOOL_EFFECT_NAMES) calls). \<not> g \<longrightarrow> records x (effect_call x)"
    by (auto simp: effect_calls_def intro!: effect_call_records)
  then show ?thesis by (auto simp: effect_calls_def list_all2_map2 list_all2_same)
qed

text \<open>C20: What is written can be read again, and reading it gives one entry for every business call of the run (a
  booking, a cancelled or changed work order, an invitation to a group; none for a group chat), in their
  order, each with the success and the work order that the tool's own answer and arguments show, and the
  context they were made in: the same trace, turn, time, chat, user and company, and for each name of the
  channel identity the text it had.\<close>

theorem written_effects_are_read_back:
  assumes "ordinaryReplyEffects dt calls c = Some v"
  shows "\<exists>cs who. readOrdinaryReplyEffects dt v = Some (cs, c\<lparr>ax_identity := who\<rparr>) \<and> same_identity (ax_identity c) who \<and>
    list_all2 records (if ax_isGroupChat c then [] else filter (\<lambda>x. tl_name x \<in>
      {''duliday_interview_booking'', ''duliday_cancel_work_order'', ''duliday_modify_interview_time'', ''invite_to_group''}) calls) cs"
proof -
  let ?w = "effects_json (effect_calls calls (ax_isGroupChat c), c)"
  obtain cs c' where r: "readOrdinaryReplyEffects dt ?w = Some (cs, c')" "v = effects_json (cs, c')"
    using assms by (auto simp: ordinaryReplyEffects_def)
  have parts: "parse_calls (JArr (map call_json (effect_calls calls (ax_isGroupChat c)))) = Some cs"
    "parse_context dt (context_json c) = Some c'"
    using r(1) by (auto simp: readOrdinaryReplyEffects_def effects_json_def split: option.splits)
  have "readOrdinaryReplyEffects dt v = Some (cs, c')"
    using parse_calls_again [OF parts(1)] parse_context_again [OF parts(2)] r(2)
    by (simp add: readOrdinaryReplyEffects_def effects_json_def)
  moreover have "set TOOL_EFFECT_NAMES =
      {''duliday_interview_booking'', ''duliday_cancel_work_order'', ''duliday_modify_interview_time'', ''invite_to_group''}"
    by (simp add: TOOL_EFFECT_NAMES_def)
  ultimately show ?thesis
    using parse_calls_written [OF parts(1)] parse_calls_record [OF parts(1)] parse_context_written [OF parts(2)]
      parse_context_identity [OF parts(2)] by metis
qed

section \<open>Witness\<close>

definition demo_calls :: "tool_call list" where
  "demo_calls = [\<lparr>tl_name = ''geocode'', tl_args = JObj [], tl_result = JNull\<rparr>,
     \<lparr>tl_name = ''duliday_interview_booking'', tl_args = JObj [(''phone'', JStr ''x'')],
      tl_result = JObj [(''workOrderId'', JNum (Some ''42'')), (''note'', JStr ''y'')]\<rparr>]"

definition demo_context :: anchor_context where
  "demo_context = \<lparr>ax_traceId = ''t'', ax_turn = Some ''t'', ax_inputAt = Some ''2026-01-01T00:00:00.000Z'', ax_chatId = ''c'',
     ax_userId = ''u'', ax_corpId = ''k'', ax_isGroupChat = False, ax_identity = Some [(''botImId'', ''b'')]\<rparr>"

definition demo_effects :: jval where
  "demo_effects = the (ordinaryReplyEffects (\<lambda>_. True) demo_calls demo_context)"

lemma demo_effects: "ordinaryReplyEffects (\<lambda>_. True) demo_calls demo_context = Some demo_effects"
proof -
  have "ordinaryReplyEffects (\<lambda>_. True) demo_calls demo_context \<noteq> None" by code_simp
  then show ?thesis by (auto simp: demo_effects_def)
qed

theorem written_effects_are_read_back_witness:
  "\<exists>d c. readOrdinaryReplyEffects (\<lambda>_. True) demo_effects = Some ([d], c) \<and> tl_name d = ''duliday_interview_booking'' \<and>
     member (tl_result d) ''success'' = JBool True \<and> member (tl_result d) ''workOrderId'' = JNum (Some ''42'') \<and>
     ax_chatId c = ''c'' \<and> (\<exists>es. ax_identity c = Some es \<and> map_of es ''botImId'' = Some ''b'')"
proof -
  have f: "filter (\<lambda>x. tl_name x \<in> {''duliday_interview_booking'', ''duliday_cancel_work_order'',
      ''duliday_modify_interview_time'', ''invite_to_group''}) demo_calls = [demo_calls ! 1]"
    by (simp add: demo_calls_def)
  obtain cs who where r: "readOrdinaryReplyEffects (\<lambda>_. True) demo_effects = Some (cs, demo_context\<lparr>ax_identity := who\<rparr>)"
    and i: "same_identity (ax_identity demo_context) who" and l: "list_all2 records [demo_calls ! 1] cs"
    using written_effects_are_read_back [OF demo_effects] f by (auto simp: demo_context_def)
  obtain d where d: "cs = [d]" "records (demo_calls ! 1) d" using l by (auto simp: list_all2_Cons1)
  have "positive_int (JNum (Some ''42''))" by (simp add: positive_int_def digits_def)
  then have "tl_name d = ''duliday_interview_booking'' \<and> member (tl_result d) ''success'' = JBool True \<and>
      member (tl_result d) ''workOrderId'' = JNum (Some ''42'')"
    using d(2) by (simp add: records_def demo_calls_def)
  moreover have "\<exists>es. who = Some es \<and> map_of es ''botImId'' = Some ''b''"
    using i by (cases who) (auto simp: same_identity_def demo_context_def identity_keys_def)
  ultimately show ?thesis using r d by (auto simp: demo_context_def)
qed

end
