(* ===== verification/ReplyWorkflow.thy ===== *)
theory ReplyWorkflow
  imports MessageDelivery OrdinaryEffects
begin

text \<open>
  \<open>src/channels/wecom/message/application/reply-workflow.service.ts\<close>: what happens to one batch of messages,
  from the turn that answers them to the acknowledgement, with the business effects an ordinary reply
  leaves behind (\<open>OrdinaryEffects\<close>) and the decision when a run of the model is repeated
  (\<open>resolveReplaySkipDecision\<close> of \<open>src/agent/runner/turn-outcome.ts\<close>).

  The services it calls are ports on a world of any type.  A telemetry call is one port with the name of the
  call; what is started and not waited for is \<open>wf_background\<close>, which cannot fail.  The local variables
  that \<open>processMessageCore\<close> assigns are a record beside the world, so a step that throws leaves behind
  what was assigned before it, which is what its \<open>catch\<close> and \<open>finally\<close> blocks see.  The context of the anchors
  is built where it is used; it only reads the name and the time of the turn, which saving its effects does not change.

  An absent field of a message is \<open>None\<close>.  A timestamp is a text of digits; other numerals that \<open>Number\<close>
  would read do not occur in it.
\<close>

section \<open>Messages, results and errors\<close>

record callback =
  cb_messageId :: string
  cb_chatId :: string
  cb_orgId :: "string option"
  cb_imBotId :: string
  cb_imContactId :: "string option"
  cb_imRoomId :: "string option"
  cb_contactName :: "string option"
  cb_botUserId :: "string option"
  cb_externalUserId :: "string option"
  cb_groupId :: "string option"
  cb_source :: "string option"
  cb_apiType :: "string option"
  cb_token :: "string option"
  cb_timestamp :: string
  cb_receivedAt :: "int option"
  cb_content :: string
  cb_imageUrl :: "string option"
  cb_artworkUrl :: "string option"
  cb_isEmotion :: bool

record parsed_message =
  pm_message :: callback
  pm_token :: "string option"
  pm_groupId :: "string option"
  pm_imContactId :: "string option"

datatype outcome_kind = Reply_outcome | Handoff_outcome | Skipped_outcome

record side_effect =
  se_kind :: string
  se_origin :: "string option"
  se_alreadyDispatched :: bool

record turn_outcome =
  to_kind :: outcome_kind
  to_receipt :: "string option"
  to_sideEffects :: "side_effect list"
  to_toolCalls :: "tool_call list"
  to_text :: "string option"
  to_generatedText :: "string option"
  to_silenced :: bool
  to_guardrail :: bool
  to_finalizer :: nat

text \<open>\<open>AgentInvokeResult\<close>; a result restored from a plan has no finalizer.\<close>

record agent_result =
  ar_content :: string
  ar_isFallback :: bool
  ar_isSkipped :: bool
  ar_guardrail :: bool
  ar_outcome :: "turn_outcome option"
  ar_toolCalls :: "tool_call list"
  ar_finalizer :: "nat option"

text \<open>The errors the workflow tells apart; \<open>Agent_exn\<close> is any other error and whether it carries the evidence of an action.\<close>

datatype flow_exn = Deferred_reply string | Undelivered string delivery_report | Agent_exn string bool

type_synonym ('w, 'a) flow = "('w, flow_exn, 'a) eact"

fun hasReplayEvidence :: "flow_exn \<Rightarrow> bool" where
  "hasReplayEvidence (Agent_exn _ b) = b"
| "hasReplayEvidence _ = False"

fun attachReplayEvidence :: "bool \<Rightarrow> flow_exn \<Rightarrow> flow_exn" where
  "attachReplayEvidence b (Agent_exn m b') = Agent_exn m (b' \<or> b)"
| "attachReplayEvidence b e = e"

fun flow_message :: "flow_exn \<Rightarrow> string" where
  "flow_message (Deferred_reply r) = deferred r"
| "flow_message (Undelivered m _) = m"
| "flow_message (Agent_exn m _) = m"

definition BUSINESS_EFFECTS_UNCONFIRMED :: string where
  "BUSINESS_EFFECTS_UNCONFIRMED = ''business_effects_unconfirmed''"

definition ENTERPRISE :: string where "ENTERPRISE = ''enterprise''"
definition GROUP :: string where "GROUP = ''group''"

text \<open>\<open>pendingInputReplays\<close> and \<open>imageCompatibilityRetries\<close> of \<open>runtime-retry.constants.ts\<close>.\<close>

definition MAX_REPLAY_ATTEMPTS :: nat where "MAX_REPLAY_ATTEMPTS = 3"
definition imageCompatibilityRetries :: nat where "imageCompatibilityRetries = 1"

section \<open>Ports\<close>

type_synonym 'w guard = "('w, unit) flow option"

record 'w flow_context =
  fx_parsed :: parsed_message
  fx_traceId :: string
  fx_turn :: "reply_turn option"
  fx_owner :: "'w guard"

record 'w agent_call =
  ag_sessionId :: string
  ag_turn :: "string option"
  ag_inputAt :: "int option"
  ag_messageId :: string
  ag_userId :: string
  ag_corpId :: string
  ag_botUserId :: "string option"
  ag_botImId :: string
  ag_groupId :: "string option"
  ag_token :: "string option"
  ag_modelId :: "string option"
  ag_userMessage :: string
  ag_imageUrls :: "string list"
  ag_imageMessageIds :: "string list"
  ag_visualTypes :: "(string \<times> bool) list"
  ag_endTime :: "int option"
  ag_newer :: "('w, bool) flow"

datatype telemetry =
    Start_trace string "string list" | Has_trace string | Update_dispatch string string | Worker_start string
  | Merge_prep string "string list" | Update_messages string "string list" | Reply_skipped string
  | Success_metadata string nat | Ai_start string | Ai_end string | Agent_result string

datatype background =
    Backfill_bare string | Backfill_missing "string list" "tool_call list" | Fallback_alert string
  | Reconcile anchor_context bool | Record_success string | Schedule_backfill string "string list"
  | Ack_alert string | Opening_schedule anchor_context int

datatype event_write = Inserted | Duplicate | Write_failed

record 'w flow_ports =
  wf_durable :: bool
  wf_open :: "turn_scope \<Rightarrow> string list \<Rightarrow> time_text \<Rightarrow> (string \<times> jval) list \<Rightarrow> ('w, reply_turn option) flow"
  wf_saveEffects :: "reply_turn \<Rightarrow> jval \<Rightarrow> ('w, reply_turn) flow"
  wf_completeProjection :: "reply_turn \<Rightarrow> ('w, unit) flow"
  wf_settle :: "reply_turn \<Rightarrow> delivery_summary option \<Rightarrow> ('w, reply_turn) flow"
  wf_acked :: "reply_turn \<Rightarrow> ('w, reply_turn) flow"
  wf_interrupt :: "reply_turn \<Rightarrow> ('w, reply_turn) flow"
  wf_inputActive :: "reply_turn \<Rightarrow> ('w, unit) flow"
  wf_groupRoute :: "string \<Rightarrow> string \<Rightarrow> string option \<Rightarrow> ('w, (string \<times> string option) option) flow"
  wf_enterpriseToken :: "string option"
  wf_modelSelection :: "('w, string option) flow"
  wf_botUser :: "string \<Rightarrow> ('w, string option) flow"
  wf_runTurn :: "'w agent_call \<Rightarrow> ('w, turn_outcome) flow"
  wf_blocksReplay :: "tool_call \<Rightarrow> bool"
  wf_bookingSucceeded :: "tool_call \<Rightarrow> bool"
  wf_isDatetime :: "string \<Rightarrow> bool"
  wf_shortCircuited :: "tool_call \<Rightarrow> bool"
  wf_replayEvidence :: "tool_call list \<Rightarrow> bool"
  wf_awaitVision :: "string list \<Rightarrow> ('w, unit) flow"
  wf_describe :: "string \<Rightarrow> string \<Rightarrow> bool \<Rightarrow> 'w \<Rightarrow> 'w"
  wf_deliver :: "string \<Rightarrow> 'w flow_context \<Rightarrow> bool \<Rightarrow> ('w, delivery_report) flow"
  wf_preparePlan :: "string \<Rightarrow> 'w flow_context \<Rightarrow> agent_result \<Rightarrow> ('w, reply_turn option) flow"
  wf_restore :: "reply_turn \<Rightarrow> agent_result option"
  wf_commitOutcome :: "turn_outcome option \<Rightarrow> string \<Rightarrow> ('w, unit) flow"
  wf_toolAnchors :: "tool_call list \<Rightarrow> anchor_context \<Rightarrow> 'w guard \<Rightarrow> ('w, unit) flow"
  wf_replyAnchors :: "agent_result \<Rightarrow> anchor_context \<Rightarrow> 'w guard \<Rightarrow> bool \<Rightarrow> ('w, unit) flow"
  wf_claimPending :: "string \<Rightarrow> nat \<Rightarrow> ('w, callback list \<times> nat) flow"
  wf_ackPending :: "string \<Rightarrow> nat \<Rightarrow> ('w, unit) flow"
  wf_ackPendingIds :: "string \<Rightarrow> string list \<Rightarrow> ('w, unit) flow"
  wf_markProcessed :: "string \<Rightarrow> ('w, unit) flow"
  wf_watermark :: "string \<Rightarrow> string \<Rightarrow> string \<Rightarrow> int \<Rightarrow> ('w, unit) flow"
  wf_recordOpening :: "string \<Rightarrow> reply_turn option \<Rightarrow> 'w guard \<Rightarrow> ('w, event_write) flow"
  wf_scheduleOpening :: "anchor_context \<Rightarrow> int \<Rightarrow> ('w, bool) flow"
  wf_recordReplied :: "string \<Rightarrow> reply_turn option \<Rightarrow> 'w guard \<Rightarrow> ('w, unit) flow"
  wf_handleError :: "flow_exn \<Rightarrow> parsed_message \<Rightarrow> string \<Rightarrow> string list \<Rightarrow> 'w flow_context option \<Rightarrow> ('w, unit) flow"
  wf_addMessage :: "callback \<Rightarrow> ('w, unit) flow"
  wf_content :: "callback list \<Rightarrow> string"
  wf_settleMemory :: "nat \<Rightarrow> bool \<Rightarrow> string option \<Rightarrow> 'w \<Rightarrow> 'w"
  wf_discardMemory :: "nat \<Rightarrow> 'w \<Rightarrow> 'w"
  wf_whenSettled :: "nat \<Rightarrow> 'w \<Rightarrow> 'w"
  wf_telemetry :: "telemetry \<Rightarrow> ('w, bool) flow"
  wf_background :: "background \<Rightarrow> 'w \<Rightarrow> 'w"
  wf_now :: "'w \<Rightarrow> int"

section \<open>Messages\<close>

definition given :: "string option \<Rightarrow> bool" where
  "given x = (case x of None \<Rightarrow> False | Some s \<Rightarrow> s \<noteq> [])"

definition parse :: "callback \<Rightarrow> parsed_message" where
  "parse m = \<lparr>pm_message = m, pm_token = cb_token m, pm_groupId = cb_groupId m,
     pm_imContactId = (if given (cb_imRoomId m) then None else cb_imContactId m)\<rparr>"

fun read_digits :: "int \<Rightarrow> string \<Rightarrow> int" where
  "read_digits n [] = n"
| "read_digits n (c # cs) = (if c \<in> set ''0123456789'' then read_digits (10 * n + of_char c - 48) cs else n)"

text \<open>\<open>Number.parseInt(text, 10)\<close> and \<open>Number(text)\<close> on such texts.\<close>

definition parseInt :: "string \<Rightarrow> time_text" where
  "parseInt t = (case dropWhile is_space t of
       [] \<Rightarrow> None | c # cs \<Rightarrow> if c \<in> set ''0123456789'' then Some (read_digits 0 (c # cs)) else None)"

definition to_number_text :: "string \<Rightarrow> time_text" where
  "to_number_text t = (if trim t = [] then Some 0 else if digits (trim t) then Some (read_digits 0 (trim t)) else None)"

definition resolveStoredMessageTimestamp :: "callback \<Rightarrow> int option" where
  "resolveStoredMessageTimestamp m =
     (case parseInt (cb_timestamp m) of
        Some t \<Rightarrow> if 0 < t then Some t else (case cb_receivedAt m of Some r \<Rightarrow> if 0 < r then Some r else None | None \<Rightarrow> None)
      | None \<Rightarrow> (case cb_receivedAt m of Some r \<Rightarrow> if 0 < r then Some r else None | None \<Rightarrow> None))"

definition stored_times :: "callback list \<Rightarrow> int list" where
  "stored_times ms = List.map_filter resolveStoredMessageTimestamp ms"

definition inputOccurredAt :: "callback list \<Rightarrow> time_text" where
  "inputOccurredAt ms = (if stored_times ms = [] then None else Some (Min (set (stored_times ms))))"

definition resolveShortTermEndTimeInclusive :: "callback list \<Rightarrow> int option" where
  "resolveShortTermEndTimeInclusive ms = (if stored_times ms = [] then None else Some (Max (set (stored_times ms))))"

definition resolveCorpId :: "callback \<Rightarrow> string" where
  "resolveCorpId m = (if given (cb_orgId m) then the (cb_orgId m) else ''default'')"

definition resolveAgentUserId :: "callback \<Rightarrow> parsed_message \<Rightarrow> string" where
  "resolveAgentUserId m p = (if given (pm_imContactId p) then the (pm_imContactId p)
     else if given (cb_externalUserId m) then the (cb_externalUserId m) else cb_chatId (pm_message p))"

text \<open>\<open>cb_imageUrl\<close> is what \<open>MessageParser.extractImageUrl\<close> finds in the payload, \<open>cb_content\<close> what \<open>extractContent\<close> does.\<close>

definition collectImageUrls :: "callback list \<Rightarrow> string list" where
  "collectImageUrls ms = List.map_filter (\<lambda>m. case cb_imageUrl m of None \<Rightarrow> None
     | Some u \<Rightarrow> Some (case cb_artworkUrl m of Some a \<Rightarrow> a | None \<Rightarrow> u)) ms"

definition collectImageMessageIds :: "callback list \<Rightarrow> string list" where
  "collectImageMessageIds ms = map cb_messageId (filter (\<lambda>m. cb_imageUrl m \<noteq> None) ms)"

text \<open>Message id to whether it is an emotion; the last message of an id decides.\<close>

definition buildVisualMessageTypes :: "callback list \<Rightarrow> (string \<times> bool) list" where
  "buildVisualMessageTypes ms =
     fold (\<lambda>m es. if cb_imageUrl m = None then es else (cb_messageId m, cb_isEmotion m) # filter (\<lambda>e. fst e \<noteq> cb_messageId m) es) ms []"

definition scope_of_message :: "callback \<Rightarrow> turn_scope" where
  "scope_of_message m = \<lparr>t_corp = resolveCorpId m, t_account = cb_imBotId m, t_chat = cb_chatId m\<rparr>"

definition replyRecoveryContext :: "callback \<Rightarrow> string \<Rightarrow> (string \<times> jval) list" where
  "replyRecoveryContext m text =
     [(''userMessage'', JStr text),
      (''primary'', JObj [(''orgId'', opt_json JStr (cb_orgId m)), (''imBotId'', JStr (cb_imBotId m)),
         (''imContactId'', opt_json JStr (cb_imContactId m)), (''imRoomId'', opt_json JStr (cb_imRoomId m)),
         (''contactName'', opt_json JStr (cb_contactName m)), (''botUserId'', opt_json JStr (cb_botUserId m)),
         (''externalUserId'', opt_json JStr (cb_externalUserId m)), (''groupId'', opt_json JStr (cb_groupId m)),
         (''timestamp'', JStr (cb_timestamp m)), (''messageId'', JStr (cb_messageId m)), (''chatId'', JStr (cb_chatId m)),
         (''source'', opt_json JStr (cb_source m)), (''_apiType'', opt_json JStr (cb_apiType m)),
         (''messageType'', JStr ''TEXT''), (''isSelf'', JBool False), (''payload'', JObj [(''text'', JStr text)])])]"

section \<open>The decision to run the model again\<close>

definition STALE_INPUT_REASON_CODE :: string where
  "STALE_INPUT_REASON_CODE = ''newer_user_input_pending''"

definition hasStaleInputAbort :: "tool_call list \<Rightarrow> bool" where
  "hasStaleInputAbort cs \<longleftrightarrow> (\<exists>c \<in> set cs. member (tl_result c) ''staleInput'' = JBool True \<and>
     member (tl_result c) ''reasonCode'' = JStr STALE_INPUT_REASON_CODE)"

text \<open>\<open>resolveReplaySkipDecision\<close>; its reasons only appear in a log line.\<close>

definition replay_skipped :: "(tool_call \<Rightarrow> bool) \<Rightarrow> turn_outcome option \<Rightarrow> tool_call list \<Rightarrow> bool" where
  "replay_skipped blocks outcome cs =
     (let blocking = list_ex blocks cs in
      if \<not> blocking \<and> hasStaleInputAbort cs then False
      else (case outcome of None \<Rightarrow> False
              | Some x \<Rightarrow> to_kind x \<noteq> Reply_outcome \<or> list_ex (\<lambda>e. \<not> se_alreadyDispatched e) (to_sideEffects x)) \<or> blocking)"

section \<open>The local variables of one run\<close>

record flow_locals =
  fl_turn :: "reply_turn option"
  fl_all :: "callback list"
  fl_content :: string
  fl_token :: "string option"
  fl_groupId :: "string option"
  fl_consumed :: nat
  fl_result :: "agent_result option"
  fl_delivery :: "delivery_report option"
  fl_effects :: "jval option"

type_synonym ('w, 'a) core = "(flow_locals \<times> 'w, flow_exn, 'a) eact"

definition call :: "('w, 'a) flow \<Rightarrow> ('w, 'a) core" where
  "call m = (\<lambda>(l, w). case m w of (r, w') \<Rightarrow> (r, (l, w')))"

definition doing :: "('w \<Rightarrow> 'w) \<Rightarrow> ('w, unit) core" where
  "doing f = (\<lambda>(l, w). (Inr (), (l, f w)))"

definition look_up :: "(flow_locals \<Rightarrow> 'a) \<Rightarrow> ('w, 'a) core" where
  "look_up f = (\<lambda>(l, w). (Inr (f l), (l, w)))"

definition assign :: "(flow_locals \<Rightarrow> flow_locals) \<Rightarrow> ('w, unit) core" where
  "assign f = (\<lambda>(l, w). (Inr (), (f l, w)))"

abbreviation seq :: "('s, 'e, unit) eact \<Rightarrow> ('s, 'e, 'b) eact \<Rightarrow> ('s, 'e, 'b) eact" where
  "seq m n \<equiv> act_bind m (\<lambda>_. n)"

definition when_a :: "bool \<Rightarrow> ('s, 'e, unit) eact \<Rightarrow> ('s, 'e, unit) eact" where
  "when_a b m = (if b then m else act_ret ())"

definition ignore :: "('s, 'e, 'a) eact \<Rightarrow> ('s, 'e, unit) eact" where
  "ignore m = act_bind m (\<lambda>_. act_ret ())"

text \<open>The value or the error of a call, as a promise keeps it.\<close>

definition settled_result :: "('s, 'e, 'a) eact \<Rightarrow> ('s, 'e, 'e + 'a) eact" where
  "settled_result m = (\<lambda>s. case m s of (r, s') \<Rightarrow> (Inr r, s'))"

definition await :: "'e + 'a \<Rightarrow> ('s, 'e, 'a) eact" where
  "await r = (case r of Inl e \<Rightarrow> act_throw e | Inr v \<Rightarrow> act_ret v)"

definition tell :: "'w flow_ports \<Rightarrow> telemetry \<Rightarrow> ('w, unit) flow" where
  "tell P t = ignore (wf_telemetry P t)"

definition assert_owned :: "'w guard \<Rightarrow> ('w, unit) flow" where
  "assert_owned g = (case g of None \<Rightarrow> act_ret () | Some f \<Rightarrow> f)"

definition single_pass :: "reply_turn option \<Rightarrow> bool" where
  "single_pass t = (case t of None \<Rightarrow> False | Some x \<Rightarrow> t_policy x = Single_pass)"

section \<open>The route of a turn\<close>

text \<open>\<open>a === b\<close> for an optional text and a property of the recovery context.\<close>

definition same_text :: "string option \<Rightarrow> jval \<Rightarrow> bool" where
  "same_text a v = (case a of None \<Rightarrow> v = JUndef | Some s \<Rightarrow> v = JStr s)"

definition primary_of :: "reply_turn \<Rightarrow> jval" where
  "primary_of t = (case map_of (t_recovery t) ''primary'' of None \<Rightarrow> JUndef | Some v \<Rightarrow> v)"

definition route_matches :: "reply_turn \<Rightarrow> callback \<Rightarrow> bool" where
  "route_matches t m =
     (let p = primary_of t; api = nullish (member p ''_apiType'') (JStr ENTERPRISE) in
      p \<noteq> JUndef \<and> p \<noteq> JNull \<and>
      member p ''orgId'' = JStr (t_corp t) \<and> member p ''imBotId'' = JStr (t_account t) \<and> member p ''chatId'' = JStr (t_chat t) \<and>
      cb_orgId m = Some (t_corp t) \<and> cb_imBotId m = t_account t \<and> cb_chatId m = t_chat t \<and>
      JStr (case cb_apiType m of None \<Rightarrow> ENTERPRISE | Some a \<Rightarrow> a) = api \<and>
      (cb_groupId m = None \<or> same_text (cb_groupId m) (member p ''groupId'')) \<and>
      same_text (cb_imContactId m) (member p ''imContactId'') \<and> same_text (cb_imRoomId m) (member p ''imRoomId''))"

definition text_of :: "jval \<Rightarrow> string option" where
  "text_of v = (case v of JStr s \<Rightarrow> Some s | _ \<Rightarrow> None)"

definition resolveDurableRoute :: "'w flow_ports \<Rightarrow> reply_turn \<Rightarrow> callback \<Rightarrow> ('w, string \<times> string option) flow" where
  "resolveDurableRoute P t m =
     (let p = primary_of t in
      if \<not> route_matches t m then act_throw (Deferred_reply ''recovery_route_identity_mismatch'')
      else if nullish (member p ''_apiType'') (JStr ENTERPRISE) = JStr GROUP then
        act_bind (settled_result (wf_groupRoute P (t_corp t) (t_account t) (text_of (member p ''groupId'')))) (\<lambda>r.
          case r of Inr (Some route) \<Rightarrow> act_ret route
            | _ \<Rightarrow> act_throw (Deferred_reply ''group_credential_resolution''))
      else (case wf_enterpriseToken P of
          None \<Rightarrow> act_throw (Deferred_reply ''enterprise_credential_resolution'')
        | Some raw \<Rightarrow> (let token = trim raw in
            if token = [] then act_throw (Deferred_reply ''enterprise_credential_resolution'')
            else if t_plan t = None \<and> (case cb_token m of None \<Rightarrow> [] | Some s \<Rightarrow> s) \<noteq> token
              then act_throw (Deferred_reply ''enterprise_callback_unverified'')
            else act_ret (token, text_of (member p ''groupId'')))))"

section \<open>Acknowledging a turn\<close>

definition effects_of :: "reply_turn \<Rightarrow> jval" where
  "effects_of t = (case map_of (t_recovery t) ''effects'' of None \<Rightarrow> JUndef | Some v \<Rightarrow> v)"

definition ackDurableTurn :: "'w flow_ports \<Rightarrow> reply_turn \<Rightarrow> 'w guard \<Rightarrow> ('w, unit) flow" where
  "ackDurableTurn P t g =
     act_catch
       (seq (assert_owned g)
        (seq (if t_policy t = Single_pass \<and> t_projection t = No_projection
                then act_throw (Deferred_reply BUSINESS_EFFECTS_UNCONFIRMED) else act_ret ())
        (seq (if t_policy t = Single_pass \<and> t_projection t = Projection_pending
                then (case readOrdinaryReplyEffects (wf_isDatetime P) (effects_of t) of
                    None \<Rightarrow> act_throw (Agent_exn ''invalid effects'' False)
                  | Some (calls, c) \<Rightarrow> seq (wf_toolAnchors P calls c g) (wf_completeProjection P t))
                else act_ret ())
        (seq (wf_ackPendingIds P (t_chat t) (t_inputIds t))
        (seq (act_for (t_inputIds t) (\<lambda>id. seq (assert_owned g) (wf_markProcessed P id)))
        (seq (assert_owned g)
             (ignore (wf_acked P t))))))))
       (\<lambda>_. act_throw (Deferred_reply ''ack_repair_pending''))"

definition settleAndAckTurn :: "'w flow_ports \<Rightarrow> reply_turn \<Rightarrow> 'w guard \<Rightarrow> ('w, unit) flow" where
  "settleAndAckTurn P t g =
     seq (assert_owned g) (act_bind (wf_settle P t None) (\<lambda>settled. ackDurableTurn P settled g))"

definition ackPendingIfMerged :: "'w flow_ports \<Rightarrow> string \<Rightarrow> nat \<Rightarrow> ('w, unit) flow" where
  "ackPendingIfMerged P chat n =
     (if n = 0 then act_ret ()
      else act_catch (wf_ackPending P chat n) (\<lambda>_ w. (Inr (), wf_background P (Ack_alert chat) w)))"

text \<open>All of them are marked; a failure of one is only logged.\<close>

definition markMessagesAsProcessed :: "'w flow_ports \<Rightarrow> string list \<Rightarrow> ('w, unit) flow" where
  "markMessagesAsProcessed P ids = act_for ids (\<lambda>id. act_catch (wf_markProcessed P id) (\<lambda>_. act_ret ()))"

section \<open>Calling the agent\<close>

text \<open>Messages of a list whose id is not known yet; a message without an id is always new.\<close>

fun unseen :: "string list \<Rightarrow> callback list \<Rightarrow> callback list" where
  "unseen known [] = []"
| "unseen known (m # ms) =
     (if cb_messageId m = [] then m # unseen known ms
      else if cb_messageId m \<in> set known then unseen known ms
      else m # unseen (cb_messageId m # known) ms)"

definition fetchPendingSinceAgentStart :: "'w flow_ports \<Rightarrow> string \<Rightarrow> nat \<Rightarrow> callback list
    \<Rightarrow> ('w, callback list \<times> nat) flow" where
  "fetchPendingSinceAgentStart P chat from current =
     act_catch
       (act_bind (wf_claimPending P chat from) (\<lambda>(ms, n). act_ret (unseen (map cb_messageId current) ms, n)))
       (\<lambda>_. act_ret ([], 0))"

definition empty_response :: "'w flow_ports \<Rightarrow> turn_outcome \<Rightarrow> string \<Rightarrow> bool" where
  "empty_response P x content \<longleftrightarrow> content = [] \<and> to_kind x = Skipped_outcome \<and>
     \<not> list_ex (wf_shortCircuited P) (to_toolCalls x) \<and> \<not> to_silenced x"

definition invoke_result :: "turn_outcome \<Rightarrow> agent_result" where
  "invoke_result x =
     (let content = (case to_text x of Some t \<Rightarrow> t | None \<Rightarrow> (case to_generatedText x of Some t \<Rightarrow> t | None \<Rightarrow> []))
      in \<lparr>ar_content = content, ar_isFallback = False, ar_isSkipped = (to_kind x \<noteq> Reply_outcome),
          ar_guardrail = to_guardrail x, ar_outcome = Some x, ar_toolCalls = to_toolCalls x,
          ar_finalizer = Some (to_finalizer x)\<rparr>)"

text \<open>The body of \<open>callAgent\<close> after the run: an error is thrown with the evidence of the calls that were made.\<close>

definition agent_answer :: "'w flow_ports \<Rightarrow> string \<Rightarrow> turn_outcome \<Rightarrow> ('w, agent_result) flow" where
  "agent_answer P trace x =
     act_catch
       (seq (tell P (Agent_result trace))
         (if empty_response P x (ar_content (invoke_result x)) then act_throw (Agent_exn ''Agent empty response'' False)
          else act_ret (invoke_result x)))
       (\<lambda>e. act_throw (attachReplayEvidence (wf_replayEvidence P (to_toolCalls x)) e))"

definition callAgent :: "'w flow_ports \<Rightarrow> 'w agent_call \<Rightarrow> ('w, agent_result) flow" where
  "callAgent P a w =
     (case tell P (Ai_start (ag_messageId a)) w of
        (Inl e, w1) \<Rightarrow> (Inl e, w1)
      | (Inr _, w1) \<Rightarrow>
         (case wf_runTurn P a w1 of (r, w2) \<Rightarrow>
           (let made = (case r of Inl _ \<Rightarrow> False | Inr x \<Rightarrow> wf_replayEvidence P (to_toolCalls x)) in
            case (case r of Inl e \<Rightarrow> (Inl e, w2) | Inr x \<Rightarrow> agent_answer P (ag_messageId a) x w2) of (v, w3) \<Rightarrow>
              (case tell P (Ai_end (ag_messageId a)) w3 of
                 (Inl e, w4) \<Rightarrow>
                   (Inl (attachReplayEvidence (made \<or> (case v of Inl e' \<Rightarrow> hasReplayEvidence e' | Inr _ \<Rightarrow> False)) e), w4)
               | (Inr _, w4) \<Rightarrow> (v, w4)))))"

text \<open>Each pair of a message and its picture is described; with none there is nothing to wait for.\<close>

definition pictures :: "'w agent_call \<Rightarrow> (string \<times> string) list" where
  "pictures a = filter (\<lambda>(i, u). i \<noteq> [] \<and> u \<noteq> []) (zip (ag_imageMessageIds a) (ag_imageUrls a))"

definition prepareRuntimeCompatibilityDescriptions :: "'w flow_ports \<Rightarrow> 'w agent_call \<Rightarrow> ('w, bool) flow" where
  "prepareRuntimeCompatibilityDescriptions P a w =
     (let w1 = fold (\<lambda>(i, u). wf_describe P i u (map_of (ag_visualTypes a) i = Some True)) (pictures a) w in
      if pictures a = [] then (Inr False, w1)
      else act_bind (wf_awaitVision P (map fst (pictures a))) (\<lambda>_. act_ret True) w1)"

definition callAgentWithVisualCompatibilityFallback :: "'w flow_ports \<Rightarrow> 'w agent_call \<Rightarrow> ('w, agent_result) flow" where
  "callAgentWithVisualCompatibilityFallback P a =
     act_catch (callAgent P a) (\<lambda>e.
       if hasReplayEvidence e \<or> imageCompatibilityRetries < 1 then act_throw e
       else if ag_imageUrls a = [] \<or> ag_imageMessageIds a = [] then act_throw e
       else act_bind (prepareRuntimeCompatibilityDescriptions P a) (\<lambda>prepared.
         if \<not> prepared then act_throw e
         else callAgent P (a\<lparr>ag_imageUrls := [], ag_imageMessageIds := [], ag_visualTypes := []\<rparr>)))"

section \<open>processMessageCore\<close>

record 'w core_params =
  cp_primary :: callback
  cp_traceId :: string
  cp_chatId :: string
  cp_content :: string
  cp_batch :: "callback list option"
  cp_pendingAck :: nat
  cp_resume :: "reply_turn option"
  cp_owner :: "'w guard"

definition core_start :: "'w core_params \<Rightarrow> flow_locals" where
  "core_start p = \<lparr>fl_turn = None, fl_all = (case cp_batch p of None \<Rightarrow> [cp_primary p] | Some ms \<Rightarrow> ms), fl_content = cp_content p,
     fl_token = cb_token (cp_primary p), fl_groupId = cb_groupId (cp_primary p), fl_consumed = cp_pendingAck p,
     fl_result = None, fl_delivery = None, fl_effects = None\<rparr>"

definition core_open :: "'w flow_ports \<Rightarrow> 'w core_params \<Rightarrow> ('w, unit) core" where
  "core_open P p =
     act_bind (look_up fl_all) (\<lambda>ms.
     act_bind
       (case cp_resume p of
          Some t \<Rightarrow> act_ret (Some t)
        | None \<Rightarrow> if \<not> wf_durable P then act_ret None
            else call (wf_open P ((scope_of_message (cp_primary p))\<lparr>t_chat := cp_chatId p\<rparr>) (map cb_messageId ms)
              (inputOccurredAt ms) (replyRecoveryContext (cp_primary p) (cp_content p))))
       (\<lambda>t. assign (\<lambda>l. l\<lparr>fl_turn := t\<rparr>)))"

text \<open>The messages of the turn; when none of them is at hand, stand-ins with their ids made from the saved route.
  Only the id, the pictures and the time of a message are used from here on.\<close>

definition stand_in :: "callback \<Rightarrow> jval \<Rightarrow> string \<Rightarrow> string \<Rightarrow> callback" where
  "stand_in m v token i = m\<lparr>cb_token := Some token, cb_messageId := i,
     cb_imageUrl := None, cb_artworkUrl := None, cb_isEmotion := False,
     cb_timestamp := (case member v ''timestamp'' of JStr t \<Rightarrow> t | _ \<Rightarrow> ''undefined''), cb_receivedAt := None\<rparr>"

definition core_route :: "'w flow_ports \<Rightarrow> 'w core_params \<Rightarrow> reply_turn \<Rightarrow> ('w, unit) core" where
  "core_route P p t =
     act_bind (call (resolveDurableRoute P t (cp_primary p))) (\<lambda>(token, grp).
       assign (\<lambda>l.
         let mine = filter (\<lambda>m. cb_messageId m \<in> set (t_inputIds t)) (fl_all l) in
         l\<lparr>fl_token := Some token, fl_groupId := grp,
           fl_all := (if mine = [] then map (stand_in (cp_primary p) (primary_of t) token) (t_inputIds t) else mine),
           fl_content := (case map_of (t_recovery t) ''userMessage'' of Some (JStr s) \<Rightarrow> s | _ \<Rightarrow> cp_content p)\<rparr>))"

definition parsed_now :: "'w core_params \<Rightarrow> flow_locals \<Rightarrow> parsed_message" where
  "parsed_now p l = (parse (cp_primary p))\<lparr>pm_token := fl_token l, pm_groupId := fl_groupId l\<rparr>"

definition flow_context_of :: "'w core_params \<Rightarrow> flow_locals \<Rightarrow> reply_turn option \<Rightarrow> 'w guard \<Rightarrow> 'w flow_context" where
  "flow_context_of p l t g = \<lparr>fx_parsed = parsed_now p l, fx_traceId = cp_traceId p, fx_turn = t, fx_owner = g\<rparr>"

text \<open>The parameters of the agent's run, from the locals at the time of the call.\<close>

definition agent_params :: "'w flow_ports \<Rightarrow> 'w core_params \<Rightarrow> string option \<Rightarrow> string option \<Rightarrow> flow_locals \<Rightarrow> 'w agent_call" where
  "agent_params P p model who l =
     \<lparr>ag_sessionId = cp_chatId p, ag_turn = map_option t_turn (fl_turn l), ag_inputAt = map_option t_inputAt (fl_turn l),
      ag_messageId = cp_traceId p, ag_userId = resolveAgentUserId (cp_primary p) (parse (cp_primary p)),
      ag_corpId = resolveCorpId (cp_primary p), ag_botUserId = who, ag_botImId = cb_imBotId (cp_primary p),
      ag_groupId = fl_groupId l, ag_token = fl_token l, ag_modelId = model, ag_userMessage = fl_content l,
      ag_imageUrls = collectImageUrls (fl_all l), ag_imageMessageIds = collectImageMessageIds (fl_all l),
      ag_visualTypes = buildVisualMessageTypes (fl_all l), ag_endTime = resolveShortTermEndTimeInclusive (fl_all l),
      ag_newer = seq (if single_pass (fl_turn l) then wf_inputActive P (the (fl_turn l)) else act_ret ())
        (act_bind (fetchPendingSinceAgentStart P (cp_chatId p) (fl_consumed l) (fl_all l)) (\<lambda>(ms, _). act_ret (ms \<noteq> [])))\<rparr>"

definition run_agent :: "'w flow_ports \<Rightarrow> 'w core_params \<Rightarrow> string option \<Rightarrow> string option \<Rightarrow> ('w, unit) core" where
  "run_agent P p model who =
     act_bind (look_up (agent_params P p model who)) (\<lambda>a.
     act_bind (call (callAgentWithVisualCompatibilityFallback P a)) (\<lambda>r. assign (\<lambda>l. l\<lparr>fl_result := Some r\<rparr>)))"

definition plain_result :: "reply_turn \<Rightarrow> agent_result" where
  "plain_result t = (let text = (case t_plan t of Some q \<Rightarrow> pl_text q | None \<Rightarrow> []) in
     \<lparr>ar_content = text, ar_isFallback = True, ar_isSkipped = False, ar_guardrail = False,
      ar_outcome = Some \<lparr>to_kind = Reply_outcome, to_receipt = None, to_sideEffects = [], to_toolCalls = [], to_text = Some text,
        to_generatedText = None, to_silenced = False, to_guardrail = False, to_finalizer = 0\<rparr>,
      ar_toolCalls = [], ar_finalizer = None\<rparr>)"

text \<open>What was saved with a plan is read by the port \<open>wf_restore\<close>; without it the text of the plan is the reply.\<close>

definition restoreReplyResult :: "'w flow_ports \<Rightarrow> reply_turn \<Rightarrow> agent_result" where
  "restoreReplyResult P t = (case wf_restore P t of Some r \<Rightarrow> r\<lparr>ar_finalizer := None\<rparr> | None \<Rightarrow> plain_result t)"

definition is_deferred :: "flow_exn \<Rightarrow> bool" where
  "is_deferred e = (case e of Deferred_reply _ \<Rightarrow> True | _ \<Rightarrow> False)"

text \<open>Until the result is known; \<open>False\<close> when the run ends here because a failure was handled.\<close>

definition core_generate :: "'w flow_ports \<Rightarrow> 'w core_params \<Rightarrow> string option \<Rightarrow> string option \<Rightarrow> ('w, bool) core" where
  "core_generate P p model who =
     act_bind (look_up fl_turn) (\<lambda>turn. case turn of
       None \<Rightarrow> seq (run_agent P p model who) (act_ret True)
     | Some t \<Rightarrow>
         if t_plan t \<noteq> None then seq (assign (\<lambda>l. l\<lparr>fl_result := Some (restoreReplyResult P t)\<rparr>)) (act_ret True)
         else act_catch (seq (run_agent P p model who) (act_ret True)) (\<lambda>e.
           if \<not> wf_durable P \<or> is_deferred e then act_throw e
           else if t_policy t = Single_pass then act_throw (Deferred_reply BUSINESS_EFFECTS_UNCONFIRMED)
           else act_bind (look_up (\<lambda>l. l)) (\<lambda>l.
             seq (call (wf_handleError P e (parsed_now p l) (cp_traceId p) (t_inputIds t) (Some (flow_context_of p l (Some t) None))))
             (act_bind (call (wf_settle P t None)) (\<lambda>settled.
              seq (call (ackDurableTurn P settled None)) (act_ret False))))))"

definition the_result :: "flow_locals \<Rightarrow> agent_result" where
  "the_result l = the (fl_result l)"

definition memory :: "(nat \<Rightarrow> 'w \<Rightarrow> 'w) \<Rightarrow> agent_result \<Rightarrow> 'w \<Rightarrow> 'w" where
  "memory f r = (case ar_finalizer r of None \<Rightarrow> (\<lambda>w. w) | Some h \<Rightarrow> f h)"

text \<open>The loop before the delivery; the first argument counts the attempts left.\<close>

fun replay_loop :: "nat \<Rightarrow> 'w flow_ports \<Rightarrow> 'w core_params \<Rightarrow> string option \<Rightarrow> string option \<Rightarrow> ('w, unit) core" where
  "replay_loop 0 P p model who = act_ret ()"
| "replay_loop (Suc n) P p model who =
     act_bind (look_up (\<lambda>l. l)) (\<lambda>l.
     if fl_turn l \<noteq> None then act_ret ()
     else if replay_skipped (wf_blocksReplay P) (ar_outcome (the_result l)) (ar_toolCalls (the_result l)) then act_ret ()
     else
       act_bind (call (fetchPendingSinceAgentStart P (cp_chatId p) (fl_consumed l) (fl_all l))) (\<lambda>(new, size).
       seq (assign (\<lambda>l. l\<lparr>fl_consumed := fl_consumed l + size\<rparr>))
       (if new = [] then act_ret ()
        else
         seq (doing (memory (wf_discardMemory P) (the_result l)))
         (seq (assign (\<lambda>l. l\<lparr>fl_all := fl_all l @ new, fl_content := wf_content P (fl_all l @ new)\<rparr>))
         (seq (call (tell P (Update_messages (cp_traceId p) (map cb_messageId (fl_all l @ new)))))
         (seq (call (tell P (Merge_prep (cp_traceId p) (map cb_messageId new))))
         (seq (run_agent P p model who)
              (replay_loop n P p model who))))))))"

definition channel_identity :: "'w core_params \<Rightarrow> string option \<Rightarrow> (string \<times> string) list" where
  "channel_identity p who =
     (let m = cp_primary p in
      List.map_filter (\<lambda>(k, v). map_option (Pair k) v)
        [(''candidateName'', cb_contactName m), (''managerName'', (case who of Some b \<Rightarrow> Some b | None \<Rightarrow> cb_botUserId m)),
         (''botImId'', Some (cb_imBotId m)), (''imContactId'', pm_imContactId (parse m)), (''externalUserId'', cb_externalUserId m)])"

definition anchor_context_of :: "'w core_params \<Rightarrow> string option \<Rightarrow> reply_turn option \<Rightarrow> anchor_context" where
  "anchor_context_of p who t =
     \<lparr>ax_traceId = (case t of Some x \<Rightarrow> t_turn x | None \<Rightarrow> cp_traceId p), ax_turn = map_option t_turn t,
      ax_inputAt = map_option (\<lambda>x. iso_text (t_inputAt x)) t, ax_chatId = cp_chatId p,
      ax_userId = resolveAgentUserId (cp_primary p) (parse (cp_primary p)), ax_corpId = resolveCorpId (cp_primary p),
      ax_isGroupChat = given (cb_imRoomId (cp_primary p)), ax_identity = Some (channel_identity p who)\<rparr>"

definition is_reply :: "agent_result \<Rightarrow> bool" where
  "is_reply r = (case ar_outcome r of None \<Rightarrow> False | Some x \<Rightarrow> to_kind x = Reply_outcome)"

text \<open>The plan of a frozen turn, and the business effects of an ordinary one, are saved before anything is sent.\<close>

definition outbound_text :: "agent_result \<Rightarrow> string" where
  "outbound_text r = (case ar_outcome r of
       Some x \<Rightarrow> (case to_kind x of Handoff_outcome \<Rightarrow> (case to_receipt x of Some t \<Rightarrow> t | None \<Rightarrow> [])
         | Reply_outcome \<Rightarrow> ar_content r | Skipped_outcome \<Rightarrow> [])
     | None \<Rightarrow> [])"

definition core_save :: "'w flow_ports \<Rightarrow> 'w core_params \<Rightarrow> string option \<Rightarrow> ('w, unit) core" where
  "core_save P p who =
     act_bind (look_up (\<lambda>l. l)) (\<lambda>l. case fl_turn l of
       None \<Rightarrow> act_ret ()
     | Some t \<Rightarrow>
         if t_policy t \<noteq> Single_pass then
           seq (call (assert_owned (cp_owner p)))
           (act_bind (call (wf_preparePlan P (outbound_text (the_result l)) (flow_context_of p l (Some t) (cp_owner p)) (the_result l)))
             (\<lambda>saved. assign (\<lambda>l. l\<lparr>fl_turn := Some (case saved of Some x \<Rightarrow> x | None \<Rightarrow> t)\<rparr>)))
         else act_ret ())"

definition core_effects :: "'w flow_ports \<Rightarrow> 'w core_params \<Rightarrow> string option \<Rightarrow> ('w, unit) core" where
  "core_effects P p who =
     act_bind (look_up (\<lambda>l. l)) (\<lambda>l.
     if single_pass (fl_turn l) then
       (case ordinaryReplyEffects (wf_isDatetime P) (ar_toolCalls (the_result l)) (anchor_context_of p who (fl_turn l)) of
          None \<Rightarrow> act_throw (Agent_exn ''invalid effects'' False)
        | Some v \<Rightarrow>
            seq (assign (\<lambda>l. l\<lparr>fl_effects := Some v\<rparr>))
            (act_bind (call (wf_saveEffects P (the (fl_turn l)) v)) (\<lambda>t. assign (\<lambda>l. l\<lparr>fl_turn := Some t\<rparr>))))
     else act_ret ())"

text \<open>The receipt of what was already done, before a person takes over.\<close>

definition deliverPreHandoffReceipt :: "'w flow_ports \<Rightarrow> 'w core_params \<Rightarrow> flow_locals \<Rightarrow> ('w, unit) flow" where
  "deliverPreHandoffReceipt P p l =
     (case ar_outcome (the_result l) of
        Some x \<Rightarrow>
          (case to_receipt x of
             Some text \<Rightarrow>
               if to_kind x = Handoff_outcome \<and> trim text \<noteq> [] then
                 act_catch (ignore (wf_deliver P text (flow_context_of p l (fl_turn l) (cp_owner p)) False))
                   (\<lambda>e. if is_deferred e then act_throw e else act_ret ())
               else act_ret ()
           | None \<Rightarrow> act_ret ())
      | None \<Rightarrow> act_ret ())"

definition core_handoff :: "'w flow_ports \<Rightarrow> 'w core_params \<Rightarrow> ('w, unit) core" where
  "core_handoff P p =
     act_bind (look_up (\<lambda>l. l)) (\<lambda>l.
     if is_reply (the_result l) then act_ret ()
     else
       act_bind (call (settled_result (deliverPreHandoffReceipt P p l))) (\<lambda>receipt.
       seq (call (assert_owned (cp_owner p)))
       (seq (call (wf_commitOutcome P (ar_outcome (the_result l)) (cp_traceId p)))
            (await receipt))))"

text \<open>The promise of \<open>handleToolAnchors\<close> is waited for when the input has a turn.\<close>

definition core_anchors :: "'w flow_ports \<Rightarrow> 'w core_params \<Rightarrow> string option \<Rightarrow> ('w, unit) core" where
  "core_anchors P p who =
     act_bind (look_up (\<lambda>l. l)) (\<lambda>l.
     let c = anchor_context_of p who (fl_turn l) in
     act_bind (call (settled_result (wf_toolAnchors P (ar_toolCalls (the_result l)) c (cp_owner p)))) (\<lambda>terminal.
     seq (case fl_turn l of
            None \<Rightarrow> act_ret ()
          | Some t \<Rightarrow>
              if t_policy t = Single_pass \<and> t_projection t = Projection_pending
              then seq (await terminal) (seq (call (wf_completeProjection P t))
                     (assign (\<lambda>l. l\<lparr>fl_turn := Some (t\<lparr>t_projection := Projection_complete\<rparr>)\<rparr>)))
              else act_ret ())
     (seq (if fl_turn l = None then act_ret () else await terminal)
          (if \<not> given (cb_imRoomId (cp_primary p)) \<and> cp_resume p = None
           then doing (wf_background P (Reconcile c (list_ex (wf_bookingSucceeded P) (ar_toolCalls (the_result l)))))
           else act_ret ()))))"

definition advanceProcessedCandidateWatermark :: "'w flow_ports \<Rightarrow> 'w core_params \<Rightarrow> callback list \<Rightarrow> bool \<Rightarrow> ('w, unit) flow" where
  "advanceProcessedCandidateWatermark P p ms strict =
     (let m = cp_primary p; top = fold max (List.map_filter (\<lambda>x. to_number_text (cb_timestamp x)) ms) 0 in
      if given (cb_imRoomId m) \<or> top \<le> 0 then act_ret ()
      else act_catch (wf_watermark P (resolveCorpId m) (resolveAgentUserId m (parse m)) (cp_chatId p) top)
        (\<lambda>e. if strict then act_throw e else act_ret ()))"

text \<open>The end of both branches: the candidate's messages are done with, and so is the input.\<close>

definition core_finish :: "'w flow_ports \<Rightarrow> 'w core_params \<Rightarrow> string list \<Rightarrow> ('w, unit) core" where
  "core_finish P p ids =
     act_bind (look_up (\<lambda>l. l)) (\<lambda>l.
     seq (call (assert_owned (cp_owner p)))
     (seq (call (advanceProcessedCandidateWatermark P p (fl_all l) (fl_turn l \<noteq> None)))
     (case fl_turn l of
        Some t \<Rightarrow> if wf_durable P then call (settleAndAckTurn P t (cp_owner p))
                  else seq (call (markMessagesAsProcessed P ids)) (call (ackPendingIfMerged P (cp_chatId p) (fl_consumed l)))
      | None \<Rightarrow> seq (call (markMessagesAsProcessed P ids)) (call (ackPendingIfMerged P (cp_chatId p) (fl_consumed l))))))"

definition core_silent :: "'w flow_ports \<Rightarrow> 'w core_params \<Rightarrow> string list \<Rightarrow> ('w, unit) core" where
  "core_silent P p ids =
     act_bind (look_up (\<lambda>l. l)) (\<lambda>l.
     seq (call (tell P (Reply_skipped (cp_traceId p))))
     (seq (call (tell P (Success_metadata (cp_traceId p) 0)))
     (seq (doing (wf_background P (Record_success (cp_traceId p))))
     (seq (doing (memory (\<lambda>h. wf_settleMemory P h False None) (the_result l)))
          (core_finish P p ids)))))"

section \<open>The reply is sent\<close>

definition wasReplyActuallyDelivered :: "delivery_report \<Rightarrow> bool" where
  "wasReplyActuallyDelivered r \<longleftrightarrow> \<not> rp_skipped r \<and> 0 < rp_delivered r"

definition commitReplyOutcomeSideEffects :: "'w flow_ports \<Rightarrow> turn_outcome option \<Rightarrow> string \<Rightarrow> bool \<Rightarrow> ('w, unit) flow" where
  "commitReplyOutcomeSideEffects P outcome trace delivered =
     (case outcome of
        None \<Rightarrow> act_ret ()
      | Some x \<Rightarrow>
          if to_kind x \<noteq> Reply_outcome \<or> to_sideEffects x = [] then act_ret ()
          else (let kept = (if delivered then to_sideEffects x else
                  filter (\<lambda>e. \<not> (se_kind e = ''general_handoff'' \<and> se_origin e = Some ''promise_reconciliation'')) (to_sideEffects x))
            in if kept = [] then act_ret ()
               else act_catch (wf_commitOutcome P (Some (x\<lparr>to_sideEffects := kept\<rparr>)) trace) (\<lambda>_. act_ret ())))"

datatype reply_kind = Opening_reply | Plain_reply | Unknown_reply

definition recordAgentReplied :: "'w flow_ports \<Rightarrow> 'w core_params \<Rightarrow> string option \<Rightarrow> reply_turn option \<Rightarrow> ('w, reply_kind) flow" where
  "recordAgentReplied P p who t =
     (if given (cb_imRoomId (cp_primary p)) then act_ret Unknown_reply
      else
        (let g = (if t = None then None else cp_owner p); c = anchor_context_of p who t;
             trace = (case t of Some x \<Rightarrow> t_turn x | None \<Rightarrow> cp_traceId p) in
         act_catch
           (seq (assert_owned g)
            (act_bind (wf_recordOpening P (cp_chatId p @ '':opening'') t g) (\<lambda>opening.
             case opening of
               Write_failed \<Rightarrow> act_ret Unknown_reply
             | Inserted \<Rightarrow>
                 seq (assert_owned g)
                  (case t of
                     Some x \<Rightarrow> act_bind (wf_scheduleOpening P c (t_inputAt x)) (\<lambda>ok.
                       if ok then act_ret Opening_reply else act_throw (Agent_exn ''Opening schedule not persisted'' False))
                   | None \<Rightarrow> (\<lambda>w. (Inr Opening_reply, wf_background P (Opening_schedule c (wf_now P w)) w)))
             | Duplicate \<Rightarrow>
                 seq (assert_owned g) (seq (wf_recordReplied P (trace @ '':replied'') t g) (act_ret Plain_reply)))))
           (\<lambda>e. if t = None then act_ret Unknown_reply else act_throw e)))"

definition core_delivered :: "'w flow_ports \<Rightarrow> 'w core_params \<Rightarrow> string option \<Rightarrow> flow_locals \<Rightarrow> ('w, unit) flow" where
  "core_delivered P p who l =
     seq (assert_owned (cp_owner p))
     (act_bind (recordAgentReplied P p who (fl_turn l)) (\<lambda>kind.
      act_catch (wf_replyAnchors P (the_result l) (anchor_context_of p who (fl_turn l)) (cp_owner p) (kind \<noteq> Plain_reply))
        (\<lambda>e. if fl_turn l \<noteq> None then act_throw e else act_ret ())))"

definition core_reply :: "'w flow_ports \<Rightarrow> 'w core_params \<Rightarrow> string option \<Rightarrow> string list \<Rightarrow> ('w, unit) core" where
  "core_reply P p who ids =
     act_bind (look_up (\<lambda>l. l)) (\<lambda>l.
     act_bind (call (wf_deliver P (ar_content (the_result l)) (flow_context_of p l (fl_turn l) (cp_owner p)) True)) (\<lambda>r.
     seq (assign (\<lambda>l. l\<lparr>fl_delivery := Some r\<rparr>))
     (seq (call (assert_owned (cp_owner p)))
     (seq (call (commitReplyOutcomeSideEffects P (ar_outcome (the_result l)) (cp_traceId p) (wasReplyActuallyDelivered r)))
     (seq (if wasReplyActuallyDelivered r then call (core_delivered P p who l) else act_ret ())
     (seq (doing (memory (\<lambda>h. wf_settleMemory P h
            (case rp_acceptedText r of Some t \<Rightarrow> t \<noteq> [] | None \<Rightarrow> wasReplyActuallyDelivered r) (rp_acceptedText r)) (the_result l)))
     (seq (call (tell P (Success_metadata (cp_traceId p) (rp_count r))))
     (seq (doing (wf_background P (Record_success (cp_traceId p))))
          (core_finish P p ids)))))))))"

section \<open>The try block, its catch and its finally\<close>

definition core_try :: "'w flow_ports \<Rightarrow> 'w core_params \<Rightarrow> string option \<Rightarrow> string option \<Rightarrow> ('w, unit) core" where
  "core_try P p model who =
     seq (replay_loop MAX_REPLAY_ATTEMPTS P p model who)
     (act_bind (look_up (\<lambda>l. l)) (\<lambda>l.
      seq (doing (wf_background P (Backfill_missing (collectImageMessageIds (fl_all l)) (ar_toolCalls (the_result l)))))
      (seq (if ar_isFallback (the_result l) then doing (wf_background P (Fallback_alert (cp_chatId p))) else act_ret ())
      (seq (core_save P p who)
      (act_bind (look_up (\<lambda>l. case fl_turn l of Some t \<Rightarrow> t_inputIds t | None \<Rightarrow> map cb_messageId (fl_all l))) (\<lambda>ids.
      seq (core_effects P p who)
      (seq (core_handoff P p)
      (seq (core_anchors P p who)
           (act_bind (look_up (\<lambda>l. is_reply (the_result l))) (\<lambda>reply.
              if reply then core_reply P p who ids else core_silent P p ids))))))))))"

definition nothing_delivered :: delivery_report where
  "nothing_delivered = \<lparr>rp_success = False, rp_count = 0, rp_failed = 0, rp_delivered = 0, rp_acceptedText = None, rp_unknown = 0,
     rp_totalTime = 0, rp_error = None, rp_skipped = False, rp_skipReason = None\<rparr>"

definition failed_delivery :: "flow_exn \<Rightarrow> delivery_report option \<Rightarrow> delivery_report option" where
  "failed_delivery e known = (case e of Undelivered _ r \<Rightarrow> Some r | _ \<Rightarrow> known)"

definition failed_summary :: "delivery_report option \<Rightarrow> delivery_summary" where
  "failed_summary r = (let x = (case r of Some x \<Rightarrow> x | None \<Rightarrow> nothing_delivered) in
     \<lparr>ds_outcome = (if rp_unknown x \<noteq> 0 then Unknown_outcome else Incomplete),
      ds_accepted = Some (int (rp_delivered x)), ds_total = Some (int (rp_count x))\<rparr>)"

definition core_catch :: "'w flow_ports \<Rightarrow> 'w core_params \<Rightarrow> flow_exn \<Rightarrow> ('w, unit) core" where
  "core_catch P p e =
     act_bind (look_up (\<lambda>l. l)) (\<lambda>l.
     let failure = failed_delivery e (fl_delivery l);
         accepted = (case failure of None \<Rightarrow> None | Some r \<Rightarrow> rp_acceptedText r) in
     seq (doing (memory (\<lambda>h. wf_settleMemory P h (given accepted) accepted) (the_result l)))
     (case fl_turn l of
        None \<Rightarrow> act_throw e
      | Some t \<Rightarrow>
          if t_policy t \<noteq> Single_pass then
            (if is_deferred e then act_throw e else act_throw (Deferred_reply ''reply_local_repair_pending''))
          else
            seq (if t_projection t = No_projection then
                   (case fl_effects l of
                      None \<Rightarrow> act_throw (Deferred_reply BUSINESS_EFFECTS_UNCONFIRMED)
                    | Some v \<Rightarrow> act_bind (call (wf_saveEffects P t v)) (\<lambda>x. assign (\<lambda>l. l\<lparr>fl_turn := Some x\<rparr>)))
                 else act_ret ())
            (act_bind (look_up (\<lambda>l. the (fl_turn l))) (\<lambda>t'.
             seq (call (wf_handleError P
                   (case e of Undelivered _ _ \<Rightarrow> e
                    | _ \<Rightarrow> Undelivered (flow_message e) (case failure of Some r \<Rightarrow> r | None \<Rightarrow> nothing_delivered))
                   (parsed_now p l) (cp_traceId p) (t_inputIds t') None))
             (act_bind (call (wf_settle P t' (Some (failed_summary failure)))) (\<lambda>settled.
              call (ackDurableTurn P settled (cp_owner p))))))))"

definition core_finally :: "'w flow_ports \<Rightarrow> 'w core_params \<Rightarrow> ('w, unit) core" where
  "core_finally P p =
     act_bind (look_up (\<lambda>l. l)) (\<lambda>l.
     seq (doing (memory (wf_whenSettled P) (the_result l)))
         (doing (wf_background P (Schedule_backfill (cp_chatId p) (collectImageMessageIds (fl_all l))))))"

definition core_run :: "'w flow_ports \<Rightarrow> 'w core_params \<Rightarrow> ('w, unit) core" where
  "core_run P p =
     act_bind (call (wf_modelSelection P)) (\<lambda>model.
     act_bind (call (wf_botUser P (cb_imBotId (cp_primary p)))) (\<lambda>found.
     let who = (case found of Some b \<Rightarrow> Some b | None \<Rightarrow> map_option trim (cb_botUserId (cp_primary p))) in
     seq (doing (wf_background P (Backfill_bare (cp_chatId p))))
     (act_bind (core_generate P p model who) (\<lambda>go_on.
        if go_on then act_finally (act_catch (core_try P p model who) (core_catch P p)) (core_finally P p)
        else act_ret ()))))"

definition core_main :: "'w flow_ports \<Rightarrow> 'w core_params \<Rightarrow> ('w, unit) core" where
  "core_main P p =
     seq (core_open P p)
     (act_bind (look_up fl_turn) (\<lambda>turn. case turn of
        None \<Rightarrow> core_run P p
      | Some t \<Rightarrow>
          if t_status t = Settled \<or> t_status t = Acked then call (ackDurableTurn P t (cp_owner p))
          else seq (core_route P p t) (core_run P p)))"

definition processMessageCore :: "'w flow_ports \<Rightarrow> 'w core_params \<Rightarrow> ('w, unit) flow" where
  "processMessageCore P p w = (case core_main P p (core_start p, w) of (r, (_, w')) \<Rightarrow> (r, w'))"

section \<open>The three ways in\<close>

definition single_params :: "callback \<Rightarrow> 'w core_params" where
  "single_params m = \<lparr>cp_primary = m, cp_traceId = cb_messageId m, cp_chatId = cb_chatId m, cp_content = cb_content m,
     cp_batch = None, cp_pendingAck = 0, cp_resume = None, cp_owner = None\<rparr>"

definition processSingleMessage :: "'w flow_ports \<Rightarrow> callback \<Rightarrow> ('w, unit) flow" where
  "processSingleMessage P m =
     (let trace = cb_messageId m in
      act_catch
        (act_bind (wf_telemetry P (Has_trace trace)) (\<lambda>known.
         seq (when_a (\<not> known) (tell P (Start_trace trace [trace])))
         (seq (tell P (Update_dispatch trace ''direct''))
         (seq (tell P (Worker_start trace))
              (processMessageCore P (single_params m))))))
        (\<lambda>e. if is_deferred e then wf_addMessage P m else wf_handleError P e (parse m) trace [trace] None))"

definition merged_params :: "'w flow_ports \<Rightarrow> callback list \<Rightarrow> string \<Rightarrow> nat \<Rightarrow> 'w core_params" where
  "merged_params P ms batch n = \<lparr>cp_primary = last ms, cp_traceId = batch, cp_chatId = cb_chatId (last ms),
     cp_content = wf_content P ms, cp_batch = Some ms, cp_pendingAck = n, cp_resume = None, cp_owner = None\<rparr>"

definition processMergedMessages :: "'w flow_ports \<Rightarrow> callback list \<Rightarrow> string \<Rightarrow> nat \<Rightarrow> ('w, unit) flow" where
  "processMergedMessages P ms batch n =
     (if ms = [] then act_ret ()
      else
        (let ids = map cb_messageId ms in
         act_catch
           (seq (tell P (Start_trace batch ids))
           (seq (tell P (Merge_prep batch ids))
           (seq (tell P (Update_dispatch batch ''merged''))
           (seq (tell P (Worker_start batch))
                (processMessageCore P (merged_params P ms batch n))))))
           (\<lambda>e. if is_deferred e then act_ret ()
                else seq (wf_handleError P e (parse (last ms)) batch ids None)
                         (ackPendingIfMerged P (cb_chatId (last ms)) n))))"

text \<open>A message made from the saved route of a turn, as recovery sees it.\<close>

definition recovered_message :: "reply_turn \<Rightarrow> string \<Rightarrow> callback" where
  "recovered_message t token =
     (let p = primary_of t; f = (\<lambda>k. text_of (member p k)); g = (\<lambda>k. case f k of Some s \<Rightarrow> s | None \<Rightarrow> []) in
      \<lparr>cb_messageId = g ''messageId'', cb_chatId = g ''chatId'', cb_orgId = f ''orgId'', cb_imBotId = g ''imBotId'',
       cb_imContactId = f ''imContactId'', cb_imRoomId = f ''imRoomId'', cb_contactName = f ''contactName'',
       cb_botUserId = f ''botUserId'', cb_externalUserId = f ''externalUserId'', cb_groupId = f ''groupId'', cb_source = f ''source'',
       cb_apiType = f ''_apiType'', cb_token = Some token,
       cb_timestamp = (case f ''timestamp'' of Some s \<Rightarrow> s | None \<Rightarrow> ''undefined''), cb_receivedAt = None,
       cb_content = (case member (member p ''payload'') ''text'' of JStr s \<Rightarrow> s | _ \<Rightarrow> []),
       cb_imageUrl = None, cb_artworkUrl = None, cb_isEmotion = False\<rparr>)"

definition resume_params :: "reply_turn \<Rightarrow> string \<Rightarrow> string \<Rightarrow> 'w guard \<Rightarrow> 'w core_params" where
  "resume_params t token trace g = \<lparr>cp_primary = recovered_message t token, cp_traceId = trace, cp_chatId = t_chat t,
     cp_content = (case map_of (t_recovery t) ''userMessage'' of Some (JStr s) \<Rightarrow> s | _ \<Rightarrow> []), cp_batch = None,
     cp_pendingAck = 0, cp_resume = Some t, cp_owner = g\<rparr>"

text \<open>\<open>uuid\<close> is what \<open>randomUUID\<close> gives to this call.\<close>

definition resumePersistedReply :: "'w flow_ports \<Rightarrow> string \<Rightarrow> reply_turn \<Rightarrow> string \<Rightarrow> 'w guard \<Rightarrow> ('w, unit) flow" where
  "resumePersistedReply P uuid t token g =
     seq (assert_owned g)
     (if t_status t = Settled \<or> t_status t = Acked then ackDurableTurn P t g
      else if t_policy t = Single_pass then
        seq (assert_owned g) (act_bind (wf_interrupt P t) (\<lambda>x. ackDurableTurn P x g))
      else if t_plan t = None then act_throw (Deferred_reply ''no_recoverable_reply_plan'')
      else
        (let trace = ''reply-recovery_'' @ uuid in
         seq (tell P (Start_trace trace []))
         (seq (tell P (Update_dispatch trace ''direct''))
         (seq (tell P (Worker_start trace))
              (processMessageCore P (resume_params t token trace g))))))"

end
