(* ===== verification/Triples.thy ===== *)
theory Triples
  imports Prelude
begin

text \<open>
  Assertions about effectful calls.  \<open>triple P m Q E\<close>: started in a state with \<open>P\<close>, the call \<open>m\<close>
  resolves with a value and a state related by \<open>Q\<close> or rejects with an error and a state related by \<open>E\<close>.
  \<open>stays J m\<close> says that \<open>m\<close> keeps \<open>J\<close> either way, and \<open>ends J m K\<close> that it reaches \<open>K\<close> when it
  resolves and is still in \<open>J\<close> when it rejects, which is the shape of a step that may be retried.
\<close>

named_theorems stays_intro \<open>rules that show an assertion is kept whatever a call returns\<close>

definition triple :: "('s \<Rightarrow> bool) \<Rightarrow> ('s, 'e, 'a) eact \<Rightarrow> ('a \<Rightarrow> 's \<Rightarrow> bool) \<Rightarrow> ('e \<Rightarrow> 's \<Rightarrow> bool) \<Rightarrow> bool" where
  "triple P m Q E \<longleftrightarrow> (\<forall>s. P s \<longrightarrow> (case m s of (Inr v, s') \<Rightarrow> Q v s' | (Inl e, s') \<Rightarrow> E e s'))"

definition stays :: "('s \<Rightarrow> bool) \<Rightarrow> ('s, 'e, 'a) eact \<Rightarrow> bool" where
  "stays J m \<longleftrightarrow> (\<forall>s. J s \<longrightarrow> J (snd (m s)))"

definition ends :: "('s \<Rightarrow> bool) \<Rightarrow> ('s, 'e, 'a) eact \<Rightarrow> ('s \<Rightarrow> bool) \<Rightarrow> bool" where
  "ends J m K \<longleftrightarrow> triple J m (\<lambda>_. K) (\<lambda>_. J)"

lemma triple_InrD: "triple P m Q E \<Longrightarrow> P s \<Longrightarrow> m s = (Inr v, s') \<Longrightarrow> Q v s'"
  by (fastforce simp: triple_def)

lemma triple_InlD: "triple P m Q E \<Longrightarrow> P s \<Longrightarrow> m s = (Inl e, s') \<Longrightarrow> E e s'"
  by (fastforce simp: triple_def)

lemma tripleI:
  "(\<And>s v s'. P s \<Longrightarrow> m s = (Inr v, s') \<Longrightarrow> Q v s') \<Longrightarrow> (\<And>s e s'. P s \<Longrightarrow> m s = (Inl e, s') \<Longrightarrow> E e s') \<Longrightarrow> triple P m Q E"
  by (fastforce simp: triple_def split: prod.split sum.split)

lemma triple_conseq:
  "triple P' m Q' E' \<Longrightarrow> (\<And>s. P s \<Longrightarrow> P' s) \<Longrightarrow> (\<And>v s. Q' v s \<Longrightarrow> Q v s) \<Longrightarrow> (\<And>e s. E' e s \<Longrightarrow> E e s) \<Longrightarrow> triple P m Q E"
  by (rule tripleI) (blast dest: triple_InrD triple_InlD)+

lemma triple_ret: "(\<And>s. P s \<Longrightarrow> Q v s) \<Longrightarrow> triple P (act_ret v) Q E"
  by (simp add: triple_def)

lemma triple_throw: "(\<And>s. P s \<Longrightarrow> E e s) \<Longrightarrow> triple P (act_throw e) Q E"
  by (simp add: triple_def)

lemma triple_bind: "triple P m R E \<Longrightarrow> (\<And>v. triple (R v) (k v) Q E) \<Longrightarrow> triple P (act_bind m k) Q E"
  by (fastforce simp: triple_def act_bind_def split: prod.splits sum.splits)

lemma triple_catch: "triple P m Q F \<Longrightarrow> (\<And>e. triple (F e) (h e) Q E) \<Longrightarrow> triple P (act_catch m h) Q E"
  by (fastforce simp: triple_def act_catch_def split: prod.splits sum.splits)

lemma triple_if: "(b \<Longrightarrow> triple P m Q E) \<Longrightarrow> (\<not> b \<Longrightarrow> triple P n Q E) \<Longrightarrow> triple P (if b then m else n) Q E"
  by simp

lemma stays_triple: "stays J m \<longleftrightarrow> triple J m (\<lambda>_. J) (\<lambda>_. J)"
  unfolding stays_def triple_def by (simp split: prod.split sum.split) (metis obj_sumE prod.collapse snd_conv)

lemma staysI: "(\<And>s r s'. J s \<Longrightarrow> m s = (r, s') \<Longrightarrow> J s') \<Longrightarrow> stays J m"
  unfolding stays_def by (metis prod.collapse)

lemma staysD: "stays J m \<Longrightarrow> J s \<Longrightarrow> m s = (r, s') \<Longrightarrow> J s'"
  unfolding stays_def by (metis snd_conv)

lemma stays_ret [stays_intro]: "stays J (act_ret v)"
  by (simp add: stays_def)

lemma stays_throw [stays_intro]: "stays J (act_throw e)"
  by (simp add: stays_def)

lemma stays_bind [stays_intro]: "stays J m \<Longrightarrow> (\<And>v. stays J (k v)) \<Longrightarrow> stays J (act_bind m k)"
  by (fastforce simp: stays_triple intro: triple_bind)

lemma stays_catch [stays_intro]: "stays J m \<Longrightarrow> (\<And>e. stays J (h e)) \<Longrightarrow> stays J (act_catch m h)"
  by (fastforce simp: stays_triple intro: triple_catch)

lemma stays_finally [stays_intro]:
  assumes "stays J m" and "stays J f"
  shows "stays J (act_finally m f)"
proof (rule staysI)
  fix s r s' assume s: "J s" "act_finally m f s = (r, s')"
  obtain a w1 where m: "m s = (a, w1)" by fastforce
  obtain b w2 where f: "f w1 = (b, w2)" by fastforce
  have "w2 = s'" using s(2) m f by (auto simp: act_finally_def split: sum.splits)
  then show "J s'" using staysD [OF assms(2) staysD [OF assms(1) s(1) m] f] by simp
qed

lemma stays_for [stays_intro]: "(\<And>x. stays J (f x)) \<Longrightarrow> stays J (act_for xs f)"
  by (induction xs) (auto intro: stays_intro)

lemma stays_if [stays_intro]: "(b \<Longrightarrow> stays J m) \<Longrightarrow> (\<not> b \<Longrightarrow> stays J n) \<Longrightarrow> stays J (if b then m else n)"
  by simp

lemma stays_option [stays_intro]:
  "(x = None \<Longrightarrow> stays J m) \<Longrightarrow> (\<And>v. x = Some v \<Longrightarrow> stays J (n v)) \<Longrightarrow> stays J (case x of None \<Rightarrow> m | Some v \<Rightarrow> n v)"
  by (cases x) simp_all

lemma stays_sum [stays_intro]:
  "(\<And>e. stays J (m e)) \<Longrightarrow> (\<And>v. stays J (n v)) \<Longrightarrow> stays J (case x of Inl e \<Rightarrow> m e | Inr v \<Rightarrow> n v)"
  by (cases x) simp_all

lemma stays_prod [stays_intro]: "(\<And>a b. stays J (m a b)) \<Longrightarrow> stays J (case x of (a, b) \<Rightarrow> m a b)"
  by (cases x) simp

lemma stays_Let [stays_intro]: "(\<And>x. x = v \<Longrightarrow> stays J (m x)) \<Longrightarrow> stays J (let x = v in m x)"
  by (simp add: Let_def)

lemma stays_keeps: "keeps f m \<Longrightarrow> stays (\<lambda>s. P (f s)) m"
  by (simp add: keeps_def stays_def)

lemma ends_bind: "stays J m \<Longrightarrow> (\<And>v. ends J (k v) K) \<Longrightarrow> ends J (act_bind m k) K"
  by (fastforce simp: ends_def stays_triple intro: triple_bind)

lemma ends_catch: "ends J m K \<Longrightarrow> (\<And>e. ends J (h e) K) \<Longrightarrow> ends J (act_catch m h) K"
  by (fastforce simp: ends_def intro: triple_catch)

lemma ends_throw: "ends J (act_throw e) K"
  by (simp add: ends_def triple_def)

lemma triple_step: "stays J m \<Longrightarrow> (\<And>v. triple J (k v) Q (\<lambda>_. J)) \<Longrightarrow> triple J (act_bind m k) Q (\<lambda>_. J)"
  by (simp add: stays_triple triple_bind)

lemma triple_last: "ends J m K \<Longrightarrow> (\<And>s. K s \<Longrightarrow> Q v s) \<Longrightarrow> triple J (act_bind m (\<lambda>_. act_ret v)) Q (\<lambda>_. J)"
  unfolding ends_def by (rule triple_bind, assumption, rule triple_ret)

lemma ends_triple: "triple J m (\<lambda>v. if P v then J else K) (\<lambda>_. J) \<Longrightarrow> (\<And>v. P v \<Longrightarrow> ends J (k v) K) \<Longrightarrow>
    (\<And>v. \<not> P v \<Longrightarrow> triple K (k v) (\<lambda>_. K) (\<lambda>_. J)) \<Longrightarrow> ends J (act_bind m k) K"
  unfolding ends_def by (rule triple_bind) auto

lemma ends_if: "(b \<Longrightarrow> ends J m K) \<Longrightarrow> (\<not> b \<Longrightarrow> ends J n K) \<Longrightarrow> ends J (if b then m else n) K"
  by simp

lemma ends_then_ret: "ends J m K \<Longrightarrow> ends J (act_bind m (\<lambda>v. act_ret (f v))) K"
  unfolding ends_def by (rule triple_bind, assumption) (simp add: triple_def)

lemma ends_finally:
  assumes "ends J m K" and "never_rejects f" and "stays J f" and "stays K f"
  shows "ends J (act_finally m f) K"
  unfolding ends_def
proof (rule tripleI)
  fix s v s' assume "J s" "act_finally m f s = (Inr v, s')"
  then obtain w1 where m: "m s = (Inr v, w1)" "snd (f w1) = s'"
    by (auto simp: act_finally_def split: prod.splits sum.splits)
  then have "K w1" using assms(1) \<open>J s\<close> by (auto simp: ends_def dest: triple_InrD)
  with m(2) assms(4) show "K s'" by (auto simp: stays_def)
next
  fix s e s' assume s: "J s" "act_finally m f s = (Inl e, s')"
  obtain r w1 where m: "m s = (r, w1)" by fastforce
  obtain u w2 where f: "f w1 = (Inr u, w2)" using assms(2) by (rule never_rejectsE)
  have "r = Inl e" "w2 = s'" using s(2) m f by (simp_all add: act_finally_def)
  then have "J w1" using assms(1) s(1) m by (auto simp: ends_def dest: triple_InlD)
  from staysD [OF assms(3) this f] show "J s'" using \<open>w2 = s'\<close> by simp
qed

end
