(* ===== verification/ReplyWorkflowInv.thy ===== *)
theory ReplyWorkflowInv
  imports ReplyWorkflow Triples
begin

text \<open>
  What one run of the reply workflow guarantees, whatever the services it calls do.  A theorem about the order
  or the number of calls is stated with a view \<open>f\<close> of the world that only the call in question changes;
  as the view is arbitrary, the theorem speaks of the calls themselves.
\<close>

section \<open>Quiet ports\<close>

text \<open>Every port but the four the theorems count: the run of the model, the delivery, the handling of an
  error and the acknowledgement.\<close>

definition quiet :: "('w \<Rightarrow> 'v) \<Rightarrow> 'w flow_ports \<Rightarrow> bool" where
  "quiet f P \<longleftrightarrow>
     (\<forall>a b c d. keeps f (wf_open P a b c d)) \<and> (\<forall>t v. keeps f (wf_saveEffects P t v)) \<and>
     (\<forall>t. keeps f (wf_completeProjection P t)) \<and> (\<forall>t d. keeps f (wf_settle P t d)) \<and>
     (\<forall>t. keeps f (wf_interrupt P t)) \<and> (\<forall>t. keeps f (wf_inputActive P t)) \<and>
     (\<forall>a b c. keeps f (wf_groupRoute P a b c)) \<and> keeps f (wf_modelSelection P) \<and> (\<forall>a. keeps f (wf_botUser P a)) \<and>
     (\<forall>a. keeps f (wf_awaitVision P a)) \<and> (\<forall>a b c w. f (wf_describe P a b c w) = f w) \<and>
     (\<forall>a b c. keeps f (wf_preparePlan P a b c)) \<and> (\<forall>a b. keeps f (wf_commitOutcome P a b)) \<and>
     (\<forall>a b c. keeps f (wf_toolAnchors P a b c)) \<and> (\<forall>a b c d. keeps f (wf_replyAnchors P a b c d)) \<and>
     (\<forall>a b. keeps f (wf_claimPending P a b)) \<and> (\<forall>a b. keeps f (wf_ackPending P a b)) \<and>
     (\<forall>a b. keeps f (wf_ackPendingIds P a b)) \<and> (\<forall>a. keeps f (wf_markProcessed P a)) \<and>
     (\<forall>a b c d. keeps f (wf_watermark P a b c d)) \<and> (\<forall>a b c. keeps f (wf_recordOpening P a b c)) \<and>
     (\<forall>a b. keeps f (wf_scheduleOpening P a b)) \<and> (\<forall>a b c. keeps f (wf_recordReplied P a b c)) \<and>
     (\<forall>m. keeps f (wf_addMessage P m)) \<and> (\<forall>a b c w. f (wf_settleMemory P a b c w) = f w) \<and>
     (\<forall>a w. f (wf_discardMemory P a w) = f w) \<and> (\<forall>a w. f (wf_whenSettled P a w) = f w) \<and>
     (\<forall>t. keeps f (wf_telemetry P t)) \<and> (\<forall>b w. f (wf_background P b w) = f w)"

definition quiet_guard :: "('w \<Rightarrow> 'v) \<Rightarrow> 'w guard \<Rightarrow> bool" where
  "quiet_guard f g \<longleftrightarrow> (case g of None \<Rightarrow> True | Some m \<Rightarrow> keeps f m)"

lemma quiet_ports:
  assumes "quiet f P"
  shows "keeps f (wf_open P a1 b1 c1 d1)" "keeps f (wf_saveEffects P t v)" "keeps f (wf_completeProjection P t)"
    "keeps f (wf_settle P t d)" "keeps f (wf_interrupt P t)" "keeps f (wf_inputActive P t)"
    "keeps f (wf_groupRoute P a2 b2 c2)" "keeps f (wf_modelSelection P)" "keeps f (wf_botUser P a3)"
    "keeps f (wf_awaitVision P a4)" "f (wf_describe P a5 b5 c5 w) = f w" "keeps f (wf_preparePlan P a6 b6 c6)"
    "keeps f (wf_commitOutcome P a7 b7)" "keeps f (wf_toolAnchors P a8 b8 c8)" "keeps f (wf_replyAnchors P a9 b9 c9 d9)"
    "keeps f (wf_claimPending P a10 b10)" "keeps f (wf_ackPending P a11 b11)" "keeps f (wf_ackPendingIds P a12 b12)"
    "keeps f (wf_markProcessed P a13)" "keeps f (wf_watermark P a14 b14 c14 d14)" "keeps f (wf_recordOpening P a15 b15 c15)"
    "keeps f (wf_scheduleOpening P a16 b16)" "keeps f (wf_recordReplied P a17 b17 c17)" "keeps f (wf_addMessage P m)"
    "f (wf_settleMemory P a18 b18 c18 w) = f w" "f (wf_discardMemory P a19 w) = f w" "f (wf_whenSettled P a19 w) = f w"
    "keeps f (wf_telemetry P tel)" "f (wf_background P bg w) = f w"
  using assms by (simp_all add: quiet_def)

section \<open>Rules for the combinators of the workflow\<close>

lemma keeps_settled_result [keeps_intro]: "keeps f m \<Longrightarrow> keeps f (settled_result m)"
  by (auto simp: keeps_def settled_result_def split: prod.splits) (metis snd_conv)

lemma keeps_await [keeps_intro]: "keeps f (await r)"
  by (cases r) (auto simp: await_def intro: keeps_intro)

lemma keeps_ignore [keeps_intro]: "keeps f m \<Longrightarrow> keeps f (ignore m)"
  by (auto simp: ignore_def intro: keeps_intro)

lemma keeps_when_a [keeps_intro]: "keeps f m \<Longrightarrow> keeps f (when_a b m)"
  by (auto simp: when_a_def intro: keeps_intro)

lemma keeps_guard [keeps_intro]: "quiet_guard f g \<Longrightarrow> keeps f (assert_owned g)"
  by (cases g) (auto simp: assert_owned_def quiet_guard_def intro: keeps_intro)

lemma keeps_pure [keeps_intro]: "(\<And>w. f (g w) = f w) \<Longrightarrow> keeps f (\<lambda>w. (r w, g w))"
  by (simp add: keeps_def)

lemma keeps_Let [keeps_intro]: "(\<And>x. keeps f (m x)) \<Longrightarrow> keeps f (let x = v in m x)"
  by (simp add: Let_def)

text \<open>An assertion about the locals, and one about a view of the world.\<close>

definition both :: "(flow_locals \<Rightarrow> bool) \<Rightarrow> ('w \<Rightarrow> 'v) \<Rightarrow> ('v \<Rightarrow> bool) \<Rightarrow> flow_locals \<times> 'w \<Rightarrow> bool" where
  "both A f B = (\<lambda>(l, w). A l \<and> B (f w))"

lemma stays_call [stays_intro]: "keeps f m \<Longrightarrow> stays (both A f B) (call m)"
  by (auto simp: stays_def keeps_def call_def both_def split: prod.splits) (metis snd_conv)

lemma stays_doing [stays_intro]: "(\<And>w. f (g w) = f w) \<Longrightarrow> stays (both A f B) (doing g)"
  by (simp add: stays_def doing_def both_def split: prod.splits)

lemma stays_assign [stays_intro]: "(\<And>l. A l \<Longrightarrow> A (h l)) \<Longrightarrow> stays (both A f B) (assign h)"
  by (simp add: stays_def assign_def both_def split: prod.splits)

lemma stays_look [stays_intro]:
  "(\<And>l. A l \<Longrightarrow> stays (both A f B) (k (h l))) \<Longrightarrow> stays (both A f B) (act_bind (look_up h) k)"
  by (fastforce simp: stays_def act_bind_def look_up_def both_def split: prod.splits)

lemma stays_await [stays_intro]: "stays J (await r)"
  by (cases r) (auto simp: await_def intro: stays_intro)

lemma memory_quiet: "(\<And>h w. f (g h w) = f w) \<Longrightarrow> f (memory g r w) = f w"
  by (simp add: memory_def split: option.split)

lemma ends_look:
  "(\<And>l. A l \<Longrightarrow> ends (both A f B) (k (h l)) K) \<Longrightarrow> ends (both A f B) (act_bind (look_up h) k) K"
  by (fastforce simp: ends_def triple_def act_bind_def look_up_def both_def split: prod.splits)

lemma triple_look:
  "(\<And>l. A l \<Longrightarrow> triple (both A f B) (k (h l)) Q E) \<Longrightarrow> triple (both A f B) (act_bind (look_up h) k) Q E"
  by (fastforce simp: triple_def act_bind_def look_up_def both_def split: prod.splits)

lemma ends_call:
  assumes "ends (\<lambda>w. B (f w)) m (\<lambda>w. C (f w))"
  shows "ends (both A f B) (call m) (both A f C)"
  using assms by (fastforce simp: ends_def triple_def call_def both_def split: prod.splits sum.splits)

section \<open>The parts that only use quiet ports\<close>

lemma quiet_parts [keeps_intro]:
  assumes q: "quiet f P"
  shows "keeps f (tell P tel)" "keeps f (resolveDurableRoute P t m)" "keeps f (fetchPendingSinceAgentStart P chat n ms)"
    "keeps f (ackPendingIfMerged P chat n)" "keeps f (markMessagesAsProcessed P ids)"
    "keeps f (advanceProcessedCandidateWatermark P p ms strict)" "keeps f (commitReplyOutcomeSideEffects P x trace b)"
proof -
  note q = quiet_ports [OF q]
  show "keeps f (tell P tel)"
    unfolding tell_def by (intro keeps_intro q)
  show "keeps f (resolveDurableRoute P t m)"
    unfolding resolveDurableRoute_def by (intro keeps_intro q)
  show "keeps f (fetchPendingSinceAgentStart P chat n ms)"
    unfolding fetchPendingSinceAgentStart_def by (intro keeps_intro q)
  show "keeps f (ackPendingIfMerged P chat n)"
    unfolding ackPendingIfMerged_def by (intro keeps_intro q)
  show "keeps f (markMessagesAsProcessed P ids)"
    unfolding markMessagesAsProcessed_def by (intro keeps_intro q)
  show "keeps f (advanceProcessedCandidateWatermark P p ms strict)"
    unfolding advanceProcessedCandidateWatermark_def by (intro keeps_intro q)
  show "keeps f (commitReplyOutcomeSideEffects P x trace b)"
    unfolding commitReplyOutcomeSideEffects_def by (intro keeps_intro q)
qed

lemma quiet_replied [keeps_intro]:
  assumes q: "quiet f P" and g: "quiet_guard f (cp_owner p)"
  shows "keeps f (recordAgentReplied P p who t)" "keeps f (core_delivered P p who l)"
proof -
  note q' = quiet_ports [OF q]
  have g': "quiet_guard f (if t = None then None else cp_owner p)" using g by (simp add: quiet_guard_def)
  have written: "keeps f (case o' of Inserted \<Rightarrow> m | Duplicate \<Rightarrow> m' | Write_failed \<Rightarrow> m'')"
    if "keeps f m" "keeps f m'" "keeps f m''" for o' and m m' m'' :: "('a, reply_kind) flow"
    using that by (cases o') simp_all
  show "keeps f (recordAgentReplied P p who t)" for t
  proof -
    have g': "quiet_guard f (if t = None then None else cp_owner p)" using g by (simp add: quiet_guard_def)
    show ?thesis unfolding recordAgentReplied_def Let_def by (intro keeps_intro written q' g')
  qed
  then show "keeps f (core_delivered P p who l)"
    unfolding core_delivered_def by (intro keeps_intro q' g)
qed

lemma keeps_fold: "(\<And>x w. f (h x w) = f w) \<Longrightarrow> f (fold h xs w) = f w"
  by (induction xs arbitrary: w) simp_all

lemma quiet_agent [keeps_intro]:
  assumes q: "quiet f P" and run: "\<And>a. keeps f (wf_runTurn P a)"
  shows "keeps f (callAgent P a)" "keeps f (callAgentWithVisualCompatibilityFallback P a)"
proof -
  note q' = quiet_ports [OF q]
  have answer: "keeps f (agent_answer P trace x)" for trace x
    unfolding agent_answer_def by (intro keeps_intro q)
  show agent: "keeps f (callAgent P a)" for a
  proof (rule keepsI)
    fix w
    obtain r1 w1 where 1: "tell P (Ai_start (ag_messageId a)) w = (r1, w1)" by fastforce
    obtain r2 w2 where 2: "wf_runTurn P a w1 = (r2, w2)" by fastforce
    obtain r3 w3 where 3: "(case r2 of Inl e \<Rightarrow> (Inl e, w2) | Inr x \<Rightarrow> agent_answer P (ag_messageId a) x w2) = (r3, w3)" by fastforce
    obtain r4 w4 where 4: "tell P (Ai_end (ag_messageId a)) w3 = (r4, w4)" by fastforce
    have f1: "f w1 = f w" using keepsD [OF quiet_parts(1) [OF q] 1] .
    have f2: "f w2 = f w1" using keepsD [OF run 2] .
    have f3: "f w3 = f w2" using 3 keepsD [OF answer] by (cases r2) auto
    have f4: "f w4 = f w3" using keepsD [OF quiet_parts(1) [OF q] 4] .
    show "f (snd (callAgent P a w)) = f w"
      using f1 f2 f3 f4 by (cases r1; cases r4) (simp_all add: callAgent_def 1 2 3 4)
  qed
  have "keeps f (prepareRuntimeCompatibilityDescriptions P a)" for a
  proof (rule keepsI)
    fix w
    have "f (fold (\<lambda>(i, u). wf_describe P i u (map_of (ag_visualTypes a) i = Some True)) (pictures a) w) = f w"
      by (rule keeps_fold) (simp add: q' split: prod.split)
    moreover have "keeps f (act_bind (wf_awaitVision P (map fst (pictures a))) (\<lambda>_. act_ret True) :: ('a, bool) flow)"
      by (intro keeps_intro q')
    ultimately show "f (snd (prepareRuntimeCompatibilityDescriptions P a w)) = f w"
      by (simp add: prepareRuntimeCompatibilityDescriptions_def Let_def keeps_def)
  qed
  then show "keeps f (callAgentWithVisualCompatibilityFallback P a)"
    unfolding callAgentWithVisualCompatibilityFallback_def by (intro keeps_intro agent)
qed

text \<open>What comes before the acknowledgement inside \<open>ackDurableTurn\<close>.\<close>

lemma ack_prelude:
  assumes q: "quiet f P" and g: "quiet_guard f g"
  shows "ends (\<lambda>w. B (f w)) (ignore (wf_acked P t)) (\<lambda>w. C (f w)) \<Longrightarrow> ends (\<lambda>w. B (f w)) (ackDurableTurn P t g) (\<lambda>w. C (f w))"
  unfolding ackDurableTurn_def
  apply (rule ends_catch, (rule ends_bind, rule stays_keeps [where f = f and P = B], intro keeps_intro quiet_ports [OF q] g)+)
  subgoal by simp
  by (rule ends_throw)

section \<open>A run that resolves has acknowledged its turn\<close>

definition has_turn :: "flow_locals \<Rightarrow> bool" where
  "has_turn l \<longleftrightarrow> fl_turn l \<noteq> None"

lemma has_turn_update [simp]:
  "has_turn (l\<lparr>fl_turn := Some t\<rparr>)" "has_turn (l\<lparr>fl_all := a\<rparr>) = has_turn l" "has_turn (l\<lparr>fl_content := b\<rparr>) = has_turn l"
  "has_turn (l\<lparr>fl_token := c\<rparr>) = has_turn l" "has_turn (l\<lparr>fl_groupId := d\<rparr>) = has_turn l" "has_turn (l\<lparr>fl_consumed := e\<rparr>) = has_turn l"
  "has_turn (l\<lparr>fl_result := r\<rparr>) = has_turn l" "has_turn (l\<lparr>fl_delivery := x\<rparr>) = has_turn l" "has_turn (l\<lparr>fl_effects := y\<rparr>) = has_turn l"
  by (simp_all add: has_turn_def)

lemma core_parts_stay:
  assumes q: "quiet f P" and g: "quiet_guard f (cp_owner p)" and run: "\<And>a. keeps f (wf_runTurn P a)"
    and A: "\<And>l. A l = a (has_turn l)" "mono a"
  shows "stays (both A f B) (run_agent P p model who)" "stays (both A f B) (replay_loop n P p model who)"
    "stays (both A f B) (core_save P p who)" "stays (both A f B) (core_effects P p who)"
    "stays (both A f B) (core_anchors P p who)" "stays (both A f B) (core_finally P p)"
proof -
  note q' = quiet_ports [OF q]
  have up: "A (l\<lparr>fl_turn := Some t\<rparr>)" if "A l" for l t
    using that A monoD [OF A(2), of "has_turn l" True] by (simp add: le_bool_def)
  note upd = up A(1)
  show agent: "stays (both A f B) (run_agent P p model who)"
    unfolding run_agent_def by (intro stays_intro keeps_intro q run) (simp add: A(1))
  show "stays (both A f B) (replay_loop n P p model who)"
  proof (induction n)
    case (Suc n)
    then show ?case
      by (simp only: replay_loop.simps) (intro stays_intro keeps_intro q agent memory_quiet q'; simp add: A(1))
  qed (simp only: replay_loop.simps, rule stays_ret)
  show "stays (both A f B) (core_save P p who)"
    unfolding core_save_def by (intro stays_intro keeps_intro q' g) (rule up)
  show "stays (both A f B) (core_effects P p who)"
    unfolding core_effects_def by (intro stays_intro keeps_intro q') (simp add: A(1), rule up)
  show "stays (both A f B) (core_anchors P p who)"
    unfolding core_anchors_def Let_def by (intro stays_intro keeps_intro q' g) (rule up)
  show "stays (both A f B) (core_finally P p)"
    unfolding core_finally_def by (intro stays_intro memory_quiet q')
qed

text \<open>The view counts the acknowledgements that were confirmed.\<close>

definition counts_acks :: "('w \<Rightarrow> nat) \<Rightarrow> 'w flow_ports \<Rightarrow> bool" where
  "counts_acks f P \<longleftrightarrow> (\<forall>t w. f (snd (wf_acked P t w)) = (case fst (wf_acked P t w) of Inl _ \<Rightarrow> f w | Inr _ \<Rightarrow> Suc (f w)))"

abbreviation open_turn_at :: "('w \<Rightarrow> nat) \<Rightarrow> nat \<Rightarrow> flow_locals \<times> 'w \<Rightarrow> bool" where
  "open_turn_at f c \<equiv> both has_turn f (\<lambda>n. n = c)"

lemma ack_counts:
  assumes "quiet f P" "quiet_guard f g" "counts_acks f P"
  shows "ends (\<lambda>w. f w = c) (ackDurableTurn P t g) (\<lambda>w. f w = Suc c)"
proof (rule ack_prelude [OF assms(1,2), of "\<lambda>n. n = c" _ "\<lambda>n. n = Suc c"])
  have "ends (\<lambda>w. f w = c) (wf_acked P t) (\<lambda>w. f w = Suc c)"
    using assms(3) unfolding counts_acks_def ends_def
    by (intro tripleI) (metis fst_conv snd_conv old.sum.simps(5,6))+
  then show "ends (\<lambda>w. f w = c) (ignore (wf_acked P t)) (\<lambda>w. f w = Suc c)"
    unfolding ignore_def by (rule ends_then_ret)
qed

lemma settle_ack_counts:
  assumes "quiet f P" "quiet_guard f g" "counts_acks f P"
  shows "ends (\<lambda>w. f w = c) (settleAndAckTurn P t g) (\<lambda>w. f w = Suc c)"
  unfolding settleAndAckTurn_def
  by (rule ends_bind, rule stays_keeps [where f = f and P = "\<lambda>n. n = c"], intro keeps_intro assms,
      rule ends_bind, rule stays_keeps [where f = f and P = "\<lambda>n. n = c"], intro quiet_ports [OF assms(1)], rule ack_counts [OF assms])

lemma core_counts_acks:
  assumes q: "quiet f P" and g: "quiet_guard f (cp_owner p)" and run: "\<And>a. keeps f (wf_runTurn P a)"
    and send: "\<And>x c b. keeps f (wf_deliver P x c b)" and err: "\<And>e m x ids c. keeps f (wf_handleError P e m x ids c)"
    and ack: "counts_acks f P" and dur: "wf_durable P"
  shows "ends (open_turn_at f c) (core_run P p) (open_turn_at f (Suc c))"
proof -
  let ?J = "open_turn_at f c" and ?K = "open_turn_at f (Suc c)"
  note q' = quiet_ports [OF q]
  have m: "mono (\<lambda>b :: bool. b)" by (rule monoI)
  note parts = core_parts_stay [OF q g run _ m, of has_turn]
  have finish: "ends ?J (core_finish P p ids) ?K" for ids
    unfolding core_finish_def
  proof (rule ends_look)
    fix l assume "has_turn l"
    then obtain t where t: "fl_turn l = Some t" by (auto simp: has_turn_def)
    show "ends ?J (seq (call (assert_owned (cp_owner p))) (seq (call (advanceProcessedCandidateWatermark P p (fl_all l) (fl_turn l \<noteq> None)))
       (case fl_turn l of
        Some t \<Rightarrow> if wf_durable P then call (settleAndAckTurn P t (cp_owner p))
                  else seq (call (markMessagesAsProcessed P ids)) (call (ackPendingIfMerged P (cp_chatId p) (fl_consumed l)))
      | None \<Rightarrow> seq (call (markMessagesAsProcessed P ids)) (call (ackPendingIfMerged P (cp_chatId p) (fl_consumed l)))))) ?K"
      by (rule ends_bind, intro stays_intro keeps_intro g, rule ends_bind, intro stays_intro keeps_intro q)
        (simp add: t dur, rule ends_call, rule settle_ack_counts [OF q g ack])
  qed
  have silent: "ends ?J (core_silent P p ids) ?K" for ids
    unfolding core_silent_def
    by (rule ends_look, (rule ends_bind, intro stays_intro keeps_intro q memory_quiet q')+, rule finish)
  have reply: "ends ?J (core_reply P p who ids) ?K" for who ids
    unfolding core_reply_def
    by (rule ends_look, (rule ends_bind, (intro stays_intro keeps_intro q g memory_quiet q' send; simp))+, rule finish)
  have handoff: "stays ?J (core_handoff P p)"
    unfolding core_handoff_def deliverPreHandoffReceipt_def by (intro stays_intro keeps_intro q' g send)
  have whole: "ends ?J (core_try P p model who) ?K" for model who
    unfolding core_try_def
    by (rule ends_bind, rule parts, simp, rule ends_look)
      ((rule ends_bind, (intro stays_intro q' | (rule parts, simp) | rule handoff))+,
       rule ends_look, rule ends_bind, (rule parts, simp), rule ends_bind, rule handoff, rule ends_bind, (rule parts, simp),
       rule ends_look, rule ends_if, rule reply, rule silent)
  have caught: "ends ?J (core_catch P p e) ?K" for e
    unfolding core_catch_def
  proof (rule ends_look)
    fix l assume "has_turn l"
    then obtain t where t: "fl_turn l = Some t" by (auto simp: has_turn_def)
    let ?failure = "failed_delivery e (fl_delivery l)"
    have ordinary: "ends ?J (act_bind (look_up (\<lambda>l. the (fl_turn l))) (\<lambda>t'.
        seq (call (wf_handleError P x m tr (t_inputIds t') None))
        (act_bind (call (wf_settle P t' (Some (failed_summary ?failure)))) (\<lambda>settled. call (ackDurableTurn P settled (cp_owner p)))))) ?K"
      for x m tr
      by (rule ends_look, rule ends_bind, intro stays_intro err, rule ends_bind, intro stays_intro q',
          rule ends_call, rule ack_counts [OF q g ack])
    show "ends ?J (let failure = ?failure; accepted = (case failure of None \<Rightarrow> None | Some r \<Rightarrow> rp_acceptedText r) in
      seq (doing (memory (\<lambda>h. wf_settleMemory P h (given accepted) accepted) (the_result l)))
     (case fl_turn l of
        None \<Rightarrow> act_throw e
      | Some t \<Rightarrow>
          if t_policy t \<noteq> Single_pass then
            (if is_deferred e then act_throw e else act_throw (Deferred_reply ''reply_local_repair_pending''))
          else
            seq (if t_projection t = No_projection then
                   (case fl_effects l of
                      None \<Rightarrow> act_throw (Deferred_reply BUSINESS_EFFECTS_UNCONFIRMED)
                    | Some v \<Rightarrow> act_bind (call (wf_saveEffects P t v)) (\<lambda>x. assign (\<lambda>l. l\<lparr>fl_turn := Some x\<rparr>)))
                 else act_ret ())
            (act_bind (look_up (\<lambda>l. the (fl_turn l))) (\<lambda>t'.
             seq (call (wf_handleError P
                   (case e of Undelivered _ _ \<Rightarrow> e
                    | _ \<Rightarrow> Undelivered (flow_message e) (case failure of Some r \<Rightarrow> r | None \<Rightarrow> nothing_delivered))
                   (parsed_now p l) (cp_traceId p) (t_inputIds t') None))
             (act_bind (call (wf_settle P t' (Some (failed_summary failure)))) (\<lambda>settled.
              call (ackDurableTurn P settled (cp_owner p)))))))) ?K"
      unfolding Let_def t option.case
      by (rule ends_bind, intro stays_intro memory_quiet q', rule ends_if, rule ends_if, rule ends_throw, rule ends_throw,
          rule ends_bind, (intro stays_intro q'; simp), rule ordinary)
  qed
  have generated: "triple ?J (core_generate P p model who) (\<lambda>b. if b then ?J else ?K) (\<lambda>_. ?J)" for model who
  proof -
    have go: "triple ?J (seq m (act_ret True)) (\<lambda>b. if b then ?J else ?K) (\<lambda>_. ?J)"
      if "stays ?J m" for m :: "('a, unit) core"
      by (rule triple_step [OF that], rule triple_ret) simp
    show ?thesis
      unfolding core_generate_def
    proof (rule triple_look)
      fix l assume "has_turn l"
      then obtain t where t: "fl_turn l = Some t" by (auto simp: has_turn_def)
      show "triple ?J (case fl_turn l of
         None \<Rightarrow> seq (run_agent P p model who) (act_ret True)
       | Some t \<Rightarrow>
           if t_plan t \<noteq> None then seq (assign (\<lambda>l. l\<lparr>fl_result := Some (restoreReplyResult P t)\<rparr>)) (act_ret True)
           else act_catch (seq (run_agent P p model who) (act_ret True)) (\<lambda>e.
             if \<not> wf_durable P \<or> is_deferred e then act_throw e
             else if t_policy t = Single_pass then act_throw (Deferred_reply BUSINESS_EFFECTS_UNCONFIRMED)
             else act_bind (look_up (\<lambda>l. l)) (\<lambda>l.
               seq (call (wf_handleError P e (parsed_now p l) (cp_traceId p) (t_inputIds t) (Some (flow_context_of p l (Some t) None))))
               (act_bind (call (wf_settle P t None)) (\<lambda>settled.
                seq (call (ackDurableTurn P settled None)) (act_ret False))))))
         (\<lambda>b. if b then ?J else ?K) (\<lambda>_. ?J)"
        unfolding t option.case
        by (rule triple_if, rule go, intro stays_intro, simp, rule triple_catch, rule go, (rule parts, simp),
            rule triple_if, rule triple_throw, assumption, rule triple_if, rule triple_throw, assumption,
            rule triple_look, rule triple_step, intro stays_intro err, rule triple_step, intro stays_intro q',
            rule triple_last, rule ends_call, rule ack_counts [OF q _ ack]) (simp_all add: quiet_guard_def)
    qed
  qed
  have after: "ends ?J (act_finally (act_catch (core_try P p model who) (core_catch P p)) (core_finally P p)) ?K" for model who
  proof (rule ends_finally)
    show "ends ?J (act_catch (core_try P p model who) (core_catch P p)) ?K"
      by (rule ends_catch, rule whole, rule caught)
    show "never_rejects (core_finally P p)"
      by (simp add: never_rejects_def core_finally_def act_bind_def look_up_def doing_def)
    show "stays ?J (core_finally P p)" "stays ?K (core_finally P p)"
      by (rule parts, simp)+
  qed
  show ?thesis
    unfolding core_run_def Let_def
    by (rule ends_bind, intro stays_intro q', rule ends_bind, intro stays_intro q', rule ends_bind, intro stays_intro q',
        rule ends_triple [OF generated], simp add: after, simp add: triple_ret)
qed

text \<open>C7: When the input of a run has a turn and the run resolves, the turn was acknowledged, once: the view \<open>f\<close>
  counts the acknowledgements that the turns service confirmed, and no other call changes it.  A run that
  rejects leaves the turn to be worked on again.\<close>

theorem resolved_run_acknowledged_its_turn:
  assumes "quiet f P" and "quiet_guard f (cp_owner p)" and "\<And>a. keeps f (wf_runTurn P a)"
    and "\<And>x c b. keeps f (wf_deliver P x c b)" and "\<And>e m x ids c. keeps f (wf_handleError P e m x ids c)"
    and "counts_acks f P" and "wf_durable P"
    and opened: "core_open P p (core_start p, w) = (Inr (), l0, w0)" "fl_turn l0 = Some t"
    and result: "processMessageCore P p w = (r, w')"
  shows "f w' = f w + (case r of Inl _ \<Rightarrow> 0 | Inr _ \<Rightarrow> 1)"
proof -
  let ?J = "open_turn_at f (f w)" and ?K = "open_turn_at f (Suc (f w))"
  let ?rest = "if t_status t = Settled \<or> t_status t = Acked then call (ackDurableTurn P t (cp_owner p))
    else seq (core_route P p t) (core_run P p)"
  have "stays (both (\<lambda>_. True) f (\<lambda>n. n = f w)) (core_open P p)"
    unfolding core_open_def by (intro stays_intro keeps_intro quiet_ports [OF assms(1)]; simp)
  from staysD [OF this _ opened(1)] have w0: "?J (l0, w0)" using opened(2) by (simp add: both_def has_turn_def)
  have rest: "ends ?J ?rest ?K"
  proof (rule ends_if)
    show "ends ?J (call (ackDurableTurn P t (cp_owner p))) ?K"
      by (rule ends_call, rule ack_counts [OF assms(1,2,6)])
    have "stays ?J (core_route P p t)"
      unfolding core_route_def by (intro stays_intro keeps_intro assms(1)) (simp add: Let_def)
    then show "ends ?J (seq (core_route P p t) (core_run P p)) ?K"
      by (rule ends_bind) (rule core_counts_acks [OF assms(1-7)])
  qed
  obtain l' where "?rest (l0, w0) = (r, (l', w'))"
    using result opened by (auto simp: processMessageCore_def core_main_def act_bind_def look_up_def split: prod.splits)
  then show ?thesis
    using triple_InrD [OF rest [unfolded ends_def] w0] triple_InlD [OF rest [unfolded ends_def] w0]
    by (cases r) (auto simp: both_def)
qed

section \<open>Recovery does not repeat\<close>

lemma bind_same: "(\<And>v s'. m s = (Inr v, s') \<Longrightarrow> k v s' = k' v s') \<Longrightarrow> act_bind m k s = act_bind m k' s"
  by (simp add: act_bind_def split: prod.split sum.split)

lemma catch_same: "m s = m' s \<Longrightarrow> act_catch m h s = act_catch m' h s"
  by (simp add: act_catch_def)

lemma finally_same: "m s = m' s \<Longrightarrow> act_finally m h s = act_finally m' h s"
  by (simp add: act_finally_def)

lemma bind_look: "act_bind (look_up h) k (l, w) = k (h l) (l, w)"
  by (simp add: act_bind_def look_up_def)

lemma bind_doing: "act_bind (doing g) k (l, w) = k () (l, g w)"
  by (simp add: act_bind_def doing_def)

lemma run_ports [simp]:
  fixes m and P :: "'w flow_ports"
  defines "Q \<equiv> P\<lparr>wf_runTurn := m\<rparr>"
  shows "tell Q = tell P" "ackDurableTurn Q = ackDurableTurn P" "resolveDurableRoute Q = resolveDurableRoute P"
    "settleAndAckTurn Q = settleAndAckTurn P" "ackPendingIfMerged Q = ackPendingIfMerged P"
    "markMessagesAsProcessed Q = markMessagesAsProcessed P"
    "advanceProcessedCandidateWatermark Q = advanceProcessedCandidateWatermark P"
    "commitReplyOutcomeSideEffects Q = commitReplyOutcomeSideEffects P" "recordAgentReplied Q = recordAgentReplied P"
    "deliverPreHandoffReceipt Q = deliverPreHandoffReceipt P" "restoreReplyResult Q = restoreReplyResult P"
  by (simp_all add: fun_eq_iff Q_def tell_def ackDurableTurn_def resolveDurableRoute_def settleAndAckTurn_def
      ackPendingIfMerged_def markMessagesAsProcessed_def advanceProcessedCandidateWatermark_def commitReplyOutcomeSideEffects_def
      recordAgentReplied_def deliverPreHandoffReceipt_def restoreReplyResult_def cong: if_cong option.case_cong)

lemma run_ports_core [simp]:
  "core_open (P\<lparr>wf_runTurn := m\<rparr>) = core_open P" "core_route (P\<lparr>wf_runTurn := m\<rparr>) = core_route P"
  "core_save (P\<lparr>wf_runTurn := m\<rparr>) = core_save P" "core_effects (P\<lparr>wf_runTurn := m\<rparr>) = core_effects P"
  "core_handoff (P\<lparr>wf_runTurn := m\<rparr>) = core_handoff P" "core_anchors (P\<lparr>wf_runTurn := m\<rparr>) = core_anchors P"
  "core_finish (P\<lparr>wf_runTurn := m\<rparr>) = core_finish P" "core_delivered (P\<lparr>wf_runTurn := m\<rparr>) = core_delivered P"
  "core_catch (P\<lparr>wf_runTurn := m\<rparr>) = core_catch P" "core_finally (P\<lparr>wf_runTurn := m\<rparr>) = core_finally P"
  by (simp_all add: fun_eq_iff core_open_def core_route_def core_save_def core_effects_def core_handoff_def core_anchors_def
      core_finish_def core_delivered_def core_catch_def core_finally_def
      cong: if_cong option.case_cong)

lemma run_ports_ends [simp]:
  "core_silent (P\<lparr>wf_runTurn := m\<rparr>) = core_silent P" "core_reply (P\<lparr>wf_runTurn := m\<rparr>) = core_reply P"
  by (simp_all add: fun_eq_iff core_silent_def core_reply_def cong: if_cong)

lemma replay_with_turn: "fl_turn l \<noteq> None \<Longrightarrow> replay_loop n P p model who (l, w) = (Inr (), (l, w))"
  by (cases n) (simp_all add: act_bind_def look_up_def)

lemma core_try_planned:
  "fl_turn l \<noteq> None \<Longrightarrow> core_try (P\<lparr>wf_runTurn := m\<rparr>) p model who (l, w) = core_try P p model who (l, w)"
  unfolding core_try_def by (simp add: act_bind_def [of "replay_loop _ _ _ _ _"] replay_with_turn cong: if_cong)

lemma core_run_planned:
  assumes "fl_turn l = Some t" and "t_plan t \<noteq> None"
  shows "core_run (P\<lparr>wf_runTurn := m\<rparr>) p (l, w) = core_run P p (l, w)"
proof -
  let ?Q = "P\<lparr>wf_runTurn := m\<rparr>"
  have gen: "core_generate X p model who (l, w) = (Inr True, (l\<lparr>fl_result := Some (restoreReplyResult X t)\<rparr>, w))" for X model who w
    using assms by (simp add: core_generate_def act_bind_def look_up_def assign_def)
  have after: "act_bind (core_generate ?Q p model who)
      (\<lambda>go_on. if go_on then act_finally (act_catch (core_try ?Q p model who) (core_catch ?Q p)) (core_finally ?Q p) else act_ret ()) (l, w) =
     act_bind (core_generate P p model who)
      (\<lambda>go_on. if go_on then act_finally (act_catch (core_try P p model who) (core_catch P p)) (core_finally P p) else act_ret ()) (l, w)"
    for model who w
    by (simp add: act_bind_def [of "core_generate _ _ _ _"] gen, intro finally_same catch_same core_try_planned) (simp add: assms(1))
  have call: "\<exists>w'. s' = (l, w')" if "call n (l, w) = (r, s')" for n :: "('a, 'b) flow" and r s' w
    using that by (auto simp: call_def split: prod.splits)
  show ?thesis
    unfolding core_run_def Let_def
    apply simp
    apply (rule bind_same, drule call, elim exE, simp only:)
    apply (rule bind_same, drule call, elim exE, simp only: bind_doing)
    by (rule after)
qed

text \<open>What is resumed does not depend on the agent at all.\<close>

lemma resume_without_model:
  "resumePersistedReply (P\<lparr>wf_runTurn := m\<rparr>) uuid t token g = resumePersistedReply P uuid t token g"
proof -
  have core: "processMessageCore (P\<lparr>wf_runTurn := m\<rparr>) (resume_params t token trace g) =
      processMessageCore P (resume_params t token trace g)" if "t_plan t \<noteq> None" for trace
  proof
    fix w
    let ?p = "resume_params t token trace g"
    have opened: "core_open P ?p (core_start ?p, w) = (Inr (), ((core_start ?p)\<lparr>fl_turn := Some t\<rparr>, w))"
      by (simp add: core_open_def resume_params_def act_bind_def look_up_def assign_def)
    have route: "\<exists>l' w'. s' = (l', w') \<and> fl_turn l' = Some t"
      if "core_route P ?p t ((core_start ?p)\<lparr>fl_turn := Some t\<rparr>, w) = (Inr (), s')" for s'
      using that by (auto simp: core_route_def act_bind_def call_def assign_def Let_def split: prod.splits sum.splits)
    have "act_bind (core_route P ?p t) (\<lambda>_. core_run (P\<lparr>wf_runTurn := m\<rparr>) ?p) ((core_start ?p)\<lparr>fl_turn := Some t\<rparr>, w) =
        act_bind (core_route P ?p t) (\<lambda>_. core_run P ?p) ((core_start ?p)\<lparr>fl_turn := Some t\<rparr>, w)"
      by (rule bind_same) (use route core_run_planned that in fastforce)
    then show "processMessageCore (P\<lparr>wf_runTurn := m\<rparr>) ?p w = processMessageCore P ?p w"
      by (simp add: processMessageCore_def core_main_def act_bind_def [of "core_open _ _"] opened bind_look)
  qed
  show ?thesis unfolding resumePersistedReply_def by (simp add: core Let_def)
qed

section \<open>An ordinary turn\<close>

text \<open>One message is answered with one reply; the world is the list of the turns a delivery was called for and the
  number of acknowledgements.\<close>

type_synonym demo_flow_world = "reply_turn option list \<times> nat"

definition demo_message :: callback where
  "demo_message = \<lparr>cb_messageId = ''m1'', cb_chatId = ''chat'', cb_orgId = Some ''corp'', cb_imBotId = ''bot'',
     cb_imContactId = Some ''c1'', cb_imRoomId = None, cb_contactName = Some ''Li'', cb_botUserId = Some ''mgr'',
     cb_externalUserId = None, cb_groupId = None, cb_source = None, cb_apiType = None, cb_token = Some ''token'',
     cb_timestamp = ''1000'', cb_receivedAt = None, cb_content = ''hi'', cb_imageUrl = None, cb_artworkUrl = None,
     cb_isEmotion = False\<rparr>"

definition demo_ordinary_turn :: reply_turn where
  "demo_ordinary_turn = \<lparr>t_corp = ''corp'', t_account = ''bot'', t_chat = ''chat'', t_turn = ''t1'', t_inputIds = [''m1''],
     t_inputAt = 1000, t_mode = EXECUTE, t_status = Planned, t_owner = Some ''w1'', t_fence = 1, t_plan = None,
     t_policy = Single_pass, t_result = None, t_recovery = replyRecoveryContext demo_message ''hi'', t_projection = No_projection\<rparr>"

definition demo_turn_outcome :: turn_outcome where
  "demo_turn_outcome = \<lparr>to_kind = Reply_outcome, to_receipt = None, to_sideEffects = [], to_toolCalls = [], to_text = Some ''hello'',
     to_generatedText = None, to_silenced = False, to_guardrail = False, to_finalizer = 1\<rparr>"

definition demo_flow_report :: delivery_report where
  "demo_flow_report = nothing_delivered\<lparr>rp_success := True, rp_count := 1, rp_delivered := 1, rp_acceptedText := Some ''hello''\<rparr>"

definition demo_flow_ports :: "demo_flow_world flow_ports" where
  "demo_flow_ports = \<lparr>wf_durable = True, wf_open = (\<lambda>_ _ _ _. act_ret (Some demo_ordinary_turn)),
     wf_saveEffects = (\<lambda>t v. act_ret (t\<lparr>t_projection := Projection_pending,
       t_recovery := t_recovery t @ [(''effects'', v)]\<rparr>)),
     wf_completeProjection = (\<lambda>_. act_ret ()), wf_settle = (\<lambda>t _. act_ret (t\<lparr>t_status := Settled\<rparr>)),
     wf_acked = (\<lambda>t (xs, n). (Inr (t\<lparr>t_status := Acked\<rparr>), (xs, Suc n))), wf_interrupt = act_ret, wf_inputActive = (\<lambda>_. act_ret ()),
     wf_groupRoute = (\<lambda>_ _ _. act_ret None), wf_enterpriseToken = Some ''token'', wf_modelSelection = act_ret None,
     wf_botUser = (\<lambda>_. act_ret None), wf_runTurn = (\<lambda>_. act_ret demo_turn_outcome), wf_blocksReplay = (\<lambda>_. False),
     wf_bookingSucceeded = (\<lambda>_. False), wf_isDatetime = (\<lambda>_. True), wf_shortCircuited = (\<lambda>_. False),
     wf_replayEvidence = (\<lambda>_. False), wf_awaitVision = (\<lambda>_. act_ret ()), wf_describe = (\<lambda>_ _ _ w. w),
     wf_deliver = (\<lambda>_ c _ (xs, n). (Inr demo_flow_report, (fx_turn c # xs, n))), wf_preparePlan = (\<lambda>_ _ _. act_ret None),
     wf_restore = (\<lambda>_. None), wf_commitOutcome = (\<lambda>_ _. act_ret ()), wf_toolAnchors = (\<lambda>_ _ _. act_ret ()),
     wf_replyAnchors = (\<lambda>_ _ _ _. act_ret ()), wf_claimPending = (\<lambda>_ _. act_ret ([], 0)), wf_ackPending = (\<lambda>_ _. act_ret ()),
     wf_ackPendingIds = (\<lambda>_ _. act_ret ()), wf_markProcessed = (\<lambda>_. act_ret ()), wf_watermark = (\<lambda>_ _ _ _. act_ret ()),
     wf_recordOpening = (\<lambda>_ _ _. act_ret Duplicate), wf_scheduleOpening = (\<lambda>_ _. act_ret True),
     wf_recordReplied = (\<lambda>_ _ _. act_ret ()), wf_handleError = (\<lambda>_ _ _ _ _. act_ret ()), wf_addMessage = (\<lambda>_. act_ret ()),
     wf_content = (\<lambda>ms. concat (map cb_content ms)), wf_settleMemory = (\<lambda>_ _ _ w. w), wf_discardMemory = (\<lambda>_ w. w),
     wf_whenSettled = (\<lambda>_ w. w), wf_telemetry = (\<lambda>_. act_ret True), wf_background = (\<lambda>_ w. w), wf_now = (\<lambda>_. 0)\<rparr>"

definition demo_params :: "demo_flow_world core_params" where
  "demo_params = single_params demo_message"

definition demo_run :: "(flow_exn + unit) \<times> demo_flow_world" where
  "demo_run = processMessageCore demo_flow_ports demo_params ([], 0)"

lemma demo_quiet: "(\<And>xs n. f (xs, n) = f ([], n)) \<Longrightarrow> quiet f demo_flow_ports"
  by (simp add: quiet_def demo_flow_ports_def keeps_ret)

theorem resolved_run_acknowledged_its_turn_witness:
  "snd (snd demo_run) = (case fst demo_run of Inl _ \<Rightarrow> 0 | Inr _ \<Rightarrow> 1)"
proof -
  have "core_open demo_flow_ports demo_params (core_start demo_params, ([], 0)) =
      (Inr (), (core_start demo_params)\<lparr>fl_turn := Some demo_ordinary_turn\<rparr>, ([], 0))"
    by (simp add: core_open_def demo_flow_ports_def act_bind_def look_up_def assign_def call_def demo_params_def single_params_def)
  moreover have "counts_acks snd demo_flow_ports" "wf_durable demo_flow_ports"
    by (simp_all add: counts_acks_def demo_flow_ports_def)
  moreover have "quiet snd demo_flow_ports" by (rule demo_quiet) simp
  moreover have "quiet_guard snd (cp_owner demo_params)"
    by (simp add: quiet_guard_def demo_params_def single_params_def)
  moreover have "keeps snd (wf_runTurn demo_flow_ports a)" "keeps snd (wf_deliver demo_flow_ports x c b)"
      "keeps snd (wf_handleError demo_flow_ports e m x ids g)" for a x c b e m ids g
    by (simp_all add: demo_flow_ports_def keeps_ret) (simp add: keeps_def split: prod.split)
  ultimately show ?thesis
    using resolved_run_acknowledged_its_turn [of snd demo_flow_ports demo_params "([], 0)" _ _
        demo_ordinary_turn "fst demo_run" "snd demo_run"]
    by (simp add: demo_run_def)
qed

end
