(* ===== verification/ReplyWorkflowSend.thy ===== *)
theory ReplyWorkflowSend
  imports ReplyWorkflowInv
begin

text \<open>
  What a run of the reply workflow sends: an ordinary reply only after the business effects of its turn are
  saved, and at most one delivery for each batch of messages.
\<close>

section \<open>The parts that do not send\<close>

text \<open>A part of the locals beside a view of the world.\<close>

definition core_view :: "(flow_locals \<Rightarrow> 'h) \<Rightarrow> ('w \<Rightarrow> 'v) \<Rightarrow> flow_locals \<times> 'w \<Rightarrow> 'h \<times> 'v" where
  "core_view h f = (\<lambda>(l, w). (h l, f w))"

lemma keeps_call [keeps_intro]: "keeps f m \<Longrightarrow> keeps (core_view h f) (call m)"
  by (auto simp: keeps_def call_def core_view_def split: prod.splits) (metis snd_conv)

lemma keeps_doing [keeps_intro]: "(\<And>w. f (g w) = f w) \<Longrightarrow> keeps (core_view h f) (doing g)"
  by (simp add: keeps_def doing_def core_view_def split: prod.splits)

lemma keeps_assign [keeps_intro]: "(\<And>l. h (g l) = h l) \<Longrightarrow> keeps (core_view h f) (assign g)"
  by (simp add: keeps_def assign_def core_view_def split: prod.splits)

lemma keeps_look [keeps_intro]: "keeps V (look_up k)"
  by (simp add: keeps_def look_up_def split: prod.splits)

lemma quiet_ack [keeps_intro]:
  assumes q: "quiet f P" and g: "quiet_guard f g" and ack: "\<And>t. keeps f (wf_acked P t)"
  shows "keeps f (ackDurableTurn P t g)" "keeps f (settleAndAckTurn P t g)"
proof -
  show a: "keeps f (ackDurableTurn P t g)" for t
    unfolding ackDurableTurn_def by (intro keeps_intro quiet_ports [OF q] g ack)
  show "keeps f (settleAndAckTurn P t g)"
    unfolding settleAndAckTurn_def by (intro keeps_intro quiet_ports [OF q] g a)
qed

text \<open>A view that only a delivery and the handling of an error other than a failed delivery may change.\<close>

definition only_sending_changes :: "('w \<Rightarrow> 'v) \<Rightarrow> 'w flow_ports \<Rightarrow> 'w guard \<Rightarrow> bool" where
  "only_sending_changes f P g \<longleftrightarrow> quiet f P \<and> quiet_guard f g \<and> (\<forall>a. keeps f (wf_runTurn P a)) \<and>
     (\<forall>t. keeps f (wf_acked P t)) \<and> (\<forall>e r m x ids c. keeps f (wf_handleError P (Undelivered e r) m x ids c))"

lemma core_quiet:
  assumes "only_sending_changes f P (cp_owner p)"
  shows "keeps (core_view (\<lambda>_. ()) f) (run_agent P p model who)" "keeps (core_view (\<lambda>_. ()) f) (replay_loop n P p model who)"
    "keeps (core_view (\<lambda>_. ()) f) (core_save P p who)" "keeps (core_view (\<lambda>_. ()) f) (core_effects P p who)"
    "keeps (core_view fl_result f) (core_anchors P p who)" "keeps (core_view (\<lambda>_. ()) f) (core_finish P p ids)"
    "keeps (core_view (\<lambda>_. ()) f) (core_silent P p ids)" "keeps (core_view (\<lambda>_. ()) f) (core_catch P p e)"
    "keeps (core_view (\<lambda>_. ()) f) (core_finally P p)" "keeps (core_view (\<lambda>_. ()) f) (core_open P p)"
    "keeps (core_view (\<lambda>_. ()) f) (core_route P p t)"
proof -
  have q: "quiet f P" and g: "quiet_guard f (cp_owner p)" "quiet_guard f None"
    and run: "keeps f (wf_runTurn P a)" and ack: "keeps f (wf_acked P t)"
    and und: "keeps f (wf_handleError P (Undelivered e r) m x ids c)" for a t e r m x ids c
    using assms by (simp_all add: only_sending_changes_def quiet_guard_def)
  have err: "keeps f (wf_handleError P (case e of Undelivered m r \<Rightarrow> e | _ \<Rightarrow> Undelivered (flow_message e) d) m x ids c)" for e d m x ids c
    by (cases e) (simp_all add: und)
  note rules = keeps_intro q g run ack err memory_quiet [of f] quiet_ports [OF q]
  show agent: "keeps (core_view (\<lambda>_. ()) f) (run_agent P p model who)"
    unfolding run_agent_def by (intro rules) simp
  show "keeps (core_view (\<lambda>_. ()) f) (replay_loop n P p model who)"
    by (induction n) (simp only: replay_loop.simps, (intro rules agent; simp))+
  show "keeps (core_view (\<lambda>_. ()) f) (core_save P p who)" "keeps (core_view (\<lambda>_. ()) f) (core_effects P p who)"
    "keeps (core_view fl_result f) (core_anchors P p who)"
    unfolding core_save_def core_effects_def core_anchors_def await_def by (intro rules; simp)+
  show fin: "keeps (core_view (\<lambda>_. ()) f) (core_finish P p ids)" for ids
    unfolding core_finish_def by (intro rules)
  show "keeps (core_view (\<lambda>_. ()) f) (core_silent P p ids)" "keeps (core_view (\<lambda>_. ()) f) (core_finally P p)"
    unfolding core_silent_def core_finally_def by (intro rules fin)+
  show "keeps (core_view (\<lambda>_. ()) f) (core_catch P p e)" "keeps (core_view (\<lambda>_. ()) f) (core_open P p)"
    "keeps (core_view (\<lambda>_. ()) f) (core_route P p t)"
    unfolding core_catch_def core_open_def core_route_def by (intro rules; simp)+
qed

section \<open>An ordinary reply is sent after its effects are saved\<close>

definition sendable :: "reply_turn option \<Rightarrow> bool" where
  "sendable t = (case t of None \<Rightarrow> True | Some x \<Rightarrow> t_policy x \<noteq> Single_pass \<or> t_projection x \<noteq> No_projection)"

lemma sendable_complete [simp]: "sendable (Some (t\<lparr>t_projection := Projection_complete\<rparr>))"
  by (simp add: sendable_def)

definition saves_effects :: "'w flow_ports \<Rightarrow> bool" where
  "saves_effects P \<longleftrightarrow> (\<forall>t v w. case fst (wf_saveEffects P t v w) of Inl _ \<Rightarrow> True | Inr x \<Rightarrow> t_projection x \<noteq> No_projection)"

text \<open>The view \<open>f\<close> may only be changed by a delivery for a turn whose effects are not saved.\<close>

definition sees_unsaved :: "('w \<Rightarrow> 'v) \<Rightarrow> 'w flow_ports \<Rightarrow> bool" where
  "sees_unsaved f P \<longleftrightarrow> (\<forall>x c b. sendable (fx_turn c) \<longrightarrow> keeps f (wf_deliver P x c b)) \<and>
     (\<forall>e m x ids c. keeps f (wf_handleError P e m x ids c))"

abbreviation can_send :: "('w \<Rightarrow> 'v) \<Rightarrow> 'v \<Rightarrow> flow_locals \<times> 'w \<Rightarrow> bool" where
  "can_send f v \<equiv> both (\<lambda>l. sendable (fl_turn l)) f (\<lambda>x. x = v)"

abbreviation unchanged :: "('w \<Rightarrow> 'v) \<Rightarrow> 'v \<Rightarrow> flow_locals \<times> 'w \<Rightarrow> bool" where
  "unchanged f v \<equiv> both (\<lambda>_. True) f (\<lambda>x. x = v)"

lemma stays_unchanged: "keeps (core_view h f) m \<Longrightarrow> stays (unchanged f v) m"
  by (simp add: keeps_def stays_def core_view_def both_def split: prod.splits)

lemma bind_assign: "act_bind (assign g) k (l, w) = k () (g l, w)"
  by (simp add: act_bind_def assign_def)

lemma effects_make_sendable:
  assumes q: "quiet f P" and s: "saves_effects P"
  shows "triple (unchanged f v) (core_effects P p who) (\<lambda>_. can_send f v) (\<lambda>_. unchanged f v)"
proof (rule tripleI)
  have saved: "t_projection x \<noteq> No_projection \<and> f w' = f w" if "wf_saveEffects P t e w = (Inr x, w')" for t e w x w'
  proof
    have "case fst (wf_saveEffects P t e w) of Inl _ \<Rightarrow> True | Inr x \<Rightarrow> t_projection x \<noteq> No_projection"
      using s unfolding saves_effects_def by blast
    with that show "t_projection x \<noteq> No_projection" by simp
    show "f w' = f w" by (rule keepsD [OF quiet_ports(2) [OF q] that])
  qed
  fix st u st' assume "unchanged f v st" "core_effects P p who st = (Inr u, st')"
  then obtain l w where st: "st = (l, w)" "f w = v" and run: "core_effects P p who (l, w) = (Inr u, st')"
    by (cases st) (auto simp: both_def)
  show "can_send f v st'"
  proof (cases "single_pass (fl_turn l)")
    case True
    with run obtain e x w' where "wf_saveEffects P (the (fl_turn l)) e w = (Inr x, w')"
        and "st' = (l\<lparr>fl_effects := Some e, fl_turn := Some x\<rparr>, w')"
      by (auto simp: core_effects_def bind_look bind_assign call_def assign_def split: option.splits prod.splits elim!: act_bind_InrE)
    with saved st(2) show ?thesis by (fastforce simp: both_def sendable_def)
  next
    case False
    with run st(2) show ?thesis
      by (auto simp: core_effects_def bind_look both_def sendable_def single_pass_def split: option.splits)
  qed
next
  fix st e st' assume "unchanged f v st" "core_effects P p who st = (Inl e, st')"
  moreover have "stays (unchanged f v) (core_effects P p who)"
    unfolding core_effects_def by (intro stays_intro keeps_intro quiet_ports [OF q])
  ultimately show "unchanged f v st'" by (rule staysD [rotated])
qed

lemma weaken_send: "stays (can_send f v) m \<Longrightarrow> triple (can_send f v) m (\<lambda>_. unchanged f v) (\<lambda>_. unchanged f v)"
  by (rule triple_conseq [of "can_send f v" _ "\<lambda>_. can_send f v" "\<lambda>_. can_send f v"]) (auto simp: stays_triple both_def)

lemma after_effects_stay:
  assumes only: "only_sending_changes f P (cp_owner p)" and sees: "sees_unsaved f P"
  shows "stays (can_send f v) (core_handoff P p)" "stays (can_send f v) (core_anchors P p who)"
    "stays (can_send f v) (core_silent P p ids)" "stays (can_send f v) (core_reply P p who ids)"
proof -
  have q: "quiet f P" and g: "quiet_guard f (cp_owner p)" and ack: "keeps f (wf_acked P t)" for t
    using only by (simp_all add: only_sending_changes_def)
  note q' = quiet_ports [OF q]
  have send: "keeps f (wf_deliver P x (flow_context_of p l (fl_turn l) (cp_owner p)) b)" if "sendable (fl_turn l)" for x l b
    using sees that by (simp add: sees_unsaved_def flow_context_of_def)
  have receipt: "keeps f (deliverPreHandoffReceipt P p l)" if "sendable (fl_turn l)" for l
    unfolding deliverPreHandoffReceipt_def by (intro keeps_intro send that)
  show "stays (can_send f v) (core_handoff P p)"
    unfolding core_handoff_def by (rule stays_look) (intro stays_intro keeps_intro receipt q' g; assumption)
  show "stays (can_send f v) (core_anchors P p who)"
    unfolding core_anchors_def by (rule stays_look) (intro stays_intro keeps_intro memory_quiet [of f] q' g; simp)
  have finish: "stays (can_send f v) (core_finish P p ids)" for ids
    unfolding core_finish_def by (intro stays_intro keeps_intro q q' g ack)
  show "stays (can_send f v) (core_silent P p ids)"
    unfolding core_silent_def by (intro stays_intro keeps_intro memory_quiet [of f] q q' finish)
  show "stays (can_send f v) (core_reply P p who ids)"
    unfolding core_reply_def by (rule stays_look) (intro stays_intro keeps_intro memory_quiet [of f] q q' g finish send; simp)
qed

lemma core_try_unsaved:
  assumes only: "only_sending_changes f P (cp_owner p)" and sees: "sees_unsaved f P" and s: "saves_effects P"
  shows "stays (unchanged f v) (core_try P p model who)"
proof -
  have q: "quiet f P" using only by (simp add: only_sending_changes_def)
  note parts = stays_unchanged [OF core_quiet(2) [OF only]] stays_unchanged [OF core_quiet(3) [OF only]]
  note rest = after_effects_stay [OF only sees]
  show ?thesis
    unfolding core_try_def stays_triple
    by (rule triple_step, rule parts, rule triple_look,
        (rule triple_step, (rule parts | (intro stays_intro quiet_ports [OF q])))+, rule triple_look,
        rule triple_bind, rule effects_make_sendable [OF q s], rule weaken_send, intro stays_intro rest)
qed

lemma core_run_unsaved:
  assumes only: "only_sending_changes f P (cp_owner p)" and "sees_unsaved f P" and "saves_effects P"
  shows "stays (unchanged f v) (core_run P p)"
proof -
  have q: "quiet f P" and ack: "keeps f (wf_acked P t)" for t using only by (simp_all add: only_sending_changes_def)
  have err: "keeps f (wf_handleError P e m x ids c)" for e m x ids c
    using assms(2) by (simp add: sees_unsaved_def)
  have none: "quiet_guard f None" by (simp add: quiet_guard_def)
  have "keeps (core_view (\<lambda>_. ()) f) (core_generate P p model who)" for model who
    unfolding core_generate_def by (intro keeps_intro quiet_ports [OF q] q ack err none core_quiet(1) [OF only]) simp
  note parts = stays_unchanged [OF this] stays_unchanged [OF core_quiet(8) [OF only]]
    stays_unchanged [OF core_quiet(9) [OF only]]
  show ?thesis
    unfolding core_run_def by (intro stays_intro parts quiet_ports [OF q] core_try_unsaved assms)
qed

lemma core_main_stays:
  assumes only: "only_sending_changes f P (cp_owner p)" and run: "stays (unchanged f v) (core_run P p)"
  shows "stays (unchanged f v) (core_main P p)"
proof -
  have q: "quiet f P" and g: "quiet_guard f (cp_owner p)" and ack: "keeps f (wf_acked P t)" for t
    using only by (simp_all add: only_sending_changes_def)
  note parts = stays_unchanged [OF core_quiet(10) [OF only]] stays_unchanged [OF core_quiet(11) [OF only]]
  show ?thesis
    unfolding core_main_def by (intro stays_intro parts run) (intro keeps_intro q g ack)
qed

text \<open>C8: Nothing is sent for an ordinary turn whose business effects are not saved: a view of the world that only
  such a delivery could change is what it was, however the run ends.\<close>

theorem effects_are_saved_before_sending:
  assumes "only_sending_changes f P (cp_owner p)" and "sees_unsaved f P" and "saves_effects P"
  shows "f (snd (processMessageCore P p w)) = f w"
proof -
  have "stays (unchanged f (f w)) (core_main P p)"
    by (rule core_main_stays [OF assms(1) core_run_unsaved [OF assms]])
  then show ?thesis
    by (auto simp: processMessageCore_def both_def split: prod.split dest: staysD)
qed

section \<open>At most one delivery\<close>

text \<open>\<open>one_more f m s\<close>: started in \<open>s\<close>, the call adds at most one to the count \<open>f\<close>.\<close>

definition one_more :: "('s \<Rightarrow> nat) \<Rightarrow> ('s \<Rightarrow> 'a \<times> 's) \<Rightarrow> 's \<Rightarrow> bool" where
  "one_more f m s \<longleftrightarrow> f (snd (m s)) \<le> Suc (f s)"

lemma one_more_keeps: "keeps f m \<Longrightarrow> one_more f m s"
  by (simp add: one_more_def keeps_def)

lemma one_more_before: "keeps f m \<Longrightarrow> (\<And>v s'. m s = (Inr v, s') \<Longrightarrow> one_more f (k v) s') \<Longrightarrow> one_more f (act_bind m k) s"
  by (fastforce simp: one_more_def act_bind_def dest: keepsD split: prod.split sum.split)

lemma one_more_after: "one_more f m s \<Longrightarrow> (\<And>v. keeps f (k v)) \<Longrightarrow> one_more f (act_bind m k) s"
  by (fastforce simp: one_more_def act_bind_def keeps_def split: prod.split sum.split)

lemma one_more_catch: "one_more f m s \<Longrightarrow> (\<And>e. keeps f (h e)) \<Longrightarrow> one_more f (act_catch m h) s"
  by (fastforce simp: one_more_def act_catch_def keeps_def split: prod.split sum.split)

lemma one_more_finally: "one_more f m s \<Longrightarrow> keeps f g \<Longrightarrow> one_more f (act_finally m g) s"
  by (cases "m s"; cases "fst (g (snd (m s)))"; cases "g (snd (m s))") (auto simp: one_more_def act_finally_def dest: keepsD)

lemma one_more_settled: "one_more f m s \<Longrightarrow> one_more f (settled_result m) s"
  by (cases "m s") (simp add: one_more_def settled_result_def)

definition world_count :: "('w \<Rightarrow> nat) \<Rightarrow> flow_locals \<times> 'w \<Rightarrow> nat" where
  "world_count f = (\<lambda>(l, w). f w)"

lemma keeps_count: "keeps (core_view h f) m \<Longrightarrow> keeps (world_count f) m"
  by (simp add: keeps_def core_view_def world_count_def split: prod.splits)

lemma one_more_call: "one_more f m w \<Longrightarrow> one_more (world_count f) (call m) (l, w)"
  by (cases "m w") (simp add: one_more_def call_def world_count_def)

lemma one_more_if: "(b \<Longrightarrow> one_more F m s) \<Longrightarrow> (\<not> b \<Longrightarrow> one_more F n s) \<Longrightarrow> one_more F (if b then m else n) s"
  by simp

lemma one_more_bind_if:
  "(b \<Longrightarrow> one_more F (act_bind m k) s) \<Longrightarrow> (\<not> b \<Longrightarrow> one_more F (act_bind n k) s) \<Longrightarrow> one_more F (act_bind (if b then m else n) k) s"
  by simp

lemma one_more_look: "one_more F (k (h l)) (l, w) \<Longrightarrow> one_more F (act_bind (look_up h) k) (l, w)"
  by (simp add: one_more_def bind_look)

lemma one_more_handled:
  assumes "keeps F m" and "\<And>v s'. m s = (Inr v, s') \<Longrightarrow> one_more F (k v) s'" and "\<And>e s'. one_more F (h e) s'"
    and "\<And>e v s1 s2. h e s1 = (Inr v, s2) \<Longrightarrow> k v = act_ret ()"
  shows "one_more F (act_bind (act_catch m h) k) s"
proof -
  obtain r s1 where m: "m s = (r, s1)" by fastforce
  have s1: "F s1 = F s" by (rule keepsD [OF assms(1) m])
  show ?thesis
  proof (cases r)
    case (Inr v)
    then show ?thesis using m s1 assms(2) by (simp add: one_more_def act_bind_def act_catch_def)
  next
    case (Inl e)
    obtain x s2 where h: "h e s1 = (x, s2)" by fastforce
    then have "F s2 \<le> Suc (F s)" using assms(3) [of e s1] s1 by (simp add: one_more_def)
    then show ?thesis
      using m h Inl assms(4) by (cases x) (auto simp: one_more_def act_bind_def act_catch_def)
  qed
qed

text \<open>No delivery, and no handling of an error, adds more than one to the count.\<close>

definition counts_deliveries :: "('w \<Rightarrow> nat) \<Rightarrow> 'w flow_ports \<Rightarrow> bool" where
  "counts_deliveries f P \<longleftrightarrow> (\<forall>x c b w. f (snd (wf_deliver P x c b w)) \<le> Suc (f w)) \<and>
     (\<forall>e m x ids c w. f (snd (wf_handleError P e m x ids c w)) \<le> Suc (f w))"

lemma try_sends_once:
  assumes only: "only_sending_changes f P (cp_owner p)" and c: "counts_deliveries f P"
  shows "one_more (world_count f) (core_try P p model who) (l, w)"
proof -
  have q: "quiet f P" and g: "quiet_guard f (cp_owner p)" and ack: "keeps f (wf_acked P t)" for t
    using only by (simp_all add: only_sending_changes_def)
  note q' = quiet_ports [OF q] and parts = core_quiet [OF only]
  have send: "one_more f (wf_deliver P x k b) w" for x k b w
    using c by (simp add: counts_deliveries_def one_more_def)
  have receipt: "one_more f (deliverPreHandoffReceipt P p l) w" for l w
    unfolding deliverPreHandoffReceipt_def ignore_def
    by (auto intro!: one_more_catch one_more_after send one_more_keeps [OF keeps_ret] keeps_intro split: option.split)
  have handoff: "one_more (world_count f) (core_handoff P p) (l, w)" for l w
    unfolding core_handoff_def
    by (rule one_more_look) (auto intro!: one_more_after [OF one_more_call [OF one_more_settled [OF receipt]]] one_more_keeps [OF keeps_ret]
        keeps_count [where h = "\<lambda>_. ()"] keeps_intro q' g)
  have result: "fl_result (fst s') = fl_result l" if "core_handoff P p (l, w) = (x, s')" for l w x s'
  proof -
    have "keeps (core_view fl_result (\<lambda>_. ())) (core_handoff P p)"
      unfolding core_handoff_def await_def by (intro keeps_intro) (simp_all add: keeps_def quiet_guard_def split: option.split)
    from keepsD [OF this that] show ?thesis by (cases s') (simp add: core_view_def)
  qed
  have reply: "one_more (world_count f) (core_reply P p who ids) (l, w)" for ids l w
    unfolding core_reply_def
    by (rule one_more_look, rule one_more_after, rule one_more_call, rule send, rule keeps_count [where h = "\<lambda>_. ()"])
      (intro keeps_intro parts memory_quiet [of f] q' q g; simp)
  let ?rest = "\<lambda>ids. act_bind (look_up (\<lambda>l. is_reply (the_result l)))
      (\<lambda>reply. if reply then core_reply P p who ids else core_silent P p ids)"
  have tail: "one_more (world_count f) (seq (core_handoff P p) (seq (core_anchors P p who) (?rest ids))) (l, w)" for l w ids
  proof (cases "is_reply (the_result l)")
    case True
    then have "core_handoff P p (l, w) = (Inr (), (l, w))"
      by (simp add: core_handoff_def bind_look)
    moreover have "one_more (world_count f) (seq (core_anchors P p who) (?rest ids)) (l, w)"
      by (rule one_more_before, rule keeps_count, rule parts, clarsimp, rule one_more_look)
        (simp add: reply one_more_keeps [OF keeps_count [OF parts(7)]])
    ultimately show ?thesis by (simp add: one_more_def act_bind_def [of "core_handoff _ _"])
  next
    case False
    obtain x l1 w1 where h: "core_handoff P p (l, w) = (x, (l1, w1))" by (cases "core_handoff P p (l, w)") auto
    have "f (snd (snd (seq (core_anchors P p who) (?rest ids) (l1, w1)))) = f w1"
    proof -
      obtain y s2 where Pair: "core_anchors P p who (l1, w1) = (y, s2)" by (cases "core_anchors P p who (l1, w1)")
      obtain l2 w2 where s2: "s2 = (l2, w2)" by fastforce
      have "fl_result l2 = fl_result l" "f w2 = f w1"
        using keepsD [OF parts(5) Pair] result [OF h] by (simp_all add: core_view_def s2)
      moreover have "\<not> is_reply (the_result l2)" using calculation(1) False by (simp add: the_result_def)
      moreover have "f (snd (snd (core_silent P p ids (l2, w2)))) = f w2"
        using keepsD [OF parts(7), of ids "(l2, w2)"] by (cases "core_silent P p ids (l2, w2)") (auto simp: core_view_def)
      ultimately show ?thesis
        by (cases y) (simp_all add: act_bind_def [of "core_anchors _ _ _"] Pair s2 bind_look)
    qed
    moreover have "f w1 \<le> Suc (f w)" using handoff [of l w] by (simp add: one_more_def h world_count_def)
    ultimately show ?thesis
      by (cases x) (auto simp: one_more_def act_bind_def [of "core_handoff _ _"] h world_count_def split: prod.split)
  qed
  show ?thesis
    unfolding core_try_def
    by (rule one_more_before, rule keeps_count, rule parts, rule one_more_before, rule keeps_look,
        (rule one_more_before, (rule keeps_count [where h = "\<lambda>_. ()"], (rule parts | (intro keeps_intro q'))) | rule keeps_look)+)
      (use tail in force)
qed

text \<open>Whatever fails, and whoever takes over, a run sends no more than one of the reply, the receipt before a
  handoff and the answer to an error.\<close>

lemma run_sends_once:
  assumes only: "only_sending_changes f P (cp_owner p)" and c: "counts_deliveries f P"
  shows "f (snd (processMessageCore P p w)) \<le> Suc (f w)"
proof -
  note parts = core_quiet [OF only]
  have q: "quiet f P" and g: "quiet_guard f (cp_owner p)" and ack: "keeps f (wf_acked P t)" for t
    using only by (simp_all add: only_sending_changes_def)
  note q' = quiet_ports [OF q]
  have tried: "one_more (world_count f) (act_finally (act_catch (core_try P p model who) (core_catch P p)) (core_finally P p)) s" for model who s
    by (cases s, hypsubst, intro one_more_finally one_more_catch try_sends_once [OF only c]) (rule keeps_count, rule parts)+
  have err: "one_more (world_count f) (call (wf_handleError P e m x ids k)) s" for e m x ids k s
    using c by (cases s) (auto intro!: one_more_call simp: counts_deliveries_def one_more_def [of f])
  have none: "quiet_guard f None" by (simp add: quiet_guard_def)
  let ?then = "\<lambda>model who go_on. if go_on then act_finally (act_catch (core_try P p model who) (core_catch P p)) (core_finally P p) else act_ret ()"
  have generated: "one_more (world_count f) (act_bind (core_generate P p model who) (?then model who)) s" for model who s
  proof -
    obtain l w where s: "s = (l, w)" by fastforce
    have known: "one_more (world_count f) (act_bind (seq m (act_ret True)) (?then model who)) s"
      if "keeps (core_view (\<lambda>_. ()) f) m" for m s
      unfolding act_bind_assoc act_bind_ret by (rule one_more_before, rule keeps_count, rule that) (simp add: tried)
    show ?thesis
    proof (cases "fl_turn l")
      case None
      then show ?thesis
        unfolding core_generate_def s act_bind_assoc [of "look_up _"]
        by (intro one_more_look) (simp only: option.case, rule known, rule parts)
    next
      case (Some t)
      have handled: "one_more (world_count f) (act_bind (act_catch (seq (run_agent P p model who) (act_ret True)) h) (?then model who)) s"
        if "\<And>e s'. one_more (world_count f) (h e) s'" "\<And>e v s1 s2. h e s1 = (Inr v, s2) \<Longrightarrow> \<not> v" for h s
        by (rule one_more_handled) (auto intro!: keeps_count [where h = "\<lambda>_. ()"] keeps_intro parts that(1) tried one_more_keeps [OF keeps_ret] dest: that(2))
      show ?thesis
        unfolding core_generate_def s act_bind_assoc [of "look_up _"]
        apply (rule one_more_look, simp only: Some option.case, rule one_more_bind_if)
         apply (rule known, intro keeps_intro, simp)
        apply (rule handled)
        subgoal for e s'
          by (cases s', hypsubst, intro one_more_if one_more_keeps [OF keeps_throw] one_more_look,
              rule one_more_after, rule err, rule keeps_count [where h = "\<lambda>_. ()"], intro keeps_intro q' q none ack)
        subgoal by (auto elim!: act_bind_InrE split: if_splits simp: look_up_def split: prod.splits)
        done
    qed
  qed
  have run: "one_more (world_count f) (core_run P p) s" for s
    unfolding core_run_def Let_def
    by (rule one_more_before, rule keeps_count [where h = "\<lambda>_. ()"], intro keeps_intro q',
        rule one_more_before, rule keeps_count [where h = "\<lambda>_. ()"], intro keeps_intro q',
        rule one_more_before, rule keeps_count [where h = "\<lambda>_. ()"], intro keeps_intro q', rule generated)
  have ready: "one_more (world_count f) (case turn of None \<Rightarrow> core_run P p
      | Some t \<Rightarrow> if t_status t = Settled \<or> t_status t = Acked then call (ackDurableTurn P t (cp_owner p))
          else seq (core_route P p t) (core_run P p)) s" for turn s
    by (cases turn)
      (simp_all add: run one_more_before [OF keeps_count [OF parts(11)]] one_more_keeps
        keeps_count [where h = "\<lambda>_. ()", OF keeps_call [OF quiet_ack(1) [OF q g ack]]])
  have "one_more (world_count f) (core_main P p) (core_start p, w)"
    unfolding core_main_def
    by (rule one_more_before, rule keeps_count, rule parts, rule one_more_before, rule keeps_look, rule ready)
  then show ?thesis
    by (cases "core_main P p (core_start p, w)") (auto simp: processMessageCore_def one_more_def world_count_def split: prod.split)
qed

section \<open>The ordinary turn again\<close>

text \<open>The view lists the deliveries for turns whose effects are not saved.\<close>

theorem effects_are_saved_before_sending_witness:
  "filter (\<lambda>t. \<not> sendable t) (fst (snd demo_run)) = []"
proof -
  let ?f = "\<lambda>(xs, n :: nat). filter (\<lambda>t. \<not> sendable t) xs"
  have "only_sending_changes ?f demo_flow_ports (cp_owner demo_params)"
    by (simp add: only_sending_changes_def quiet_guard_def demo_params_def single_params_def demo_flow_ports_def quiet_def keeps_ret)
      (simp add: keeps_def split: prod.split)
  moreover have "sees_unsaved ?f demo_flow_ports" "saves_effects demo_flow_ports"
    by (simp_all add: sees_unsaved_def saves_effects_def demo_flow_ports_def keeps_def split: prod.split)
  ultimately have "?f (snd (processMessageCore demo_flow_ports demo_params ([], 0))) = ?f ([], 0)"
    by (rule effects_are_saved_before_sending)
  then show ?thesis by (simp add: demo_run_def split: prod.splits)
qed

end
