(* ===== verification/MessageFailure.thy ===== *)
theory MessageFailure
  imports ReplyWorkflow Triples
begin

text \<open>
  \<open>src/channels/wecom/message/application/message-processing-failure.service.ts\<close>: what happens to an input whose
  processing failed.  An error that already is the result of a delivery only ends the input; any other error is
  answered with one fallback text.

  The texts the candidate reads are named, not spelled.  The services are ports; an alert is sent without being
  able to fail, as the code catches its errors, and so is the record of a failure, which is only queued.
\<close>

section \<open>Errors\<close>

datatype replay_status = Replay_pending | Replay_executing | Replay_unknown | Replay_succeeded | Replay_blocked | Replay_cancelled

record replay_evidence =
  re_tool :: string
  re_status :: replay_status
  re_component :: "string option"

text \<open>\<open>AgentErrorMeta\<close>, as far as it is used, and the status of an \<open>HttpException\<close>.\<close>

record agent_meta =
  am_blocked :: "replay_evidence list"
  am_category :: "string option"

record error_detail =
  ed_agent :: bool
  ed_meta :: "agent_meta option"
  ed_http :: "int option"

datatype failure_exn = Failure_deferred string | Failure_delivery string delivery_report error_detail | Failure_other string error_detail

fun failure_text :: "failure_exn \<Rightarrow> string" where
  "failure_text (Failure_deferred r) = deferred r"
| "failure_text (Failure_delivery m _ _) = m"
| "failure_text (Failure_other m _) = m"

fun detail :: "failure_exn \<Rightarrow> error_detail option" where
  "detail (Failure_deferred _) = None"
| "detail (Failure_delivery _ _ d) = Some d"
| "detail (Failure_other _ d) = Some d"

definition unresolved :: "replay_status \<Rightarrow> bool" where
  "unresolved s \<longleftrightarrow> s \<in> {Replay_unknown, Replay_executing, Replay_pending}"

datatype alert_type = Agent_alert | Delivery_alert | Given_alert string

definition isAgentError :: "failure_exn \<Rightarrow> bool" where
  "isAgentError e = (case detail e of None \<Rightarrow> False | Some d \<Rightarrow> ed_agent d \<or> ed_meta d \<noteq> None)"

definition isDeliveryError :: "failure_exn \<Rightarrow> bool" where
  "isDeliveryError e = (case e of Failure_delivery _ _ _ \<Rightarrow> True | _ \<Rightarrow> False)"

definition inferErrorType :: "failure_exn \<Rightarrow> string \<Rightarrow> alert_type" where
  "inferErrorType e other =
     (if isAgentError e then Agent_alert else if isDeliveryError e then Delivery_alert else Given_alert other)"

datatype alert_level = Alert_warning | Alert_error | Alert_critical

definition getAlertLevelFromError :: "failure_exn \<Rightarrow> alert_level" where
  "getAlertLevelFromError e =
     (case detail e of
        None \<Rightarrow> Alert_error
      | Some d \<Rightarrow>
          if ed_http d = Some 429 then Alert_warning
          else (case ed_meta d of
                  Some m \<Rightarrow> if am_category m = Some ''rate_limited'' then Alert_warning else Alert_error
                | None \<Rightarrow> Alert_error))"

section \<open>The text of the fallback\<close>

datatype fallback =
    Booked_invite_pending
  | All_succeeded
  | Partly_succeeded
  | Result_unknown
  | Not_executed
  | Configured string
  | Standard nat

definition BOOKING :: string where "BOOKING = ''duliday_interview_booking''"

definition evidence_of_error :: "failure_exn \<Rightarrow> replay_evidence list" where
  "evidence_of_error e =
     (case detail e of None \<Rightarrow> [] | Some d \<Rightarrow> (case ed_meta d of None \<Rightarrow> [] | Some m \<Rightarrow> am_blocked m))"

definition getActionAwareFallback :: "failure_exn \<Rightarrow> fallback option" where
  "getActionAwareFallback e =
     (let evidence = evidence_of_error e;
          bookingSucceeded = list_ex (\<lambda>i. re_tool i = BOOKING \<and> \<not> given (re_component i) \<and> re_status i = Replay_succeeded) evidence;
          invitePending = list_ex (\<lambda>i. re_component i = Some ''groupInvite'' \<and> unresolved (re_status i)) evidence in
      if evidence = [] then None
      else if bookingSucceeded \<and> invitePending then Some Booked_invite_pending
      else if list_all (\<lambda>i. re_status i = Replay_succeeded) evidence then Some All_succeeded
      else if list_ex (\<lambda>i. re_status i = Replay_succeeded) evidence then Some Partly_succeeded
      else if list_ex (\<lambda>i. unresolved (re_status i)) evidence then Some Result_unknown
      else Some Not_executed)"

text \<open>\<open>getFallbackMessage()\<close>: the configured text, else one of six; \<open>draw\<close> is \<open>Math.floor(Math.random() * 6)\<close>.\<close>

definition getFallbackMessage :: "string \<Rightarrow> nat \<Rightarrow> fallback" where
  "getFallbackMessage configured draw = (if configured \<noteq> [] then Configured configured else Standard (draw mod 6))"

section \<open>Ports\<close>

datatype failure_phase = Delivery_unknown | Delivery_incomplete | Fallback_delivered | Fallback_failed

datatype failure_alert =
    Processing_failed alert_level alert_type string fallback "string option"
  | Reply_incomplete bool string "string option"
  | User_unanswered string fallback
  | Fallback_required string "string option"

record fallback_end =
  fe_success :: bool
  fe_delivered :: "nat option"
  fe_failed :: "nat option"

record 'w failure_ports =
  mf_receiver :: "string \<Rightarrow> ('w, failure_exn, string option) eact"
  mf_alert :: "failure_alert \<Rightarrow> 'w \<Rightarrow> 'w"
  mf_metadata :: "string \<Rightarrow> failure_phase \<Rightarrow> ('w, failure_exn, unit) eact"
  mf_recordFailure :: "string \<Rightarrow> string \<Rightarrow> 'w \<Rightarrow> 'w"
  mf_markProcessed :: "string \<Rightarrow> ('w, failure_exn, unit) eact"
  mf_deliver :: "fallback \<Rightarrow> 'w flow_context \<Rightarrow> ('w, failure_exn, delivery_report) eact"
  mf_fallbackStart :: "string \<Rightarrow> fallback \<Rightarrow> ('w, failure_exn, unit) eact"
  mf_fallbackEnd :: "string \<Rightarrow> fallback_end \<Rightarrow> ('w, failure_exn, unit) eact"
  mf_env :: string
  mf_random :: "'w \<Rightarrow> nat"

record 'w failure_options =
  fo_errorType :: "alert_type option"
  fo_traceId :: "string option"
  fo_ids :: "string list option"
  fo_context :: "'w flow_context option"

definition silently :: "('w \<Rightarrow> 'w) \<Rightarrow> ('w, 'e, unit) eact" where
  "silently g = (\<lambda>w. (Inr (), g w))"

section \<open>handleProcessingError\<close>

definition mark_all :: "'w failure_ports \<Rightarrow> string list \<Rightarrow> ('w, failure_exn, unit) eact" where
  "mark_all F ids = act_for ids (\<lambda>i. act_catch (mf_markProcessed F i) (\<lambda>_. act_ret ()))"

definition failure_trace :: "parsed_message \<Rightarrow> 'w failure_options \<Rightarrow> string" where
  "failure_trace p o' = (case fo_traceId o' of Some t \<Rightarrow> t | None \<Rightarrow> cb_messageId (pm_message p))"

definition failure_ids :: "parsed_message \<Rightarrow> 'w failure_options \<Rightarrow> string list" where
  "failure_ids p o' = (case fo_ids o' of Some ids \<Rightarrow> ids | None \<Rightarrow> [cb_messageId (pm_message p)])"

text \<open>The group of a message is not passed on to a fallback that gets no context.\<close>

definition fallback_context :: "parsed_message \<Rightarrow> 'w failure_options \<Rightarrow> 'w flow_context" where
  "fallback_context p o' = (case fo_context o' of Some c \<Rightarrow> c
     | None \<Rightarrow> \<lparr>fx_parsed = p\<lparr>pm_groupId := None\<rparr>, fx_traceId = failure_trace p o', fx_turn = None, fx_owner = None\<rparr>)"

definition end_delivery :: "'w failure_ports \<Rightarrow> string \<Rightarrow> delivery_report \<Rightarrow> string \<Rightarrow> string list \<Rightarrow> string option \<Rightarrow> ('w, failure_exn, unit) eact" where
  "end_delivery F m r trace ids receiver =
     seq (silently (mf_alert F (Reply_incomplete (rp_unknown r \<noteq> 0) trace receiver)))
     (seq (mf_metadata F trace (if rp_unknown r \<noteq> 0 then Delivery_unknown else Delivery_incomplete))
     (seq (silently (mf_recordFailure F trace m))
          (mark_all F ids)))"

definition send_fallback :: "'w failure_ports \<Rightarrow> failure_exn \<Rightarrow> fallback \<Rightarrow> string \<Rightarrow> string list \<Rightarrow> 'w flow_context \<Rightarrow> ('w, failure_exn, unit) eact" where
  "send_fallback F e text trace ids c =
     act_catch
       (seq (mf_fallbackStart F trace text)
       (act_bind (mf_deliver F text c) (\<lambda>_.
        seq (mf_fallbackEnd F trace \<lparr>fe_success = True, fe_delivered = Some 1, fe_failed = Some 0\<rparr>)
       (seq (mark_all F ids)
       (seq (mf_metadata F trace Fallback_delivered)
            (silently (mf_recordFailure F trace (failure_text e))))))))
       (\<lambda>e2. case e2 of
          Failure_deferred _ \<Rightarrow> act_throw e2
        | _ \<Rightarrow>
            seq (mf_fallbackEnd F trace
                  (case e2 of Failure_delivery _ r _ \<Rightarrow> \<lparr>fe_success = False, fe_delivered = Some (rp_delivered r), fe_failed = Some (rp_failed r)\<rparr>
                    | _ \<Rightarrow> \<lparr>fe_success = False, fe_delivered = None, fe_failed = None\<rparr>))
            (seq (silently (mf_alert F (User_unanswered trace text)))
            (seq (mf_metadata F trace Fallback_failed)
            (seq (silently (mf_recordFailure F trace (failure_text e)))
                 (mark_all F ids)))))"

definition handleProcessingError :: "'w failure_ports \<Rightarrow> failure_exn \<Rightarrow> parsed_message \<Rightarrow> 'w failure_options \<Rightarrow> ('w, failure_exn, unit) eact" where
  "handleProcessingError F e p o' w =
     (case e of
        Failure_deferred _ \<Rightarrow> (Inl e, w)
      | _ \<Rightarrow>
          (let trace = failure_trace p o'; ids = failure_ids p o';
               kind = (case fo_errorType o' of Some k \<Rightarrow> k | None \<Rightarrow> Given_alert ''message'');
               text = (case getActionAwareFallback e of Some t \<Rightarrow> t | None \<Rightarrow> getFallbackMessage (mf_env F) (mf_random F w)) in
           act_bind (mf_receiver F (cb_imBotId (pm_message p))) (\<lambda>receiver.
             case e of
               Failure_delivery m r _ \<Rightarrow> end_delivery F m r trace ids receiver
             | _ \<Rightarrow>
                 seq (silently (mf_alert F (Processing_failed (getAlertLevelFromError e) kind trace text receiver)))
                     (send_fallback F e text trace ids (fallback_context p o'))) w))"

text \<open>\<open>sendFallbackAlert\<close>: only the lookup of the receiver can reject.\<close>

definition sendFallbackAlert :: "'w failure_ports \<Rightarrow> string \<Rightarrow> string \<Rightarrow> ('w, failure_exn, unit) eact" where
  "sendFallbackAlert F chat who = act_bind (mf_receiver F who) (\<lambda>receiver. silently (mf_alert F (Fallback_required chat receiver)))"

section \<open>The text says what the evidence says\<close>

definition succeeded_in :: "replay_evidence list \<Rightarrow> bool" where
  "succeeded_in es \<longleftrightarrow> (\<exists>i \<in> set es. re_status i = Replay_succeeded)"

definition unresolved_in :: "replay_evidence list \<Rightarrow> bool" where
  "unresolved_in es \<longleftrightarrow> (\<exists>i \<in> set es. unresolved (re_status i))"

text \<open>The text of a fallback never hides what an action did: a general text is sent only when there is no evidence of
  an action, success is reported exactly when an action succeeded, complete success exactly when all of them did,
  and the candidate is told that nothing was done only when nothing succeeded and nothing is open.\<close>

theorem fallback_follows_the_evidence:
  "getActionAwareFallback e = None \<longleftrightarrow> evidence_of_error e = []"
  "getActionAwareFallback e \<in> {Some Booked_invite_pending, Some All_succeeded, Some Partly_succeeded} \<longleftrightarrow> succeeded_in (evidence_of_error e)"
  "getActionAwareFallback e = Some All_succeeded \<longleftrightarrow>
     evidence_of_error e \<noteq> [] \<and> list_all (\<lambda>i. re_status i = Replay_succeeded) (evidence_of_error e)"
  "getActionAwareFallback e = Some Result_unknown \<longleftrightarrow> \<not> succeeded_in (evidence_of_error e) \<and> unresolved_in (evidence_of_error e)"
  "getActionAwareFallback e = Some Not_executed \<longleftrightarrow>
     evidence_of_error e \<noteq> [] \<and> \<not> succeeded_in (evidence_of_error e) \<and> \<not> unresolved_in (evidence_of_error e)"
proof -
  let ?ev = "evidence_of_error e"
  have hd: "hd ?ev \<in> set ?ev" if "?ev \<noteq> []" using that by simp
  have clash: "\<not> unresolved Replay_succeeded" by (simp add: unresolved_def)
  note defs = getActionAwareFallback_def Let_def list_ex_iff list_all_iff succeeded_in_def unresolved_in_def
  show "getActionAwareFallback e = None \<longleftrightarrow> ?ev = []" by (simp add: defs)
  show "getActionAwareFallback e \<in> {Some Booked_invite_pending, Some All_succeeded, Some Partly_succeeded} \<longleftrightarrow> succeeded_in ?ev"
    using hd by (auto simp: defs)
  show "getActionAwareFallback e = Some All_succeeded \<longleftrightarrow> ?ev \<noteq> [] \<and> list_all (\<lambda>i. re_status i = Replay_succeeded) ?ev"
    using clash by (auto simp: defs)
  show "getActionAwareFallback e = Some Result_unknown \<longleftrightarrow> \<not> succeeded_in ?ev \<and> unresolved_in ?ev"
    using hd by (auto simp: defs)
  show "getActionAwareFallback e = Some Not_executed \<longleftrightarrow> ?ev \<noteq> [] \<and> \<not> succeeded_in ?ev \<and> \<not> unresolved_in ?ev"
    using hd by (auto simp: defs)
qed

section \<open>What is sent and what is marked\<close>

definition quiet_failure :: "('w \<Rightarrow> 'v) \<Rightarrow> 'w failure_ports \<Rightarrow> bool" where
  "quiet_failure f F \<longleftrightarrow> (\<forall>b. keeps f (mf_receiver F b)) \<and> (\<forall>a w. f (mf_alert F a w) = f w) \<and> (\<forall>t x. keeps f (mf_metadata F t x)) \<and>
     (\<forall>t m w. f (mf_recordFailure F t m w) = f w) \<and> (\<forall>i. keeps f (mf_markProcessed F i)) \<and>
     (\<forall>t x. keeps f (mf_fallbackStart F t x)) \<and> (\<forall>t x. keeps f (mf_fallbackEnd F t x))"

lemma quiet_failureD:
  assumes "quiet_failure f F"
  shows "keeps f (mf_receiver F b)" "f (mf_alert F a w) = f w" "keeps f (mf_metadata F t x)" "f (mf_recordFailure F t m w) = f w"
    "keeps f (mf_markProcessed F i)" "keeps f (mf_fallbackStart F t y)" "keeps f (mf_fallbackEnd F t z)"
  using assms by (simp_all add: quiet_failure_def)

lemma keeps_silently [keeps_intro]: "(\<And>w. f (g w) = f w) \<Longrightarrow> keeps f (silently g)"
  by (simp add: keeps_def silently_def)

lemma keeps_mark_all [keeps_intro]: "quiet_failure f F \<Longrightarrow> keeps f (mark_all F ids)"
  unfolding mark_all_def by (intro keeps_intro quiet_failureD)

lemma delivery_failure_quiet: "quiet_failure f F \<Longrightarrow> keeps f (handleProcessingError F (Failure_delivery m r d) p o')"
proof -
  assume q: "quiet_failure f F"
  have "keeps f (end_delivery F m r trace ids receiver)" for trace ids receiver
    unfolding end_delivery_def by (intro keeps_intro q quiet_failureD)
  then have "keeps f (act_bind (mf_receiver F b) (end_delivery F m r trace ids))" for b trace ids
    by (intro keeps_bind quiet_failureD [OF q])
  then show ?thesis by (simp add: handleProcessingError_def Let_def keeps_def)
qed

text \<open>An error that is the outcome of a delivery, or that defers the work, never makes the service send anything: the
  candidate does not get a fallback on top of a reply that may have arrived.\<close>

theorem delivery_failure_sends_no_fallback:
  assumes "quiet_failure f F" and "isDeliveryError e \<or> e = Failure_deferred reason"
  shows "f (snd (handleProcessingError F e p o' w)) = f w"
  using assms(2) delivery_failure_quiet [OF assms(1)]
  by (cases e) (simp_all add: isDeliveryError_def keeps_def, simp add: handleProcessingError_def)

section \<open>A handled input is marked\<close>

text \<open>\<open>g\<close> is the set of the messages that were marked, or whose mark was tried and failed.\<close>

definition sees_marks :: "('w \<Rightarrow> string set) \<Rightarrow> 'w failure_ports \<Rightarrow> bool" where
  "sees_marks g F \<longleftrightarrow> (\<forall>b w. g w \<subseteq> g (snd (mf_receiver F b w))) \<and> (\<forall>a w. g w \<subseteq> g (mf_alert F a w)) \<and>
     (\<forall>t x w. g w \<subseteq> g (snd (mf_metadata F t x w))) \<and> (\<forall>t m w. g w \<subseteq> g (mf_recordFailure F t m w)) \<and>
     (\<forall>t x w. g w \<subseteq> g (snd (mf_fallbackEnd F t x w))) \<and>
     (\<forall>i w. insert i (g w) \<subseteq> g (snd (mf_markProcessed F i w)))"

lemma mark_all_marks:
  assumes "sees_marks g F"
  shows "\<exists>w'. mark_all F ids w = (Inr (), w') \<and> g w \<union> set ids \<subseteq> g w'"
proof (induction ids arbitrary: w)
  case (Cons i ids)
  obtain r w1 where 1: "mf_markProcessed F i w = (r, w1)" by fastforce
  have "insert i (g w) \<subseteq> g w1" using assms 1 unfolding sees_marks_def by (metis snd_conv)
  moreover obtain w' where "mark_all F ids w1 = (Inr (), w')" "g w1 \<union> set ids \<subseteq> g w'" using Cons.IH by blast
  moreover have "mark_all F (i # ids) w = mark_all F ids w1"
    using 1 by (cases r) (simp_all add: mark_all_def act_bind_def act_catch_def)
  ultimately show ?case by auto
qed (simp add: mark_all_def)

definition grows :: "('w \<Rightarrow> 'b set) \<Rightarrow> ('w \<Rightarrow> 'a \<times> 'w) \<Rightarrow> bool" where
  "grows g m \<longleftrightarrow> (\<forall>w. g w \<subseteq> g (snd (m w)))"

lemma sees_marksD:
  assumes "sees_marks g F"
  shows "grows g (mf_receiver F b)" "grows g (silently (mf_alert F a))" "grows g (mf_metadata F t x)"
    "grows g (silently (mf_recordFailure F t m))" "grows g (mf_fallbackEnd F t y)"
  using assms by (auto simp: sees_marks_def grows_def silently_def)

text \<open>When a call resolves, the messages of the list are marked.\<close>

abbreviation marking :: "('w \<Rightarrow> string set) \<Rightarrow> string list \<Rightarrow> ('w \<Rightarrow> bool) \<Rightarrow> ('w, failure_exn, 'a) eact \<Rightarrow> bool" where
  "marking g ids A m \<equiv> triple A m (\<lambda>_ w. set ids \<subseteq> g w) (\<lambda>_ _. True)"

lemma marking_later: "(\<And>v. marking g ids (\<lambda>_. True) (k v)) \<Longrightarrow> marking g ids (\<lambda>_. True) (act_bind m k)"
  by (rule triple_bind [where R = "\<lambda>_ _. True"]) (simp add: triple_def split: prod.split sum.split)

lemma marking_end:
  assumes "sees_marks g F" shows "marking g ids (\<lambda>_. True) (mark_all F ids)"
proof (rule tripleI)
  fix s v s' assume "mark_all F ids s = (Inr v, s')"
  then show "set ids \<subseteq> g s'" using mark_all_marks [OF assms, of ids s] by auto
qed simp

lemma marking_here:
  "sees_marks g F \<Longrightarrow> marking g ids (\<lambda>w. set ids \<subseteq> g w) k \<Longrightarrow> marking g ids (\<lambda>_. True) (seq (mark_all F ids) k)"
  by (rule triple_bind, erule marking_end)

lemma marking_grows: "grows g m \<Longrightarrow> marking g ids (\<lambda>w. set ids \<subseteq> g w) m"
  unfolding grows_def by (rule tripleI) (metis snd_conv subset_trans, simp)

lemma marking_kept:
  assumes "grows g m" and "\<And>v. marking g ids (\<lambda>w. set ids \<subseteq> g w) (k v)"
  shows "marking g ids (\<lambda>w. set ids \<subseteq> g w) (act_bind m k)"
  by (rule triple_bind [OF marking_grows [OF assms(1)] assms(2)])

text \<open>C19: An input whose failure was handled is marked as processed: when the handling resolves, whatever the alerts, the
  records and the fallback did, a mark was set or tried for every message of the input.\<close>

theorem handled_input_is_marked:
  assumes s: "sees_marks g F" and run: "handleProcessingError F e p o' w = (Inr (), w')"
  shows "set (failure_ids p o') \<subseteq> g w'"
proof -
  note grow = sees_marksD [OF s]
  have delivery: "marking g ids (\<lambda>_. True) (end_delivery F m r trace ids receiver)" for m r trace ids receiver
    unfolding end_delivery_def by (intro marking_later marking_end [OF s])
  have recorded: "marking g ids (\<lambda>w. set ids \<subseteq> g w) (silently (mf_recordFailure F trace m))" for ids trace m
    by (rule marking_grows [OF grow(4)])
  have fallback: "marking g ids (\<lambda>_. True) (send_fallback F e x trace ids c)" for x trace ids c
    unfolding send_fallback_def
  proof (rule triple_catch [where F = "\<lambda>_ _. True"])
    show "marking g ids (\<lambda>_. True) (seq (mf_fallbackStart F trace x) (act_bind (mf_deliver F x c) (\<lambda>_.
        seq (mf_fallbackEnd F trace \<lparr>fe_success = True, fe_delivered = Some 1, fe_failed = Some 0\<rparr>)
        (seq (mark_all F ids) (seq (mf_metadata F trace Fallback_delivered) (silently (mf_recordFailure F trace (failure_text e))))))))"
      by (rule marking_later, rule marking_later, rule marking_later, rule marking_here [OF s], rule marking_kept [OF grow(3)], rule recorded)
  qed (auto intro!: marking_later marking_end [OF s] simp: triple_throw split: failure_exn.split)
  have "marking g (failure_ids p o') (\<lambda>_. True) (handleProcessingError F e p o')"
  proof (cases e)
    case (Failure_deferred r)
    then show ?thesis by (simp add: handleProcessingError_def triple_def)
  next
    case (Failure_delivery m r d)
    have "marking g ids (\<lambda>_. True) (act_bind (mf_receiver F b) (end_delivery F m r trace ids))" for b trace ids
      by (rule marking_later, rule delivery)
    then show ?thesis by (simp add: Failure_delivery handleProcessingError_def Let_def triple_def)
  next
    case (Failure_other m d)
    have "marking g ids (\<lambda>_. True) (act_bind (mf_receiver F b) (\<lambda>receiver. seq (silently (mf_alert F (a receiver))) (send_fallback F e x trace ids c)))"
      for b trace ids a x c
      by (rule marking_later, rule marking_later, rule fallback)
    then show ?thesis by (simp add: Failure_other handleProcessingError_def Let_def triple_def)
  qed
  then show ?thesis using run by (auto dest: triple_InrD)
qed

section \<open>A failed run and a failed delivery\<close>

text \<open>The world is the list of the fallbacks that were sent and the messages that were marked.\<close>

definition demo_failure_ports :: "(fallback list \<times> string list) failure_ports" where
  "demo_failure_ports = \<lparr>mf_receiver = (\<lambda>_. act_ret None), mf_alert = (\<lambda>_ w. w), mf_metadata = (\<lambda>_ _. act_ret ()),
     mf_recordFailure = (\<lambda>_ _ w. w), mf_markProcessed = (\<lambda>i (xs, ids). (Inr (), (xs, i # ids))),
     mf_deliver = (\<lambda>t _ (xs, ids). (Inr nothing_delivered, (t # xs, ids))), mf_fallbackStart = (\<lambda>_ _. act_ret ()),
     mf_fallbackEnd = (\<lambda>_ _. act_ret ()), mf_env = [], mf_random = (\<lambda>_. 3)\<rparr>"

definition demo_parsed :: parsed_message where
  "demo_parsed = parse \<lparr>cb_messageId = ''m1'', cb_chatId = ''chat'', cb_orgId = Some ''corp'', cb_imBotId = ''b'',
     cb_imContactId = None, cb_imRoomId = None, cb_contactName = None, cb_botUserId = None, cb_externalUserId = None,
     cb_groupId = None, cb_source = None, cb_apiType = None, cb_token = None, cb_timestamp = [], cb_receivedAt = None,
     cb_content = [], cb_imageUrl = None, cb_artworkUrl = None, cb_isEmotion = False\<rparr>"

definition demo_options :: "(fallback list \<times> string list) failure_options" where
  "demo_options = \<lparr>fo_errorType = None, fo_traceId = None, fo_ids = Some [''m1'', ''m2''], fo_context = None\<rparr>"

definition demo_detail :: error_detail where
  "demo_detail = \<lparr>ed_agent = False, ed_meta = None, ed_http = None\<rparr>"

lemma demo_failed_run: "handleProcessingError demo_failure_ports (Failure_other ''down'' demo_detail) demo_parsed demo_options ([], []) =
    (Inr (), ([Standard 3], [''m2'', ''m1'']))"
  by (simp add: handleProcessingError_def send_fallback_def mark_all_def silently_def demo_failure_ports_def demo_options_def demo_detail_def
      failure_ids_def failure_trace_def fallback_context_def getActionAwareFallback_def evidence_of_error_def getFallbackMessage_def
      act_bind_def act_catch_def Let_def)

theorem handled_input_is_marked_witness:
  "failure_ids demo_parsed demo_options = [''m1'', ''m2''] \<and>
   (case handleProcessingError demo_failure_ports (Failure_other ''down'' demo_detail) demo_parsed demo_options ([], []) of
      (Inr _, (_, marked)) \<Rightarrow> set (failure_ids demo_parsed demo_options) \<subseteq> set marked
    | (Inl _, _) \<Rightarrow> False)"
proof -
  have s: "sees_marks (\<lambda>w. set (snd w)) demo_failure_ports"
    by (auto simp: sees_marks_def demo_failure_ports_def)
  obtain u w' where run: "handleProcessingError demo_failure_ports (Failure_other ''down'' demo_detail) demo_parsed demo_options ([], []) =
      (Inr u, w')"
    using demo_failed_run by blast
  have "set (failure_ids demo_parsed demo_options) \<subseteq> set (snd w')"
    by (rule handled_input_is_marked [OF s, of "Failure_other ''down'' demo_detail" demo_parsed demo_options "([], [])"])
      (simp add: run)
  then show ?thesis using run by (cases w') (simp add: failure_ids_def demo_options_def)
qed

theorem delivery_failure_sends_no_fallback_witness:
  "fst (snd (handleProcessingError demo_failure_ports (Failure_delivery ''lost'' nothing_delivered demo_detail) demo_parsed demo_options ([], []))) = []"
proof -
  have "quiet_failure fst demo_failure_ports"
    by (simp add: quiet_failure_def demo_failure_ports_def keeps_ret) (simp add: keeps_def split: prod.split)
  moreover have "isDeliveryError (Failure_delivery ''lost'' nothing_delivered demo_detail)"
    by (simp add: isDeliveryError_def)
  ultimately show ?thesis
    using delivery_failure_sends_no_fallback [of fst demo_failure_ports "Failure_delivery ''lost'' nothing_delivered demo_detail" "[]"
        demo_parsed demo_options "([], [])"] by simp
qed

end
