(* ===== verification/AnswerOnce.thy ===== *)
theory AnswerOnce
  imports ReplyWorkflowSend MessageFailure
begin

text \<open>
  The reply workflow with the service that handles its failures: the port \<open>wf_handleError\<close> of \<open>ReplyWorkflow\<close> is
  the function of \<open>MessageFailure\<close>.  One run of the core sends at most one message, fallbacks included.  The
  two callers for incoming messages have a \<open>catch\<close> of their own that asks the failure service once more:
  they send a second message exactly where a step after the send failed with an error that the core
  did not turn into a deferred one.
\<close>

text \<open>An error of the workflow as the failure service sees it; \<open>d\<close> says what else the error carries.\<close>

fun to_failure :: "(string \<Rightarrow> bool \<Rightarrow> error_detail) \<Rightarrow> flow_exn \<Rightarrow> failure_exn" where
  "to_failure d (Deferred_reply r) = Failure_deferred r"
| "to_failure d (Undelivered m r) = Failure_delivery m r (d m False)"
| "to_failure d (Agent_exn m b) = Failure_other m (d m b)"

fun of_failure :: "failure_exn \<Rightarrow> flow_exn" where
  "of_failure (Failure_deferred r) = Deferred_reply r"
| "of_failure (Failure_delivery m r d) = Undelivered m r"
| "of_failure (Failure_other m d) = Agent_exn m (evidence_of_error (Failure_other m d) \<noteq> [])"

definition failure_port :: "'w failure_ports \<Rightarrow> (string \<Rightarrow> bool \<Rightarrow> error_detail) \<Rightarrow> flow_exn \<Rightarrow> parsed_message \<Rightarrow> string
    \<Rightarrow> string list \<Rightarrow> 'w flow_context option \<Rightarrow> ('w, unit) flow" where
  "failure_port F d e p trace ids c w =
     (case handleProcessingError F (to_failure d e) p \<lparr>fo_errorType = None, fo_traceId = Some trace, fo_ids = Some ids, fo_context = c\<rparr> w of
        (Inl x, w') \<Rightarrow> (Inl (of_failure x), w') | (Inr v, w') \<Rightarrow> (Inr v, w'))"

section \<open>The contract of the failure service\<close>

text \<open>
  Where a caller sends a second message: a run of the core, begun with nothing sent, has sent one
  message and then rejects with an error that is neither deferred nor a failed delivery.
\<close>

definition failed_after_sending :: "('w \<Rightarrow> nat) \<Rightarrow> 'w flow_ports \<Rightarrow> 'w core_params \<Rightarrow> 'w \<Rightarrow> bool" where
  "failed_after_sending sent P q w \<longleftrightarrow> (\<exists>v m b v'. sent v = sent w \<and>
     processMessageCore P q v = (Inl (Agent_exn m b), v') \<and> sent v' = Suc (sent w))"

text \<open>What the workflow relies on: a failed delivery is not followed by anything, any other error by at most one message.\<close>

locale failure_handler =
  fixes sent :: "'w \<Rightarrow> nat" and handle :: "flow_exn \<Rightarrow> parsed_message \<Rightarrow> string \<Rightarrow> string list \<Rightarrow> 'w flow_context option \<Rightarrow> ('w, unit) flow"
  assumes undelivered: "keeps sent (handle (Undelivered m r) p trace ids c)"
    and once: "sent (snd (handle e p trace ids c w)) \<le> Suc (sent w)"
begin

lemma one_answer:
  assumes P: "wf_handleError P = handle" and "quiet sent P" and "quiet_guard sent (cp_owner q)"
    and "\<And>a. keeps sent (wf_runTurn P a)" and "\<And>t. keeps sent (wf_acked P t)"
    and "\<And>x k b w. sent (snd (wf_deliver P x k b w)) \<le> Suc (sent w)"
  shows "sent (snd (processMessageCore P q w)) \<le> Suc (sent w)"
proof (rule run_sends_once)
  show "only_sending_changes sent P (cp_owner q)"
    using assms undelivered by (simp add: only_sending_changes_def)
  show "counts_deliveries sent P"
    using assms once by (simp add: counts_deliveries_def)
qed

lemma caught_answer:
  assumes P: "wf_handleError P = handle" and q: "quiet sent P"
    and core: "\<And>v. sent (snd (processMessageCore P c v)) \<le> Suc (sent v)"
    and before: "keeps sent m"
    and later: "\<And>e'. keeps sent (k e')" "\<And>e'. keeps sent (n e')"
  shows "let w' = snd (act_catch (seq m (processMessageCore P c))
      (\<lambda>x. if is_deferred x then n x else seq (handle x p t ids fc) (k x)) w)
    in sent w' \<le> Suc (sent w) \<or> (failed_after_sending sent P c w \<and> sent w' \<le> Suc (Suc (sent w)))"
proof -
  obtain r w2 where b: "seq m (processMessageCore P c) w = (r, w2)" by fastforce
  show ?thesis
  proof (cases r)
    case (Inr u)
    obtain x v where m: "m w = (x, v)" by fastforce
    have "sent v = sent w" using keepsD [OF before m] .
    then have "sent w2 \<le> Suc (sent w)" using b m core [of v] by (cases x) (auto simp: act_bind_def)
    then show ?thesis using b Inr by (simp add: act_catch_def)
  next
    case (Inl x)
    have start: "sent w2 = sent w \<or> (\<exists>v. sent v = sent w \<and> processMessageCore P c v = (Inl x, w2))"
    proof -
      obtain y v where m: "m w = (y, v)" by fastforce
      have "sent v = sent w" using keepsD [OF before m] .
      then show ?thesis using b m Inl by (cases y) (auto simp: act_bind_def)
    qed
    have le: "sent w2 \<le> Suc (sent w)" using start core by (metis le_SucI order_refl snd_conv)
    obtain h w3 where h: "(if is_deferred x then n x else seq (handle x p t ids fc) (k x)) w2 = (h, w3)" by fastforce
    have w': "snd (act_catch (seq m (processMessageCore P c))
        (\<lambda>x. if is_deferred x then n x else seq (handle x p t ids fc) (k x)) w) = w3"
      using b Inl h by (simp add: act_catch_def)
    consider "sent w3 = sent w2" | mm bb where "x = Agent_exn mm bb" "sent w3 \<le> Suc (sent w2)"
    proof (cases x)
      case (Deferred_reply s)
      then have "n x w2 = (h, w3)" using h by (simp add: is_deferred_def)
      then have "sent w3 = sent w2" by (rule keepsD [OF later(2)])
      then show ?thesis by (rule that(1))
    next
      case (Undelivered s d)
      then have "seq (handle x p t ids fc) (k x) w2 = (h, w3)" using h by (simp add: is_deferred_def)
      moreover have "keeps sent (seq (handle x p t ids fc) (k x))"
        unfolding Undelivered by (intro keeps_bind undelivered later)
      ultimately have "sent w3 = sent w2" by (blast dest: keepsD)
      then show ?thesis by (rule that(1))
    next
      case (Agent_exn mm bb)
      obtain y v where y: "handle x p t ids fc w2 = (y, v)" by fastforce
      have v: "sent v \<le> Suc (sent w2)" using once [of x p t ids fc w2] y by simp
      have "sent w3 = sent v" using h y Agent_exn is_deferred_def keepsD [OF later(1)]
        by (cases y) (auto simp: act_bind_def)
      then show ?thesis using v Agent_exn by (intro that(2)) simp_all
    qed
    then show ?thesis
    proof cases
      case 1
      then show ?thesis using le by (simp add: w')
    next
      case 2
      show ?thesis
      proof (cases "sent w2 \<le> sent w")
        case True
        then show ?thesis using 2 by (simp add: w')
      next
        case False
        then obtain v where "sent v = sent w" "processMessageCore P c v = (Inl x, w2)" using start by auto
        moreover have "sent w2 = Suc (sent w)" using False le by simp
        ultimately show ?thesis using 2 by (auto simp: w' failed_after_sending_def)
      qed
    qed
  qed
qed

end

section \<open>The service keeps it\<close>

definition counts_fallbacks :: "('w \<Rightarrow> nat) \<Rightarrow> 'w failure_ports \<Rightarrow> bool" where
  "counts_fallbacks f F \<longleftrightarrow> quiet_failure f F \<and> (\<forall>t c w. f (snd (mf_deliver F t c w)) \<le> Suc (f w))"

lemma failure_sends_once:
  assumes "counts_fallbacks f F" shows "one_more f (handleProcessingError F e p o') w"
proof -
  have q: "quiet_failure f F" and send: "one_more f (mf_deliver F t c) w" for t c w
    using assms by (simp_all add: counts_fallbacks_def one_more_def)
  note q' = quiet_failureD [OF q]
  have body: "one_more f (send_fallback F e x trace ids c) w" for x trace ids c w
    unfolding send_fallback_def
    by (rule one_more_catch, rule one_more_before, rule q', rule one_more_after, rule send, intro keeps_intro q q')
      (auto intro!: keeps_intro q q' split: failure_exn.split)
  show ?thesis
  proof (cases e)
    case (Failure_deferred r)
    then show ?thesis by (simp add: handleProcessingError_def one_more_def)
  next
    case (Failure_delivery m r d)
    show ?thesis unfolding Failure_delivery by (rule one_more_keeps, rule delivery_failure_quiet, rule q)
  next
    case (Failure_other m d)
    have "one_more f (act_bind (mf_receiver F b) (\<lambda>receiver. seq (silently (mf_alert F (a receiver))) (send_fallback F e x trace ids c))) w"
      for a b x trace ids c w
      by (rule one_more_before, rule q', rule one_more_before, intro keeps_intro q', rule body)
    then show ?thesis by (simp add: handleProcessingError_def Let_def Failure_other one_more_def)
  qed
qed

lemma failure_port_world: "snd (failure_port F d e p trace ids c w) =
    snd (handleProcessingError F (to_failure d e) p \<lparr>fo_errorType = None, fo_traceId = Some trace, fo_ids = Some ids, fo_context = c\<rparr> w)"
  by (simp add: failure_port_def split: prod.split sum.split)

lemma failure_port_contract: "counts_fallbacks f F \<Longrightarrow> failure_handler f (failure_port F d)"
  using failure_sends_once [of f F] delivery_failure_quiet [of f F]
  by unfold_locales (auto simp: failure_port_world one_more_def keeps_def counts_fallbacks_def)

lemma seq_done: "act_bind m act_ret = m"
  by (rule ext) (simp add: act_bind_def act_ret_def split: prod.split sum.split)

text \<open>C9: One run of the core sends at most one message for a batch: the reply, the receipt before a handoff or
  the fallback of its own \<open>catch\<close>.  Around it, the handling of a single message and of a merged batch send
  at most one message too, except when the core rejects after it has sent one, with an error that is neither
  a deferred one nor a failed delivery (a step after the send failed and no durable turn turned the error
  into a deferred one): then, and only then, their \<open>catch\<close> may send a fallback as a second message, and
  never a third.  The premises only say which ports send.\<close>

theorem one_answer_per_batch:
  assumes fallbacks: "counts_fallbacks f F" and wired: "wf_handleError P = failure_port F d" and q: "quiet f P"
    and run: "\<And>a. keeps f (wf_runTurn P a)" and acked: "\<And>t. keeps f (wf_acked P t)"
    and deliver: "\<And>x k b w. f (snd (wf_deliver P x k b w)) \<le> Suc (f w)"
  shows "(quiet_guard f (cp_owner p) \<longrightarrow> f (snd (processMessageCore P p w)) \<le> Suc (f w)) \<and>
    (let n = f (snd (processSingleMessage P m w)) in n \<le> Suc (f w) \<or>
       (failed_after_sending f P (single_params m) w \<and> n \<le> Suc (Suc (f w)))) \<and>
    (let n = f (snd (processMergedMessages P ms batch k w)) in n \<le> Suc (f w) \<or>
       (failed_after_sending f P (merged_params P ms batch k) w \<and> n \<le> Suc (Suc (f w))))"
proof -
  note h = failure_port_contract [OF fallbacks, of d]
  have core: "f (snd (processMessageCore P c v)) \<le> Suc (f v)" if "quiet_guard f (cp_owner c)" for c v
    by (rule failure_handler.one_answer [OF h wired q that]) (fact run acked deliver)+
  have tells: "keeps f (tell P t)" "keeps f (wf_telemetry P t)" for t
    using q by (auto simp: quiet_def tell_def intro!: keeps_intro)
  have ack: "keeps f (ackPendingIfMerged P chat i)" for chat i
    by (rule quiet_parts(4) [OF q])
  have single: "f (snd (processMessageCore P (single_params m) v)) \<le> Suc (f v)"
    and merged: "f (snd (processMessageCore P (merged_params P ms batch k) v)) \<le> Suc (f v)" for v
    by (rule core; simp add: quiet_guard_def single_params_def merged_params_def)+
  have ret: "keeps f (act_ret ())" by (rule keeps_ret)
  have add: "keeps f (wf_addMessage P m)" using q by (simp add: quiet_def)
  let ?t = "cb_messageId m" and ?ids = "map cb_messageId ms"
  let ?one = "act_bind (wf_telemetry P (Has_trace ?t)) (\<lambda>known. seq (when_a (\<not> known) (tell P (Start_trace ?t [?t])))
    (seq (tell P (Update_dispatch ?t ''direct'')) (tell P (Worker_start ?t))))"
  let ?many = "seq (tell P (Start_trace batch ?ids)) (seq (tell P (Merge_prep batch ?ids))
    (seq (tell P (Update_dispatch batch ''merged'')) (tell P (Worker_start batch))))"
  have one: "keeps f ?one" by (intro keeps_intro tells)
  have many: "keeps f ?many" by (intro keeps_intro tells)
  have "let n = f (snd (processSingleMessage P m w)) in n \<le> Suc (f w) \<or>
       (failed_after_sending f P (single_params m) w \<and> n \<le> Suc (Suc (f w)))"
    using failure_handler.caught_answer [OF h wired q single one ret add, where p = "parse m" and t = ?t and ids = "[?t]" and fc = None and w = w]
    by (simp add: processSingleMessage_def Let_def seq_done act_bind_assoc wired cong: if_cong)
  moreover have "let n = f (snd (processMergedMessages P ms batch k w)) in n \<le> Suc (f w) \<or>
       (failed_after_sending f P (merged_params P ms batch k) w \<and> n \<le> Suc (Suc (f w)))"
    using failure_handler.caught_answer [OF h wired q merged many ack [of "cb_chatId (last ms)" k] ret, where p = "parse (last ms)" and t = batch and ids = ?ids and fc = None and w = w]
    by (simp add: processMergedMessages_def Let_def act_bind_assoc wired cong: if_cong)
  ultimately show ?thesis using core by blast
qed

section \<open>Counting the fallbacks of any services\<close>

text \<open>A counter beside the world of the services, which only the fallback moves.\<close>

definition beside :: "('w, 'e, 'a) eact \<Rightarrow> (nat \<times> 'w, 'e, 'a) eact" where
  "beside m = (\<lambda>(n, w). case m w of (r, w') \<Rightarrow> (r, (n, w')))"

definition within :: "nat \<Rightarrow> (nat \<times> 'w, 'e, 'a) eact \<Rightarrow> ('w, 'e, 'a) eact" where
  "within n m = (\<lambda>w. case m (n, w) of (r, (_, w')) \<Rightarrow> (r, w'))"

definition context_within :: "nat \<Rightarrow> (nat \<times> 'w) flow_context \<Rightarrow> 'w flow_context" where
  "context_within n c = \<lparr>fx_parsed = fx_parsed c, fx_traceId = fx_traceId c, fx_turn = fx_turn c,
     fx_owner = map_option (within n) (fx_owner c)\<rparr>"

definition counting :: "'w failure_ports \<Rightarrow> (nat \<times> 'w) failure_ports" where
  "counting F = \<lparr>mf_receiver = (\<lambda>b. beside (mf_receiver F b)), mf_alert = (\<lambda>a (n, w). (n, mf_alert F a w)),
     mf_metadata = (\<lambda>t x. beside (mf_metadata F t x)), mf_recordFailure = (\<lambda>t m (n, w). (n, mf_recordFailure F t m w)),
     mf_markProcessed = (\<lambda>i. beside (mf_markProcessed F i)),
     mf_deliver = (\<lambda>t c (n, w). case mf_deliver F t (context_within n c) w of (r, w') \<Rightarrow> (r, (Suc n, w'))),
     mf_fallbackStart = (\<lambda>t x. beside (mf_fallbackStart F t x)), mf_fallbackEnd = (\<lambda>t x. beside (mf_fallbackEnd F t x)),
     mf_env = mf_env F, mf_random = (\<lambda>(n, w). mf_random F w)\<rparr>"

lemma keeps_beside: "keeps fst (beside m)"
  by (simp add: keeps_def beside_def split: prod.split)

lemma counting_counts: "counts_fallbacks fst (counting F)"
  by (simp add: counts_fallbacks_def quiet_failure_def counting_def keeps_beside split: prod.split)

interpretation counted: failure_handler fst "failure_port (counting F) d" for F d
  by (rule failure_port_contract [OF counting_counts])

section \<open>An ordinary turn\<close>

definition demo_deliveries :: "demo_flow_world \<Rightarrow> nat" where
  "demo_deliveries = (\<lambda>(xs, n). length xs)"

definition demo_fallbacks :: "demo_flow_world failure_ports" where
  "demo_fallbacks = \<lparr>mf_receiver = (\<lambda>_. act_ret None), mf_alert = (\<lambda>_ w. w), mf_metadata = (\<lambda>_ _. act_ret ()),
     mf_recordFailure = (\<lambda>_ _ w. w), mf_markProcessed = (\<lambda>_. act_ret ()),
     mf_deliver = (\<lambda>_ c (xs, n). (Inr nothing_delivered, (fx_turn c # xs, n))), mf_fallbackStart = (\<lambda>_ _. act_ret ()),
     mf_fallbackEnd = (\<lambda>_ _. act_ret ()), mf_env = [], mf_random = (\<lambda>_. 0)\<rparr>"

definition demo_wired_ports :: "demo_flow_world flow_ports" where
  "demo_wired_ports = demo_flow_ports\<lparr>wf_handleError := failure_port demo_fallbacks (\<lambda>_ _. demo_detail)\<rparr>"

text \<open>
  A batch whose telemetry of the success rejects after the reply was sent, without a durable turn: the core
  rejects, and the batch gets the reply and a fallback.
\<close>

definition demo_failing_ports :: "demo_flow_world flow_ports" where
  "demo_failing_ports = demo_wired_ports\<lparr>wf_durable := False, wf_open := (\<lambda>_ _ _ _. act_ret None),
     wf_telemetry := (\<lambda>t. case t of Success_metadata _ _ \<Rightarrow> act_throw (Agent_exn ''redis'' False) | _ \<Rightarrow> act_ret True)\<rparr>"

lemma failed_telemetry_sends_twice:
  "demo_deliveries (snd (processMergedMessages demo_failing_ports [demo_message] ''batch'' 1 ([], 0))) = 2"
  by code_simp

theorem one_answer_per_batch_witness:
  "demo_deliveries (snd (processMessageCore demo_failing_ports demo_params ([], 0))) \<le> 1 \<and>
   failed_after_sending demo_deliveries demo_failing_ports (merged_params demo_failing_ports [demo_message] ''batch'' 1) ([], 0)"
proof -
  have c: "counts_fallbacks demo_deliveries demo_fallbacks"
    by (simp add: counts_fallbacks_def quiet_failure_def demo_fallbacks_def keeps_ret demo_deliveries_def split: prod.split)
  have q: "quiet demo_deliveries demo_failing_ports"
    by (simp add: quiet_def demo_failing_ports_def demo_wired_ports_def demo_flow_ports_def keeps_ret keeps_throw split: telemetry.split)
  have p: "keeps demo_deliveries (wf_runTurn demo_failing_ports a)" "keeps demo_deliveries (wf_acked demo_failing_ports t)"
      "demo_deliveries (snd (wf_deliver demo_failing_ports x k b w)) \<le> Suc (demo_deliveries w)" for a t x k b w
    by (simp_all add: demo_failing_ports_def demo_wired_ports_def demo_flow_ports_def keeps_ret demo_deliveries_def split: prod.split)
      (simp add: keeps_def split: prod.split)
  have w: "wf_handleError demo_failing_ports = failure_port demo_fallbacks (\<lambda>_ _. demo_detail)"
    by (simp add: demo_failing_ports_def demo_wired_ports_def)
  have g: "quiet_guard demo_deliveries (cp_owner demo_params)"
    by (simp add: quiet_guard_def demo_params_def single_params_def)
  note result = one_answer_per_batch [where p = demo_params and w = "([], 0)" and m = demo_message and ms = "[demo_message]"
    and batch = "''batch''" and k = 1, OF c w q p]
  have z: "demo_deliveries ([], 0) = 0" by (simp add: demo_deliveries_def)
  show ?thesis using result g failed_telemetry_sends_twice by (simp add: z Let_def)
qed

end
