(* ===== verification/ReplyRecovery.thy ===== *)
theory ReplyRecovery
  imports ReplyWorkflowSend CronRunner
begin

text \<open>
  \<open>src/channels/wecom/message/delivery/reply-recovery.service.ts\<close>: the scan that takes up the turns nobody finished,
  and the removal of old ones.  The turns, the lease of a conversation, the credentials and the workflow are ports;
  at the end the workflow is the one of \<open>ReplyWorkflow\<close>.
\<close>

section \<open>Ports\<close>

record 'w recovery_ports =
  rv_due :: "('w, reply_turn list) flow"
  rv_lease :: "string \<Rightarrow> (('w, unit) flow \<Rightarrow> ('w, unit) flow) \<Rightarrow> ('w, unit) flow"
  rv_interrupt :: "reply_turn \<Rightarrow> ('w, reply_turn) flow"
  rv_defer :: "reply_turn \<Rightarrow> ('w, unit) flow"
  rv_groupRoute :: "string \<Rightarrow> string \<Rightarrow> string option \<Rightarrow> ('w, string option) flow"
  rv_enterpriseToken :: "string option"
  rv_resume :: "reply_turn \<Rightarrow> string \<Rightarrow> ('w, unit) flow \<Rightarrow> ('w, unit) flow"
  rv_review :: "string \<Rightarrow> string \<Rightarrow> 'w \<Rightarrow> 'w"
  rv_now :: "'w \<Rightarrow> int"

definition review :: "'w recovery_ports \<Rightarrow> reply_turn \<Rightarrow> string \<Rightarrow> ('w, unit) flow" where
  "review R t reason w = (Inr (), rv_review R (t_turn t) reason w)"

section \<open>resumeTurn\<close>

definition interrupted :: "reply_turn \<Rightarrow> bool" where
  "interrupted t = (case t_result t of None \<Rightarrow> False | Some d \<Rightarrow> ds_outcome d = Interrupted)"

definition names_its_turn :: "reply_turn \<Rightarrow> bool" where
  "names_its_turn t \<longleftrightarrow> member (primary_of t) ''orgId'' = JStr (t_corp t) \<and>
     member (primary_of t) ''imBotId'' = JStr (t_account t) \<and> member (primary_of t) ''chatId'' = JStr (t_chat t)"

definition resumeTurn :: "'w recovery_ports \<Rightarrow> reply_turn \<Rightarrow> ('w, unit) flow \<Rightarrow> ('w, unit) flow" where
  "resumeTurn R t g =
     (if t_policy t = Single_pass then
        (if t_projection t = No_projection then review R t BUSINESS_EFFECTS_UNCONFIRMED
         else
           act_bind (rv_interrupt R t) (\<lambda>terminal.
           seq (if interrupted terminal then review R t ''ordinary_reply_interrupted_no_resend'' else act_ret ())
               (rv_resume R terminal [] g)))
      else if t_plan t = None \<and> t_status t = Preparing then review R t ''generation_interrupted''
      else if t_status t = Planned then
        (if \<not> names_its_turn t then review R t ''recovery_identity_mismatch''
         else if member (primary_of t) ''_apiType'' = JStr GROUP then
           act_bind (rv_groupRoute R (t_corp t) (t_account t) (text_of (member (primary_of t) ''groupId''))) (\<lambda>route.
             case route of
               None \<Rightarrow> review R t ''group_credential_resolution''
             | Some token \<Rightarrow> rv_resume R t token g)
         else
           (let token = (case rv_enterpriseToken R of None \<Rightarrow> [] | Some s \<Rightarrow> trim s) in
            if token = [] then act_ret () else rv_resume R t token g))
      else rv_resume R t [] g)"

section \<open>recoverDue\<close>

definition RECOVERY_BUDGET_MS :: int where "RECOVERY_BUDGET_MS = 30000"
definition REVIEW_AFTER_MS :: int where "REVIEW_AFTER_MS = 86400000"

text \<open>What is done under the lease of the conversation, with \<open>g\<close> to confirm it.\<close>

definition take_up :: "'w recovery_ports \<Rightarrow> reply_turn \<Rightarrow> ('w, unit) flow \<Rightarrow> ('w, unit) flow" where
  "take_up R t g =
     act_finally
       (act_catch (resumeTurn R t g) (\<lambda>_ w.
          if t_status t = Planned \<and> t_inputAt t < rv_now R w - REVIEW_AFTER_MS
          then review R t ''recovery_deadline'' w else (Inr (), w)))
       (seq g (rv_defer R t))"

fun recover_loop :: "'w recovery_ports \<Rightarrow> int \<Rightarrow> reply_turn list \<Rightarrow> ('w, unit) flow" where
  "recover_loop R deadline [] = act_ret ()"
| "recover_loop R deadline (t # ts) = (\<lambda>w.
     if deadline \<le> rv_now R w then (Inr (), w)
     else if \<not> truthy (map_of (t_recovery t) ''primary'') then recover_loop R deadline ts w
     else seq (rv_lease R (t_chat t) (take_up R t)) (recover_loop R deadline ts) w)"

text \<open>The flag \<open>running\<close> of the service beside the world; every error of a scan ends in a log line.\<close>

definition recoverDue :: "'w recovery_ports \<Rightarrow> bool \<times> 'w \<Rightarrow> bool \<times> 'w" where
  "recoverDue R = (\<lambda>(running, w).
     if running then (running, w)
     else (False, snd (act_bind (rv_due R) (recover_loop R (rv_now R w + RECOVERY_BUDGET_MS)) w)))"

section \<open>retainTombstones\<close>

definition retainTombstones :: "('s, 'y) cron_service_scheme \<Rightarrow> (int \<Rightarrow> (('s, 'x) cron_world_scheme, int) act)
    \<Rightarrow> (('s, 'x) cron_world_scheme, int option) act" where
  "retainTombstones R redact = runBatches R ''reply-retention'' 30000 10000 100 redact"

section \<open>The scan on the workflow\<close>

text \<open>\<open>u w\<close> is what \<open>randomUUID\<close> gives in the world \<open>w\<close>.\<close>

definition recovery_on :: "'w flow_ports \<Rightarrow> ('w \<Rightarrow> string) \<Rightarrow> 'w recovery_ports \<Rightarrow> 'w recovery_ports" where
  "recovery_on P u R = R\<lparr>rv_resume := (\<lambda>t token g w. resumePersistedReply P (u w) t token (Some g) w)\<rparr>"

text \<open>C18: Recovery never runs the model: what a scan does is the same whatever the agent would do.\<close>

theorem recovery_never_runs_the_model:
  "recoverDue (recovery_on (P\<lparr>wf_runTurn := m\<rparr>) u R) = recoverDue (recovery_on P u R)"
  by (simp add: recovery_on_def resume_without_model)

section \<open>Ordinary turns\<close>

text \<open>The lease only runs the task, with a check of its own.\<close>

definition lease_keeps :: "('w \<Rightarrow> 'v) \<Rightarrow> 'w recovery_ports \<Rightarrow> bool" where
  "lease_keeps f R \<longleftrightarrow> (\<forall>chat task. (\<forall>g. keeps f g \<longrightarrow> keeps f (task g)) \<longrightarrow> keeps f (rv_lease R chat task))"

definition quiet_recovery :: "('w \<Rightarrow> 'v) \<Rightarrow> 'w recovery_ports \<Rightarrow> bool" where
  "quiet_recovery f R \<longleftrightarrow> lease_keeps f R \<and> keeps f (rv_due R) \<and> (\<forall>t. keeps f (rv_interrupt R t)) \<and> (\<forall>t. keeps f (rv_defer R t)) \<and>
     (\<forall>a b c. keeps f (rv_groupRoute R a b c)) \<and> (\<forall>t r w. f (rv_review R t r w) = f w)"

definition over_or_ordinary :: "reply_turn \<Rightarrow> bool" where
  "over_or_ordinary t \<longleftrightarrow> t_policy t = Single_pass \<or> t_status t \<in> {Settled, Acked}"

lemma resume_quiet:
  assumes "quiet f P" and "\<And>t. keeps f (wf_acked P t)" and "keeps f g" and "over_or_ordinary t"
  shows "keeps f (resumePersistedReply P uuid t token (Some g))"
proof -
  have g: "quiet_guard f (Some g)" using assms(3) by (simp add: quiet_guard_def)
  show ?thesis
  proof (cases "t_status t = Settled \<or> t_status t = Acked")
    case True
    then show ?thesis
      unfolding resumePersistedReply_def by simp (intro keeps_intro assms(1,2) g)
  next
    case False
    then show ?thesis
      using assms(4) unfolding resumePersistedReply_def over_or_ordinary_def
      by simp (intro keeps_intro quiet_ports [OF assms(1)] assms(1,2) g)
  qed
qed

lemma keeps_InrI:
  assumes "keeps f m" and "\<And>v w w'. m w = (Inr v, w') \<Longrightarrow> keeps f (k v)" shows "keeps f (act_bind m k)"
proof (rule keepsI)
  fix w
  obtain r w1 where m: "m w = (r, w1)" by fastforce
  then have "f w1 = f w" by (rule keepsD [OF assms(1)])
  moreover have "f (snd (k v w1)) = f w1" if "r = Inr v" for v
    using assms(2) m that by (simp add: keeps_def)
  ultimately show "f (snd (act_bind m k w)) = f w" using m by (cases r) (simp_all add: act_bind_def)
qed

text \<open>A scan over ordinary turns sends nothing and asks the model nothing: no view of the world that the sending ports
  and the model could change is touched, whatever state the turns are in.\<close>

theorem ordinary_recovery_sends_nothing:
  assumes q: "quiet f P" and ack: "\<And>t. keeps f (wf_acked P t)" and R: "quiet_recovery f R"
    and due: "\<And>w ts w'. rv_due R w = (Inr ts, w') \<Longrightarrow> \<forall>t \<in> set ts. t_policy t = Single_pass"
    and stop: "\<And>t w x w'. rv_interrupt R t w = (Inr x, w') \<Longrightarrow> t_policy t = Single_pass \<Longrightarrow> over_or_ordinary x"
  shows "f (snd (recoverDue (recovery_on P u R) (running, w))) = f w"
proof -
  let ?R = "recovery_on P u R"
  have ports: "keeps f (rv_interrupt ?R t)" "keeps f (rv_defer ?R t)" "keeps f (review ?R t r)" "keeps f (rv_due ?R)" for t r
    using R by (simp_all add: quiet_recovery_def recovery_on_def keeps_def review_def)
  have resume: "keeps f (rv_resume ?R t token g)" if "over_or_ordinary t" "keeps f g" for t token g
    using resume_quiet [OF q ack that(2,1)] by (simp add: recovery_on_def keeps_def)
  have turn: "keeps f (resumeTurn ?R t g)" if "t_policy t = Single_pass" "keeps f g" for t g
  proof -
    have "keeps f (act_bind (rv_interrupt ?R t) (\<lambda>x. seq (if interrupted x then review ?R t r else act_ret ()) (rv_resume ?R x [] g)))" for r
      by (rule keeps_InrI [OF ports(1)], intro keeps_bind keeps_if ports keeps_ret resume that(2))
        (use stop that(1) in \<open>simp add: recovery_on_def\<close>)
    then show ?thesis unfolding resumeTurn_def using that(1) ports by simp
  qed
  have handler: "keeps f (\<lambda>w. if b w then review ?R t r w else (Inr (), w))" for b t r
    using ports(3) [of t r] by (simp add: keeps_def)
  have task: "keeps f (take_up ?R t g)" if "t_policy t = Single_pass" "keeps f g" for t g
    unfolding take_up_def by (intro keeps_intro turn that handler ports)
  have lease: "keeps f (rv_lease ?R (t_chat t) (take_up ?R t))" if "t_policy t = Single_pass" for t
    using R task [OF that] by (simp add: quiet_recovery_def lease_keeps_def recovery_on_def)
  have loop: "keeps f (recover_loop ?R d ts)" if "\<forall>t \<in> set ts. t_policy t = Single_pass" for ts d
    using that
  proof (induction ts)
    case (Cons t ts)
    then have "keeps f (seq (rv_lease ?R (t_chat t) (take_up ?R t)) (recover_loop ?R d ts))" "keeps f (recover_loop ?R d ts)"
      by (auto intro!: keeps_bind lease)
    then show ?case by (simp add: keeps_def)
  qed (simp add: keeps_ret)
  have "keeps f (act_bind (rv_due ?R) (recover_loop ?R d))" for d
    by (rule keeps_InrI [OF ports(4)], rule loop) (use due in \<open>auto simp: recovery_on_def\<close>)
  then show ?thesis by (simp add: recoverDue_def keeps_def)
qed

section \<open>No turn blocks the others\<close>

text \<open>\<open>d\<close> lists the turns that were put off; nothing but \<open>rv_defer\<close> changes it, and that does not fail.\<close>

definition sees_deferrals :: "('w \<Rightarrow> string list) \<Rightarrow> 'w recovery_ports \<Rightarrow> bool" where
  "sees_deferrals d R \<longleftrightarrow> keeps d (rv_due R) \<and> (\<forall>t. keeps d (rv_interrupt R t)) \<and> (\<forall>a b c. keeps d (rv_groupRoute R a b c)) \<and>
     (\<forall>t r w. d (rv_review R t r w) = d w) \<and> (\<forall>t token g. keeps d (rv_resume R t token g)) \<and>
     (\<forall>t w. \<exists>w'. rv_defer R t w = (Inr (), w') \<and> d w' = d w @ [t_turn t])"

definition recoverable :: "reply_turn \<Rightarrow> bool" where
  "recoverable t \<longleftrightarrow> truthy (map_of (t_recovery t) ''primary'')"

lemma take_up_defers:
  assumes "sees_deferrals d R"
  shows "\<exists>w'. take_up R t (act_ret ()) w = (Inr (), w') \<and> d w' = d w @ [t_turn t]"
proof -
  have ports: "keeps d (rv_interrupt R t)" "keeps d (rv_groupRoute R a b c)" "keeps d (review R t r)" "keeps d (rv_resume R t token g)"
    for t a b c r token g
    using assms by (simp_all add: sees_deferrals_def keeps_def review_def)
  have turn: "keeps d (resumeTurn R t g)" for g
    unfolding resumeTurn_def by (intro keeps_intro ports)
  have handler: "keeps d (\<lambda>w. if b w then review R t r w else (Inr (), w))" for b r
    using ports(3) [of t r] by (simp add: keeps_def)
  let ?h = "\<lambda>w. if t_status t = Planned \<and> t_inputAt t < rv_now R w - REVIEW_AFTER_MS
    then review R t ''recovery_deadline'' w else (Inr (), w)"
  obtain r w1 where 1: "act_catch (resumeTurn R t (act_ret ())) (\<lambda>_. ?h) w = (r, w1)" by fastforce
  have "never_rejects (act_catch (resumeTurn R t (act_ret ())) (\<lambda>_. ?h))"
    by (rule total_catch) (simp add: never_rejects_def review_def)
  then obtain u w' where "act_catch (resumeTurn R t (act_ret ())) (\<lambda>_. ?h) w = (Inr u, w')" by (rule never_rejectsE)
  with 1 have r: "r = Inr ()" by simp
  have "keeps d (act_catch (resumeTurn R t (act_ret ())) (\<lambda>_. ?h))"
    by (intro keeps_catch turn handler)
  then have d1: "d w1 = d w" using 1 by (rule keepsD)
  obtain w2 where "rv_defer R t w1 = (Inr (), w2)" "d w2 = d w1 @ [t_turn t]"
    using assms unfolding sees_deferrals_def by blast
  then show ?thesis using 1 r d1 by (simp add: take_up_def act_finally_def)
qed

text \<open>One turn that cannot be recovered does not hold up the others: while the budget lasts and the conversations can
  be locked, every turn that is due is taken up and put off to its next check, in order, whatever its recovery
  throws.\<close>

theorem every_due_turn_gets_its_try:
  assumes d: "sees_deferrals d R" and lease: "\<And>chat task. rv_lease R chat task = task (act_ret ())"
    and budget: "\<And>w'. rv_now R w' < rv_now R w + RECOVERY_BUDGET_MS" and due: "rv_due R w = (Inr ts, w1)"
  shows "d (snd (recoverDue R (False, w))) = d w @ map t_turn (filter recoverable ts)"
proof -
  have loop: "d (snd (recover_loop R (rv_now R w + RECOVERY_BUDGET_MS) ts v)) = d v @ map t_turn (filter recoverable ts)" for v
  proof (induction ts arbitrary: v)
    case (Cons t ts)
    have now: "\<not> rv_now R w + RECOVERY_BUDGET_MS \<le> rv_now R v" using budget [of v] by simp
    show ?case
    proof (cases "recoverable t")
      case True
      obtain v1 where v1: "take_up R t (act_ret ()) v = (Inr (), v1)" "d v1 = d v @ [t_turn t]"
        using take_up_defers [OF d] by blast
      then show ?thesis using now True Cons.IH [of v1] by (simp add: lease recoverable_def act_bind_def)
    next
      case False
      then show ?thesis using now Cons.IH [of v] by (simp add: recoverable_def)
    qed
  qed simp
  have "d w1 = d w" using d due unfolding sees_deferrals_def by (blast intro: keepsD)
  then show ?thesis using loop [of w1] by (simp add: recoverDue_def act_bind_def due)
qed

section \<open>A scan over two turns\<close>

text \<open>The first turn cannot be resumed; the world lists the turns that were put off.\<close>

definition demo_recovery_ports :: "string list recovery_ports" where
  "demo_recovery_ports = \<lparr>rv_due = act_ret [demo_ordinary_turn, demo_ordinary_turn\<lparr>t_turn := ''t2'', t_projection := Projection_pending\<rparr>],
     rv_lease = (\<lambda>_ task. task (act_ret ())), rv_interrupt = (\<lambda>t. act_ret (t\<lparr>t_status := Settled\<rparr>)),
     rv_defer = (\<lambda>t w. (Inr (), w @ [t_turn t])), rv_groupRoute = (\<lambda>_ _ _. act_ret None), rv_enterpriseToken = None,
     rv_resume = (\<lambda>_ _ _. act_throw (Deferred_reply ''down'')), rv_review = (\<lambda>_ _ w. w), rv_now = (\<lambda>_. 0)\<rparr>"

theorem every_due_turn_gets_its_try_witness: "snd (recoverDue demo_recovery_ports (False, [])) = [''t1'', ''t2'']"
proof -
  have sees: "sees_deferrals (\<lambda>w. w) demo_recovery_ports"
    by (simp add: sees_deferrals_def demo_recovery_ports_def keeps_ret keeps_throw)
  have due: "rv_due demo_recovery_ports [] =
      (Inr [demo_ordinary_turn, demo_ordinary_turn\<lparr>t_turn := ''t2'', t_projection := Projection_pending\<rparr>], [])"
    by (simp add: demo_recovery_ports_def)
  have "snd (recoverDue demo_recovery_ports (False, [])) =
      [] @ map t_turn (filter recoverable [demo_ordinary_turn, demo_ordinary_turn\<lparr>t_turn := ''t2'', t_projection := Projection_pending\<rparr>])"
    by (rule every_due_turn_gets_its_try [where d = "\<lambda>w. w", OF sees _ _ due]) (simp_all add: demo_recovery_ports_def RECOVERY_BUDGET_MS_def)
  then show ?thesis
    by (simp add: recoverable_def demo_ordinary_turn_def replyRecoveryContext_def truthy_def)
qed

text \<open>A scan over an ordinary turn that is pending, on the workflow of the demonstration.\<close>

definition demo_scan_ports :: "demo_flow_world recovery_ports" where
  "demo_scan_ports = \<lparr>rv_due = act_ret [demo_ordinary_turn\<lparr>t_projection := Projection_pending\<rparr>],
     rv_lease = (\<lambda>_ task. task (act_ret ())), rv_interrupt = (\<lambda>t. act_ret (t\<lparr>t_status := Settled\<rparr>)),
     rv_defer = (\<lambda>t. act_ret ()), rv_groupRoute = (\<lambda>_ _ _. act_ret None), rv_enterpriseToken = None,
     rv_resume = (\<lambda>_ _ _. act_ret ()), rv_review = (\<lambda>_ _ w. w), rv_now = (\<lambda>_. 0)\<rparr>"

theorem ordinary_recovery_sends_nothing_witness:
  "fst (snd (recoverDue (recovery_on demo_flow_ports (\<lambda>_. ''u'') demo_scan_ports) (False, ([], 0)))) = []"
proof -
  have "quiet fst demo_flow_ports" by (simp add: quiet_def demo_flow_ports_def keeps_ret)
  moreover have "keeps fst (wf_acked demo_flow_ports t)" for t
    by (simp add: demo_flow_ports_def keeps_def split: prod.split)
  moreover have "quiet_recovery fst demo_scan_ports"
    by (simp add: quiet_recovery_def lease_keeps_def demo_scan_ports_def keeps_ret)
  moreover have "\<forall>t \<in> set ts. t_policy t = Single_pass" if "rv_due demo_scan_ports w = (Inr ts, w')" for w ts w'
    using that by (auto simp: demo_scan_ports_def demo_ordinary_turn_def)
  moreover have "over_or_ordinary x" if "rv_interrupt demo_scan_ports t w = (Inr x, w')" for t w x w'
    using that by (auto simp: demo_scan_ports_def over_or_ordinary_def)
  ultimately have "fst (snd (recoverDue (recovery_on demo_flow_ports (\<lambda>_. ''u'') demo_scan_ports) (False, ([], 0)))) = fst ([], 0 :: nat)"
    by (rule ordinary_recovery_sends_nothing)
  then show ?thesis by simp
qed

end
