(* ===== verification/JsText.thy ===== *)
theory JsText
  imports Prelude "HOL-Library.Word"
begin

text \<open>
  The strings of the source where their content matters: sequences of UTF-16 code units, as
  ECMAScript defines them, with the operations of \<open>String.prototype\<close> the message code calls and a
  \<open>replace\<close> with a global regular expression.  Identifiers, which are only compared, stay the
  byte strings of the other theories.
\<close>

type_synonym js_text = "16 word list"

definition asc :: "string \<Rightarrow> js_text" where
  "asc s = map of_char s"

text \<open>White space and line terminators: what \<open>trim\<close> removes and \<open>\s\<close> matches.\<close>

definition js_space :: "16 word \<Rightarrow> bool" where
  "js_space c \<longleftrightarrow> c \<in> {9, 10, 11, 12, 13, 0x20, 0xA0, 0x1680, 0x2028, 0x2029, 0x202F, 0x205F, 0x3000, 0xFEFF}
     \<or> 0x2000 \<le> c \<and> c \<le> 0x200A"

definition line_end :: "16 word \<Rightarrow> bool" where
  "line_end c \<longleftrightarrow> c \<in> {10, 13, 0x2028, 0x2029}"

definition js_trim :: "js_text \<Rightarrow> js_text" where
  "js_trim s = rev (dropWhile js_space (rev (dropWhile js_space s)))"

definition js_blank :: "js_text \<Rightarrow> bool" where
  "js_blank s \<longleftrightarrow> js_trim s = []"

definition starts_with :: "js_text \<Rightarrow> js_text \<Rightarrow> bool" where
  "starts_with p s \<longleftrightarrow> take (length p) s = p"

fun has_text :: "js_text \<Rightarrow> js_text \<Rightarrow> bool" where
  "has_text p [] \<longleftrightarrow> p = []"
| "has_text p (c # s) \<longleftrightarrow> starts_with p (c # s) \<or> has_text p s"

text \<open>\<open>toLowerCase\<close>, as far as comparisons with ASCII text can tell: besides the capital letters only
  U+0130 and the Kelvin sign have an ASCII letter in their lower case.\<close>

fun js_lower :: "js_text \<Rightarrow> js_text" where
  "js_lower [] = []"
| "js_lower (c # s) =
     (if 65 \<le> c \<and> c \<le> 90 then [c + 32] else if c = 0x130 then [0x69, 0x307] else if c = 0x212A then [0x6B] else [c]) @ js_lower s"

text \<open>\<open>replace(/\s+/g, ' ')\<close>.\<close>

function collapse_spaces :: "js_text \<Rightarrow> js_text" where
  "collapse_spaces [] = []"
| "collapse_spaces (c # s) =
     (if js_space c then 0x20 # collapse_spaces (dropWhile js_space s) else c # collapse_spaces s)"
  by pat_completeness auto
termination
  by (relation "measure length") (auto simp: le_imp_less_Suc length_dropWhile_le)

text \<open>\<open>replace\<close> with a global regular expression.  The expression is a function of the unit before
  the position and the text from it, and answers how many units (at least one) the match takes.\<close>

type_synonym matcher = "16 word option \<Rightarrow> js_text \<Rightarrow> nat option"

function replace_all :: "matcher \<Rightarrow> js_text \<Rightarrow> 16 word option \<Rightarrow> js_text \<Rightarrow> js_text" where
  "replace_all m r p [] = []"
| "replace_all m r p (c # s) =
     (case m p (c # s) of
        None \<Rightarrow> c # replace_all m r (Some c) s
      | Some n \<Rightarrow> r @ replace_all m r (Some (if n \<le> 1 then c else ((c # s) ! (n - 1)))) (drop (n - 1) s))"
  by pat_completeness auto
termination
  by (relation "measure (\<lambda>(_, _, _, s). length s)") auto

text \<open>Splitting at line feeds and joining with them.\<close>

fun split_lines :: "js_text \<Rightarrow> js_text list" where
  "split_lines [] = [[]]"
| "split_lines (c # s) = (if c = 10 then [] # split_lines s
     else (case split_lines s of [] \<Rightarrow> [[c]] | l # ls \<Rightarrow> (c # l) # ls))"

fun join_lines :: "js_text list \<Rightarrow> js_text" where
  "join_lines [] = []"
| "join_lines [l] = l"
| "join_lines (l # ls) = l @ 10 # join_lines ls"

section \<open>Lemmas\<close>

named_theorems text_simps \<open>how the text operations act on concatenations\<close>

lemma js_space_units [simp]: "js_space 0x20" "js_space 10" "\<not> js_space 0x5B" "\<not> js_space 0x5D" "\<not> js_space 0xFF1A"
  by (simp_all add: js_space_def)

lemma js_blank_iff: "js_blank s \<longleftrightarrow> (\<forall>c\<in>set s. js_space c)"
proof -
  have "js_blank s \<longleftrightarrow> (\<forall>c\<in>set (dropWhile js_space s). js_space c)"
    by (simp add: js_blank_def js_trim_def)
  also have "\<dots> \<longleftrightarrow> (\<forall>c\<in>set s. js_space c)"
    by (induction s) auto
  finally show ?thesis .
qed

lemma js_starts_with_iff: "starts_with p s \<longleftrightarrow> (\<exists>r. s = p @ r)"
  unfolding starts_with_def by (metis append_eq_conv_conj append_take_drop_id)

lemma starts_with_append [text_simps, simp]: "starts_with p (p @ r)"
  by (simp add: js_starts_with_iff)

lemma has_text_iff: "has_text p s \<longleftrightarrow> (\<exists>a b. s = a @ p @ b)"
proof (induction s)
  case (Cons c s)
  have "(\<exists>a b. c # s = a @ p @ b) \<longleftrightarrow> (\<exists>b. c # s = p @ b) \<or> (\<exists>a b. s = a @ p @ b)"
    by (metis append_Cons append_Nil list.sel(3) neq_Nil_conv tl_append2)
  with Cons show ?case by (simp add: js_starts_with_iff)
qed auto

lemma last_dropWhile: "dropWhile P xs \<noteq> [] \<Longrightarrow> last (dropWhile P xs) = last xs"
  by (metis last_appendR takeWhile_dropWhile_id)

lemma js_trim_id: "s \<noteq> [] \<Longrightarrow> \<not> js_space (hd s) \<Longrightarrow> \<not> js_space (last s) \<Longrightarrow> js_trim s = s"
proof -
  assume s: "s \<noteq> []" "\<not> js_space (hd s)" "\<not> js_space (last s)"
  have "dropWhile js_space s = s" using s by (cases s) auto
  moreover have "dropWhile js_space (rev s) = rev s" using s by (cases "rev s") (auto simp flip: hd_rev)
  ultimately show ?thesis by (simp add: js_trim_def)
qed

lemma js_trim_ends: "js_trim s = [] \<or> \<not> js_space (hd (js_trim s)) \<and> \<not> js_space (last (js_trim s))"
proof -
  let ?d = "dropWhile js_space s" let ?e = "dropWhile js_space (rev ?d)"
  have "?e = [] \<or> \<not> js_space (hd ?e) \<and> last ?e = hd ?d \<and> ?d \<noteq> []"
    using hd_dropWhile [of js_space "rev ?d"] last_dropWhile [of js_space "rev ?d"]
    by (metis dropWhile.simps(1) last_rev rev.simps(1))
  then show ?thesis
    using hd_dropWhile [of js_space s] unfolding js_trim_def by (metis dropWhile.simps(1) hd_rev last_rev rev.simps(1))
qed

lemma js_trim_idem [simp]: "js_trim (js_trim s) = js_trim s"
proof (cases "js_trim s = []")
  case False
  then show ?thesis using js_trim_ends [of s] js_trim_id by blast
next
  case True
  show ?thesis unfolding True by (simp add: js_trim_def)
qed

lemma js_trim_set: "set (js_trim s) \<subseteq> set s"
  by (auto simp: js_trim_def dest!: set_dropWhileD)

lemma js_trim_length: "length (js_trim s) \<le> length s"
  unfolding js_trim_def by (metis length_dropWhile_le length_rev order_trans)

lemma collapse_spaces_set: "set (collapse_spaces s) \<subseteq> insert 0x20 (set s - Collect js_space)"
  by (induction s rule: collapse_spaces.induct) (auto dest: set_dropWhileD)

text \<open>A text no position of which matches is left as it is, and so is the part before the first match.\<close>

fun unmatched :: "matcher \<Rightarrow> 16 word option \<Rightarrow> js_text \<Rightarrow> js_text \<Rightarrow> bool" where
  "unmatched m p [] r = True"
| "unmatched m p (c # s) r = (m p (c # s @ r) = None \<and> unmatched m (Some c) s r)"

definition before_after :: "16 word option \<Rightarrow> js_text \<Rightarrow> 16 word option" where
  "before_after p s = (if s = [] then p else Some (last s))"

lemma replace_unmatched:
  "unmatched m p a s \<Longrightarrow> replace_all m r p (a @ s) = a @ replace_all m r (before_after p a) s"
  by (induction a arbitrary: p) (auto simp: before_after_def)

lemma replace_unmatched_all: "unmatched m p a [] \<Longrightarrow> replace_all m r p a = a"
  using replace_unmatched [of m p a "[]" r] by simp

lemma replace_matched:
  "m p (a @ s) = Some (length a) \<Longrightarrow> a \<noteq> [] \<Longrightarrow>
     replace_all m r p (a @ s) = r @ replace_all m r (Some (last a)) s"
  by (cases a) (auto simp: last_conv_nth nth_append)

lemma join_split: "join_lines (split_lines s) = s"
proof (induction s)
  case (Cons c s)
  then show ?case
    by (cases "split_lines s" rule: join_lines.cases) auto
qed simp

lemma split_lines_not_Nil [simp]: "split_lines s \<noteq> []"
  by (cases s) (auto split: list.splits)

lemma split_lines_append [text_simps]:
  "split_lines (s @ 10 # t) = split_lines s @ split_lines t"
  by (induction s) (auto split: list.splits simp: append_eq_Cons_conv)

lemma split_lines_one: "10 \<notin> set s \<Longrightarrow> split_lines s = [s]"
  by (induction s) auto

lemma split_lines_no_feed: "l \<in> set (split_lines s) \<Longrightarrow> 10 \<notin> set l"
  by (induction s arbitrary: l) (auto split: list.splits if_splits)

end
