(* ===== verification/MessageMarkers.thy ===== *)
theory MessageMarkers
  imports JsText
begin

text \<open>
  \<open>src/resolution/signal/markers.ts\<close>: the marks the message pipeline writes into the text a
  model reads (time suffix, quote bubble, visual description, resume line, location share), with
  the functions that write and strip them.  \<open>extractQuotedSpeakers\<close>, the coordinate parser and the
  multi-part text of a model message are not modelled.
\<close>

section \<open>The time suffix\<close>

definition TIME_CONTEXT_LABEL :: js_text where
  "TIME_CONTEXT_LABEL = [0x6D88, 0x606F, 0x53D1, 0x9001, 0x65F6, 0x95F4]"

definition CURRENT_TIME_LABEL :: js_text where
  "CURRENT_TIME_LABEL = [0x5F53, 0x524D, 0x65F6, 0x95F4]"

definition open_bracket :: "16 word \<Rightarrow> bool" where
  "open_bracket c \<longleftrightarrow> c = 0x5B \<or> c = 0x3010"

definition close_bracket :: "16 word \<Rightarrow> bool" where
  "close_bracket c \<longleftrightarrow> c = 0x5D \<or> c = 0x3011"

definition colon :: "16 word \<Rightarrow> bool" where
  "colon c \<longleftrightarrow> c = 0x3A \<or> c = 0xFF1A"

text \<open>What follows the first colon of a marker up to its closing bracket, or to the end of the text.\<close>

definition marker_tail :: "js_text \<Rightarrow> nat" where
  "marker_tail s = (case dropWhile (\<lambda>c. \<not> close_bracket c) s of
     [] \<Rightarrow> length s | _ # _ \<Rightarrow> length (takeWhile (\<lambda>c. \<not> close_bracket c) s) + 1)"

fun marker_label :: "js_text \<Rightarrow> js_text \<Rightarrow> nat option" where
  "marker_label l s = (if \<not> starts_with l s then None else
     (case drop (length l) s of [] \<Rightarrow> None
      | c # r \<Rightarrow> if colon c then Some (length l + 1 + marker_tail r) else None))"

definition TIME_MARKER :: matcher where
  "TIME_MARKER p s = (let w = length (takeWhile js_space s) in
     (case dropWhile js_space s of [] \<Rightarrow> None
      | b # r \<Rightarrow>
         if \<not> open_bracket b then None
         else (case marker_label TIME_CONTEXT_LABEL r of Some n \<Rightarrow> Some (w + 1 + n)
               | None \<Rightarrow> map_option (\<lambda>n. w + 1 + n) (marker_label CURRENT_TIME_LABEL r))))"

definition stripTimeContext :: "js_text \<Rightarrow> js_text \<Rightarrow> js_text" where
  "stripTimeContext replaceWith content = replace_all TIME_MARKER replaceWith None content"

definition appendTimeContext :: "js_text \<Rightarrow> js_text \<Rightarrow> js_text" where
  "appendTimeContext content timeText = content @ [10, 0x5B] @ TIME_CONTEXT_LABEL @ [0xFF1A] @ timeText @ [0x5D]"

section \<open>Quote bubbles\<close>

definition QUOTE_WORD :: js_text where
  "QUOTE_WORD = [0x5F15, 0x7528]"

definition QUOTE_BLOCK :: matcher where
  "QUOTE_BLOCK p s = (if starts_with (0x5B # QUOTE_WORD) s
     then (let r = drop 3 s; n = length (takeWhile (\<lambda>c. c \<noteq> 0x5D) r) in
           if n < length r then Some (3 + n + 1) else None)
     else None)"

text \<open>\<open>/^quote\s+[^:]+:.*$/gm\<close> with the wide colon: at the beginning of a line.\<close>

definition line_start :: "16 word option \<Rightarrow> bool" where
  "line_start p \<longleftrightarrow> (case p of None \<Rightarrow> True | Some c \<Rightarrow> line_end c)"

definition QUOTE_LINE :: matcher where
  "QUOTE_LINE p s = (if line_start p \<and> starts_with QUOTE_WORD s
     then (let r = drop 2 s; n = length (takeWhile (\<lambda>c. c \<noteq> 0xFF1A) r) in
           if 2 \<le> n \<and> js_space (hd r) \<and> n < length r
           then Some (2 + n + 1 + length (takeWhile (\<lambda>c. \<not> line_end c) (drop (n + 1) r))) else None)
     else None)"

definition stripQuotedBlocks :: "js_text \<Rightarrow> js_text \<Rightarrow> js_text" where
  "stripQuotedBlocks replaceWith s =
     js_trim (replace_all QUOTE_LINE replaceWith None (replace_all QUOTE_BLOCK replaceWith None s))"

definition stripMessageDecorations :: "js_text \<Rightarrow> js_text" where
  "stripMessageDecorations s = js_trim (stripTimeContext [10] (stripQuotedBlocks [] s))"

section \<open>Visual descriptions\<close>

definition IMAGE_MESSAGE_PREFIX :: js_text where
  "IMAGE_MESSAGE_PREFIX = [0x5B, 0x56FE, 0x7247, 0x6D88, 0x606F, 0x5D]"

definition EMOTION_MESSAGE_PREFIX :: js_text where
  "EMOTION_MESSAGE_PREFIX = [0x5B, 0x8868, 0x60C5, 0x6D88, 0x606F, 0x5D]"

definition isVisualDescriptionText :: "js_text option \<Rightarrow> bool" where
  "isVisualDescriptionText message = (let trimmed = js_trim (case message of None \<Rightarrow> [] | Some s \<Rightarrow> s) in
     starts_with IMAGE_MESSAGE_PREFIX trimmed \<or> starts_with EMOTION_MESSAGE_PREFIX trimmed)"

definition stripVisualPrefix :: "js_text \<Rightarrow> js_text" where
  "stripVisualPrefix content = (let r = dropWhile js_space content in
     if starts_with IMAGE_MESSAGE_PREFIX r \<or> starts_with EMOTION_MESSAGE_PREFIX r
     then dropWhile js_space (drop 6 r) else content)"

definition formatImageCountPlaceholder :: "int \<Rightarrow> js_text" where
  "formatImageCountPlaceholder count = (if count \<le> 1 then IMAGE_MESSAGE_PREFIX
     else [0x5B, 0x56FE, 0x7247, 0x6D88, 0x606F, 0x20] @ asc (show_int count) @ [0x20, 0x5F20, 0x5D])"

section \<open>Resume lines\<close>

definition RESUME_ATTACHMENT_LABEL :: js_text where
  "RESUME_ATTACHMENT_LABEL = [0x7B80, 0x5386, 0x9644, 0x4EF6]"

definition resume_head :: "js_text \<Rightarrow> bool" where
  "resume_head s = (let r = dropWhile js_space s in
     starts_with RESUME_ATTACHMENT_LABEL r \<and>
     (case dropWhile js_space (drop 4 r) of [] \<Rightarrow> False | c # _ \<Rightarrow> colon c))"

fun after_feed :: "js_text \<Rightarrow> bool" where
  "after_feed [] = False"
| "after_feed (c # s) = ((c = 10 \<and> resume_head s) \<or> after_feed s)"

definition hasResumeAttachmentLine :: "js_text option \<Rightarrow> bool" where
  "hasResumeAttachmentLine message = (let s = (case message of None \<Rightarrow> [] | Some m \<Rightarrow> m) in
     resume_head s \<or> after_feed s)"

text \<open>\<open>replace(/\n{2,}/g, '\n')\<close>.\<close>

fun squeeze_feeds :: "js_text \<Rightarrow> js_text" where
  "squeeze_feeds (a # b # s) = (if a = 10 \<and> b = 10 then squeeze_feeds (b # s) else a # squeeze_feeds (b # s))"
| "squeeze_feeds s = s"

definition stripResumeAttachmentLines :: "js_text \<Rightarrow> js_text" where
  "stripResumeAttachmentLines description =
     js_trim (squeeze_feeds (join_lines (filter (\<lambda>l. \<not> resume_head l) (split_lines description))))"

definition appendResumeAttachmentLine :: "js_text \<Rightarrow> js_text \<Rightarrow> js_text" where
  "appendResumeAttachmentLine description url =
     stripResumeAttachmentLines description @ [10] @ RESUME_ATTACHMENT_LABEL @ [0xFF1A] @ url"

section \<open>Location shares and the greeting of a new friend\<close>

definition LOCATION_SHARE_PREFIX :: js_text where
  "LOCATION_SHARE_PREFIX = [0x5B, 0x4F4D, 0x7F6E, 0x5206, 0x4EAB, 0x5D]"

definition LOCATION_COORDINATES_LABEL :: js_text where
  "LOCATION_COORDINATES_LABEL = [0x7ECF, 0x7EAC, 0x5EA6]"

definition truthy :: "js_text option \<Rightarrow> bool" where
  "truthy s \<longleftrightarrow> (case s of None \<Rightarrow> False | Some t \<Rightarrow> t \<noteq> [])"

text \<open>The place is the name with the address, the one of them that is there, or unknown.  Coordinates
  are printed where both are present.\<close>

definition formatLocationShare ::
  "js_text option \<Rightarrow> js_text option \<Rightarrow> js_text option \<Rightarrow> js_text option \<Rightarrow> js_text" where
  "formatLocationShare name address latitude longitude =
     LOCATION_SHARE_PREFIX @ [0x20] @
     (if truthy name \<and> truthy address \<and> name \<noteq> address then the name @ [0xFF08] @ the address @ [0xFF09]
      else if truthy address then the address
      else if truthy name then the name
      else [0x672A, 0x77E5, 0x4F4D, 0x7F6E]) @
     (case (latitude, longitude) of
        (Some lat, Some lng) \<Rightarrow> [0x20, 0x5B] @ LOCATION_COORDINATES_LABEL @ [0x3A] @ lat @ [0x2C] @ lng @ [0x5D]
      | _ \<Rightarrow> [])"

definition containsLocationShareMarkup :: "js_text option \<Rightarrow> bool" where
  "containsLocationShareMarkup message = (let s = (case message of None \<Rightarrow> [] | Some m \<Rightarrow> m) in
     has_text LOCATION_SHARE_PREFIX s \<or> has_text (0x5B # LOCATION_COORDINATES_LABEL @ [0x3A]) s)"

text \<open>\<open>.{0,6}\<close> under the flag \<open>u\<close> takes code points: a surrogate pair is one.\<close>

definition first_point :: "js_text \<Rightarrow> nat" where
  "first_point s = (case s of
     a # b # _ \<Rightarrow> if 0xD800 \<le> a \<and> a \<le> 0xDBFF \<and> 0xDC00 \<le> b \<and> b \<le> 0xDFFF then 2 else 1
   | _ \<Rightarrow> 1)"

fun within_points :: "js_text \<Rightarrow> nat \<Rightarrow> js_text \<Rightarrow> bool" where
  "within_points w 0 s = starts_with w s"
| "within_points w (Suc n) s = (starts_with w s \<or>
     (case s of [] \<Rightarrow> False | c # _ \<Rightarrow> \<not> line_end c \<and> within_points w n (drop (first_point s) s)))"

definition isFriendVerifyGreeting :: "js_text option \<Rightarrow> bool" where
  "isFriendVerifyGreeting message = (let s = (case message of None \<Rightarrow> [] | Some m \<Rightarrow> m);
       head = [0x6211, 0x901A, 0x8FC7, 0x4E86, 0x4F60, 0x7684]
     in starts_with head s \<and> within_points [0x9A8C, 0x8BC1, 0x8BF7, 0x6C42] 6 (drop (length head) s))"

section \<open>Lemmas\<close>

lemma TIME_LABELS_units [simp]: "10 \<notin> set TIME_CONTEXT_LABEL" "10 \<notin> set CURRENT_TIME_LABEL" "TIME_CONTEXT_LABEL \<noteq> []"
  by (simp_all add: TIME_CONTEXT_LABEL_def CURRENT_TIME_LABEL_def)

text \<open>A word without line feed that begins before one ends before it.\<close>

lemma starts_with_before:
  assumes "starts_with w (r @ c # q)" "c \<notin> set w"
  shows "has_text w r"
proof -
  obtain z where z: "r @ c # q = w @ z" using assms(1) by (auto simp: js_starts_with_iff)
  then consider us where "w = r @ us" "c # q = us @ z" | us where "r = w @ us"
    by (auto simp: append_eq_append_conv2)
  then show ?thesis
  proof cases
    case 1
    then have "us = []" using assms(2) by (cases us) auto
    then show ?thesis using 1 by (auto simp: has_text_iff intro: exI [of _ "[]"])
  next
    case 2
    then have "r = [] @ w @ us" by simp
    then show ?thesis by (simp only: has_text_iff) blast
  qed
qed

lemma has_text_append: "has_text w b \<Longrightarrow> has_text w (a @ b)"
  by (auto simp: has_text_iff) (metis append_assoc)

definition free_of_time_labels :: "js_text \<Rightarrow> bool" where
  "free_of_time_labels s \<longleftrightarrow> \<not> has_text TIME_CONTEXT_LABEL s \<and> \<not> has_text CURRENT_TIME_LABEL s"

lemma no_marker_before_feed:
  assumes "t \<noteq> []" "\<not> js_space (last t)" "free_of_time_labels t"
  shows "TIME_MARKER p (t @ 10 # q) = None"
proof -
  have t: "\<not> (\<forall>x\<in>set t. js_space x)" using assms(1,2) last_in_set by blast
  obtain b r where d: "dropWhile js_space t = b # r" using t by (cases "dropWhile js_space t") (auto simp: dropWhile_eq_Nil_conv)
  have tr: "t = (takeWhile js_space t @ [b]) @ r" using takeWhile_dropWhile_id [of js_space t] d by simp
  have "\<not> has_text TIME_CONTEXT_LABEL r" "\<not> has_text CURRENT_TIME_LABEL r"
    using assms(3) has_text_append [of _ r "takeWhile js_space t @ [b]"] tr
    by (auto simp: free_of_time_labels_def)
  then have "\<not> starts_with TIME_CONTEXT_LABEL (r @ 10 # q)" "\<not> starts_with CURRENT_TIME_LABEL (r @ 10 # q)"
    using starts_with_before TIME_LABELS_units by blast+
  then show ?thesis
    using t d by (auto simp: TIME_MARKER_def Let_def dropWhile_append1 dropWhile_append2)
qed

lemma unmatched_before_feed:
  "t = [] \<or> \<not> js_space (last t) \<Longrightarrow> free_of_time_labels t \<Longrightarrow> unmatched TIME_MARKER p t (10 # q)"
proof (induction t arbitrary: p)
  case (Cons c t)
  have "free_of_time_labels t" using Cons.prems(2) by (auto simp: free_of_time_labels_def)
  moreover have "t = [] \<or> \<not> js_space (last t)" using Cons.prems(1) by auto
  moreover have "TIME_MARKER p ((c # t) @ 10 # q) = None" by (rule no_marker_before_feed) (use Cons.prems in auto)
  ultimately show ?case using Cons.IH by simp
qed simp

lemma marker_tail_closed:
  "list_all (\<lambda>c. \<not> close_bracket c) s \<Longrightarrow> marker_tail (s @ [0x5D]) = length s + 1"
  by (simp add: marker_tail_def list_all_iff dropWhile_append2 takeWhile_append2 close_bracket_def)

lemma time_suffix_matches:
  assumes "list_all (\<lambda>c. \<not> close_bracket c) t"
  shows "TIME_MARKER p ([10, 0x5B] @ TIME_CONTEXT_LABEL @ [0xFF1A] @ t @ [0x5D]) =
    Some (length ([10, 0x5B] @ TIME_CONTEXT_LABEL @ [0xFF1A] @ t @ [0x5D]))"
  using marker_tail_closed [OF assms] by (simp add: TIME_MARKER_def open_bracket_def colon_def)

section \<open>Resume lines\<close>

lemma split_lines_app:
  "split_lines (a @ b) = butlast (split_lines a) @ [last (split_lines a) @ hd (split_lines b)] @ tl (split_lines b)"
proof (induction a)
  case (Cons c a)
  show ?case
  proof (cases "split_lines a")
    case (Cons l ls)
    then show ?thesis using Cons.IH by (cases ls) auto
  qed simp
qed simp

lemma resume_head_mono: "resume_head l \<Longrightarrow> resume_head (l @ m)"
proof -
  assume l: "resume_head l"
  let ?r = "dropWhile js_space l"
  have "starts_with RESUME_ATTACHMENT_LABEL ?r" using l by (simp add: resume_head_def Let_def)
  then obtain z where z: "?r = RESUME_ATTACHMENT_LABEL @ z" by (auto simp: js_starts_with_iff)
  obtain c y where c: "dropWhile js_space z = c # y" "colon c"
    using l z by (auto simp: resume_head_def Let_def RESUME_ATTACHMENT_LABEL_def split: list.splits)
  have "?r \<noteq> []" using z by (simp add: RESUME_ATTACHMENT_LABEL_def)
  then have "\<exists>x\<in>set l. \<not> js_space x" by (simp add: dropWhile_eq_Nil_conv)
  then have "dropWhile js_space (l @ m) = RESUME_ATTACHMENT_LABEL @ z @ m" using z by (auto simp: dropWhile_append1)
  moreover have "dropWhile js_space (z @ m) = c # y @ m"
    using c(1) by (metis append_Cons dropWhile_append1 dropWhile_eq_Cons_conv in_set_conv_decomp)
  ultimately show ?thesis using c(2) by (simp add: resume_head_def Let_def RESUME_ATTACHMENT_LABEL_def starts_with_def)
qed

definition resume_free :: "js_text \<Rightarrow> bool" where
  "resume_free s \<longleftrightarrow> list_all (\<lambda>l. \<not> resume_head l) (split_lines s)"

lemma resume_free_appendD: "resume_free (a @ b) \<Longrightarrow> resume_free a"
proof -
  assume "resume_free (a @ b)"
  then have "list_all (\<lambda>l. \<not> resume_head l) (butlast (split_lines a))" "\<not> resume_head (last (split_lines a))"
    using resume_head_mono by (auto simp: resume_free_def split_lines_app)
  moreover have "split_lines a = butlast (split_lines a) @ [last (split_lines a)]" by simp
  ultimately show ?thesis unfolding resume_free_def by (metis list.pred_inject list_all_append)
qed

lemma resume_head_space: "js_space c \<Longrightarrow> resume_head (c # l) = resume_head l"
  by (simp add: resume_head_def)

lemma resume_free_drop: "resume_free s \<Longrightarrow> resume_free (dropWhile js_space s)"
proof (induction s)
  case (Cons c s)
  show ?case
  proof (cases "js_space c")
    case True
    then have "resume_free s"
      using Cons.prems resume_head_space [OF True]
      by (cases "split_lines s") (auto simp: resume_free_def split: if_splits)
    then show ?thesis using Cons.IH True by simp
  qed (use Cons.prems in simp)
qed simp

lemma resume_free_trim: "resume_free s \<Longrightarrow> resume_free (js_trim s)"
proof -
  assume "resume_free s"
  then have d: "resume_free (dropWhile js_space s)" by (rule resume_free_drop)
  have "dropWhile js_space s = js_trim s @ rev (takeWhile js_space (rev (dropWhile js_space s)))"
    unfolding js_trim_def by (metis rev_append rev_rev_ident takeWhile_dropWhile_id)
  then show ?thesis using d resume_free_appendD by metis
qed

lemma split_lines_Cons:
  "split_lines (c # s) = (if c = 10 then [] # split_lines s else (c # hd (split_lines s)) # tl (split_lines s))"
  by (cases "split_lines s") auto

lemma squeeze_lines:
  "set (tl (split_lines (squeeze_feeds s))) \<subseteq> set (tl (split_lines s)) \<and>
   hd (split_lines (squeeze_feeds s)) = hd (split_lines s)"
proof (induction s rule: squeeze_feeds.induct)
  case (1 a b s)
  have sub: "set (split_lines (squeeze_feeds (b # s))) \<subseteq> set (split_lines (b # s))"
    if "set (tl (split_lines (squeeze_feeds (b # s)))) \<subseteq> set (tl (split_lines (b # s))) \<and>
      hd (split_lines (squeeze_feeds (b # s))) = hd (split_lines (b # s))"
    using that by (metis insert_mono list.exhaust_sel list.simps(15) split_lines_not_Nil)
  show ?case
  proof (cases "a = 10 \<and> b = 10")
    case True
    then show ?thesis using 1(1) by (auto simp: split_lines_Cons simp del: split_lines.simps(2))
  next
    case False
    then show ?thesis
      using 1(2) sub by (cases "a = 10") (auto simp: split_lines_Cons [of a] split_lines_Cons [of 10] simp del: split_lines.simps(2))
  qed
qed auto

lemma resume_free_squeeze: "resume_free s \<Longrightarrow> resume_free (squeeze_feeds s)"
proof -
  have "set (split_lines (squeeze_feeds s)) \<subseteq> set (split_lines s)"
    using squeeze_lines [of s] by (metis insert_mono list.exhaust_sel list.simps(15) split_lines_not_Nil)
  then show "resume_free s \<Longrightarrow> resume_free (squeeze_feeds s)" by (auto simp: resume_free_def list_all_iff)
qed

lemma split_join: "list_all (\<lambda>l. 10 \<notin> set l) ls \<Longrightarrow> ls \<noteq> [] \<Longrightarrow> split_lines (join_lines ls) = ls"
  by (induction ls rule: join_lines.induct) (auto simp: split_lines_append split_lines_one)

lemma stripped_is_resume_free: "resume_free (stripResumeAttachmentLines d)"
proof -
  let ?ls = "filter (\<lambda>l. \<not> resume_head l) (split_lines d)"
  have "list_all (\<lambda>l. 10 \<notin> set l) ?ls" by (auto simp: list_all_iff dest: split_lines_no_feed)
  then have "resume_free (join_lines ?ls)"
    by (cases "?ls = []") (auto simp: resume_free_def split_join list_all_iff resume_head_def RESUME_ATTACHMENT_LABEL_def starts_with_def)
  then show ?thesis
    unfolding stripResumeAttachmentLines_def by (intro resume_free_trim resume_free_squeeze)
qed

section \<open>Properties\<close>

text \<open>The time suffix that is appended to a message is what the stripping takes away: a message
  that ends in no white space and has no time label of its own comes back unit by unit.\<close>

theorem time_suffix_round_trip:
  assumes "free_of_time_labels content" "content = [] \<or> \<not> js_space (last content)"
    and "list_all (\<lambda>c. \<not> close_bracket c) timeText"
  shows "stripTimeContext [] (appendTimeContext content timeText) = content"
proof -
  let ?m = "[10, 0x5B] @ TIME_CONTEXT_LABEL @ [0xFF1A] @ timeText @ [0x5D]"
  have "replace_all TIME_MARKER [] None (content @ ?m) = content @ replace_all TIME_MARKER [] (before_after None content) ?m"
    by (rule replace_unmatched) (use unmatched_before_feed [OF assms(2,1)] in simp)
  also have "replace_all TIME_MARKER [] p ?m = []" for p
    using replace_matched [of TIME_MARKER p ?m "[]" "[]"] time_suffix_matches [OF assms(3)] by simp
  finally show ?thesis by (simp add: stripTimeContext_def appendTimeContext_def)
qed

text \<open>Appending a resume line leaves exactly one, whatever lines the description had.\<close>

theorem resume_line_is_unique:
  assumes "list_all (\<lambda>c. c \<noteq> 10) url"
  shows "filter resume_head (split_lines (appendResumeAttachmentLine description url)) =
    [RESUME_ATTACHMENT_LABEL @ [0xFF1A] @ url]"
proof -
  have "10 \<notin> set (RESUME_ATTACHMENT_LABEL @ [0xFF1A] @ url)"
    using assms by (auto simp: RESUME_ATTACHMENT_LABEL_def list_all_iff)
  moreover have "filter resume_head (split_lines (stripResumeAttachmentLines description)) = []"
    using stripped_is_resume_free [of description] by (auto simp: resume_free_def list_all_iff filter_empty_conv)
  moreover have "resume_head (RESUME_ATTACHMENT_LABEL @ [0xFF1A] @ url)"
    by (simp add: resume_head_def RESUME_ATTACHMENT_LABEL_def js_space_def colon_def starts_with_def)
  ultimately show ?thesis
    using split_lines_append [of "stripResumeAttachmentLines description" "RESUME_ATTACHMENT_LABEL @ [0xFF1A] @ url"]
    by (simp add: appendResumeAttachmentLine_def split_lines_one)
qed

definition demo_note :: js_text where
  "demo_note = asc ''Hello''"

theorem time_suffix_round_trip_witness:
  "stripTimeContext [] (appendTimeContext demo_note (asc ''2026-03-02 09:30'')) = demo_note"
  by (rule time_suffix_round_trip) code_simp+

theorem resume_line_is_unique_witness:
  "filter resume_head (split_lines (appendResumeAttachmentLine
      (appendResumeAttachmentLine demo_note (asc ''https://a'')) (asc ''https://b''))) =
    [RESUME_ATTACHMENT_LABEL @ [0xFF1A] @ asc ''https://b'']"
  by (rule resume_line_is_unique) code_simp

end
