(* ===== verification/MessageParser.thy ===== *)
theory MessageParser
  imports MessageMarkers Complex_Main
begin

text \<open>
  \<open>src/enums/message-callback.enum.ts\<close>, the callback of
  \<open>src/channels/wecom/message/ingress/message-callback.dto.ts\<close> with its payload guards,
  \<open>src/channels/wecom/message/utils/message-parser.util.ts\<close> and
  \<open>utils/friend-add-greeting.util.ts\<close>: what a callback of the hosting platform holds and the text
  the agent reads in it.

  The payload is one record of the fields the code reads from the kinds of payload; a field is
  \<open>None\<close> where it is absent or does not have its documented type.  The time of a message is its
  text's two readings, by \<open>parseInt\<close> and by \<open>Number\<close>, \<open>None\<close> where the reading is not finite.
\<close>

section \<open>Callbacks\<close>

datatype message_type =
  MT_UNKNOWN | MT_FILE | MT_VOICE | MT_CONTACT_CARD | MT_CHAT_HISTORY | MT_EMOTION | MT_IMAGE | MT_TEXT
  | MT_LOCATION | MT_MINI_PROGRAM | MT_MONEY | MT_REVOKE | MT_LINK | MT_VIDEO | MT_CHANNELS | MT_CALL_RECORD
  | MT_GROUP_SOLITAIRE | MT_ROOM_INVITE | MT_SYSTEM | MT_WECOM_SYSTEM | MT_other int

datatype contact_type = CT_UNKNOWN | CT_PERSONAL_WECHAT | CT_OFFICIAL_ACCOUNT | CT_ENTERPRISE_WECHAT | CT_other int

datatype message_source =
  MS_MOBILE_PUSH | MS_AGGREGATED_CHAT_MANUAL | MS_ADVANCED_GROUP_SEND_SOP | MS_AUTO_REPLY | MS_CREATE_GROUP
  | MS_OTHER_BOT_REPLY | MS_API_SEND | MS_NEW_CUSTOMER_ANSWER_SOP | MS_API_GROUP_SEND | MS_TAG_SOP
  | MS_MULTI_GROUP_FORWARD | MS_MULTI_GROUP_REPLAY | MS_AUTO_END_CONVERSATION | MS_SCHEDULED_MESSAGE
  | MS_AI_REPLY | MS_other int

datatype api_type = API_ENTERPRISE | API_GROUP

text \<open>The content of a quoted message is a text, an object with its \<open>pureText\<close> and \<open>text\<close>, or neither.\<close>

datatype quote_content = Quote_text js_text | Quote_object "js_text option" "js_text option" | Quote_nothing

record quote_message =
  q_nickname :: "js_text option"
  q_type :: "js_text option"
  q_content :: quote_content

record message_payload =
  pl_text :: "js_text option"
  pl_pureText :: "js_text option"
  pl_quoteMessage :: "quote_message option"
  pl_url :: "js_text option"
  pl_imageUrl :: "js_text option"
  pl_artworkUrl :: "js_text option"
  pl_voiceUrl :: "js_text option"
  pl_duration :: "rat option"
  pl_name :: "js_text option"
  pl_fileUrl :: "js_text option"
  pl_size :: "int option"
  pl_address :: "js_text option"
  pl_latitude :: "js_text option"
  pl_longitude :: "js_text option"
  pl_title :: "js_text option"
  pl_description :: "js_text option"
  pl_roomName :: "js_text option"
  pl_groupName :: "js_text option"

definition no_payload :: message_payload where
  "no_payload = \<lparr>pl_text = None, pl_pureText = None, pl_quoteMessage = None, pl_url = None, pl_imageUrl = None,
     pl_artworkUrl = None, pl_voiceUrl = None, pl_duration = None, pl_name = None, pl_fileUrl = None, pl_size = None,
     pl_address = None, pl_latitude = None, pl_longitude = None, pl_title = None, pl_description = None,
     pl_roomName = None, pl_groupName = None\<rparr>"

record message_time =
  mt_parseInt :: "int option"
  mt_Number :: "rat option"

record callback =
  cb_orgId :: string
  cb_groupId :: "string option"
  cb_token :: string
  cb_botId :: string
  cb_botUserId :: "string option"
  cb_imBotId :: string
  cb_chatId :: string
  cb_imContactId :: "string option"
  cb_messageType :: message_type
  cb_messageId :: string
  cb_externalRequestId :: "string option"
  cb_timestamp :: message_time
  cb_isSelf :: "bool option"
  cb_source :: message_source
  cb_sourceInferred :: bool
  cb_contactType :: contact_type
  cb_payload :: message_payload
  cb_imRoomId :: "string option"
  cb_roomName :: "string option"
  cb_roomWecomChatId :: "string option"
  cb_contactName :: "string option"
  cb_externalUserId :: "string option"
  cb_coworker :: "bool option"
  cb_avatar :: "string option"
  cb_apiType :: "api_type option"
  cb_receivedAtMs :: "int option"

text \<open>A text that is there and not empty.\<close>

definition given :: "string option \<Rightarrow> bool" where
  "given s \<longleftrightarrow> (case s of None \<Rightarrow> False | Some t \<Rightarrow> t \<noteq> [])"

section \<open>The kinds of payload\<close>

definition isTextPayload :: "message_type \<Rightarrow> message_payload \<Rightarrow> bool" where
  "isTextPayload k p \<longleftrightarrow> k = MT_TEXT \<and> pl_text p \<noteq> None"

definition isImagePayload :: "message_type \<Rightarrow> message_payload \<Rightarrow> bool" where
  "isImagePayload k p \<longleftrightarrow> k = MT_IMAGE \<and> (pl_url p \<noteq> None \<or> pl_imageUrl p \<noteq> None)"

definition isFilePayload :: "message_type \<Rightarrow> message_payload \<Rightarrow> bool" where
  "isFilePayload k p \<longleftrightarrow> k = MT_FILE \<and> pl_fileUrl p \<noteq> None"

definition isVoicePayload :: "message_type \<Rightarrow> message_payload \<Rightarrow> bool" where
  "isVoicePayload k p \<longleftrightarrow> k = MT_VOICE \<and> (pl_url p \<noteq> None \<or> pl_voiceUrl p \<noteq> None)"

definition isEmotionPayload :: "message_type \<Rightarrow> message_payload \<Rightarrow> bool" where
  "isEmotionPayload k p \<longleftrightarrow> k = MT_EMOTION \<and> pl_imageUrl p \<noteq> None"

definition isMiniProgramPayload :: "message_type \<Rightarrow> message_payload \<Rightarrow> bool" where
  "isMiniProgramPayload k p \<longleftrightarrow> k = MT_MINI_PROGRAM \<and> pl_title p \<noteq> None"

definition isLocationPayload :: "message_type \<Rightarrow> message_payload \<Rightarrow> bool" where
  "isLocationPayload k p \<longleftrightarrow> k = MT_LOCATION \<and> pl_address p \<noteq> None"

section \<open>The text of a message\<close>

definition or_text :: "js_text option \<Rightarrow> js_text \<Rightarrow> js_text" where
  "or_text s d = (if truthy s then the s else d)"

definition extractQuoteText :: "quote_message \<Rightarrow> js_text" where
  "extractQuoteText q = (case q_content q of
     Quote_text c \<Rightarrow> c
   | Quote_object (Some pure) _ \<Rightarrow> pure
   | Quote_object None (Some t) \<Rightarrow> t
   | _ \<Rightarrow> (let t = js_lower (case q_type q of None \<Rightarrow> [] | Some k \<Rightarrow> k) in
       if t = asc ''6'' \<or> t = asc ''image'' then IMAGE_MESSAGE_PREFIX
       else if t = asc ''5'' \<or> t = asc ''emotion'' then EMOTION_MESSAGE_PREFIX
       else if t = asc ''2'' \<or> t = asc ''voice'' then [0x5B, 0x8BED, 0x97F3, 0x6D88, 0x606F, 0x5D]
       else []))"

definition quote_bubble :: "js_text \<Rightarrow> js_text \<Rightarrow> js_text" where
  "quote_bubble speaker snippet = [0x5B, 0x5F15, 0x7528, 0x20] @ speaker @ [0xFF1A] @ snippet @ [0x5D]"

definition quote_speaker :: "quote_message \<Rightarrow> js_text" where
  "quote_speaker q = or_text (map_option js_trim (q_nickname q)) [0x5BF9, 0x65B9]"

definition quote_snippet :: "js_text \<Rightarrow> js_text" where
  "quote_snippet trimmed = (if 120 < length trimmed then take 120 trimmed @ [0x2026] else trimmed)"

definition formatQuoteMessage :: "message_payload \<Rightarrow> js_text option" where
  "formatQuoteMessage p = (case pl_quoteMessage p of
     None \<Rightarrow> None
   | Some q \<Rightarrow>
       (let t = extractQuoteText q in
        if t = [] then None
        else (let trimmed = js_trim (collapse_spaces t) in
          if trimmed = [] then None
          else Some (quote_bubble (quote_speaker q) (quote_snippet trimmed)))))"

text \<open>\<open>Math.round\<close> of a finite number.\<close>

definition js_round :: "rat \<Rightarrow> int" where
  "js_round x = \<lfloor>x + 1 / 2\<rfloor>"

definition duration_text :: "rat option \<Rightarrow> js_text option" where
  "duration_text d = (case d of None \<Rightarrow> None
     | Some x \<Rightarrow> if x = 0 then None else Some (asc (show_int (js_round x)) @ [0x79D2]))"

definition formatVoiceAsText :: "message_payload \<Rightarrow> js_text" where
  "formatVoiceAsText p =
     (if truthy (pl_text p) \<and> js_trim (the (pl_text p)) \<noteq> []
      then [0x5B, 0x8BED, 0x97F3, 0x8F6C, 0x6587, 0x5B57] @ (case duration_text (pl_duration p) of None \<Rightarrow> [] | Some d \<Rightarrow> [0xFF0C, 0x65F6, 0x957F] @ d)
           @ [0x5D, 0x20] @ js_trim (the (pl_text p))
      else [0x5B, 0x8BED, 0x97F3, 0x6D88, 0x606F, 0x5D, 0x20, 0x65F6, 0x957F] @ (case duration_text (pl_duration p) of None \<Rightarrow> [0x672A, 0x77E5, 0x65F6, 0x957F] | Some d \<Rightarrow> d))"

text \<open>\<open>/(?:^|[^a-z0-9])cv(?:[^a-z0-9]|$)/\<close>.\<close>

definition word_unit :: "16 word \<Rightarrow> bool" where
  "word_unit c \<longleftrightarrow> 97 \<le> c \<and> c \<le> 122 \<or> 48 \<le> c \<and> c \<le> 57"

fun cv_word :: "bool \<Rightarrow> js_text \<Rightarrow> bool" where
  "cv_word boundary [] = False"
| "cv_word boundary (c # s) =
     (boundary \<and> c = 99 \<and> (case s of d # r \<Rightarrow> d = 118 \<and> (r = [] \<or> \<not> word_unit (hd r)) | [] \<Rightarrow> False)
      \<or> cv_word (\<not> word_unit c) s)"

definition isLikelyResumeFile :: "js_text \<Rightarrow> bool" where
  "isLikelyResumeFile fileName = (let normalized = js_lower (js_trim fileName) in
     has_text [0x7B80, 0x5386] normalized \<or> has_text [0x5C65, 0x5386] normalized \<or> has_text (asc ''resume'') normalized
     \<or> cv_word True normalized)"

text \<open>\<open>toFixed(1)\<close> of a number of mebibytes is the nearest tenth, the greater of two.\<close>

definition formatFileSize :: "int \<Rightarrow> js_text" where
  "formatFileSize bytes =
     (if 1024 * 1024 \<le> bytes
      then (let tenths = (bytes * 20 + 1048576) div 2097152 in
            asc (show_int (tenths div 10)) @ [46] @ asc (show_int (tenths mod 10)) @ asc ''MB'')
      else if 1024 \<le> bytes then asc (show_int ((2 * bytes + 1024) div 2048)) @ asc ''KB''
      else asc (show_int bytes) @ asc ''B'')"

definition formatFileAsText :: "message_payload \<Rightarrow> js_text" where
  "formatFileAsText p =
     (let name = or_text (map_option js_trim (pl_name p)) [0x672A, 0x547D, 0x540D, 0x6587, 0x4EF6];
          fileUrl = (case pl_fileUrl p of None \<Rightarrow> [] | Some u \<Rightarrow> js_trim u);
          sizeText = (case pl_size p of None \<Rightarrow> []
            | Some n \<Rightarrow> if 0 < n then [0xFF1B, 0x6587, 0x4EF6, 0x5927, 0x5C0F, 0xFF1A] @ formatFileSize n else [])
      in [0x5B, 0x6587, 0x4EF6, 0x6D88, 0x606F, 0x5D, 0x20, 0x6587, 0x4EF6, 0x540D, 0xFF1A] @ name @ [0xFF1B, 0x6587, 0x4EF6, 0x5730, 0x5740, 0xFF1A] @ fileUrl @ sizeText @
         (if isLikelyResumeFile name then [10] @ RESUME_ATTACHMENT_LABEL @ [0xFF1A] @ fileUrl else []))"

definition formatMiniProgramAsText :: "message_payload \<Rightarrow> js_text" where
  "formatMiniProgramAsText p = [0x5B, 0x5C0F, 0x7A0B, 0x5E8F, 0x5D, 0x20] @ (case pl_title p of None \<Rightarrow> [] | Some t \<Rightarrow> t) @
     (if truthy (pl_description p) then asc '' - '' @ the (pl_description p) else [])"

definition extractContent :: "callback \<Rightarrow> js_text" where
  "extractContent m = (let k = cb_messageType m; p = cb_payload m in
     if isTextPayload k p
     then (let baseText = or_text (pl_pureText p) (the (pl_text p)) in
           (case formatQuoteMessage p of None \<Rightarrow> baseText | Some quoted \<Rightarrow> quoted @ [10] @ baseText))
     else if isLocationPayload k p
     then formatLocationShare (pl_name p) (pl_address p) (pl_latitude p) (pl_longitude p)
     else if isVoicePayload k p then formatVoiceAsText p
     else if isEmotionPayload k p then EMOTION_MESSAGE_PREFIX
     else if isImagePayload k p then IMAGE_MESSAGE_PREFIX
     else if isFilePayload k p then formatFileAsText p
     else if isMiniProgramPayload k p then formatMiniProgramAsText p
     else [])"

definition extractImageUrl :: "callback \<Rightarrow> js_text option" where
  "extractImageUrl m = (let k = cb_messageType m; p = cb_payload m in
     if isImagePayload k p
     then (if truthy (pl_imageUrl p) then pl_imageUrl p else if truthy (pl_url p) then pl_url p else None)
     else if isEmotionPayload k p then (if truthy (pl_imageUrl p) then pl_imageUrl p else None)
     else None)"

definition extractVisualMessageType :: "callback \<Rightarrow> message_type option" where
  "extractVisualMessageType m = (if extractImageUrl m = None then None
     else if cb_messageType m = MT_EMOTION then Some MT_EMOTION else Some MT_IMAGE)"

text \<open>\<open>parse\<close>: the fields that are not copied as they are, and those the intake reads from it.\<close>

record parsed_message =
  pm_content :: js_text
  pm_isRoom :: bool
  pm_chatId :: string
  pm_imContactId :: "string option"
  pm_contactName :: "string option"
  pm_managerName :: "string option"
  pm_timestamp :: "int option"

definition parse :: "callback \<Rightarrow> parsed_message" where
  "parse m = \<lparr>pm_content = extractContent m, pm_isRoom = given (cb_imRoomId m), pm_chatId = cb_chatId m,
     pm_imContactId = (if given (cb_imRoomId m) then None else cb_imContactId m),
     pm_contactName = cb_contactName m, pm_managerName = cb_botUserId m,
     pm_timestamp = mt_parseInt (cb_timestamp m)\<rparr>"

definition injectTimeContext :: "js_text \<Rightarrow> js_text \<Rightarrow> js_text" where
  "injectTimeContext content timeText = appendTimeContext content timeText"

section \<open>Greetings of a new friend\<close>

definition JOB_INTENT_KEYWORDS :: "js_text list" where
  "JOB_INTENT_KEYWORDS = [[0x627E, 0x5DE5, 0x4F5C],
     [0x5DE5, 0x4F5C],
     [0x517C, 0x804C],
     [0x5168, 0x804C],
     [0x5E94, 0x8058],
     [0x6C42, 0x804C],
     [0x62DB, 0x8058],
     [0x5C0F, 0x65F6, 0x5DE5],
     [0x949F, 0x70B9],
     [0x4E34, 0x65F6, 0x5DE5],
     [0x65E5, 0x7ED3],
     [0x957F, 0x671F, 0x5DE5],
     [0x6253, 0x5DE5],
     [0x4E0A, 0x73ED],
     [0x627E, 0x6D3B],
     [0x6691, 0x5047],
     [0x5BD2, 0x5047],
     [0x5B66, 0x751F],
     asc ''boss'',
     [0x76F4, 0x8058],
     [0x6536, 0x94F6],
     [0x670D, 0x52A1, 0x5458],
     [0x4FDD, 0x6D01],
     [0x5206, 0x62E3],
     [0x6D17, 0x7897],
     [0x540E, 0x53A8],
     [0x5E94, 0x5C4A]]"

definition MAX_DEFAULT_GREETING_LENGTH :: nat where
  "MAX_DEFAULT_GREETING_LENGTH = 12"

definition isPureFriendAddGreeting :: "js_text option \<Rightarrow> bool" where
  "isPureFriendAddGreeting content = (let t = js_trim (case content of None \<Rightarrow> [] | Some c \<Rightarrow> c) in
     if t = [] then False
     else if t = [0x8BF7, 0x6C42, 0x6DFB, 0x52A0, 0x4F60, 0x4E3A, 0x670B, 0x53CB] then True
     else if isFriendVerifyGreeting (Some t) then True
     else if starts_with [0x6211, 0x662F] t
     then \<not> list_ex (\<lambda>kw. has_text kw (js_lower t)) JOB_INTENT_KEYWORDS \<and> length t \<le> MAX_DEFAULT_GREETING_LENGTH
     else False)"

section \<open>Lemmas\<close>

lemma takeWhile_up_to: "c \<notin> set a \<Longrightarrow> takeWhile (\<lambda>x. x \<noteq> c) (a @ c # s) = a"
  by (induction a) auto

text \<open>A bubble is one match of the pattern that strips it, if neither part has a closing bracket.\<close>

lemma quote_block_matches:
  assumes "0x5D \<notin> set speaker" "0x5D \<notin> set snippet"
  shows "QUOTE_BLOCK p (quote_bubble speaker snippet @ s) = Some (length (quote_bubble speaker snippet))"
proof -
  have "takeWhile (\<lambda>c. c \<noteq> 0x5D) ([0x20] @ speaker @ 0xFF1A # snippet @ 0x5D # s) = [0x20] @ speaker @ 0xFF1A # snippet"
    using takeWhile_up_to [of "0x5D" "[0x20] @ speaker @ 0xFF1A # snippet" s] assms by simp
  then show ?thesis by (simp add: QUOTE_BLOCK_def quote_bubble_def QUOTE_WORD_def starts_with_def)
qed

lemma no_quote_unmatched:
  "\<not> has_text QUOTE_WORD s \<Longrightarrow> unmatched QUOTE_BLOCK p s [] \<and> unmatched QUOTE_LINE q s []"
proof (induction s arbitrary: p q)
  case (Cons c s)
  have "\<not> starts_with (0x5B # QUOTE_WORD) (c # s)"
    using Cons.prems by (auto simp: starts_with_def QUOTE_WORD_def has_text_iff) (metis append.left_neutral append_Cons append_take_drop_id)
  then show ?case using Cons by (simp add: QUOTE_BLOCK_def QUOTE_LINE_def)
qed simp

lemma no_quote_feed: "\<not> has_text QUOTE_WORD s \<Longrightarrow> \<not> has_text QUOTE_WORD (10 # s)"
  by (simp add: starts_with_def QUOTE_WORD_def)

lemma js_trim_feed: "js_trim (10 # s) = js_trim s"
  by (simp add: js_trim_def)

lemma bubble_stripped:
  assumes "0x5D \<notin> set speaker" "0x5D \<notin> set snippet" "\<not> has_text QUOTE_WORD base"
  shows "stripQuotedBlocks [] (quote_bubble speaker snippet @ [10] @ base) = js_trim base"
proof -
  have "replace_all QUOTE_BLOCK [] None (quote_bubble speaker snippet @ [10] @ base) =
      [] @ replace_all QUOTE_BLOCK [] (Some (last (quote_bubble speaker snippet))) ([10] @ base)"
    using replace_matched [of QUOTE_BLOCK None "quote_bubble speaker snippet" "[10] @ base" "[]"]
      quote_block_matches [OF assms(1,2)] by (simp add: quote_bubble_def)
  moreover have "replace_all QUOTE_BLOCK [] p (10 # base) = 10 # base" for p
    by (rule replace_unmatched_all) (use no_quote_unmatched [OF no_quote_feed [OF assms(3)]] in blast)
  moreover have "replace_all QUOTE_LINE [] p (10 # base) = 10 # base" for p
    by (rule replace_unmatched_all) (use no_quote_unmatched [OF no_quote_feed [OF assms(3)]] in blast)
  ultimately show ?thesis by (simp add: stripQuotedBlocks_def js_trim_feed)
qed

lemmas payload_guards = isTextPayload_def isImagePayload_def isFilePayload_def isVoicePayload_def
  isEmotionPayload_def isMiniProgramPayload_def isLocationPayload_def

section \<open>Properties\<close>

text \<open>The text of a message that quotes another is the quote bubble and the message on a line of its
  own, the snippet at most 121 units of one line; and stripping the bubble gives back the message, provided
  neither the speaker's name nor the snippet has a closing bracket and the message does not quote by hand.\<close>

theorem quoted_message_round_trip:
  assumes "isTextPayload (cb_messageType m) (cb_payload m)" "pl_quoteMessage (cb_payload m) = Some q"
    and "formatQuoteMessage (cb_payload m) \<noteq> None"
    and "base = or_text (pl_pureText (cb_payload m)) (the (pl_text (cb_payload m)))"
    and "\<not> has_text [0x5D] (quote_speaker q)" "\<not> has_text [0x5D] (extractQuoteText q)" "\<not> has_text QUOTE_WORD base"
  shows "\<exists>snippet. extractContent m = quote_bubble (quote_speaker q) snippet @ [10] @ base \<and>
    length snippet \<le> 121 \<and> 10 \<notin> set snippet \<and> stripQuotedBlocks [] (extractContent m) = js_trim base"
proof -
  let ?t = "js_trim (collapse_spaces (extractQuoteText q))"
  have units: "set (quote_snippet ?t) \<subseteq> insert 0x2026 (insert 0x20 (set (extractQuoteText q) - Collect js_space))"
    using js_trim_set collapse_spaces_set set_take_subset unfolding quote_snippet_def by (fastforce split: if_splits)
  have "0x5D \<notin> set s" if "\<not> has_text [0x5D] s" for s :: js_text
    using that by (metis append_Cons append_Nil has_text_iff in_set_conv_decomp)
  then have b: "0x5D \<notin> set (quote_speaker q)" "0x5D \<notin> set (extractQuoteText q)" using assms(5,6) by blast+
  have "10 \<notin> set (quote_snippet ?t)" "0x5D \<notin> set (quote_snippet ?t)" using units b(2) by auto
  moreover have "extractContent m = quote_bubble (quote_speaker q) (quote_snippet ?t) @ [10] @ base"
    using assms(1-4) by (auto simp: extractContent_def formatQuoteMessage_def Let_def split: if_splits)
  moreover have "length (quote_snippet ?t) \<le> 121" by (simp add: quote_snippet_def)
  ultimately show ?thesis using bubble_stripped [OF b(1) _ assms(7)] by metis
qed

definition demo_callback :: callback where
  "demo_callback = \<lparr>cb_orgId = ''corp'', cb_groupId = None, cb_token = ''t'', cb_botId = ''bot'', cb_botUserId = Some ''manager'',
     cb_imBotId = ''wxbot'', cb_chatId = ''chat'', cb_imContactId = Some ''wxuser'', cb_messageType = MT_TEXT,
     cb_messageId = ''m1'', cb_externalRequestId = None,
     cb_timestamp = \<lparr>mt_parseInt = Some 1700000000000, mt_Number = Some 1700000000000\<rparr>, cb_isSelf = Some False,
     cb_source = MS_MOBILE_PUSH, cb_sourceInferred = False, cb_contactType = CT_PERSONAL_WECHAT,
     cb_payload = no_payload\<lparr>pl_text := Some (asc ''every day?'')\<rparr>,
     cb_imRoomId = None, cb_roomName = None, cb_roomWecomChatId = None, cb_contactName = None,
     cb_externalUserId = None, cb_coworker = None, cb_avatar = None, cb_apiType = None, cb_receivedAtMs = None\<rparr>"

definition demo_quoting :: "quote_content \<Rightarrow> callback" where
  "demo_quoting c = demo_callback\<lparr>cb_payload := (cb_payload demo_callback)\<lparr>pl_quoteMessage :=
     Some \<lparr>q_nickname = Some (asc '' Ann ''), q_type = Some (asc ''6''), q_content = c\<rparr>\<rparr>\<rparr>"

theorem quoted_message_round_trip_witness:
  "\<exists>snippet. extractContent (demo_quoting (Quote_text (asc ''night  shift''))) =
      quote_bubble (asc ''Ann'') snippet @ [10] @ asc ''every day?'' \<and>
    length snippet \<le> 121 \<and> 10 \<notin> set snippet \<and>
    stripQuotedBlocks [] (extractContent (demo_quoting (Quote_text (asc ''night  shift'')))) = js_trim (asc ''every day?'')"
proof -
  let ?m = "demo_quoting (Quote_text (asc ''night  shift''))"
  let ?q = "\<lparr>q_nickname = Some (asc '' Ann ''), q_type = Some (asc ''6''), q_content = Quote_text (asc ''night  shift'')\<rparr>"
  have "quote_speaker ?q = asc ''Ann''" by code_simp
  moreover have "\<exists>snippet. extractContent ?m = quote_bubble (quote_speaker ?q) snippet @ [10] @ asc ''every day?'' \<and>
    length snippet \<le> 121 \<and> 10 \<notin> set snippet \<and> stripQuotedBlocks [] (extractContent ?m) = js_trim (asc ''every day?'')"
    by (rule quoted_message_round_trip) code_simp+
  ultimately show ?thesis by simp
qed

text \<open>Where the quoted content has a closing bracket, as the mark of a quoted picture does, the rest of it
  is taken for the candidate's own words.\<close>

theorem quoted_picture_leaks:
  "stripQuotedBlocks [] (extractContent (demo_quoting Quote_nothing)) = [0x5D, 10] @ asc ''every day?''"
  by code_simp

text \<open>No message of a supported kind other than a text is ever empty, so the filter for empty content
  only ever drops texts.\<close>

theorem only_texts_can_be_blank:
  "js_blank (extractContent m) \<longleftrightarrow>
     (if isTextPayload (cb_messageType m) (cb_payload m)
      then formatQuoteMessage (cb_payload m) = None \<and>
        js_blank (or_text (pl_pureText (cb_payload m)) (the (pl_text (cb_payload m))))
      else list_all (\<lambda>has. \<not> has (cb_messageType m) (cb_payload m))
        [isLocationPayload, isVoicePayload, isEmotionPayload, isImagePayload, isFilePayload, isMiniProgramPayload])"
proof -
  have mark: "\<not> js_blank (c # s)" if "\<not> js_space c" for c s using that by (simp add: js_blank_iff)
  have "\<not> js_blank (b @ s)" if "formatQuoteMessage p = Some b" for p s b
    using that mark [of "0x5B"] by (auto simp: formatQuoteMessage_def quote_bubble_def Let_def split: option.splits if_splits)
  moreover have "\<not> js_blank (formatLocationShare a b c d)" for a b c d
    using mark [of "0x5B"] by (simp add: formatLocationShare_def LOCATION_SHARE_PREFIX_def)
  moreover have "\<not> js_blank (formatVoiceAsText p)" "\<not> js_blank (formatFileAsText p)" "\<not> js_blank (formatMiniProgramAsText p)" for p
    using mark [of "0x5B"] by (simp_all add: formatVoiceAsText_def formatFileAsText_def formatMiniProgramAsText_def Let_def)
  moreover have "\<not> js_blank EMOTION_MESSAGE_PREFIX" "\<not> js_blank IMAGE_MESSAGE_PREFIX" "js_blank []"
    using mark [of "0x5B"] by (simp_all add: EMOTION_MESSAGE_PREFIX_def IMAGE_MESSAGE_PREFIX_def js_blank_def js_trim_def)
  ultimately show ?thesis
    by (cases "cb_messageType m"; cases "formatQuoteMessage (cb_payload m)")
      (simp_all add: extractContent_def Let_def payload_guards)
qed

end
