(* ===== verification/MessageFilter.thy ===== *)
theory MessageFilter
  imports MessageParser ActionPermit
begin

text \<open>
  \<open>src/channels/wecom/message/application/filter-rules/message-filter.rules.ts\<close>,
  \<open>application/filter.service.ts\<close> and \<open>src/enums/message-filter.enum.ts\<close>: the nine rules an inbound
  message goes through, in their order.

  The hosting, blacklist, configuration and notification services are a record of actions on the
  world; the permit service the third rule asks is the model of the theory \<open>ActionPermit\<close>, on the same
  actions.  The three measures against a blacklisted candidate, which the source starts together,
  are taken one after the other: each of them catches its own failure.  The details of a result are
  only logged and are left out.
\<close>

section \<open>Services\<close>

record blacklist_hit =
  hit_target :: string
  hit_reason :: js_text
  hit_operator :: "string option"

record pause_options =
  po_permanent :: bool
  po_reason :: "js_text option"
  po_operator :: "string option"
  po_source :: "string option"

record hit_record =
  hr_chatId :: string
  hr_botId :: string
  hr_messageId :: string
  hr_contactName :: "string option"

record blacklist_alert =
  ba_summary :: js_text
  ba_chatId :: string
  ba_contactName :: "string option"
  ba_targetId :: string
  ba_operator :: "string option"
  ba_imBotId :: string
  ba_messageId :: string
  ba_dedupe :: string

record 'w services =
  sv_getChatPause :: "string \<Rightarrow> ('w, bool \<times> int option) act"
  sv_isAnyPaused :: "string option list \<Rightarrow> ('w, string option) act"
  sv_pauseUser :: "string \<Rightarrow> pause_options \<Rightarrow> ('w, bool) act"
  sv_matchBlacklisted :: "string option list \<Rightarrow> ('w, blacklist_hit option) act"
  sv_recordHit :: "string \<Rightarrow> hit_record \<Rightarrow> ('w, unit) act"
  sv_isGroupBlacklisted :: "string \<Rightarrow> ('w, bool) act"
  sv_reengagementEnabled :: "('w, bool) act"
  sv_aiReplyEnabled :: "('w, bool) act"
  sv_configuredBots :: "('w, bot_account list) act"
  sv_sendAlert :: "blacklist_alert \<Rightarrow> ('w, unit) act"

definition permit_services :: "'w services \<Rightarrow> 'w permit_ports" where
  "permit_services S = \<lparr>pp_getChatPause = sv_getChatPause S,
     pp_matchBlacklisted = (\<lambda>ids. act_bind (sv_matchBlacklisted S ids) (\<lambda>h. act_ret (h \<noteq> None))),
     pp_reengagementEnabled = sv_reengagementEnabled S, pp_aiReplyEnabled = sv_aiReplyEnabled S,
     pp_isGroupBlacklisted = sv_isGroupBlacklisted S, pp_configuredBots = sv_configuredBots S\<rparr>"

section \<open>Reasons and results\<close>

datatype filter_reason =
  SELF_MESSAGE | INVALID_SOURCE | NON_PERSONAL_WECHAT | USER_PAUSED | ACTION_NOT_PERMITTED
  | FR_GROUP_BLACKLISTED | FR_CANDIDATE_BLACKLISTED | ROOM_MESSAGE | UNSUPPORTED_MESSAGE_TYPE | EMPTY_CONTENT

fun reason_text :: "filter_reason \<Rightarrow> string" where
  "reason_text SELF_MESSAGE = ''self-message''"
| "reason_text INVALID_SOURCE = ''invalid-source''"
| "reason_text NON_PERSONAL_WECHAT = ''non-personal-wechat''"
| "reason_text USER_PAUSED = ''user-paused''"
| "reason_text ACTION_NOT_PERMITTED = ''action-not-permitted''"
| "reason_text FR_GROUP_BLACKLISTED = ''group-blacklisted''"
| "reason_text FR_CANDIDATE_BLACKLISTED = ''candidate-blacklisted''"
| "reason_text ROOM_MESSAGE = ''room-message''"
| "reason_text UNSUPPORTED_MESSAGE_TYPE = ''unsupported-message-type''"
| "reason_text EMPTY_CONTENT = ''empty-content''"

definition HISTORY_ONLY_REASONS :: "filter_reason list" where
  "HISTORY_ONLY_REASONS = [USER_PAUSED, ACTION_NOT_PERMITTED, FR_CANDIDATE_BLACKLISTED, FR_GROUP_BLACKLISTED]"

definition isHistoryOnlyReason :: "filter_reason option \<Rightarrow> bool" where
  "isHistoryOnlyReason r \<longleftrightarrow> (case r of None \<Rightarrow> False | Some x \<Rightarrow> List.member HISTORY_ONLY_REASONS x)"

definition isHumanHandledHistoryReason :: "filter_reason option \<Rightarrow> bool" where
  "isHumanHandledHistoryReason r \<longleftrightarrow> isHistoryOnlyReason r \<and> r \<noteq> Some ACTION_NOT_PERMITTED"

record filter_result =
  fr_pass :: bool
  fr_reason :: "filter_reason option"
  fr_content :: "js_text option"
  fr_historyOnly :: bool

definition refused :: "filter_reason \<Rightarrow> filter_result" where
  "refused r = \<lparr>fr_pass = False, fr_reason = Some r, fr_content = None, fr_historyOnly = False\<rparr>"

definition history_only :: "callback \<Rightarrow> filter_reason \<Rightarrow> filter_result" where
  "history_only m r = \<lparr>fr_pass = True, fr_reason = Some r, fr_content = Some (extractContent m), fr_historyOnly = True\<rparr>"

section \<open>The rules\<close>

type_synonym ('w) filter_rule = "callback \<Rightarrow> ('w, filter_result option) act"

definition selfMessageRule :: "'w filter_rule" where
  "selfMessageRule m = act_ret (if cb_isSelf m \<noteq> Some True then None else Some (refused SELF_MESSAGE))"

definition sourceMessageRule :: "'w filter_rule" where
  "sourceMessageRule m = act_ret (if cb_source m = MS_MOBILE_PUSH then None else Some (refused INVALID_SOURCE))"

definition contactTypeRule :: "'w filter_rule" where
  "contactTypeRule m = act_ret (if cb_contactType m = CT_PERSONAL_WECHAT then None else Some (refused NON_PERSONAL_WECHAT))"

definition reply_permit_input :: "callback \<Rightarrow> permit_input" where
  "reply_permit_input m = \<lparr>in_chatId = cb_chatId m, in_action = REPLY, in_botImId = Some (cb_imBotId m),
     in_groupId = cb_groupId m, in_candidateIds = [cb_imContactId m, cb_externalUserId m]\<rparr>"

definition pausedUserRule :: "'x permit_world_scheme services \<Rightarrow> 'x permit_world_scheme filter_rule" where
  "pausedUserRule S m = act_bind (evaluate (permit_services S) (reply_permit_input m)) (\<lambda>permit.
     act_ret (case permit of
       Allowed \<Rightarrow> None
     | Denied reason _ \<Rightarrow>
         if reason = CANDIDATE_BLACKLISTED then None
         else Some (history_only m
           (if reason = GROUP_BLACKLISTED then FR_GROUP_BLACKLISTED
            else if reason = HOSTING_PAUSED then USER_PAUSED else ACTION_NOT_PERMITTED))))"

definition swallow :: "('w, 'a) act \<Rightarrow> ('w, unit) act" where
  "swallow m = act_catch (act_bind m (\<lambda>_. act_ret ())) (\<lambda>_. act_ret ())"

definition pauseHosting :: "'w services \<Rightarrow> callback \<Rightarrow> blacklist_hit \<Rightarrow> ('w, unit) act" where
  "pauseHosting S m hit = swallow (sv_pauseUser S (cb_chatId m)
     \<lparr>po_permanent = True, po_reason = Some ([0x5019, 0x9009, 0x4EBA, 0x9ED1, 0x540D, 0x5355, 0xFF1A] @ hit_reason hit), po_operator = None,
      po_source = Some ''candidate_blacklist''\<rparr>)"

definition recordBlacklistHit :: "'w services \<Rightarrow> callback \<Rightarrow> blacklist_hit \<Rightarrow> ('w, unit) act" where
  "recordBlacklistHit S m hit = swallow (sv_recordHit S (hit_target hit)
     \<lparr>hr_chatId = cb_chatId m, hr_botId = cb_imBotId m, hr_messageId = cb_messageId m, hr_contactName = cb_contactName m\<rparr>)"

definition sendBlacklistAlert :: "'w services \<Rightarrow> callback \<Rightarrow> blacklist_hit \<Rightarrow> ('w, unit) act" where
  "sendBlacklistAlert S m hit = swallow (sv_sendAlert S
     \<lparr>ba_summary = [0x5019, 0x9009, 0x4EBA, 0x9ED1, 0x540D, 0x5355, 0x547D, 0x4E2D, 0xFF1A, 0x5DF2, 0x53D6, 0x6D88, 0x8BE5, 0x4F1A, 0x8BDD, 0x6258, 0x7BA1, 0xFF08, 0x62C9, 0x9ED1, 0x7406, 0x7531, 0xFF1A] @ hit_reason hit @ [0xFF09],
      ba_chatId = cb_chatId m, ba_contactName = cb_contactName m, ba_targetId = hit_target hit,
      ba_operator = hit_operator hit, ba_imBotId = cb_imBotId m, ba_messageId = cb_messageId m,
      ba_dedupe = ''candidate-blacklist:'' @ cb_chatId m\<rparr>)"

definition enforceBlacklist :: "'w services \<Rightarrow> callback \<Rightarrow> blacklist_hit \<Rightarrow> ('w, unit) act" where
  "enforceBlacklist S m hit =
     act_bind (pauseHosting S m hit) (\<lambda>_. act_bind (recordBlacklistHit S m hit) (\<lambda>_. sendBlacklistAlert S m hit))"

definition candidateBlacklistRule :: "'w services \<Rightarrow> 'w filter_rule" where
  "candidateBlacklistRule S m =
     act_bind (sv_matchBlacklisted S [Some (cb_chatId m), cb_imContactId m, cb_externalUserId m]) (\<lambda>hit.
     case hit of
       None \<Rightarrow> act_ret None
     | Some h \<Rightarrow> act_bind (enforceBlacklist S m h) (\<lambda>_. act_ret (Some (history_only m FR_CANDIDATE_BLACKLISTED))))"

definition groupBlacklistRule :: "'w services \<Rightarrow> 'w filter_rule" where
  "groupBlacklistRule S m =
     (if \<not> given (cb_groupId m) then act_ret None
      else act_bind (sv_isGroupBlacklisted S (the (cb_groupId m))) (\<lambda>bad.
        act_ret (if bad then Some (history_only m FR_GROUP_BLACKLISTED) else None)))"

definition roomMessageRule :: "'w filter_rule" where
  "roomMessageRule m = act_ret (if \<not> given (cb_imRoomId m) then None else Some (refused ROOM_MESSAGE))"

definition supportedMessageTypes :: "message_type list" where
  "supportedMessageTypes = [MT_FILE, MT_TEXT, MT_LOCATION, MT_VOICE, MT_EMOTION, MT_IMAGE, MT_MINI_PROGRAM]"

definition supportedMessageTypeRule :: "'w filter_rule" where
  "supportedMessageTypeRule m =
     act_ret (if List.member supportedMessageTypes (cb_messageType m) then None else Some (refused UNSUPPORTED_MESSAGE_TYPE))"

definition emptyContentRule :: "'w filter_rule" where
  "emptyContentRule m = act_ret (if \<not> js_blank (extractContent m) then None else Some (refused EMPTY_CONTENT))"

section \<open>MessageFilterService\<close>

definition filter_rules :: "'x permit_world_scheme services \<Rightarrow> 'x permit_world_scheme filter_rule list" where
  "filter_rules S = [selfMessageRule, sourceMessageRule, contactTypeRule, pausedUserRule S, candidateBlacklistRule S,
     groupBlacklistRule S, roomMessageRule, supportedMessageTypeRule, emptyContentRule]"

fun first_result :: "'w filter_rule list \<Rightarrow> callback \<Rightarrow> ('w, filter_result) act" where
  "first_result [] m = act_ret \<lparr>fr_pass = True, fr_reason = None, fr_content = Some (extractContent m), fr_historyOnly = False\<rparr>"
| "first_result (r # rs) m = act_bind (r m) (\<lambda>result.
     case result of Some x \<Rightarrow> act_ret x | None \<Rightarrow> first_result rs m)"

definition validate :: "'x permit_world_scheme services \<Rightarrow> callback \<Rightarrow> ('x permit_world_scheme, filter_result) act" where
  "validate S m = first_result (filter_rules S) m"

definition checkMentioned :: "callback \<Rightarrow> string list option \<Rightarrow> string \<Rightarrow> bool" where
  "checkMentioned m mention botWxid =
     (if \<not> isTextPayload (cb_messageType m) (cb_payload m) then False
      else (case mention of None \<Rightarrow> False | Some ids \<Rightarrow> List.member ids botWxid \<or> List.member ids ''@all''))"

section \<open>Lemmas\<close>

lemma swallow_total [total_intro]: "never_rejects (swallow m)"
  by (simp add: swallow_def total_catch total_ret)

lemma enforceBlacklist_total: "never_rejects (enforceBlacklist S m h)"
  by (simp add: enforceBlacklist_def pauseHosting_def recordBlacklistHit_def sendBlacklistAlert_def total_intro)

lemmas rule_defs = selfMessageRule_def sourceMessageRule_def contactTypeRule_def pausedUserRule_def
  candidateBlacklistRule_def groupBlacklistRule_def roomMessageRule_def supportedMessageTypeRule_def emptyContentRule_def

text \<open>The result is that of a rule, or the pass at the end.\<close>

lemma first_result_from:
  "first_result rs m w = (Inr x, w') \<Longrightarrow> fr_reason x = None \<and> fr_pass x \<and> \<not> fr_historyOnly x \<or>
     (\<exists>r w1 w2. r \<in> set rs \<and> r m w1 = (Inr (Some x), w2))"
proof (induction rs arbitrary: w)
  case (Cons r rs)
  obtain y w1 where y: "r m w = (Inr y, w1)" "(case y of None \<Rightarrow> first_result rs m | Some x \<Rightarrow> act_ret x) w1 = (Inr x, w')"
    using Cons.prems by (auto elim!: act_bind_InrE split: option.splits)
  show ?case
  proof (cases y)
    case None
    then have "first_result rs m w1 = (Inr x, w')" using y(2) by simp
    then show ?thesis using Cons.IH [of w1] by (meson list.set_intros(2))
  next
    case (Some z)
    then show ?thesis using y by (auto intro!: exI [of _ r])
  qed
qed auto

lemma filter_rule_answers:
  assumes "r \<in> set (filter_rules S)" "r m w = (Inr (Some x), w')"
  shows "if fr_historyOnly x then fr_pass x \<and> isHistoryOnlyReason (fr_reason x) \<and> fr_content x = Some (extractContent m)
    else \<not> fr_pass x"
  using assms(1) unfolding filter_rules_def list.set insert_iff empty_iff
proof (elim disjE)
  assume "r = pausedUserRule S"
  then show ?thesis
    using assms(2) by (auto simp: pausedUserRule_def history_only_def isHistoryOnlyReason_def HISTORY_ONLY_REASONS_def
        elim!: act_bind_InrE split: permit.splits if_splits)
next
  assume "r = candidateBlacklistRule S"
  then show ?thesis
    using assms(2) by (auto simp: candidateBlacklistRule_def history_only_def isHistoryOnlyReason_def HISTORY_ONLY_REASONS_def
        elim!: act_bind_InrE split: option.splits)
next
  assume "r = groupBlacklistRule S"
  then show ?thesis
    using assms(2) by (auto simp: groupBlacklistRule_def history_only_def isHistoryOnlyReason_def HISTORY_ONLY_REASONS_def
        elim!: act_bind_InrE split: if_splits)
qed (use assms(2) in \<open>auto simp: rule_defs(1,2,3,7,8,9) refused_def split: if_splits\<close>)

lemma history_only_reasons:
  assumes "validate S m w = (Inr r, w')" "fr_historyOnly r"
  shows "fr_pass r \<and> isHistoryOnlyReason (fr_reason r) \<and> fr_content r = Some (extractContent m)"
  using first_result_from [OF assms(1) [unfolded validate_def]] filter_rule_answers assms(2) by fastforce

text \<open>A message that goes on to be answered passed every rule: it is not the account's own, a person
  sent it from a phone in a private chat, the permit allows the reply or refuses it only for the
  blacklist, nobody in the chat is blacklisted, its group is not, its kind is supported and its text,
  which is the answer, is not blank.\<close>

lemma answered_message_passed_every_rule:
  assumes "validate S m w = (Inr r, w')" "fr_pass r" "\<not> fr_historyOnly r"
  shows "cb_isSelf m \<noteq> Some True \<and> cb_source m = MS_MOBILE_PUSH \<and> cb_contactType m = CT_PERSONAL_WECHAT \<and>
    \<not> given (cb_imRoomId m) \<and> cb_messageType m \<in> set supportedMessageTypes \<and>
    fr_content r = Some (extractContent m) \<and> \<not> js_blank (extractContent m) \<and>
    (\<exists>p w1 w2. evaluate (permit_services S) (reply_permit_input m) w = (Inr p, w1) \<and>
      (p = Allowed \<or> (\<exists>e. p = Denied CANDIDATE_BLACKLISTED e)) \<and>
      sv_matchBlacklisted S [Some (cb_chatId m), cb_imContactId m, cb_externalUserId m] w1 = (Inr None, w2) \<and>
      (if given (cb_groupId m) then sv_isGroupBlacklisted S (the (cb_groupId m)) w2 = (Inr False, w') else w' = w2))"
  using assms unfolding validate_def filter_rules_def
  by (auto simp: rule_defs refused_def history_only_def
      elim!: act_bind_InrE split: if_splits option.splits permit.splits)

lemma blacklist_measures_never_stop_it:
  assumes "sv_matchBlacklisted S [Some (cb_chatId m), cb_imContactId m, cb_externalUserId m] w = (Inr (Some h), w1)"
  shows "\<exists>w2. candidateBlacklistRule S m w = (Inr (Some (history_only m FR_CANDIDATE_BLACKLISTED)), w2)"
proof -
  obtain u w2 where "enforceBlacklist S m h w1 = (Inr u, w2)" using never_rejectsE [OF enforceBlacklist_total] .
  then show ?thesis using assms by (simp add: candidateBlacklistRule_def act_bind_def)
qed

end
