(* ===== verification/MessageIntake.thy ===== *)
theory MessageIntake
  imports MessageFilter RedisLease
begin

text \<open>
  \<open>src/channels/wecom/message/application/accept-inbound-message.service.ts\<close> with
  \<open>runtime/deduplication.service.ts\<close>: what happens to a message before it may be answered.  It is
  filtered, claimed by its id in Redis, recorded, and dispatched or not.

  The claim is the model of the Redis service (theory \<open>RedisLease\<close>); the filter is the theory
  \<open>MessageFilter\<close>; the chat history, the observability, the session memory, the funnel events and
  the hand-off notice are actions on the world.  What the source starts without awaiting it
  (\<open>void ...\<close>) is put into a list of tasks and runs later, by \<open>run_task\<close>; \<open>normalize('NFKC')\<close> is a
  function of the record.  Log lines are left out.
\<close>

section \<open>The world\<close>

datatype intake_task =
  Store_history callback "js_text option"
| Candidate_events callback string string bool
| Describe_image string js_text message_type

record 's intake_world = permit_world +
  iw_redis :: "'s redis_world"
  iw_tasks :: "intake_task list"

definition on_redis :: "('s redis_world, 'a) act \<Rightarrow> (('s, 'x) intake_world_scheme, 'a) act" where
  "on_redis m w = (case m (iw_redis w) of (r, rw) \<Rightarrow> (r, w\<lparr>iw_redis := rw\<rparr>))"

definition start_task :: "intake_task \<Rightarrow> (('s, 'x) intake_world_scheme, unit) act" where
  "start_task t w = (Inr (), w\<lparr>iw_tasks := iw_tasks w @ [t]\<rparr>)"

datatype role = User | Assistant

record chat_message =
  cm_chatId :: string
  cm_messageId :: string
  cm_role :: role
  cm_content :: js_text
  cm_timestamp :: int
  cm_candidateName :: "string option"
  cm_managerName :: "string option"
  cm_messageType :: message_type
  cm_source :: message_source
  cm_isRoom :: bool
  cm_imBotId :: string
  cm_imContactId :: "string option"
  cm_contactType :: contact_type
  cm_isSelf :: "bool option"
  cm_payload :: message_payload
  cm_request :: "(string \<times> string) option"
  cm_avatar :: "string option"
  cm_externalUserId :: "string option"
  cm_historyOnlyReason :: "filter_reason option"

record history_line =
  hl_role :: role
  hl_content :: js_text
  hl_candidateName :: "string option"

record handoff_notice =
  hn_reason :: js_text
  hn_chatId :: string
  hn_contactName :: "string option"
  hn_botUserName :: "string option"
  hn_current :: js_text
  hn_recent :: "history_line list"

record friend_added =
  fa_corpId :: string
  fa_idempotencyKey :: string
  fa_botImId :: string
  fa_userId :: string
  fa_chatId :: string

record 'w intake_ports =
  ip_services :: "'w services"
  ip_saveMessage :: "chat_message \<Rightarrow> ('w, bool) act"
  ip_getChatHistory :: "string \<Rightarrow> nat \<Rightarrow> ('w, history_line list) act"
  ip_getChatSessionMessages :: "string \<Rightarrow> ('w, history_line list option) act"
  ip_notify :: "handoff_notice \<Rightarrow> ('w, unit) act"
  ip_hasTrace :: "string \<Rightarrow> ('w, bool) act"
  ip_startRequestTrace :: "string \<Rightarrow> js_text \<Rightarrow> ('w, unit) act"
  ip_markHistoryStored :: "string \<Rightarrow> ('w, unit) act"
  ip_resolveArtworkUrl :: "callback \<Rightarrow> js_text \<Rightarrow> ('w, js_text) act"
  ip_describeAndUpdate :: "string \<Rightarrow> js_text \<Rightarrow> message_type \<Rightarrow> ('w, unit) act"
  ip_recordCandidateActivity :: "string \<Rightarrow> string \<Rightarrow> string \<Rightarrow> rat \<Rightarrow> ('w, unit) act"
  ip_queueCandidateActivity :: "string \<Rightarrow> string \<Rightarrow> string \<Rightarrow> rat \<Rightarrow> ('w, unit) act"
  ip_recordCandidateMessage :: "callback \<Rightarrow> string \<Rightarrow> string \<Rightarrow> ('w, bool) act"
  ip_recordFriendAdded :: "friend_added \<Rightarrow> ('w, unit) act"
  ip_normalize :: "js_text \<Rightarrow> js_text"

section \<open>MessageDeduplicationService\<close>

record 's dedup_service =
  ds_redis :: "'s redis_service"
  ds_ttlSeconds :: int

definition dedup_key :: "string \<Rightarrow> string" where
  "dedup_key messageId = ''wecom:message:dedup:'' @ messageId"

definition markMessageAsProcessedAsync :: "'s dedup_service \<Rightarrow> string \<Rightarrow> (('s, 'x) intake_world_scheme, bool) act" where
  "markMessageAsProcessedAsync D messageId =
     on_redis (\<lambda>rw. redis_setNx (ds_redis D) (dedup_key messageId) (show_int (time_ms rw)) (ds_ttlSeconds D) rw)"

section \<open>History\<close>

definition resolveStoredTimestamp :: "int option \<Rightarrow> int \<Rightarrow> int" where
  "resolveStoredTimestamp timestamp now = (case timestamp of None \<Rightarrow> now | Some t \<Rightarrow> if 0 < t then t else now)"

definition or_string :: "string option \<Rightarrow> string option \<Rightarrow> string option" where
  "or_string a b = (if given a then a else b)"

definition user_message :: "callback \<Rightarrow> js_text \<Rightarrow> filter_reason option \<Rightarrow> int \<Rightarrow> chat_message" where
  "user_message m content reason now =
     \<lparr>cm_chatId = cb_chatId m, cm_messageId = cb_messageId m, cm_role = User, cm_content = content,
      cm_timestamp = resolveStoredTimestamp (pm_timestamp (parse m)) now,
      cm_candidateName = or_string (cb_contactName m) (pm_contactName (parse m)), cm_managerName = cb_botUserId m,
      cm_messageType = cb_messageType m, cm_source = cb_source m, cm_isRoom = given (cb_imRoomId m),
      cm_imBotId = cb_imBotId m, cm_imContactId = cb_imContactId m, cm_contactType = cb_contactType m,
      cm_isSelf = cb_isSelf m, cm_payload = cb_payload m, cm_request = None, cm_avatar = cb_avatar m,
      cm_externalUserId = cb_externalUserId m, cm_historyOnlyReason = reason\<rparr>"

definition recordUserMessageToHistory :: "('s, 'x) intake_world_scheme intake_ports \<Rightarrow> callback \<Rightarrow> js_text option
    \<Rightarrow> filter_reason option \<Rightarrow> (('s, 'x) intake_world_scheme, bool) act" where
  "recordUserMessageToHistory P m contentFromFilter historyOnlyReason w =
     (let content = (case contentFromFilter of Some c \<Rightarrow> c | None \<Rightarrow> pm_content (parse m)) in
      if js_blank content then (Inr False, w)
      else ip_saveMessage P (user_message m content historyOnlyReason (permit_clock w)) w)"

definition recordFilteredInboundMessageToHistory :: "('s, 'x) intake_world_scheme intake_ports \<Rightarrow> callback
    \<Rightarrow> filter_result \<Rightarrow> (('s, 'x) intake_world_scheme, unit) act" where
  "recordFilteredInboundMessageToHistory P m r =
     (if fr_reason r \<noteq> Some INVALID_SOURCE then act_ret ()
      else if pm_isRoom (parse m) then act_ret ()
      else (let content = (case fr_content r of Some c \<Rightarrow> c | None \<Rightarrow> pm_content (parse m)) in
        if js_blank content then act_ret ()
        else swallow (recordUserMessageToHistory P m (Some content) None)))"

definition getCandidateNameFromHistory :: "('s, 'x) intake_world_scheme intake_ports \<Rightarrow> string
    \<Rightarrow> (('s, 'x) intake_world_scheme, string option) act" where
  "getCandidateNameFromHistory P chatId = act_catch
     (act_bind (ip_getChatSessionMessages P chatId) (\<lambda>detail. act_ret (case detail of
        None \<Rightarrow> None
      | Some messages \<Rightarrow>
          (case List.find (\<lambda>l. hl_role l = User \<and> given (hl_candidateName l)) messages of
             None \<Rightarrow> None | Some l \<Rightarrow> hl_candidateName l))))
     (\<lambda>_. act_ret None)"

section \<open>Pictures\<close>

text \<open>The original of a picture is looked up, and written into the payload where it differs.\<close>

definition enrichImagePayload :: "('s, 'x) intake_world_scheme intake_ports \<Rightarrow> callback
    \<Rightarrow> (('s, 'x) intake_world_scheme, callback) act" where
  "enrichImagePayload P m = (case extractImageUrl m of
     None \<Rightarrow> act_ret m
   | Some imgUrl \<Rightarrow> act_bind (ip_resolveArtworkUrl P m imgUrl) (\<lambda>artworkUrl.
       act_ret (if artworkUrl \<noteq> imgUrl then m\<lparr>cb_payload := (cb_payload m)\<lparr>pl_artworkUrl := Some artworkUrl\<rparr>\<rparr> else m)))"

definition triggerSelfMessageVisionIfNeeded :: "callback \<Rightarrow> (('s, 'x) intake_world_scheme, unit) act" where
  "triggerSelfMessageVisionIfNeeded m = (case extractImageUrl m of
     None \<Rightarrow> act_ret ()
   | Some imgUrl \<Rightarrow> (case extractVisualMessageType m of
       None \<Rightarrow> act_ret ()
     | Some visualKind \<Rightarrow>
         start_task (Describe_image (cb_messageId m) (or_text (pl_artworkUrl (cb_payload m)) imgUrl) visualKind)))"

section \<open>A person takes over\<close>

definition HUMAN_INTERVENTION_SOURCES :: "message_source list" where
  "HUMAN_INTERVENTION_SOURCES = [MS_MOBILE_PUSH, MS_AGGREGATED_CHAT_MANUAL]"

definition HUMAN_INTERVENTION_TRIGGER_TEXT :: js_text where
  "HUMAN_INTERVENTION_TRIGGER_TEXT = [0x7E]"

definition HUMAN_INTERVENTION_TRIGGER_ALIASES :: "js_text list" where
  "HUMAN_INTERVENTION_TRIGGER_ALIASES = [[0x7E], [0xFF5E], [0x301C], [0x223C], [0x2DC]]"

definition extractDirectTextContent :: "callback \<Rightarrow> js_text" where
  "extractDirectTextContent m = (if isTextPayload (cb_messageType m) (cb_payload m)
     then (case pl_pureText (cb_payload m) of Some t \<Rightarrow> t | None \<Rightarrow> the (pl_text (cb_payload m)))
     else extractContent m)"

definition normalizeHumanInterventionTriggerText :: "(js_text \<Rightarrow> js_text) \<Rightarrow> callback \<Rightarrow> js_text" where
  "normalizeHumanInterventionTriggerText nfkc m = (let t = nfkc (js_trim (extractDirectTextContent m)) in
     if List.member HUMAN_INTERVENTION_TRIGGER_ALIASES t then HUMAN_INTERVENTION_TRIGGER_TEXT else t)"

definition isHumanInterventionMessage :: "(js_text \<Rightarrow> js_text) \<Rightarrow> callback \<Rightarrow> bool" where
  "isHumanInterventionMessage nfkc m =
     (if cb_isSelf m \<noteq> Some True then False
      else if given (cb_imRoomId m) then False
      else if cb_messageType m \<noteq> MT_TEXT then False
      else if \<not> List.member HUMAN_INTERVENTION_SOURCES (cb_source m) then False
      else normalizeHumanInterventionTriggerText nfkc m = HUMAN_INTERVENTION_TRIGGER_TEXT)"

text \<open>Only the two sources of \<open>HUMAN_INTERVENTION_SOURCES\<close> reach this phrase.\<close>

definition humanInterventionSourcePhrase :: "message_source \<Rightarrow> js_text" where
  "humanInterventionSourcePhrase s = (if s = MS_MOBILE_PUSH then [0x624B, 0x673A] else [0x805A, 0x5408, 0x804A, 0x5929])"

definition sendHumanInterventionHandoffAlert :: "('s, 'x) intake_world_scheme intake_ports \<Rightarrow> callback \<Rightarrow> string
    \<Rightarrow> (('s, 'x) intake_world_scheme, unit) act" where
  "sendHumanInterventionHandoffAlert P m chatId = swallow
     (act_bind (act_catch (ip_getChatHistory P chatId 10) (\<lambda>_. act_ret [])) (\<lambda>recentMessages.
      act_bind (getCandidateNameFromHistory P chatId) (\<lambda>candidateName.
      ip_notify P \<lparr>hn_reason = [0x68C0, 0x6D4B, 0x5230, 0x771F, 0x4EBA, 0x901A, 0x8FC7] @ humanInterventionSourcePhrase (cb_source m)
          @ [0x624B, 0x52A8, 0x53D1, 0x9001, 0x6D88, 0x606F, 0xFF0C, 0x7CFB, 0x7EDF, 0x5DF2, 0x81EA, 0x52A8, 0x6682, 0x505C, 0x8BE5, 0x5019, 0x9009, 0x4EBA, 0x6258, 0x7BA1],
        hn_chatId = chatId, hn_contactName = candidateName, hn_botUserName = cb_botUserId m,
        hn_current = extractContent m, hn_recent = recentMessages\<rparr>)))"

definition intervention_pause :: pause_options where
  "intervention_pause = \<lparr>po_permanent = False, po_reason = Some [0x68C0, 0x6D4B, 0x5230, 0x771F, 0x4EBA, 0x4ECB, 0x5165, 0x804A, 0x5929, 0x81EA, 0x52A8, 0x6682, 0x505C], po_operator = None,
     po_source = Some ''human_intervention''\<rparr>"

definition pauseHostingForHumanInterventionIfNeeded :: "('s, 'x) intake_world_scheme intake_ports \<Rightarrow> callback \<Rightarrow> string
    \<Rightarrow> (('s, 'x) intake_world_scheme, unit) act" where
  "pauseHostingForHumanInterventionIfNeeded P m chatId = (let S = ip_services P in
     if \<not> isHumanInterventionMessage (ip_normalize P) m \<or> chatId = [] then act_ret ()
     else act_bind (if given (cb_groupId m) then sv_isGroupBlacklisted S (the (cb_groupId m)) else act_ret False) (\<lambda>unhosted.
       if unhosted then act_ret ()
       else act_catch
         (act_bind (sv_isAnyPaused S [Some chatId, cb_imContactId m, cb_externalUserId m]) (\<lambda>hit.
          if hit \<noteq> None then act_ret ()
          else act_bind (sv_pauseUser S chatId intervention_pause) (\<lambda>_. sendHumanInterventionHandoffAlert P m chatId)))
         (\<lambda>_. act_ret ())))"

section \<open>The account's own messages\<close>

definition nonblank :: "js_text option \<Rightarrow> bool" where
  "nonblank s \<longleftrightarrow> (case s of None \<Rightarrow> False | Some t \<Rightarrow> js_trim t \<noteq> [])"

definition buildSelfRoomInviteContent :: "callback \<Rightarrow> js_text" where
  "buildSelfRoomInviteContent m = (let p = cb_payload m in
     if cb_messageType m \<noteq> MT_ROOM_INVITE then []
     else (case List.find nonblank [pl_roomName p, pl_groupName p, pl_title p, pl_name p] of
       Some (Some groupName) \<Rightarrow> [0x5B, 0x5165, 0x7FA4, 0x9080, 0x8BF7, 0x5D, 0x20, 0x9080, 0x8BF7, 0x4F60, 0x52A0, 0x5165] @ [0x22] @ js_trim groupName @ [0x22]
     | _ \<Rightarrow> [0x5B, 0x5165, 0x7FA4, 0x9080, 0x8BF7, 0x5D, 0x20, 0x5DF2, 0x53D1, 0x9001, 0x5165, 0x7FA4, 0x9080, 0x8BF7, 0x5361, 0x7247]))"

definition assistant_message :: "callback \<Rightarrow> js_text \<Rightarrow> string option \<Rightarrow> int \<Rightarrow> chat_message" where
  "assistant_message m content candidateName now =
     \<lparr>cm_chatId = cb_chatId m, cm_messageId = cb_messageId m, cm_role = Assistant, cm_content = content,
      cm_timestamp = resolveStoredTimestamp (pm_timestamp (parse m)) now, cm_candidateName = candidateName,
      cm_managerName = cb_botUserId m, cm_messageType = cb_messageType m, cm_source = cb_source m,
      cm_isRoom = given (cb_imRoomId m), cm_imBotId = cb_imBotId m, cm_imContactId = cb_imContactId m,
      cm_contactType = cb_contactType m, cm_isSelf = cb_isSelf m, cm_payload = cb_payload m,
      cm_request = (if given (cb_externalRequestId m) then Some (the (cb_externalRequestId m), cb_messageId m) else None),
      cm_avatar = cb_avatar m, cm_externalUserId = cb_externalUserId m, cm_historyOnlyReason = None\<rparr>"

definition handleSelfMessage :: "('s, 'x) intake_world_scheme intake_ports \<Rightarrow> callback
    \<Rightarrow> (('s, 'x) intake_world_scheme, unit) act" where
  "handleSelfMessage P m = (let chatId = pm_chatId (parse m) in
     act_bind (pauseHostingForHumanInterventionIfNeeded P m chatId) (\<lambda>_.
     let content = (if pm_content (parse m) \<noteq> [] then pm_content (parse m) else buildSelfRoomInviteContent m) in
     if js_blank content then act_ret ()
     else act_bind (enrichImagePayload P m) (\<lambda>m'.
       act_bind (getCandidateNameFromHistory P chatId) (\<lambda>candidateName.
       act_bind (\<lambda>w. ip_saveMessage P (assistant_message m' content candidateName (permit_clock w)) w) (\<lambda>_.
       triggerSelfMessageVisionIfNeeded m')))))"

section \<open>Candidate activity and funnel events\<close>

definition resolveLongTermUserId :: "callback \<Rightarrow> string option" where
  "resolveLongTermUserId m = (if given (cb_imContactId m) then cb_imContactId m
     else if given (cb_externalUserId m) then cb_externalUserId m
     else if cb_chatId m \<noteq> [] then Some (cb_chatId m) else None)"

definition corp_of :: "callback \<Rightarrow> string" where
  "corp_of m = (if cb_orgId m \<noteq> [] then cb_orgId m else ''default'')"

definition recordLastCandidateMessageAt :: "('s, 'x) intake_world_scheme intake_ports \<Rightarrow> callback
    \<Rightarrow> (('s, 'x) intake_world_scheme, unit) act" where
  "recordLastCandidateMessageAt P m =
     (if given (cb_imRoomId m) then act_ret ()
      else (case (resolveLongTermUserId m, mt_Number (cb_timestamp m)) of
        (Some userId, Some timestamp) \<Rightarrow>
          act_catch (ip_recordCandidateActivity P (corp_of m) userId (cb_chatId m) timestamp)
            (\<lambda>_. ip_queueCandidateActivity P (corp_of m) userId (cb_chatId m) timestamp)
      | _ \<Rightarrow> act_ret ()))"

definition recordFriendAddedOnFirstContact :: "('s, 'x) intake_world_scheme intake_ports \<Rightarrow> callback \<Rightarrow> string \<Rightarrow> string
    \<Rightarrow> (('s, 'x) intake_world_scheme, unit) act" where
  "recordFriendAddedOnFirstContact P m corpId userId = ip_recordFriendAdded P
     \<lparr>fa_corpId = corpId, fa_idempotencyKey = userId @ '':friend_added'', fa_botImId = cb_imBotId m,
      fa_userId = userId, fa_chatId = cb_chatId m\<rparr>"

definition recordInboundCandidateEvents :: "callback \<Rightarrow> js_text option \<Rightarrow> (('s, 'x) intake_world_scheme, unit) act" where
  "recordInboundCandidateEvents m content =
     (if given (cb_imRoomId m) then act_ret ()
      else (case resolveLongTermUserId m of
        None \<Rightarrow> act_ret ()
      | Some userId \<Rightarrow> start_task (Candidate_events m (corp_of m) userId (isPureFriendAddGreeting content))))"

section \<open>execute\<close>

text \<open>The answer, with the callback whose payload may have been completed on the way.\<close>

record accept_result =
  ar_shouldDispatch :: bool
  ar_message :: string
  ar_content :: "js_text option"
  ar_callback :: callback

definition not_dispatched :: "callback \<Rightarrow> string \<Rightarrow> accept_result" where
  "not_dispatched m msg = \<lparr>ar_shouldDispatch = False, ar_message = msg, ar_content = None, ar_callback = m\<rparr>"

definition prepareForDispatch :: "('s, 'x) intake_world_scheme intake_ports \<Rightarrow> 's dedup_service \<Rightarrow> callback
    \<Rightarrow> filter_result \<Rightarrow> (('s, 'x) intake_world_scheme, accept_result) act" where
  "prepareForDispatch P D m r =
     (if fr_historyOnly r
      then act_bind (recordUserMessageToHistory P m (fr_content r)
                       (if isHistoryOnlyReason (fr_reason r) then fr_reason r else None)) (\<lambda>_.
           act_bind (markMessageAsProcessedAsync D (cb_messageId m)) (\<lambda>_.
           act_ret (not_dispatched m ''Message recorded to history only'')))
      else (let requestContent = (case fr_content r of Some c \<Rightarrow> c | None \<Rightarrow> pm_content (parse m)) in
        act_bind (ip_hasTrace P (cb_messageId m)) (\<lambda>traced.
        act_bind (if traced then act_ret () else ip_startRequestTrace P (cb_messageId m) requestContent) (\<lambda>_.
        act_bind (enrichImagePayload P m) (\<lambda>m'.
        act_bind (start_task (Store_history m' (fr_content r))) (\<lambda>_.
        act_ret \<lparr>ar_shouldDispatch = True, ar_message = ''Message received'', ar_content = fr_content r, ar_callback = m'\<rparr>))))))"

definition execute :: "('s, 'x) intake_world_scheme intake_ports \<Rightarrow> 's dedup_service \<Rightarrow> callback
    \<Rightarrow> (('s, 'x) intake_world_scheme, accept_result) act" where
  "execute P D m =
     (if cb_isSelf m = Some True
      then act_bind (handleSelfMessage P m) (\<lambda>_.
           act_bind (markMessageAsProcessedAsync D (cb_messageId m)) (\<lambda>_.
           act_ret (not_dispatched m ''Self message stored'')))
      else act_bind (validate (ip_services P) m) (\<lambda>r.
        if \<not> fr_pass r
        then act_bind (recordFilteredInboundMessageToHistory P m r) (\<lambda>_.
             act_ret (not_dispatched m ((case fr_reason r of Some x \<Rightarrow> reason_text x | None \<Rightarrow> ''undefined'') @ '' ignored'')))
        else act_bind (markMessageAsProcessedAsync D (cb_messageId m)) (\<lambda>claimed.
          if \<not> claimed then act_ret (not_dispatched m ''Duplicate message ignored'')
          else act_bind (recordLastCandidateMessageAt P m) (\<lambda>_.
               act_bind (recordInboundCandidateEvents m (fr_content r)) (\<lambda>_.
               prepareForDispatch P D m r)))))"

section \<open>What runs later\<close>

fun run_task :: "('s, 'x) intake_world_scheme intake_ports \<Rightarrow> intake_task \<Rightarrow> (('s, 'x) intake_world_scheme, unit) act" where
  "run_task P (Store_history m content) = swallow
     (act_bind (recordUserMessageToHistory P m content None) (\<lambda>_. ip_markHistoryStored P (cb_messageId m)))"
| "run_task P (Candidate_events m corpId userId isGreeting) = swallow
     (if isGreeting then recordFriendAddedOnFirstContact P m corpId userId
      else act_bind (ip_recordCandidateMessage P m corpId userId) (\<lambda>engaged.
        if engaged then recordFriendAddedOnFirstContact P m corpId userId else act_ret ()))"
| "run_task P (Describe_image messageId url visualKind) = swallow (ip_describeAndUpdate P messageId url visualKind)"

section \<open>Lemmas\<close>

lemma on_redis_Inr: "on_redis m w = (Inr v, w') \<longleftrightarrow> (\<exists>rw. m (iw_redis w) = (Inr v, rw) \<and> w' = w\<lparr>iw_redis := rw\<rparr>)"
  by (auto simp: on_redis_def split: prod.splits)

text \<open>What the actions of the intake do not touch.  The Redis world belongs to the claims.\<close>

definition calm_services :: "('w \<Rightarrow> 'v) \<Rightarrow> 'w services \<Rightarrow> bool" where
  "calm_services f S \<longleftrightarrow> (\<forall>x. keeps f (sv_getChatPause S x)) \<and> (\<forall>x. keeps f (sv_isAnyPaused S x)) \<and>
     (\<forall>x y. keeps f (sv_pauseUser S x y)) \<and> (\<forall>x. keeps f (sv_matchBlacklisted S x)) \<and>
     (\<forall>x y. keeps f (sv_recordHit S x y)) \<and> (\<forall>x. keeps f (sv_isGroupBlacklisted S x)) \<and>
     keeps f (sv_reengagementEnabled S) \<and> keeps f (sv_aiReplyEnabled S) \<and> keeps f (sv_configuredBots S) \<and>
     (\<forall>x. keeps f (sv_sendAlert S x))"

definition calm_intake :: "('w \<Rightarrow> 'v) \<Rightarrow> 'w intake_ports \<Rightarrow> bool" where
  "calm_intake f P \<longleftrightarrow> calm_services f (ip_services P) \<and> (\<forall>x. keeps f (ip_saveMessage P x)) \<and>
     (\<forall>x y. keeps f (ip_getChatHistory P x y)) \<and> (\<forall>x. keeps f (ip_getChatSessionMessages P x)) \<and>
     (\<forall>x. keeps f (ip_notify P x)) \<and> (\<forall>x. keeps f (ip_hasTrace P x)) \<and>
     (\<forall>x y. keeps f (ip_startRequestTrace P x y)) \<and> (\<forall>x. keeps f (ip_markHistoryStored P x)) \<and>
     (\<forall>x y. keeps f (ip_resolveArtworkUrl P x y)) \<and> (\<forall>x y z. keeps f (ip_describeAndUpdate P x y z)) \<and>
     (\<forall>x y z t. keeps f (ip_recordCandidateActivity P x y z t)) \<and>
     (\<forall>x y z t. keeps f (ip_queueCandidateActivity P x y z t)) \<and>
     (\<forall>x y z. keeps f (ip_recordCandidateMessage P x y z)) \<and> (\<forall>x. keeps f (ip_recordFriendAdded P x))"

lemma keeps_swallow [keeps_intro]: "keeps f m \<Longrightarrow> keeps f (swallow m)"
  unfolding swallow_def by (intro keeps_intro)

lemma quiet_permit: "calm_services iw_redis S \<Longrightarrow> keeps iw_redis (evaluate (permit_services S) i)"
  for S :: "('s, 'x) intake_world_scheme services"
proof -
  assume S: "calm_services iw_redis S"
  have b: "iw_redis (snd (sv_configuredBots S w)) = iw_redis w" for w
    using S by (simp add: calm_services_def keeps_def)
  have st: "iw_redis (snd (roster_settled r w)) = iw_redis w" for r and w :: "('s, 'x) intake_world_scheme"
    by (simp add: roster_settled_def store_roster_def split: sum.split)
  have rost: "keeps iw_redis (getRoster (permit_services S))"
    using b by (simp add: getRoster_def permit_services_def Let_def keeps_def st split: option.split prod.split) (metis snd_conv)
  show ?thesis
    unfolding evaluate_def evaluate_body_def
    by (intro keeps_intro rost) (use S in \<open>auto simp: permit_services_def calm_services_def intro!: keeps_intro split: option.splits\<close>)
qed

lemma quiet_validate: "calm_services iw_redis S \<Longrightarrow> keeps iw_redis (validate S m)"
  for S :: "('s, 'x) intake_world_scheme services"
  unfolding validate_def filter_rules_def first_result.simps rule_defs enforceBlacklist_def pauseHosting_def
    recordBlacklistHit_def sendBlacklistAlert_def
  by (intro keeps_intro quiet_permit) (auto simp: calm_services_def)

lemma quiet_start [keeps_intro]: "keeps iw_redis (start_task t)"
  by (simp add: keeps_def start_task_def)

lemma start_task_run: "start_task t w = (Inr (), w\<lparr>iw_tasks := iw_tasks w @ [t]\<rparr>)"
  by (simp add: start_task_def)

lemma prepare_dispatches:
  assumes "prepareForDispatch P D m r w = (Inr a, w')" "ar_shouldDispatch a"
  shows "\<not> fr_historyOnly r \<and> ar_content a = fr_content r \<and> (\<exists>m'. last (iw_tasks w') = Store_history m' (fr_content r))"
  using assms by (auto simp: prepareForDispatch_def not_dispatched_def Let_def start_task_run elim!: act_bind_InrE split: if_splits)

lemma execute_after_filter:
  assumes "cb_isSelf m \<noteq> Some True" "validate (ip_services P) m w = (Inr r, w1)" "fr_pass r"
  shows "execute P D m w = act_bind (markMessageAsProcessedAsync D (cb_messageId m)) (\<lambda>claimed.
      if \<not> claimed then act_ret (not_dispatched m ''Duplicate message ignored'')
      else act_bind (recordLastCandidateMessageAt P m) (\<lambda>_.
           act_bind (recordInboundCandidateEvents m (fr_content r)) (\<lambda>_. prepareForDispatch P D m r))) w1"
  using assms by (simp add: execute_def act_bind_def)

section \<open>Properties\<close>

text \<open>C39: a message that is dispatched is not the account's own, came from a person's phone in a private
  chat, passed every filter with a text that is not blank, and its id was free and is now claimed; the
  writing of its history has been started.\<close>

theorem dispatched_message_was_filtered_and_claimed:
  assumes "execute P D m w = (Inr a, w')" "ar_shouldDispatch a"
  shows "cb_isSelf m \<noteq> Some True \<and> cb_source m = MS_MOBILE_PUSH \<and> cb_contactType m = CT_PERSONAL_WECHAT \<and>
    \<not> given (cb_imRoomId m) \<and> cb_messageType m \<in> set supportedMessageTypes \<and>
    ar_content a = Some (extractContent m) \<and> \<not> js_blank (extractContent m) \<and>
    (\<exists>p w0 w1 w2 w3. evaluate (permit_services (ip_services P)) (reply_permit_input m) w = (Inr p, w0) \<and>
      (p = Allowed \<or> (\<exists>e. p = Denied CANDIDATE_BLACKLISTED e)) \<and>
      sv_matchBlacklisted (ip_services P) [Some (cb_chatId m), cb_imContactId m, cb_externalUserId m] w0 = (Inr None, w1) \<and>
      (if given (cb_groupId m) then sv_isGroupBlacklisted (ip_services P) (the (cb_groupId m)) w1 = (Inr False, w2) else w2 = w1) \<and>
      markMessageAsProcessedAsync D (cb_messageId m) w2 = (Inr True, w3)) \<and>
    (\<exists>m'. last (iw_tasks w') = Store_history m' (Some (extractContent m)))"
proof -
  have "cb_isSelf m \<noteq> Some True"
    using assms by (auto simp: execute_def not_dispatched_def elim!: act_bind_InrE)
  then obtain r w2 w3 w5 where v: "validate (ip_services P) m w = (Inr r, w2)" and pass: "fr_pass r"
    and c: "markMessageAsProcessedAsync D (cb_messageId m) w2 = (Inr True, w3)"
    and prep: "prepareForDispatch P D m r w5 = (Inr a, w')"
    using assms by (auto simp: execute_def not_dispatched_def elim!: act_bind_InrE split: if_splits)
  have d: "\<not> fr_historyOnly r" "ar_content a = fr_content r" "\<exists>m'. last (iw_tasks w') = Store_history m' (fr_content r)"
    using prepare_dispatches [OF prep assms(2)] by blast+
  have f: "fr_content r = Some (extractContent m)" using answered_message_passed_every_rule [OF v pass d(1)] by blast
  show ?thesis
    using answered_message_passed_every_rule [OF v pass d(1)] d(2,3) c unfolding f by blast
qed

text \<open>A message that is kept for a person only is never dispatched; if its id was free, it is saved
  once, as the candidate's, with the reason, which is one of the four that stand for a person's task.\<close>

theorem history_only_message_keeps_its_reason:
  assumes "cb_isSelf m \<noteq> Some True" "validate (ip_services P) m w = (Inr r, w1)" "fr_historyOnly r"
    and "execute P D m w = (Inr a, w')" "\<not> js_blank (extractContent m)"
  shows "\<not> ar_shouldDispatch a \<and> fr_reason r \<in> Some ` set HISTORY_ONLY_REASONS \<and>
    (ar_message a = ''Duplicate message ignored'' \<or>
     (\<exists>w2 saved w3. ip_saveMessage P (user_message m (extractContent m) (fr_reason r) (permit_clock w2)) w2 = (Inr saved, w3)))"
proof -
  have h: "fr_pass r" "isHistoryOnlyReason (fr_reason r)" "fr_content r = Some (extractContent m)"
    using history_only_reasons [OF assms(2,3)] by blast+
  have reason: "fr_reason r \<in> Some ` set HISTORY_ONLY_REASONS"
    using h(2) by (auto simp: isHistoryOnlyReason_def split: option.splits)
  show ?thesis
    using assms(3,4,5) h reason unfolding execute_after_filter [OF assms(1,2) h(1)]
    by (auto simp: prepareForDispatch_def recordUserMessageToHistory_def not_dispatched_def Let_def
        elim!: act_bind_InrE split: if_splits)
qed

text \<open>Exactly one text takes a chat over from the agent: the account's own message typed in a private
  chat whose text, trimmed and normalised, is one of the five tildes.\<close>

theorem takeover_needs_the_tilde:
  "isHumanInterventionMessage nfkc m \<longleftrightarrow>
     cb_isSelf m = Some True \<and> \<not> given (cb_imRoomId m) \<and> cb_messageType m = MT_TEXT \<and>
     (cb_source m = MS_MOBILE_PUSH \<or> cb_source m = MS_AGGREGATED_CHAT_MANUAL) \<and>
     nfkc (js_trim (extractDirectTextContent m)) \<in> {[0x7E], [0xFF5E], [0x301C], [0x223C], [0x2DC]}"
  by (auto simp: isHumanInterventionMessage_def normalizeHumanInterventionTriggerText_def HUMAN_INTERVENTION_SOURCES_def
      HUMAN_INTERVENTION_TRIGGER_TEXT_def HUMAN_INTERVENTION_TRIGGER_ALIASES_def Let_def)

text \<open>The last of them can never be read: its compatibility form is a space and a combining tilde.\<close>

theorem small_tilde_is_never_read:
  assumes "nfkc [0x2DC] = [0x20, 0x303]" "js_trim (extractDirectTextContent m) = [0x2DC]"
  shows "\<not> isHumanInterventionMessage nfkc m"
  using assms
  by (simp add: isHumanInterventionMessage_def normalizeHumanInterventionTriggerText_def
      HUMAN_INTERVENTION_TRIGGER_TEXT_def HUMAN_INTERVENTION_TRIGGER_ALIASES_def)

section \<open>A concrete intake\<close>

definition demo_account :: bot_account where
  "demo_account = \<lparr>bot_wxid = Some ''wxbot'', bot_id = None, bot_weixin = None, bot_wecomUserId = None, bot_groupId = None\<rparr>"

definition demo_services :: "bool \<Rightarrow> 'w services" where
  "demo_services paused = \<lparr>sv_getChatPause = (\<lambda>_. act_ret (paused, None)), sv_isAnyPaused = (\<lambda>_. act_ret None),
     sv_pauseUser = (\<lambda>_ _. act_ret True), sv_matchBlacklisted = (\<lambda>_. act_ret None), sv_recordHit = (\<lambda>_ _. act_ret ()),
     sv_isGroupBlacklisted = (\<lambda>_. act_ret False), sv_reengagementEnabled = act_ret True, sv_aiReplyEnabled = act_ret True,
     sv_configuredBots = act_ret [demo_account], sv_sendAlert = (\<lambda>_. act_ret ())\<rparr>"

definition demo_intake :: "bool \<Rightarrow> bool \<Rightarrow> 'w intake_ports" where
  "demo_intake paused memory_up = \<lparr>ip_services = demo_services paused, ip_saveMessage = (\<lambda>_. act_ret True),
     ip_getChatHistory = (\<lambda>_ _. act_ret []), ip_getChatSessionMessages = (\<lambda>_. act_ret None), ip_notify = (\<lambda>_. act_ret ()),
     ip_hasTrace = (\<lambda>_. act_ret False), ip_startRequestTrace = (\<lambda>_ _. act_ret ()), ip_markHistoryStored = (\<lambda>_. act_ret ()),
     ip_resolveArtworkUrl = (\<lambda>_ u. act_ret u), ip_describeAndUpdate = (\<lambda>_ _ _. act_ret ()),
     ip_recordCandidateActivity = (\<lambda>_ _ _ _. if memory_up then act_ret () else act_throw ''session store''),
     ip_queueCandidateActivity = (\<lambda>_ _ _ _. if memory_up then act_ret () else act_throw ''command queue''),
     ip_recordCandidateMessage = (\<lambda>_ _ _. act_ret True), ip_recordFriendAdded = (\<lambda>_. act_ret ()), ip_normalize = id\<rparr>"

definition demo_intake_world :: "(string \<Rightarrow> string option) intake_world" where
  "demo_intake_world = \<lparr>permit_clock = 0, roster = None, roster_request = None, roster_answers = [],
     iw_redis = \<lparr>server = (\<lambda>_. None), time_ms = 0, network = [], reports = [], next_uuid = 0\<rparr>, iw_tasks = []\<rparr>"

definition demo_dedup :: "(string \<Rightarrow> string option) dedup_service" where
  "demo_dedup = \<lparr>ds_redis = \<lparr>rs_cmds = map_commands, rs_prefix = ''dev:''\<rparr>, ds_ttlSeconds = 300\<rparr>"

lemma demo_callback_text: "cb_isSelf demo_callback \<noteq> Some True" "\<not> js_blank (extractContent demo_callback)"
  by code_simp+

lemma demo_execute:
  "ar_shouldDispatch (projr (fst (execute (demo_intake False True) demo_dedup demo_callback demo_intake_world)))"
  "\<not> Sum_Type.isl (fst (execute (demo_intake False True) demo_dedup demo_callback demo_intake_world))"
  by code_simp+

lemma demo_paused:
  "fr_historyOnly (projr (fst (validate (ip_services (demo_intake True True)) demo_callback demo_intake_world)))"
  "\<not> Sum_Type.isl (fst (validate (ip_services (demo_intake True True)) demo_callback demo_intake_world))"
  "\<not> Sum_Type.isl (fst (execute (demo_intake True True) demo_dedup demo_callback demo_intake_world))"
  by code_simp+

theorem dispatched_message_was_filtered_and_claimed_witness:
  "ar_content (projr (fst (execute (demo_intake False True) demo_dedup demo_callback demo_intake_world))) =
     Some (extractContent demo_callback)"
  using dispatched_message_was_filtered_and_claimed [of "demo_intake False True" demo_dedup demo_callback demo_intake_world
      "projr (fst (execute (demo_intake False True) demo_dedup demo_callback demo_intake_world))"
      "snd (execute (demo_intake False True) demo_dedup demo_callback demo_intake_world)"] demo_execute
  by (metis prod.collapse sum.collapse(2))

theorem history_only_message_keeps_its_reason_witness:
  "\<not> ar_shouldDispatch (projr (fst (execute (demo_intake True True) demo_dedup demo_callback demo_intake_world)))"
  using history_only_message_keeps_its_reason [of demo_callback "demo_intake True True" demo_intake_world
      "projr (fst (validate (ip_services (demo_intake True True)) demo_callback demo_intake_world))"
      "snd (validate (ip_services (demo_intake True True)) demo_callback demo_intake_world)" demo_dedup
      "projr (fst (execute (demo_intake True True) demo_dedup demo_callback demo_intake_world))"
      "snd (execute (demo_intake True True) demo_dedup demo_callback demo_intake_world)"] demo_paused
  by (metis (no_types, lifting) demo_callback_text prod.collapse sum.collapse(2))

end
