(* ===== verification/IntakeOnce.thy ===== *)
theory IntakeOnce
  imports MessageIntake
begin

text \<open>
  A message is dispatched at most once, however often the platform delivers it and in whatever order
  its callbacks and the tasks they started run.  The interface is the locale \<open>claim_once\<close>: an
  operation that claims an id, a view of which ids are taken, and what the claims promise; the client
  lemmas speak of any handler that claims before it wins.  The deduplication service on documented
  Redis commands gives the interface, as long as no mark expires or is removed during the run.
\<close>

section \<open>The interface\<close>

locale claim_once =
  fixes claim :: "string \<Rightarrow> 'w \<Rightarrow> (exn + bool) \<times> 'w"
    and taken :: "string \<Rightarrow> 'w \<Rightarrow> bool"
    and lasting :: "'w \<Rightarrow> bool"
  assumes claim_lasting: "lasting w \<Longrightarrow> claim i w = (r, w') \<Longrightarrow> lasting w'"
    and claim_keeps: "lasting w \<Longrightarrow> taken j w \<Longrightarrow> claim i w = (r, w') \<Longrightarrow> taken j w'"
    and claim_takes: "lasting w \<Longrightarrow> claim i w = (Inr True, w') \<Longrightarrow> taken i w'"
    and claim_refuses: "lasting w \<Longrightarrow> taken i w \<Longrightarrow> claim i w = (r, w') \<Longrightarrow> r \<noteq> Inr True"
begin

text \<open>An action that keeps all marks, and one that moreover takes \<open>i\<close>, free before, when it wins.\<close>

definition neutral :: "('w \<Rightarrow> (exn + 'a) \<times> 'w) \<Rightarrow> bool" where
  "neutral m \<longleftrightarrow> (\<forall>w r w'. lasting w \<longrightarrow> m w = (r, w') \<longrightarrow> lasting w' \<and> (\<forall>j. taken j w \<longrightarrow> taken j w'))"

definition guarded :: "string \<Rightarrow> ('a \<Rightarrow> bool) \<Rightarrow> ('w \<Rightarrow> (exn + 'a) \<times> 'w) \<Rightarrow> bool" where
  "guarded i wins m \<longleftrightarrow> neutral m \<and>
     (\<forall>w a w'. lasting w \<longrightarrow> m w = (Inr a, w') \<longrightarrow> wins a \<longrightarrow> \<not> taken i w \<and> taken i w')"

lemma neutralD: "neutral m \<Longrightarrow> lasting w \<Longrightarrow> m w = (r, w') \<Longrightarrow> lasting w' \<and> (taken j w \<longrightarrow> taken j w')"
  unfolding neutral_def by blast

lemma guardedD: "guarded i wins m \<Longrightarrow> lasting w \<Longrightarrow> m w = (Inr a, w') \<Longrightarrow> wins a \<Longrightarrow> \<not> taken i w \<and> taken i w'"
  unfolding guarded_def by blast

lemma neutral_claim: "neutral (claim i)"
  unfolding neutral_def using claim_lasting claim_keeps by blast

lemma neutral_ret: "neutral (act_ret v)"
  by (simp add: neutral_def)

lemma neutral_bind: "neutral m \<Longrightarrow> (\<And>v. neutral (k v)) \<Longrightarrow> neutral (act_bind m k)"
proof -
  assume m: "neutral m" and k: "\<And>v. neutral (k v)"
  show ?thesis unfolding neutral_def
  proof (intro allI impI)
    fix w r w' assume w: "lasting w" "act_bind m k w = (r, w')"
    obtain x w1 where x: "m w = (x, w1)" by fastforce
    have w1: "lasting w1" "\<forall>j. taken j w \<longrightarrow> taken j w1" using neutralD [OF m w(1) x] by blast+
    show "lasting w' \<and> (\<forall>j. taken j w \<longrightarrow> taken j w')"
    proof (cases x)
      case (Inl e) then show ?thesis using w x w1 by (simp add: act_bind_def)
    next
      case (Inr v)
      then have "k v w1 = (r, w')" using w x by (simp add: act_bind_def)
      then show ?thesis using neutralD [OF k w1(1)] w1(2) by blast
    qed
  qed
qed

lemma guarded_neutral: "neutral m \<Longrightarrow> (\<And>w a w'. m w = (Inr a, w') \<Longrightarrow> \<not> wins a) \<Longrightarrow> guarded i wins m"
  unfolding guarded_def by blast

lemma guarded_after: "neutral m \<Longrightarrow> (\<And>v. guarded i wins (k v)) \<Longrightarrow> guarded i wins (act_bind m k)"
proof -
  assume m: "neutral m" and k: "\<And>v. guarded i wins (k v)"
  have "neutral (act_bind m k)" using m k by (intro neutral_bind) (simp_all add: guarded_def)
  moreover have "\<not> taken i w \<and> taken i w'" if w: "lasting w" "act_bind m k w = (Inr a, w')" "wins a" for w a w'
  proof -
    obtain v w1 where "m w = (Inr v, w1)" "k v w1 = (Inr a, w')" using w(2) by (rule act_bind_InrE)
    then show ?thesis using neutralD [OF m w(1)] guardedD [OF k] w(3) by blast
  qed
  ultimately show ?thesis by (simp add: guarded_def)
qed

lemma guarded_if: "(b \<Longrightarrow> guarded i wins m) \<Longrightarrow> (\<not> b \<Longrightarrow> guarded i wins n) \<Longrightarrow> guarded i wins (if b then m else n)"
  by (cases b) simp_all

lemma guarded_claim:
  assumes "neutral lose" "\<And>w a w'. lose w = (Inr a, w') \<Longrightarrow> \<not> wins a" "neutral win"
  shows "guarded i wins (act_bind (claim i) (\<lambda>claimed. if \<not> claimed then lose else win))"
proof -
  let ?m = "act_bind (claim i) (\<lambda>claimed. if \<not> claimed then lose else win)"
  have "neutral ?m" by (intro neutral_bind neutral_claim) (simp add: assms)
  moreover have "\<not> taken i w \<and> taken i w'" if w: "lasting w" "?m w = (Inr a, w')" "wins a" for w a w'
  proof -
    obtain v w1 where v: "claim i w = (Inr v, w1)" "(if \<not> v then lose else win) w1 = (Inr a, w')"
      using w(2) by (rule act_bind_InrE)
    then have "v" using assms(2) w(3) by (cases v) auto
    then show ?thesis
      using v claim_takes [OF w(1), of i w1] claim_refuses [OF w(1), of i] claim_lasting [OF w(1), of i]
        neutralD [OF assms(3), of w1 _ w' i] by (cases v) auto
  qed
  ultimately show ?thesis by (simp add: guarded_def)
qed

end

section \<open>Runs of the intake\<close>

datatype intake_event = Arrive callback | Later nat

definition later :: "('s, 'x) intake_world_scheme intake_ports \<Rightarrow> nat \<Rightarrow> (('s, 'x) intake_world_scheme, unit) act" where
  "later P k w = (if k < length (iw_tasks w)
     then run_task P (iw_tasks w ! k) (w\<lparr>iw_tasks := take k (iw_tasks w) @ drop (k + 1) (iw_tasks w)\<rparr>) else (Inr (), w))"

fun run_all :: "('e \<Rightarrow> 'w \<Rightarrow> 'r \<times> 'w) \<Rightarrow> 'e list \<Rightarrow> 'w \<Rightarrow> 'r list \<times> 'w" where
  "run_all f [] w = ([], w)"
| "run_all f (e # es) w = (case f e w of (r, w1) \<Rightarrow> case run_all f es w1 of (rs, w2) \<Rightarrow> (r # rs, w2))"

definition intake_step :: "('s, 'x) intake_world_scheme intake_ports \<Rightarrow> 's dedup_service \<Rightarrow> intake_event
    \<Rightarrow> ('s, 'x) intake_world_scheme \<Rightarrow> (callback \<times> (exn + accept_result)) option \<times> ('s, 'x) intake_world_scheme" where
  "intake_step P D e w = (case e of
     Arrive m \<Rightarrow> (case execute P D m w of (r, w1) \<Rightarrow> (Some (m, r), w1))
   | Later k \<Rightarrow> (None, snd (later P k w)))"

fun dispatched :: "exn + accept_result \<Rightarrow> bool" where
  "dispatched (Inl e) = False"
| "dispatched (Inr a) = ar_shouldDispatch a"

definition dispatches :: "string \<Rightarrow> (callback \<times> (exn + accept_result)) option \<Rightarrow> bool" where
  "dispatches i x = (case x of None \<Rightarrow> False | Some (m, r) \<Rightarrow> cb_messageId m = i \<and> dispatched r)"

context claim_once
begin

text \<open>At most one of the results wins an id, and none if it was taken at the start.\<close>

lemma run_wins_once:
  fixes step :: "'e \<Rightarrow> 'w \<Rightarrow> 'r \<times> 'w"
  assumes step: "\<And>e w r w'. lasting w \<Longrightarrow> step e w = (r, w') \<Longrightarrow>
      lasting w' \<and> (taken i w \<longrightarrow> taken i w') \<and> (wins r \<longrightarrow> \<not> taken i w \<and> taken i w')"
    and "lasting w"
  shows "length (filter wins (fst (run_all step es w))) \<le> (if taken i w then 0 else 1)"
  using assms(2)
proof (induction es arbitrary: w)
  case (Cons e es)
  obtain r w1 where r: "step e w = (r, w1)" by fastforce
  note s = step [OF Cons.prems r]
  then have "length (filter wins (fst (run_all step es w1))) \<le> (if taken i w1 then 0 else 1)" using Cons.IH by blast
  then show ?case using r s by (auto split: prod.split if_splits)
qed simp

end

section \<open>Redis keeps the claims\<close>

definition mark :: "'s dedup_service \<Rightarrow> string \<Rightarrow> ('s, 'x) intake_world_scheme \<Rightarrow> string option" where
  "mark D i w = cmd_get (rs_cmds (ds_redis D)) (withPrefix (ds_redis D) (dedup_key i)) (server (iw_redis w))"

definition is_marked :: "'s dedup_service \<Rightarrow> string \<Rightarrow> ('s, 'x) intake_world_scheme \<Rightarrow> bool" where
  "is_marked D i w \<longleftrightarrow> mark D i w \<noteq> None"

text \<open>What other clients and expiry do between two commands removes no mark.\<close>

definition marks_last :: "'s dedup_service \<Rightarrow> ('s, 'x) intake_world_scheme \<Rightarrow> bool" where
  "marks_last D w \<longleftrightarrow> list_all (\<lambda>e. \<forall>i s.
     cmd_get (rs_cmds (ds_redis D)) (withPrefix (ds_redis D) (dedup_key i)) s \<noteq> None \<longrightarrow>
     cmd_get (rs_cmds (ds_redis D)) (withPrefix (ds_redis D) (dedup_key i)) (ne_others e s) \<noteq> None) (network (iw_redis w))"

lemma claim_step:
  assumes "markMessageAsProcessedAsync D i w = (r, w')"
  obtains s1 v ok s where
    "s1 = server (iw_redis w) \<or> (\<exists>e\<in>set (network (iw_redis w)). s1 = ne_others e (server (iw_redis w)))"
    "cmd_set_nx_ex (rs_cmds (ds_redis D)) (withPrefix (ds_redis D) (dedup_key i)) v (ds_ttlSeconds D) s1 = (ok, s)"
    "server (iw_redis w') = s1 \<or> server (iw_redis w') = s" "r = Inr True \<Longrightarrow> ok \<and> server (iw_redis w') = s"
    "set (network (iw_redis w')) \<subseteq> set (network (iw_redis w))"
proof -
  let ?k = "withPrefix (ds_redis D) (dedup_key i)" let ?v = "show_int (time_ms (iw_redis w))"
  obtain ft rw1 where na: "net_arrive (iw_redis w) = (ft, rw1)" by fastforce
  obtain ok s where nx: "cmd_set_nx_ex (rs_cmds (ds_redis D)) ?k ?v (ds_ttlSeconds D) (server rw1) = (ok, s)" by fastforce
  have "server rw1 = server (iw_redis w) \<or> (\<exists>e\<in>set (network (iw_redis w)). server rw1 = ne_others e (server (iw_redis w)))"
    and net: "network rw1 = tl (network (iw_redis w))"
    using na by (auto simp: net_arrive_def net_calm_def Let_def split: list.splits)
  moreover have "set (tl xs) \<subseteq> set xs" for xs :: "'a net_event list" by (cases xs) auto
  moreover have "(r, w') = (case ft of
      Delivered \<Rightarrow> (Inr ok, w\<lparr>iw_redis := rw1\<lparr>server := s\<rparr>\<rparr>)
    | Request_lost \<Rightarrow> (Inl ''redis request failed'', w\<lparr>iw_redis := rw1\<rparr>)
    | Answer_lost \<Rightarrow> (Inl ''redis request failed'', w\<lparr>iw_redis := rw1\<lparr>server := s\<rparr>\<rparr>))"
    using assms na nx
    by (simp add: markMessageAsProcessedAsync_def on_redis_def redis_setNx_def redis_call_def split: net_fault.splits)
  ultimately show ?thesis using nx that [of "server rw1" ?v ok s] by (cases ft) auto
qed

lemma dedup_claims:
  assumes C: "redis_documented (rs_cmds (ds_redis D))" and t: "0 < ds_ttlSeconds D"
  shows "claim_once (markMessageAsProcessedAsync D) (is_marked D) (marks_last D)"
proof -
  have kept: "marks_last D w' \<and> (is_marked D j w \<longrightarrow> is_marked D j w') \<and>
      (r = Inr True \<longrightarrow> \<not> is_marked D i w \<and> is_marked D i w')"
    if w: "marks_last D w" and m: "markMessageAsProcessedAsync D i w = (r, w')" for w w' i j r
  proof -
    let ?get = "\<lambda>k. cmd_get (rs_cmds (ds_redis D)) (withPrefix (ds_redis D) (dedup_key k))"
    obtain s1 v ok s where s1: "s1 = server (iw_redis w) \<or> (\<exists>e\<in>set (network (iw_redis w)). s1 = ne_others e (server (iw_redis w)))"
      and s: "cmd_set_nx_ex (rs_cmds (ds_redis D)) (withPrefix (ds_redis D) (dedup_key i)) v (ds_ttlSeconds D) s1 = (ok, s)"
      and w': "server (iw_redis w') = s1 \<or> server (iw_redis w') = s"
      and r: "r = Inr True \<Longrightarrow> ok \<and> server (iw_redis w') = s"
      and net: "set (network (iw_redis w')) \<subseteq> set (network (iw_redis w))"
      using claim_step [OF m] by blast
    note nx = redis_documented.set_nx [OF C s] and get = redis_documented.set_nx_get [OF C s t]
    have old: "?get k s1 \<noteq> None" if "is_marked D k w" for k
      using s1 that w by (auto simp: is_marked_def mark_def marks_last_def list_all_iff)
    have new: "?get k s \<noteq> None" if "?get k s1 \<noteq> None" for k
      using get [of "withPrefix (ds_redis D) (dedup_key k)"] that by (simp split: if_splits)
    have "marks_last D w'" using w net by (auto simp: marks_last_def list_all_iff)
    moreover have "is_marked D j w \<longrightarrow> is_marked D j w'"
      using old [of j] new [of j] w' by (auto simp: is_marked_def mark_def)
    moreover have "\<not> is_marked D i w \<and> is_marked D i w'" if "r = Inr True"
    proof
      show "\<not> is_marked D i w" using r [OF that] nx old [of i] by blast
      show "is_marked D i w'"
        using r [OF that] get [of "withPrefix (ds_redis D) (dedup_key i)"] by (simp add: is_marked_def mark_def)
    qed
    ultimately show ?thesis by blast
  qed
  show ?thesis by unfold_locales (use kept in blast)+
qed

text \<open>The interface on the map of Redis values.\<close>

definition map_dedup :: "string \<Rightarrow> (string \<Rightarrow> string option) dedup_service" where
  "map_dedup p = \<lparr>ds_redis = \<lparr>rs_cmds = map_commands, rs_prefix = p\<rparr>, ds_ttlSeconds = 300\<rparr>"

interpretation map_claims: claim_once "markMessageAsProcessedAsync (map_dedup p)" "is_marked (map_dedup p)" "marks_last (map_dedup p)"
  by (rule dedup_claims) (simp_all add: map_dedup_def map_redis.redis_documented_axioms)

section \<open>The intake claims before it dispatches\<close>

lemma keeps_neutral:
  fixes c :: "string \<Rightarrow> ('s, 'x) intake_world_scheme \<Rightarrow> (exn + bool) \<times> ('s, 'x) intake_world_scheme"
    and m :: "(('s, 'x) intake_world_scheme, 'a) act"
  assumes "claim_once c (is_marked D) (marks_last D)" "keeps iw_redis m"
  shows "claim_once.neutral (is_marked D) (marks_last D) m"
  unfolding claim_once.neutral_def [OF assms(1)]
  using keepsD [OF assms(2)] by (fastforce simp: is_marked_def mark_def marks_last_def)

lemma quiet_record:
  fixes P :: "('s, 'x) intake_world_scheme intake_ports"
  assumes "calm_intake iw_redis P"
  shows "keeps iw_redis (recordUserMessageToHistory P m c reason)"
    and "keeps iw_redis (recordFilteredInboundMessageToHistory P m r)"
    and "keeps iw_redis (recordLastCandidateMessageAt P m)"
    and "keeps iw_redis (enrichImagePayload P m)"
    and "keeps iw_redis (getCandidateNameFromHistory P i)"
proof -
  show user: "keeps iw_redis (recordUserMessageToHistory P m c reason)" for m c reason
    using assms by (auto simp: recordUserMessageToHistory_def calm_intake_def keeps_def Let_def)
  show "keeps iw_redis (recordFilteredInboundMessageToHistory P m r)"
    unfolding recordFilteredInboundMessageToHistory_def Let_def by (intro keeps_intro user)
  show "keeps iw_redis (recordLastCandidateMessageAt P m)"
    unfolding recordLastCandidateMessageAt_def
    by (intro keeps_intro) (use assms in \<open>auto simp: calm_intake_def intro!: keeps_intro split: option.splits\<close>)
  show "keeps iw_redis (enrichImagePayload P m)"
    unfolding enrichImagePayload_def by (intro keeps_intro) (use assms in \<open>simp_all add: calm_intake_def\<close>)
  show "keeps iw_redis (getCandidateNameFromHistory P i)"
    unfolding getCandidateNameFromHistory_def by (intro keeps_intro) (use assms in \<open>simp_all add: calm_intake_def\<close>)
qed

lemma quiet_events: "keeps iw_redis (recordInboundCandidateEvents m c)"
  unfolding recordInboundCandidateEvents_def by (intro keeps_intro)

lemma quiet_self:
  fixes P :: "('s, 'x) intake_world_scheme intake_ports"
  assumes "calm_intake iw_redis P"
  shows "keeps iw_redis (handleSelfMessage P m)"
proof -
  have save: "keeps iw_redis (\<lambda>w. ip_saveMessage P (g w) w)" for g
    using assms by (simp add: calm_intake_def keeps_def)
  have alert: "keeps iw_redis (sendHumanInterventionHandoffAlert P m i)" for i
    unfolding sendHumanInterventionHandoffAlert_def
    by (intro keeps_intro quiet_record(5) [OF assms]) (use assms in \<open>simp_all add: calm_intake_def\<close>)
  have pause: "keeps iw_redis (pauseHostingForHumanInterventionIfNeeded P m i)" for i
    unfolding pauseHostingForHumanInterventionIfNeeded_def Let_def
    by (intro keeps_intro alert) (use assms in \<open>simp_all add: calm_intake_def calm_services_def\<close>)
  show ?thesis
    unfolding handleSelfMessage_def triggerSelfMessageVisionIfNeeded_def Let_def
    by (intro keeps_intro pause quiet_record(4,5) [OF assms] save)
qed

lemma quiet_task:
  fixes P :: "('s, 'x) intake_world_scheme intake_ports"
  assumes "calm_intake iw_redis P"
  shows "keeps iw_redis (run_task P t)"
  by (cases t; simp only: run_task.simps recordFriendAddedOnFirstContact_def; intro keeps_intro quiet_record(1) [OF assms])
    (use assms in \<open>simp_all add: calm_intake_def\<close>)

lemma quiet_later:
  fixes P :: "('s, 'x) intake_world_scheme intake_ports"
  assumes "calm_intake iw_redis P"
  shows "keeps iw_redis (later P k)"
  using quiet_task [OF assms] by (auto simp: later_def keeps_def)

lemma execute_guarded:
  fixes P :: "('s, 'x) intake_world_scheme intake_ports"
  assumes C: "claim_once (markMessageAsProcessedAsync D :: string \<Rightarrow> ('s, 'x) intake_world_scheme \<Rightarrow> _) (is_marked D) (marks_last D)"
    and q: "calm_intake iw_redis P"
  shows "claim_once.guarded (is_marked D) (marks_last D) (cb_messageId m) ar_shouldDispatch (execute P D m)"
proof -
  note n = keeps_neutral [OF C] and claim = claim_once.neutral_claim [OF C] and bind = claim_once.neutral_bind [OF C]
    and ret = claim_once.neutral_ret [OF C] and after = claim_once.guarded_after [OF C] and plain = claim_once.guarded_neutral [OF C]
  have rec: "claim_once.neutral (is_marked D) (marks_last D) (prepareForDispatch P D m r)" for r
    unfolding prepareForDispatch_def Let_def
    by (simp split: if_splits, intro conjI impI bind claim ret n keeps_intro quiet_record [OF q])
      (use q in \<open>simp_all add: calm_intake_def\<close>)
  have v: "claim_once.neutral (is_marked D) (marks_last D) (validate (ip_services P) m)"
    by (intro n quiet_validate) (use q in \<open>simp add: calm_intake_def\<close>)
  have self: "claim_once.guarded (is_marked D) (marks_last D) (cb_messageId m) ar_shouldDispatch
      (act_bind (handleSelfMessage P m) (\<lambda>_. act_bind (markMessageAsProcessedAsync D (cb_messageId m)) (\<lambda>_.
         act_ret (not_dispatched m s))))" for s
    by (rule plain, intro bind claim ret n [OF quiet_self [OF q]]) (auto elim!: act_bind_InrE simp: not_dispatched_def)
  have drop: "claim_once.guarded (is_marked D) (marks_last D) (cb_messageId m) ar_shouldDispatch
      (act_bind (recordFilteredInboundMessageToHistory P m r) (\<lambda>_. act_ret (not_dispatched m s)))" for r s
    by (rule plain, intro bind ret n [OF quiet_record(2) [OF q]]) (auto elim!: act_bind_InrE simp: not_dispatched_def)
  have claimed: "claim_once.guarded (is_marked D) (marks_last D) (cb_messageId m) ar_shouldDispatch
      (act_bind (markMessageAsProcessedAsync D (cb_messageId m)) (\<lambda>claimed.
        if \<not> claimed then act_ret (not_dispatched m s)
        else act_bind (recordLastCandidateMessageAt P m) (\<lambda>_. act_bind (recordInboundCandidateEvents m c) (\<lambda>_.
             prepareForDispatch P D m r))))" for s c r
    by (rule claim_once.guarded_claim [OF C], rule ret, simp add: not_dispatched_def,
        intro bind rec n [OF quiet_record(3) [OF q]] n [OF quiet_events])
  show ?thesis
    unfolding execute_def by (intro claim_once.guarded_if [OF C] self after [OF v] drop claimed)
qed

lemma run_dispatches_bound:
  fixes P :: "('s, 'x) intake_world_scheme intake_ports"
  assumes "redis_documented (rs_cmds (ds_redis D))" "0 < ds_ttlSeconds D"
    and "calm_intake iw_redis P" "marks_last D w"
  shows "length (filter (dispatches i) (fst (run_all (intake_step P D) events w))) \<le> (if is_marked D i w then 0 else 1)"
proof -
  have C: "claim_once (markMessageAsProcessedAsync D :: string \<Rightarrow> ('s, 'x) intake_world_scheme \<Rightarrow> _) (is_marked D) (marks_last D)"
    by (rule dedup_claims [OF assms(1,2)])
  show ?thesis
  proof (rule claim_once.run_wins_once [OF C _ assms(4)])
    fix e r and w w' :: "('s, 'x) intake_world_scheme"
    assume w: "marks_last D w" "intake_step P D e w = (r, w')"
    show "marks_last D w' \<and> (is_marked D i w \<longrightarrow> is_marked D i w') \<and> (dispatches i r \<longrightarrow> \<not> is_marked D i w \<and> is_marked D i w')"
    proof (cases e)
      case (Arrive m)
      then obtain x where x: "execute P D m w = (x, w')" "r = Some (m, x)"
        using w(2) by (auto simp: intake_step_def split: prod.splits)
      note g = execute_guarded [OF C assms(3), of m]
      have neut: "claim_once.neutral (is_marked D) (marks_last D) (execute P D m)"
        using g by (simp add: claim_once.guarded_def [OF C])
      show ?thesis
        using claim_once.neutralD [OF C neut w(1) x(1)] claim_once.guardedD [OF C g w(1)] x
        by (cases x) (auto simp: dispatches_def)
    next
      case (Later k)
      then have l: "later P k w = (fst (later P k w), w')" and "r = None" using w(2) by (auto simp: intake_step_def)
      have "claim_once.neutral (is_marked D) (marks_last D) (later P k)"
        by (rule keeps_neutral [OF C quiet_later [OF assms(3)]])
      note neut = this
      show ?thesis
        using claim_once.neutralD [OF C neut w(1) l] \<open>r = None\<close> by (simp add: dispatches_def)
    qed
  qed
qed

section \<open>Properties\<close>

text \<open>C38: however often the platform delivers a message, and however its deliveries and the tasks they start
  are ordered, at most one of them is dispatched, as long as no mark expires or is removed meanwhile.\<close>

theorem message_dispatched_at_most_once:
  fixes P :: "('s, 'x) intake_world_scheme intake_ports"
  assumes "redis_documented (rs_cmds (ds_redis D))" "0 < ds_ttlSeconds D"
    and "calm_intake iw_redis P" "marks_last D w"
  shows "length (filter (dispatches i) (fst (run_all (intake_step P D) events w))) \<le> 1"
  using run_dispatches_bound [OF assms, of i events] by (auto split: if_splits)

text \<open>C40: a claimed message is not dispatched when neither the session store nor the command queue takes its
  time: the intake fails, the id stays claimed, and none of the deliveries that arrive while its mark
  lives is dispatched either.  The mark lives \<open>ds_ttlSeconds\<close>, 300 s by default; \<open>marks_last\<close> says that
  the run ends before any mark expires or is removed.  A delivery after that would be claimed anew.\<close>

theorem failed_activity_write_loses_the_message:
  fixes P :: "('s, 'x) intake_world_scheme intake_ports"
  assumes docs: "redis_documented (rs_cmds (ds_redis D))" "0 < ds_ttlSeconds D"
    and q: "calm_intake iw_redis P" and w: "marks_last D w"
    and m: "cb_isSelf m \<noteq> Some True" "validate (ip_services P) m w = (Inr r, w1)" "fr_pass r"
    and c: "markMessageAsProcessedAsync D (cb_messageId m) w1 = (Inr True, w2)"
    and f: "recordLastCandidateMessageAt P m w2 = (Inl e, w3)"
  shows "execute P D m w = (Inl e, w3) \<and>
    filter (dispatches (cb_messageId m)) (fst (run_all (intake_step P D) events w3)) = []"
proof -
  have C: "claim_once (markMessageAsProcessedAsync D :: string \<Rightarrow> ('s, 'x) intake_world_scheme \<Rightarrow> _) (is_marked D) (marks_last D)"
    by (rule dedup_claims [OF docs])
  have "iw_redis w1 = iw_redis w"
    using keepsD [OF quiet_validate m(2)] q by (simp add: calm_intake_def)
  then have "marks_last D w1" using w by (simp add: marks_last_def)
  then have "marks_last D w2" "is_marked D (cb_messageId m) w2"
    using claim_once.claim_lasting [OF C _ c] claim_once.claim_takes [OF C _ c] by blast+
  moreover have "iw_redis w3 = iw_redis w2" by (rule keepsD [OF quiet_record(3) [OF q] f])
  ultimately have "marks_last D w3" "is_marked D (cb_messageId m) w3"
    by (simp_all add: marks_last_def is_marked_def mark_def)
  then show ?thesis
    using run_dispatches_bound [OF docs q, of w3 "cb_messageId m" events] c f
    by (simp add: execute_after_filter [OF m] act_bind_def)
qed

lemma demo_intake_calm: "calm_intake f (demo_intake paused up)"
  by (auto simp: calm_intake_def calm_services_def demo_intake_def demo_services_def keeps_ret keeps_throw)

lemma demo_docs: "redis_documented (rs_cmds (ds_redis demo_dedup))" "0 < ds_ttlSeconds demo_dedup" "marks_last demo_dedup demo_intake_world"
  by (simp_all add: demo_dedup_def demo_intake_world_def marks_last_def map_redis.redis_documented_axioms)

definition demo_deliveries :: "intake_event list" where
  "demo_deliveries = [Arrive demo_callback, Arrive demo_callback, Later 0, Later 0, Arrive demo_callback]"

theorem message_dispatched_at_most_once_witness:
  "map (dispatches ''m1'') (fst (run_all (intake_step (demo_intake False True) demo_dedup) demo_deliveries demo_intake_world)) =
     [True, False, False, False, False] \<and>
   length (filter (dispatches ''m1'') (fst (run_all (intake_step (demo_intake False True) demo_dedup) demo_deliveries demo_intake_world))) \<le> 1"
  by (rule conjI, code_simp, rule message_dispatched_at_most_once [OF demo_docs(1,2) demo_intake_calm demo_docs(3)])

definition demo_claimed :: "(string \<Rightarrow> string option) intake_world" where
  "demo_claimed = snd (markMessageAsProcessedAsync demo_dedup ''m1'' (snd (validate (demo_services False) demo_callback demo_intake_world)))"

theorem failed_activity_write_loses_the_message_witness:
  "fst (execute (demo_intake False False) demo_dedup demo_callback demo_intake_world) = Inl ''command queue'' \<and>
   filter (dispatches ''m1'') (fst (run_all (intake_step (demo_intake False False) demo_dedup) demo_deliveries demo_claimed)) = []"
proof -
  let ?P = "demo_intake False False :: (string \<Rightarrow> string option) intake_world intake_ports"
  let ?v = "validate (ip_services ?P) demo_callback demo_intake_world"
  have srv: "ip_services ?P = demo_services False" by (simp add: demo_intake_def)
  have v: "?v = (Inr (projr (fst ?v)), snd ?v)" and pass: "fr_pass (projr (fst ?v))"
    and won: "fst (markMessageAsProcessedAsync demo_dedup ''m1'' (snd ?v)) = Inr True"
    by (simp_all add: prod_eq_iff) code_simp+
  have i: "cb_messageId demo_callback = ''m1''" by code_simp
  have c: "markMessageAsProcessedAsync demo_dedup (cb_messageId demo_callback) (snd ?v) = (Inr True, demo_claimed)"
    using won by (simp add: i demo_claimed_def srv prod_eq_iff)
  have "recordLastCandidateMessageAt ?P demo_callback w = (Inl ''command queue'', w)" for w
    by (simp add: recordLastCandidateMessageAt_def demo_callback_def demo_intake_def resolveLongTermUserId_def given_def
        act_catch_def)
  from failed_activity_write_loses_the_message [of demo_dedup ?P demo_intake_world demo_callback "projr (fst ?v)" "snd ?v"
      demo_claimed "''command queue''" demo_claimed demo_deliveries,
      OF demo_docs(1,2) demo_intake_calm demo_docs(3) demo_callback_text(1) v pass c this]
  show ?thesis by (simp add: i)
qed

end
