(* ===== verification/SharedSwitch.thy ===== *)
theory SharedSwitch
  imports Prelude
begin

text \<open>
  Three services decide who is answered: the hosting pauses, the blacklist of candidates and the
  blacklist of groups.  They keep their entries in the same way, a map in the memory of each replica
  that is trusted for a second, a snapshot in Redis that all replicas share, and a table behind it.
  This theory is that scheme; what the services do differently is a record of choices
  (\<open>switch_policy\<close>), and the theories \<open>UserHosting\<close>, \<open>CandidateBlacklist\<close> and
  \<open>GroupBlacklist\<close> have the services themselves.

  Every request to Redis or the database takes some time and may fail, as the list \<open>sw_requests\<close> says; an
  operation of one replica ends before the next operation begins.  The code does not see to that: a read that is on its way
  while another call changes the entries can overwrite them (\<open>overlapping_pause_is_lost\<close> in \<open>UserHosting\<close>), and a read
  that began before a change counts from its beginning where an age is bounded.
\<close>

section \<open>The world\<close>

type_synonym 'e entries = "string \<Rightarrow> 'e option"

text \<open>A request is answered; or it is carried out and its answer is lost; or it is not carried out.\<close>

datatype reply = Answered | Lost | Refused

record ('d, 'e) switch_world =
  sw_time :: int
  sw_db :: 'd
  sw_shared :: "('e entries \<times> int option) option"
  sw_local :: "nat \<Rightarrow> 'e entries \<times> int"
  sw_requests :: "(nat \<times> reply) list"
  sw_failed_reads :: nat

record ('d, 'e) switch_policy =
  sp_expire :: "(int \<Rightarrow> 'd \<Rightarrow> 'd) option"
  sp_read :: "bool \<Rightarrow> int \<Rightarrow> 'd \<Rightarrow> 'e entries option"
  sp_keep :: "int \<Rightarrow> 'e \<Rightarrow> bool"
  sp_ttl :: "int option"

definition request :: "('d, 'e, 'x) switch_world_scheme \<Rightarrow> reply \<times> ('d, 'e, 'x) switch_world_scheme" where
  "request w = (case sw_requests w of
     [] \<Rightarrow> (Answered, w)
   | (d, ok) # rs \<Rightarrow> (ok, w\<lparr>sw_time := sw_time w + int d, sw_requests := rs\<rparr>))"

definition write_table :: "('d \<Rightarrow> 'd) \<Rightarrow> reply \<Rightarrow> ('d, 'e, 'x) switch_world_scheme \<Rightarrow> ('d, 'e, 'x) switch_world_scheme" where
  "write_table f a w = (if a = Refused then w else w\<lparr>sw_db := f (sw_db w)\<rparr>)"

definition only :: "('e \<Rightarrow> bool) \<Rightarrow> 'e entries \<Rightarrow> 'e entries" where
  "only p m = (\<lambda>k. case m k of None \<Rightarrow> None | Some e \<Rightarrow> if p e then Some e else None)"

definition set_local :: "nat \<Rightarrow> 'e entries \<Rightarrow> int \<Rightarrow> ('d, 'e, 'x) switch_world_scheme \<Rightarrow> ('d, 'e, 'x) switch_world_scheme" where
  "set_local r m t w = w\<lparr>sw_local := (sw_local w)(r := (m, t))\<rparr>"

definition live_snapshot :: "('d, 'e, 'x) switch_world_scheme \<Rightarrow> 'e entries option" where
  "live_snapshot w = (case sw_shared w of
     None \<Rightarrow> None
   | Some (s, None) \<Rightarrow> Some s
   | Some (s, Some t) \<Rightarrow> if sw_time w < t then Some s else None)"

definition read_shared :: "('d, 'e, 'x) switch_world_scheme \<Rightarrow> 'e entries option \<times> ('d, 'e, 'x) switch_world_scheme" where
  "read_shared w = (case request w of (a, w1) \<Rightarrow> (if a = Answered then live_snapshot w1 else None, w1))"

definition persist_shared :: "('d, 'e) switch_policy \<Rightarrow> nat \<Rightarrow> ('d, 'e, 'x) switch_world_scheme
    \<Rightarrow> bool \<times> ('d, 'e, 'x) switch_world_scheme" where
  "persist_shared P r w = (case request w of (a, w1) \<Rightarrow>
     (a = Answered, if a \<noteq> Refused then w1\<lparr>sw_shared := Some (only (sp_keep P (sw_time w)) (fst (sw_local w r)),
                             map_option (\<lambda>ttl. sw_time w1 + ttl) (sp_ttl P))\<rparr> else w1))"

definition read_entries :: "('d, 'e) switch_policy \<Rightarrow> nat \<Rightarrow> ('d, 'e, 'x) switch_world_scheme \<Rightarrow> ('d, 'e, 'x) switch_world_scheme" where
  "read_entries P r w = (case request w of (a, w1) \<Rightarrow>
     (let w2 = (if a = Answered then w1 else w1\<lparr>sw_failed_reads := sw_failed_reads w1 + 1\<rparr>) in
      case sp_read P (a = Answered) (sw_time w) (sw_db w2) of
        None \<Rightarrow> set_local r (fst (sw_local w2 r)) (sw_time w2 + 30000) w2
      | Some m \<Rightarrow> snd (persist_shared P r (set_local r m (sw_time w2 + 1000) w2))))"

definition load_entries :: "('d, 'e) switch_policy \<Rightarrow> nat \<Rightarrow> ('d, 'e, 'x) switch_world_scheme \<Rightarrow> ('d, 'e, 'x) switch_world_scheme" where
  "load_entries P r w = read_entries P r (case sp_expire P of None \<Rightarrow> w
     | Some f \<Rightarrow> (case request w of (a, w1) \<Rightarrow> write_table (f (sw_time w)) a w1))"

definition ensure_fresh :: "('d, 'e) switch_policy \<Rightarrow> nat \<Rightarrow> ('d, 'e, 'x) switch_world_scheme \<Rightarrow> ('d, 'e, 'x) switch_world_scheme" where
  "ensure_fresh P r w =
     (if sw_time w \<le> snd (sw_local w r) then w
      else (case read_shared w of
        (Some s, w1) \<Rightarrow> set_local r s (sw_time w1 + 1000) w1
      | (None, w1) \<Rightarrow> load_entries P r w1))"

definition time_passes :: "nat \<Rightarrow> ('d, 'e, 'x) switch_world_scheme \<Rightarrow> ('d, 'e, 'x) switch_world_scheme" where
  "time_passes d w = w\<lparr>sw_time := sw_time w + int d\<rparr>"

section \<open>Lemmas\<close>

lemma request_same:
  "request w = (a, w1) \<Longrightarrow> sw_db w1 = sw_db w \<and> sw_shared w1 = sw_shared w \<and> sw_local w1 = sw_local w \<and>
     sw_failed_reads w1 = sw_failed_reads w \<and> sw_time w \<le> sw_time w1"
  by (auto simp: request_def split: list.splits prod.splits)

lemma only_all: "(\<And>e. p e) \<Longrightarrow> only p m = m"
  by (rule ext) (simp add: only_def split: option.split)

lemma set_local_fields [simp]:
  "sw_time (set_local r m t w) = sw_time w" "sw_db (set_local r m t w) = sw_db w"
  "sw_shared (set_local r m t w) = sw_shared w" "sw_local (set_local r m t w) = (sw_local w)(r := (m, t))"
  "sw_failed_reads (set_local r m t w) = sw_failed_reads w" "sw_requests (set_local r m t w) = sw_requests w"
  by (simp_all add: set_local_def)

section \<open>Snapshots that are short-lived\<close>

text \<open>A service whose failed reads answer nothing, that stores all entries, and whose snapshot lives \<open>life\<close>
  milliseconds.  Its client may rely on a bound: what a replica answers is not older than the life of
  a snapshot and the second it trusts its own map.\<close>

locale short_lived_switch =
  fixes P :: "('d, 'e) switch_policy" and view :: "'d \<Rightarrow> 'e entries" and life :: int
  assumes no_expiry: "sp_expire P = None"
    and read: "sp_read P ok t d = (if ok then Some (view d) else None)"
    and keep: "sp_keep P t e"
    and ttl: "sp_ttl P = Some life"
    and life: "0 \<le> life"
begin

text \<open>\<open>since\<close> is when the table last changed.\<close>

definition fresh_map :: "int \<Rightarrow> int \<Rightarrow> 'e entries \<Rightarrow> 'e entries \<times> int \<Rightarrow> bool" where
  "fresh_map since now v x \<longleftrightarrow> snd x \<le> now + 1000 \<and> (fst x = v \<or> snd x \<le> since + life + 1000)"

fun fresh_snapshot :: "int \<Rightarrow> int \<Rightarrow> 'e entries \<Rightarrow> ('e entries \<times> int option) option \<Rightarrow> bool" where
  "fresh_snapshot since now v None = True"
| "fresh_snapshot since now v (Some (s, None)) = False"
| "fresh_snapshot since now v (Some (s, Some u)) = (u \<le> now + life \<and> (s = v \<or> u \<le> since + life))"

definition fresh_inv :: "int \<Rightarrow> ('d, 'e, 'x) switch_world_scheme \<Rightarrow> bool" where
  "fresh_inv since w \<longleftrightarrow> since \<le> sw_time w \<and> (sw_failed_reads w = 0 \<longrightarrow>
     fresh_snapshot since (sw_time w) (view (sw_db w)) (sw_shared w) \<and>
     (\<forall>r. fresh_map since (sw_time w) (view (sw_db w)) (sw_local w r)))"

lemma fresh_map_later: "fresh_map since now v x \<Longrightarrow> now \<le> now' \<Longrightarrow> fresh_map since now' v x"
  unfolding fresh_map_def by linarith

lemma fresh_snapshot_later: "fresh_snapshot since now v x \<Longrightarrow> now \<le> now' \<Longrightarrow> fresh_snapshot since now' v x"
  by (induction since now v x rule: fresh_snapshot.induct) auto

lemma fresh_map_change: "fresh_map since now v x \<Longrightarrow> fresh_map now now v' x"
  using life unfolding fresh_map_def by linarith

lemma fresh_snapshot_change: "fresh_snapshot since now v x \<Longrightarrow> fresh_snapshot now now v' x"
  by (induction since now v x rule: fresh_snapshot.induct) auto

lemma fresh_inv_later:
  assumes "fresh_inv since w" "sw_time w \<le> sw_time w1" "sw_db w1 = sw_db w" "sw_shared w1 = sw_shared w"
    "sw_local w1 = sw_local w" "sw_failed_reads w1 = sw_failed_reads w"
  shows "fresh_inv since w1"
  using assms by (auto simp: fresh_inv_def intro: fresh_map_later fresh_snapshot_later)

lemma fresh_cold:
  "sw_shared w = None \<Longrightarrow> sw_local w = (\<lambda>_. (m, 0)) \<Longrightarrow> 0 \<le> sw_time w \<Longrightarrow> fresh_inv (sw_time w) w"
  using life by (simp add: fresh_inv_def fresh_map_def)

lemma fresh_change: "fresh_inv since w \<Longrightarrow> fresh_inv (sw_time w) (w\<lparr>sw_db := d\<rparr>)"
  by (auto simp: fresh_inv_def intro: fresh_map_change fresh_snapshot_change)

lemma fresh_request: "fresh_inv since w \<Longrightarrow> request w = (a, w1) \<Longrightarrow> fresh_inv since w1"
  using request_same [of w a w1] by (auto intro: fresh_inv_later)

lemma fresh_time: "fresh_inv since w \<Longrightarrow> fresh_inv since (time_passes d w)"
  by (rule fresh_inv_later) (simp_all add: time_passes_def)

lemma fresh_set_view:
  "fresh_inv since w \<Longrightarrow> m = view (sw_db w) \<Longrightarrow> t \<le> sw_time w + 1000 \<Longrightarrow> fresh_inv since (set_local r m t w)"
  by (auto simp: fresh_inv_def fresh_map_def)

lemma fresh_persist:
  assumes "fresh_inv since w" "fst (sw_local w r) = view (sw_db w)" "persist_shared P r w = (ok, w1)"
  shows "fresh_inv since w1" "sw_local w1 = sw_local w" "sw_db w1 = sw_db w"
proof -
  obtain q w2 where q: "request w = (q, w2)" by fastforce
  have "only (sp_keep P (sw_time w)) (fst (sw_local w r)) = view (sw_db w)" using assms(2) by (simp only: only_all [OF keep])
  then have "w1 = (if q \<noteq> Refused then w2\<lparr>sw_shared := Some (view (sw_db w), Some (sw_time w2 + life))\<rparr> else w2)"
    using assms(3) q by (auto simp: persist_shared_def ttl)
  then show "fresh_inv since w1" "sw_local w1 = sw_local w" "sw_db w1 = sw_db w"
    using fresh_request [OF assms(1) q] request_same [OF q] assms(2) by (simp_all add: fresh_inv_def)
qed

lemma fresh_store:
  assumes "fresh_inv since w" "m = view (sw_db w)" "w1 = snd (persist_shared P r (set_local r m (sw_time w + 1000) w))"
  shows "fresh_inv since w1" "fst (sw_local w1 r) = view (sw_db w1)" "sw_db w1 = sw_db w"
proof -
  obtain ok w3 where p: "persist_shared P r (set_local r m (sw_time w + 1000) w) = (ok, w3)" by fastforce
  then show "fresh_inv since w1" "fst (sw_local w1 r) = view (sw_db w1)" "sw_db w1 = sw_db w"
    using fresh_persist [OF fresh_set_view [OF assms(1,2)] _ p] assms(2,3) by simp_all
qed

lemma load_cases:
  assumes "request w = (a, w2)"
  shows "load_entries P r w = (if a = Answered
     then snd (persist_shared P r (set_local r (view (sw_db w2)) (sw_time w2 + 1000) w2))
     else set_local r (fst (sw_local w2 r)) (sw_time w2 + 30000) (w2\<lparr>sw_failed_reads := sw_failed_reads w2 + 1\<rparr>))"
  using assms by (simp add: load_entries_def read_entries_def no_expiry read)

lemma fresh_load: "fresh_inv since w \<Longrightarrow> fresh_inv since (load_entries P r w) \<and> sw_db (load_entries P r w) = sw_db w"
proof -
  assume w: "fresh_inv since w"
  obtain a w2 where q: "request w = (a, w2)" by fastforce
  note w2 = fresh_request [OF w q]
  show ?thesis
  proof (cases "a = Answered")
    case True
    then show ?thesis using fresh_store(1,3) [OF w2 refl refl, of r] request_same [OF q]
      by (simp add: load_cases [OF q])
  next
    case False
    then show ?thesis using w2 request_same [OF q] by (simp add: load_cases [OF q] fresh_inv_def)
  qed
qed

lemma fresh_ensure:
  assumes w: "fresh_inv since w"
  shows "fresh_inv since (ensure_fresh P r w) \<and> sw_db (ensure_fresh P r w) = sw_db w"
proof -
  obtain x w1 where x: "read_shared w = (x, w1)" by fastforce
  then obtain a where q: "request w = (a, w1)" "x = (if a = Answered then live_snapshot w1 else None)"
    by (auto simp: read_shared_def split: prod.splits)
  have w1: "fresh_inv since w1" "sw_db w1 = sw_db w" using fresh_request [OF w q(1)] request_same [OF q(1)] by simp_all
  show ?thesis
  proof (cases x)
    case None
    then show ?thesis using w x fresh_load [OF w1(1)] w1(2) by (simp add: ensure_fresh_def)
  next
    case (Some s)
    then have "live_snapshot w1 = Some s" using q(2) by (simp split: if_splits)
    then have "fresh_inv since (set_local r s (sw_time w1 + 1000) w1)"
      using w1 by (auto simp: fresh_inv_def fresh_map_def live_snapshot_def split: option.splits prod.splits if_splits)
    then show ?thesis using w w1 x Some by (simp add: ensure_fresh_def)
  qed
qed

text \<open>Once the last change is older than the bound, a refreshed replica knows the table.\<close>

lemma ensure_current:
  assumes "fresh_inv since w" "sw_failed_reads (ensure_fresh P r w) = 0" "since + life + 1000 < sw_time w"
  shows "fst (sw_local (ensure_fresh P r w) r) = view (sw_db w)"
proof (cases "sw_time w \<le> snd (sw_local w r)")
  case True
  then show ?thesis using assms by (auto simp: ensure_fresh_def fresh_inv_def fresh_map_def dest!: spec [of _ r])
next
  case False
  obtain x w1 where x: "read_shared w = (x, w1)" by fastforce
  then obtain a where q: "request w = (a, w1)" "x = (if a = Answered then live_snapshot w1 else None)"
    by (auto simp: read_shared_def split: prod.splits)
  note w1 = fresh_request [OF assms(1) q(1)] and t = request_same [OF q(1)]
  show ?thesis
  proof (cases x)
    case (Some s)
    then have "s = view (sw_db w1)"
      using q(2) w1 t assms False x
      by (auto simp: fresh_inv_def live_snapshot_def ensure_fresh_def split: option.splits prod.splits if_splits)
    then show ?thesis using False x Some t by (simp add: ensure_fresh_def)
  next
    case None
    obtain a2 w2 where q2: "request w1 = (a2, w2)" by fastforce
    have e: "ensure_fresh P r w = load_entries P r w1" using False x None by (simp add: ensure_fresh_def)
    have "a2 = Answered" using assms(2) unfolding e load_cases [OF q2] by (auto split: if_splits)
    then show ?thesis
      using fresh_store(2,3) [OF fresh_request [OF w1 q2] refl refl, of r] t request_same [OF q2]
      unfolding e load_cases [OF q2] by simp
  qed
qed

end

section \<open>Switches that forget\<close>

text \<open>A service that takes a failed read for an empty table, and whose snapshot lives until it is replaced.  Once a
  read has failed, all replicas have forgotten all entries.\<close>

definition all_answered :: "('d, 'e, 'x) switch_world_scheme \<Rightarrow> bool" where
  "all_answered w \<longleftrightarrow> (\<forall>x \<in> set (sw_requests w). snd x = Answered)"

lemma request_answered: "all_answered w \<Longrightarrow> request w = (a, w1) \<Longrightarrow> a = Answered \<and> all_answered w1"
  by (auto simp: all_answered_def request_def split: list.splits prod.splits)

locale forgetful_switch =
  fixes P :: "('d, 'e) switch_policy"
  assumes read_failed: "sp_read P False t d = Some (\<lambda>_. None)"
    and no_ttl: "sp_ttl P = None"
begin

text \<open>The snapshot is empty, and so is every map that was filled after \<open>w0\<close>.\<close>

definition emptied :: "('d, 'e, 'x) switch_world_scheme \<Rightarrow> ('d, 'e, 'x) switch_world_scheme \<Rightarrow> bool" where
  "emptied w0 w \<longleftrightarrow> all_answered w \<and> sw_shared w = Some (\<lambda>_. None, None) \<and>
     (\<forall>r. fst (sw_local w r) = (\<lambda>_. None) \<or> snd (sw_local w r) \<le> snd (sw_local w0 r))"

lemma emptied_time: "emptied w0 w \<Longrightarrow> emptied w0 (time_passes d w)"
  by (simp add: emptied_def time_passes_def all_answered_def)

lemma emptied_ensure:
  assumes "emptied w0 w"
  shows "emptied w0 (ensure_fresh P r w)" "sw_db (ensure_fresh P r w) = sw_db w"
    "sw_time w \<le> sw_time (ensure_fresh P r w)"
    "snd (sw_local w0 r) < sw_time w \<Longrightarrow> fst (sw_local (ensure_fresh P r w) r) = (\<lambda>_. None)"
proof -
  obtain a w1 where a: "request w = (a, w1)" by fastforce
  note q = request_answered [OF _ a] request_same [OF a]
  have w: "all_answered w" "sw_shared w = Some (\<lambda>_. None, None)"
    "fst (sw_local w r) = (\<lambda>_. None) \<or> snd (sw_local w r) \<le> snd (sw_local w0 r)"
    using assms by (simp_all add: emptied_def)
  have e: "ensure_fresh P r w =
      (if sw_time w \<le> snd (sw_local w r) then w else set_local r (\<lambda>_. None) (sw_time w1 + 1000) w1)"
    using q w by (simp add: ensure_fresh_def read_shared_def a live_snapshot_def)
  show "emptied w0 (ensure_fresh P r w)" "sw_db (ensure_fresh P r w) = sw_db w"
    "sw_time w \<le> sw_time (ensure_fresh P r w)"
    using assms q w unfolding e by (auto simp: emptied_def all_answered_def set_local_def)
  show "fst (sw_local (ensure_fresh P r w) r) = (\<lambda>_. None)" if "snd (sw_local w0 r) < sw_time w"
    using that w(3) unfolding e by auto
qed

lemma only_none: "only p (\<lambda>_. None) = (\<lambda>_. None)"
  by (simp add: only_def)

text \<open>The read fails, and the empty map is stored.\<close>

lemma failed_read_empties:
  assumes "sw_requests w = (d, Refused) # (d', Answered) # rs" "\<forall>x \<in> set rs. snd x = Answered" "sw_local w = sw_local w0"
  shows "emptied w0 (read_entries P r w)" "sw_db (read_entries P r w) = sw_db w"
    "sw_time w \<le> sw_time (read_entries P r w)" "fst (sw_local (read_entries P r w) r) = (\<lambda>_. None)"
  using assms
  by (simp_all add: read_entries_def request_def read_failed persist_shared_def only_none no_ttl emptied_def
      all_answered_def Let_def)

end

end
