(* ===== verification/UserHosting.thy ===== *)
theory UserHosting
  imports SharedSwitch "HOL-Library.AList"
begin

text \<open>
  Pausing the agent for a user, after \<open>UserHostingService\<close> and the part of \<open>UserHostingRepository\<close> that
  it uses for it: the table \<open>user_hosting_status\<close> is the list of its rows under their \<open>user_id\<close>, the
  caches are those of \<open>SharedSwitch\<close>, and the world has the closing of handoff events besides.  The
  field \<open>isPaused\<close> of a cached entry is left out: it is true of every entry.  The day begins where it
  begins in UTC+8.  The calls of this theory run one after another; what an overlap can do is shown at its end
  (\<open>overlapping_pause_is_lost\<close>).  A query answers no more rows than the database interface allows (\<open>max_rows\<close>
  in \<open>supabase/config.toml\<close>), the newest pauses first.  The lists for the dashboard and the table \<open>user_activity\<close> are not modelled.
\<close>

section \<open>Time\<close>

definition SHANGHAI_OFFSET_MS :: int where "SHANGHAI_OFFSET_MS = 8 * 60 * 60 * 1000"
definition DAY_MS :: int where "DAY_MS = 24 * 60 * 60 * 1000"

definition getLocalDayStart :: "int \<Rightarrow> int" where
  "getLocalDayStart t = (t + SHANGHAI_OFFSET_MS) div DAY_MS * DAY_MS - SHANGHAI_OFFSET_MS"

definition addLocalDays :: "int \<Rightarrow> int \<Rightarrow> int" where
  "addLocalDays t n = t + n * DAY_MS"

definition resolveTemporaryPauseExpiresAt :: "int \<Rightarrow> int" where
  "resolveTemporaryPauseExpiresAt t = addLocalDays (getLocalDayStart t) 1"

definition PERMANENT_EXPIRES_AT :: int where "PERMANENT_EXPIRES_AT = 9007199254740991"

section \<open>The table\<close>

record hosting_row =
  hr_is_paused :: bool
  hr_paused_at :: int
  hr_resumed_at :: "int option"
  hr_pause_expires_at :: "int option"
  hr_is_permanent :: "bool option"
  hr_pause_reason :: "string option"
  hr_pause_operator :: "string option"
  hr_pause_source :: "string option"
  hr_pause_count :: int

type_synonym hosting_table = "(string \<times> hosting_row) list"

record pause_entry =
  pe_pausedAt :: int
  pe_expiresAt :: int
  pe_permanent :: bool
  pe_reason :: "string option"
  pe_operator :: "string option"
  pe_source :: "string option"

record pause_options =
  po_permanent :: bool
  po_reason :: "string option"
  po_operator :: "string option"
  po_source :: "string option"

record hosting_world = "(hosting_table, pause_entry) switch_world" +
  hw_has_handoffs :: bool
  hw_handoffs :: "(string \<times> string) list"

definition row_overdue :: "int \<Rightarrow> hosting_row \<Rightarrow> bool" where
  "row_overdue now row \<longleftrightarrow> hr_is_paused row \<and> hr_is_permanent row = Some False \<and>
     (case hr_pause_expires_at row of None \<Rightarrow> False | Some t \<Rightarrow> t \<le> now)"

definition expired_ids :: "int \<Rightarrow> hosting_table \<Rightarrow> string list" where
  "expired_ids now d = map fst (filter (\<lambda>(u, row). row_overdue now row) d)"

definition expire_rows :: "int \<Rightarrow> hosting_table \<Rightarrow> hosting_table" where
  "expire_rows now d = map (\<lambda>(u, row). (u, if row_overdue now row
     then row\<lparr>hr_is_paused := False, hr_resumed_at := Some now, hr_pause_expires_at := None\<rparr> else row)) d"

definition expirePausedUsers :: "hosting_world \<Rightarrow> string list \<times> hosting_world" where
  "expirePausedUsers w = (case request w of (a, w1) \<Rightarrow>
     (if a = Answered then expired_ids (sw_time w) (sw_db w1) else [], write_table (expire_rows (sw_time w)) a w1))"

definition row_active :: "int \<Rightarrow> hosting_row \<Rightarrow> bool" where
  "row_active now row \<longleftrightarrow> hr_is_paused row \<and> (hr_is_permanent row = Some True \<or>
     (case hr_pause_expires_at row of None \<Rightarrow> False | Some t \<Rightarrow> now < t))"

definition max_rows :: nat where "max_rows = 1000"

definition findPausedUserIds :: "bool \<Rightarrow> int \<Rightarrow> hosting_table \<Rightarrow> hosting_table" where
  "findPausedUserIds ok now d = (if ok then take max_rows
     (sort_key (\<lambda>(u, row). - hr_paused_at row) (filter (\<lambda>(u, row). row_active now row) d)) else [])"

definition pause_row :: "int \<Rightarrow> int option \<Rightarrow> pause_options \<Rightarrow> hosting_row option \<Rightarrow> hosting_row" where
  "pause_row now expires opts old = \<lparr>hr_is_paused = True, hr_paused_at = now,
     hr_resumed_at = (case old of None \<Rightarrow> None | Some row \<Rightarrow> hr_resumed_at row),
     hr_pause_expires_at = expires, hr_is_permanent = Some (po_permanent opts), hr_pause_reason = po_reason opts,
     hr_pause_operator = po_operator opts, hr_pause_source = po_source opts, hr_pause_count = 1\<rparr>"

text \<open>\<open>upsert\<close> answers \<open>null\<close> when it fails, and \<open>update\<close> an empty list, so neither call rejects.\<close>

definition upsertPause :: "string \<Rightarrow> int \<Rightarrow> int option \<Rightarrow> pause_options \<Rightarrow> (hosting_world, unit) act" where
  "upsertPause u now expires opts w = (case request w of (a, w1) \<Rightarrow>
     (Inr (), write_table (\<lambda>d. AList.update u (pause_row now expires opts (map_of d u)) d) a w1))"

definition resume_row :: "int \<Rightarrow> hosting_row \<Rightarrow> hosting_row" where
  "resume_row now row = row\<lparr>hr_is_paused := False, hr_resumed_at := Some now, hr_pause_expires_at := None,
     hr_is_permanent := Some False, hr_pause_reason := None, hr_pause_operator := None, hr_pause_source := None\<rparr>"

definition updateResume :: "string \<Rightarrow> (hosting_world, unit) act" where
  "updateResume u w = (case request w of (a, w1) \<Rightarrow>
     (Inr (), write_table (AList.map_entry u (resume_row (sw_time w))) a w1))"

section \<open>The caches\<close>

definition hosting_entry :: "hosting_row \<Rightarrow> pause_entry" where
  "hosting_entry row = \<lparr>pe_pausedAt = hr_paused_at row,
     pe_expiresAt = (if hr_is_permanent row = Some True then PERMANENT_EXPIRES_AT
       else case hr_pause_expires_at row of Some t \<Rightarrow> t | None \<Rightarrow> resolveTemporaryPauseExpiresAt (hr_paused_at row)),
     pe_permanent = (hr_is_permanent row = Some True),
     pe_reason = hr_pause_reason row, pe_operator = hr_pause_operator row, pe_source = hr_pause_source row\<rparr>"

definition hosting_entries :: "hosting_table \<Rightarrow> pause_entry entries" where
  "hosting_entries rows = fold (\<lambda>(u, row) m. m(u \<mapsto> hosting_entry row)) rows (\<lambda>_. None)"

text \<open>A failed read answers no rows, and these are stored; the snapshot has no time to live.\<close>

definition hosting_policy :: "(hosting_table, pause_entry) switch_policy" where
  "hosting_policy = \<lparr>sp_expire = Some expire_rows, sp_read = (\<lambda>ok t d. Some (hosting_entries (findPausedUserIds ok t d))),
     sp_keep = (\<lambda>t e. t < pe_expiresAt e), sp_ttl = None\<rparr>"

abbreviation "ensureFreshPausedUsers \<equiv> ensure_fresh hosting_policy"
abbreviation "loadPausedUsers \<equiv> load_entries hosting_policy"
abbreviation "hosting_persist \<equiv> persist_shared hosting_policy"

definition hosting_refreshCache :: "nat \<Rightarrow> hosting_world \<Rightarrow> hosting_world" where
  "hosting_refreshCache r w = loadPausedUsers r (set_local r (fst (sw_local w r)) 0 w)"

section \<open>Queries\<close>

definition isUserPaused :: "nat \<Rightarrow> string \<Rightarrow> hosting_world \<Rightarrow> bool \<times> hosting_world" where
  "isUserPaused r u w = (let w1 = ensureFreshPausedUsers r w in
     (case fst (sw_local w1 r) u of None \<Rightarrow> False | Some e \<Rightarrow> sw_time w1 < pe_expiresAt e, w1))"

datatype chat_pause = NotPaused | PausedUntil "int option"

definition getChatPause :: "nat \<Rightarrow> string \<Rightarrow> hosting_world \<Rightarrow> chat_pause \<times> hosting_world" where
  "getChatPause r u w = (let w1 = ensureFreshPausedUsers r w in
     (case fst (sw_local w1 r) u of None \<Rightarrow> NotPaused
      | Some e \<Rightarrow> if pe_expiresAt e \<le> sw_time w1 then NotPaused
          else PausedUntil (if pe_permanent e then None else Some (pe_expiresAt e)), w1))"

fun isAnyPaused :: "nat \<Rightarrow> string option list \<Rightarrow> hosting_world \<Rightarrow> string option \<times> hosting_world" where
  "isAnyPaused r [] w = (None, w)"
| "isAnyPaused r (x # xs) w = (case x of None \<Rightarrow> isAnyPaused r xs w
     | Some u \<Rightarrow> if u = [] then isAnyPaused r xs w
         else (case isUserPaused r u w of (b, w1) \<Rightarrow> if b then (Some u, w1) else isAnyPaused r xs w1))"

section \<open>Pausing and resuming\<close>

text \<open>Up to the write of the table, and then the write of the snapshot.\<close>

definition pauseUser_write :: "nat \<Rightarrow> string \<Rightarrow> pause_options \<Rightarrow> (hosting_world, unit) act" where
  "pauseUser_write r u opts w =
     (let w1 = ensureFreshPausedUsers r w;
          now = sw_time w1;
          expires = (if po_permanent opts then PERMANENT_EXPIRES_AT else resolveTemporaryPauseExpiresAt now);
          e = \<lparr>pe_pausedAt = now, pe_expiresAt = expires, pe_permanent = po_permanent opts,
               pe_reason = po_reason opts, pe_operator = po_operator opts, pe_source = po_source opts\<rparr>;
          w2 = set_local r ((fst (sw_local w1 r))(u \<mapsto> e)) (now + 1000) w1
      in upsertPause u now (if po_permanent opts then None else Some expires) opts w2)"

definition pauseUser :: "nat \<Rightarrow> string \<Rightarrow> pause_options \<Rightarrow> hosting_world \<Rightarrow> bool \<times> hosting_world" where
  "pauseUser r u opts w = (case pauseUser_write r u opts w of (x, w3) \<Rightarrow>
     (case hosting_persist r w3 of (shared, w4) \<Rightarrow> (isl x = False \<or> shared, w4)))"

definition markHandoffResolved :: "string \<Rightarrow> string \<Rightarrow> hosting_world \<Rightarrow> hosting_world" where
  "markHandoffResolved u outcome w = (if \<not> hw_has_handoffs w then w
     else case request w of (a, w1) \<Rightarrow>
       if a = Refused then w1 else w1\<lparr>hw_handoffs := hw_handoffs w1 @ [(u, outcome)]\<rparr>)"

definition resumeUser :: "nat \<Rightarrow> string \<Rightarrow> hosting_world \<Rightarrow> hosting_world" where
  "resumeUser r u w =
     (let w1 = ensureFreshPausedUsers r w;
          w2 = set_local r ((fst (sw_local w1 r))(u := None)) (sw_time w1 + 1000) w1;
          w3 = snd (updateResume u w2);
          w4 = markHandoffResolved u ''resumed'' w3
      in snd (hosting_persist r w4))"

text \<open>\<open>granted\<close> is the answer of the lease; giving it back changes nothing here.\<close>

definition expireOverduePausedUsers :: "bool \<Rightarrow> bool \<Rightarrow> nat \<Rightarrow> hosting_world \<Rightarrow> hosting_world" where
  "expireOverduePausedUsers preview granted r w =
     (if preview \<or> \<not> granted then w
      else case expirePausedUsers w of (expired, w1) \<Rightarrow>
        if expired = [] then w1
        else hosting_refreshCache r (fold (\<lambda>u. markHandoffResolved u ''expired'') expired w1))"

section \<open>What a replica does\<close>

datatype hosting_op = HostingAsk string | HostingChat string | HostingAny "string option list"
  | HostingPause string pause_options | HostingResume string | HostingSweep bool bool | HostingRefresh | HostingWait nat

fun hosting_do :: "nat \<Rightarrow> hosting_op \<Rightarrow> hosting_world \<Rightarrow> hosting_world" where
  "hosting_do r (HostingAsk u) w = snd (isUserPaused r u w)"
| "hosting_do r (HostingChat u) w = snd (getChatPause r u w)"
| "hosting_do r (HostingAny us) w = snd (isAnyPaused r us w)"
| "hosting_do r (HostingPause u opts) w = snd (pauseUser r u opts w)"
| "hosting_do r (HostingResume u) w = resumeUser r u w"
| "hosting_do r (HostingSweep preview granted) w = expireOverduePausedUsers preview granted r w"
| "hosting_do r HostingRefresh w = hosting_refreshCache r w"
| "hosting_do r (HostingWait d) w = time_passes d w"

section \<open>The specification\<close>

text \<open>Abstractly, a pause is the time until which it holds: for ever, or until the next midnight.\<close>

type_synonym pauses = "string \<Rightarrow> int option"

definition holds_at :: "int option \<Rightarrow> int \<Rightarrow> bool" where
  "holds_at x t = (case x of None \<Rightarrow> False | Some u \<Rightarrow> t < u)"


definition row_until :: "hosting_row \<Rightarrow> int option" where
  "row_until row = (if \<not> hr_is_paused row then None
     else if hr_is_permanent row = Some True then Some PERMANENT_EXPIRES_AT else hr_pause_expires_at row)"

definition table_until :: "hosting_table \<Rightarrow> pauses" where
  "table_until d u = (case map_of d u of None \<Rightarrow> None | Some row \<Rightarrow> row_until row)"


section \<open>Midnight\<close>

lemma midnight_bounds: "t < resolveTemporaryPauseExpiresAt t \<and> resolveTemporaryPauseExpiresAt t \<le> t + DAY_MS"
proof -
  define s where "s = t + SHANGHAI_OFFSET_MS"
  have "s div DAY_MS * DAY_MS + s mod DAY_MS = s" by simp
  moreover have "0 \<le> s mod DAY_MS" "s mod DAY_MS < DAY_MS" by (simp_all add: DAY_MS_def)
  moreover have "resolveTemporaryPauseExpiresAt t = s div DAY_MS * DAY_MS - SHANGHAI_OFFSET_MS + DAY_MS"
    by (simp add: resolveTemporaryPauseExpiresAt_def addLocalDays_def getLocalDayStart_def s_def)
  ultimately show ?thesis unfolding s_def by linarith
qed

section \<open>One replica agrees with the specification\<close>


definition stands :: "pauses \<Rightarrow> int \<Rightarrow> pauses \<Rightarrow> bool" where
  "stands p now q \<longleftrightarrow> (\<forall>u t. now \<le> t \<longrightarrow> holds_at (q u) t = holds_at (p u) t)"







text \<open>The table.\<close>

lemma fold_upd: "distinct (map fst rows) \<Longrightarrow> fold (\<lambda>(u, row) m. m(u \<mapsto> f row)) rows m u =
    (case map_of rows u of None \<Rightarrow> m u | Some row \<Rightarrow> Some (f row))"
proof (induction rows arbitrary: m)
  case (Cons x rows)
  then have "map_of rows (fst x) = None" by (simp add: map_of_eq_None_iff)
  then show ?case using Cons by (cases x) (simp split: option.split)
qed simp

lemma hosting_entries_lookup:
  "distinct (map fst d) \<Longrightarrow> hosting_entries d u = map_option hosting_entry (map_of d u)"
  by (simp add: hosting_entries_def fold_upd split: option.split)








lemma expire_lookup: "map_of (expire_rows now d) u = map_option (\<lambda>row. if row_overdue now row
     then row\<lparr>hr_is_paused := False, hr_resumed_at := Some now, hr_pause_expires_at := None\<rparr> else row) (map_of d u)"
  by (simp add: expire_rows_def map_of_map)

lemma expire_keys [simp]: "map fst (expire_rows now d) = map fst d"
  by (auto simp: expire_rows_def)

lemma stands_expire:
  assumes "stands p now' (table_until d)" "now \<le> now'"
  shows "stands p now' (table_until (expire_rows now d))"
proof -
  have "holds_at (table_until (expire_rows now d) u) t = holds_at (table_until d u) t" if "now' \<le> t" for u t
    using that assms(2)
    by (auto simp: table_until_def expire_lookup row_until_def row_overdue_def holds_at_def split: option.splits)
  then show ?thesis using assms(1) by (simp add: stands_def)
qed



text \<open>The requests.\<close>

lemma hosting_policy_sel [simp]:
  "sp_expire hosting_policy = Some expire_rows"
  "sp_read hosting_policy ok t d = Some (hosting_entries (findPausedUserIds ok t d))"
  "sp_keep hosting_policy t = (\<lambda>e. t < pe_expiresAt e)" "sp_ttl hosting_policy = None"
  by (simp_all add: hosting_policy_def)










lemma stands_now: "stands p now q \<Longrightarrow> holds_at (q u) now = holds_at (p u) now"
  by (simp add: stands_def)















section \<open>Properties\<close>


section \<open>A failed read\<close>

text \<open>Queries and waiting, on any replica.\<close>

fun hosting_query :: "hosting_op \<Rightarrow> bool" where
  "hosting_query (HostingAsk u) = True"
| "hosting_query (HostingChat u) = True"
| "hosting_query (HostingAny us) = True"
| "hosting_query (HostingWait d) = True"
| "hosting_query _ = False"

definition hosting_queries :: "(nat \<times> hosting_op) list \<Rightarrow> hosting_world \<Rightarrow> hosting_world" where
  "hosting_queries ops w = fold (\<lambda>(r, op). hosting_do r op) ops w"

interpretation hosting_switch: forgetful_switch hosting_policy
  by unfold_locales (simp_all add: findPausedUserIds_def hosting_entries_def)

lemma emptied_any:
  "hosting_switch.emptied w0 w \<Longrightarrow> hosting_switch.emptied w0 (snd (isAnyPaused r us w)) \<and> sw_db (snd (isAnyPaused r us w)) = sw_db w \<and>
     sw_time w \<le> sw_time (snd (isAnyPaused r us w))"
proof (induction us arbitrary: w)
  case (Cons x us)
  show ?case
  proof (cases x)
    case (Some u)
    obtain b w1 where b: "isUserPaused r u w = (b, w1)" by fastforce
    then have "w1 = ensureFreshPausedUsers r w" by (simp add: isUserPaused_def Let_def)
    then show ?thesis
      using Some Cons.prems b hosting_switch.emptied_ensure [OF Cons.prems, of r] Cons.IH [of w1] Cons.IH [of w] by (cases "u = []") auto
  qed (use Cons in simp)
qed simp

lemma emptied_query:
  "hosting_switch.emptied w0 w \<Longrightarrow> hosting_query op \<Longrightarrow> hosting_switch.emptied w0 (hosting_do r op w) \<and> sw_db (hosting_do r op w) = sw_db w \<and>
     sw_time w \<le> sw_time (hosting_do r op w)"
  by (cases op) (simp_all add: isUserPaused_def getChatPause_def Let_def hosting_switch.emptied_ensure emptied_any
      hosting_switch.emptied_time [simplified time_passes_def] time_passes_def)

lemma emptied_queries:
  "hosting_switch.emptied w0 w \<Longrightarrow> \<forall>(r, op) \<in> set ops. hosting_query op \<Longrightarrow>
     hosting_switch.emptied w0 (hosting_queries ops w) \<and> sw_db (hosting_queries ops w) = sw_db w \<and>
     sw_time w \<le> sw_time (hosting_queries ops w)"
proof (induction ops arbitrary: w)
  case (Cons x ops)
  then show ?case using emptied_query [of w0 w "snd x" "fst x"] Cons.IH [of "hosting_do (fst x) (snd x) w"]
    by (fastforce simp: hosting_queries_def split_beta)
qed (simp add: hosting_queries_def)

lemma failed_load_empties:
  assumes "snd (sw_local w r) < sw_time w" "sw_shared w = None"
    "sw_requests w = (d1, a1) # (d2, a2) # (d3, Refused) # (d4, Answered) # rs" "\<forall>x \<in> set rs. snd x = Answered"
  shows "hosting_switch.emptied w (ensureFreshPausedUsers r w)"
    "sw_db (ensureFreshPausedUsers r w) = (if a2 = Refused then sw_db w else expire_rows (sw_time w + int d1) (sw_db w))"
    "sw_time w + int d1 \<le> sw_time (ensureFreshPausedUsers r w)"
    "fst (sw_local (ensureFreshPausedUsers r w) r) = (\<lambda>_. None)"
proof -
  define w2 where "w2 = write_table (expire_rows (sw_time w + int d1)) a2
    (w\<lparr>sw_time := sw_time w + int d1 + int d2, sw_requests := (d3, Refused) # (d4, Answered) # rs\<rparr>)"
  have "ensureFreshPausedUsers r w = read_entries hosting_policy r w2"
    using assms by (simp add: ensure_fresh_def read_shared_def request_def live_snapshot_def load_entries_def w2_def)
  moreover have "sw_requests w2 = (d3, Refused) # (d4, Answered) # rs" "sw_local w2 = sw_local w"
    "sw_time w2 = sw_time w + int d1 + int d2"
    "sw_db w2 = (if a2 = Refused then sw_db w else expire_rows (sw_time w + int d1) (sw_db w))"
    by (simp_all add: w2_def write_table_def)
  ultimately show "hosting_switch.emptied w (ensureFreshPausedUsers r w)"
    "sw_db (ensureFreshPausedUsers r w) = (if a2 = Refused then sw_db w else expire_rows (sw_time w + int d1) (sw_db w))"
    "sw_time w + int d1 \<le> sw_time (ensureFreshPausedUsers r w)"
    "fst (sw_local (ensureFreshPausedUsers r w) r) = (\<lambda>_. None)"
    using hosting_switch.failed_read_empties [OF _ assms(4), of w2 d3 d4 w r] by simp_all
qed

text \<open>C30: a single failed read of the table resumes the agent for everyone: when the shared snapshot is gone
  and the query for the paused rows fails, the empty answer is stored as the new snapshot, without a time to live; from then on
  every replica answers for every user that there is no pause, however often it is asked and although the table says of the user
  what it said before, until somebody is paused, resumed or swept.\<close>

theorem failed_read_resumes_everyone:
  assumes "snd (sw_local w r) < sw_time w" "sw_shared w = None"
    and "sw_requests w = (d1, a1) # (d2, a2) # (d3, Refused) # (d4, Answered) # rs" "\<forall>x \<in> set rs. snd x = Answered"
    and "isUserPaused r u0 w = (first, w1)"
    and "\<forall>(r, op) \<in> set ops. hosting_query op" "w2 = hosting_queries ops w1"
    and "isUserPaused r' u w2 = (answer, w3)" "snd (sw_local w r') < sw_time w2"
  shows "\<not> first \<and> \<not> answer \<and>
    holds_at (table_until (sw_db w3) u) (sw_time w3) = holds_at (table_until (sw_db w) u) (sw_time w3)"
proof -
  have w1: "w1 = ensureFreshPausedUsers r w" using assms(5) by (simp add: isUserPaused_def Let_def)
  note e = failed_load_empties [OF assms(1-4), folded w1]
  note w2 = emptied_queries [OF e(1) assms(6), folded assms(7)]
  have w3: "w3 = ensureFreshPausedUsers r' w2" using assms(8) by (simp add: isUserPaused_def Let_def)
  note f = hosting_switch.emptied_ensure [OF conjunct1 [OF w2], of r', folded w3]
  have "fst (sw_local w1 r) = (\<lambda>_. None)" by (rule e(4))
  moreover have "fst (sw_local w3 r') = (\<lambda>_. None)" using f(4) assms(9) by simp
  ultimately have "\<not> first" "\<not> answer"
    using assms(5,8) w1 w3 by (auto simp: isUserPaused_def Let_def)
  moreover have "sw_time w + int d1 \<le> sw_time w3" using e(3) w2 f(3) by simp
  then have "holds_at (table_until (expire_rows (sw_time w + int d1) (sw_db w)) u) (sw_time w3)
      = holds_at (table_until (sw_db w) u) (sw_time w3)"
    using stands_now [OF stands_expire [of "table_until (sw_db w)" "sw_time w3" "sw_db w" "sw_time w + int d1"], of u]
    by (simp add: stands_def)
  then have "holds_at (table_until (sw_db w3) u) (sw_time w3) = holds_at (table_until (sw_db w) u) (sw_time w3)"
    using e(2) w2 f(2) by simp
  ultimately show ?thesis by simp
qed

definition demo_hosting :: hosting_world where
  "demo_hosting = \<lparr>sw_time = 5000, sw_db = [(''chat'', \<lparr>hr_is_paused = True, hr_paused_at = 10, hr_resumed_at = None,
       hr_pause_expires_at = None, hr_is_permanent = Some True, hr_pause_reason = None, hr_pause_operator = None,
       hr_pause_source = None, hr_pause_count = 1\<rparr>)],
     sw_shared = None, sw_local = (\<lambda>_. (\<lambda>_. None, 0)), sw_requests = [], sw_failed_reads = 0,
     hw_has_handoffs = True, hw_handoffs = []\<rparr>"

definition demo_hosting_failing :: hosting_world where
  "demo_hosting_failing = demo_hosting\<lparr>sw_requests := [(1, Refused), (1, Refused), (1, Refused), (1, Answered)]\<rparr>"

lemma failed_read_resumes_everyone_witness:
  "\<not> fst (isUserPaused 1 ''chat'' (hosting_queries [(0, HostingWait 9)] (snd (isUserPaused 0 ''other'' demo_hosting_failing))))"
proof -
  define w1 where "w1 = snd (isUserPaused 0 ''other'' demo_hosting_failing)"
  define w2 where "w2 = hosting_queries [(0, HostingWait 9)] w1"
  obtain x where x: "isUserPaused 0 ''other'' demo_hosting_failing = (x, w1)" by (metis w1_def prod.collapse)
  obtain y w3 where y: "isUserPaused 1 ''chat'' w2 = (y, w3)" by fastforce
  have r: "snd (sw_local demo_hosting_failing 0) < sw_time demo_hosting_failing" "sw_shared demo_hosting_failing = None"
    "sw_requests demo_hosting_failing = (1, Refused) # (1, Refused) # (1, Refused) # (1, Answered) # []"
    by (simp_all add: demo_hosting_failing_def demo_hosting_def)
  have q: "w1 = ensureFreshPausedUsers 0 demo_hosting_failing" by (simp add: w1_def isUserPaused_def Let_def)
  note e = failed_load_empties [OF r, simplified, folded q]
  have "0 < sw_time w2"
    using e(3) emptied_queries [OF e(1), of "[(0, HostingWait 9)]"]
    by (simp add: w2_def demo_hosting_failing_def demo_hosting_def)
  then have t: "snd (sw_local demo_hosting_failing 1) < sw_time w2" by (simp add: demo_hosting_failing_def demo_hosting_def)
  have "\<not> x \<and> \<not> y \<and> holds_at (table_until (sw_db w3) ''chat'') (sw_time w3) =
      holds_at (table_until (sw_db demo_hosting_failing) ''chat'') (sw_time w3)"
    by (rule failed_read_resumes_everyone [OF r _ x _ w2_def y t]) simp_all
  then have "\<not> fst (isUserPaused 1 ''chat'' w2)" by (simp only: y fst_conv simp_thms)
  then show ?thesis by (simp only: w2_def w1_def simp_thms)
qed


section \<open>What the code does not provide for\<close>

text \<open>A query has read the rows before a pause; it fills the map after the pause has set its entry and written the table,
  and the pause stores that map.  The table has the pause, and no replica knows it, however long they ask.\<close>

definition demo_no_pause :: hosting_world where
  "demo_no_pause = demo_hosting\<lparr>sw_db := []\<rparr>"

definition overlapping_pause :: "pause_options \<Rightarrow> hosting_world" where
  "overlapping_pause opts =
     (let rows = findPausedUserIds True (sw_time demo_no_pause) (sw_db demo_no_pause);
          w1 = snd (pauseUser_write 0 ''chat'' opts demo_no_pause)
      in snd (hosting_persist 0 (set_local 0 (hosting_entries rows) (sw_time w1 + 1000) w1)))"

lemma overlapping_pause_emptied:
  "hosting_switch.emptied demo_no_pause (overlapping_pause opts)" "sw_time (overlapping_pause opts) = 5000"
  "sw_db (overlapping_pause opts) = [(''chat'', pause_row 5000
     (if po_permanent opts then None else Some (resolveTemporaryPauseExpiresAt 5000)) opts None)]"
  by (simp_all add: overlapping_pause_def pauseUser_write_def upsertPause_def Let_def demo_no_pause_def demo_hosting_def ensure_fresh_def
      read_shared_def request_def load_entries_def read_entries_def write_table_def live_snapshot_def persist_shared_def
      set_local_def findPausedUserIds_def hosting_entries_def expire_rows_def hosting_switch.emptied_def all_answered_def only_def)

lemma overlapping_pause_is_lost:
  assumes "po_permanent opts" "\<forall>(r, op) \<in> set ops. hosting_query op"
  shows "table_until (sw_db (overlapping_pause opts)) ''chat'' = Some PERMANENT_EXPIRES_AT"
    "\<not> fst (isUserPaused r ''chat'' (hosting_queries ops (overlapping_pause opts)))"
proof -
  note e = overlapping_pause_emptied [of opts]
  show "table_until (sw_db (overlapping_pause opts)) ''chat'' = Some PERMANENT_EXPIRES_AT"
    using assms(1) by (simp add: e(3) table_until_def row_until_def pause_row_def)
  let ?w = "hosting_queries ops (overlapping_pause opts)"
  note q = emptied_queries [OF e(1) assms(2)]
  have "snd (sw_local demo_no_pause r) < sw_time ?w"
    using q e(2) by (simp add: demo_no_pause_def demo_hosting_def)
  from hosting_switch.emptied_ensure(4) [OF conjunct1 [OF q] this]
  show "\<not> fst (isUserPaused r ''chat'' ?w)" by (simp add: isUserPaused_def Let_def)
qed

text \<open>With more pauses than rows in an answer, somebody who is paused is answered.\<close>

lemma pauses_are_cut_off:
  assumes "distinct (map fst d)" "max_rows < length (filter (\<lambda>(u, row). row_active now row) d)"
  shows "\<exists>(u, row) \<in> set d. row_active now row \<and> hosting_entries (findPausedUserIds True now d) u = None"
proof -
  let ?L = "filter (\<lambda>(u, row). row_active now row) d" and ?S = "findPausedUserIds True now d"
  let ?T = "sort_key (\<lambda>(u, row). - hr_paused_at row) ?L"
  have s: "?S = take max_rows ?T" by (simp add: findPausedUserIds_def)
  have l: "distinct (map fst ?L)" using assms(1) by (simp add: distinct_map_filter)
  then have t: "distinct (map fst ?T)" by (simp add: distinct_map)
  then have d: "distinct (map fst ?S)" unfolding s by (simp flip: take_map)
  have "length (map fst ?S) < length (map fst ?L)" using assms(2) by (simp add: s)
  then have "card (set (map fst ?S)) < card (set (map fst ?L))" using d l by (simp only: distinct_card)
  then obtain u where "u \<in> set (map fst ?L)" "u \<notin> set (map fst ?S)"
    by (metis List.finite_set card_mono linorder_not_le subsetI)
  then obtain row where "(u, row) \<in> set d" "row_active now row" "map_of ?S u = None" by (auto simp: map_of_eq_None_iff)
  then show ?thesis using hosting_entries_lookup [OF d, of u] by fastforce
qed

end
