(* ===== verification/GroupBlacklist.thy ===== *)
theory GroupBlacklist
  imports SharedSwitch
begin

text \<open>
  The groups that are switched off, after \<open>GroupBlacklistService\<close> and
  \<open>GroupBlacklistRepository\<close>, with the database function \<open>set_hosting_group_blacklisted\<close>.  A replica
  is a number, the table is the map from a group's id to its item, and a rejection is an \<open>Inl\<close>.
  The scheme of the caches is \<open>SharedSwitch\<close>.
\<close>

section \<open>The table\<close>

record group_item =
  gi_reason :: "string option"
  gi_added_at :: int

type_synonym group_table = "group_item entries"
type_synonym group_world = "(group_table, group_item) switch_world"

definition GroupBlacklist_set :: "string \<Rightarrow> bool \<Rightarrow> string option \<Rightarrow> int \<Rightarrow> group_table \<Rightarrow> group_table" where
  "GroupBlacklist_set g off reason now d =
     (if off then d(g \<mapsto> \<lparr>gi_reason = reason, gi_added_at = now\<rparr>) else d(g := None))"

definition loadBlacklistFromDb :: "bool \<Rightarrow> group_table \<Rightarrow> group_table option" where
  "loadBlacklistFromDb ok d = (if ok then Some d else None)"

definition group_policy :: "(group_table, group_item) switch_policy" where
  "group_policy = \<lparr>sp_expire = None, sp_read = (\<lambda>ok t d. loadBlacklistFromDb ok d),
     sp_keep = (\<lambda>t e. True), sp_ttl = Some 2000\<rparr>"

section \<open>The service\<close>

definition isGroupBlacklisted :: "nat \<Rightarrow> string \<Rightarrow> group_world \<Rightarrow> bool \<times> group_world" where
  "isGroupBlacklisted r g w =
     (if g = [] then (False, w)
      else let w1 = ensure_fresh group_policy r w in (fst (sw_local w1 r) g \<noteq> None, w1))"

definition getGroupBlacklist :: "nat \<Rightarrow> group_world \<Rightarrow> group_table \<times> group_world" where
  "getGroupBlacklist r w = (let w1 = ensure_fresh group_policy r w in (fst (sw_local w1 r), w1))"

definition getGroupBlacklistStrict :: "(group_world, group_table) act" where
  "getGroupBlacklistStrict w = (case request w of (a, w1) \<Rightarrow>
     (case loadBlacklistFromDb (a = Answered) (sw_db w1) of
        None \<Rightarrow> (Inl ''ServiceUnavailable'', w1) | Some d \<Rightarrow> (Inr d, w1)))"

definition isGroupBlacklistedStrict :: "string \<Rightarrow> (group_world, bool) act" where
  "isGroupBlacklistedStrict g = act_bind getGroupBlacklistStrict (\<lambda>d. act_ret (d g \<noteq> None))"

text \<open>The database function refuses a blank id; a lost answer rejects, though the switch may be set.\<close>

definition repo_setGroupBlacklisted :: "string \<Rightarrow> bool \<Rightarrow> string option \<Rightarrow> (group_world, group_table) act" where
  "repo_setGroupBlacklisted g off reason w = (case request w of (a, w1) \<Rightarrow>
     (if list_all (\<lambda>c. c = CHR '' '') g then (Inl ''ServiceUnavailable'', w1)
      else let w2 = write_table (GroupBlacklist_set g off reason (sw_time w1)) a w1 in
        (if a = Answered then Inr (sw_db w2) else Inl ''ServiceUnavailable'', w2)))"

definition setGroupBlacklisted :: "nat \<Rightarrow> string \<Rightarrow> bool \<Rightarrow> string option \<Rightarrow> (group_world, unit) act" where
  "setGroupBlacklisted r g off reason = act_bind (repo_setGroupBlacklisted g off reason) (\<lambda>items w.
     (Inr (), snd (persist_shared group_policy r (set_local r items (sw_time w + 1000) w))))"

definition addGroupToBlacklist :: "nat \<Rightarrow> string \<Rightarrow> string option \<Rightarrow> (group_world, unit) act" where
  "addGroupToBlacklist r g reason = setGroupBlacklisted r g True reason"

definition removeGroupFromBlacklist :: "nat \<Rightarrow> string \<Rightarrow> (group_world, bool) act" where
  "removeGroupFromBlacklist r g = act_bind (isGroupBlacklistedStrict g) (\<lambda>existed.
     act_bind (setGroupBlacklisted r g False None) (\<lambda>_. act_ret existed))"

definition loadGroupBlacklist :: "nat \<Rightarrow> group_world \<Rightarrow> group_world" where
  "loadGroupBlacklist r w = load_entries group_policy r w"

definition group_refreshCache :: "nat \<Rightarrow> group_world \<Rightarrow> group_world" where
  "group_refreshCache r w = loadGroupBlacklist r (set_local r (fst (sw_local w r)) 0 w)"

section \<open>Histories\<close>

text \<open>What replicas and operators do, in any order; \<open>GroupEdit\<close> is a change of the table from outside.\<close>

datatype group_op = GroupAsk nat string | GroupList nat | GroupStrict string | GroupAdd nat string "string option"
  | GroupRemove nat string | GroupRefresh nat | GroupEdit group_table | GroupWait nat

fun group_do :: "group_op \<Rightarrow> group_world \<Rightarrow> group_world" where
  "group_do (GroupAsk r g) w = snd (isGroupBlacklisted r g w)"
| "group_do (GroupList r) w = snd (getGroupBlacklist r w)"
| "group_do (GroupStrict g) w = snd (isGroupBlacklistedStrict g w)"
| "group_do (GroupAdd r g reason) w = snd (addGroupToBlacklist r g reason w)"
| "group_do (GroupRemove r g) w = snd (removeGroupFromBlacklist r g w)"
| "group_do (GroupRefresh r) w = group_refreshCache r w"
| "group_do (GroupEdit d) w = w\<lparr>sw_db := d\<rparr>"
| "group_do (GroupWait d) w = time_passes d w"

fun group_only_reads :: "group_op \<Rightarrow> bool" where
  "group_only_reads (GroupAdd r g reason) = False"
| "group_only_reads (GroupRemove r g) = False"
| "group_only_reads (GroupEdit d) = False"
| "group_only_reads _ = True"

definition group_run :: "group_op list \<Rightarrow> group_world \<Rightarrow> group_world" where
  "group_run ops w = fold group_do ops w"

definition group_cold :: "group_world \<Rightarrow> bool" where
  "group_cold w \<longleftrightarrow> sw_shared w = None \<and> sw_local w = (\<lambda>_. (\<lambda>_. None, 0)) \<and> 0 \<le> sw_time w"

section \<open>The interface is provided\<close>

interpretation group_switch: short_lived_switch group_policy "\<lambda>d. d" 2000
  by unfold_locales (simp_all add: group_policy_def loadBlacklistFromDb_def)

abbreviation "group_fresh \<equiv> group_switch.fresh_inv"

lemma group_fresh_local: "group_fresh since w \<Longrightarrow> t \<le> sw_time w + 1000 \<Longrightarrow> t \<le> since + 3000 \<Longrightarrow>
    group_fresh since (set_local r m t w)"
  by (auto simp: group_switch.fresh_inv_def group_switch.fresh_map_def)

lemma group_fresh_strict:
  "group_fresh since w \<Longrightarrow> getGroupBlacklistStrict w = (x, w1) \<Longrightarrow> group_fresh since w1 \<and> sw_db w1 = sw_db w"
  by (auto simp: getGroupBlacklistStrict_def split: prod.splits option.splits
      dest: group_switch.fresh_request request_same)

lemma group_fresh_strict_one:
  "group_fresh since w \<Longrightarrow> isGroupBlacklistedStrict g w = (x, w1) \<Longrightarrow> group_fresh since w1 \<and> sw_db w1 = sw_db w"
  by (auto simp: isGroupBlacklistedStrict_def act_bind_def split: prod.splits sum.splits dest: group_fresh_strict)

lemma group_fresh_set:
  assumes "group_fresh since w" "setGroupBlacklisted r g off reason w = (x, w1)"
  shows "\<exists>since'. since \<le> since' \<and> group_fresh since' w1"
proof -
  obtain y w2 where y: "repo_setGroupBlacklisted g off reason w = (y, w2)" by fastforce
  obtain a w3 where a: "request w = (a, w3)" by fastforce
  note w3 = group_switch.fresh_request [OF assms(1) a]
  have le: "since \<le> sw_time w3" using w3 by (simp add: group_switch.fresh_inv_def)
  have "\<exists>s. since \<le> s \<and> group_fresh s w2"
    using y w3 le group_switch.fresh_change [OF w3]
    by (auto simp: repo_setGroupBlacklisted_def a Let_def write_table_def split: if_splits)
  then obtain s where s: "since \<le> s" "group_fresh s w2" by blast
  show ?thesis
  proof (cases y)
    case (Inl e)
    then show ?thesis using assms(2) y s by (auto simp: setGroupBlacklisted_def act_bind_def)
  next
    case (Inr items)
    have "items = sw_db w2" using y Inr by (auto simp: repo_setGroupBlacklisted_def a Let_def split: if_splits)
    then show ?thesis
      using group_switch.fresh_store(1) [OF s(2) refl refl] s(1) assms(2) y Inr
      by (auto simp: setGroupBlacklisted_def act_bind_def)
  qed
qed

lemma group_fresh_refresh: "group_fresh since w \<Longrightarrow> 0 \<le> since \<Longrightarrow>
    group_fresh since (group_refreshCache r w) \<and> sw_db (group_refreshCache r w) = sw_db w"
proof -
  assume w: "group_fresh since w" and s: "0 \<le> since"
  have "0 \<le> sw_time w" using w s unfolding group_switch.fresh_inv_def by linarith
  then have "group_fresh since (set_local r (fst (sw_local w r)) 0 w)"
    by (intro group_fresh_local w) (use s in simp_all)
  from group_switch.fresh_load [OF this, of r] show ?thesis
    by (simp add: group_refreshCache_def loadGroupBlacklist_def)
qed

lemma group_fresh_reads:
  assumes "group_fresh since w" "0 \<le> since" "group_only_reads op"
  shows "group_fresh since (group_do op w) \<and> sw_db (group_do op w) = sw_db w"
proof (cases op)
  case (GroupStrict g)
  then show ?thesis using group_fresh_strict_one [OF assms(1), of g] by (simp add: prod_eq_iff)
next
  case (GroupWait d)
  then show ?thesis using group_switch.fresh_time [OF assms(1)] by (simp add: time_passes_def)
next
  case (GroupRefresh r)
  then show ?thesis using group_fresh_refresh [OF assms(1,2)] by simp
qed (use assms group_switch.fresh_ensure [OF assms(1)] in
      \<open>simp_all add: isGroupBlacklisted_def getGroupBlacklist_def Let_def\<close>)

lemma group_fresh_do:
  assumes "group_fresh since w" "0 \<le> since"
  shows "\<exists>since'. 0 \<le> since' \<and> group_fresh since' (group_do op w)"
proof (cases "group_only_reads op")
  case True
  then show ?thesis using group_fresh_reads [OF assms] assms(2) by blast
next
  case False
  then show ?thesis
  proof (cases op)
    case (GroupAdd r g reason)
    obtain x w1 where x: "setGroupBlacklisted r g True reason w = (x, w1)" by fastforce
    then have "group_do op w = w1" using GroupAdd by (simp add: addGroupToBlacklist_def)
    then show ?thesis using group_fresh_set [OF assms(1) x] assms(2) order_trans by metis
  next
    case (GroupRemove r g)
    obtain x w1 where x: "isGroupBlacklistedStrict g w = (x, w1)" by fastforce
    note w1 = group_fresh_strict_one [OF assms(1) x]
    show ?thesis
    proof (cases x)
      case (Inl e)
      then show ?thesis using w1 x GroupRemove assms(2) by (auto simp: removeGroupFromBlacklist_def act_bind_def)
    next
      case (Inr b)
      obtain y w2 where y: "setGroupBlacklisted r g False None w1 = (y, w2)" by fastforce
      have "snd (removeGroupFromBlacklist r g w) = w2"
        using x Inr y by (simp add: removeGroupFromBlacklist_def act_bind_def split: sum.split)
      then show ?thesis using group_fresh_set [OF conjunct1 [OF w1] y] GroupRemove assms(2) order_trans
        by (metis group_do.simps(5))
    qed
  next
    case (GroupEdit d)
    have "0 \<le> sw_time w" using assms unfolding group_switch.fresh_inv_def by linarith
    then show ?thesis using group_switch.fresh_change [OF assms(1), of d] GroupEdit by auto
  qed simp_all
qed

lemma group_fresh_run:
  assumes "group_fresh since w" "0 \<le> since"
  shows "\<exists>since'. 0 \<le> since' \<and> group_fresh since' (group_run ops w)"
  using assms
proof (induction ops arbitrary: w since)
  case (Cons op ops)
  then show ?case using group_fresh_do [OF Cons.prems, of op] by (fastforce simp: group_run_def)
qed (auto simp: group_run_def)

lemma group_fresh_run_reads:
  assumes "group_fresh since w" "0 \<le> since" "\<forall>op \<in> set ops. group_only_reads op"
  shows "group_fresh since (group_run ops w) \<and> sw_db (group_run ops w) = sw_db w"
  using assms by (induction ops arbitrary: w) (auto simp: group_run_def group_fresh_reads)

section \<open>Properties\<close>

text \<open>C29: a group's switch reaches every replica within three seconds: whatever was asked and changed before,
  and whatever is read in between, a replica that is asked more than three seconds after the last change
  answers what the table says, provided that no read of the table has failed.\<close>

theorem group_switch_reaches_every_replica:
  assumes "group_cold w0" "w1 = group_run changes w0" "w2 = group_run reads w1"
    and "\<forall>op \<in> set reads. group_only_reads op"
    and "sw_time w1 + 3000 < sw_time w2"
    and "isGroupBlacklisted r g w2 = (answer, w3)" "sw_failed_reads w3 = 0"
  shows "answer = (g \<noteq> [] \<and> sw_db w1 g \<noteq> None)"
proof -
  have "group_fresh (sw_time w0) w0" "0 \<le> sw_time w0"
    using assms(1) by (auto simp: group_cold_def intro: group_switch.fresh_cold)
  then obtain since where s: "0 \<le> since" "group_fresh since w1"
    using group_fresh_run [of "sw_time w0" w0 changes] assms(2) by auto
  then have w2: "group_fresh since w2" "sw_db w2 = sw_db w1" "since + 3000 < sw_time w2"
    using group_fresh_run_reads [of since w1 reads] assms(3-5) by (auto simp: group_switch.fresh_inv_def)
  show ?thesis
    using group_switch.ensure_current [OF w2(1), of r] w2 assms(6,7)
    by (auto simp: isGroupBlacklisted_def Let_def split: if_splits)
qed

definition demo_groups :: group_world where
  "demo_groups = \<lparr>sw_time = 0, sw_db = (\<lambda>_. None), sw_shared = None, sw_local = (\<lambda>_. (\<lambda>_. None, 0)),
     sw_requests = [(5, Answered), (5, Refused)], sw_failed_reads = 0\<rparr>"

lemmas group_eval = group_run_def isGroupBlacklisted_def addGroupToBlacklist_def setGroupBlacklisted_def
  repo_setGroupBlacklisted_def act_bind_def ensure_fresh_def read_shared_def load_entries_def read_entries_def persist_shared_def
  live_snapshot_def request_def write_table_def set_local_def group_policy_def loadBlacklistFromDb_def
  GroupBlacklist_set_def time_passes_def only_def Let_def

lemma group_switch_reaches_every_replica_witness:
  "fst (isGroupBlacklisted 1 ''g'' (group_run [GroupAsk 1 ''g'', GroupWait 3001]
     (group_run [GroupAsk 1 ''g'', GroupAdd 0 ''g'' None] demo_groups)))"
proof -
  define w1 where "w1 = group_run [GroupAsk 1 ''g'', GroupAdd 0 ''g'' None] demo_groups"
  define w2 where "w2 = group_run [GroupAsk 1 ''g'', GroupWait 3001] w1"
  obtain x w3 where x: "isGroupBlacklisted 1 ''g'' w2 = (x, w3)" by fastforce
  have 1: "sw_time w1 = 10 \<and> sw_db w1 ''g'' \<noteq> None" by (simp add: w1_def demo_groups_def group_eval)
  have 2: "sw_time w2 = 3011" by (simp add: w1_def w2_def demo_groups_def group_eval)
  have 3: "sw_failed_reads (snd (isGroupBlacklisted 1 ''g'' w2)) = 0"
    by (simp add: w1_def w2_def demo_groups_def group_eval)
  have 4: "group_cold demo_groups" by (simp add: group_cold_def demo_groups_def)
  have "x = (''g'' \<noteq> [] \<and> sw_db w1 ''g'' \<noteq> None)"
    by (rule group_switch_reaches_every_replica [OF 4 w1_def w2_def _ _ x]) (use 1 2 3 x in simp_all)
  then have x using 1 by simp
  then have "fst (isGroupBlacklisted 1 ''g'' w2)" by (simp only: x fst_conv)
  then show ?thesis by (simp only: w1_def w2_def)
qed

end
