(* ===== verification/CandidateBlacklist.thy ===== *)
theory CandidateBlacklist
  imports SharedSwitch "HOL-Library.AList"
begin

text \<open>
  The candidates who are not answered, after \<open>CandidateBlacklistService\<close> and the part of
  \<open>CandidateBlacklistRepository\<close> it uses: the table is the list of its records under their target, and the caches are
  those of \<open>SharedSwitch\<close>.  The columns that trace the hits, and \<open>recordHit\<close> that writes them, are left out: they
  take no part in the matching.  What \<open>chat_messages\<close> knows of a candidate is a parameter.
\<close>

record candidate_record =
  cb_reason :: string
  cb_operator :: "string option"
  cb_chat_id :: "string option"
  cb_im_contact_id :: "string option"
  cb_contact_name :: "string option"
  cb_im_bot_id :: "string option"
  cb_bot_name :: "string option"
  cb_source :: string

type_synonym candidate_table = "(string \<times> candidate_record) list"
type_synonym candidate_world = "(candidate_table, candidate_record) switch_world"

record add_params =
  ap_targetId :: string
  ap_reason :: string
  ap_operator :: "string option"
  ap_chatId :: "string option"
  ap_imContactId :: "string option"
  ap_contactName :: "string option"
  ap_imBotId :: "string option"
  ap_botName :: "string option"
  ap_source :: "string option"

record contact_snapshot =
  cs_chatId :: "string option"
  cs_imContactId :: "string option"
  cs_contactName :: "string option"
  cs_imBotId :: "string option"
  cs_botName :: "string option"

section \<open>The repository\<close>

definition findAll :: "bool \<Rightarrow> candidate_table \<Rightarrow> candidate_table" where
  "findAll ok d = (if ok then d else [])"

definition candidate_entries :: "candidate_table \<Rightarrow> candidate_record entries" where
  "candidate_entries items = fold (\<lambda>(k, v) m. m(k \<mapsto> v)) items (\<lambda>_. None)"

definition upsert_row :: "add_params \<Rightarrow> candidate_table \<Rightarrow> candidate_table" where
  "upsert_row p = AList.update (ap_targetId p) \<lparr>cb_reason = ap_reason p, cb_operator = ap_operator p,
     cb_chat_id = ap_chatId p, cb_im_contact_id = ap_imContactId p, cb_contact_name = ap_contactName p,
     cb_im_bot_id = ap_imBotId p, cb_bot_name = ap_botName p,
     cb_source = (case ap_source p of None \<Rightarrow> ''manual'' | Some s \<Rightarrow> s)\<rparr>"

definition upsertItem :: "add_params \<Rightarrow> candidate_world \<Rightarrow> candidate_world" where
  "upsertItem p w = (case request w of (a, w1) \<Rightarrow> write_table (upsert_row p) a w1)"

definition deleteByTargetId :: "string \<Rightarrow> candidate_world \<Rightarrow> nat \<times> candidate_world" where
  "deleteByTargetId k w = (case request w of (a, w1) \<Rightarrow>
     (if a = Answered then length (filter (\<lambda>x. fst x = k) (sw_db w1)) else 0,
      write_table (filter (\<lambda>x. fst x \<noteq> k)) a w1))"

section \<open>The service\<close>

definition candidate_policy :: "(candidate_table, candidate_record) switch_policy" where
  "candidate_policy = \<lparr>sp_expire = None, sp_read = (\<lambda>ok t d. Some (candidate_entries (findAll ok d))),
     sp_keep = (\<lambda>t e. True), sp_ttl = None\<rparr>"

fun first_match :: "candidate_record entries \<Rightarrow> string option list \<Rightarrow> candidate_record option" where
  "first_match m [] = None"
| "first_match m (x # xs) = (case x of None \<Rightarrow> first_match m xs
     | Some k \<Rightarrow> if k = [] then first_match m xs
         else (case m k of None \<Rightarrow> first_match m xs | Some item \<Rightarrow> Some item))"

definition matchBlacklisted :: "nat \<Rightarrow> string option list \<Rightarrow> candidate_world \<Rightarrow> candidate_record option \<times> candidate_world" where
  "matchBlacklisted r ks w = (let w1 = ensure_fresh candidate_policy r w in (first_match (fst (sw_local w1 r)) ks, w1))"

definition getCandidateBlacklist :: "nat \<Rightarrow> candidate_world \<Rightarrow> candidate_table \<times> candidate_world" where
  "getCandidateBlacklist r w = (case request w of (a, w1) \<Rightarrow>
     (let w2 = (if a = Answered then w1 else w1\<lparr>sw_failed_reads := sw_failed_reads w1 + 1\<rparr>);
          items = findAll (a = Answered) (sw_db w2) in
      (items, snd (persist_shared candidate_policy r (set_local r (candidate_entries items) (sw_time w2 + 1000) w2)))))"

definition candidate_refreshCache :: "nat \<Rightarrow> candidate_world \<Rightarrow> candidate_world" where
  "candidate_refreshCache r w = load_entries candidate_policy r (set_local r (fst (sw_local w r)) 0 w)"

definition or_else :: "'a option \<Rightarrow> 'a option \<Rightarrow> 'a option" where
  "or_else x y = (case x of None \<Rightarrow> y | Some v \<Rightarrow> Some v)"

text \<open>An empty text is missing to the first test, and present to \<open>??\<close>.\<close>

definition enrichContactSnapshot :: "(string \<Rightarrow> exn + contact_snapshot option) \<Rightarrow> add_params \<Rightarrow> add_params" where
  "enrichContactSnapshot findContactSnapshot p =
     (if ap_contactName p \<notin> {None, Some []} \<and> ap_imBotId p \<notin> {None, Some []} then p
      else case findContactSnapshot (ap_targetId p) of
        Inl e \<Rightarrow> p
      | Inr None \<Rightarrow> p
      | Inr (Some s) \<Rightarrow> p\<lparr>ap_chatId := or_else (ap_chatId p) (cs_chatId s),
          ap_imContactId := or_else (ap_imContactId p) (cs_imContactId s),
          ap_contactName := or_else (ap_contactName p) (cs_contactName s),
          ap_imBotId := or_else (ap_imBotId p) (cs_imBotId s),
          ap_botName := or_else (ap_botName p) (cs_botName s)\<rparr>)"

definition addCandidateToBlacklist :: "(string \<Rightarrow> exn + contact_snapshot option) \<Rightarrow> nat \<Rightarrow> add_params \<Rightarrow> candidate_world \<Rightarrow> candidate_world" where
  "addCandidateToBlacklist findContactSnapshot r p w =
     candidate_refreshCache r (upsertItem (enrichContactSnapshot findContactSnapshot p) w)"

definition removeCandidateFromBlacklist :: "nat \<Rightarrow> string \<Rightarrow> candidate_world \<Rightarrow> bool \<times> candidate_world" where
  "removeCandidateFromBlacklist r k w = (case deleteByTargetId k w of (n, w1) \<Rightarrow> (0 < n, candidate_refreshCache r w1))"

section \<open>Lemmas\<close>

interpretation candidate_switch: forgetful_switch candidate_policy
  by unfold_locales (simp_all add: candidate_policy_def findAll_def candidate_entries_def)

lemma first_match_none: "first_match (\<lambda>_. None) ks = None"
  by (induction ks) (auto split: option.split)

text \<open>After a failed read nobody is on the list any more.\<close>

lemma failed_read_clears_the_blacklist:
  assumes "snd (sw_local w r) < sw_time w" "sw_shared w = None"
    "sw_requests w = (d1, a1) # (d2, Refused) # (d3, Answered) # rs" "\<forall>x \<in> set rs. snd x = Answered"
  shows "fst (matchBlacklisted r ks w) = None"
    "candidate_switch.emptied w (snd (matchBlacklisted r ks w))"
proof -
  define w1 where "w1 = w\<lparr>sw_time := sw_time w + int d1, sw_requests := (d2, Refused) # (d3, Answered) # rs\<rparr>"
  have "ensure_fresh candidate_policy r w = read_entries candidate_policy r w1"
    using assms by (simp add: ensure_fresh_def read_shared_def request_def live_snapshot_def load_entries_def w1_def
        candidate_policy_def)
  then show "fst (matchBlacklisted r ks w) = None" "candidate_switch.emptied w (snd (matchBlacklisted r ks w))"
    using candidate_switch.failed_read_empties [OF _ assms(4), of w1 d2 d3 w r]
    by (simp_all add: matchBlacklisted_def Let_def first_match_none w1_def)
qed

lemma emptied_match:
  assumes "candidate_switch.emptied w0 w"
  shows "candidate_switch.emptied w0 (snd (matchBlacklisted r ks w))"
    "snd (sw_local w0 r) < sw_time w \<Longrightarrow> fst (matchBlacklisted r ks w) = None"
  using candidate_switch.emptied_ensure [OF assms, of r]
  by (simp_all add: matchBlacklisted_def Let_def first_match_none)

end
