(* ===== verification/ScenarioRegistry.thy ===== *)
theory ScenarioRegistry
  imports JsText
begin

text \<open>
  The scenarios in which the agent writes to a candidate on its own initiative, after
  \<open>scenario-registry.ts\<close>: when a touch fires, when it is stopped, whether it may be sent, and the id that
  keeps a touch for an interview from being scheduled twice.  The texts of a scenario (its names for the
  dashboard and the instructions for the model) are left out.  Of the state of a session, the fields that the
  functions read are kept, and of the interview method its text in UTF-16 units.
\<close>

section \<open>Data\<close>

datatype scenario_code = Opening_no_reply | Address_missing | Store_presented_no_reply | Booking_incomplete
  | Interview_reminder | Post_interview_followup | Post_interview_onboarding | New_job_for_waiting

fun code_text :: "scenario_code \<Rightarrow> string" where
  "code_text Opening_no_reply = ''opening_no_reply''"
| "code_text Address_missing = ''address_missing''"
| "code_text Store_presented_no_reply = ''store_presented_no_reply''"
| "code_text Booking_incomplete = ''booking_incomplete''"
| "code_text Interview_reminder = ''interview_reminder''"
| "code_text Post_interview_followup = ''post_interview_followup''"
| "code_text Post_interview_onboarding = ''post_interview_onboarding''"
| "code_text New_job_for_waiting = ''new_job_for_waiting''"

datatype scenario_phase = Pre_booking | Post_booking
datatype delay_mode = After_anchor | Before_interview | After_interview
datatype touch_variant = D2_confirm
datatype terminal_state = T_booked | T_handed_off | T_rejected | T_onboarded
datatype anchor_event = Opening_sent | Agent_replied | Store_presented | Collection_started | Booking_succeeded
  | Interview_passed | Job_published

record session_state =
  ss_presentedStores :: nat
  ss_invitedGroups :: "nat option"
  ss_lastCandidateMessageAt :: "int option"
  ss_lastProcessedCandidateMessageAt :: "int option"
  ss_terminal :: "terminal_state option"
  ss_interviewAt :: "int option"

record scenario_context =
  sx_anchorAt :: int
  sx_state :: session_state
  sx_interviewType :: "js_text option"

record scenario =
  sc_code :: scenario_code
  sc_phase :: scenario_phase
  sc_anchorEvent :: anchor_event
  sc_triggerDelayMs :: "scenario_context \<Rightarrow> int"
  sc_delayMode :: delay_mode
  sc_defaultDelayMinutes :: int
  sc_stopUnless :: "session_state \<Rightarrow> bool"
  sc_defaultRolloutEnabled :: bool
  sc_supersedes :: "scenario_code list"
  sc_canonicalAnchorEventId :: "string option"
  sc_sessionCooldownExempt :: bool

record rollout_config =
  rc_postBookingEnabled :: "bool option"
  rc_scenarioRollout :: "string \<Rightarrow> bool option"
  rc_delayMinutes :: "string \<Rightarrow> int option"

definition MINUTE :: int where "MINUTE = 60000"
definition HOUR :: int where "HOUR = 60 * MINUTE"

section \<open>The interview\<close>

definition ai_units :: js_text where "ai_units = [0x41, 0x49, 0x9762, 0x8BD5]"

text \<open>\<open>parseInterviewMethod(v) === 'AI...'\<close>: without white space, and in any case of its two letters.\<close>

definition isAiInterview :: "js_text option \<Rightarrow> bool" where
  "isAiInterview t = (case t of None \<Rightarrow> False
     | Some s \<Rightarrow> let v = filter (\<lambda>c. \<not> js_space c) s in
         length v = 4 \<and> v ! 0 \<in> {0x41, 0x61} \<and> v ! 1 \<in> {0x49, 0x69} \<and> drop 2 v = drop 2 ai_units)"

definition shanghaiHourOnInterviewDay :: "int \<Rightarrow> int \<Rightarrow> int" where
  "shanghaiHourOnInterviewDay t h = (t + 8 * HOUR) div (24 * HOUR) * (24 * HOUR) + h * HOUR - 8 * HOUR"

definition resolveInterviewAt :: "session_state \<Rightarrow> int option" where
  "resolveInterviewAt s = ss_interviewAt s"

definition hasInterviewAt :: "session_state \<Rightarrow> bool" where
  "hasInterviewAt s \<longleftrightarrow> resolveInterviewAt s \<noteq> None"

definition reminder_delay :: "scenario_context \<Rightarrow> int" where
  "reminder_delay x = (case resolveInterviewAt (sx_state x) of None \<Rightarrow> 0
     | Some t \<Rightarrow> max 0 (t - HOUR - sx_anchorAt x))"

definition followup_delay :: "scenario_context \<Rightarrow> int" where
  "followup_delay x = (case resolveInterviewAt (sx_state x) of None \<Rightarrow> 0
     | Some t \<Rightarrow> max 0 ((if isAiInterview (sx_interviewType x) then shanghaiHourOnInterviewDay t 17 else t + 2 * HOUR)
         - sx_anchorAt x))"

section \<open>The registry\<close>

definition FOLLOW_UP_SCENARIOS :: "scenario list" where
  "FOLLOW_UP_SCENARIOS = [
     \<lparr>sc_code = Opening_no_reply, sc_phase = Pre_booking, sc_anchorEvent = Opening_sent,
      sc_triggerDelayMs = (\<lambda>_. 15 * MINUTE), sc_delayMode = After_anchor, sc_defaultDelayMinutes = 15, sc_stopUnless = (\<lambda>_. True),
      sc_defaultRolloutEnabled = True, sc_supersedes = [], sc_canonicalAnchorEventId = Some ''opening'',
      sc_sessionCooldownExempt = False\<rparr>,
     \<lparr>sc_code = Address_missing, sc_phase = Pre_booking, sc_anchorEvent = Agent_replied,
      sc_triggerDelayMs = (\<lambda>_. 30 * MINUTE), sc_delayMode = After_anchor, sc_defaultDelayMinutes = 30, sc_stopUnless = (\<lambda>_. True),
      sc_defaultRolloutEnabled = False, sc_supersedes = [Opening_no_reply], sc_canonicalAnchorEventId = None,
      sc_sessionCooldownExempt = False\<rparr>,
     \<lparr>sc_code = Store_presented_no_reply, sc_phase = Pre_booking, sc_anchorEvent = Store_presented,
      sc_triggerDelayMs = (\<lambda>_. 30 * MINUTE), sc_delayMode = After_anchor, sc_defaultDelayMinutes = 30, sc_stopUnless = (\<lambda>s. 0 < ss_presentedStores s),
      sc_defaultRolloutEnabled = False, sc_supersedes = [], sc_canonicalAnchorEventId = None,
      sc_sessionCooldownExempt = False\<rparr>,
     \<lparr>sc_code = Booking_incomplete, sc_phase = Pre_booking, sc_anchorEvent = Collection_started,
      sc_triggerDelayMs = (\<lambda>_. 30 * MINUTE), sc_delayMode = After_anchor, sc_defaultDelayMinutes = 30, sc_stopUnless = (\<lambda>_. True),
      sc_defaultRolloutEnabled = True, sc_supersedes = [], sc_canonicalAnchorEventId = None,
      sc_sessionCooldownExempt = False\<rparr>,
     \<lparr>sc_code = Interview_reminder, sc_phase = Post_booking, sc_anchorEvent = Booking_succeeded,
      sc_triggerDelayMs = reminder_delay, sc_delayMode = Before_interview, sc_defaultDelayMinutes = 60,
      sc_stopUnless = (\<lambda>s. ss_terminal s \<noteq> Some T_rejected \<and> hasInterviewAt s),
      sc_defaultRolloutEnabled = True, sc_supersedes = [], sc_canonicalAnchorEventId = None,
      sc_sessionCooldownExempt = True\<rparr>,
     \<lparr>sc_code = Post_interview_followup, sc_phase = Post_booking, sc_anchorEvent = Booking_succeeded,
      sc_triggerDelayMs = followup_delay, sc_delayMode = After_interview, sc_defaultDelayMinutes = 120, sc_stopUnless = hasInterviewAt,
      sc_defaultRolloutEnabled = False, sc_supersedes = [], sc_canonicalAnchorEventId = None,
      sc_sessionCooldownExempt = False\<rparr>,
     \<lparr>sc_code = Post_interview_onboarding, sc_phase = Post_booking, sc_anchorEvent = Interview_passed,
      sc_triggerDelayMs = (\<lambda>_. 3 * 24 * HOUR), sc_delayMode = After_anchor, sc_defaultDelayMinutes = 4320, sc_stopUnless = (\<lambda>_. True),
      sc_defaultRolloutEnabled = False, sc_supersedes = [], sc_canonicalAnchorEventId = None,
      sc_sessionCooldownExempt = False\<rparr>,
     \<lparr>sc_code = New_job_for_waiting, sc_phase = Pre_booking, sc_anchorEvent = Job_published,
      sc_triggerDelayMs = (\<lambda>_. 0), sc_delayMode = After_anchor, sc_defaultDelayMinutes = 0, sc_stopUnless = (\<lambda>_. True),
      sc_defaultRolloutEnabled = False, sc_supersedes = [], sc_canonicalAnchorEventId = None,
      sc_sessionCooldownExempt = False\<rparr>]"

definition getScenario :: "scenario_code \<Rightarrow> scenario option" where
  "getScenario c = find (\<lambda>s. sc_code s = c) FOLLOW_UP_SCENARIOS"

section \<open>Ids\<close>

definition anchor_version :: "scenario_code \<Rightarrow> js_text option \<Rightarrow> touch_variant option \<Rightarrow> string" where
  "anchor_version c interviewType variant =
     (if c = Interview_reminder \<and> variant = Some D2_confirm then '':d2''
      else if c = Post_interview_followup \<and> isAiInterview interviewType then '':ai17'' else [])"

definition bookingFollowUpAnchorId :: "nat \<Rightarrow> int \<Rightarrow> scenario_code \<Rightarrow> js_text option \<Rightarrow> touch_variant option \<Rightarrow> string" where
  "bookingFollowUpAnchorId workOrderId interviewAt c interviewType variant =
     ''wo'' @ show_nat workOrderId @ '':iv'' @ show_int interviewAt @ '':'' @ code_text c @ anchor_version c interviewType variant"

section \<open>Switches and times\<close>

definition resolveVariantConfigKey :: "scenario_code \<Rightarrow> touch_variant option \<Rightarrow> string option" where
  "resolveVariantConfigKey c variant =
     (if c = Interview_reminder \<and> variant = Some D2_confirm then Some ''interview_reminder:d2'' else None)"

definition resolveRolloutEnabled :: "scenario \<Rightarrow> rollout_config \<Rightarrow> touch_variant option \<Rightarrow> bool \<Rightarrow> bool" where
  "resolveRolloutEnabled s cfg variant invite =
     (if \<not> (case rc_scenarioRollout cfg (code_text (sc_code s)) of Some b \<Rightarrow> b | None \<Rightarrow> sc_defaultRolloutEnabled s) then False
      else if sc_phase s = Post_booking \<and> rc_postBookingEnabled cfg = Some False then False
      else case (if invite \<and> sc_code s = Store_presented_no_reply then Some ''store_presented_no_reply:invite''
                 else resolveVariantConfigKey (sc_code s) variant) of
             Some k \<Rightarrow> (case rc_scenarioRollout cfg k of Some b \<Rightarrow> b | None \<Rightarrow> True)
           | None \<Rightarrow> True)"

definition resolveDelayMs :: "scenario \<Rightarrow> scenario_context \<Rightarrow> int option \<Rightarrow> touch_variant option \<Rightarrow> int" where
  "resolveDelayMs s x configured variant =
     (case (case configured of Some n \<Rightarrow> Some n
            | None \<Rightarrow> if sc_code s = Interview_reminder \<and> variant = Some D2_confirm then Some (2 * 24 * 60) else None) of
        None \<Rightarrow> sc_triggerDelayMs s x
      | Some n \<Rightarrow>
          if sc_delayMode s = After_anchor then n * MINUTE
          else case resolveInterviewAt (sx_state x) of None \<Rightarrow> 0
            | Some t \<Rightarrow> max 0 ((if sc_delayMode s = Before_interview then t - n * MINUTE else t + n * MINUTE) - sx_anchorAt x))"

definition computeFireAt :: "scenario \<Rightarrow> scenario_context \<Rightarrow> int option \<Rightarrow> touch_variant option \<Rightarrow> int" where
  "computeFireAt s x configured variant = sx_anchorAt x + resolveDelayMs s x configured variant"

section \<open>When a touch is stopped\<close>

definition REPLY_PROCESSING_GRACE_MS :: int where "REPLY_PROCESSING_GRACE_MS = 10 * MINUTE"

definition isCandidateReplyUnattended :: "session_state \<Rightarrow> int \<Rightarrow> int option \<Rightarrow> bool" where
  "isCandidateReplyUnattended s now handled =
     (case (ss_lastCandidateMessageAt s, ss_lastProcessedCandidateMessageAt s) of
        (Some l, Some p) \<Rightarrow>
          if l \<le> p then False
          else if (case handled of Some h \<Rightarrow> l \<le> h | None \<Rightarrow> False) then False
          else REPLY_PROCESSING_GRACE_MS \<le> now - l
      | _ \<Rightarrow> False)"

definition legacyTerminalStops :: "terminal_state option \<Rightarrow> scenario_phase \<Rightarrow> bool" where
  "legacyTerminalStops t ph \<longleftrightarrow> t \<noteq> None \<and> \<not> (ph = Post_booking \<and> (t = Some T_booked \<or> t = Some T_handed_off))"

datatype stop_reason = Stop_terminal terminal_state | Invited_to_group | Replied_after_anchor | No_longer_holds

definition shouldStop :: "scenario \<Rightarrow> session_state \<Rightarrow> int \<Rightarrow> bool \<Rightarrow> int \<Rightarrow> int option \<Rightarrow> stop_reason option" where
  "shouldStop s st anchorAt verifiable now handled =
     (if legacyTerminalStops (ss_terminal st) (sc_phase s) then map_option Stop_terminal (ss_terminal st)
      else if sc_code s = Store_presented_no_reply \<and> (case ss_invitedGroups st of Some n \<Rightarrow> 0 < n | None \<Rightarrow> False)
        then Some Invited_to_group
      else if \<not> (sc_phase s = Post_booking \<and> verifiable)
          \<and> (case ss_lastCandidateMessageAt st of Some l \<Rightarrow> anchorAt < l | None \<Rightarrow> False)
          \<and> \<not> isCandidateReplyUnattended st now handled then Some Replied_after_anchor
      else if \<not> sc_stopUnless s st then Some No_longer_holds
      else None)"

section \<open>Lemmas\<close>

lemma scenario_codes: "map sc_code FOLLOW_UP_SCENARIOS = [Opening_no_reply, Address_missing, Store_presented_no_reply,
    Booking_incomplete, Interview_reminder, Post_interview_followup, Post_interview_onboarding, New_job_for_waiting]"
  by (simp add: FOLLOW_UP_SCENARIOS_def)

lemma getScenario_known: "\<exists>s. getScenario c = Some s \<and> sc_code s = c \<and> s \<in> set FOLLOW_UP_SCENARIOS"
  by (cases c) (simp_all add: getScenario_def FOLLOW_UP_SCENARIOS_def)

lemma getScenario_code: "getScenario c = Some s \<Longrightarrow> sc_code s = c"
  using getScenario_known [of c] by auto

fun phase_of :: "scenario_code \<Rightarrow> scenario_phase" where
  "phase_of Interview_reminder = Post_booking"
| "phase_of Post_interview_followup = Post_booking"
| "phase_of Post_interview_onboarding = Post_booking"
| "phase_of _ = Pre_booking"

lemma getScenario_phase: "getScenario c = Some s \<Longrightarrow> sc_phase s = phase_of c"
  by (cases c) (auto simp: getScenario_def FOLLOW_UP_SCENARIOS_def)

text \<open>A variant is sent only if its scenario is.\<close>

lemma variant_follows_scenario:
  "resolveRolloutEnabled s cfg variant invite \<Longrightarrow> resolveRolloutEnabled s cfg None False"
  by (auto simp: resolveRolloutEnabled_def resolveVariantConfigKey_def split: if_splits option.splits)

text \<open>The minutes the dashboard shows are the ones the code uses, except after an AI interview.\<close>

lemma default_minutes_agree:
  assumes "s \<in> set FOLLOW_UP_SCENARIOS" "sc_code s = Post_interview_followup \<longrightarrow> \<not> isAiInterview (sx_interviewType x)"
  shows "resolveDelayMs s x (Some (sc_defaultDelayMinutes s)) None = resolveDelayMs s x None None"
  using assms
  by (auto simp: FOLLOW_UP_SCENARIOS_def resolveDelayMs_def reminder_delay_def followup_delay_def MINUTE_def HOUR_def
      split: option.split)

text \<open>The ids: a number has only digits and can be read back.\<close>

lemma digit_value: "m < 10 \<Longrightarrow> (of_char (char_of (48 + m) :: char) :: nat) = 48 + m"
  by (simp add: take_bit_eq_mod)

lemma show_nat_digits: "c \<in> set (show_nat n) \<Longrightarrow> 48 \<le> (of_char c :: nat) \<and> (of_char c :: nat) \<le> 57"
proof (induction n rule: show_nat.induct)
  case (1 n)
  show ?case
  proof (cases "n < 10")
    case True
    then have "c = char_of (48 + n)" using 1(2) by (simp add: show_nat.simps [of n])
    then show ?thesis using digit_value [OF True] True by simp
  next
    case False
    then have "c \<in> set (show_nat (n div 10)) \<or> c = char_of (48 + n mod 10)"
      using 1(2) by (auto simp: show_nat.simps [of n])
    moreover have "n mod 10 < 10" by simp
    ultimately show ?thesis using 1(1) [OF False] digit_value [of "n mod 10"] by auto
  qed
qed

definition read_nat :: "string \<Rightarrow> nat" where
  "read_nat s = foldl (\<lambda>a c. a * 10 + (of_char c - 48)) 0 s"

lemma read_show_nat: "read_nat (show_nat n) = n"
proof (induction n rule: show_nat.induct)
  case (1 n)
  show ?case
  proof (cases "n < 10")
    case True
    then show ?thesis using digit_value [OF True] by (simp add: read_nat_def show_nat.simps [of n])
  next
    case False
    have "n mod 10 < 10" by simp
    then show ?thesis using 1 [OF False] False digit_value [of "n mod 10"]
      by (simp add: read_nat_def show_nat.simps [of n])
  qed
qed

lemma show_nat_inj: "show_nat m = show_nat n \<Longrightarrow> m = n"
  by (metis read_show_nat)

lemma show_nat_free: "CHR '':'' \<notin> set (show_nat n)" "CHR ''-'' \<notin> set (show_nat n)"
  using show_nat_digits [of "CHR '':''" n] show_nat_digits [of "CHR ''-''" n] by auto

lemma show_int_inj: "show_int a = show_int b \<Longrightarrow> a = b"
proof -
  assume e: "show_int a = show_int b"
  have n: "show_nat n \<noteq> CHR ''-'' # s" for n s using show_nat_free(2) [of n] by auto
  then have n': "CHR ''-'' # s \<noteq> show_nat n" for n s by metis
  show ?thesis using e n n' by (auto simp: show_int_def dest!: show_nat_inj split: if_splits)
qed

lemma show_int_free: "CHR '':'' \<notin> set (show_int a)"
  using show_nat_free(1) by (auto simp: show_int_def)

lemma split_at: "x \<notin> set a \<Longrightarrow> x \<notin> set b \<Longrightarrow> a @ x # s = b @ x # t \<longleftrightarrow> a = b \<and> s = t"
proof (induction a arbitrary: b)
  case Nil
  then show ?case by (cases b) auto
next
  case (Cons y a)
  then show ?case by (cases b) auto
qed

lemma code_text_free: "CHR '':'' \<notin> set (code_text c)"
  by (cases c) simp_all

lemma code_text_inj: "code_text c = code_text d \<Longrightarrow> c = d"
  by (cases c; cases d) simp_all

lemma split_colon:
  assumes "CHR '':'' \<notin> set a" "CHR '':'' \<notin> set b" "x = [] \<or> hd x = CHR '':''" "y = [] \<or> hd y = CHR '':''"
    "a @ x = b @ y"
  shows "a = b \<and> x = y"
proof -
  have "takeWhile (\<lambda>c. c \<noteq> CHR '':'') (z @ u) = z" if "CHR '':'' \<notin> set z" "u = [] \<or> hd u = CHR '':''" for z u
    using that by (induction z) (auto simp: takeWhile_eq_Nil_iff)
  then have "a = b" using assms by metis
  then show ?thesis using assms(5) by simp
qed

lemma code_version_inj:
  assumes "code_text c @ anchor_version c t v = code_text d @ anchor_version d t' v'"
  shows "c = d \<and> anchor_version c t v = anchor_version d t' v'"
proof -
  have a: "anchor_version c t v = [] \<or> hd (anchor_version c t v) = CHR '':''" for c t v
    by (simp add: anchor_version_def)
  show ?thesis
    using split_colon [OF code_text_free code_text_free a a assms] code_text_inj by simp
qed

text \<open>An id names one touch of one interview: two touches after a booking have the same id only if they are
  for the same work order, the same time of the interview, the same scenario and the same version of its schedule.\<close>

theorem booking_anchor_is_unique:
  "bookingFollowUpAnchorId wo at c t v = bookingFollowUpAnchorId wo' at' c' t' v' \<longleftrightarrow>
     wo = wo' \<and> at = at' \<and> c = c' \<and> anchor_version c t v = anchor_version c' t' v'"
proof -
  have "bookingFollowUpAnchorId wo at c t v = bookingFollowUpAnchorId wo' at' c' t' v' \<longleftrightarrow>
     show_nat wo @ CHR '':'' # (''iv'' @ show_int at @ CHR '':'' # (code_text c @ anchor_version c t v)) =
     show_nat wo' @ CHR '':'' # (''iv'' @ show_int at' @ CHR '':'' # (code_text c' @ anchor_version c' t' v'))"
    by (simp add: bookingFollowUpAnchorId_def)
  also have "\<dots> \<longleftrightarrow> show_nat wo = show_nat wo' \<and> show_int at = show_int at' \<and>
     code_text c @ anchor_version c t v = code_text c' @ anchor_version c' t' v'"
    by (simp add: split_at show_nat_free show_int_free)
  also have "\<dots> \<longleftrightarrow> wo = wo' \<and> at = at' \<and> c = c' \<and> anchor_version c t v = anchor_version c' t' v'"
    using show_nat_inj show_int_inj code_version_inj by blast
  finally show ?thesis .
qed

end
