(* ===== verification/FollowUpScheduler.thy ===== *)
theory FollowUpScheduler
  imports ScenarioRegistry Triples
begin

text \<open>
  The touches that wait for their time, after \<open>follow-up-scheduler.service.ts\<close>.  The queue is what Bull documents:
  jobs with an id and a status; adding an id that is there does nothing, and a job that a worker has
  locked cannot be removed.  Every request takes time, during which the workers go on and other calls of the scheduler, here and
  in other replicas, add and remove jobs (\<open>worker_event\<close>), and its answer may be lost, or the request may not be carried
  out at all.
\<close>

section \<open>Jobs\<close>

record session_ref =
  sr_sessionId :: string
  sr_userId :: string
  sr_corpId :: string

record channel_identity =
  ci_candidateName :: "string option"
  ci_managerName :: "string option"
  ci_botImId :: "string option"
  ci_imContactId :: "string option"
  ci_externalUserId :: "string option"

record follow_up_job =
  fj_sessionRef :: session_ref
  fj_scenarioCode :: scenario_code
  fj_anchorEventId :: string
  fj_anchorAt :: int
  fj_channelIdentity :: "channel_identity option"
  fj_workOrderId :: "nat option"
  fj_resolveBookingAtFire :: bool
  fj_touchVariant :: "touch_variant option"
  fj_escalateToGroupInvite :: bool
  fj_onboardingCheck :: bool
  fj_onboardingTouchAcceptedAt :: "int option"
  fj_interviewSlotCheck :: bool
  fj_collectionAwaitingConfirmation :: bool

record schedule_input =
  si_sessionRef :: session_ref
  si_scenarioCode :: scenario_code
  si_anchorEventId :: string
  si_anchorAt :: int
  si_state :: "session_state option"
  si_workOrderId :: "nat option"
  si_interviewType :: "js_text option"
  si_channelIdentity :: "channel_identity option"
  si_touchVariant :: "touch_variant option"
  si_escalateToGroupInvite :: bool
  si_collectionAwaitingConfirmation :: bool

record touch_identity =
  ti_sessionId :: string
  ti_userId :: string
  ti_corpId :: string
  ti_scenarioCode :: scenario_code
  ti_anchorEventId :: string
  ti_anchorAt :: int
  ti_channel :: "channel_identity option"

datatype schedule_reason = R_disabled | R_unknown_scenario | R_missing_interview_time | R_stop stop_reason | R_duplicate_job
  | R_dominated | R_enqueue_error | R_stale | R_resolution_error

record schedule_result =
  res_scheduled :: bool
  res_reason :: "schedule_reason option"
  res_fireAt :: "int option"
  res_jobId :: "string option"

section \<open>The queue\<close>

datatype job_status = Delayed | Waiting | Paused | Active | Completed | Failed | Stuck

record queue_entry =
  qe_id :: string
  qe_data :: follow_up_job
  qe_status :: job_status
  qe_delay :: int
  qe_tried :: bool

definition PENDING_JOB_STATUSES :: "job_status list" where
  "PENDING_JOB_STATUSES = [Delayed, Waiting, Paused]"

abbreviation "pending e \<equiv> qe_status e \<in> set PENDING_JOB_STATUSES"

section \<open>The jobs that are asked for\<close>

definition buildJobId :: "string \<Rightarrow> scenario_code \<Rightarrow> string \<Rightarrow> string" where
  "buildJobId sess c anchor = sess @ '':'' @ code_text c @ '':'' @ anchor"

definition job_of_input :: "schedule_input \<Rightarrow> follow_up_job" where
  "job_of_input i = \<lparr>fj_sessionRef = si_sessionRef i, fj_scenarioCode = si_scenarioCode i, fj_anchorEventId = si_anchorEventId i,
     fj_anchorAt = si_anchorAt i, fj_channelIdentity = si_channelIdentity i, fj_workOrderId = si_workOrderId i,
     fj_resolveBookingAtFire = False, fj_touchVariant = si_touchVariant i, fj_escalateToGroupInvite = si_escalateToGroupInvite i,
     fj_onboardingCheck = False, fj_onboardingTouchAcceptedAt = None, fj_interviewSlotCheck = False,
     fj_collectionAwaitingConfirmation = si_collectionAwaitingConfirmation i\<rparr>"

definition input_job_id :: "schedule_input \<Rightarrow> string" where
  "input_job_id i = buildJobId (sr_sessionId (si_sessionRef i)) (si_scenarioCode i) (si_anchorEventId i)"

text \<open>The three jobs that are no touches.\<close>

definition plain_job :: "session_ref \<Rightarrow> scenario_code \<Rightarrow> string \<Rightarrow> int \<Rightarrow> nat \<Rightarrow> channel_identity option \<Rightarrow> follow_up_job" where
  "plain_job r c anchor at wo ch = \<lparr>fj_sessionRef = r, fj_scenarioCode = c, fj_anchorEventId = anchor, fj_anchorAt = at,
     fj_channelIdentity = ch, fj_workOrderId = Some wo, fj_resolveBookingAtFire = False, fj_touchVariant = None,
     fj_escalateToGroupInvite = False, fj_onboardingCheck = False, fj_onboardingTouchAcceptedAt = None,
     fj_interviewSlotCheck = False, fj_collectionAwaitingConfirmation = False\<rparr>"

text \<open>The operations of the service.\<close>

datatype schedule_op = Op_follow_up schedule_input
  | Op_onboarding_check session_ref nat int "channel_identity option"
  | Op_slot_check session_ref nat int "channel_identity option"
  | Op_resolution session_ref scenario_code nat string int "channel_identity option"
  | Op_remove string "string option" "int option"
  | Op_superseded session_ref scenario_code "string option" "int option"
  | Op_stop session_ref scenario_code string "int option"

text \<open>The job that an operation adds, if it adds one.\<close>

fun asked_job :: "schedule_op \<Rightarrow> (string \<times> follow_up_job) option" where
  "asked_job (Op_follow_up i) = Some (input_job_id i, job_of_input i)"
| "asked_job (Op_onboarding_check r wo since ch) = (let anchor = ''wo'' @ show_nat wo @ '':onboarding_check'' in
     Some (buildJobId (sr_sessionId r) Post_interview_onboarding anchor,
       (plain_job r Post_interview_onboarding anchor since wo ch)\<lparr>fj_onboardingCheck := True\<rparr>))"
| "asked_job (Op_slot_check r wo since ch) = (let anchor = ''wo'' @ show_nat wo @ '':interview_slot_check'' in
     Some (buildJobId (sr_sessionId r) Interview_reminder anchor,
       (plain_job r Interview_reminder anchor since wo ch)\<lparr>fj_interviewSlotCheck := True\<rparr>))"
| "asked_job (Op_resolution r c wo anchor since ch) =
     Some (buildJobId (sr_sessionId r) c anchor @ '':resolve'',
       (plain_job r c anchor since wo ch)\<lparr>fj_resolveBookingAtFire := True\<rparr>)"
| "asked_job _ = None"

section \<open>What happens meanwhile\<close>

definition add_entry :: "string \<Rightarrow> follow_up_job \<Rightarrow> int \<Rightarrow> queue_entry list \<Rightarrow> queue_entry list" where
  "add_entry k data delay es = (if \<exists>e\<in>set es. qe_id e = k then es
     else es @ [\<lparr>qe_id = k, qe_data = data, qe_status = (if 0 < delay then Delayed else Waiting), qe_delay = delay, qe_tried = False\<rparr>])"

text \<open>A worker makes a delayed job wait, starts one, ends one for good or for a later attempt, the queue forgets a finished one;
  the data of a job that is being worked on can be replaced.  The workers and the other replicas use the scheduler too, so jobs
  are added and removed while a call waits for its answer.\<close>

datatype worker_event = Promote string | Start string | Accepted string int | Finish string job_status | Purge string
  | Added schedule_op nat | Removed string

fun worker_step :: "worker_event \<Rightarrow> queue_entry list \<Rightarrow> queue_entry list" where
  "worker_step (Promote k) es = map (\<lambda>e. if qe_id e = k \<and> qe_status e = Delayed then e\<lparr>qe_status := Waiting\<rparr> else e) es"
| "worker_step (Start k) es = map (\<lambda>e. if qe_id e = k \<and> pending e then e\<lparr>qe_status := Active, qe_tried := True\<rparr> else e) es"
| "worker_step (Accepted k t) es = map (\<lambda>e. if qe_id e = k \<and> qe_status e = Active
     then e\<lparr>qe_data := (qe_data e)\<lparr>fj_onboardingTouchAcceptedAt := Some t\<rparr>\<rparr> else e) es"
| "worker_step (Finish k s) es = map (\<lambda>e. if qe_id e = k \<and> qe_status e = Active then e\<lparr>qe_status := s\<rparr> else e) es"
| "worker_step (Purge k) es = filter (\<lambda>e. \<not> (qe_id e = k \<and> qe_status e \<in> {Completed, Failed})) es"
| "worker_step (Added op delay) es = (case asked_job op of None \<Rightarrow> es | Some (k, data) \<Rightarrow> add_entry k data (int delay) es)"
| "worker_step (Removed k) es = filter (\<lambda>e. \<not> (qe_id e = k \<and> qe_status e \<noteq> Active)) es"

section \<open>Requests\<close>

datatype queue_reply = Done | Done_unheard | Not_done

datatype track_event =
    Track_scheduled touch_identity string int
  | Track_skipped touch_identity schedule_reason
  | Track_schedule_error touch_identity
  | Track_superseded touch_identity string "string option" string
  | Track_stopped_before_fire touch_identity string string

record schedule_world =
  fw_time :: int
  fw_jobs :: "queue_entry list"
  fw_requests :: "(nat \<times> worker_event list \<times> queue_reply) list"
  fw_enabled :: bool
  fw_delayMinutes :: "string \<Rightarrow> int option"
  fw_tracked :: "track_event list"

definition queue_request :: "schedule_world \<Rightarrow> queue_reply \<times> schedule_world" where
  "queue_request w = (case fw_requests w of [] \<Rightarrow> (Done, w)
     | (d, evs, a) # rs \<Rightarrow> (a, w\<lparr>fw_time := fw_time w + int d, fw_jobs := fold worker_step evs (fw_jobs w), fw_requests := rs\<rparr>))"

text \<open>A call that reads, and one that changes the jobs; what is not answered rejects.\<close>

definition queue_read :: "(schedule_world \<Rightarrow> 'a) \<Rightarrow> (schedule_world, 'a) act" where
  "queue_read f w = (case queue_request w of (a, w1) \<Rightarrow> (if a = Done then Inr (f w1) else Inl ''queue'', w1))"

definition queue_write :: "(queue_entry list \<Rightarrow> bool \<times> queue_entry list) \<Rightarrow> (schedule_world, unit) act" where
  "queue_write f w = (case queue_request w of (a, w1) \<Rightarrow>
     (case f (fw_jobs w1) of (ok, es) \<Rightarrow>
       (if a = Done \<and> ok then Inr () else Inl ''queue'', if a = Not_done then w1 else w1\<lparr>fw_jobs := es\<rparr>)))"

definition getJob :: "string \<Rightarrow> (schedule_world, queue_entry option) act" where
  "getJob k = queue_read (\<lambda>w. find (\<lambda>e. qe_id e = k) (fw_jobs w))"

text \<open>A job that is removed while the list is read is \<open>null\<close> in it.\<close>

definition getJobs :: "(schedule_world, queue_entry option list) act" where
  "getJobs = queue_read (\<lambda>w. map Some (filter (\<lambda>e. pending e) (fw_jobs w)))"

definition getJobState :: "string \<Rightarrow> (schedule_world, job_status) act" where
  "getJobState k = queue_read (\<lambda>w. case find (\<lambda>e. qe_id e = k) (fw_jobs w) of None \<Rightarrow> Stuck | Some e \<Rightarrow> qe_status e)"

definition removeJob :: "string \<Rightarrow> (schedule_world, unit) act" where
  "removeJob k = queue_write (\<lambda>es. if \<exists>e\<in>set es. qe_id e = k \<and> qe_status e = Active then (False, es)
     else (True, filter (\<lambda>e. qe_id e \<noteq> k) es))"

definition addJob :: "string \<Rightarrow> follow_up_job \<Rightarrow> int \<Rightarrow> (schedule_world, unit) act" where
  "addJob k data delay = queue_write (\<lambda>es. (True, add_entry k data delay es))"

definition get_config :: "(schedule_world, bool \<times> (string \<Rightarrow> int option)) act" where
  "get_config = queue_read (\<lambda>w. (fw_enabled w, fw_delayMinutes w))"

definition track :: "track_event \<Rightarrow> (schedule_world, unit) act" where
  "track e w = (Inr (), w\<lparr>fw_tracked := fw_tracked w @ [e]\<rparr>)"

definition now_ms :: "(schedule_world, int) act" where
  "now_ms w = (Inr (fw_time w), w)"

section \<open>Helpers of the service\<close>

definition createEmptyState :: session_state where
  "createEmptyState = \<lparr>ss_presentedStores = 0, ss_invitedGroups = None, ss_lastCandidateMessageAt = None,
     ss_lastProcessedCandidateMessageAt = None, ss_terminal = None, ss_interviewAt = None\<rparr>"

definition buildIdentityFromJobData :: "follow_up_job \<Rightarrow> touch_identity" where
  "buildIdentityFromJobData d = \<lparr>ti_sessionId = sr_sessionId (fj_sessionRef d), ti_userId = sr_userId (fj_sessionRef d),
     ti_corpId = sr_corpId (fj_sessionRef d), ti_scenarioCode = fj_scenarioCode d, ti_anchorEventId = fj_anchorEventId d,
     ti_anchorAt = fj_anchorAt d, ti_channel = fj_channelIdentity d\<rparr>"

definition trackRemovedPendingJob :: "follow_up_job \<Rightarrow> string \<Rightarrow> string option \<Rightarrow> string \<Rightarrow> (schedule_world, unit) act" where
  "trackRemovedPendingJob d k by reason = track (Track_superseded (buildIdentityFromJobData d) k by reason)"

definition shouldRemovePendingJob :: "schedule_input \<Rightarrow> scenario \<Rightarrow> follow_up_job \<Rightarrow> bool" where
  "shouldRemovePendingJob i s d =
     (if sr_sessionId (fj_sessionRef d) \<noteq> sr_sessionId (si_sessionRef i) then False
      else case getScenario (fj_scenarioCode d) of None \<Rightarrow> False
      | Some cs \<Rightarrow>
        if sc_phase s = Pre_booking then
          (if fj_scenarioCode d = Booking_incomplete \<and> si_scenarioCode i \<noteq> Booking_incomplete then False
           else sc_phase cs = Pre_booking)
        else if sc_phase cs = Pre_booking then True
        else case (si_workOrderId i, fj_workOrderId d) of
            (Some n, Some m) \<Rightarrow> if m \<noteq> n then False
               else fj_scenarioCode d = si_scenarioCode i \<and> fj_touchVariant d = si_touchVariant i
          | _ \<Rightarrow> True)"

fun remove_loop :: "schedule_input \<Rightarrow> scenario \<Rightarrow> string \<Rightarrow> queue_entry option list \<Rightarrow> (schedule_world, unit) act" where
  "remove_loop i s cur [] = act_ret ()"
| "remove_loop i s cur (None # es) = remove_loop i s cur es"
| "remove_loop i s cur (Some e # es) =
     (if qe_id e = cur \<or> \<not> shouldRemovePendingJob i s (qe_data e) then remove_loop i s cur es
      else act_bind (act_catch (act_bind (removeJob (qe_id e)) (\<lambda>_. trackRemovedPendingJob (qe_data e) (qe_id e) (Some cur)
               (code_text (si_scenarioCode i) @ ''_supersedes_pending''))) (\<lambda>_. act_ret ()))
             (\<lambda>_. remove_loop i s cur es))"

text \<open>The answer says whether a collection of data in progress comes first.\<close>

definition collecting :: "schedule_input \<Rightarrow> scenario \<Rightarrow> queue_entry option \<Rightarrow> bool" where
  "collecting i s x \<longleftrightarrow> si_scenarioCode i \<noteq> Booking_incomplete \<and> sc_phase s = Pre_booking \<and>
     (case x of None \<Rightarrow> False | Some e \<Rightarrow>
        sr_sessionId (fj_sessionRef (qe_data e)) = sr_sessionId (si_sessionRef i) \<and>
        fj_scenarioCode (qe_data e) = Booking_incomplete)"

definition removeSupersededPendingJobsBeforeEnqueue ::
    "schedule_input \<Rightarrow> scenario \<Rightarrow> string \<Rightarrow> (schedule_world, bool) act" where
  "removeSupersededPendingJobsBeforeEnqueue i s cur =
     act_bind (act_catch (act_bind getJobs (\<lambda>es. act_ret (Some es))) (\<lambda>_. act_ret None)) (\<lambda>x. case x of
       None \<Rightarrow> act_ret False
     | Some es \<Rightarrow> if list_ex (collecting i s) es then act_ret True
         else act_bind (remove_loop i s cur es) (\<lambda>_. act_ret False))"

definition refused_with :: "schedule_reason \<Rightarrow> string option \<Rightarrow> schedule_result" where
  "refused_with r k = \<lparr>res_scheduled = False, res_reason = Some r, res_fireAt = None, res_jobId = k\<rparr>"

definition scheduled_at :: "int \<Rightarrow> string \<Rightarrow> schedule_result" where
  "scheduled_at t k = \<lparr>res_scheduled = True, res_reason = None, res_fireAt = Some t, res_jobId = Some k\<rparr>"

definition input_identity :: "schedule_input \<Rightarrow> touch_identity" where
  "input_identity i = buildIdentityFromJobData (job_of_input i)"

section \<open>The operations\<close>

definition enqueue_touch :: "schedule_input \<Rightarrow> int \<Rightarrow> int \<Rightarrow> string \<Rightarrow> (schedule_world, schedule_result) act" where
  "enqueue_touch i fireAt delay k =
     act_catch (act_bind (addJob k (job_of_input i) delay) (\<lambda>_.
       act_bind (track (Track_scheduled (input_identity i) k fireAt)) (\<lambda>_. act_ret (scheduled_at fireAt k))))
       (\<lambda>_. act_bind (track (Track_schedule_error (input_identity i))) (\<lambda>_. act_ret (refused_with R_enqueue_error None)))"

definition input_state :: "schedule_input \<Rightarrow> session_state" where
  "input_state i = (case si_state i of Some st \<Rightarrow> st | None \<Rightarrow> createEmptyState)"

definition input_fireAt :: "schedule_input \<Rightarrow> scenario \<Rightarrow> (string \<Rightarrow> int option) \<Rightarrow> int" where
  "input_fireAt i s delays = computeFireAt s
     \<lparr>sx_anchorAt = si_anchorAt i, sx_state = input_state i, sx_interviewType = si_interviewType i\<rparr>
     (delays (case resolveVariantConfigKey (sc_code s) (si_touchVariant i) of Some k \<Rightarrow> k | None \<Rightarrow> code_text (sc_code s)))
     (si_touchVariant i)"

definition schedule_checked :: "schedule_input \<Rightarrow> scenario \<Rightarrow> (string \<Rightarrow> int option) \<Rightarrow> (schedule_world, schedule_result) act" where
  "schedule_checked i s delays = act_bind now_ms (\<lambda>now.
     let fireAt = input_fireAt i s delays; delay = max 0 (fireAt - now); k = input_job_id i in
     act_bind (act_catch (getJob k) (\<lambda>_. act_ret None)) (\<lambda>x. case x of
       Some e \<Rightarrow> act_ret (refused_with R_duplicate_job (Some k))
     | None \<Rightarrow> act_bind (removeSupersededPendingJobsBeforeEnqueue i s k) (\<lambda>blocked.
         if blocked then act_bind (track (Track_skipped (input_identity i) R_dominated)) (\<lambda>_. act_ret (refused_with R_dominated (Some k)))
         else enqueue_touch i fireAt delay k)))"

definition skip_touch :: "schedule_input \<Rightarrow> schedule_reason \<Rightarrow> (schedule_world, schedule_result) act" where
  "skip_touch i r = act_bind (track (Track_skipped (input_identity i) r)) (\<lambda>_. act_ret (refused_with r None))"

definition scheduleFollowUp :: "schedule_input \<Rightarrow> (schedule_world, schedule_result) act" where
  "scheduleFollowUp i = act_bind get_config (\<lambda>(enabled, delays).
     if \<not> enabled then act_ret (refused_with R_disabled None)
     else case getScenario (si_scenarioCode i) of None \<Rightarrow> act_ret (refused_with R_unknown_scenario None)
     | Some s \<Rightarrow>
         if sc_anchorEvent s = Booking_succeeded \<and> \<not> hasInterviewAt (input_state i) then skip_touch i R_missing_interview_time
         else act_bind now_ms (\<lambda>now.
           case (case si_state i of None \<Rightarrow> None
              | Some st \<Rightarrow> shouldStop s st (si_anchorAt i) (si_workOrderId i \<noteq> None) now None) of
             Some r \<Rightarrow> skip_touch i (R_stop r)
           | None \<Rightarrow> schedule_checked i s delays))"

text \<open>The tail that the two checks share: a job that is there is kept, and the time is counted when it is added.\<close>

definition schedule_check_job :: "string \<Rightarrow> follow_up_job \<Rightarrow> int \<Rightarrow> (schedule_world, schedule_result) act" where
  "schedule_check_job k d fireAt =
     act_catch (act_bind (act_catch (getJob k) (\<lambda>_. act_ret None)) (\<lambda>x. case x of
         Some e \<Rightarrow> act_ret (refused_with R_duplicate_job (Some k))
       | None \<Rightarrow> act_bind now_ms (\<lambda>now. act_bind (addJob k d (max 0 (fireAt - now))) (\<lambda>_. act_ret (scheduled_at fireAt k)))))
       (\<lambda>_. act_ret (refused_with R_enqueue_error (Some k)))"

definition isEnabled :: "(schedule_world, bool) act" where
  "isEnabled = act_bind get_config (\<lambda>c. act_ret (fst c))"

definition scheduleOnboardingCheck :: "session_ref \<Rightarrow> nat \<Rightarrow> int \<Rightarrow> channel_identity option \<Rightarrow> (schedule_world, schedule_result) act" where
  "scheduleOnboardingCheck r wo anchorAt ch = act_bind isEnabled (\<lambda>on.
     if \<not> on then act_ret (refused_with R_disabled None)
     else let anchor = ''wo'' @ show_nat wo @ '':onboarding_check'' in
       schedule_check_job (buildJobId (sr_sessionId r) Post_interview_onboarding anchor)
         ((plain_job r Post_interview_onboarding anchor anchorAt wo ch)\<lparr>fj_onboardingCheck := True\<rparr>) (anchorAt + 48 * HOUR))"

definition INTERVIEW_SLOT_CHECK_DELAY_MS :: int where "INTERVIEW_SLOT_CHECK_DELAY_MS = 3 * 24 * HOUR"
definition INTERVIEW_SLOT_CHECK_STALE_GRACE_MS :: int where "INTERVIEW_SLOT_CHECK_STALE_GRACE_MS = 24 * HOUR"

definition isInterviewSlotCheckStale :: "int \<Rightarrow> int \<Rightarrow> bool" where
  "isInterviewSlotCheckStale signUpAt now \<longleftrightarrow> INTERVIEW_SLOT_CHECK_DELAY_MS + INTERVIEW_SLOT_CHECK_STALE_GRACE_MS < now - signUpAt"

definition scheduleInterviewSlotCheck :: "session_ref \<Rightarrow> nat \<Rightarrow> int \<Rightarrow> channel_identity option \<Rightarrow> (schedule_world, schedule_result) act" where
  "scheduleInterviewSlotCheck r wo signUpAt ch = act_bind isEnabled (\<lambda>on.
     if \<not> on then act_ret (refused_with R_disabled None)
     else let anchor = ''wo'' @ show_nat wo @ '':interview_slot_check'';
              d = (plain_job r Interview_reminder anchor signUpAt wo ch)\<lparr>fj_interviewSlotCheck := True\<rparr> in
       act_bind now_ms (\<lambda>now.
         if isInterviewSlotCheckStale signUpAt now
         then act_bind (track (Track_skipped (buildIdentityFromJobData d) R_stale)) (\<lambda>_. act_ret (refused_with R_stale None))
         else schedule_check_job (buildJobId (sr_sessionId r) Interview_reminder anchor) d (signUpAt + INTERVIEW_SLOT_CHECK_DELAY_MS)))"

definition scheduleBookingResolution :: "session_ref \<Rightarrow> scenario_code \<Rightarrow> nat \<Rightarrow> string \<Rightarrow> int \<Rightarrow> channel_identity option
    \<Rightarrow> (schedule_world, schedule_result) act" where
  "scheduleBookingResolution r c wo anchor anchorAt ch = act_bind isEnabled (\<lambda>on.
     if \<not> on then act_ret (refused_with R_disabled None)
     else let k = buildJobId (sr_sessionId r) c anchor @ '':resolve'' in
       act_catch (act_bind (addJob k ((plain_job r c anchor anchorAt wo ch)\<lparr>fj_resolveBookingAtFire := True\<rparr>) 0) (\<lambda>_.
           act_bind now_ms (\<lambda>now. act_ret (scheduled_at now k))))
         (\<lambda>_. act_ret (refused_with R_resolution_error (Some k))))"

definition removePendingJob :: "string \<Rightarrow> string option \<Rightarrow> int option \<Rightarrow> (schedule_world, bool) act" where
  "removePendingJob k reason limit = act_bind (getJob k) (\<lambda>x. case x of None \<Rightarrow> act_ret False
     | Some e \<Rightarrow>
       if (case limit of None \<Rightarrow> False | Some b \<Rightarrow> b < fj_anchorAt (qe_data e)) then act_ret False
       else act_bind (getJobState k) (\<lambda>st.
         if st \<notin> set PENDING_JOB_STATUSES then act_ret False
         else act_bind (removeJob k) (\<lambda>_. act_bind
           (trackRemovedPendingJob (qe_data e) k None (case reason of Some r \<Rightarrow> r | None \<Rightarrow> ''superseded'')) (\<lambda>_. act_ret True))))"

fun superseded_loop :: "session_ref \<Rightarrow> scenario_code \<Rightarrow> string option \<Rightarrow> int option \<Rightarrow> scenario_code list \<Rightarrow> nat
    \<Rightarrow> (schedule_world, nat) act" where
  "superseded_loop r c reason limit [] n = act_ret n"
| "superseded_loop r c reason limit (t # ts) n =
     (case (case getScenario t of None \<Rightarrow> None | Some s \<Rightarrow> sc_canonicalAnchorEventId s) of
        None \<Rightarrow> superseded_loop r c reason limit ts n
      | Some anchor \<Rightarrow>
          if anchor = [] then superseded_loop r c reason limit ts n
          else act_bind (removePendingJob (buildJobId (sr_sessionId r) t anchor)
                 (Some (case reason of Some x \<Rightarrow> x | None \<Rightarrow> code_text c @ ''_supersedes_'' @ code_text t)) limit)
            (\<lambda>ok. superseded_loop r c reason limit ts (if ok then n + 1 else n)))"

definition removeSupersededPendingJobs :: "session_ref \<Rightarrow> scenario_code \<Rightarrow> string option \<Rightarrow> int option \<Rightarrow> (schedule_world, nat) act" where
  "removeSupersededPendingJobs r c reason limit = (case getScenario c of None \<Rightarrow> act_ret 0
     | Some s \<Rightarrow> superseded_loop r c reason limit (sc_supersedes s) 0)"

fun stop_loop :: "session_ref \<Rightarrow> scenario_code \<Rightarrow> string \<Rightarrow> int option \<Rightarrow> queue_entry option list \<Rightarrow> nat \<Rightarrow> (schedule_world, nat) act" where
  "stop_loop r c reason limit [] n = act_ret n"
| "stop_loop r c reason limit (None # es) n = stop_loop r c reason limit es n"
| "stop_loop r c reason limit (Some e # es) n =
     (if sr_sessionId (fj_sessionRef (qe_data e)) \<noteq> sr_sessionId r \<or> fj_scenarioCode (qe_data e) \<noteq> c
         \<or> (case limit of None \<Rightarrow> False | Some b \<Rightarrow> b < fj_anchorAt (qe_data e))
      then stop_loop r c reason limit es n
      else act_bind (removeJob (qe_id e)) (\<lambda>_.
        act_bind (track (Track_stopped_before_fire (buildIdentityFromJobData (qe_data e)) (qe_id e) reason)) (\<lambda>_.
          stop_loop r c reason limit es (n + 1))))"

definition stopPendingJobsForSessionScenario :: "session_ref \<Rightarrow> scenario_code \<Rightarrow> string \<Rightarrow> int option \<Rightarrow> (schedule_world, nat) act" where
  "stopPendingJobsForSessionScenario r c reason limit = act_bind getJobs (\<lambda>es. stop_loop r c reason limit es 0)"

section \<open>Histories\<close>

fun schedule_do :: "schedule_op \<Rightarrow> schedule_world \<Rightarrow> schedule_world" where
  "schedule_do (Op_follow_up i) w = snd (scheduleFollowUp i w)"
| "schedule_do (Op_onboarding_check r wo at ch) w = snd (scheduleOnboardingCheck r wo at ch w)"
| "schedule_do (Op_slot_check r wo at ch) w = snd (scheduleInterviewSlotCheck r wo at ch w)"
| "schedule_do (Op_resolution r c wo anchor at ch) w = snd (scheduleBookingResolution r c wo anchor at ch w)"
| "schedule_do (Op_remove k reason limit) w = snd (removePendingJob k reason limit w)"
| "schedule_do (Op_superseded r c reason limit) w = snd (removeSupersededPendingJobs r c reason limit w)"
| "schedule_do (Op_stop r c reason limit) w = snd (stopPendingJobsForSessionScenario r c reason limit w)"

definition schedule_run :: "schedule_op list \<Rightarrow> schedule_world \<Rightarrow> schedule_world" where
  "schedule_run ops w = fold schedule_do ops w"

section \<open>The jobs are well typed\<close>

definition flags :: "follow_up_job \<Rightarrow> nat" where
  "flags d = of_bool (fj_resolveBookingAtFire d) + of_bool (fj_onboardingCheck d) + of_bool (fj_interviewSlotCheck d)"

definition well_typed :: "queue_entry \<Rightarrow> bool" where
  "well_typed e \<longleftrightarrow> (let d = qe_data e in
     qe_id e = buildJobId (sr_sessionId (fj_sessionRef d)) (fj_scenarioCode d) (fj_anchorEventId d)
       @ (if fj_resolveBookingAtFire d then '':resolve'' else []) \<and>
     (qe_status e = Active \<longrightarrow> qe_tried e) \<and> 0 \<le> qe_delay e \<and> flags d \<le> 1 \<and> (flags d = 1 \<longrightarrow> fj_workOrderId d \<noteq> None) \<and>
     (fj_onboardingCheck d \<longrightarrow> fj_scenarioCode d = Post_interview_onboarding) \<and>
     (fj_interviewSlotCheck d \<longrightarrow> fj_scenarioCode d = Interview_reminder))"

definition well_typed_queue :: "queue_entry list \<Rightarrow> bool" where
  "well_typed_queue es \<longleftrightarrow> distinct (map qe_id es) \<and> (\<forall>e \<in> set es. well_typed e)"

lemma add_entry_typed:
  assumes "well_typed_queue es"
    "\<And>s. s \<noteq> Active \<Longrightarrow> well_typed \<lparr>qe_id = k, qe_data = d, qe_status = s, qe_delay = delay, qe_tried = False\<rparr>"
  shows "well_typed_queue (add_entry k d delay es)"
  using assms by (auto simp: well_typed_queue_def add_entry_def)

lemma asked_job_typed:
  "asked_job op = Some (k, d) \<Longrightarrow> s \<noteq> Active \<Longrightarrow> 0 \<le> delay \<Longrightarrow>
     well_typed \<lparr>qe_id = k, qe_data = d, qe_status = s, qe_delay = delay, qe_tried = False\<rparr>"
  by (cases op) (auto simp: Let_def well_typed_def plain_job_def job_of_input_def input_job_id_def flags_def)

text \<open>What the workers do and what is removed keeps it, for any property of single jobs that they keep.\<close>

lemma worker_typed: "well_typed_queue es \<Longrightarrow> well_typed_queue (worker_step ev es)"
proof -
  assume w: "well_typed_queue es"
  have m: "well_typed_queue (map g es)" if "\<And>e. qe_id (g e) = qe_id e" "\<And>e. well_typed e \<Longrightarrow> well_typed (g e)" for g
    using w that by (auto simp: well_typed_queue_def comp_def)
  show ?thesis
  proof (cases ev)
    case (Purge k)
    then show ?thesis using w by (auto simp: well_typed_queue_def distinct_map_filter)
  next
    case (Added op delay)
    then show ?thesis using w by (auto split: option.split intro!: add_entry_typed asked_job_typed)
  next
    case (Removed k)
    then show ?thesis using w by (auto simp: well_typed_queue_def distinct_map_filter)
  qed (auto simp: well_typed_def Let_def flags_def intro!: m)
qed

lemma workers_typed: "well_typed_queue es \<Longrightarrow> well_typed_queue (fold worker_step evs es)"
  by (induction evs arbitrary: es) (simp_all add: worker_typed)

abbreviation "typed_world w \<equiv> well_typed_queue (fw_jobs w)"

lemma request_typed: "typed_world w \<Longrightarrow> queue_request w = (a, w1) \<Longrightarrow> typed_world w1"
  by (auto simp: queue_request_def workers_typed split: list.splits prod.splits)

lemma read_typed [stays_intro]: "stays (\<lambda>w. typed_world w) (queue_read f)"
  by (rule staysI) (auto simp: queue_read_def split: prod.splits dest: request_typed)

lemma write_typed: "(\<And>es. well_typed_queue es \<Longrightarrow> well_typed_queue (snd (f es))) \<Longrightarrow> stays (\<lambda>w. typed_world w) (queue_write f)"
  by (rule staysI) (auto simp: queue_write_def split: prod.splits if_splits dest: request_typed; metis request_typed snd_conv)

lemma track_typed [stays_intro]: "stays (\<lambda>w. typed_world w) (track e)" "stays (\<lambda>w. typed_world w) now_ms"
  by (simp_all add: stays_def track_def now_ms_def)

lemma remove_typed [stays_intro]: "stays (\<lambda>w. typed_world w) (removeJob k)"
  unfolding removeJob_def by (rule write_typed) (auto simp: well_typed_queue_def distinct_map_filter)

lemma pair_typed [stays_intro]: "stays J (Pair v)"
  by (simp add: stays_def)

lemma add_typed:
  "(\<And>s. s \<noteq> Active \<Longrightarrow> well_typed \<lparr>qe_id = k, qe_data = d, qe_status = s, qe_delay = delay, qe_tried = False\<rparr>) \<Longrightarrow> stays (\<lambda>w. typed_world w) (addJob k d delay)"
  unfolding addJob_def by (rule write_typed) (simp add: add_entry_typed)

lemma follow_up_typed: "stays (\<lambda>w. typed_world w) (scheduleFollowUp i)"
proof -
  have r: "stays (\<lambda>w. typed_world w) (remove_loop i s cur es)" for s cur es
    by (induction i s cur es rule: remove_loop.induct) (auto simp: trackRemovedPendingJob_def intro!: stays_intro)
  have a: "stays (\<lambda>w. typed_world w) (addJob k (job_of_input i) d)" if "k = input_job_id i" "0 \<le> d" for k d
    by (rule add_typed) (simp add: that well_typed_def job_of_input_def input_job_id_def flags_def)
  show ?thesis
    unfolding scheduleFollowUp_def skip_touch_def schedule_checked_def enqueue_touch_def get_config_def getJob_def getJobs_def
      removeSupersededPendingJobsBeforeEnqueue_def
    by (intro stays_intro r a) simp_all
qed

lemma check_typed:
  "(\<And>s delay. s \<noteq> Active \<Longrightarrow> 0 \<le> delay \<Longrightarrow>
       well_typed \<lparr>qe_id = k, qe_data = d, qe_status = s, qe_delay = delay, qe_tried = False\<rparr>) \<Longrightarrow>
     stays (\<lambda>w. typed_world w) (schedule_check_job k d fireAt)"
  unfolding schedule_check_job_def getJob_def by (intro stays_intro add_typed) simp

lemma remove_pending_typed [stays_intro]: "stays (\<lambda>w. typed_world w) (removePendingJob k reason limit)"
  unfolding removePendingJob_def getJob_def getJobState_def trackRemovedPendingJob_def by (intro stays_intro)

lemma do_typed: "typed_world w \<Longrightarrow> typed_world (schedule_do op w)"
proof (cases op)
  case (Op_follow_up i)
  then show "typed_world w \<Longrightarrow> ?thesis" using follow_up_typed by (simp add: stays_def)
next
  case (Op_onboarding_check r wo at ch)
  have "stays (\<lambda>w. typed_world w) (scheduleOnboardingCheck r wo at ch)"
    unfolding scheduleOnboardingCheck_def isEnabled_def get_config_def
    by (intro stays_intro check_typed) (simp add: well_typed_def plain_job_def flags_def)
  then show "typed_world w \<Longrightarrow> ?thesis" using Op_onboarding_check by (simp add: stays_def)
next
  case (Op_slot_check r wo at ch)
  have "stays (\<lambda>w. typed_world w) (scheduleInterviewSlotCheck r wo at ch)"
    unfolding scheduleInterviewSlotCheck_def isEnabled_def get_config_def
    by (intro stays_intro check_typed) (simp add: well_typed_def plain_job_def flags_def)
  then show "typed_world w \<Longrightarrow> ?thesis" using Op_slot_check by (simp add: stays_def)
next
  case (Op_resolution r c wo anchor at ch)
  have "stays (\<lambda>w. typed_world w) (scheduleBookingResolution r c wo anchor at ch)"
    unfolding scheduleBookingResolution_def isEnabled_def get_config_def
    by (intro stays_intro add_typed) (simp add: well_typed_def plain_job_def flags_def)
  then show "typed_world w \<Longrightarrow> ?thesis" using Op_resolution by (simp add: stays_def)
next
  case (Op_remove k reason limit)
  then show "typed_world w \<Longrightarrow> ?thesis" using remove_pending_typed by (simp add: stays_def)
next
  case (Op_superseded r c reason limit)
  have "stays (\<lambda>w. typed_world w) (superseded_loop r c reason limit ts n)" for ts n
    by (induction r c reason limit ts n rule: superseded_loop.induct) (auto intro!: stays_intro split: option.split)
  then have "stays (\<lambda>w. typed_world w) (removeSupersededPendingJobs r c reason limit)"
    unfolding removeSupersededPendingJobs_def by (intro stays_intro)
  then show "typed_world w \<Longrightarrow> ?thesis" using Op_superseded by (simp add: stays_def)
next
  case (Op_stop r c reason limit)
  have "stays (\<lambda>w. typed_world w) (stop_loop r c reason limit es n)" for es n
    by (induction r c reason limit es n rule: stop_loop.induct) (auto intro!: stays_intro)
  then have "stays (\<lambda>w. typed_world w) (stopPendingJobsForSessionScenario r c reason limit)"
    unfolding stopPendingJobsForSessionScenario_def getJobs_def by (intro stays_intro)
  then show "typed_world w \<Longrightarrow> ?thesis" using Op_stop by (simp add: stays_def)
qed

text \<open>C32: whatever is scheduled and removed, whatever the workers do meanwhile and whatever requests fail, the jobs in the queue
  are well typed: no two have the same id, each has the id of its own session, scenario and anchor, so that asking again for the
  same touch finds it, its delay is not negative, and a job that is no touch is of one kind, belongs to the scenario of its kind and
  names its work order.\<close>

theorem jobs_are_well_typed:
  assumes "fw_jobs w = []"
  shows "well_typed_queue (fw_jobs (schedule_run ops w))"
proof -
  have "typed_world w" using assms by (simp add: well_typed_queue_def)
  then show ?thesis unfolding schedule_run_def
    by (induction ops arbitrary: w) (simp_all add: do_typed)
qed

section \<open>One touch at a time\<close>

definition waiting_touch :: "queue_entry \<Rightarrow> bool" where
  "waiting_touch e \<longleftrightarrow> pending e \<and> \<not> qe_tried e \<and> flags (qe_data e) = 0"

text \<open>Two touches of a session that stand for the same thing: both before a booking, or for the same interview, scenario and
  variant.\<close>

definition rivals :: "follow_up_job \<Rightarrow> follow_up_job \<Rightarrow> bool" where
  "rivals d d' \<longleftrightarrow> sr_sessionId (fj_sessionRef d) = sr_sessionId (fj_sessionRef d') \<and>
     (phase_of (fj_scenarioCode d) = Pre_booking \<and> phase_of (fj_scenarioCode d') = Pre_booking \<or>
      phase_of (fj_scenarioCode d) = Post_booking \<and> fj_workOrderId d \<noteq> None \<and> fj_workOrderId d = fj_workOrderId d' \<and>
      fj_scenarioCode d = fj_scenarioCode d' \<and> fj_touchVariant d = fj_touchVariant d')"

abbreviation "session_of d \<equiv> sr_sessionId (fj_sessionRef d)"

text \<open>In the session \<open>\<sigma>\<close>.\<close>

definition one_touch :: "string \<Rightarrow> queue_entry list \<Rightarrow> bool" where
  "one_touch \<sigma> es \<longleftrightarrow> (\<forall>e \<in> set es. \<forall>e' \<in> set es. session_of (qe_data e) = \<sigma> \<longrightarrow> waiting_touch e \<longrightarrow> waiting_touch e' \<longrightarrow> rivals (qe_data e) (qe_data e') \<longrightarrow>
     qe_id e = qe_id e')"

text \<open>What waits has been waiting.\<close>

definition fewer :: "string \<Rightarrow> queue_entry list \<Rightarrow> queue_entry list \<Rightarrow> bool" where
  "fewer \<sigma> es' es \<longleftrightarrow> (\<forall>e \<in> set es'. session_of (qe_data e) = \<sigma> \<longrightarrow> waiting_touch e \<longrightarrow>
     (\<exists>e0 \<in> set es. waiting_touch e0 \<and> qe_id e0 = qe_id e \<and> qe_data e0 = qe_data e))"

lemma fewer_refl: "fewer \<sigma> es es"
  by (auto simp: fewer_def)

lemma fewer_trans: "fewer \<sigma> a b \<Longrightarrow> fewer \<sigma> b c \<Longrightarrow> fewer \<sigma> a c"
  unfolding fewer_def by metis

lemma fewer_filter: "fewer \<sigma> (filter P es) es"
  by (auto simp: fewer_def)

text \<open>Another call asks for a touch of the session.\<close>

fun touch_for :: "string \<Rightarrow> worker_event \<Rightarrow> bool" where
  "touch_for \<sigma> (Added (Op_follow_up i) delay) = (sr_sessionId (si_sessionRef i) = \<sigma>)"
| "touch_for \<sigma> _ = False"

lemma fewer_added: "session_of d \<noteq> \<sigma> \<or> flags d \<noteq> 0 \<Longrightarrow> fewer \<sigma> (add_entry k d delay es) es"
  by (auto simp: fewer_def add_entry_def waiting_touch_def)

lemma asked_check: "asked_job op = Some (k, d) \<Longrightarrow> (\<exists>i. op = Op_follow_up i \<and> d = job_of_input i) \<or> flags d = 1"
  by (cases op) (auto simp: Let_def plain_job_def flags_def)

lemma fewer_worker:
  assumes "well_typed_queue es" "\<not> touch_for \<sigma> ev"
  shows "fewer \<sigma> (worker_step ev es) es"
proof -
  have t: "e \<in> set es \<Longrightarrow> qe_status e = Active \<Longrightarrow> qe_tried e" for e
    using assms(1) by (auto simp: well_typed_queue_def well_typed_def Let_def)
  show ?thesis
  proof (cases ev)
    case (Promote k)
    then show ?thesis by (force simp: fewer_def waiting_touch_def PENDING_JOB_STATUSES_def)
  next
    case (Start k)
    then show ?thesis by (force simp: fewer_def waiting_touch_def)
  next
    case (Accepted k t)
    then show ?thesis by (force simp: fewer_def waiting_touch_def PENDING_JOB_STATUSES_def)
  next
    case (Finish k s)
    then show ?thesis using t by (force simp: fewer_def waiting_touch_def)
  next
    case (Purge k)
    then show ?thesis by (simp add: fewer_filter)
  next
    case (Added op delay)
    then show ?thesis using assms(2) asked_check [of op]
      by (auto simp: fewer_refl job_of_input_def split: option.split intro!: fewer_added)
  next
    case (Removed k)
    then show ?thesis by (simp add: fewer_filter)
  qed
qed

lemma fewer_workers: "well_typed_queue es \<Longrightarrow> \<forall>ev \<in> set evs. \<not> touch_for \<sigma> ev \<Longrightarrow> fewer \<sigma> (fold worker_step evs es) es"
proof (induction evs arbitrary: es)
  case (Cons ev evs)
  then show ?case using fewer_trans [OF Cons.IH [OF worker_typed [OF Cons.prems(1)]] fewer_worker [OF Cons.prems(1)]] by simp
qed (simp add: fewer_refl)

lemma one_touch_fewer:
  assumes "one_touch \<sigma> es" "fewer \<sigma> es' es"
  shows "one_touch \<sigma> es'"
  unfolding one_touch_def
proof (intro ballI impI)
  fix e e' assume e: "e \<in> set es'" "e' \<in> set es'" "session_of (qe_data e) = \<sigma>" "waiting_touch e" "waiting_touch e'"
    "rivals (qe_data e) (qe_data e')"
  have "session_of (qe_data e') = \<sigma>" using e(3,6) by (simp add: rivals_def)
  then obtain d d' where d: "d \<in> set es" "waiting_touch d" "qe_id d = qe_id e" "qe_data d = qe_data e"
    "d' \<in> set es" "waiting_touch d'" "qe_id d' = qe_id e'" "qe_data d' = qe_data e'"
    using assms(2) e unfolding fewer_def by metis
  then have "qe_id d = qe_id d'" using assms(1) e(3,6) unfolding one_touch_def by simp
  then show "qe_id e = qe_id e'" using d by simp
qed

text \<open>Worlds in which all requests are answered, and no call for the session happens while another one for it waits; and a
  property of the jobs that fewer of them keep.\<close>

definition undisturbed :: "string \<Rightarrow> schedule_world \<Rightarrow> bool" where
  "undisturbed \<sigma> w \<longleftrightarrow> (\<forall>x \<in> set (fw_requests w). snd (snd x) = Done \<and> (\<forall>ev \<in> set (fst (snd x)). \<not> touch_for \<sigma> ev))"

lemma undisturbed_jobs [simp]: "undisturbed \<sigma> (w\<lparr>fw_jobs := es\<rparr>) = undisturbed \<sigma> w"
  "undisturbed \<sigma> (w\<lparr>fw_tracked := xs\<rparr>) = undisturbed \<sigma> w"
  by (simp_all add: undisturbed_def)

definition answered_world :: "string \<Rightarrow> (queue_entry list \<Rightarrow> bool) \<Rightarrow> schedule_world \<Rightarrow> bool" where
  "answered_world \<sigma> X w \<longleftrightarrow> undisturbed \<sigma> w \<and> well_typed_queue (fw_jobs w) \<and> X (fw_jobs w)"

definition shrinkable :: "string \<Rightarrow> (queue_entry list \<Rightarrow> bool) \<Rightarrow> bool" where
  "shrinkable \<sigma> X \<longleftrightarrow> (\<forall>es es'. X es \<longrightarrow> fewer \<sigma> es' es \<longrightarrow> X es')"

lemma answered_request:
  assumes "shrinkable \<sigma> X" "answered_world \<sigma> X w" "queue_request w = (a, w1)"
  shows "a = Done \<and> answered_world \<sigma> X w1 \<and> fewer \<sigma> (fw_jobs w1) (fw_jobs w)"
  using assms fewer_workers
  by (auto simp: queue_request_def answered_world_def undisturbed_def shrinkable_def workers_typed fewer_refl split: list.splits prod.splits)

lemma answered_read:
  assumes "shrinkable \<sigma> X"
  shows "triple (answered_world \<sigma> X) (queue_read f) (\<lambda>v w. answered_world \<sigma> X w \<and> v = f w) (\<lambda>_ _. False)"
  by (rule tripleI) (auto simp: queue_read_def split: prod.splits if_splits dest: answered_request [OF assms])

lemma answered_track: "stays (answered_world \<sigma> X) (track e)" "stays (answered_world \<sigma> X) now_ms"
  by (simp_all add: stays_def track_def now_ms_def answered_world_def)

lemma answered_remove:
  assumes "shrinkable \<sigma> X"
  shows "triple (answered_world \<sigma> X) (removeJob k)
    (\<lambda>_. answered_world \<sigma> (\<lambda>es. X es \<and> (\<forall>e \<in> set es. waiting_touch e \<longrightarrow> qe_id e \<noteq> k)))
    (\<lambda>_. answered_world \<sigma> (\<lambda>es. X es \<and> (\<forall>e \<in> set es. waiting_touch e \<longrightarrow> qe_id e \<noteq> k)))"
proof (rule tripleI)
  fix w v w'
  assume w: "answered_world \<sigma> X w" "removeJob k w = (Inr v, w')"
  obtain a w1 where a: "queue_request w = (a, w1)" by fastforce
  note q = answered_request [OF assms w(1) a]
  then have "fw_jobs w' = filter (\<lambda>e. qe_id e \<noteq> k) (fw_jobs w1)" "undisturbed \<sigma> w' = undisturbed \<sigma> w1"
    using w(2) by (auto simp: removeJob_def queue_write_def a split: if_splits)
  moreover have "X (filter (\<lambda>e. qe_id e \<noteq> k) (fw_jobs w1))"
    using q assms fewer_filter by (auto simp: shrinkable_def answered_world_def)
  ultimately show "answered_world \<sigma> (\<lambda>es. X es \<and> (\<forall>e \<in> set es. waiting_touch e \<longrightarrow> qe_id e \<noteq> k)) w'"
    using q by (auto simp: answered_world_def well_typed_queue_def distinct_map_filter)
next
  fix w e w'
  assume w: "answered_world \<sigma> X w" "removeJob k w = (Inl e, w')"
  obtain a w1 where a: "queue_request w = (a, w1)" by fastforce
  note q = answered_request [OF assms w(1) a]
  then have j: "fw_jobs w' = fw_jobs w1" "undisturbed \<sigma> w' = undisturbed \<sigma> w1" "\<exists>e \<in> set (fw_jobs w1). qe_id e = k \<and> qe_status e = Active"
    using w(2) by (auto simp: removeJob_def queue_write_def a split: if_splits)
  have "distinct (map qe_id (fw_jobs w1))" using q by (simp add: answered_world_def well_typed_queue_def)
  then have "qe_status x = Active" if "x \<in> set (fw_jobs w1)" "qe_id x = k" for x
    using j(3) that by (metis distinct_map inj_onD)
  then show "answered_world \<sigma> (\<lambda>es. X es \<and> (\<forall>e \<in> set es. waiting_touch e \<longrightarrow> qe_id e \<noteq> k)) w'"
    using q j by (auto simp: answered_world_def waiting_touch_def PENDING_JOB_STATUSES_def)
qed

text \<open>The loop clears the way for a touch.\<close>

definition in_the_way :: "schedule_input \<Rightarrow> scenario \<Rightarrow> string \<Rightarrow> queue_entry option list \<Rightarrow> queue_entry list \<Rightarrow> bool" where
  "in_the_way i s k L es \<longleftrightarrow> (\<forall>e \<in> set es. waiting_touch e \<longrightarrow> rivals (qe_data e) (job_of_input i) \<longrightarrow>
     qe_id e = k \<or> (\<exists>e'. Some e' \<in> set L \<and> qe_id e' = qe_id e \<and> shouldRemovePendingJob i s (qe_data e')))"

lemma shrinkable_way:
  "sr_sessionId (si_sessionRef i) = \<sigma> \<Longrightarrow> shrinkable \<sigma> (\<lambda>es. one_touch \<sigma> es \<and> in_the_way i s k L es)"
  unfolding shrinkable_def
proof (intro allI impI conjI, goal_cases)
  case (1 es es')
  then show ?case using one_touch_fewer by blast
next
  case (2 es es')
  show ?case unfolding in_the_way_def
  proof (intro ballI impI)
    fix e assume e: "e \<in> set es'" "waiting_touch e" "rivals (qe_data e) (job_of_input i)"
    then have "session_of (qe_data e) = \<sigma>" using 2(1) by (simp add: rivals_def job_of_input_def)
    then obtain e0 where "e0 \<in> set es" "waiting_touch e0" "qe_id e0 = qe_id e" "qe_data e0 = qe_data e"
      using 2(3) e unfolding fewer_def by blast
    then show "qe_id e = k \<or> (\<exists>e'. Some e' \<in> set L \<and> qe_id e' = qe_id e \<and> shouldRemovePendingJob i s (qe_data e'))"
      using 2(2) e(3) unfolding in_the_way_def by metis
  qed
qed

lemma remove_loop_clears:
  "sr_sessionId (si_sessionRef i) = \<sigma> \<Longrightarrow> triple (answered_world \<sigma> (\<lambda>es. one_touch \<sigma> es \<and> in_the_way i s k L es)) (remove_loop i s k L)
     (\<lambda>_. answered_world \<sigma> (\<lambda>es. one_touch \<sigma> es \<and> in_the_way i s k [] es)) (\<lambda>_ _. False)"
proof (induction i s k L rule: remove_loop.induct)
  case (1 i s k)
  then show ?case by (simp add: triple_def)
next
  case (2 i s k L)
  show ?case unfolding remove_loop.simps
    by (rule triple_conseq [OF 2(1) [OF 2(2)]]) (simp_all add: in_the_way_def answered_world_def)
next
  case (3 i s k e L)
  show ?case
  proof (cases "qe_id e = k \<or> \<not> shouldRemovePendingJob i s (qe_data e)")
    case True
    have "triple (answered_world \<sigma> (\<lambda>es. one_touch \<sigma> es \<and> in_the_way i s k (Some e # L) es)) (remove_loop i s k L)
     (\<lambda>_. answered_world \<sigma> (\<lambda>es. one_touch \<sigma> es \<and> in_the_way i s k [] es)) (\<lambda>_ _. False)"
      by (rule triple_conseq [OF 3(1) [OF True 3(3)]]) (use True in \<open>fastforce simp: in_the_way_def answered_world_def\<close>)+
    then show ?thesis using True by simp
  next
    case False
    let ?A = "answered_world \<sigma> (\<lambda>es. one_touch \<sigma> es \<and> in_the_way i s k L es)"
    have r: "triple (answered_world \<sigma> (\<lambda>es. one_touch \<sigma> es \<and> in_the_way i s k (Some e # L) es)) (removeJob (qe_id e)) (\<lambda>_. ?A) (\<lambda>_. ?A)"
      by (rule triple_conseq [OF answered_remove [OF shrinkable_way [OF 3(3)]]])
        (fastforce simp: in_the_way_def answered_world_def)+
    have t: "triple ?A (trackRemovedPendingJob d x y z) (\<lambda>_. ?A) (\<lambda>_. ?A)" for d x y z
      using answered_track(1) by (simp add: trackRemovedPendingJob_def stays_triple)
    show ?thesis
      using False
      by (simp del: act_ret_run) (intro triple_bind [OF triple_catch [OF triple_bind [OF r t]]] triple_ret 3(2) 3(3); simp)
  qed
qed

abbreviation "answered_one \<sigma> \<equiv> answered_world \<sigma> (one_touch \<sigma>)"

lemma shrinkable_one: "shrinkable \<sigma> (one_touch \<sigma>)"
  unfolding shrinkable_def using one_touch_fewer by blast

lemma rival_is_removed:
  assumes "getScenario (si_scenarioCode i) = Some s" "rivals (qe_data e) (job_of_input i)" "\<not> collecting i s (Some e)"
  shows "shouldRemovePendingJob i s (qe_data e)"
proof -
  obtain cs where cs: "getScenario (fj_scenarioCode (qe_data e)) = Some cs" using getScenario_known by blast
  show ?thesis
    using assms cs getScenario_phase [OF assms(1)] getScenario_phase [OF cs]
    by (auto simp: shouldRemovePendingJob_def rivals_def collecting_def job_of_input_def)
qed

lemma superseded_clears:
  assumes "getScenario (si_scenarioCode i) = Some s" and here: "sr_sessionId (si_sessionRef i) = \<sigma>"
  shows "triple (answered_one \<sigma>) (removeSupersededPendingJobsBeforeEnqueue i s k)
    (\<lambda>blocked. answered_world \<sigma> (\<lambda>es. one_touch \<sigma> es \<and> (blocked \<or> in_the_way i s k [] es))) (\<lambda>_ _. False)"
proof -
  have g: "triple (answered_one \<sigma>) getJobs (\<lambda>L w. answered_one \<sigma> w \<and> L = map Some (filter (\<lambda>e. pending e) (fw_jobs w))) (\<lambda>_ _. False)"
    unfolding getJobs_def by (rule answered_read [OF shrinkable_one])
  have l: "triple (\<lambda>w. answered_one \<sigma> w \<and> L = map Some (filter (\<lambda>e. pending e) (fw_jobs w))) (remove_loop i s k L)
     (\<lambda>_. answered_world \<sigma> (\<lambda>es. one_touch \<sigma> es \<and> in_the_way i s k [] es)) (\<lambda>_ _. False)" if "\<not> list_ex (collecting i s) L" for L
  proof (rule triple_conseq [OF remove_loop_clears [OF here]])
    fix w assume w: "answered_one \<sigma> w \<and> L = map Some (filter (\<lambda>e. pending e) (fw_jobs w))"
    have "\<not> collecting i s (Some e)" if "e \<in> set (fw_jobs w)" "pending e" for e
      using that w \<open>\<not> list_ex (collecting i s) L\<close> by (auto simp: list_ex_iff)
    then show "answered_world \<sigma> (\<lambda>es. one_touch \<sigma> es \<and> in_the_way i s k L es) w"
      using w rival_is_removed [OF assms(1)] by (auto simp: answered_world_def in_the_way_def waiting_touch_def)
  qed simp_all
  show ?thesis
    unfolding removeSupersededPendingJobsBeforeEnqueue_def
  proof (rule triple_bind [where R = "\<lambda>x w. answered_one \<sigma> w \<and> x = Some (map Some (filter (\<lambda>e. pending e) (fw_jobs w)))"])
    show "triple (answered_one \<sigma>) (act_catch (act_bind getJobs (\<lambda>es. act_ret (Some es))) (\<lambda>_. act_ret None))
      (\<lambda>x w. answered_one \<sigma> w \<and> x = Some (map Some (filter (\<lambda>e. pending e) (fw_jobs w)))) (\<lambda>_ _. False)"
      by (rule triple_catch [OF triple_bind [OF g]]) (auto simp: triple_def)
  next
    fix x
    show "triple (\<lambda>w. answered_one \<sigma> w \<and> x = Some (map Some (filter (\<lambda>e. pending e) (fw_jobs w))))
      (case x of None \<Rightarrow> act_ret False | Some es \<Rightarrow> if list_ex (collecting i s) es then act_ret True
         else act_bind (remove_loop i s k es) (\<lambda>_. act_ret False))
      (\<lambda>blocked. answered_world \<sigma> (\<lambda>es. one_touch \<sigma> es \<and> (blocked \<or> in_the_way i s k [] es))) (\<lambda>_ _. False)"
    proof (cases x)
      case (Some L)
      show ?thesis
      proof (cases "list_ex (collecting i s) L")
        case True
        then show ?thesis using Some by (auto simp: triple_def answered_world_def)
      next
        case False
        have "triple (\<lambda>w. answered_one \<sigma> w \<and> L = map Some (filter (\<lambda>e. pending e) (fw_jobs w)))
          (act_bind (remove_loop i s k L) (\<lambda>_. act_ret False))
          (\<lambda>blocked. answered_world \<sigma> (\<lambda>es. one_touch \<sigma> es \<and> (blocked \<or> in_the_way i s k [] es))) (\<lambda>_ _. False)"
          by (rule triple_bind [OF l [OF False]], rule triple_ret) simp
        then show ?thesis using Some False by simp
      qed
    qed (simp add: triple_def)
  qed
qed

lemma rivals_sym: "rivals d d' \<Longrightarrow> rivals d' d"
  by (auto simp: rivals_def)

lemma answered_add:
  assumes "shrinkable \<sigma> X"
    "\<And>es. X es \<Longrightarrow> Y es" "\<And>es s. X es \<Longrightarrow> s \<noteq> Active \<Longrightarrow> Y (es @ [\<lparr>qe_id = k, qe_data = d, qe_status = s, qe_delay = delay, qe_tried = False\<rparr>])"
    "\<And>s. s \<noteq> Active \<Longrightarrow> well_typed \<lparr>qe_id = k, qe_data = d, qe_status = s, qe_delay = delay, qe_tried = False\<rparr>"
  shows "triple (answered_world \<sigma> X) (addJob k d delay) (\<lambda>_. answered_world \<sigma> Y) (\<lambda>_ _. False)"
proof (rule tripleI)
  fix w v w' assume w: "answered_world \<sigma> X w" "addJob k d delay w = (Inr v, w')"
  obtain a w1 where a: "queue_request w = (a, w1)" by fastforce
  note q = answered_request [OF assms(1) w(1) a]
  have "fw_jobs w' = fw_jobs w1 \<or> (\<exists>s. s \<noteq> Active \<and> k \<notin> qe_id ` set (fw_jobs w1) \<and>
      fw_jobs w' = fw_jobs w1 @ [\<lparr>qe_id = k, qe_data = d, qe_status = s, qe_delay = delay, qe_tried = False\<rparr>])"
    "undisturbed \<sigma> w' = undisturbed \<sigma> w1"
    using w(2) q by (auto simp: add_entry_def addJob_def queue_write_def a split: if_splits)
  then show "answered_world \<sigma> Y w'"
    using q assms(2-4) by (auto simp: answered_world_def well_typed_queue_def)
next
  fix w e w' assume w: "answered_world \<sigma> X w" "addJob k d delay w = (Inl e, w')"
  obtain a w1 where a: "queue_request w = (a, w1)" by fastforce
  then show False using w answered_request [OF assms(1) w(1) a] by (auto simp: addJob_def queue_write_def split: if_splits)
qed

lemma add_touch:
  assumes "0 \<le> delay" "sr_sessionId (si_sessionRef i) = \<sigma>"
  shows "triple (answered_world \<sigma> (\<lambda>es. one_touch \<sigma> es \<and> in_the_way i s (input_job_id i) [] es)) (addJob (input_job_id i) (job_of_input i) delay)
    (\<lambda>_. answered_one \<sigma>) (\<lambda>_ _. False)"
proof (rule answered_add [OF shrinkable_way [OF assms(2)]])
  fix st :: job_status assume "st \<noteq> Active"
  show "well_typed \<lparr>qe_id = input_job_id i, qe_data = job_of_input i, qe_status = st, qe_delay = delay, qe_tried = False\<rparr>"
    using assms(1) \<open>st \<noteq> Active\<close> by (simp add: well_typed_def job_of_input_def input_job_id_def flags_def)
qed (auto simp: one_touch_def in_the_way_def dest: rivals_sym)

lemma one_touch_other:
  assumes "one_touch \<sigma> es" "session_of (qe_data x) \<noteq> \<sigma> \<or> \<not> waiting_touch x"
  shows "one_touch \<sigma> (es @ [x])"
  unfolding one_touch_def
proof (intro ballI impI)
  fix e e' assume e: "e \<in> set (es @ [x])" "e' \<in> set (es @ [x])" "session_of (qe_data e) = \<sigma>" "waiting_touch e" "waiting_touch e'"
    "rivals (qe_data e) (qe_data e')"
  have "session_of (qe_data e') = \<sigma>" using e(3,6) by (simp add: rivals_def)
  then have "e \<noteq> x" "e' \<noteq> x" using assms(2) e(3-5) by blast+
  then show "qe_id e = qe_id e'" using assms(1) e unfolding one_touch_def by simp
qed

lemma add_other:
  assumes "session_of d \<noteq> \<sigma> \<or> flags d = 1" "\<And>s. s \<noteq> Active \<Longrightarrow> well_typed \<lparr>qe_id = k, qe_data = d, qe_status = s, qe_delay = delay, qe_tried = False\<rparr>"
  shows "stays (answered_one \<sigma>) (addJob k d delay)"
proof -
  have "triple (answered_one \<sigma>) (addJob k d delay) (\<lambda>_. answered_one \<sigma>) (\<lambda>_ _. False)"
  proof (rule answered_add [OF shrinkable_one _ _ assms(2)])
    fix es and st :: job_status assume "one_touch \<sigma> es"
    then show "one_touch \<sigma> (es @ [\<lparr>qe_id = k, qe_data = d, qe_status = st, qe_delay = delay, qe_tried = False\<rparr>])"
      using assms(1) by (intro one_touch_other) (auto simp: waiting_touch_def)
  qed
  then show ?thesis unfolding stays_triple by (rule triple_conseq) simp_all
qed

lemma one_read [stays_intro]: "stays (answered_one \<sigma>) (queue_read f)"
  unfolding stays_triple by (rule triple_conseq [OF answered_read [OF shrinkable_one]]) simp_all

lemma one_remove [stays_intro]: "stays (answered_one \<sigma>) (removeJob k)"
  unfolding stays_triple by (rule triple_conseq [OF answered_remove [OF shrinkable_one [of \<sigma>]]]) (simp_all add: answered_world_def)

lemmas one_track [stays_intro] = answered_track [where X = "one_touch \<sigma>" for \<sigma>]

lemma one_remove_pending [stays_intro]: "stays (answered_one \<sigma>) (removePendingJob k reason limit)"
  unfolding removePendingJob_def getJob_def getJobState_def trackRemovedPendingJob_def by (intro stays_intro)

lemma one_enqueue:
  assumes "0 \<le> delay" "sr_sessionId (si_sessionRef i) = \<sigma>"
  shows "triple (answered_world \<sigma> (\<lambda>es. one_touch \<sigma> es \<and> in_the_way i s (input_job_id i) [] es))
    (enqueue_touch i fireAt delay (input_job_id i)) (\<lambda>_. answered_one \<sigma>) (\<lambda>_. answered_one \<sigma>)"
proof -
  have t: "triple (answered_one \<sigma>) (act_bind (track x) (\<lambda>_. act_ret v)) (\<lambda>_. answered_one \<sigma>) (\<lambda>_. answered_one \<sigma>)" for x v
    unfolding stays_triple [symmetric] by (intro stays_intro)
  have r: "triple (answered_world \<sigma> (\<lambda>es. one_touch \<sigma> es \<and> in_the_way i s (input_job_id i) [] es))
     (addJob (input_job_id i) (job_of_input i) delay) (\<lambda>_. answered_one \<sigma>) (\<lambda>_. answered_one \<sigma>)"
    by (rule triple_conseq [OF add_touch [OF assms]]) simp_all
  show ?thesis unfolding enqueue_touch_def by (rule triple_catch [OF triple_bind [OF r t] t])
qed

lemma one_checked_here:
  assumes "getScenario (si_scenarioCode i) = Some s" and here: "sr_sessionId (si_sessionRef i) = \<sigma>"
  shows "stays (answered_one \<sigma>) (schedule_checked i s delays)"
proof -
  have b: "triple (answered_one \<sigma>) (act_bind (removeSupersededPendingJobsBeforeEnqueue i s (input_job_id i)) (\<lambda>blocked.
      if blocked then act_bind (track (Track_skipped (input_identity i) R_dominated)) (\<lambda>_. act_ret (refused_with R_dominated (Some k)))
      else enqueue_touch i fireAt delay (input_job_id i))) (\<lambda>_. answered_one \<sigma>) (\<lambda>_. answered_one \<sigma>)"
    if "0 \<le> delay" for delay fireAt k
  proof (rule triple_bind)
    show "triple (answered_one \<sigma>) (removeSupersededPendingJobsBeforeEnqueue i s (input_job_id i))
      (\<lambda>blocked. answered_world \<sigma> (\<lambda>es. one_touch \<sigma> es \<and> (blocked \<or> in_the_way i s (input_job_id i) [] es))) (\<lambda>_. answered_one \<sigma>)"
      by (rule triple_conseq [OF superseded_clears [OF assms]]) simp_all
  next
    fix blocked
    have t: "triple (answered_one \<sigma>) (act_bind (track (Track_skipped (input_identity i) R_dominated)) (\<lambda>_. act_ret (refused_with R_dominated (Some k))))
       (\<lambda>_. answered_one \<sigma>) (\<lambda>_. answered_one \<sigma>)"
      unfolding stays_triple [symmetric] by (intro stays_intro)
    show "triple (answered_world \<sigma> (\<lambda>es. one_touch \<sigma> es \<and> (blocked \<or> in_the_way i s (input_job_id i) [] es)))
      (if blocked then act_bind (track (Track_skipped (input_identity i) R_dominated)) (\<lambda>_. act_ret (refused_with R_dominated (Some k)))
       else enqueue_touch i fireAt delay (input_job_id i)) (\<lambda>_. answered_one \<sigma>) (\<lambda>_. answered_one \<sigma>)"
      using t one_enqueue [OF that here, of s fireAt] by (cases blocked) (simp_all add: triple_conseq)
  qed
  show ?thesis
    unfolding schedule_checked_def Let_def getJob_def
    by (rule stays_bind [OF one_track(2)], rule stays_bind [OF stays_catch [OF one_read stays_ret]],
        rule stays_option [OF b [folded stays_triple]], simp, rule stays_ret)
qed

lemma one_checked:
  assumes "getScenario (si_scenarioCode i) = Some s"
  shows "stays (answered_one \<sigma>) (schedule_checked i s delays)"
proof (cases "sr_sessionId (si_sessionRef i) = \<sigma>")
  case False
  have r: "stays (answered_one \<sigma>) (remove_loop i s cur es)" for cur es
    by (induction i s cur es rule: remove_loop.induct) (auto simp: trackRemovedPendingJob_def intro!: stays_intro)
  have a: "stays (answered_one \<sigma>) (addJob (input_job_id i) (job_of_input i) d)" if "0 \<le> d" for d
    using False that
    by (intro add_other) (simp_all add: well_typed_def job_of_input_def input_job_id_def flags_def)
  show ?thesis
    unfolding schedule_checked_def enqueue_touch_def Let_def getJob_def getJobs_def removeSupersededPendingJobsBeforeEnqueue_def
    by (intro stays_intro r a) simp_all
qed (rule one_checked_here [OF assms])

lemma do_one:
  assumes "answered_one \<sigma> w"
  shows "answered_one \<sigma> (schedule_do op w)"
proof (cases op)
  case (Op_follow_up i)
  have "stays (answered_one \<sigma>) (scheduleFollowUp i)"
    unfolding scheduleFollowUp_def skip_touch_def get_config_def by (intro stays_intro one_checked)
  then show ?thesis using assms Op_follow_up by (simp add: stays_def)
next
  case (Op_onboarding_check r wo at ch)
  have "stays (answered_one \<sigma>) (scheduleOnboardingCheck r wo at ch)"
    unfolding scheduleOnboardingCheck_def isEnabled_def get_config_def schedule_check_job_def getJob_def
    by (intro stays_intro add_other) (simp_all add: well_typed_def plain_job_def flags_def)
  then show ?thesis using assms Op_onboarding_check by (simp add: stays_def)
next
  case (Op_slot_check r wo at ch)
  have "stays (answered_one \<sigma>) (scheduleInterviewSlotCheck r wo at ch)"
    unfolding scheduleInterviewSlotCheck_def isEnabled_def get_config_def schedule_check_job_def getJob_def
    by (intro stays_intro add_other) (simp_all add: well_typed_def plain_job_def flags_def)
  then show ?thesis using assms Op_slot_check by (simp add: stays_def)
next
  case (Op_resolution r c wo anchor at ch)
  have "stays (answered_one \<sigma>) (scheduleBookingResolution r c wo anchor at ch)"
    unfolding scheduleBookingResolution_def isEnabled_def get_config_def
    by (intro stays_intro add_other) (simp_all add: well_typed_def plain_job_def flags_def)
  then show ?thesis using assms Op_resolution by (simp add: stays_def)
next
  case (Op_remove k reason limit)
  then show ?thesis using assms one_remove_pending by (simp add: stays_def)
next
  case (Op_superseded r c reason limit)
  have "stays (answered_one \<sigma>) (superseded_loop r c reason limit ts n)" for ts n
    by (induction r c reason limit ts n rule: superseded_loop.induct) (auto intro!: stays_intro split: option.split)
  then have "stays (answered_one \<sigma>) (removeSupersededPendingJobs r c reason limit)"
    unfolding removeSupersededPendingJobs_def by (intro stays_intro)
  then show ?thesis using assms Op_superseded by (simp add: stays_def)
next
  case (Op_stop r c reason limit)
  have "stays (answered_one \<sigma>) (stop_loop r c reason limit es n)" for es n
    by (induction r c reason limit es n rule: stop_loop.induct) (auto intro!: stays_intro)
  then have "stays (answered_one \<sigma>) (stopPendingJobsForSessionScenario r c reason limit)"
    unfolding stopPendingJobsForSessionScenario_def getJobs_def by (intro stays_intro)
  then show ?thesis using assms Op_stop by (simp add: stays_def)
qed

text \<open>C31: a candidate waits for one touch at a time, as long as the requests to the queue are answered and no two calls that ask
  for a touch of his session overlap: whatever is scheduled and removed one after another, whatever the workers do meanwhile, and
  whatever other calls add and remove meanwhile, touches of other sessions and checks of any session included, no two touches of
  the session that no worker has started wait before a booking, and none for the same scenario and variant of the same interview.
  The code does not keep two calls for a session apart (\<open>overlapping_calls_leave_two\<close>).\<close>

theorem one_touch_waits_at_a_time:
  assumes "fw_jobs w = []" "undisturbed (session_of (qe_data e)) w"
    and "e \<in> set (fw_jobs (schedule_run ops w))" "e' \<in> set (fw_jobs (schedule_run ops w))"
    and "waiting_touch e" "waiting_touch e'" "rivals (qe_data e) (qe_data e')"
  shows "e = e'"
proof -
  let ?\<sigma> = "session_of (qe_data e)"
  have "answered_one ?\<sigma> w" using assms(1,2) by (simp add: answered_world_def well_typed_queue_def one_touch_def)
  then have "answered_one ?\<sigma> (schedule_run ops w)" unfolding schedule_run_def
    by (induction ops arbitrary: w) (simp_all add: do_one)
  then have "qe_id e = qe_id e'" "distinct (map qe_id (fw_jobs (schedule_run ops w)))"
    using assms(3-7) by (auto simp: answered_world_def one_touch_def well_typed_queue_def)
  then show ?thesis using assms(3,4) by (metis distinct_map inj_onD)
qed

section \<open>Witnesses\<close>

definition demo_input :: "scenario_code \<Rightarrow> string \<Rightarrow> schedule_input" where
  "demo_input c anchor = \<lparr>si_sessionRef = \<lparr>sr_sessionId = ''chat'', sr_userId = ''u'', sr_corpId = ''corp''\<rparr>, si_scenarioCode = c,
     si_anchorEventId = anchor, si_anchorAt = 1000, si_state = None, si_workOrderId = None, si_interviewType = None,
     si_channelIdentity = None, si_touchVariant = None, si_escalateToGroupInvite = False,
     si_collectionAwaitingConfirmation = False\<rparr>"

definition demo_queue :: schedule_world where
  "demo_queue = \<lparr>fw_time = 1500, fw_jobs = [], fw_requests = [(5, [], Done), (5, [], Done)], fw_enabled = True,
     fw_delayMinutes = (\<lambda>_. None), fw_tracked = []\<rparr>"

definition demo_touches :: "schedule_op list" where
  "demo_touches = [Op_follow_up (demo_input Opening_no_reply ''opening''), Op_follow_up (demo_input Address_missing ''t7'')]"

definition demo_entry :: queue_entry where
  "demo_entry = \<lparr>qe_id = ''chat:address_missing:t7'', qe_data = job_of_input (demo_input Address_missing ''t7''),
     qe_status = Delayed, qe_delay = 1799490, qe_tried = False\<rparr>"

lemma demo_jobs: "fw_jobs (schedule_run demo_touches demo_queue) = [demo_entry]"
  by code_simp

lemma jobs_are_well_typed_witness: "well_typed_queue [demo_entry]"
  using jobs_are_well_typed [of demo_queue demo_touches] by (simp add: demo_jobs) (simp add: demo_queue_def)

lemma one_touch_waits_at_a_time_witness:
  "set (filter (\<lambda>e. waiting_touch e \<and> rivals (qe_data e) (qe_data demo_entry)) (fw_jobs (schedule_run demo_touches demo_queue)))
     = {demo_entry}"
proof -
  have w: "waiting_touch demo_entry" "rivals (qe_data demo_entry) (qe_data demo_entry)" by code_simp+
  have u: "undisturbed \<sigma> demo_queue" for \<sigma> by (simp add: demo_queue_def undisturbed_def)
  have "e = demo_entry" if "e \<in> set (fw_jobs (schedule_run demo_touches demo_queue))" "waiting_touch e"
    "rivals (qe_data e) (qe_data demo_entry)" for e
    by (rule one_touch_waits_at_a_time [OF _ u that(1) _ that(2) w(1) that(3)]) (simp_all add: demo_jobs, simp add: demo_queue_def)
  then show ?thesis using w by (auto simp: demo_jobs)
qed

text \<open>Two calls for a session that overlap: while the second waits for its \<open>add\<close>, after it has read the jobs, the
  first, which read them before too, adds its own.  Both touches wait.\<close>

definition overlapping_queue :: schedule_world where
  "overlapping_queue = demo_queue\<lparr>fw_requests := [(5, [], Done), (5, [], Done), (5, [], Done),
     (5, [Added (Op_follow_up (demo_input Address_missing ''t7'')) 1000], Done)]\<rparr>"

lemma overlapping_calls_leave_two:
  "map (\<lambda>e. (qe_id e, waiting_touch e)) (fw_jobs (schedule_run [Op_follow_up (demo_input Opening_no_reply ''opening'')] overlapping_queue))
     = [(''chat:address_missing:t7'', True), (''chat:opening_no_reply:opening'', True)]"
  by code_simp

lemma overlapping_calls_are_rivals:
  "rivals (job_of_input (demo_input Address_missing ''t7'')) (job_of_input (demo_input Opening_no_reply ''opening''))"
  by code_simp

end
