(* ===== verification/FollowUpProcessor.thy ===== *)
theory FollowUpProcessor
  imports FollowUpScheduler MessageFilter TouchLedger
begin

text \<open>
  What happens when a touch comes due, after \<open>follow-up.processor.ts\<close>: the switches, the permit, the
  reasons to stop, the ledger, the text of the agent, the delivery and what is kept of it.  The services are a
  record of ports.  A time that the code reads is the port \<open>fp_now\<close>.  Of the records for the dashboards only the kind of
  event is kept, and of a task for the operators what identifies it.
\<close>

section \<open>Data\<close>

datatype work_status = Awaiting_confirmation | Interview_arranged | Interview_success | Onboarded | Onboarding_failed
  | Left_job | Other_status string

record booking_context =
  bc_workOrderId :: nat
  bc_currentStatus :: "work_status option"
  bc_interviewAt :: "int option"
  bc_interviewType :: "js_text option"
  bc_signUpAt :: "int option"

record follow_up_config =
  fc_enabled :: bool
  fc_shadow :: bool
  fc_rollout :: rollout_config

record time_mismatch =
  tm_workOrderId :: nat
  tm_workOrderInterviewAt :: int
  tm_chatAgreedInterviewAt :: int

datatype outcome_kind = Kind_reply | Kind_other string

record turn_execution =
  ex_kind :: outcome_kind
  ex_text :: "string option"
  ex_generatedText :: "string option"
  ex_validationReason :: "string option"
  ex_mismatch :: "time_mismatch option"

record proactive_delivery =
  pd_success :: bool
  pd_segmentCount :: nat
  pd_failedSegments :: nat
  pd_deliveredSegments :: "nat option"
  pd_skipped :: bool
  pd_skipReason :: "string option"

record delivery_context =
  dx_token :: string
  dx_imBotId :: string
  dx_imContactId :: string
  dx_contactName :: string
  dx_messageId :: string
  dx_chatId :: string

record candidate_message =
  cm_timestamp :: int
  cm_historyOnlyReason :: "filter_reason option"

record ops_task =
  ot_reasonCode :: string
  ot_idempotencyKey :: string
  ot_workOrderId :: nat
  ot_botImId :: "string option"
  ot_contactName :: "string option"

record group_invite =
  gi_city :: string
  gi_botImId :: string
  gi_contactName :: "string option"

record invite_result =
  ir_success :: bool
  ir_alreadyInGroup :: bool
  ir_reason :: "string option"

datatype write_result = Written | Write_duplicate | Write_failed

datatype follow_up_event =
    Ev_disabled | Ev_stopped string | Ev_schedule_skipped string | Ev_frequency_blocked
  | Ev_shadow outcome_kind "string option" string | Ev_duplicate reserve_result | Ev_reserved | Ev_attempted
  | Ev_sent "string option" | Ev_not_reply string "string option" | Ev_unknown string | Ev_invite bool "string option"

datatype turn_status = Turn_success | Turn_failure

record 'w follow_up_ports =
  fp_now :: "'w \<Rightarrow> int"
  fp_config :: "('w, follow_up_config) act"
  fp_track :: "touch_identity \<Rightarrow> follow_up_event \<Rightarrow> 'w \<Rightarrow> 'w"
  fp_record :: "string \<Rightarrow> turn_status \<Rightarrow> string option \<Rightarrow> 'w \<Rightarrow> 'w"
  fp_resolveIdentity :: "string \<Rightarrow> ('w, channel_identity option) act"
  fp_bookingContext :: "session_ref \<Rightarrow> nat \<Rightarrow> string option \<Rightarrow> ('w, booking_context option) act"
  fp_sessionState :: "session_ref \<Rightarrow> ('w, session_state) act"
  fp_sessionCity :: "session_ref \<Rightarrow> ('w, string option) act"
  fp_permit :: "permit_input \<Rightarrow> ('w, permit) act"
  fp_progress :: "session_ref \<Rightarrow> channel_identity option \<Rightarrow> ('w, bool \<times> string option) act"
  fp_latestCandidateMessage :: "string \<Rightarrow> ('w, candidate_message option) act"
  fp_lastMessageFromUser :: "string \<Rightarrow> ('w, bool) act"
  fp_latestReceivedAt :: "string \<Rightarrow> ('w, int option) act"
  fp_reserve :: "string \<Rightarrow> ('w, reserve_result) act"
  fp_markAttempted :: "string \<Rightarrow> ('w, unit) act"
  fp_markSent :: "string \<Rightarrow> string \<Rightarrow> int \<Rightarrow> ('w, unit) act"
  fp_markFailedOrUnknown :: "string \<Rightarrow> bool \<Rightarrow> ('w, unit) act"
  fp_inCooldown :: "string \<Rightarrow> int \<Rightarrow> int option \<Rightarrow> ('w, bool) act"
  fp_overLimit :: "string \<Rightarrow> int \<Rightarrow> ('w, bool) act"
  fp_acquireOnce :: "string \<Rightarrow> ('w, bool) act"
  fp_schedule :: "schedule_input \<Rightarrow> ('w, schedule_result) act"
  fp_scheduleOnboardingCheck :: "session_ref \<Rightarrow> nat \<Rightarrow> int \<Rightarrow> channel_identity option \<Rightarrow> ('w, schedule_result) act"
  fp_scheduleSlotCheck :: "session_ref \<Rightarrow> nat \<Rightarrow> int \<Rightarrow> channel_identity option \<Rightarrow> ('w, schedule_result) act"
  fp_stopPending :: "session_ref \<Rightarrow> scenario_code \<Rightarrow> string \<Rightarrow> ('w, nat) act"
  fp_compose :: "follow_up_job \<Rightarrow> session_state \<Rightarrow> scenario \<Rightarrow> string \<Rightarrow> bool \<Rightarrow> bool \<Rightarrow> booking_context option \<Rightarrow> ('w, turn_execution) act"
  fp_delivery :: "(string \<Rightarrow> turn_execution \<Rightarrow> delivery_context \<Rightarrow> ('w, proactive_delivery) act) option"
  fp_jobUpdate :: "follow_up_job \<Rightarrow> ('w, unit) act"
  fp_invite :: "session_ref \<Rightarrow> group_invite \<Rightarrow> ('w, invite_result) act"
  fp_recordHandoff :: "session_ref \<Rightarrow> ops_task \<Rightarrow> ('w, write_result) act"
  fp_recentName :: "session_ref \<Rightarrow> ('w, string option) act"
  fp_notifyOps :: "session_ref \<Rightarrow> ops_task \<Rightarrow> ('w, bool) act"
  fp_token :: "'w \<Rightarrow> string option"

section \<open>Small pieces\<close>

definition eff :: "('w \<Rightarrow> 'w) \<Rightarrow> ('w, unit) act" where
  "eff f w = (Inr (), f w)"

definition clock :: "'w follow_up_ports \<Rightarrow> ('w, int) act" where
  "clock P w = (Inr (fp_now P w), w)"

abbreviation "tell P i e \<equiv> eff (fp_track P i e)"

definition or_none :: "('w, 'a option) act \<Rightarrow> ('w, 'a option) act" where
  "or_none m = act_catch m (\<lambda>_. act_ret None)"

definition touchKey :: "touch_identity \<Rightarrow> string" where
  "touchKey i = ti_sessionId i @ '':'' @ code_text (ti_scenarioCode i) @ '':'' @ ti_anchorEventId i"

definition batch_id :: "string \<Rightarrow> int \<Rightarrow> string" where
  "batch_id sess now = ''batch_'' @ sess @ ''_'' @ show_int now"

definition identity_of :: "follow_up_job \<Rightarrow> channel_identity option \<Rightarrow> touch_identity" where
  "identity_of d ch = (buildIdentityFromJobData d)\<lparr>ti_channel := ch\<rparr>"

definition channel :: "(channel_identity \<Rightarrow> string option) \<Rightarrow> channel_identity option \<Rightarrow> string option" where
  "channel f ch = (case ch of None \<Rightarrow> None | Some c \<Rightarrow> f c)"

definition present :: "string option \<Rightarrow> bool" where
  "present x \<longleftrightarrow> x \<noteq> None \<and> x \<noteq> Some []"

definition over :: "'a option \<Rightarrow> 'a option \<Rightarrow> 'a option" where
  "over x y = (case y of Some v \<Rightarrow> Some v | None \<Rightarrow> x)"

definition merge_identity :: "channel_identity \<Rightarrow> channel_identity option \<Rightarrow> channel_identity" where
  "merge_identity r j = (case j of None \<Rightarrow> r | Some c \<Rightarrow>
     \<lparr>ci_candidateName = over (ci_candidateName r) (ci_candidateName c), ci_managerName = over (ci_managerName r) (ci_managerName c),
      ci_botImId = over (ci_botImId r) (ci_botImId c), ci_imContactId = over (ci_imContactId r) (ci_imContactId c),
      ci_externalUserId = over (ci_externalUserId r) (ci_externalUserId c)\<rparr>)"

definition resolveJobChannelIdentity :: "'w follow_up_ports \<Rightarrow> follow_up_job \<Rightarrow> ('w, channel_identity option) act" where
  "resolveJobChannelIdentity P d =
     (let ch = fj_channelIdentity d;
          missing = (fj_scenarioCode d = Post_interview_onboarding \<and> \<not> present (channel ci_imContactId ch)
            \<and> \<not> present (channel ci_externalUserId ch))
      in if ch \<noteq> None \<and> \<not> missing \<and> list_ex (\<lambda>f. present (channel f ch))
              [ci_candidateName, ci_managerName, ci_botImId, ci_imContactId, ci_externalUserId]
         then act_ret ch
         else act_catch (act_bind (fp_resolveIdentity P (sr_sessionId (fj_sessionRef d))) (\<lambda>r. case r of
             Some c \<Rightarrow> act_ret (Some (merge_identity c ch)) | None \<Rightarrow> act_ret ch)) (\<lambda>_. act_ret ch))"

definition GRACE_MS :: int where "GRACE_MS = 10 * 60 * 1000"
definition MERGE_TOLERANCE_MS :: int where "MERGE_TOLERANCE_MS = 2 * 60 * 1000"
definition BOOKING_SCHEDULE_TOLERANCE_MS :: int where "BOOKING_SCHEDULE_TOLERANCE_MS = 60000"

definition human_handled :: "candidate_message option \<Rightarrow> int option" where
  "human_handled m = (case m of None \<Rightarrow> None
     | Some c \<Rightarrow> if isHumanHandledHistoryReason (cm_historyOnlyReason c) then Some (cm_timestamp c) else None)"

text \<open>Whether the candidate still waits for an answer; what cannot be read does not hold a touch back.\<close>

definition detectPendingCandidateMessage :: "'w follow_up_ports \<Rightarrow> string \<Rightarrow> int \<Rightarrow> candidate_message option \<Rightarrow> ('w, bool) act" where
  "detectPendingCandidateMessage P sess now m = (case m of None \<Rightarrow> act_ret False
     | Some c \<Rightarrow>
       if isHumanHandledHistoryReason (cm_historyOnlyReason c) then act_ret False
       else if now - cm_timestamp c < GRACE_MS then act_ret False
       else act_catch (act_bind (fp_lastMessageFromUser P sess) (\<lambda>fromUser.
           if \<not> fromUser then act_ret False
           else act_bind (fp_latestReceivedAt P sess) (\<lambda>t. act_ret (case t of None \<Rightarrow> True
             | Some r \<Rightarrow> \<not> (cm_timestamp c - MERGE_TOLERANCE_MS \<le> r))))) (\<lambda>_. act_ret False))"

definition utf8 :: "nat list \<Rightarrow> string" where
  "utf8 bs = map char_of bs"

definition status_text :: "work_status \<Rightarrow> string" where
  "status_text s = (case s of
     Awaiting_confirmation \<Rightarrow> utf8 [0xE7, 0xBA, 0xA6, 0xE9, 0x9D, 0xA2, 0xE5, 0xBE, 0x85, 0xE7, 0xA1, 0xAE, 0xE8, 0xAE, 0xA4]
   | Interview_arranged \<Rightarrow> utf8 [0xE7, 0xBA, 0xA6, 0xE9, 0x9D, 0xA2, 0xE6, 0x88, 0x90, 0xE5, 0x8A, 0x9F]
   | Interview_success \<Rightarrow> utf8 [0xE9, 0x9D, 0xA2, 0xE8, 0xAF, 0x95, 0xE6, 0x88, 0x90, 0xE5, 0x8A, 0x9F]
   | Onboarded \<Rightarrow> utf8 [0xE4, 0xB8, 0x8A, 0xE5, 0xB2, 0x97, 0xE6, 0x88, 0x90, 0xE5, 0x8A, 0x9F]
   | Onboarding_failed \<Rightarrow> utf8 [0xE4, 0xB8, 0x8A, 0xE5, 0xB2, 0x97, 0xE5, 0xA4, 0xB1, 0xE8, 0xB4, 0xA5]
   | Left_job \<Rightarrow> utf8 [0xE5, 0xB7, 0xB2, 0xE7, 0xA6, 0xBB, 0xE8, 0x81, 0x8C]
   | Other_status t \<Rightarrow> t)"

definition checkBookingInvalidAtFire :: "booking_context \<Rightarrow> string option" where
  "checkBookingInvalidAtFire b = (case bc_currentStatus b of
     None \<Rightarrow> Some ''work_order_status_unavailable''
   | Some s \<Rightarrow> if s \<in> {Awaiting_confirmation, Interview_arranged} then None else Some (''work_order_not_active:'' @ status_text s))"

text \<open>The code numbers the days from another origin; only differences are used.\<close>

definition shanghaiDayNumber :: "int \<Rightarrow> int" where
  "shanghaiDayNumber t = (t + 8 * HOUR) div (24 * HOUR)"

definition isD2ConfirmEligible :: "booking_context \<Rightarrow> bool" where
  "isD2ConfirmEligible b = (case (bc_signUpAt b, bc_interviewAt b) of
     (Some s, Some i) \<Rightarrow> 3 \<le> shanghaiDayNumber i - shanghaiDayNumber s | _ \<Rightarrow> False)"

text \<open>\<open>interviewAt\<close> is tested for truth, so the number zero counts as none.\<close>

definition interview_of :: "booking_context \<Rightarrow> int option" where
  "interview_of b = (case bc_interviewAt b of Some t \<Rightarrow> if t = 0 then None else Some t | None \<Rightarrow> None)"

definition stop_text :: "stop_reason \<Rightarrow> string" where
  "stop_text r = (case r of Stop_terminal t \<Rightarrow> ''terminal:'' @ (case t of T_booked \<Rightarrow> ''booked'' | T_handed_off \<Rightarrow> ''handed_off''
       | T_rejected \<Rightarrow> ''rejected'' | T_onboarded \<Rightarrow> ''onboarded'')
     | Invited_to_group \<Rightarrow> ''candidate_invited_to_group'' | Replied_after_anchor \<Rightarrow> ''candidate_replied_after_anchor''
     | No_longer_holds \<Rightarrow> ''scenario_no_longer_holds'')"

fun kind_text :: "outcome_kind \<Rightarrow> string" where
  "kind_text Kind_reply = ''reply''"
| "kind_text (Kind_other k) = k"

section \<open>The delivery port\<close>

text \<open>\<open>ReengagementDeliveryService\<close>: the permit is asked again, just before the text goes out.\<close>

definition reengagement_deliver :: "(permit_input \<Rightarrow> ('w, permit) act) \<Rightarrow> (string \<Rightarrow> delivery_context \<Rightarrow> ('w, proactive_delivery) act)
    \<Rightarrow> turn_execution \<Rightarrow> delivery_context \<Rightarrow> ('w, proactive_delivery) act" where
  "reengagement_deliver permit deliverReply x c =
     (let t = (case ex_text x of Some t \<Rightarrow> trim t | None \<Rightarrow> []) in
      if ex_kind x \<noteq> Kind_reply \<or> t = [] then act_throw (''reengagement_delivery_non_reply:'' @ kind_text (ex_kind x))
      else if dx_token c = [] \<or> dx_imBotId c = [] \<or> dx_imContactId c = [] then act_throw ''reengagement_delivery_missing_context''
      else act_bind (permit \<lparr>in_chatId = dx_chatId c, in_action = PROACTIVE, in_botImId = Some (dx_imBotId c), in_groupId = None,
             in_candidateIds = [Some (dx_imContactId c)]\<rparr>) (\<lambda>p. case p of
          Denied r _ \<Rightarrow> act_ret \<lparr>pd_success = True, pd_segmentCount = 0, pd_failedSegments = 0, pd_deliveredSegments = Some 0,
            pd_skipped = True, pd_skipReason = Some (denial_text r)\<rparr>
        | Allowed \<Rightarrow> deliverReply t c))"

section \<open>Tasks for the operators\<close>

definition dispatchOpsTask :: "'w follow_up_ports \<Rightarrow> follow_up_job \<Rightarrow> touch_identity \<Rightarrow> booking_context \<Rightarrow> string \<Rightarrow> string
    \<Rightarrow> ('w, unit) act" where
  "dispatchOpsTask P d i b reasonCode key =
     (let r = fj_sessionRef d;
          task = \<lparr>ot_reasonCode = reasonCode, ot_idempotencyKey = key, ot_workOrderId = bc_workOrderId b,
            ot_botImId = over (channel ci_botImId (fj_channelIdentity d)) (channel ci_botImId (ti_channel i)), ot_contactName = None\<rparr>
      in act_bind (fp_recordHandoff P r task) (\<lambda>written.
        if written = Write_duplicate then act_ret ()
        else act_bind (or_none (fp_recentName P r)) (\<lambda>recent.
          let own = map_option trim (channel ci_candidateName (ti_channel i)) in
          act_catch (act_bind (fp_notifyOps P r (task\<lparr>ot_contactName := if present own then own else recent\<rparr>)) (\<lambda>_. act_ret ()))
            (\<lambda>_. act_ret ()))))"

definition dispatchOnboardingHandoff :: "'w follow_up_ports \<Rightarrow> follow_up_job \<Rightarrow> touch_identity \<Rightarrow> booking_context \<Rightarrow> string
    \<Rightarrow> ('w, unit) act" where
  "dispatchOnboardingHandoff P d i b reasonCode = (case fj_workOrderId d of None \<Rightarrow> act_ret ()
     | Some wo \<Rightarrow> dispatchOpsTask P d i b reasonCode
         (sr_sessionId (fj_sessionRef d) @ '':post_interview_onboarding:wo'' @ show_nat wo @ '':'' @ reasonCode))"

definition mismatch_key :: "time_mismatch \<Rightarrow> string" where
  "mismatch_key m = ''chat_interview_time_mismatch:wo'' @ show_nat (tm_workOrderId m) @ '':iv'' @ show_int (tm_workOrderInterviewAt m)
     @ '':chat'' @ show_int (tm_chatAgreedInterviewAt m)"

definition dispatchInterviewTimeMismatchNotice :: "'w follow_up_ports \<Rightarrow> follow_up_job \<Rightarrow> touch_identity \<Rightarrow> booking_context
    \<Rightarrow> time_mismatch \<Rightarrow> ('w, unit) act" where
  "dispatchInterviewTimeMismatchNotice P d i b m = act_bind (fp_acquireOnce P (mismatch_key m)) (\<lambda>first.
     if \<not> first then act_ret ()
     else dispatchOpsTask P d i b ''chat_interview_time_mismatch'' (sr_sessionId (fj_sessionRef d) @ '':'' @ mismatch_key m))"

definition stopped :: "'w follow_up_ports \<Rightarrow> touch_identity \<Rightarrow> string \<Rightarrow> ('w, unit) act" where
  "stopped P i reason = tell P i (Ev_stopped reason)"

definition handleInterviewSlotCheck :: "'w follow_up_ports \<Rightarrow> follow_up_job \<Rightarrow> touch_identity \<Rightarrow> booking_context \<Rightarrow> ('w, unit) act" where
  "handleInterviewSlotCheck P d i b = (case checkBookingInvalidAtFire b of Some r \<Rightarrow> stopped P i r
     | None \<Rightarrow>
       if bc_interviewAt b \<noteq> None then stopped P i ''interview_time_resolved''
       else let onceKey = ''interview_slot_coordination:wo'' @ show_nat (bc_workOrderId b) in
         act_bind (fp_acquireOnce P onceKey) (\<lambda>first.
           if \<not> first then stopped P i ''interview_slot_coordination_already_dispatched''
           else act_bind (dispatchOpsTask P d i b ''interview_slot_coordination'' (sr_sessionId (fj_sessionRef d) @ '':'' @ onceKey))
             (\<lambda>_. stopped P i ''interview_slot_coordination_dispatched'')))"

definition handleOnboardingCheck :: "'w follow_up_ports \<Rightarrow> follow_up_job \<Rightarrow> touch_identity \<Rightarrow> booking_context \<Rightarrow> ('w, unit) act" where
  "handleOnboardingCheck P d i b =
     (if bc_currentStatus b = Some Onboarded then stopped P i ''already_onboarded''
      else act_bind (dispatchOnboardingHandoff P d i b ''onboarding_follow_up_required'')
        (\<lambda>_. stopped P i ''onboarding_intervention_dispatched''))"

definition handleOnboardingAtFire :: "'w follow_up_ports \<Rightarrow> follow_up_job \<Rightarrow> touch_identity \<Rightarrow> booking_context
    \<Rightarrow> ('w, string option) act" where
  "handleOnboardingAtFire P d i b = (case bc_currentStatus b of
       Some Interview_success \<Rightarrow> act_ret None
     | Some Onboarded \<Rightarrow> act_ret (Some ''already_onboarded'')
     | Some x \<Rightarrow>
         if x = Onboarding_failed \<or> x = Left_job
         then act_bind (dispatchOnboardingHandoff P d i b ''onboarding_failed'') (\<lambda>_. act_ret (Some ''onboarding_intervention_dispatched''))
         else act_ret (Some ''work_order_regressed'')
     | None \<Rightarrow> act_ret (Some ''work_order_regressed''))"

section \<open>After the delivery\<close>

definition scheduleAcceptedOnboardingCheck :: "'w follow_up_ports \<Rightarrow> follow_up_job \<Rightarrow> nat \<Rightarrow> int \<Rightarrow> ('w, unit) act" where
  "scheduleAcceptedOnboardingCheck P d wo acceptedAt =
     act_bind (fp_scheduleOnboardingCheck P (fj_sessionRef d) wo acceptedAt (fj_channelIdentity d)) (\<lambda>r.
       if res_reason r = Some R_enqueue_error then act_throw ''Onboarding follow-up scheduling not persisted'' else act_ret ())"

definition invite_to_group :: "'w follow_up_ports \<Rightarrow> follow_up_job \<Rightarrow> touch_identity \<Rightarrow> string \<Rightarrow> ('w, unit) act" where
  "invite_to_group P d i city =
     act_bind (fp_invite P (fj_sessionRef d) \<lparr>gi_city = city,
         gi_botImId = (case channel ci_botImId (ti_channel i) of Some x \<Rightarrow> x | None \<Rightarrow> []),
         gi_contactName = channel ci_candidateName (ti_channel i)\<rparr>) (\<lambda>r.
       act_bind (tell P i (Ev_invite (ir_success r) (ir_reason r))) (\<lambda>_.
         if \<not> ir_success r then act_ret ()
         else act_for (filter (\<lambda>s. sc_phase s = Pre_booking) FOLLOW_UP_SCENARIOS) (\<lambda>s.
           act_bind (fp_stopPending P (fj_sessionRef d) (sc_code s)
             (if ir_alreadyInGroup r then ''candidate_already_in_group'' else ''candidate_invited_to_group'')) (\<lambda>_. act_ret ()))))"

definition handleEscalatedGroupInvite :: "'w follow_up_ports \<Rightarrow> follow_up_job \<Rightarrow> touch_identity \<Rightarrow> ('w, unit) act" where
  "handleEscalatedGroupInvite P d i =
     act_catch (act_bind (fp_sessionCity P (fj_sessionRef d)) (\<lambda>c.
         let city = (case c of Some x \<Rightarrow> trim x | None \<Rightarrow> []) in
         if city = [] then tell P i (Ev_invite False (Some ''no_city'')) else invite_to_group P d i city))
       (\<lambda>_. tell P i (Ev_invite False (Some ''api_failed'')))"

definition resolveDeliveryToken :: "'w follow_up_ports \<Rightarrow> 'w \<Rightarrow> string" where
  "resolveDeliveryToken P w = (case fp_token P w of Some t \<Rightarrow> trim t | None \<Rightarrow> [])"

definition buildDeliveryContext :: "'w follow_up_ports \<Rightarrow> touch_identity \<Rightarrow> string \<Rightarrow> 'w \<Rightarrow> delivery_context" where
  "buildDeliveryContext P i batch w = (let ch = ti_channel i; text = (\<lambda>x. case x of Some t \<Rightarrow> t | None \<Rightarrow> []) in
     \<lparr>dx_token = resolveDeliveryToken P w, dx_imBotId = text (channel ci_botImId ch),
      dx_imContactId = text (over (channel ci_externalUserId ch) (channel ci_imContactId ch)),
      dx_contactName = (if present (channel ci_candidateName ch) then text (channel ci_candidateName ch) else utf8 [0xE5, 0xAE, 0xA2, 0xE6, 0x88, 0xB7]),
      dx_messageId = batch, dx_chatId = ti_sessionId i\<rparr>)"

text \<open>The errors of the delivery carry what the handler has to know: whether the delivery was confirmed, and whether the
  touch was recorded as sent.\<close>

definition flagged :: "bool \<Rightarrow> bool \<Rightarrow> ('w, 'a) act \<Rightarrow> ('w, exn \<times> bool \<times> bool, 'a) eact" where
  "flagged confirmed recorded m w = (case m w of (Inl e, w') \<Rightarrow> (Inl (e, confirmed, recorded), w') | (Inr v, w') \<Rightarrow> (Inr v, w'))"

definition unflagged :: "('w, exn \<times> bool \<times> bool, 'a) eact \<Rightarrow> (exn \<times> bool \<times> bool \<Rightarrow> ('w, 'a) act) \<Rightarrow> ('w, 'a) act" where
  "unflagged m h w = (case m w of (Inl e, w') \<Rightarrow> h e w' | (Inr v, w') \<Rightarrow> (Inr v, w'))"

definition onboarding_touch :: "follow_up_job \<Rightarrow> bool" where
  "onboarding_touch d \<longleftrightarrow> fj_scenarioCode d = Post_interview_onboarding \<and> fj_workOrderId d \<noteq> None"

definition delivered_segments :: "proactive_delivery \<Rightarrow> nat" where
  "delivered_segments r = (case pd_deliveredSegments r of Some n \<Rightarrow> n | None \<Rightarrow> pd_segmentCount r)"

text \<open>The receipt of an onboarding touch is first kept with the job, for a later attempt.\<close>

definition keep_receipt :: "'w follow_up_ports \<Rightarrow> follow_up_job \<Rightarrow> int \<Rightarrow> ('w, follow_up_job) act" where
  "keep_receipt P d t = (if onboarding_touch d
     then let d' = d\<lparr>fj_onboardingTouchAcceptedAt := Some t\<rparr> in act_bind (fp_jobUpdate P d') (\<lambda>_. act_ret d')
     else act_ret d)"

definition follow_up_on_sent :: "'w follow_up_ports \<Rightarrow> follow_up_job \<Rightarrow> touch_identity \<Rightarrow> turn_execution \<Rightarrow> string \<Rightarrow> ('w, unit) act" where
  "follow_up_on_sent P d i x batch =
     act_bind (tell P i (Ev_sent (ex_text x))) (\<lambda>_.
     act_bind (case (onboarding_touch d, fj_workOrderId d, fj_onboardingTouchAcceptedAt d) of
         (True, Some wo, Some t) \<Rightarrow> scheduleAcceptedOnboardingCheck P d wo t | _ \<Rightarrow> act_ret ()) (\<lambda>_.
     act_bind (if fj_escalateToGroupInvite d then handleEscalatedGroupInvite P d i else act_ret ()) (\<lambda>_.
     eff (fp_record P batch Turn_success (ex_text x)))))"

definition outbox_confirmed :: "'w follow_up_ports \<Rightarrow> turn_execution \<Rightarrow> string \<Rightarrow> int \<Rightarrow> touch_identity \<Rightarrow> string \<Rightarrow> follow_up_job
    \<Rightarrow> int \<Rightarrow> ('w, exn \<times> bool \<times> bool, unit) eact" where
  "outbox_confirmed P x key now i batch d deliveryEndAt =
     act_bind (flagged True False (keep_receipt P d deliveryEndAt)) (\<lambda>d'.
     act_bind (flagged True False (fp_markSent P key (ti_sessionId i)
         (case fj_onboardingTouchAcceptedAt d' of Some t \<Rightarrow> t | None \<Rightarrow> now))) (\<lambda>_.
     flagged True True (follow_up_on_sent P d' i x batch)))"

definition skip_reason :: "proactive_delivery \<Rightarrow> string" where
  "skip_reason r = (if present (pd_skipReason r) then ''delivery_skipped:'' @ the (pd_skipReason r) else ''delivery_skipped'')"

definition outbox_answered :: "'w follow_up_ports \<Rightarrow> turn_execution \<Rightarrow> string \<Rightarrow> int \<Rightarrow> touch_identity \<Rightarrow> string \<Rightarrow> follow_up_job
    \<Rightarrow> proactive_delivery \<Rightarrow> int \<Rightarrow> ('w, exn \<times> bool \<times> bool, unit) eact" where
  "outbox_answered P x key now i batch d r deliveryEndAt =
     (if pd_skipped r \<or> delivered_segments r = 0
      then flagged False False (act_bind (tell P i (Ev_not_reply ''delivery_skipped'' (Some (skip_reason r)))) (\<lambda>_.
        act_bind (fp_markFailedOrUnknown P key True) (\<lambda>_. eff (fp_record P batch Turn_success None))))
      else if \<not> pd_success r \<or> 0 < pd_failedSegments r \<or> delivered_segments r < pd_segmentCount r
      then act_throw (''proactive_delivery_incomplete'', False, False)
      else outbox_confirmed P x key now i batch d deliveryEndAt)"

definition deliver_touch :: "'w follow_up_ports \<Rightarrow> (string \<Rightarrow> turn_execution \<Rightarrow> delivery_context \<Rightarrow> ('w, proactive_delivery) act)
    \<Rightarrow> turn_execution \<Rightarrow> string \<Rightarrow> touch_identity \<Rightarrow> string \<Rightarrow> ('w, proactive_delivery) act" where
  "deliver_touch P D x key i batch w = D key x (buildDeliveryContext P i batch w) w"

definition outboxDeliverReserved :: "'w follow_up_ports \<Rightarrow> (string \<Rightarrow> turn_execution \<Rightarrow> delivery_context \<Rightarrow> ('w, proactive_delivery) act)
    \<Rightarrow> turn_execution \<Rightarrow> string \<Rightarrow> int \<Rightarrow> touch_identity \<Rightarrow> string \<Rightarrow> follow_up_job \<Rightarrow> ('w, unit) act" where
  "outboxDeliverReserved P D x key now i batch d =
     unflagged
       (act_bind (flagged False False (act_bind (fp_markAttempted P key) (\<lambda>_. tell P i Ev_attempted))) (\<lambda>_.
        act_bind (flagged False False (deliver_touch P D x key i batch)) (\<lambda>r.
        act_bind (flagged False False (clock P)) (\<lambda>deliveryEndAt.
        outbox_answered P x key now i batch d r deliveryEndAt))))
       (\<lambda>(e, confirmed, recorded).
          act_bind (tell P i (Ev_unknown (if confirmed then ''local_sync_pending'' else e))) (\<lambda>_.
          act_bind (eff (fp_record P batch Turn_failure (ex_text x))) (\<lambda>_.
          act_bind (if recorded then act_ret () else fp_markFailedOrUnknown P key False) (\<lambda>_. act_throw e))))"

section \<open>A due touch\<close>

definition scheduleTimeChangedReplacement :: "'w follow_up_ports \<Rightarrow> follow_up_job \<Rightarrow> session_state \<Rightarrow> int \<Rightarrow> booking_context
    \<Rightarrow> ('w, unit) act" where
  "scheduleTimeChangedReplacement P d st newInterviewAt b = (case fj_workOrderId d of None \<Rightarrow> act_ret ()
     | Some wo \<Rightarrow> act_bind (clock P) (\<lambda>now.
         if fj_scenarioCode d = Interview_reminder \<and> newInterviewAt \<le> now then act_ret ()
         else if fj_touchVariant d = Some D2_confirm \<and> \<not> isD2ConfirmEligible b then act_ret ()
         else act_catch (act_bind (fp_schedule P
             \<lparr>si_sessionRef = fj_sessionRef d, si_scenarioCode = fj_scenarioCode d,
              si_anchorEventId = bookingFollowUpAnchorId wo newInterviewAt (fj_scenarioCode d) (bc_interviewType b) (fj_touchVariant d),
              si_anchorAt = fj_anchorAt d, si_state = Some (st\<lparr>ss_terminal := Some T_booked, ss_interviewAt := Some newInterviewAt\<rparr>),
              si_workOrderId = Some wo, si_interviewType = bc_interviewType b, si_channelIdentity = fj_channelIdentity d,
              si_touchVariant = fj_touchVariant d, si_escalateToGroupInvite = False, si_collectionAwaitingConfirmation = False\<rparr>)
             (\<lambda>_. act_ret ())) (\<lambda>_. act_ret ())))"

definition booked_input :: "follow_up_job \<Rightarrow> channel_identity option \<Rightarrow> session_state \<Rightarrow> int option \<Rightarrow> string \<Rightarrow> int
    \<Rightarrow> booking_context \<Rightarrow> schedule_input" where
  "booked_input d ch st interviewAt anchor anchorAt b =
     \<lparr>si_sessionRef = fj_sessionRef d, si_scenarioCode = fj_scenarioCode d, si_anchorEventId = anchor, si_anchorAt = anchorAt,
      si_state = Some (st\<lparr>ss_terminal := Some T_booked, ss_interviewAt := interviewAt\<rparr>), si_workOrderId = Some (bc_workOrderId b),
      si_interviewType = None, si_channelIdentity = ch, si_touchVariant = None, si_escalateToGroupInvite = False,
      si_collectionAwaitingConfirmation = False\<rparr>"

text \<open>A job that only holds a work order: once the order is known, the touches for it are scheduled.\<close>

definition resolve_booking :: "'w follow_up_ports \<Rightarrow> follow_up_job \<Rightarrow> touch_identity \<Rightarrow> session_state \<Rightarrow> int \<Rightarrow> booking_context
    \<Rightarrow> ('w, unit) act" where
  "resolve_booking P d i st now b = (let ch = ti_channel i; c = fj_scenarioCode d; wo = bc_workOrderId b in
     case checkBookingInvalidAtFire b of Some r \<Rightarrow> stopped P i r
     | None \<Rightarrow> case interview_of b of
         None \<Rightarrow> act_bind (fp_schedule P (booked_input d ch st None (fj_anchorEventId d) (fj_anchorAt d) b)) (\<lambda>_.
           if c = Interview_reminder
           then act_bind (fp_scheduleSlotCheck P (fj_sessionRef d) wo (case bc_signUpAt b of Some t \<Rightarrow> t | None \<Rightarrow> now) ch) (\<lambda>_. act_ret ())
           else act_ret ())
       | Some t \<Rightarrow>
         let anchor = bookingFollowUpAnchorId wo t c (bc_interviewType b);
             input = (\<lambda>v. (booked_input d ch st (Some t) (anchor v) now b)\<lparr>si_interviewType := bc_interviewType b, si_touchVariant := v\<rparr>)
         in act_bind (fp_schedule P (input None)) (\<lambda>_.
           if c \<noteq> Interview_reminder then act_ret ()
           else if \<not> isD2ConfirmEligible b
             then tell P (i\<lparr>ti_anchorEventId := anchor (Some D2_confirm), ti_anchorAt := now\<rparr>) (Ev_schedule_skipped ''signup_interview_gap_lt_3d'')
           else act_bind (fp_schedule P (input (Some D2_confirm))) (\<lambda>_. act_ret ())))"

definition interview_at :: "booking_context \<Rightarrow> int" where
  "interview_at b = (case bc_interviewAt b of Some t \<Rightarrow> t | None \<Rightarrow> 0)"

text \<open>Why a touch for an interview is not sent after all; an order without a time never comes here.\<close>

definition booking_gate :: "'w follow_up_ports \<Rightarrow> follow_up_job \<Rightarrow> scenario \<Rightarrow> follow_up_config \<Rightarrow> int \<Rightarrow> session_state
    \<Rightarrow> booking_context \<Rightarrow> ('w, string option) act" where
  "booking_gate P d s cfg now st b =
     (let d2 = (fj_touchVariant d = Some D2_confirm); t = interview_at b;
          delay = rc_delayMinutes (fc_rollout cfg) (case resolveVariantConfigKey (sc_code s) (fj_touchVariant d) of
            Some k \<Rightarrow> k | None \<Rightarrow> code_text (sc_code s));
          fireAt = computeFireAt s \<lparr>sx_anchorAt = now, sx_state = st, sx_interviewType = bc_interviewType b\<rparr> delay (fj_touchVariant d)
      in case checkBookingInvalidAtFire b of Some r \<Rightarrow> act_ret (Some r)
      | None \<Rightarrow>
        if d2 \<and> \<not> isD2ConfirmEligible b then act_ret (Some ''signup_interview_gap_lt_3d'')
        else if d2 \<and> t - now < 24 * HOUR then act_ret (Some ''interview_too_close'')
        else if BOOKING_SCHEDULE_TOLERANCE_MS < fireAt - now
          then act_bind (scheduleTimeChangedReplacement P d st t b) (\<lambda>_. act_ret (Some ''interview_time_changed''))
        else if fj_scenarioCode d = Interview_reminder \<and> t \<le> now then act_ret (Some ''interview_time_passed'')
        else act_ret None)"

definition generated_text :: "turn_execution \<Rightarrow> string option" where
  "generated_text x = (case ex_generatedText x of Some t \<Rightarrow> Some t | None \<Rightarrow> if ex_kind x = Kind_reply then ex_text x else None)"

definition shadow_touch :: "'w follow_up_ports \<Rightarrow> follow_up_job \<Rightarrow> touch_identity \<Rightarrow> scenario \<Rightarrow> session_state \<Rightarrow> string \<Rightarrow> bool \<Rightarrow> bool
    \<Rightarrow> booking_context option \<Rightarrow> ('w, unit) act" where
  "shadow_touch P d i s st batch rollout shadow bc =
     act_bind (fp_compose P d st s batch rollout shadow bc) (\<lambda>x.
     act_bind (tell P i (Ev_shadow (ex_kind x) (generated_text x) (case ex_validationReason x of Some r \<Rightarrow> r
         | None \<Rightarrow> if Option.is_none (fp_delivery P) then ''no_delivery_port'' else if \<not> rollout then ''rollout_disabled'' else ''shadow_mode''))) (\<lambda>_.
     eff (fp_record P batch Turn_success (generated_text x))))"

definition send_touch :: "'w follow_up_ports \<Rightarrow> (string \<Rightarrow> turn_execution \<Rightarrow> delivery_context \<Rightarrow> ('w, proactive_delivery) act)
    \<Rightarrow> follow_up_job \<Rightarrow> touch_identity \<Rightarrow> scenario \<Rightarrow> session_state \<Rightarrow> int \<Rightarrow> booking_context option \<Rightarrow> ('w, unit) act" where
  "send_touch P D d i s st now bc = (let key = touchKey i; batch = batch_id (ti_sessionId i) now in
     act_bind (fp_reserve P key) (\<lambda>slot.
     if slot \<noteq> Reserved then tell P i (Ev_duplicate slot)
     else act_bind (tell P i Ev_reserved) (\<lambda>_.
       act_bind (fp_compose P d st s batch True False bc) (\<lambda>x.
       if ex_kind x \<noteq> Kind_reply \<or> ex_text x = None then
         act_bind (case (ex_mismatch x, bc) of (Some m, Some b) \<Rightarrow> dispatchInterviewTimeMismatchNotice P d i b m | _ \<Rightarrow> act_ret ()) (\<lambda>_.
         act_bind (tell P i (Ev_not_reply (kind_text (ex_kind x)) (ex_validationReason x))) (\<lambda>_.
         act_bind (eff (fp_record P batch Turn_success None)) (\<lambda>_.
         fp_markFailedOrUnknown P key True)))
       else outboxDeliverReserved P D x key now i batch d))))"

definition within_limits :: "'w follow_up_ports \<Rightarrow> follow_up_job \<Rightarrow> touch_identity \<Rightarrow> scenario \<Rightarrow> follow_up_config \<Rightarrow> int
    \<Rightarrow> session_state \<Rightarrow> booking_context option \<Rightarrow> ('w, unit) act" where
  "within_limits P d i s cfg now st bc =
     (let rollout = resolveRolloutEnabled s (fc_rollout cfg) (fj_touchVariant d) False;
          invite = (fj_escalateToGroupInvite d \<and> resolveRolloutEnabled s (fc_rollout cfg) None True);
          d' = (if invite then d else d\<lparr>fj_escalateToGroupInvite := False\<rparr>);
          shadow = (Option.is_none (fp_delivery P) \<or> fc_shadow cfg)
      in act_bind (if sc_sessionCooldownExempt s then act_ret False else fp_inCooldown P (ti_sessionId i) now (ss_lastCandidateMessageAt st))
        (\<lambda>cooling. if cooling then stopped P i ''session_touch_cooldown''
         else act_bind (fp_overLimit P (ti_sessionId i) now) (\<lambda>over. if over then tell P i Ev_frequency_blocked
           else case fp_delivery P of
               None \<Rightarrow> shadow_touch P d' i s st (batch_id (ti_sessionId i) now) rollout shadow bc
             | Some D \<Rightarrow>
                 if shadow \<or> \<not> rollout then shadow_touch P d' i s st (batch_id (ti_sessionId i) now) rollout shadow bc
                 else send_touch P D d' i s st now bc)))"

definition permit_of_touch :: "touch_identity \<Rightarrow> permit_input" where
  "permit_of_touch i = \<lparr>in_chatId = ti_sessionId i, in_action = PROACTIVE, in_botImId = channel ci_botImId (ti_channel i),
     in_groupId = None, in_candidateIds = [Some (ti_userId i), channel ci_imContactId (ti_channel i), channel ci_externalUserId (ti_channel i)]\<rparr>"

definition conversation_gate :: "'w follow_up_ports \<Rightarrow> follow_up_job \<Rightarrow> touch_identity \<Rightarrow> scenario \<Rightarrow> int \<Rightarrow> session_state
    \<Rightarrow> ('w, string option) act" where
  "conversation_gate P d i s now st =
     act_bind (if sc_phase s = Pre_booking then fp_progress P (fj_sessionRef d) (ti_channel i) else act_ret (False, None)) (\<lambda>(active, verdict).
     if active then act_ret (Some (case verdict of Some v \<Rightarrow> v | None \<Rightarrow> ''candidate_progress:active''))
     else act_bind (or_none (fp_latestCandidateMessage P (ti_sessionId i))) (\<lambda>m.
       case shouldStop s st (fj_anchorAt d) (fj_workOrderId d \<noteq> None) now (human_handled m) of Some r \<Rightarrow> act_ret (Some (stop_text r))
       | None \<Rightarrow> act_bind (detectPendingCandidateMessage P (ti_sessionId i) now m) (\<lambda>waits.
           act_ret (if waits then Some ''pending_candidate_message'' else None))))"

definition permitted_touch :: "'w follow_up_ports \<Rightarrow> follow_up_job \<Rightarrow> touch_identity \<Rightarrow> scenario \<Rightarrow> follow_up_config \<Rightarrow> int
    \<Rightarrow> session_state \<Rightarrow> booking_context option \<Rightarrow> ('w, unit) act" where
  "permitted_touch P d i s cfg now loaded bc =
     act_bind (fp_permit P (permit_of_touch i)) (\<lambda>p. case p of Denied r _ \<Rightarrow> stopped P i (''action_permit:'' @ denial_text r)
     | Allowed \<Rightarrow>
       let st = (case bc of None \<Rightarrow> loaded | Some b \<Rightarrow> case interview_of b of None \<Rightarrow> loaded | Some t \<Rightarrow> loaded\<lparr>ss_interviewAt := Some t\<rparr>) in
       act_bind (conversation_gate P d i s now st) (\<lambda>r. case r of Some x \<Rightarrow> stopped P i x
       | None \<Rightarrow> act_bind (case (sc_anchorEvent s = Booking_succeeded, bc) of (True, Some b) \<Rightarrow> booking_gate P d s cfg now st b | _ \<Rightarrow> act_ret None)
           (\<lambda>r. case r of Some x \<Rightarrow> stopped P i x | None \<Rightarrow> within_limits P d i s cfg now st bc)))"

definition unavailable :: "string \<Rightarrow> nat \<Rightarrow> ('w, 'a) act" where
  "unavailable what wo = act_throw (what @ show_nat wo)"

definition booked_touch :: "'w follow_up_ports \<Rightarrow> follow_up_job \<Rightarrow> touch_identity \<Rightarrow> scenario \<Rightarrow> follow_up_config \<Rightarrow> int
    \<Rightarrow> session_state \<Rightarrow> ('w, unit) act" where
  "booked_touch P d i s cfg now loaded = (case fj_workOrderId d of None \<Rightarrow> stopped P i ''missing_authoritative_work_order_id''
     | Some wo \<Rightarrow> act_bind (fp_bookingContext P (fj_sessionRef d) wo (channel ci_botImId (ti_channel i))) (\<lambda>bc.
         case bc of None \<Rightarrow> unavailable ''reengagement_booking_context_unavailable:'' wo
         | Some b \<Rightarrow>
             if fj_interviewSlotCheck d then handleInterviewSlotCheck P d i b
             else if fj_resolveBookingAtFire d then
               (if wo = 0 then unavailable ''reengagement_booking_context_unavailable:'' wo else resolve_booking P d i loaded now b)
             else if interview_of b = None then (case checkBookingInvalidAtFire b of Some r \<Rightarrow> stopped P i r
               | None \<Rightarrow> unavailable ''reengagement_booking_time_unavailable:'' wo)
             else permitted_touch P d i s cfg now loaded (Some b)))"

definition loaded_touch :: "'w follow_up_ports \<Rightarrow> follow_up_job \<Rightarrow> touch_identity \<Rightarrow> scenario \<Rightarrow> follow_up_config \<Rightarrow> int
    \<Rightarrow> booking_context option \<Rightarrow> ('w, unit) act" where
  "loaded_touch P d i s cfg now bc = act_bind (fp_sessionState P (fj_sessionRef d)) (\<lambda>loaded.
     if sc_anchorEvent s = Booking_succeeded then booked_touch P d i s cfg now loaded
     else permitted_touch P d i s cfg now loaded bc)"

definition passed_touch :: "'w follow_up_ports \<Rightarrow> follow_up_job \<Rightarrow> touch_identity \<Rightarrow> scenario \<Rightarrow> follow_up_config \<Rightarrow> int
    \<Rightarrow> ('w, unit) act" where
  "passed_touch P d i s cfg now = (case fj_workOrderId d of None \<Rightarrow> stopped P i ''missing_authoritative_work_order_id''
     | Some wo \<Rightarrow> act_bind (fp_bookingContext P (fj_sessionRef d) wo (channel ci_botImId (ti_channel i))) (\<lambda>bc.
         case bc of None \<Rightarrow> unavailable ''reengagement_booking_context_unavailable:'' wo
         | Some b \<Rightarrow>
             if fj_onboardingCheck d then handleOnboardingCheck P d i b
             else act_bind (handleOnboardingAtFire P d i b) (\<lambda>v. case v of Some r \<Rightarrow> stopped P i r
               | None \<Rightarrow> loaded_touch P d i s cfg now (Some b))))"

definition accepted_touch :: "'w follow_up_ports \<Rightarrow> follow_up_job \<Rightarrow> touch_identity \<Rightarrow> nat \<Rightarrow> int \<Rightarrow> ('w, unit) act" where
  "accepted_touch P d i wo acceptedAt = act_bind (fp_markSent P (touchKey i) (ti_sessionId i) acceptedAt) (\<lambda>_.
     act_bind (tell P i (Ev_sent None)) (\<lambda>_. scheduleAcceptedOnboardingCheck P d wo acceptedAt))"

definition process :: "'w follow_up_ports \<Rightarrow> follow_up_job \<Rightarrow> ('w, unit) act" where
  "process P d = (case getScenario (fj_scenarioCode d) of None \<Rightarrow> act_ret ()
     | Some s \<Rightarrow> act_bind (resolveJobChannelIdentity P d) (\<lambda>ch. let i = identity_of d ch in
         act_bind (fp_config P) (\<lambda>cfg.
           if \<not> fc_enabled cfg then tell P i Ev_disabled
           else case (fj_scenarioCode d = Post_interview_onboarding, fj_onboardingTouchAcceptedAt d, fj_workOrderId d) of
               (True, Some t, Some wo) \<Rightarrow> accepted_touch P d i wo t
             | _ \<Rightarrow> act_bind (clock P) (\<lambda>now.
                 if sc_anchorEvent s = Interview_passed then passed_touch P d i s cfg now else loaded_touch P d i s cfg now None))))"

end
