(* ===== verification/FollowUpOnce.thy ===== *)
theory FollowUpOnce
  imports FollowUpProcessor
begin

text \<open>
  What the processor of due touches promises.  A touch is delivered at most once in three days, whatever jobs come due
  and however their runs end: the interface is the locale \<open>touch_slots\<close>, what a ledger promises of one slot, with the
  lemmas of a processor that reserves before it delivers; the touch ledger on a Redis server with expiring keys
  gives it.  And each of the gates alone holds a touch back.
\<close>

section \<open>Assertions that the ports keep\<close>

text \<open>The services beside the ledger and the delivery.\<close>

definition services_stay :: "('w \<Rightarrow> bool) \<Rightarrow> 'w follow_up_ports \<Rightarrow> bool" where
  "services_stay J P \<longleftrightarrow>
     (\<forall>i e. stays J (eff (fp_track P i e))) \<and> (\<forall>b t x. stays J (eff (fp_record P b t x))) \<and>
     stays J (fp_config P) \<and> (\<forall>s. stays J (fp_resolveIdentity P s)) \<and> (\<forall>r wo b. stays J (fp_bookingContext P r wo b)) \<and>
     (\<forall>r. stays J (fp_sessionState P r)) \<and> (\<forall>r. stays J (fp_sessionCity P r)) \<and> (\<forall>i. stays J (fp_permit P i)) \<and>
     (\<forall>r ch. stays J (fp_progress P r ch)) \<and> (\<forall>s. stays J (fp_latestCandidateMessage P s)) \<and>
     (\<forall>s. stays J (fp_lastMessageFromUser P s)) \<and> (\<forall>s. stays J (fp_latestReceivedAt P s)) \<and>
     (\<forall>i. stays J (fp_schedule P i)) \<and> (\<forall>r wo t ch. stays J (fp_scheduleOnboardingCheck P r wo t ch)) \<and>
     (\<forall>r wo t ch. stays J (fp_scheduleSlotCheck P r wo t ch)) \<and> (\<forall>r c x. stays J (fp_stopPending P r c x)) \<and>
     (\<forall>d st s b ro sh bc. stays J (fp_compose P d st s b ro sh bc)) \<and> (\<forall>d. stays J (fp_jobUpdate P d)) \<and>
     (\<forall>r g. stays J (fp_invite P r g)) \<and> (\<forall>r t. stays J (fp_recordHandoff P r t)) \<and> (\<forall>r. stays J (fp_recentName P r)) \<and>
     (\<forall>r t. stays J (fp_notifyOps P r t))"

definition ledger_stays :: "('w \<Rightarrow> bool) \<Rightarrow> 'w follow_up_ports \<Rightarrow> bool" where
  "ledger_stays J P \<longleftrightarrow>
     (\<forall>k. stays J (fp_reserve P k)) \<and> (\<forall>k. stays J (fp_markAttempted P k)) \<and> (\<forall>k s t. stays J (fp_markSent P k s t)) \<and>
     (\<forall>k f. stays J (fp_markFailedOrUnknown P k f)) \<and> (\<forall>s now r. stays J (fp_inCooldown P s now r)) \<and>
     (\<forall>s now. stays J (fp_overLimit P s now)) \<and> (\<forall>k. stays J (fp_acquireOnce P k))"

lemma servicesD:
  assumes "services_stay J P"
  shows "stays J (eff (fp_track P i e))" "stays J (eff (fp_record P b t x))" "stays J (fp_config P)"
    "stays J (fp_resolveIdentity P s)" "stays J (fp_bookingContext P r wo im)" "stays J (fp_sessionState P r)"
    "stays J (fp_sessionCity P r)" "stays J (fp_permit P pin)" "stays J (fp_progress P r ch)" "stays J (fp_latestCandidateMessage P s)"
    "stays J (fp_lastMessageFromUser P s)" "stays J (fp_latestReceivedAt P s)" "stays J (fp_schedule P si)"
    "stays J (fp_scheduleOnboardingCheck P r wo' now ch)" "stays J (fp_scheduleSlotCheck P r wo' now ch)"
    "stays J (fp_stopPending P r c y)" "stays J (fp_compose P d st sc b ro sh bc)" "stays J (fp_jobUpdate P d)"
    "stays J (fp_invite P r g)" "stays J (fp_recordHandoff P r task)" "stays J (fp_recentName P r)" "stays J (fp_notifyOps P r task)"
  using assms by (simp_all add: services_stay_def)

lemma ledgerD:
  assumes "ledger_stays J P"
  shows "stays J (fp_reserve P k)" "stays J (fp_markAttempted P k)" "stays J (fp_markSent P k s t)"
    "stays J (fp_markFailedOrUnknown P k failed)" "stays J (fp_inCooldown P s now r)" "stays J (fp_overLimit P s now)"
    "stays J (fp_acquireOnce P k)"
  using assms by (simp_all add: ledger_stays_def)

lemma stays_clock [stays_intro]: "stays J (clock P)"
  by (simp add: stays_def clock_def)

lemma stays_or_none [stays_intro]: "stays J m \<Longrightarrow> stays J (or_none m)"
  unfolding or_none_def by (intro stays_intro)

lemma stays_unavailable [stays_intro]: "stays J (unavailable x wo)"
  unfolding unavailable_def by (intro stays_intro)

lemma stays_bool [stays_intro]: "(b \<Longrightarrow> stays J m) \<Longrightarrow> (\<not> b \<Longrightarrow> stays J n) \<Longrightarrow> stays J (case b of True \<Rightarrow> m | False \<Rightarrow> n)"
  by (cases b) simp_all

lemma stays_permit [stays_intro]: "(p = Allowed \<Longrightarrow> stays J m) \<Longrightarrow> (\<And>r e. stays J (n r e)) \<Longrightarrow> stays J (case p of Allowed \<Rightarrow> m | Denied r e \<Rightarrow> n r e)"
  by (cases p) simp_all

lemma stays_flagged [stays_intro]: "stays J m \<Longrightarrow> stays J (flagged a b m)"
  by (auto simp: stays_def flagged_def split: prod.split sum.split; metis snd_conv)

section \<open>The parts that deliver nothing\<close>

lemma parts_stay:
  assumes "services_stay J P" "ledger_stays J P"
  shows "stays J (stopped P i reason)" "stays J (resolveJobChannelIdentity P d)" "stays J (dispatchOpsTask P d i b x y)"
    "stays J (dispatchOnboardingHandoff P d i b x)" "stays J (dispatchInterviewTimeMismatchNotice P d i b m)"
    "stays J (handleInterviewSlotCheck P d i b)" "stays J (handleOnboardingCheck P d i b)" "stays J (handleOnboardingAtFire P d i b)"
    "stays J (scheduleAcceptedOnboardingCheck P d wo now)" "stays J (handleEscalatedGroupInvite P d i)"
    "stays J (scheduleTimeChangedReplacement P d st now b)" "stays J (resolve_booking P d i st now b)"
    "stays J (booking_gate P d s cfg now st b)" "stays J (conversation_gate P d i s now st)"
    "stays J (shadow_touch P d i s st batch ro sh bc)" "stays J (accepted_touch P d i wo now)"
    "stays J (keep_receipt P d now)"
proof -
  note p = servicesD [OF assms(1)] ledgerD [OF assms(2)]
  show stop: "stays J (stopped P i reason)" for i reason unfolding stopped_def by (rule p)
  show "stays J (resolveJobChannelIdentity P d)" unfolding resolveJobChannelIdentity_def by (intro stays_intro p)
  show ops: "stays J (dispatchOpsTask P d i b x y)" for d i b x y unfolding dispatchOpsTask_def by (intro stays_intro p)
  show hand: "stays J (dispatchOnboardingHandoff P d i b x)" for d i b x
    unfolding dispatchOnboardingHandoff_def by (intro stays_intro ops)
  show "stays J (dispatchInterviewTimeMismatchNotice P d i b m)"
    unfolding dispatchInterviewTimeMismatchNotice_def by (intro stays_intro p ops)
  show "stays J (handleInterviewSlotCheck P d i b)" unfolding handleInterviewSlotCheck_def by (intro stays_intro p ops stop)
  show "stays J (handleOnboardingCheck P d i b)" unfolding handleOnboardingCheck_def by (intro stays_intro hand stop)
  show "stays J (handleOnboardingAtFire P d i b)"
    unfolding handleOnboardingAtFire_def by (cases "bc_currentStatus b") (auto intro!: stays_intro hand split: work_status.split)
  show acc: "stays J (scheduleAcceptedOnboardingCheck P d wo now)" for d wo now
    unfolding scheduleAcceptedOnboardingCheck_def by (intro stays_intro p)
  show "stays J (handleEscalatedGroupInvite P d i)"
    unfolding handleEscalatedGroupInvite_def invite_to_group_def by (intro stays_intro p)
  show re: "stays J (scheduleTimeChangedReplacement P d st now b)" for d st now b
    unfolding scheduleTimeChangedReplacement_def by (intro stays_intro p)
  show "stays J (resolve_booking P d i st now b)" unfolding resolve_booking_def by (intro stays_intro p stop)
  show "stays J (booking_gate P d s cfg now st b)" unfolding booking_gate_def by (intro stays_intro re)
  show "stays J (conversation_gate P d i s now st)"
    unfolding conversation_gate_def detectPendingCandidateMessage_def by (intro stays_intro p)
  show "stays J (shadow_touch P d i s st batch ro sh bc)" unfolding shadow_touch_def by (intro stays_intro p)
  show "stays J (accepted_touch P d i wo now)" unfolding accepted_touch_def by (intro stays_intro p acc)
  show "stays J (keep_receipt P d now)" unfolding keep_receipt_def by (intro stays_intro p)
qed

text \<open>What a run keeps follows from what the sending of a reserved touch keeps.\<close>

lemma limits_stay:
  assumes "services_stay J P" "ledger_stays J P"
    and "\<And>D d i s st now bc. fp_delivery P = Some D \<Longrightarrow> stays J (send_touch P D d i s st now bc)"
  shows "stays J (within_limits P d i s cfg now st bc)"
  unfolding within_limits_def Let_def by (intro stays_intro servicesD [OF assms(1)] ledgerD [OF assms(2)] parts_stay [OF assms(1,2)] assms(3))

lemma process_stays:
  assumes "services_stay J P" "ledger_stays J P"
    and "\<And>D d i s st now bc. fp_delivery P = Some D \<Longrightarrow> stays J (send_touch P D d i s st now bc)"
  shows "stays J (process P d)"
proof -
  note p = servicesD [OF assms(1)] ledgerD [OF assms(2)] parts_stay [OF assms(1,2)]
  have permitted: "stays J (permitted_touch P d i s cfg now loaded bc)" for i s cfg now loaded bc
    unfolding permitted_touch_def Let_def by (intro stays_intro p limits_stay [OF assms])
  have loaded: "stays J (loaded_touch P d i s cfg now bc)" for i s cfg now bc
    unfolding loaded_touch_def booked_touch_def by (intro stays_intro p permitted)
  show ?thesis
    unfolding process_def passed_touch_def by (intro stays_intro p loaded)
qed

lemma triple_flagged: "triple A m (\<lambda>_. Q) (\<lambda>_. E) \<Longrightarrow> triple A (flagged a b m) (\<lambda>_. Q) (\<lambda>_. E)"
  by (fastforce simp: triple_def flagged_def split: prod.splits sum.splits)

lemma triple_unflagged: "triple A m Q F \<Longrightarrow> (\<And>e. triple (F e) (h e) Q E) \<Longrightarrow> triple A (unflagged m h) Q E"
  by (fastforce simp: triple_def unflagged_def split: prod.splits sum.splits)

lemma triple_weaken: "stays J m \<Longrightarrow> (\<And>w. J w \<Longrightarrow> K w) \<Longrightarrow> triple J m (\<lambda>_. J) (\<lambda>_. K)"
  unfolding stays_triple by (erule triple_conseq) auto

lemma outbox_stays:
  assumes "services_stay J P" "ledger_stays J P" and "\<And>x dx. stays J (D k x dx)"
  shows "stays J (outboxDeliverReserved P D x k now i batch d)"
proof -
  note u = servicesD [OF assms(1)] ledgerD [OF assms(2)] parts_stay [OF assms(1,2)]
  have one: "stays J (deliver_touch P D x k i batch)"
    using assms(3) by (simp add: stays_def deliver_touch_def)
  have body: "stays J (act_bind (flagged a b (act_bind (fp_markAttempted P k) (\<lambda>_. tell P i Ev_attempted))) (\<lambda>_.
      act_bind (flagged a b (deliver_touch P D x k i batch)) (\<lambda>r.
      act_bind (flagged a b (clock P)) (\<lambda>t. outbox_answered P x k now i batch d r t))))" for a b
    unfolding outbox_answered_def outbox_confirmed_def follow_up_on_sent_def by (intro stays_intro u one)
  have "stays J (case e of (e, confirmed, recorded) \<Rightarrow>
      act_bind (tell P i (Ev_unknown (if confirmed then ''local_sync_pending'' else e))) (\<lambda>_.
      act_bind (eff (fp_record P batch Turn_failure (ex_text x))) (\<lambda>_.
      act_bind (if recorded then act_ret () else fp_markFailedOrUnknown P k False) (\<lambda>_. act_throw e))))" for e
    by (intro stays_intro u)
  with body show ?thesis
    unfolding outboxDeliverReserved_def stays_triple by (rule triple_unflagged [where F = "\<lambda>_. J"])
qed

lemma send_touch_stays:
  assumes "services_stay J P" "ledger_stays J P" and "\<And>x dx. stays J (D (touchKey i) x dx)"
  shows "stays J (send_touch P D d i s st now bc)"
  unfolding send_touch_def Let_def
  by (intro stays_intro servicesD [OF assms(1)] ledgerD [OF assms(2)] parts_stay [OF assms(1,2)] outbox_stays [OF assms(1,2)] assms(3))

section \<open>The interface of the ledger\<close>

text \<open>\<open>view\<close>: unless it is too late to speak of the slot, so many deliveries were made and, if asked, the slot is kept.\<close>

definition view :: "('w \<Rightarrow> bool) \<Rightarrow> ('w \<Rightarrow> bool) \<Rightarrow> ('w \<Rightarrow> bool) \<Rightarrow> ('w \<Rightarrow> nat) \<Rightarrow> nat \<Rightarrow> bool \<Rightarrow> 'w \<Rightarrow> bool" where
  "view late fair kept sends n k w \<longleftrightarrow> late w \<or> (fair w \<and> sends w = n \<and> (k \<longrightarrow> kept w))"

text \<open>A delivery under another key is none of this touch, one under its key is one more.\<close>

definition counted_delivery :: "(nat \<Rightarrow> bool \<Rightarrow> 'w \<Rightarrow> bool) \<Rightarrow> string
    \<Rightarrow> (string \<Rightarrow> turn_execution \<Rightarrow> delivery_context \<Rightarrow> ('w, proactive_delivery) act) \<Rightarrow> bool" where
  "counted_delivery V key D \<longleftrightarrow> (\<forall>k x c n b. k \<noteq> key \<longrightarrow> stays (V n b) (D k x c)) \<and>
     (\<forall>x c n b w. V n b w \<longrightarrow> (\<exists>m \<in> {n, Suc n}. V m b (snd (D key x c w))))"

definition processed :: "'w follow_up_ports \<Rightarrow> follow_up_job list \<Rightarrow> 'w \<Rightarrow> 'w" where
  "processed P ds w = fold (\<lambda>d w. snd (process P d w)) ds w"

locale touch_slots =
  fixes reserve :: "string \<Rightarrow> ('w, reserve_result) act" and attempted :: "string \<Rightarrow> ('w, unit) act"
    and sent :: "string \<Rightarrow> string \<Rightarrow> int \<Rightarrow> ('w, unit) act" and failed :: "string \<Rightarrow> bool \<Rightarrow> ('w, unit) act"
    and cooldown :: "string \<Rightarrow> int \<Rightarrow> int option \<Rightarrow> ('w, bool) act" and limit :: "string \<Rightarrow> int \<Rightarrow> ('w, bool) act"
    and once :: "string \<Rightarrow> ('w, bool) act"
    and key :: string and late fair kept :: "'w \<Rightarrow> bool" and sends :: "'w \<Rightarrow> nat"
  assumes reserve_keeps: "stays (view late fair kept sends n b) (reserve k)"
    and attempted_keeps: "stays (view late fair kept sends n b) (attempted k)"
    and sent_keeps: "stays (view late fair kept sends n b) (sent k s t)"
    and failed_keeps: "stays (view late fair kept sends n b) (failed k f)"
    and cooldown_keeps: "stays (view late fair kept sends n b) (cooldown s t r)"
    and limit_keeps: "stays (view late fair kept sends n b) (limit s t)"
    and once_keeps: "stays (view late fair kept sends n b) (once k)"
    and reserve_grants: "fair w \<Longrightarrow> reserve key w = (Inr Reserved, w') \<Longrightarrow> \<not> late w' \<Longrightarrow> \<not> kept w \<and> kept w'"
begin

text \<open>Before the reservation of a run, and after it.\<close>

definition unsent :: "nat \<Rightarrow> 'w \<Rightarrow> bool" where
  "unsent c w \<longleftrightarrow> late w \<or> (fair w \<and> (sends w < c \<or> (sends w \<le> c \<and> kept w)))"

definition mine :: "nat \<Rightarrow> 'w \<Rightarrow> bool" where
  "mine c w \<longleftrightarrow> late w \<or> (fair w \<and> sends w < c \<and> kept w)"

abbreviation "keeps_view m \<equiv> (\<forall>n b. stays (view late fair kept sends n b) m)"

lemma mine_unsent: "mine c w \<Longrightarrow> unsent c w"
  by (auto simp: mine_def unsent_def)

lemma keeps_both: "(\<And>n b. stays (view late fair kept sends n b) m) \<Longrightarrow> stays (unsent c) m \<and> stays (mine c) m"
proof -
  assume v: "\<And>n b. stays (view late fair kept sends n b) m"
  have j: "late w' \<or> (fair w' \<and> sends w' = sends w \<and> (kept w \<longrightarrow> kept w'))" if "late w \<or> fair w" "m w = (r, w')" for w r w'
    using staysD [OF v [of "sends w" "kept w"] _ that(2)] staysD [OF v [of 0 False] _ that(2)] staysD [OF v [of 1 False] _ that(2)] that(1)
    by (fastforce simp: view_def)
  show ?thesis
  proof (intro conjI staysI)
    fix w r w' assume w: "unsent c w" "m w = (r, w')"
    show "unsent c w'"
    proof (cases "late w")
      case True
      then show ?thesis using staysD [OF v [of 0 False] _ w(2)] staysD [OF v [of "Suc (Suc c)" False] _ w(2)]
        by (auto simp: view_def unsent_def)
    next
      case False
      then show ?thesis using w(1) j [OF _ w(2)] by (auto simp: unsent_def)
    qed
  next
    fix w r w' assume w: "mine c w" "m w = (r, w')"
    show "mine c w'"
    proof (cases "late w")
      case True
      then show ?thesis using staysD [OF v [of 0 False] _ w(2)] staysD [OF v [of "Suc c" False] _ w(2)]
        by (auto simp: view_def mine_def)
    next
      case False
      then show ?thesis using w(1) j [OF _ w(2)] by (auto simp: mine_def)
    qed
  qed
qed

lemmas keeps_unsent = keeps_both [THEN conjunct1] and keeps_mine = keeps_both [THEN conjunct2]

text \<open>A reservation that is granted makes the slot this run's.\<close>

lemma reserve_gives: "triple (unsent c) (reserve key) (\<lambda>r w. if r = Reserved then mine c w else unsent c w) (\<lambda>_. unsent c)"
proof (rule tripleI)
  fix w r w' assume w: "unsent c w" "reserve key w = (Inr r, w')"
  have u: "unsent c w'" using staysD [OF keeps_unsent [OF reserve_keeps] w] .
  show "if r = Reserved then mine c w' else unsent c w'"
  proof (cases "r = Reserved \<and> \<not> late w'")
    case True
    have nl: "\<not> late w" using staysD [OF reserve_keeps [of 0 False] _ w(2)] staysD [OF reserve_keeps [of 1 False] _ w(2)] True
      by (auto simp: view_def)
    then have "\<not> kept w" "kept w'" using reserve_grants w True by (auto simp: unsent_def)
    moreover have "sends w' = sends w" "fair w'"
      using staysD [OF reserve_keeps [of "sends w" False] _ w(2)] w(1) nl True by (auto simp: view_def unsent_def)
    ultimately show ?thesis using w(1) nl True by (auto simp: unsent_def mine_def)
  qed (use u in \<open>auto simp: mine_def\<close>)
next
  fix w e w' assume "unsent c w" "reserve key w = (Inl e, w')"
  then show "unsent c w'" using staysD [OF keeps_unsent [OF reserve_keeps]] by blast
qed

lemma delivery_spends:
  assumes "counted_delivery (view late fair kept sends) key D"
  shows "triple (mine c) (D key x dx) (\<lambda>_. unsent c) (\<lambda>_. unsent c)"
proof -
  have "unsent c w'" if w: "mine c w" "D key x dx w = (r, w')" for w r w'
  proof -
    have d: "view late fair kept sends n b w \<Longrightarrow> \<exists>m \<in> {n, Suc n}. view late fair kept sends m b w'" for n b
    proof -
      assume "view late fair kept sends n b w"
      with assms have "\<exists>m \<in> {n, Suc n}. view late fair kept sends m b (snd (D key x dx w))" unfolding counted_delivery_def by blast
      then show ?thesis using w(2) by simp
    qed
    show ?thesis
    proof (cases "late w")
      case True
      then have "late w'" using d [of 0 False] d [of 2 False] by (auto simp: view_def)
      then show ?thesis by (simp add: unsent_def)
    next
      case False
      then have f: "fair w" "sends w < c" "kept w" using w(1) by (simp_all add: mine_def)
      then have "late w' \<or> (fair w' \<and> kept w' \<and> sends w' \<le> Suc (sends w))" using d [of "sends w" True] by (auto simp: view_def)
      then show ?thesis using f(2) by (auto simp: unsent_def)
    qed
  qed
  then show ?thesis by (fastforce intro: tripleI)
qed

lemma outbox_spends:
  assumes "services_stay (unsent c) P" "services_stay (mine c) P" "ledger_stays (unsent c) P" "ledger_stays (mine c) P"
    and D: "counted_delivery (view late fair kept sends) key D"
  shows "triple (mine c) (outboxDeliverReserved P D x key now i batch d) (\<lambda>_. unsent c) (\<lambda>_. unsent c)"
proof -
  note u = servicesD [OF assms(1)] ledgerD [OF assms(3)] parts_stay [OF assms(1,3)]
  note m = servicesD [OF assms(2)] ledgerD [OF assms(4)]
  have start: "triple (mine c) (flagged a b (act_bind (fp_markAttempted P key) (\<lambda>_. tell P i Ev_attempted)))
     (\<lambda>_. mine c) (\<lambda>_. unsent c)" for a b
    by (rule triple_weaken [OF _ mine_unsent]) (intro stays_intro m)
  have one: "triple (mine c) (deliver_touch P D x key i batch) (\<lambda>_. unsent c) (\<lambda>_. unsent c)"
    using delivery_spends [OF D] by (simp add: triple_def deliver_touch_def)
  have rest: "stays (unsent c) (act_bind (flagged a b (clock P)) (\<lambda>t. outbox_answered P x key now i batch d r t))" for a b r
    unfolding outbox_answered_def outbox_confirmed_def follow_up_on_sent_def
    by (intro stays_intro u)
  have "triple (unsent c) (case e of (e, confirmed, recorded) \<Rightarrow>
      act_bind (tell P i (Ev_unknown (if confirmed then ''local_sync_pending'' else e))) (\<lambda>_.
      act_bind (eff (fp_record P batch Turn_failure (ex_text x))) (\<lambda>_.
      act_bind (if recorded then act_ret () else fp_markFailedOrUnknown P key False) (\<lambda>_. act_throw e))))
     (\<lambda>_. unsent c) (\<lambda>_. unsent c)" for e
    unfolding stays_triple [symmetric] by (intro stays_intro u)
  then show ?thesis
    unfolding outboxDeliverReserved_def
    by (intro triple_unflagged [where F = "\<lambda>_. unsent c"] triple_bind [OF start] triple_bind [OF triple_flagged [OF one]]
        rest [unfolded stays_triple])
qed

definition uses_ledger :: "'w follow_up_ports \<Rightarrow> bool" where
  "uses_ledger P \<longleftrightarrow> fp_reserve P = reserve \<and> fp_markAttempted P = attempted \<and> fp_markSent P = sent \<and>
     fp_markFailedOrUnknown P = failed \<and> fp_inCooldown P = cooldown \<and> fp_overLimit P = limit \<and> fp_acquireOnce P = once"

lemma ledger_kept: "uses_ledger P \<Longrightarrow> ledger_stays (unsent c) P \<and> ledger_stays (mine c) P"
  by (simp add: uses_ledger_def ledger_stays_def keeps_both reserve_keeps attempted_keeps sent_keeps failed_keeps
      cooldown_keeps limit_keeps once_keeps)

lemma services_kept:
  assumes "\<And>n b. services_stay (view late fair kept sends n b) P"
  shows "services_stay (unsent c) P" "services_stay (mine c) P"
  using servicesD [OF assms] by (simp_all add: services_stay_def keeps_both)

lemma send_stays:
  assumes P: "uses_ledger P" and S: "\<And>n b. services_stay (view late fair kept sends n b) P" and D: "counted_delivery (view late fair kept sends) key D"
  shows "stays (unsent c) (send_touch P D d i s st now bc)"
proof -
  note su = services_kept [OF S, of c] and lu = ledger_kept [OF P, of c, THEN conjunct1] ledger_kept [OF P, of c, THEN conjunct2]
  note u = servicesD [OF su(1)] ledgerD [OF lu(1)] parts_stay [OF su(1) lu(1)]
  let ?rest = "act_bind (tell P i Ev_reserved) (\<lambda>_.
       act_bind (fp_compose P d st s (batch_id (ti_sessionId i) now) True False bc) (\<lambda>x.
       if ex_kind x \<noteq> Kind_reply \<or> ex_text x = None then
         act_bind (case (ex_mismatch x, bc) of (Some m, Some b) \<Rightarrow> dispatchInterviewTimeMismatchNotice P d i b m | _ \<Rightarrow> act_ret ()) (\<lambda>_.
         act_bind (tell P i (Ev_not_reply (kind_text (ex_kind x)) (ex_validationReason x))) (\<lambda>_.
         act_bind (eff (fp_record P (batch_id (ti_sessionId i) now) Turn_success None)) (\<lambda>_.
         fp_markFailedOrUnknown P (touchKey i) True)))
       else outboxDeliverReserved P D x (touchKey i) now i (batch_id (ti_sessionId i) now) d))"
  have unsent_part: "stays (unsent c) (act_bind (case (ex_mismatch x, bc) of (Some m, Some b) \<Rightarrow> dispatchInterviewTimeMismatchNotice P d i b m | _ \<Rightarrow> act_ret ()) (\<lambda>_.
         act_bind (tell P i (Ev_not_reply (kind_text (ex_kind x)) (ex_validationReason x))) (\<lambda>_.
         act_bind (eff (fp_record P (batch_id (ti_sessionId i) now) Turn_success None)) (\<lambda>_.
         fp_markFailedOrUnknown P (touchKey i) True))))" for x
    by (intro stays_intro u)
  show ?thesis
  proof (cases "touchKey i = key")
    case False
    then show ?thesis using D by (intro send_touch_stays [OF su(1) lu(1)]) (simp add: counted_delivery_def keeps_unsent)
  next
    case True
    have tellm: "triple (mine c) (tell P i Ev_reserved) (\<lambda>_. mine c) (\<lambda>_. unsent c)"
      by (rule triple_weaken [OF servicesD(1) [OF su(2)] mine_unsent])
    have comp: "triple (mine c) (fp_compose P d st s b ro sh bc) (\<lambda>_. mine c) (\<lambda>_. unsent c)" for b ro sh
      by (rule triple_weaken [OF servicesD(17) [OF su(2)] mine_unsent])
    have "triple (mine c) ?rest (\<lambda>_. unsent c) (\<lambda>_. unsent c)"
    proof (rule triple_bind [OF tellm], rule triple_bind [OF comp], rule triple_if)
      show "triple (mine c) (act_bind (case (ex_mismatch x, bc) of (Some m, Some b) \<Rightarrow> dispatchInterviewTimeMismatchNotice P d i b m | _ \<Rightarrow> act_ret ()) (\<lambda>_.
         act_bind (tell P i (Ev_not_reply (kind_text (ex_kind x)) (ex_validationReason x))) (\<lambda>_.
         act_bind (eff (fp_record P (batch_id (ti_sessionId i) now) Turn_success None)) (\<lambda>_.
         fp_markFailedOrUnknown P (touchKey i) True)))) (\<lambda>_. unsent c) (\<lambda>_. unsent c)" for x
        by (rule triple_conseq [OF unsent_part [unfolded stays_triple]]) (simp_all add: mine_unsent)
      show "triple (mine c) (outboxDeliverReserved P D x (touchKey i) now i (batch_id (ti_sessionId i) now) d) (\<lambda>_. unsent c) (\<lambda>_. unsent c)" for x
        unfolding True by (rule outbox_spends [OF su lu D])
    qed
    moreover have "triple (unsent c) (fp_reserve P key) (\<lambda>r w. if r = Reserved then mine c w else unsent c w) (\<lambda>_. unsent c)"
      using reserve_gives P by (simp add: uses_ledger_def)
    ultimately have "triple (unsent c) (act_bind (fp_reserve P key) (\<lambda>slot. if slot \<noteq> Reserved then tell P i (Ev_duplicate slot) else ?rest))
       (\<lambda>_. unsent c) (\<lambda>_. unsent c)"
      using servicesD(1) [OF su(1)]
      by (intro triple_bind [where R = "\<lambda>r w. if r = Reserved then mine c w else unsent c w"] triple_if)
        (auto simp: stays_triple)
    then show ?thesis unfolding stays_triple send_touch_def Let_def True by simp
  qed
qed

text \<open>Whatever jobs come due, the touch is delivered at most once more, and not at all when its slot is kept.\<close>

lemma one_more_delivery:
  assumes P: "uses_ledger P" and S: "\<And>n b. services_stay (view late fair kept sends n b) P"
    and D: "\<And>D. fp_delivery P = Some D \<Longrightarrow> counted_delivery (view late fair kept sends) key D" and w: "fair w"
  shows "late (processed P ds w) \<or> sends (processed P ds w) \<le> (if kept w then sends w else Suc (sends w))"
proof -
  have "stays (unsent c) (process P d)" for c d
    by (rule process_stays [OF services_kept(1) [OF S] ledger_kept [OF P, THEN conjunct1] send_stays [OF P S D]])
  then have "unsent c w \<Longrightarrow> unsent c (processed P ds w)" for c w unfolding processed_def
    by (induction ds arbitrary: w) (simp_all add: stays_def)
  moreover have "unsent (if kept w then sends w else Suc (sends w)) w" using w by (simp add: unsent_def)
  ultimately show ?thesis by (fastforce simp: unsent_def)
qed

end

section \<open>The ledger on Redis\<close>

definition timed_ledger :: "string \<Rightarrow> (string \<Rightarrow> (redis_value \<times> int option) option) touch_service" where
  "timed_ledger p = \<lparr>ts_cmds = timed_commands, ts_prefix = p\<rparr>"

text \<open>The slot of the touch is there until \<open>h\<close>.\<close>

definition slot_kept :: "string \<Rightarrow> string \<Rightarrow> int \<Rightarrow> (string \<Rightarrow> (redis_value \<times> int option) option) \<Rightarrow> bool" where
  "slot_kept p key h s \<longleftrightarrow> (\<exists>v e. s (p @ slotKey key) = Some (v, Some e) \<and> h \<le> e)"

definition slot_fair :: "string \<Rightarrow> string \<Rightarrow> int \<Rightarrow> ((string \<Rightarrow> (redis_value \<times> int option) option), 'x) redis_world_scheme \<Rightarrow> bool" where
  "slot_fair p key h w \<longleftrightarrow> h \<le> time_ms w + SLOT_MS \<and>
     (\<forall>e \<in> set (network w). \<forall>s. slot_kept p key h s \<longrightarrow> slot_kept p key h (ne_others e s))"

definition slot_late :: "int \<Rightarrow> ((string \<Rightarrow> (redis_value \<times> int option) option), 'x) redis_world_scheme \<Rightarrow> bool" where
  "slot_late h w \<longleftrightarrow> h \<le> time_ms w"

lemma arrive_fair:
  assumes "net_arrive w = (ft, w1)" "slot_fair p key h w"
  shows "slot_fair p key h w1" "time_ms w \<le> time_ms w1" "redis_world.more w1 = redis_world.more w"
    "slot_kept p key h (server w) \<Longrightarrow> slot_kept p key h (server w1)"
  using assms by (auto simp: net_arrive_def net_calm_def slot_fair_def Let_def split: list.splits)

lemma tick_kept: "slot_kept p key h s \<Longrightarrow> \<not> h \<le> now \<Longrightarrow> slot_kept p key h (tc_tick timed_commands now s)"
  by (auto simp: slot_kept_def timed_commands_def)

lemma touch_call_view:
  assumes f: "\<And>now s v s'. f now s = (v, s') \<Longrightarrow> h \<le> now + SLOT_MS \<Longrightarrow> slot_kept p key h s \<Longrightarrow> slot_kept p key h s'"
  shows "stays (view (slot_late h) (slot_fair p key h) (\<lambda>w. slot_kept p key h (server w)) (\<lambda>w. counts (redis_world.more w)) n b)
    (touch_call (timed_ledger p) f)"
proof (rule staysI)
  fix w r w' assume w: "view (slot_late h) (slot_fair p key h) (\<lambda>w. slot_kept p key h (server w)) (\<lambda>w. counts (redis_world.more w)) n b w"
    and r: "touch_call (timed_ledger p) f w = (r, w')"
  obtain ft w1 where a: "net_arrive w = (ft, w1)" by fastforce
  let ?s0 = "tc_tick timed_commands (time_ms w1) (server w1)"
  obtain v s1 where v: "f (time_ms w1) ?s0 = (v, s1)" by fastforce
  have w': "w' = w1\<lparr>server := ?s0\<rparr> \<or> w' = w1\<lparr>server := s1\<rparr>"
    using r by (auto simp: touch_call_def a v timed_ledger_def Let_def split: net_fault.splits)
  have t: "time_ms w \<le> time_ms w1" "redis_world.more w1 = redis_world.more w"
    using a by (auto simp: net_arrive_def Let_def)
  show "view (slot_late h) (slot_fair p key h) (\<lambda>w. slot_kept p key h (server w)) (\<lambda>w. counts (redis_world.more w)) n b w'"
  proof (cases "h \<le> time_ms w1")
    case True
    then show ?thesis using w' by (auto simp: view_def slot_late_def)
  next
    case False
    then have nl: "\<not> slot_late h w" using t by (simp add: slot_late_def)
    then have fw: "slot_fair p key h w" using w by (simp add: view_def)
    note g = arrive_fair [OF a fw]
    have "slot_fair p key h w'" using g(1) w' by (auto simp: slot_fair_def)
    moreover have "counts (redis_world.more w') = n" using w nl w' t(2) by (auto simp: view_def)
    moreover have "slot_kept p key h (server w')" if b
    proof -
      have "slot_kept p key h ?s0" using tick_kept [OF g(4) False] w nl that by (simp add: view_def)
      moreover from f [OF v _ this] have "slot_kept p key h s1" using g(1) by (simp add: slot_fair_def)
      ultimately show ?thesis using w' by auto
    qed
    ultimately show ?thesis by (simp add: view_def)
  qed
qed

lemma kept_setnx: "slot_kept p key h s \<Longrightarrow> tc_setnx timed_commands now k v sec s = (ok, s') \<Longrightarrow> slot_kept p key h s'"
  by (auto simp: slot_kept_def timed_commands_def split: if_splits)

lemma kept_setex: "slot_kept p key h s \<Longrightarrow> k \<noteq> p @ slotKey key \<or> h \<le> now + sec * 1000 \<Longrightarrow>
    slot_kept p key h (tc_setex timed_commands now k v sec s)"
  by (auto simp: slot_kept_def timed_commands_def)

lemma kept_rpush: "slot_kept p key h s \<Longrightarrow> k \<noteq> p @ slotKey key \<Longrightarrow> slot_kept p key h (tc_rpush timed_commands k v s)"
  by (simp add: slot_kept_def timed_commands_def)

lemma kept_expire: "slot_kept p key h s \<Longrightarrow> k \<noteq> p @ slotKey key \<Longrightarrow> slot_kept p key h (tc_expire timed_commands now k sec s)"
  by (simp add: slot_kept_def timed_commands_def)

lemma other_keys: "sentListKey s \<noteq> slotKey key" "lastTouchKey s \<noteq> slotKey key"
  by (simp_all add: sentListKey_def lastTouchKey_def slotKey_def)

lemma kept_slot: "slot_kept p key h s \<Longrightarrow> h \<le> now + SLOT_MS \<Longrightarrow> slot_kept p key h (set_slot (timed_ledger p) k st now s)"
  unfolding set_slot_def by (simp add: timed_ledger_def kept_setex SLOT_TTL_S_def SLOT_MS_def)

lemma kept_sent:
  assumes "slot_kept p key h s" "h \<le> now + SLOT_MS"
  shows "slot_kept p key h (sent_script (timed_ledger p) k sess t now s)"
proof -
  have r: "ts_cmds (timed_ledger p) = timed_commands" "touch_key (timed_ledger p) x = p @ x" for x
    by (simp_all add: timed_ledger_def touch_key_def)
  obtain fresh s2 where x: "tc_setnx timed_commands now (p @ countedKey k) (TText ''1'') SLOT_TTL_S
      (set_slot (timed_ledger p) k Slot_sent now s) = (fresh, s2)" by fastforce
  have "slot_kept p key h s2" using kept_setnx [OF kept_slot [OF assms] x] .
  then show ?thesis
    unfolding sent_script_def Let_def r x by (auto intro!: kept_setex kept_expire kept_rpush simp: other_keys)
qed

abbreviation "slot_view p key h counts n b \<equiv> view (slot_late h) (slot_fair p key h) (\<lambda>w. slot_kept p key h (server w)) (\<lambda>w. counts (redis_world.more w)) n b"

lemma setnx_view: "stays (slot_view p key h counts n b) (touch_call (timed_ledger p) (\<lambda>now. tc_setnx (ts_cmds (timed_ledger p)) now k v sec))"
  by (rule touch_call_view) (auto simp: timed_ledger_def dest: kept_setnx)

lemma read_view: "stays (slot_view p key h counts n b) (touch_call (timed_ledger p) (\<lambda>now s. (f s, s)))"
  by (rule touch_call_view) simp

definition ONCE_TTL_S :: int where "ONCE_TTL_S = 7 * 24 * 60 * 60"

interpretation timed_slots: touch_slots "reserve (timed_ledger p)" "markDeliveryAttempted (timed_ledger p)" "markSent (timed_ledger p)"
  "markFailedOrUnknown (timed_ledger p)" "isInSessionTouchCooldown (timed_ledger p)" "isOverFrequencyLimit (timed_ledger p)"
  "\<lambda>k. acquireOnce (timed_ledger p) k ONCE_TTL_S" key "slot_late h" "slot_fair p key h" "\<lambda>w. slot_kept p key h (server w)"
  "\<lambda>w. counts (redis_world.more w)"
  for p key :: string and h :: int and counts :: "'x \<Rightarrow> nat"
proof
  fix w w' :: "((string \<Rightarrow> (redis_value \<times> int option) option), 'x) redis_world_scheme"
  assume w: "slot_fair p key h w" "reserve (timed_ledger p) key w = (Inr Reserved, w')" "\<not> slot_late h w'"
  let ?m = "touch_call (timed_ledger p) (\<lambda>now. tc_setnx (ts_cmds (timed_ledger p)) now (touch_key (timed_ledger p) (slotKey key))
     (TText (slot_text Slot_reserved)) SLOT_TTL_S)"
  obtain ok w1 where m: "?m w = (Inr ok, w1)" "(if ok then act_ret Reserved else act_bind (getState (timed_ledger p) key) (\<lambda>v.
      act_ret (if v = Some (TText (slot_text Slot_sent)) then Duplicate_sent else Duplicate_inflight))) w1 = (Inr Reserved, w')"
    using w(2) unfolding reserve_def by (rule act_bind_InrE)
  then have "ok" "w' = w1" by (auto elim!: act_bind_InrE split: if_splits)
  obtain ft w0 where a: "net_arrive w = (ft, w0)" by fastforce
  have t: "time_ms w' = time_ms w0" and k: "tc_tick timed_commands (time_ms w0) (server w0) (p @ slotKey key) = None"
    and s: "server w' = (tc_tick timed_commands (time_ms w0) (server w0))(p @ slotKey key \<mapsto>
       (Single (TText (slot_text Slot_reserved)), Some (time_ms w0 + SLOT_TTL_S * 1000)))"
    using m(1) \<open>ok\<close> \<open>w' = w1\<close>
    by (auto simp: touch_call_def a timed_ledger_def touch_key_def Let_def timed_commands_def split: net_fault.splits if_splits)
  have "\<not> slot_kept p key h (server w)"
    using tick_kept [of p key h "server w0" "time_ms w0"] arrive_fair(4) [OF a w(1)] k t w(3)
    by (auto simp: slot_kept_def slot_late_def)
  moreover have "slot_kept p key h (server w')"
    using s arrive_fair(1) [OF a w(1)] by (simp add: slot_kept_def slot_fair_def SLOT_MS_def SLOT_TTL_S_def)
  ultimately show "\<not> slot_kept p key h (server w) \<and> slot_kept p key h (server w')" ..
next
  fix n b k
  show "stays (slot_view p key h counts n b) (reserve (timed_ledger p) k)"
    unfolding reserve_def getState_def by (intro stays_intro setnx_view read_view)
next
  fix n b k
  show "stays (slot_view p key h counts n b) (markDeliveryAttempted (timed_ledger p) k)"
    unfolding markDeliveryAttempted_def by (rule touch_call_view) (auto simp: kept_slot)
next
  fix n b k s t
  show "stays (slot_view p key h counts n b) (markSent (timed_ledger p) k s t)"
    unfolding markSent_def by (rule touch_call_view) (auto simp: kept_sent)
next
  fix n b k f
  show "stays (slot_view p key h counts n b) (markFailedOrUnknown (timed_ledger p) k f)"
    unfolding markFailedOrUnknown_def by (rule touch_call_view) (auto simp: kept_slot)
next
  fix n b s t r
  show "stays (slot_view p key h counts n b) (isInSessionTouchCooldown (timed_ledger p) s t r)"
    unfolding isInSessionTouchCooldown_def getLastTouchAt_def by (intro stays_intro read_view)
next
  fix n b s t
  show "stays (slot_view p key h counts n b) (isOverFrequencyLimit (timed_ledger p) s t)"
    unfolding isOverFrequencyLimit_def countSentIn24h_def by (intro stays_intro read_view)
next
  fix n b k
  show "stays (slot_view p key h counts n b) (acquireOnce (timed_ledger p) k ONCE_TTL_S)"
    unfolding acquireOnce_def by (intro stays_intro setnx_view)
qed

definition on_ledger :: "string \<Rightarrow> ((string \<Rightarrow> (redis_value \<times> int option) option), 'x) redis_world_scheme follow_up_ports
    \<Rightarrow> ((string \<Rightarrow> (redis_value \<times> int option) option), 'x) redis_world_scheme follow_up_ports" where
  "on_ledger p P = P\<lparr>fp_reserve := reserve (timed_ledger p), fp_markAttempted := markDeliveryAttempted (timed_ledger p),
     fp_markSent := markSent (timed_ledger p), fp_markFailedOrUnknown := markFailedOrUnknown (timed_ledger p),
     fp_inCooldown := isInSessionTouchCooldown (timed_ledger p), fp_overLimit := isOverFrequencyLimit (timed_ledger p),
     fp_acquireOnce := (\<lambda>k. acquireOnce (timed_ledger p) k ONCE_TTL_S)\<rparr>"

section \<open>A touch is delivered at most once\<close>

text \<open>What is asked of everything beside the processor and its ledger: nobody else removes the slot before its time, no service
  removes it or delivers the touch, and the delivery under its key delivers it once.\<close>

definition leaves_the_slot :: "string \<Rightarrow> string \<Rightarrow> int \<Rightarrow> ('x \<Rightarrow> nat)
    \<Rightarrow> ((string \<Rightarrow> (redis_value \<times> int option) option), 'x) redis_world_scheme follow_up_ports
    \<Rightarrow> ((string \<Rightarrow> (redis_value \<times> int option) option), 'x) redis_world_scheme \<Rightarrow> bool" where
  "leaves_the_slot p key h counts P w \<longleftrightarrow>
     (\<forall>e \<in> set (network w). \<forall>s. slot_kept p key h s \<longrightarrow> slot_kept p key h (ne_others e s)) \<and>
     (\<forall>n b. services_stay (slot_view p key h counts n b) P) \<and>
     (\<forall>D. fp_delivery P = Some D \<longrightarrow> counted_delivery (slot_view p key h counts) key D)"

lemma deliveries_bounded:
  assumes "leaves_the_slot p key h counts P w" "h \<le> time_ms w + SLOT_MS" "time_ms (processed (on_ledger p P) ds w) < h"
  shows "counts (redis_world.more (processed (on_ledger p P) ds w)) \<le>
    (if slot_kept p key h (server w) then counts (redis_world.more w) else Suc (counts (redis_world.more w)))"
proof -
  have "timed_slots.uses_ledger p (on_ledger p P)" by (simp add: timed_slots.uses_ledger_def on_ledger_def)
  moreover have "services_stay (slot_view p key h counts n b) (on_ledger p P)" for n b
    using assms(1) by (simp add: leaves_the_slot_def services_stay_def on_ledger_def)
  moreover have "counted_delivery (slot_view p key h counts) key D" if "fp_delivery (on_ledger p P) = Some D" for D
    using assms(1) that by (simp add: leaves_the_slot_def on_ledger_def)
  moreover have "slot_fair p key h w" using assms(1,2) by (simp add: leaves_the_slot_def slot_fair_def)
  ultimately show ?thesis
    using timed_slots.one_more_delivery [where p = p and P = "on_ledger p P" and key = key and h = h and counts = counts and w = w and ds = ds]
      assms(3) by (auto simp: slot_late_def split: if_splits)
qed

text \<open>C22: whatever jobs come due, in whatever order and however their runs end, a touch is delivered at most once in three
  days: as long as nobody else removes the slot of its key from Redis before its time, and whatever the other services do beside it,
  the deliveries under the key grow by at most one.\<close>

theorem touch_delivered_at_most_once:
  fixes w :: "((string \<Rightarrow> (redis_value \<times> int option) option), 'x) redis_world_scheme" and counts :: "'x \<Rightarrow> nat"
  assumes "leaves_the_slot p key (time_ms w + SLOT_MS) counts P w"
    and "time_ms (processed (on_ledger p P) ds w) < time_ms w + SLOT_MS"
  shows "counts (redis_world.more (processed (on_ledger p P) ds w)) \<le> counts (redis_world.more w) + 1"
  using deliveries_bounded [OF assms(1) _ assms(2)] by (simp split: if_splits)

text \<open>C24: a touch whose slot is taken is not delivered, whatever state the slot is in: also not when the run that took it
  rejected before anything was sent, so the later attempts of the job deliver nothing while the slot is kept.\<close>

theorem taken_touch_is_not_delivered:
  fixes w :: "((string \<Rightarrow> (redis_value \<times> int option) option), 'x) redis_world_scheme" and counts :: "'x \<Rightarrow> nat"
  assumes "leaves_the_slot p key h counts P w" "h \<le> time_ms w + SLOT_MS" "slot_kept p key h (server w)"
    and "time_ms (processed (on_ledger p P) ds w) < h"
  shows "counts (redis_world.more (processed (on_ledger p P) ds w)) \<le> counts (redis_world.more w)"
  using deliveries_bounded [OF assms(1,2,4)] assms(3) by simp

section \<open>Each gate alone holds a touch back\<close>

lemma stays_bind_when:
  assumes "stays J m" "\<And>w v w'. m w = (Inr v, w') \<Longrightarrow> ok v" "\<And>v. ok v \<Longrightarrow> stays J (k v)"
  shows "stays J (act_bind m k)"
proof (rule staysI)
  fix w r w' assume w: "J w" "act_bind m k w = (r, w')"
  obtain x w1 where x: "m w = (x, w1)" by fastforce
  show "J w'"
  proof (cases x)
    case (Inl e) then show ?thesis using staysD [OF assms(1) w(1) x] w(2) x by (simp add: act_bind_def)
  next
    case (Inr v)
    then have "k v w1 = (r, w')" "ok v" using w(2) x assms(2) by (auto simp: act_bind_def)
    then show ?thesis using staysD [OF assms(3) staysD [OF assms(1) w(1) x]] by blast
  qed
qed

text \<open>The gates, in the order in which a run meets them: what it means that one of them never lets the touch pass.\<close>

definition switch_off :: "follow_up_job \<Rightarrow> scenario \<Rightarrow> follow_up_config \<Rightarrow> bool" where
  "switch_off d s c \<longleftrightarrow> \<not> fc_enabled c \<or> fc_shadow c \<or> \<not> resolveRolloutEnabled s (fc_rollout c) (fj_touchVariant d) False"

definition order_closed :: "'w follow_up_ports \<Rightarrow> scenario \<Rightarrow> bool" where
  "order_closed P s \<longleftrightarrow> (\<forall>r wo b w x w'. fp_bookingContext P r wo b w = (Inr (Some x), w') \<longrightarrow>
     (sc_anchorEvent s = Booking_succeeded \<and> checkBookingInvalidAtFire x \<noteq> None) \<or>
     (sc_anchorEvent s = Interview_passed \<and> bc_currentStatus x \<noteq> Some Interview_success)) \<and>
     sc_anchorEvent s \<in> {Booking_succeeded, Interview_passed}"

definition talk_closed :: "'w follow_up_ports \<Rightarrow> scenario \<Rightarrow> bool" where
  "talk_closed P s \<longleftrightarrow>
     (sc_phase s = Pre_booking \<and> (\<forall>r ch w x w'. fp_progress P r ch w = (Inr x, w') \<longrightarrow> fst x)) \<or>
     (\<forall>r w st w'. fp_sessionState P r w = (Inr st, w') \<longrightarrow> legacyTerminalStops (ss_terminal st) (sc_phase s))"

definition limits_closed :: "'w follow_up_ports \<Rightarrow> scenario \<Rightarrow> bool" where
  "limits_closed P s \<longleftrightarrow>
     (\<not> sc_sessionCooldownExempt s \<and> (\<forall>x t r w w'. fp_inCooldown P x t r w \<noteq> (Inr False, w'))) \<or>
     (\<forall>x t w w'. fp_overLimit P x t w \<noteq> (Inr False, w'))"

definition sending_closed :: "'w follow_up_ports \<Rightarrow> bool" where
  "sending_closed P \<longleftrightarrow> (\<forall>k w w'. fp_reserve P k w \<noteq> (Inr Reserved, w')) \<or>
     (\<forall>d st s b ro sh bc w x w'. fp_compose P d st s b ro sh bc w = (Inr x, w') \<longrightarrow> ex_kind x \<noteq> Kind_reply \<or> ex_text x = None)"

definition a_gate_is_closed :: "'w follow_up_ports \<Rightarrow> follow_up_job \<Rightarrow> bool" where
  "a_gate_is_closed P d \<longleftrightarrow> (\<forall>s. getScenario (fj_scenarioCode d) = Some s \<longrightarrow>
     (\<forall>w c w'. fp_config P w = (Inr c, w') \<longrightarrow> switch_off d s c) \<or>
     order_closed P s \<or> (\<forall>i w w'. fp_permit P i w \<noteq> (Inr Allowed, w')) \<or> talk_closed P s \<or> limits_closed P s \<or> sending_closed P)"

lemma sending_gate:
  assumes "services_stay J P" "ledger_stays J P" "sending_closed P"
  shows "stays J (send_touch P D d i s st now bc)"
proof -
  note p = servicesD [OF assms(1)] ledgerD [OF assms(2)] parts_stay [OF assms(1,2)]
  from assms(3) show ?thesis unfolding sending_closed_def
  proof (elim disjE)
    assume "\<forall>k w w'. fp_reserve P k w \<noteq> (Inr Reserved, w')"
    then show ?thesis unfolding send_touch_def Let_def
      by (intro stays_bind_when [where ok = "\<lambda>r. r \<noteq> Reserved"] p) (auto intro: p)
  next
    assume q: "\<forall>d st s b ro sh bc w x w'. fp_compose P d st s b ro sh bc w = (Inr x, w') \<longrightarrow> ex_kind x \<noteq> Kind_reply \<or> ex_text x = None"
    have c: "stays J (act_bind (fp_compose P d st s b ro sh bc) (\<lambda>x. if ex_kind x \<noteq> Kind_reply \<or> ex_text x = None then m x else n x))"
      if "\<And>x. stays J (m x)" for m n b ro sh
      by (rule stays_bind_when [where ok = "\<lambda>x. ex_kind x \<noteq> Kind_reply \<or> ex_text x = None", OF p(17)], rule q [rule_format]) (simp_all add: that)
    show ?thesis unfolding send_touch_def Let_def by (intro stays_intro p c)
  qed
qed

lemma limits_gate:
  assumes "services_stay J P" "ledger_stays J P" and "switch_off d s cfg \<and> fc_enabled cfg \<or> limits_closed P s \<or> sending_closed P"
  shows "stays J (within_limits P d i s cfg now st bc)"
proof -
  note p = servicesD [OF assms(1)] ledgerD [OF assms(2)] parts_stay [OF assms(1,2)]
  from assms(3) show ?thesis unfolding limits_closed_def
  proof (elim disjE conjE)
    assume "switch_off d s cfg" "fc_enabled cfg"
    then have off: "fc_shadow cfg \<or> \<not> resolveRolloutEnabled s (fc_rollout cfg) (fj_touchVariant d) False" by (simp add: switch_off_def)
    have a: "stays J (if (Option.is_none (fp_delivery P) \<or> fc_shadow cfg) \<or> \<not> resolveRolloutEnabled s (fc_rollout cfg) (fj_touchVariant d) False
       then m else n)" if "stays J m" for m n :: "('a, unit) act" using off that by auto
    show ?thesis unfolding within_limits_def Let_def by (intro a stays_intro p)
  next
    assume c: "\<not> sc_sessionCooldownExempt s" "\<forall>x t r w w'. fp_inCooldown P x t r w \<noteq> (Inr False, w')"
    have "v" if "fp_inCooldown P x t r w = (Inr v, w')" for x t r w v w' using c(2) that by (cases v) auto
    with c(1) show ?thesis unfolding within_limits_def Let_def
      by (intro stays_bind_when [where ok = "\<lambda>c. c"]) (auto intro: p)
  next
    assume c: "\<forall>x t w w'. fp_overLimit P x t w \<noteq> (Inr False, w')"
    have "v" if "fp_overLimit P x t w = (Inr v, w')" for x t w v w' using c that by (cases v) auto
    then have o: "stays J (act_bind (fp_overLimit P x t) (\<lambda>over. if over then m else n))" if "stays J m" for x t m n
      by (intro stays_bind_when [where ok = "\<lambda>c. c"] p) (use that in auto)
    show ?thesis unfolding within_limits_def Let_def by (intro stays_intro p o)
  next
    assume "sending_closed P"
    then show ?thesis unfolding within_limits_def Let_def by (intro stays_intro p sending_gate [OF assms(1,2)])
  qed
qed

lemma conversation_closed:
  assumes "conversation_gate P d i s now st w = (Inr r, w')"
    and "(sc_phase s = Pre_booking \<and> (\<forall>r ch w x w'. fp_progress P r ch w = (Inr x, w') \<longrightarrow> fst x)) \<or> legacyTerminalStops (ss_terminal st) (sc_phase s)"
  shows "r \<noteq> None"
proof -
  obtain x w1 where x: "(if sc_phase s = Pre_booking then fp_progress P (fj_sessionRef d) (ti_channel i) else act_ret (False, None)) w = (Inr x, w1)"
    and k: "(case x of (active, verdict) \<Rightarrow> if active then act_ret (Some (case verdict of Some v \<Rightarrow> v | None \<Rightarrow> ''candidate_progress:active''))
      else act_bind (or_none (fp_latestCandidateMessage P (ti_sessionId i))) (\<lambda>m.
       case shouldStop s st (fj_anchorAt d) (fj_workOrderId d \<noteq> None) now (human_handled m) of Some r \<Rightarrow> act_ret (Some (stop_text r))
       | None \<Rightarrow> act_bind (detectPendingCandidateMessage P (ti_sessionId i) now m) (\<lambda>waits.
           act_ret (if waits then Some ''pending_candidate_message'' else None)))) w1 = (Inr r, w')"
    using assms(1) unfolding conversation_gate_def by (rule act_bind_InrE)
  show ?thesis
  proof (cases "fst x")
    case True
    then show ?thesis using k by (auto split: prod.splits)
  next
    case False
    have "legacyTerminalStops (ss_terminal st) (sc_phase s)" using assms(2)
    proof (elim disjE conjE)
      assume a: "sc_phase s = Pre_booking" "\<forall>r ch w x w'. fp_progress P r ch w = (Inr x, w') \<longrightarrow> fst x"
      have "fp_progress P (fj_sessionRef d) (ti_channel i) w = (Inr x, w1)" using x a(1) by simp
      with a(2) False show ?thesis by blast
    qed
    then have q: "shouldStop s st t v now h \<noteq> None" for t v h by (auto simp: shouldStop_def legacyTerminalStops_def)
    obtain verdict where "x = (False, verdict)" using False by (cases x) simp
    then have "act_bind (or_none (fp_latestCandidateMessage P (ti_sessionId i))) (\<lambda>m.
       case shouldStop s st (fj_anchorAt d) (fj_workOrderId d \<noteq> None) now (human_handled m) of Some r \<Rightarrow> act_ret (Some (stop_text r))
       | None \<Rightarrow> act_bind (detectPendingCandidateMessage P (ti_sessionId i) now m) (\<lambda>waits.
           act_ret (if waits then Some ''pending_candidate_message'' else None))) w1 = (Inr r, w')"
      using k by simp
    then obtain m w2 where "(case shouldStop s st (fj_anchorAt d) (fj_workOrderId d \<noteq> None) now (human_handled m) of Some r \<Rightarrow> act_ret (Some (stop_text r))
       | None \<Rightarrow> act_bind (detectPendingCandidateMessage P (ti_sessionId i) now m) (\<lambda>waits.
           act_ret (if waits then Some ''pending_candidate_message'' else None))) w2 = (Inr r, w')" by (rule act_bind_InrE)
    with q [of "fj_anchorAt d" "fj_workOrderId d \<noteq> None" "human_handled m"] show ?thesis
      by (cases "shouldStop s st (fj_anchorAt d) (fj_workOrderId d \<noteq> None) now (human_handled m)") auto
  qed
qed

lemma permitted_gate:
  assumes "services_stay J P" "ledger_stays J P"
    and "(\<forall>i w w'. fp_permit P i w \<noteq> (Inr Allowed, w')) \<or>
      (sc_phase s = Pre_booking \<and> (\<forall>r ch w x w'. fp_progress P r ch w = (Inr x, w') \<longrightarrow> fst x)) \<or> legacyTerminalStops (ss_terminal loaded) (sc_phase s) \<or>
      (sc_anchorEvent s = Booking_succeeded \<and> (\<exists>b. bc = Some b \<and> checkBookingInvalidAtFire b \<noteq> None)) \<or>
      (\<forall>st. stays J (within_limits P d i s cfg now st bc))"
  shows "stays J (permitted_touch P d i s cfg now loaded bc)"
proof -
  note p = servicesD [OF assms(1)] ledgerD [OF assms(2)] parts_stay [OF assms(1,2)]
  let ?st = "case bc of None \<Rightarrow> loaded | Some b \<Rightarrow> case interview_of b of None \<Rightarrow> loaded | Some t \<Rightarrow> loaded\<lparr>ss_interviewAt := Some t\<rparr>"
  from assms(3) consider "\<forall>i w w'. fp_permit P i w \<noteq> (Inr Allowed, w')"
    | "(sc_phase s = Pre_booking \<and> (\<forall>r ch w x w'. fp_progress P r ch w = (Inr x, w') \<longrightarrow> fst x)) \<or> legacyTerminalStops (ss_terminal ?st) (sc_phase s)"
    | b where "sc_anchorEvent s = Booking_succeeded" "bc = Some b" "checkBookingInvalidAtFire b \<noteq> None"
    | "\<forall>st. stays J (within_limits P d i s cfg now st bc)"
    by (auto split: option.splits)
  then show ?thesis
  proof cases
    case 1
    then show ?thesis unfolding permitted_touch_def
      by (intro stays_bind_when [where ok = "\<lambda>p. p \<noteq> Allowed"] p) (auto intro: p split: permit.split)
  next
    case 2
    have c: "stays J (act_bind (conversation_gate P d i s now ?st) (\<lambda>r. case r of Some x \<Rightarrow> stopped P i x | None \<Rightarrow> m))" for m
      by (intro stays_bind_when [where ok = "\<lambda>r. r \<noteq> None"] p) (use conversation_closed [OF _ 2] in \<open>auto intro: p\<close>)
    show ?thesis unfolding permitted_touch_def Let_def by (rule stays_bind, rule p, rule stays_permit, rule c, rule p)
  next
    case 3
    have c: "stays J (act_bind (booking_gate P d s cfg now st b) (\<lambda>r. case r of Some x \<Rightarrow> stopped P i x | None \<Rightarrow> m))" for st m
      by (intro stays_bind_when [where ok = "\<lambda>r. r \<noteq> None"] p) (use 3 in \<open>auto intro: p simp: booking_gate_def Let_def\<close>)
    show ?thesis unfolding permitted_touch_def Let_def 3
      by (simp, rule stays_bind, rule p, rule stays_permit, rule stays_bind, rule p, rule stays_option, rule c, rule p, rule p)
  next
    case 4
    then show ?thesis unfolding permitted_touch_def Let_def by (intro stays_intro p) auto
  qed
qed

text \<open>What is left to close once the switches are on: the gates below the configuration.\<close>

definition inner_closed :: "'w follow_up_ports \<Rightarrow> follow_up_job \<Rightarrow> scenario \<Rightarrow> follow_up_config \<Rightarrow> bool" where
  "inner_closed P d s cfg \<longleftrightarrow> switch_off d s cfg \<and> fc_enabled cfg \<or> order_closed P s \<or> (\<forall>i w w'. fp_permit P i w \<noteq> (Inr Allowed, w'))
     \<or> talk_closed P s \<or> limits_closed P s \<or> sending_closed P"

lemma orderD:
  assumes "order_closed P s" "fp_bookingContext P r wo b w = (Inr (Some x), w')"
  shows "sc_anchorEvent s = Booking_succeeded \<Longrightarrow> checkBookingInvalidAtFire x \<noteq> None"
    "sc_anchorEvent s = Interview_passed \<Longrightarrow> bc_currentStatus x \<noteq> Some Interview_success"
  using assms(1) [unfolded order_closed_def, THEN conjunct1, rule_format, OF assms(2)] by simp_all

lemma inner_cases:
  assumes "services_stay J P" "ledger_stays J P" "inner_closed P d s cfg"
  shows "order_closed P s \<or> (\<forall>r w st w'. fp_sessionState P r w = (Inr st, w') \<longrightarrow> legacyTerminalStops (ss_terminal st) (sc_phase s)) \<or>
    (\<forall>i now loaded bc. stays J (permitted_touch P d i s cfg now loaded bc))"
  using assms(3) permitted_gate [OF assms(1,2)] limits_gate [OF assms(1,2)] unfolding inner_closed_def talk_closed_def by meson

lemma order_gate:
  assumes "services_stay J P" "ledger_stays J P" "order_closed P s" "sc_anchorEvent s = Booking_succeeded"
  shows "stays J (booked_touch P d i s cfg now loaded)"
proof -
  note p = servicesD [OF assms(1)] ledgerD [OF assms(2)] parts_stay [OF assms(1,2)]
  let ?ok = "\<lambda>bc. \<forall>b. bc = Some b \<longrightarrow> checkBookingInvalidAtFire b \<noteq> None"
  have inner: "stays J (permitted_touch P d i s cfg now loaded (Some b))" if "?ok (Some b)" for b
    by (rule permitted_gate [OF assms(1,2)]) (use that assms(4) in blast)
  show ?thesis unfolding booked_touch_def
  proof (rule stays_option, rule p, rule stays_bind_when [where ok = ?ok], rule p)
    fix wo w v w' assume "fp_bookingContext P (fj_sessionRef d) wo (channel ci_botImId (ti_channel i)) w = (Inr v, w')"
    then show "?ok v" using orderD(1) [OF assms(3) _ assms(4)] by blast
  next
    fix wo v assume "?ok v"
    then show "stays J (case v of None \<Rightarrow> unavailable ''reengagement_booking_context_unavailable:'' wo
         | Some b \<Rightarrow>
             if fj_interviewSlotCheck d then handleInterviewSlotCheck P d i b
             else if fj_resolveBookingAtFire d then
               (if wo = 0 then unavailable ''reengagement_booking_context_unavailable:'' wo else resolve_booking P d i loaded now b)
             else if interview_of b = None then (case checkBookingInvalidAtFire b of Some r \<Rightarrow> stopped P i r
               | None \<Rightarrow> unavailable ''reengagement_booking_time_unavailable:'' wo)
             else permitted_touch P d i s cfg now loaded (Some b))"
      using inner by (intro stays_intro p) auto
  qed
qed

lemma loaded_gate:
  assumes "services_stay J P" "ledger_stays J P" "inner_closed P d s cfg"
    and "order_closed P s \<Longrightarrow> sc_anchorEvent s = Booking_succeeded"
  shows "stays J (loaded_touch P d i s cfg now bc)"
proof -
  note p = servicesD [OF assms(1)] ledgerD [OF assms(2)] parts_stay [OF assms(1,2)]
  have booked: "stays J (booked_touch P d i s cfg now loaded)" if "\<forall>bc. stays J (permitted_touch P d i s cfg now loaded bc)" for loaded
    unfolding booked_touch_def using that by (intro stays_intro p) auto
  from inner_cases [OF assms(1-3)] show ?thesis
  proof (elim disjE)
    assume "order_closed P s"
    then show ?thesis unfolding loaded_touch_def
      using order_gate [OF assms(1,2)] assms(4) by (intro stays_bind stays_if p) auto
  next
    assume t: "\<forall>r w st w'. fp_sessionState P r w = (Inr st, w') \<longrightarrow> legacyTerminalStops (ss_terminal st) (sc_phase s)"
    have c: "stays J (permitted_touch P d i s cfg now loaded bc)" if "legacyTerminalStops (ss_terminal loaded) (sc_phase s)" for loaded bc
      by (rule permitted_gate [OF assms(1,2)]) (use that in blast)
    show ?thesis unfolding loaded_touch_def
      by (rule stays_bind_when [where ok = "\<lambda>st. legacyTerminalStops (ss_terminal st) (sc_phase s)", OF p(6)])
        (use t c booked in \<open>auto intro!: stays_if\<close>)
  next
    assume "\<forall>i now loaded bc. stays J (permitted_touch P d i s cfg now loaded bc)"
    then show ?thesis unfolding loaded_touch_def using booked by (intro stays_bind stays_if p) auto
  qed
qed

lemma gates_stay:
  assumes "services_stay J P" "ledger_stays J P" "a_gate_is_closed P d"
  shows "stays J (process P d)"
proof (cases "getScenario (fj_scenarioCode d)")
  case None
  then show ?thesis unfolding process_def by (simp add: stays_ret)
next
  case (Some s)
  note p = servicesD [OF assms(1)] ledgerD [OF assms(2)] parts_stay [OF assms(1,2)]
  let ?ok = "\<lambda>cfg. fc_enabled cfg \<longrightarrow> inner_closed P d s cfg"
  have on: "stays J (passed_touch P d i s cfg now)" "sc_anchorEvent s \<noteq> Interview_passed \<Longrightarrow> stays J (loaded_touch P d i s cfg now None)"
    if c: "inner_closed P d s cfg" for i cfg now
  proof -
    have a: "order_closed P s \<Longrightarrow> sc_anchorEvent s = Interview_passed \<or> sc_anchorEvent s = Booking_succeeded" by (auto simp: order_closed_def)
    show "sc_anchorEvent s \<noteq> Interview_passed \<Longrightarrow> stays J (loaded_touch P d i s cfg now None)"
      by (rule loaded_gate [OF assms(1,2) c]) (use a in blast)
    show "stays J (passed_touch P d i s cfg now)"
    proof (cases "order_closed P s \<and> sc_anchorEvent s = Interview_passed")
      case False
      then have "stays J (loaded_touch P d i s cfg now bc)" for bc by (intro loaded_gate [OF assms(1,2) c]) (use a in blast)
      then show ?thesis unfolding passed_touch_def by (intro stays_intro p)
    next
      case True
      let ?open = "\<lambda>bc :: booking_context option. \<forall>b. bc = Some b \<longrightarrow> bc_currentStatus b \<noteq> Some Interview_success"
      have h: "stays J (act_bind (handleOnboardingAtFire P d i b) (\<lambda>v. case v of Some r \<Rightarrow> stopped P i r | None \<Rightarrow> m))"
        if "bc_currentStatus b \<noteq> Some Interview_success" for b m
        by (rule stays_bind_when [where ok = "\<lambda>v. v \<noteq> None", OF p(37)])
          (use that in \<open>auto simp: handleOnboardingAtFire_def intro: p split: option.splits work_status.splits if_splits elim!: act_bind_InrE\<close>)
      show ?thesis unfolding passed_touch_def
      proof (rule stays_option, rule p, rule stays_bind_when [where ok = ?open], rule p)
        fix wo w v w' assume "fp_bookingContext P (fj_sessionRef d) wo (channel ci_botImId (ti_channel i)) w = (Inr v, w')"
        then show "?open v" using orderD(2) [of P s] True by blast
      next
        fix wo v assume "?open v"
        then show "stays J (case v of None \<Rightarrow> unavailable ''reengagement_booking_context_unavailable:'' wo
           | Some b \<Rightarrow> if fj_onboardingCheck d then handleOnboardingCheck P d i b
             else act_bind (handleOnboardingAtFire P d i b) (\<lambda>v. case v of Some r \<Rightarrow> stopped P i r
               | None \<Rightarrow> loaded_touch P d i s cfg now (Some b)))"
          by (intro stays_option stays_if stays_unavailable p h) auto
      qed
    qed
  qed
  have ok: "?ok cfg" if "fp_config P w = (Inr cfg, w')" for w cfg w'
    using assms(3) Some that unfolding a_gate_is_closed_def inner_closed_def by blast
  have rest: "stays J (if \<not> fc_enabled cfg then tell P i Ev_disabled
           else case (fj_scenarioCode d = Post_interview_onboarding, fj_onboardingTouchAcceptedAt d, fj_workOrderId d) of
               (True, Some t, Some wo) \<Rightarrow> accepted_touch P d i wo t
             | _ \<Rightarrow> act_bind (clock P) (\<lambda>now.
                 if sc_anchorEvent s = Interview_passed then passed_touch P d i s cfg now else loaded_touch P d i s cfg now None))"
    if "?ok cfg" for i cfg
    using that on by (intro stays_intro p) auto
  show ?thesis unfolding process_def Some
    by (simp add: Let_def, rule stays_bind, rule p, rule stays_bind_when [where ok = ?ok, OF p(3)], rule ok, assumption, rule rest)
qed

text \<open>C23: each gate alone holds a touch back: when the switches of the configuration, the work order, the permit, the progress or
  the terminal state of the conversation, the limits, the reservation or the writing of the text never let a touch pass, a run delivers
  nothing, whatever the other services answer.\<close>

theorem every_gate_holds_a_touch_back:
  fixes sends :: "'w \<Rightarrow> nat"
  assumes "a_gate_is_closed P d"
    and "\<forall>n. services_stay (\<lambda>w. sends w = n) P \<and> ledger_stays (\<lambda>w. sends w = n) P"
  shows "sends (snd (process P d w)) = sends w"
proof -
  have "stays (\<lambda>v. sends v = sends w) (process P d)" using assms by (intro gates_stay) auto
  then show ?thesis by (simp add: stays_def)
qed

section \<open>Witnesses\<close>

type_synonym demo_redis = "((string \<Rightarrow> (redis_value \<times> int option) option), nat) redis_world_scheme"

definition demo_text :: turn_execution where
  "demo_text = \<lparr>ex_kind = Kind_reply, ex_text = Some ''Hello'', ex_generatedText = None, ex_validationReason = None, ex_mismatch = None\<rparr>"

definition demo_follow_config :: follow_up_config where
  "demo_follow_config = \<lparr>fc_enabled = True, fc_shadow = False,
     fc_rollout = \<lparr>rc_postBookingEnabled = None, rc_scenarioRollout = (\<lambda>_. None), rc_delayMinutes = (\<lambda>_. None)\<rparr>\<rparr>"

definition demo_key :: string where
  "demo_key = ''chat:opening_no_reply:opening''"

definition demo_send :: "string \<Rightarrow> turn_execution \<Rightarrow> delivery_context \<Rightarrow> (demo_redis, proactive_delivery) act" where
  "demo_send k x c w = (Inr \<lparr>pd_success = True, pd_segmentCount = 1, pd_failedSegments = 0, pd_deliveredSegments = Some 1,
     pd_skipped = False, pd_skipReason = None\<rparr>, if k = demo_key then redis_world.more_update Suc w else w)"

definition demo_follow_ports :: "demo_redis follow_up_ports" where
  "demo_follow_ports = \<lparr>fp_now = time_ms, fp_config = act_ret demo_follow_config, fp_track = (\<lambda>_ _ w. w), fp_record = (\<lambda>_ _ _ w. w),
     fp_resolveIdentity = (\<lambda>_. act_ret None), fp_bookingContext = (\<lambda>_ _ _. act_ret None),
     fp_sessionState = (\<lambda>_. act_ret createEmptyState), fp_sessionCity = (\<lambda>_. act_ret None), fp_permit = (\<lambda>_. act_ret Allowed),
     fp_progress = (\<lambda>_ _. act_ret (False, None)), fp_latestCandidateMessage = (\<lambda>_. act_ret None),
     fp_lastMessageFromUser = (\<lambda>_. act_ret False), fp_latestReceivedAt = (\<lambda>_. act_ret None), fp_reserve = (\<lambda>_. act_ret Reserved),
     fp_markAttempted = (\<lambda>_. act_ret ()), fp_markSent = (\<lambda>_ _ _. act_ret ()), fp_markFailedOrUnknown = (\<lambda>_ _. act_ret ()),
     fp_inCooldown = (\<lambda>_ _ _. act_ret False), fp_overLimit = (\<lambda>_ _. act_ret False), fp_acquireOnce = (\<lambda>_. act_ret False),
     fp_schedule = (\<lambda>_. act_ret (refused_with R_disabled None)),
     fp_scheduleOnboardingCheck = (\<lambda>_ _ _ _. act_ret (refused_with R_disabled None)),
     fp_scheduleSlotCheck = (\<lambda>_ _ _ _. act_ret (refused_with R_disabled None)), fp_stopPending = (\<lambda>_ _ _. act_ret 0),
     fp_compose = (\<lambda>_ _ _ _ _ _ _. act_ret demo_text), fp_delivery = Some demo_send, fp_jobUpdate = (\<lambda>_. act_ret ()),
     fp_invite = (\<lambda>_ _. act_ret \<lparr>ir_success = False, ir_alreadyInGroup = False, ir_reason = None\<rparr>),
     fp_recordHandoff = (\<lambda>_ _. act_ret Written), fp_recentName = (\<lambda>_. act_ret None), fp_notifyOps = (\<lambda>_ _. act_ret True),
     fp_token = (\<lambda>_. None)\<rparr>"

definition demo_due :: follow_up_job where
  "demo_due = (plain_job \<lparr>sr_sessionId = ''chat'', sr_userId = ''u'', sr_corpId = ''corp''\<rparr> Opening_no_reply ''opening'' 1000 7 None)\<lparr>fj_workOrderId := None\<rparr>"

definition demo_quiet_redis :: demo_redis where
  "demo_quiet_redis = \<lparr>server = Map.empty, time_ms = 90000000, network = [], reports = [], next_uuid = 0, \<dots> = 0\<rparr>"


abbreviation "demo_P \<equiv> on_ledger ''test:'' demo_follow_ports"

lemma demo_ports:
  "fp_config demo_P = act_ret demo_follow_config" "fp_track demo_P i e w = w" "fp_record demo_P b t x w = w"
  "fp_resolveIdentity demo_P s = act_ret None" "fp_sessionState demo_P r = act_ret createEmptyState"
  "fp_permit demo_P pin = act_ret Allowed" "fp_progress demo_P r ch = act_ret (False, None)"
  "fp_latestCandidateMessage demo_P s = act_ret None" "fp_compose demo_P d st sc b ro sh bc = act_ret demo_text"
  "fp_delivery demo_P = Some demo_send" "fp_now demo_P = time_ms"
  "fp_reserve demo_P = reserve demo_touch" "fp_markAttempted demo_P = markDeliveryAttempted demo_touch" "fp_markSent demo_P = markSent demo_touch"
  "fp_inCooldown demo_P = isInSessionTouchCooldown demo_touch" "fp_overLimit demo_P = isOverFrequencyLimit demo_touch"
  by (simp_all add: on_ledger_def demo_follow_ports_def timed_ledger_def demo_touch_def)

lemma demo_scenario:
  "getScenario Opening_no_reply = Some (hd FOLLOW_UP_SCENARIOS)" "sc_anchorEvent (hd FOLLOW_UP_SCENARIOS) = Opening_sent"
  "sc_phase (hd FOLLOW_UP_SCENARIOS) = Pre_booking" "\<not> sc_sessionCooldownExempt (hd FOLLOW_UP_SCENARIOS)"
  "shouldStop (hd FOLLOW_UP_SCENARIOS) createEmptyState t False now None = None"
  "ss_lastCandidateMessageAt createEmptyState = None" "fc_enabled demo_follow_config" "\<not> fc_shadow demo_follow_config"
  "resolveRolloutEnabled (hd FOLLOW_UP_SCENARIOS) (fc_rollout demo_follow_config) None False"
  by (simp_all add: getScenario_def FOLLOW_UP_SCENARIOS_def shouldStop_def createEmptyState_def legacyTerminalStops_def
      demo_follow_config_def resolveRolloutEnabled_def resolveVariantConfigKey_def)

lemma demo_call: "network w = [] \<Longrightarrow> touch_call demo_touch f w =
    (case f (time_ms w) (tc_tick timed_commands (time_ms w) (server w)) of (v, s) \<Rightarrow> (Inr v, w\<lparr>server := s\<rparr>))"
  by (simp add: touch_call_def net_arrive_def net_calm_def demo_touch_def split: prod.split)

lemma demo_empty:
  "isInSessionTouchCooldown demo_touch s 90000000 None demo_quiet_redis = (Inr False, demo_quiet_redis)"
  "isOverFrequencyLimit demo_touch s 90000000 demo_quiet_redis = (Inr False, demo_quiet_redis)"
  "\<exists>m. reserve demo_touch k demo_quiet_redis = (Inr Reserved, demo_quiet_redis\<lparr>server := m\<rparr>)"
proof -
  have t: "tc_tick timed_commands t Map.empty = Map.empty" for t by (rule ext) (simp add: timed_commands_def)
  have n: "network demo_quiet_redis = []" "server demo_quiet_redis = Map.empty" "demo_quiet_redis\<lparr>server := Map.empty\<rparr> = demo_quiet_redis"
    by (simp_all add: demo_quiet_redis_def)
  show "isInSessionTouchCooldown demo_touch s 90000000 None demo_quiet_redis = (Inr False, demo_quiet_redis)"
    by (simp add: isInSessionTouchCooldown_def getLastTouchAt_def act_bind_def demo_call n t, simp add: demo_touch_def timed_commands_def
        last_touch_of_def cooling_def SESSION_TOUCH_COOLDOWN_MS_def)
  show "isOverFrequencyLimit demo_touch s 90000000 demo_quiet_redis = (Inr False, demo_quiet_redis)"
    by (simp add: isOverFrequencyLimit_def countSentIn24h_def act_bind_def demo_call n t, simp add: demo_touch_def timed_commands_def
        in_window_def MAX_TOUCHES_PER_24H_def)
  show "\<exists>m. reserve demo_touch k demo_quiet_redis = (Inr Reserved, demo_quiet_redis\<lparr>server := m\<rparr>)"
    by (simp add: reserve_def act_bind_def demo_call n t, simp add: demo_touch_def timed_commands_def, rule exI, rule refl)
qed

lemma demo_attempted: "network w = [] \<Longrightarrow> \<exists>m. markDeliveryAttempted demo_touch k w = (Inr (), w\<lparr>server := m\<rparr>)"
  by (simp add: markDeliveryAttempted_def demo_call, rule exI, rule refl)

lemma demo_sent: "network w = [] \<Longrightarrow> \<exists>m. markSent demo_touch k s t w = (Inr (), w\<lparr>server := m\<rparr>)"
  by (simp add: markSent_def demo_call, rule exI, rule refl)

lemma more_redis:
  fixes w :: demo_redis
  shows "network (redis_world.more_update f w) = network w" "time_ms (redis_world.more_update f w) = time_ms w"
    "redis_world.more (redis_world.more_update f w) = f (redis_world.more w)" "redis_world.more (w\<lparr>server := m\<rparr>) = redis_world.more w"
  by (cases w; simp)+

lemma demo_outbox:
  assumes "network w = []" "\<not> fj_escalateToGroupInvite d" "\<not> onboarding_touch d"
  shows "redis_world.more (snd (outboxDeliverReserved demo_P demo_send demo_text demo_key now i b d w)) = Suc (redis_world.more w)"
proof -
  obtain m where m: "markDeliveryAttempted demo_touch demo_key w = (Inr (), w\<lparr>server := m\<rparr>)" using demo_attempted [OF assms(1)] by blast
  let ?w = "redis_world.more_update Suc (w\<lparr>server := m\<rparr>)"
  obtain m' where m': "markSent demo_touch demo_key (ti_sessionId i) (case fj_onboardingTouchAcceptedAt d of Some t \<Rightarrow> t | None \<Rightarrow> now) ?w =
      (Inr (), ?w\<lparr>server := m'\<rparr>)"
    using demo_sent [of ?w] assms(1) by (fastforce simp: more_redis)
  show ?thesis
    by (simp add: outboxDeliverReserved_def unflagged_def act_bind_def flagged_def demo_ports m eff_def deliver_touch_def demo_send_def clock_def
        outbox_answered_def delivered_segments_def outbox_confirmed_def keep_receipt_def follow_up_on_sent_def assms(2,3) m' more_redis)
qed


lemma demo_due:
  "fj_scenarioCode demo_due = Opening_no_reply" "fj_channelIdentity demo_due = None" "fj_workOrderId demo_due = None"
  "fj_touchVariant demo_due = None" "\<not> fj_escalateToGroupInvite demo_due" "fj_anchorAt demo_due = 1000"
  by (simp_all add: demo_due_def plain_job_def)

lemma demo_delivers: "redis_world.more (processed demo_P [demo_due] demo_quiet_redis) = 1"
proof -
  let ?i = "identity_of demo_due None"
  have k: "touchKey ?i = demo_key"
    by (simp add: touchKey_def identity_of_def buildIdentityFromJobData_def demo_due_def plain_job_def demo_key_def)
  have t: "time_ms demo_quiet_redis = 90000000" "network demo_quiet_redis = []" "redis_world.more demo_quiet_redis = 0" by (simp_all add: demo_quiet_redis_def)
  obtain m where m: "reserve demo_touch demo_key demo_quiet_redis = (Inr Reserved, demo_quiet_redis\<lparr>server := m\<rparr>)"
    using demo_empty(3) by blast
  have r: "snd (process demo_P demo_due demo_quiet_redis) = snd (send_touch demo_P demo_send (demo_due\<lparr>fj_escalateToGroupInvite := False\<rparr>) ?i
     (hd FOLLOW_UP_SCENARIOS) createEmptyState 90000000 None demo_quiet_redis)"
    by (simp add: process_def demo_due demo_scenario demo_ports resolveJobChannelIdentity_def act_bind_def clock_def
      loaded_touch_def permitted_touch_def conversation_gate_def or_none_def act_catch_def human_handled_def detectPendingCandidateMessage_def
      within_limits_def Let_def t demo_empty)
  have "ex_kind demo_text = Kind_reply" "ex_text demo_text = Some ''Hello''" by (simp_all add: demo_text_def)
  moreover have "redis_world.more (snd (outboxDeliverReserved demo_P demo_send demo_text demo_key 90000000 ?i b
      (demo_due\<lparr>fj_escalateToGroupInvite := False\<rparr>) (demo_quiet_redis\<lparr>server := m\<rparr>))) = 1" for b
    by (subst demo_outbox) (simp_all add: onboarding_touch_def demo_due t more_redis)
  ultimately show ?thesis by (simp add: processed_def r send_touch_def act_bind_def demo_ports m k eff_def Let_def)
qed

lemma demo_services: "services_stay J demo_follow_ports"
  by (simp add: services_stay_def demo_follow_ports_def stays_def eff_def)

lemma demo_touch_counted: "counted_delivery (slot_view p key h id) demo_key demo_send"
proof -
  have v: "slot_view p key h id (Suc n) b (redis_world.more_update Suc w)" if "slot_view p key h id n b w" for n b and w :: demo_redis
    using that by (cases w) (auto simp: view_def slot_late_def slot_fair_def)
  show ?thesis unfolding counted_delivery_def
  proof (intro conjI allI impI)
    fix k x c n b assume "k \<noteq> demo_key"
    then show "stays (slot_view p key h id n b) (demo_send k x c)" by (simp add: stays_def demo_send_def)
  next
    fix x c n b and w :: demo_redis assume "slot_view p key h id n b w"
    then show "\<exists>m \<in> {n, Suc n}. slot_view p key h id m b (snd (demo_send demo_key x c w))" using v by (simp add: demo_send_def)
  qed
qed

lemma demo_time: "network w = [] \<Longrightarrow> time_ms w = 90000000 \<Longrightarrow> time_ms (processed demo_P ds w) = 90000000"
proof -
  let ?J = "\<lambda>w :: demo_redis. network w = [] \<and> time_ms w = 90000000"
  have c: "stays ?J (touch_call demo_touch f)" for f :: "int \<Rightarrow> _ \<Rightarrow> 'a \<times> _"
    by (rule staysI) (auto simp: demo_call split: prod.splits)
  have l: "timed_ledger ''test:'' = demo_touch" by (simp add: timed_ledger_def demo_touch_def)
  have "ledger_stays ?J demo_P"
    unfolding ledger_stays_def on_ledger_def l reserve_def getState_def markDeliveryAttempted_def markSent_def markFailedOrUnknown_def
      isInSessionTouchCooldown_def getLastTouchAt_def isOverFrequencyLimit_def countSentIn24h_def acquireOnce_def
    by (simp, intro conjI allI impI stays_intro c)
  moreover have "services_stay ?J demo_P" using demo_services [of ?J] by (simp add: services_stay_def on_ledger_def)
  moreover have "stays ?J (send_touch demo_P D d i s st now bc)" if "fp_delivery demo_P = Some D" for D d i s st now bc
    using calculation that by (intro send_touch_stays) (auto simp: demo_ports stays_def demo_send_def more_redis)
  ultimately have "stays ?J (process demo_P d)" for d by (intro process_stays)
  then have "?J w \<Longrightarrow> ?J (processed demo_P ds w)" for w unfolding processed_def by (induction ds arbitrary: w) (simp_all add: stays_def)
  then show "network w = [] \<Longrightarrow> time_ms w = 90000000 \<Longrightarrow> ?thesis" by simp
qed

lemma touch_delivered_at_most_once_witness:
  "redis_world.more (processed demo_P [demo_due] demo_quiet_redis) = 1 \<and>
   redis_world.more (processed demo_P [demo_due, demo_due] demo_quiet_redis) \<le> 1"
proof
  have w: "time_ms demo_quiet_redis = 90000000" "network demo_quiet_redis = []" "redis_world.more demo_quiet_redis = 0"
    by (simp_all add: demo_quiet_redis_def)
  have d: "fp_delivery demo_follow_ports = Some demo_send" by (simp add: demo_follow_ports_def)
  show "redis_world.more (processed demo_P [demo_due] demo_quiet_redis) = 1" by (rule demo_delivers)
  have "leaves_the_slot ''test:'' demo_key h id demo_follow_ports demo_quiet_redis" for h
    by (simp add: leaves_the_slot_def w d demo_services demo_touch_counted [simplified])
  then have "id (redis_world.more (processed demo_P [demo_due, demo_due] demo_quiet_redis)) \<le> id (redis_world.more demo_quiet_redis) + 1"
    by (rule touch_delivered_at_most_once) (simp add: w demo_time SLOT_MS_def)
  then show "redis_world.more (processed demo_P [demo_due, demo_due] demo_quiet_redis) \<le> 1" by (simp add: w)
qed

text \<open>The first attempt cannot write the text and takes the slot with it, the second finds it taken.\<close>

definition demo_broken :: "demo_redis follow_up_ports" where
  "demo_broken = demo_follow_ports\<lparr>fp_compose := (\<lambda>_ _ _ _ _ _ _. act_throw ''memory'')\<rparr>"

lemma demo_broken_ports:
  "fp_config (on_ledger ''test:'' demo_broken) = fp_config demo_P" "fp_track (on_ledger ''test:'' demo_broken) = fp_track demo_P"
  "fp_resolveIdentity (on_ledger ''test:'' demo_broken) = fp_resolveIdentity demo_P"
  "fp_sessionState (on_ledger ''test:'' demo_broken) = fp_sessionState demo_P" "fp_permit (on_ledger ''test:'' demo_broken) = fp_permit demo_P"
  "fp_progress (on_ledger ''test:'' demo_broken) = fp_progress demo_P"
  "fp_latestCandidateMessage (on_ledger ''test:'' demo_broken) = fp_latestCandidateMessage demo_P"
  "fp_delivery (on_ledger ''test:'' demo_broken) = fp_delivery demo_P" "fp_now (on_ledger ''test:'' demo_broken) = fp_now demo_P"
  "fp_reserve (on_ledger ''test:'' demo_broken) = fp_reserve demo_P" "fp_inCooldown (on_ledger ''test:'' demo_broken) = fp_inCooldown demo_P"
  "fp_overLimit (on_ledger ''test:'' demo_broken) = fp_overLimit demo_P"
  "fp_compose (on_ledger ''test:'' demo_broken) d st sc b ro sh bc = act_throw ''memory''"
  by (simp_all add: on_ledger_def demo_broken_def)

lemma demo_lost:
  obtains m where "process (on_ledger ''test:'' demo_broken) demo_due demo_quiet_redis = (Inl ''memory'', demo_quiet_redis\<lparr>server := m\<rparr>)"
    "slot_kept ''test:'' demo_key (90000000 + SLOT_MS) m"
proof -
  have t: "time_ms demo_quiet_redis = 90000000" "network demo_quiet_redis = []" by (simp_all add: demo_quiet_redis_def)
  have k: "touchKey (identity_of demo_due None) = demo_key"
    by (simp add: touchKey_def identity_of_def buildIdentityFromJobData_def demo_due_def plain_job_def demo_key_def)
  obtain m where m: "reserve demo_touch demo_key demo_quiet_redis = (Inr Reserved, demo_quiet_redis\<lparr>server := m\<rparr>)"
    using demo_empty(3) by blast
  have "process (on_ledger ''test:'' demo_broken) demo_due demo_quiet_redis = (Inl ''memory'', demo_quiet_redis\<lparr>server := m\<rparr>)"
    by (simp add: process_def demo_due demo_scenario demo_ports demo_broken_ports resolveJobChannelIdentity_def act_bind_def clock_def
      loaded_touch_def permitted_touch_def conversation_gate_def or_none_def act_catch_def human_handled_def detectPendingCandidateMessage_def
      within_limits_def Let_def t demo_empty send_touch_def m k eff_def)
  moreover have "slot_kept ''test:'' demo_key (90000000 + SLOT_MS) m"
  proof -
    have m': "reserve (timed_ledger ''test:'') demo_key demo_quiet_redis = (Inr Reserved, demo_quiet_redis\<lparr>server := m\<rparr>)"
      using m by (simp add: timed_ledger_def demo_touch_def)
    have "slot_kept ''test:'' demo_key (90000000 + SLOT_MS) (server (demo_quiet_redis\<lparr>server := m\<rparr>))"
      by (rule timed_slots.reserve_grants [where h = "90000000 + SLOT_MS", OF _ m', THEN conjunct2])
        (simp_all add: slot_fair_def slot_late_def t, simp add: SLOT_MS_def)
    then show ?thesis by simp
  qed
  ultimately show ?thesis using that by blast
qed

lemma taken_touch_is_not_delivered_witness:
  "\<exists>w. process (on_ledger ''test:'' demo_broken) demo_due demo_quiet_redis = (Inl ''memory'', w) \<and>
     redis_world.more (processed demo_P [demo_due] w) = 0"
proof -
  obtain m where m: "process (on_ledger ''test:'' demo_broken) demo_due demo_quiet_redis = (Inl ''memory'', demo_quiet_redis\<lparr>server := m\<rparr>)"
    "slot_kept ''test:'' demo_key (90000000 + SLOT_MS) m" by (rule demo_lost)
  let ?w = "demo_quiet_redis\<lparr>server := m\<rparr>"
  have w: "time_ms ?w = 90000000" "network ?w = []" "redis_world.more ?w = 0" by (simp_all add: demo_quiet_redis_def)
  have d: "fp_delivery demo_follow_ports = Some demo_send" by (simp add: demo_follow_ports_def)
  have "leaves_the_slot ''test:'' demo_key h id demo_follow_ports ?w" for h
    by (simp add: leaves_the_slot_def w d demo_services demo_touch_counted [simplified])
  then have "id (redis_world.more (processed demo_P [demo_due] ?w)) \<le> id (redis_world.more ?w)"
    by (rule taken_touch_is_not_delivered [where h = "90000000 + SLOT_MS"]) (simp_all add: w m(2) demo_time, simp add: SLOT_MS_def)
  then show ?thesis using m(1) w(3) by auto
qed

text \<open>The same job, with a permit that is never given.\<close>

definition demo_denied :: "demo_redis follow_up_ports" where
  "demo_denied = demo_follow_ports\<lparr>fp_permit := (\<lambda>_. act_ret (Denied HOSTING_PAUSED None))\<rparr>"

lemma every_gate_holds_a_touch_back_witness: "redis_world.more (snd (process demo_denied demo_due demo_quiet_redis)) = 0"
proof -
  have "a_gate_is_closed demo_denied demo_due" by (simp add: a_gate_is_closed_def demo_denied_def)
  moreover have "services_stay J demo_denied" "ledger_stays J demo_denied" for J
    by (simp_all add: services_stay_def ledger_stays_def demo_denied_def demo_follow_ports_def stays_def eff_def)
  ultimately have "redis_world.more (snd (process demo_denied demo_due demo_quiet_redis)) = redis_world.more demo_quiet_redis"
    by (intro every_gate_holds_a_touch_back) auto
  then show ?thesis by (simp add: demo_quiet_redis_def)
qed

end
