(* ===== verification/LegacyProgress.thy ===== *)
theory LegacyProgress
  imports FollowUpProcessor JsTime
begin

text \<open>
  How the state of a signup is read off the work orders of the outside platform, after
  \<open>legacy-progress.policies.ts\<close> and \<open>booking-snapshot.util.ts\<close>.  The times of the platform are local times in
  Shanghai and are parsed here; \<open>Date.parse\<close>, which accepts other formats as the engine likes, is a parameter
  where the code calls it, and so is \<open>toLowerCase\<close> where two names are compared.
\<close>

section \<open>Data\<close>

record work_order =
  wo_workOrderId :: nat
  wo_candidateName :: "string option"
  wo_phone :: "string option"
  wo_signupSource :: "string option"
  wo_signUpTime :: "string option"
  wo_interviewTime :: "string option"
  wo_interviewPassTime :: "string option"
  wo_brandName :: "string option"
  wo_jobId :: "nat option"
  wo_jobName :: "string option"
  wo_currentStatus :: "string option"

record booking_entry =
  be_work_order_id :: nat
  be_linked_at :: string
  be_job_id :: "nat option"
  be_interview_time :: "string option"

datatype signup_source = Src_AI | Src_SUPPLIER

record snapshot_entry =
  se_workOrder :: work_order
  se_workOrderId :: nat
  se_jobId :: "nat option"
  se_brandName :: "string option"
  se_jobName :: "string option"
  se_interviewTime :: "string option"
  se_signUpTime :: "string option"
  se_signupSource :: "signup_source option"
  se_candidateName :: "string option"
  se_ownedByCandidate :: bool

section \<open>Local times\<close>

definition is_digit :: "char \<Rightarrow> bool" where
  "is_digit c \<longleftrightarrow> of_char c \<in> {48 .. (57 :: nat)}"

definition number_of :: "string \<Rightarrow> nat" where
  "number_of s = fold (\<lambda>c n. 10 * n + (of_char c - 48)) s 0"

text \<open>A shape: \<open>d\<close> stands for a digit, \<open>s\<close> for the letter \<open>T\<close> or a space, the rest for itself.\<close>

definition fits :: "char \<Rightarrow> char \<Rightarrow> bool" where
  "fits p c \<longleftrightarrow> (if p = CHR ''d'' then is_digit c else if p = CHR ''s'' then c = CHR ''T'' \<or> c = CHR '' '' else c = p)"

definition shaped :: "string \<Rightarrow> string \<Rightarrow> bool" where
  "shaped p s \<longleftrightarrow> list_all2 fits p (take (length p) s)"

definition part :: "nat \<Rightarrow> nat \<Rightarrow> string \<Rightarrow> int" where
  "part i n s = int (number_of (take n (drop i s)))"

text \<open>Days from 1970-01-01 to the first of a month; \<open>Date.UTC\<close> carries months over into years and reads a year below 100 as one of the 1900s.\<close>

definition day_of_month_start :: "int \<Rightarrow> int \<Rightarrow> int" where
  "day_of_month_start y m =
     (let y' = (if m \<le> 2 then y - 1 else y); era = y' div 400; yoe = y' mod 400;
          doy = (153 * (m + (if 2 < m then - 3 else 9)) + 2) div 5
      in era * 146097 + yoe * 365 + yoe div 4 - yoe div 100 + doy - 719468)"

definition date_utc :: "int \<Rightarrow> int \<Rightarrow> int \<Rightarrow> int \<Rightarrow> int \<Rightarrow> int \<Rightarrow> int" where
  "date_utc y m d h mi s =
     (let fy = (if 0 \<le> y \<and> y \<le> 99 then 1900 + y else y)
      in (day_of_month_start (fy + (m - 1) div 12) ((m - 1) mod 12 + 1) + d - 1) * day_ms + ((h * 60 + mi) * 60 + s) * 1000)"

definition createShanghaiDate :: "int \<Rightarrow> int \<Rightarrow> int \<Rightarrow> int \<Rightarrow> int \<Rightarrow> int \<Rightarrow> int" where
  "createShanghaiDate y m d h mi s = date_utc y m d h mi s - 8 * HOUR"

definition parseLocalDateTime :: "string \<Rightarrow> int option" where
  "parseLocalDateTime v = (let t = trim v in
     if shaped ''dddd-dd-ddsdd:dd'' t
     then Some (createShanghaiDate (part 0 4 t) (part 5 2 t) (part 8 2 t) (part 11 2 t) (part 14 2 t)
       (if shaped '':dd'' (drop 16 t) then part 17 2 t else 0))
     else None)"

definition parseProgressSpongeTime :: "string option \<Rightarrow> int option" where
  "parseProgressSpongeTime v = (case v of None \<Rightarrow> None | Some x \<Rightarrow> if trim x = [] then None else parseLocalDateTime (trim x))"

text \<open>\<open>raw\<close> is a text here; only the first space is replaced.\<close>

fun replace_first_space :: "string \<Rightarrow> string" where
  "replace_first_space [] = []"
| "replace_first_space (c # s) = (if c = CHR '' '' then CHR ''T'' # s else c # replace_first_space s)"

definition parseProgressInterviewTimestamp :: "(string \<Rightarrow> int option) \<Rightarrow> string option \<Rightarrow> int option" where
  "parseProgressInterviewTimestamp date_parse raw = (case raw of None \<Rightarrow> None | Some x \<Rightarrow>
     if trim x = [] then None
     else date_parse (if CHR ''T'' \<in> set x then x else replace_first_space x @ ''+08:00''))"

section \<open>Statuses\<close>

definition ACTIVE_INTERVIEW_WORK_ORDER_STATUSES :: "string set" where
  "ACTIVE_INTERVIEW_WORK_ORDER_STATUSES = {status_text Awaiting_confirmation, status_text Interview_arranged}"

definition OPEN_RESULT_WORK_ORDER_STATUSES :: "string set" where
  "OPEN_RESULT_WORK_ORDER_STATUSES = insert (status_text Interview_success) ACTIVE_INTERVIEW_WORK_ORDER_STATUSES"

definition status_of :: "work_order \<Rightarrow> string" where
  "status_of x = (case wo_currentStatus x of None \<Rightarrow> [] | Some s \<Rightarrow> trim s)"

definition BOOKING_SNAPSHOT_SIGNUP_WINDOW_MS :: int where "BOOKING_SNAPSHOT_SIGNUP_WINDOW_MS = 15 * 24 * HOUR"

definition isSnapshotEligibleWorkOrder :: "work_order \<Rightarrow> int \<Rightarrow> bool" where
  "isSnapshotEligibleWorkOrder x now \<longleftrightarrow> status_of x \<in> ACTIVE_INTERVIEW_WORK_ORDER_STATUSES \<and>
     ((case parseProgressSpongeTime (wo_signUpTime x) of None \<Rightarrow> False | Some t \<Rightarrow> now - t \<le> BOOKING_SNAPSHOT_SIGNUP_WINDOW_MS) \<or>
      (case parseProgressSpongeTime (wo_interviewTime x) of None \<Rightarrow> False | Some t \<Rightarrow> now < t))"

definition hasLegacyOpenWorkOrders :: "work_order list \<Rightarrow> bool" where
  "hasLegacyOpenWorkOrders xs \<longleftrightarrow> list_ex (\<lambda>x. status_of x \<in> OPEN_RESULT_WORK_ORDER_STATUSES) xs"

definition isLegacyPostBookingActive :: "string option \<Rightarrow> bool" where
  "isLegacyPostBookingActive s \<longleftrightarrow> (case s of None \<Rightarrow> False | Some x \<Rightarrow> x \<in> ACTIVE_INTERVIEW_WORK_ORDER_STATUSES)"

section \<open>The candidate's own bookings\<close>

definition BOOKING_DEDUP_WINDOW_MS :: int where "BOOKING_DEDUP_WINDOW_MS = 30 * MINUTE"

definition isRecentBookingPointer :: "(string \<Rightarrow> int option) \<Rightarrow> booking_entry \<Rightarrow> int \<Rightarrow> bool" where
  "isRecentBookingPointer date_parse e now \<longleftrightarrow>
     (case date_parse (be_linked_at e) of None \<Rightarrow> False | Some t \<Rightarrow> now - t < BOOKING_DEDUP_WINDOW_MS)"

definition isRecentSameJobBooking :: "(string \<Rightarrow> int option) \<Rightarrow> booking_entry \<Rightarrow> nat \<Rightarrow> int \<Rightarrow> bool" where
  "isRecentSameJobBooking date_parse e jobId now \<longleftrightarrow>
     isRecentBookingPointer date_parse e now \<and> (be_job_id e = None \<or> be_job_id e = Some jobId)"

definition findRecentSameJobBooking :: "(string \<Rightarrow> int option) \<Rightarrow> booking_entry list \<Rightarrow> nat \<Rightarrow> int \<Rightarrow> booking_entry option" where
  "findRecentSameJobBooking date_parse es jobId now = find (\<lambda>e. isRecentSameJobBooking date_parse e jobId now) es"

text \<open>A \<open>Map\<close> filled with the first entry of each id, in the order of the ids' first appearance.\<close>

definition first_of_each :: "booking_entry list \<Rightarrow> booking_entry list" where
  "first_of_each es = fold (\<lambda>e m. if be_work_order_id e \<in> be_work_order_id ` set m then m else m @ [e]) es []"

definition mergeLegacyGuardBookings :: "booking_entry list option \<Rightarrow> booking_entry list option \<Rightarrow> booking_entry list option" where
  "mergeLegacyGuardBookings snapshot pointer =
     (let merged = first_of_each ((case snapshot of None \<Rightarrow> [] | Some es \<Rightarrow> es) @ (case pointer of None \<Rightarrow> [] | Some es \<Rightarrow> es))
      in if merged = [] \<and> (snapshot = None \<or> pointer = None) then None else Some merged)"

section \<open>Signups made outside\<close>

definition STALE_ACTIVE_ORDER_MS :: int where "STALE_ACTIVE_ORDER_MS = 3 * 24 * HOUR"
definition RECENT_PASS_WINDOW_MS :: int where "RECENT_PASS_WINDOW_MS = 30 * 24 * HOUR"

record oob_verdict =
  ov_reason :: string
  ov_workOrderId :: nat

text \<open>The verdict on one order, \<open>None\<close> where the loop goes on.\<close>

definition order_verdict :: "(string \<Rightarrow> int option) \<Rightarrow> int \<Rightarrow> work_order \<Rightarrow> oob_verdict option" where
  "order_verdict date_parse now x = (let s = status_of x in
     if s = [] then None
     else if s \<in> ACTIVE_INTERVIEW_WORK_ORDER_STATUSES then
       (if case parseProgressInterviewTimestamp date_parse (wo_interviewTime x) of None \<Rightarrow> False | Some t \<Rightarrow> STALE_ACTIVE_ORDER_MS < now - t
        then None else Some \<lparr>ov_reason = ''oob_work_order_active:'' @ s, ov_workOrderId = wo_workOrderId x\<rparr>)
     else if s = status_text Interview_success then
       (if case parseProgressInterviewTimestamp date_parse (wo_interviewPassTime x) of None \<Rightarrow> True | Some t \<Rightarrow> now - t \<le> RECENT_PASS_WINDOW_MS
        then Some \<lparr>ov_reason = ''oob_work_order_progressed:'' @ status_text Interview_success, ov_workOrderId = wo_workOrderId x\<rparr> else None)
     else if s = status_text Onboarded
       then Some \<lparr>ov_reason = ''oob_work_order_progressed:'' @ status_text Onboarded, ov_workOrderId = wo_workOrderId x\<rparr>
     else None)"

fun evaluateOutOfBandWorkOrders :: "(string \<Rightarrow> int option) \<Rightarrow> work_order list \<Rightarrow> int \<Rightarrow> oob_verdict option" where
  "evaluateOutOfBandWorkOrders date_parse [] now = None"
| "evaluateOutOfBandWorkOrders date_parse (x # xs) now = (case order_verdict date_parse now x of
     Some v \<Rightarrow> Some v | None \<Rightarrow> evaluateOutOfBandWorkOrders date_parse xs now)"

section \<open>Duplicates\<close>

definition without_spaces :: "string option \<Rightarrow> string" where
  "without_spaces v = (case v of None \<Rightarrow> [] | Some s \<Rightarrow> filter (\<lambda>c. \<not> is_space c) s)"

datatype duplicate_match = By_job | By_brand

record duplicate_target =
  dt_jobId :: nat
  dt_brandName :: "string option"

record candidate_booking =
  cb2_workOrderId :: nat
  cb2_jobId :: "nat option"
  cb2_brandName :: "string option"
  cb2_interviewTime :: "string option"

definition findSnapshotDuplicate :: "(string \<Rightarrow> string) \<Rightarrow> candidate_booking list \<Rightarrow> duplicate_target
    \<Rightarrow> (candidate_booking \<times> duplicate_match) option" where
  "findSnapshotDuplicate lower es t =
     (case find (\<lambda>e. cb2_jobId e = Some (dt_jobId t)) es of
        Some e \<Rightarrow> Some (e, By_job)
      | None \<Rightarrow> let b = lower (without_spaces (dt_brandName t)) in
          if b = [] then None
          else map_option (\<lambda>e. (e, By_brand)) (find (\<lambda>e. lower (without_spaces (cb2_brandName e)) = b) es))"

section \<open>The entries of a snapshot\<close>

definition isStorableCandidatePhone :: "string option \<Rightarrow> bool" where
  "isStorableCandidatePhone p = (let d = filter is_digit (case p of None \<Rightarrow> [] | Some s \<Rightarrow> s) in
     length d = 11 \<and> d ! 0 = CHR ''1'' \<and> of_char (d ! 1) \<in> {51 .. (57 :: nat)})"

definition isWorkOrderOwnedByCandidate :: "string option \<Rightarrow> string option \<Rightarrow> string option list \<Rightarrow> bool" where
  "isWorkOrderOwnedByCandidate row first known =
     (let n = (if without_spaces row \<noteq> [] then without_spaces row else without_spaces first)
      in n \<noteq> [] \<and> list_ex (\<lambda>k. without_spaces k = n) known)"

text \<open>\<open>toUpperCase\<close> as far as ASCII capitals can tell: the dotless i and the long s have one as well.\<close>

fun upper_ascii :: "string \<Rightarrow> string" where
  "upper_ascii (a # b # s) =
     (if of_char a = (0xC4 :: nat) \<and> of_char b = (0xB1 :: nat) then CHR ''I'' # upper_ascii s
      else if of_char a = (0xC5 :: nat) \<and> of_char b = (0xBF :: nat) then CHR ''S'' # upper_ascii s
      else (if of_char a \<in> {97 .. (122 :: nat)} then char_of (of_char a - (32 :: nat)) else a) # upper_ascii (b # s))"
| "upper_ascii s = map (\<lambda>a. if of_char a \<in> {97 .. (122 :: nat)} then char_of (of_char a - (32 :: nat)) else a) s"

definition normalizeSignupSource :: "string option \<Rightarrow> signup_source option" where
  "normalizeSignupSource v = (let t = (case v of None \<Rightarrow> [] | Some s \<Rightarrow> upper_ascii (trim s)) in
     if t = ''AI'' then Some Src_AI else if t = ''SUPPLIER'' then Some Src_SUPPLIER else None)"

definition normalizeJobId :: "nat option \<Rightarrow> nat option" where
  "normalizeJobId v = (case v of Some n \<Rightarrow> if 0 < n then Some n else None | None \<Rightarrow> None)"

definition text_or_none :: "string option \<Rightarrow> string option" where
  "text_or_none v = (case v of None \<Rightarrow> None | Some s \<Rightarrow> if trim s = [] then None else Some (trim s))"

definition toBookingSnapshotEntry :: "work_order \<Rightarrow> string option \<Rightarrow> string option list \<Rightarrow> snapshot_entry" where
  "toBookingSnapshotEntry x first known = (let row = (case wo_candidateName x of None \<Rightarrow> [] | Some s \<Rightarrow> trim s) in
     \<lparr>se_workOrder = x, se_workOrderId = wo_workOrderId x, se_jobId = normalizeJobId (wo_jobId x),
      se_brandName = text_or_none (wo_brandName x), se_jobName = text_or_none (wo_jobName x),
      se_interviewTime = text_or_none (wo_interviewTime x), se_signUpTime = text_or_none (wo_signUpTime x),
      se_signupSource = normalizeSignupSource (wo_signupSource x),
      se_candidateName = (if row \<noteq> [] then Some row else first),
      se_ownedByCandidate = isWorkOrderOwnedByCandidate (Some row) first known\<rparr>)"

definition snapshotInterviewAt :: "snapshot_entry \<Rightarrow> int option" where
  "snapshotInterviewAt e = parseProgressSpongeTime (se_interviewTime e)"

definition snapshotSignUpAt :: "snapshot_entry \<Rightarrow> int option" where
  "snapshotSignUpAt e = parseProgressSpongeTime (se_signUpTime e)"

text \<open>\<open>replace(/\s+/g, '_')\<close>.\<close>

function spaces_to_bar :: "string \<Rightarrow> string" where
  "spaces_to_bar [] = []"
| "spaces_to_bar (c # s) = (if is_space c then CHR ''_'' # spaces_to_bar (dropWhile is_space s) else c # spaces_to_bar s)"
  by pat_completeness auto
termination
  by (relation "measure length") (auto simp: le_imp_less_Suc length_dropWhile_le)

definition buildReconcileAnchorKey :: "snapshot_entry \<Rightarrow> bool \<Rightarrow> string" where
  "buildReconcileAnchorKey e resumed =
     ''reconcile:wo'' @ show_nat (se_workOrderId e) @ '':iv''
     @ spaces_to_bar (case se_interviewTime e of None \<Rightarrow> ''none'' | Some t \<Rightarrow> t) @ (if resumed then '':resumed'' else [])"

section \<open>What they answer\<close>

lemma parse_epoch: "parseLocalDateTime ''1970-01-01 08:00'' = Some 0" "parseLocalDateTime ''2000-03-01T00:00:05'' = Some 951840005000"
    "parseLocalDateTime ''2000-02-30 00:00'' = parseLocalDateTime ''2000-03-01 00:00''" "parseLocalDateTime ''2000-3-1 00:00'' = None"
  by (simp_all add: parseLocalDateTime_def shaped_def fits_def is_digit_def part_def number_of_def createShanghaiDate_def date_utc_def
      day_of_month_start_def day_ms_def HOUR_def MINUTE_def trim_def is_space_def Let_def)

lemma first_of_each_aux:
  "set (map be_work_order_id (fold (\<lambda>e m. if be_work_order_id e \<in> be_work_order_id ` set m then m else m @ [e]) es m))
     = set (map be_work_order_id m) \<union> set (map be_work_order_id es)"
  "distinct (map be_work_order_id m) \<Longrightarrow>
     distinct (map be_work_order_id (fold (\<lambda>e m. if be_work_order_id e \<in> be_work_order_id ` set m then m else m @ [e]) es m))"
  by (induction es arbitrary: m) auto

lemma first_of_each_ids: "be_work_order_id ` set (first_of_each es) = be_work_order_id ` set es" "distinct (map be_work_order_id (first_of_each es))"
  using first_of_each_aux(1) [of es "[]"] first_of_each_aux(2) [of "[]" es] by (simp_all add: first_of_each_def)

text \<open>That there is no booking is said only when both sources know it.\<close>

lemma no_booking_is_known: "mergeLegacyGuardBookings s p = Some [] \<longleftrightarrow> s = Some [] \<and> p = Some []"
proof -
  have e: "first_of_each es = [] \<longleftrightarrow> es = []" for es
    using first_of_each_ids(1) [of es] by (auto simp: first_of_each_def)
  show ?thesis by (auto simp: mergeLegacyGuardBookings_def Let_def e split: option.splits)
qed

text \<open>The first order with a verdict decides.\<close>

lemma out_of_band_decides: "evaluateOutOfBandWorkOrders dp xs now = None \<longleftrightarrow> (\<forall>x \<in> set xs. order_verdict dp now x = None)"
  by (induction xs) (auto split: option.split)

lemma ended_orders_do_not_stop:
  "status_of x \<notin> insert (status_text Onboarded) OPEN_RESULT_WORK_ORDER_STATUSES \<Longrightarrow> order_verdict dp now x = None"
  by (auto simp: order_verdict_def OPEN_RESULT_WORK_ORDER_STATUSES_def Let_def)

end
