(* ===== verification/BookingSnapshot.thy ===== *)
theory BookingSnapshot
  imports LegacyProgress
begin

text \<open>
  The bookings of a candidate as of now, after \<open>booking-snapshot.service.ts\<close>: a cache of five minutes before the
  outside platform and a breaker per hosting account.  What could not be asked is never reported as no booking.
  The outside calls and the map of the breakers are the ports; an event for the dashboards is left out.
\<close>

section \<open>Data\<close>

record circuit_state =
  cs_consecutiveFailures :: nat
  cs_openUntil :: int

record cache_record =
  cr_allWorkOrders :: "work_order list option"
  cr_entries :: "snapshot_entry list"
  cr_candidateName :: "string option"
  cr_fetchedAt :: int

datatype load_result = Loaded cache_record bool | Skipped_no_token | Skipped_no_phone | Load_failed string bool

record load_input =
  li_phone :: "string option"
  li_botImId :: "string option"
  li_corpId :: string
  li_userId :: string
  li_knownCandidateNames :: "string option list"
  li_bypassCache :: bool

text \<open>A cached value that is no record counts as none already in \<open>sp_get\<close>.\<close>

record 'w snapshot_ports =
  sp_now :: "'w \<Rightarrow> int"
  sp_token :: "string \<Rightarrow> ('w, string option) act"
  sp_get :: "string \<Rightarrow> ('w, cache_record option) act"
  sp_setex :: "string \<Rightarrow> int \<Rightarrow> cache_record \<Rightarrow> ('w, unit) act"
  sp_del :: "string list \<Rightarrow> ('w, unit) act"
  sp_fetch :: "string \<Rightarrow> string \<Rightarrow> ('w, string option \<times> work_order list) act"
  sp_circuit :: "'w \<Rightarrow> string \<Rightarrow> circuit_state option"
  sp_set_circuit :: "string \<Rightarrow> circuit_state option \<Rightarrow> 'w \<Rightarrow> 'w"

definition BOOKING_SNAPSHOT_CACHE_TTL_SECONDS :: int where "BOOKING_SNAPSHOT_CACHE_TTL_SECONDS = 5 * 60"
definition BOOKING_SNAPSHOT_CIRCUIT_FAILURE_THRESHOLD :: nat where "BOOKING_SNAPSHOT_CIRCUIT_FAILURE_THRESHOLD = 3"
definition BOOKING_SNAPSHOT_CIRCUIT_OPEN_MS :: int where "BOOKING_SNAPSHOT_CIRCUIT_OPEN_MS = 5 * MINUTE"

section \<open>The breaker\<close>

definition snapshot_circuit_open :: "circuit_state option \<Rightarrow> int \<Rightarrow> bool" where
  "snapshot_circuit_open c now \<longleftrightarrow> (case c of None \<Rightarrow> False | Some s \<Rightarrow> now < cs_openUntil s)"

definition failed_once_more :: "circuit_state option \<Rightarrow> int \<Rightarrow> bool \<times> circuit_state" where
  "failed_once_more c now =
     (let s = (case c of None \<Rightarrow> \<lparr>cs_consecutiveFailures = 0, cs_openUntil = 0\<rparr> | Some s \<Rightarrow> s);
          n = cs_consecutiveFailures s + 1; opened = BOOKING_SNAPSHOT_CIRCUIT_FAILURE_THRESHOLD \<le> n
      in (opened, \<lparr>cs_consecutiveFailures = n,
            cs_openUntil = (if opened then now + BOOKING_SNAPSHOT_CIRCUIT_OPEN_MS else cs_openUntil s)\<rparr>))"

definition recordFailure :: "'w snapshot_ports \<Rightarrow> string \<Rightarrow> int \<Rightarrow> ('w, bool) act" where
  "recordFailure P botId now w = (case failed_once_more (sp_circuit P w botId) now of
     (opened, s) \<Rightarrow> (Inr opened, sp_set_circuit P botId (Some s) w))"

definition isCircuitOpen :: "'w snapshot_ports \<Rightarrow> string \<Rightarrow> int \<Rightarrow> ('w, bool) act" where
  "isCircuitOpen P botId now w = (Inr (snapshot_circuit_open (sp_circuit P w botId) now), w)"

section \<open>The cache\<close>

definition snapshotCacheKey :: "string \<Rightarrow> string \<Rightarrow> string" where
  "snapshotCacheKey botId phone = ''booking:snapshot:'' @ botId @ '':'' @ phone"

definition candidateCacheKey :: "string \<Rightarrow> string \<Rightarrow> string" where
  "candidateCacheKey corp user = ''booking:snapshot:candidate:'' @ corp @ '':'' @ user"

definition readCache :: "'w snapshot_ports \<Rightarrow> string \<Rightarrow> ('w, cache_record option) act" where
  "readCache P k = or_none (sp_get P k)"

text \<open>The writes run side by side and all start whatever becomes of the others; nothing that fails is reported.\<close>

fun writeCache :: "'w snapshot_ports \<Rightarrow> string list \<Rightarrow> cache_record \<Rightarrow> int \<Rightarrow> ('w, unit) act" where
  "writeCache P [] r ttl = act_ret ()"
| "writeCache P (k # ks) r ttl = act_bind (act_catch (sp_setex P k ttl r) (\<lambda>_. act_ret ())) (\<lambda>_. writeCache P ks r ttl)"

definition trimmed :: "string option \<Rightarrow> string" where
  "trimmed v = (case v of None \<Rightarrow> [] | Some s \<Rightarrow> trim s)"

definition account_token :: "'w snapshot_ports \<Rightarrow> string \<Rightarrow> ('w, bool) act" where
  "account_token P botId = (if botId = [] then act_ret False
     else act_bind (sp_token P botId) (\<lambda>t. act_ret (present t)))"

definition rechecked :: "cache_record \<Rightarrow> string option list \<Rightarrow> int \<Rightarrow> cache_record" where
  "rechecked r known now = r\<lparr>cr_entries := map (\<lambda>e. toBookingSnapshotEntry (se_workOrder e) (cr_candidateName r) known)
     (filter (\<lambda>e. isSnapshotEligibleWorkOrder (se_workOrder e) now) (cr_entries r))\<rparr>"

definition fetched_record :: "string option \<times> work_order list \<Rightarrow> string option list \<Rightarrow> int \<Rightarrow> cache_record" where
  "fetched_record x known now = (let name = text_or_none (fst x) in
     \<lparr>cr_allWorkOrders = Some (snd x),
      cr_entries = map (\<lambda>z. toBookingSnapshotEntry z name known) (filter (\<lambda>z. isSnapshotEligibleWorkOrder z now) (snd x)),
      cr_candidateName = name, cr_fetchedAt = now\<rparr>)"

section \<open>The operations\<close>

definition load_fresh :: "'w snapshot_ports \<Rightarrow> load_input \<Rightarrow> string \<Rightarrow> string \<Rightarrow> int \<Rightarrow> ('w, load_result) act" where
  "load_fresh P i phone botId now = act_bind (isCircuitOpen P botId now) (\<lambda>open.
     if open then act_ret (Load_failed ''circuit_open'' True)
     else act_bind (act_catch (act_bind (sp_fetch P phone botId) (\<lambda>x. act_ret (Inr x))) (\<lambda>e. act_ret (Inl e))) (\<lambda>answer. case answer of
       Inl e \<Rightarrow> act_bind (recordFailure P botId now) (\<lambda>opened. act_ret (Load_failed e opened))
     | Inr x \<Rightarrow> act_bind (eff (sp_set_circuit P botId None)) (\<lambda>_.
         let r = fetched_record x (li_knownCandidateNames i) now in
         act_bind (writeCache P [snapshotCacheKey botId phone, candidateCacheKey (li_corpId i) (li_userId i)] r
             BOOKING_SNAPSHOT_CACHE_TTL_SECONDS) (\<lambda>_. act_ret (Loaded r False)))))"

definition cached_ttl :: "int \<Rightarrow> int \<Rightarrow> int" where
  "cached_ttl fetchedAt now = max 1 ((BOOKING_SNAPSHOT_CACHE_TTL_SECONDS * 1000 - (now - fetchedAt)) div 1000)"

definition loadSnapshot :: "'w snapshot_ports \<Rightarrow> load_input \<Rightarrow> ('w, load_result) act" where
  "loadSnapshot P i = (let phone = trimmed (li_phone i); botId = trimmed (li_botImId i) in
     if \<not> isStorableCandidatePhone (Some phone) then act_ret Skipped_no_phone
     else act_bind (account_token P botId) (\<lambda>has. if \<not> has then act_ret Skipped_no_token
     else act_bind (\<lambda>w. (Inr (sp_now P w), w)) (\<lambda>now.
       if li_bypassCache i then load_fresh P i phone botId now
       else act_bind (readCache P (snapshotCacheKey botId phone)) (\<lambda>c. case c of
         None \<Rightarrow> load_fresh P i phone botId now
       | Some r \<Rightarrow>
           if now - cr_fetchedAt r < BOOKING_SNAPSHOT_CACHE_TTL_SECONDS * 1000
           then let r' = rechecked r (li_knownCandidateNames i) now in
             act_bind (writeCache P [candidateCacheKey (li_corpId i) (li_userId i)] r' (cached_ttl (cr_fetchedAt r) now))
               (\<lambda>_. act_ret (Loaded r' True))
           else load_fresh P i phone botId now))))"

definition peekForCandidate :: "'w snapshot_ports \<Rightarrow> string \<Rightarrow> string \<Rightarrow> ('w, cache_record option) act" where
  "peekForCandidate P corp user = readCache P (candidateCacheKey corp user)"

definition hasOpenWorkOrders :: "'w snapshot_ports \<Rightarrow> string option \<Rightarrow> string option \<Rightarrow> ('w, bool option) act" where
  "hasOpenWorkOrders P ph im = (let phone = trimmed ph; botId = trimmed im in
     if \<not> isStorableCandidatePhone (Some phone) then act_ret None
     else act_bind (account_token P botId) (\<lambda>has. if \<not> has then act_ret None
     else act_bind (\<lambda>w. (Inr (sp_now P w), w)) (\<lambda>now.
       act_bind (isCircuitOpen P botId now) (\<lambda>open. if open then act_ret None
       else act_catch (act_bind (sp_fetch P phone botId) (\<lambda>x. act_bind (eff (sp_set_circuit P botId None))
             (\<lambda>_. act_ret (Some (hasLegacyOpenWorkOrders (snd x))))))
           (\<lambda>_. act_bind (recordFailure P botId now) (\<lambda>_. act_ret None))))))"

definition invalidate :: "'w snapshot_ports \<Rightarrow> string option \<Rightarrow> string option \<Rightarrow> string option \<Rightarrow> string option \<Rightarrow> bool \<Rightarrow> ('w, unit) act" where
  "invalidate P ph im corp user strict =
     (let phone = trimmed ph; botId = trimmed im;
          keys = (if phone \<noteq> [] \<and> botId \<noteq> [] then [snapshotCacheKey botId phone] else [])
            @ (if present corp \<and> present user then [candidateCacheKey (the corp) (the user)] else [])
      in if keys = [] then act_ret ()
         else act_catch (sp_del P keys) (\<lambda>e. if strict then act_throw e else act_ret ()))"

section \<open>What the breaker promises\<close>

lemma third_failure_opens:
  "cs_consecutiveFailures s = 2 \<Longrightarrow> fst (failed_once_more (Some s) now) \<and>
     snapshot_circuit_open (Some (snd (failed_once_more (Some s) now))) t = (t < now + 5 * MINUTE)"
  by (simp add: failed_once_more_def BOOKING_SNAPSHOT_CIRCUIT_FAILURE_THRESHOLD_def BOOKING_SNAPSHOT_CIRCUIT_OPEN_MS_def
      snapshot_circuit_open_def Let_def)

text \<open>An answer that there is no open order is the answer of the platform.\<close>

lemma no_open_order_was_answered:
  assumes "hasOpenWorkOrders P ph im w = (Inr (Some b), w')"
  obtains x w1 w2 where "sp_fetch P (trimmed ph) (trimmed im) w1 = (Inr x, w2)" "b = hasLegacyOpenWorkOrders (snd x)"
  using assms
  by (auto simp: hasOpenWorkOrders_def Let_def recordFailure_def isCircuitOpen_def split: if_splits prod.splits
      elim!: act_bind_InrE act_catch_InrE)

text \<open>What a load shows is under way, whether it was cached or is new.\<close>

definition under_way :: "load_result \<Rightarrow> bool" where
  "under_way r \<longleftrightarrow> (case r of Loaded c _ \<Rightarrow> (\<forall>e \<in> set (cr_entries c). status_of (se_workOrder e) \<in> ACTIVE_INTERVIEW_WORK_ORDER_STATUSES)
     | _ \<Rightarrow> True)"

lemma under_way_simps [simp]: "under_way Skipped_no_token" "under_way Skipped_no_phone" "under_way (Load_failed e b)"
  "under_way (Loaded (rechecked c known now) b)" "under_way (Loaded (fetched_record x known now) b)"
  by (auto simp: under_way_def rechecked_def fetched_record_def Let_def toBookingSnapshotEntry_def isSnapshotEligibleWorkOrder_def)

definition answers :: "('a \<Rightarrow> bool) \<Rightarrow> ('w, 'a) act \<Rightarrow> bool" where
  "answers Q m \<longleftrightarrow> triple (\<lambda>_. True) m (\<lambda>v _. Q v) (\<lambda>_ _. True)"

lemma answers_ret: "Q v \<Longrightarrow> answers Q (act_ret v)"
  by (simp add: answers_def triple_def)

lemma answers_bind: "(\<And>v. answers Q (k v)) \<Longrightarrow> answers Q (act_bind m k)"
  unfolding answers_def by (rule triple_bind [where R = "\<lambda>_ _. True"]) (auto simp: triple_def split: prod.split sum.split)

lemma answers_if: "(b \<Longrightarrow> answers Q m) \<Longrightarrow> (\<not> b \<Longrightarrow> answers Q n) \<Longrightarrow> answers Q (if b then m else n)"
  by simp

lemma answersD: "answers Q m \<Longrightarrow> m w = (Inr v, w') \<Longrightarrow> Q v"
  unfolding answers_def by (drule triple_InrD) auto

lemma answers_fresh: "answers under_way (load_fresh P i phone im now)"
  unfolding load_fresh_def Let_def
  by (intro answers_bind answers_if answers_ret under_way_simps) (auto split: sum.split intro!: answers_bind answers_ret)

lemma loaded_under_way: "answers under_way (loadSnapshot P i)"
  unfolding loadSnapshot_def Let_def
  by (intro answers_bind answers_if answers_ret under_way_simps answers_fresh)
    (auto split: option.split intro!: answers_bind answers_ret answers_fresh)

end
