(* ===== verification/OobReconcile.thy ===== *)
theory OobReconcile
  imports BookingSnapshot
begin

text \<open>
  What follows from signups that were made outside, after \<open>oob-reconcile.service.ts\<close>: the session is marked
  as booked, reminders are asked for once per order and time, an event is recorded.  The world has the queue of
  the scheduler, the documented commands of Redis on keys that expire, and a script of how the calls end; between any
  two answers the rest of the system goes on (\<open>oob_event\<close>).  The log is a record of what happened, the code does not see it.
\<close>

section \<open>The world\<close>

datatype stored = Stamp int | Cached cache_record

record index_record =
  ix_phone :: string
  ix_corpId :: string
  ix_userId :: string
  ix_chatId :: string
  ix_botImId :: "string option"
  ix_botUserId :: "string option"

text \<open>What the code reads from services that are not modelled here.\<close>

record oob_sources =
  os_facts :: "session_ref \<Rightarrow> string option \<times> string option"
  os_profile :: "string \<Rightarrow> string \<Rightarrow> string \<Rightarrow> (string option \<times> string option) option"
  os_channel :: "string \<Rightarrow> channel_identity option"
  os_token :: "string \<Rightarrow> string option"
  os_orders :: "string \<Rightarrow> string \<Rightarrow> string option \<times> work_order list"
  os_lead :: "int option"
  os_index :: "string \<Rightarrow> index_record option"

datatype oob_event = In_queue worker_event | Claimed_elsewhere string int | Stored_elsewhere string stored int
  | Terminal_elsewhere session_ref "terminal_state option" | Sources_change oob_sources | Circuit_elsewhere string "circuit_state option"

datatype oob_effect = Claimed string | Marker_read string bool | Orders_read string string "work_order list"
  | Terminal_saved session_ref "terminal_state option" | Requested string scenario_code

record oob_world =
  ow_queue :: schedule_world
  ow_store :: "string \<Rightarrow> (stored \<times> int) option"
  ow_terminal :: "session_ref \<Rightarrow> terminal_state option"
  ow_events :: "string set"
  ow_circuits :: "string \<Rightarrow> circuit_state option"
  ow_sources :: oob_sources
  ow_calls :: "(nat \<times> oob_event list \<times> queue_reply) list"
  ow_log :: "oob_effect list"

abbreviation "clock_of w \<equiv> fw_time (ow_queue w)"

definition live :: "string \<Rightarrow> oob_world \<Rightarrow> stored option" where
  "live k w = (case ow_store w k of None \<Rightarrow> None | Some (v, expires) \<Rightarrow> if clock_of w < expires then Some v else None)"

definition put :: "string \<Rightarrow> stored \<Rightarrow> int \<Rightarrow> oob_world \<Rightarrow> oob_world" where
  "put k v seconds w = w\<lparr>ow_store := (ow_store w)(k := Some (v, clock_of w + seconds * 1000))\<rparr>"

definition anchorMarkerKey :: "string \<Rightarrow> string \<Rightarrow> string" where
  "anchorMarkerKey chat anchor = ''oob:anchor:'' @ chat @ '':'' @ anchor"

definition oobBookedMarkerKey :: "string \<Rightarrow> string" where
  "oobBookedMarkerKey chat = ''oob:booked:'' @ chat"

definition ANCHOR_MARKER_TTL_SECONDS :: int where "ANCHOR_MARKER_TTL_SECONDS = 30 * 24 * 60 * 60"
definition OOB_BOOKED_MARKER_TTL_SECONDS :: int where "OOB_BOOKED_MARKER_TTL_SECONDS = 30 * 24 * 60 * 60"
definition DEFAULT_REMINDER_LEAD_MINUTES :: int where "DEFAULT_REMINDER_LEAD_MINUTES = 60"

text \<open>Elsewhere an anchor is claimed with the same command, and any other key may be written or removed.\<close>

definition anchor_key :: "string \<Rightarrow> bool" where
  "anchor_key k \<longleftrightarrow> take 11 k = ''oob:anchor:''"

fun elsewhere :: "oob_event \<Rightarrow> oob_world \<Rightarrow> oob_world" where
  "elsewhere (In_queue e) w = w\<lparr>ow_queue := (ow_queue w)\<lparr>fw_jobs := worker_step e (fw_jobs (ow_queue w))\<rparr>\<rparr>"
| "elsewhere (Claimed_elsewhere k t) w = (if anchor_key k \<and> live k w = None then put k (Stamp t) ANCHOR_MARKER_TTL_SECONDS w else w)"
| "elsewhere (Stored_elsewhere k v seconds) w = (if anchor_key k then w else put k v seconds w)"
| "elsewhere (Terminal_elsewhere r t) w = w\<lparr>ow_terminal := (ow_terminal w)(r := t)\<rparr>"
| "elsewhere (Sources_change s) w = w\<lparr>ow_sources := s\<rparr>"
| "elsewhere (Circuit_elsewhere b c) w = w\<lparr>ow_circuits := (ow_circuits w)(b := c)\<rparr>"

definition passing :: "nat \<Rightarrow> oob_world \<Rightarrow> oob_world" where
  "passing d w = w\<lparr>ow_queue := (ow_queue w)\<lparr>fw_time := clock_of w + int d\<rparr>\<rparr>"

definition oob_call :: "oob_world \<Rightarrow> queue_reply \<times> oob_world" where
  "oob_call w = (case ow_calls w of [] \<Rightarrow> (Done, w)
     | (d, evs, a) # cs \<Rightarrow> (a, fold elsewhere evs (passing d (w\<lparr>ow_calls := cs\<rparr>))))"

definition oob_read :: "(oob_world \<Rightarrow> 'a) \<Rightarrow> (oob_world, 'a) act" where
  "oob_read f w = (case oob_call w of (a, w1) \<Rightarrow> (if a = Done then Inr (f w1) else Inl ''unanswered'', w1))"

definition oob_write :: "(oob_world \<Rightarrow> 'a \<times> oob_world) \<Rightarrow> (oob_world, 'a) act" where
  "oob_write f w = (case oob_call w of (a, w1) \<Rightarrow>
     if a = Not_done then (Inl ''unanswered'', w1)
     else (case f w1 of (v, w2) \<Rightarrow> (if a = Done then Inr v else Inl ''unanswered'', w2)))"

definition say :: "oob_effect \<Rightarrow> oob_world \<Rightarrow> oob_world" where
  "say e w = w\<lparr>ow_log := ow_log w @ [e]\<rparr>"

definition in_queue :: "(schedule_world, 'a) act \<Rightarrow> (oob_world, 'a) act" where
  "in_queue m w = (case m (ow_queue w) of (r, q) \<Rightarrow> (r, w\<lparr>ow_queue := q\<rparr>))"

definition oob_now :: "(oob_world, int) act" where
  "oob_now w = (Inr (clock_of w), w)"

section \<open>Redis and the snapshots\<close>

definition setNx :: "string \<Rightarrow> int \<Rightarrow> int \<Rightarrow> (oob_world, bool) act" where
  "setNx k t seconds = oob_write (\<lambda>w. if live k w = None then (True, say (Claimed k) (put k (Stamp t) seconds w)) else (False, w))"

definition get_stamp :: "string \<Rightarrow> (oob_world, int option) act" where
  "get_stamp k = oob_read (\<lambda>w. case live k w of Some (Stamp t) \<Rightarrow> Some t | _ \<Rightarrow> None)"

definition set_key :: "string \<Rightarrow> stored \<Rightarrow> int \<Rightarrow> (oob_world, unit) act" where
  "set_key k v seconds = oob_write (\<lambda>w. ((), put k v seconds w))"

definition del_keys :: "string list \<Rightarrow> (oob_world, unit) act" where
  "del_keys ks = oob_write (\<lambda>w. ((), w\<lparr>ow_store := (\<lambda>k. if k \<in> set ks then None else ow_store w k)\<rparr>))"

definition oob_ports :: "oob_world snapshot_ports" where
  "oob_ports =
     \<lparr>sp_now = clock_of, sp_token = \<lambda>b. oob_read (\<lambda>w. os_token (ow_sources w) b),
      sp_get = \<lambda>k. oob_read (\<lambda>w. case live k w of Some (Cached r) \<Rightarrow> Some r | _ \<Rightarrow> None),
      sp_setex = \<lambda>k seconds r. set_key k (Cached r) seconds, sp_del = del_keys,
      sp_fetch = \<lambda>ph b. act_bind (oob_read (\<lambda>w. os_orders (ow_sources w) ph b))
        (\<lambda>x. act_bind (eff (say (Orders_read ph b (snd x)))) (\<lambda>_. act_ret x)),
      sp_circuit = ow_circuits, sp_set_circuit = \<lambda>b c w. w\<lparr>ow_circuits := (ow_circuits w)(b := c)\<rparr>\<rparr>"

section \<open>Data of the service\<close>

datatype oob_trigger = Trig_turn | Trig_scan | Trig_resume

record oob_input =
  oi_corpId :: string
  oi_userId :: string
  oi_chatId :: string
  oi_botImId :: "string option"
  oi_botUserId :: "string option"
  oi_phone :: "string option"
  oi_channelIdentity :: "channel_identity option"
  oi_trigger :: oob_trigger
  oi_bookingSucceededThisTurn :: bool
  oi_maxSlotChecks :: "nat option"

datatype terminal_change = Now_booked | Cleared | Unchanged

record oob_result =
  or_done :: bool
  or_reason :: "string option"
  or_supplierOwned :: nat
  or_scheduled :: nat
  or_linkedEvents :: nat
  or_slotChecksScheduled :: nat
  or_terminal :: "terminal_change option"

definition oob_session :: "oob_input \<Rightarrow> session_ref" where
  "oob_session i = \<lparr>sr_sessionId = oi_chatId i, sr_userId = oi_userId i, sr_corpId = oi_corpId i\<rparr>"

section \<open>Who the candidate is\<close>

definition nonblank :: "string option \<Rightarrow> string list" where
  "nonblank v = (if trimmed v = [] then [] else [trimmed v])"

definition session_names :: "oob_input \<Rightarrow> (oob_world, string \<times> string list) act" where
  "session_names i = (let ph = trimmed (oi_phone i) in
     act_catch (act_bind (oob_read (\<lambda>w. os_facts (ow_sources w) (oob_session i))) (\<lambda>(name, phone).
         act_ret (if ph = [] then trimmed phone else ph, nonblank name)))
       (\<lambda>_. act_ret (ph, [])))"

definition profile_key :: "oob_input \<Rightarrow> (oob_world, string) act" where
  "profile_key i = (let given = trimmed (oi_botUserId i) in
     if given \<noteq> [] \<or> \<not> present (oi_botImId i) then act_ret given
     else act_bind (oob_read (\<lambda>w. os_channel (ow_sources w) (oi_chatId i))) (\<lambda>c.
       act_ret (if channel ci_botImId c = oi_botImId i then trimmed (channel ci_managerName c) else given)))"

definition resolveIdentity :: "oob_input \<Rightarrow> (oob_world, string option \<times> string list) act" where
  "resolveIdentity i = act_bind (session_names i) (\<lambda>(ph, names). act_bind (profile_key i) (\<lambda>key.
     act_bind (if key = [] then act_ret (ph, names)
       else act_bind (oob_read (\<lambda>w. os_profile (ow_sources w) (oi_corpId i) (oi_userId i) key)) (\<lambda>p.
         let (name, phone) = (case p of None \<Rightarrow> (None, None) | Some x \<Rightarrow> x)
         in act_ret (if ph = [] then trimmed phone else ph, names @ nonblank name)))
       (\<lambda>(ph, names). act_ret (if isStorableCandidatePhone (Some ph) then Some ph else None, names))))"

section \<open>The state of the session\<close>

definition save_terminal :: "session_ref \<Rightarrow> terminal_state option \<Rightarrow> (oob_world, unit) act" where
  "save_terminal r t = oob_write (\<lambda>w. ((), say (Terminal_saved r t) (w\<lparr>ow_terminal := (ow_terminal w)(r := t)\<rparr>)))"

definition markOobBooked :: "string \<Rightarrow> (oob_world, unit) act" where
  "markOobBooked chat = act_catch (act_bind oob_now (\<lambda>t.
     set_key (oobBookedMarkerKey chat) (Stamp t) OOB_BOOKED_MARKER_TTL_SECONDS)) (\<lambda>_. act_ret ())"

definition isOobBooked :: "string \<Rightarrow> (oob_world, bool) act" where
  "isOobBooked chat = act_catch (act_bind (get_stamp (oobBookedMarkerKey chat)) (\<lambda>v.
     act_bind (eff (say (Marker_read chat (v \<noteq> None)))) (\<lambda>_. act_ret (v \<noteq> None)))) (\<lambda>_. act_ret False)"

definition clearOobBookedMarker :: "string \<Rightarrow> (oob_world, unit) act" where
  "clearOobBookedMarker chat = act_catch (del_keys [oobBookedMarkerKey chat]) (\<lambda>_. act_ret ())"

definition clear_terminal :: "oob_input \<Rightarrow> string \<Rightarrow> (oob_world, terminal_change) act" where
  "clear_terminal i phone =
     (if oi_trigger i = Trig_turn \<and> oi_bookingSucceededThisTurn i then act_ret Unchanged
      else act_bind (isOobBooked (oi_chatId i)) (\<lambda>marked.
        if \<not> marked then act_ret Unchanged
        else act_bind (hasOpenWorkOrders oob_ports (Some phone) (oi_botImId i)) (\<lambda>open.
          if open \<noteq> Some False then act_ret Unchanged
          else act_bind (save_terminal (oob_session i) None) (\<lambda>_.
            act_bind (clearOobBookedMarker (oi_chatId i)) (\<lambda>_. act_ret Cleared)))))"

definition reconcileTerminal :: "oob_input \<Rightarrow> string \<Rightarrow> snapshot_entry list \<Rightarrow> snapshot_entry list \<Rightarrow> (oob_world, terminal_change) act" where
  "reconcileTerminal i phone entries owned =
     act_catch (act_bind (oob_read (\<lambda>w. ow_terminal w (oob_session i))) (\<lambda>t.
         if owned \<noteq> [] \<and> t = None
         then act_bind (save_terminal (oob_session i) (Some T_booked)) (\<lambda>_.
           act_bind (markOobBooked (oi_chatId i)) (\<lambda>_. act_ret Now_booked))
         else if entries = [] \<and> t = Some T_booked then clear_terminal i phone
         else act_ret Unchanged))
       (\<lambda>_. act_ret Unchanged)"

section \<open>The events and the reminders\<close>

definition recordLinkedEvent :: "snapshot_entry \<Rightarrow> (oob_world, bool) act" where
  "recordLinkedEvent e = (let k = show_nat (se_workOrderId e) @ '':oob_linked'' in
     act_catch (oob_write (\<lambda>w. if k \<in> ow_events w then (False, w) else (True, w\<lparr>ow_events := insert k (ow_events w)\<rparr>)))
       (\<lambda>_. act_ret False))"

definition claimAnchor :: "string \<Rightarrow> string \<Rightarrow> (oob_world, bool) act" where
  "claimAnchor chat anchor = act_catch (act_bind oob_now (\<lambda>t. setNx (anchorMarkerKey chat anchor) t ANCHOR_MARKER_TTL_SECONDS))
     (\<lambda>_. act_ret False)"

datatype anchor_age = Fresh | Old

definition isAnchorClaimed :: "string \<Rightarrow> string \<Rightarrow> (oob_world, anchor_age option) act" where
  "isAnchorClaimed chat anchor = act_catch (act_bind (get_stamp (anchorMarkerKey chat anchor)) (\<lambda>v. case v of
       None \<Rightarrow> act_ret None
     | Some t \<Rightarrow> act_bind oob_now (\<lambda>now. act_ret (Some (if now - t < 60 * 1000 then Fresh else Old)))))
     (\<lambda>_. act_ret None)"

definition resolveReminderLeadMinutes :: "(oob_world, int) act" where
  "resolveReminderLeadMinutes = act_catch (act_bind (oob_read (\<lambda>w. os_lead (ow_sources w))) (\<lambda>v.
     act_ret (case v of Some n \<Rightarrow> if 0 < n then n else DEFAULT_REMINDER_LEAD_MINUTES | None \<Rightarrow> DEFAULT_REMINDER_LEAD_MINUTES)))
     (\<lambda>_. act_ret DEFAULT_REMINDER_LEAD_MINUTES)"

definition anchor_event :: "string \<Rightarrow> scenario_code \<Rightarrow> string" where
  "anchor_event anchor c = anchor @ '':'' @ code_text c"

definition request :: "string \<Rightarrow> string \<Rightarrow> scenario_code \<Rightarrow> (schedule_world, schedule_result) act \<Rightarrow> (oob_world, schedule_result) act" where
  "request chat anchor c m = act_bind (eff (say (Requested (anchorMarkerKey chat anchor) c))) (\<lambda>_. in_queue m)"

fun ask_both :: "oob_input \<Rightarrow> snapshot_entry \<Rightarrow> string \<Rightarrow> int \<Rightarrow> scenario_code list \<Rightarrow> nat \<Rightarrow> (oob_world, nat) act" where
  "ask_both i e anchor t [] n = act_ret n"
| "ask_both i e anchor t (c # cs) n =
     act_bind (request (oi_chatId i) anchor c
         (scheduleBookingResolution (oob_session i) c (se_workOrderId e) (anchor_event anchor c) t (oi_channelIdentity i)))
       (\<lambda>r. ask_both i e anchor t cs (if res_scheduled r then n + 1 else n))"

definition untimed_state :: session_state where
  "untimed_state = createEmptyState\<lparr>ss_terminal := Some T_booked\<rparr>"

definition untimed_input :: "oob_input \<Rightarrow> snapshot_entry \<Rightarrow> string \<Rightarrow> int \<Rightarrow> schedule_input" where
  "untimed_input i e anchor t = \<lparr>si_sessionRef = oob_session i, si_scenarioCode = Interview_reminder,
     si_anchorEventId = anchor_event anchor Interview_reminder, si_anchorAt = t, si_state = Some untimed_state,
     si_workOrderId = Some (se_workOrderId e), si_interviewType = None, si_channelIdentity = oi_channelIdentity i,
     si_touchVariant = None, si_escalateToGroupInvite = False, si_collectionAwaitingConfirmation = False\<rparr>"

text \<open>The answer is the number of reminders and the number of checks so far, which the caller carries along.\<close>

definition scheduleFollowUps :: "oob_input \<Rightarrow> snapshot_entry \<Rightarrow> int \<Rightarrow> nat \<Rightarrow> (oob_world, nat \<times> nat) act" where
  "scheduleFollowUps i e now checks =
     (let iv = snapshotInterviewAt e; signed = (case snapshotSignUpAt e of Some t \<Rightarrow> t | None \<Rightarrow> now);
          anchor = buildReconcileAnchorKey e False;
          wants = (iv = None \<and> \<not> isInterviewSlotCheckStale signed now) in
      if (case iv of Some t \<Rightarrow> t \<le> now | None \<Rightarrow> False) then act_ret (0, checks)
      else if wants \<and> (case oi_maxSlotChecks i of Some n \<Rightarrow> n \<le> checks | None \<Rightarrow> False) then act_ret (0, checks)
      else act_bind (claimAnchor (oi_chatId i) anchor) (\<lambda>first.
        if \<not> first then act_ret (0, checks)
        else if iv = None then
          act_bind (request (oi_chatId i) anchor Interview_reminder (scheduleFollowUp (untimed_input i e anchor signed))) (\<lambda>_.
          act_bind (in_queue (scheduleInterviewSlotCheck (oob_session i) (se_workOrderId e) signed (oi_channelIdentity i))) (\<lambda>r.
            act_ret (0, if res_scheduled r then checks + 1 else checks)))
        else act_bind (ask_both i e anchor signed [Interview_reminder, Post_interview_followup] 0) (\<lambda>n. act_ret (n, checks))))"

definition rescheduleAfterResume :: "oob_input \<Rightarrow> snapshot_entry \<Rightarrow> int \<Rightarrow> (oob_world, nat) act" where
  "rescheduleAfterResume i e now = (case snapshotInterviewAt e of None \<Rightarrow> act_ret 0
     | Some iv \<Rightarrow>
       if iv \<le> now then act_ret 0
       else act_bind (isAnchorClaimed (oi_chatId i) (buildReconcileAnchorKey e False)) (\<lambda>age.
         if age \<noteq> Some Old then act_ret 0
         else act_bind resolveReminderLeadMinutes (\<lambda>lead.
           if iv - now < lead * MINUTE then act_ret 0
           else act_bind (claimAnchor (oi_chatId i) (buildReconcileAnchorKey e True)) (\<lambda>first.
             if \<not> first then act_ret 0
             else ask_both i e (buildReconcileAnchorKey e True) now [Interview_reminder, Post_interview_followup] 0))))"

section \<open>The whole reconciliation\<close>

record tally =
  ta_scheduled :: nat
  ta_linked :: nat
  ta_checks :: nat

fun reconcile_entries :: "oob_input \<Rightarrow> int \<Rightarrow> snapshot_entry list \<Rightarrow> tally \<Rightarrow> (oob_world, tally) act" where
  "reconcile_entries i now [] t = act_ret t"
| "reconcile_entries i now (e # es) t =
     act_bind (recordLinkedEvent e) (\<lambda>linked.
     act_bind (scheduleFollowUps i e now (ta_checks t)) (\<lambda>(n, checks).
     act_bind (if oi_trigger i = Trig_resume then rescheduleAfterResume i e now else act_ret 0) (\<lambda>m.
       reconcile_entries i now es
         \<lparr>ta_scheduled = ta_scheduled t + n + m, ta_linked = ta_linked t + (if linked then 1 else 0), ta_checks = checks\<rparr>)))"

definition oob_skipped :: "string \<Rightarrow> oob_result" where
  "oob_skipped reason = \<lparr>or_done = False, or_reason = Some reason, or_supplierOwned = 0, or_scheduled = 0, or_linkedEvents = 0,
     or_slotChecksScheduled = 0, or_terminal = None\<rparr>"

definition owned_supplier :: "snapshot_entry list \<Rightarrow> snapshot_entry list" where
  "owned_supplier es = filter (\<lambda>e. se_signupSource e = Some Src_SUPPLIER \<and> se_ownedByCandidate e) es"

definition reconcile_snapshot :: "oob_input \<Rightarrow> string \<Rightarrow> snapshot_entry list \<Rightarrow> (oob_world, oob_result) act" where
  "reconcile_snapshot i phone es = act_bind oob_now (\<lambda>now.
     act_bind (reconcileTerminal i phone es (owned_supplier es)) (\<lambda>change.
     act_bind (reconcile_entries i now (owned_supplier es) \<lparr>ta_scheduled = 0, ta_linked = 0, ta_checks = 0\<rparr>) (\<lambda>t.
       act_ret \<lparr>or_done = True, or_reason = None, or_supplierOwned = length (owned_supplier es), or_scheduled = ta_scheduled t,
         or_linkedEvents = ta_linked t, or_slotChecksScheduled = ta_checks t, or_terminal = Some change\<rparr>)))"

definition reconcile_load :: "oob_input \<Rightarrow> string \<Rightarrow> string list \<Rightarrow> load_input" where
  "reconcile_load i phone names = \<lparr>li_phone = Some phone, li_botImId = oi_botImId i, li_corpId = oi_corpId i, li_userId = oi_userId i,
     li_knownCandidateNames = map Some names, li_bypassCache = (oi_trigger i \<noteq> Trig_turn)\<rparr>"

definition reconcile :: "oob_input \<Rightarrow> (oob_world, oob_result) act" where
  "reconcile i = act_bind (resolveIdentity i) (\<lambda>(ph, names). case ph of None \<Rightarrow> act_ret (oob_skipped ''no_phone'')
     | Some phone \<Rightarrow> act_bind (loadSnapshot oob_ports (reconcile_load i phone names)) (\<lambda>r. case r of
           Loaded c _ \<Rightarrow> reconcile_snapshot i phone (cr_entries c)
         | Skipped_no_token \<Rightarrow> act_ret (oob_skipped ''skipped_no_token'')
         | Skipped_no_phone \<Rightarrow> act_ret (oob_skipped ''skipped_no_phone'')
         | Load_failed _ _ \<Rightarrow> act_ret (oob_skipped ''failed'')))"

definition reconcileAfterTurn :: "oob_input \<Rightarrow> (oob_world, unit) act" where
  "reconcileAfterTurn i = act_catch (act_bind (reconcile (i\<lparr>oi_trigger := Trig_turn\<rparr>)) (\<lambda>_. act_ret ())) (\<lambda>_. act_ret ())"

definition lookupByChat :: "string \<Rightarrow> (oob_world, index_record option) act" where
  "lookupByChat chat = (if trim chat = [] then act_ret None else or_none (oob_read (\<lambda>w. os_index (ow_sources w) (trim chat))))"

definition reconcileAfterResume :: "string \<Rightarrow> (oob_world, oob_result option) act" where
  "reconcileAfterResume chat = act_catch (act_bind (lookupByChat chat) (\<lambda>x. case x of None \<Rightarrow> act_ret None
     | Some r \<Rightarrow> act_bind (reconcile \<lparr>oi_corpId = ix_corpId r, oi_userId = ix_userId r, oi_chatId = ix_chatId r, oi_botImId = ix_botImId r,
         oi_botUserId = ix_botUserId r, oi_phone = Some (ix_phone r), oi_channelIdentity = None, oi_trigger = Trig_resume,
         oi_bookingSucceededThisTurn = False, oi_maxSlotChecks = None\<rparr>) (\<lambda>y. act_ret (Some y)))) (\<lambda>_. act_ret None)"

end
