(* ===== verification/OobOnce.thy ===== *)
theory OobOnce
  imports OobReconcile FollowUpOnce
begin

text \<open>
  What the reconciliation of outside signups promises.  A reminder is asked for at most once in thirty days, however
  often and wherever the same order is seen: the interface is the locale \<open>claimed_request\<close>, a claim that one caller wins
  and a request that only the winner makes; the markers in Redis give it.  And a session that is booked is set free only
  on the answer of the platform that no order is open.
\<close>

section \<open>The interface\<close>

locale claimed_request =
  fixes claim :: "string \<Rightarrow> ('w, bool) act" and key :: string and late fair held :: "'w \<Rightarrow> bool" and made :: "'w \<Rightarrow> nat"
  assumes claim_keeps: "stays (view late fair held made n b) (claim k)"
    and claim_grants: "fair w \<Longrightarrow> claim key w = (Inr True, w') \<Longrightarrow> \<not> late w' \<Longrightarrow> \<not> held w \<and> held w'"
begin

abbreviation "seen \<equiv> view late fair held made"

definition once :: "'w \<Rightarrow> bool" where
  "once w \<longleftrightarrow> seen 0 False w \<or> seen 1 True w"

lemma once_stays: "(\<And>n b. stays (seen n b) m) \<Longrightarrow> stays once m"
  unfolding once_def stays_def by blast

lemma held_stays: "(\<And>n b. stays (seen n b) m) \<Longrightarrow> triple (seen 0 True) m (\<lambda>_. once) (\<lambda>_. once)"
  unfolding once_def triple_def stays_def view_def by (fastforce split: prod.split sum.split)

text \<open>What the winner of the key does is a step from a held key without a request to one with at most one.\<close>

lemma claim_decides:
  assumes lose: "\<And>n b. stays (seen n b) lose"
    and other: "k \<noteq> key \<Longrightarrow> (\<And>n b. stays (seen n b) win)"
    and winner: "k = key \<Longrightarrow> triple (seen 0 True) win (\<lambda>_. once) (\<lambda>_. once)"
  shows "stays once (act_bind (claim k) (\<lambda>first. if \<not> first then lose else win))"
  unfolding stays_triple
proof (rule triple_bind)
  let ?won = "\<lambda>first w. if first \<and> k = key then seen 0 True w else once w"
  show "triple once (claim k) ?won (\<lambda>_. once)"
  proof (rule tripleI)
    fix s e s' assume "once s" "claim k s = (Inl e, s')"
    then show "once s'" using once_stays [OF claim_keeps] by (meson staysD)
  next
    fix s v s' assume s: "once s" and c: "claim k s = (Inr v, s')"
    have o: "once s'" using once_stays [OF claim_keeps] s c by (meson staysD)
    show "?won v s'"
    proof (cases "v \<and> k = key \<and> \<not> late s'")
      case True
      have g: "fair s \<Longrightarrow> \<not> held s \<and> held s'" using claim_grants [of s s'] c True by auto
      consider "late s" | "fair s" "made s = 0" | "fair s" "held s"
        using s by (auto simp: once_def view_def)
      then show ?thesis
      proof cases
        case 1
        then have "seen 5 True s" by (simp add: view_def)
        moreover have "seen 6 True s" using 1 by (simp add: view_def)
        ultimately have "seen 5 True s'" "seen 6 True s'" using claim_keeps c by (meson staysD)+
        then show ?thesis using True by (auto simp: view_def)
      next
        case 2
        then have "seen 0 False s" by (simp add: view_def)
        then have "seen 0 False s'" using claim_keeps c by (meson staysD)
        then show ?thesis using g 2 True by (simp add: view_def)
      next
        case 3 then show ?thesis using g by simp
      qed
    next
      case False then show ?thesis using o by (auto simp: view_def)
    qed
  qed
  fix v show "triple (?won v) (if \<not> v then lose else win) (\<lambda>_. once) (\<lambda>_. once)"
  proof (cases "v \<and> k = key")
    case True then show ?thesis using winner by simp
  next
    case False
    then have "stays once (if \<not> v then lose else win)" using once_stays [OF lose] once_stays [OF other] by (cases v) auto
    then show ?thesis using False by (auto simp: stays_triple)
  qed
qed

end

section \<open>The markers in Redis\<close>

definition late_at :: "int \<Rightarrow> oob_world \<Rightarrow> bool" where
  "late_at T w \<longleftrightarrow> T + ANCHOR_MARKER_TTL_SECONDS * 1000 \<le> clock_of w"

definition fair_at :: "int \<Rightarrow> oob_world \<Rightarrow> bool" where
  "fair_at T w \<longleftrightarrow> T \<le> clock_of w"

definition held_at :: "int \<Rightarrow> string \<Rightarrow> oob_world \<Rightarrow> bool" where
  "held_at T k w \<longleftrightarrow> anchor_key k \<and> (\<exists>v expires. ow_store w k = Some (v, expires) \<and> T + ANCHOR_MARKER_TTL_SECONDS * 1000 \<le> expires)"

definition requests :: "string \<Rightarrow> scenario_code \<Rightarrow> oob_world \<Rightarrow> nat" where
  "requests k c w = length (filter ((=) (Requested k c)) (ow_log w))"

abbreviation "anchored T k c \<equiv> view (late_at T) (fair_at T) (held_at T k) (requests k c)"

lemma anchored_step:
  assumes "anchored T k c n b w" "clock_of w \<le> clock_of w'" "requests k c w' = requests k c w"
    and "held_at T k w \<Longrightarrow> \<not> late_at T w \<Longrightarrow> held_at T k w'"
  shows "anchored T k c n b w'"
  using assms by (auto simp: view_def late_at_def fair_at_def)

lemma held_live: "held_at T k w \<Longrightarrow> \<not> late_at T w \<Longrightarrow> live k w \<noteq> None"
  by (auto simp: held_at_def late_at_def live_def)

lemma elsewhere_anchored: "anchored T k c n b w \<Longrightarrow> anchored T k c n b (elsewhere e w)"
proof (cases e)
  case (Claimed_elsewhere k' t)
  moreover assume "anchored T k c n b w"
  ultimately show ?thesis
    by (elim anchored_step) (auto simp: put_def requests_def held_at_def late_at_def live_def split: option.splits if_splits)
next
  case (Stored_elsewhere k' v s)
  moreover assume "anchored T k c n b w"
  ultimately show ?thesis by (elim anchored_step) (auto simp: put_def requests_def held_at_def)
qed (auto elim!: anchored_step simp: requests_def held_at_def)

lemma fold_elsewhere_anchored: "anchored T k c n b w \<Longrightarrow> anchored T k c n b (fold elsewhere es w)"
  by (induction es arbitrary: w) (simp_all add: elsewhere_anchored)

lemma call_anchored: "anchored T k c n b w \<Longrightarrow> oob_call w = (a, w1) \<Longrightarrow> anchored T k c n b w1"
proof -
  assume w: "anchored T k c n b w" and a: "oob_call w = (a, w1)"
  have "anchored T k c n b (passing d (w\<lparr>ow_calls := cs\<rparr>))" for d cs
    using w by (rule anchored_step) (auto simp: passing_def requests_def held_at_def)
  then show ?thesis using w a by (auto simp: oob_call_def fold_elsewhere_anchored split: list.splits prod.splits)
qed

lemma read_anchored [stays_intro]: "stays (anchored T k c n b) (oob_read f)"
  by (rule staysI) (auto simp: oob_read_def call_anchored split: prod.splits)

lemma write_anchored:
  "(\<And>w. anchored T k c n b w \<Longrightarrow> anchored T k c n b (snd (f w))) \<Longrightarrow> stays (anchored T k c n b) (oob_write f)"
  by (rule staysI) (auto simp: oob_write_def split: prod.splits if_splits dest: call_anchored; metis call_anchored snd_conv)

lemma small_anchored [stays_intro]: "stays (anchored T k c n b) oob_now"
    "(\<And>w. anchored T k c n b w \<Longrightarrow> anchored T k c n b (f w)) \<Longrightarrow> stays (anchored T k c n b) (eff f)"
  by (simp_all add: stays_def oob_now_def eff_def)

lemma say_anchored: "e \<noteq> Requested k c \<Longrightarrow> anchored T k c n b w \<Longrightarrow> anchored T k c n b (say e w)"
  by (erule anchored_step) (auto simp: say_def requests_def held_at_def)

lemma set_key_anchored: "\<not> anchor_key k' \<Longrightarrow> stays (anchored T k c n b) (set_key k' v s)"
  unfolding set_key_def by (rule write_anchored) (auto elim!: anchored_step simp: put_def requests_def held_at_def)

lemma del_keys_anchored: "(\<And>x. x \<in> set ks \<Longrightarrow> \<not> anchor_key x) \<Longrightarrow> stays (anchored T k c n b) (del_keys ks)"
  unfolding del_keys_def by (rule write_anchored) (auto elim!: anchored_step simp: requests_def held_at_def)

lemma setNx_anchored: "stays (anchored T k c n b) (setNx k' t ANCHOR_MARKER_TTL_SECONDS)"
  unfolding setNx_def
  by (rule write_anchored) (auto elim!: anchored_step simp: say_def put_def requests_def held_at_def fair_at_def late_at_def live_def)

definition claim_marker :: "string \<Rightarrow> (oob_world, bool) act" where
  "claim_marker k = act_catch (act_bind oob_now (\<lambda>t. setNx k t ANCHOR_MARKER_TTL_SECONDS)) (\<lambda>_. act_ret False)"

lemma claimAnchor_marker: "claimAnchor chat anchor = claim_marker (anchorMarkerKey chat anchor)"
  by (simp add: claimAnchor_def claim_marker_def)

lemma claim_marker_anchored [stays_intro]: "stays (anchored T k c n b) (claim_marker k')"
  unfolding claim_marker_def by (intro stays_intro setNx_anchored)

lemma claim_marker_grants:
  assumes "fair_at T w" "claim_marker k w = (Inr True, w')" "\<not> late_at T w'" "anchor_key k"
  shows "\<not> held_at T k w \<and> held_at T k w'"
proof -
  obtain w1 where w1: "oob_call w = (Done, w1)" "live k w1 = None" "w' = say (Claimed k) (put k (Stamp (clock_of w)) ANCHOR_MARKER_TTL_SECONDS w1)"
    using assms(2) by (auto simp: claim_marker_def oob_now_def setNx_def oob_write_def act_catch_def act_bind_def
        split: prod.splits sum.splits if_splits)
  have nl: "\<not> late_at T w1" using assms(3) w1(3) by (simp add: late_at_def say_def put_def)
  have f: "anchored T k undefined (requests k undefined w) False w" using assms(1) by (simp add: view_def)
  have "fair_at T w1" using call_anchored [OF f w1(1)] nl by (simp add: view_def)
  moreover have "\<not> held_at T k w"
  proof
    assume "held_at T k w"
    then have "anchored T k undefined (requests k undefined w) True w" using assms(1) by (simp add: view_def)
    from call_anchored [OF this w1(1)] nl have "held_at T k w1" by (simp add: view_def)
    from held_live [OF this nl] w1(2) show False by simp
  qed
  ultimately show ?thesis
    using w1(3) assms(4) by (auto simp: held_at_def say_def put_def fair_at_def)
qed

lemma anchor_key_marker [simp]: "anchor_key (anchorMarkerKey chat anchor)"
  by (simp add: anchor_key_def anchorMarkerKey_def)

interpretation markers: claimed_request claim_marker "anchorMarkerKey chat anchor" "late_at T" "fair_at T"
    "held_at T (anchorMarkerKey chat anchor)" "requests (anchorMarkerKey chat anchor) c"
  by unfold_locales (simp_all add: claim_marker_anchored claim_marker_grants)

section \<open>The parts that request nothing\<close>

lemma queue_time: "stays (\<lambda>q. t \<le> fw_time q) (queue_read f)" "stays (\<lambda>q. t \<le> fw_time q) (queue_write g)"
  "stays (\<lambda>q. t \<le> fw_time q) (track e)" "stays (\<lambda>q. t \<le> fw_time q) now_ms"
  by (rule staysI, auto simp: queue_read_def queue_write_def queue_request_def track_def now_ms_def split: list.splits prod.splits if_splits)+

lemma scheduler_time:
  "stays (\<lambda>q. t \<le> fw_time q) (scheduleFollowUp si)" "stays (\<lambda>q. t \<le> fw_time q) (scheduleInterviewSlotCheck r wo s ch)"
  "stays (\<lambda>q. t \<le> fw_time q) (scheduleBookingResolution r c wo anchor s ch)"
proof -
  have a: "stays (\<lambda>q. t \<le> fw_time q) (addJob k d n)" "stays (\<lambda>q. t \<le> fw_time q) (getJob k)" for k d n
    unfolding addJob_def getJob_def by (rule queue_time)+
  have r: "stays (\<lambda>q. t \<le> fw_time q) (remove_loop i s cur es)" for i s cur es
    by (induction i s cur es rule: remove_loop.induct)
      (auto simp: trackRemovedPendingJob_def removeJob_def intro!: stays_intro queue_time)
  show "stays (\<lambda>q. t \<le> fw_time q) (scheduleFollowUp si)"
    unfolding scheduleFollowUp_def skip_touch_def schedule_checked_def enqueue_touch_def get_config_def getJobs_def
      removeSupersededPendingJobsBeforeEnqueue_def
    by (intro stays_intro r a queue_time)
  show "stays (\<lambda>q. t \<le> fw_time q) (scheduleInterviewSlotCheck r wo s ch)"
    unfolding scheduleInterviewSlotCheck_def isEnabled_def get_config_def schedule_check_job_def
    by (intro stays_intro a queue_time)
  show "stays (\<lambda>q. t \<le> fw_time q) (scheduleBookingResolution r c wo anchor s ch)"
    unfolding scheduleBookingResolution_def isEnabled_def get_config_def by (intro stays_intro a queue_time)
qed

lemma in_queue_anchored:
  assumes "\<And>t. stays (\<lambda>q. t \<le> fw_time q) m"
  shows "stays (anchored T k c n b) (in_queue m)"
proof (rule staysI)
  fix w r w' assume w: "anchored T k c n b w" "in_queue m w = (r, w')"
  then have "clock_of w \<le> clock_of w'"
    using assms [of "clock_of w"] by (auto simp: in_queue_def stays_def split: prod.splits)
  then show "anchored T k c n b w'"
    using w by (auto elim!: anchored_step simp: in_queue_def requests_def held_at_def split: prod.splits)
qed

lemma no_anchor_keys [simp]: "\<not> anchor_key (oobBookedMarkerKey chat)" "\<not> anchor_key (snapshotCacheKey b p)" "\<not> anchor_key (candidateCacheKey u v)"
  by (simp_all add: anchor_key_def oobBookedMarkerKey_def snapshotCacheKey_def candidateCacheKey_def)

lemma ports_anchored:
  shows "stays (anchored T k c n b) (sp_token oob_ports x)" "stays (anchored T k c n b) (sp_get oob_ports x)"
    "\<not> anchor_key x \<Longrightarrow> stays (anchored T k c n b) (sp_setex oob_ports x s r)" "stays (anchored T k c n b) (sp_fetch oob_ports p x)"
    "stays (anchored T k c n b) (eff (sp_set_circuit oob_ports x y))"
  unfolding oob_ports_def
  by (auto intro!: stays_intro set_key_anchored say_anchored elim!: anchored_step simp: requests_def held_at_def)

lemma snapshot_anchored:
  shows "stays (anchored T k c n b) (loadSnapshot oob_ports li)" "stays (anchored T k c n b) (hasOpenWorkOrders oob_ports ph im)"
proof -
  note p = ports_anchored
  have pure: "stays J (\<lambda>w. (Inr (f w), w))" for J :: "oob_world \<Rightarrow> bool" and f :: "oob_world \<Rightarrow> 'b" by (simp add: stays_def)
  have rf: "stays (anchored T k c n b) (recordFailure oob_ports x now)" for x now
    using ports_anchored(5) [of T k c n b x] by (auto simp: stays_def recordFailure_def eff_def split: prod.split)
  have op: "stays (anchored T k c n b) (isCircuitOpen oob_ports x now)" for x now
    by (simp add: stays_def isCircuitOpen_def)
  have wc: "\<forall>x\<in>set ks. \<not> anchor_key x \<Longrightarrow> stays (anchored T k c n b) (writeCache oob_ports ks r ttl)" for ks r ttl
    by (induction oob_ports ks r ttl rule: writeCache.induct) (auto intro!: stays_intro p)
  have at: "stays (anchored T k c n b) (account_token oob_ports x)" for x unfolding account_token_def by (intro stays_intro p)
  have lf: "stays (anchored T k c n b) (load_fresh oob_ports li x y now)" for x y now
    unfolding load_fresh_def by (intro stays_intro p rf op wc) simp
  show "stays (anchored T k c n b) (loadSnapshot oob_ports li)"
    unfolding loadSnapshot_def readCache_def by (intro stays_intro pure at p lf wc) simp
  show "stays (anchored T k c n b) (hasOpenWorkOrders oob_ports ph im)"
    unfolding hasOpenWorkOrders_def by (intro stays_intro pure at p rf op)
qed

lemma quiet_anchored:
  shows "stays (anchored T k c n b) (resolveIdentity i)" "stays (anchored T k c n b) (reconcileTerminal i ph es os)"
    "stays (anchored T k c n b) (recordLinkedEvent e)" "stays (anchored T k c n b) (isAnchorClaimed chat anchor)"
    "stays (anchored T k c n b) resolveReminderLeadMinutes" "stays (anchored T k c n b) (lookupByChat chat)"
proof -
  show "stays (anchored T k c n b) (resolveIdentity i)"
    unfolding resolveIdentity_def session_names_def profile_key_def by (intro stays_intro)
  have sv: "stays (anchored T k c n b) (save_terminal r t)" for r t
    unfolding save_terminal_def
    by (rule write_anchored) (auto elim!: anchored_step simp: say_def requests_def held_at_def)
  show "stays (anchored T k c n b) (reconcileTerminal i ph es os)"
    unfolding reconcileTerminal_def clear_terminal_def isOobBooked_def markOobBooked_def clearOobBookedMarker_def get_stamp_def
    by (intro stays_intro snapshot_anchored sv set_key_anchored del_keys_anchored say_anchored) auto
  show "stays (anchored T k c n b) (recordLinkedEvent e)"
    unfolding recordLinkedEvent_def
    by (intro stays_intro write_anchored) (auto elim!: anchored_step simp: requests_def held_at_def)
  show "stays (anchored T k c n b) (isAnchorClaimed chat anchor)" unfolding isAnchorClaimed_def get_stamp_def by (intro stays_intro)
  show "stays (anchored T k c n b) resolveReminderLeadMinutes" unfolding resolveReminderLeadMinutes_def by (intro stays_intro)
  show "stays (anchored T k c n b) (lookupByChat chat)" unfolding lookupByChat_def by (intro stays_intro)
qed

section \<open>A reminder is asked for once\<close>

abbreviation "asked_once T chat anchor c \<equiv> claimed_request.once (late_at T) (fair_at T) (held_at T (anchorMarkerKey chat anchor))
  (requests (anchorMarkerKey chat anchor) c)"

lemmas quiet_once = quiet_anchored [THEN markers.once_stays] snapshot_anchored [THEN markers.once_stays]

lemma request_other:
  assumes "\<And>t. stays (\<lambda>q. t \<le> fw_time q) m" "anchorMarkerKey chat' anchor' \<noteq> k \<or> c' \<noteq> c"
  shows "stays (anchored T k c n b) (request chat' anchor' c' m)"
  unfolding request_def by (intro stays_intro in_queue_anchored assms(1) say_anchored) (use assms(2) in auto)

lemma request_first:
  assumes "\<And>t. stays (\<lambda>q. t \<le> fw_time q) m"
  shows "triple (anchored T k c 0 True) (request chat anchor c m)
    (\<lambda>_. anchored T k c (if anchorMarkerKey chat anchor = k then 1 else 0) True)
    (\<lambda>_. anchored T k c (if anchorMarkerKey chat anchor = k then 1 else 0) True)"
  unfolding request_def
proof (rule triple_bind)
  show "triple (anchored T k c 0 True) (eff (say (Requested (anchorMarkerKey chat anchor) c)))
      (\<lambda>_. anchored T k c (if anchorMarkerKey chat anchor = k then 1 else 0) True)
      (\<lambda>_. anchored T k c (if anchorMarkerKey chat anchor = k then 1 else 0) True)"
    by (auto simp: triple_def eff_def view_def say_def requests_def held_at_def late_at_def fair_at_def)
qed (use in_queue_anchored [OF assms] in \<open>simp add: stays_triple\<close>)

lemma ask_both_anchored:
  assumes "anchorMarkerKey (oi_chatId i) anchor \<noteq> k \<or> c \<notin> set cs"
  shows "stays (anchored T k c n b) (ask_both i e anchor t cs m)"
  using assms
proof (induction i e anchor t cs m rule: ask_both.induct)
  case (2 i e anchor t c' cs m)
  have "stays (anchored T k c n b) (request (oi_chatId i) anchor c' (scheduleBookingResolution r c' wo x t ch))" for r wo x ch
    by (rule request_other [OF scheduler_time(3)]) (use 2(2) in auto)
  then show ?case using 2 by (auto intro!: stays_intro)
qed (simp add: stays_ret)

lemma asked_onceI: "anchored T (anchorMarkerKey chat anchor) c 0 b w \<or> anchored T (anchorMarkerKey chat anchor) c 1 True w \<Longrightarrow> asked_once T chat anchor c w"
  by (auto simp: markers.once_def view_def)

lemma ask_both_first:
  assumes "distinct cs" "anchorMarkerKey (oi_chatId i) anchor' = anchorMarkerKey chat anchor"
  shows "triple (anchored T (anchorMarkerKey chat anchor) c 0 True) (ask_both i e anchor' t cs m)
    (\<lambda>_. asked_once T chat anchor c) (\<lambda>_. asked_once T chat anchor c)"
  using assms(1)
proof (induction cs arbitrary: m)
  case Nil
  show ?case unfolding ask_both.simps by (rule triple_ret) (use asked_onceI in blast)
next
  case (Cons c' cs)
  let ?J = "\<lambda>n. anchored T (anchorMarkerKey chat anchor) c n True"
  let ?m = "request (oi_chatId i) anchor' c'
    (scheduleBookingResolution (oob_session i) c' (se_workOrderId e) (anchor_event anchor' c') t (oi_channelIdentity i))"
  show ?case
  proof (cases "c' = c")
    case True
    have rest: "triple (?J 1) (ask_both i e anchor' t cs m') (\<lambda>_. asked_once T chat anchor c) (\<lambda>_. asked_once T chat anchor c)" for m'
      using ask_both_anchored [of i anchor' "anchorMarkerKey chat anchor" c cs T 1 True e t m'] True Cons.prems
      by (auto simp: stays_triple intro: asked_onceI elim!: triple_conseq)
    have "triple (?J 0) ?m (\<lambda>_. ?J 1) (\<lambda>_. ?J 1)"
      using request_first [OF scheduler_time(3), of T "anchorMarkerKey chat anchor" c "oi_chatId i" anchor'] assms(2) True
      by simp
    then have "triple (?J 0) ?m (\<lambda>_. ?J 1) (\<lambda>_. asked_once T chat anchor c)"
      by (rule triple_conseq) (use asked_onceI in blast)+
    then show ?thesis unfolding ask_both.simps by (rule triple_bind [OF _ rest])
  next
    case False
    have "stays (?J 0) ?m" by (rule request_other [OF scheduler_time(3)]) (use False in simp)
    then have "triple (?J 0) ?m (\<lambda>_. ?J 0) (\<lambda>_. asked_once T chat anchor c)"
      unfolding stays_triple by (rule triple_conseq) (use asked_onceI in blast)+
    then show ?thesis unfolding ask_both.simps by (rule triple_bind) (use Cons in simp)
  qed
qed

lemma follow_ups_once: "stays (asked_once T chat anchor c) (scheduleFollowUps i e now checks)"
proof -
  let ?k = "anchorMarkerKey (oi_chatId i) (buildReconcileAnchorKey e False)"
  let ?u = "\<lambda>s. act_bind (request (oi_chatId i) (buildReconcileAnchorKey e False) Interview_reminder
       (scheduleFollowUp (untimed_input i e (buildReconcileAnchorKey e False) s)))
     (\<lambda>_. act_bind (in_queue (scheduleInterviewSlotCheck (oob_session i) (se_workOrderId e) s (oi_channelIdentity i)))
     (\<lambda>r. act_ret (0, if res_scheduled r then checks + 1 else checks)))"
  let ?t = "\<lambda>s. act_bind (ask_both i e (buildReconcileAnchorKey e False) s [Interview_reminder, Post_interview_followup] 0)
     (\<lambda>n. act_ret (n, checks))"
  let ?K = "anchorMarkerKey chat anchor"
  have other_u: "stays (anchored T ?K c n b) (?u s)" if "?k \<noteq> ?K" for s n b
    by (intro stays_intro request_other in_queue_anchored scheduler_time) (simp add: that)
  have other_t: "stays (anchored T ?K c n b) (?t s)" if "?k \<noteq> ?K" for s n b
    by (intro stays_intro ask_both_anchored) (simp add: that)
  have tail: "stays (anchored T ?K c n b) (act_bind (in_queue (scheduleInterviewSlotCheck (oob_session i) (se_workOrderId e) s (oi_channelIdentity i)))
     (\<lambda>r. act_ret (0, if res_scheduled r then checks + 1 else checks)))" for s n b
    by (intro stays_intro in_queue_anchored scheduler_time)
  have u: "triple (anchored T ?K c 0 True) (?u s) (\<lambda>_. asked_once T chat anchor c) (\<lambda>_. asked_once T chat anchor c)" if k: "?k = ?K" for s
  proof -
    let ?m = "request (oi_chatId i) (buildReconcileAnchorKey e False) Interview_reminder
       (scheduleFollowUp (untimed_input i e (buildReconcileAnchorKey e False) s))"
    define n :: nat where "n = (if c = Interview_reminder then 1 else 0)"
    have m: "triple (anchored T ?K c 0 True) ?m (\<lambda>_. anchored T ?K c n True) (\<lambda>_. anchored T ?K c n True)"
    proof (cases "c = Interview_reminder")
      case True
      then show ?thesis using request_first [OF scheduler_time(1), of T ?K c "oi_chatId i" "buildReconcileAnchorKey e False"] k
        by (simp add: n_def)
    next
      case False
      have "stays (anchored T ?K c 0 True) ?m" by (rule request_other [OF scheduler_time(1)]) (use False in simp)
      then show ?thesis using False by (simp add: n_def stays_triple)
    qed
    have "triple (anchored T ?K c 0 True) (?u s) (\<lambda>_. anchored T ?K c n True) (\<lambda>_. anchored T ?K c n True)"
      by (rule triple_bind [OF m]) (use tail in \<open>simp add: stays_triple\<close>)
    then show ?thesis by (rule triple_conseq) (auto simp: n_def split: if_splits intro: asked_onceI)
  qed
  have t: "triple (anchored T ?K c 0 True) (?t s) (\<lambda>_. asked_once T chat anchor c) (\<lambda>_. asked_once T chat anchor c)" if "?k = ?K" for s
    by (rule triple_bind [OF ask_both_first [OF _ that]]) (simp_all add: triple_ret)
  show ?thesis
    unfolding scheduleFollowUps_def Let_def claimAnchor_marker
    by (intro stays_if stays_ret markers.claim_decides) (auto simp del: ask_both.simps intro: stays_intro other_u other_t u t)
qed


lemma reschedule_once: "stays (asked_once T chat anchor c) (rescheduleAfterResume i e now)"
  unfolding rescheduleAfterResume_def claimAnchor_marker
  by (intro stays_intro quiet_once markers.claim_decides ask_both_anchored ask_both_first) (simp_all del: ask_both.simps)

lemma entries_once: "stays (asked_once T chat anchor c) (reconcile_entries i now es t)"
proof (induction es arbitrary: t)
  case (Cons e es)
  show ?case
    unfolding reconcile_entries.simps by (intro stays_intro quiet_once follow_ups_once reschedule_once Cons)
qed (simp add: stays_ret)

lemma reconcile_once: "stays (asked_once T chat anchor c) (reconcile i)"
proof -
  have n: "stays (asked_once T chat anchor c) oob_now" by (rule markers.once_stays) (rule stays_intro)
  show ?thesis unfolding reconcile_def reconcile_snapshot_def
    by (intro stays_intro quiet_once entries_once n) (auto intro!: stays_intro quiet_once entries_once n split: load_result.split)
qed

section \<open>Histories\<close>

datatype oob_op = Reconcile oob_input | After_turn oob_input | After_resume string | Pass nat | Elsewhere oob_event

fun oob_do :: "oob_op \<Rightarrow> oob_world \<Rightarrow> oob_world" where
  "oob_do (Reconcile i) w = snd (reconcile i w)"
| "oob_do (After_turn i) w = snd (reconcileAfterTurn i w)"
| "oob_do (After_resume chat) w = snd (reconcileAfterResume chat w)"
| "oob_do (Pass d) w = passing d w"
| "oob_do (Elsewhere e) w = elsewhere e w"

definition oob_run :: "oob_op list \<Rightarrow> oob_world \<Rightarrow> oob_world" where
  "oob_run ops w = fold oob_do ops w"

lemma do_once: "asked_once T chat anchor c w \<Longrightarrow> asked_once T chat anchor c (oob_do p w)"
proof (cases p)
  case (Pass d)
  have "stays (asked_once T chat anchor c) (eff (passing d))"
    by (rule markers.once_stays) (auto intro!: stays_intro elim!: anchored_step simp: passing_def requests_def held_at_def)
  then show "asked_once T chat anchor c w \<Longrightarrow> ?thesis" using Pass by (simp add: stays_def eff_def)
next
  case (Elsewhere e)
  have "stays (asked_once T chat anchor c) (eff (elsewhere e))"
    by (rule markers.once_stays) (auto intro!: stays_intro elsewhere_anchored)
  then show "asked_once T chat anchor c w \<Longrightarrow> ?thesis" using Elsewhere by (simp add: stays_def eff_def)
next
  case (After_turn i)
  have "stays (asked_once T chat anchor c) (reconcileAfterTurn i)"
    unfolding reconcileAfterTurn_def by (intro stays_intro reconcile_once)
  then show "asked_once T chat anchor c w \<Longrightarrow> ?thesis" using After_turn by (simp add: stays_def)
next
  case (After_resume x)
  have "stays (asked_once T chat anchor c) (reconcileAfterResume x)"
    unfolding reconcileAfterResume_def by (intro stays_intro reconcile_once quiet_once)
  then show "asked_once T chat anchor c w \<Longrightarrow> ?thesis" using After_resume by (simp add: stays_def)
qed (use reconcile_once in \<open>auto simp: stays_def\<close>)

lemma run_once: "asked_once T chat anchor c w \<Longrightarrow> asked_once T chat anchor c (oob_run ops w)"
  unfolding oob_run_def by (induction ops arbitrary: w) (simp_all add: do_once)

text \<open>C25: whatever is reconciled, after turns, by the scan or when a hosting is resumed, on this process or elsewhere, whatever
  calls fail or end unheard, and however the work orders, the session and the queue change meanwhile: within thirty days the
  scheduler is asked at most once for one reminder of one anchor, that is of one work order at one interview time in one chat.  An
  anchor whose request failed is not asked for again either.\<close>

theorem reminder_asked_for_once:
  assumes "requests (anchorMarkerKey chat anchor) c w = 0"
    and "clock_of (oob_run ops w) < clock_of w + ANCHOR_MARKER_TTL_SECONDS * 1000"
  shows "requests (anchorMarkerKey chat anchor) c (oob_run ops w) \<le> 1"
proof -
  have "asked_once (clock_of w) chat anchor c w"
    using assms(1) by (intro asked_onceI [where b = False]) (simp add: view_def fair_at_def)
  then have "asked_once (clock_of w) chat anchor c (oob_run ops w)" by (rule run_once)
  then show ?thesis using assms(2) by (auto simp: markers.once_def view_def late_at_def)
qed

section \<open>A booked session is set free on evidence only\<close>

text \<open>What comes before the session is set free: the marker was found, and the orders that the platform answered are all closed.\<close>

definition evidence_for :: "oob_input \<Rightarrow> session_ref \<Rightarrow> oob_effect list \<Rightarrow> bool" where
  "evidence_for i r l \<longleftrightarrow> r = oob_session i \<and> \<not> (oi_trigger i = Trig_turn \<and> oi_bookingSucceededThisTurn i) \<and>
     (\<exists>l0 ph xs. l = l0 @ [Marker_read (oi_chatId i) True, Orders_read ph (trimmed (oi_botImId i)) xs] \<and>
        isStorableCandidatePhone (Some ph) \<and> \<not> hasLegacyOpenWorkOrders xs)"

definition freed_on_evidence :: "oob_input \<Rightarrow> oob_effect list \<Rightarrow> bool" where
  "freed_on_evidence i l \<longleftrightarrow> (\<forall>a r b. l = a @ Terminal_saved r None # b \<longrightarrow> evidence_for i r a)"

definition logged :: "oob_effect list \<Rightarrow> (oob_effect list \<Rightarrow> bool) \<Rightarrow> oob_world \<Rightarrow> bool" where
  "logged l0 Q w \<longleftrightarrow> (\<exists>l. ow_log w = l0 @ l \<and> Q l)"

abbreviation "justified l0 i \<equiv> logged l0 (freed_on_evidence i)"

lemma freed_Nil [simp]: "freed_on_evidence i []"
  by (simp add: freed_on_evidence_def)

lemma freed_snoc: "freed_on_evidence i (l @ [e]) \<longleftrightarrow> freed_on_evidence i l \<and> (\<forall>r. e = Terminal_saved r None \<longrightarrow> evidence_for i r l)"
proof
  assume f: "freed_on_evidence i (l @ [e])"
  then have "evidence_for i r a" if "l = a @ Terminal_saved r None # b" for a r b
    using that unfolding freed_on_evidence_def by (metis append_Cons append_assoc)
  then show "freed_on_evidence i l \<and> (\<forall>r. e = Terminal_saved r None \<longrightarrow> evidence_for i r l)"
    using f by (auto simp: freed_on_evidence_def)
next
  assume r: "freed_on_evidence i l \<and> (\<forall>r. e = Terminal_saved r None \<longrightarrow> evidence_for i r l)"
  show "freed_on_evidence i (l @ [e])"
    unfolding freed_on_evidence_def
  proof (intro allI impI)
    fix a s b assume "l @ [e] = a @ Terminal_saved s None # b"
    then show "evidence_for i s a" using r by (cases b rule: rev_cases) (auto simp: freed_on_evidence_def)
  qed
qed

lemma log_elsewhere [simp]: "ow_log (fold elsewhere es w) = ow_log w"
proof (induction es arbitrary: w)
  case (Cons e es)
  then show ?case by (cases e) (auto simp: put_def)
qed simp

lemma log_call: "oob_call w = (a, w1) \<Longrightarrow> ow_log w1 = ow_log w"
  by (auto simp: oob_call_def passing_def split: list.splits)

lemma log_read [stays_intro]: "stays (logged l0 Q) (oob_read f)"
  by (rule staysI) (auto simp: oob_read_def logged_def split: prod.splits dest: log_call)

lemma log_write: "(\<And>w. logged l0 Q w \<Longrightarrow> logged l0 Q (snd (f w))) \<Longrightarrow> stays (logged l0 Q) (oob_write f)"
  by (rule staysI) (auto simp: oob_write_def logged_def split: prod.splits if_splits dest!: log_call; metis snd_conv)

lemma log_eff: "(\<And>w. logged l0 Q w \<Longrightarrow> logged l0 Q (f w)) \<Longrightarrow> stays (logged l0 Q) (eff f)"
  by (simp add: stays_def eff_def)

lemma log_store [stays_intro]: "stays (logged l0 Q) (set_key k v s)" "stays (logged l0 Q) (del_keys ks)"
  unfolding set_key_def del_keys_def by (rule log_write, simp add: logged_def put_def)+

lemma log_quiet [stays_intro]: "stays (logged l0 Q) oob_now" "stays (logged l0 Q) (in_queue m)" "stays (logged l0 Q) (get_stamp k)"
    "stays (logged l0 Q) (\<lambda>w. (Inr (f w), w))" "stays (logged l0 Q) (isCircuitOpen oob_ports x now)"
    "stays (logged l0 Q) (recordFailure oob_ports x now)" "stays (logged l0 Q) (eff (sp_set_circuit oob_ports x y))"
    "stays (logged l0 Q) (sp_token oob_ports x)" "stays (logged l0 Q) (sp_get oob_ports x)" "stays (logged l0 Q) (sp_setex oob_ports x s r)"
  by (simp_all add: get_stamp_def oob_ports_def log_read log_store)
    (auto simp: stays_def oob_now_def in_queue_def eff_def recordFailure_def isCircuitOpen_def logged_def oob_ports_def split: prod.splits)

text \<open>Calls that may append an event, none of them the one that sets a session free.\<close>

lemma justified_say: "justified l0 i w \<Longrightarrow> (\<And>r. e \<noteq> Terminal_saved r None) \<Longrightarrow> justified l0 i (say e w)"
proof -
  assume "justified l0 i w" and e: "\<And>r. e \<noteq> Terminal_saved r None"
  then obtain l where "ow_log w = l0 @ l" "freed_on_evidence i l" by (auto simp: logged_def)
  then have "ow_log (say e w) = l0 @ (l @ [e])" "freed_on_evidence i (l @ [e])" using e by (auto simp: say_def freed_snoc)
  then show ?thesis unfolding logged_def by blast
qed

lemma justified_fetch [stays_intro]: "stays (justified l0 i) (sp_fetch oob_ports p x)"
  by (auto simp: oob_ports_def intro!: stays_intro log_eff justified_say)

lemma justified_account [stays_intro]: "stays (logged l0 Q) (account_token oob_ports x)"
  unfolding account_token_def by (intro stays_intro)

lemma justified_cache [stays_intro]: "stays (logged l0 Q) (writeCache oob_ports ks r ttl)"
  by (induction oob_ports ks r ttl rule: writeCache.induct) (auto intro!: stays_intro)

lemma justified_load [stays_intro]: "stays (justified l0 i) (loadSnapshot oob_ports li)"
  unfolding loadSnapshot_def load_fresh_def readCache_def by (intro stays_intro)

lemma justified_claim [stays_intro]: "stays (justified l0 i) (claim_marker k)"
proof -
  have "stays (justified l0 i) (setNx k t s)" for t s
    unfolding setNx_def
  proof (rule log_write)
    fix w assume "justified l0 i w"
    then have "justified l0 i (put k (Stamp t) s w)" by (simp add: logged_def put_def)
    from justified_say [OF this] show "justified l0 i (snd (if live k w = None then (True, say (Claimed k) (put k (Stamp t) s w)) else (False, w)))"
      using \<open>justified l0 i w\<close> by simp
  qed
  then show ?thesis unfolding claim_marker_def by (intro stays_intro)
qed

lemma justified_request [stays_intro]: "stays (justified l0 i) (request chat anchor c m)"
  unfolding request_def by (intro stays_intro log_eff justified_say) simp_all

lemma justified_ask [stays_intro]: "stays (justified l0 i) (ask_both j e anchor t cs m)"
  by (induction j e anchor t cs m rule: ask_both.induct) (auto intro!: stays_intro)

lemma justified_entries [stays_intro]: "stays (justified l0 i) (reconcile_entries j now es t)"
proof (induction es arbitrary: t)
  case (Cons e es)
  have ev: "stays (justified l0 i) (recordLinkedEvent e)"
    unfolding recordLinkedEvent_def by (intro stays_intro log_write) (auto simp: logged_def)
  show ?case
    unfolding reconcile_entries.simps scheduleFollowUps_def rescheduleAfterResume_def resolveReminderLeadMinutes_def isAnchorClaimed_def
      claimAnchor_marker
    by (intro stays_intro Cons ev)
qed (simp add: stays_ret)

section \<open>Setting a session free\<close>

text \<open>The log while it is decided: nothing yet, the marker found, the orders answered.\<close>

abbreviation "found l0 i \<equiv> logged l0 (\<lambda>l. freed_on_evidence i l \<and> (\<exists>a. l = a @ [Marker_read (oi_chatId i) True]))"
abbreviation "answered l0 i \<equiv> logged l0 (\<lambda>l. freed_on_evidence i l \<and> evidence_for i (oob_session i) l)"

lemma found_justified: "found l0 i w \<Longrightarrow> justified l0 i w" and answered_justified: "answered l0 i w \<Longrightarrow> justified l0 i w"
  by (auto simp: logged_def)

lemma marker_found:
  "triple (justified l0 i) (isOobBooked (oi_chatId i)) (\<lambda>v. if v then found l0 i else justified l0 i) (\<lambda>_. justified l0 i)"
proof (rule tripleI)
  fix w v w' assume w: "justified l0 i w" and m: "isOobBooked (oi_chatId i) w = (Inr v, w')"
  then consider w1 x where "get_stamp (oobBookedMarkerKey (oi_chatId i)) w = (Inr x, w1)" "v = (x \<noteq> None)" "w' = say (Marker_read (oi_chatId i) v) w1"
    | w1 e where "get_stamp (oobBookedMarkerKey (oi_chatId i)) w = (Inl e, w1)" "v = False" "w' = w1"
    by (auto simp: isOobBooked_def act_catch_def act_bind_def eff_def split: prod.splits sum.splits)
  then show "(if v then found l0 i else justified l0 i) w'"
  proof cases
    case 1
    have "justified l0 i w1" using staysD [OF log_quiet(3) w 1(1)] .
    then obtain l where l: "ow_log w1 = l0 @ l" "freed_on_evidence i l" by (auto simp: logged_def)
    then have "ow_log w' = l0 @ (l @ [Marker_read (oi_chatId i) v])" using 1(3) by (simp add: say_def)
    then show ?thesis using l(2) by (cases v) (auto simp: logged_def freed_snoc)
  next
    case 2 then show ?thesis using staysD [OF log_quiet(3) w 2(1)] by simp
  qed
next
  fix w e w' assume "isOobBooked (oi_chatId i) w = (Inl e, w')"
  then show "justified l0 i w'" by (auto simp: isOobBooked_def act_catch_def split: prod.splits sum.splits)
qed

lemma orders_answered:
  assumes "isStorableCandidatePhone (Some ph)" "\<not> (oi_trigger i = Trig_turn \<and> oi_bookingSucceededThisTurn i)"
  shows "triple (found l0 i) (sp_fetch oob_ports ph (trimmed (oi_botImId i)))
    (\<lambda>x. if hasLegacyOpenWorkOrders (snd x) then justified l0 i else answered l0 i) (\<lambda>_. justified l0 i)"
proof (rule tripleI)
  fix w x w' assume w: "found l0 i w" and f: "sp_fetch oob_ports ph (trimmed (oi_botImId i)) w = (Inr x, w')"
  obtain w1 where c: "oob_call w = (Done, w1)" "w' = say (Orders_read ph (trimmed (oi_botImId i)) (snd x)) w1"
    using f by (auto simp: oob_ports_def act_bind_def oob_read_def eff_def split: prod.splits sum.splits if_splits)
  obtain a where a: "ow_log w = l0 @ (a @ [Marker_read (oi_chatId i) True])" "freed_on_evidence i (a @ [Marker_read (oi_chatId i) True])"
    using w by (auto simp: logged_def)
  let ?l = "(a @ [Marker_read (oi_chatId i) True]) @ [Orders_read ph (trimmed (oi_botImId i)) (snd x)]"
  have l: "ow_log w' = l0 @ ?l" using c a(1) by (simp add: say_def log_call)
  have g: "freed_on_evidence i ?l" using a(2) by (simp only: freed_snoc) simp
  have "evidence_for i (oob_session i) ?l" if "\<not> hasLegacyOpenWorkOrders (snd x)"
    using assms that by (auto simp: evidence_for_def)
  then show "(if hasLegacyOpenWorkOrders (snd x) then justified l0 i else answered l0 i) w'"
    using l g unfolding logged_def by (auto simp del: append_assoc)
next
  fix w e w' assume w: "found l0 i w" and f: "sp_fetch oob_ports ph (trimmed (oi_botImId i)) w = (Inl e, w')"
  then show "justified l0 i w'" using staysD [OF justified_fetch found_justified [OF w]] by blast
qed

lemma open_orders_answered:
  assumes "\<not> (oi_trigger i = Trig_turn \<and> oi_bookingSucceededThisTurn i)"
  shows "triple (found l0 i) (hasOpenWorkOrders oob_ports ph (oi_botImId i))
    (\<lambda>v. if v = Some False then answered l0 i else justified l0 i) (\<lambda>_. justified l0 i)" (is "triple _ _ ?Q _")
proof -
  have keep: "triple (found l0 i) m (\<lambda>_. found l0 i) (\<lambda>_. justified l0 i)" if "\<And>Q. stays (logged l0 Q) m" for m :: "(oob_world, 'b) act"
  proof -
    have "triple (found l0 i) m (\<lambda>_. found l0 i) (\<lambda>_. found l0 i)" unfolding stays_triple [symmetric] by (rule that)
    then show ?thesis by (rule triple_conseq) (auto intro: found_justified)
  qed
  have none: "triple (found l0 i) (act_ret None) ?Q (\<lambda>_. justified l0 i)" by (rule triple_ret) (simp add: found_justified)
  have failed: "triple (justified l0 i) (act_bind (recordFailure oob_ports x now) (\<lambda>_. act_ret None)) ?Q (\<lambda>_. justified l0 i)" for x now
    by (rule triple_bind [OF log_quiet(6) [unfolded stays_triple]]) (simp add: triple_ret)
  have asked: "triple (found l0 i) (act_bind (sp_fetch oob_ports (trimmed ph) (trimmed (oi_botImId i))) (\<lambda>x.
      act_bind (eff (sp_set_circuit oob_ports y None)) (\<lambda>_. act_ret (Some (hasLegacyOpenWorkOrders (snd x)))))) ?Q (\<lambda>_. justified l0 i)"
    if "isStorableCandidatePhone (Some (trimmed ph))" for y
  proof (rule triple_bind [OF orders_answered [OF that assms]])
    fix x :: "string option \<times> work_order list"
    have "stays (if hasLegacyOpenWorkOrders (snd x) then justified l0 i else answered l0 i) (eff (sp_set_circuit oob_ports y None))"
      by (cases "hasLegacyOpenWorkOrders (snd x)") (simp_all add: log_quiet(7))
    then have "triple (if hasLegacyOpenWorkOrders (snd x) then justified l0 i else answered l0 i) (eff (sp_set_circuit oob_ports y None))
        (\<lambda>_. if hasLegacyOpenWorkOrders (snd x) then justified l0 i else answered l0 i) (\<lambda>_. justified l0 i)"
      unfolding stays_triple by (rule triple_conseq) (auto split: if_splits intro: answered_justified)
    then show "triple (if hasLegacyOpenWorkOrders (snd x) then justified l0 i else answered l0 i)
       (act_bind (eff (sp_set_circuit oob_ports y None)) (\<lambda>_. act_ret (Some (hasLegacyOpenWorkOrders (snd x))))) ?Q (\<lambda>_. justified l0 i)"
      by (rule triple_bind) (auto intro!: triple_ret)
  qed
  show ?thesis
    unfolding hasOpenWorkOrders_def Let_def
    by (intro triple_if none triple_bind [OF keep] triple_catch [OF asked failed] log_quiet justified_account) simp_all
qed

lemma saving_justified:
  "triple (answered l0 i) (save_terminal (oob_session i) None) (\<lambda>_. justified l0 i) (\<lambda>_. justified l0 i)"
proof -
  have w: "justified l0 i (say (Terminal_saved (oob_session i) None) (w\<lparr>ow_terminal := t\<rparr>))" if "answered l0 i w" for w t
  proof -
    obtain l where l: "ow_log w = l0 @ l" "freed_on_evidence i l" "evidence_for i (oob_session i) l" using \<open>answered l0 i w\<close> by (auto simp: logged_def)
    then have "freed_on_evidence i (l @ [Terminal_saved (oob_session i) None])" by (simp add: freed_snoc)
    then show ?thesis using l(1) by (auto simp: logged_def say_def)
  qed
  have c: "answered l0 i w1" if "answered l0 i w" "oob_call w = (a, w1)" for w a w1
    using that by (auto simp: logged_def log_call)
  have "justified l0 i s'" if s: "answered l0 i s" "save_terminal (oob_session i) None s = (r, s')" for s r s'
  proof -
    obtain a w1 where c1: "oob_call s = (a, w1)" by fastforce
    then have "s' = w1 \<or> s' = say (Terminal_saved (oob_session i) None) (w1\<lparr>ow_terminal := (ow_terminal w1)(oob_session i := None)\<rparr>)"
      using s(2) by (auto simp: save_terminal_def oob_write_def split: if_splits)
    then show ?thesis using w [OF c [OF s(1) c1]] answered_justified [OF c [OF s(1) c1]] by auto
  qed
  then show ?thesis by (intro tripleI) blast+
qed

lemma justified_terminal [stays_intro]: "stays (justified l0 i) (reconcileTerminal i ph es os)"
proof -
  have booked: "stays (justified l0 i) (save_terminal r (Some t))" for r t
    unfolding save_terminal_def
  proof (rule log_write)
    fix w assume "justified l0 i w"
    then have "justified l0 i (w\<lparr>ow_terminal := x\<rparr>)" for x by (simp add: logged_def)
    then show "justified l0 i (snd ((), say (Terminal_saved r (Some t)) (w\<lparr>ow_terminal := (ow_terminal w)(r := Some t)\<rparr>)))"
      by (simp add: justified_say)
  qed
  have marks: "stays (justified l0 i) (markOobBooked x)" "stays (justified l0 i) (clearOobBookedMarker x)" for x
    unfolding markOobBooked_def clearOobBookedMarker_def by (intro stays_intro)+
  have "stays (justified l0 i) (clear_terminal i ph)"
  proof (cases "oi_trigger i = Trig_turn \<and> oi_bookingSucceededThisTurn i")
    case True then show ?thesis by (simp add: clear_terminal_def stays_ret)
  next
    case False
    have saved: "triple (answered l0 i) (act_bind (save_terminal (oob_session i) None) (\<lambda>_.
        act_bind (clearOobBookedMarker (oi_chatId i)) (\<lambda>_. act_ret Cleared))) (\<lambda>_. justified l0 i) (\<lambda>_. justified l0 i)"
      by (rule triple_bind [OF saving_justified], rule triple_bind [OF marks(2) [unfolded stays_triple]]) (simp add: triple_ret)
    show ?thesis
      unfolding clear_terminal_def stays_triple if_not_P [OF False]
      by (rule triple_bind [OF marker_found], rule triple_if, simp add: triple_ret, simp,
          rule triple_bind [OF open_orders_answered [OF False]]) (auto simp: triple_ret saved)
  qed
  then show ?thesis
    unfolding reconcileTerminal_def by (intro stays_intro booked marks)
qed

text \<open>C26: when a reconciliation sets a session free that was booked, then it is its own session, the trigger is no turn that has just
  booked, and the two events before are that the marker of this chain of reconciliations was found for the chat and that the platform
  answered, for a valid phone number and the account of the chat, with orders none of which is open.  An answer that is missing, a
  breaker that is open, a cache and an empty snapshot are no such evidence, and it is so whatever the rest of the system does meanwhile.\<close>

theorem session_freed_only_on_evidence:
  assumes "reconcile i w = (x, w')" "ow_log w' = ow_log w @ a @ Terminal_saved r None # b"
  shows "evidence_for i r a"
proof -
  have ident: "stays (justified l0 i) (resolveIdentity i)" for l0
    unfolding resolveIdentity_def session_names_def profile_key_def by (intro stays_intro)
  have "stays (justified l0 i) (reconcile i)" for l0
    unfolding reconcile_def reconcile_snapshot_def
    by (intro stays_intro ident) (auto intro!: stays_intro split: load_result.split)
  moreover have "justified (ow_log w) i w" by (simp add: logged_def)
  ultimately have "justified (ow_log w) i w'" using assms(1) by (meson staysD)
  then show ?thesis using assms(2) by (auto simp: logged_def freed_on_evidence_def)
qed

section \<open>Concrete runs\<close>

definition demo_order :: work_order where
  "demo_order = \<lparr>wo_workOrderId = 7, wo_candidateName = Some ''Li'', wo_phone = None, wo_signupSource = Some ''supplier'',
     wo_signUpTime = Some ''1970-01-01 08:00'', wo_interviewTime = Some ''1970-01-03 10:00'', wo_interviewPassTime = None,
     wo_brandName = None, wo_jobId = Some 3, wo_jobName = None, wo_currentStatus = Some (status_text Interview_arranged)\<rparr>"

definition demo_sources :: "work_order list \<Rightarrow> oob_sources" where
  "demo_sources xs = \<lparr>os_facts = \<lambda>_. (Some '' Li'', Some ''138 1234 5678''), os_profile = \<lambda>_ _ _. None, os_channel = \<lambda>_. None,
     os_token = \<lambda>_. Some ''t'', os_orders = \<lambda>_ _. (Some ''Li'', xs), os_lead = None, os_index = \<lambda>_. None\<rparr>"

definition demo_oob :: "work_order list \<Rightarrow> terminal_state option \<Rightarrow> bool \<Rightarrow> oob_world" where
  "demo_oob xs t marked = \<lparr>ow_queue = \<lparr>fw_time = 1000, fw_jobs = [], fw_requests = [], fw_enabled = True, fw_delayMinutes = \<lambda>_. None,
       fw_tracked = []\<rparr>,
     ow_store = (\<lambda>k. if marked \<and> k = oobBookedMarkerKey ''c'' then Some (Stamp 0, 100000) else None), ow_terminal = \<lambda>_. t, ow_events = {},
     ow_circuits = \<lambda>_. None, ow_sources = demo_sources xs, ow_calls = [], ow_log = []\<rparr>"

definition demo_scan :: oob_input where
  "demo_scan = \<lparr>oi_corpId = ''k'', oi_userId = ''u'', oi_chatId = ''c'', oi_botImId = Some ''b'', oi_botUserId = Some ''m'', oi_phone = None,
     oi_channelIdentity = None, oi_trigger = Trig_scan, oi_bookingSucceededThisTurn = False, oi_maxSlotChecks = None\<rparr>"

lemma answered_calls: "ow_calls w = [] \<Longrightarrow> oob_read f w = (Inr (f w), w)"
    "ow_calls w = [] \<Longrightarrow> oob_write g w = (case g w of (v, w2) \<Rightarrow> (Inr v, w2))"
  by (simp_all add: oob_read_def oob_write_def oob_call_def split: prod.split)

lemma demo_trimmed: "trimmed (Some '' Li'') = ''Li''" "trimmed (Some ''138 1234 5678'') = ''138 1234 5678''" "trimmed (Some ''m'') = ''m''"
    "trimmed (Some ''b'') = ''b''" "trimmed None = []"
  by (simp_all add: trimmed_def trim_def is_space_def)

lemma demo_phone: "isStorableCandidatePhone (Some ''138 1234 5678'')"
  by (simp add: isStorableCandidatePhone_def is_digit_def)

lemmas run_simps = act_bind_def act_catch_def eff_def oob_now_def answered_calls

lemma demo_identity: "ow_calls w = [] \<Longrightarrow> ow_sources w = demo_sources xs \<Longrightarrow>
    resolveIdentity demo_scan w = (Inr (Some ''138 1234 5678'', [''Li'']), w)"
  by (simp add: resolveIdentity_def session_names_def profile_key_def demo_scan_def demo_sources_def nonblank_def run_simps demo_trimmed demo_phone Let_def)

lemma demo_oob_world: "ow_calls (demo_oob xs t m) = []" "ow_sources (demo_oob xs t m) = demo_sources xs" "ow_log (demo_oob xs t m) = []"
    "ow_circuits (demo_oob xs t m) = (\<lambda>_. None)" "clock_of (demo_oob xs t m) = 1000" "ow_terminal (demo_oob xs t m) = (\<lambda>_. t)"
    "ow_store (demo_oob xs t m) = (\<lambda>k. if m \<and> k = oobBookedMarkerKey ''c'' then Some (Stamp 0, 100000) else None)"
    "ow_queue (demo_oob xs t m) = \<lparr>fw_time = 1000, fw_jobs = [], fw_requests = [], fw_enabled = True, fw_delayMinutes = \<lambda>_. None, fw_tracked = []\<rparr>"
    "ow_events (demo_oob xs t m) = {}"
  by (simp_all add: demo_oob_def)

lemma demo_oob_ports: "ow_calls w = [] \<Longrightarrow> ow_sources w = demo_sources xs \<Longrightarrow> sp_token oob_ports b w = (Inr (Some ''t''), w)"
    "ow_calls w = [] \<Longrightarrow> ow_sources w = demo_sources xs \<Longrightarrow> sp_fetch oob_ports ph b w = (Inr (Some ''Li'', xs), say (Orders_read ph b xs) w)"
    "ow_calls w = [] \<Longrightarrow> sp_setex oob_ports k s r w = (Inr (), put k (Cached r) s w)"
    "sp_circuit oob_ports = ow_circuits" "sp_now oob_ports = clock_of"
  by (simp_all add: oob_ports_def demo_sources_def set_key_def run_simps)

lemma demo_keys: "snapshotCacheKey b p \<noteq> oobBookedMarkerKey c" "candidateCacheKey u v \<noteq> oobBookedMarkerKey c"
    "snapshotCacheKey b p \<noteq> anchorMarkerKey c x" "candidateCacheKey u v \<noteq> anchorMarkerKey c x" "oobBookedMarkerKey d \<noteq> anchorMarkerKey c x"
  by (simp_all add: snapshotCacheKey_def candidateCacheKey_def oobBookedMarkerKey_def anchorMarkerKey_def)

definition after_load :: "work_order list \<Rightarrow> oob_world \<Rightarrow> oob_world" where
  "after_load xs w = (let c = Cached (fetched_record (Some ''Li'', xs) [Some ''Li''] (clock_of w)) in
     put (candidateCacheKey ''k'' ''u'') c BOOKING_SNAPSHOT_CACHE_TTL_SECONDS
       (put (snapshotCacheKey ''b'' ''138 1234 5678'') c BOOKING_SNAPSHOT_CACHE_TTL_SECONDS
         (say (Orders_read ''138 1234 5678'' ''b'' xs) w)))"

lemma after_load: "ow_calls (after_load xs w) = ow_calls w" "ow_sources (after_load xs w) = ow_sources w"
    "ow_log (after_load xs w) = ow_log w @ [Orders_read ''138 1234 5678'' ''b'' xs]" "ow_circuits (after_load xs w) = ow_circuits w"
    "ow_queue (after_load xs w) = ow_queue w" "ow_terminal (after_load xs w) = ow_terminal w" "ow_events (after_load xs w) = ow_events w"
    "live (oobBookedMarkerKey c) (after_load xs w) = live (oobBookedMarkerKey c) w"
    "live (anchorMarkerKey c x) (after_load xs w) = live (anchorMarkerKey c x) w"
  by (simp_all add: after_load_def put_def say_def live_def Let_def demo_keys [symmetric] split: option.split)

lemma no_circuits: "ow_circuits w = (\<lambda>_. None) \<Longrightarrow> sp_set_circuit oob_ports b None w = w"
  by (cases w) (auto simp: oob_ports_def)

lemma said: "ow_calls (say e w) = ow_calls w" "ow_sources (say e w) = ow_sources w" "ow_log (say e w) = ow_log w @ [e]"
    "ow_circuits (say e w) = ow_circuits w" "ow_queue (say e w) = ow_queue w" "ow_terminal (say e w) = ow_terminal w"
    "ow_store (say e w) = ow_store w" "ow_events (say e w) = ow_events w"
  by (simp_all add: say_def)

lemma stored: "ow_calls (put k v t w) = ow_calls w" "ow_log (put k v t w) = ow_log w" "ow_events (put k v t w) = ow_events w"
    "ow_queue (put k v t w) = ow_queue w" "k' \<noteq> k \<Longrightarrow> live k' (put k v t w) = live k' w" "live k (say e w) = live k w"
    "live k (w\<lparr>ow_terminal := x\<rparr>) = live k w" "live k (w\<lparr>ow_events := y\<rparr>) = live k w"
  by (simp_all add: put_def live_def say_def split: option.split)

lemma demo_load: "ow_calls w = [] \<Longrightarrow> ow_sources w = demo_sources xs \<Longrightarrow> ow_circuits w = (\<lambda>_. None) \<Longrightarrow>
    loadSnapshot oob_ports (reconcile_load demo_scan ''138 1234 5678'' [''Li'']) w =
      (Inr (Loaded (fetched_record (Some ''Li'', xs) [Some ''Li''] (clock_of w)) False), after_load xs w)"
  by (simp add: loadSnapshot_def reconcile_load_def load_fresh_def account_token_def isCircuitOpen_def snapshot_circuit_open_def
    demo_scan_def run_simps demo_oob_ports demo_trimmed demo_phone present_def said stored Let_def after_load_def no_circuits)

lemma demo_oob_open: "ow_calls w = [] \<Longrightarrow> ow_sources w = demo_sources xs \<Longrightarrow> ow_circuits w = (\<lambda>_. None) \<Longrightarrow>
    hasOpenWorkOrders oob_ports (Some ''138 1234 5678'') (Some ''b'') w =
      (Inr (Some (hasLegacyOpenWorkOrders xs)), say (Orders_read ''138 1234 5678'' ''b'' xs) w)"
  by (simp add: hasOpenWorkOrders_def account_token_def isCircuitOpen_def snapshot_circuit_open_def
    run_simps demo_oob_ports demo_trimmed demo_phone present_def said Let_def no_circuits)

lemma demo_freed: "ow_log (snd (reconcile demo_scan (demo_oob [] (Some T_booked) True))) =
    [Orders_read ''138 1234 5678'' ''b'' [], Marker_read ''c'' True, Orders_read ''138 1234 5678'' ''b'' [],
      Terminal_saved (oob_session demo_scan) None]"
proof -
  have b: "oi_botImId demo_scan = Some ''b''" "oi_chatId demo_scan = ''c''" "oi_trigger demo_scan = Trig_scan" by (simp_all add: demo_scan_def)
  have m: "live (oobBookedMarkerKey ''c'') (demo_oob [] (Some T_booked) True) = Some (Stamp 0)" by (simp add: live_def demo_oob_world)
  show ?thesis
    by (simp add: reconcile_def run_simps demo_identity demo_oob_world demo_load fetched_record_def text_or_none_def trim_def is_space_def after_load
      reconcile_snapshot_def owned_supplier_def reconcileTerminal_def clear_terminal_def isOobBooked_def get_stamp_def b m said demo_oob_open
      hasLegacyOpenWorkOrders_def save_terminal_def clearOobBookedMarker_def del_keys_def)
qed


lemma demo_times: "parseProgressSpongeTime (Some ''1970-01-01 08:00'') = Some 0"
    "parseProgressSpongeTime (Some ''1970-01-03 10:00'') = Some 180000000"
  by (simp_all add: parseProgressSpongeTime_def parseLocalDateTime_def shaped_def fits_def is_digit_def part_def number_of_def
      createShanghaiDate_def date_utc_def day_of_month_start_def day_ms_def HOUR_def MINUTE_def trim_def is_space_def Let_def)

lemma demo_texts: "trim ''Li'' = ''Li''" "trim ''supplier'' = ''supplier''" "trim ''1970-01-01 08:00'' = ''1970-01-01 08:00''"
    "trim ''1970-01-03 10:00'' = ''1970-01-03 10:00''" "trim (status_text Interview_arranged) = status_text Interview_arranged" "without_spaces (Some ''Li'') = ''Li''"
  by (simp_all add: trim_def is_space_def status_text_def utf8_def without_spaces_def)

lemma demo_upper: "upper_ascii ''supplier'' = ''SUPPLIER''"
  by code_simp

definition demo_snapshot_entry :: snapshot_entry where
  "demo_snapshot_entry = toBookingSnapshotEntry demo_order (Some ''Li'') [Some ''Li'']"

lemma demo_snapshot_entry: "se_signupSource demo_snapshot_entry = Some Src_SUPPLIER" "se_ownedByCandidate demo_snapshot_entry" "se_workOrderId demo_snapshot_entry = 7"
    "snapshotInterviewAt demo_snapshot_entry = Some 180000000" "snapshotSignUpAt demo_snapshot_entry = Some 0"
  by (simp_all add: demo_snapshot_entry_def toBookingSnapshotEntry_def demo_order_def demo_texts demo_upper normalizeSignupSource_def Let_def
      isWorkOrderOwnedByCandidate_def text_or_none_def snapshotInterviewAt_def snapshotSignUpAt_def demo_times del: upper_ascii.simps)

lemma demo_fetched: "cr_entries (fetched_record (Some ''Li'', [demo_order]) [Some ''Li''] 1000) = [demo_snapshot_entry]"
proof -
  have "isSnapshotEligibleWorkOrder demo_order 1000"
    by (simp add: isSnapshotEligibleWorkOrder_def demo_order_def status_of_def demo_texts demo_times ACTIVE_INTERVIEW_WORK_ORDER_STATUSES_def)
  then show ?thesis by (simp add: fetched_record_def demo_snapshot_entry_def text_or_none_def demo_texts Let_def)
qed

definition demo_anchor :: string where
  "demo_anchor = buildReconcileAnchorKey demo_snapshot_entry False"

lemma demo_oob_asked:
  "ow_log (snd (reconcile demo_scan (demo_oob [demo_order] None False))) =
     [Orders_read ''138 1234 5678'' ''b'' [demo_order], Terminal_saved (oob_session demo_scan) (Some T_booked),
      Claimed (anchorMarkerKey ''c'' demo_anchor), Requested (anchorMarkerKey ''c'' demo_anchor) Interview_reminder,
      Requested (anchorMarkerKey ''c'' demo_anchor) Post_interview_followup]
   \<and> clock_of (snd (reconcile demo_scan (demo_oob [demo_order] None False))) = 1000"
proof -
  have b: "oi_botImId demo_scan = Some ''b''" "oi_chatId demo_scan = ''c''" "oi_trigger demo_scan = Trig_scan" by (simp_all add: demo_scan_def)
  have m: "live k (demo_oob [demo_order] None False) = None" for k by (simp add: live_def demo_oob_world)
  show ?thesis
    by (simp add: reconcile_def run_simps demo_identity demo_oob_world demo_load demo_fetched after_load
      reconcile_snapshot_def owned_supplier_def demo_snapshot_entry reconcileTerminal_def b m said stored demo_keys [symmetric]
      save_terminal_def markOobBooked_def set_key_def recordLinkedEvent_def scheduleFollowUps_def claimAnchor_def setNx_def Let_def
      request_def in_queue_def scheduleBookingResolution_def isEnabled_def get_config_def queue_read_def queue_request_def demo_anchor_def [symmetric]
      addJob_def queue_write_def now_ms_def)
qed

lemma reminder_asked_for_once_witness:
  "requests (anchorMarkerKey ''c'' demo_anchor) Interview_reminder (oob_run [Reconcile demo_scan] (demo_oob [demo_order] None False)) = 1 \<and>
   requests (anchorMarkerKey ''c'' demo_anchor) Interview_reminder (oob_run [Reconcile demo_scan] (demo_oob [demo_order] None False)) \<le> 1"
proof
  show "requests (anchorMarkerKey ''c'' demo_anchor) Interview_reminder (oob_run [Reconcile demo_scan] (demo_oob [demo_order] None False)) = 1"
    by (simp add: requests_def oob_run_def demo_oob_asked)
  show "requests (anchorMarkerKey ''c'' demo_anchor) Interview_reminder (oob_run [Reconcile demo_scan] (demo_oob [demo_order] None False)) \<le> 1"
    by (rule reminder_asked_for_once)
      (simp_all add: requests_def oob_run_def demo_oob_asked demo_oob_world ANCHOR_MARKER_TTL_SECONDS_def)
qed

lemma session_freed_only_on_evidence_witness:
  "evidence_for demo_scan (oob_session demo_scan)
     [Orders_read ''138 1234 5678'' ''b'' [], Marker_read ''c'' True, Orders_read ''138 1234 5678'' ''b'' []]"
  by (rule session_freed_only_on_evidence [of _ "demo_oob [] (Some T_booked) True" "fst (reconcile demo_scan (demo_oob [] (Some T_booked) True))"
        "snd (reconcile demo_scan (demo_oob [] (Some T_booked) True))" _ _ "[]"])
    (simp_all add: demo_freed demo_oob_world)

end
