(* ===== verification/OobScan.thy ===== *)
theory OobScan
  imports OobReconcile "HOL-Library.AList"
begin

text \<open>
  The scan over the accounts that finds the signups nobody talks about any more, after
  \<open>oob-reconcile-scan.cron.ts\<close>: the pages of the platform are read from where the last run stopped, and each row made by a
  supplier is reconciled with the session of its phone number.  The services are ports; the events for the dashboards are left out.
\<close>

section \<open>Data\<close>

record scan_config =
  cfg_enabled :: bool
  cfg_maxRowsPerRun :: "nat option"
  cfg_maxPagesPerAccount :: "nat option"

record scan_cursor =
  cu_nextPage :: nat
  cu_nextRowOffset :: "nat option"
  cu_signUpStartTime :: string
  cu_signUpEndTime :: string

text \<open>The accounts of the saved progress in the order of their keys.\<close>

record scan_progress =
  sg_nextBotImId :: "string option"
  sg_accounts :: "(string \<times> scan_cursor) list"

record scan_summary =
  sm_done :: bool
  sm_reason :: "string option"
  sm_accounts :: nat
  sm_rows :: nat
  sm_supplierRows :: nat
  sm_resolved :: nat
  sm_unresolved :: nat
  sm_botMismatch :: nat
  sm_reconciled :: nat
  sm_scheduled :: nat
  sm_accountFailures :: nat
  sm_truncated :: bool
  sm_slotChecks :: nat
  sm_totalUnknown :: bool

record supplier_row =
  pr_row :: work_order
  pr_pageNum :: nat
  pr_rowIndex :: nat

record supplier_page =
  pg_total :: nat
  pg_supplier :: "supplier_row list"
  pg_totalUnknown :: bool
  pg_nextPage :: "nat option"

record 'w scan_ports =
  sc_now :: "'w \<Rightarrow> int"
  sc_preview :: "'w \<Rightarrow> bool"
  sc_production :: "'w \<Rightarrow> bool"
  sc_config :: "('w, scan_config option) act"
  sc_acquire :: "('w, string option) act"
  sc_release :: "string \<Rightarrow> ('w, unit) act"
  sc_bots :: "('w, string list) act"
  sc_getProgress :: "('w, scan_progress option) act"
  sc_setProgress :: "scan_progress \<Rightarrow> ('w, unit) act"
  sc_page :: "string \<Rightarrow> nat \<Rightarrow> scan_cursor \<Rightarrow> ('w, nat option \<times> work_order list) act"
  sc_sleep :: "nat \<Rightarrow> ('w, unit) act"
  sc_lookupByPhone :: "string \<Rightarrow> ('w, index_record option) act"
  sc_reconcile :: "oob_input \<Rightarrow> ('w, oob_result) act"

definition RUN_DEADLINE_MS :: int where "RUN_DEADLINE_MS = 20 * MINUTE"
definition SIGNUP_LOOKBACK_MS :: int where "SIGNUP_LOOKBACK_MS = 15 * 24 * HOUR"
definition PAGE_SIZE :: nat where "PAGE_SIZE = 100"
definition DEFAULT_MAX_PAGES_PER_ACCOUNT :: nat where "DEFAULT_MAX_PAGES_PER_ACCOUNT = 10"
definition DEFAULT_MAX_ROWS_PER_RUN :: nat where "DEFAULT_MAX_ROWS_PER_RUN = 500"
definition MAX_SLOT_CHECKS_PER_RUN :: nat where "MAX_SLOT_CHECKS_PER_RUN = 50"
definition FETCH_ATTEMPTS :: nat where "FETCH_ATTEMPTS = 3"
definition RETRY_BASE_DELAY_MS :: nat where "RETRY_BASE_DELAY_MS = 1000"

text \<open>\<open>yyyy-MM-dd HH:mm:ss\<close> in Shanghai.\<close>

definition padded :: "nat \<Rightarrow> int \<Rightarrow> string" where
  "padded n v = (let s = show_int v in replicate (n - length s) CHR ''0'' @ s)"

definition formatLocalDateTime :: "int \<Rightarrow> string" where
  "formatLocalDateTime t = (let l = t + 8 * HOUR; (y, m, d) = civil_of_day (l div day_ms); s = l mod day_ms div 1000 in
     padded 4 y @ ''-'' @ padded 2 m @ ''-'' @ padded 2 d @ '' '' @ padded 2 (s div 3600) @ '':'' @ padded 2 (s div 60 mod 60) @ '':'' @ padded 2 (s mod 60))"

section \<open>The pages of one account\<close>

text \<open>\<open>n\<close> attempts are left.\<close>

fun withRetry :: "'w scan_ports \<Rightarrow> ('w, 'a) act \<Rightarrow> nat \<Rightarrow> nat \<Rightarrow> ('w, 'a) act" where
  "withRetry P m attempt 0 = act_throw []"
| "withRetry P m attempt (Suc n) = act_bind (act_catch (act_bind m (\<lambda>x. act_ret (Inr x))) (\<lambda>e. act_ret (Inl e))) (\<lambda>r. case r of
     Inr x \<Rightarrow> act_ret x
   | Inl e \<Rightarrow> if n = 0 then act_throw e
       else act_bind (sc_sleep P (RETRY_BASE_DELAY_MS * 2 ^ (attempt - 1))) (\<lambda>_. withRetry P m (attempt + 1) n))"

text \<open>The rows of a page that a supplier made, from an index on.\<close>

fun supplier_rows :: "nat \<Rightarrow> nat \<Rightarrow> nat \<Rightarrow> work_order list \<Rightarrow> supplier_row list" where
  "supplier_rows page first i [] = []"
| "supplier_rows page first i (x # xs) =
     (if first \<le> i \<and> normalizeSignupSource (wo_signupSource x) = Some Src_SUPPLIER
      then \<lparr>pr_row = x, pr_pageNum = page, pr_rowIndex = i\<rparr> # supplier_rows page first (i + 1) xs
      else supplier_rows page first (i + 1) xs)"

definition first_row :: "scan_cursor \<Rightarrow> nat \<Rightarrow> nat" where
  "first_row c page = (if page = cu_nextPage c then case cu_nextRowOffset c of None \<Rightarrow> 0 | Some n \<Rightarrow> n else 0)"

text \<open>\<open>left\<close> pages may still be read.\<close>

fun page_loop :: "'w scan_ports \<Rightarrow> string \<Rightarrow> scan_cursor \<Rightarrow> nat \<Rightarrow> nat \<Rightarrow> nat \<Rightarrow> supplier_page \<Rightarrow> ('w, supplier_page) act" where
  "page_loop P botId c budget page 0 a = act_ret a"
| "page_loop P botId c budget page (Suc left) a =
     (if budget \<le> pg_total a then act_ret a
      else act_bind (withRetry P (sc_page P botId page c) 1 FETCH_ATTEMPTS) (\<lambda>(total', rows).
        let a' = a\<lparr>pg_total := pg_total a + length rows,
              pg_supplier := pg_supplier a @ supplier_rows page (first_row c page) 0 rows\<rparr> in
        if length rows < PAGE_SIZE \<or> (case total' of Some t \<Rightarrow> t \<le> page * PAGE_SIZE | None \<Rightarrow> False)
        then act_ret (a'\<lparr>pg_nextPage := None\<rparr>)
        else page_loop P botId c budget (page + 1) left
          (a'\<lparr>pg_nextPage := Some (page + 1), pg_totalUnknown := (pg_totalUnknown a \<or> total' = None)\<rparr>)))"

definition fetchSupplierRows :: "'w scan_ports \<Rightarrow> string \<Rightarrow> scan_cursor \<Rightarrow> nat \<Rightarrow> nat \<Rightarrow> ('w, supplier_page) act" where
  "fetchSupplierRows P botId c maxPages budget = page_loop P botId c budget (cu_nextPage c) maxPages
     \<lparr>pg_total = 0, pg_supplier = [], pg_totalUnknown = False, pg_nextPage = Some (cu_nextPage c)\<rparr>"

section \<open>The rows of one account\<close>

definition past_deadline :: "'w scan_ports \<Rightarrow> int \<Rightarrow> ('w, bool) act" where
  "past_deadline P startedAt w = (Inr (RUN_DEADLINE_MS < sc_now P w - startedAt), w)"

definition put_cursor :: "string \<Rightarrow> scan_cursor \<Rightarrow> scan_progress \<Rightarrow> scan_progress" where
  "put_cursor botId c p = p\<lparr>sg_accounts := AList.update botId c (sg_accounts p)\<rparr>"

definition drop_cursor :: "string \<Rightarrow> scan_progress \<Rightarrow> scan_progress" where
  "drop_cursor botId p = p\<lparr>sg_accounts := AList.delete botId (sg_accounts p)\<rparr>"

definition scan_input :: "index_record \<Rightarrow> string \<Rightarrow> string \<Rightarrow> nat \<Rightarrow> oob_input" where
  "scan_input r botId phone checks = \<lparr>oi_corpId = ix_corpId r, oi_userId = ix_userId r, oi_chatId = ix_chatId r,
     oi_botImId = Some botId, oi_botUserId = ix_botUserId r, oi_phone = Some phone, oi_channelIdentity = None, oi_trigger = Trig_scan,
     oi_bookingSucceededThisTurn = False, oi_maxSlotChecks = Some (MAX_SLOT_CHECKS_PER_RUN - checks)\<rparr>"

definition scan_reconcile :: "'w scan_ports \<Rightarrow> index_record \<Rightarrow> string \<Rightarrow> string \<Rightarrow> scan_summary \<Rightarrow> ('w, scan_summary) act" where
  "scan_reconcile P r botId phone s =
     act_catch (act_bind (sc_reconcile P (scan_input r botId phone (sm_slotChecks s))) (\<lambda>x.
         act_ret (if or_done x then s\<lparr>sm_reconciled := sm_reconciled s + 1, sm_scheduled := sm_scheduled s + or_scheduled x,
           sm_slotChecks := sm_slotChecks s + or_slotChecksScheduled x\<rparr> else s)))
       (\<lambda>_. act_ret s)"

text \<open>One row: the phone numbers seen so far, and the summary.\<close>

definition scan_row :: "'w scan_ports \<Rightarrow> string \<Rightarrow> work_order \<Rightarrow> string set \<times> scan_summary \<Rightarrow> ('w, string set \<times> scan_summary) act" where
  "scan_row P botId row x = (case x of (seen, s0) \<Rightarrow>
     let s = s0\<lparr>sm_supplierRows := sm_supplierRows s0 + 1\<rparr>; phone = trimmed (wo_phone row);
         unresolved = s\<lparr>sm_unresolved := sm_unresolved s + 1\<rparr>; k = botId @ '':'' @ phone in
     if \<not> isStorableCandidatePhone (Some phone) then act_ret (seen, unresolved)
     else if k \<in> seen then act_ret (seen, s)
     else act_bind (sc_lookupByPhone P phone) (\<lambda>r. case r of
         None \<Rightarrow> act_ret (insert k seen, unresolved)
       | Some r \<Rightarrow>
           if \<not> present (ix_botImId r) then act_ret (insert k seen, unresolved)
           else if ix_botImId r \<noteq> Some botId then act_ret (insert k seen, s\<lparr>sm_botMismatch := sm_botMismatch s + 1\<rparr>)
           else act_bind (scan_reconcile P r botId phone (s\<lparr>sm_resolved := sm_resolved s + 1\<rparr>))
             (\<lambda>s'. act_ret (insert k seen, s'))))"

fun row_loop :: "'w scan_ports \<Rightarrow> int \<Rightarrow> string \<Rightarrow> scan_cursor \<Rightarrow> supplier_row list \<Rightarrow> scan_progress \<Rightarrow> string set \<times> scan_summary
    \<Rightarrow> ('w, scan_progress \<times> string set \<times> scan_summary) act" where
  "row_loop P startedAt botId c [] p x = act_ret (p, x)"
| "row_loop P startedAt botId c (r # rs) p x =
     (let p' = put_cursor botId (c\<lparr>cu_nextPage := pr_pageNum r, cu_nextRowOffset := Some (pr_rowIndex r)\<rparr>) p in
      act_bind (past_deadline P startedAt) (\<lambda>late.
        if late then act_ret (p', fst x, (snd x)\<lparr>sm_truncated := True\<rparr>)
        else act_bind (scan_row P botId (pr_row r) x) (\<lambda>x'. row_loop P startedAt botId c rs p' x')))"

definition next_bot :: "string list \<Rightarrow> string \<Rightarrow> string option" where
  "next_bot bots b = (case List.find (\<lambda>i. bots ! i = b) [0 ..< length bots] of
     Some i \<Rightarrow> Some (bots ! ((i + 1) mod length bots)) | None \<Rightarrow> None)"

definition cursor_after :: "string \<Rightarrow> scan_cursor \<Rightarrow> supplier_page \<Rightarrow> bool \<Rightarrow> scan_progress \<Rightarrow> scan_progress" where
  "cursor_after botId c pages truncated p = (if truncated then p else case pg_nextPage pages of
     None \<Rightarrow> drop_cursor botId p | Some n \<Rightarrow> put_cursor botId (c\<lparr>cu_nextPage := n, cu_nextRowOffset := Some 0\<rparr>) p)"

definition account_pass :: "'w scan_ports \<Rightarrow> int \<Rightarrow> string list \<Rightarrow> string \<Rightarrow> scan_cursor \<Rightarrow> supplier_page \<Rightarrow> scan_progress
    \<Rightarrow> string set \<times> scan_summary \<Rightarrow> ('w, scan_progress \<times> string set \<times> scan_summary) act" where
  "account_pass P startedAt bots b c pages p x =
     act_bind (row_loop P startedAt b c (pg_supplier pages) p (fst x, (snd x)\<lparr>sm_rows := sm_rows (snd x) + pg_total pages,
         sm_totalUnknown := (sm_totalUnknown (snd x) \<or> pg_totalUnknown pages)\<rparr>)) (\<lambda>(p2, x2).
     let p3 = (cursor_after b c pages (sm_truncated (snd x2)) p2)\<lparr>sg_nextBotImId := next_bot bots b\<rparr> in
     act_bind (sc_setProgress P p3) (\<lambda>_. act_ret (p3, x2)))"

section \<open>A run\<close>

fun account_loop :: "'w scan_ports \<Rightarrow> int \<Rightarrow> nat \<Rightarrow> nat \<Rightarrow> string list \<Rightarrow> (string \<times> string) \<Rightarrow> string list \<Rightarrow> scan_progress
    \<Rightarrow> string set \<times> scan_summary \<Rightarrow> ('w, scan_progress \<times> string set \<times> scan_summary) act" where
  "account_loop P startedAt maxRows maxPages bots window [] p x = act_ret (p, x)"
| "account_loop P startedAt maxRows maxPages bots window (b # bs) p x =
     (if maxRows \<le> sm_rows (snd x) \<or> sm_truncated (snd x) then act_ret (p, x)
      else act_bind (past_deadline P startedAt) (\<lambda>late.
        if late then act_ret (p, fst x, (snd x)\<lparr>sm_truncated := True\<rparr>)
        else let c = (case map_of (sg_accounts p) b of Some c \<Rightarrow> c
               | None \<Rightarrow> \<lparr>cu_nextPage = 1, cu_nextRowOffset = None, cu_signUpStartTime = fst window, cu_signUpEndTime = snd window\<rparr>);
             p1 = put_cursor b c p in
          act_bind (act_catch (act_bind (fetchSupplierRows P b c maxPages (maxRows - sm_rows (snd x))) (\<lambda>r. act_ret (Some r)))
              (\<lambda>_. act_ret None)) (\<lambda>got. case got of
            None \<Rightarrow> account_loop P startedAt maxRows maxPages bots window bs p1
              (fst x, (snd x)\<lparr>sm_accountFailures := sm_accountFailures (snd x) + 1\<rparr>)
          | Some pages \<Rightarrow> act_bind (account_pass P startedAt bots b c pages p1 x)
              (\<lambda>(p3, x3). account_loop P startedAt maxRows maxPages bots window bs p3 x3))))"

definition empty_summary :: scan_summary where
  "empty_summary = \<lparr>sm_done = True, sm_reason = None, sm_accounts = 0, sm_rows = 0, sm_supplierRows = 0, sm_resolved = 0, sm_unresolved = 0,
     sm_botMismatch = 0, sm_reconciled = 0, sm_scheduled = 0, sm_accountFailures = 0, sm_truncated = False, sm_slotChecks = 0, sm_totalUnknown = False\<rparr>"

definition or_default :: "nat option \<Rightarrow> nat \<Rightarrow> nat" where
  "or_default v d = (case v of Some n \<Rightarrow> n | None \<Rightarrow> d)"

text \<open>The order starts at the account that the last run would have taken next.\<close>

definition rotated :: "string list \<Rightarrow> string option \<Rightarrow> string list" where
  "rotated bots b = (let i = (case List.find (\<lambda>i. Some (bots ! i) = b) [0 ..< length bots] of Some i \<Rightarrow> i | None \<Rightarrow> 0)
     in drop i bots @ take i bots)"

definition runOnce :: "'w scan_ports \<Rightarrow> scan_config \<Rightarrow> int \<Rightarrow> ('w, scan_summary) act" where
  "runOnce P cfg now = act_bind (\<lambda>w. (Inr (sc_now P w), w)) (\<lambda>startedAt.
     let maxRows = or_default (cfg_maxRowsPerRun cfg) DEFAULT_MAX_ROWS_PER_RUN;
         maxPages = or_default (cfg_maxPagesPerAccount cfg) DEFAULT_MAX_PAGES_PER_ACCOUNT in
     act_bind (sc_bots P) (\<lambda>bots. let s = empty_summary\<lparr>sm_accounts := length bots\<rparr> in
       if bots = [] then act_ret (s\<lparr>sm_done := False, sm_reason := Some ''no_token_configured_accounts''\<rparr>)
       else act_bind (sc_getProgress P) (\<lambda>saved.
         let p = (case saved of Some p \<Rightarrow> p | None \<Rightarrow> \<lparr>sg_nextBotImId = None, sg_accounts = []\<rparr>);
             order = rotated bots (Some (case sg_nextBotImId p of Some b \<Rightarrow> b | None \<Rightarrow> []));
             p' = p\<lparr>sg_accounts := filter (\<lambda>(b, _). b \<in> set bots) (sg_accounts p)\<rparr> in
         act_bind (account_loop P startedAt maxRows maxPages bots (formatLocalDateTime (now - SIGNUP_LOOKBACK_MS), formatLocalDateTime now)
             order p' ({}, s)) (\<lambda>(_, _, s'). act_ret s'))))"

definition positiveInt :: "nat option \<Rightarrow> nat option" where
  "positiveInt v = (case v of Some n \<Rightarrow> if 0 < n then Some n else None | None \<Rightarrow> None)"

definition getRuntimeConfig :: "'w scan_ports \<Rightarrow> ('w, scan_config) act" where
  "getRuntimeConfig P = act_catch (act_bind (sc_config P) (\<lambda>c. act_ret (case c of
       None \<Rightarrow> \<lparr>cfg_enabled = False, cfg_maxRowsPerRun = None, cfg_maxPagesPerAccount = None\<rparr>
     | Some c \<Rightarrow> \<lparr>cfg_enabled = cfg_enabled c, cfg_maxRowsPerRun = positiveInt (cfg_maxRowsPerRun c),
         cfg_maxPagesPerAccount = positiveInt (cfg_maxPagesPerAccount c)\<rparr>)))
     (\<lambda>_. act_ret \<lparr>cfg_enabled = False, cfg_maxRowsPerRun = None, cfg_maxPagesPerAccount = None\<rparr>)"

definition scan :: "'w scan_ports \<Rightarrow> ('w, unit) act" where
  "scan P = act_bind (\<lambda>w. (Inr (\<not> sc_preview P w \<and> sc_production P w), w)) (\<lambda>allowed.
     if \<not> allowed then act_ret ()
     else act_bind (getRuntimeConfig P) (\<lambda>cfg. if \<not> cfg_enabled cfg then act_ret ()
     else act_bind (sc_acquire P) (\<lambda>token. case token of None \<Rightarrow> act_ret ()
       | Some t \<Rightarrow> act_finally
           (act_catch (act_bind (\<lambda>w. (Inr (sc_now P w), w)) (\<lambda>now. act_bind (runOnce P cfg now) (\<lambda>_. act_ret ()))) (\<lambda>_. act_ret ()))
           (sc_release P t))))"


section \<open>What a cursor leaves to do\<close>

abbreviation "by_supplier x \<equiv> normalizeSignupSource (wo_signupSource x) = Some Src_SUPPLIER"

definition rest_from :: "work_order list \<Rightarrow> nat \<Rightarrow> work_order list" where
  "rest_from rows i = filter by_supplier (drop i rows)"

definition row_at :: "nat \<Rightarrow> nat \<Rightarrow> nat" where
  "row_at page i = PAGE_SIZE * (page - 1) + i"

definition left_to_do :: "work_order list \<Rightarrow> scan_cursor option \<Rightarrow> work_order list" where
  "left_to_do rows x = (case x of None \<Rightarrow> [] | Some c \<Rightarrow>
     rest_from rows (row_at (cu_nextPage c) (case cu_nextRowOffset c of None \<Rightarrow> 0 | Some n \<Rightarrow> n)))"

definition page_of :: "work_order list \<Rightarrow> nat \<Rightarrow> work_order list" where
  "page_of rows n = take PAGE_SIZE (drop (PAGE_SIZE * (n - 1)) rows)"

text \<open>The rows read from one place to another, each with where it was read.\<close>

fun covers :: "work_order list \<Rightarrow> nat \<Rightarrow> supplier_row list \<Rightarrow> nat \<Rightarrow> bool" where
  "covers rows i [] j \<longleftrightarrow> rest_from rows i = rest_from rows j"
| "covers rows i (r # rs) j \<longleftrightarrow> rest_from rows i = rest_from rows (row_at (pr_pageNum r) (pr_rowIndex r)) \<and>
     rest_from rows (row_at (pr_pageNum r) (pr_rowIndex r)) = pr_row r # rest_from rows (Suc (row_at (pr_pageNum r) (pr_rowIndex r))) \<and>
     covers rows (Suc (row_at (pr_pageNum r) (pr_rowIndex r))) rs j"

lemma covers_shift: "rest_from rows i = rest_from rows i' \<Longrightarrow> covers rows i rs j = covers rows i' rs j"
  by (cases rs) auto

lemma covers_append: "covers rows i rs j \<Longrightarrow> covers rows j rs' k \<Longrightarrow> covers rows i (rs @ rs') k"
proof (induction rs arbitrary: i)
  case Nil then show ?case using covers_shift [of rows i j] by simp
qed simp

lemma covers_all: "covers rows i rs j \<Longrightarrow> rest_from rows i = map pr_row rs @ rest_from rows j"
  by (induction rs arbitrary: i) auto

lemma covers_nth: "covers rows i rs j \<Longrightarrow> n < length rs \<Longrightarrow>
    rest_from rows (row_at (pr_pageNum (rs ! n)) (pr_rowIndex (rs ! n))) = drop n (rest_from rows i)"
proof (induction rs arbitrary: i n)
  case (Cons r rs)
  then show ?case by (cases n) auto
qed simp

lemma rest_step: "i < length rows \<Longrightarrow> rest_from rows i = (if by_supplier (rows ! i) then [rows ! i] else []) @ rest_from rows (Suc i)"
  by (simp add: rest_from_def Cons_nth_drop_Suc [symmetric])

lemma covers_page:
  assumes "xs = take (length xs) (drop (row_at page i) rows)" "first \<le> i + length xs"
  shows "covers rows (row_at page (max first i)) (supplier_rows page first i xs) (row_at page (i + length xs))"
  using assms
proof (induction page first i xs rule: supplier_rows.induct)
  case (2 page first i x xs)
  obtain d where d: "drop (row_at page i) rows = x # d" "xs = take (length xs) d"
    using 2(3) by (cases "drop (row_at page i) rows") auto
  have len: "row_at page i < length rows" using d(1) by (metis drop_eq_Nil2 leI list.distinct(1))
  have x: "rows ! row_at page i = x" using d(1) by (rule nth_via_drop)
  have "drop (row_at page (i + 1)) rows = d"
    using d(1) by (simp add: row_at_def drop_Suc tl_drop [symmetric])
  then have xs: "xs = take (length xs) (drop (row_at page (i + 1)) rows)" using d(2) by simp
  note ih = 2(1,2) [OF _ xs]
  show ?case
  proof (cases "first \<le> i")
    case True
    have "covers rows (row_at page (i + 1)) (supplier_rows page first (i + 1) xs) (row_at page (i + length (x # xs)))"
      using ih 2(4) True by (cases "by_supplier x") (simp_all add: max_def)
    moreover have "rest_from rows (row_at page i) = (if by_supplier x then [x] else []) @ rest_from rows (row_at page (i + 1))"
      using rest_step [OF len] x by (simp add: row_at_def)
    moreover have "max first i = i" "Suc (row_at page i) = row_at page (i + 1)" using True by (simp_all add: row_at_def)
    ultimately show ?thesis
      using True covers_shift [of rows "row_at page i" "row_at page (i + 1)"] by (cases "by_supplier x") simp_all
  next
    case False
    then have "max first i = max first (i + 1)" by simp
    then show ?thesis using ih 2(4) False by simp
  qed
qed simp

section \<open>Reading over a table\<close>

text \<open>While a run lasts the platform answers, when it answers, from one table, with or without its size.\<close>

definition answers_from :: "'w scan_ports \<Rightarrow> work_order list \<Rightarrow> bool" where
  "answers_from P rows \<longleftrightarrow> (\<forall>b page c w x w'. sc_page P b page c w = (Inr x, w') \<longrightarrow>
     snd x = page_of rows page \<and> fst x \<in> {None, Some (length rows)})"

lemma retried_answer:
  assumes "withRetry P m attempt n w = (Inr x, w')"
  obtains w1 w2 where "m w1 = (Inr x, w2)"
  using assms
proof (induction n arbitrary: attempt w thesis)
  case (Suc n)
  from Suc.prems(2) obtain r w1 where r: "act_catch (act_bind m (\<lambda>x. act_ret (Inr x))) (\<lambda>e. act_ret (Inl e)) w = (Inr r, w1)"
    and k: "(case r of Inr x \<Rightarrow> act_ret x | Inl e \<Rightarrow> if n = 0 then act_throw e
       else act_bind (sc_sleep P (RETRY_BASE_DELAY_MS * 2 ^ (attempt - 1))) (\<lambda>_. withRetry P m (attempt + 1) n)) w1 = (Inr x, w')"
    unfolding withRetry.simps by (rule act_bind_InrE)
  show ?case
  proof (cases r)
    case (Inr y)
    then have "m w = (Inr y, w1)" using r by (auto simp: act_catch_def act_bind_def split: prod.splits sum.splits)
    then show ?thesis using k Inr Suc.prems(1) by simp
  next
    case (Inl e)
    then obtain w2 where "withRetry P m (attempt + 1) n w2 = (Inr x, w')"
      using k by (auto split: if_splits elim!: act_bind_InrE)
    then show ?thesis using Suc.IH Suc.prems(1) by blast
  qed
qed simp

lemma last_page: "length (page_of rows n) < PAGE_SIZE \<or> length rows \<le> n * PAGE_SIZE \<Longrightarrow> rest_from rows (row_at n (length (page_of rows n))) = []"
  by (cases n) (auto simp: rest_from_def row_at_def page_of_def PAGE_SIZE_def min_def split: if_splits)

lemma full_page: "length (page_of rows n) = PAGE_SIZE \<Longrightarrow> 0 < n \<Longrightarrow> row_at n (length (page_of rows n)) = row_at (n + 1) 0"
  by (cases n) (auto simp: row_at_def)

definition read_up_to :: "work_order list \<Rightarrow> scan_cursor \<Rightarrow> supplier_page \<Rightarrow> nat" where
  "read_up_to rows c r = (case pg_nextPage r of None \<Rightarrow> length rows | Some n \<Rightarrow> row_at n (first_row c n))"

lemma page_read:
  assumes "first_row c page \<le> length (page_of rows page)"
  shows "covers rows (row_at page (first_row c page)) (supplier_rows page (first_row c page) 0 (page_of rows page))
    (row_at page (length (page_of rows page)))"
proof -
  have "page_of rows page = take (length (page_of rows page)) (drop (row_at page 0) rows)"
    by (auto simp: page_of_def row_at_def min_def)
  from covers_page [OF this, of "first_row c page"] assms show ?thesis by simp
qed

lemma pages_read:
  assumes "answers_from P rows"
  shows "page_loop P b c budget page left a w = (Inr r, w') \<Longrightarrow> 0 < page \<Longrightarrow> cu_nextPage c \<le> page \<Longrightarrow> pg_nextPage a = Some page \<Longrightarrow>
    first_row c page \<le> length (page_of rows page) \<Longrightarrow> covers rows i (pg_supplier a) (row_at page (first_row c page)) \<Longrightarrow>
    covers rows i (pg_supplier r) (read_up_to rows c r)"
proof (induction left arbitrary: page a w)
  case 0
  then show ?case by (simp add: read_up_to_def)
next
  case (Suc left)
  show ?case
  proof (cases "budget \<le> pg_total a")
    case True then show ?thesis using Suc.prems by (simp add: read_up_to_def)
  next
    case False
    let ?xs = "page_of rows page"
    let ?sup = "pg_supplier a @ supplier_rows page (first_row c page) 0 ?xs"
    obtain total' xs w1 where "withRetry P (sc_page P b page c) 1 FETCH_ATTEMPTS w = (Inr (total', xs), w1)"
      and k: "(let a' = a\<lparr>pg_total := pg_total a + length xs, pg_supplier := pg_supplier a @ supplier_rows page (first_row c page) 0 xs\<rparr> in
        if length xs < PAGE_SIZE \<or> (case total' of Some t \<Rightarrow> t \<le> page * PAGE_SIZE | None \<Rightarrow> False)
        then act_ret (a'\<lparr>pg_nextPage := None\<rparr>)
        else page_loop P b c budget (page + 1) left
          (a'\<lparr>pg_nextPage := Some (page + 1), pg_totalUnknown := (pg_totalUnknown a \<or> total' = None)\<rparr>)) w1 = (Inr r, w')"
      using Suc.prems(1) False by (auto elim!: act_bind_InrE)
    from retried_answer [OF this(1)] obtain w2 w3 where "sc_page P b page c w2 = (Inr (total', xs), w3)" .
    then have xs: "xs = ?xs" and t: "total' \<in> {None, Some (length rows)}" using assms unfolding answers_from_def by fastforce+
    have cov: "covers rows i ?sup (row_at page (length ?xs))" by (rule covers_append [OF Suc.prems(6) page_read [OF Suc.prems(5)]])
    show ?thesis
    proof (cases "length ?xs < PAGE_SIZE \<or> (case total' of Some t \<Rightarrow> t \<le> page * PAGE_SIZE | None \<Rightarrow> False)")
      case True
      then have "rest_from rows (row_at page (length ?xs)) = []" using t by (intro last_page) auto
      then have "covers rows (row_at page (length ?xs)) [] (length rows)" by (simp add: rest_from_def)
      then have "covers rows i (?sup @ []) (length rows)" by (rule covers_append [OF cov])
      then show ?thesis using k True xs by (auto simp: read_up_to_def Let_def)
    next
      case False
      have "length ?xs = PAGE_SIZE" using False by (auto simp: page_of_def)
      then have n: "row_at page (length ?xs) = row_at (page + 1) 0" using full_page Suc.prems(2) by blast
      have f: "first_row c (page + 1) = 0" using Suc.prems(3) by (simp add: first_row_def)
      show ?thesis
        by (rule Suc.IH [where page = "page + 1"]) (use k False xs cov n f Suc.prems(2,3) in \<open>auto simp: Let_def\<close>)
    qed
  qed
qed

lemma pages_move:
  "page_loop P b c budget page left a w = (Inr r, w') \<Longrightarrow> pg_nextPage a = Some page \<Longrightarrow> pg_nextPage r = Some n \<Longrightarrow>
     page \<le> n \<and> (0 < left \<and> pg_total a < budget \<longrightarrow> page < n)"
proof (induction left arbitrary: page a w)
  case (Suc left)
  show ?case
  proof (cases "budget \<le> pg_total a")
    case False
    let ?b = "\<lambda>xs total'. a\<lparr>pg_total := pg_total a + length xs, pg_supplier := pg_supplier a @ supplier_rows page (first_row c page) 0 xs,
      pg_nextPage := Some (page + 1), pg_totalUnknown := (pg_totalUnknown a \<or> total' = None)\<rparr>"
    obtain xs and total' :: "nat option" and w1 where "page_loop P b c budget (page + 1) left (?b xs total') w1 = (Inr r, w')"
      using Suc.prems False by (auto simp: Let_def split: if_splits elim!: act_bind_InrE)
    from Suc.IH [OF this] Suc.prems(3) show ?thesis by simp
  qed (use Suc.prems in simp)
qed simp

section \<open>Nothing is skipped\<close>

lemma row_counted:
  "scan_row P b row x w = (Inr x', w') \<Longrightarrow>
     sm_supplierRows (snd x') = sm_supplierRows (snd x) + 1 \<and> sm_truncated (snd x') = sm_truncated (snd x)"
  by (cases x) (auto simp: scan_row_def scan_reconcile_def Let_def split: if_splits option.splits elim!: act_bind_InrE act_catch_InrE)

lemma rows_stop:
  "row_loop P t b c rs p x w = (Inr (p', x'), w') \<Longrightarrow> \<not> sm_truncated (snd x) \<Longrightarrow>
     \<exists>k \<le> length rs. sm_supplierRows (snd x') = sm_supplierRows (snd x) + k \<and>
       (if sm_truncated (snd x') then k < length rs \<and> map_of (sg_accounts p') b =
          Some (c\<lparr>cu_nextPage := pr_pageNum (rs ! k), cu_nextRowOffset := Some (pr_rowIndex (rs ! k))\<rparr>) else k = length rs)"
proof (induction rs arbitrary: p x w)
  case (Cons r rs)
  let ?p = "put_cursor b (c\<lparr>cu_nextPage := pr_pageNum r, cu_nextRowOffset := Some (pr_rowIndex r)\<rparr>) p"
  show ?case
  proof (cases "RUN_DEADLINE_MS < sc_now P w - t")
    case True
    then show ?thesis using Cons.prems by (auto simp: Let_def past_deadline_def act_bind_def put_cursor_def update_conv' intro!: exI [of _ 0])
  next
    case False
    then obtain x1 w1 where x1: "scan_row P b (pr_row r) x w = (Inr x1, w1)" "row_loop P t b c rs ?p x1 w1 = (Inr (p', x'), w')"
      using Cons.prems(1) by (auto simp: Let_def past_deadline_def act_bind_def split: prod.splits sum.splits)
    from Cons.IH [OF x1(2)] row_counted [OF x1(1)] Cons.prems(2) obtain k where
      "k \<le> length rs" "sm_supplierRows (snd x') = sm_supplierRows (snd x) + Suc k"
      "if sm_truncated (snd x') then k < length rs \<and> map_of (sg_accounts p') b =
          Some (c\<lparr>cu_nextPage := pr_pageNum (rs ! k), cu_nextRowOffset := Some (pr_rowIndex (rs ! k))\<rparr>) else k = length rs" by auto
    then show ?thesis by (intro exI [of _ "Suc k"]) auto
  qed
qed simp

text \<open>C27: the scan neither skips a signup nor starts over.  While the platform answers from one table, what an account has left to do after
  a pass over it is what it had left before without the rows that the pass looked at: when the time of the run ends in the middle of a
  page, when the budget of rows or pages ends, and when the last page was read, and also when single rows fail.\<close>

theorem scan_resumes_where_it_stopped:
  assumes "answers_from P rows" and f: "fetchSupplierRows P b c maxPages budget w = (Inr pages, w1)"
    and a: "account_pass P t bots b c pages p (seen, s) w2 = (Inr (p', seen', s'), w3)"
    and "\<not> sm_truncated s" "0 < maxPages" "0 < budget" "0 < cu_nextPage c"
    and off: "first_row c (cu_nextPage c) \<le> length (page_of rows (cu_nextPage c))"
  shows "left_to_do rows (map_of (sg_accounts p') b) = drop (sm_supplierRows s' - sm_supplierRows s) (left_to_do rows (Some c))"
proof -
  let ?i = "row_at (cu_nextPage c) (first_row c (cu_nextPage c))" and ?R = "pg_supplier pages"
  have l: "left_to_do rows (Some c) = rest_from rows ?i" by (simp add: left_to_do_def first_row_def split: option.split)
  have cov: "covers rows ?i ?R (read_up_to rows c pages)"
    using pages_read [OF assms(1) f [unfolded fetchSupplierRows_def]] assms(7) off by simp
  obtain p2 s2 w4 x where r: "row_loop P t b c ?R p (seen, x) w2 = (Inr (p2, seen', s2), w4)"
    and x: "\<not> sm_truncated x" "sm_supplierRows x = sm_supplierRows s"
    and p': "sg_accounts p' = sg_accounts (cursor_after b c pages (sm_truncated s2) p2)" "s' = s2"
    using a assms(4) by (fastforce simp: account_pass_def Let_def elim!: act_bind_InrE)
  from rows_stop [OF r] x obtain k where k: "sm_supplierRows s' - sm_supplierRows s = k"
    "if sm_truncated s' then k < length ?R \<and> map_of (sg_accounts p2) b =
       Some (c\<lparr>cu_nextPage := pr_pageNum (?R ! k), cu_nextRowOffset := Some (pr_rowIndex (?R ! k))\<rparr>) else k = length ?R"
    using p'(2) by auto
  show ?thesis
  proof (cases "sm_truncated s'")
    case True
    then show ?thesis using k p' covers_nth [OF cov, of k] l by (simp add: cursor_after_def left_to_do_def)
  next
    case False
    then have d: "drop k (left_to_do rows (Some c)) = rest_from rows (read_up_to rows c pages)"
      using k(2) covers_all [OF cov] l by simp
    show ?thesis
    proof (cases "pg_nextPage pages")
      case None
      then show ?thesis using False d k(1) p'
        by (simp add: cursor_after_def drop_cursor_def delete_conv' left_to_do_def read_up_to_def rest_from_def)
    next
      case (Some n)
      from pages_move [OF f [unfolded fetchSupplierRows_def], of n] Some assms(5,6) have "first_row c n = 0" by (simp add: first_row_def)
      then show ?thesis using Some False d k(1) p'
        by (simp add: cursor_after_def put_cursor_def update_conv' left_to_do_def read_up_to_def)
    qed
  qed
qed

section \<open>A concrete pass\<close>

definition scan_row_demo :: work_order where
  "scan_row_demo = \<lparr>wo_workOrderId = 7, wo_candidateName = None, wo_phone = None, wo_signupSource = Some ''SUPPLIER'', wo_signUpTime = None,
     wo_interviewTime = None, wo_interviewPassTime = None, wo_brandName = None, wo_jobId = None, wo_jobName = None, wo_currentStatus = None\<rparr>"

definition scan_ports_demo :: "unit scan_ports" where
  "scan_ports_demo = \<lparr>sc_now = \<lambda>_. 0, sc_preview = \<lambda>_. False, sc_production = \<lambda>_. True, sc_config = act_ret None, sc_acquire = act_ret None,
     sc_release = \<lambda>_. act_ret (), sc_bots = act_ret [''b''], sc_getProgress = act_ret None, sc_setProgress = \<lambda>_. act_ret (),
     sc_page = \<lambda>b n c. act_ret (None, page_of [scan_row_demo] n), sc_sleep = \<lambda>_. act_ret (), sc_lookupByPhone = \<lambda>_. act_ret None,
     sc_reconcile = \<lambda>_. act_throw []\<rparr>"

definition scan_cursor_demo :: scan_cursor where
  "scan_cursor_demo = \<lparr>cu_nextPage = 1, cu_nextRowOffset = None, cu_signUpStartTime = [], cu_signUpEndTime = []\<rparr>"

lemma scan_demo_source: "by_supplier scan_row_demo"
proof -
  have "upper_ascii ''SUPPLIER'' = ''SUPPLIER''" by code_simp
  moreover have "trim ''SUPPLIER'' = ''SUPPLIER''" by (simp add: trim_def is_space_def)
  ultimately show ?thesis by (simp add: normalizeSignupSource_def scan_row_demo_def del: upper_ascii.simps)
qed

lemma scan_demo_page: "page_of [scan_row_demo] (Suc 0) = [scan_row_demo]"
  by (simp add: page_of_def PAGE_SIZE_def)

lemma scan_demo_fetch: "fetchSupplierRows scan_ports_demo ''b'' scan_cursor_demo (Suc 0) (Suc 0) () =
    (Inr \<lparr>pg_total = 1, pg_supplier = [\<lparr>pr_row = scan_row_demo, pr_pageNum = 1, pr_rowIndex = 0\<rparr>], pg_totalUnknown = False, pg_nextPage = None\<rparr>, ())"
  by (simp add: fetchSupplierRows_def scan_cursor_demo_def FETCH_ATTEMPTS_def eval_nat_numeral scan_ports_demo_def act_bind_def act_catch_def
      scan_demo_page first_row_def scan_demo_source PAGE_SIZE_def Let_def)

lemma scan_resumes_where_it_stopped_witness:
  "\<exists>p' seen' s' w. account_pass scan_ports_demo 0 [''b''] ''b'' scan_cursor_demo
       \<lparr>pg_total = 1, pg_supplier = [\<lparr>pr_row = scan_row_demo, pr_pageNum = 1, pr_rowIndex = 0\<rparr>], pg_totalUnknown = False, pg_nextPage = None\<rparr>
       \<lparr>sg_nextBotImId = None, sg_accounts = []\<rparr> ({}, empty_summary) () = (Inr (p', seen', s'), w) \<and>
     left_to_do [scan_row_demo] (Some scan_cursor_demo) = [scan_row_demo] \<and> sm_supplierRows s' = 1 \<and>
     left_to_do [scan_row_demo] (map_of (sg_accounts p') ''b'') = drop (sm_supplierRows s' - 0) [scan_row_demo]"
proof -
  let ?g = "\<lparr>pg_total = 1, pg_supplier = [\<lparr>pr_row = scan_row_demo, pr_pageNum = 1, pr_rowIndex = 0\<rparr>], pg_totalUnknown = False, pg_nextPage = None\<rparr>"
  let ?r = "account_pass scan_ports_demo 0 [''b''] ''b'' scan_cursor_demo ?g \<lparr>sg_nextBotImId = None, sg_accounts = []\<rparr> ({}, empty_summary) ()"
  have "\<exists>p' s'. ?r = (Inr (p', {}, s'), ()) \<and> sm_supplierRows s' = 1"
    by (simp add: account_pass_def act_bind_def past_deadline_def scan_ports_demo_def RUN_DEADLINE_MS_def MINUTE_def scan_row_def scan_row_demo_def
        trimmed_def isStorableCandidatePhone_def empty_summary_def Let_def)
  then obtain p' s' where r: "?r = (Inr (p', {}, s'), ())" "sm_supplierRows s' = 1" by blast
  have l: "left_to_do [scan_row_demo] (Some scan_cursor_demo) = [scan_row_demo]"
    by (simp add: left_to_do_def scan_cursor_demo_def rest_from_def row_at_def scan_demo_source)
  have "answers_from scan_ports_demo [scan_row_demo]" by (simp add: answers_from_def scan_ports_demo_def)
  from scan_resumes_where_it_stopped [OF this scan_demo_fetch r(1)] l r
  show ?thesis by (auto simp: empty_summary_def scan_cursor_demo_def first_row_def One_nat_def)
qed

end
