(* ===== verification/Spec2Isabelle.thy ===== *)
theory Spec2Isabelle
  imports ExecutorWorld ActionJournalInv ActionRecovery ActionPermit CronRunner RedisLease
    SupabaseRepository MessageMerge WorkerManager ReplyTurnsInv ReplyServiceInv ReplyDeliveryInv MessageDelivery
    TouchLedger AnswerOnce ReplyRecovery IntakeOnce
    UserHosting GroupBlacklist CandidateBlacklist
    FollowUpOnce OobOnce OobScan
begin

text \<open>
  A verification library of the Cake Agent Runtime, the server that lets a language model answer job
  candidates on an enterprise messaging platform.  What the model writes is not the subject here.  The
  subject is the machinery around it that must not lose a message, answer twice, repeat an external
  action whose outcome is unknown, or act without permission: the code under \<open>src/biz/action-execution\<close>,
  \<open>src/biz/action-permit\<close>, \<open>src/biz/reply-execution\<close>, \<open>src/channels/wecom/message/runtime\<close>,
  \<open>src/channels/wecom/message/delivery\<close>, \<open>src/infra/queue\<close>, \<open>src/infra/redis\<close> and
  \<open>src/infra/supabase\<close>, with the SQL functions of \<open>supabase/migrations\<close> they call.

  \<^bold>\<open>How the parts work together.\<close>  An incoming message is parsed, filtered and claimed by its id (\<open>MessageParser\<close>, \<open>MessageFilter\<close>,
  \<open>MessageIntake\<close>); if it is to be answered it is put on the pending list of its chat and a delayed
  check is queued (\<open>MessageMerge\<close>); when the chat has been quiet long enough a worker that got a slot
  (\<open>WorkerManager\<close>) takes the lock of the chat (\<open>RedisLease\<close>) and the batch.  The batch becomes a reply
  turn (\<open>ReplyTurns\<close>, \<open>ReplyService\<close>), which owns the messages it answers; one workflow runs the model, saves what
  it did, delivers and acknowledges (\<open>ReplyWorkflow\<close>, \<open>OrdinaryEffects\<close>).  The reply is delivered segment by
  segment (\<open>MessageDelivery\<close>, \<open>ReplyDelivery\<close>); every segment, like every other external effect, is an
  action of the executor (\<open>ActionExecutor\<close>) recorded in the journal (\<open>ActionJournal\<close>), asked for permission
  (\<open>ActionPermit\<close>) and, when its outcome is unknown, looked at again by the recovery scan
  (\<open>ActionRecovery\<close>), a job of the cron runner (\<open>CronRunner\<close>).  The database is reached through a circuit
  breaker (\<open>SupabaseCircuit\<close>, \<open>SupabaseRepository\<close>).

  \<^bold>\<open>How the code is modelled.\<close>  \<open>Prelude\<close> says it in detail: an asynchronous method is a function of a world to a
  result and a world; a rejection is \<open>Inl\<close>; the state of a service is part of the world; what lies
  beyond the network is reached through requests, before each of which an environment acts: time passes,
  other processes commit, a request or an answer is lost.  A theorem about a world therefore speaks of every
  such environment.  What is not code of the repository (Redis, SHA-256, the comparison of keys in a
  locale, the messaging platform) is a parameter, with what is documented of it as a locale
  (\<open>redis_documented\<close>) or a hypothesis.  A service that depends on others takes them as a record of
  operations; what its proofs need of them is a locale (\<open>quiet_services\<close>, \<open>calm_services\<close>, \<open>leased_services\<close>,
  \<open>refused_caller\<close>, \<open>failure_handler\<close>, \<open>touch_slots\<close>, \<open>claimed_request\<close>), interpreted on the definitions that provide them.

  \<^bold>\<open>Theories.\<close>
  \<^item> \<open>ActionContract\<close>: the types of \<open>types/action-execution.contract.ts\<close> and \<open>action-execution.types.ts\<close>, and the rule
    which completions are conclusive, which both the executor and the journal implement.
  \<^item> \<open>ActionIdentity\<close>: \<open>action-identity.ts\<close>; the canonical text of a value is unambiguous and carries no credential.
  \<^item> \<open>ActionJournal\<close>, \<open>ActionJournalInv\<close>: the table \<open>agent_action_records\<close> and the SQL function
    \<open>transition_agent_action\<close>, the operator's review and the retention as steps of one table; the invariant of
    every reachable table, one open obligation for each resource, final rows stay final.
  \<^item> \<open>ActionStore\<close>: \<open>action-records.repository.ts\<close>.
  \<^item> \<open>ActionExecutor\<close>, \<open>ExecutorWorld\<close>: \<open>action-executor.service.ts\<close> over its services, and on the journal: an action is
    dispatched only under a claim that was just confirmed, the outcome says truly whether it was
    dispatched, nothing rejects, a recorded outcome is replayed.
  \<^item> \<open>ActionRecovery\<close>: \<open>action-recovery.service.ts\<close>, \<open>action-local-sync.service.ts\<close>, \<open>action-recovery.registry.ts\<close>,
    \<open>action-repair.queue.ts\<close>.
  \<^item> \<open>ActionPermit\<close>: \<open>action-permit.service.ts\<close>, with the request for the roster of bots that calls share; an action is
    allowed only with every consent, on a roster that was just answered or is younger than five seconds.
  \<^item> \<open>ReplyTurns\<close>, \<open>ReplyTurnsInv\<close>: the types of \<open>src/biz/reply-execution\<close> and the SQL function
    \<open>transition_agent_reply_turn\<close> of the last migration, with retention; one unfinished turn for each chat, a message
    belongs to one turn, the right to send is granted once, an acknowledged turn has nothing to project.
  \<^item> \<open>ReplyService\<close>, \<open>ReplyServiceInv\<close>: \<open>reply-turns.repository.ts\<close>, \<open>reply-turns.service.ts\<close> and
    \<open>reply-recovery-lease.service.ts\<close>, with everything that can go wrong between them and the tables.
  \<^item> \<open>ReplyErrors\<close>: \<open>reply-send-error.ts\<close>, \<open>http-request-error.ts\<close>.
  \<^item> \<open>ReplyDelivery\<close>, \<open>ReplyDeliveryInv\<close>: \<open>durable-reply-delivery.service.ts\<close> on the executor.
  \<^item> \<open>MessageDelivery\<close>: \<open>delivery.service.ts\<close>; the report of a delivery counts the segments whose sending was confirmed.
  \<^item> \<open>OrdinaryEffects\<close>: \<open>ordinary-reply-effects.ts\<close>; what is written of the business of a run is what is read back.
  \<^item> \<open>ReplyWorkflow\<close>, \<open>ReplyWorkflowInv\<close>, \<open>ReplyWorkflowSend\<close>: \<open>reply-workflow.service.ts\<close> over the services it
    calls, with the decision to repeat a run of the model (\<open>resolveReplaySkipDecision\<close>); a run that resolves
    acknowledged its turn, and nothing is sent for an ordinary turn before its effects are saved.  The rules for
    assertions about calls are in \<open>Triples\<close>.
  \<^item> \<open>MessageFailure\<close>, \<open>AnswerOnce\<close>: \<open>message-processing-failure.service.ts\<close>, and the workflow with it: a batch gets at
    most one answer, and one more only when a step after the sending fails without a durable turn, a handled input is marked, a fallback says of the actions what their receipts say.
  \<^item> \<open>ReplyRecovery\<close>: \<open>reply-recovery.service.ts\<close> on the workflow: it never runs the model, sends nothing for ordinary
    turns, and one bad turn does not hold up the others.
  \<^item> \<open>JsText\<close>, \<open>MessageMarkers\<close>, \<open>MessageParser\<close>: strings of UTF-16 units; \<open>resolution/signal/markers.ts\<close>,
    \<open>message-parser.util.ts\<close>, \<open>message-callback.dto.ts\<close>, \<open>friend-add-greeting.util.ts\<close>: the text the agent reads in a
    callback and the marks written into it, with the round trips of the marks.
  \<^item> \<open>MessageFilter\<close>, \<open>MessageIntake\<close>, \<open>IntakeOnce\<close>: \<open>message-filter.rules.ts\<close>, \<open>filter.service.ts\<close>,
    \<open>accept-inbound-message.service.ts\<close>, \<open>deduplication.service.ts\<close>: what is dispatched was filtered and claimed, and
    dispatched at most once in any order of deliveries (locale \<open>claim_once\<close>, interpreted on the Redis claims).
  \<^item> \<open>SharedSwitch\<close>: the scheme of caches of the three services that decide who is answered, with two locales: a switch whose
    snapshot is short-lived (\<open>short_lived_switch\<close>) reaches every replica within a bound, a switch that takes a failed
    read for an empty table (\<open>forgetful_switch\<close>) is forgotten by every replica.
  \<^item> \<open>GroupBlacklist\<close>: \<open>group-blacklist.service.ts\<close>, \<open>group-blacklist.repository.ts\<close>, a short-lived switch.
  \<^item> \<open>UserHosting\<close>, \<open>CandidateBlacklist\<close>: \<open>user-hosting.service.ts\<close>, \<open>user-hosting.repository.ts\<close>,
    \<open>candidate-blacklist.service.ts\<close>, \<open>candidate-blacklist.repository.ts\<close>, which are forgetful; without faults and with calls that
    do not overlap the pauses of one process refine a map from users to times, up to the rows that fit into one answer.
  \<^item> \<open>MessageMerge\<close>: \<open>simple-merge.service.ts\<close> and the job handler of \<open>message.processor.ts\<close> as a step relation, in
    which adding a message takes several steps that can be interrupted; a message that waits has a check to come unless a
    failure was reported or the process died while it was added.
  \<^item> \<open>WorkerManager\<close>: \<open>message-worker-manager.service.ts\<close>; a change of the limit begins with the check of the code and ends
    when the limit was stored, with other events in between.
  \<^item> \<open>RedisLease\<close>: \<open>redis-lease.service.ts\<close>, \<open>lease-keys.ts\<close> and the commands of \<open>redis.service.ts\<close> it uses.
  \<^item> \<open>TouchLedger\<close>: \<open>touch-ledger.service.ts\<close>; after any history of calls the frequency limit, the cooldown and the
    answer of a reservation are what the history says.
  \<^item> \<open>ScenarioRegistry\<close>, \<open>FollowUpScheduler\<close>: \<open>scenario-registry.ts\<close>, \<open>follow-up-scheduler.service.ts\<close> on the documented Bull
    queue, with workers and other callers that act between any two requests: every job is well typed under an id that its data
    determine, and a candidate waits for one touch at a time while no two calls for his session overlap.
  \<^item> \<open>FollowUpProcessor\<close>, \<open>FollowUpOnce\<close>: \<open>follow-up.processor.ts\<close>, what happens when a touch comes due: each gate alone
    holds it back, and it is delivered at most once in three days (locale \<open>touch_slots\<close>, what a ledger promises of one
    slot, interpreted on \<open>TouchLedger\<close> over a Redis server whose keys expire).
  \<^item> \<open>LegacyProgress\<close>, \<open>BookingSnapshot\<close>: \<open>legacy-progress.policies.ts\<close>, \<open>booking-snapshot.util.ts\<close>,
    \<open>booking-snapshot.service.ts\<close>: what the work orders of the outside platform say of a candidate; that there is no
    booking or no open order is said only when it was answered.
  \<^item> \<open>OobReconcile\<close>, \<open>OobOnce\<close>: \<open>oob-reconcile.service.ts\<close> on the scheduler, the snapshots and the documented Redis
    commands: a reminder is asked for at most once in thirty days (locale \<open>claimed_request\<close>, interpreted on the markers in
    Redis), and a booked session is set free only on the answer of the platform.
  \<^item> \<open>OobScan\<close>: \<open>oob-reconcile-scan.cron.ts\<close>, the paged scan that starts reconciliations; it neither skips a row nor starts
    over, wherever a run stops.
  \<^item> \<open>CronRunner\<close>: \<open>cron-runner.service.ts\<close>, \<open>cron.constants.ts\<close>; every batch runs while this process holds the lease, within
    what is left of the budget of rows.
  \<^item> \<open>SupabaseCircuit\<close>, \<open>SupabaseRepository\<close>: \<open>supabase-circuit-breaker.ts\<close>, \<open>base.repository.ts\<close>.

  \<^bold>\<open>Bounds.\<close>  The loops of the source that depend on the clock carry fuel: \<open>acquire_loop\<close> gets one round for every
  ten milliseconds of the wait and two more, which \<open>acquire_fuel_enough\<close> shows to suffice because a pause
  lasts at least ten milliseconds; \<open>batch_loop\<close> gets one round for every row of the budget and one more, which
  \<open>batch_loop_fuel\<close> shows to suffice because a round that does not end the loop handled at least one row;
  the paged reads take their fuel as an argument and \<open>selectAllPaged_complete\<close> names how much is enough;
  the loop over pages of the scan and its attempts count down the limits that the code itself has.

  \<^bold>\<open>What the code does not provide for.\<close>  Where a promise needs a condition that the code does not enforce, the condition is a
  hypothesis of its theorem and a lemma beside it is a run in which it fails: \<open>crash_leaves_message_behind\<close>,
  \<open>failed_telemetry_sends_twice\<close>, \<open>overlapping_calls_leave_two\<close>, \<open>overlapping_pause_is_lost\<close>, \<open>pauses_are_cut_off\<close>.

  \<^bold>\<open>Not modelled.\<close>  Prompts, the calls of the language model and the guard rules over its text; extraction of facts
  from Chinese text and its data; the tools that format a remote service's answers; dashboards, statistics,
  notifications and the web frontend; log lines.  Within the modelled files: the lookup of past
  conversations by the processor, the callback appended to a turn (\<open>append_agent_reply_callback\<close>), the log of reviews.
  Of \<open>src/agent/reengagement\<close> the anchors that schedule a touch and the agent that writes the text.
\<close>

end
